(* ===== verification/OJ_Prelude.thy ===== *)
theory OJ_Prelude
  imports Complex_Main "HOL-Library.Word" "HOL-Library.List_Lexorder"
begin

text \<open>
  Shared vocabulary of the development: Rust strings, JSON values, errors, time stamps and
  identifiers, and the generic lemmas the component theories use.

  A Rust \<open>String\<close> is the list of its Unicode scalar values (\<open>rstring\<close>), so
  \<open>chars().count()\<close> is \<open>length\<close>, \<open>chars().take(n)\<close> is \<open>take n\<close>, and the byte order of
  \<open>Ord for str\<close> is the lexicographic order of scalar values (UTF-8 preserves it). The
  function \<open>str\<close> turns an Isabelle literal into such a list.
\<close>

section \<open>Rust strings\<close>

type_synonym rstring = "nat list"

definition str :: "string \<Rightarrow> rstring" where
  "str s = map of_char s"

lemma of_char_nat_inject [simp]: "(of_char c :: nat) = of_char d \<longleftrightarrow> c = d"
  by simp

lemma str_eq_iff [simp]: "str a = str b \<longleftrightarrow> a = b"
proof -
  have "inj (of_char :: char \<Rightarrow> nat)"
    by (auto intro: injI)
  then show ?thesis
    by (simp add: str_def inj_map_eq_map)
qed

lemma str_Nil [simp]: "str [] = []"
  by (simp add: str_def)

lemma str_eq_Nil_iff [simp]: "str s = [] \<longleftrightarrow> s = []" "[] = str s \<longleftrightarrow> s = []"
  by (auto simp: str_def)

lemma str_append: "str (a @ b) = str a @ str b"
  by (simp add: str_def)

lemma length_str [simp]: "length (str s) = length s"
  by (simp add: str_def)

text \<open>\<open>char::is_whitespace\<close>: the scalar values with the Unicode property White\_Space.\<close>

definition is_whitespace :: "nat \<Rightarrow> bool" where
  "is_whitespace c \<longleftrightarrow>
     9 \<le> c \<and> c \<le> 13 \<or> c = 32 \<or> c = 133 \<or> c = 160 \<or> c = 5760 \<or> 8192 \<le> c \<and> c \<le> 8202
     \<or> c = 8232 \<or> c = 8233 \<or> c = 8239 \<or> c = 8287 \<or> c = 12288"

definition trim_start :: "rstring \<Rightarrow> rstring" where
  "trim_start s = dropWhile is_whitespace s"

definition trim_end :: "rstring \<Rightarrow> rstring" where
  "trim_end s = rev (dropWhile is_whitespace (rev s))"

definition trim :: "rstring \<Rightarrow> rstring" where
  "trim s = trim_end (trim_start s)"

lemma trim_Nil [simp]: "trim [] = []"
  by (simp add: trim_def trim_end_def trim_start_def)

lemma dropWhile_rev_dropWhile:
  "dropWhile P (rev (dropWhile P (rev (dropWhile P xs)))) = rev (dropWhile P (rev (dropWhile P xs)))"
proof (cases "dropWhile P xs = []")
  case True
  then show ?thesis by (simp only: rev.simps dropWhile.simps)
next
  case False
  then obtain y ys where yys: "dropWhile P xs = y # ys" by (cases "dropWhile P xs") auto
  then have "\<not> P y" by (metis hd_dropWhile list.sel(1) list.distinct(1))
  then have "rev (dropWhile P (rev (y # ys))) = y # rev (dropWhile P (rev ys))"
    by (auto simp: dropWhile_append)
  with yys \<open>\<not> P y\<close> show ?thesis by simp
qed

lemma trim_trim [simp]: "trim (trim s) = trim s"
  by (simp add: trim_def trim_start_def trim_end_def dropWhile_rev_dropWhile dropWhile_idem)

lemma trim_eq_Nil_iff: "trim s = [] \<longleftrightarrow> (\<forall>c \<in> set s. is_whitespace c)"
proof
  assume "trim s = []"
  then have "\<forall>c \<in> set (dropWhile is_whitespace s). is_whitespace c"
    by (simp add: trim_def trim_end_def trim_start_def)
  then have "dropWhile is_whitespace s = []"
    by (metis hd_dropWhile hd_in_set)
  then show "\<forall>c \<in> set s. is_whitespace c"
    by simp
next
  assume "\<forall>c \<in> set s. is_whitespace c"
  then have "dropWhile is_whitespace s = []" by simp
  then show "trim s = []" by (simp only: trim_def trim_end_def trim_start_def rev.simps dropWhile.simps)
qed

lemma trim_word: "list_all (\<lambda>c. \<not> is_whitespace c) s \<Longrightarrow> trim s = s"
proof -
  assume a: "list_all (\<lambda>c. \<not> is_whitespace c) s"
  have drop: "list_all (\<lambda>c. \<not> is_whitespace c) xs \<Longrightarrow> dropWhile is_whitespace xs = xs" for xs
    by (cases xs) auto
  show "trim s = s"
    using drop [of s] drop [of "rev s"] a by (simp add: trim_def trim_start_def trim_end_def)
qed

text \<open>\<open>starts_with\<close>, \<open>join\<close>, and the decimal form of an unsigned integer in \<open>format!\<close>.\<close>

fun starts_with :: "rstring \<Rightarrow> rstring \<Rightarrow> bool" where
  "starts_with s [] = True"
| "starts_with [] (p # ps) = False"
| "starts_with (c # s) (p # ps) = (c = p \<and> starts_with s ps)"

lemma starts_with_append [simp]: "starts_with (p @ s) p"
  by (induction p) auto

lemma starts_with_iff: "starts_with s p \<longleftrightarrow> (\<exists>r. s = p @ r)"
  by (induction s p rule: starts_with.induct) auto

fun join :: "rstring \<Rightarrow> rstring list \<Rightarrow> rstring" where
  "join sep [] = []"
| "join sep [x] = x"
| "join sep (x # y # ys) = x @ sep @ join sep (y # ys)"

fun nat_str :: "nat \<Rightarrow> rstring" where
  "nat_str n = (if n < 10 then [48 + n] else nat_str (n div 10) @ [48 + n mod 10])"

declare nat_str.simps [simp del]

definition int_str :: "int \<Rightarrow> rstring" where
  "int_str x = (if x < 0 then 45 # nat_str (nat (- x)) else nat_str (nat x))"

text \<open>
  \<open>find\<close> of a pattern (its offset counted in scalar values), of a character, and \<open>split_once\<close>.
\<close>

fun find_sub :: "rstring \<Rightarrow> rstring \<Rightarrow> nat option" where
  "find_sub pat [] = (if pat = [] then Some 0 else None)"
| "find_sub pat (c # s) =
     (if starts_with (c # s) pat then Some 0 else map_option Suc (find_sub pat s))"

definition find_char :: "nat \<Rightarrow> rstring \<Rightarrow> nat option" where
  "find_char c s = find_sub [c] s"

definition split_once :: "nat \<Rightarrow> rstring \<Rightarrow> (rstring \<times> rstring) option" where
  "split_once c s = map_option (\<lambda>i. (take i s, drop (i + 1) s)) (find_char c s)"

lemma find_sub_bound: "find_sub pat s = Some i \<Longrightarrow> i + length pat \<le> length s"
proof (induction s arbitrary: i)
  case (Cons c s)
  show ?case
  proof (cases "starts_with (c # s) pat")
    case True
    then obtain r where "c # s = pat @ r" by (auto simp: starts_with_iff)
    then have "length pat \<le> length (c # s)" by (simp only: length_append)
    with True Cons.prems show ?thesis by (simp del: starts_with.simps)
  next
    case False
    with Cons show ?thesis by (auto simp del: starts_with.simps)
  qed
qed (auto split: if_splits)

lemma find_char_bound: "find_char c s = Some i \<Longrightarrow> i < length s"
  using find_sub_bound [of "[c]" s i] by (simp add: find_char_def)

lemma find_char_append: "c \<notin> set a \<Longrightarrow> find_char c (a @ c # r) = Some (length a)"
  by (induction a) (auto simp: find_char_def)

lemma find_char_None: "c \<notin> set s \<Longrightarrow> find_char c s = None"
  by (induction s) (auto simp: find_char_def)

lemma split_once_append: "c \<notin> set a \<Longrightarrow> split_once c (a @ c # r) = Some (a, r)"
  by (simp add: split_once_def find_char_append)

lemma starts_with_across:
  assumes "c \<notin> set p" "a \<noteq> []" "starts_with (a @ c # r) (c # p)"
  shows "starts_with a (c # p)"
proof -
  obtain rest where eq: "a @ c # r = (c # p) @ rest" using assms(3) by (auto simp: starts_with_iff)
  have "length (c # p) \<le> length a"
  proof (rule ccontr)
    assume "\<not> length (c # p) \<le> length a"
    then have lt: "length a < length (c # p)" by simp
    have "(c # p) ! length a = c" using eq lt by (metis nth_append nth_append_length)
    then have "p ! (length a - 1) = c" "length a - 1 < length p"
      using assms(2) lt by (cases a; simp)+
    then show False using assms(1) by (metis nth_mem)
  qed
  then have "take (length (c # p)) a = c # p"
    using eq by (metis append_eq_conv_conj take_append diff_is_0_eq' take0 append_Nil2)
  then show ?thesis by (metis append_take_drop_id starts_with_append)
qed

lemma find_sub_append:
  assumes "c \<notin> set p" "find_sub (c # p) a = None"
  shows "find_sub (c # p) (a @ (c # p) @ r) = Some (length a)"
  using assms(2)
proof (induction a)
  case Nil
  then show ?case by (simp add: starts_with_iff)
next
  case (Cons x a)
  then have no: "\<not> starts_with (x # a) (c # p)" and rec: "find_sub (c # p) a = None"
    by (auto split: if_splits simp del: starts_with.simps)
  have "\<not> starts_with ((x # a) @ c # (p @ r)) (c # p)"
    using starts_with_across [OF assms(1), of "x # a" "p @ r"] no by blast
  then show ?case using Cons.IH [OF rec] by (simp del: starts_with.simps)
qed

section \<open>JSON values\<close>

text \<open>
  \<open>serde_json::Value\<close>. An object is the list of its entries; a number is an integer or a
  float (a float as the rational it denotes).
\<close>

datatype json =
    JNull
  | JBool bool
  | JInt int
  | JFloat rat
  | JStr rstring
  | JArr "json list"
  | JObj "(rstring \<times> json) list"

text \<open>\<open>value[key]\<close>: Null when the value is no object or has no such key.\<close>

fun jget :: "json \<Rightarrow> rstring \<Rightarrow> json" where
  "jget (JObj kvs) k = (case map_of kvs k of Some v \<Rightarrow> v | None \<Rightarrow> JNull)"
| "jget _ k = JNull"

fun as_str :: "json \<Rightarrow> rstring option" where
  "as_str (JStr s) = Some s"
| "as_str _ = None"

definition jopt :: "('a \<Rightarrow> json) \<Rightarrow> 'a option \<Rightarrow> json" where
  "jopt f x = (case x of None \<Rightarrow> JNull | Some y \<Rightarrow> f y)"

section \<open>Errors, time, identifiers\<close>

text \<open>
  \<open>anyhow::Error\<close> is the chain of its messages, outermost context first: \<open>to_string\<close> shows
  the outermost one, the alternate form \<open>{error:#}\<close> the whole chain joined by a colon.
\<close>

datatype err = Err "rstring list"

fun err_chain :: "err \<Rightarrow> rstring list" where
  "err_chain (Err c) = c"

definition bail :: "rstring \<Rightarrow> err" where
  "bail m = Err [m]"

definition err_context :: "rstring \<Rightarrow> err \<Rightarrow> err" where
  "err_context m e = Err (m # err_chain e)"

definition err_display :: "err \<Rightarrow> rstring" where
  "err_display e = (case err_chain e of [] \<Rightarrow> [] | m # _ \<Rightarrow> m)"

definition err_display_alt :: "err \<Rightarrow> rstring" where
  "err_display_alt e = join (str '': '') (err_chain e)"

text \<open>\<open>DateTime<Utc>\<close> as its instant; \<open>Uuid\<close> values are only compared and printed.\<close>

type_synonym time = int
type_synonym uuid = nat
type_synonym u64 = "64 word"

text \<open>
  The \<open>uuid\<close> crate is third-party code: its operations are a parameter of the model.
  \<open>uuid_lib_ok\<close> states the documented round trip of the textual form.
\<close>

record uuid_lib =
  uuid_to_string :: "uuid \<Rightarrow> rstring"
  uuid_parse_str :: "rstring \<Rightarrow> uuid option"
  uuid_new_v5 :: "rstring \<Rightarrow> uuid"

definition uuid_lib_ok :: "uuid_lib \<Rightarrow> bool" where
  "uuid_lib_ok U \<longleftrightarrow> (\<forall>u. uuid_parse_str U (uuid_to_string U u) = Some u)"

lemma uuid_parse_to_string [simp]:
  "uuid_lib_ok U \<Longrightarrow> uuid_parse_str U (uuid_to_string U u) = Some u"
  by (simp add: uuid_lib_ok_def)

text \<open>A concrete instance for the witnesses.\<close>

definition demo_uuid_lib :: uuid_lib where
  "demo_uuid_lib =
     \<lparr>uuid_to_string = (\<lambda>u. [u]),
      uuid_parse_str = (\<lambda>s. case s of [u] \<Rightarrow> Some u | _ \<Rightarrow> None),
      uuid_new_v5 = (\<lambda>s. foldl (\<lambda>h c. h * 1114112 + c + 1) 0 s)\<rparr>"

lemma demo_uuid_lib_ok: "uuid_lib_ok demo_uuid_lib"
  by (simp add: uuid_lib_ok_def demo_uuid_lib_def)

section \<open>Generic lemmas\<close>

lemma u64_succ_neq [simp]: "(w::u64) + 1 \<noteq> w"
  by simp

lemma sorted_distinct_strict:
  "sorted xs \<Longrightarrow> distinct xs \<Longrightarrow> sorted_wrt (<) (xs :: 'a::linorder list)"
  by (simp add: strict_sorted_iff)

lemma remdups_adj_sorted_distinct:
  "sorted (xs :: 'a::linorder list) \<Longrightarrow> distinct (remdups_adj xs)"
proof (induction xs rule: remdups_adj.induct)
  case (3 x y xs)
  then show ?case
    by (auto simp: remdups_adj_set)
qed auto

end
