(* ===== verification/OJ_Chat.thy ===== *)
theory OJ_Chat
  imports OJ_Prelude
begin

text \<open>
  The unified chat message protocol: \<open>src/context/mod.rs\<close> and \<open>src/context/token_kind.rs\<close>.
\<close>

datatype chat_message_role = RoleSystem | RoleUser | RoleAssistant | RoleToolcall | RoleToolResult

fun as_label :: "chat_message_role \<Rightarrow> rstring" where
  "as_label RoleSystem = str ''system''"
| "as_label RoleUser = str ''user''"
| "as_label RoleAssistant = str ''assistant''"
| "as_label RoleToolcall = str ''toolcall''"
| "as_label RoleToolResult = str ''tool_result''"

lemma as_label_inject [simp]: "as_label a = as_label b \<longleftrightarrow> a = b"
  by (cases a; cases b) simp_all

record chat_tool_call =
  tc_id :: rstring
  tc_name :: rstring
  tc_arguments :: json

record chat_message =
  msg_role :: chat_message_role
  msg_content :: rstring
  msg_tool_calls :: "chat_tool_call list"
  msg_tool_call_id :: "rstring option"
  msg_created_at :: time

definition chat_message_new :: "chat_message_role \<Rightarrow> rstring \<Rightarrow> time \<Rightarrow> chat_message" where
  "chat_message_new role content created_at =
     \<lparr>msg_role = role, msg_content = content, msg_tool_calls = [], msg_tool_call_id = None,
      msg_created_at = created_at\<rparr>"

definition with_tool_calls :: "chat_message \<Rightarrow> chat_tool_call list \<Rightarrow> chat_message" where
  "with_tool_calls m calls = m\<lparr>msg_tool_calls := calls\<rparr>"

definition with_tool_call_id :: "chat_message \<Rightarrow> rstring \<Rightarrow> chat_message" where
  "with_tool_call_id m i = m\<lparr>msg_tool_call_id := Some i\<rparr>"

lemma chat_message_new_sel [simp]:
  "msg_role (chat_message_new r c t) = r"
  "msg_content (chat_message_new r c t) = c"
  "msg_tool_calls (chat_message_new r c t) = []"
  "msg_tool_call_id (chat_message_new r c t) = None"
  "msg_created_at (chat_message_new r c t) = t"
  by (simp_all add: chat_message_new_def)

lemma with_tool_calls_sel [simp]:
  "msg_role (with_tool_calls m cs) = msg_role m"
  "msg_content (with_tool_calls m cs) = msg_content m"
  "msg_tool_calls (with_tool_calls m cs) = cs"
  "msg_tool_call_id (with_tool_calls m cs) = msg_tool_call_id m"
  "msg_created_at (with_tool_calls m cs) = msg_created_at m"
  by (simp_all add: with_tool_calls_def)

lemma with_tool_call_id_sel [simp]:
  "msg_role (with_tool_call_id m i) = msg_role m"
  "msg_content (with_tool_call_id m i) = msg_content m"
  "msg_tool_calls (with_tool_call_id m i) = msg_tool_calls m"
  "msg_tool_call_id (with_tool_call_id m i) = Some i"
  "msg_created_at (with_tool_call_id m i) = msg_created_at m"
  by (simp_all add: with_tool_call_id_def)

abbreviation is_system :: "chat_message \<Rightarrow> bool" where
  "is_system m \<equiv> msg_role m = RoleSystem"

text \<open>The token buckets of the context budget.\<close>

datatype context_token_kind = KindSystem | KindChat | KindVisibleTool | KindReservedOutput

definition context_token_kind_ALL :: "context_token_kind list" where
  "context_token_kind_ALL = [KindSystem, KindChat, KindVisibleTool, KindReservedOutput]"

fun kind_as_str :: "context_token_kind \<Rightarrow> rstring" where
  "kind_as_str KindSystem = str ''system_tokens''"
| "kind_as_str KindChat = str ''chat_tokens''"
| "kind_as_str KindVisibleTool = str ''visible_tool_tokens''"
| "kind_as_str KindReservedOutput = str ''reserved_output_tokens''"

fun for_chat_message_role :: "chat_message_role \<Rightarrow> context_token_kind" where
  "for_chat_message_role RoleSystem = KindSystem"
| "for_chat_message_role RoleUser = KindChat"
| "for_chat_message_role RoleAssistant = KindChat"
| "for_chat_message_role RoleToolcall = KindChat"
| "for_chat_message_role RoleToolResult = KindChat"

lemma for_chat_message_role_eq:
  "for_chat_message_role r = (if r = RoleSystem then KindSystem else KindChat)"
  by (cases r) simp_all

lemma set_context_token_kind_ALL: "set context_token_kind_ALL = UNIV"
proof -
  have "k \<in> set context_token_kind_ALL" for k
    by (cases k) (simp_all add: context_token_kind_ALL_def)
  then show ?thesis by auto
qed

lemma distinct_context_token_kind_ALL: "distinct context_token_kind_ALL"
  by (simp add: context_token_kind_ALL_def)

end
