(* ===== verification/OJ_Thread.thy ===== *)
theory OJ_Thread
  imports OJ_Chat
begin

text \<open>
  The thread aggregate, \<open>src/thread.rs\<close>: a thread owns its persisted messages, its non-message
  state and at most one unfinished turn. Fresh \<open>Uuid::new_v4()\<close> values and \<open>Utc::now()\<close>
  readings are arguments of the operations that take them; logging is left out.
\<close>

section \<open>State\<close>

definition derive_internal_thread_id :: "uuid_lib \<Rightarrow> rstring \<Rightarrow> uuid" where
  "derive_internal_thread_id U thread_key = uuid_new_v5 U thread_key"

datatype thread_tool_event_kind = LoadToolset | UnloadToolset | ExecuteTool

record thread_tool_event =
  te_id :: uuid
  te_turn_id :: "uuid option"
  te_kind :: thread_tool_event_kind
  te_toolset_name :: "rstring option"
  te_tool_name :: "rstring option"
  te_tool_call_id :: "rstring option"
  te_arguments :: "json option"
  te_metadata :: json
  te_is_error :: bool
  te_recorded_at :: time

definition default_tool_event_metadata :: json where
  "default_tool_event_metadata = JObj []"

definition thread_tool_event_new :: "uuid \<Rightarrow> thread_tool_event_kind \<Rightarrow> time \<Rightarrow> thread_tool_event" where
  "thread_tool_event_new fresh kind recorded_at =
     \<lparr>te_id = fresh, te_turn_id = None, te_kind = kind, te_toolset_name = None,
      te_tool_name = None, te_tool_call_id = None, te_arguments = None,
      te_metadata = default_tool_event_metadata, te_is_error = False,
      te_recorded_at = recorded_at\<rparr>"

definition with_turn_id :: "uuid \<Rightarrow> thread_tool_event \<Rightarrow> thread_tool_event" where
  "with_turn_id t e = e\<lparr>te_turn_id := Some t\<rparr>"

datatype thread_turn_event_kind = TextOutput | ToolCall | ToolResult | Compact

record thread_turn_event =
  tv_kind :: thread_turn_event_kind
  tv_content :: rstring
  tv_metadata :: json

datatype thread_finalized_turn_status = Succeeded | Failed rstring

record thread_current_turn =
  ct_turn_id :: uuid
  ct_external_message_id :: "rstring option"
  ct_started_at :: time
  ct_buffered_events :: "thread_turn_event list"
  ct_tool_events :: "thread_tool_event list"

definition thread_current_turn_new :: "uuid \<Rightarrow> rstring option \<Rightarrow> time \<Rightarrow> thread_current_turn" where
  "thread_current_turn_new fresh external_message_id started_at =
     \<lparr>ct_turn_id = fresh, ct_external_message_id = external_message_id,
      ct_started_at = started_at, ct_buffered_events = [], ct_tool_events = []\<rparr>"

record thread_context_locator =
  tcl_session_id :: "rstring option"
  tcl_channel :: rstring
  tcl_user_id :: rstring
  tcl_external_thread_id :: rstring
  tcl_thread_id :: rstring

definition tcl_thread_key :: "thread_context_locator \<Rightarrow> rstring" where
  "tcl_thread_key l =
     tcl_user_id l @ str '':'' @ tcl_channel l @ str '':'' @ tcl_external_thread_id l"

record thread_feature_state =
  auto_compact_override :: "bool option"

record thread_tool_state =
  loaded_toolsets :: "rstring list"
  tool_events :: "thread_tool_event list"

record thread_approval_request =
  ar_id :: uuid
  ar_action :: rstring
  ar_metadata :: json
  ar_requested_at :: time

record thread_approval_decision =
  ad_request_id :: uuid
  ad_approved :: bool
  ad_metadata :: json
  ad_decided_at :: time

record thread_approval_state =
  ap_pending :: "thread_approval_request list"
  ap_decisions :: "thread_approval_decision list"

record thread_state =
  ts_features :: thread_feature_state
  ts_tools :: thread_tool_state
  ts_approval :: thread_approval_state

definition thread_state_default :: thread_state where
  "thread_state_default =
     \<lparr>ts_features = \<lparr>auto_compact_override = None\<rparr>,
      ts_tools = \<lparr>loaded_toolsets = [], tool_events = []\<rparr>,
      ts_approval = \<lparr>ap_pending = [], ap_decisions = []\<rparr>\<rparr>"

record thread_context =
  tx_messages :: "chat_message list"
  tx_created_at :: time
  tx_updated_at :: time

definition thread_context_new :: "time \<Rightarrow> thread_context" where
  "thread_context_new now = \<lparr>tx_messages = [], tx_created_at = now, tx_updated_at = now\<rparr>"

record thread =
  th_locator :: thread_context_locator
  th_thread :: thread_context
  th_state :: thread_state
  th_revision :: u64
  th_pending_tool_events :: "thread_tool_event list"
  th_current_turn :: "thread_current_turn option"

record thread_finalized_turn =
  ft_turn_id :: uuid
  ft_external_message_id :: "rstring option"
  ft_started_at :: time
  ft_completed_at :: time
  ft_reply :: rstring
  ft_status :: thread_finalized_turn_status
  ft_events :: "thread_turn_event list"
  ft_snapshot :: thread

abbreviation messages :: "thread \<Rightarrow> chat_message list" where
  "messages t \<equiv> tx_messages (th_thread t)"

abbreviation load_toolsets :: "thread \<Rightarrow> rstring list" where
  "load_toolsets t \<equiv> loaded_toolsets (ts_tools (th_state t))"

abbreviation load_tool_events :: "thread \<Rightarrow> thread_tool_event list" where
  "load_tool_events t \<equiv> tool_events (ts_tools (th_state t))"

definition upd_toolsets :: "(rstring list \<Rightarrow> rstring list) \<Rightarrow> thread \<Rightarrow> thread" where
  "upd_toolsets f t =
     t\<lparr>th_state := (th_state t)\<lparr>ts_tools := (ts_tools (th_state t))
        \<lparr>loaded_toolsets := f (load_toolsets t)\<rparr>\<rparr>\<rparr>"

definition upd_tool_events :: "(thread_tool_event list \<Rightarrow> thread_tool_event list) \<Rightarrow> thread \<Rightarrow> thread" where
  "upd_tool_events f t =
     t\<lparr>th_state := (th_state t)\<lparr>ts_tools := (ts_tools (th_state t))
        \<lparr>tool_events := f (load_tool_events t)\<rparr>\<rparr>\<rparr>"

section \<open>Operations\<close>

definition thread_new :: "thread_context_locator \<Rightarrow> time \<Rightarrow> thread" where
  "thread_new locator now =
     \<lparr>th_locator = locator, th_thread = thread_context_new now, th_state = thread_state_default,
      th_revision = 0, th_pending_tool_events = [], th_current_turn = None\<rparr>"

definition rebind_locator :: "thread_context_locator \<Rightarrow> thread \<Rightarrow> thread" where
  "rebind_locator locator t = t\<lparr>th_locator := locator\<rparr>"

definition set_revision :: "u64 \<Rightarrow> thread \<Rightarrow> thread" where
  "set_revision r t = t\<lparr>th_revision := r\<rparr>"

definition replace_messages :: "chat_message list \<Rightarrow> time \<Rightarrow> thread \<Rightarrow> thread" where
  "replace_messages replacement updated_at t =
     t\<lparr>th_thread := (th_thread t)\<lparr>tx_messages := replacement, tx_updated_at := updated_at\<rparr>\<rparr>"

definition pending_tool_events :: "thread \<Rightarrow> thread_tool_event list" where
  "pending_tool_events t =
     (case th_current_turn t of Some turn \<Rightarrow> ct_tool_events turn | None \<Rightarrow> th_pending_tool_events t)"

definition record_tool_event :: "thread_tool_event \<Rightarrow> thread \<Rightarrow> thread" where
  "record_tool_event event t =
     (case th_current_turn t of
        Some turn \<Rightarrow>
          t\<lparr>th_current_turn := Some (turn\<lparr>ct_tool_events := ct_tool_events turn @ [event]\<rparr>)\<rparr>
      | None \<Rightarrow> t\<lparr>th_pending_tool_events := th_pending_tool_events t @ [event]\<rparr>)"

definition current_turn_events :: "thread \<Rightarrow> thread_turn_event list" where
  "current_turn_events t =
     (case th_current_turn t of Some turn \<Rightarrow> ct_buffered_events turn | None \<Rightarrow> [])"

definition current_turn_id :: "thread \<Rightarrow> uuid option" where
  "current_turn_id t = map_option ct_turn_id (th_current_turn t)"

definition open_turn :: "uuid \<Rightarrow> rstring option \<Rightarrow> time \<Rightarrow> thread \<Rightarrow> err + thread" where
  "open_turn fresh external_message_id started_at t =
     (if th_current_turn t \<noteq> None
      then Inl (bail (str ''thread `'' @ tcl_thread_id (th_locator t) @
                      str ''` already owns one unfinished turn''))
      else
        let turn = thread_current_turn_new fresh external_message_id started_at in
        let turn' = turn\<lparr>ct_tool_events := ct_tool_events turn @ th_pending_tool_events t\<rparr> in
        Inr (t\<lparr>th_pending_tool_events := [], th_current_turn := Some turn'\<rparr>))"

definition begin_turn :: "uuid \<Rightarrow> rstring option \<Rightarrow> time \<Rightarrow> thread \<Rightarrow> err + thread" where
  "begin_turn fresh external_message_id started_at t =
     open_turn fresh external_message_id started_at t"

definition current_turn_mut :: "thread \<Rightarrow> err + thread_current_turn" where
  "current_turn_mut t =
     (case th_current_turn t of
        Some turn \<Rightarrow> Inr turn
      | None \<Rightarrow> Inl (bail (str ''thread `'' @ tcl_thread_id (th_locator t) @
                           str ''` does not own one active turn'')))"

definition append_message :: "chat_message \<Rightarrow> thread \<Rightarrow> err + thread" where
  "append_message message t =
     (case current_turn_mut t of
        Inl e \<Rightarrow> Inl e
      | Inr turn \<Rightarrow>
          let c = th_thread t in
          let c1 = (if tx_created_at c > msg_created_at message
                    then c\<lparr>tx_created_at := msg_created_at message\<rparr> else c) in
          let c2 = c1\<lparr>tx_updated_at := msg_created_at message\<rparr> in
          Inr (t\<lparr>th_thread := c2\<lparr>tx_messages := tx_messages c2 @ [message]\<rparr>\<rparr>))"

definition buffer_turn_event :: "thread_turn_event \<Rightarrow> thread \<Rightarrow> err + thread" where
  "buffer_turn_event event t =
     (case current_turn_mut t of
        Inl e \<Rightarrow> Inl e
      | Inr turn \<Rightarrow>
          Inr (t\<lparr>th_current_turn :=
                   Some (turn\<lparr>ct_buffered_events := ct_buffered_events turn @ [event]\<rparr>)\<rparr>))"

definition replace_messages_after_compaction ::
    "time \<Rightarrow> chat_message list \<Rightarrow> thread \<Rightarrow> err + thread" where
  "replace_messages_after_compaction now compacted_messages t =
     (case current_turn_mut t of
        Inl e \<Rightarrow> Inl e
      | Inr turn \<Rightarrow>
          let persisted_messages = filter is_system (messages t) in
          let updated_at = (if compacted_messages = [] then now
                            else msg_created_at (last compacted_messages)) in
          Inr (replace_messages (persisted_messages @ compacted_messages) updated_at t))"

text \<open>
  The common tail of both finalizations: the turn is taken, the time stamps move, and the turn's
  tool events are bound to the turn id and appended to the persisted history.
\<close>

definition no_turn_to_finalize :: "thread \<Rightarrow> err" where
  "no_turn_to_finalize t =
     bail (str ''thread `'' @ tcl_thread_id (th_locator t) @
           str ''` does not own one active turn to finalize'')"

definition close_turn :: "thread_current_turn \<Rightarrow> time \<Rightarrow> thread \<Rightarrow> thread" where
  "close_turn turn completed_at t =
     (let t1 = t\<lparr>th_current_turn := None\<rparr> in
      let c1 = (th_thread t1)\<lparr>tx_updated_at := completed_at\<rparr> in
      let c2 = (if tx_created_at c1 > ct_started_at turn
                then c1\<lparr>tx_created_at := ct_started_at turn\<rparr> else c1) in
      upd_tool_events (\<lambda>es. es @ map (with_turn_id (ct_turn_id turn)) (ct_tool_events turn))
        (t1\<lparr>th_thread := c2\<rparr>))"

definition finalize_turn ::
    "thread_finalized_turn_status \<Rightarrow> rstring \<Rightarrow> time \<Rightarrow> thread \<Rightarrow> err + (thread_finalized_turn \<times> thread)"
  where
  "finalize_turn status reply completed_at t =
     (case th_current_turn t of
        None \<Rightarrow> Inl (no_turn_to_finalize t)
      | Some turn \<Rightarrow>
          let t' = close_turn turn completed_at t in
          Inr (\<lparr>ft_turn_id = ct_turn_id turn,
                ft_external_message_id = ct_external_message_id turn,
                ft_started_at = ct_started_at turn, ft_completed_at = completed_at,
                ft_reply = reply, ft_status = status, ft_events = ct_buffered_events turn,
                ft_snapshot = t'\<rparr>, t'))"

definition finalize_turn_success ::
    "rstring \<Rightarrow> time \<Rightarrow> thread \<Rightarrow> err + (thread_finalized_turn \<times> thread)" where
  "finalize_turn_success reply completed_at t = finalize_turn Succeeded reply completed_at t"

definition turn_failure_event :: "rstring \<Rightarrow> thread_turn_event" where
  "turn_failure_event failure_reply =
     \<lparr>tv_kind = TextOutput, tv_content = failure_reply,
      tv_metadata = JObj [(str ''source'', JStr (str ''turn_failure'')),
                          (str ''is_final'', JBool True), (str ''is_error'', JBool True)]\<rparr>"

definition finalize_turn_failure ::
    "rstring \<Rightarrow> time \<Rightarrow> thread \<Rightarrow> err + (thread_finalized_turn \<times> thread)" where
  "finalize_turn_failure error completed_at t =
     (case th_current_turn t of
        None \<Rightarrow> Inl (no_turn_to_finalize t)
      | Some turn \<Rightarrow>
          let failure_reply = str ''[openjarvis][agent_error] '' @ error in
          let t' = close_turn turn completed_at t in
          let events = (if ct_buffered_events turn = [] then [turn_failure_event failure_reply]
                        else ct_buffered_events turn) in
          Inr (\<lparr>ft_turn_id = ct_turn_id turn,
                ft_external_message_id = ct_external_message_id turn,
                ft_started_at = ct_started_at turn, ft_completed_at = completed_at,
                ft_reply = failure_reply, ft_status = Failed error, ft_events = events,
                ft_snapshot = t'\<rparr>, t'))"

text \<open>
  The set of loaded toolsets, kept in a sorted vector. \<open>slice_binary_search\<close> is the search of the
  standard library on a slice, with the comparison of the probe against an element given by
  the order of strings: \<open>Inr\<close> an index of an equal element, \<open>Inl\<close> the insertion point.
\<close>

definition normalize_loaded_toolsets :: "rstring list \<Rightarrow> rstring list" where
  "normalize_loaded_toolsets names =
     remdups_adj (sort (filter (\<lambda>n. n \<noteq> []) (map trim names)))"

function bsearch_base :: "'a::linorder list \<Rightarrow> 'a \<Rightarrow> nat \<Rightarrow> nat \<Rightarrow> nat" where
  "bsearch_base xs x base sz =
     (if sz \<le> 1 then base
      else bsearch_base xs x (if xs ! (base + sz div 2) > x then base else base + sz div 2)
             (sz - sz div 2))"
  by pat_completeness auto
termination
  by (relation "measure (\<lambda>(xs, x, base, sz). sz)") auto

declare bsearch_base.simps [simp del]

definition slice_binary_search :: "'a::linorder list \<Rightarrow> 'a \<Rightarrow> nat + nat" where
  "slice_binary_search xs x =
     (if xs = [] then Inl 0
      else let i = bsearch_base xs x 0 (length xs) in
           if xs ! i = x then Inr i else Inl (if xs ! i < x then i + 1 else i))"

definition replace_loaded_toolsets :: "rstring list \<Rightarrow> thread \<Rightarrow> thread" where
  "replace_loaded_toolsets names t = upd_toolsets (\<lambda>_. normalize_loaded_toolsets names) t"

definition load_toolset :: "rstring \<Rightarrow> thread \<Rightarrow> bool \<times> thread" where
  "load_toolset toolset_name t =
     (let name = trim toolset_name in
      if name = [] then (False, t)
      else
        let inserted = (case slice_binary_search (load_toolsets t) name of
                          Inl _ \<Rightarrow> True | Inr _ \<Rightarrow> False) in
        if inserted
        then (True, upd_toolsets (\<lambda>ns. remdups_adj (sort (ns @ [name]))) t)
        else (False, t))"

definition unload_toolset :: "rstring \<Rightarrow> thread \<Rightarrow> bool \<times> thread" where
  "unload_toolset toolset_name t =
     (let t' = upd_toolsets (filter (\<lambda>candidate. candidate \<noteq> toolset_name)) t in
      (length (load_toolsets t) \<noteq> length (load_toolsets t'), t'))"

definition overwrite_active_history :: "thread \<Rightarrow> thread \<Rightarrow> thread" where
  "overwrite_active_history replacement t =
     t\<lparr>th_thread := th_thread replacement, th_state := th_state replacement,
       th_pending_tool_events := th_pending_tool_events replacement,
       th_current_turn := th_current_turn replacement\<rparr>"

definition clear_to_initial_state :: "time \<Rightarrow> thread \<Rightarrow> thread" where
  "clear_to_initial_state now t =
     t\<lparr>th_thread := thread_context_new now, th_state := thread_state_default,
       th_pending_tool_events := [], th_current_turn := None\<rparr>"

definition auto_compact_enabled :: "bool \<Rightarrow> thread \<Rightarrow> bool" where
  "auto_compact_enabled default_enabled t =
     (case auto_compact_override (ts_features (th_state t)) of
        Some b \<Rightarrow> b | None \<Rightarrow> default_enabled)"

definition set_auto_compact_override :: "bool option \<Rightarrow> thread \<Rightarrow> thread" where
  "set_auto_compact_override enabled t =
     t\<lparr>th_state := (th_state t)\<lparr>ts_features := (ts_features (th_state t))
        \<lparr>auto_compact_override := enabled\<rparr>\<rparr>\<rparr>"

section \<open>Frame lemmas\<close>

lemma upd_toolsets_sel [simp]:
  "th_locator (upd_toolsets f t) = th_locator t"
  "th_thread (upd_toolsets f t) = th_thread t"
  "load_toolsets (upd_toolsets f t) = f (load_toolsets t)"
  "load_tool_events (upd_toolsets f t) = load_tool_events t"
  "ts_features (th_state (upd_toolsets f t)) = ts_features (th_state t)"
  "th_revision (upd_toolsets f t) = th_revision t"
  "th_pending_tool_events (upd_toolsets f t) = th_pending_tool_events t"
  "th_current_turn (upd_toolsets f t) = th_current_turn t"
  by (simp_all add: upd_toolsets_def)

lemma upd_tool_events_sel [simp]:
  "th_locator (upd_tool_events f t) = th_locator t"
  "th_thread (upd_tool_events f t) = th_thread t"
  "load_toolsets (upd_tool_events f t) = load_toolsets t"
  "load_tool_events (upd_tool_events f t) = f (load_tool_events t)"
  "ts_features (th_state (upd_tool_events f t)) = ts_features (th_state t)"
  "th_revision (upd_tool_events f t) = th_revision t"
  "th_pending_tool_events (upd_tool_events f t) = th_pending_tool_events t"
  "th_current_turn (upd_tool_events f t) = th_current_turn t"
  by (simp_all add: upd_tool_events_def)

lemma close_turn_sel [simp]:
  "th_locator (close_turn turn c t) = th_locator t"
  "messages (close_turn turn c t) = messages t"
  "tx_updated_at (th_thread (close_turn turn c t)) = c"
  "load_toolsets (close_turn turn c t) = load_toolsets t"
  "load_tool_events (close_turn turn c t) =
     load_tool_events t @ map (with_turn_id (ct_turn_id turn)) (ct_tool_events turn)"
  "ts_features (th_state (close_turn turn c t)) = ts_features (th_state t)"
  "th_revision (close_turn turn c t) = th_revision t"
  "th_pending_tool_events (close_turn turn c t) = th_pending_tool_events t"
  "th_current_turn (close_turn turn c t) = None"
  by (simp_all add: close_turn_def Let_def)

lemma with_turn_id_sel [simp]:
  "te_id (with_turn_id u e) = te_id e"
  "te_turn_id (with_turn_id u e) = Some u"
  by (simp_all add: with_turn_id_def)

lemma map_te_id_with_turn_id [simp]: "map te_id (map (with_turn_id u) es) = map te_id es"
  by simp

lemma te_id_comp_with_turn_id [simp]: "te_id \<circ> with_turn_id u = te_id"
  by (simp add: fun_eq_iff)

section \<open>The search of a sorted slice\<close>

lemma bsearch_base_bounds:
  "0 < sz \<Longrightarrow> base \<le> bsearch_base xs x base sz \<and> bsearch_base xs x base sz < base + sz"
proof (induction xs x base sz rule: bsearch_base.induct)
  case (1 xs x base sz)
  show ?case
  proof (cases "sz \<le> 1")
    case True
    with "1.prems" show ?thesis by (simp add: bsearch_base.simps [of xs x base sz])
  next
    case False
    then have "0 < sz - sz div 2" by simp
    with "1.IH" [OF False] show ?thesis
      by (subst (1 2) bsearch_base.simps) (use False in \<open>auto split: if_splits\<close>)
  qed
qed

text \<open>
  An element equal to the probe is never dropped: it stays in the window from \<open>base\<close> on.
\<close>

lemma bsearch_base_finds:
  assumes "sorted_wrt (<) xs" "base \<le> i" "i < base + sz" "base + sz \<le> length xs" "xs ! i = x"
  shows "bsearch_base xs x base sz = i"
  using assms
proof (induction xs x base sz rule: bsearch_base.induct)
  case (1 xs x base sz)
  show ?case
  proof (cases "sz \<le> 1")
    case True
    with "1.prems" show ?thesis by (simp add: bsearch_base.simps [of xs x base sz])
  next
    case False
    let ?mid = "base + sz div 2"
    have mid: "?mid < length xs" using "1.prems" False by simp
    have mono: "a < b \<Longrightarrow> b < length xs \<Longrightarrow> xs ! a < xs ! b" for a b
      using "1.prems"(1) by (simp add: sorted_wrt_iff_nth_less)
    show ?thesis
    proof (cases "xs ! ?mid > x")
      case True
      then have "i < ?mid"
        using mono [of ?mid i] "1.prems" by (metis leI less_imp_not_less linorder_neqE_nat
            order_le_less_trans not_less)
      with "1.IH" [OF False] True "1.prems" False show ?thesis
        by (subst bsearch_base.simps) simp
    next
      case False
      then have "?mid \<le> i"
        using mono [of i ?mid] "1.prems" mid by (metis leI)
      with "1.IH" [OF \<open>\<not> sz \<le> 1\<close>] False "1.prems" \<open>\<not> sz \<le> 1\<close> show ?thesis
        by (subst bsearch_base.simps) simp
    qed
  qed
qed

lemma slice_binary_search_iff:
  assumes "sorted_wrt (<) xs"
  shows "(\<exists>i. slice_binary_search xs x = Inr i) \<longleftrightarrow> x \<in> set xs"
proof
  assume "\<exists>i. slice_binary_search xs x = Inr i"
  then show "x \<in> set xs"
    using bsearch_base_bounds [of "length xs" 0 xs x]
    by (auto simp: slice_binary_search_def Let_def split: if_splits dest: nth_mem)
next
  assume "x \<in> set xs"
  then obtain i where "i < length xs" "xs ! i = x" by (auto simp: in_set_conv_nth)
  then show "\<exists>i. slice_binary_search xs x = Inr i"
    using bsearch_base_finds [OF assms, of 0 i "length xs" x]
    by (auto simp: slice_binary_search_def Let_def)
qed

section \<open>Loaded toolsets as an ordered set\<close>

text \<open>
  The vector of loaded toolsets is kept strictly sorted, so \<open>Vec::binary_search\<close> is exact, and
  holds trimmed non-blank names only.
\<close>

definition toolsets_ok :: "rstring list \<Rightarrow> bool" where
  "toolsets_ok ns \<longleftrightarrow> sorted_wrt (<) ns \<and> (\<forall>n \<in> set ns. n \<noteq> [] \<and> trim n = n)"

lemma sorted_wrt_less_remdups_adj:
  "sorted (xs :: 'a::linorder list) \<Longrightarrow> sorted_wrt (<) (remdups_adj xs)"
  by (simp add: strict_sorted_iff sorted_remdups_adj remdups_adj_sorted_distinct)

lemma toolsets_ok_Nil [simp]: "toolsets_ok []"
  by (simp add: toolsets_ok_def)

lemma set_normalize_loaded_toolsets:
  "set (normalize_loaded_toolsets names) = {trim n | n. n \<in> set names \<and> trim n \<noteq> []}"
  by (auto simp: normalize_loaded_toolsets_def remdups_adj_set)

lemma toolsets_ok_normalize: "toolsets_ok (normalize_loaded_toolsets names)"
  unfolding toolsets_ok_def set_normalize_loaded_toolsets
  by (auto simp: normalize_loaded_toolsets_def intro: sorted_wrt_less_remdups_adj)

lemma toolsets_ok_insert:
  assumes "toolsets_ok ns" "trim n = n" "n \<noteq> []"
  shows "toolsets_ok (remdups_adj (sort (ns @ [n])))"
  using assms by (auto simp: toolsets_ok_def remdups_adj_set intro: sorted_wrt_less_remdups_adj)

lemma sorted_wrt_filter_less: "sorted_wrt (<) (xs :: 'a::linorder list) \<Longrightarrow> sorted_wrt (<) (filter P xs)"
  by (rule sorted_wrt_filter)

lemma toolsets_ok_filter: "toolsets_ok ns \<Longrightarrow> toolsets_ok (filter P ns)"
  by (auto simp: toolsets_ok_def sorted_wrt_filter_less)

lemma toolsets_ok_determined:
  "toolsets_ok xs \<Longrightarrow> toolsets_ok ys \<Longrightarrow> set xs = set ys \<Longrightarrow> xs = ys"
  by (auto simp: toolsets_ok_def strict_sorted_iff intro: sorted_distinct_set_unique)

lemma length_filter_neq_iff: "length (filter (\<lambda>c. c \<noteq> n) xs) \<noteq> length xs \<longleftrightarrow> n \<in> set xs"
proof
  assume "length (filter (\<lambda>c. c \<noteq> n) xs) \<noteq> length xs"
  then show "n \<in> set xs" by (metis (mono_tags, lifting) filter_True)
next
  assume "n \<in> set xs"
  then show "length (filter (\<lambda>c. c \<noteq> n) xs) \<noteq> length xs"
    by (metis (mono_tags, lifting) length_filter_less less_irrefl)
qed

text \<open>What a caller of the toolset state may rely on, as an interface.\<close>

locale toolset_store =
  fixes inv :: "'t \<Rightarrow> bool"
    and loaded :: "'t \<Rightarrow> rstring set"
    and load :: "rstring \<Rightarrow> 't \<Rightarrow> bool \<times> 't"
    and unload :: "rstring \<Rightarrow> 't \<Rightarrow> bool \<times> 't"
  assumes load_inv: "inv t \<Longrightarrow> inv (snd (load n t))"
    and load_set: "inv t \<Longrightarrow> trim n \<noteq> [] \<Longrightarrow> loaded (snd (load n t)) = insert (trim n) (loaded t)"
    and load_blank: "trim n = [] \<Longrightarrow> load n t = (False, t)"
    and load_flag: "inv t \<Longrightarrow> trim n \<noteq> [] \<Longrightarrow> fst (load n t) \<longleftrightarrow> trim n \<notin> loaded t"
    and unload_inv: "inv t \<Longrightarrow> inv (snd (unload n t))"
    and unload_set: "inv t \<Longrightarrow> loaded (snd (unload n t)) = loaded t - {n}"
    and unload_flag: "inv t \<Longrightarrow> fst (unload n t) \<longleftrightarrow> n \<in> loaded t"
begin

lemma load_again:
  "inv t \<Longrightarrow> trim n \<noteq> [] \<Longrightarrow> fst (load n (snd (load n t))) = False"
  by (simp add: load_flag load_inv load_set)

lemma unload_after_load:
  "inv t \<Longrightarrow> trim n = n \<Longrightarrow> n \<noteq> [] \<Longrightarrow> n \<notin> loaded t \<Longrightarrow>
     fst (unload n (snd (load n t))) \<and> loaded (snd (unload n (snd (load n t)))) = loaded t"
  by (auto simp: load_inv load_set unload_set unload_flag)

lemma unload_twice: "inv t \<Longrightarrow> fst (unload n (snd (unload n t))) = False"
  by (simp add: unload_flag unload_inv unload_set)

end

lemma load_toolset_cases:
  assumes "toolsets_ok (load_toolsets t)"
  shows "load_toolset n t =
    (if trim n = [] \<or> trim n \<in> set (load_toolsets t) then (False, t)
     else (True, upd_toolsets (\<lambda>ns. remdups_adj (sort (ns @ [trim n]))) t))"
proof -
  have "(\<exists>i. slice_binary_search (load_toolsets t) (trim n) = Inr i) \<longleftrightarrow> trim n \<in> set (load_toolsets t)"
    using assms by (intro slice_binary_search_iff) (simp add: toolsets_ok_def)
  then show ?thesis
    by (auto simp: load_toolset_def Let_def split: sum.splits)
qed

interpretation tsets: toolset_store "\<lambda>t. toolsets_ok (load_toolsets t)" "\<lambda>t. set (load_toolsets t)"
  load_toolset unload_toolset
proof (unfold_locales, goal_cases)
  case (3 n t) then show ?case by (simp add: load_toolset_def)
next
  case (5 t n) then show ?case by (simp add: unload_toolset_def toolsets_ok_filter)
next
  case (7 t n) then show ?case using length_filter_neq_iff [of n "load_toolsets t"]
    by (auto simp: unload_toolset_def Let_def)
qed (auto simp: load_toolset_cases toolsets_ok_insert unload_toolset_def remdups_adj_set)

section \<open>Runs of thread operations\<close>

text \<open>
  A caller drives one thread through its public operations. An operation that fails returns
  before it writes anything, so the run goes on with the thread it had.
\<close>

datatype thread_op =
    OpRecordToolEvent thread_tool_event
  | OpBeginTurn uuid "rstring option" time
  | OpAppendMessage chat_message
  | OpBufferEvent thread_turn_event
  | OpCompaction time "chat_message list"
  | OpFinalizeSuccess rstring time
  | OpFinalizeFailure rstring time
  | OpReplaceToolsets "rstring list"
  | OpLoadToolset rstring
  | OpUnloadToolset rstring
  | OpAutoCompact "bool option"

fun thread_op_apply :: "thread_op \<Rightarrow> thread \<Rightarrow> err + thread" where
  "thread_op_apply (OpRecordToolEvent e) t = Inr (record_tool_event e t)"
| "thread_op_apply (OpBeginTurn u x st) t = begin_turn u x st t"
| "thread_op_apply (OpAppendMessage m) t = append_message m t"
| "thread_op_apply (OpBufferEvent e) t = buffer_turn_event e t"
| "thread_op_apply (OpCompaction now ms) t = replace_messages_after_compaction now ms t"
| "thread_op_apply (OpFinalizeSuccess r c) t = map_sum id snd (finalize_turn_success r c t)"
| "thread_op_apply (OpFinalizeFailure e c) t = map_sum id snd (finalize_turn_failure e c t)"
| "thread_op_apply (OpReplaceToolsets ns) t = Inr (replace_loaded_toolsets ns t)"
| "thread_op_apply (OpLoadToolset n) t = Inr (snd (load_toolset n t))"
| "thread_op_apply (OpUnloadToolset n) t = Inr (snd (unload_toolset n t))"
| "thread_op_apply (OpAutoCompact b) t = Inr (set_auto_compact_override b t)"

definition thread_op_step :: "thread_op \<Rightarrow> thread \<Rightarrow> thread" where
  "thread_op_step op t = (case thread_op_apply op t of Inl e \<Rightarrow> t | Inr t' \<Rightarrow> t')"

definition thread_run :: "thread_op list \<Rightarrow> thread \<Rightarrow> thread" where
  "thread_run ops t = fold thread_op_step ops t"

lemma thread_run_simps [simp]:
  "thread_run [] t = t"
  "thread_run (op # ops) t = thread_run ops (thread_op_step op t)"
  by (simp_all add: thread_run_def)

lemmas thread_op_defs =
  record_tool_event_def begin_turn_def open_turn_def append_message_def buffer_turn_event_def
  current_turn_mut_def replace_messages_after_compaction_def replace_messages_def
  finalize_turn_success_def finalize_turn_def finalize_turn_failure_def
  replace_loaded_toolsets_def set_auto_compact_override_def thread_current_turn_new_def Let_def

text \<open>The representation invariant of a live thread.\<close>

definition thread_wf :: "thread \<Rightarrow> bool" where
  "thread_wf t \<longleftrightarrow>
     (th_current_turn t \<noteq> None \<longrightarrow> th_pending_tool_events t = []) \<and> toolsets_ok (load_toolsets t)"

lemma thread_wf_new: "thread_wf (thread_new l now)"
  by (simp add: thread_wf_def thread_new_def thread_state_default_def)

lemma thread_wf_clear: "thread_wf (clear_to_initial_state now t)"
  by (simp add: thread_wf_def clear_to_initial_state_def thread_state_default_def)

lemma thread_wf_step: "thread_wf t \<Longrightarrow> thread_wf (thread_op_step op t)"
  by (cases op)
    (auto simp: thread_wf_def thread_op_step_def thread_op_defs toolsets_ok_normalize
       tsets.load_inv tsets.unload_inv load_toolset_cases toolsets_ok_insert
       unload_toolset_def toolsets_ok_filter split: option.splits if_splits)

lemma thread_wf_run: "thread_wf t \<Longrightarrow> thread_wf (thread_run ops t)"
  by (induction ops arbitrary: t) (auto intro: thread_wf_step)

subsection \<open>No tool event is lost\<close>

text \<open>
  All tool events a thread owns, in order: the persisted ones, those of the unfinished turn, and
  the pending ones recorded while no turn was open.
\<close>

definition owned_tool_events :: "thread \<Rightarrow> thread_tool_event list" where
  "owned_tool_events t =
     load_tool_events t
     @ (case th_current_turn t of Some turn \<Rightarrow> ct_tool_events turn | None \<Rightarrow> [])
     @ th_pending_tool_events t"

fun recorded_tool_events :: "thread_op list \<Rightarrow> thread_tool_event list" where
  "recorded_tool_events [] = []"
| "recorded_tool_events (OpRecordToolEvent e # ops) = e # recorded_tool_events ops"
| "recorded_tool_events (_ # ops) = recorded_tool_events ops"

lemma owned_tool_events_step:
  "thread_wf t \<Longrightarrow>
     map te_id (owned_tool_events (thread_op_step op t))
       = map te_id (owned_tool_events t) @ map te_id (recorded_tool_events [op])"
  by (cases op)
    (auto simp: thread_wf_def owned_tool_events_def thread_op_step_def thread_op_defs
       load_toolset_cases unload_toolset_def split: option.splits if_splits)

lemma recorded_tool_events_Cons:
  "recorded_tool_events (op # ops) = recorded_tool_events [op] @ recorded_tool_events ops"
  by (cases op) simp_all

lemma owned_tool_events_run:
  "thread_wf t \<Longrightarrow>
     map te_id (owned_tool_events (thread_run ops t))
       = map te_id (owned_tool_events t) @ map te_id (recorded_tool_events ops)"
proof (induction ops arbitrary: t)
  case (Cons op ops)
  then show ?case
    using owned_tool_events_step [OF Cons.prems, of op]
    by (simp add: thread_wf_step recorded_tool_events_Cons [of op ops])
qed simp

subsection \<open>The turn protocol\<close>

text \<open>
  Seen from outside, a thread is either between turns or inside the turn with a given id. The
  abstract machine knows only the turn boundaries.
\<close>

fun turn_spec :: "thread_op \<Rightarrow> uuid option \<Rightarrow> uuid option" where
  "turn_spec (OpBeginTurn u _ _) None = Some u"
| "turn_spec (OpFinalizeSuccess _ _) (Some u) = None"
| "turn_spec (OpFinalizeFailure _ _) (Some u) = None"
| "turn_spec _ s = s"

fun turn_op_enabled :: "thread_op \<Rightarrow> uuid option \<Rightarrow> bool" where
  "turn_op_enabled (OpBeginTurn _ _ _) s = (s = None)"
| "turn_op_enabled (OpAppendMessage _) s = (s \<noteq> None)"
| "turn_op_enabled (OpBufferEvent _) s = (s \<noteq> None)"
| "turn_op_enabled (OpCompaction _ _) s = (s \<noteq> None)"
| "turn_op_enabled (OpFinalizeSuccess _ _) s = (s \<noteq> None)"
| "turn_op_enabled (OpFinalizeFailure _ _) s = (s \<noteq> None)"
| "turn_op_enabled _ s = True"

lemma turn_refines_step:
  "current_turn_id (thread_op_step op t) = turn_spec op (current_turn_id t)"
  by (cases op; cases "th_current_turn t")
    (auto simp: current_turn_id_def thread_op_step_def thread_op_defs load_toolset_def
       unload_toolset_def split: sum.splits)

lemma turn_op_enabled_iff:
  "(\<exists>t'. thread_op_apply op t = Inr t') \<longleftrightarrow> turn_op_enabled op (current_turn_id t)"
  by (cases op; cases "th_current_turn t")
    (auto simp: current_turn_id_def thread_op_defs)

subsection \<open>Messages\<close>

fun appended_messages :: "thread_op list \<Rightarrow> chat_message list" where
  "appended_messages [] = []"
| "appended_messages (OpAppendMessage m # ops) = m # appended_messages ops"
| "appended_messages (_ # ops) = appended_messages ops"

lemma append_message_Inr_iff:
  "(\<exists>t'. append_message m t = Inr t') \<longleftrightarrow> th_current_turn t \<noteq> None"
  by (auto simp: thread_op_defs split: option.splits)

lemma append_message_sel:
  assumes "append_message m t = Inr t'"
  shows "messages t' = messages t @ [m]"
    and "th_current_turn t' = th_current_turn t"
    and "th_locator t' = th_locator t"
    and "th_revision t' = th_revision t"
    and "th_state t' = th_state t"
    and "th_pending_tool_events t' = th_pending_tool_events t"
    and "tx_updated_at (th_thread t') = msg_created_at m"
    and "tx_created_at (th_thread t') = min (tx_created_at (th_thread t)) (msg_created_at m)"
  using assms by (auto simp: thread_op_defs split: option.splits if_splits)

lemma compaction_sel:
  assumes "replace_messages_after_compaction now cs t = Inr t'"
  shows "messages t' = filter is_system (messages t) @ cs"
    and "th_current_turn t' = th_current_turn t"
    and "th_locator t' = th_locator t"
    and "th_revision t' = th_revision t"
    and "th_state t' = th_state t"
    and "th_pending_tool_events t' = th_pending_tool_events t"
  using assms by (auto simp: thread_op_defs split: option.splits)

lemma buffer_turn_event_sel:
  assumes "buffer_turn_event e t = Inr t'"
  shows "messages t' = messages t"
    and "current_turn_events t' = current_turn_events t @ [e]"
    and "current_turn_id t' = current_turn_id t"
    and "th_locator t' = th_locator t"
    and "th_revision t' = th_revision t"
    and "th_state t' = th_state t"
    and "th_pending_tool_events t' = th_pending_tool_events t"
  using assms
  by (auto simp: thread_op_defs current_turn_events_def current_turn_id_def split: option.splits)

lemma record_tool_event_sel [simp]:
  "messages (record_tool_event e t) = messages t"
  "th_thread (record_tool_event e t) = th_thread t"
  "current_turn_id (record_tool_event e t) = current_turn_id t"
  "current_turn_events (record_tool_event e t) = current_turn_events t"
  "th_locator (record_tool_event e t) = th_locator t"
  "th_revision (record_tool_event e t) = th_revision t"
  "th_state (record_tool_event e t) = th_state t"
  by (auto simp: record_tool_event_def current_turn_id_def current_turn_events_def
      split: option.splits)

lemma begin_turn_sel:
  assumes "begin_turn u x st t = Inr t'"
  shows "messages t' = messages t"
    and "current_turn_id t' = Some u"
    and "current_turn_events t' = []"
    and "th_locator t' = th_locator t"
    and "th_revision t' = th_revision t"
    and "th_state t' = th_state t"
    and "th_pending_tool_events t' = []"
    and "th_current_turn t = None"
  using assms
  by (auto simp: thread_op_defs current_turn_events_def current_turn_id_def split: if_splits)

lemma finalize_turn_success_sel:
  assumes "finalize_turn_success r c t = Inr (f, t')"
  shows "messages t' = messages t" "th_current_turn t' = None" "ft_snapshot f = t'"
    and "th_revision t' = th_revision t" "th_locator t' = th_locator t"
    and "Some (ft_turn_id f) = current_turn_id t" "ft_events f = current_turn_events t"
    and "ft_reply f = r" "ft_status f = Succeeded"
  using assms
  by (auto simp: thread_op_defs current_turn_events_def current_turn_id_def split: option.splits)

lemma finalize_turn_failure_sel:
  assumes "finalize_turn_failure e c t = Inr (f, t')"
  shows "messages t' = messages t" "th_current_turn t' = None" "ft_snapshot f = t'"
    and "th_revision t' = th_revision t" "th_locator t' = th_locator t"
    and "Some (ft_turn_id f) = current_turn_id t" "ft_status f = Failed e"
    and "ft_events f \<noteq> []"
  using assms
  by (auto simp: thread_op_defs current_turn_events_def current_turn_id_def
      split: option.splits if_splits)

lemma finalize_turn_failure_total:
  "th_current_turn t \<noteq> None \<Longrightarrow> \<exists>f t'. finalize_turn_failure e c t = Inr (f, t')"
  by (auto simp: thread_op_defs)

lemma finalize_turn_success_total:
  "th_current_turn t \<noteq> None \<Longrightarrow> \<exists>f t'. finalize_turn_success r c t = Inr (f, t')"
  by (auto simp: thread_op_defs)

lemma current_turn_id_None_iff [simp]: "current_turn_id t = None \<longleftrightarrow> th_current_turn t = None"
  by (simp add: current_turn_id_def)

section \<open>Properties of the thread aggregate\<close>

text \<open>A concrete thread for the witnesses.\<close>

definition demo_locator :: thread_context_locator where
  "demo_locator =
     \<lparr>tcl_session_id = Some [1], tcl_channel = str ''feishu'', tcl_user_id = str ''ou'',
      tcl_external_thread_id = str ''ext'', tcl_thread_id = [2]\<rparr>"

definition demo_tool_event :: "uuid \<Rightarrow> thread_tool_event" where
  "demo_tool_event u = thread_tool_event_new u ExecuteTool 0"

definition demo_system_message :: chat_message where
  "demo_system_message = chat_message_new RoleSystem (str ''rules'') 0"

definition demo_user_message :: chat_message where
  "demo_user_message = chat_message_new RoleUser (str ''hello'') 1"

text \<open>
  The invariant of a live thread (events recorded between turns move into the turn when it
  opens; the loaded toolsets stay strictly sorted, trimmed and non-blank) holds for a new thread
  and survives every sequence of public operations, failed ones included.
\<close>
theorem thread_invariant_reachable: "thread_wf (thread_run ops (thread_new locator now))"
  by (intro thread_wf_run thread_wf_new)

text \<open>
  C21: no tool event is ever lost or reordered. When a turn is finalized, in success or in
  failure, the persisted history holds exactly the events owned at the start followed by those
  recorded since, in order, and the ones it gained carry the id of the finalized turn.
\<close>
theorem tool_events_never_lost:
  assumes "thread_wf t"
    and "finalize_turn_success r c (thread_run ops t) = Inr (f, t')
         \<or> finalize_turn_failure e c (thread_run ops t) = Inr (f, t')"
  shows "map te_id (load_tool_events t')
           = map te_id (owned_tool_events t) @ map te_id (recorded_tool_events ops)
       \<and> (\<exists>new. load_tool_events t' = load_tool_events (thread_run ops t) @ new
                \<and> list_all (\<lambda>ev. te_turn_id ev = Some (ft_turn_id f)) new)"
proof (intro conjI)
  let ?u = "thread_run ops t"
  from assms(2) obtain turn where turn: "th_current_turn ?u = Some turn"
    and t': "load_tool_events t' =
       load_tool_events ?u @ map (with_turn_id (ft_turn_id f)) (ct_tool_events turn)"
    by (auto simp: thread_op_defs split: option.splits)
  have "th_pending_tool_events ?u = []"
    using thread_wf_run [OF assms(1), of ops] turn by (simp add: thread_wf_def)
  then show "map te_id (load_tool_events t')
           = map te_id (owned_tool_events t) @ map te_id (recorded_tool_events ops)"
    using owned_tool_events_run [OF assms(1), of ops] turn t'
    by (simp add: owned_tool_events_def)
  show "\<exists>new. load_tool_events t' = load_tool_events (thread_run ops t) @ new
                \<and> list_all (\<lambda>ev. te_turn_id ev = Some (ft_turn_id f)) new"
    by (rule exI [of _ "map (with_turn_id (ft_turn_id f)) (ct_tool_events turn)"])
      (simp add: t' list_all_iff)
qed

definition demo_thread_ops :: "thread_op list" where
  "demo_thread_ops =
     [OpRecordToolEvent (demo_tool_event 5), OpBeginTurn 7 None 1,
      OpRecordToolEvent (demo_tool_event 6)]"

theorem tool_events_never_lost_witness:
  "\<exists>f t'. finalize_turn_success (str ''ok'') 2 (thread_run demo_thread_ops (thread_new demo_locator 0))
           = Inr (f, t') \<and> map te_id (load_tool_events t') = [5, 6]"
proof -
  obtain f t' where fin: "finalize_turn_success (str ''ok'') 2
      (thread_run demo_thread_ops (thread_new demo_locator 0)) = Inr (f, t')"
    by (simp add: demo_thread_ops_def thread_op_step_def thread_op_defs thread_new_def)
  have "map te_id (load_tool_events t') = [5, 6]"
    using conjunct1 [OF tool_events_never_lost [OF thread_wf_new disjI1 [OF fin]]]
    by (simp add: demo_thread_ops_def owned_tool_events_def thread_new_def
        thread_state_default_def demo_tool_event_def thread_tool_event_new_def)
  with fin show ?thesis by (intro exI conjI)
qed

text \<open>
  C20: the turn protocol. Any run of operations follows the abstract machine that knows only
  the turn boundaries, and an operation returns \<open>Ok\<close> exactly when that machine enables it: one
  unfinished turn at most, and messages, events, compaction and finalization only inside it.
\<close>
theorem thread_refines_turn_protocol:
  "current_turn_id (thread_run ops t) = fold turn_spec ops (current_turn_id t)
   \<and> (\<exists>t'. thread_op_apply op (thread_run ops t) = Inr t')
       = turn_op_enabled op (fold turn_spec ops (current_turn_id t))"
proof -
  have run: "current_turn_id (thread_run ops t) = fold turn_spec ops (current_turn_id t)"
    by (induction ops arbitrary: t) (simp_all add: turn_refines_step)
  then show ?thesis by (simp only: turn_op_enabled_iff run simp_thms)
qed

text \<open>
  A failed turn is not rolled back. Finalizing in failure keeps every committed message, closes
  the turn, hands out a snapshot equal to the thread it leaves, and never an empty event batch:
  either the buffered events, or the one failure event when there are none.
\<close>
theorem failed_turn_is_not_rolled_back:
  assumes "th_current_turn t = Some turn"
  obtains f t' where "finalize_turn_failure error c t = Inr (f, t')"
    and "messages t' = messages t" and "th_current_turn t' = None" and "ft_snapshot f = t'"
    and "ft_reply f = str ''[openjarvis][agent_error] '' @ error"
    and "ft_events f = (if ct_buffered_events turn = [] then [turn_failure_event (ft_reply f)]
                        else ct_buffered_events turn)"
  using assms by (simp add: thread_op_defs)

theorem failed_turn_is_not_rolled_back_witness:
  "\<exists>f t'. finalize_turn_failure (str ''x'') 3
           (thread_run [OpBeginTurn 7 None 1, OpAppendMessage demo_user_message]
              (thread_new demo_locator 0)) = Inr (f, t')
         \<and> messages t' = [demo_user_message] \<and> th_current_turn t' = None"
proof -
  let ?t = "thread_run [OpBeginTurn 7 None 1, OpAppendMessage demo_user_message]
              (thread_new demo_locator 0)"
  have "th_current_turn ?t = Some (thread_current_turn_new 7 None 1)"
    and m: "messages ?t = [demo_user_message]"
    by (simp_all add: thread_op_step_def thread_op_defs thread_new_def thread_context_new_def
        demo_user_message_def)
  from this(1) show ?thesis
    by (rule failed_turn_is_not_rolled_back [where error = "str ''x''" and c = 3])
      (use m in auto)
qed

text \<open>
  Compaction rewrites the non-system history only. The system messages stay as they were and
  in order, in front of the replacement; with a replacement free of system messages the
  non-system part is exactly the replacement.
\<close>
theorem compaction_keeps_system_messages:
  assumes "replace_messages_after_compaction now cs t = Inr t'"
    and "list_all (\<lambda>m. \<not> is_system m) cs"
  shows "filter is_system (messages t') = filter is_system (messages t)
         \<and> filter (\<lambda>m. \<not> is_system m) (messages t') = cs
         \<and> messages t' = filter is_system (messages t) @ cs"
proof -
  have "filter is_system cs = []" "filter (\<lambda>m. \<not> is_system m) cs = cs"
    using assms(2) by (auto simp: list_all_iff filter_empty_conv)
  then show ?thesis by (simp add: compaction_sel(1) [OF assms(1)])
qed

theorem compaction_keeps_system_messages_witness:
  "\<exists>t'. replace_messages_after_compaction 9 [demo_user_message]
          (thread_run [OpBeginTurn 7 None 1, OpAppendMessage demo_system_message,
                       OpAppendMessage demo_user_message] (thread_new demo_locator 0)) = Inr t'
        \<and> messages t' = [demo_system_message, demo_user_message]"
proof -
  let ?t = "thread_run [OpBeginTurn 7 None 1, OpAppendMessage demo_system_message,
                       OpAppendMessage demo_user_message] (thread_new demo_locator 0)"
  have m: "messages ?t = [demo_system_message, demo_user_message]" and c: "th_current_turn ?t \<noteq> None"
    by (simp_all add: thread_op_step_def thread_op_defs thread_new_def thread_context_new_def
        demo_user_message_def demo_system_message_def)
  obtain t' where t': "replace_messages_after_compaction 9 [demo_user_message] ?t = Inr t'"
    using c by (auto simp: replace_messages_after_compaction_def current_turn_mut_def Let_def)
  have "list_all (\<lambda>m. \<not> is_system m) [demo_user_message]" by (simp add: demo_user_message_def)
  from compaction_keeps_system_messages [OF t' this] m
  have "messages t' = [demo_system_message, demo_user_message]"
    by (simp add: demo_user_message_def demo_system_message_def)
  with t' show ?thesis by blast
qed

text \<open>
  Loading a toolset is insertion into a set. On a well-formed thread the binary search over the
  sorted vector decides membership, so \<open>load_toolset\<close> adds exactly the trimmed name, reports
  \<open>true\<close> exactly when it was absent, ignores blank names, and leaves everything else alone.
\<close>
theorem load_toolset_inserts:
  assumes "thread_wf t"
  shows "set (load_toolsets (snd (load_toolset n t)))
           = (if trim n = [] then set (load_toolsets t) else insert (trim n) (set (load_toolsets t)))
         \<and> fst (load_toolset n t) = (trim n \<noteq> [] \<and> trim n \<notin> set (load_toolsets t))
         \<and> fst (load_toolset n (snd (load_toolset n t))) = False
         \<and> messages (snd (load_toolset n t)) = messages t"
proof -
  have ok: "toolsets_ok (load_toolsets t)" using assms by (simp add: thread_wf_def)
  show ?thesis
  proof (cases "trim n = []")
    case True
    then show ?thesis by (simp add: tsets.load_blank)
  next
    case False
    then show ?thesis
      using tsets.load_set [OF ok False] tsets.load_flag [OF ok False] tsets.load_again [OF ok False]
      by (simp add: load_toolset_cases [OF ok])
  qed
qed

theorem load_toolset_inserts_witness:
  "set (load_toolsets (snd (load_toolset (str ''web'') (thread_new demo_locator 0)))) = {str ''web''}"
proof -
  have "trim (str ''web'') = str ''web''"
    by (simp add: trim_def trim_start_def trim_end_def str_def is_whitespace_def)
  then show ?thesis
    using load_toolset_inserts [OF thread_wf_new, of "str ''web''" demo_locator 0]
    by (simp add: thread_new_def thread_state_default_def)
qed

end
