(* ===== verification/OJ_Model.thy ===== *)
theory OJ_Model
  imports OJ_Prelude
begin

text \<open>
  The messages channels and router exchange (\<open>src/model.rs\<close>) and the attachment markers of outgoing
  text (\<open>src/attachment_syntax.rs\<close>).
\<close>

section \<open>Message models\<close>

record incoming_attachment =
  ia_name :: rstring
  ia_url :: "rstring option"
  ia_mime_type :: "rstring option"

datatype outgoing_attachment_kind = Image

record outgoing_attachment =
  oa_kind :: outgoing_attachment_kind
  oa_path :: rstring
  oa_mime_type :: "rstring option"

record reply_target =
  rt_receive_id :: rstring
  rt_receive_id_type :: rstring

record incoming_message =
  im_id :: uuid
  im_external_message_id :: "rstring option"
  im_channel :: rstring
  im_user_id :: rstring
  im_user_name :: "rstring option"
  im_content :: rstring
  im_external_thread_id :: "rstring option"
  im_received_at :: time
  im_metadata :: json
  im_attachments :: "incoming_attachment list"
  im_reply_target :: reply_target

record outgoing_message =
  om_id :: uuid
  om_channel :: rstring
  om_content :: rstring
  om_external_thread_id :: "rstring option"
  om_metadata :: json
  om_reply_to_message_id :: "rstring option"
  om_attachments :: "outgoing_attachment list"
  om_target :: reply_target

definition resolved_external_thread_id :: "incoming_message \<Rightarrow> rstring" where
  "resolved_external_thread_id m =
     (case im_external_thread_id m of
        Some thread_id \<Rightarrow> if trim thread_id \<noteq> [] then thread_id else str ''default''
      | None \<Rightarrow> str ''default'')"

lemma trim_resolved_external_thread_id: "trim (resolved_external_thread_id m) \<noteq> []"
  by (auto simp: resolved_external_thread_id_def trim_eq_Nil_iff str_def is_whitespace_def
      split: option.splits)

section \<open>Attachment markers\<close>

definition ATTACHMENT_PREFIX :: rstring where
  "ATTACHMENT_PREFIX = str ''#!openjarvis[''"

text \<open>\<open>Path::is_absolute\<close> on the Unix targets the program runs on: the path starts at the root.\<close>

definition path_is_absolute :: "rstring \<Rightarrow> bool" where
  "path_is_absolute p = starts_with p (str ''/'')"

definition parse_attachment_marker :: "rstring \<Rightarrow> outgoing_attachment option" where
  "parse_attachment_marker marker_body =
     (case split_once (of_char (CHR '':'')) (trim marker_body) of
        None \<Rightarrow> None
      | Some (kind, path0) \<Rightarrow>
          let path = trim path0 in
          if path = [] \<or> \<not> path_is_absolute path then None
          else if trim kind = str ''image''
          then Some \<lparr>oa_kind = Image, oa_path = path, oa_mime_type = None\<rparr>
          else None)"

text \<open>The scanning loop; its argument is the text from the cursor on.\<close>

function parse_content_loop :: "rstring \<Rightarrow> outgoing_attachment list \<Rightarrow> outgoing_attachment list" where
  "parse_content_loop rest attachments =
     (case find_sub ATTACHMENT_PREFIX rest of
        None \<Rightarrow> attachments
      | Some relative_start \<Rightarrow>
          let payload = drop (relative_start + length ATTACHMENT_PREFIX) rest in
          case find_char (of_char (CHR '']'')) payload of
            None \<Rightarrow> attachments
          | Some relative_end \<Rightarrow>
              parse_content_loop (drop (relative_end + 1) payload)
                (case parse_attachment_marker (take relative_end payload) of
                   Some attachment \<Rightarrow> attachments @ [attachment]
                 | None \<Rightarrow> attachments))"
  by pat_completeness auto
termination
proof (relation "measure (\<lambda>(rest, attachments). length rest)", goal_cases)
  case (2 rest attachments relative_start payload relative_end)
  then show ?case
    using find_sub_bound [of ATTACHMENT_PREFIX rest relative_start]
    by (simp add: ATTACHMENT_PREFIX_def)
qed simp

declare parse_content_loop.simps [simp del]

definition parse_content :: "rstring \<Rightarrow> rstring \<times> outgoing_attachment list" where
  "parse_content content = (content, parse_content_loop content [])"

definition parse_message :: "outgoing_message \<Rightarrow> outgoing_message" where
  "parse_message message =
     (let (content, attachments) = parse_content (om_content message) in
      if attachments = [] then message
      else message\<lparr>om_content := content, om_attachments := om_attachments message @ attachments\<rparr>)"

lemma parse_message_sel [simp]:
  "om_content (parse_message m) = om_content m"
  "om_channel (parse_message m) = om_channel m"
  "om_reply_to_message_id (parse_message m) = om_reply_to_message_id m"
  "om_external_thread_id (parse_message m) = om_external_thread_id m"
  "om_target (parse_message m) = om_target m"
  "om_metadata (parse_message m) = om_metadata m"
  by (simp_all add: parse_message_def parse_content_def)

lemma om_attachments_parse_message:
  "om_attachments (parse_message m) = om_attachments m @ parse_content_loop (om_content m) []"
  by (simp add: parse_message_def parse_content_def)

subsection \<open>Printing and reading back\<close>

text \<open>
  A text with markers: pieces of plain text, each followed by an image marker. A piece is free of the
  marker prefix; a path is absolute, trimmed and has no closing bracket.
\<close>

definition render_marker :: "rstring \<Rightarrow> rstring" where
  "render_marker path = ATTACHMENT_PREFIX @ str ''image:'' @ path @ str '']''"

definition attachment_path_ok :: "rstring \<Rightarrow> bool" where
  "attachment_path_ok p \<longleftrightarrow> path_is_absolute p \<and> trim p = p \<and> of_char (CHR '']'') \<notin> set p"

definition plain_piece :: "rstring \<Rightarrow> bool" where
  "plain_piece s \<longleftrightarrow> find_sub ATTACHMENT_PREFIX s = None"

fun render_pieces :: "(rstring \<times> rstring) list \<Rightarrow> rstring \<Rightarrow> rstring" where
  "render_pieces [] tail_text = tail_text"
| "render_pieces ((piece, path) # ps) tail_text =
     piece @ render_marker path @ render_pieces ps tail_text"

lemma not_whitespace_path_end:
  assumes "trim p = p" and "p \<noteq> []"
  shows "\<not> is_whitespace (hd p)" and "\<not> is_whitespace (last p)"
proof -
  have p: "p = trim_end (trim_start p)" using assms by (simp add: trim_def)
  then show "\<not> is_whitespace (last p)"
    using assms(2) unfolding trim_end_def
    by (metis hd_dropWhile last_rev rev_is_Nil_conv)
  have "length (dropWhile is_whitespace p) = length p"
  proof (rule antisym)
    show "length (dropWhile is_whitespace p) \<le> length p" by (rule length_dropWhile_le)
    have "length p \<le> length (trim_start p)"
      by (subst p) (metis length_dropWhile_le length_rev trim_end_def)
    then show "length p \<le> length (dropWhile is_whitespace p)" by (simp add: trim_start_def)
  qed
  then have "dropWhile is_whitespace p = p"
    by (metis append_eq_append_conv append_self_conv2 takeWhile_dropWhile_id)
  then show "\<not> is_whitespace (hd p)" by (metis assms(2) hd_dropWhile)
qed

lemma trim_unchanged: "s \<noteq> [] \<Longrightarrow> \<not> is_whitespace (hd s) \<Longrightarrow> \<not> is_whitespace (last s) \<Longrightarrow> trim s = s"
proof -
  assume "s \<noteq> []" "\<not> is_whitespace (hd s)" "\<not> is_whitespace (last s)"
  then have "dropWhile is_whitespace s = s" by (cases s) auto
  moreover have "dropWhile is_whitespace (rev s) = rev s"
    using \<open>s \<noteq> []\<close> \<open>\<not> is_whitespace (last s)\<close> by (cases "rev s") (auto simp: last_rev hd_rev[symmetric])
  ultimately show "trim s = s" by (simp only: trim_def trim_start_def trim_end_def rev_rev_ident)
qed

lemma parse_attachment_marker_render:
  assumes "attachment_path_ok p"
  shows "parse_attachment_marker (str ''image:'' @ p)
           = Some \<lparr>oa_kind = Image, oa_path = p, oa_mime_type = None\<rparr>"
proof -
  have ok: "path_is_absolute p" "trim p = p" using assms by (auto simp: attachment_path_ok_def)
  then have ne: "p \<noteq> []" by (auto simp: path_is_absolute_def str_def)
  have "trim (str ''image:'' @ p) = str ''image:'' @ p"
    by (rule trim_unchanged)
      (use ne not_whitespace_path_end [OF ok(2) ne] in \<open>auto simp: str_def is_whitespace_def\<close>)
  moreover have "split_once (of_char (CHR '':'')) (str ''image:'' @ p) = Some (str ''image'', p)"
    using split_once_append [of "of_char (CHR '':'')" "str ''image''" p] by (simp add: str_def)
  moreover have "trim (str ''image'') = str ''image''"
    by (rule trim_unchanged) (simp_all add: str_def is_whitespace_def)
  ultimately show ?thesis using ok ne by (simp add: parse_attachment_marker_def)
qed

lemma parse_content_loop_marker:
  assumes "plain_piece piece" "attachment_path_ok p"
  shows "parse_content_loop (piece @ render_marker p @ rest) acc
           = parse_content_loop rest (acc @ [\<lparr>oa_kind = Image, oa_path = p, oa_mime_type = None\<rparr>])"
proof -
  let ?tail = "str ''image:'' @ p @ of_char (CHR '']'') # rest"
  let ?pl = "str ''image:'' @ p"
  have piece_eq: "piece @ render_marker p @ rest = piece @ ATTACHMENT_PREFIX @ ?tail"
    by (simp add: render_marker_def str_def)
  have "find_sub ATTACHMENT_PREFIX (piece @ ATTACHMENT_PREFIX @ ?tail) = Some (length piece)"
    using find_sub_append [of "of_char (CHR ''#'')" "str ''!openjarvis[''" piece ?tail] assms(1)
    by (simp add: ATTACHMENT_PREFIX_def plain_piece_def str_def)
  moreover have "find_char (of_char (CHR '']'')) ?tail = Some (length ?pl)"
    using find_char_append [of "of_char (CHR '']'')" ?pl rest] assms(2)
    by (simp add: attachment_path_ok_def str_def)
  moreover have "take (length ?pl) ?tail = ?pl" "drop (length ?pl + 1) ?tail = rest"
    by simp_all
  ultimately show ?thesis
    unfolding piece_eq
    by (subst parse_content_loop.simps)
      (simp add: Let_def parse_attachment_marker_render [OF assms(2)])
qed

text \<open>
  Attachment markers round-trip. Text pieces interleaved with printed image markers parse to exactly
  the attachments printed, in order, whatever plain text follows; the text itself is not altered and
  attachments already present come first.
\<close>
theorem attachment_markers_roundtrip:
  assumes "list_all (\<lambda>(piece, path). plain_piece piece \<and> attachment_path_ok path) ps"
    and "plain_piece tail_text"
    and "om_content m = render_pieces ps tail_text"
  shows "om_attachments (parse_message m)
           = om_attachments m
             @ map (\<lambda>(piece, path). \<lparr>oa_kind = Image, oa_path = path, oa_mime_type = None\<rparr>) ps
         \<and> om_content (parse_message m) = om_content m"
proof (rule conjI)
  have "parse_content_loop (render_pieces ps tail_text) acc
    = acc @ map (\<lambda>(piece, path). \<lparr>oa_kind = Image, oa_path = path, oa_mime_type = None\<rparr>) ps" for acc
    using assms(1)
  proof (induction ps arbitrary: acc)
    case Nil
    show ?case using assms(2) by (simp add: parse_content_loop.simps plain_piece_def)
  next
    case (Cons x ps)
    then show ?case by (cases x) (simp add: parse_content_loop_marker)
  qed
  then show "om_attachments (parse_message m)
           = om_attachments m
             @ map (\<lambda>(piece, path). \<lparr>oa_kind = Image, oa_path = path, oa_mime_type = None\<rparr>) ps"
    by (simp add: om_attachments_parse_message assms(3))
qed simp

definition demo_outgoing :: outgoing_message where
  "demo_outgoing =
     \<lparr>om_id = 1, om_channel = str ''feishu'',
      om_content = render_pieces [(str ''see '', str ''/a.png'')] (str '' done''),
      om_external_thread_id = None, om_metadata = JObj [], om_reply_to_message_id = None,
      om_attachments = [], om_target = \<lparr>rt_receive_id = [], rt_receive_id_type = []\<rparr>\<rparr>"

theorem attachment_markers_roundtrip_witness:
  "map oa_path (om_attachments (parse_message demo_outgoing)) = [str ''/a.png'']"
proof -
  have "attachment_path_ok (str ''/a.png'')"
    by (simp add: attachment_path_ok_def path_is_absolute_def trim_unchanged str_def is_whitespace_def)
  moreover have "plain_piece (str ''see '')" "plain_piece (str '' done'')"
    by (simp_all add: plain_piece_def ATTACHMENT_PREFIX_def str_def)
  ultimately show ?thesis
    using conjunct1 [OF attachment_markers_roundtrip, of "[(str ''see '', str ''/a.png'')]" "str '' done''" demo_outgoing]
    by (simp add: demo_outgoing_def)
qed

end
