(* ===== verification/OJ_Session_Store.thy ===== *)
theory OJ_Session_Store
  imports OJ_Thread OJ_Model
begin

text \<open>
  Session identity (the key types of \<open>src/session.rs\<close>), the store boundary
  (\<open>src/session/store/mod.rs\<close>) and the in-memory backend (\<open>src/session/store/memory.rs\<close>). A
  \<open>dyn SessionStore\<close> is a record of operations over a store state; what every backend promises is
  the locale \<open>session_store_laws\<close>, interpreted here on the memory backend.
\<close>

section \<open>Session identity\<close>

record session_key =
  sk_channel :: rstring
  sk_user_id :: rstring

definition session_key_from_incoming :: "incoming_message \<Rightarrow> session_key" where
  "session_key_from_incoming m = \<lparr>sk_channel = im_channel m, sk_user_id = im_user_id m\<rparr>"

definition thread_key :: "session_key \<Rightarrow> rstring \<Rightarrow> rstring" where
  "thread_key k external_thread_id =
     sk_user_id k @ str '':'' @ sk_channel k @ str '':'' @ external_thread_id"

definition derive_thread_id :: "uuid_lib \<Rightarrow> session_key \<Rightarrow> rstring \<Rightarrow> uuid" where
  "derive_thread_id U k external_thread_id =
     derive_internal_thread_id U (thread_key k external_thread_id)"

record thread_locator =
  tl_session_id :: uuid
  tl_channel :: rstring
  tl_user_id :: rstring
  tl_external_thread_id :: rstring
  tl_thread_id :: uuid

definition thread_locator_new :: "uuid \<Rightarrow> incoming_message \<Rightarrow> rstring \<Rightarrow> uuid \<Rightarrow> thread_locator" where
  "thread_locator_new session_id m external_thread_id thread_id =
     \<lparr>tl_session_id = session_id, tl_channel = im_channel m, tl_user_id = im_user_id m,
      tl_external_thread_id = external_thread_id, tl_thread_id = thread_id\<rparr>"

definition tl_session_key :: "thread_locator \<Rightarrow> session_key" where
  "tl_session_key l = \<lparr>sk_channel = tl_channel l, sk_user_id = tl_user_id l\<rparr>"

definition tl_thread_key :: "thread_locator \<Rightarrow> rstring" where
  "tl_thread_key l = thread_key (tl_session_key l) (tl_external_thread_id l)"

definition locator_from :: "uuid_lib \<Rightarrow> thread_locator \<Rightarrow> thread_context_locator" where
  "locator_from U l =
     \<lparr>tcl_session_id = Some (uuid_to_string U (tl_session_id l)), tcl_channel = tl_channel l,
      tcl_user_id = tl_user_id l, tcl_external_thread_id = tl_external_thread_id l,
      tcl_thread_id = uuid_to_string U (tl_thread_id l)\<rparr>"

lemma locator_from_sel [simp]:
  "tcl_session_id (locator_from U l) = Some (uuid_to_string U (tl_session_id l))"
  "tcl_channel (locator_from U l) = tl_channel l"
  "tcl_user_id (locator_from U l) = tl_user_id l"
  "tcl_external_thread_id (locator_from U l) = tl_external_thread_id l"
  "tcl_thread_id (locator_from U l) = uuid_to_string U (tl_thread_id l)"
  by (simp_all add: locator_from_def)

lemma tl_session_key_sel [simp]:
  "sk_channel (tl_session_key l) = tl_channel l"
  "sk_user_id (tl_session_key l) = tl_user_id l"
  by (simp_all add: tl_session_key_def)

lemma tcl_thread_key_locator_from [simp]: "tcl_thread_key (locator_from U l) = tl_thread_key l"
  by (simp add: tcl_thread_key_def tl_thread_key_def thread_key_def)

text \<open>A thread key is read back uniquely only where user and channel hold no colon (58).\<close>

definition colon_free :: "session_key \<Rightarrow> bool" where
  "colon_free k \<longleftrightarrow> 58 \<notin> set (sk_user_id k) \<and> 58 \<notin> set (sk_channel k)"

lemma str_colon: "str '':'' = [58]"
  by (simp add: str_def)

lemma thread_key_colons:
  "thread_key k e = sk_user_id k @ 58 # (sk_channel k @ 58 # e)"
  by (simp add: thread_key_def str_colon)

lemma append_sep_inject:
  assumes "c \<notin> set a" and "c \<notin> set a'" and "a @ (c::nat) # r = a' @ c # r'"
  shows "a = a'" and "r = r'"
proof -
  have "Some (a, r) = split_once c (a' @ c # r')"
    using split_once_append [OF assms(1), of r] by (simp only: assms(3))
  then have "Some (a, r) = Some (a', r')"
    by (simp only: split_once_append [OF assms(2)])
  then show "a = a'" and "r = r'" by simp_all
qed

lemma thread_key_inject:
  assumes "colon_free k" and "colon_free k'" and "thread_key k e = thread_key k' e'"
  shows "k = k' \<and> e = e'"
proof -
  note eq = assms(3) [unfolded thread_key_colons]
  have user: "58 \<notin> set (sk_user_id k)" "58 \<notin> set (sk_user_id k')"
    and chan: "58 \<notin> set (sk_channel k)" "58 \<notin> set (sk_channel k')"
    using assms(1,2) by (simp_all add: colon_free_def)
  show ?thesis
    using append_sep_inject(1) [OF user eq]
      append_sep_inject [OF chan append_sep_inject(2) [OF user eq]]
    by simp
qed

section \<open>The store boundary\<close>

record stored_session_record =
  ss_id :: uuid
  ss_key :: session_key
  ss_created_at :: time
  ss_updated_at :: time

record external_message_dedup_record =
  dr_thread_id :: uuid
  dr_external_message_id :: rstring
  dr_turn_id :: "uuid option"
  dr_completed_at :: time

record session_revision_conflict =
  rc_thread_id :: rstring
  rc_expected_revision :: u64
  rc_actual_revision :: u64

datatype session_store_error = RevisionConflict session_revision_conflict | StoreOther err

text \<open>One \<open>dyn SessionStore\<close>. Operations that write return the store they leave.\<close>

record 's session_store =
  so_load_session :: "session_key \<Rightarrow> 's \<Rightarrow> session_store_error + stored_session_record option"
  so_resolve_or_create_session ::
    "uuid \<Rightarrow> session_key \<Rightarrow> time \<Rightarrow> 's \<Rightarrow> (session_store_error + stored_session_record) \<times> 's"
  so_load_thread_context :: "thread_locator \<Rightarrow> 's \<Rightarrow> session_store_error + thread option"
  so_save_thread_context ::
    "thread \<Rightarrow> time \<Rightarrow> external_message_dedup_record option \<Rightarrow> 's \<Rightarrow> (session_store_error + u64) \<times> 's"
  so_load_external_message_record ::
    "thread_locator \<Rightarrow> rstring \<Rightarrow> 's \<Rightarrow> session_store_error + external_message_dedup_record option"
  so_save_external_message_record ::
    "thread_locator \<Rightarrow> external_message_dedup_record \<Rightarrow> 's \<Rightarrow> (session_store_error + unit) \<times> 's"

section \<open>The in-memory backend\<close>

record memory_store =
  ms_sessions :: "session_key \<rightharpoonup> stored_session_record"
  ms_threads :: "uuid \<rightharpoonup> thread"
  ms_external_messages :: "(uuid \<times> rstring) \<rightharpoonup> external_message_dedup_record"

definition memory_store_new :: memory_store where
  "memory_store_new = \<lparr>ms_sessions = Map.empty, ms_threads = Map.empty, ms_external_messages = Map.empty\<rparr>"

definition mem_load_session ::
    "session_key \<Rightarrow> memory_store \<Rightarrow> session_store_error + stored_session_record option" where
  "mem_load_session k s = Inr (ms_sessions s k)"

definition mem_resolve_or_create_session ::
    "uuid \<Rightarrow> session_key \<Rightarrow> time \<Rightarrow> memory_store
     \<Rightarrow> (session_store_error + stored_session_record) \<times> memory_store" where
  "mem_resolve_or_create_session fresh k now s =
     (let record0 = (case ms_sessions s k of
                       Some r \<Rightarrow> r
                     | None \<Rightarrow> \<lparr>ss_id = fresh, ss_key = k, ss_created_at = now, ss_updated_at = now\<rparr>) in
      let r = record0\<lparr>ss_updated_at := now\<rparr> in
      (Inr r, s\<lparr>ms_sessions := (ms_sessions s)(k \<mapsto> r)\<rparr>))"

definition mem_load_thread_context ::
    "thread_locator \<Rightarrow> memory_store \<Rightarrow> session_store_error + thread option" where
  "mem_load_thread_context l s = Inr (ms_threads s (tl_thread_id l))"

definition mem_actual_revision :: "memory_store \<Rightarrow> uuid \<Rightarrow> u64" where
  "mem_actual_revision s thread_id =
     (case ms_threads s thread_id of Some t \<Rightarrow> th_revision t | None \<Rightarrow> 0)"

definition mem_save_thread_context ::
    "uuid_lib \<Rightarrow> thread \<Rightarrow> time \<Rightarrow> external_message_dedup_record option \<Rightarrow> memory_store
     \<Rightarrow> (session_store_error + u64) \<times> memory_store" where
  "mem_save_thread_context U t updated_at dedup_record s =
     (case tcl_session_id (th_locator t) of
        None \<Rightarrow>
          (Inl (StoreOther (bail (str ''thread context session_id is required before saving''))), s)
      | Some session_id_str \<Rightarrow>
     (case uuid_parse_str U session_id_str of
        None \<Rightarrow>
          (Inl (StoreOther (bail (str ''invalid session_id `'' @ session_id_str @ str ''` on thread context''))), s)
      | Some session_id \<Rightarrow>
          let session_key = \<lparr>sk_channel = tcl_channel (th_locator t),
                             sk_user_id = tcl_user_id (th_locator t)\<rparr> in
     (case uuid_parse_str U (tcl_thread_id (th_locator t)) of
        None \<Rightarrow>
          (Inl (StoreOther (bail (str ''invalid thread_id `'' @ tcl_thread_id (th_locator t)
                                  @ str ''` on thread context''))), s)
      | Some thread_id \<Rightarrow>
          let actual_revision = mem_actual_revision s thread_id in
     (case ms_sessions s session_key of
        None \<Rightarrow>
          (Inl (StoreOther (bail (str ''session `'' @ uuid_to_string U session_id
                                  @ str ''` was not resolved before save''))), s)
      | Some session \<Rightarrow>
          let expected_revision = th_revision t in
          if expected_revision \<noteq> actual_revision
          then (Inl (RevisionConflict \<lparr>rc_thread_id = tcl_thread_id (th_locator t),
                                       rc_expected_revision = expected_revision,
                                       rc_actual_revision = actual_revision\<rparr>), s)
          else
            let new_revision = actual_revision + 1 in
            let s1 = s\<lparr>ms_threads := (ms_threads s)(thread_id \<mapsto> set_revision new_revision t),
                       ms_sessions := (ms_sessions s)(session_key \<mapsto> session\<lparr>ss_updated_at := updated_at\<rparr>)\<rparr> in
            (Inr new_revision,
             case dedup_record of
               Some r \<Rightarrow>
                 s1\<lparr>ms_external_messages := (ms_external_messages s1)
                     ((dr_thread_id r, dr_external_message_id r) \<mapsto> r)\<rparr>
             | None \<Rightarrow> s1)))))"

definition mem_load_external_message_record ::
    "thread_locator \<Rightarrow> rstring \<Rightarrow> memory_store
     \<Rightarrow> session_store_error + external_message_dedup_record option" where
  "mem_load_external_message_record l x s = Inr (ms_external_messages s (tl_thread_id l, x))"

definition mem_save_external_message_record ::
    "thread_locator \<Rightarrow> external_message_dedup_record \<Rightarrow> memory_store
     \<Rightarrow> (session_store_error + unit) \<times> memory_store" where
  "mem_save_external_message_record l r s =
     (Inr (), s\<lparr>ms_external_messages := (ms_external_messages s)
                 ((tl_thread_id l, dr_external_message_id r) \<mapsto> r)\<rparr>)"

definition memory_session_store :: "uuid_lib \<Rightarrow> memory_store session_store" where
  "memory_session_store U =
     \<lparr>so_load_session = mem_load_session,
      so_resolve_or_create_session = mem_resolve_or_create_session,
      so_load_thread_context = mem_load_thread_context,
      so_save_thread_context = mem_save_thread_context U,
      so_load_external_message_record = mem_load_external_message_record,
      so_save_external_message_record = mem_save_external_message_record\<rparr>"

section \<open>What a store promises\<close>

text \<open>
  Locators the system builds: the thread id is derived from the thread key, and user and channel
  carry no separator. \<open>K\<close> is the set of thread keys in use; on it the hash of \<open>Uuid::new_v5\<close>
  is taken to be free of collisions.
\<close>

definition thread_ids_separate :: "uuid_lib \<Rightarrow> rstring set \<Rightarrow> bool" where
  "thread_ids_separate U K \<longleftrightarrow> inj_on (uuid_new_v5 U) K"

definition wf_locator :: "uuid_lib \<Rightarrow> rstring set \<Rightarrow> thread_locator \<Rightarrow> bool" where
  "wf_locator U K l \<longleftrightarrow>
     colon_free (tl_session_key l) \<and> tl_thread_key l \<in> K
     \<and> tl_thread_id l = derive_thread_id U (tl_session_key l) (tl_external_thread_id l)"

lemma wf_locator_thread_id_inject:
  assumes "thread_ids_separate U K" and "wf_locator U K l" and "wf_locator U K l'"
    and "tl_thread_id l = tl_thread_id l'"
  shows "tl_session_key l = tl_session_key l'"
    and "tl_external_thread_id l = tl_external_thread_id l'"
proof -
  have "tl_thread_key l = tl_thread_key l'"
    using assms
    by (auto simp: wf_locator_def thread_ids_separate_def derive_thread_id_def
        derive_internal_thread_id_def tl_thread_key_def dest: inj_onD)
  then show "tl_session_key l = tl_session_key l'"
    and "tl_external_thread_id l = tl_external_thread_id l'"
    using assms(2,3) thread_key_inject by (auto simp: wf_locator_def tl_thread_key_def)
qed

text \<open>Revisions an \<open>i64\<close> column can still advance.\<close>

definition revision_in_range :: "u64 \<Rightarrow> bool" where
  "revision_in_range r \<longleftrightarrow> unat r < 2 ^ 63 - 1"

definition upd_dedup ::
    "external_message_dedup_record option \<Rightarrow> ((uuid \<times> rstring) \<rightharpoonup> external_message_dedup_record)
     \<Rightarrow> ((uuid \<times> rstring) \<rightharpoonup> external_message_dedup_record)" where
  "upd_dedup d m =
     (case d of Some r \<Rightarrow> m((dr_thread_id r, dr_external_message_id r) \<mapsto> r) | None \<Rightarrow> m)"

definition stored_revision :: "(uuid \<rightharpoonup> thread) \<Rightarrow> uuid \<Rightarrow> u64" where
  "stored_revision m i = (case m i of Some t \<Rightarrow> th_revision t | None \<Rightarrow> 0)"

locale session_store_laws =
  fixes ops :: "'s session_store"
    and U :: uuid_lib
    and wf_loc :: "thread_locator \<Rightarrow> bool"
    and inv :: "'s \<Rightarrow> bool"
    and session_of :: "'s \<Rightarrow> session_key \<rightharpoonup> stored_session_record"
    and thread_of :: "'s \<Rightarrow> uuid \<rightharpoonup> thread"
    and dedup_of :: "'s \<Rightarrow> (uuid \<times> rstring) \<rightharpoonup> external_message_dedup_record"
    and view :: "thread \<Rightarrow> thread"
  assumes load_session: "inv s \<Longrightarrow> so_load_session ops k s = Inr (session_of s k)"
    and session_key: "inv s \<Longrightarrow> session_of s k = Some r \<Longrightarrow> ss_key r = k"
    and resolve:
      "inv s \<Longrightarrow> session_of s k = None \<longrightarrow> (\<forall>k' r'. session_of s k' = Some r' \<longrightarrow> ss_id r' \<noteq> u) \<Longrightarrow>
       \<exists>r s'. so_resolve_or_create_session ops u k now s = (Inr r, s') \<and> inv s'
         \<and> session_of s' = (session_of s)(k \<mapsto> r)
         \<and> ss_id r = (case session_of s k of Some r0 \<Rightarrow> ss_id r0 | None \<Rightarrow> u)
         \<and> thread_of s' = thread_of s \<and> dedup_of s' = dedup_of s"
    and load_thread:
      "inv s \<Longrightarrow> wf_loc l \<Longrightarrow> session_of s (tl_session_key l) = Some r \<Longrightarrow>
       ss_id r = tl_session_id l \<Longrightarrow>
       \<exists>t. so_load_thread_context ops l s = Inr t
         \<and> map_option (rebind_locator (locator_from U l)) t
           = map_option (rebind_locator (locator_from U l)) (thread_of s (tl_thread_id l))"
    and save_ok:
      "inv s \<Longrightarrow> wf_loc l \<Longrightarrow> session_of s (tl_session_key l) = Some r \<Longrightarrow>
       ss_id r = tl_session_id l \<Longrightarrow> th_locator t = locator_from U l \<Longrightarrow>
       revision_in_range (th_revision t) \<Longrightarrow> (\<forall>x. d = Some x \<longrightarrow> dr_thread_id x = tl_thread_id l) \<Longrightarrow>
       th_revision t = stored_revision (thread_of s) (tl_thread_id l) \<Longrightarrow>
       \<exists>s'. so_save_thread_context ops t now d s = (Inr (th_revision t + 1), s') \<and> inv s'
         \<and> thread_of s' = (thread_of s)(tl_thread_id l \<mapsto> set_revision (th_revision t + 1) (view t))
         \<and> dedup_of s' = upd_dedup d (dedup_of s)
         \<and> (\<forall>k. map_option ss_id (session_of s' k) = map_option ss_id (session_of s k))"
    and save_conflict:
      "inv s \<Longrightarrow> wf_loc l \<Longrightarrow> session_of s (tl_session_key l) = Some r \<Longrightarrow>
       ss_id r = tl_session_id l \<Longrightarrow> th_locator t = locator_from U l \<Longrightarrow>
       revision_in_range (th_revision t) \<Longrightarrow>
       th_revision t \<noteq> stored_revision (thread_of s) (tl_thread_id l) \<Longrightarrow>
       so_save_thread_context ops t now d s =
         (Inl (RevisionConflict
                 \<lparr>rc_thread_id = uuid_to_string U (tl_thread_id l), rc_expected_revision = th_revision t,
                  rc_actual_revision = stored_revision (thread_of s) (tl_thread_id l)\<rparr>), s)"
    and load_dedup:
      "inv s \<Longrightarrow> so_load_external_message_record ops l x s = Inr (dedup_of s (tl_thread_id l, x))"
    and save_dedup:
      "inv s \<Longrightarrow> thread_of s (tl_thread_id l) \<noteq> None \<Longrightarrow> dr_thread_id rec = tl_thread_id l \<Longrightarrow>
       \<exists>s'. so_save_external_message_record ops l rec s = (Inr (), s') \<and> inv s'
         \<and> session_of s' = session_of s \<and> thread_of s' = thread_of s
         \<and> dedup_of s' = (dedup_of s)((tl_thread_id l, dr_external_message_id rec) \<mapsto> rec)"
    and view_sel: "messages (view t) = messages t" "th_state (view t) = th_state t"
      "th_revision (view t) = th_revision t" "th_locator (view t) = th_locator t"
begin

text \<open>A save is visible to the next load, with the advanced revision.\<close>

lemma save_then_load:
  assumes "inv s" "wf_loc l" "session_of s (tl_session_key l) = Some r" "ss_id r = tl_session_id l"
    and "th_locator t = locator_from U l" "revision_in_range (th_revision t)"
    and "\<forall>x. d = Some x \<longrightarrow> dr_thread_id x = tl_thread_id l"
    and "th_revision t = stored_revision (thread_of s) (tl_thread_id l)"
  obtains s' t' where "so_save_thread_context ops t now d s = (Inr (th_revision t + 1), s')"
    and "so_load_thread_context ops l s' = Inr (Some t')"
    and "messages t' = messages t" and "th_state t' = th_state t"
    and "th_revision (rebind_locator (locator_from U l) t') = th_revision t + 1"
proof -
  obtain s' where sv: "so_save_thread_context ops t now d s = (Inr (th_revision t + 1), s')" "inv s'"
    "thread_of s' = (thread_of s)(tl_thread_id l \<mapsto> set_revision (th_revision t + 1) (view t))"
    and ids: "\<forall>k. map_option ss_id (session_of s' k) = map_option ss_id (session_of s k)"
    using save_ok [OF assms, of now] by blast
  have "map_option ss_id (session_of s' (tl_session_key l)) = Some (tl_session_id l)"
    using spec [OF ids, of "tl_session_key l"] assms(3,4) by simp
  then obtain r' where r': "session_of s' (tl_session_key l) = Some r'" "ss_id r' = tl_session_id l"
    by auto
  obtain t'' where ld: "so_load_thread_context ops l s' = Inr t''"
    and eq: "map_option (rebind_locator (locator_from U l)) t''
       = Some (rebind_locator (locator_from U l) (set_revision (th_revision t + 1) (view t)))"
    using load_thread [OF sv(2) assms(2) r'] sv(3) by auto
  then obtain t' where t': "t'' = Some t'" and same: "rebind_locator (locator_from U l) t'
       = rebind_locator (locator_from U l) (set_revision (th_revision t + 1) (view t))"
    by auto
  have "messages t' = messages t" "th_state t' = th_state t"
    "th_revision (rebind_locator (locator_from U l) t') = th_revision t + 1"
    using arg_cong [OF same, of th_thread] arg_cong [OF same, of th_state]
      arg_cong [OF same, of th_revision] view_sel [of t]
    by (simp_all add: rebind_locator_def set_revision_def)
  then show ?thesis using that sv(1) ld t' by blast
qed

text \<open>Compare-and-swap: of two writers that read the same revision, the second one is refused.\<close>

lemma second_writer_conflicts:
  assumes "inv s" "wf_loc l" "session_of s (tl_session_key l) = Some r" "ss_id r = tl_session_id l"
    and "th_locator t = locator_from U l" "th_locator t2 = locator_from U l"
    and "revision_in_range (th_revision t)"
    and "th_revision t = stored_revision (thread_of s) (tl_thread_id l)"
    and "th_revision t2 = th_revision t"
  obtains s' where "so_save_thread_context ops t now None s = (Inr (th_revision t + 1), s')"
    and "so_save_thread_context ops t2 now2 d2 s' =
           (Inl (RevisionConflict
                   \<lparr>rc_thread_id = uuid_to_string U (tl_thread_id l), rc_expected_revision = th_revision t,
                    rc_actual_revision = th_revision t + 1\<rparr>), s')"
proof -
  obtain s' where sv: "so_save_thread_context ops t now None s = (Inr (th_revision t + 1), s')" "inv s'"
    "thread_of s' = (thread_of s)(tl_thread_id l \<mapsto> set_revision (th_revision t + 1) (view t))"
    and ids: "\<forall>k. map_option ss_id (session_of s' k) = map_option ss_id (session_of s k)"
    using save_ok [OF assms(1-5,7) _ assms(8), of None now] by auto
  have "map_option ss_id (session_of s' (tl_session_key l)) = Some (tl_session_id l)"
    using spec [OF ids, of "tl_session_key l"] assms(3,4) by simp
  then obtain r' where r': "session_of s' (tl_session_key l) = Some r'" "ss_id r' = tl_session_id l"
    by auto
  have rev: "stored_revision (thread_of s') (tl_thread_id l) = th_revision t + 1"
    using sv(3) by (simp add: stored_revision_def set_revision_def)
  have "so_save_thread_context ops t2 now2 d2 s' =
           (Inl (RevisionConflict
                   \<lparr>rc_thread_id = uuid_to_string U (tl_thread_id l), rc_expected_revision = th_revision t2,
                    rc_actual_revision = stored_revision (thread_of s') (tl_thread_id l)\<rparr>), s')"
    by (rule save_conflict [OF sv(2) assms(2) r' assms(6)])
      (use assms(7,9) rev in auto)
  then show ?thesis using that sv(1) by (simp add: rev assms(9))
qed

end

section \<open>The in-memory backend keeps the promises\<close>

definition memory_store_inv :: "uuid_lib \<Rightarrow> rstring set \<Rightarrow> memory_store \<Rightarrow> bool" where
  "memory_store_inv U K s \<longleftrightarrow>
     uuid_lib_ok U \<and> thread_ids_separate U K
     \<and> (\<forall>k r. ms_sessions s k = Some r \<longrightarrow> ss_key r = k)"

lemma memory_store_inv_new:
  "uuid_lib_ok U \<Longrightarrow> thread_ids_separate U K \<Longrightarrow> memory_store_inv U K memory_store_new"
  by (simp add: memory_store_inv_def memory_store_new_def)

lemma mem_actual_revision_eq: "mem_actual_revision s i = stored_revision (ms_threads s) i"
  by (simp add: mem_actual_revision_def stored_revision_def)

lemma mem_save_cases:
  assumes "uuid_lib_ok U" "th_locator t = locator_from U l"
    and "ms_sessions s (tl_session_key l) = Some r"
  shows "mem_save_thread_context U t now d s =
    (let i = tl_thread_id l; actual = stored_revision (ms_threads s) i in
     if th_revision t \<noteq> actual
     then (Inl (RevisionConflict \<lparr>rc_thread_id = uuid_to_string U i,
              rc_expected_revision = th_revision t, rc_actual_revision = actual\<rparr>), s)
     else (Inr (actual + 1),
           s\<lparr>ms_threads := (ms_threads s)(i \<mapsto> set_revision (actual + 1) t),
             ms_sessions := (ms_sessions s)(tl_session_key l \<mapsto> r\<lparr>ss_updated_at := now\<rparr>),
             ms_external_messages := upd_dedup d (ms_external_messages s)\<rparr>))"
  using assms
  by (simp add: mem_save_thread_context_def Let_def mem_actual_revision_eq upd_dedup_def
      tl_session_key_def split: option.splits)

interpretation mem: session_store_laws "memory_session_store U" U "wf_locator U K" "memory_store_inv U K"
  ms_sessions ms_threads ms_external_messages "\<lambda>t. t"
  for U K
proof (unfold_locales, goal_cases)
  case (3 s k u now)
  then show ?case
    by (auto simp: memory_session_store_def mem_resolve_or_create_session_def Let_def
        memory_store_inv_def split: option.splits)
next
  case (4 s l r)
  then show ?case by (simp add: memory_session_store_def mem_load_thread_context_def)
next
  case (5 s l r t d now)
  then show ?case
    by (simp add: memory_session_store_def mem_save_cases memory_store_inv_def Let_def)
next
  case (6 s l r t now d)
  then show ?case
    by (simp add: memory_session_store_def mem_save_cases memory_store_inv_def Let_def)
qed (auto simp: memory_session_store_def mem_load_session_def memory_store_inv_def
    mem_load_external_message_record_def mem_save_external_message_record_def)

section \<open>Properties of thread identity and of the memory backend\<close>

definition demo_store_locator :: thread_locator where
  "demo_store_locator =
     \<lparr>tl_session_id = 7, tl_channel = str ''feishu'', tl_user_id = str ''u'',
      tl_external_thread_id = str ''t'',
      tl_thread_id = derive_thread_id demo_uuid_lib
        \<lparr>sk_channel = str ''feishu'', sk_user_id = str ''u''\<rparr> (str ''t'')\<rparr>"

definition demo_keys :: "rstring set" where
  "demo_keys = {tl_thread_key demo_store_locator}"

lemma demo_keys_separate: "thread_ids_separate demo_uuid_lib demo_keys"
  by (simp add: thread_ids_separate_def demo_keys_def)

lemma demo_store_locator_wf: "wf_locator demo_uuid_lib demo_keys demo_store_locator"
  by (simp add: wf_locator_def demo_keys_def demo_store_locator_def tl_session_key_def
      colon_free_def str_def)

definition demo_stored_thread :: thread where
  "demo_stored_thread =
     replace_messages [demo_user_message] 3
       (thread_new (locator_from demo_uuid_lib demo_store_locator) 1)"

lemma demo_stored_thread_sel:
  "th_locator demo_stored_thread = locator_from demo_uuid_lib demo_store_locator"
  "th_revision demo_stored_thread = 0" "messages demo_stored_thread = [demo_user_message]"
  by (simp_all add: demo_stored_thread_def replace_messages_def thread_new_def)

text \<open>
  The derived thread id determines user, channel and external thread wherever user and channel
  ids hold no colon and the hash does not collide on the two keys: two different conversations
  never share a thread.
\<close>
theorem thread_identity_injective:
  assumes "colon_free k" and "colon_free k'"
    and "thread_ids_separate U {thread_key k e, thread_key k' e'}"
    and "derive_thread_id U k e = derive_thread_id U k' e'"
  shows "k = k' \<and> e = e'"
proof -
  have "thread_key k e = thread_key k' e'"
    using assms(3,4)
    by (auto simp: thread_ids_separate_def derive_thread_id_def derive_internal_thread_id_def)
  then show ?thesis by (rule thread_key_inject [OF assms(1,2)])
qed

theorem thread_identity_injective_witness:
  "(let k = tl_session_key demo_store_locator in k = k \<and> str ''t'' = str ''t'')
   \<and> colon_free (tl_session_key demo_store_locator)"
  using thread_identity_injective [of "tl_session_key demo_store_locator"
      "tl_session_key demo_store_locator" demo_uuid_lib "str ''t''" "str ''t''"]
    demo_store_locator_wf
  by (simp add: wf_locator_def thread_ids_separate_def)

text \<open>
  Without that hypothesis identity fails. The separator is not escaped, so on one channel the
  user \<open>x\<close> with external thread \<open>feishu:e\<close> and the user \<open>x:feishu\<close> with external thread \<open>e\<close> are
  given one thread id, whatever the hash, and a memory-backed load for the second returns the
  thread saved for the first.
\<close>
theorem thread_identity_collision:
  fixes U :: uuid_lib and s :: memory_store
  defines "k \<equiv> \<lparr>sk_channel = str ''feishu'', sk_user_id = str ''x''\<rparr>"
    and "k' \<equiv> \<lparr>sk_channel = str ''feishu'', sk_user_id = str ''x:feishu''\<rparr>"
  shows "k \<noteq> k'
    \<and> derive_thread_id U k (str ''feishu:e'') = derive_thread_id U k' (str ''e'')
    \<and> mem_load_thread_context
           \<lparr>tl_session_id = i, tl_channel = sk_channel k', tl_user_id = sk_user_id k',
            tl_external_thread_id = str ''e'', tl_thread_id = derive_thread_id U k' (str ''e'')\<rparr> s
       = mem_load_thread_context
           \<lparr>tl_session_id = j, tl_channel = sk_channel k, tl_user_id = sk_user_id k,
            tl_external_thread_id = str ''feishu:e'', tl_thread_id = derive_thread_id U k (str ''feishu:e'')\<rparr> s"
proof -
  have "derive_thread_id U k (str ''feishu:e'') = derive_thread_id U k' (str ''e'')"
    by (simp add: k_def k'_def derive_thread_id_def thread_key_def str_def)
  then show ?thesis by (simp add: mem_load_thread_context_def) (simp add: k_def k'_def)
qed

text \<open>
  Compare-and-swap on the memory backend. Of two writers holding the same revision of a thread, the
  first save succeeds and advances the revision; the second is refused with the conflict that
  names both revisions, and the store is left unchanged.
\<close>
theorem memory_rejects_second_writer:
  assumes "memory_store_inv U K s" "wf_locator U K l"
    and "ms_sessions s (tl_session_key l) = Some r" "ss_id r = tl_session_id l"
    and "th_locator t = locator_from U l" "th_locator t2 = locator_from U l"
    and "revision_in_range (th_revision t)"
    and "th_revision t = mem_actual_revision s (tl_thread_id l)" and "th_revision t2 = th_revision t"
  obtains s' where "mem_save_thread_context U t now None s = (Inr (th_revision t + 1), s')"
    and "mem_save_thread_context U t2 now2 d2 s' =
           (Inl (RevisionConflict
                   \<lparr>rc_thread_id = uuid_to_string U (tl_thread_id l), rc_expected_revision = th_revision t,
                    rc_actual_revision = th_revision t + 1\<rparr>), s')"
  using mem.second_writer_conflicts [OF assms(1-7) _ assms(9), of now now2 d2] assms(8)
  by (auto simp: mem_actual_revision_eq memory_session_store_def)

lemma demo_memory_resolved:
  fixes now :: time
  obtains r where "memory_store_inv demo_uuid_lib demo_keys
      (snd (mem_resolve_or_create_session 7 (tl_session_key demo_store_locator) now memory_store_new))"
    and "ms_sessions (snd (mem_resolve_or_create_session 7 (tl_session_key demo_store_locator) now memory_store_new))
           (tl_session_key demo_store_locator) = Some r"
    and "ss_id r = tl_session_id demo_store_locator"
    and "mem_actual_revision (snd (mem_resolve_or_create_session 7 (tl_session_key demo_store_locator) now memory_store_new))
           (tl_thread_id demo_store_locator) = 0"
proof (rule that [of "\<lparr>ss_id = 7, ss_key = tl_session_key demo_store_locator,
                           ss_created_at = now, ss_updated_at = now\<rparr>"])
  show "memory_store_inv demo_uuid_lib demo_keys
      (snd (mem_resolve_or_create_session 7 (tl_session_key demo_store_locator) now memory_store_new))"
    using demo_uuid_lib_ok demo_keys_separate
    by (simp add: mem_resolve_or_create_session_def memory_store_new_def Let_def memory_store_inv_def)
qed (simp_all add: mem_resolve_or_create_session_def memory_store_new_def Let_def
      mem_actual_revision_def demo_store_locator_def)

theorem memory_rejects_second_writer_witness:
  "\<exists>s s'. mem_save_thread_context demo_uuid_lib demo_stored_thread 5 None s = (Inr 1, s')
     \<and> mem_save_thread_context demo_uuid_lib demo_stored_thread 6 None s'
         = (Inl (RevisionConflict
                   \<lparr>rc_thread_id = uuid_to_string demo_uuid_lib (tl_thread_id demo_store_locator),
                    rc_expected_revision = 0, rc_actual_revision = 1\<rparr>), s')"
proof -
  obtain r where r:
    "memory_store_inv demo_uuid_lib demo_keys
      (snd (mem_resolve_or_create_session 7 (tl_session_key demo_store_locator) 1 memory_store_new))"
    "ms_sessions (snd (mem_resolve_or_create_session 7 (tl_session_key demo_store_locator) 1 memory_store_new))
           (tl_session_key demo_store_locator) = Some r"
    "ss_id r = tl_session_id demo_store_locator"
    "mem_actual_revision (snd (mem_resolve_or_create_session 7 (tl_session_key demo_store_locator) 1 memory_store_new))
           (tl_thread_id demo_store_locator) = 0"
    by (rule demo_memory_resolved)
  show ?thesis
    by (rule memory_rejects_second_writer [OF r(1) demo_store_locator_wf r(2,3) demo_stored_thread_sel(1)
          demo_stored_thread_sel(1), of 5 6 None])
      (use r(4) demo_stored_thread_sel in \<open>auto simp: revision_in_range_def\<close>)
qed

end
