(* ===== verification/OJ_Sqlite_Store.thy ===== *)
theory OJ_Sqlite_Store
  imports OJ_Session_Store
begin

text \<open>
  The SQLite backend, \<open>src/session/store/sqlite.rs\<close>. The three tables of its schema are lists of
  rows; each SQL statement of the source is a function on them that fails when it breaks a
  constraint of the schema (primary keys, UNIQUE, foreign keys, \<open>PRAGMA foreign_keys = ON\<close>). A
  failing transaction leaves the database as it was. The JSON snapshot column holds the thread that
  serde reads back from it: the fields marked \<open>skip_serializing, skip_deserializing\<close> come back
  with their defaults. Failures of the database file itself and of the blocking task pool are
  not modelled; of a driver error only the context the source attaches is kept.
\<close>

section \<open>Tables\<close>

record session_row =
  sr_session_id :: rstring
  sr_channel :: rstring
  sr_user_id :: rstring
  sr_created_at :: time
  sr_updated_at :: time

record thread_row =
  tr_thread_id :: rstring
  tr_session_id :: rstring
  tr_external_thread_id :: rstring
  tr_revision :: int
  tr_snapshot_json :: thread
  tr_created_at :: time
  tr_updated_at :: time

record dedup_row =
  xr_thread_id :: rstring
  xr_external_message_id :: rstring
  xr_turn_id :: "rstring option"
  xr_completed_at :: time

record sqlite_db =
  db_user_version :: int
  db_session_metadata :: "session_row list"
  db_thread_metadata :: "thread_row list"
  db_external_message_dedup :: "dedup_row list"

definition thread_serde_roundtrip :: "thread \<Rightarrow> thread" where
  "thread_serde_roundtrip t = t\<lparr>th_revision := 0, th_pending_tool_events := [], th_current_turn := None\<rparr>"

definition wrap_i64 :: "int \<Rightarrow> int" where
  "wrap_i64 x = (x + 2 ^ 63) mod 2 ^ 64 - 2 ^ 63"

section \<open>Statements\<close>

definition SQLITE_SCHEMA_VERSION :: int where
  "SQLITE_SCHEMA_VERSION = 1"

definition sql_initialize_schema :: "rstring \<Rightarrow> sqlite_db \<Rightarrow> (session_store_error + unit) \<times> sqlite_db" where
  "sql_initialize_schema sqlite_path db =
     (if db_user_version db = 0 then (Inr (), db\<lparr>db_user_version := 1\<rparr>)
      else if db_user_version db = SQLITE_SCHEMA_VERSION then (Inr (), db)
      else (Inl (StoreOther (bail (str ''unsupported sqlite session store schema version `''
                                   @ int_str (db_user_version db) @ str ''` at '' @ sqlite_path))), db))"

definition sql_find_session :: "session_key \<Rightarrow> sqlite_db \<Rightarrow> session_row option" where
  "sql_find_session k db =
     find (\<lambda>r. sr_channel r = sk_channel k \<and> sr_user_id r = sk_user_id k) (db_session_metadata db)"

definition sql_insert_session :: "session_row \<Rightarrow> sqlite_db \<Rightarrow> sqlite_db option" where
  "sql_insert_session row db =
     (if list_ex (\<lambda>r. sr_session_id r = sr_session_id row
                  \<or> (sr_channel r = sr_channel row \<and> sr_user_id r = sr_user_id row)) (db_session_metadata db)
      then None
      else Some (db\<lparr>db_session_metadata := db_session_metadata db @ [row]\<rparr>))"

definition sql_touch_session :: "time \<Rightarrow> rstring \<Rightarrow> sqlite_db \<Rightarrow> sqlite_db" where
  "sql_touch_session now session_id db =
     db\<lparr>db_session_metadata :=
          map (\<lambda>r. if sr_session_id r = session_id then r\<lparr>sr_updated_at := now\<rparr> else r)
            (db_session_metadata db)\<rparr>"

definition sql_find_thread :: "rstring \<Rightarrow> sqlite_db \<Rightarrow> thread_row option" where
  "sql_find_thread thread_id db = find (\<lambda>r. tr_thread_id r = thread_id) (db_thread_metadata db)"

definition sql_session_exists :: "rstring \<Rightarrow> sqlite_db \<Rightarrow> bool" where
  "sql_session_exists session_id db = list_ex (\<lambda>r. sr_session_id r = session_id) (db_session_metadata db)"

definition sql_insert_thread :: "thread_row \<Rightarrow> sqlite_db \<Rightarrow> sqlite_db option" where
  "sql_insert_thread row db =
     (if list_ex (\<lambda>r. tr_thread_id r = tr_thread_id row
                  \<or> (tr_session_id r = tr_session_id row
                     \<and> tr_external_thread_id r = tr_external_thread_id row)) (db_thread_metadata db)
         \<or> \<not> sql_session_exists (tr_session_id row) db
      then None
      else Some (db\<lparr>db_thread_metadata := db_thread_metadata db @ [row]\<rparr>))"

definition sql_update_thread ::
    "rstring \<Rightarrow> rstring \<Rightarrow> int \<Rightarrow> thread \<Rightarrow> time \<Rightarrow> rstring \<Rightarrow> sqlite_db \<Rightarrow> sqlite_db option" where
  "sql_update_thread session_id external_thread_id revision snapshot now thread_id db =
     (if list_ex (\<lambda>r. tr_thread_id r = thread_id) (db_thread_metadata db)
         \<and> (\<not> sql_session_exists session_id db
            \<or> list_ex (\<lambda>r. tr_thread_id r \<noteq> thread_id \<and> tr_session_id r = session_id
                       \<and> tr_external_thread_id r = external_thread_id) (db_thread_metadata db))
      then None
      else Some (db\<lparr>db_thread_metadata :=
          map (\<lambda>r. if tr_thread_id r = thread_id
                   then r\<lparr>tr_session_id := session_id, tr_external_thread_id := external_thread_id,
                          tr_revision := revision, tr_snapshot_json := snapshot, tr_updated_at := now\<rparr>
                   else r) (db_thread_metadata db)\<rparr>))"

definition sql_upsert_dedup :: "dedup_row \<Rightarrow> sqlite_db \<Rightarrow> sqlite_db option" where
  "sql_upsert_dedup row db =
     (if list_ex (\<lambda>r. xr_thread_id r = xr_thread_id row
                  \<and> xr_external_message_id r = xr_external_message_id row) (db_external_message_dedup db)
      then Some (db\<lparr>db_external_message_dedup :=
             map (\<lambda>r. if xr_thread_id r = xr_thread_id row
                         \<and> xr_external_message_id r = xr_external_message_id row
                      then r\<lparr>xr_turn_id := xr_turn_id row, xr_completed_at := xr_completed_at row\<rparr>
                      else r) (db_external_message_dedup db)\<rparr>)
      else if list_ex (\<lambda>r. tr_thread_id r = xr_thread_id row) (db_thread_metadata db)
      then Some (db\<lparr>db_external_message_dedup := db_external_message_dedup db @ [row]\<rparr>)
      else None)"

section \<open>The operations of the backend\<close>

definition store_bail :: "string \<Rightarrow> session_store_error" where
  "store_bail m = StoreOther (bail (str m))"

definition sqlite_load_session ::
    "uuid_lib \<Rightarrow> session_key \<Rightarrow> sqlite_db \<Rightarrow> session_store_error + stored_session_record option" where
  "sqlite_load_session U k db =
     (case sql_find_session k db of
        None \<Rightarrow> Inr None
      | Some row \<Rightarrow>
          (case uuid_parse_str U (sr_session_id row) of
             None \<Rightarrow> Inl (StoreOther (bail (str ''invalid stored session_id `'' @ sr_session_id row @ str ''`'')))
           | Some i \<Rightarrow> Inr (Some \<lparr>ss_id = i, ss_key = k, ss_created_at = sr_created_at row,
                                  ss_updated_at = sr_updated_at row\<rparr>)))"

definition sqlite_resolve_or_create_session ::
    "uuid_lib \<Rightarrow> uuid \<Rightarrow> session_key \<Rightarrow> time \<Rightarrow> sqlite_db
     \<Rightarrow> (session_store_error + stored_session_record) \<times> sqlite_db" where
  "sqlite_resolve_or_create_session U fresh k now db =
     (case sql_find_session k db of
        Some row \<Rightarrow>
          (case uuid_parse_str U (sr_session_id row) of
             None \<Rightarrow> (Inl (StoreOther (bail (str ''invalid stored session_id `'' @ sr_session_id row @ str ''`''))), db)
           | Some i \<Rightarrow>
               (Inr \<lparr>ss_id = i, ss_key = k, ss_created_at = sr_created_at row, ss_updated_at = now\<rparr>,
                sql_touch_session now (sr_session_id row) db))
      | None \<Rightarrow>
          (case sql_insert_session
                  \<lparr>sr_session_id = uuid_to_string U fresh, sr_channel = sk_channel k,
                   sr_user_id = sk_user_id k, sr_created_at = now, sr_updated_at = now\<rparr> db of
             None \<Rightarrow> (Inl (store_bail ''failed to insert sqlite session metadata''), db)
           | Some db' \<Rightarrow>
               (Inr \<lparr>ss_id = fresh, ss_key = k, ss_created_at = now, ss_updated_at = now\<rparr>, db')))"

definition sqlite_load_thread_context ::
    "uuid_lib \<Rightarrow> thread_locator \<Rightarrow> sqlite_db \<Rightarrow> session_store_error + thread option" where
  "sqlite_load_thread_context U l db =
     (case find (\<lambda>r. tr_session_id r = uuid_to_string U (tl_session_id l)
                     \<and> tr_thread_id r = uuid_to_string U (tl_thread_id l)) (db_thread_metadata db) of
        None \<Rightarrow> Inr None
      | Some row \<Rightarrow>
          if tr_revision row < 0 then Inl (store_bail ''sqlite revision must not be negative'')
          else Inr (Some (set_revision (of_int (tr_revision row))
                            (rebind_locator (locator_from U l) (tr_snapshot_json row)))))"

text \<open>The upsert of a dedup record; the FOREIGN KEY asks for the thread's row.\<close>

definition dedup_row_of :: "uuid_lib \<Rightarrow> rstring \<Rightarrow> external_message_dedup_record \<Rightarrow> dedup_row" where
  "dedup_row_of U thread_id r =
     \<lparr>xr_thread_id = thread_id, xr_external_message_id = dr_external_message_id r,
      xr_turn_id = map_option (uuid_to_string U) (dr_turn_id r), xr_completed_at = dr_completed_at r\<rparr>"

definition sqlite_write_snapshot ::
    "uuid_lib \<Rightarrow> thread \<Rightarrow> rstring \<Rightarrow> int \<Rightarrow> time \<Rightarrow> sqlite_db \<Rightarrow> session_store_error + sqlite_db" where
  "sqlite_write_snapshot U t session_id actual_revision updated_at db =
     (let new_revision = wrap_i64 (actual_revision + 1) in
      if actual_revision = 0
      then (case sql_insert_thread
                   \<lparr>tr_thread_id = tcl_thread_id (th_locator t), tr_session_id = session_id,
                    tr_external_thread_id = tcl_external_thread_id (th_locator t),
                    tr_revision = new_revision, tr_snapshot_json = thread_serde_roundtrip t,
                    tr_created_at = tx_created_at (th_thread t), tr_updated_at = updated_at\<rparr> db of
              None \<Rightarrow> Inl (store_bail ''failed to insert sqlite thread snapshot'')
            | Some db' \<Rightarrow> Inr db')
      else (case sql_update_thread session_id (tcl_external_thread_id (th_locator t)) new_revision
                   (thread_serde_roundtrip t) updated_at (tcl_thread_id (th_locator t)) db of
              None \<Rightarrow> Inl (store_bail ''failed to update sqlite thread snapshot'')
            | Some db' \<Rightarrow> Inr db'))"

definition sqlite_save_thread_context ::
    "uuid_lib \<Rightarrow> thread \<Rightarrow> time \<Rightarrow> external_message_dedup_record option \<Rightarrow> sqlite_db
     \<Rightarrow> (session_store_error + u64) \<times> sqlite_db" where
  "sqlite_save_thread_context U t updated_at dedup_record db =
     (case tcl_session_id (th_locator t) of
        None \<Rightarrow> (Inl (store_bail ''thread context session_id is required before sqlite save''), db)
      | Some session_id \<Rightarrow>
          let actual_revision = (case sql_find_thread (tcl_thread_id (th_locator t)) db of
                                   Some row \<Rightarrow> tr_revision row | None \<Rightarrow> 0) in
          if 2 ^ 63 \<le> uint (th_revision t)
          then (Inl (store_bail ''thread revision exceeded sqlite integer range''), db)
          else if actual_revision \<noteq> uint (th_revision t)
          then (Inl (RevisionConflict
                       \<lparr>rc_thread_id = tcl_thread_id (th_locator t), rc_expected_revision = th_revision t,
                        rc_actual_revision = (if actual_revision < 0 then 0 else of_int actual_revision)\<rparr>), db)
          else
            (case sqlite_write_snapshot U t session_id actual_revision updated_at
                    (sql_touch_session updated_at session_id db) of
               Inl e \<Rightarrow> (Inl e, db)
             | Inr db1 \<Rightarrow>
                 (case (case dedup_record of
                          None \<Rightarrow> Some db1
                        | Some r \<Rightarrow> sql_upsert_dedup (dedup_row_of U (uuid_to_string U (dr_thread_id r)) r) db1) of
                    None \<Rightarrow> (Inl (store_bail ''failed to upsert sqlite external_message_dedup from thread save''), db)
                  | Some db2 \<Rightarrow>
                      if wrap_i64 (actual_revision + 1) < 0
                      then (Inl (store_bail ''sqlite revision must not be negative''), db2)
                      else (Inr (of_int (wrap_i64 (actual_revision + 1))), db2))))"

definition sqlite_load_external_message_record ::
    "uuid_lib \<Rightarrow> thread_locator \<Rightarrow> rstring \<Rightarrow> sqlite_db
     \<Rightarrow> session_store_error + external_message_dedup_record option" where
  "sqlite_load_external_message_record U l x db =
     (case find (\<lambda>r. xr_thread_id r = uuid_to_string U (tl_thread_id l)
                     \<and> xr_external_message_id r = x) (db_external_message_dedup db) of
        None \<Rightarrow> Inr None
      | Some row \<Rightarrow>
          (case xr_turn_id row of
             None \<Rightarrow> Inr (Some \<lparr>dr_thread_id = tl_thread_id l, dr_external_message_id = x,
                              dr_turn_id = None, dr_completed_at = xr_completed_at row\<rparr>)
           | Some v \<Rightarrow>
               (case uuid_parse_str U v of
                  None \<Rightarrow> Inl (StoreOther (bail (str ''invalid stored dedup turn_id `'' @ v @ str ''`'')))
                | Some i \<Rightarrow> Inr (Some \<lparr>dr_thread_id = tl_thread_id l, dr_external_message_id = x,
                                       dr_turn_id = Some i, dr_completed_at = xr_completed_at row\<rparr>))))"

definition sqlite_save_external_message_record ::
    "uuid_lib \<Rightarrow> thread_locator \<Rightarrow> external_message_dedup_record \<Rightarrow> sqlite_db
     \<Rightarrow> (session_store_error + unit) \<times> sqlite_db" where
  "sqlite_save_external_message_record U l r db =
     (case sql_upsert_dedup (dedup_row_of U (uuid_to_string U (tl_thread_id l)) r) db of
        None \<Rightarrow> (Inl (store_bail ''failed to upsert sqlite external_message_dedup record''), db)
      | Some db' \<Rightarrow> (Inr (), db'))"

definition sqlite_session_store :: "uuid_lib \<Rightarrow> sqlite_db session_store" where
  "sqlite_session_store U =
     \<lparr>so_load_session = sqlite_load_session U,
      so_resolve_or_create_session = sqlite_resolve_or_create_session U,
      so_load_thread_context = sqlite_load_thread_context U,
      so_save_thread_context = sqlite_save_thread_context U,
      so_load_external_message_record = sqlite_load_external_message_record U,
      so_save_external_message_record = sqlite_save_external_message_record U\<rparr>"

section \<open>Abstraction and invariant\<close>

text \<open>The abstract stores the tables represent: maps keyed as the callers key them.\<close>

definition sqlite_session_of :: "uuid_lib \<Rightarrow> sqlite_db \<Rightarrow> session_key \<rightharpoonup> stored_session_record" where
  "sqlite_session_of U db k =
     (case sql_find_session k db of
        None \<Rightarrow> None
      | Some row \<Rightarrow>
          map_option (\<lambda>i. \<lparr>ss_id = i, ss_key = k, ss_created_at = sr_created_at row,
                            ss_updated_at = sr_updated_at row\<rparr>)
            (uuid_parse_str U (sr_session_id row)))"

definition sqlite_thread_of :: "uuid_lib \<Rightarrow> sqlite_db \<Rightarrow> uuid \<rightharpoonup> thread" where
  "sqlite_thread_of U db i =
     map_option (\<lambda>row. set_revision (of_int (tr_revision row)) (tr_snapshot_json row))
       (sql_find_thread (uuid_to_string U i) db)"

definition sql_find_dedup :: "rstring \<Rightarrow> rstring \<Rightarrow> sqlite_db \<Rightarrow> dedup_row option" where
  "sql_find_dedup i x db =
     find (\<lambda>r. xr_thread_id r = i \<and> xr_external_message_id r = x) (db_external_message_dedup db)"

definition sqlite_dedup_of ::
    "uuid_lib \<Rightarrow> sqlite_db \<Rightarrow> (uuid \<times> rstring) \<rightharpoonup> external_message_dedup_record" where
  "sqlite_dedup_of U db = (\<lambda>(i, x).
     map_option (\<lambda>row. \<lparr>dr_thread_id = i, dr_external_message_id = x,
        dr_turn_id = (case xr_turn_id row of None \<Rightarrow> None | Some v \<Rightarrow> uuid_parse_str U v),
        dr_completed_at = xr_completed_at row\<rparr>)
       (sql_find_dedup (uuid_to_string U i) x db))"

definition sqlite_view :: "thread \<Rightarrow> thread" where
  "sqlite_view t = t\<lparr>th_pending_tool_events := [], th_current_turn := None\<rparr>"

definition uuid_text :: "uuid_lib \<Rightarrow> rstring \<Rightarrow> bool" where
  "uuid_text U s \<longleftrightarrow> (\<exists>u. s = uuid_to_string U u)"

definition thread_row_ok :: "uuid_lib \<Rightarrow> rstring set \<Rightarrow> sqlite_db \<Rightarrow> thread_row \<Rightarrow> bool" where
  "thread_row_ok U K db row \<longleftrightarrow>
     0 < tr_revision row \<and> tr_revision row < 2 ^ 63
     \<and> (\<exists>l. wf_locator U K l \<and> tr_thread_id row = uuid_to_string U (tl_thread_id l)
            \<and> tr_session_id row = uuid_to_string U (tl_session_id l)
            \<and> tr_external_thread_id row = tl_external_thread_id l
            \<and> map_option sr_session_id (sql_find_session (tl_session_key l) db) = Some (tr_session_id row))"

definition sqlite_inv :: "uuid_lib \<Rightarrow> rstring set \<Rightarrow> sqlite_db \<Rightarrow> bool" where
  "sqlite_inv U K db \<longleftrightarrow>
     uuid_lib_ok U \<and> thread_ids_separate U K
     \<and> distinct (map sr_session_id (db_session_metadata db))
     \<and> (\<forall>r \<in> set (db_session_metadata db). uuid_text U (sr_session_id r))
     \<and> (\<forall>r \<in> set (db_session_metadata db). sql_find_session \<lparr>sk_channel = sr_channel r, sk_user_id = sr_user_id r\<rparr> db = Some r)
     \<and> (\<forall>r \<in> set (db_thread_metadata db). thread_row_ok U K db r)
     \<and> (\<forall>r \<in> set (db_external_message_dedup db). \<forall>v. xr_turn_id r = Some v \<longrightarrow> uuid_text U v)"

definition sqlite_empty :: sqlite_db where
  "sqlite_empty = \<lparr>db_user_version = 0, db_session_metadata = [], db_thread_metadata = [],
                   db_external_message_dedup = []\<rparr>"

lemma sqlite_inv_empty:
  "uuid_lib_ok U \<Longrightarrow> thread_ids_separate U K \<Longrightarrow> sqlite_inv U K sqlite_empty"
  by (simp add: sqlite_inv_def sqlite_empty_def)

lemma sqlite_inv_initialize_schema:
  "sqlite_inv U K db \<Longrightarrow> sqlite_inv U K (snd (sql_initialize_schema sqlite_path db))"
  by (simp add: sql_initialize_schema_def sqlite_inv_def thread_row_ok_def sql_find_session_def)

subsection \<open>Rows and queries\<close>

lemma find_snoc:
  "find P (xs @ [y]) = (case find P xs of Some x \<Rightarrow> Some x | None \<Rightarrow> if P y then Some y else None)"
  by (induction xs) auto

lemma find_map_stable: "(\<And>r. P (f r) = P r) \<Longrightarrow> find P (map f xs) = map_option f (find P xs)"
  by (induction xs) auto

lemma find_SomeD: "find P xs = Some x \<Longrightarrow> x \<in> set xs \<and> P x"
  by (induction xs) (auto split: if_splits)

lemma uuid_to_string_inject:
  "uuid_lib_ok U \<Longrightarrow> uuid_to_string U a = uuid_to_string U b \<longleftrightarrow> a = b"
  by (metis uuid_parse_to_string option.inject)

lemma uuid_text_parse: "uuid_lib_ok U \<Longrightarrow> uuid_text U s \<Longrightarrow> \<exists>u. uuid_parse_str U s = Some u \<and> s = uuid_to_string U u"
  by (auto simp: uuid_text_def)

lemma sql_find_session_touch [simp]:
  "sql_find_session k (sql_touch_session now i db)
     = map_option (\<lambda>r. if sr_session_id r = i then r\<lparr>sr_updated_at := now\<rparr> else r) (sql_find_session k db)"
  by (simp add: sql_find_session_def sql_touch_session_def find_map_stable)

lemma sql_touch_session_sel [simp]:
  "db_thread_metadata (sql_touch_session now i db) = db_thread_metadata db"
  "db_external_message_dedup (sql_touch_session now i db) = db_external_message_dedup db"
  "map sr_session_id (db_session_metadata (sql_touch_session now i db)) = map sr_session_id (db_session_metadata db)"
  by (auto simp: sql_touch_session_def)

lemma sql_find_session_row:
  assumes "sql_find_session k db = Some row"
  shows "row \<in> set (db_session_metadata db)" "sr_channel row = sk_channel k" "sr_user_id row = sk_user_id k"
  using find_SomeD [OF assms [unfolded sql_find_session_def]] by auto

lemma thread_row_ok_cong:
  assumes "\<And>k. map_option sr_session_id (sql_find_session k db') = map_option sr_session_id (sql_find_session k db)"
  shows "thread_row_ok U K db' row = thread_row_ok U K db row"
  by (simp add: thread_row_ok_def assms)

lemma map_sr_session_id_touch [simp]:
  "map_option sr_session_id (sql_find_session k (sql_touch_session now i db))
     = map_option sr_session_id (sql_find_session k db)"
  by (cases "sql_find_session k db") auto

lemma sqlite_inv_touch:
  assumes "sqlite_inv U K db"
  shows "sqlite_inv U K (sql_touch_session now i db)"
proof -
  have rows: "thread_row_ok U K (sql_touch_session now i db) r = thread_row_ok U K db r" for r
    by (rule thread_row_ok_cong) (rule map_sr_session_id_touch)
  have "sql_find_session \<lparr>sk_channel = sr_channel r, sk_user_id = sr_user_id r\<rparr> (sql_touch_session now i db) = Some r"
    if "r \<in> set (db_session_metadata (sql_touch_session now i db))" for r
    using that assms by (auto simp: sqlite_inv_def sql_touch_session_def sql_find_session_def find_map_stable)
  moreover have "distinct (map sr_session_id (db_session_metadata (sql_touch_session now i db)))"
    using assms by (simp only: sql_touch_session_sel sqlite_inv_def)
  moreover have "\<forall>r \<in> set (db_session_metadata (sql_touch_session now i db)). uuid_text U (sr_session_id r)"
    using assms by (auto simp: sqlite_inv_def sql_touch_session_def)
  ultimately show ?thesis
    using assms by (simp add: sqlite_inv_def rows)
qed

lemma sqlite_session_row:
  assumes "sqlite_inv U K db" "sqlite_session_of U db k = Some r"
  obtains row where "sql_find_session k db = Some row" "sr_session_id row = uuid_to_string U (ss_id r)"
    "ss_key r = k"
proof -
  obtain row i where row: "sql_find_session k db = Some row" "uuid_parse_str U (sr_session_id row) = Some i"
    and r: "ss_id r = i" "ss_key r = k"
    using assms(2) by (auto simp: sqlite_session_of_def split: option.splits)
  have "uuid_text U (sr_session_id row)"
    using assms(1) sql_find_session_row(1) [OF row(1)] by (simp add: sqlite_inv_def)
  then have "sr_session_id row = uuid_to_string U i"
    using assms(1) row(2) by (auto simp: sqlite_inv_def uuid_text_def)
  with row(1) r show ?thesis using that by simp
qed

text \<open>The row of a thread belongs to the session its locator names.\<close>

lemma thread_row_session:
  assumes inv: "sqlite_inv U K db" and l: "wf_locator U K l"
    and r: "sqlite_session_of U db (tl_session_key l) = Some r" "ss_id r = tl_session_id l"
    and row: "row \<in> set (db_thread_metadata db)" "tr_thread_id row = uuid_to_string U (tl_thread_id l)"
  shows "tr_session_id row = uuid_to_string U (tl_session_id l)"
    and "tr_external_thread_id row = tl_external_thread_id l"
proof -
  have U: "uuid_lib_ok U" "thread_ids_separate U K" using inv by (simp_all add: sqlite_inv_def)
  obtain l' where l': "wf_locator U K l'" "tr_thread_id row = uuid_to_string U (tl_thread_id l')"
    "tr_external_thread_id row = tl_external_thread_id l'"
    "map_option sr_session_id (sql_find_session (tl_session_key l') db) = Some (tr_session_id row)"
    using inv row(1) by (auto simp: sqlite_inv_def thread_row_ok_def)
  have "tl_thread_id l = tl_thread_id l'"
    using l'(2) row(2) uuid_to_string_inject [OF U(1)] by simp
  from wf_locator_thread_id_inject [OF U(2) l l'(1) this]
  have same: "tl_session_key l = tl_session_key l'" "tl_external_thread_id l = tl_external_thread_id l'" .
  obtain srow where "sql_find_session (tl_session_key l) db = Some srow"
    "sr_session_id srow = uuid_to_string U (ss_id r)"
    using sqlite_session_row [OF inv r(1)] by metis
  with l'(4) same r(2) show "tr_session_id row = uuid_to_string U (tl_session_id l)" by simp
  show "tr_external_thread_id row = tl_external_thread_id l" using l'(3) same by simp
qed

subsection \<open>Each operation against the abstract store\<close>

lemma sqlite_inv_U: "sqlite_inv U K db \<Longrightarrow> uuid_lib_ok U"
  by (simp add: sqlite_inv_def)

lemma sqlite_row_uuid:
  assumes "sqlite_inv U K db" "row \<in> set (db_session_metadata db)"
  obtains u where "uuid_parse_str U (sr_session_id row) = Some u" "sr_session_id row = uuid_to_string U u"
proof -
  have "uuid_text U (sr_session_id row)" using assms by (simp add: sqlite_inv_def)
  then show ?thesis using that uuid_text_parse [OF sqlite_inv_U [OF assms(1)]] by blast
qed

lemma sqlite_load_session_eq:
  assumes "sqlite_inv U K db"
  shows "sqlite_load_session U k db = Inr (sqlite_session_of U db k)"
proof (cases "sql_find_session k db")
  case (Some row)
  obtain u where "uuid_parse_str U (sr_session_id row) = Some u"
    using sqlite_row_uuid [OF assms sql_find_session_row(1) [OF Some]] .
  with Some show ?thesis by (simp add: sqlite_load_session_def sqlite_session_of_def)
qed (simp add: sqlite_load_session_def sqlite_session_of_def)

lemma sqlite_session_of_touch:
  "sqlite_session_of U (sql_touch_session now i db) k =
     (case sql_find_session k db of
        Some row \<Rightarrow> if sr_session_id row = i
                     then map_option (\<lambda>r. r\<lparr>ss_updated_at := now\<rparr>) (sqlite_session_of U db k)
                     else sqlite_session_of U db k
      | None \<Rightarrow> None)"
  by (auto simp: sqlite_session_of_def option.map_comp o_def split: option.splits)

lemma sqlite_thread_of_touch [simp]: "sqlite_thread_of U (sql_touch_session now i db) = sqlite_thread_of U db"
  by (simp add: sqlite_thread_of_def sql_find_thread_def fun_eq_iff)

lemma sqlite_dedup_of_touch [simp]: "sqlite_dedup_of U (sql_touch_session now i db) = sqlite_dedup_of U db"
  by (simp add: sqlite_dedup_of_def sql_find_dedup_def fun_eq_iff)

lemma distinct_session_rows:
  assumes "sqlite_inv U K db" "r \<in> set (db_session_metadata db)" "r' \<in> set (db_session_metadata db)"
    and "sr_session_id r = sr_session_id r'"
  shows "r = r'"
  using assms by (auto simp: sqlite_inv_def distinct_map inj_on_def)

lemma session_key_eqI: "sk_channel (k::session_key) = sk_channel k' \<Longrightarrow> sk_user_id k = sk_user_id k' \<Longrightarrow> k = k'"
  by simp

lemma sqlite_resolve_existing:
  assumes inv: "sqlite_inv U K db" and row: "sql_find_session k db = Some row"
  shows "\<exists>r db'. sqlite_resolve_or_create_session U u k now db = (Inr r, db') \<and> sqlite_inv U K db'
     \<and> sqlite_session_of U db' = (sqlite_session_of U db)(k \<mapsto> r)
     \<and> Some (ss_id r) = map_option ss_id (sqlite_session_of U db k)
     \<and> sqlite_thread_of U db' = sqlite_thread_of U db \<and> sqlite_dedup_of U db' = sqlite_dedup_of U db"
proof -
  obtain i where i: "uuid_parse_str U (sr_session_id row) = Some i"
    using sqlite_row_uuid [OF inv sql_find_session_row(1) [OF row]] .
  let ?r = "\<lparr>ss_id = i, ss_key = k, ss_created_at = sr_created_at row, ss_updated_at = now\<rparr>"
  let ?db = "sql_touch_session now (sr_session_id row) db"
  have "sqlite_session_of U ?db k' = ((sqlite_session_of U db)(k \<mapsto> ?r)) k'" for k'
  proof (cases "k' = k")
    case True
    then show ?thesis using row i by (simp add: sqlite_session_of_touch) (simp add: sqlite_session_of_def)
  next
    case False
    have "sr_session_id row' \<noteq> sr_session_id row" if row': "sql_find_session k' db = Some row'" for row'
    proof
      assume "sr_session_id row' = sr_session_id row"
      then have "row' = row"
        using distinct_session_rows [OF inv sql_find_session_row(1) [OF row'] sql_find_session_row(1) [OF row]]
        by simp
      then have "k' = k"
        using sql_find_session_row(2,3) [OF row'] sql_find_session_row(2,3) [OF row]
        by (intro session_key_eqI) simp_all
      with False show False by simp
    qed
    then show ?thesis using False
      by (auto simp: sqlite_session_of_touch sqlite_session_of_def split: option.splits)
  qed
  then have "sqlite_session_of U ?db = (sqlite_session_of U db)(k \<mapsto> ?r)" by blast
  moreover have "sqlite_resolve_or_create_session U u k now db = (Inr ?r, ?db)"
    using row i by (simp add: sqlite_resolve_or_create_session_def)
  moreover have "Some (ss_id ?r) = map_option ss_id (sqlite_session_of U db k)"
    using row i by (simp add: sqlite_session_of_def)
  ultimately show ?thesis using sqlite_inv_touch [OF inv] by auto
qed

lemma sqlite_inv_insert_session:
  fixes now :: time
  assumes inv: "sqlite_inv U K db" and none: "sql_find_session k db = None"
    and fresh: "\<forall>r \<in> set (db_session_metadata db). sr_session_id r \<noteq> uuid_to_string U u"
  defines "row \<equiv> \<lparr>sr_session_id = uuid_to_string U u, sr_channel = sk_channel k,
                  sr_user_id = sk_user_id k, sr_created_at = now, sr_updated_at = now\<rparr>"
  shows "sql_insert_session row db = Some (db\<lparr>db_session_metadata := db_session_metadata db @ [row]\<rparr>)"
    and "sqlite_inv U K (db\<lparr>db_session_metadata := db_session_metadata db @ [row]\<rparr>)"
    and "sql_find_session k' (db\<lparr>db_session_metadata := db_session_metadata db @ [row]\<rparr>)
           = (if k' = k then Some row else sql_find_session k' db)"
proof -
  let ?db = "db\<lparr>db_session_metadata := db_session_metadata db @ [row]\<rparr>"
  have nokey: "\<not> (sr_channel r = sk_channel k \<and> sr_user_id r = sk_user_id k)"
    if "r \<in> set (db_session_metadata db)" for r
    using none that unfolding sql_find_session_def by (auto simp: find_None_iff)
  then show "sql_insert_session row db = Some ?db"
    using fresh by (auto simp: sql_insert_session_def row_def list_ex_iff)
  show found: "sql_find_session k' ?db = (if k' = k then Some row else sql_find_session k' db)" for k'
  proof (cases "k' = k")
    case True
    with none show ?thesis by (simp add: sql_find_session_def find_snoc row_def)
  next
    case False
    then have "\<not> (sk_channel k = sk_channel k' \<and> sk_user_id k = sk_user_id k')"
      by (auto intro: session_key_eqI)
    with False show ?thesis
      by (auto simp: sql_find_session_def find_snoc row_def split: option.splits)
  qed
  have "thread_row_ok U K ?db r" if "thread_row_ok U K db r" for r
    using that none unfolding thread_row_ok_def found by (metis option.distinct(1) option.map_disc_iff)
  moreover have "sql_find_session \<lparr>sk_channel = sr_channel r, sk_user_id = sr_user_id r\<rparr> ?db = Some r"
    if "r \<in> set (db_session_metadata ?db)" for r
    using that inv nokey [of r] unfolding found by (auto simp: sqlite_inv_def row_def)
  ultimately show "sqlite_inv U K ?db"
    using inv fresh by (auto simp: sqlite_inv_def row_def uuid_text_def)
qed

lemma sqlite_resolve_new:
  assumes inv: "sqlite_inv U K db" and none: "sql_find_session k db = None"
    and fresh: "\<forall>k' r'. sqlite_session_of U db k' = Some r' \<longrightarrow> ss_id r' \<noteq> u"
  shows "\<exists>r db'. sqlite_resolve_or_create_session U u k now db = (Inr r, db') \<and> sqlite_inv U K db'
     \<and> sqlite_session_of U db' = (sqlite_session_of U db)(k \<mapsto> r) \<and> ss_id r = u
     \<and> sqlite_thread_of U db' = sqlite_thread_of U db \<and> sqlite_dedup_of U db' = sqlite_dedup_of U db"
proof -
  have "sr_session_id row \<noteq> uuid_to_string U u" if "row \<in> set (db_session_metadata db)" for row
  proof
    assume eq: "sr_session_id row = uuid_to_string U u"
    have "sql_find_session \<lparr>sk_channel = sr_channel row, sk_user_id = sr_user_id row\<rparr> db = Some row"
      using inv that by (simp add: sqlite_inv_def)
    then have "sqlite_session_of U db \<lparr>sk_channel = sr_channel row, sk_user_id = sr_user_id row\<rparr>
      = Some \<lparr>ss_id = u, ss_key = \<lparr>sk_channel = sr_channel row, sk_user_id = sr_user_id row\<rparr>,
              ss_created_at = sr_created_at row, ss_updated_at = sr_updated_at row\<rparr>"
      using eq sqlite_inv_U [OF inv] by (simp add: sqlite_session_of_def)
    then show False using fresh by fastforce
  qed
  note ins = sqlite_inv_insert_session [where u = u and now = now, OF inv none ballI, OF this]
  let ?row = "\<lparr>sr_session_id = uuid_to_string U u, sr_channel = sk_channel k,
                  sr_user_id = sk_user_id k, sr_created_at = now, sr_updated_at = now\<rparr>"
  let ?db = "db\<lparr>db_session_metadata := db_session_metadata db @ [?row]\<rparr>"
  let ?r = "\<lparr>ss_id = u, ss_key = k, ss_created_at = now, ss_updated_at = now\<rparr>"
  have "sqlite_session_of U ?db = (sqlite_session_of U db)(k \<mapsto> ?r)"
    using inv by (auto simp: sqlite_session_of_def ins(3) sqlite_inv_def fun_eq_iff)
  moreover have "sqlite_resolve_or_create_session U u k now db = (Inr ?r, ?db)"
    by (simp add: sqlite_resolve_or_create_session_def none ins(1))
  moreover have "sqlite_thread_of U ?db = sqlite_thread_of U db" "sqlite_dedup_of U ?db = sqlite_dedup_of U db"
    by (simp_all add: sqlite_thread_of_def sql_find_thread_def sqlite_dedup_of_def sql_find_dedup_def fun_eq_iff)
  ultimately show ?thesis using ins(2) by auto
qed

lemma sqlite_load_thread_eq:
  assumes inv: "sqlite_inv U K db" and l: "wf_locator U K l"
    and r: "sqlite_session_of U db (tl_session_key l) = Some r" "ss_id r = tl_session_id l"
  shows "sqlite_load_thread_context U l db
           = Inr (map_option (rebind_locator (locator_from U l)) (sqlite_thread_of U db (tl_thread_id l)))"
proof -
  have "find (\<lambda>x. tr_session_id x = uuid_to_string U (tl_session_id l)
                   \<and> tr_thread_id x = uuid_to_string U (tl_thread_id l)) (db_thread_metadata db)
      = sql_find_thread (uuid_to_string U (tl_thread_id l)) db"
    unfolding sql_find_thread_def
    by (rule find_cong) (use thread_row_session(1) [OF inv l r] in auto)
  moreover have "0 < tr_revision row" if "sql_find_thread (uuid_to_string U (tl_thread_id l)) db = Some row" for row
    using inv find_SomeD [OF that [unfolded sql_find_thread_def]]
    by (simp add: sqlite_inv_def thread_row_ok_def)
  ultimately show ?thesis
    by (cases "sql_find_thread (uuid_to_string U (tl_thread_id l)) db")
      (fastforce simp: sqlite_load_thread_context_def sqlite_thread_of_def rebind_locator_def set_revision_def)+
qed

lemma wrap_i64_in_range: "0 \<le> x \<Longrightarrow> x < 2 ^ 63 \<Longrightarrow> wrap_i64 x = x"
  by (simp add: wrap_i64_def)

lemma sqlite_stored_revision:
  assumes inv: "sqlite_inv U K db"
  shows "uint (stored_revision (sqlite_thread_of U db) i)
           = (case sql_find_thread (uuid_to_string U i) db of Some row \<Rightarrow> tr_revision row | None \<Rightarrow> 0)"
proof (cases "sql_find_thread (uuid_to_string U i) db")
  case (Some row)
  then have "0 < tr_revision row" "tr_revision row < 2 ^ 63"
    using inv find_SomeD [OF Some [unfolded sql_find_thread_def]]
    by (simp_all add: sqlite_inv_def thread_row_ok_def)
  then show ?thesis
    using Some by (simp add: stored_revision_def sqlite_thread_of_def set_revision_def uint_word_of_int)
qed (simp add: stored_revision_def sqlite_thread_of_def)

text \<open>A session row and an external thread id determine the thread: the UNIQUE constraint holds.\<close>

lemma thread_slot_unique:
  assumes inv: "sqlite_inv U K db" and l: "wf_locator U K l"
    and r: "sqlite_session_of U db (tl_session_key l) = Some r" "ss_id r = tl_session_id l"
    and x: "x \<in> set (db_thread_metadata db)" "tr_session_id x = uuid_to_string U (tl_session_id l)"
      "tr_external_thread_id x = tl_external_thread_id l"
  shows "tr_thread_id x = uuid_to_string U (tl_thread_id l)"
proof -
  obtain srow where srow: "sql_find_session (tl_session_key l) db = Some srow"
    "sr_session_id srow = uuid_to_string U (tl_session_id l)"
    using sqlite_session_row [OF inv r(1)] r(2) by metis
  obtain l' where l': "wf_locator U K l'" "tr_thread_id x = uuid_to_string U (tl_thread_id l')"
    "tr_external_thread_id x = tl_external_thread_id l'"
    "map_option sr_session_id (sql_find_session (tl_session_key l') db) = Some (uuid_to_string U (tl_session_id l))"
    using inv x by (auto simp: sqlite_inv_def thread_row_ok_def)
  then obtain srow' where srow': "sql_find_session (tl_session_key l') db = Some srow'"
    "sr_session_id srow' = uuid_to_string U (tl_session_id l)"
    by auto
  have "srow' = srow"
    using distinct_session_rows [OF inv sql_find_session_row(1) [OF srow'(1)] sql_find_session_row(1) [OF srow(1)]]
      srow'(2) srow(2) by simp
  then have "tl_session_key l' = tl_session_key l"
    using sql_find_session_row(2,3) [OF srow'(1)] sql_find_session_row(2,3) [OF srow(1)]
    by (intro session_key_eqI) simp_all
  then have "tl_thread_id l' = tl_thread_id l" using l' l x(3) by (simp add: wf_locator_def)
  then show ?thesis using l'(2) by simp
qed

text \<open>Writing the snapshot row, insert or update, always satisfies the constraints.\<close>

lemma sqlite_write_snapshot_ok:
  assumes inv: "sqlite_inv U K db" and l: "wf_locator U K l"
    and r: "sqlite_session_of U db (tl_session_key l) = Some r" "ss_id r = tl_session_id l"
    and loc: "th_locator t = locator_from U l"
    and act: "actual = (case sql_find_thread (uuid_to_string U (tl_thread_id l)) db of
                          Some row \<Rightarrow> tr_revision row | None \<Rightarrow> 0)"
    and rng: "actual < 2 ^ 63 - 1"
  obtains rows where
    "sqlite_write_snapshot U t (uuid_to_string U (tl_session_id l)) actual now db
       = Inr (db\<lparr>db_thread_metadata := rows\<rparr>)"
    "sqlite_inv U K (db\<lparr>db_thread_metadata := rows\<rparr>)"
    "\<And>i. find (\<lambda>x. tr_thread_id x = i) rows =
       (if i = uuid_to_string U (tl_thread_id l)
        then find (\<lambda>x. tr_thread_id x = i \<and> tr_revision x = actual + 1 \<and> tr_snapshot_json x = thread_serde_roundtrip t) rows
        else sql_find_thread i db)"
    "find (\<lambda>x. tr_thread_id x = uuid_to_string U (tl_thread_id l)) rows \<noteq> None"
proof -
  let ?sid = "uuid_to_string U (tl_session_id l)" and ?tid = "uuid_to_string U (tl_thread_id l)"
  let ?ext = "tl_external_thread_id l" and ?j = "thread_serde_roundtrip t"
  have U: "uuid_lib_ok U" "thread_ids_separate U K" using inv by (simp_all add: sqlite_inv_def)
  obtain srow where srow: "sql_find_session (tl_session_key l) db = Some srow" "sr_session_id srow = ?sid"
    using sqlite_session_row [OF inv r(1)] r(2) by metis
  have exists: "sql_session_exists ?sid db"
    using sql_find_session_row(1) [OF srow(1)] srow(2) by (auto simp: sql_session_exists_def list_ex_iff)
  have pos: "0 \<le> actual"
    using inv act find_SomeD [of _ "db_thread_metadata db"]
    by (auto simp: sqlite_inv_def thread_row_ok_def sql_find_thread_def split: option.splits dest!: find_SomeD)
  have row_ok: "thread_row_ok U K db x"
    if "tr_thread_id x = ?tid" "tr_session_id x = ?sid" "tr_external_thread_id x = ?ext" "tr_revision x = actual + 1" for x
    using that l srow pos rng by (auto simp: thread_row_ok_def)
  note other = thread_slot_unique [OF inv l r]
  have inv_rows: "sqlite_inv U K (db\<lparr>db_thread_metadata := rows\<rparr>)"
    if "\<forall>x \<in> set rows. thread_row_ok U K db x" for rows
    using inv that
    by (simp add: sqlite_inv_def sql_find_session_def thread_row_ok_def)
  show ?thesis
  proof (cases "actual = 0")
    case True
    then have none: "sql_find_thread ?tid db = None"
      using act inv find_SomeD [of _ "db_thread_metadata db"]
      by (fastforce simp: sqlite_inv_def thread_row_ok_def sql_find_thread_def split: option.splits dest!: find_SomeD)
    define row where "row = \<lparr>tr_thread_id = ?tid, tr_session_id = ?sid, tr_external_thread_id = ?ext,
        tr_revision = wrap_i64 (actual + 1), tr_snapshot_json = ?j,
        tr_created_at = tx_created_at (th_thread t), tr_updated_at = now\<rparr>"
    have absent: "tr_thread_id x \<noteq> ?tid" if "x \<in> set (db_thread_metadata db)" for x
      using none that by (auto simp: sql_find_thread_def find_None_iff)
    have "sql_insert_thread row db = Some (db\<lparr>db_thread_metadata := db_thread_metadata db @ [row]\<rparr>)"
      using absent other exists by (auto simp: sql_insert_thread_def row_def list_ex_iff)
    then have "sqlite_write_snapshot U t ?sid actual now db = Inr (db\<lparr>db_thread_metadata := db_thread_metadata db @ [row]\<rparr>)"
      using True loc by (simp add: sqlite_write_snapshot_def row_def)
    moreover have "\<forall>x \<in> set (db_thread_metadata db @ [row]). thread_row_ok U K db x"
      using inv row_ok [of row] True by (auto simp: sqlite_inv_def row_def wrap_i64_def)
    moreover have "find (\<lambda>x. tr_thread_id x = ?tid) (db_thread_metadata db) = None"
      using none by (simp add: sql_find_thread_def)
    moreover have "find (\<lambda>x. tr_thread_id x = ?tid \<and> tr_revision x = actual + 1 \<and> tr_snapshot_json x = ?j) (db_thread_metadata db) = None"
      using absent by (auto simp: find_None_iff)
    ultimately show ?thesis
      using that [of "db_thread_metadata db @ [row]"] inv_rows True
      by (auto simp: find_snoc row_def sql_find_thread_def wrap_i64_def split: option.splits)
  next
    case False
    then obtain old where old: "sql_find_thread ?tid db = Some old" "tr_revision old = actual"
      using act by (auto split: option.splits)
    let ?f = "\<lambda>x. if tr_thread_id x = ?tid
                   then x\<lparr>tr_session_id := ?sid, tr_external_thread_id := ?ext,
                          tr_revision := actual + 1, tr_snapshot_json := ?j, tr_updated_at := now\<rparr> else x"
    let ?rows = "map ?f (db_thread_metadata db)"
    have wrap: "wrap_i64 (actual + 1) = actual + 1" using pos rng by (simp add: wrap_i64_in_range)
    have "sqlite_write_snapshot U t ?sid actual now db = Inr (db\<lparr>db_thread_metadata := ?rows\<rparr>)"
      using False loc exists other by (auto simp: sqlite_write_snapshot_def sql_update_thread_def wrap list_ex_iff)
    moreover have "\<forall>x \<in> set ?rows. thread_row_ok U K db x"
      using inv row_ok by (auto simp: sqlite_inv_def)
    moreover have "find (\<lambda>x. tr_thread_id x = i) ?rows = map_option ?f (sql_find_thread i db)" for i
      unfolding sql_find_thread_def by (rule find_map_stable) simp
    moreover have "find (\<lambda>x. tr_thread_id x = ?tid \<and> tr_revision x = actual + 1 \<and> tr_snapshot_json x = ?j) ?rows
        = find (\<lambda>x. tr_thread_id x = ?tid) ?rows"
      by (rule find_cong) auto
    moreover have "map_option ?f (sql_find_thread i db) = sql_find_thread i db" if "i \<noteq> ?tid" for i
      using that by (cases "sql_find_thread i db") (auto simp: sql_find_thread_def dest!: find_SomeD)
    ultimately show ?thesis
      using that [of ?rows] inv_rows old by simp
  qed
qed

lemma revision_in_range_uint:
  assumes "revision_in_range r"
  shows "uint r < 2 ^ 63 - 1"
proof -
  have "int (unat r) < int (2 ^ 63 - 1)"
    using assms by (simp only: revision_in_range_def of_nat_less_iff)
  moreover have "int (unat r) = uint r" by simp
  ultimately show ?thesis by simp
qed

lemma find_conj_SomeD: "find (\<lambda>x. P x \<and> Q x) xs = Some y \<Longrightarrow> P y \<and> Q y"
  by (drule find_SomeD) simp

lemma sqlite_save_thread_cases:
  assumes inv: "sqlite_inv U K db" and l: "wf_locator U K l"
    and r: "sqlite_session_of U db (tl_session_key l) = Some r" "ss_id r = tl_session_id l"
    and loc: "th_locator t = locator_from U l"
    and rng: "revision_in_range (th_revision t)"
  shows "th_revision t \<noteq> stored_revision (sqlite_thread_of U db) (tl_thread_id l) \<Longrightarrow>
     sqlite_save_thread_context U t now d db =
       (Inl (RevisionConflict \<lparr>rc_thread_id = uuid_to_string U (tl_thread_id l),
          rc_expected_revision = th_revision t,
          rc_actual_revision = stored_revision (sqlite_thread_of U db) (tl_thread_id l)\<rparr>), db)"
proof -
  let ?row = "sql_find_thread (uuid_to_string U (tl_thread_id l)) db"
  let ?act = "case ?row of Some row \<Rightarrow> tr_revision row | None \<Rightarrow> 0"
  assume ne: "th_revision t \<noteq> stored_revision (sqlite_thread_of U db) (tl_thread_id l)"
  have st: "uint (stored_revision (sqlite_thread_of U db) (tl_thread_id l)) = ?act"
    by (rule sqlite_stored_revision [OF inv])
  have "?act \<noteq> uint (th_revision t)"
    using ne st by (metis word_eq_iff_unsigned)
  moreover have "\<not> 2 ^ 63 \<le> uint (th_revision t)"
    using revision_in_range_uint [OF rng] by simp
  moreover have "0 \<le> ?act" "of_int ?act = stored_revision (sqlite_thread_of U db) (tl_thread_id l)"
    using st by (metis uint_ge_0, metis word_of_int_uint)
  ultimately show ?thesis
    using loc by (simp add: sqlite_save_thread_context_def Let_def)
qed

lemma sql_upsert_dedup_ok:
  assumes inv: "sqlite_inv U K db"
    and thr: "sql_find_thread (uuid_to_string U i) db \<noteq> None"
    and i: "dr_thread_id rec = i"
  obtains rows where
    "sql_upsert_dedup (dedup_row_of U (uuid_to_string U i) rec) db = Some (db\<lparr>db_external_message_dedup := rows\<rparr>)"
    "sqlite_inv U K (db\<lparr>db_external_message_dedup := rows\<rparr>)"
    "sqlite_dedup_of U (db\<lparr>db_external_message_dedup := rows\<rparr>)
       = (sqlite_dedup_of U db)((i, dr_external_message_id rec) \<mapsto> rec)"
proof -
  let ?tid = "uuid_to_string U i" and ?x = "dr_external_message_id rec"
  let ?new = "dedup_row_of U ?tid rec"
  let ?old = "db_external_message_dedup db"
  let ?hit = "\<lambda>r. xr_thread_id r = ?tid \<and> xr_external_message_id r = ?x"
  let ?f = "\<lambda>r. if ?hit r then r\<lparr>xr_turn_id := xr_turn_id ?new, xr_completed_at := xr_completed_at ?new\<rparr> else r"
  let ?rows = "if list_ex ?hit ?old then map ?f ?old else ?old @ [?new]"
  have U: "uuid_lib_ok U" by (rule sqlite_inv_U [OF inv])
  have exists: "list_ex (\<lambda>r. tr_thread_id r = ?tid) (db_thread_metadata db)"
    using thr by (auto simp: sql_find_thread_def find_None_iff list_ex_iff)
  have new: "xr_thread_id ?new = ?tid" "xr_external_message_id ?new = ?x"
    "xr_turn_id ?new = map_option (uuid_to_string U) (dr_turn_id rec)" "xr_completed_at ?new = dr_completed_at rec"
    by (simp_all add: dedup_row_of_def)
  have "sql_upsert_dedup ?new db = Some (db\<lparr>db_external_message_dedup := ?rows\<rparr>)"
    using exists by (simp add: sql_upsert_dedup_def new(1,2))
  moreover have "sqlite_inv U K (db\<lparr>db_external_message_dedup := ?rows\<rparr>)"
    using inv by (auto simp: sqlite_inv_def sql_find_session_def thread_row_ok_def new uuid_text_def)
  moreover have "sqlite_dedup_of U (db\<lparr>db_external_message_dedup := ?rows\<rparr>) (j, y)
       = ((sqlite_dedup_of U db)((i, ?x) \<mapsto> rec)) (j, y)" for j y
  proof -
    let ?D = "sql_find_dedup (uuid_to_string U j) y db"
    have found: "sql_find_dedup (uuid_to_string U j) y (db\<lparr>db_external_message_dedup := ?rows\<rparr>)
      = (if list_ex ?hit ?old then map_option ?f ?D
         else case ?D of Some r \<Rightarrow> Some r
              | None \<Rightarrow> if ?tid = uuid_to_string U j \<and> ?x = y then Some ?new else None)"
      by (auto simp: sql_find_dedup_def find_map_stable find_snoc new(1,2))
    have hit: "list_ex ?hit ?old \<longleftrightarrow> sql_find_dedup ?tid ?x db \<noteq> None"
      by (auto simp: sql_find_dedup_def find_None_iff list_ex_iff)
    show ?thesis
    proof (cases "j = i \<and> y = ?x")
      case True
      then have "sql_find_dedup (uuid_to_string U j) y (db\<lparr>db_external_message_dedup := ?rows\<rparr>)
        = Some (case ?D of Some r \<Rightarrow> ?f r | None \<Rightarrow> ?new)"
        using found hit by (cases ?D) simp_all
      moreover have "?D = Some r \<Longrightarrow> ?hit r" for r
        using True by (auto simp: sql_find_dedup_def dest!: find_SomeD)
      ultimately have "sqlite_dedup_of U (db\<lparr>db_external_message_dedup := ?rows\<rparr>) (j, y) = Some rec"
        using True i U
        by (cases "dr_turn_id rec"; cases ?D) (simp_all add: sqlite_dedup_of_def new)
      then show ?thesis using True by simp
    next
      case False
      then have other: "\<not> (?tid = uuid_to_string U j \<and> ?x = y)"
        using uuid_to_string_inject [OF U] by metis
      have "?D = Some r \<Longrightarrow> \<not> ?hit r" for r
        using other by (auto simp: sql_find_dedup_def dest!: find_SomeD)
      then have "sql_find_dedup (uuid_to_string U j) y (db\<lparr>db_external_message_dedup := ?rows\<rparr>) = ?D"
        unfolding found using other by (cases ?D) auto
      then show ?thesis using False by (auto simp: sqlite_dedup_of_def)
    qed
  qed
  then have "sqlite_dedup_of U (db\<lparr>db_external_message_dedup := ?rows\<rparr>)
       = (sqlite_dedup_of U db)((i, ?x) \<mapsto> rec)"
    by auto
  ultimately show ?thesis using that by blast
qed

lemma sqlite_save_thread_ok:
  assumes inv: "sqlite_inv U K db" and l: "wf_locator U K l"
    and r: "sqlite_session_of U db (tl_session_key l) = Some r" "ss_id r = tl_session_id l"
    and loc: "th_locator t = locator_from U l"
    and rng: "revision_in_range (th_revision t)"
    and d: "\<forall>x. d = Some x \<longrightarrow> dr_thread_id x = tl_thread_id l"
    and cas: "th_revision t = stored_revision (sqlite_thread_of U db) (tl_thread_id l)"
  shows "\<exists>db'. sqlite_save_thread_context U t now d db = (Inr (th_revision t + 1), db') \<and> sqlite_inv U K db'
     \<and> sqlite_thread_of U db' =
         (sqlite_thread_of U db)(tl_thread_id l \<mapsto> set_revision (th_revision t + 1) (sqlite_view t))
     \<and> sqlite_dedup_of U db' = upd_dedup d (sqlite_dedup_of U db)
     \<and> (\<forall>k. map_option ss_id (sqlite_session_of U db' k) = map_option ss_id (sqlite_session_of U db k))"
proof -
  let ?tid = "uuid_to_string U (tl_thread_id l)" and ?sid = "uuid_to_string U (tl_session_id l)"
  let ?act = "case sql_find_thread ?tid db of Some row \<Rightarrow> tr_revision row | None \<Rightarrow> 0"
  let ?db0 = "sql_touch_session now ?sid db"
  have U: "uuid_lib_ok U" by (rule sqlite_inv_U [OF inv])
  have act: "?act = uint (th_revision t)"
    using sqlite_stored_revision [OF inv, of "tl_thread_id l"] cas by simp
  have lt: "uint (th_revision t) < 2 ^ 63 - 1" by (rule revision_in_range_uint [OF rng])
  have ids: "map_option ss_id (sqlite_session_of U ?db0 k) = map_option ss_id (sqlite_session_of U db k)" for k
    by (auto simp: sqlite_session_of_touch sqlite_session_of_def option.map_comp o_def split: option.splits)
  have "map_option ss_id (sqlite_session_of U ?db0 (tl_session_key l)) = Some (tl_session_id l)"
    using ids r by simp
  then obtain r0 where r0: "sqlite_session_of U ?db0 (tl_session_key l) = Some r0" "ss_id r0 = tl_session_id l"
    by auto
  have find0: "sql_find_thread i ?db0 = sql_find_thread i db" for i by (simp add: sql_find_thread_def)
  have act0: "?act = (case sql_find_thread ?tid ?db0 of Some row \<Rightarrow> tr_revision row | None \<Rightarrow> 0)"
    by (simp add: find0)
  obtain rows where rows:
    "sqlite_write_snapshot U t ?sid ?act now ?db0 = Inr (?db0\<lparr>db_thread_metadata := rows\<rparr>)"
    "sqlite_inv U K (?db0\<lparr>db_thread_metadata := rows\<rparr>)"
    and found: "\<And>i. find (\<lambda>x. tr_thread_id x = i) rows =
       (if i = ?tid
        then find (\<lambda>x. tr_thread_id x = i \<and> tr_revision x = ?act + 1 \<and> tr_snapshot_json x = thread_serde_roundtrip t) rows
        else sql_find_thread i ?db0)"
    and some: "find (\<lambda>x. tr_thread_id x = ?tid) rows \<noteq> None"
    using sqlite_write_snapshot_ok [OF sqlite_inv_touch [OF inv] l r0 loc act0, of now] act lt by force
  let ?db1 = "?db0\<lparr>db_thread_metadata := rows\<rparr>"
  obtain x where x: "find (\<lambda>x. tr_thread_id x = ?tid) rows = Some x" using some by auto
  then have xv: "tr_revision x = ?act + 1" "tr_snapshot_json x = thread_serde_roundtrip t"
    using found [of ?tid] by (auto dest: find_conj_SomeD)
  have thr: "sqlite_thread_of U ?db1 =
      (sqlite_thread_of U db)(tl_thread_id l \<mapsto> set_revision (th_revision t + 1) (sqlite_view t))"
  proof
    fix i
    show "sqlite_thread_of U ?db1 i =
      ((sqlite_thread_of U db)(tl_thread_id l \<mapsto> set_revision (th_revision t + 1) (sqlite_view t))) i"
    proof (cases "i = tl_thread_id l")
      case True
      have "sqlite_thread_of U ?db1 i = Some (set_revision (of_int (tr_revision x)) (tr_snapshot_json x))"
        using x True by (simp add: sqlite_thread_of_def sql_find_thread_def)
      also have "\<dots> = Some (set_revision (th_revision t + 1) (sqlite_view t))"
        unfolding xv act by (simp add: set_revision_def sqlite_view_def thread_serde_roundtrip_def)
      finally show ?thesis using True by simp
    next
      case False
      then have "sql_find_thread (uuid_to_string U i) ?db1 = sql_find_thread (uuid_to_string U i) db"
        using found [of "uuid_to_string U i"] uuid_to_string_inject [OF U]
        by (simp add: find0) (simp add: sql_find_thread_def)
      with False show ?thesis by (simp add: sqlite_thread_of_def)
    qed
  qed
  have ids1: "sqlite_session_of U (db'\<lparr>db_thread_metadata := rs\<rparr>) = sqlite_session_of U db'"
    "sqlite_session_of U (db'\<lparr>db_external_message_dedup := ds\<rparr>) = sqlite_session_of U db'"
    "sqlite_dedup_of U (db'\<lparr>db_thread_metadata := rs\<rparr>) = sqlite_dedup_of U db'"
    "sqlite_thread_of U (db'\<lparr>db_external_message_dedup := ds\<rparr>) = sqlite_thread_of U db'" for db' rs ds
    by (simp_all add: sqlite_session_of_def sql_find_session_def sqlite_dedup_of_def sql_find_dedup_def
        sqlite_thread_of_def sql_find_thread_def fun_eq_iff)
  have wrap: "wrap_i64 (uint (th_revision t) + 1) = uint (th_revision t) + 1"
    using lt by (intro wrap_i64_in_range) auto
  have pos: "\<not> uint (th_revision t) + 1 < 0"
    using uint_ge_0 [of "th_revision t"] by linarith
  have result: "word_of_int (uint (th_revision t) + 1) = th_revision t + 1" by simp
  have save: "sqlite_save_thread_context U t now d db =
    (case (case d of None \<Rightarrow> Some ?db1 | Some rc \<Rightarrow> sql_upsert_dedup (dedup_row_of U (uuid_to_string U (dr_thread_id rc)) rc) ?db1) of
       None \<Rightarrow> (Inl (store_bail ''failed to upsert sqlite external_message_dedup from thread save''), db)
     | Some db2 \<Rightarrow> (Inr (th_revision t + 1), db2))"
    using rows(1) lt
    by (simp add: sqlite_save_thread_context_def loc Let_def act wrap del: of_int_add)
      (simp add: wrap result pos del: of_int_add split: option.splits)
  show ?thesis
  proof (cases d)
    case None
    then show ?thesis
      using save rows(2) thr ids by (simp add: ids1 upd_dedup_def)
  next
    case (Some rc)
    have "sql_find_thread (uuid_to_string U (tl_thread_id l)) ?db1 \<noteq> None"
      using x by (simp add: sql_find_thread_def)
    moreover have rc: "dr_thread_id rc = tl_thread_id l" using d Some by simp
    ultimately obtain drows where
      "sql_upsert_dedup (dedup_row_of U ?tid rc) ?db1 = Some (?db1\<lparr>db_external_message_dedup := drows\<rparr>)"
      "sqlite_inv U K (?db1\<lparr>db_external_message_dedup := drows\<rparr>)"
      "sqlite_dedup_of U (?db1\<lparr>db_external_message_dedup := drows\<rparr>)
         = (sqlite_dedup_of U ?db1)((tl_thread_id l, dr_external_message_id rc) \<mapsto> rc)"
      using sql_upsert_dedup_ok [OF rows(2), of "tl_thread_id l" rc] by metis
    then show ?thesis
      using save Some rc thr ids by (simp add: ids1 upd_dedup_def)
  qed
qed

lemma sqlite_load_dedup_eq:
  assumes "sqlite_inv U K db"
  shows "sqlite_load_external_message_record U l x db = Inr (sqlite_dedup_of U db (tl_thread_id l, x))"
proof (cases "sql_find_dedup (uuid_to_string U (tl_thread_id l)) x db")
  case None
  then show ?thesis
    by (simp add: sqlite_load_external_message_record_def sqlite_dedup_of_def sql_find_dedup_def)
next
  case (Some row)
  then have "row \<in> set (db_external_message_dedup db)"
    by (auto simp: sql_find_dedup_def dest: find_SomeD)
  then have "\<exists>i. uuid_parse_str U v = Some i" if "xr_turn_id row = Some v" for v
    using assms that uuid_text_parse [OF sqlite_inv_U [OF assms]] by (fastforce simp: sqlite_inv_def)
  with Some show ?thesis
    by (auto simp: sqlite_load_external_message_record_def sqlite_dedup_of_def sql_find_dedup_def
        split: option.splits)
qed

interpretation sqlite: session_store_laws "sqlite_session_store U" U "wf_locator U K" "sqlite_inv U K"
  "sqlite_session_of U" "sqlite_thread_of U" "sqlite_dedup_of U" sqlite_view
  for U K
proof (unfold_locales, goal_cases)
  case (1 s k) then show ?case by (simp add: sqlite_session_store_def sqlite_load_session_eq)
next
  case (2 s k r) then show ?case by (auto elim: sqlite_session_row)
next
  case (3 s k u now)
  show ?case
  proof (cases "sql_find_session k s")
    case None
    then have "sqlite_session_of U s k = None" by (simp add: sqlite_session_of_def)
    then show ?thesis
      using sqlite_resolve_new [OF 3(1) None, of u now] 3(2) by (auto simp: sqlite_session_store_def)
  next
    case (Some row)
    show ?thesis
      using sqlite_resolve_existing [OF 3(1) Some, of u now]
      by (auto simp: sqlite_session_store_def split: option.splits)
  qed
next
  case (4 s l r)
  then have "so_load_thread_context (sqlite_session_store U) l s
      = Inr (map_option (rebind_locator (locator_from U l)) (sqlite_thread_of U s (tl_thread_id l)))"
    by (simp add: sqlite_session_store_def sqlite_load_thread_eq)
  moreover have "rebind_locator (locator_from U l) \<circ> rebind_locator (locator_from U l) = rebind_locator (locator_from U l)"
    by (simp add: fun_eq_iff rebind_locator_def)
  ultimately show ?case by (simp add: option.map_comp)
next
  case (5 s l r t d now)
  then show ?case using sqlite_save_thread_ok [OF 5(1-8), of now] by (simp add: sqlite_session_store_def)
next
  case (6 s l r t now d)
  then show ?case using sqlite_save_thread_cases [OF 6(1-6), of now d] by (simp add: sqlite_session_store_def)
next
  case (7 s l x) then show ?case by (simp add: sqlite_session_store_def sqlite_load_dedup_eq)
next
  case (8 s l rec)
  then have thr: "sql_find_thread (uuid_to_string U (tl_thread_id l)) s \<noteq> None"
    by (auto simp: sqlite_thread_of_def)
  obtain rows where rows:
    "sql_upsert_dedup (dedup_row_of U (uuid_to_string U (tl_thread_id l)) rec) s = Some (s\<lparr>db_external_message_dedup := rows\<rparr>)"
    "sqlite_inv U K (s\<lparr>db_external_message_dedup := rows\<rparr>)"
    "sqlite_dedup_of U (s\<lparr>db_external_message_dedup := rows\<rparr>)
       = (sqlite_dedup_of U s)((tl_thread_id l, dr_external_message_id rec) \<mapsto> rec)"
    using sql_upsert_dedup_ok [OF 8(1) thr 8(3)] by metis
  have "sqlite_session_of U (s\<lparr>db_external_message_dedup := rows\<rparr>) = sqlite_session_of U s"
    "sqlite_thread_of U (s\<lparr>db_external_message_dedup := rows\<rparr>) = sqlite_thread_of U s"
    by (simp_all add: sqlite_session_of_def sql_find_session_def sqlite_thread_of_def sql_find_thread_def fun_eq_iff)
  with rows show ?case
    by (simp add: sqlite_session_store_def sqlite_save_external_message_record_def)
qed (simp_all add: sqlite_view_def)

section \<open>Properties\<close>

text \<open>
  C17: a saved snapshot is durable. After a successful save into the SQLite tables, a load through the same
  locator returns the saved messages and thread state, at the advanced revision and bound to the
  locator it was asked for.
\<close>
theorem sqlite_save_then_load:
  assumes "sqlite_inv U K db" "wf_locator U K l"
    and "sqlite_load_session U (tl_session_key l) db = Inr (Some r)" "ss_id r = tl_session_id l"
    and "th_locator t = locator_from U l" "revision_in_range (th_revision t)"
    and "\<forall>x. d = Some x \<longrightarrow> dr_thread_id x = tl_thread_id l"
    and "th_revision t = stored_revision (sqlite_thread_of U db) (tl_thread_id l)"
  obtains db' t' where "sqlite_save_thread_context U t now d db = (Inr (th_revision t + 1), db')"
    and "sqlite_inv U K db'" and "sqlite_load_thread_context U l db' = Inr (Some t')"
    and "messages t' = messages t" and "th_state t' = th_state t"
    and "th_revision t' = th_revision t + 1" and "th_locator t' = locator_from U l"
proof -
  have r: "sqlite_session_of U db (tl_session_key l) = Some r"
    using assms(3) by (simp add: sqlite_load_session_eq [OF assms(1)])
  obtain db' where db': "sqlite_save_thread_context U t now d db = (Inr (th_revision t + 1), db')"
    "sqlite_inv U K db'"
    and thr: "sqlite_thread_of U db' =
         (sqlite_thread_of U db)(tl_thread_id l \<mapsto> set_revision (th_revision t + 1) (sqlite_view t))"
    and ids: "map_option ss_id (sqlite_session_of U db' (tl_session_key l))
         = map_option ss_id (sqlite_session_of U db (tl_session_key l))"
    using sqlite_save_thread_ok [OF assms(1,2) r assms(4-8), of now] by blast
  from ids r assms(4) obtain r' where r': "sqlite_session_of U db' (tl_session_key l) = Some r'"
    "ss_id r' = tl_session_id l" by auto
  have "sqlite_load_thread_context U l db'
      = Inr (Some (rebind_locator (locator_from U l) (set_revision (th_revision t + 1) (sqlite_view t))))"
    by (simp add: sqlite_load_thread_eq [OF db'(2) assms(2) r'] thr)
  with db' show ?thesis
    by (rule that) (simp_all add: rebind_locator_def set_revision_def sqlite_view_def)
qed

lemma demo_sqlite_resolved:
  obtains db r where "sqlite_inv demo_uuid_lib demo_keys db"
    and "sqlite_load_session demo_uuid_lib (tl_session_key demo_store_locator) db = Inr (Some r)"
    and "ss_id r = tl_session_id demo_store_locator"
    and "stored_revision (sqlite_thread_of demo_uuid_lib db) (tl_thread_id demo_store_locator) = 0"
proof -
  have none: "sql_find_session k sqlite_empty = None" for k
    by (simp add: sql_find_session_def sqlite_empty_def)
  obtain r db where "sqlite_inv demo_uuid_lib demo_keys db" "ss_id r = 7"
    "sqlite_session_of demo_uuid_lib db
      = (sqlite_session_of demo_uuid_lib sqlite_empty)(tl_session_key demo_store_locator \<mapsto> r)"
    "sqlite_thread_of demo_uuid_lib db = sqlite_thread_of demo_uuid_lib sqlite_empty"
    using sqlite_resolve_new [OF sqlite_inv_empty [OF demo_uuid_lib_ok demo_keys_separate] none, of 7
        "tl_session_key demo_store_locator" 1]
    by (auto simp: sqlite_session_of_def none)
  then show ?thesis
    by (intro that [of db r])
      (simp_all add: sqlite_load_session_eq stored_revision_def sqlite_thread_of_def sql_find_thread_def
        sqlite_empty_def demo_store_locator_def)
qed

theorem sqlite_save_then_load_witness:
  "\<exists>db db' t'. sqlite_save_thread_context demo_uuid_lib demo_stored_thread 5 None db = (Inr 1, db')
     \<and> sqlite_load_thread_context demo_uuid_lib demo_store_locator db' = Inr (Some t')
     \<and> messages t' = [demo_user_message]"
proof -
  obtain db r where db: "sqlite_inv demo_uuid_lib demo_keys db"
    "sqlite_load_session demo_uuid_lib (tl_session_key demo_store_locator) db = Inr (Some r)"
    "ss_id r = tl_session_id demo_store_locator"
    "stored_revision (sqlite_thread_of demo_uuid_lib db) (tl_thread_id demo_store_locator) = 0"
    by (rule demo_sqlite_resolved)
  show ?thesis
    by (rule sqlite_save_then_load [OF db(1) demo_store_locator_wf db(2,3) demo_stored_thread_sel(1),
          of None 5]) (use db(4) demo_stored_thread_sel in \<open>auto simp: revision_in_range_def\<close>)
qed

text \<open>
  C16: compare-and-swap on the SQLite backend. Of two writers holding the same revision of a thread, the
  second is refused with the conflict that names both revisions, and the database is left as the
  first one wrote it: no update is lost.
\<close>
theorem sqlite_rejects_second_writer:
  assumes "sqlite_inv U K db" "wf_locator U K l"
    and "sqlite_load_session U (tl_session_key l) db = Inr (Some r)" "ss_id r = tl_session_id l"
    and "th_locator t = locator_from U l" "th_locator t2 = locator_from U l"
    and "revision_in_range (th_revision t)"
    and "th_revision t = stored_revision (sqlite_thread_of U db) (tl_thread_id l)"
    and "th_revision t2 = th_revision t"
  obtains db' where "sqlite_save_thread_context U t now None db = (Inr (th_revision t + 1), db')"
    and "sqlite_save_thread_context U t2 now2 d2 db' =
           (Inl (RevisionConflict
                   \<lparr>rc_thread_id = uuid_to_string U (tl_thread_id l), rc_expected_revision = th_revision t,
                    rc_actual_revision = th_revision t + 1\<rparr>), db')"
proof -
  have r: "sqlite_session_of U db (tl_session_key l) = Some r"
    using assms(3) by (simp add: sqlite_load_session_eq [OF assms(1)])
  show ?thesis
    using sqlite.second_writer_conflicts [OF assms(1,2) r assms(4-9), of now now2 d2] that
    by (auto simp: sqlite_session_store_def)
qed

theorem sqlite_rejects_second_writer_witness:
  "\<exists>db db'. sqlite_save_thread_context demo_uuid_lib demo_stored_thread 5 None db = (Inr 1, db')
     \<and> sqlite_save_thread_context demo_uuid_lib demo_stored_thread 6 None db'
         = (Inl (RevisionConflict
                   \<lparr>rc_thread_id = uuid_to_string demo_uuid_lib (tl_thread_id demo_store_locator),
                    rc_expected_revision = 0, rc_actual_revision = 1\<rparr>), db')"
proof -
  obtain db r where db: "sqlite_inv demo_uuid_lib demo_keys db"
    "sqlite_load_session demo_uuid_lib (tl_session_key demo_store_locator) db = Inr (Some r)"
    "ss_id r = tl_session_id demo_store_locator"
    "stored_revision (sqlite_thread_of demo_uuid_lib db) (tl_thread_id demo_store_locator) = 0"
    by (rule demo_sqlite_resolved)
  show ?thesis
    by (rule sqlite_rejects_second_writer [OF db(1) demo_store_locator_wf db(2,3)
          demo_stored_thread_sel(1) demo_stored_thread_sel(1), of 5 6 None])
      (use db(4) demo_stored_thread_sel in \<open>auto simp: revision_in_range_def\<close>)
qed

end
