(* ===== verification/OJ_Session_Manager.thy ===== *)
theory OJ_Session_Manager
  imports OJ_Sqlite_Store
begin

text \<open>
  The session cache in front of the store, \<open>SessionManager\<close> of \<open>src/session.rs\<close>. An
  \<open>Arc<Mutex<Thread>>\<close> is a handle: the index of its cell in \<open>sm_cells\<close>, so that two holders of
  one handle see each other's writes. A lock guard is such a handle too; the mutation its owner
  makes is a function on the cell. Fresh session ids and clock readings are arguments. Every definition
  is an operation that runs without interruption; \<open>OJ_Session_Tasks\<close> cuts the operations where the
  code waits and lets the pieces of several tasks interleave.
\<close>

section \<open>State\<close>

type_synonym handle = nat

record cached_session =
  cs_id :: uuid
  cs_key :: session_key
  cs_threads :: "uuid \<rightharpoonup> handle"
  cs_created_at :: time
  cs_updated_at :: time

definition cached_session_from_record :: "stored_session_record \<Rightarrow> cached_session" where
  "cached_session_from_record r =
     \<lparr>cs_id = ss_id r, cs_key = ss_key r, cs_threads = Map.empty,
      cs_created_at = ss_created_at r, cs_updated_at = ss_updated_at r\<rparr>"

record 's session_manager =
  sm_sessions :: "session_key \<rightharpoonup> cached_session"
  sm_cells :: "thread list"
  sm_store :: 's

definition session_manager_new :: "'s \<Rightarrow> 's session_manager" where
  "session_manager_new store = \<lparr>sm_sessions = Map.empty, sm_cells = [], sm_store = store\<rparr>"

definition session_manager_with_store ::
    "('s \<Rightarrow> (session_store_error + unit) \<times> 's) \<Rightarrow> 's \<Rightarrow> session_store_error + 's session_manager" where
  "session_manager_with_store initialize_schema store =
     (case initialize_schema store of
        (Inl e, store') \<Rightarrow> Inl e
      | (Inr _, store') \<Rightarrow> Inr (session_manager_new store'))"

text \<open>The detached session snapshot \<open>Session\<close>.\<close>

record session =
  se_id :: uuid
  se_key :: session_key
  se_threads :: "uuid \<rightharpoonup> thread"
  se_created_at :: time
  se_updated_at :: time

definition session_with_id :: "uuid \<Rightarrow> session_key \<Rightarrow> time \<Rightarrow> session" where
  "session_with_id i k now =
     \<lparr>se_id = i, se_key = k, se_threads = Map.empty, se_created_at = now, se_updated_at = now\<rparr>"

text \<open>The source panics when the locator's thread id is no UUID: None.\<close>

definition session_load_or_create_thread ::
    "uuid_lib \<Rightarrow> thread_context_locator \<Rightarrow> time \<Rightarrow> session \<Rightarrow> (thread \<times> session) option" where
  "session_load_or_create_thread U locator now se =
     (case uuid_parse_str U (tcl_thread_id locator) of
        None \<Rightarrow> None
      | Some thread_id \<Rightarrow>
          (case se_threads se thread_id of
             Some t \<Rightarrow> Some (t, se)
           | None \<Rightarrow>
               let t = thread_new locator now in
               Some (t, se\<lparr>se_threads := (se_threads se)(thread_id \<mapsto> t)\<rparr>)))"

definition thread_id_for_external :: "uuid_lib \<Rightarrow> rstring \<Rightarrow> session \<Rightarrow> uuid option" where
  "thread_id_for_external U external_thread_id se =
     (let thread_id = derive_thread_id U (se_key se) external_thread_id in
      if se_threads se thread_id \<noteq> None then Some thread_id else None)"

section \<open>The cache\<close>

definition sm_handle :: "'s session_manager \<Rightarrow> session_key \<Rightarrow> uuid \<Rightarrow> handle option" where
  "sm_handle m k i = (case sm_sessions m k of None \<Rightarrow> None | Some s \<Rightarrow> cs_threads s i)"

definition cached_thread_handle :: "thread_locator \<Rightarrow> 's session_manager \<Rightarrow> handle option" where
  "cached_thread_handle l m =
     (case sm_sessions m (tl_session_key l) of
        None \<Rightarrow> None
      | Some s \<Rightarrow> cs_threads s (tl_thread_id l))"

text \<open>\<open>Arc::new(Mutex::new(thread))\<close>, the critical section under the lock of a cell, and a read of it.\<close>

definition new_cell :: "thread \<Rightarrow> 's session_manager \<Rightarrow> handle \<times> 's session_manager" where
  "new_cell t m = (length (sm_cells m), m\<lparr>sm_cells := sm_cells m @ [t]\<rparr>)"

definition write_cell :: "handle \<Rightarrow> thread \<Rightarrow> 's session_manager \<Rightarrow> 's session_manager" where
  "write_cell h t m = m\<lparr>sm_cells := (sm_cells m)[h := t]\<rparr>"

definition cache_thread_handle_if_absent ::
    "session_key \<Rightarrow> stored_session_record \<Rightarrow> uuid \<Rightarrow> handle \<Rightarrow> time \<Rightarrow> 's session_manager
     \<Rightarrow> handle \<times> 's session_manager" where
  "cache_thread_handle_if_absent k record thread_id h updated_at m =
     (let s0 = (case sm_sessions m k of Some s \<Rightarrow> s | None \<Rightarrow> cached_session_from_record record);
          s1 = s0\<lparr>cs_updated_at := updated_at\<rparr> in
      case cs_threads s1 thread_id of
        Some h0 \<Rightarrow> (h0, m\<lparr>sm_sessions := (sm_sessions m)(k \<mapsto> s1)\<rparr>)
      | None \<Rightarrow>
          (h, m\<lparr>sm_sessions :=
                  (sm_sessions m)(k \<mapsto> s1\<lparr>cs_threads := (cs_threads s1)(thread_id \<mapsto> h)\<rparr>)\<rparr>))"

definition cached_session_of_locator :: "session_key \<Rightarrow> thread_locator \<Rightarrow> time \<Rightarrow> cached_session" where
  "cached_session_of_locator k l updated_at =
     \<lparr>cs_id = tl_session_id l, cs_key = k, cs_threads = Map.empty, cs_created_at = updated_at,
      cs_updated_at = updated_at\<rparr>"

definition touch_cached_session ::
    "session_key \<Rightarrow> thread_locator \<Rightarrow> time \<Rightarrow> 's session_manager \<Rightarrow> 's session_manager" where
  "touch_cached_session k l updated_at m =
     (let s = (case sm_sessions m k of Some s \<Rightarrow> s | None \<Rightarrow> cached_session_of_locator k l updated_at) in
      m\<lparr>sm_sessions := (sm_sessions m)(k \<mapsto> s\<lparr>cs_updated_at := updated_at\<rparr>)\<rparr>)"

definition sync_thread_context_to_cache ::
    "session_key \<Rightarrow> thread_locator \<Rightarrow> thread \<Rightarrow> time \<Rightarrow> 's session_manager \<Rightarrow> 's session_manager" where
  "sync_thread_context_to_cache k l t updated_at m =
     (let m1 = touch_cached_session k l updated_at m in
      case sm_handle m1 k (tl_thread_id l) of
        Some h \<Rightarrow> write_cell h t m1
      | None \<Rightarrow>
          let (h, m2) = new_cell t (touch_cached_session k l updated_at m1) in
          m2\<lparr>sm_sessions :=
               (case sm_sessions m2 k of
                  None \<Rightarrow> sm_sessions m2
                | Some s \<Rightarrow> (sm_sessions m2)
                    (k \<mapsto> s\<lparr>cs_threads := (cs_threads s)(tl_thread_id l \<mapsto> h)\<rparr>))\<rparr>)"

section \<open>Reading and writing the store\<close>

definition fetch_thread_context_from_store_only ::
    "'s session_store \<Rightarrow> uuid_lib \<Rightarrow> thread_locator \<Rightarrow> 's \<Rightarrow> session_store_error + thread option" where
  "fetch_thread_context_from_store_only ops U l s =
     map_sum id (map_option (rebind_locator (locator_from U l))) (so_load_thread_context ops l s)"

definition fetch_thread_context_from_store ::
    "'s session_store \<Rightarrow> uuid_lib \<Rightarrow> thread_locator \<Rightarrow> 's
     \<Rightarrow> session_store_error + (stored_session_record \<times> thread) option" where
  "fetch_thread_context_from_store ops U l s =
     (case so_load_session ops (tl_session_key l) s of
        Inl e \<Rightarrow> Inl e
      | Inr None \<Rightarrow> Inr None
      | Inr (Some record) \<Rightarrow>
          (case fetch_thread_context_from_store_only ops U l s of
             Inl e \<Rightarrow> Inl e
           | Inr None \<Rightarrow> Inr None
           | Inr (Some t) \<Rightarrow> Inr (Some (record, t))))"

definition save_thread_snapshot ::
    "'s session_store \<Rightarrow> uuid_lib \<Rightarrow> uuid \<Rightarrow> thread_locator \<Rightarrow> thread \<Rightarrow> time
     \<Rightarrow> external_message_dedup_record option \<Rightarrow> 's session_manager
     \<Rightarrow> (session_store_error + thread) \<times> 's session_manager" where
  "save_thread_snapshot ops U fresh l t updated_at dedup_record m =
     (case so_resolve_or_create_session ops fresh (tl_session_key l) updated_at (sm_store m) of
        (Inl e, s1) \<Rightarrow> (Inl e, m\<lparr>sm_store := s1\<rparr>)
      | (Inr _, s1) \<Rightarrow>
          let t1 = rebind_locator (locator_from U l) t in
          (case so_save_thread_context ops t1 updated_at dedup_record s1 of
             (Inl e, s2) \<Rightarrow> (Inl e, m\<lparr>sm_store := s2\<rparr>)
           | (Inr new_revision, s2) \<Rightarrow> (Inr (set_revision new_revision t1), m\<lparr>sm_store := s2\<rparr>)))"

definition persist_thread_context_snapshot ::
    "'s session_store \<Rightarrow> uuid_lib \<Rightarrow> uuid \<Rightarrow> thread_locator \<Rightarrow> thread \<Rightarrow> time \<Rightarrow> 's session_manager
     \<Rightarrow> (session_store_error + thread) \<times> 's session_manager" where
  "persist_thread_context_snapshot ops U fresh l t updated_at m =
     save_thread_snapshot ops U fresh l t updated_at None m"

definition ensure_thread_handle ::
    "'s session_store \<Rightarrow> uuid_lib \<Rightarrow> uuid \<Rightarrow> thread_locator \<Rightarrow> stored_session_record option \<Rightarrow> time
     \<Rightarrow> 's session_manager \<Rightarrow> (session_store_error + handle) \<times> 's session_manager" where
  "ensure_thread_handle ops U fresh l session_record now m =
     (case cached_thread_handle l m of
        Some h \<Rightarrow> (Inr h, m)
      | None \<Rightarrow>
          (case (case session_record of
                   Some r \<Rightarrow> (Inr r, sm_store m)
                 | None \<Rightarrow> so_resolve_or_create_session ops fresh (tl_session_key l) now (sm_store m)) of
             (Inl e, s) \<Rightarrow> (Inl e, m\<lparr>sm_store := s\<rparr>)
           | (Inr r, s) \<Rightarrow>
               let m1 = m\<lparr>sm_store := s\<rparr> in
               (case fetch_thread_context_from_store_only ops U l s of
                  Inl e \<Rightarrow> (Inl e, m1)
                | Inr persisted_thread \<Rightarrow>
                    let t = (case persisted_thread of
                               Some t \<Rightarrow> t | None \<Rightarrow> thread_new (locator_from U l) now);
                        (h, m2) = new_cell t m1;
                        (h', m3) = cache_thread_handle_if_absent (tl_session_key l) r (tl_thread_id l) h now m2 in
                    (Inr h', m3))))"

section \<open>Public operations\<close>

definition load_or_create_thread ::
    "'s session_store \<Rightarrow> uuid_lib \<Rightarrow> uuid \<Rightarrow> incoming_message \<Rightarrow> 's session_manager
     \<Rightarrow> (session_store_error + thread_locator) \<times> 's session_manager" where
  "load_or_create_thread ops U fresh incoming m =
     (let k = session_key_from_incoming incoming;
          external_thread_id = resolved_external_thread_id incoming;
          thread_id = derive_thread_id U k external_thread_id;
          now = im_received_at incoming in
      case so_resolve_or_create_session ops fresh k now (sm_store m) of
        (Inl e, s) \<Rightarrow> (Inl e, m\<lparr>sm_store := s\<rparr>)
      | (Inr record, s) \<Rightarrow>
          let l = thread_locator_new (ss_id record) incoming external_thread_id thread_id in
          (case ensure_thread_handle ops U fresh l (Some record) now (m\<lparr>sm_store := s\<rparr>) of
             (Inl e, m1) \<Rightarrow> (Inl e, m1)
           | (Inr _, m1) \<Rightarrow>
               let se = (case sm_sessions m1 k of Some se \<Rightarrow> se | None \<Rightarrow> cached_session_from_record record) in
               (Inr l, m1\<lparr>sm_sessions := (sm_sessions m1)(k \<mapsto> se\<lparr>cs_updated_at := now\<rparr>)\<rparr>)))"

definition sm_load_thread_context ::
    "'s session_store \<Rightarrow> uuid_lib \<Rightarrow> time \<Rightarrow> thread_locator \<Rightarrow> 's session_manager
     \<Rightarrow> (session_store_error + thread option) \<times> 's session_manager" where
  "sm_load_thread_context ops U now l m =
     (case cached_thread_handle l m of
        Some h \<Rightarrow> (Inr (Some (sm_cells m ! h)), m)
      | None \<Rightarrow>
          (case fetch_thread_context_from_store ops U l (sm_store m) of
             Inl e \<Rightarrow> (Inl e, m)
           | Inr None \<Rightarrow> (Inr None, m)
           | Inr (Some (record, stored_thread)) \<Rightarrow>
               let (h, m1) = new_cell stored_thread m;
                   (h', m2) = cache_thread_handle_if_absent (tl_session_key l) record (tl_thread_id l) h now m1 in
               (Inr (Some (sm_cells m2 ! h')), m2)))"

definition lock_thread_context ::
    "'s session_store \<Rightarrow> uuid_lib \<Rightarrow> uuid \<Rightarrow> thread_locator \<Rightarrow> time \<Rightarrow> 's session_manager
     \<Rightarrow> (session_store_error + handle) \<times> 's session_manager" where
  "lock_thread_context ops U fresh l now m = ensure_thread_handle ops U fresh l None now m"

definition persist_thread_context ::
    "'s session_store \<Rightarrow> uuid_lib \<Rightarrow> uuid \<Rightarrow> thread_locator \<Rightarrow> time \<Rightarrow> 's session_manager
     \<Rightarrow> (session_store_error + unit) \<times> 's session_manager" where
  "persist_thread_context ops U fresh l updated_at m =
     (case ensure_thread_handle ops U fresh l None updated_at m of
        (Inl e, m1) \<Rightarrow> (Inl e, m1)
      | (Inr h, m1) \<Rightarrow>
          (case persist_thread_context_snapshot ops U fresh l (sm_cells m1 ! h) updated_at m1 of
             (Inl e, m2) \<Rightarrow> (Inl e, m2)
           | (Inr persisted, m2) \<Rightarrow>
               (Inr (), sync_thread_context_to_cache (tl_session_key l) l persisted updated_at m2)))"

definition mutate_thread_context ::
    "'s session_store \<Rightarrow> uuid_lib \<Rightarrow> uuid \<Rightarrow> thread_locator \<Rightarrow> time
     \<Rightarrow> (thread \<Rightarrow> (session_store_error + 'r) \<times> thread) \<Rightarrow> 's session_manager
     \<Rightarrow> (session_store_error + 'r) \<times> 's session_manager" where
  "mutate_thread_context ops U fresh l updated_at mutate m =
     (case lock_thread_context ops U fresh l updated_at m of
        (Inl e, m1) \<Rightarrow> (Inl e, m1)
      | (Inr h, m1) \<Rightarrow>
          (case mutate (sm_cells m1 ! h) of
             (Inl e, t) \<Rightarrow> (Inl e, write_cell h t m1)
           | (Inr result, t) \<Rightarrow>
               (case persist_thread_context_snapshot ops U fresh l t updated_at (write_cell h t m1) of
                  (Inl e, m2) \<Rightarrow> (Inl e, m2)
                | (Inr persisted, m2) \<Rightarrow> (Inr result, write_cell h persisted m2))))"

text \<open>The guard the caller holds is the handle \<open>h\<close>.\<close>

definition persist_locked_thread_context ::
    "'s session_store \<Rightarrow> uuid_lib \<Rightarrow> uuid \<Rightarrow> thread_locator \<Rightarrow> handle \<Rightarrow> time \<Rightarrow> 's session_manager
     \<Rightarrow> (session_store_error + unit) \<times> 's session_manager" where
  "persist_locked_thread_context ops U fresh l h updated_at m =
     (case persist_thread_context_snapshot ops U fresh l (sm_cells m ! h) updated_at m of
        (Inl e, m1) \<Rightarrow> (Inl e, m1)
      | (Inr persisted, m1) \<Rightarrow>
          (Inr (), touch_cached_session (tl_session_key l) l updated_at (write_cell h persisted m1)))"

definition is_external_message_processed ::
    "'s session_store \<Rightarrow> thread_locator \<Rightarrow> rstring \<Rightarrow> 's session_manager \<Rightarrow> session_store_error + bool" where
  "is_external_message_processed ops l x m =
     map_sum id (\<lambda>r. r \<noteq> None) (so_load_external_message_record ops l x (sm_store m))"

definition mark_external_message_processed ::
    "'s session_store \<Rightarrow> thread_locator \<Rightarrow> rstring \<Rightarrow> uuid option \<Rightarrow> time \<Rightarrow> 's session_manager
     \<Rightarrow> (session_store_error + unit) \<times> 's session_manager" where
  "mark_external_message_processed ops l x turn_id completed_at m =
     (let (r, s) = so_save_external_message_record ops l
            \<lparr>dr_thread_id = tl_thread_id l, dr_external_message_id = x, dr_turn_id = turn_id,
             dr_completed_at = completed_at\<rparr> (sm_store m) in
      (r, m\<lparr>sm_store := s\<rparr>))"

definition dedup_record_of :: "thread_locator \<Rightarrow> thread_finalized_turn \<Rightarrow> external_message_dedup_record option" where
  "dedup_record_of l ft =
     map_option (\<lambda>x. \<lparr>dr_thread_id = tl_thread_id l, dr_external_message_id = x,
                      dr_turn_id = Some (ft_turn_id ft), dr_completed_at = ft_completed_at ft\<rparr>)
       (ft_external_message_id ft)"

definition commit_finalized_turn ::
    "'s session_store \<Rightarrow> uuid_lib \<Rightarrow> uuid \<Rightarrow> thread_locator \<Rightarrow> thread_finalized_turn
     \<Rightarrow> 's session_manager \<Rightarrow> (session_store_error + uuid) \<times> 's session_manager" where
  "commit_finalized_turn ops U fresh l ft m =
     (case save_thread_snapshot ops U fresh l (ft_snapshot ft) (ft_completed_at ft) (dedup_record_of l ft) m of
        (Inl e, m1) \<Rightarrow> (Inl e, m1)
      | (Inr persisted, m1) \<Rightarrow>
          (Inr (ft_turn_id ft),
           sync_thread_context_to_cache (tl_session_key l) l persisted (ft_completed_at ft) m1))"

definition commit_finalized_turn_locked ::
    "'s session_store \<Rightarrow> uuid_lib \<Rightarrow> uuid \<Rightarrow> thread_locator \<Rightarrow> handle \<Rightarrow> thread_finalized_turn
     \<Rightarrow> 's session_manager \<Rightarrow> (session_store_error + uuid) \<times> 's session_manager" where
  "commit_finalized_turn_locked ops U fresh l h ft m =
     (case save_thread_snapshot ops U fresh l (ft_snapshot ft) (ft_completed_at ft) (dedup_record_of l ft) m of
        (Inl e, m1) \<Rightarrow> (Inl e, m1)
      | (Inr persisted, m1) \<Rightarrow>
          (Inr (ft_turn_id ft),
           touch_cached_session (tl_session_key l) l (ft_completed_at ft) (write_cell h persisted m1)))"

definition store_thread_context ::
    "'s session_store \<Rightarrow> uuid_lib \<Rightarrow> uuid \<Rightarrow> thread_locator \<Rightarrow> thread \<Rightarrow> time \<Rightarrow> 's session_manager
     \<Rightarrow> (session_store_error + unit) \<times> 's session_manager" where
  "store_thread_context ops U fresh l t updated_at m =
     (case persist_thread_context_snapshot ops U fresh l t updated_at m of
        (Inl e, m1) \<Rightarrow> (Inl e, m1)
      | (Inr persisted, m1) \<Rightarrow>
          (Inr (), sync_thread_context_to_cache (tl_session_key l) l persisted updated_at m1))"

definition get_session :: "session_key \<Rightarrow> 's session_manager \<Rightarrow> session option" where
  "get_session k m =
     map_option (\<lambda>s. \<lparr>se_id = cs_id s, se_key = cs_key s,
                      se_threads = (\<lambda>i. map_option (\<lambda>h. sm_cells m ! h) (cs_threads s i)),
                      se_created_at = cs_created_at s,
                      se_updated_at = max (cs_updated_at s) (cs_created_at s)\<rparr>)
       (sm_sessions m k)"

section \<open>Invariant\<close>

text \<open>
  A cached handle names a live cell, no two threads share one, its key and id come from a
  well-formed locator, and the cell carries the revision the store holds. That last clause is
  what makes the optimistic check of the store succeed for a writer that goes through the cache and is
  not interrupted; \<open>OJ_Session_Tasks\<close> says when it holds for tasks that interleave.
\<close>

definition sm_inv ::
    "(thread_locator \<Rightarrow> bool) \<Rightarrow> ('s \<Rightarrow> bool) \<Rightarrow> ('s \<Rightarrow> uuid \<rightharpoonup> thread) \<Rightarrow> 's session_manager \<Rightarrow> bool" where
  "sm_inv wl sinv thread_of m \<longleftrightarrow>
     sinv (sm_store m)
     \<and> (\<forall>k i h. sm_handle m k i = Some h \<longrightarrow>
          h < length (sm_cells m)
          \<and> th_revision (sm_cells m ! h) = stored_revision (thread_of (sm_store m)) i
          \<and> (\<exists>l. wl l \<and> tl_session_key l = k \<and> tl_thread_id l = i)
          \<and> (\<forall>k' i'. sm_handle m k' i' = Some h \<longrightarrow> k' = k \<and> i' = i))"

definition sm_resolved ::
    "('s \<Rightarrow> session_key \<rightharpoonup> stored_session_record) \<Rightarrow> 's session_manager \<Rightarrow> thread_locator \<Rightarrow> bool" where
  "sm_resolved session_of m l \<longleftrightarrow>
     map_option ss_id (session_of (sm_store m) (tl_session_key l)) = Some (tl_session_id l)"

text \<open>Handles are never replaced: what another task was given stays the one handle of its thread.\<close>

definition sm_extends :: "'s session_manager \<Rightarrow> 's session_manager \<Rightarrow> bool" where
  "sm_extends m m' \<longleftrightarrow> (\<forall>k i h. sm_handle m k i = Some h \<longrightarrow> sm_handle m' k i = Some h)"

lemma sm_extends_refl [simp]: "sm_extends m m"
  by (simp add: sm_extends_def)

lemma sm_extends_trans [trans]: "sm_extends a b \<Longrightarrow> sm_extends b c \<Longrightarrow> sm_extends a c"
  by (simp add: sm_extends_def)

lemma sm_handle_cached: "cached_thread_handle l m = sm_handle m (tl_session_key l) (tl_thread_id l)"
  by (simp add: cached_thread_handle_def sm_handle_def)

lemma sm_handle_store [simp]: "sm_handle (m\<lparr>sm_store := s\<rparr>) = sm_handle m"
  by (simp add: sm_handle_def fun_eq_iff)

lemma sm_handle_write [simp]: "sm_handle (write_cell h t m) = sm_handle m"
  by (simp add: sm_handle_def write_cell_def fun_eq_iff)

lemma sm_handle_touch [simp]: "sm_handle (touch_cached_session k l u m) = sm_handle m"
  by (auto simp: sm_handle_def touch_cached_session_def cached_session_of_locator_def Let_def fun_eq_iff
      split: option.splits)

lemma sm_touch_sel [simp]:
  "sm_cells (touch_cached_session k l u m) = sm_cells m"
  "sm_store (touch_cached_session k l u m) = sm_store m"
  by (simp_all add: touch_cached_session_def Let_def)

lemma sm_write_sel [simp]:
  "sm_cells (write_cell h t m) = (sm_cells m)[h := t]"
  "sm_store (write_cell h t m) = sm_store m"
  by (simp_all add: write_cell_def)

lemma new_cell_sel [simp]:
  "fst (new_cell t m) = length (sm_cells m)"
  "sm_handle (snd (new_cell t m)) = sm_handle m"
  "sm_cells (snd (new_cell t m)) = sm_cells m @ [t]"
  "sm_store (snd (new_cell t m)) = sm_store m"
  by (simp_all add: new_cell_def sm_handle_def fun_eq_iff)

lemma cache_if_absent_sel:
  assumes "cache_thread_handle_if_absent k r i h now m = (h', m')"
  shows "sm_handle m' = (case sm_handle m k i of Some _ \<Rightarrow> sm_handle m
                         | None \<Rightarrow> (sm_handle m)(k := (sm_handle m k)(i \<mapsto> h)))"
    and "h' = (case sm_handle m k i of Some h0 \<Rightarrow> h0 | None \<Rightarrow> h)"
    and "sm_cells m' = sm_cells m" "sm_store m' = sm_store m"
  using assms
  by (auto simp: cache_thread_handle_if_absent_def sm_handle_def cached_session_from_record_def
      Let_def fun_eq_iff split: option.splits if_splits)

lemma sync_sel:
  "sm_handle (sync_thread_context_to_cache k l t u m) =
     (case sm_handle m k (tl_thread_id l) of Some _ \<Rightarrow> sm_handle m
      | None \<Rightarrow> (sm_handle m)(k := (sm_handle m k)(tl_thread_id l \<mapsto> length (sm_cells m))))"
  "sm_cells (sync_thread_context_to_cache k l t u m) =
     (case sm_handle m k (tl_thread_id l) of Some h \<Rightarrow> (sm_cells m)[h := t]
      | None \<Rightarrow> sm_cells m @ [t])"
  "sm_store (sync_thread_context_to_cache k l t u m) = sm_store m"
proof -
  show "sm_store (sync_thread_context_to_cache k l t u m) = sm_store m"
    "sm_cells (sync_thread_context_to_cache k l t u m) =
     (case sm_handle m k (tl_thread_id l) of Some h \<Rightarrow> (sm_cells m)[h := t]
      | None \<Rightarrow> sm_cells m @ [t])"
    by (simp_all add: sync_thread_context_to_cache_def Let_def new_cell_def split: option.splits)
  have some: "\<exists>s. sm_sessions (touch_cached_session k l u m') k = Some s \<and> cs_threads s = sm_handle m' k"
    for m' :: "'a session_manager"
    by (auto simp: touch_cached_session_def sm_handle_def cached_session_of_locator_def Let_def
        fun_eq_iff split: option.splits)
  show "sm_handle (sync_thread_context_to_cache k l t u m) =
     (case sm_handle m k (tl_thread_id l) of Some _ \<Rightarrow> sm_handle m
      | None \<Rightarrow> (sm_handle m)(k := (sm_handle m k)(tl_thread_id l \<mapsto> length (sm_cells m))))"
  proof (cases "sm_handle m k (tl_thread_id l)")
    case None
    let ?m = "touch_cached_session k l u (touch_cached_session k l u m)"
    obtain s where s: "sm_sessions ?m k = Some s" "cs_threads s = sm_handle m k"
      using some [of "touch_cached_session k l u m"] by auto
    have other: "(case sm_sessions ?m k' of None \<Rightarrow> None | Some s \<Rightarrow> cs_threads s i) = sm_handle m k' i" for k' i
      by (metis sm_handle_touch sm_handle_def)
    show ?thesis
      using None s other
      by (simp add: sync_thread_context_to_cache_def Let_def new_cell_def fun_eq_iff)
        (simp add: sm_handle_def [of "_\<lparr>sm_cells := _, sm_sessions := _\<rparr>"] other)
  qed (simp add: sync_thread_context_to_cache_def Let_def)
qed

text \<open>The three ways an operation moves the state, against the invariant.\<close>

lemma sm_inv_store_same:
  assumes "sm_inv wl sinv thread_of m" "sinv s" "thread_of s = thread_of (sm_store m)"
  shows "sm_inv wl sinv thread_of (m\<lparr>sm_store := s\<rparr>)"
  using assms by (simp add: sm_inv_def)

lemma sm_inv_cong:
  assumes "sm_inv wl sinv thread_of m" "sm_handle m' = sm_handle m" "sm_cells m' = sm_cells m"
    "sm_store m' = sm_store m"
  shows "sm_inv wl sinv thread_of m'"
  using assms by (simp add: sm_inv_def)

lemma sm_inv_new_handle:
  assumes inv: "sm_inv wl sinv thread_of m" and none: "sm_handle m k i = None"
    and l: "wl l" "tl_session_key l = k" "tl_thread_id l = i"
    and rev: "th_revision t = stored_revision (thread_of (sm_store m)) i"
    and m': "sm_handle m' = (sm_handle m)(k := (sm_handle m k)(i \<mapsto> length (sm_cells m)))"
      "sm_cells m' = sm_cells m @ [t]" "sm_store m' = sm_store m"
  shows "sm_inv wl sinv thread_of m'"
proof -
  have old: "sm_handle m k' i' = Some h \<Longrightarrow> h < length (sm_cells m)" for k' i' h
    using inv by (simp add: sm_inv_def)
  have h: "sm_handle m' k' i' = Some h \<longleftrightarrow>
      (k' = k \<and> i' = i \<and> h = length (sm_cells m) \<or> sm_handle m k' i' = Some h)" for k' i' h
    using none by (auto simp: m'(1))
  show ?thesis
    using inv l rev unfolding sm_inv_def h m'(2,3)
    by (auto simp: nth_append dest: old)
qed

lemma sm_inv_write:
  assumes inv: "sm_inv wl sinv thread_of m" and h: "sm_handle m k i = Some h"
    and store: "sinv s" "\<And>i'. i' \<noteq> i \<Longrightarrow> thread_of s i' = thread_of (sm_store m) i'"
    and rev: "th_revision t = stored_revision (thread_of s) i"
    and uniq: "\<And>k'. sm_handle m k' i \<noteq> None \<Longrightarrow> k' = k"
    and m': "sm_handle m' = sm_handle m" "sm_cells m' = (sm_cells m)[h := t]" "sm_store m' = s"
  shows "sm_inv wl sinv thread_of m'"
proof -
  have "th_revision ((sm_cells m)[h := t] ! h') = stored_revision (thread_of s) i'"
    if h': "sm_handle m k' i' = Some h'" for k' i' h'
  proof (cases "i' = i")
    case True
    then have "h' = h" using uniq [of k'] h h' by auto
    then show ?thesis using inv h rev True by (simp add: sm_inv_def)
  next
    case False
    then have "h' \<noteq> h" using inv h h' by (auto simp: sm_inv_def)
    then show ?thesis using inv h' store(2) [OF False] by (simp add: sm_inv_def stored_revision_def)
  qed
  then show ?thesis using inv store(1) by (simp add: sm_inv_def m')
qed

section \<open>The operations over any lawful store\<close>

text \<open>
  The manager needs one law more of its store: a thread id determines the session key of the
  well-formed locators that carry it.
\<close>

locale session_manager_laws = session_store_laws +
  assumes wf_loc_key:
    "inv s \<Longrightarrow> wf_loc l \<Longrightarrow> wf_loc l' \<Longrightarrow> tl_thread_id l = tl_thread_id l' \<Longrightarrow>
     tl_session_key l = tl_session_key l'"
begin

lemma handle_key_unique:
  assumes "sm_inv wf_loc inv thread_of m" "wf_loc l" "sm_handle m k' (tl_thread_id l) = Some h"
  shows "k' = tl_session_key l"
proof -
  obtain l' where "wf_loc l'" "tl_session_key l' = k'" "tl_thread_id l' = tl_thread_id l"
    using assms(1,3) unfolding sm_inv_def by blast
  moreover have "inv (sm_store m)" using assms(1) by (simp add: sm_inv_def)
  ultimately show ?thesis using wf_loc_key [OF _ \<open>wf_loc l'\<close> assms(2)] by auto
qed

lemma resolve_present:
  assumes "inv s" "map_option ss_id (session_of s k) = Some i"
  obtains r s' where "so_resolve_or_create_session ops u k now s = (Inr r, s')" "inv s'" "ss_id r = i"
    "session_of s' = (session_of s)(k \<mapsto> r)" "thread_of s' = thread_of s" "dedup_of s' = dedup_of s"
    "\<And>k'. map_option ss_id (session_of s' k') = map_option ss_id (session_of s k')"
proof -
  obtain r0 where r0: "session_of s k = Some r0" "ss_id r0 = i" using assms(2) by auto
  obtain r s' where r: "so_resolve_or_create_session ops u k now s = (Inr r, s')" "inv s'" "ss_id r = i"
    "session_of s' = (session_of s)(k \<mapsto> r)" "thread_of s' = thread_of s" "dedup_of s' = dedup_of s"
    using resolve [OF assms(1), of k u now] r0 by auto
  then show ?thesis using that r0 by simp
qed

lemma save_thread_snapshot_ok:
  assumes inv: "inv (sm_store m)" and l: "wf_loc l" and res: "sm_resolved session_of m l"
    and rng: "revision_in_range (th_revision t)"
    and d: "\<forall>x. d = Some x \<longrightarrow> dr_thread_id x = tl_thread_id l"
    and rev: "th_revision t = stored_revision (thread_of (sm_store m)) (tl_thread_id l)"
  obtains s' where
    "save_thread_snapshot ops U u l t now d m =
       (Inr (set_revision (th_revision t + 1) (rebind_locator (locator_from U l) t)), m\<lparr>sm_store := s'\<rparr>)"
    "inv s'" "sm_resolved session_of (m\<lparr>sm_store := s'\<rparr>) l"
    "thread_of s' = (thread_of (sm_store m))
       (tl_thread_id l \<mapsto> set_revision (th_revision t + 1) (view (rebind_locator (locator_from U l) t)))"
    "dedup_of s' = upd_dedup d (dedup_of (sm_store m))"
proof -
  let ?t = "rebind_locator (locator_from U l) t"
  obtain r s1 where s1: "so_resolve_or_create_session ops u (tl_session_key l) now (sm_store m) = (Inr r, s1)"
    "inv s1" "ss_id r = tl_session_id l" "session_of s1 = (session_of (sm_store m))(tl_session_key l \<mapsto> r)"
    "thread_of s1 = thread_of (sm_store m)" "dedup_of s1 = dedup_of (sm_store m)"
    using resolve_present [OF inv res [unfolded sm_resolved_def]] .
  have t: "th_locator ?t = locator_from U l" "th_revision ?t = th_revision t"
    by (simp_all add: rebind_locator_def)
  have k: "session_of s1 (tl_session_key l) = Some r" by (simp add: s1(4))
  obtain s2 where s2: "so_save_thread_context ops ?t now d s1 = (Inr (th_revision t + 1), s2)" "inv s2"
    "thread_of s2 = (thread_of s1)(tl_thread_id l \<mapsto> set_revision (th_revision t + 1) (view ?t))"
    "dedup_of s2 = upd_dedup d (dedup_of s1)"
    "map_option ss_id (session_of s2 (tl_session_key l)) = map_option ss_id (session_of s1 (tl_session_key l))"
    using save_ok [OF s1(2) l k s1(3) t(1), of d now] rng d rev by (auto simp: t(2) s1(5))
  show ?thesis
    by (rule that [of s2])
      (use s1 s2 k in \<open>simp_all add: save_thread_snapshot_def sm_resolved_def Let_def\<close>)
qed

text \<open>The handle of a resolved locator: the cached one, or a fresh cell with what the store holds.\<close>

lemma ensure_thread_handle_ok:
  assumes inv: "sm_inv wf_loc inv thread_of m" and l: "wf_loc l" and res: "sm_resolved session_of m l"
  obtains h m' where "ensure_thread_handle ops U u l rec now m = (Inr h, m')"
    "sm_inv wf_loc inv thread_of m'" "sm_handle m' (tl_session_key l) (tl_thread_id l) = Some h"
    "sm_resolved session_of m' l" "sm_extends m m'"
    "thread_of (sm_store m') = thread_of (sm_store m)" "dedup_of (sm_store m') = dedup_of (sm_store m)"
    "sm_cells m' ! h =
       (case sm_handle m (tl_session_key l) (tl_thread_id l) of
          Some h0 \<Rightarrow> sm_cells m ! h0
        | None \<Rightarrow> (case thread_of (sm_store m) (tl_thread_id l) of
             Some t \<Rightarrow> rebind_locator (locator_from U l) t | None \<Rightarrow> thread_new (locator_from U l) now))"
proof (cases "sm_handle m (tl_session_key l) (tl_thread_id l)")
  case (Some h)
  then show ?thesis
    using that [of h m] assms by (simp add: ensure_thread_handle_def sm_handle_cached)
next
  case None
  let ?k = "tl_session_key l" and ?i = "tl_thread_id l"
  have inv0: "inv (sm_store m)" using inv by (simp add: sm_inv_def)
  define q where "q = (case rec of Some r \<Rightarrow> (Inr r, sm_store m)
     | None \<Rightarrow> so_resolve_or_create_session ops u ?k now (sm_store m))"
  obtain r s where q: "q = (Inr r, s)" and s: "inv s" "thread_of s = thread_of (sm_store m)"
    "dedup_of s = dedup_of (sm_store m)" "map_option ss_id (session_of s ?k) = Some (tl_session_id l)"
  proof (cases rec)
    case None
    then show ?thesis
      using resolve_present [OF inv0 res [unfolded sm_resolved_def], of u now] that res
      by (metis (no_types, lifting) q_def option.simps(4) sm_resolved_def)
  qed (use that [of _ "sm_store m"] inv0 res in \<open>auto simp: q_def sm_resolved_def\<close>)
  obtain r' where r': "session_of s ?k = Some r'" "ss_id r' = tl_session_id l" using s(4) by auto
  define t where "t = (case thread_of (sm_store m) ?i of
     Some t \<Rightarrow> rebind_locator (locator_from U l) t | None \<Rightarrow> thread_new (locator_from U l) now)"
  have fetch: "fetch_thread_context_from_store_only ops U l s
      = Inr (map_option (rebind_locator (locator_from U l)) (thread_of (sm_store m) ?i))"
    using load_thread [OF s(1) l r'] s(2) by (auto simp: fetch_thread_context_from_store_only_def)
  let ?m1 = "m\<lparr>sm_store := s\<rparr>"
  obtain h m' where cache: "cache_thread_handle_if_absent ?k r ?i (length (sm_cells m)) now (snd (new_cell t ?m1)) = (h, m')"
    by fastforce
  note c = cache_if_absent_sel [OF cache]
  have h: "h = length (sm_cells m)" and m': "sm_handle m' = (sm_handle m)(?k := (sm_handle m ?k)(?i \<mapsto> h))"
    "sm_cells m' = sm_cells m @ [t]" "sm_store m' = s"
    using c None by simp_all
  have "ensure_thread_handle ops U u l rec now m = (Inr h, m')"
    using None q cache fetch
    by (simp add: ensure_thread_handle_def sm_handle_cached q_def [symmetric] Let_def new_cell_def t_def
        split: option.splits)
  moreover have "sm_inv wf_loc inv thread_of m'"
  proof (rule sm_inv_new_handle [where m = ?m1 and k = ?k and i = ?i and t = t])
    show "sm_inv wf_loc inv thread_of ?m1" by (rule sm_inv_store_same [OF inv s(1,2)])
    show "th_revision t = stored_revision (thread_of (sm_store ?m1)) ?i"
      by (simp add: t_def s(2) stored_revision_def rebind_locator_def thread_new_def split: option.splits)
  qed (use None l m' h in simp_all)
  moreover have "sm_extends m m'" using None by (auto simp: sm_extends_def m'(1))
  ultimately show ?thesis
    using that [of h m'] s r' m' h None by (simp add: sm_resolved_def t_def)
qed

text \<open>What a write through the handle of a resolved locator does, whatever operation makes it.\<close>

lemma save_and_write_ok:
  assumes inv: "sm_inv wf_loc inv thread_of m" and l: "wf_loc l" and res: "sm_resolved session_of m l"
    and h: "sm_handle m (tl_session_key l) (tl_thread_id l) = Some h"
    and rev: "th_revision t = th_revision (sm_cells m ! h)" and rng: "revision_in_range (th_revision t)"
    and d: "\<forall>x. d = Some x \<longrightarrow> dr_thread_id x = tl_thread_id l"
  obtains p m' where "save_thread_snapshot ops U u l t now d m = (Inr p, m')"
    "p = set_revision (th_revision t + 1) (rebind_locator (locator_from U l) t)"
    "sm_handle m' = sm_handle m" "sm_cells m' = sm_cells m" "sm_resolved session_of m' l"
    "thread_of (sm_store m') = (thread_of (sm_store m))(tl_thread_id l \<mapsto> set_revision (th_revision t + 1)
         (view (rebind_locator (locator_from U l) t)))"
    "dedup_of (sm_store m') = upd_dedup d (dedup_of (sm_store m))"
    "sm_inv wf_loc inv thread_of (write_cell h p m')"
proof -
  have inv0: "inv (sm_store m)" using inv by (simp add: sm_inv_def)
  have "th_revision t = stored_revision (thread_of (sm_store m)) (tl_thread_id l)"
    using inv h rev by (simp add: sm_inv_def)
  then obtain s' where s': "save_thread_snapshot ops U u l t now d m =
       (Inr (set_revision (th_revision t + 1) (rebind_locator (locator_from U l) t)), m\<lparr>sm_store := s'\<rparr>)"
    "inv s'" "sm_resolved session_of (m\<lparr>sm_store := s'\<rparr>) l"
    "thread_of s' = (thread_of (sm_store m))(tl_thread_id l \<mapsto> set_revision (th_revision t + 1)
         (view (rebind_locator (locator_from U l) t)))"
    "dedup_of s' = upd_dedup d (dedup_of (sm_store m))"
    using save_thread_snapshot_ok [OF inv0 l res rng d, of u now] by blast
  let ?p = "set_revision (th_revision t + 1) (rebind_locator (locator_from U l) t)"
  have "sm_inv wf_loc inv thread_of (write_cell h ?p (m\<lparr>sm_store := s'\<rparr>))"
    by (rule sm_inv_write [where m = m and k = "tl_session_key l" and i = "tl_thread_id l" and s = s' and t = ?p, OF inv h])
      (use s' handle_key_unique [OF inv l] in
        \<open>auto simp: stored_revision_def set_revision_def rebind_locator_def\<close>)
  then show ?thesis using that s' by simp
qed

end

section \<open>Resolving a message\<close>

text \<open>What the first message of a session needs: well-formed locators and a session id not in use.\<close>

definition incoming_ok ::
    "(thread_locator \<Rightarrow> bool) \<Rightarrow> ('s \<Rightarrow> session_key \<rightharpoonup> stored_session_record) \<Rightarrow> uuid_lib \<Rightarrow> uuid
     \<Rightarrow> incoming_message \<Rightarrow> 's session_manager \<Rightarrow> bool" where
  "incoming_ok wl session_of U u incoming m \<longleftrightarrow>
     (\<forall>i. wl (thread_locator_new i incoming (resolved_external_thread_id incoming)
               (derive_thread_id U (session_key_from_incoming incoming) (resolved_external_thread_id incoming))))
     \<and> (session_of (sm_store m) (session_key_from_incoming incoming) = None \<longrightarrow>
          (\<forall>k r. session_of (sm_store m) k = Some r \<longrightarrow> ss_id r \<noteq> u))"

lemma sync_extends: "sm_extends m (sync_thread_context_to_cache k l t now m)"
  by (auto simp: sm_extends_def sync_sel split: option.splits)

context session_manager_laws
begin

lemma sm_inv_touch: "sm_inv wf_loc inv thread_of m \<Longrightarrow> sm_inv wf_loc inv thread_of (touch_cached_session k l now m)"
  by (erule sm_inv_cong) simp_all

lemma dedup_record_of_thread: "\<forall>x. dedup_record_of l ft = Some x \<longrightarrow> dr_thread_id x = tl_thread_id l"
  by (auto simp: dedup_record_of_def)

lemma resolve_step_inv:
  assumes inv: "sm_inv wf_loc inv thread_of m" and ok: "incoming_ok wf_loc session_of U u incoming m"
  obtains l m' where "load_or_create_thread ops U u incoming m = (Inr l, m')"
    "wf_loc l" "sm_inv wf_loc inv thread_of m'" "sm_resolved session_of m' l" "sm_extends m m'"
    "tl_session_key l = session_key_from_incoming incoming"
    "tl_thread_id l = derive_thread_id U (session_key_from_incoming incoming) (resolved_external_thread_id incoming)"
    "sm_handle m' (tl_session_key l) (tl_thread_id l) \<noteq> None"
    "thread_of (sm_store m') = thread_of (sm_store m)" "dedup_of (sm_store m') = dedup_of (sm_store m)"
proof -
  let ?k = "session_key_from_incoming incoming" and ?x = "resolved_external_thread_id incoming"
  let ?now = "im_received_at incoming"
  have inv0: "inv (sm_store m)" using inv by (simp add: sm_inv_def)
  obtain r s where s: "so_resolve_or_create_session ops u ?k ?now (sm_store m) = (Inr r, s)" "inv s"
    "session_of s = (session_of (sm_store m))(?k \<mapsto> r)" "thread_of s = thread_of (sm_store m)"
    "dedup_of s = dedup_of (sm_store m)"
    using resolve [OF inv0, of ?k u ?now] ok unfolding incoming_ok_def by blast
  let ?l = "thread_locator_new (ss_id r) incoming ?x (derive_thread_id U ?k ?x)"
  let ?m = "m\<lparr>sm_store := s\<rparr>"
  have l: "wf_loc ?l" using ok by (simp add: incoming_ok_def)
  have key: "tl_session_key ?l = ?k" "tl_thread_id ?l = derive_thread_id U ?k ?x" "tl_session_id ?l = ss_id r"
    by (simp_all add: thread_locator_new_def tl_session_key_def session_key_from_incoming_def)
  have inv1: "sm_inv wf_loc inv thread_of ?m" by (rule sm_inv_store_same [OF inv s(2,4)])
  have res: "sm_resolved session_of ?m ?l" by (simp add: sm_resolved_def s(3) key)
  obtain h m1 where e: "ensure_thread_handle ops U u ?l (Some r) ?now ?m = (Inr h, m1)"
    "sm_inv wf_loc inv thread_of m1" "sm_handle m1 (tl_session_key ?l) (tl_thread_id ?l) = Some h"
    "sm_resolved session_of m1 ?l" "sm_extends ?m m1"
    "thread_of (sm_store m1) = thread_of s" "dedup_of (sm_store m1) = dedup_of s"
    by (rule ensure_thread_handle_ok [OF inv1 l res, of u "Some r" ?now], rule that) simp_all
  obtain se where se: "sm_sessions m1 ?k = Some se"
    using e(3) by (auto simp: sm_handle_def key split: option.splits)
  let ?m2 = "m1\<lparr>sm_sessions := (sm_sessions m1)(?k \<mapsto> se\<lparr>cs_updated_at := ?now\<rparr>)\<rparr>"
  have h2: "sm_handle ?m2 = sm_handle m1" using se by (auto simp: sm_handle_def fun_eq_iff)
  have "sm_inv wf_loc inv thread_of ?m2" by (rule sm_inv_cong [OF e(2) h2]) simp_all
  moreover have "load_or_create_thread ops U u incoming m = (Inr ?l, ?m2)"
    by (simp add: load_or_create_thread_def s(1) e(1) se Let_def)
  moreover have "sm_resolved session_of ?m2 ?l" using e(4) by (simp add: sm_resolved_def)
  moreover have "sm_extends m ?m2" using e(5) by (simp add: sm_extends_def h2)
  ultimately show ?thesis using that [of ?l ?m2] l key e s(4,5) h2 by simp
qed

lemma sm_inv_new: "inv s \<Longrightarrow> sm_inv wf_loc inv thread_of (session_manager_new s)"
  by (simp add: sm_inv_def session_manager_new_def sm_handle_def)

end

lemma wf_locator_same_key:
  "thread_ids_separate U K \<Longrightarrow> wf_locator U K l \<Longrightarrow> wf_locator U K l' \<Longrightarrow> tl_thread_id l = tl_thread_id l'
   \<Longrightarrow> tl_session_key l = tl_session_key l'"
  by (rule wf_locator_thread_id_inject(1))

interpretation mem_manager: session_manager_laws "memory_session_store U" U "wf_locator U K"
  "memory_store_inv U K" ms_sessions ms_threads ms_external_messages "\<lambda>t. t"
  for U K
  by unfold_locales (auto simp: memory_store_inv_def intro: wf_locator_same_key)

interpretation sqlite_manager: session_manager_laws "sqlite_session_store U" U "wf_locator U K"
  "sqlite_inv U K" "sqlite_session_of U" "sqlite_thread_of U" "sqlite_dedup_of U" sqlite_view
  for U K
  by unfold_locales (auto simp: sqlite_inv_def intro: wf_locator_same_key)

section \<open>What the manager guarantees\<close>

context session_manager_laws
begin

text \<open>A commit, then a restart: a new manager over the same store sees the committed thread.\<close>

lemma commit_restart_ok:
  assumes inv: "sm_inv wf_loc inv thread_of m" and l: "wf_loc l" and res: "sm_resolved session_of m l"
    and h: "sm_handle m (tl_session_key l) (tl_thread_id l) = Some h"
    and snap: "th_revision (ft_snapshot ft) = th_revision (sm_cells m ! h)"
    and rng: "revision_in_range (th_revision (ft_snapshot ft))"
  obtains m1 h2 m2 where "commit_finalized_turn_locked ops U u l h ft m = (Inr (ft_turn_id ft), m1)"
    "sm_inv wf_loc inv thread_of m1"
    "lock_thread_context ops U u2 l now (session_manager_new (sm_store m1)) = (Inr h2, m2)"
    "messages (sm_cells m2 ! h2) = messages (ft_snapshot ft)"
    "th_state (sm_cells m2 ! h2) = th_state (ft_snapshot ft)"
    "th_revision (sm_cells m2 ! h2) = th_revision (ft_snapshot ft) + 1"
    "\<And>x. ft_external_message_id ft = Some x \<Longrightarrow> is_external_message_processed ops l x m2 = Inr True"
proof -
  let ?t = "ft_snapshot ft" and ?now = "ft_completed_at ft"
  obtain p m1 where w: "save_thread_snapshot ops U u l ?t ?now (dedup_record_of l ft) m = (Inr p, m1)"
    "sm_resolved session_of m1 l"
    "thread_of (sm_store m1) = (thread_of (sm_store m))(tl_thread_id l \<mapsto> set_revision (th_revision ?t + 1)
         (view (rebind_locator (locator_from U l) ?t)))"
    "dedup_of (sm_store m1) = upd_dedup (dedup_record_of l ft) (dedup_of (sm_store m))"
    "sm_inv wf_loc inv thread_of (write_cell h p m1)"
    by (rule save_and_write_ok [OF inv l res h snap rng dedup_record_of_thread, of u ?now ft], rule that)
  let ?m1 = "touch_cached_session (tl_session_key l) l ?now (write_cell h p m1)"
  have inv1: "sm_inv wf_loc inv thread_of ?m1" by (rule sm_inv_touch [OF w(5)])
  have commit: "commit_finalized_turn_locked ops U u l h ft m = (Inr (ft_turn_id ft), ?m1)"
    by (simp add: commit_finalized_turn_locked_def w(1))
  have inv2: "sm_inv wf_loc inv thread_of (session_manager_new (sm_store ?m1))"
    using inv1 by (intro sm_inv_new) (simp add: sm_inv_def)
  have res2: "sm_resolved session_of (session_manager_new (sm_store ?m1)) l"
    using w(2) by (simp add: sm_resolved_def session_manager_new_def)
  have none: "sm_handle (session_manager_new s) k i = None" for s :: 'a and k i
    by (simp add: sm_handle_def session_manager_new_def)
  have st0: "sm_store (session_manager_new s) = s" for s :: 'a
    by (simp add: session_manager_new_def)
  let ?m0 = "session_manager_new (sm_store ?m1)"
  obtain h2 m2 where e0: "ensure_thread_handle ops U u2 l None now ?m0 = (Inr h2, m2)"
    "sm_inv wf_loc inv thread_of m2" "dedup_of (sm_store m2) = dedup_of (sm_store ?m0)"
    "sm_cells m2 ! h2 = (case sm_handle ?m0 (tl_session_key l) (tl_thread_id l) of
       Some h0 \<Rightarrow> sm_cells ?m0 ! h0
     | None \<Rightarrow> (case thread_of (sm_store ?m0) (tl_thread_id l) of
          Some t \<Rightarrow> rebind_locator (locator_from U l) t | None \<Rightarrow> thread_new (locator_from U l) now))"
    by (rule ensure_thread_handle_ok [OF inv2 l res2, of u2 None now], rule that)
  have e: "dedup_of (sm_store m2) = dedup_of (sm_store m1)"
    "sm_cells m2 ! h2 = rebind_locator (locator_from U l)
       (set_revision (th_revision ?t + 1) (view (rebind_locator (locator_from U l) ?t)))"
    using e0(3,4) by (simp_all add: none st0 w(3))
  have inv3: "inv (sm_store m2)" using e0(2) by (simp add: sm_inv_def)
  have "is_external_message_processed ops l x m2 = Inr True" if "ft_external_message_id ft = Some x" for x
    using that by (simp add: is_external_message_processed_def load_dedup [OF inv3] e(1) w(4)
        upd_dedup_def dedup_record_of_def)
  then show ?thesis
    by (intro that [OF commit inv1, of h2 m2])
      (simp_all add: lock_thread_context_def e0(1) [simplified] e(2) rebind_locator_def set_revision_def view_sel)
qed

end

section \<open>Properties\<close>

definition demo_incoming :: incoming_message where
  "demo_incoming =
     \<lparr>im_id = 1, im_external_message_id = Some (str ''m1''), im_channel = str ''feishu'',
      im_user_id = str ''u'', im_user_name = None, im_content = str ''hello'',
      im_external_thread_id = Some (str ''t''), im_received_at = 1, im_metadata = JObj [],
      im_attachments = [], im_reply_target = \<lparr>rt_receive_id = [], rt_receive_id_type = []\<rparr>\<rparr>"

abbreviation demo_sqlite :: "sqlite_db session_store" where
  "demo_sqlite \<equiv> sqlite_session_store demo_uuid_lib"

lemma demo_incoming_locator:
  "thread_locator_new i demo_incoming (resolved_external_thread_id demo_incoming)
     (derive_thread_id U (session_key_from_incoming demo_incoming) (resolved_external_thread_id demo_incoming))
   = \<lparr>tl_session_id = i, tl_channel = str ''feishu'', tl_user_id = str ''u'',
      tl_external_thread_id = str ''t'',
      tl_thread_id = derive_thread_id U \<lparr>sk_channel = str ''feishu'', sk_user_id = str ''u''\<rparr> (str ''t'')\<rparr>"
  by (simp add: thread_locator_new_def demo_incoming_def resolved_external_thread_id_def
      session_key_from_incoming_def trim_eq_Nil_iff str_def is_whitespace_def)

lemma demo_incoming_ok:
  "incoming_ok (wf_locator demo_uuid_lib demo_keys) (sqlite_session_of demo_uuid_lib) demo_uuid_lib 7
     demo_incoming (session_manager_new sqlite_empty)"
proof -
  have "sqlite_session_of demo_uuid_lib sqlite_empty k = None" for k
    by (simp add: sqlite_session_of_def sql_find_session_def sqlite_empty_def)
  then show ?thesis
    using demo_store_locator_wf
    unfolding incoming_ok_def demo_incoming_locator
    by (simp add: session_manager_new_def wf_locator_def tl_thread_key_def demo_store_locator_def
        tl_session_key_def)
qed

lemma demo_sqlite_empty_inv: "sqlite_inv demo_uuid_lib demo_keys sqlite_empty"
  by (rule sqlite_inv_empty [OF demo_uuid_lib_ok demo_keys_separate])

lemma demo_managed:
  obtains l m h where "load_or_create_thread demo_sqlite demo_uuid_lib 7 demo_incoming
      (session_manager_new sqlite_empty) = (Inr l, m)"
    "wf_locator demo_uuid_lib demo_keys l"
    "sm_inv (wf_locator demo_uuid_lib demo_keys) (sqlite_inv demo_uuid_lib demo_keys)
       (sqlite_thread_of demo_uuid_lib) m"
    "sm_resolved (sqlite_session_of demo_uuid_lib) m l"
    "stored_revision (sqlite_thread_of demo_uuid_lib (sm_store m)) (tl_thread_id l) = 0"
    "sm_handle m (tl_session_key l) (tl_thread_id l) = Some h"
proof -
  obtain l m where r: "load_or_create_thread demo_sqlite demo_uuid_lib 7 demo_incoming
      (session_manager_new sqlite_empty) = (Inr l, m)"
    "wf_locator demo_uuid_lib demo_keys l"
    "sm_inv (wf_locator demo_uuid_lib demo_keys) (sqlite_inv demo_uuid_lib demo_keys)
       (sqlite_thread_of demo_uuid_lib) m"
    "sm_resolved (sqlite_session_of demo_uuid_lib) m l"
    "sm_handle m (tl_session_key l) (tl_thread_id l) \<noteq> None"
    "sqlite_thread_of demo_uuid_lib (sm_store m)
       = sqlite_thread_of demo_uuid_lib (sm_store (session_manager_new sqlite_empty))"
    by (rule sqlite_manager.resolve_step_inv
        [OF sqlite_manager.sm_inv_new [OF demo_sqlite_empty_inv] demo_incoming_ok], rule that)
  have "stored_revision (sqlite_thread_of demo_uuid_lib (sm_store m)) (tl_thread_id l) = 0"
    unfolding r(6)
    by (simp add: session_manager_new_def stored_revision_def sqlite_thread_of_def sql_find_thread_def
        sqlite_empty_def)
  then show ?thesis using that r by auto
qed

text \<open>
  C14: a committed turn survives a restart. While a cached thread is at the revision of the store,
  committing a finalized turn of that revision under the lock succeeds and
  returns its id; a new manager over the same database then locks a thread with the messages and the
  state of the turn's snapshot, and reports the turn's external message as already processed.
\<close>
theorem committed_turn_survives_restart:
  assumes "sm_inv (wf_locator U K) (sqlite_inv U K) (sqlite_thread_of U) m" and "wf_locator U K l"
    and "sm_resolved (sqlite_session_of U) m l" and "cached_thread_handle l m = Some h"
    and "th_revision (ft_snapshot ft) = th_revision (sm_cells m ! h)"
    and "revision_in_range (th_revision (ft_snapshot ft))"
  obtains m1 h2 m2 where
    "commit_finalized_turn_locked (sqlite_session_store U) U u l h ft m = (Inr (ft_turn_id ft), m1)"
    and "lock_thread_context (sqlite_session_store U) U u2 l now (session_manager_new (sm_store m1)) = (Inr h2, m2)"
    and "messages (sm_cells m2 ! h2) = messages (ft_snapshot ft)"
    and "th_state (sm_cells m2 ! h2) = th_state (ft_snapshot ft)"
    and "\<And>x. ft_external_message_id ft = Some x \<Longrightarrow>
           is_external_message_processed (sqlite_session_store U) l x m2 = Inr True"
proof -
  have h: "sm_handle m (tl_session_key l) (tl_thread_id l) = Some h"
    using assms(4) by (simp add: sm_handle_cached)
  show ?thesis
    by (rule sqlite_manager.commit_restart_ok [OF assms(1-3) h assms(5,6), of u u2 now])
      (rule that; assumption?)
qed

definition demo_finalized_turn :: "thread \<Rightarrow> thread_finalized_turn" where
  "demo_finalized_turn t =
     \<lparr>ft_turn_id = 9, ft_external_message_id = Some (str ''m1''), ft_started_at = 1,
      ft_completed_at = 2, ft_reply = str ''hi'', ft_status = Succeeded, ft_events = [],
      ft_snapshot = replace_messages [demo_user_message] 2 t\<rparr>"

theorem committed_turn_survives_restart_witness:
  "\<exists>l db h2 m2. lock_thread_context demo_sqlite demo_uuid_lib 8 l 5 (session_manager_new db) = (Inr h2, m2)
     \<and> messages (sm_cells m2 ! h2) = [demo_user_message]
     \<and> is_external_message_processed demo_sqlite l (str ''m1'') m2 = Inr True"
proof -
  obtain l m h where m: "wf_locator demo_uuid_lib demo_keys l"
    "sm_inv (wf_locator demo_uuid_lib demo_keys) (sqlite_inv demo_uuid_lib demo_keys)
       (sqlite_thread_of demo_uuid_lib) m"
    "sm_resolved (sqlite_session_of demo_uuid_lib) m l"
    "stored_revision (sqlite_thread_of demo_uuid_lib (sm_store m)) (tl_thread_id l) = 0"
    "sm_handle m (tl_session_key l) (tl_thread_id l) = Some h"
    by (rule demo_managed, rule that)
  let ?ft = "demo_finalized_turn (sm_cells m ! h)"
  have r: "th_revision (sm_cells m ! h) = 0" using m(2,4,5) by (simp add: sm_inv_def)
  have ft: "th_revision (ft_snapshot ?ft) = th_revision (sm_cells m ! h)"
    "messages (ft_snapshot ?ft) = [demo_user_message]" "ft_external_message_id ?ft = Some (str ''m1'')"
    by (simp_all add: demo_finalized_turn_def replace_messages_def)
  have rng: "revision_in_range (th_revision (ft_snapshot ?ft))" by (simp add: ft r revision_in_range_def)
  have h: "cached_thread_handle l m = Some h" using m(5) by (simp add: sm_handle_cached)
  obtain m1 h2 m2 where r:
    "commit_finalized_turn_locked demo_sqlite demo_uuid_lib 8 l h ?ft m = (Inr (ft_turn_id ?ft), m1)"
    "lock_thread_context demo_sqlite demo_uuid_lib 8 l 5 (session_manager_new (sm_store m1)) = (Inr h2, m2)"
    "messages (sm_cells m2 ! h2) = messages (ft_snapshot ?ft)"
    "\<And>x. ft_external_message_id ?ft = Some x \<Longrightarrow> is_external_message_processed demo_sqlite l x m2 = Inr True"
    by (rule committed_turn_survives_restart [OF m(2,1,3) h ft(1) rng, of 8 8 5], rule that)
  have "is_external_message_processed demo_sqlite l (str ''m1'') m2 = Inr True" by (rule r(4) [OF ft(3)])
  then show ?thesis using r(2) r(3) [unfolded ft(2)] by blast
qed

text \<open>
  Two tasks that miss the cache at the same time end with one lock. Whatever handle the first one
  was given, after any further extension of the cache the second one's own cell is dropped and it is
  given the handle of the first.
\<close>
theorem concurrent_cache_miss_shares_handle:
  assumes "cache_thread_handle_if_absent k r1 i h1 now1 m = (h, m1)" and "sm_extends m1 m2"
  shows "fst (cache_thread_handle_if_absent k r2 i h2 now2 m2) = h
         \<and> sm_handle (snd (cache_thread_handle_if_absent k r2 i h2 now2 m2)) k i = Some h"
proof -
  have "sm_handle m1 k i = Some h"
    by (simp add: cache_if_absent_sel(1,2) [OF assms(1)] split: option.splits)
  then have "sm_handle m2 k i = Some h" using assms(2) by (simp add: sm_extends_def)
  then show ?thesis
    using cache_if_absent_sel(1,2) [OF surjective_pairing, of k r2 i h2 now2 m2] by simp
qed

theorem concurrent_cache_miss_shares_handle_witness:
  "let r = \<lparr>ss_id = 7, ss_key = tl_session_key demo_store_locator, ss_created_at = 0, ss_updated_at = 0\<rparr>;
       k = tl_session_key demo_store_locator; m = \<lparr>sm_sessions = Map.empty, sm_cells = [], sm_store = ()\<rparr> in
   fst (cache_thread_handle_if_absent k r 3 1 2 (snd (cache_thread_handle_if_absent k r 3 0 1 m))) = 0"
proof -
  define m :: "unit session_manager" where "m = \<lparr>sm_sessions = Map.empty, sm_cells = [], sm_store = ()\<rparr>"
  define r where "r = \<lparr>ss_id = 7, ss_key = tl_session_key demo_store_locator, ss_created_at = 0, ss_updated_at = 0\<rparr>"
  let ?k = "tl_session_key demo_store_locator"
  obtain m1 where m1: "cache_thread_handle_if_absent ?k r 3 0 1 m = (0, m1)"
    by (simp add: cache_thread_handle_if_absent_def m_def cached_session_from_record_def Let_def)
  show ?thesis
    using concurrent_cache_miss_shares_handle [OF m1 sm_extends_refl, of r 1 2]
    by (simp add: Let_def m1 flip: m_def r_def)
qed

end
