(* ===== verification/OJ_Session_Tasks.thy ===== *)
theory OJ_Session_Tasks
  imports OJ_Session_Manager
begin

text \<open>
  The session manager of \<open>src/session.rs\<close> under concurrent tasks. The operations of
  \<open>OJ_Session_Manager\<close> are cut where the code waits, for the store or for the lock of a thread, and the
  pieces of all tasks interleave freely. A task that holds a guard (\<open>Holding\<close>, \<open>Persisting\<close>) keeps the
  others off the cell; the router (\<open>src/router.rs\<close>) copies a thread, lets a command change the copy
  and saves it without the lock, and only then waits for the lock to write it back to the cell
  (\<open>store_thread_context\<close>). The session row is resolved together with the access that follows it, the
  other operations of the store are transactions.
\<close>

section \<open>Tasks\<close>

datatype sm_task =
    Idle
  | Wanting thread_locator "stored_session_record option"
  | Fetched thread_locator stored_session_record thread
  | Waiting thread_locator handle
  | Holding thread_locator handle
  | Persisting thread_locator handle thread
  | Copied thread_locator thread
  | Unsynced thread_locator thread time

text \<open>The manager is shared; a task can only use a locator some \<open>load_or_create_thread\<close> has made.\<close>

record 's sm_system =
  sy_manager :: "'s session_manager"
  sy_locators :: "thread_locator set"
  sy_tasks :: "nat \<Rightarrow> sm_task"

definition ROUTER :: nat where
  "ROUTER = 0"

definition tasks_start :: "'s \<Rightarrow> 's sm_system" where
  "tasks_start store =
     \<lparr>sy_manager = session_manager_new store, sy_locators = {}, sy_tasks = (\<lambda>_. Idle)\<rparr>"

fun holds_cell :: "handle \<Rightarrow> sm_task \<Rightarrow> bool" where
  "holds_cell h (Holding l h') = (h' = h)"
| "holds_cell h (Persisting l h' p) = (h' = h)"
| "holds_cell h _ = False"

abbreviation put_task :: "nat \<Rightarrow> sm_task \<Rightarrow> 's session_manager \<Rightarrow> 's sm_system \<Rightarrow> 's sm_system" where
  "put_task j x m s \<equiv> s\<lparr>sy_manager := m, sy_tasks := (sy_tasks s)(j := x)\<rparr>"

text \<open>The locator \<open>load_or_create_thread\<close> makes, and the first half of a miss in \<open>ensure_thread_handle\<close>.\<close>

definition incoming_locator :: "uuid_lib \<Rightarrow> stored_session_record \<Rightarrow> incoming_message \<Rightarrow> thread_locator" where
  "incoming_locator U r incoming =
     (let x = resolved_external_thread_id incoming in
      thread_locator_new (ss_id r) incoming x (derive_thread_id U (session_key_from_incoming incoming) x))"

definition fetch_missing ::
    "'s session_store \<Rightarrow> uuid_lib \<Rightarrow> uuid \<Rightarrow> thread_locator \<Rightarrow> stored_session_record option \<Rightarrow> time \<Rightarrow> 's
     \<Rightarrow> (session_store_error + stored_session_record \<times> thread) \<times> 's" where
  "fetch_missing ops U fresh l session_record now st =
     (case (case session_record of
              Some r \<Rightarrow> (Inr r, st)
            | None \<Rightarrow> so_resolve_or_create_session ops fresh (tl_session_key l) now st) of
        (Inl e, s) \<Rightarrow> (Inl e, s)
      | (Inr r, s) \<Rightarrow>
          (case fetch_thread_context_from_store_only ops U l s of
             Inl e \<Rightarrow> (Inl e, s)
           | Inr persisted_thread \<Rightarrow>
               (Inr (r, (case persisted_thread of
                           Some t \<Rightarrow> t | None \<Rightarrow> thread_new (locator_from U l) now)), s)))"

text \<open>The second half: the new cell, unless another task has cached the thread meanwhile.\<close>

definition cache_fetched ::
    "thread_locator \<Rightarrow> stored_session_record \<Rightarrow> thread \<Rightarrow> time \<Rightarrow> 's session_manager
     \<Rightarrow> handle \<times> 's session_manager" where
  "cache_fetched l r t now m =
     (let (h, m1) = new_cell t m in
      cache_thread_handle_if_absent (tl_session_key l) r (tl_thread_id l) h now m1)"

definition unheld :: "'s sm_system \<Rightarrow> handle \<Rightarrow> bool" where
  "unheld s h \<longleftrightarrow> (\<forall>j. \<not> holds_cell h (sy_tasks s j))"

section \<open>Steps\<close>

text \<open>
  A step is one task going on: resolving the session of a message, starting to look a thread up, a
  hit or a miss of the cache, the two halves of a miss, returning from \<open>load_or_create_thread\<close> without
  the lock, taking and releasing it, changing the
  thread under the lock, saving it or a snapshot of it under the lock and writing the result back,
  copying it, saving a changed copy without the lock and writing that back, and marking a
  message. Owners of guards and commands leave the revision of a thread alone, and no thread is
  saved \<open>2 ^ 63 - 1\<close> times.
\<close>

inductive task_step ::
    "'s session_store \<Rightarrow> uuid_lib \<Rightarrow> (thread_locator \<Rightarrow> bool)
     \<Rightarrow> ('s \<Rightarrow> session_key \<rightharpoonup> stored_session_record) \<Rightarrow> ('s \<Rightarrow> uuid \<rightharpoonup> thread)
     \<Rightarrow> 's sm_system \<Rightarrow> 's sm_system \<Rightarrow> bool"
  for ops U wl so th where
  resolving:
    "task_step ops U wl so th s (put_task j (Wanting l (Some r)) (sy_manager s\<lparr>sm_store := st\<rparr>)
       (s\<lparr>sy_locators := insert l (sy_locators s)\<rparr>))"
    if "sy_tasks s j = Idle" "incoming_ok wl so U u incoming (sy_manager s)"
      "so_resolve_or_create_session ops u (session_key_from_incoming incoming) (im_received_at incoming)
         (sm_store (sy_manager s)) = (Inr r, st)"
      "l = incoming_locator U r incoming"
| starting: "task_step ops U wl so th s (put_task j (Wanting l None) (sy_manager s) s)"
    if "sy_tasks s j = Idle" "l \<in> sy_locators s"
| hit: "task_step ops U wl so th s (put_task j (Waiting l h) (sy_manager s) s)"
    if "sy_tasks s j = Wanting l r" "cached_thread_handle l (sy_manager s) = Some h"
| missed:
    "task_step ops U wl so th s (put_task j (case q of Inr (r', t) \<Rightarrow> Fetched l r' t | Inl _ \<Rightarrow> Idle)
       (sy_manager s\<lparr>sm_store := st\<rparr>) s)"
    if "sy_tasks s j = Wanting l r" "cached_thread_handle l (sy_manager s) = None"
      "fetch_missing ops U u l r now (sm_store (sy_manager s)) = (q, st)"
| caching: "task_step ops U wl so th s (put_task j (Waiting l h) m s)"
    if "sy_tasks s j = Fetched l r t" "cache_fetched l r t now (sy_manager s) = (h, m)"
| returning: "task_step ops U wl so th s (put_task j Idle (touch_cached_session (tl_session_key l) l now (sy_manager s)) s)"
    if "sy_tasks s j = Waiting l h"
| locking: "task_step ops U wl so th s (put_task j (Holding l h) (sy_manager s) s)"
    if "sy_tasks s j = Waiting l h" "unheld s h"
| changing: "task_step ops U wl so th s (put_task j (Holding l h) (write_cell h t (sy_manager s)) s)"
    if "sy_tasks s j = Holding l h" "th_revision t = th_revision (sm_cells (sy_manager s) ! h)"
| persisting:
    "task_step ops U wl so th s (put_task j (case q of Inr p \<Rightarrow> Persisting l h p | Inl _ \<Rightarrow> Holding l h) m s)"
    if "sy_tasks s j = Holding l h" "th_revision t = th_revision (sm_cells (sy_manager s) ! h)"
      "revision_in_range (th_revision t)" "\<forall>x. d = Some x \<longrightarrow> dr_thread_id x = tl_thread_id l"
      "save_thread_snapshot ops U u l t now d (sy_manager s) = (q, m)"
| writing_back:
    "task_step ops U wl so th s (put_task j (Holding l h)
       (touch_cached_session (tl_session_key l) l now (write_cell h p (sy_manager s))) s)"
    if "sy_tasks s j = Persisting l h p"
| releasing: "task_step ops U wl so th s (put_task j Idle (sy_manager s) s)" if "sy_tasks s j = Holding l h"
| copying: "task_step ops U wl so th s (put_task ROUTER (Copied l (sm_cells (sy_manager s) ! h)) (sy_manager s) s)"
    if "sy_tasks s ROUTER = Holding l h"
| storing:
    "task_step ops U wl so th s (put_task ROUTER (case q of Inr p \<Rightarrow> Unsynced l p now | Inl _ \<Rightarrow> Idle) m s)"
    if "sy_tasks s ROUTER = Copied l t" "th_revision t' = th_revision t" "revision_in_range (th_revision t')"
      "save_thread_snapshot ops U u l t' now None (sy_manager s) = (q, m)"
| syncing:
    "task_step ops U wl so th s (put_task ROUTER Idle
       (sync_thread_context_to_cache (tl_session_key l) l p now (sy_manager s)) s)"
    if "sy_tasks s ROUTER = Unsynced l p now"
      "\<forall>h. cached_thread_handle l (sy_manager s) = Some h \<longrightarrow> unheld s h"
| marking: "task_step ops U wl so th s (put_task j Idle m s)"
    if "sy_tasks s j = Idle" "l \<in> sy_locators s" "th (sm_store (sy_manager s)) (tl_thread_id l) \<noteq> None"
      "mark_external_message_processed ops l x i now (sy_manager s) = (q, m)"

text \<open>The revision the store holds, and that the router has saved the thread and not written it back.\<close>

definition unwritten_save :: "'s sm_system \<Rightarrow> uuid \<Rightarrow> bool" where
  "unwritten_save s i \<longleftrightarrow> (\<exists>l p now. sy_tasks s ROUTER = Unsynced l p now \<and> tl_thread_id l = i)"

definition being_persisted :: "'s sm_system \<Rightarrow> handle \<Rightarrow> bool" where
  "being_persisted s h \<longleftrightarrow> (\<exists>j l p. sy_tasks s j = Persisting l h p)"

section \<open>The pieces are the operations\<close>

lemma ensure_thread_handle_pieces:
  "ensure_thread_handle ops U u l r now m =
     (case cached_thread_handle l m of
        Some h \<Rightarrow> (Inr h, m)
      | None \<Rightarrow>
          (case fetch_missing ops U u l r now (sm_store m) of
             (Inl e, st) \<Rightarrow> (Inl e, m\<lparr>sm_store := st\<rparr>)
           | (Inr (r', t), st) \<Rightarrow> map_prod Inr id (cache_fetched l r' t now (m\<lparr>sm_store := st\<rparr>))))"
  by (auto simp: ensure_thread_handle_def fetch_missing_def cache_fetched_def Let_def
      split: option.splits sum.splits prod.splits)

lemma persist_locked_pieces:
  "persist_locked_thread_context ops U u l h now m =
     (case save_thread_snapshot ops U u l (sm_cells m ! h) now None m of
        (Inl e, m1) \<Rightarrow> (Inl e, m1)
      | (Inr p, m1) \<Rightarrow> (Inr (), touch_cached_session (tl_session_key l) l now (write_cell h p m1)))"
  by (simp add: persist_locked_thread_context_def persist_thread_context_snapshot_def)

lemma store_thread_context_pieces:
  "store_thread_context ops U u l t now m =
     (case save_thread_snapshot ops U u l t now None m of
        (Inl e, m1) \<Rightarrow> (Inl e, m1)
      | (Inr p, m1) \<Rightarrow> (Inr (), sync_thread_context_to_cache (tl_session_key l) l p now m1))"
  by (simp add: store_thread_context_def persist_thread_context_snapshot_def)


section \<open>Invariant\<close>

text \<open>
  A cached handle names a live cell of one thread and one task at most holds it. Its cell is at the
  revision the store holds exactly when no save of the router waits to be written back to it, unless
  its owner is just writing back a save of its own.
\<close>

definition handle_of :: "'s sm_system \<Rightarrow> thread_locator \<Rightarrow> handle option" where
  "handle_of s l = cached_thread_handle l (sy_manager s)"

fun task_ok :: "('s \<Rightarrow> uuid \<rightharpoonup> thread) \<Rightarrow> 's sm_system \<Rightarrow> nat \<Rightarrow> sm_task \<Rightarrow> bool" where
  "task_ok th s j Idle = True"
| "task_ok th s j (Wanting l r) = (l \<in> sy_locators s)"
| "task_ok th s j (Fetched l r t) =
     (l \<in> sy_locators s \<and> (handle_of s l = None \<longrightarrow>
        th_revision t = stored_revision (th (sm_store (sy_manager s))) (tl_thread_id l)))"
| "task_ok th s j (Waiting l h) = (l \<in> sy_locators s \<and> handle_of s l = Some h)"
| "task_ok th s j (Holding l h) = (l \<in> sy_locators s \<and> handle_of s l = Some h)"
| "task_ok th s j (Persisting l h p) =
     (l \<in> sy_locators s \<and> handle_of s l = Some h
      \<and> (th_revision p = stored_revision (th (sm_store (sy_manager s))) (tl_thread_id l)
           \<longleftrightarrow> \<not> unwritten_save s (tl_thread_id l)))"
| "task_ok th s j (Copied l t) = (l \<in> sy_locators s \<and> handle_of s l \<noteq> None)"
| "task_ok th s j (Unsynced l p now) =
     (j = ROUTER \<and> l \<in> sy_locators s \<and> handle_of s l \<noteq> None
      \<and> th_revision p = stored_revision (th (sm_store (sy_manager s))) (tl_thread_id l))"

definition cell_ok :: "(thread_locator \<Rightarrow> bool) \<Rightarrow> ('s \<Rightarrow> uuid \<rightharpoonup> thread) \<Rightarrow> 's sm_system \<Rightarrow> session_key \<Rightarrow> uuid \<Rightarrow> handle \<Rightarrow> bool" where
  "cell_ok wl th s k i h \<longleftrightarrow>
     h < length (sm_cells (sy_manager s))
     \<and> (\<exists>l. wl l \<and> tl_session_key l = k \<and> tl_thread_id l = i)
     \<and> (\<forall>k' i'. sm_handle (sy_manager s) k' i' = Some h \<longrightarrow> k' = k \<and> i' = i)
     \<and> (being_persisted s h
        \<or> (th_revision (sm_cells (sy_manager s) ! h) = stored_revision (th (sm_store (sy_manager s))) i
             \<longleftrightarrow> \<not> unwritten_save s i))"

definition tasks_inv ::
    "(thread_locator \<Rightarrow> bool) \<Rightarrow> ('s \<Rightarrow> bool) \<Rightarrow> ('s \<Rightarrow> session_key \<rightharpoonup> stored_session_record)
     \<Rightarrow> ('s \<Rightarrow> uuid \<rightharpoonup> thread) \<Rightarrow> 's sm_system \<Rightarrow> bool" where
  "tasks_inv wl sinv so th s \<longleftrightarrow>
     sinv (sm_store (sy_manager s))
     \<and> (\<forall>l \<in> sy_locators s. wl l \<and> sm_resolved so (sy_manager s) l)
     \<and> (\<forall>k i h. sm_handle (sy_manager s) k i = Some h \<longrightarrow> cell_ok wl th s k i h)
     \<and> (\<forall>j. task_ok th s j (sy_tasks s j))
     \<and> (\<forall>j j' h. holds_cell h (sy_tasks s j) \<longrightarrow> holds_cell h (sy_tasks s j') \<longrightarrow> j = j')"

lemma cell_ok_transfer:
  assumes "cell_ok wl th s k i h" "sm_handle (sy_manager s') = sm_handle (sy_manager s)"
    "length (sm_cells (sy_manager s)) \<le> length (sm_cells (sy_manager s'))"
    "being_persisted s' h
     \<or> (th_revision (sm_cells (sy_manager s') ! h) = stored_revision (th (sm_store (sy_manager s'))) i
         \<longleftrightarrow> \<not> unwritten_save s' i)"
  shows "cell_ok wl th s' k i h"
proof -
  have c: "h < length (sm_cells (sy_manager s))" "\<exists>l. wl l \<and> tl_session_key l = k \<and> tl_thread_id l = i"
    "\<forall>k' i'. sm_handle (sy_manager s) k' i' = Some h \<longrightarrow> k' = k \<and> i' = i"
    using assms(1) unfolding cell_ok_def by blast+
  show ?thesis
    unfolding cell_ok_def assms(2)
    by (intro conjI c(2,3) assms(4)) (rule order_less_le_trans [OF c(1) assms(3)])
qed

lemma cell_ok_revision:
  assumes "cell_ok wl th s k i h"
  shows "h < length (sm_cells (sy_manager s))"
    and "being_persisted s h
     \<or> (th_revision (sm_cells (sy_manager s) ! h) = stored_revision (th (sm_store (sy_manager s))) i
         \<longleftrightarrow> \<not> unwritten_save s i)"
  using assms unfolding cell_ok_def by blast+

lemma handle_of_sel: "handle_of s l = sm_handle (sy_manager s) (tl_session_key l) (tl_thread_id l)"
  by (simp add: handle_of_def sm_handle_cached)

text \<open>Whether a task has a save to write back is all that matters of it to the others.\<close>

definition quiet :: "sm_task \<Rightarrow> bool" where
  "quiet x \<longleftrightarrow> (case x of Persisting _ _ _ \<Rightarrow> False | Unsynced _ _ _ \<Rightarrow> False | _ \<Rightarrow> True)"

lemma quiet_simps [simp]:
  "quiet Idle" "quiet (Wanting l r)" "quiet (Fetched l r' t)" "quiet (Waiting l h)" "quiet (Holding l h)"
  "quiet (Copied l t)" "\<not> quiet (Persisting l h p)" "\<not> quiet (Unsynced l p now)"
  by (simp_all add: quiet_def)

lemma quiet_update:
  assumes "quiet (sy_tasks s j)" "quiet x" "sy_tasks s' = (sy_tasks s)(j := x)"
  shows "unwritten_save s' = unwritten_save s" "being_persisted s' = being_persisted s"
proof -
  have "sy_tasks s' ROUTER = Unsynced l p now \<longleftrightarrow> sy_tasks s ROUTER = Unsynced l p now" for l p now
    using assms by auto
  then show "unwritten_save s' = unwritten_save s" by (simp add: unwritten_save_def fun_eq_iff)
  have "sy_tasks s' j' = Persisting l h p \<longleftrightarrow> sy_tasks s j' = Persisting l h p" for j' l h p
    using assms by auto
  then show "being_persisted s' = being_persisted s" by (simp add: being_persisted_def fun_eq_iff)
qed

lemma task_ok_cong:
  assumes "handle_of s' = handle_of s" "sy_locators s \<subseteq> sy_locators s'"
    "stored_revision (th (sm_store (sy_manager s'))) = stored_revision (th (sm_store (sy_manager s)))"
    "unwritten_save s' = unwritten_save s" "task_ok th s j x"
  shows "task_ok th s' j x"
  using assms by (cases x) auto

text \<open>A step of a quiet task that leaves handles, revisions and session ids alone.\<close>

lemma tasks_inv_quiet:
  assumes inv: "tasks_inv wl sinv so th s" and q: "quiet (sy_tasks s j)" "quiet x"
    and tasks: "sy_tasks s' = (sy_tasks s)(j := x)"
    and store: "sinv (sm_store (sy_manager s'))"
      "stored_revision (th (sm_store (sy_manager s'))) = stored_revision (th (sm_store (sy_manager s)))"
    and handles: "sm_handle (sy_manager s') = sm_handle (sy_manager s)"
    and cells: "length (sm_cells (sy_manager s)) \<le> length (sm_cells (sy_manager s'))"
      "\<And>h. h < length (sm_cells (sy_manager s)) \<Longrightarrow>
         th_revision (sm_cells (sy_manager s') ! h) = th_revision (sm_cells (sy_manager s) ! h)"
    and locators: "sy_locators s \<subseteq> sy_locators s'"
      "\<forall>l \<in> sy_locators s'. wl l \<and> sm_resolved so (sy_manager s') l"
    and task: "task_ok th s' j x"
    and held: "\<And>h. holds_cell h x \<Longrightarrow> holds_cell h (sy_tasks s j) \<or> unheld s h"
  shows "tasks_inv wl sinv so th s'"
  unfolding tasks_inv_def
proof (intro conjI allI impI)
  note u = quiet_update [OF q tasks]
  have h: "handle_of s' = handle_of s" by (simp add: handle_of_sel handles fun_eq_iff)
  show "cell_ok wl th s' k i h" if "sm_handle (sy_manager s') k i = Some h" for k i h
  proof -
    have c: "cell_ok wl th s k i h" using inv that by (simp add: tasks_inv_def handles)
    show ?thesis
      by (rule cell_ok_transfer [OF c handles cells(1)])
        (use cell_ok_revision [OF c] cells(2) in \<open>simp add: u store(2)\<close>)
  qed
  show "task_ok th s' j' (sy_tasks s' j')" for j'
    using inv task task_ok_cong [of s' s th j' "sy_tasks s j'", OF h locators(1) store(2) u(1)]
    by (cases "j' = j") (auto simp: tasks tasks_inv_def)
  show "a = b" if "holds_cell h (sy_tasks s' a)" "holds_cell h (sy_tasks s' b)" for a b h
    using that held [of h] inv by (auto simp: tasks tasks_inv_def unheld_def split: if_splits)
qed (use store locators in simp_all)

section \<open>Every step keeps it\<close>

context session_manager_laws
begin

abbreviation stored :: "'a sm_system \<Rightarrow> uuid \<Rightarrow> u64" where
  "stored s \<equiv> stored_revision (thread_of (sm_store (sy_manager s)))"

abbreviation tinv :: "'a sm_system \<Rightarrow> bool" where
  "tinv \<equiv> tasks_inv wf_loc inv session_of thread_of"

lemma save_thread_snapshot_cases:
  assumes "inv (sm_store m)" "wf_loc l" "sm_resolved session_of m l" "revision_in_range (th_revision t)"
    and "\<forall>x. d = Some x \<longrightarrow> dr_thread_id x = tl_thread_id l"
    and save: "save_thread_snapshot ops U u l t now d m = (q, m')"
  obtains st where "m' = m\<lparr>sm_store := st\<rparr>" "inv st"
    "\<And>k. map_option ss_id (session_of st k) = map_option ss_id (session_of (sm_store m) k)"
    "th_revision t = stored_revision (thread_of (sm_store m)) (tl_thread_id l)
     \<and> q = Inr (set_revision (th_revision t + 1) (rebind_locator (locator_from U l) t))
     \<and> thread_of st = (thread_of (sm_store m))(tl_thread_id l \<mapsto>
         set_revision (th_revision t + 1) (view (rebind_locator (locator_from U l) t)))
   \<or> th_revision t \<noteq> stored_revision (thread_of (sm_store m)) (tl_thread_id l)
     \<and> q = Inl (RevisionConflict
         \<lparr>rc_thread_id = uuid_to_string U (tl_thread_id l), rc_expected_revision = th_revision t,
          rc_actual_revision = stored_revision (thread_of (sm_store m)) (tl_thread_id l)\<rparr>)
     \<and> thread_of st = thread_of (sm_store m)"
proof -
  let ?t = "rebind_locator (locator_from U l) t"
  obtain r s1 where s1: "so_resolve_or_create_session ops u (tl_session_key l) now (sm_store m) = (Inr r, s1)"
    "inv s1" "ss_id r = tl_session_id l" "session_of s1 = (session_of (sm_store m))(tl_session_key l \<mapsto> r)"
    "thread_of s1 = thread_of (sm_store m)"
    "\<And>k. map_option ss_id (session_of s1 k) = map_option ss_id (session_of (sm_store m) k)"
    by (rule resolve_present [OF assms(1) assms(3) [unfolded sm_resolved_def], of u now]) (rule that; assumption)
  have t: "th_locator ?t = locator_from U l" "th_revision ?t = th_revision t"
    by (simp_all add: rebind_locator_def)
  have k: "session_of s1 (tl_session_key l) = Some r" by (simp add: s1(4))
  show ?thesis
  proof (cases "th_revision t = stored_revision (thread_of (sm_store m)) (tl_thread_id l)")
    case True
    obtain s2 where s2: "so_save_thread_context ops ?t now d s1 = (Inr (th_revision t + 1), s2)" "inv s2"
      "thread_of s2 = (thread_of s1)(tl_thread_id l \<mapsto> set_revision (th_revision t + 1) (view ?t))"
      "\<And>k. map_option ss_id (session_of s2 k) = map_option ss_id (session_of s1 k)"
      using save_ok [OF s1(2) assms(2) k s1(3) t(1), of d now] assms(4,5) True by (auto simp: t(2) s1(5))
    show ?thesis
      by (rule that [of s2]) (use save s1 s2 True in \<open>simp_all add: save_thread_snapshot_def Let_def\<close>)
  next
    case False
    then have "so_save_thread_context ops ?t now d s1 = (Inl (RevisionConflict
         \<lparr>rc_thread_id = uuid_to_string U (tl_thread_id l), rc_expected_revision = th_revision t,
          rc_actual_revision = stored_revision (thread_of (sm_store m)) (tl_thread_id l)\<rparr>), s1)"
      using save_conflict [OF s1(2) assms(2) k s1(3) t(1), of now d] assms(4) t(2) s1(5) by simp
    then show ?thesis
      by (intro that [of s1]) (use save s1 False in \<open>simp_all add: save_thread_snapshot_def Let_def\<close>)
  qed
qed

lemma tinvD:
  assumes "tinv s"
  shows "inv (sm_store (sy_manager s))"
    and "l \<in> sy_locators s \<Longrightarrow> wf_loc l" and "l \<in> sy_locators s \<Longrightarrow> sm_resolved session_of (sy_manager s) l"
    and "sm_handle (sy_manager s) k i = Some h \<Longrightarrow> cell_ok wf_loc thread_of s k i h"
    and "task_ok thread_of s j (sy_tasks s j)"
    and "holds_cell h (sy_tasks s j) \<Longrightarrow> holds_cell h (sy_tasks s j') \<Longrightarrow> j = j'"
  using assms by (auto simp: tasks_inv_def)

lemma tinv_quiet_step:
  assumes "tinv s" "quiet (sy_tasks s j)" "quiet x" "task_ok thread_of s j x"
    and "\<And>h. holds_cell h x \<Longrightarrow> holds_cell h (sy_tasks s j) \<or> unheld s h"
  shows "tinv (put_task j x (sy_manager s) s)"
proof (rule tasks_inv_quiet [OF assms(1,2,3)])
  show "task_ok thread_of (put_task j x (sy_manager s) s) j x"
    by (rule task_ok_cong [OF _ _ _ quiet_update(1) [OF assms(2,3)] assms(4)])
      (simp_all add: handle_of_def [abs_def])
qed (use tinvD [OF assms(1)] assms(5) in simp_all)

text \<open>A quiet step that moves the store without touching a thread.\<close>

lemma tinv_quiet_store:
  assumes inv: "tinv s" and q: "quiet (sy_tasks s j)" "quiet x" and x: "task_ok thread_of s j x"
    and held: "\<And>h. holds_cell h x \<Longrightarrow> holds_cell h (sy_tasks s j) \<or> unheld s h"
    and st: "inv st" "thread_of st = thread_of (sm_store (sy_manager s))"
      "\<And>k i. map_option ss_id (session_of (sm_store (sy_manager s)) k) = Some i \<Longrightarrow>
         map_option ss_id (session_of st k) = Some i"
  shows "tinv (put_task j x (sy_manager s\<lparr>sm_store := st\<rparr>) s)"
proof (rule tasks_inv_quiet [OF inv q])
  let ?s = "put_task j x (sy_manager s\<lparr>sm_store := st\<rparr>) s"
  show "task_ok thread_of ?s j x"
    by (rule task_ok_cong [OF _ _ _ quiet_update(1) [OF q] x]) (simp_all add: handle_of_sel [abs_def] st(2))
  show "\<forall>l \<in> sy_locators ?s. wf_loc l \<and> sm_resolved session_of (sy_manager ?s) l"
    using tinvD(2,3) [OF inv] st(3) unfolding sm_resolved_def by simp
qed (use held st in simp_all)

text \<open>Handles: one for each thread, whatever locator of it is used.\<close>

lemma handle_same_thread:
  assumes "tinv s" "wf_loc l" "sm_handle (sy_manager s) k (tl_thread_id l) = Some h"
  shows "k = tl_session_key l" "handle_of s l = Some h"
proof -
  obtain l' where "wf_loc l'" "tl_session_key l' = k" "tl_thread_id l' = tl_thread_id l"
    using tinvD(4) [OF assms(1,3)] by (auto simp: cell_ok_def)
  then show "k = tl_session_key l" using wf_loc_key [OF tinvD(1) [OF assms(1)] _ assms(2)] by auto
  then show "handle_of s l = Some h" using assms(3) by (simp add: handle_of_sel)
qed

lemma handle_of_inject:
  assumes "tinv s" "handle_of s l = Some h" "sm_handle (sy_manager s) k i = Some h"
  shows "k = tl_session_key l" "i = tl_thread_id l"
  using tinvD(4) [OF assms(1) assms(2) [unfolded handle_of_sel]] assms(3) by (auto simp: cell_ok_def)

text \<open>A change of one thread leaves the tasks on the others alone.\<close>

lemma task_ok_other_thread:
  assumes ok: "task_ok thread_of s j x"
    and same: "handle_of s' = handle_of s" "sy_locators s' = sy_locators s"
      "\<And>i. i \<noteq> y \<Longrightarrow> stored s' i = stored s i" "\<And>i. i \<noteq> y \<Longrightarrow> unwritten_save s' i = unwritten_save s i"
    and x: "\<And>l r t. x = Fetched l r t \<Longrightarrow> handle_of s l = None \<Longrightarrow> tl_thread_id l \<noteq> y"
      "\<And>l h p. x = Persisting l h p \<Longrightarrow> tl_thread_id l \<noteq> y"
      "\<And>l p now. x = Unsynced l p now \<Longrightarrow> tl_thread_id l \<noteq> y"
  shows "task_ok thread_of s' j x"
  using assms by (cases x) auto

lemma uncached_other_thread:
  assumes "tinv s" "l0 \<in> sy_locators s" "handle_of s l0 = Some h" "l \<in> sy_locators s" "handle_of s l = None"
  shows "tl_thread_id l \<noteq> tl_thread_id l0"
  using handle_same_thread(2) [OF assms(1) tinvD(2) [OF assms(1,4)], of "tl_session_key l0" h] assms(3,5)
  by (auto simp: handle_of_sel)

lemma held_other_thread:
  assumes "tinv s" "l0 \<in> sy_locators s" "handle_of s l0 = Some h0" "l \<in> sy_locators s" "handle_of s l = Some h" "h \<noteq> h0"
  shows "tl_thread_id l \<noteq> tl_thread_id l0"
  using handle_same_thread(2) [OF assms(1) tinvD(2) [OF assms(1,4)], of "tl_session_key l0" h0] assms(3,5,6)
  by (auto simp: handle_of_sel)

lemma not_being_persisted:
  assumes "tinv s" "sy_tasks s j = Holding l h"
  shows "\<not> being_persisted s h"
proof
  assume "being_persisted s h"
  then obtain j' l' p where "sy_tasks s j' = Persisting l' h p" by (auto simp: being_persisted_def)
  then show False using tinvD(6) [OF assms(1), of h j j'] assms(2) by auto
qed

lemma held_once_upd:
  assumes "tinv s" and "\<And>g. holds_cell g x \<Longrightarrow> holds_cell g (sy_tasks s j)"
    and "holds_cell g (((sy_tasks s)(j := x)) a)" "holds_cell g (((sy_tasks s)(j := x)) b)"
  shows "a = b"
proof -
  have "holds_cell g (sy_tasks s a)" "holds_cell g (sy_tasks s b)"
    using assms(2-4) by (auto simp: fun_upd_apply split: if_splits)
  then show ?thesis by (rule tinvD(6) [OF assms(1)])
qed

lemma being_persisted_upd:
  assumes "sy_tasks s' = (sy_tasks s)(j := x)" "\<And>l h p. sy_tasks s j \<noteq> Persisting l h p"
  shows "being_persisted s' h \<longleftrightarrow> (\<exists>l p. x = Persisting l h p) \<or> being_persisted s h"
  using assms unfolding being_persisted_def fun_upd_apply by metis

lemma tinv_persisting:
  assumes inv: "tinv s" and j: "sy_tasks s j = Holding l h"
    and t: "th_revision t = th_revision (sm_cells (sy_manager s) ! h)" "revision_in_range (th_revision t)"
      "\<forall>x. d = Some x \<longrightarrow> dr_thread_id x = tl_thread_id l"
    and save: "save_thread_snapshot ops U u l t now d (sy_manager s) = (q, m)"
  shows "tinv (put_task j (case q of Inr p \<Rightarrow> Persisting l h p | Inl _ \<Rightarrow> Holding l h) m s)"
proof -
  have ok: "l \<in> sy_locators s" "handle_of s l = Some h" using tinvD(5) [OF inv, of j] j by auto
  obtain st where m: "m = sy_manager s\<lparr>sm_store := st\<rparr>" and st: "inv st"
    "\<And>k. map_option ss_id (session_of st k) = map_option ss_id (session_of (sm_store (sy_manager s)) k)"
    and cs: "th_revision t = stored s (tl_thread_id l)
     \<and> q = Inr (set_revision (th_revision t + 1) (rebind_locator (locator_from U l) t))
     \<and> thread_of st = (thread_of (sm_store (sy_manager s)))(tl_thread_id l \<mapsto>
         set_revision (th_revision t + 1) (view (rebind_locator (locator_from U l) t)))
     \<or> (\<exists>e. q = Inl e) \<and> thread_of st = thread_of (sm_store (sy_manager s))"
    by (rule save_thread_snapshot_cases
        [OF tinvD(1) [OF inv] tinvD(2) [OF inv ok(1)] tinvD(3) [OF inv ok(1)] t(2,3) save], rule that) blast+
  from cs show ?thesis
  proof (elim disjE conjE exE)
    fix e assume "q = Inl e" "thread_of st = thread_of (sm_store (sy_manager s))"
    then show ?thesis
      using tinv_quiet_store [OF inv, of j "Holding l h" st] ok j st by (simp add: m)
  next
    let ?p = "set_revision (th_revision t + 1) (rebind_locator (locator_from U l) t)"
    let ?s = "put_task j (Persisting l h ?p) (sy_manager s\<lparr>sm_store := st\<rparr>) s"
    assume rev: "th_revision t = stored s (tl_thread_id l)" and q: "q = Inr ?p"
      and th: "thread_of st = (thread_of (sm_store (sy_manager s)))(tl_thread_id l \<mapsto>
         set_revision (th_revision t + 1) (view (rebind_locator (locator_from U l) t)))"
    have written: "\<not> unwritten_save s (tl_thread_id l)"
      using tinvD(4) [OF inv ok(2) [unfolded handle_of_sel]] not_being_persisted [OF inv j] rev
      by (simp add: cell_ok_def t(1))
    have unwritten: "unwritten_save ?s = unwritten_save s" using j by (auto simp: unwritten_save_def fun_eq_iff)
    have persisted: "being_persisted ?s h' \<longleftrightarrow> h' = h \<or> being_persisted s h'" for h'
      using being_persisted_upd [of ?s s j "Persisting l h ?p" h'] j by auto
    have handles: "handle_of ?s = handle_of s" by (simp add: handle_of_sel fun_eq_iff)
    have stored: "stored_revision (thread_of st) i = (if i = tl_thread_id l then th_revision ?p else stored s i)" for i
      by (simp add: th stored_revision_def set_revision_def)
    have "tinv ?s"
      unfolding tasks_inv_def
    proof (intro conjI allI impI)
      show "cell_ok wf_loc thread_of ?s k i h'" if h': "sm_handle (sy_manager ?s) k i = Some h'" for k i h'
      proof -
        have c: "cell_ok wf_loc thread_of s k i h'" using tinvD(4) [OF inv] h' by simp
        have "h' = h" if "i = tl_thread_id l"
          using handle_same_thread(2) [OF inv tinvD(2) [OF inv ok(1)], of k h'] ok(2) h' that by simp
        then show ?thesis
          by (intro cell_ok_transfer [OF c])
            (use cell_ok_revision [OF c] in \<open>auto simp: persisted unwritten stored\<close>)
      qed
      show "task_ok thread_of ?s j' (sy_tasks ?s j')" for j'
      proof (cases "j' = j")
        case True
        then show ?thesis using ok written unfolding True by (simp add: handles unwritten stored)
      next
        case False
        note hold = tinvD(5) [OF inv, of j']
        have "task_ok thread_of ?s j' (sy_tasks s j')"
        proof (rule task_ok_other_thread [OF hold handles, where y = "tl_thread_id l"])
          show "tl_thread_id l' \<noteq> tl_thread_id l" if "sy_tasks s j' = Persisting l' h' p" for l' h' p
            proof -
            have "h' \<noteq> h" using tinvD(6) [OF inv, of h j' j] that j False by auto
            then show ?thesis using held_other_thread [OF inv ok, of l' h'] hold that by simp
          qed
        qed (use hold uncached_other_thread [OF inv ok] written in
            \<open>auto simp: stored unwritten unwritten_save_def\<close>)
        then show ?thesis using False by simp
      qed
      show "a = b" if "holds_cell g (sy_tasks ?s a)" "holds_cell g (sy_tasks ?s b)" for a b g
        by (rule held_once_upd [OF inv, of "Persisting l h ?p" j g]) (use that j in simp_all)
    qed (use inv st in \<open>auto simp: tasks_inv_def sm_resolved_def\<close>)
    then show ?thesis by (simp add: q m)
  qed
qed

lemma tinv_storing:
  assumes inv: "tinv s" and j: "sy_tasks s ROUTER = Copied l t0"
    and t: "revision_in_range (th_revision t)"
    and save: "save_thread_snapshot ops U u l t now None (sy_manager s) = (q, m)"
  shows "tinv (put_task ROUTER (case q of Inr p \<Rightarrow> Unsynced l p now | Inl _ \<Rightarrow> Idle) m s)"
proof -
  have ok: "l \<in> sy_locators s" "handle_of s l \<noteq> None" using tinvD(5) [OF inv, of ROUTER] j by auto
  then obtain h where h: "handle_of s l = Some h" by auto
  obtain st where m: "m = sy_manager s\<lparr>sm_store := st\<rparr>" and st: "inv st"
    "\<And>k. map_option ss_id (session_of st k) = map_option ss_id (session_of (sm_store (sy_manager s)) k)"
    and cs: "th_revision t = stored s (tl_thread_id l)
     \<and> q = Inr (set_revision (th_revision t + 1) (rebind_locator (locator_from U l) t))
     \<and> thread_of st = (thread_of (sm_store (sy_manager s)))(tl_thread_id l \<mapsto>
         set_revision (th_revision t + 1) (view (rebind_locator (locator_from U l) t)))
     \<or> (\<exists>e. q = Inl e) \<and> thread_of st = thread_of (sm_store (sy_manager s))"
    by (rule save_thread_snapshot_cases
        [OF tinvD(1) [OF inv] tinvD(2) [OF inv ok(1)] tinvD(3) [OF inv ok(1)] t _ save]) (simp, rule that, blast+)
  from cs show ?thesis
  proof (elim disjE conjE exE)
    fix e assume "q = Inl e" "thread_of st = thread_of (sm_store (sy_manager s))"
    then show ?thesis
      using tinv_quiet_store [OF inv, of ROUTER Idle st] j st by (simp add: m)
  next
    let ?p = "set_revision (th_revision t + 1) (rebind_locator (locator_from U l) t)"
    let ?s = "put_task ROUTER (Unsynced l ?p now) (sy_manager s\<lparr>sm_store := st\<rparr>) s"
    assume rev: "th_revision t = stored s (tl_thread_id l)" and q: "q = Inr ?p"
      and th: "thread_of st = (thread_of (sm_store (sy_manager s)))(tl_thread_id l \<mapsto>
         set_revision (th_revision t + 1) (view (rebind_locator (locator_from U l) t)))"
    have unwritten: "unwritten_save ?s i \<longleftrightarrow> i = tl_thread_id l" "\<not> unwritten_save s i" for i
      using j by (auto simp: unwritten_save_def)
    have persisted: "being_persisted ?s h' = being_persisted s h'" for h'
      using being_persisted_upd [of ?s s ROUTER "Unsynced l ?p now" h'] j by simp
    have handles: "handle_of ?s = handle_of s" by (simp add: handle_of_sel fun_eq_iff)
    have stored: "stored_revision (thread_of st) i = (if i = tl_thread_id l then stored s i + 1 else stored s i)"
      "stored_revision (thread_of st) (tl_thread_id l) = th_revision ?p" for i
      by (simp_all add: th stored_revision_def set_revision_def rev)
    have "tinv ?s"
      unfolding tasks_inv_def
    proof (intro conjI allI impI)
      show "cell_ok wf_loc thread_of ?s k i h'" if h': "sm_handle (sy_manager ?s) k i = Some h'" for k i h'
      proof -
        have c: "cell_ok wf_loc thread_of s k i h'" using tinvD(4) [OF inv] h' by simp
        show ?thesis
          by (rule cell_ok_transfer [OF c])
            (use cell_ok_revision [OF c] in \<open>auto simp: persisted unwritten stored(1)\<close>)
      qed
      show "task_ok thread_of ?s j' (sy_tasks ?s j')" for j'
      proof (cases "j' = ROUTER")
        case True
        then show ?thesis using ok unfolding True by (simp add: handles stored(2))
      next
        case False
        note hold = tinvD(5) [OF inv, of j']
        have other: "tl_thread_id l' \<noteq> tl_thread_id l" if "sy_tasks s j' = Fetched l' r x" "handle_of s l' = None" for l' r x
          using uncached_other_thread [OF inv ok(1) h, of l'] hold that by simp
        have "task_ok thread_of ?s j' (sy_tasks s j')"
          using hold False other unwritten
          by (cases "sy_tasks s j'") (auto simp: handles stored(1))
        then show ?thesis using False by simp
      qed
      show "a = b" if "holds_cell g (sy_tasks ?s a)" "holds_cell g (sy_tasks ?s b)" for a b g
        using that tinvD(6) [OF inv, of g a b] by (auto split: if_splits)
    qed (use inv st in \<open>auto simp: tasks_inv_def sm_resolved_def\<close>)
    then show ?thesis by (simp add: q m)
  qed
qed

text \<open>Writing a saved thread back to its cell, by the owner of the guard or by the router.\<close>

lemma tinv_write_back:
  assumes inv: "tinv s" and j: "sy_tasks s j = Persisting l h p"
    and m: "sm_handle m = sm_handle (sy_manager s)" "sm_cells m = (sm_cells (sy_manager s))[h := p]"
      "sm_store m = sm_store (sy_manager s)"
  shows "tinv (put_task j (Holding l h) m s)"
proof -
  let ?s = "put_task j (Holding l h) m s"
  have ok: "l \<in> sy_locators s" "handle_of s l = Some h"
    "th_revision p = stored s (tl_thread_id l) \<longleftrightarrow> \<not> unwritten_save s (tl_thread_id l)"
    using tinvD(5) [OF inv, of j] j by auto
  have lt: "h < length (sm_cells (sy_manager s))"
    using tinvD(4) [OF inv ok(2) [unfolded handle_of_sel]] by (simp add: cell_ok_def)
  have unwritten: "unwritten_save ?s = unwritten_save s" using j by (auto simp: unwritten_save_def fun_eq_iff)
  have persisted: "being_persisted ?s h' = being_persisted s h'" if "h' \<noteq> h" for h'
  proof -
    have "sy_tasks ?s a = Persisting l' h' p' \<longleftrightarrow> sy_tasks s a = Persisting l' h' p'" for a l' p'
      using j that by auto
    then show ?thesis by (simp only: being_persisted_def)
  qed
  have handles: "handle_of ?s = handle_of s" by (simp add: handle_of_sel m fun_eq_iff)
  have stored: "stored ?s = stored s" by (simp add: m)
  show ?thesis
    unfolding tasks_inv_def
  proof (intro conjI allI impI)
    show "cell_ok wf_loc thread_of ?s k i h'" if h': "sm_handle (sy_manager ?s) k i = Some h'" for k i h'
    proof -
      have c: "cell_ok wf_loc thread_of s k i h'" using tinvD(4) [OF inv] h' by (simp add: m)
      have "i = tl_thread_id l" if "h' = h" using handle_of_inject [OF inv ok(2), of k i] h' that by (simp add: m)
      then have "being_persisted ?s h' \<or> (th_revision ((sm_cells (sy_manager s))[h := p] ! h') = stored s i
          \<longleftrightarrow> \<not> unwritten_save s i)"
        using cell_ok_revision(2) [OF c] ok(3) lt persisted [of h'] by (cases "h' = h") auto
      then show ?thesis
        by (intro cell_ok_transfer [OF c]) (simp_all add: m unwritten)
    qed
    show "task_ok thread_of ?s j' (sy_tasks ?s j')" for j'
      using tinvD(5) [OF inv, of j'] ok
        task_ok_cong [OF handles _ stored unwritten, where j = j' and x = "sy_tasks s j'"] handles
      by (cases "j' = j") (simp_all add: m)
    show "a = b" if "holds_cell g (sy_tasks ?s a)" "holds_cell g (sy_tasks ?s b)" for a b g
      by (rule held_once_upd [OF inv, of "Holding l h" j g]) (use that j in simp_all)
  qed (use inv in \<open>auto simp: tasks_inv_def sm_resolved_def m\<close>)
qed

lemma tinv_syncing:
  assumes inv: "tinv s" and j: "sy_tasks s ROUTER = Unsynced l p now"
    and free: "\<forall>h. cached_thread_handle l (sy_manager s) = Some h \<longrightarrow> unheld s h"
  shows "tinv (put_task ROUTER Idle (sync_thread_context_to_cache (tl_session_key l) l p now (sy_manager s)) s)"
    (is "tinv ?s")
proof -
  have ok: "l \<in> sy_locators s" "th_revision p = stored s (tl_thread_id l)" "handle_of s l \<noteq> None"
    using tinvD(5) [OF inv, of ROUTER] j by auto
  then obtain h where h: "handle_of s l = Some h" by auto
  have h': "sm_handle (sy_manager s) (tl_session_key l) (tl_thread_id l) = Some h" using h by (simp add: handle_of_sel)
  have unheld: "unheld s h" using free h by (simp add: handle_of_def)
  let ?m = "sync_thread_context_to_cache (tl_session_key l) l p now (sy_manager s)"
  have m: "sm_handle ?m = sm_handle (sy_manager s)" "sm_cells ?m = (sm_cells (sy_manager s))[h := p]"
    "sm_store ?m = sm_store (sy_manager s)"
    by (simp_all add: sync_sel h')
  have lt: "h < length (sm_cells (sy_manager s))" using tinvD(4) [OF inv h'] by (simp add: cell_ok_def)
  have unwritten: "unwritten_save s i \<longleftrightarrow> i = tl_thread_id l" "\<not> unwritten_save ?s i" for i
    using j by (auto simp: unwritten_save_def)
  have persisted: "being_persisted ?s h' = being_persisted s h'" for h'
    using being_persisted_upd [of ?s s ROUTER Idle h'] j by simp
  have none: "\<not> being_persisted s h" using unheld unfolding unheld_def being_persisted_def by (metis holds_cell.simps(2))
  have handles: "handle_of ?s = handle_of s" by (simp add: handle_of_sel m fun_eq_iff)
  have stored: "stored ?s = stored s" by (simp add: m)
  show ?thesis
    unfolding tasks_inv_def
  proof (intro conjI allI impI)
    show "cell_ok wf_loc thread_of ?s k i h1" if h1: "sm_handle (sy_manager ?s) k i = Some h1" for k i h1
    proof -
      have c: "cell_ok wf_loc thread_of s k i h1" using tinvD(4) [OF inv] h1 by (simp add: m)
      have eq: "h1 = h \<longleftrightarrow> i = tl_thread_id l"
        using handle_of_inject [OF inv h, of k i] h1 h
          handle_same_thread(2) [OF inv tinvD(2) [OF inv ok(1)], of k h1] by (auto simp: m)
      have "being_persisted s h1 \<or> th_revision ((sm_cells (sy_manager s))[h := p] ! h1) = stored s i"
        using cell_ok_revision(2) [OF c] eq ok(2) lt unwritten(1) [of i] by (cases "h1 = h") auto
      then show ?thesis
        by (intro cell_ok_transfer [OF c]) (simp_all add: m unwritten(2) persisted)
    qed
    show "task_ok thread_of ?s j' (sy_tasks ?s j')" for j'
    proof (cases "j' = ROUTER")
      case False
      note hold = tinvD(5) [OF inv, of j']
      have "task_ok thread_of ?s j' (sy_tasks s j')"
      proof (rule task_ok_other_thread [OF hold handles, where y = "tl_thread_id l"])
        show "tl_thread_id l' \<noteq> tl_thread_id l" if "sy_tasks s j' = Persisting l' h' p'" for l' h' p'
          proof -
          have "h' \<noteq> h" using unheld that by (metis holds_cell.simps(2) unheld_def)
          then show ?thesis using held_other_thread [OF inv ok(1) h, of l' h'] hold that by simp
        qed
        show "tl_thread_id l' \<noteq> tl_thread_id l" if "sy_tasks s j' = Unsynced l' p' now'" for l' p' now'
          using hold that False by simp
      qed (use hold uncached_other_thread [OF inv ok(1) h] in \<open>auto simp: m(3) unwritten\<close>)
      then show ?thesis using False by simp
    qed simp
    show "a = b" if "holds_cell g (sy_tasks ?s a)" "holds_cell g (sy_tasks ?s b)" for a b g
      using that tinvD(6) [OF inv, of g a b] by (auto split: if_splits)
  qed (use inv in \<open>auto simp: tasks_inv_def sm_resolved_def m\<close>)
qed

lemma task_ok_extends:
  assumes "task_ok thread_of s j x" "\<And>l h. handle_of s l = Some h \<Longrightarrow> handle_of s' l = Some h"
    "sy_locators s' = sy_locators s" "stored s' = stored s" "unwritten_save s' = unwritten_save s"
  shows "task_ok thread_of s' j x"
proof -
  have "handle_of s' l = None \<Longrightarrow> handle_of s l = None" "handle_of s l \<noteq> None \<Longrightarrow> handle_of s' l \<noteq> None" for l
    using assms(2) [of l] by (cases "handle_of s l"; force)+
  then show ?thesis using assms by (cases x) auto
qed

lemma tinv_caching:
  assumes inv: "tinv s" and j: "sy_tasks s j = Fetched l r t"
    and cache: "cache_fetched l r t now (sy_manager s) = (h, m)"
  shows "tinv (put_task j (Waiting l h) m s)" (is "tinv ?s")
    and "sm_extends (sy_manager s) m"
proof -
  have ok: "l \<in> sy_locators s" "handle_of s l = None \<Longrightarrow> th_revision t = stored s (tl_thread_id l)"
    using tinvD(5) [OF inv, of j] j by auto
  let ?n = "length (sm_cells (sy_manager s))"
  note m = cache_if_absent_sel [OF cache [unfolded cache_fetched_def new_cell_def Let_def prod.case]]
  have handle: "sm_handle (sy_manager s\<lparr>sm_cells := sm_cells (sy_manager s) @ [t]\<rparr>) = sm_handle (sy_manager s)"
    by (simp add: sm_handle_def fun_eq_iff)
  have m': "sm_cells m = sm_cells (sy_manager s) @ [t]" "sm_store m = sm_store (sy_manager s)"
    using m(3,4) by simp_all
  have q: "quiet (sy_tasks s j)" using j by simp
  have u: "unwritten_save ?s = unwritten_save s" "being_persisted ?s = being_persisted s"
    by (rule quiet_update [OF q, of "Waiting l h"]; simp)+
  have "tinv ?s \<and> sm_extends (sy_manager s) m"
  proof (cases "handle_of s l")
    case (Some h0)
    then have eq: "h = h0" "sm_handle m = sm_handle (sy_manager s)"
      using m(1,2) by (simp_all add: handle handle_of_sel)
    have "tinv ?s"
      by (rule tasks_inv_quiet [OF inv q, where x = "Waiting l h"])
        (use tinvD [OF inv] ok Some eq in \<open>simp_all add: m' nth_append handle_of_sel sm_resolved_def\<close>)
    then show ?thesis by (simp add: sm_extends_def eq)
  next
    case None
    let ?k = "tl_session_key l" and ?i = "tl_thread_id l"
    have none: "sm_handle (sy_manager s) k ?i = None" for k
      using handle_same_thread(2) [OF inv tinvD(2) [OF inv ok(1)], of k] None by (cases "sm_handle (sy_manager s) k ?i") auto
    have eq: "h = ?n" "sm_handle m = (sm_handle (sy_manager s))(?k := (sm_handle (sy_manager s) ?k)(?i \<mapsto> ?n))"
      using m(1,2) by (simp_all add: handle none)
    have old: "sm_handle (sy_manager s) k i = Some h' \<Longrightarrow> h' < ?n" for k i h'
      using tinvD(4) [OF inv] by (auto simp: cell_ok_def)
    have new: "sm_handle m k i = Some h' \<longleftrightarrow> k = ?k \<and> i = ?i \<and> h' = ?n \<or> sm_handle (sy_manager s) k i = Some h'" for k i h'
      using none by (auto simp: eq(2))
    have clean: "\<not> unwritten_save s ?i"
    proof
      assume "unwritten_save s ?i"
      then obtain l' p now' where l': "sy_tasks s ROUTER = Unsynced l' p now'" "tl_thread_id l' = ?i"
        by (auto simp: unwritten_save_def)
      then have "handle_of s l' \<noteq> None" using tinvD(5) [OF inv, of ROUTER] by simp
      then show False using none [of "tl_session_key l'"] l'(2) by (simp add: handle_of_sel)
    qed
    have "tinv ?s"
      unfolding tasks_inv_def
    proof (intro conjI allI impI)
      show "cell_ok wf_loc thread_of ?s k i h'" if h': "sm_handle (sy_manager ?s) k i = Some h'" for k i h'
      proof (cases "k = ?k \<and> i = ?i")
        case True
        then have "h' = ?n" using h' none by (simp add: new)
        then show ?thesis using True tinvD(2) [OF inv ok(1)] ok(2) [OF None] clean old
          by (auto simp: cell_ok_def m' new u)
      next
        case False
        then have c: "cell_ok wf_loc thread_of s k i h'" using h' tinvD(4) [OF inv, of k i h'] by (auto simp: new)
        then show ?thesis using cell_ok_revision [OF c]
          unfolding cell_ok_def by (auto simp: m' new u nth_append)
      qed
      show "task_ok thread_of ?s j' (sy_tasks ?s j')" for j'
      proof (cases "j' = j")
        case True
        then show ?thesis using ok(1) by (simp add: handle_of_sel eq)
      next
        case False
        have "task_ok thread_of ?s j' (sy_tasks s j')"
          by (rule task_ok_extends [OF tinvD(5) [OF inv]]) (simp_all add: handle_of_sel new m' u)
        then show ?thesis using False by simp
      qed
      show "a = b" if "holds_cell g (sy_tasks ?s a)" "holds_cell g (sy_tasks ?s b)" for a b g
        by (rule held_once_upd [OF inv, of "Waiting l h" j g]) (use that in simp_all)
    qed (use inv in \<open>auto simp: tasks_inv_def sm_resolved_def m'\<close>)
    then show ?thesis by (simp add: sm_extends_def new)
  qed
  then show "tinv ?s" "sm_extends (sy_manager s) m" by simp_all
qed

lemma fetch_missing_ok:
  assumes "inv st" "wf_loc l" "map_option ss_id (session_of st (tl_session_key l)) = Some (tl_session_id l)"
  obtains r' t st' where "fetch_missing ops U u l r now st = (Inr (r', t), st')" "inv st'"
    "thread_of st' = thread_of st"
    "\<And>k. map_option ss_id (session_of st' k) = map_option ss_id (session_of st k)"
    "th_revision t = stored_revision (thread_of st) (tl_thread_id l)"
proof -
  obtain r1 s1 where r1: "(case r of Some r \<Rightarrow> (Inr r, st)
      | None \<Rightarrow> so_resolve_or_create_session ops u (tl_session_key l) now st) = (Inr r1, s1)"
    "inv s1" "thread_of s1 = thread_of st"
    "\<And>k. map_option ss_id (session_of s1 k) = map_option ss_id (session_of st k)"
  proof (cases r)
    case None
    obtain rx sx where rx: "so_resolve_or_create_session ops u (tl_session_key l) now st = (Inr rx, sx)"
      "inv sx" "thread_of sx = thread_of st"
      "\<And>k. map_option ss_id (session_of sx k) = map_option ss_id (session_of st k)"
      by (rule resolve_present [OF assms(1,3), of u now]) (rule that; assumption)
    show ?thesis by (rule that [OF _ rx(2-4)]) (simp add: None rx(1))
  qed (use assms(1) that in auto)
  obtain r0 where r0: "session_of s1 (tl_session_key l) = Some r0" "ss_id r0 = tl_session_id l"
    using assms(3) r1(4) [of "tl_session_key l"] by auto
  obtain t0 where t0: "so_load_thread_context ops l s1 = Inr t0"
    "map_option (rebind_locator (locator_from U l)) t0
       = map_option (rebind_locator (locator_from U l)) (thread_of s1 (tl_thread_id l))"
    using load_thread [OF r1(2) assms(2) r0] by auto
  show ?thesis
    by (rule that [of r1 "case map_option (rebind_locator (locator_from U l)) t0 of
          Some t \<Rightarrow> t | None \<Rightarrow> thread_new (locator_from U l) now" s1])
      (use r1 t0 in \<open>auto simp: fetch_missing_def fetch_thread_context_from_store_only_def stored_revision_def
         thread_new_def rebind_locator_def split: option.splits\<close>)
qed

lemma tinv_resolving:
  assumes inv: "tinv s" and j: "sy_tasks s j = Idle" and ok: "incoming_ok wf_loc session_of U u incoming (sy_manager s)"
    and resolved: "so_resolve_or_create_session ops u (session_key_from_incoming incoming) (im_received_at incoming)
      (sm_store (sy_manager s)) = (Inr r, st)" and l: "l = incoming_locator U r incoming"
  shows "tinv (put_task j (Wanting l (Some r)) (sy_manager s\<lparr>sm_store := st\<rparr>) (s\<lparr>sy_locators := insert l (sy_locators s)\<rparr>))"
proof -
  let ?k = "session_key_from_incoming incoming"
  have st: "inv st" "session_of st = (session_of (sm_store (sy_manager s)))(?k \<mapsto> r)"
    "ss_id r = (case session_of (sm_store (sy_manager s)) ?k of Some r0 \<Rightarrow> ss_id r0 | None \<Rightarrow> u)"
    "thread_of st = thread_of (sm_store (sy_manager s))"
    using resolve [OF tinvD(1) [OF inv], of ?k u "im_received_at incoming"] ok resolved
    by (auto simp: incoming_ok_def)
  have key: "tl_session_key l = ?k" "tl_session_id l = ss_id r"
    by (simp_all add: l incoming_locator_def thread_locator_new_def tl_session_key_def
        session_key_from_incoming_def Let_def)
  have wl: "wf_loc l" using ok by (simp add: incoming_ok_def l incoming_locator_def Let_def)
  have res: "sm_resolved session_of (sy_manager s\<lparr>sm_store := st\<rparr>) l'" if "l' = l \<or> l' \<in> sy_locators s" for l'
    using that tinvD(3) [OF inv, of l'] st(2,3) key by (auto simp: sm_resolved_def)
  show ?thesis
    by (rule tasks_inv_quiet [OF inv, of j "Wanting l (Some r)"])
      (use j st wl res tinvD(2) [OF inv] in \<open>auto simp: handle_of_sel\<close>)
qed

lemma tinv_missed:
  assumes inv: "tinv s" and j: "sy_tasks s j = Wanting l r"
    and fetch: "fetch_missing ops U u l r now (sm_store (sy_manager s)) = (q, st)"
  shows "tinv (put_task j (case q of Inr (r', t) \<Rightarrow> Fetched l r' t | Inl _ \<Rightarrow> Idle) (sy_manager s\<lparr>sm_store := st\<rparr>) s)"
proof -
  have l: "l \<in> sy_locators s" using tinvD(5) [OF inv, of j] j by simp
  obtain r' t where f: "q = Inr (r', t)" "inv st" "thread_of st = thread_of (sm_store (sy_manager s))"
    "\<And>k. map_option ss_id (session_of st k) = map_option ss_id (session_of (sm_store (sy_manager s)) k)"
    "th_revision t = stored s (tl_thread_id l)"
    by (rule fetch_missing_ok [OF tinvD(1) [OF inv] tinvD(2) [OF inv l] tinvD(3) [OF inv l, unfolded sm_resolved_def],
          of u r now]) (use fetch in \<open>auto intro: that\<close>)
  show ?thesis
    using tinv_quiet_store [OF inv, of j "Fetched l r' t" st] j l f by simp
qed

theorem task_step_inv:
  assumes "task_step ops U wf_loc session_of thread_of s s'" and "tinv s"
  shows "tinv s' \<and> sm_extends (sy_manager s) (sy_manager s')"
  using assms(1)
proof (cases rule: task_step.cases)
  case (resolving j u incoming r st l)
  then show ?thesis using tinv_resolving [OF assms(2)] by (simp add: sm_extends_def)
next
  case (missed j l r q st u now)
  then show ?thesis using tinv_missed [OF assms(2)] by (simp add: sm_extends_def)
next
  case (caching j l r t h m now)
  then show ?thesis using tinv_caching [OF assms(2)] by simp
next
  case (changing j l h t)
  have upd: "th_revision ((sm_cells (sy_manager s))[h := t] ! h') = th_revision (sm_cells (sy_manager s) ! h')"
    if "h' < length (sm_cells (sy_manager s))" for h'
    using changing(3) that by (cases "h' = h") simp_all
  have "tinv s'"
    unfolding changing(1)
    by (rule tasks_inv_quiet [OF assms(2), of j "Holding l h"])
      (use changing tinvD [OF assms(2)] tinvD(5) [OF assms(2), of j] in
        \<open>auto simp: handle_of_sel sm_resolved_def upd\<close>)
  then show ?thesis by (simp add: changing(1) sm_extends_def)
next
  case (persisting j l h t d u now q m)
  have "sm_handle m = sm_handle (sy_manager s)"
    using persisting(6) by (auto simp: save_thread_snapshot_def Let_def split: prod.splits sum.splits)
  then show ?thesis using tinv_persisting [OF assms(2) persisting(2-6)] by (simp add: persisting(1) sm_extends_def)
next
  case (writing_back j l h p now)
  then show ?thesis
    using tinv_write_back [OF assms(2), of j l h p "touch_cached_session (tl_session_key l) l now (write_cell h p (sy_manager s))"]
    by (simp add: sm_extends_def)
next
  case (storing l t t' u now q m)
  have "sm_handle m = sm_handle (sy_manager s)"
    using storing(5) by (auto simp: save_thread_snapshot_def Let_def split: prod.splits sum.splits)
  then show ?thesis using tinv_storing [OF assms(2) storing(2,4,5)] by (simp add: storing(1) sm_extends_def)
next
  case (syncing l p now)
  then show ?thesis using tinv_syncing [OF assms(2)] by (simp add: sync_extends)
next
  case (marking j l x i now q m)
  obtain st where st: "m = sy_manager s\<lparr>sm_store := st\<rparr>" "inv st"
    "session_of st = session_of (sm_store (sy_manager s))" "thread_of st = thread_of (sm_store (sy_manager s))"
    using save_dedup [OF tinvD(1) [OF assms(2)] marking(4), of "\<lparr>dr_thread_id = tl_thread_id l, dr_external_message_id = x,
       dr_turn_id = i, dr_completed_at = now\<rparr>"] marking(5)
    by (auto simp: mark_external_message_processed_def Let_def split: prod.splits)
  then show ?thesis
    using tinv_quiet_store [OF assms(2), of j Idle st] marking(2) by (simp add: marking(1) sm_extends_def)
next
  case (starting j l)
  then show ?thesis using tinv_quiet_step [OF assms(2), of j "Wanting l None"] by simp
next
  case (hit j l r h)
  then show ?thesis
    using tinv_quiet_step [OF assms(2), of j "Waiting l h"] tinvD(5) [OF assms(2), of j] by (simp add: handle_of_def)
next
  case (returning j l h now)
  have "tinv s'"
    unfolding returning(1)
    by (rule tasks_inv_quiet [OF assms(2), of j Idle])
      (use returning tinvD [OF assms(2)] in \<open>simp_all add: handle_of_sel sm_resolved_def\<close>)
  then show ?thesis by (simp add: returning(1) sm_extends_def)
next
  case (locking j l h)
  then show ?thesis using tinv_quiet_step [OF assms(2), of j "Holding l h"] tinvD(5) [OF assms(2), of j] by simp
next
  case (releasing j l h)
  then show ?thesis using tinv_quiet_step [OF assms(2), of j Idle] by simp
next
  case (copying l h)
  then show ?thesis
    using tinv_quiet_step [OF assms(2), of ROUTER "Copied l (sm_cells (sy_manager s) ! h)"] tinvD(5) [OF assms(2), of ROUTER]
    by simp
qed

theorem task_steps_inv:
  assumes "(task_step ops U wf_loc session_of thread_of)\<^sup>*\<^sup>* s s'" and "tinv s"
  shows "tinv s' \<and> sm_extends (sy_manager s) (sy_manager s')"
  using assms
proof (induction rule: rtranclp_induct)
  case (step s1 s2)
  then show ?case using task_step_inv [of s1 s2] sm_extends_trans by blast
qed simp

lemma tinv_start: "inv store \<Longrightarrow> tinv (tasks_start store)"
  by (simp add: tasks_inv_def tasks_start_def session_manager_new_def sm_handle_def)

text \<open>What saving under the lock does: it succeeds exactly when no save of the router waits to be written back.\<close>

lemma persist_under_lock:
  assumes inv: "tinv s" and j: "sy_tasks s j = Holding l h"
    and t: "th_revision t = th_revision (sm_cells (sy_manager s) ! h)" "revision_in_range (th_revision t)"
  obtains m where "persist_locked_thread_context ops U u l h now (write_cell h t (sy_manager s)) =
      (if unwritten_save s (tl_thread_id l)
       then Inl (RevisionConflict \<lparr>rc_thread_id = uuid_to_string U (tl_thread_id l),
              rc_expected_revision = th_revision t, rc_actual_revision = stored s (tl_thread_id l)\<rparr>)
       else Inr (), m)"
    "unwritten_save s (tl_thread_id l) \<Longrightarrow> thread_of (sm_store m) = thread_of (sm_store (sy_manager s))"
    "\<not> unwritten_save s (tl_thread_id l) \<Longrightarrow> thread_of (sm_store m) = (thread_of (sm_store (sy_manager s)))
       (tl_thread_id l \<mapsto> set_revision (th_revision t + 1) (view (rebind_locator (locator_from U l) t)))"
    "\<not> unwritten_save s (tl_thread_id l) \<Longrightarrow>
       sm_cells m ! h = set_revision (th_revision t + 1) (rebind_locator (locator_from U l) t)"
proof -
  have ok: "l \<in> sy_locators s" "handle_of s l = Some h" using tinvD(5) [OF inv, of j] j by auto
  note c = cell_ok_revision [OF tinvD(4) [OF inv ok(2) [unfolded handle_of_sel]]]
  have rev: "th_revision t = stored s (tl_thread_id l) \<longleftrightarrow> \<not> unwritten_save s (tl_thread_id l)"
    using c(2) not_being_persisted [OF inv j] by (simp add: t(1))
  let ?m = "write_cell h t (sy_manager s)"
  obtain q m1 where save: "save_thread_snapshot ops U u l t now None ?m = (q, m1)" by fastforce
  have res: "sm_resolved session_of ?m l" using tinvD(3) [OF inv ok(1)] by (simp add: sm_resolved_def)
  have inv0: "inv (sm_store ?m)" using tinvD(1) [OF inv] by simp
  have cell: "sm_cells ?m ! h = t" using c(1) by simp
  obtain st where st: "m1 = ?m\<lparr>sm_store := st\<rparr>"
    "th_revision t = stored s (tl_thread_id l)
     \<and> q = Inr (set_revision (th_revision t + 1) (rebind_locator (locator_from U l) t))
     \<and> thread_of st = (thread_of (sm_store (sy_manager s)))(tl_thread_id l \<mapsto>
         set_revision (th_revision t + 1) (view (rebind_locator (locator_from U l) t)))
   \<or> th_revision t \<noteq> stored s (tl_thread_id l)
     \<and> q = Inl (RevisionConflict
         \<lparr>rc_thread_id = uuid_to_string U (tl_thread_id l), rc_expected_revision = th_revision t,
          rc_actual_revision = stored s (tl_thread_id l)\<rparr>)
     \<and> thread_of st = thread_of (sm_store (sy_manager s))"
    by (rule save_thread_snapshot_cases [OF inv0 tinvD(2) [OF inv ok(1)] res t(2) _ save]) (simp, rule that, simp_all)
  show ?thesis
    by (rule that [of "snd (persist_locked_thread_context ops U u l h now ?m)"])
      (use st(2) save rev c(1) in \<open>auto simp: persist_locked_pieces cell st(1)\<close>)
qed

text \<open>A router and a worker on one thread, with the router's save not written back yet.\<close>

lemma can_look_up:
  assumes inv: "tinv s" and j: "sy_tasks s j = Wanting l r"
  obtains s' h where "(task_step ops U wf_loc session_of thread_of)\<^sup>*\<^sup>* s s'"
    "sy_tasks s' = (sy_tasks s)(j := Waiting l h)" "sy_locators s' = sy_locators s" "stored s' = stored s"
proof (cases "cached_thread_handle l (sy_manager s)")
  case (Some h)
  have step: "task_step ops U wf_loc session_of thread_of s (put_task j (Waiting l h) (sy_manager s) s)"
    by (rule task_step.hit [OF j Some])
  show ?thesis
    by (rule that [OF r_into_rtranclp [where r = "task_step ops U wf_loc session_of thread_of", OF step]]) simp_all
next
  case None
  have l: "l \<in> sy_locators s" using tinvD(5) [OF inv, of j] j by simp
  obtain r' t st where f: "fetch_missing ops U 0 l r 0 (sm_store (sy_manager s)) = (Inr (r', t), st)"
    "thread_of st = thread_of (sm_store (sy_manager s))"
    by (rule fetch_missing_ok [OF tinvD(1) [OF inv] tinvD(2) [OF inv l] tinvD(3) [OF inv l, unfolded sm_resolved_def],
          of 0 r 0]) (rule that)
  let ?s1 = "put_task j (Fetched l r' t) (sy_manager s\<lparr>sm_store := st\<rparr>) s"
  have one: "task_step ops U wf_loc session_of thread_of s ?s1"
    using task_step.missed [where s = s, OF j None f(1)] by simp
  obtain h m where m: "cache_fetched l r' t 0 (sy_manager ?s1) = (h, m)" by fastforce
  have two: "task_step ops U wf_loc session_of thread_of ?s1 (put_task j (Waiting l h) m ?s1)"
    by (rule task_step.caching [OF _ m]) simp
  have st: "sm_store m = st"
    using cache_if_absent_sel(4) [OF m [unfolded cache_fetched_def new_cell_def Let_def prod.case]] by simp
  show ?thesis
    by (rule that [OF rtranclp.rtrancl_into_rtrancl [where r = "task_step ops U wf_loc session_of thread_of",
          OF r_into_rtranclp [where r = "task_step ops U wf_loc session_of thread_of", OF one] two]])
      (simp_all add: st f(2))
qed

lemma router_and_worker:
  assumes "inv store" and ok: "incoming_ok wf_loc session_of U u incoming (session_manager_new store)"
    and rng: "\<And>i. revision_in_range (stored_revision (thread_of store) i)"
  obtains s l h where "(task_step ops U wf_loc session_of thread_of)\<^sup>*\<^sup>* (tasks_start store) s"
    "sy_tasks s 1 = Holding l h" "unwritten_save s (tl_thread_id l)" "revision_in_range (th_revision (sm_cells (sy_manager s) ! h))"
proof -
  let ?S = "task_step ops U wf_loc session_of thread_of"
  let ?s0 = "tasks_start store"
  note inv0 = tinv_start [OF assms(1)]
  have idle: "sy_tasks ?s0 j = Idle" for j by (simp add: tasks_start_def)
  have m0: "sy_manager ?s0 = session_manager_new store" "sm_store (session_manager_new store) = store"
    by (simp_all add: tasks_start_def session_manager_new_def)
  obtain r st where r: "so_resolve_or_create_session ops u (session_key_from_incoming incoming) (im_received_at incoming) store
      = (Inr r, st)" "thread_of st = thread_of store"
    using resolve [OF assms(1), of "session_key_from_incoming incoming" u "im_received_at incoming"] ok
    by (auto simp: incoming_ok_def m0(2))
  define l where "l = incoming_locator U r incoming"
  define s1 where "s1 = put_task ROUTER (Wanting l (Some r)) (sy_manager ?s0\<lparr>sm_store := st\<rparr>)
      (?s0\<lparr>sy_locators := insert l (sy_locators ?s0)\<rparr>)"
  have step1: "?S ?s0 s1"
    unfolding s1_def by (rule task_step.resolving [OF idle, where u = u]) (use ok r in \<open>simp_all add: m0 l_def\<close>)
  note inv1 = conjunct1 [OF task_step_inv [OF step1 inv0]]
  have t1: "sy_tasks s1 ROUTER = Wanting l (Some r)" "l \<in> sy_locators s1" "stored s1 = stored_revision (thread_of store)"
    "\<And>j. j \<noteq> ROUTER \<Longrightarrow> sy_tasks s1 j = Idle"
    by (simp_all add: s1_def r(2) idle)
  obtain s2 h where s2: "?S\<^sup>*\<^sup>* s1 s2" "sy_tasks s2 = (sy_tasks s1)(ROUTER := Waiting l h)"
    "sy_locators s2 = sy_locators s1" "stored s2 = stored s1"
    by (rule can_look_up [OF inv1 t1(1)])
  define s3 where "s3 = put_task ROUTER (Holding l h) (sy_manager s2) s2"
  have step3: "?S s2 s3"
    unfolding s3_def by (rule task_step.locking) (simp_all add: s2(2) unheld_def t1(4))
  have steps3: "?S\<^sup>*\<^sup>* ?s0 s3" using step1 s2(1) step3 by (meson converse_rtranclp_into_rtranclp rtranclp.rtrancl_into_rtrancl)
  note inv3 = conjunct1 [OF task_steps_inv [OF steps3 inv0]]
  have t3: "sy_tasks s3 ROUTER = Holding l h" "sy_locators s3 = sy_locators s1" "stored s3 = stored s1"
    "\<And>j. j \<noteq> ROUTER \<Longrightarrow> sy_tasks s3 j = Idle"
    by (simp_all add: s3_def s2 t1(4))
  have h: "handle_of s3 l = Some h" using tinvD(5) [OF inv3, of ROUTER] t3(1) by simp
  let ?t = "sm_cells (sy_manager s3) ! h"
  have "\<not> unwritten_save s3 i" for i using t3(1) by (simp add: unwritten_save_def)
  then have rev: "th_revision ?t = stored s1 (tl_thread_id l)"
    using cell_ok_revision(2) [OF tinvD(4) [OF inv3 h [unfolded handle_of_sel]]] not_being_persisted [OF inv3 t3(1)] t3(3)
    by simp
  define s4 where "s4 = put_task ROUTER (Copied l ?t) (sy_manager s3) s3"
  have step4: "?S s3 s4" unfolding s4_def by (rule task_step.copying [OF t3(1)])
  define s5 where "s5 = put_task (Suc ROUTER) (Wanting l None) (sy_manager s4) s4"
  have step5: "?S s4 s5"
    unfolding s5_def by (rule task_step.starting) (simp_all add: s4_def t3 t1(2))
  have steps5: "?S\<^sup>*\<^sup>* ?s0 s5" using steps3 step4 step5 by (meson rtranclp.rtrancl_into_rtrancl)
  note inv5 = conjunct1 [OF task_steps_inv [OF steps5 inv0]]
  have t5: "sy_tasks s5 (Suc ROUTER) = Wanting l None" "sy_tasks s5 ROUTER = Copied l ?t" "stored s5 = stored s1"
    "\<And>j. j \<noteq> ROUTER \<Longrightarrow> j \<noteq> Suc ROUTER \<Longrightarrow> sy_tasks s5 j = Idle"
    by (simp_all add: s5_def s4_def t3)
  obtain s6 h' where s6: "?S\<^sup>*\<^sup>* s5 s6" "sy_tasks s6 = (sy_tasks s5)(Suc ROUTER := Waiting l h')" "stored s6 = stored s5"
    by (rule can_look_up [OF inv5 t5(1)])
  define s7 where "s7 = put_task (Suc ROUTER) (Holding l h') (sy_manager s6) s6"
  have free: "unheld s6 h'"
  proof -
    have "\<not> holds_cell h' (sy_tasks s6 j)" for j
      by (cases "j = Suc ROUTER"; cases "j = ROUTER") (simp_all add: s6(2) t5)
    then show ?thesis by (simp add: unheld_def)
  qed
  have step7: "?S s6 s7" unfolding s7_def by (rule task_step.locking [OF _ free]) (simp add: s6(2))
  have steps7: "?S\<^sup>*\<^sup>* ?s0 s7" using steps5 s6(1) step7 by (meson rtranclp.rtrancl_into_rtrancl rtranclp_trans)
  note inv7 = conjunct1 [OF task_steps_inv [OF steps7 inv0]]
  have t7: "sy_tasks s7 (Suc ROUTER) = Holding l h'" "sy_tasks s7 ROUTER = Copied l ?t" "stored s7 = stored s1"
    by (simp_all add: s7_def s6 t5)
  have l7: "l \<in> sy_locators s7" using tinvD(5) [OF inv7, of ROUTER] t7(2) by simp
  have range: "revision_in_range (th_revision ?t)" using rng rev t1(3) by simp
  obtain q m where save: "save_thread_snapshot ops U 0 l ?t 0 None (sy_manager s7) = (q, m)" by fastforce
  obtain st' where st': "m = sy_manager s7\<lparr>sm_store := st'\<rparr>"
    "q = Inr (set_revision (th_revision ?t + 1) (rebind_locator (locator_from U l) ?t))"
    by (rule save_thread_snapshot_cases
        [OF tinvD(1) [OF inv7] tinvD(2) [OF inv7 l7] tinvD(3) [OF inv7 l7] range _ save])
      (simp, rule that, use rev t7(3) in auto)
  let ?s8 = "put_task ROUTER (case q of Inr p \<Rightarrow> Unsynced l p 0 | Inl _ \<Rightarrow> Idle) m s7"
  have step8: "?S s7 ?s8" by (rule task_step.storing [OF t7(2) refl range save])
  have cell: "th_revision (sm_cells (sy_manager s7) ! h') = stored s7 (tl_thread_id l)"
  proof -
    have "handle_of s7 l = Some h'" using tinvD(5) [OF inv7, of "Suc ROUTER"] t7(1) by simp
    moreover have "\<not> unwritten_save s7 i" for i using t7(2) by (simp add: unwritten_save_def)
    ultimately show ?thesis
      using cell_ok_revision(2) [OF tinvD(4) [OF inv7, of _ _ h']] not_being_persisted [OF inv7 t7(1)]
      by (auto simp: handle_of_sel)
  qed
  show ?thesis
    by (rule that [OF rtranclp.rtrancl_into_rtrancl [OF steps7 step8], of l h'])
      (use t7 st' cell rng t1(3) in \<open>simp_all add: unwritten_save_def ROUTER_def\<close>)
qed

end

section \<open>Properties\<close>

abbreviation sqlite_task_step :: "uuid_lib \<Rightarrow> rstring set \<Rightarrow> sqlite_db sm_system \<Rightarrow> sqlite_db sm_system \<Rightarrow> bool" where
  "sqlite_task_step U K \<equiv> task_step (sqlite_session_store U) U (wf_locator U K) (sqlite_session_of U) (sqlite_thread_of U)"

text \<open>
  C1: a save under the lock fails exactly when a slash command got in between. However the pieces of
  the operations of the router and of any other tasks on one manager over SQLite interleave (with the
  locators the manager made, channel and user names without a colon, thread keys whose uuids differ,
  owners of guards and commands that leave the revision alone, and revisions below \<open>2 ^ 63 - 1\<close>): when a task holds the guard of a thread and persists what it has made
  of it, the save succeeds, the store then holds exactly those messages and that state at the next
  revision and the live cell carries it too, unless the router has just saved a copy of the same
  thread without its lock and still waits to write it back; in that case it fails with the revision
  conflict and the threads of the store are unchanged.
\<close>
theorem locked_save_fails_exactly_after_unlocked_save:
  assumes "sqlite_inv U K db" and "(sqlite_task_step U K)\<^sup>*\<^sup>* (tasks_start db) s"
    and "sy_tasks s j = Holding l h"
    and "th_revision t = th_revision (sm_cells (sy_manager s) ! h)" and "revision_in_range (th_revision t)"
  obtains m where "persist_locked_thread_context (sqlite_session_store U) U u l h now (write_cell h t (sy_manager s)) =
      (if unwritten_save s (tl_thread_id l)
       then Inl (RevisionConflict \<lparr>rc_thread_id = uuid_to_string U (tl_thread_id l),
              rc_expected_revision = th_revision t,
              rc_actual_revision = stored_revision (sqlite_thread_of U (sm_store (sy_manager s))) (tl_thread_id l)\<rparr>)
       else Inr (), m)"
    and "if unwritten_save s (tl_thread_id l)
         then sqlite_thread_of U (sm_store m) = sqlite_thread_of U (sm_store (sy_manager s))
         else \<exists>st. sqlite_thread_of U (sm_store m) (tl_thread_id l) = Some st
                \<and> OJ_Thread.messages st = OJ_Thread.messages t \<and> th_state st = th_state t
                \<and> th_revision st = th_revision t + 1 \<and> th_revision (sm_cells m ! h) = th_revision st"
proof -
  have inv: "sqlite_manager.tinv U K s"
    using sqlite_manager.task_steps_inv [OF assms(2) sqlite_manager.tinv_start [OF assms(1)]] by simp
  show ?thesis
    by (rule sqlite_manager.persist_under_lock [OF inv assms(3-5), of u now], rule that, assumption)
      (simp add: rebind_locator_def set_revision_def sqlite.view_sel split: if_split)
qed

lemma demo_race:
  obtains s l h where "(sqlite_task_step demo_uuid_lib demo_keys)\<^sup>*\<^sup>* (tasks_start sqlite_empty) s"
    "sy_tasks s 1 = Holding l h" "unwritten_save s (tl_thread_id l)"
    "revision_in_range (th_revision (sm_cells (sy_manager s) ! h))"
proof -
  have "revision_in_range (stored_revision (sqlite_thread_of demo_uuid_lib sqlite_empty) i)" for i
    by (simp add: stored_revision_def sqlite_thread_of_def sql_find_thread_def sqlite_empty_def revision_in_range_def)
  then show ?thesis
    using sqlite_manager.router_and_worker [OF demo_sqlite_empty_inv demo_incoming_ok] that by blast
qed

theorem locked_save_fails_exactly_after_unlocked_save_witness:
  "\<exists>s l h m e. (sqlite_task_step demo_uuid_lib demo_keys)\<^sup>*\<^sup>* (tasks_start sqlite_empty) s
     \<and> sy_tasks s 1 = Holding l h
     \<and> persist_locked_thread_context demo_sqlite demo_uuid_lib 8 l h 5
         (write_cell h (sm_cells (sy_manager s) ! h) (sy_manager s)) = (Inl (RevisionConflict e), m)"
proof -
  obtain s l h where s: "(sqlite_task_step demo_uuid_lib demo_keys)\<^sup>*\<^sup>* (tasks_start sqlite_empty) s"
    "sy_tasks s 1 = Holding l h" "unwritten_save s (tl_thread_id l)"
    "revision_in_range (th_revision (sm_cells (sy_manager s) ! h))"
    by (rule demo_race)
  show ?thesis
    by (rule locked_save_fails_exactly_after_unlocked_save [OF demo_sqlite_empty_inv s(1,2) refl s(4), of 8 5])
      (use s in auto)
qed

text \<open>
  C15: the cache stays coherent under interleaving and one thread has one lock. In every state that
  the router and any other tasks can bring a manager over SQLite to (with the locators the manager
  made, channel and user names without a colon, thread keys whose uuids differ, owners of guards and
  commands that leave the revision alone, and revisions below \<open>2 ^ 63 - 1\<close>), each cached handle is the
  handle of one thread only and at most one task holds it; its cell is at the revision of the store
  exactly when no save of the router waits to be written back to it, except while its owner writes
  back a save of its own; and whatever happens later, a cached handle is never replaced.
\<close>
theorem tasks_keep_cache_coherent:
  assumes "sqlite_inv U K db" and "(sqlite_task_step U K)\<^sup>*\<^sup>* (tasks_start db) s" and "(sqlite_task_step U K)\<^sup>*\<^sup>* s s'"
  shows "(\<forall>l h. cached_thread_handle l (sy_manager s) = Some h \<longrightarrow> cached_thread_handle l (sy_manager s') = Some h)
     \<and> (\<forall>l l' h. cached_thread_handle l (sy_manager s) = Some h \<and> cached_thread_handle l' (sy_manager s) = Some h \<longrightarrow>
          tl_session_key l = tl_session_key l' \<and> tl_thread_id l = tl_thread_id l')
     \<and> (\<forall>h j j'. holds_cell h (sy_tasks s j) \<and> holds_cell h (sy_tasks s j') \<longrightarrow> j = j')
     \<and> (\<forall>l h. cached_thread_handle l (sy_manager s) = Some h \<and> \<not> being_persisted s h \<longrightarrow>
          (th_revision (sm_cells (sy_manager s) ! h)
             = stored_revision (sqlite_thread_of U (sm_store (sy_manager s))) (tl_thread_id l)
           \<longleftrightarrow> \<not> unwritten_save s (tl_thread_id l)))"
proof -
  have inv: "sqlite_manager.tinv U K s"
    using sqlite_manager.task_steps_inv [OF assms(2) sqlite_manager.tinv_start [OF assms(1)]] by simp
  note cell = sqlite_manager.tinvD(4) [OF inv]
  show ?thesis
  proof (intro conjI allI impI; (elim conjE)?)
    show "cached_thread_handle l (sy_manager s') = Some h" if "cached_thread_handle l (sy_manager s) = Some h" for l h
      using sqlite_manager.task_steps_inv [OF assms(3) inv] that by (simp add: sm_extends_def sm_handle_cached)
    show "j = j'" if "holds_cell h (sy_tasks s j)" "holds_cell h (sy_tasks s j')" for h j j'
      using sqlite_manager.tinvD(6) [OF inv that] .
    fix l l' h
    assume h: "cached_thread_handle l (sy_manager s) = Some h" "cached_thread_handle l' (sy_manager s) = Some h"
    then show "tl_session_key l = tl_session_key l'" "tl_thread_id l = tl_thread_id l'"
      using cell [of "tl_session_key l'" "tl_thread_id l'" h] by (simp_all add: cell_ok_def sm_handle_cached)
  next
    fix l h assume "cached_thread_handle l (sy_manager s) = Some h" "\<not> being_persisted s h"
    then show "th_revision (sm_cells (sy_manager s) ! h)
             = stored_revision (sqlite_thread_of U (sm_store (sy_manager s))) (tl_thread_id l)
           \<longleftrightarrow> \<not> unwritten_save s (tl_thread_id l)"
      using cell_ok_revision(2) [OF cell [of "tl_session_key l" "tl_thread_id l" h]] by (simp add: sm_handle_cached)
  qed
qed

theorem tasks_keep_cache_coherent_witness:
  "\<exists>s l h. cached_thread_handle l (sy_manager s) = Some h \<and> holds_cell h (sy_tasks s 1) \<and> unwritten_save s (tl_thread_id l)
     \<and> (\<forall>j. holds_cell h (sy_tasks s j) \<longrightarrow> j = 1)
     \<and> th_revision (sm_cells (sy_manager s) ! h)
         \<noteq> stored_revision (sqlite_thread_of demo_uuid_lib (sm_store (sy_manager s))) (tl_thread_id l)"
proof -
  obtain s l h where s: "(sqlite_task_step demo_uuid_lib demo_keys)\<^sup>*\<^sup>* (tasks_start sqlite_empty) s"
    "sy_tasks s 1 = Holding l h" "unwritten_save s (tl_thread_id l)"
    by (rule demo_race)
  have inv: "sqlite_manager.tinv demo_uuid_lib demo_keys s"
    using sqlite_manager.task_steps_inv [OF s(1) sqlite_manager.tinv_start [OF demo_sqlite_empty_inv]] by simp
  have h: "cached_thread_handle l (sy_manager s) = Some h"
    using sqlite_manager.tinvD(5) [OF inv, of 1] s(2) by (simp add: handle_of_def)
  have "\<not> being_persisted s h" by (rule sqlite_manager.not_being_persisted [OF inv s(2)])
  moreover note c = tasks_keep_cache_coherent [OF demo_sqlite_empty_inv s(1) rtranclp.rtrancl_refl]
  have "\<forall>j. holds_cell h (sy_tasks s j) \<longrightarrow> j = 1"
    using conjunct1 [OF conjunct2 [OF conjunct2 [OF c]]] s(2) by (metis holds_cell.simps(1))
  moreover have "th_revision (sm_cells (sy_manager s) ! h)
      \<noteq> stored_revision (sqlite_thread_of demo_uuid_lib (sm_store (sy_manager s))) (tl_thread_id l)"
    if "\<not> being_persisted s h"
    using conjunct2 [OF conjunct2 [OF conjunct2 [OF c]]] h s(3) that by blast
  moreover have "holds_cell h (sy_tasks s 1)" unfolding s(2) by simp
  ultimately show ?thesis using h s(3) by (intro exI conjI) assumption+
qed

end
