(* ===== verification/OJ_Llm.thy ===== *)
theory OJ_Llm
  imports OJ_Chat
begin

text \<open>
  The boundary to the model: requests, responses and tool definitions (\<open>src/llm.rs\<close>,
  \<open>src/agent/tool/mod.rs\<close>), the token limits of \<open>LLMConfig\<close> (\<open>src/config.rs\<close>), and the effects
  of an \<open>async fn ... -> Result<T>\<close>: an action reads and writes a state and returns a value or an
  error; what it wrote before an error stays written.
\<close>

section \<open>Effects\<close>

type_synonym ('s, 'a) act = "'s \<Rightarrow> (err + 'a) \<times> 's"

definition act_ret :: "'a \<Rightarrow> ('s, 'a) act" where
  "act_ret x s = (Inr x, s)"

definition act_fail :: "err \<Rightarrow> ('s, 'a) act" where
  "act_fail e s = (Inl e, s)"

definition act_bind :: "('s, 'a) act \<Rightarrow> ('a \<Rightarrow> ('s, 'b) act) \<Rightarrow> ('s, 'b) act" where
  "act_bind m f s = (case m s of (Inl e, s') \<Rightarrow> (Inl e, s') | (Inr x, s') \<Rightarrow> f x s')"

definition act_lift :: "err + 'a \<Rightarrow> ('s, 'a) act" where
  "act_lift r s = (r, s)"

definition act_context :: "rstring \<Rightarrow> ('s, 'a) act \<Rightarrow> ('s, 'a) act" where
  "act_context c m s = (case m s of (Inl e, s') \<Rightarrow> (Inl (err_context c e), s') | (Inr x, s') \<Rightarrow> (Inr x, s'))"

lemma act_bind_ret [simp]: "act_bind (act_ret x) f = f x"
  by (simp add: act_bind_def act_ret_def fun_eq_iff)

lemma act_bind_fail [simp]: "act_bind (act_fail e) f = act_fail e"
  by (simp add: act_bind_def act_fail_def fun_eq_iff)

lemma act_bind_ret_right [simp]: "act_bind m act_ret = m"
  by (auto simp: act_bind_def act_ret_def fun_eq_iff split: prod.splits sum.splits)

lemma act_bind_assoc: "act_bind (act_bind m f) g = act_bind m (\<lambda>x. act_bind (f x) g)"
  by (auto simp: act_bind_def fun_eq_iff split: prod.splits sum.splits)

lemma act_bind_Inr:
  "act_bind m f s = (Inr y, s'') \<longleftrightarrow> (\<exists>x s'. m s = (Inr x, s') \<and> f x s' = (Inr y, s''))"
  by (auto simp: act_bind_def split: prod.splits sum.splits)

section \<open>Tools as the model sees them\<close>

datatype mcp_transport = Stdio | StreamableHttp

datatype tool_source = Builtin | Mcp rstring rstring mcp_transport

record tool_definition =
  td_name :: rstring
  td_description :: rstring
  td_input_schema :: json
  td_source :: tool_source

record tool_call_request =
  rq_name :: rstring
  rq_arguments :: json

record tool_call_result =
  rs_content :: rstring
  rs_metadata :: json
  rs_is_error :: bool

section \<open>Requests and responses\<close>

record llm_request =
  lq_messages :: "chat_message list"
  lq_tools :: "tool_definition list"

record llm_response =
  lr_message :: "chat_message option"
  lr_tool_calls :: "chat_tool_call list"

text \<open>What the program takes from outside: the model provider, the clock and fresh identifiers.\<close>

record 'e world =
  w_generate :: "llm_request \<Rightarrow> ('e, llm_response) act"
  w_now :: "'e \<Rightarrow> time \<times> 'e"
  w_uuid :: "'e \<Rightarrow> uuid \<times> 'e"

definition act_now :: "'e world \<Rightarrow> ('e, time) act" where
  "act_now w s = (let (t, s') = w_now w s in (Inr t, s'))"

definition act_uuid :: "'e world \<Rightarrow> ('e, uuid) act" where
  "act_uuid w s = (let (u, s') = w_uuid w s in (Inr u, s'))"

definition mock_llm_generate :: "rstring \<Rightarrow> 'e world \<Rightarrow> llm_request \<Rightarrow> ('e, llm_response) act" where
  "mock_llm_generate response w request =
     act_bind (act_now w) (\<lambda>now.
       act_ret \<lparr>lr_message = Some (chat_message_new RoleAssistant response now), lr_tool_calls = []\<rparr>)"

section \<open>Token limits\<close>

record llm_config =
  lc_protocol :: rstring
  lc_provider :: rstring
  lc_model :: rstring
  lc_base_url :: rstring
  lc_api_key :: rstring
  lc_api_key_path :: rstring
  lc_mock_response :: rstring
  lc_context_window_tokens :: "nat option"
  lc_max_output_tokens :: "nat option"
  lc_tokenizer :: rstring

record model_token_limits =
  ml_context_window_tokens :: nat
  ml_max_output_tokens :: nat

definition DEFAULT_CONTEXT_WINDOW_TOKENS :: nat where
  "DEFAULT_CONTEXT_WINDOW_TOKENS = 8192"

definition DEFAULT_MAX_OUTPUT_TOKENS :: nat where
  "DEFAULT_MAX_OUTPUT_TOKENS = 1024"

definition to_ascii_lowercase :: "rstring \<Rightarrow> rstring" where
  "to_ascii_lowercase s = map (\<lambda>c. if 65 \<le> c \<and> c \<le> 90 then c + 32 else c) s"

definition effective_protocol :: "llm_config \<Rightarrow> rstring" where
  "effective_protocol c =
     (let p = to_ascii_lowercase (trim (lc_protocol c)) in
      if p = str ''mock'' \<or> p = str ''mock_llm'' then str ''mock''
      else if p = str ''openai'' \<or> p = str ''openai_compatible'' then str ''openai_compatible''
      else if p = str ''anthropic'' \<or> p = str ''claude'' then str ''anthropic''
      else str ''unknown'')"

definition known_model_token_limits :: "llm_config \<Rightarrow> model_token_limits option" where
  "known_model_token_limits c =
     (let m = to_ascii_lowercase (trim (lc_model c)) in
      if m = str ''kimi-k2.5'' \<or> m = str ''kimi-k2-0905-preview'' \<or> m = str ''kimi-k2-turbo-preview''
         \<or> m = str ''kimi-k2-thinking'' \<or> m = str ''kimi-k2-thinking-turbo''
      then Some \<lparr>ml_context_window_tokens = 262144, ml_max_output_tokens = 32768\<rparr>
      else None)"

definition context_window_tokens :: "llm_config \<Rightarrow> nat" where
  "context_window_tokens c =
     (case lc_context_window_tokens c of
        Some n \<Rightarrow> n
      | None \<Rightarrow>
          (case known_model_token_limits c of
             Some l \<Rightarrow> ml_context_window_tokens l
           | None \<Rightarrow> DEFAULT_CONTEXT_WINDOW_TOKENS))"

definition max_output_tokens :: "llm_config \<Rightarrow> nat" where
  "max_output_tokens c =
     (case lc_max_output_tokens c of
        Some n \<Rightarrow> n
      | None \<Rightarrow>
          (case known_model_token_limits c of
             Some l \<Rightarrow> ml_max_output_tokens l
           | None \<Rightarrow> DEFAULT_MAX_OUTPUT_TOKENS))"

record agent_compact_config =
  acc_enabled :: bool
  acc_auto_compact :: bool
  acc_runtime_threshold_ratio :: rat
  acc_tool_visible_threshold_ratio :: rat
  acc_reserved_output_tokens :: "nat option"
  acc_mock_compacted_assistant :: "rstring option"

end
