(* ===== verification/OJ_Tool_Registry.thy ===== *)
theory OJ_Tool_Registry
  imports OJ_Llm OJ_Thread "HOL-Library.AList"
begin

text \<open>
  The tool registry, \<open>src/agent/tool/mod.rs\<close>: always-visible tools, named toolsets that a thread
  loads and unloads, the dispatch of one tool call, and the synchronisation with MCP servers and
  local skills. A \<open>HashMap\<close> is an association list with distinct keys. What a handler does, the MCP
  manager and the skill registry are reached through the operations in \<open>tool_env\<close>; the state they
  act on is of any type \<open>'e\<close>.
\<close>

section \<open>State\<close>

record tool_call_context =
  tx_thread_id :: "rstring option"

definition tool_call_context_for_thread :: "rstring \<Rightarrow> tool_call_context" where
  "tool_call_context_for_thread thread_id = \<lparr>tx_thread_id = Some thread_id\<rparr>"

record 'e tool_handler =
  hd_definition :: tool_definition
  hd_call :: "tool_call_context \<Rightarrow> tool_call_request \<Rightarrow> ('e, tool_call_result) act"

record toolset_catalog_entry =
  tce_name :: rstring
  tce_description :: rstring

record 'e static_toolset_definition =
  st_entry :: toolset_catalog_entry
  st_handlers :: "(rstring \<times> 'e tool_handler) list"
  st_runtime :: "(rstring \<Rightarrow> ('e, unit) act) option"

datatype 'e registered_toolset =
    StaticToolset "'e static_toolset_definition"
  | McpServerToolset toolset_catalog_entry rstring

fun toolset_entry :: "'e registered_toolset \<Rightarrow> toolset_catalog_entry" where
  "toolset_entry (StaticToolset d) = st_entry d"
| "toolset_entry (McpServerToolset entry server_name) = entry"

fun is_mcp_toolset :: "'e registered_toolset \<Rightarrow> bool" where
  "is_mcp_toolset (McpServerToolset _ _) = True"
| "is_mcp_toolset (StaticToolset _) = False"

record 'e tool_registry =
  tg_always_visible :: "(rstring \<times> 'e tool_handler) list"
  tg_toolsets :: "(rstring \<times> 'e registered_toolset) list"

definition tool_registry_new :: "'e tool_registry" where
  "tool_registry_new = \<lparr>tg_always_visible = [], tg_toolsets = []\<rparr>"

text \<open>The neighbours of the registry.\<close>

record 'e tool_env =
  tv_mcp_list_servers :: "'e \<Rightarrow> (rstring \<times> mcp_transport) list"
  tv_mcp_ensure_server_tools :: "rstring \<Rightarrow> ('e, (rstring \<times> 'e tool_handler) list) act"
  tv_builtin_tools :: "'e tool_handler list"
  tv_browser_toolset :: "'e static_toolset_definition"
  tv_memory_toolset :: "'e static_toolset_definition"
  tv_skills_reload :: "('e, unit) act"
  tv_has_enabled_skills :: "'e \<Rightarrow> bool"
  tv_load_skill_tool :: "'e tool_handler"
  tv_serde_error :: "json \<Rightarrow> err"
  tv_manage_toolset_schema :: json

text \<open>One thread running against one registry: the state of the thread-scoped operations.\<close>

record 'e run_state =
  rn_env :: 'e
  rn_registry :: "'e tool_registry"
  rn_thread :: thread

definition on_env :: "('e, 'a) act \<Rightarrow> (('e, 'z) run_state_scheme, 'a) act" where
  "on_env m s = (let (r, e) = m (rn_env s) in (r, s\<lparr>rn_env := e\<rparr>))"

definition on_thread :: "(thread \<Rightarrow> err + thread) \<Rightarrow> (('e, 'z) run_state_scheme, unit) act" where
  "on_thread f s = (case f (rn_thread s) of Inl e \<Rightarrow> (Inl e, s) | Inr t \<Rightarrow> (Inr (), s\<lparr>rn_thread := t\<rparr>))"

section \<open>Registration\<close>

fun owned_by_static :: "rstring \<Rightarrow> (rstring \<times> 'e registered_toolset) list \<Rightarrow> bool" where
  "owned_by_static n [] = False"
| "owned_by_static n ((_, StaticToolset d) # rest) =
     (map_of (st_handlers d) n \<noteq> None \<or> owned_by_static n rest)"
| "owned_by_static n ((_, McpServerToolset _ _) # rest) = owned_by_static n rest"

definition ensure_tool_name_available :: "rstring \<Rightarrow> 'e tool_registry \<Rightarrow> err + unit" where
  "ensure_tool_name_available tool_name g =
     (if map_of (tg_always_visible g) tool_name \<noteq> None
      then Inl (bail (str ''tool `'' @ tool_name @ str ''` is already registered''))
      else if owned_by_static tool_name (tg_toolsets g)
      then Inl (bail (str ''tool `'' @ tool_name @ str ''` is already owned by another toolset''))
      else Inr ())"

definition registry_register :: "'e tool_handler \<Rightarrow> 'e tool_registry \<Rightarrow> err + 'e tool_registry" where
  "registry_register h g =
     (let name = td_name (hd_definition h) in
      case ensure_tool_name_available name g of
        Inl e \<Rightarrow> Inl e
      | Inr _ \<Rightarrow>
          if map_of (tg_always_visible g) name \<noteq> None
          then Inl (bail (str ''tool `'' @ name @ str ''` is already registered''))
          else Inr (g\<lparr>tg_always_visible := AList.update name h (tg_always_visible g)\<rparr>))"

definition validate_toolset_name :: "rstring \<Rightarrow> err + unit" where
  "validate_toolset_name name =
     (if trim name = [] then Inl (bail (str ''toolset name must not be blank'')) else Inr ())"

fun route_handlers ::
    "rstring \<Rightarrow> 'e tool_registry \<Rightarrow> 'e tool_handler list \<Rightarrow> (rstring \<times> 'e tool_handler) list
     \<Rightarrow> err + (rstring \<times> 'e tool_handler) list" where
  "route_handlers toolset g [] routed = Inr routed"
| "route_handlers toolset g (h # hs) routed =
     (let name = td_name (hd_definition h) in
      if map_of routed name \<noteq> None
      then Inl (bail (str ''toolset `'' @ toolset @ str ''` contains duplicate tool `'' @ name @ str ''`''))
      else case ensure_tool_name_available name g of
        Inl e \<Rightarrow> Inl e
      | Inr _ \<Rightarrow> route_handlers toolset g hs (AList.update name h routed))"

definition register_toolset_with_runtime ::
    "toolset_catalog_entry \<Rightarrow> 'e tool_handler list \<Rightarrow> (rstring \<Rightarrow> ('e, unit) act) option
     \<Rightarrow> 'e tool_registry \<Rightarrow> err + 'e tool_registry" where
  "register_toolset_with_runtime entry handlers runtime g =
     (case validate_toolset_name (tce_name entry) of
        Inl e \<Rightarrow> Inl e
      | Inr _ \<Rightarrow>
     (case route_handlers (tce_name entry) g handlers [] of
        Inl e \<Rightarrow> Inl e
      | Inr routed \<Rightarrow>
          if map_of (tg_toolsets g) (tce_name entry) \<noteq> None
          then Inl (bail (str ''toolset `'' @ tce_name entry @ str ''` is already registered''))
          else Inr (g\<lparr>tg_toolsets := AList.update (tce_name entry)
                 (StaticToolset \<lparr>st_entry = entry, st_handlers = routed, st_runtime = runtime\<rparr>)
                 (tg_toolsets g)\<rparr>)))"

definition register_if_missing :: "'e tool_handler \<Rightarrow> 'e tool_registry \<Rightarrow> 'e tool_registry" where
  "register_if_missing h g =
     (let name = td_name (hd_definition h) in
      if map_of (tg_always_visible g) name \<noteq> None then g
      else g\<lparr>tg_always_visible := AList.update name h (tg_always_visible g)\<rparr>)"

definition toolset_registered :: "rstring \<Rightarrow> 'e tool_registry \<Rightarrow> bool" where
  "toolset_registered name g \<longleftrightarrow> map_of (tg_toolsets g) name \<noteq> None"

definition register_builtin_toolset ::
    "'e static_toolset_definition \<Rightarrow> 'e tool_registry \<Rightarrow> err + 'e tool_registry" where
  "register_builtin_toolset d g =
     (if toolset_registered (tce_name (st_entry d)) g then Inr g
      else register_toolset_with_runtime (st_entry d) (map snd (st_handlers d)) (st_runtime d) g)"

definition sync_skill_handlers :: "'e tool_env \<Rightarrow> 'e \<Rightarrow> 'e tool_registry \<Rightarrow> 'e tool_registry" where
  "sync_skill_handlers v e g =
     (if tv_has_enabled_skills v e
      then g\<lparr>tg_always_visible := AList.update (str ''load_skill'') (tv_load_skill_tool v) (tg_always_visible g)\<rparr>
      else g\<lparr>tg_always_visible := AList.delete (str ''load_skill'') (tg_always_visible g)\<rparr>)"

text \<open>On the registry and its neighbours; a thread that runs against them does not take part.\<close>

definition register_builtin_into :: "'e tool_env \<Rightarrow> ('e \<times> 'e tool_registry, unit) act" where
  "register_builtin_into v = (\<lambda>(e, g).
     let g0 = fold register_if_missing (tv_builtin_tools v) g in
      case register_builtin_toolset (tv_browser_toolset v) g0 of
        Inl x \<Rightarrow> (Inl x, (e, g0))
      | Inr g1 \<Rightarrow>
     (case register_builtin_toolset (tv_memory_toolset v) g1 of
        Inl x \<Rightarrow> (Inl x, (e, g1))
      | Inr g2 \<Rightarrow>
     (case tv_skills_reload v e of
        (Inl x, e1) \<Rightarrow> (Inl x, (e1, g2))
      | (Inr _, e1) \<Rightarrow> (Inr (), (e1, sync_skill_handlers v e1 g2)))))"

definition register_builtin_tools :: "'e tool_env \<Rightarrow> (('e, 'z) run_state_scheme, unit) act" where
  "register_builtin_tools v s =
     (let (r, (e, g)) = register_builtin_into v (rn_env s, rn_registry s) in (r, s\<lparr>rn_registry := g, rn_env := e\<rparr>))"

fun mcp_transport_as_str :: "mcp_transport \<Rightarrow> rstring" where
  "mcp_transport_as_str Stdio = str ''stdio''"
| "mcp_transport_as_str StreamableHttp = str ''streamable_http''"

fun insert_mcp_toolsets ::
    "(rstring \<times> 'e tool_handler) list \<Rightarrow> (rstring \<times> mcp_transport) list
     \<Rightarrow> (rstring \<times> 'e registered_toolset) list \<Rightarrow> (err + unit) \<times> (rstring \<times> 'e registered_toolset) list" where
  "insert_mcp_toolsets always [] toolsets = (Inr (), toolsets)"
| "insert_mcp_toolsets always ((name, transport) # servers) toolsets =
     (if map_of always name \<noteq> None
      then (Inl (bail (str ''toolset `'' @ name @ str ''` conflicts with an always-visible tool name'')), toolsets)
      else if map_of toolsets name \<noteq> None
      then (Inl (bail (str ''toolset `'' @ name @ str ''` is already registered'')), toolsets)
      else insert_mcp_toolsets always servers
        (AList.update name
           (McpServerToolset
              \<lparr>tce_name = name,
               tce_description = str ''Curated MCP toolset from server `'' @ name @ str ''` over `''
                                 @ mcp_transport_as_str transport @ str ''`.''\<rparr> name) toolsets))"

definition sync_mcp_toolsets :: "'e tool_env \<Rightarrow> 'e \<Rightarrow> 'e tool_registry \<Rightarrow> (err + unit) \<times> 'e tool_registry" where
  "sync_mcp_toolsets v e g =
     (let toolsets0 = filter (\<lambda>(_, t). \<not> is_mcp_toolset t) (tg_toolsets g);
          (r, toolsets) = insert_mcp_toolsets (tg_always_visible g) (tv_mcp_list_servers v e) toolsets0 in
      (r, g\<lparr>tg_toolsets := toolsets\<rparr>))"

section \<open>Listing\<close>

definition sort_by_name :: "tool_definition list \<Rightarrow> tool_definition list" where
  "sort_by_name ds = sort_key td_name ds"

definition registry_list :: "'e tool_registry \<Rightarrow> tool_definition list" where
  "registry_list g = sort_by_name (map (hd_definition \<circ> snd) (tg_always_visible g))"

definition load_toolset_definition :: "'e tool_env \<Rightarrow> tool_definition" where
  "load_toolset_definition v =
     \<lparr>td_name = str ''load_toolset'',
      td_description = str ''Load one program-defined toolset into the current internal thread so its tools become visible in later model steps.'',
      td_input_schema = tv_manage_toolset_schema v, td_source = Builtin\<rparr>"

definition unload_toolset_definition :: "'e tool_env \<Rightarrow> tool_definition" where
  "unload_toolset_definition v =
     \<lparr>td_name = str ''unload_toolset'',
      td_description = str ''Unload one program-defined toolset from the current internal thread so its tools disappear from later model steps.'',
      td_input_schema = tv_manage_toolset_schema v, td_source = Builtin\<rparr>"

definition empty_tool_input_schema :: json where
  "empty_tool_input_schema =
     JObj [(str ''type'', JStr (str ''object'')), (str ''properties'', JObj []),
           (str ''required'', JArr []), (str ''additionalProperties'', JBool False)]"

definition compact_tool_definition :: tool_definition where
  "compact_tool_definition =
     \<lparr>td_name = str ''compact'',
      td_description = str ''Compact the current thread chat history into one assistant summary plus a follow-up user continue message so the task can keep going with less context.'',
      td_input_schema = empty_tool_input_schema, td_source = Builtin\<rparr>"

definition resolve_toolset_handlers ::
    "'e tool_env \<Rightarrow> rstring \<Rightarrow> (('e, 'z) run_state_scheme, (rstring \<times> 'e tool_handler) list) act" where
  "resolve_toolset_handlers v toolset_name s =
     (case map_of (tg_toolsets (rn_registry s)) toolset_name of
        None \<Rightarrow> act_fail (bail (str ''toolset `'' @ toolset_name @ str ''` is not registered'')) s
      | Some (StaticToolset d) \<Rightarrow> act_ret (st_handlers d) s
      | Some (McpServerToolset _ server_name) \<Rightarrow> on_env (tv_mcp_ensure_server_tools v server_name) s)"

definition resolve_toolset_runtime ::
    "rstring \<Rightarrow> 'e tool_registry \<Rightarrow> err + (rstring \<Rightarrow> ('e, unit) act) option" where
  "resolve_toolset_runtime toolset_name g =
     (case map_of (tg_toolsets g) toolset_name of
        None \<Rightarrow> Inl (bail (str ''toolset `'' @ toolset_name @ str ''` is not registered''))
      | Some (StaticToolset d) \<Rightarrow> Inr (st_runtime d)
      | Some (McpServerToolset _ _) \<Rightarrow> Inr None)"

fun extend_with_toolsets ::
    "'e tool_env \<Rightarrow> rstring list \<Rightarrow> tool_definition list \<Rightarrow> (('e, 'z) run_state_scheme, tool_definition list) act" where
  "extend_with_toolsets v [] ds = act_ret ds"
| "extend_with_toolsets v (n # ns) ds =
     act_bind (resolve_toolset_handlers v n) (\<lambda>hs.
     extend_with_toolsets v ns (ds @ map (hd_definition \<circ> snd) hs))"

definition list_for_context_static :: "'e tool_env \<Rightarrow> (('e, 'z) run_state_scheme, tool_definition list) act" where
  "list_for_context_static v s =
     act_bind (extend_with_toolsets v (load_toolsets (rn_thread s))
       (registry_list (rn_registry s) @ [load_toolset_definition v, unload_toolset_definition v]))
       (\<lambda>ds. act_ret (sort_by_name ds)) s"

definition list_for_context_with_compact ::
    "'e tool_env \<Rightarrow> bool \<Rightarrow> (('e, 'z) run_state_scheme, tool_definition list) act" where
  "list_for_context_with_compact v compact_visible =
     act_bind (list_for_context_static v) (\<lambda>ds.
     act_ret (sort_by_name (if compact_visible then ds @ [compact_tool_definition] else ds)))"

definition list_toolsets :: "'e tool_registry \<Rightarrow> toolset_catalog_entry list" where
  "list_toolsets g = sort_key tce_name (map (toolset_entry \<circ> snd) (tg_toolsets g))"

definition catalog_prompt_for_context :: "'e tool_registry \<Rightarrow> thread \<Rightarrow> rstring option" where
  "catalog_prompt_for_context g t =
     (let entries = list_toolsets g in
      if entries = [] then None
      else
        let loaded_summary = (if load_toolsets t = [] then str ''none'' else join (str '', '') (load_toolsets t));
            catalog = join [10] (map (\<lambda>e. str ''- '' @ tce_name e @ str '': '' @ tce_description e) entries) in
        Some (str ''You can progressively load optional toolsets with `load_toolset` and remove them with `unload_toolset`.''
              @ [10] @ str ''Available toolsets:'' @ [10] @ catalog @ [10]
              @ str ''Currently loaded toolsets for this thread: '' @ loaded_summary))"

section \<open>Calling\<close>

text \<open>
  \<open>serde\<close> reading \<open>ManageToolsetArguments\<close>: an object with the one string field \<open>name\<close>, unknown
  fields refused, or its one-element sequence form.
\<close>

definition parse_manage_toolset_arguments :: "'e tool_env \<Rightarrow> rstring \<Rightarrow> json \<Rightarrow> err + rstring" where
  "parse_manage_toolset_arguments v tool_name arguments =
     (case (case arguments of
              JObj kvs \<Rightarrow>
                (if list_all (\<lambda>(k, _). k = str ''name'') kvs
                 then (case map_of kvs (str ''name'') of Some (JStr n) \<Rightarrow> Some n | _ \<Rightarrow> None)
                 else None)
            | JArr [JStr n] \<Rightarrow> Some n
            | _ \<Rightarrow> None) of
        Some n \<Rightarrow> Inr n
      | None \<Rightarrow> Inl (err_context (str ''invalid `'' @ tool_name @ str ''` tool arguments'') (tv_serde_error v arguments)))"

definition open_tool :: "'e tool_env \<Rightarrow> rstring \<Rightarrow> (('e, 'z) run_state_scheme, bool) act" where
  "open_tool v tool_name0 =
     (let tool_name = trim tool_name0 in
      if tool_name = [] then act_fail (bail (str ''open_tool requires a non-empty tool name''))
      else
        act_bind (resolve_toolset_handlers v tool_name) (\<lambda>_ s.
          let (inserted, t) = load_toolset tool_name (rn_thread s) in
          (Inr inserted, s\<lparr>rn_thread := t\<rparr>)))"

definition unload_current :: "rstring \<Rightarrow> (('e, 'z) run_state_scheme, bool) act" where
  "unload_current tool_name s =
     (let (removed, t) = unload_toolset tool_name (rn_thread s) in (Inr removed, s\<lparr>rn_thread := t\<rparr>))"

definition close_tool :: "'e tool_env \<Rightarrow> rstring \<Rightarrow> (('e, 'z) run_state_scheme, bool) act" where
  "close_tool v tool_name0 s =
     (let tool_name = trim tool_name0 in
      if tool_name = [] then act_fail (bail (str ''close_tool requires a non-empty tool name'')) s
      else
        let is_loaded = tool_name \<in> set (load_toolsets (rn_thread s)) in
        case (if is_loaded then resolve_toolset_runtime tool_name (rn_registry s) else Inr None) of
          Inr (Some on_unload) \<Rightarrow>
            act_bind (on_env (on_unload (tcl_thread_id (th_locator (rn_thread s)))))
              (\<lambda>_. unload_current tool_name) s
        | _ \<Rightarrow> unload_current tool_name s)"

definition toolset_result_metadata :: "string \<Rightarrow> rstring \<Rightarrow> rstring list \<Rightarrow> string \<Rightarrow> bool \<Rightarrow> json" where
  "toolset_result_metadata event_kind toolset_name loaded flag value =
     JObj [(str ''event_kind'', JStr (str event_kind)), (str ''toolset'', JStr toolset_name),
           (str ''loaded_toolsets'', JArr (map JStr loaded)), (str flag, JBool value),
           (str ''approval_required'', JBool False), (str ''policy_extension_point'', JBool True)]"

definition registry_load_toolset ::
    "'e tool_env \<Rightarrow> tool_call_request \<Rightarrow> (('e, 'z) run_state_scheme, tool_call_result) act" where
  "registry_load_toolset v request =
     act_bind (act_lift (parse_manage_toolset_arguments v (str ''load_toolset'') (rq_arguments request))) (\<lambda>name.
     let toolset_name = trim name in
     act_bind (open_tool v toolset_name) (\<lambda>inserted s.
       (Inr \<lparr>rs_content =
               (if inserted then str ''Toolset `'' @ toolset_name @ str ''` loaded for the current thread.''
                else str ''Toolset `'' @ toolset_name @ str ''` was already loaded for the current thread.''),
             rs_metadata = toolset_result_metadata ''load_toolset'' toolset_name (load_toolsets (rn_thread s))
                             ''already_loaded'' (\<not> inserted),
             rs_is_error = False\<rparr>, s)))"

definition registry_unload_toolset ::
    "'e tool_env \<Rightarrow> tool_call_request \<Rightarrow> (('e, 'z) run_state_scheme, tool_call_result) act" where
  "registry_unload_toolset v request =
     act_bind (act_lift (parse_manage_toolset_arguments v (str ''unload_toolset'') (rq_arguments request))) (\<lambda>name.
     let toolset_name = trim name in
     act_bind (close_tool v toolset_name) (\<lambda>removed s.
       (Inr \<lparr>rs_content =
               (if removed then str ''Toolset `'' @ toolset_name @ str ''` unloaded for the current thread.''
                else str ''Toolset `'' @ toolset_name @ str ''` was not loaded for the current thread.''),
             rs_metadata = toolset_result_metadata ''unload_toolset'' toolset_name (load_toolsets (rn_thread s))
                             ''was_loaded'' removed,
             rs_is_error = False\<rparr>, s)))"

fun find_in_toolsets ::
    "'e tool_env \<Rightarrow> rstring \<Rightarrow> rstring list \<Rightarrow> (('e, 'z) run_state_scheme, 'e tool_handler option) act" where
  "find_in_toolsets v tool_name [] = act_ret None"
| "find_in_toolsets v tool_name (n # ns) =
     act_bind (resolve_toolset_handlers v n) (\<lambda>hs.
     case map_of hs tool_name of
       Some h \<Rightarrow> act_ret (Some h)
     | None \<Rightarrow> find_in_toolsets v tool_name ns)"

definition resolve_handler ::
    "'e tool_env \<Rightarrow> rstring \<Rightarrow> (('e, 'z) run_state_scheme, 'e tool_handler option) act" where
  "resolve_handler v tool_name s =
     (case map_of (tg_always_visible (rn_registry s)) tool_name of
        Some h \<Rightarrow> act_ret (Some h) s
      | None \<Rightarrow> find_in_toolsets v tool_name (load_toolsets (rn_thread s)) s)"

definition call_for_context ::
    "'e tool_env \<Rightarrow> tool_call_request \<Rightarrow> (('e, 'z) run_state_scheme, tool_call_result) act" where
  "call_for_context v request s =
     (let thread_id = tcl_thread_id (th_locator (rn_thread s));
          context = tool_call_context_for_thread thread_id in
      if rq_name request = str ''compact''
      then act_fail (bail (str ''tool `compact` must be handled by the agent loop compact runtime'')) s
      else if rq_name request = str ''load_toolset'' then registry_load_toolset v request s
      else if rq_name request = str ''unload_toolset'' then registry_unload_toolset v request s
      else
        act_bind (resolve_handler v (rq_name request)) (\<lambda>handler.
          case handler of
            None \<Rightarrow> act_fail (bail (str ''tool `'' @ rq_name request @ str ''` is not registered for thread `''
                                 @ thread_id @ str ''`''))
          | Some h \<Rightarrow> on_env (hd_call h context request)) s)"

definition registry_call :: "tool_call_request \<Rightarrow> (('e, 'z) run_state_scheme, tool_call_result) act" where
  "registry_call request s =
     (case map_of (tg_always_visible (rn_registry s)) (rq_name request) of
        None \<Rightarrow> act_fail (bail (str ''tool `'' @ rq_name request @ str ''` is not registered'')) s
      | Some h \<Rightarrow> on_env (hd_call h \<lparr>tx_thread_id = None\<rparr> request) s)"

section \<open>Names in a registry\<close>

text \<open>
  Keys are unique, every handler is filed under the name it declares, and every toolset under the name
  of its catalog entry.
\<close>

definition handlers_ok :: "(rstring \<times> 'e tool_handler) list \<Rightarrow> bool" where
  "handlers_ok hs \<longleftrightarrow> distinct (map fst hs) \<and> list_all (\<lambda>(n, h). td_name (hd_definition h) = n) hs"

definition toolset_ok :: "rstring \<times> 'e registered_toolset \<Rightarrow> bool" where
  "toolset_ok = (\<lambda>(n, t). tce_name (toolset_entry t) = n \<and>
     (case t of StaticToolset d \<Rightarrow> handlers_ok (st_handlers d) | McpServerToolset _ _ \<Rightarrow> True))"

definition registry_ok :: "'e tool_registry \<Rightarrow> bool" where
  "registry_ok g \<longleftrightarrow> handlers_ok (tg_always_visible g) \<and> distinct (map fst (tg_toolsets g))
     \<and> list_all toolset_ok (tg_toolsets g)"

text \<open>The tool names a registry owns, each as often as it has an owner.\<close>

fun toolset_tool_names :: "'e registered_toolset \<Rightarrow> rstring list" where
  "toolset_tool_names (StaticToolset d) = map fst (st_handlers d)"
| "toolset_tool_names (McpServerToolset _ _) = []"

definition owned_tool_names :: "'e tool_registry \<Rightarrow> rstring list" where
  "owned_tool_names g =
     map fst (tg_always_visible g) @ concat (map (toolset_tool_names \<circ> snd) (tg_toolsets g))"

lemma update_new: "map_of xs k = None \<Longrightarrow> AList.update k v xs = xs @ [(k, v)]"
  by (induction xs) (auto split: if_splits)

lemma owned_by_static_iff: "owned_by_static n ts \<longleftrightarrow> n \<in> set (concat (map (toolset_tool_names \<circ> snd) ts))"
  by (induction n ts rule: owned_by_static.induct) (auto simp: map_of_eq_None_iff)

lemma ensure_tool_name_available_iff:
  "ensure_tool_name_available n g = Inr () \<longleftrightarrow> n \<notin> set (owned_tool_names g)"
  by (simp add: ensure_tool_name_available_def owned_by_static_iff owned_tool_names_def map_of_eq_None_iff)

lemma ensure_tool_name_available_ok: "ensure_tool_name_available n g = Inr u \<Longrightarrow> n \<notin> set (owned_tool_names g)"
  using ensure_tool_name_available_iff by (metis unit_eq)

lemma handlers_ok_snoc:
  "handlers_ok (hs @ [(n, h)]) \<longleftrightarrow> handlers_ok hs \<and> n \<notin> fst ` set hs \<and> td_name (hd_definition h) = n"
  by (auto simp: handlers_ok_def)

lemma route_handlers_ok:
  "route_handlers ts g hs routed = Inr out \<Longrightarrow> handlers_ok routed \<Longrightarrow>
     set (map fst routed) \<inter> set (owned_tool_names g) = {} \<Longrightarrow>
     handlers_ok out \<and> set (map fst out) \<inter> set (owned_tool_names g) = {}
     \<and> map snd out = map snd routed @ hs"
proof (induction ts g hs routed rule: route_handlers.induct)
  case (2 ts g h hs routed)
  let ?n = "td_name (hd_definition h)"
  from 2(2) obtain u where new: "map_of routed ?n = None" and av: "ensure_tool_name_available ?n g = Inr u"
    and rest: "route_handlers ts g hs (routed @ [(?n, h)]) = Inr out"
    by (auto simp: Let_def update_new split: if_splits sum.splits)
  have "handlers_ok (routed @ [(?n, h)])"
    using new 2(3) by (simp add: handlers_ok_snoc map_of_eq_None_iff)
  moreover have "set (map fst (routed @ [(?n, h)])) \<inter> set (owned_tool_names g) = {}"
    using 2(4) ensure_tool_name_available_ok [OF av] by auto
  ultimately show ?case
    using 2(1) [OF refl _ av] new rest by (simp add: update_new)
qed auto

lemma registry_register_ok:
  assumes "registry_register h g = Inr g'" "registry_ok g" "distinct (owned_tool_names g)"
  shows "registry_ok g'" "distinct (owned_tool_names g')"
    "tg_always_visible g' = tg_always_visible g @ [(td_name (hd_definition h), h)]"
    "tg_toolsets g' = tg_toolsets g"
proof -
  let ?n = "td_name (hd_definition h)"
  from assms(1) obtain u where av: "ensure_tool_name_available ?n g = Inr u"
    and new: "map_of (tg_always_visible g) ?n = None"
    and g': "g' = g\<lparr>tg_always_visible := tg_always_visible g @ [(?n, h)]\<rparr>"
    by (auto simp: registry_register_def Let_def update_new split: if_splits sum.splits)
  have free: "?n \<notin> set (owned_tool_names g)" by (rule ensure_tool_name_available_ok [OF av])
  show "registry_ok g'"
    using assms(2) new by (simp add: g' registry_ok_def handlers_ok_snoc map_of_eq_None_iff)
  show "distinct (owned_tool_names g')"
    using assms(3) free by (auto simp: g' owned_tool_names_def)
  show "tg_always_visible g' = tg_always_visible g @ [(?n, h)]" "tg_toolsets g' = tg_toolsets g"
    by (simp_all add: g')
qed

lemma register_toolset_ok:
  assumes "register_toolset_with_runtime entry hs rt g = Inr g'" "registry_ok g" "distinct (owned_tool_names g)"
  shows "registry_ok g'" "distinct (owned_tool_names g')" "tg_always_visible g' = tg_always_visible g"
    "\<exists>d. tg_toolsets g' = tg_toolsets g @ [(tce_name entry, StaticToolset d)]
       \<and> st_entry d = entry \<and> map snd (st_handlers d) = hs"
proof -
  from assms(1) obtain routed where r: "route_handlers (tce_name entry) g hs [] = Inr routed"
    and new: "map_of (tg_toolsets g) (tce_name entry) = None"
    and g': "g' = g\<lparr>tg_toolsets := tg_toolsets g @ [(tce_name entry,
               StaticToolset \<lparr>st_entry = entry, st_handlers = routed, st_runtime = rt\<rparr>)]\<rparr>"
    by (auto simp: register_toolset_with_runtime_def update_new split: if_splits sum.splits)
  have ok: "handlers_ok routed" "set (map fst routed) \<inter> set (owned_tool_names g) = {}"
    "map snd routed = hs"
    using route_handlers_ok [OF r] by (auto simp: handlers_ok_def)
  show "registry_ok g'"
    using assms(2) ok(1) new by (simp add: g' registry_ok_def toolset_ok_def map_of_eq_None_iff)
  have names: "owned_tool_names g' = owned_tool_names g @ map fst routed"
    by (simp add: g' owned_tool_names_def)
  show "distinct (owned_tool_names g')"
    unfolding names using assms(3) ok(1,2) by (auto simp: handlers_ok_def)
  show "tg_always_visible g' = tg_always_visible g" by (simp add: g')
  show "\<exists>d. tg_toolsets g' = tg_toolsets g @ [(tce_name entry, StaticToolset d)]
       \<and> st_entry d = entry \<and> map snd (st_handlers d) = hs"
    by (simp add: g' ok(3))
qed

section \<open>Listing and resolving agree\<close>

definition static_handlers :: "'e tool_registry \<Rightarrow> rstring \<Rightarrow> (rstring \<times> 'e tool_handler) list option" where
  "static_handlers g n =
     (case map_of (tg_toolsets g) n of Some (StaticToolset d) \<Rightarrow> Some (st_handlers d) | _ \<Rightarrow> None)"

abbreviation all_static :: "'e tool_registry \<Rightarrow> rstring list \<Rightarrow> bool" where
  "all_static g ns \<equiv> list_all (\<lambda>n. static_handlers g n \<noteq> None) ns"

definition reachable_handlers :: "'e tool_registry \<Rightarrow> rstring list \<Rightarrow> (rstring \<times> 'e tool_handler) list" where
  "reachable_handlers g ns = tg_always_visible g @ concat (map (\<lambda>n. the (static_handlers g n)) ns)"

lemma resolve_toolset_handlers_static:
  "static_handlers (rn_registry s) n = Some hs \<Longrightarrow> resolve_toolset_handlers v n s = (Inr hs, s)"
  by (auto simp: static_handlers_def resolve_toolset_handlers_def act_ret_def
      split: option.splits registered_toolset.splits)

lemma resolve_toolset_handlers_missing:
  "map_of (tg_toolsets (rn_registry s)) n = None \<Longrightarrow>
     resolve_toolset_handlers v n s = (Inl (bail (str ''toolset `'' @ n @ str ''` is not registered'')), s)"
  by (simp add: resolve_toolset_handlers_def act_fail_def)

lemma extend_with_toolsets_static:
  "all_static (rn_registry s) ns \<Longrightarrow>
     extend_with_toolsets v ns ds s
       = (Inr (ds @ map (hd_definition \<circ> snd) (concat (map (\<lambda>n. the (static_handlers (rn_registry s) n)) ns))), s)"
  by (induction ns arbitrary: ds) (auto simp: act_bind_def act_ret_def resolve_toolset_handlers_static)

lemma find_in_toolsets_static:
  "all_static (rn_registry s) ns \<Longrightarrow>
     find_in_toolsets v tn ns s
       = (Inr (map_of (concat (map (\<lambda>n. the (static_handlers (rn_registry s) n)) ns)) tn), s)"
  by (induction ns) (auto simp: act_bind_def act_ret_def resolve_toolset_handlers_static map_add_def
      split: option.splits)

lemma resolve_handler_static:
  "all_static (rn_registry s) (load_toolsets (rn_thread s)) \<Longrightarrow>
     resolve_handler v tn s
       = (Inr (map_of (reachable_handlers (rn_registry s) (load_toolsets (rn_thread s))) tn), s)"
  by (auto simp: resolve_handler_def find_in_toolsets_static reachable_handlers_def act_ret_def map_add_def
      split: option.splits)

lemma set_sort_by_name [simp]: "set (sort_by_name ds) = set ds"
  by (simp add: sort_by_name_def)

lemma list_for_context_static_run:
  assumes "all_static (rn_registry s) (load_toolsets (rn_thread s))"
  obtains ds where "list_for_context_with_compact v b s = (Inr ds, s)"
    and "set ds = hd_definition ` snd ` set (reachable_handlers (rn_registry s) (load_toolsets (rn_thread s)))
           \<union> {load_toolset_definition v, unload_toolset_definition v}
           \<union> (if b then {compact_tool_definition} else {})"
    and "sorted (map td_name ds)"
proof (rule that)
  let ?g = "rn_registry s" and ?ns = "load_toolsets (rn_thread s)"
  let ?base = "registry_list ?g @ [load_toolset_definition v, unload_toolset_definition v]
      @ map (hd_definition \<circ> snd) (concat (map (\<lambda>n. the (static_handlers ?g n)) ?ns))"
  let ?ds = "sort_by_name (if b then sort_by_name ?base @ [compact_tool_definition] else sort_by_name ?base)"
  show "list_for_context_with_compact v b s = (Inr ?ds, s)"
    by (simp add: list_for_context_with_compact_def list_for_context_static_def act_bind_def act_ret_def
        extend_with_toolsets_static [OF assms])
  show "set ?ds = hd_definition ` snd ` set (reachable_handlers ?g ?ns)
           \<union> {load_toolset_definition v, unload_toolset_definition v}
           \<union> (if b then {compact_tool_definition} else {})"
    by (auto simp: registry_list_def reachable_handlers_def image_comp)
  show "sorted (map td_name ?ds)" by (simp add: sort_by_name_def)
qed

lemma reachable_handlers_named:
  assumes "registry_ok g" "all_static g ns" "(n, h) \<in> set (reachable_handlers g ns)"
  shows "td_name (hd_definition h) = n"
  using assms(3)
proof (unfold reachable_handlers_def, simp, elim disjE bexE)
  assume "(n, h) \<in> set (tg_always_visible g)"
  then show ?thesis using assms(1) by (auto simp: registry_ok_def handlers_ok_def list_all_iff)
next
  fix m assume m: "m \<in> set ns" "(n, h) \<in> set (the (static_handlers g m))"
  then obtain d where d: "map_of (tg_toolsets g) m = Some (StaticToolset d)" "(n, h) \<in> set (st_handlers d)"
    using assms(2) by (auto simp: list_all_iff static_handlers_def split: option.splits registered_toolset.splits)
  then have "toolset_ok (m, StaticToolset d)"
    using assms(1) by (auto simp: registry_ok_def list_all_iff dest: map_of_SomeD)
  then show ?thesis using d(2) by (auto simp: toolset_ok_def handlers_ok_def list_all_iff)
qed

section \<open>What a registry operation may change\<close>

text \<open>
  A tool operation leaves the registry alone and touches nothing of the thread but the list of loaded
  toolsets.
\<close>

definition toolsets_only :: "thread \<Rightarrow> thread \<Rightarrow> bool" where
  "toolsets_only t t' \<longleftrightarrow> t' = upd_toolsets (\<lambda>_. load_toolsets t') t"

lemma upd_toolsets_id [simp]: "upd_toolsets (\<lambda>_. load_toolsets t) t = t"
  by (simp add: upd_toolsets_def)

lemma toolsets_only_refl [simp]: "toolsets_only t t"
  by (simp add: toolsets_only_def)

lemma toolsets_only_upd [simp]: "toolsets_only t (upd_toolsets f t)"
  by (simp add: toolsets_only_def) (simp add: upd_toolsets_def)

lemma upd_toolsets_upd: "upd_toolsets f (upd_toolsets g t) = upd_toolsets (\<lambda>x. f (g x)) t"
  by (simp add: upd_toolsets_def)

lemma toolsets_only_load [simp]: "toolsets_only t (snd (load_toolset n t))"
  by (simp add: load_toolset_def Let_def)

lemma toolsets_only_unload [simp]: "toolsets_only t (snd (unload_toolset n t))"
  by (simp add: unload_toolset_def)

lemma toolsets_only_load_pair: "load_toolset n t = (b, t') \<Longrightarrow> toolsets_only t t'"
  using toolsets_only_load [of t n] by simp

lemma toolsets_only_unload_pair: "unload_toolset n t = (b, t') \<Longrightarrow> toolsets_only t t'"
  using toolsets_only_unload [of t n] by simp

lemma toolsets_only_sel:
  assumes "toolsets_only t t'"
  shows "th_thread t' = th_thread t" "th_current_turn t' = th_current_turn t"
    "th_locator t' = th_locator t" "th_revision t' = th_revision t"
    "th_pending_tool_events t' = th_pending_tool_events t" "load_tool_events t' = load_tool_events t"
    "ts_features (th_state t') = ts_features (th_state t)"
  using assms unfolding toolsets_only_def by (metis upd_toolsets_sel)+

definition registry_frame :: "('e, 'z) run_state_scheme \<Rightarrow> ('e, 'z) run_state_scheme \<Rightarrow> bool" where
  "registry_frame s s' \<longleftrightarrow> rn_registry s' = rn_registry s \<and> run_state.more s' = run_state.more s
     \<and> toolsets_only (rn_thread s) (rn_thread s')"

lemma registry_frame_refl [simp]: "registry_frame s s"
  by (simp add: registry_frame_def)

lemma registry_frame_env [simp]: "registry_frame s (s\<lparr>rn_env := e\<rparr>)"
  by (simp add: registry_frame_def)



lemma toolsets_only_trans: "toolsets_only t u \<Longrightarrow> toolsets_only u w \<Longrightarrow> toolsets_only t w"
proof -
  assume u: "toolsets_only t u" and w: "toolsets_only u w"
  have "w = upd_toolsets (\<lambda>_. load_toolsets w) u" using w by (simp only: toolsets_only_def)
  also have "\<dots> = upd_toolsets (\<lambda>_. load_toolsets w) (upd_toolsets (\<lambda>_. load_toolsets u) t)"
    using u by (simp only: toolsets_only_def)
  also have "\<dots> = upd_toolsets (\<lambda>_. load_toolsets w) t" by (simp only: upd_toolsets_upd)
  finally show "toolsets_only t w" by (simp only: toolsets_only_def)
qed

lemma registry_frame_trans: "registry_frame s s' \<Longrightarrow> registry_frame s' s'' \<Longrightarrow> registry_frame s s''"
  unfolding registry_frame_def by (metis toolsets_only_trans)

text \<open>
  An action that keeps within the frame from a given state, and the rules that compose such actions.
\<close>

definition framed :: "(('e, 'z) run_state_scheme, 'a) act \<Rightarrow> ('e, 'z) run_state_scheme \<Rightarrow> bool" where
  "framed m s \<longleftrightarrow> registry_frame s (snd (m s))"

named_theorems framed_intros

lemma framedD: "framed m s \<Longrightarrow> m s = (r, s') \<Longrightarrow> registry_frame s s'"
  by (simp add: framed_def)

lemma framed_ret [framed_intros]: "framed (act_ret x) s"
  by (simp add: framed_def act_ret_def)

lemma framed_fail [framed_intros]: "framed (act_fail e) s"
  by (simp add: framed_def act_fail_def)

lemma framed_lift [framed_intros]: "framed (act_lift r) s"
  by (simp add: framed_def act_lift_def)

lemma framed_env [framed_intros]: "framed (on_env m) s"
  by (simp add: framed_def on_env_def split: prod.splits)

lemma framed_bind [framed_intros]: "framed m s \<Longrightarrow> (\<And>x s'. framed (f x) s') \<Longrightarrow> framed (act_bind m f) s"
  by (auto simp: framed_def act_bind_def split: prod.splits sum.splits)
    (metis registry_frame_trans snd_conv)+

lemma framed_resolve_toolset [framed_intros]: "framed (resolve_toolset_handlers v n) s"
proof -
  note [simp] = framed_fail [unfolded framed_def] framed_ret [unfolded framed_def] framed_env [unfolded framed_def]
  show ?thesis
    by (simp add: framed_def resolve_toolset_handlers_def split: option.split registered_toolset.split)
qed

lemma framed_extend [framed_intros]: "framed (extend_with_toolsets v ns ds) s"
  by (induction ns arbitrary: ds s) (auto intro!: framed_intros)

lemma framed_find [framed_intros]: "framed (find_in_toolsets v tn ns) s"
  by (induction ns arbitrary: s) (auto intro!: framed_intros split: option.split)

lemma framed_list_static [framed_intros]: "framed (list_for_context_static v) s"
proof -
  have "framed (act_bind (extend_with_toolsets v ns ds) (\<lambda>ds. act_ret (sort_by_name ds))) s" for ns ds
    by (intro framed_intros)
  then show ?thesis by (simp add: framed_def list_for_context_static_def)
qed

lemma framed_list [framed_intros]: "framed (list_for_context_with_compact v b) s"
  unfolding list_for_context_with_compact_def by (intro framed_intros)

lemma framed_open_tool [framed_intros]: "framed (open_tool v n) s"
proof -
  have "framed (\<lambda>s. let (inserted, t) = load_toolset (trim n) (rn_thread s)
                    in (Inr inserted, s\<lparr>rn_thread := t\<rparr>)) s" for s :: "('a, 'b) run_state_scheme"
    by (auto simp: framed_def registry_frame_def toolsets_only_load_pair split: prod.split)
  then show ?thesis by (auto simp: open_tool_def Let_def intro!: framed_intros)
qed

lemma framed_unload_current [framed_intros]: "framed (unload_current n) s"
  by (auto simp: framed_def unload_current_def registry_frame_def toolsets_only_unload_pair split: prod.split)

lemma framed_close_tool [framed_intros]: "framed (close_tool v n) s"
proof -
  note [simp] = framed_fail [unfolded framed_def] framed_unload_current [unfolded framed_def]
  have "framed (act_bind (on_env m) (\<lambda>_. unload_current (trim n))) s" for m :: "('a, unit) act"
    by (intro framed_intros)
  then show ?thesis
    by (simp add: framed_def close_tool_def Let_def split: sum.split option.split)
qed

lemma framed_report: "framed (\<lambda>s. (f s, s)) s"
  by (simp add: framed_def)

lemma framed_load [framed_intros]: "framed (registry_load_toolset v q) s"
  unfolding registry_load_toolset_def Let_def
  by (rule framed_bind [OF framed_lift framed_bind [OF framed_open_tool framed_report]])

lemma framed_unload [framed_intros]: "framed (registry_unload_toolset v q) s"
  unfolding registry_unload_toolset_def Let_def
  by (rule framed_bind [OF framed_lift framed_bind [OF framed_close_tool framed_report]])

lemma framed_resolve [framed_intros]: "framed (resolve_handler v n) s"
proof -
  note [simp] = framed_ret [unfolded framed_def] framed_find [unfolded framed_def]
  show ?thesis by (simp add: framed_def resolve_handler_def split: option.split)
qed

lemma framed_call [framed_intros]: "framed (call_for_context v q) s"
proof -
  note [simp] = framed_fail [unfolded framed_def] framed_load [unfolded framed_def]
    framed_unload [unfolded framed_def]
  have "framed (act_bind (resolve_handler v (rq_name q)) (\<lambda>handler.
          case handler of None \<Rightarrow> act_fail e | Some h \<Rightarrow> on_env (hd_call h c q))) s" for e c
    by (rule framed_bind [OF framed_resolve]) (auto split: option.split intro!: framed_fail framed_env)
  then show ?thesis
    by (simp add: framed_def call_for_context_def Let_def)
qed

section \<open>Loaded toolsets stay registered\<close>

abbreviation registered_names :: "'e tool_registry \<Rightarrow> rstring set" where
  "registered_names g \<equiv> fst ` set (tg_toolsets g)"

lemma load_toolset_set: "set (load_toolsets (snd (load_toolset n t))) \<subseteq> set (load_toolsets t) \<union> {trim n}"
  by (auto simp: load_toolset_def Let_def)

lemma unload_toolset_set: "set (load_toolsets (snd (unload_toolset n t))) \<subseteq> set (load_toolsets t)"
  by (auto simp: unload_toolset_def Let_def)

lemma resolve_toolset_handlers_env:
  "resolve_toolset_handlers v n s = (r, s') \<Longrightarrow>
     rn_thread s' = rn_thread s \<and> rn_registry s' = rn_registry s \<and> (\<forall>hs. r = Inr hs \<longrightarrow> n \<in> registered_names (rn_registry s))"
  by (auto simp: resolve_toolset_handlers_def act_fail_def act_ret_def on_env_def
      split: option.splits registered_toolset.splits prod.splits dest!: map_of_SomeD intro: rev_image_eqI)

lemma open_tool_run:
  "open_tool v n s = (r, s') \<Longrightarrow>
     (case r of
        Inl e \<Rightarrow> rn_thread s' = rn_thread s
      | Inr b \<Rightarrow> trim n \<in> registered_names (rn_registry s) \<and> (b, rn_thread s') = load_toolset (trim n) (rn_thread s))"
proof -
  assume run: "open_tool v n s = (r, s')"
  obtain r1 s1 where 1: "resolve_toolset_handlers v (trim n) s = (r1, s1)" by fastforce
  note env = resolve_toolset_handlers_env [OF 1]
  then show ?thesis
    using run 1 by (auto simp: open_tool_def Let_def act_bind_def act_fail_def
        split: if_splits sum.splits prod.splits)
qed

lemma frame_registered: "registry_frame s s' \<Longrightarrow> rn_registry s' = rn_registry s"
  by (simp add: registry_frame_def)

lemma registry_load_toolset_run:
  assumes "registry_load_toolset v q s = (r, s')"
  shows "(case r of
        Inl e \<Rightarrow> rn_thread s' = rn_thread s
      | Inr res \<Rightarrow> \<exists>n. trim n \<in> registered_names (rn_registry s) \<and> rn_thread s' = snd (load_toolset n (rn_thread s)))"
proof (cases "parse_manage_toolset_arguments v (str ''load_toolset'') (rq_arguments q)")
  case (Inl e)
  then show ?thesis using assms by (auto simp: registry_load_toolset_def act_bind_def act_lift_def)
next
  case (Inr name)
  obtain r1 s1 where 1: "open_tool v (trim name) s = (r1, s1)" by fastforce
  note run = open_tool_run [OF 1]
  show ?thesis
  proof (cases r1)
    case (Inl e)
    then have "r = Inl e" "s' = s1"
      using assms Inr 1 by (simp_all add: registry_load_toolset_def act_bind_def act_lift_def Let_def)
    then show ?thesis using run Inl by simp
  next
    case b: (Inr b)
    then have "s' = s1" and r: "\<exists>res. r = Inr res"
      using assms Inr 1 by (auto simp: registry_load_toolset_def act_bind_def act_lift_def Let_def)
    then have "trim name \<in> registered_names (rn_registry s)"
      "(b, rn_thread s') = load_toolset (trim name) (rn_thread s)"
      using run b by simp_all
    then have "trim (trim name) \<in> registered_names (rn_registry s) \<and> rn_thread s' = snd (load_toolset (trim name) (rn_thread s))"
      by (metis snd_conv trim_trim)
    then have "\<exists>n. trim n \<in> registered_names (rn_registry s) \<and> rn_thread s' = snd (load_toolset n (rn_thread s))"
      by (rule exI)
    moreover obtain res where "r = Inr res" using r by blast
    ultimately show ?thesis by (simp only: sum.case)
  qed
qed

lemma close_tool_run:
  "close_tool v n s = (r, s') \<Longrightarrow> set (load_toolsets (rn_thread s')) \<subseteq> set (load_toolsets (rn_thread s))"
  using unload_toolset_set [of "trim n" "rn_thread s"]
  by (auto simp: close_tool_def Let_def unload_current_def act_fail_def act_bind_def on_env_def
      split: if_splits sum.splits option.splits prod.splits)

lemma registry_unload_toolset_run:
  assumes "registry_unload_toolset v q s = (r, s')"
  shows "set (load_toolsets (rn_thread s')) \<subseteq> set (load_toolsets (rn_thread s))"
proof (cases "parse_manage_toolset_arguments v (str ''unload_toolset'') (rq_arguments q)")
  case (Inl e)
  then show ?thesis using assms by (auto simp: registry_unload_toolset_def act_bind_def act_lift_def)
next
  case (Inr name)
  obtain r1 s1 where 1: "close_tool v (trim name) s = (r1, s1)" by fastforce
  have "s' = s1"
    using assms Inr 1 by (cases r1) (auto simp: registry_unload_toolset_def act_bind_def act_lift_def Let_def)
  then show ?thesis using close_tool_run [OF 1] by simp
qed

lemma resolve_handler_thread:
  assumes "resolve_handler v n s = (r, s')"
  shows "rn_thread s' = rn_thread s"
proof -
  have "find_in_toolsets v n ns s = (r, s') \<Longrightarrow> rn_thread s' = rn_thread s" for ns s
  proof (induction ns arbitrary: s)
    case (Cons m ns)
    obtain r1 s1 where 1: "resolve_toolset_handlers v m s = (r1, s1)" by fastforce
    have t: "rn_thread s1 = rn_thread s" using resolve_toolset_handlers_env [OF 1] by simp
    show ?case
      using Cons 1 t by (auto simp: act_bind_def act_ret_def split: sum.splits option.splits)
  qed (simp add: act_ret_def)
  then show ?thesis
    using assms by (auto simp: resolve_handler_def act_ret_def split: option.splits)
qed

lemma call_for_context_loads:
  assumes "call_for_context v q s = (r, s')"
  shows "set (load_toolsets (rn_thread s')) \<subseteq> set (load_toolsets (rn_thread s)) \<union> registered_names (rn_registry s)"
proof -
  consider (compact) "rq_name q = str ''compact''"
    | (load) "rq_name q \<noteq> str ''compact''" "rq_name q = str ''load_toolset''" "registry_load_toolset v q s = (r, s')"
    | (unload) "registry_unload_toolset v q s = (r, s')"
    | (tool) r1 s1 where "resolve_handler v (rq_name q) s = (r1, s1)" "rn_thread s' = rn_thread s1"
    using assms
    by (auto simp: call_for_context_def Let_def act_bind_def act_fail_def on_env_def
        split: if_splits prod.splits sum.splits option.splits)
  then show ?thesis
  proof cases
    case compact
    then show ?thesis using assms by (auto simp: call_for_context_def act_fail_def Let_def)
  next
    case load
    show ?thesis
    proof (cases r)
      case (Inl e)
      then show ?thesis using registry_load_toolset_run [OF load(3)] by simp
    next
      case (Inr res)
      then obtain n where n: "trim n \<in> registered_names (rn_registry s)"
        "rn_thread s' = snd (load_toolset n (rn_thread s))"
        using registry_load_toolset_run [OF load(3)] by auto
      then show ?thesis using load_toolset_set [of n "rn_thread s"] by auto
    qed
  next
    case unload
    then show ?thesis using registry_unload_toolset_run by blast
  next
    case tool
    then show ?thesis using resolve_handler_thread [OF tool(1)] by simp
  qed
qed

lemma call_frame: "call_for_context v q s = (r, s') \<Longrightarrow> registry_frame s s'"
  by (rule framedD [OF framed_call])

section \<open>Properties\<close>

text \<open>A sequence of explicit registrations, stopped by the first refusal.\<close>

datatype 'e registration =
    RegTool "'e tool_handler"
  | RegToolset toolset_catalog_entry "'e tool_handler list" "(rstring \<Rightarrow> ('e, unit) act) option"

fun register_step :: "'e registration \<Rightarrow> 'e tool_registry \<Rightarrow> err + 'e tool_registry" where
  "register_step (RegTool h) g = registry_register h g"
| "register_step (RegToolset entry hs runtime) g = register_toolset_with_runtime entry hs runtime g"

fun register_all :: "'e registration list \<Rightarrow> 'e tool_registry \<Rightarrow> err + 'e tool_registry" where
  "register_all [] g = Inr g"
| "register_all (r # rs) g = (case register_step r g of Inl e \<Rightarrow> Inl e | Inr g' \<Rightarrow> register_all rs g')"

fun registered_handlers :: "'e registration \<Rightarrow> 'e tool_handler list" where
  "registered_handlers (RegTool h) = [h]"
| "registered_handlers (RegToolset entry hs runtime) = hs"

lemma register_step_ok:
  assumes "register_step r g = Inr g'" "registry_ok g" "distinct (owned_tool_names g)"
  shows "registry_ok g' \<and> distinct (owned_tool_names g')
    \<and> set (owned_tool_names g')
        = set (owned_tool_names g) \<union> (td_name \<circ> hd_definition) ` set (registered_handlers r)"
proof (cases r)
  case (RegTool h)
  with assms have "registry_register h g = Inr g'" by simp
  from registry_register_ok [OF this assms(2,3)] show ?thesis
    by (auto simp: RegTool owned_tool_names_def)
next
  case (RegToolset entry hs rt)
  with assms have "register_toolset_with_runtime entry hs rt g = Inr g'" by simp
  note ok = register_toolset_ok [OF this assms(2,3)]
  then obtain d where d: "tg_toolsets g' = tg_toolsets g @ [(tce_name entry, StaticToolset d)]"
    "map snd (st_handlers d) = hs" by blast
  have "handlers_ok (st_handlers d)"
    using ok(1) d(1) by (simp add: registry_ok_def toolset_ok_def)
  then have "fst ` set (st_handlers d) = (td_name \<circ> hd_definition) ` snd ` set (st_handlers d)"
    by (force simp: handlers_ok_def list_all_iff image_iff)
  also have "snd ` set (st_handlers d) = set hs" using d(2) by (metis list.set_map)
  finally show ?thesis
    using ok(1,2) by (auto simp: RegToolset owned_tool_names_def d(1) ok(3))
qed

lemma register_all_ok:
  "register_all rs g = Inr g' \<Longrightarrow> registry_ok g \<Longrightarrow> distinct (owned_tool_names g) \<Longrightarrow>
     registry_ok g' \<and> distinct (owned_tool_names g')
     \<and> set (owned_tool_names g') = set (owned_tool_names g)
         \<union> (td_name \<circ> hd_definition) ` set (concat (map registered_handlers rs))"
proof (induction rs arbitrary: g)
  case (Cons r rs)
  then obtain g1 where 1: "register_step r g = Inr g1" "register_all rs g1 = Inr g'"
    by (auto split: sum.splits)
  show ?case
    using Cons.IH [OF 1(2)] register_step_ok [OF 1(1) Cons.prems(2,3)] by (auto simp: image_Un)
qed simp

text \<open>
  C23: explicit registration gives every tool one owner. However tools and toolsets are registered, in
  any order, the registry never files one tool name twice (always visible or in a toolset), every handler
  is filed under the name it declares, and the names owned are exactly those registered.
\<close>
theorem registration_gives_each_tool_one_owner:
  assumes "register_all rs tool_registry_new = Inr g"
  shows "distinct (owned_tool_names g) \<and> registry_ok g
    \<and> set (owned_tool_names g) = (td_name \<circ> hd_definition) ` set (concat (map registered_handlers rs))"
  using register_all_ok [OF assms]
  by (simp add: tool_registry_new_def registry_ok_def owned_tool_names_def handlers_ok_def)

definition demo_tool :: "string \<Rightarrow> nat tool_handler" where
  "demo_tool name =
     \<lparr>hd_definition = \<lparr>td_name = str name, td_description = [], td_input_schema = JNull, td_source = Builtin\<rparr>,
      hd_call = (\<lambda>_ _. act_ret \<lparr>rs_content = str ''done'', rs_metadata = JNull, rs_is_error = False\<rparr>)\<rparr>"

definition demo_toolset_entry :: toolset_catalog_entry where
  "demo_toolset_entry = \<lparr>tce_name = str ''web'', tce_description = str ''pages''\<rparr>"

definition demo_registry :: "nat tool_registry" where
  "demo_registry =
     \<lparr>tg_always_visible = [(str ''read'', demo_tool ''read'')],
      tg_toolsets = [(str ''web'', StaticToolset
        \<lparr>st_entry = demo_toolset_entry, st_handlers = [(str ''fetch'', demo_tool ''fetch'')], st_runtime = None\<rparr>)]\<rparr>"

theorem registration_gives_each_tool_one_owner_witness:
  "register_all [RegTool (demo_tool ''read''), RegToolset demo_toolset_entry [demo_tool ''fetch''] None]
     tool_registry_new = Inr demo_registry
   \<and> distinct (owned_tool_names demo_registry)"
proof -
  have "trim (str ''web'') = str ''web''" by (rule trim_word) (simp add: str_def is_whitespace_def)
  then have "register_all [RegTool (demo_tool ''read''), RegToolset demo_toolset_entry [demo_tool ''fetch''] None]
     tool_registry_new = Inr demo_registry"
    by (simp add: tool_registry_new_def registry_register_def ensure_tool_name_available_def demo_tool_def
        demo_registry_def register_toolset_with_runtime_def validate_toolset_name_def demo_toolset_entry_def Let_def)
  with registration_gives_each_tool_one_owner [OF this] show ?thesis by blast
qed

text \<open>
  C22: with static toolsets the model is offered exactly the tools it can call. In a well-formed registry
  (\<open>registry_ok\<close>: keys are unique, every handler and every toolset is filed under its own name), for a thread whose
  loaded toolsets are all static (none is an MCP toolset, whose listing and calls probe the server), listing succeeds
  without an effect and is sorted by name; a name is listed exactly when it is one of the two toolset tools, the
  compact tool while that is exposed, or resolves to a handler that declares this name; and a call to a name that is
  not listed fails and changes nothing.
\<close>
theorem visible_tools_are_callable:
  assumes "registry_ok (rn_registry s)"
    and "all_static (rn_registry s) (load_toolsets (rn_thread s))"
  shows "\<exists>ds. list_for_context_with_compact v b s = (Inr ds, s) \<and> sorted (map td_name ds)
    \<and> (\<forall>n. n \<in> td_name ` set ds \<longleftrightarrow>
          n = str ''load_toolset'' \<or> n = str ''unload_toolset'' \<or> b \<and> n = str ''compact''
          \<or> (\<exists>h. resolve_handler v n s = (Inr (Some h), s) \<and> td_name (hd_definition h) = n))
    \<and> (\<forall>q. rq_name q \<notin> td_name ` set ds \<longrightarrow> (\<exists>e. call_for_context v q s = (Inl e, s)))"
proof -
  let ?hs = "reachable_handlers (rn_registry s) (load_toolsets (rn_thread s))"
  obtain ds where ds: "list_for_context_with_compact v b s = (Inr ds, s)"
    "set ds = hd_definition ` snd ` set ?hs
       \<union> {load_toolset_definition v, unload_toolset_definition v}
       \<union> (if b then {compact_tool_definition} else {})" "sorted (map td_name ds)"
    by (rule list_for_context_static_run [OF assms(2)])
  note resolve = resolve_handler_static [OF assms(2)]
  have named: "td_name (hd_definition h) = n" if "(n, h) \<in> set ?hs" for n h
    by (rule reachable_handlers_named [OF assms that])
  have found: "(\<exists>h. map_of ?hs n = Some h \<and> td_name (hd_definition h) = n) \<longleftrightarrow> n \<in> td_name ` hd_definition ` snd ` set ?hs" for n
  proof -
    have "n \<in> td_name ` hd_definition ` snd ` set ?hs \<longleftrightarrow> n \<in> fst ` set ?hs"
      using named by (force simp: image_iff)
    also have "\<dots> \<longleftrightarrow> (\<exists>h. map_of ?hs n = Some h)" by (metis map_of_eq_None_iff not_Some_eq)
    finally show ?thesis using named by (metis map_of_SomeD)
  qed
  have names: "n \<in> td_name ` set ds \<longleftrightarrow>
          n = str ''load_toolset'' \<or> n = str ''unload_toolset'' \<or> b \<and> n = str ''compact''
          \<or> (\<exists>h. resolve_handler v n s = (Inr (Some h), s) \<and> td_name (hd_definition h) = n)" for n
    unfolding resolve using found [of n]
    by (auto simp: ds(2) load_toolset_definition_def unload_toolset_definition_def compact_tool_definition_def)
  moreover have "\<exists>e. call_for_context v q s = (Inl e, s)" if "rq_name q \<notin> td_name ` set ds" for q
  proof (cases "rq_name q = str ''compact''")
    case True
    then show ?thesis by (auto simp: call_for_context_def Let_def act_fail_def)
  next
    case False
    have "rq_name q \<notin> fst ` set ?hs"
      using that named by (force simp: ds(2) image_iff)
    then have "resolve_handler v (rq_name q) s = (Inr None, s)"
      by (simp only: resolve) (simp add: map_of_eq_None_iff)
    moreover have "rq_name q \<noteq> str ''load_toolset''" "rq_name q \<noteq> str ''unload_toolset''"
      using that names by blast+
    ultimately show ?thesis
      using False by (simp add: call_for_context_def Let_def act_bind_def act_fail_def)
  qed
  ultimately show ?thesis using ds(1,3) by blast
qed

definition demo_tool_env :: "nat tool_env" where
  "demo_tool_env =
     \<lparr>tv_mcp_list_servers = (\<lambda>_. []), tv_mcp_ensure_server_tools = (\<lambda>_. act_fail (bail [])),
      tv_builtin_tools = [], tv_browser_toolset = \<lparr>st_entry = demo_toolset_entry, st_handlers = [], st_runtime = None\<rparr>,
      tv_memory_toolset = \<lparr>st_entry = demo_toolset_entry, st_handlers = [], st_runtime = None\<rparr>,
      tv_skills_reload = act_ret (), tv_has_enabled_skills = (\<lambda>_. False), tv_load_skill_tool = demo_tool ''load_skill'',
      tv_serde_error = (\<lambda>_. bail []), tv_manage_toolset_schema = JNull\<rparr>"

definition demo_run_state :: "nat run_state" where
  "demo_run_state =
     \<lparr>rn_env = 0, rn_registry = demo_registry,
      rn_thread = upd_toolsets (\<lambda>_. [str ''web'']) (thread_new demo_locator 0)\<rparr>"

lemma demo_registry_ok: "registry_ok demo_registry"
  by (simp add: demo_registry_def registry_ok_def handlers_ok_def toolset_ok_def demo_tool_def demo_toolset_entry_def)

lemma demo_run_state_static: "all_static (rn_registry demo_run_state) (load_toolsets (rn_thread demo_run_state))"
  by (simp add: demo_run_state_def demo_registry_def static_handlers_def)

theorem visible_tools_are_callable_witness:
  "\<exists>e. call_for_context demo_tool_env \<lparr>rq_name = str ''click'', rq_arguments = JNull\<rparr> demo_run_state
        = (Inl e, demo_run_state)"
proof -
  have ok: "registry_ok (rn_registry demo_run_state)" by (simp add: demo_run_state_def demo_registry_ok)
  have "resolve_handler demo_tool_env (str ''click'') demo_run_state = (Inr None, demo_run_state)"
    by (simp only: resolve_handler_static [OF demo_run_state_static])
      (simp add: demo_run_state_def demo_registry_def reachable_handlers_def static_handlers_def)
  then have none: "\<not> (\<exists>h. resolve_handler demo_tool_env (str ''click'') demo_run_state = (Inr (Some h), demo_run_state)
      \<and> td_name (hd_definition h) = str ''click'')" by simp
  let ?q = "\<lparr>rq_name = str ''click'', rq_arguments = JNull\<rparr>"
  obtain ds :: "tool_definition list" where ds: "\<forall>n. n \<in> td_name ` set ds \<longleftrightarrow>
          n = str ''load_toolset'' \<or> n = str ''unload_toolset'' \<or> False \<and> n = str ''compact''
          \<or> (\<exists>h. resolve_handler demo_tool_env n demo_run_state = (Inr (Some h), demo_run_state) \<and> td_name (hd_definition h) = n)"
    and fails: "\<forall>q. rq_name q \<notin> td_name ` set ds \<longrightarrow> (\<exists>e. call_for_context demo_tool_env q demo_run_state = (Inl e, demo_run_state))"
    using visible_tools_are_callable [OF ok demo_run_state_static, of demo_tool_env False] by blast
  have "str ''click'' \<notin> td_name ` set ds"
    using ds [rule_format, of "str ''click''"] none by (simp del: image_iff)
  then show ?thesis using fails [rule_format, of ?q] by simp
qed

lemma stale_listing:
  assumes "n \<in> set (load_toolsets (rn_thread s))" and "map_of (tg_toolsets (rn_registry s)) n = None"
  shows "\<exists>e s'. list_for_context_with_compact v b s = (Inl e, s')"
proof -
  have "\<exists>e s'. extend_with_toolsets v ns ds s = (Inl e, s')"
    if "n \<in> set ns" "map_of (tg_toolsets (rn_registry s)) n = None" for ns ds and s :: "('a, 'b) run_state_scheme"
    using that
  proof (induction ns arbitrary: ds s)
    case (Cons m ns)
    obtain r1 s1 where 1: "resolve_toolset_handlers v m s = (r1, s1)" by fastforce
    note reg = resolve_toolset_handlers_env [OF 1]
    show ?case
    proof (cases r1)
      case (Inr hs)
      then have "m \<noteq> n" using 1 Cons.prems(2) resolve_toolset_handlers_missing [of s n v] by auto
      then show ?thesis
        using Cons.IH [of s1] Cons.prems reg 1 Inr by (simp add: act_bind_def)
    qed (simp add: act_bind_def 1)
  qed simp
  from this [OF assms(1,2)] obtain e s' where
    "extend_with_toolsets v (load_toolsets (rn_thread s))
       (registry_list (rn_registry s) @ [load_toolset_definition v, unload_toolset_definition v]) s = (Inl e, s')"
    by blast
  then show ?thesis
    by (simp add: list_for_context_with_compact_def list_for_context_static_def act_bind_def)
qed

text \<open>
  A loaded toolset that is no longer registered (an MCP server dropped from the configuration, say)
  blocks the thread: the tool list cannot be built, with or without the compact tool. Unloading it still
  works, and removes exactly it.
\<close>
theorem stale_toolset_blocks_listing:
  assumes "n \<in> set (load_toolsets (rn_thread s))" and "map_of (tg_toolsets (rn_registry s)) n = None"
    and "trim n = n" and "n \<noteq> []"
  shows "(\<exists>e s'. list_for_context_with_compact v b s = (Inl e, s'))
    \<and> close_tool v n s = (Inr True, s\<lparr>rn_thread := upd_toolsets (filter (\<lambda>m. m \<noteq> n)) (rn_thread s)\<rparr>)"
proof
  show "\<exists>e s'. list_for_context_with_compact v b s = (Inl e, s')" by (rule stale_listing [OF assms(1,2)])
  have "length (filter (\<lambda>m. m \<noteq> n) (load_toolsets (rn_thread s))) \<noteq> length (load_toolsets (rn_thread s))"
    using length_filter_neq_iff assms(1) by fast
  then show "close_tool v n s = (Inr True, s\<lparr>rn_thread := upd_toolsets (filter (\<lambda>m. m \<noteq> n)) (rn_thread s)\<rparr>)"
    using assms by (simp add: close_tool_def resolve_toolset_runtime_def unload_current_def unload_toolset_def Let_def)
qed

theorem stale_toolset_blocks_listing_witness:
  "\<exists>e s'. list_for_context_with_compact demo_tool_env True
       (demo_run_state\<lparr>rn_registry := tool_registry_new\<rparr>) = (Inl e, s')"
proof -
  have "trim (str ''web'') = str ''web''" by (rule trim_word) (simp add: str_def is_whitespace_def)
  then show ?thesis
    by (intro stale_toolset_blocks_listing [of "str ''web''", THEN conjunct1])
      (simp_all add: demo_run_state_def tool_registry_new_def)
qed

text \<open>A sequence of tool calls on one thread; failed calls leave what they did and the run goes on.\<close>

definition tool_calls :: "'e tool_env \<Rightarrow> tool_call_request list \<Rightarrow> ('e, 'z) run_state_scheme \<Rightarrow> ('e, 'z) run_state_scheme" where
  "tool_calls v qs s = fold (\<lambda>q s. snd (call_for_context v q s)) qs s"

text \<open>
  Tool calls keep to the toolset list. Whatever tools the model calls, successful or not, the
  registry, the messages, the open turn, the recorded events and the identity of the thread are left as
  they were, and every toolset the thread has loaded was loaded before or is registered.
\<close>
theorem tool_calls_keep_to_the_toolset_list:
  "toolsets_only (rn_thread s) (rn_thread (tool_calls v qs s))
   \<and> messages (rn_thread (tool_calls v qs s)) = messages (rn_thread s)
   \<and> th_current_turn (rn_thread (tool_calls v qs s)) = th_current_turn (rn_thread s)
   \<and> rn_registry (tool_calls v qs s) = rn_registry s
   \<and> set (load_toolsets (rn_thread (tool_calls v qs s)))
       \<subseteq> set (load_toolsets (rn_thread s)) \<union> registered_names (rn_registry s)"
proof -
  have "registry_frame s (tool_calls v qs s)
      \<and> set (load_toolsets (rn_thread (tool_calls v qs s)))
         \<subseteq> set (load_toolsets (rn_thread s)) \<union> registered_names (rn_registry s)"
  proof (induction qs arbitrary: s)
    case (Cons q qs)
    obtain r s1 where 1: "call_for_context v q s = (r, s1)" by fastforce
    have "tool_calls v (q # qs) s = tool_calls v qs s1" by (simp add: tool_calls_def 1)
    then show ?case
      using Cons.IH [of s1] call_frame [OF 1] call_for_context_loads [OF 1]
        registry_frame_trans [OF call_frame [OF 1]] frame_registered [OF call_frame [OF 1]] by auto
  qed (simp add: tool_calls_def)
  then show ?thesis
    using toolsets_only_sel [of "rn_thread s" "rn_thread (tool_calls v qs s)"]
    by (simp add: registry_frame_def)
qed

end
