(* ===== verification/OJ_Compact.thy ===== *)
theory OJ_Compact
  imports OJ_Llm OJ_Thread
begin

text \<open>
  Compaction of chat history: the token budget (\<open>src/compact/budget.rs\<close>), the summarizer
  boundary (\<open>src/compact/provider.rs\<close>), the manager (\<open>src/compact/manager.rs\<close>) and the thresholds
  of \<open>AutoCompactor\<close> (\<open>src/agent/feature/mod.rs\<close>).

  \<open>js\<close> is the compact JSON printer of serde\_json, \<open>fdiv a b\<close> the \<open>f64\<close> quotient
  \<open>a as f64 / b as f64\<close>, and \<open>from_str\<close> the JSON reader of a summary; they are parameters. A
  token count is a \<open>usize\<close> that does not overflow: \<open>nat\<close>.
\<close>

section \<open>Token budget\<close>

record context_budget_report =
  br_token_counts :: "context_token_kind \<rightharpoonup> nat"
  br_total_estimated_tokens :: nat
  br_context_window_tokens :: nat
  br_utilization_ratio :: rat

definition tokens :: "context_token_kind \<Rightarrow> context_budget_report \<Rightarrow> nat" where
  "tokens kind r = (case br_token_counts r kind of Some n \<Rightarrow> n | None \<Rightarrow> 0)"

definition recalculate_totals :: "(nat \<Rightarrow> nat \<Rightarrow> rat) \<Rightarrow> context_budget_report \<Rightarrow> context_budget_report" where
  "recalculate_totals fdiv r =
     (let total = sum_list (map (\<lambda>k. tokens k r) context_token_kind_ALL) in
      r\<lparr>br_total_estimated_tokens := total,
        br_utilization_ratio := fdiv total (max (br_context_window_tokens r) 1)\<rparr>)"

definition context_budget_report_new ::
    "(nat \<Rightarrow> nat \<Rightarrow> rat) \<Rightarrow> (context_token_kind \<rightharpoonup> nat) \<Rightarrow> nat \<Rightarrow> context_budget_report" where
  "context_budget_report_new fdiv counts window =
     recalculate_totals fdiv
       \<lparr>br_token_counts = counts, br_total_estimated_tokens = 0, br_context_window_tokens = window,
        br_utilization_ratio = 0\<rparr>"

definition reaches_ratio :: "rat \<Rightarrow> context_budget_report \<Rightarrow> bool" where
  "reaches_ratio ratio r \<longleftrightarrow> ratio \<le> br_utilization_ratio r"

definition set_tokens :: "context_token_kind \<Rightarrow> nat \<Rightarrow> context_budget_report \<Rightarrow> context_budget_report" where
  "set_tokens kind n r = r\<lparr>br_token_counts := (br_token_counts r)(kind \<mapsto> n)\<rparr>"

definition add_tokens :: "context_token_kind \<Rightarrow> nat \<Rightarrow> context_budget_report \<Rightarrow> context_budget_report" where
  "add_tokens kind n r = set_tokens kind (tokens kind r + n) r"

record context_budget_estimator =
  be_context_window_tokens :: nat
  be_reserved_output_tokens :: nat
  be_tokenizer :: rstring

definition estimator_from_config :: "llm_config \<Rightarrow> agent_compact_config \<Rightarrow> context_budget_estimator" where
  "estimator_from_config llm cc =
     \<lparr>be_context_window_tokens = context_window_tokens llm,
      be_reserved_output_tokens =
        (case lc_max_output_tokens llm of
           Some n \<Rightarrow> n
         | None \<Rightarrow> (case acc_reserved_output_tokens cc of
             Some n \<Rightarrow> n | None \<Rightarrow> max_output_tokens llm)),
      be_tokenizer = lc_tokenizer llm\<rparr>"

definition CHARS_DIV4_TOKENIZER :: rstring where
  "CHARS_DIV4_TOKENIZER = str ''chars_div4''"

definition estimate_chars_div4_tokens :: "rstring \<Rightarrow> nat" where
  "estimate_chars_div4_tokens s =
     (let char_count = length s in
      if char_count = 0 then 0 else (char_count + 3) div 4)"

definition estimate_text_tokens :: "context_budget_estimator \<Rightarrow> rstring \<Rightarrow> nat" where
  "estimate_text_tokens be s =
     (if be_tokenizer be = CHARS_DIV4_TOKENIZER then estimate_chars_div4_tokens s
      else estimate_chars_div4_tokens s)"

definition tool_call_json :: "chat_tool_call \<Rightarrow> json" where
  "tool_call_json c =
     JObj [(str ''id'', JStr (tc_id c)), (str ''name'', JStr (tc_name c)), (str ''arguments'', tc_arguments c)]"

definition estimate_message_tokens ::
    "(json \<Rightarrow> rstring) \<Rightarrow> context_budget_estimator \<Rightarrow> chat_message \<Rightarrow> nat" where
  "estimate_message_tokens js be m =
     (let role_overhead = 4;
          content_tokens = estimate_text_tokens be (msg_content m);
          tool_calls_tokens =
            (if msg_tool_calls m = [] then 0
             else estimate_text_tokens be (js (JArr (map tool_call_json (msg_tool_calls m)))));
          tool_call_id_tokens =
            (case msg_tool_call_id m of Some v \<Rightarrow> estimate_text_tokens be v | None \<Rightarrow> 0) in
      role_overhead + content_tokens + tool_calls_tokens + tool_call_id_tokens)"

definition estimate_tool_tokens ::
    "(json \<Rightarrow> rstring) \<Rightarrow> context_budget_estimator \<Rightarrow> tool_definition \<Rightarrow> nat" where
  "estimate_tool_tokens js be d =
     (let tool_overhead = 8;
          schema_tokens = estimate_text_tokens be (js (td_input_schema d)) in
      tool_overhead + estimate_text_tokens be (td_name d) + estimate_text_tokens be (td_description d)
      + schema_tokens)"

definition estimate ::
    "(json \<Rightarrow> rstring) \<Rightarrow> (nat \<Rightarrow> nat \<Rightarrow> rat) \<Rightarrow> context_budget_estimator \<Rightarrow> chat_message list
     \<Rightarrow> tool_definition list \<Rightarrow> context_budget_report" where
  "estimate js fdiv be ms visible_tools =
     (let r0 = context_budget_report_new fdiv Map.empty (be_context_window_tokens be);
          r1 = fold (\<lambda>m r. add_tokens (for_chat_message_role (msg_role m)) (estimate_message_tokens js be m) r) ms r0;
          visible_tool_tokens = sum_list (map (estimate_tool_tokens js be) visible_tools);
          r2 = set_tokens KindVisibleTool visible_tool_tokens r1;
          r3 = set_tokens KindReservedOutput (be_reserved_output_tokens be) r2 in
      recalculate_totals fdiv r3)"

section \<open>Thresholds\<close>

definition compact_tool_visible :: "agent_compact_config \<Rightarrow> context_budget_report \<Rightarrow> bool" where
  "compact_tool_visible c r = reaches_ratio (acc_tool_visible_threshold_ratio c) r"

definition runtime_compaction_required :: "agent_compact_config \<Rightarrow> context_budget_report \<Rightarrow> bool" where
  "runtime_compaction_required c r = reaches_ratio (acc_runtime_threshold_ratio c) r"

section \<open>The summarizer\<close>

record compact_request =
  cr_messages :: "chat_message list"

definition compact_request_new :: "chat_message list \<Rightarrow> err + compact_request" where
  "compact_request_new ms =
     (if ms = [] then Inl (bail (str ''compact request must contain at least one source message''))
      else Inr \<lparr>cr_messages = ms\<rparr>)"

record compact_summary =
  compacted_assistant :: rstring

definition validate_summary :: "compact_summary \<Rightarrow> err + compact_summary" where
  "validate_summary s =
     (if trim (compacted_assistant s) = []
      then Inl (bail (str ''compact summary compacted_assistant must not be blank''))
      else Inr s)"

text \<open>A \<open>dyn CompactProvider\<close>.\<close>

type_synonym 'e compact_provider = "compact_request \<Rightarrow> ('e, compact_summary) act"

definition static_compact_provider :: "compact_summary \<Rightarrow> 'e compact_provider" where
  "static_compact_provider summary request = act_ret summary"

definition COMPACT_SYSTEM_PROMPT :: rstring where
  "COMPACT_SYSTEM_PROMPT =
     [20320, 26159, 32, 79, 112, 101, 110, 74, 97, 114, 118, 105, 115, 32, 30340, 32, 99,
      111, 109, 112, 97, 99, 116, 32, 115, 117, 109, 109, 97, 114, 105, 122, 101, 114, 12290,
      20320, 20250, 25226, 21382, 21490, 32, 99, 104, 97, 116, 32, 21387, 32553, 25104, 19968,
      26465, 32, 97, 115, 115, 105, 115, 116, 97, 110, 116, 32, 21487, 35265, 30340, 32039,
      20945, 19978, 19979, 25991, 12290, 20005, 26684, 36755, 20986, 32, 74, 83, 79, 78, 32,
      23545, 35937, 65292, 23383, 27573, 24517, 39035, 26159, 32, 96, 99, 111, 109, 112, 97,
      99, 116, 101, 100, 95, 97, 115, 115, 105, 115, 116, 97, 110, 116, 96, 12290, 20869,
      23481, 24517, 39035, 26126, 30830, 35828, 26126, 8220, 36825, 26159, 21387, 32553,
      21518, 30340, 19978, 19979, 25991, 8221, 65292, 24182, 20445, 30041, 20219, 21153,
      30446, 26631, 12289, 29992, 25143, 32422, 26463, 12289, 24403, 21069, 32972, 26223,
      12289, 24403, 21069, 35268, 21010, 12289, 24050, 23436, 25104, 12289, 26410, 23436,
      25104, 21644, 20851, 38190, 20107, 23454, 12290, 19981, 35201, 36755, 20986, 32, 109,
      97, 114, 107, 100, 111, 119, 110, 65292, 19981, 35201, 36755, 20986, 39069, 22806,
      35299, 37322, 12290]"

definition COMPACTED_ASSISTANT_PREFIX :: rstring where
  "COMPACTED_ASSISTANT_PREFIX =
     [36825, 26159, 21387, 32553, 21518, 30340, 19978, 19979, 25991, 65292, 35831, 22522, 20110,
      36825, 20123, 20449, 24687, 32487, 32493, 24403, 21069, 20219, 21153, 65306, 10]"

definition COMPACTED_USER_CONTINUE_MESSAGE :: rstring where
  "COMPACTED_USER_CONTINUE_MESSAGE = [32487, 32493]"

definition render_tool_call :: "(json \<Rightarrow> rstring) \<Rightarrow> chat_tool_call \<Rightarrow> rstring" where
  "render_tool_call js c =
     str ''{id='' @ tc_id c @ str '',name='' @ tc_name c @ str '',arguments='' @ js (tc_arguments c) @ str ''}''"

definition render_chat_message :: "(json \<Rightarrow> rstring) \<Rightarrow> nat \<Rightarrow> chat_message \<Rightarrow> rstring" where
  "render_chat_message js index m =
     (let line = str ''['' @ nat_str index @ str ''][''
                 @ as_label (msg_role m) @ str ''] '' @ msg_content m;
          line1 = (if msg_tool_calls m \<noteq> []
                   then line @ str '' [tool_calls='' @
                        join (str '', '') (map (render_tool_call js) (msg_tool_calls m)) @ str '']''
                   else line) in
      case msg_tool_call_id m of
        Some i \<Rightarrow> line1 @ str '' [tool_call_id='' @ i @ str '']''
      | None \<Rightarrow> line1)"

definition render_chat_history :: "(json \<Rightarrow> rstring) \<Rightarrow> chat_message list \<Rightarrow> rstring" where
  "render_chat_history js ms =
     join [10] (map (\<lambda>(index, m). render_chat_message js (index + 1) m) (zip [0..<length ms] ms))"

record compact_prompt =
  cp_system_prompt :: rstring
  cp_user_prompt :: rstring

definition COMPACT_USER_PROMPT_HEAD :: rstring where
  "COMPACT_USER_PROMPT_HEAD =
     [20320, 23558, 25910, 21040, 38656, 35201, 34987, 32, 99, 111, 109, 112, 97, 99, 116,
      32, 30340, 32, 99, 104, 97, 116, 32, 21382, 21490, 12290, 10, 35831, 36755, 20986, 32,
      74, 83, 79, 78, 65306, 123, 34, 99, 111, 109, 112, 97, 99, 116, 101, 100, 95, 97, 115,
      115, 105, 115, 116, 97, 110, 116, 34, 58, 34, 46, 46, 46, 34, 125, 10, 99, 104, 97, 116,
      95, 104, 105, 115, 116, 111, 114, 121, 58, 10]"

definition build_compact_prompt :: "(json \<Rightarrow> rstring) \<Rightarrow> compact_request \<Rightarrow> compact_prompt" where
  "build_compact_prompt js request =
     \<lparr>cp_system_prompt = COMPACT_SYSTEM_PROMPT,
      cp_user_prompt = COMPACT_USER_PROMPT_HEAD @ render_chat_history js (cr_messages request)\<rparr>"

definition rfind_char :: "nat \<Rightarrow> rstring \<Rightarrow> nat option" where
  "rfind_char c s = map_option (\<lambda>i. length s - 1 - i) (find_char c (rev s))"

text \<open>\<open>raw.get(start..=end)\<close> is None when the range is reversed, and empty when \<open>end + 1 = start\<close>.\<close>

definition extract_json_object :: "rstring \<Rightarrow> rstring option" where
  "extract_json_object raw =
     (case find_char (of_char (CHR ''{'')) raw of
        None \<Rightarrow> None
      | Some start \<Rightarrow>
          (case rfind_char (of_char (CHR ''}'')) raw of
             None \<Rightarrow> None
           | Some stop \<Rightarrow>
               if start \<le> stop + 1 then Some (take (stop + 1 - start) (drop start raw)) else None))"

definition parse_compact_summary ::
    "(rstring \<Rightarrow> err + compact_summary) \<Rightarrow> rstring \<Rightarrow> err + compact_summary" where
  "parse_compact_summary from_str raw =
     (let candidate = (case extract_json_object (trim raw) of Some c \<Rightarrow> c | None \<Rightarrow> trim raw) in
      case from_str candidate of
        Inl e \<Rightarrow> Inl (err_context (str ''compact provider returned invalid JSON'') e)
      | Inr s \<Rightarrow> validate_summary s)"

definition llm_compact_provider ::
    "(json \<Rightarrow> rstring) \<Rightarrow> (rstring \<Rightarrow> err + compact_summary) \<Rightarrow> 'e world \<Rightarrow> 'e compact_provider" where
  "llm_compact_provider js from_str w request =
     (let prompt = build_compact_prompt js request in
      act_bind (act_now w) (\<lambda>t1.
      act_bind (act_now w) (\<lambda>t2.
      act_bind (act_context (str ''compact provider failed to generate a summary'')
        (w_generate w
          \<lparr>lq_messages = [chat_message_new RoleSystem (cp_system_prompt prompt) t1,
                          chat_message_new RoleUser (cp_user_prompt prompt) t2],
           lq_tools = []\<rparr>)) (\<lambda>response.
      if lr_tool_calls response \<noteq> []
      then act_fail (bail (str ''compact provider must not return tool calls''))
      else case lr_message response of
        None \<Rightarrow> act_fail (bail (str ''compact provider returned no assistant message''))
      | Some m \<Rightarrow> act_lift (parse_compact_summary from_str (msg_content m))))))"

section \<open>The manager\<close>

record message_compaction_outcome =
  mo_source_message_count :: nat
  mo_summary :: compact_summary
  mo_compacted_messages :: "chat_message list"

definition build_compacted_messages :: "compact_summary \<Rightarrow> time \<Rightarrow> chat_message list" where
  "build_compacted_messages summary compacted_at =
     [chat_message_new RoleAssistant (COMPACTED_ASSISTANT_PREFIX @ compacted_assistant summary) compacted_at,
      chat_message_new RoleUser COMPACTED_USER_CONTINUE_MESSAGE compacted_at]"

definition compact_messages ::
    "'e compact_provider \<Rightarrow> chat_message list \<Rightarrow> time \<Rightarrow> ('e, message_compaction_outcome option) act" where
  "compact_messages provider ms compacted_at =
     (if ms = [] then act_ret None
      else
        let compactable_messages = filter (\<lambda>m. msg_role m \<noteq> RoleSystem) ms in
        if compactable_messages = [] then act_ret None
        else
          act_bind (act_lift (compact_request_new compactable_messages)) (\<lambda>request.
          act_bind (provider request) (\<lambda>summary.
          act_ret (Some
            \<lparr>mo_source_message_count = length compactable_messages, mo_summary = summary,
             mo_compacted_messages = build_compacted_messages summary compacted_at\<rparr>))))"

section \<open>The budget adds up\<close>

lemma tokens_set [simp]: "tokens k (set_tokens k' n r) = (if k = k' then n else tokens k r)"
  by (simp add: tokens_def set_tokens_def)

lemma tokens_add [simp]: "tokens k (add_tokens k' n r) = (if k = k' then tokens k r + n else tokens k r)"
  by (simp add: add_tokens_def)

lemma tokens_recalculate [simp]: "tokens k (recalculate_totals fdiv r) = tokens k r"
  by (simp add: recalculate_totals_def tokens_def Let_def)

lemma window_simps [simp]:
  "br_context_window_tokens (set_tokens k n r) = br_context_window_tokens r"
  "br_context_window_tokens (add_tokens k n r) = br_context_window_tokens r"
  "br_context_window_tokens (recalculate_totals fdiv r) = br_context_window_tokens r"
  "br_context_window_tokens (context_budget_report_new fdiv c w) = w"
  by (simp_all add: set_tokens_def add_tokens_def recalculate_totals_def context_budget_report_new_def Let_def)

lemma recalculate_totals_sel:
  "br_total_estimated_tokens (recalculate_totals fdiv r)
     = tokens KindSystem r + tokens KindChat r + tokens KindVisibleTool r + tokens KindReservedOutput r"
  "br_utilization_ratio (recalculate_totals fdiv r)
     = fdiv (br_total_estimated_tokens (recalculate_totals fdiv r)) (max (br_context_window_tokens r) 1)"
  by (simp_all add: recalculate_totals_def context_token_kind_ALL_def Let_def)

lemma tokens_fold_messages:
  "tokens k (fold (\<lambda>m. add_tokens (for_chat_message_role (msg_role m)) (f m)) ms r)
     = tokens k r + sum_list (map f (filter (\<lambda>m. for_chat_message_role (msg_role m) = k) ms))"
  by (induction ms arbitrary: r) auto

lemma window_fold_messages [simp]:
  "br_context_window_tokens (fold (\<lambda>m. add_tokens (g m) (f m)) ms r) = br_context_window_tokens r"
  by (induction ms arbitrary: r) auto

lemma for_role_kind:
  "for_chat_message_role r = KindSystem \<longleftrightarrow> r = RoleSystem"
  "for_chat_message_role r = KindChat \<longleftrightarrow> r \<noteq> RoleSystem"
  "for_chat_message_role r \<noteq> KindVisibleTool" "for_chat_message_role r \<noteq> KindReservedOutput"
  by (cases r; simp)+

lemma tokens_new [simp]: "tokens k (context_budget_report_new fdiv Map.empty w) = 0"
  by (simp add: context_budget_report_new_def) (simp add: tokens_def)

lemma estimate_tokens:
  "tokens KindSystem (estimate js fdiv be ms ts) = sum_list (map (estimate_message_tokens js be) (filter is_system ms))"
  "tokens KindChat (estimate js fdiv be ms ts)
     = sum_list (map (estimate_message_tokens js be) (filter (\<lambda>m. \<not> is_system m) ms))"
  "tokens KindVisibleTool (estimate js fdiv be ms ts) = sum_list (map (estimate_tool_tokens js be) ts)"
  "tokens KindReservedOutput (estimate js fdiv be ms ts) = be_reserved_output_tokens be"
  by (simp_all add: estimate_def Let_def tokens_fold_messages for_role_kind)

lemma estimate_total:
  "br_total_estimated_tokens (estimate js fdiv be ms ts)
     = sum_list (map (estimate_message_tokens js be) ms) + sum_list (map (estimate_tool_tokens js be) ts)
       + be_reserved_output_tokens be"
proof -
  have split: "sum_list (map f (filter P ms)) + sum_list (map f (filter (\<lambda>m. \<not> P m) ms)) = sum_list (map f ms)"
    for f :: "chat_message \<Rightarrow> nat" and P
    by (induction ms) auto
  show ?thesis
    using estimate_tokens [of js fdiv be ms ts] split [of "estimate_message_tokens js be" is_system]
    by (simp add: estimate_def Let_def recalculate_totals_sel)
qed

lemma estimate_ratio:
  "br_utilization_ratio (estimate js fdiv be ms ts)
     = fdiv (br_total_estimated_tokens (estimate js fdiv be ms ts)) (max (be_context_window_tokens be) 1)"
  by (simp add: estimate_def Let_def recalculate_totals_sel)

lemma estimate_text_tokens_ceil: "estimate_text_tokens be s = (length s + 3) div 4"
  by (simp add: estimate_text_tokens_def estimate_chars_div4_tokens_def Let_def)

section \<open>Shape of a compaction\<close>

lemma compact_messages_cases:
  "compact_messages provider ms stamp s =
     (let cs = filter (\<lambda>m. \<not> is_system m) ms in
      if cs = [] then (Inr None, s)
      else case provider \<lparr>cr_messages = cs\<rparr> s of
             (Inl e, s') \<Rightarrow> (Inl e, s')
           | (Inr summary, s') \<Rightarrow>
               (Inr (Some \<lparr>mo_source_message_count = length cs, mo_summary = summary,
                           mo_compacted_messages = build_compacted_messages summary stamp\<rparr>), s'))"
  by (auto simp: compact_messages_def compact_request_new_def act_bind_def act_lift_def act_ret_def
      Let_def split: prod.splits sum.splits)

lemma build_compacted_messages_props:
  "filter is_system (build_compacted_messages summary stamp) = []"
  "filter (\<lambda>m. \<not> is_system m) (build_compacted_messages summary stamp) = build_compacted_messages summary stamp"
  "length (build_compacted_messages summary stamp) = 2"
  by (simp_all add: build_compacted_messages_def)

lemma tokens_compacted:
  "sum_list (map (estimate_message_tokens js be) (build_compacted_messages summary stamp))
     = 9 + (length (compacted_assistant summary) + 28) div 4"
  by (simp add: build_compacted_messages_def estimate_message_tokens_def estimate_text_tokens_ceil Let_def
      COMPACTED_ASSISTANT_PREFIX_def COMPACTED_USER_CONTINUE_MESSAGE_def)

section \<open>The JSON object in a reply\<close>

lemma trim_around:
  assumes "\<not> is_whitespace x" "\<not> is_whitespace y"
  obtains a' b' where "trim (a @ x # m @ y # b) = a' @ x # m @ y # b'" "set a' \<subseteq> set a" "set b' \<subseteq> set b"
proof -
  have start: "trim_start (a @ x # m @ y # b) = dropWhile is_whitespace a @ x # m @ y # b"
    using assms(1) by (induction a) (auto simp: trim_start_def)
  have "trim_end (c @ y # b) = c @ y # rev (dropWhile is_whitespace (rev b))" for c
    using assms(2) unfolding trim_end_def
    by (simp add: dropWhile_append)
  from this [of "dropWhile is_whitespace a @ x # m"]
  have "trim (a @ x # m @ y # b)
      = dropWhile is_whitespace a @ x # m @ y # rev (dropWhile is_whitespace (rev b))"
    by (simp add: trim_def start)
  moreover have "set (dropWhile is_whitespace a) \<subseteq> set a" by (meson set_dropWhileD subsetI)
  moreover have "set (rev (dropWhile is_whitespace (rev b))) \<subseteq> set b"
    by (metis set_dropWhileD set_rev subsetI)
  ultimately show ?thesis by (rule that)
qed

lemma extract_json_object_found:
  assumes "123 \<notin> set a" "125 \<notin> set b"
  shows "extract_json_object (a @ 123 # m @ 125 # b) = Some (123 # m @ [125])"
proof -
  let ?s = "a @ 123 # m @ 125 # b"
  have start: "find_char 123 ?s = Some (length a)"
    using find_char_append [OF assms(1)] by simp
  have "rev ?s = rev b @ 125 # rev (a @ 123 # m)" by simp
  then have "find_char 125 (rev ?s) = Some (length b)"
    using find_char_append [of 125 "rev b" "rev (a @ 123 # m)"] assms(2) by simp
  then have stop: "rfind_char 125 ?s = Some (length a + 1 + length m)" by (simp add: rfind_char_def)
  show ?thesis
    by (simp add: extract_json_object_def start stop)
qed

section \<open>Properties\<close>

text \<open>A concrete estimator and summarizer for the witnesses.\<close>

definition demo_estimator :: context_budget_estimator where
  "demo_estimator =
     \<lparr>be_context_window_tokens = 256, be_reserved_output_tokens = 16, be_tokenizer = str ''chars_div4''\<rparr>"

definition demo_fdiv :: "nat \<Rightarrow> nat \<Rightarrow> rat" where
  "demo_fdiv a b = of_nat a / of_nat b"

definition demo_summary :: compact_summary where
  "demo_summary = \<lparr>compacted_assistant = str ''sum''\<rparr>"

definition demo_history_thread :: thread where
  "demo_history_thread =
     thread_run [OpBeginTurn 7 None 1, OpAppendMessage demo_system_message,
                 OpAppendMessage demo_user_message] (thread_new demo_locator 0)"

lemma demo_history_thread_sel:
  "messages demo_history_thread = [demo_system_message, demo_user_message]"
  "\<exists>turn. th_current_turn demo_history_thread = Some turn"
  by (simp_all add: demo_history_thread_def thread_op_step_def thread_op_defs thread_new_def
      thread_context_new_def demo_user_message_def demo_system_message_def)

text \<open>
  The budget report accounts for every message and tool exactly once. Its total is the sum over all
  messages, all visible tools and the reserved output; the system bucket holds exactly the system
  messages, the chat bucket exactly the others; the ratio is that total over the context window, which
  is never taken as zero.
\<close>
theorem budget_accounts_for_everything:
  "let r = estimate js fdiv be ms ts; f = estimate_message_tokens js be in
   br_total_estimated_tokens r
     = sum_list (map f ms) + sum_list (map (estimate_tool_tokens js be) ts) + be_reserved_output_tokens be
   \<and> tokens KindSystem r = sum_list (map f (filter is_system ms))
   \<and> tokens KindChat r = sum_list (map f (filter (\<lambda>m. \<not> is_system m) ms))
   \<and> br_utilization_ratio r
       = fdiv (br_total_estimated_tokens r) (max (be_context_window_tokens be) 1)"
  by (simp add: Let_def estimate_total estimate_tokens estimate_ratio)

text \<open>
  Crossing a threshold is stable. With a quotient that is monotone in its dividend, a request that
  reaches the runtime threshold still reaches it after any messages and tools are added; the same holds
  of the threshold that exposes the compact tool.
\<close>
theorem threshold_is_monotone:
  assumes "\<And>a b n. a \<le> b \<Longrightarrow> fdiv a n \<le> fdiv b n"
    and "runtime_compaction_required c (estimate js fdiv be ms ts)
         \<and> compact_tool_visible c (estimate js fdiv be ms ts)"
  shows "runtime_compaction_required c (estimate js fdiv be (ms @ ms') (ts @ ts'))
         \<and> compact_tool_visible c (estimate js fdiv be (ms @ ms') (ts @ ts'))"
proof -
  have "br_total_estimated_tokens (estimate js fdiv be ms ts)
      \<le> br_total_estimated_tokens (estimate js fdiv be (ms @ ms') (ts @ ts'))"
    by (simp add: estimate_total)
  then have "br_utilization_ratio (estimate js fdiv be ms ts)
      \<le> br_utilization_ratio (estimate js fdiv be (ms @ ms') (ts @ ts'))"
    by (simp add: estimate_ratio assms(1))
  then show ?thesis
    using assms(2) by (auto simp: runtime_compaction_required_def compact_tool_visible_def reaches_ratio_def)
qed

definition demo_compact_config :: agent_compact_config where
  "demo_compact_config =
     \<lparr>acc_enabled = True, acc_auto_compact = True, acc_runtime_threshold_ratio = 1 / 16,
      acc_tool_visible_threshold_ratio = 1 / 16, acc_reserved_output_tokens = None,
      acc_mock_compacted_assistant = None\<rparr>"

theorem threshold_is_monotone_witness:
  "runtime_compaction_required demo_compact_config
     (estimate (\<lambda>_. []) demo_fdiv demo_estimator ([demo_user_message] @ [demo_system_message]) ([] @ []))"
proof -
  have "demo_fdiv a n \<le> demo_fdiv b n" if "a \<le> b" for a b n
    using that by (simp add: demo_fdiv_def divide_right_mono)
  moreover have "br_utilization_ratio (estimate (\<lambda>_. []) demo_fdiv demo_estimator [demo_user_message] []) = 22 / 256"
    by (simp add: estimate_ratio estimate_total demo_fdiv_def demo_estimator_def demo_user_message_def
        estimate_message_tokens_def estimate_text_tokens_ceil Let_def)
  ultimately show ?thesis
    using threshold_is_monotone [of demo_fdiv demo_compact_config "\<lambda>_. []" demo_estimator
        "[demo_user_message]" "[]" "[demo_system_message]" "[]"]
    by (simp add: runtime_compaction_required_def compact_tool_visible_def reaches_ratio_def demo_compact_config_def)
qed

text \<open>
  C40: what a compaction does to a thread. Written back into the thread, the outcome leaves the system
  messages in place followed by exactly two messages, whatever the history was; it covered every other
  message; the system budget is unchanged and the chat budget depends only on the length of the summary.
\<close>
theorem compaction_bounds_history:
  assumes "compact_messages provider (messages t) stamp s = (Inr (Some out), s')"
    and "replace_messages_after_compaction now (mo_compacted_messages out) t = Inr t'"
  shows "messages t' = filter is_system (messages t) @ build_compacted_messages (mo_summary out) stamp
    \<and> length (messages t') = length (filter is_system (messages t)) + 2
    \<and> mo_source_message_count out + length (filter is_system (messages t)) = length (messages t)
    \<and> tokens KindSystem (estimate js fdiv be (messages t') ts) = tokens KindSystem (estimate js fdiv be (messages t) ts)
    \<and> tokens KindChat (estimate js fdiv be (messages t') ts)
        = 9 + (length (compacted_assistant (mo_summary out)) + 28) div 4"
proof -
  have out: "mo_compacted_messages out = build_compacted_messages (mo_summary out) stamp"
    "mo_source_message_count out = length (filter (\<lambda>m. \<not> is_system m) (messages t))"
    using assms(1) by (auto simp: compact_messages_cases Let_def split: if_splits prod.splits sum.splits)
  have m: "messages t' = filter is_system (messages t) @ build_compacted_messages (mo_summary out) stamp"
    using compaction_sel(1) [OF assms(2)] by (simp add: out)
  have "length (filter (\<lambda>m. \<not> is_system m) (messages t)) + length (filter is_system (messages t))
      = length (messages t)"
    using sum_length_filter_compl [of is_system "messages t"] by simp
  then show ?thesis
    by (simp add: m out(2) build_compacted_messages_props estimate_tokens tokens_compacted)
qed

theorem compaction_bounds_history_witness:
  "\<exists>out t'. compact_messages (static_compact_provider demo_summary) (messages demo_history_thread) 5 ()
        = (Inr (Some out), ())
     \<and> messages t' = [demo_system_message] @ build_compacted_messages demo_summary 5"
proof -
  let ?out = "\<lparr>mo_source_message_count = 1, mo_summary = demo_summary,
     mo_compacted_messages = build_compacted_messages demo_summary 5\<rparr>"
  have c: "compact_messages (static_compact_provider demo_summary) (messages demo_history_thread) 5 ()
        = (Inr (Some ?out), ())"
    by (simp add: compact_messages_cases static_compact_provider_def act_ret_def demo_history_thread_sel
        demo_user_message_def demo_system_message_def)
  obtain t' where t': "replace_messages_after_compaction 6 (mo_compacted_messages ?out) demo_history_thread = Inr t'"
    using demo_history_thread_sel(2)
    by (auto simp: replace_messages_after_compaction_def current_turn_mut_def Let_def)
  have "messages t' = [demo_system_message] @ build_compacted_messages demo_summary 5"
    using compaction_bounds_history [OF c t'] demo_history_thread_sel(1)
    by (simp add: demo_user_message_def demo_system_message_def)
  with c show ?thesis by blast
qed

text \<open>
  A summarizer may wrap its JSON in prose. Whatever surrounds one object, as long as no opening brace
  precedes it and no closing brace follows it, what the reader is given is the object itself, and the
  result is the validated summary it reads; a blank summary is refused.
\<close>
theorem wrapped_summary_is_read:
  assumes "123 \<notin> set before" and "125 \<notin> set behind"
    and "from_str (123 # body @ [125]) = Inr summary"
  shows "parse_compact_summary from_str (before @ 123 # body @ 125 # behind)
           = (if trim (compacted_assistant summary) = []
              then Inl (bail (str ''compact summary compacted_assistant must not be blank''))
              else Inr summary)"
proof -
  obtain a b where t: "trim (before @ 123 # body @ 125 # behind) = a @ 123 # body @ 125 # b"
    "set a \<subseteq> set before" "set b \<subseteq> set behind"
    using trim_around [of 123 125 before body behind] by (auto simp: is_whitespace_def)
  have "extract_json_object (trim (before @ 123 # body @ 125 # behind)) = Some (123 # body @ [125])"
    using extract_json_object_found [of a b body] t assms(1,2) by auto
  then show ?thesis using assms(3) by (simp add: parse_compact_summary_def validate_summary_def)
qed

theorem wrapped_summary_is_read_witness:
  "parse_compact_summary (\<lambda>s. if s = [123, 125] then Inr demo_summary else Inl (bail []))
     (str ''here: '' @ 123 # [] @ 125 # str '' done'') = Inr demo_summary"
proof -
  have "trim (compacted_assistant demo_summary) \<noteq> []"
    by (simp add: trim_eq_Nil_iff demo_summary_def str_def is_whitespace_def)
  then show ?thesis
    using wrapped_summary_is_read [of "str ''here: ''" "str '' done''"
        "\<lambda>s. if s = [123, 125] then Inr demo_summary else Inl (bail [])" "[]" demo_summary]
    by (simp add: str_def)
qed

end
