(* ===== verification/OJ_Hook.thy ===== *)
theory OJ_Hook
  imports OJ_Llm
begin

text \<open>
  Lifecycle hooks (\<open>src/agent/hook.rs\<close>) and their configuration (the \<open>agent.hook\<close> section of
  \<open>src/config.rs\<close>). Running the shell is a parameter: \<open>run\<close> takes the \<open>sh -lc\<close> script and the two
  environment variables and says how the process ended. \<open>js\<close> prints JSON, \<open>dbg\<close> is the \<open>Debug\<close>
  form of a string.
\<close>

section \<open>Events\<close>

datatype hook_event_kind =
    HookPreToolUse
  | HookPostToolUse
  | HookPostToolUseFailure
  | HookUserPromptSubmit
  | HookStop
  | HookSubagentStart
  | HookSubagentStop
  | HookPreCompact
  | HookPermissionRequest
  | HookNotification
  | HookSessionStart
  | HookSessionEnd
  | HookSetup
  | HookTeammateIdle
  | HookTaskCompleted
  | HookConfigChange
  | HookWorktreeCreate
  | HookWorktreeRemove

fun hook_kind_as_str :: "hook_event_kind \<Rightarrow> rstring" where
  "hook_kind_as_str HookPreToolUse = str ''pre_tool_use''"
| "hook_kind_as_str HookPostToolUse = str ''post_tool_use''"
| "hook_kind_as_str HookPostToolUseFailure = str ''post_tool_use_failure''"
| "hook_kind_as_str HookUserPromptSubmit = str ''user_prompt_submit''"
| "hook_kind_as_str HookStop = str ''stop''"
| "hook_kind_as_str HookSubagentStart = str ''subagent_start''"
| "hook_kind_as_str HookSubagentStop = str ''subagent_stop''"
| "hook_kind_as_str HookPreCompact = str ''pre_compact''"
| "hook_kind_as_str HookPermissionRequest = str ''permission_request''"
| "hook_kind_as_str HookNotification = str ''notification''"
| "hook_kind_as_str HookSessionStart = str ''session_start''"
| "hook_kind_as_str HookSessionEnd = str ''session_end''"
| "hook_kind_as_str HookSetup = str ''setup''"
| "hook_kind_as_str HookTeammateIdle = str ''teammate_idle''"
| "hook_kind_as_str HookTaskCompleted = str ''task_completed''"
| "hook_kind_as_str HookConfigChange = str ''config_change''"
| "hook_kind_as_str HookWorktreeCreate = str ''worktree_create''"
| "hook_kind_as_str HookWorktreeRemove = str ''worktree_remove''"

fun handler_name :: "hook_event_kind \<Rightarrow> rstring" where
  "handler_name HookPreToolUse = str ''configured_command_hook_pre_tool_use''"
| "handler_name HookPostToolUse = str ''configured_command_hook_post_tool_use''"
| "handler_name HookPostToolUseFailure = str ''configured_command_hook_post_tool_use_failure''"
| "handler_name HookUserPromptSubmit = str ''configured_command_hook_user_prompt_submit''"
| "handler_name HookStop = str ''configured_command_hook_stop''"
| "handler_name HookSubagentStart = str ''configured_command_hook_subagent_start''"
| "handler_name HookSubagentStop = str ''configured_command_hook_subagent_stop''"
| "handler_name HookPreCompact = str ''configured_command_hook_pre_compact''"
| "handler_name HookPermissionRequest = str ''configured_command_hook_permission_request''"
| "handler_name HookNotification = str ''configured_command_hook_notification''"
| "handler_name HookSessionStart = str ''configured_command_hook_session_start''"
| "handler_name HookSessionEnd = str ''configured_command_hook_session_end''"
| "handler_name HookSetup = str ''configured_command_hook_setup''"
| "handler_name HookTeammateIdle = str ''configured_command_hook_teammate_idle''"
| "handler_name HookTaskCompleted = str ''configured_command_hook_task_completed''"
| "handler_name HookConfigChange = str ''configured_command_hook_config_change''"
| "handler_name HookWorktreeCreate = str ''configured_command_hook_worktree_create''"
| "handler_name HookWorktreeRemove = str ''configured_command_hook_worktree_remove''"

definition hook_event_kind_from_name :: "rstring \<Rightarrow> err + hook_event_kind" where
  "hook_event_kind_from_name event_name =
     (if event_name = str ''pre_tool_use'' then Inr HookPreToolUse
      else if event_name = str ''post_tool_use'' then Inr HookPostToolUse
      else if event_name = str ''post_tool_use_failure'' then Inr HookPostToolUseFailure
      else if event_name = str ''user_prompt_submit'' then Inr HookUserPromptSubmit
      else if event_name = str ''stop'' then Inr HookStop
      else if event_name = str ''subagent_start'' then Inr HookSubagentStart
      else if event_name = str ''subagent_stop'' then Inr HookSubagentStop
      else if event_name = str ''pre_compact'' then Inr HookPreCompact
      else if event_name = str ''permission_request'' then Inr HookPermissionRequest
      else if event_name = str ''notification'' then Inr HookNotification
      else if event_name = str ''session_start'' then Inr HookSessionStart
      else if event_name = str ''session_end'' then Inr HookSessionEnd
      else if event_name = str ''setup'' then Inr HookSetup
      else if event_name = str ''teammate_idle'' then Inr HookTeammateIdle
      else if event_name = str ''task_completed'' then Inr HookTaskCompleted
      else if event_name = str ''config_change'' then Inr HookConfigChange
      else if event_name = str ''worktree_create'' then Inr HookWorktreeCreate
      else if event_name = str ''worktree_remove'' then Inr HookWorktreeRemove
      else Inl (bail (str ''unsupported hook event name: '' @ event_name)))"

record hook_event =
  he_kind :: hook_event_kind
  he_payload :: json

text \<open>A \<open>dyn HookHandler\<close> and the registry, whose handlers are kept in registration order.\<close>

record 'e hook_handler =
  hh_name :: rstring
  hh_handle :: "hook_event \<Rightarrow> ('e, unit) act"

type_synonym 'e hook_registry = "'e hook_handler list"

definition hook_register :: "'e hook_handler \<Rightarrow> 'e hook_registry \<Rightarrow> 'e hook_registry" where
  "hook_register h r = r @ [h]"

fun hook_emit :: "'e hook_registry \<Rightarrow> hook_event \<Rightarrow> ('e, unit) act" where
  "hook_emit [] event = act_ret ()"
| "hook_emit (h # hs) event = act_bind (hh_handle h event) (\<lambda>_. hook_emit hs event)"

section \<open>Configured commands\<close>

definition DEFAULT_HOOK_TIMEOUT_MS :: nat where
  "DEFAULT_HOOK_TIMEOUT_MS = 30000"

datatype process_end =
    TimedOut
  | NotStarted err
  | Exited bool "int option" rstring rstring

record 'e shell =
  sh_run :: "rstring \<Rightarrow> (rstring \<times> rstring) list \<Rightarrow> 'e \<Rightarrow> process_end \<times> 'e"
  sh_dbg :: "rstring \<Rightarrow> rstring"
  sh_js :: "json \<Rightarrow> rstring"

definition posix_quote :: "rstring \<Rightarrow> rstring" where
  "posix_quote part = [39] @ concat (map (\<lambda>c. if c = 39 then [39, 34, 39, 34, 39] else [c]) part) @ [39]"

definition build_posix_hook_command :: "rstring list \<Rightarrow> rstring" where
  "build_posix_hook_command parts = join [32] (map posix_quote parts)"

definition dbg_list :: "(rstring \<Rightarrow> rstring) \<Rightarrow> rstring list \<Rightarrow> rstring" where
  "dbg_list dbg xs = str ''['' @ join (str '', '') (map dbg xs) @ str '']''"

definition dbg_code :: "int option \<Rightarrow> rstring" where
  "dbg_code c = (case c of None \<Rightarrow> str ''None'' | Some i \<Rightarrow> str ''Some('' @ int_str i @ str '')'')"

definition configured_command_handle ::
    "'e shell \<Rightarrow> hook_event_kind \<Rightarrow> rstring list \<Rightarrow> hook_event \<Rightarrow> ('e, unit) act" where
  "configured_command_handle sh kind command event s =
     (if he_kind event \<noteq> kind then (Inr (), s)
      else
        let name = hook_kind_as_str (he_kind event);
            (outcome, s') = sh_run sh (build_posix_hook_command command)
               [(str ''OPENJARVIS_HOOK_EVENT'', name), (str ''OPENJARVIS_HOOK_PAYLOAD'', sh_js sh (he_payload event))] s in
        (case outcome of
           NotStarted e \<Rightarrow>
             Inl (err_context (str ''failed to execute hook '' @ name @ str '' with command ''
                               @ dbg_list (sh_dbg sh) command) e)
         | TimedOut \<Rightarrow>
             Inl (bail (str ''hook '' @ name @ str '' timed out after '' @ nat_str DEFAULT_HOOK_TIMEOUT_MS @ str '' ms''))
         | Exited success code stdout stderr \<Rightarrow>
             if success then Inr ()
             else
               let out = trim stdout; er = trim stderr; detail = (if er = [] then out else er) in
               Inl (bail (str ''hook '' @ name @ str '' failed with status '' @ dbg_code code
                          @ str '': '' @ detail)),
         s'))"

definition configured_command_hook :: "'e shell \<Rightarrow> hook_event_kind \<Rightarrow> rstring list \<Rightarrow> 'e hook_handler" where
  "configured_command_hook sh kind command =
     \<lparr>hh_name = handler_name kind, hh_handle = configured_command_handle sh kind command\<rparr>"

section \<open>Configuration\<close>

text \<open>\<open>HookCommandConfig\<close> is its list of parts.\<close>

type_synonym hook_command_config = "rstring list"

record agent_hook_config =
  hc_pre_tool_use :: "hook_command_config option"
  hc_post_tool_use :: "hook_command_config option"
  hc_post_tool_use_failure :: "hook_command_config option"
  hc_user_prompt_submit :: "hook_command_config option"
  hc_stop :: "hook_command_config option"
  hc_subagent_start :: "hook_command_config option"
  hc_subagent_stop :: "hook_command_config option"
  hc_pre_compact :: "hook_command_config option"
  hc_permission_request :: "hook_command_config option"
  hc_notification :: "hook_command_config option"
  hc_session_start :: "hook_command_config option"
  hc_session_end :: "hook_command_config option"
  hc_setup :: "hook_command_config option"
  hc_teammate_idle :: "hook_command_config option"
  hc_task_completed :: "hook_command_config option"
  hc_config_change :: "hook_command_config option"
  hc_worktree_create :: "hook_command_config option"
  hc_worktree_remove :: "hook_command_config option"

definition push_command ::
    "rstring \<Rightarrow> hook_command_config option \<Rightarrow> (rstring \<times> hook_command_config) list
     \<Rightarrow> (rstring \<times> hook_command_config) list" where
  "push_command event_name command commands =
     (case command of Some c \<Rightarrow> commands @ [(event_name, c)] | None \<Rightarrow> commands)"

definition configured_commands :: "agent_hook_config \<Rightarrow> (rstring \<times> hook_command_config) list" where
  "configured_commands c =
     (let commands0 = [];
          commands1 = push_command (str ''pre_tool_use'') (hc_pre_tool_use c) commands0;
          commands2 = push_command (str ''post_tool_use'') (hc_post_tool_use c) commands1;
          commands3 = push_command (str ''post_tool_use_failure'') (hc_post_tool_use_failure c) commands2;
          commands4 = push_command (str ''user_prompt_submit'') (hc_user_prompt_submit c) commands3;
          commands5 = push_command (str ''stop'') (hc_stop c) commands4;
          commands6 = push_command (str ''subagent_start'') (hc_subagent_start c) commands5;
          commands7 = push_command (str ''subagent_stop'') (hc_subagent_stop c) commands6;
          commands8 = push_command (str ''pre_compact'') (hc_pre_compact c) commands7;
          commands9 = push_command (str ''permission_request'') (hc_permission_request c) commands8;
          commands10 = push_command (str ''notification'') (hc_notification c) commands9;
          commands11 = push_command (str ''session_start'') (hc_session_start c) commands10;
          commands12 = push_command (str ''session_end'') (hc_session_end c) commands11;
          commands13 = push_command (str ''setup'') (hc_setup c) commands12;
          commands14 = push_command (str ''teammate_idle'') (hc_teammate_idle c) commands13;
          commands15 = push_command (str ''task_completed'') (hc_task_completed c) commands14;
          commands16 = push_command (str ''config_change'') (hc_config_change c) commands15;
          commands17 = push_command (str ''worktree_create'') (hc_worktree_create c) commands16;
          commands18 = push_command (str ''worktree_remove'') (hc_worktree_remove c) commands17 in
      commands18)"

fun validate_parts :: "rstring \<Rightarrow> nat \<Rightarrow> rstring list \<Rightarrow> err + unit" where
  "validate_parts event_name index [] = Inr ()"
| "validate_parts event_name index (part # parts) =
     (if trim part = []
      then Inl (bail (event_name @ str '' hook command part at index '' @ nat_str index @ str '' must not be blank''))
      else validate_parts event_name (index + 1) parts)"

definition hook_command_validate :: "rstring \<Rightarrow> hook_command_config \<Rightarrow> err + unit" where
  "hook_command_validate event_name command =
     (if command = [] then Inl (bail (event_name @ str '' hook command must not be empty''))
      else validate_parts event_name 0 command)"

fun validate_commands :: "(rstring \<times> hook_command_config) list \<Rightarrow> err + unit" where
  "validate_commands [] = Inr ()"
| "validate_commands ((event_name, command) # rest) =
     (case hook_command_validate event_name command of
        Inl e \<Rightarrow> Inl e | Inr _ \<Rightarrow> validate_commands rest)"

definition agent_hook_config_validate :: "agent_hook_config \<Rightarrow> err + unit" where
  "agent_hook_config_validate c = validate_commands (configured_commands c)"

fun register_commands ::
    "'e shell \<Rightarrow> (rstring \<times> hook_command_config) list \<Rightarrow> 'e hook_registry \<Rightarrow> err + 'e hook_registry" where
  "register_commands sh [] r = Inr r"
| "register_commands sh ((event_name, command) # rest) r =
     (case hook_event_kind_from_name event_name of
        Inl e \<Rightarrow> Inl e
      | Inr kind \<Rightarrow> register_commands sh rest (hook_register (configured_command_hook sh kind command) r))"

definition register_configured ::
    "'e shell \<Rightarrow> agent_hook_config \<Rightarrow> 'e hook_registry \<Rightarrow> err + 'e hook_registry" where
  "register_configured sh c r =
     (case agent_hook_config_validate c of
        Inl e \<Rightarrow> Inl e
      | Inr _ \<Rightarrow> register_commands sh (configured_commands c) r)"

definition hook_registry_from_config :: "'e shell \<Rightarrow> agent_hook_config \<Rightarrow> err + 'e hook_registry" where
  "hook_registry_from_config sh c =
     (case agent_hook_config_validate c of
        Inl e \<Rightarrow> Inl e
      | Inr _ \<Rightarrow> register_configured sh c [])"

section \<open>Names\<close>

lemma hook_kind_roundtrip [simp]: "hook_event_kind_from_name (hook_kind_as_str k) = Inr k"
  by (cases k) (simp_all add: hook_event_kind_from_name_def)

section \<open>Shell words\<close>

text \<open>
  How a POSIX shell splits a command line made of blanks, single-quoted and double-quoted text: the
  reading of a quoted part. None stands for anything else (an unquoted operator, an open quote, an
  expansion).
\<close>

datatype sh_mode = Bare | Single | Double

definition sh_cur :: "rstring option \<Rightarrow> rstring" where
  "sh_cur w = (case w of None \<Rightarrow> [] | Some v \<Rightarrow> v)"

fun sh_split :: "sh_mode \<Rightarrow> rstring option \<Rightarrow> rstring \<Rightarrow> rstring list option" where
  "sh_split Bare w [] = Some (case w of None \<Rightarrow> [] | Some v \<Rightarrow> [v])"
| "sh_split Single w [] = None"
| "sh_split Double w [] = None"
| "sh_split Bare w (c # s) =
     (if c = 39 then sh_split Single (Some (sh_cur w)) s
      else if c = 34 then sh_split Double (Some (sh_cur w)) s
      else if c = 32 then
        (case w of None \<Rightarrow> sh_split Bare None s | Some v \<Rightarrow> map_option ((#) v) (sh_split Bare None s))
      else None)"
| "sh_split Single w (c # s) =
     (if c = 39 then sh_split Bare w s else sh_split Single (Some (sh_cur w @ [c])) s)"
| "sh_split Double w (c # s) =
     (if c = 34 then sh_split Bare w s
      else if c = 36 \<or> c = 96 \<or> c = 92 then None
      else sh_split Double (Some (sh_cur w @ [c])) s)"

lemma sh_split_escaped:
  "sh_split Single (Some v) (concat (map (\<lambda>c. if c = 39 then [39, 34, 39, 34, 39] else [c]) part) @ 39 # s)
     = sh_split Bare (Some (v @ part)) s"
  by (induction part arbitrary: v) (auto simp: sh_cur_def)

lemma sh_split_quoted: "sh_split Bare None (posix_quote part @ s) = sh_split Bare (Some part) s"
  using sh_split_escaped [of "[]" part s] by (simp add: posix_quote_def sh_cur_def)

section \<open>Properties\<close>

text \<open>
  Hook commands cannot be broken out of. Whatever characters the configured parts hold, quotes
  included, the shell reads the built command line as exactly those words.
\<close>
theorem hook_command_words_are_the_parts:
  "sh_split Bare None (build_posix_hook_command parts) = Some parts"
proof -
  have "sh_split Bare None (join [32] (map posix_quote parts)) = Some parts"
  proof (induction parts rule: induct_list012)
    case (2 p)
    show ?case using sh_split_quoted [of p "[]"] by simp
  next
    case (3 p q ps)
    then show ?case by (simp add: sh_split_quoted)
  qed simp
  then show ?thesis by (simp add: build_posix_hook_command_def)
qed

text \<open>The command configured for an event.\<close>

fun hook_command_for :: "agent_hook_config \<Rightarrow> hook_event_kind \<Rightarrow> hook_command_config option" where
  "hook_command_for c HookPreToolUse = hc_pre_tool_use c"
| "hook_command_for c HookPostToolUse = hc_post_tool_use c"
| "hook_command_for c HookPostToolUseFailure = hc_post_tool_use_failure c"
| "hook_command_for c HookUserPromptSubmit = hc_user_prompt_submit c"
| "hook_command_for c HookStop = hc_stop c"
| "hook_command_for c HookSubagentStart = hc_subagent_start c"
| "hook_command_for c HookSubagentStop = hc_subagent_stop c"
| "hook_command_for c HookPreCompact = hc_pre_compact c"
| "hook_command_for c HookPermissionRequest = hc_permission_request c"
| "hook_command_for c HookNotification = hc_notification c"
| "hook_command_for c HookSessionStart = hc_session_start c"
| "hook_command_for c HookSessionEnd = hc_session_end c"
| "hook_command_for c HookSetup = hc_setup c"
| "hook_command_for c HookTeammateIdle = hc_teammate_idle c"
| "hook_command_for c HookTaskCompleted = hc_task_completed c"
| "hook_command_for c HookConfigChange = hc_config_change c"
| "hook_command_for c HookWorktreeCreate = hc_worktree_create c"
| "hook_command_for c HookWorktreeRemove = hc_worktree_remove c"


definition all_hook_kinds :: "hook_event_kind list" where
  "all_hook_kinds =
     [HookPreToolUse, HookPostToolUse, HookPostToolUseFailure, HookUserPromptSubmit, HookStop,
      HookSubagentStart, HookSubagentStop, HookPreCompact, HookPermissionRequest, HookNotification,
      HookSessionStart, HookSessionEnd, HookSetup, HookTeammateIdle, HookTaskCompleted,
      HookConfigChange, HookWorktreeCreate, HookWorktreeRemove]"

lemma all_hook_kinds: "k \<in> set all_hook_kinds" "distinct all_hook_kinds"
  by (cases k) (simp_all add: all_hook_kinds_def)

definition opt_list :: "('a \<Rightarrow> 'b) \<Rightarrow> 'a option \<Rightarrow> 'b list" where
  "opt_list f x = (case x of None \<Rightarrow> [] | Some y \<Rightarrow> [f y])"

lemma push_command_opt: "push_command n x cs = cs @ opt_list (\<lambda>c. (n, c)) x"
  by (simp add: push_command_def opt_list_def split: option.splits)

lemma configured_commands_eq:
  "configured_commands c
     = concat (map (\<lambda>k. opt_list (\<lambda>cmd. (hook_kind_as_str k, cmd)) (hook_command_for c k)) all_hook_kinds)"
  unfolding configured_commands_def Let_def push_command_opt all_hook_kinds_def by simp

lemma register_commands_eq:
  "register_commands sh (concat (map (\<lambda>k. opt_list (\<lambda>cmd. (hook_kind_as_str k, cmd)) (g k)) ks)) r
     = Inr (r @ concat (map (\<lambda>k. opt_list (configured_command_hook sh k) (g k)) ks))"
  by (induction ks arbitrary: r) (auto simp: opt_list_def hook_register_def split: option.splits)

lemma hook_emit_opt:
  "hook_emit (opt_list (configured_command_hook sh k) x @ r) ev
     = (case x of
          None \<Rightarrow> hook_emit r ev
        | Some cmd \<Rightarrow> act_bind (configured_command_handle sh k cmd ev) (\<lambda>_. hook_emit r ev))"
  by (simp add: opt_list_def configured_command_hook_def split: option.splits)

lemma configured_command_skip:
  "he_kind ev \<noteq> k \<Longrightarrow> configured_command_handle sh k cmd ev = act_ret ()"
  by (simp add: configured_command_handle_def act_ret_def fun_eq_iff)

lemma hook_emit_absent:
  "he_kind ev \<notin> set ks \<Longrightarrow>
     hook_emit (concat (map (\<lambda>k. opt_list (configured_command_hook sh k) (g k)) ks)) ev = act_ret ()"
  by (induction ks) (auto simp: hook_emit_opt configured_command_skip split: option.splits)

lemma hook_emit_present:
  "distinct ks \<Longrightarrow> he_kind ev \<in> set ks \<Longrightarrow>
     hook_emit (concat (map (\<lambda>k. opt_list (configured_command_hook sh k) (g k)) ks)) ev
       = (case g (he_kind ev) of None \<Rightarrow> act_ret ()
          | Some cmd \<Rightarrow> configured_command_handle sh (he_kind ev) cmd ev)"
proof (induction ks)
  case (Cons k ks)
  show ?case
  proof (cases "he_kind ev = k")
    case True
    then show ?thesis
      using Cons.prems hook_emit_absent [of ev ks sh g]
      by (simp add: hook_emit_opt split: option.splits)
  next
    case False
    then show ?thesis
      using Cons by (simp add: hook_emit_opt configured_command_skip split: option.splits)
  qed
qed simp

text \<open>
  A registry built from configuration runs, for each event, the command configured for that kind of
  event and nothing else; an event with no command is free of effects and cannot fail.
\<close>
theorem configured_hooks_run_exactly_theirs:
  assumes "hook_registry_from_config sh c = Inr r"
  shows "hook_emit r ev =
     (case hook_command_for c (he_kind ev) of
        None \<Rightarrow> act_ret ()
      | Some command \<Rightarrow> configured_command_handle sh (he_kind ev) command ev)"
proof -
  have "r = concat (map (\<lambda>k. opt_list (configured_command_hook sh k) (hook_command_for c k)) all_hook_kinds)"
    using assms
    by (simp add: hook_registry_from_config_def register_configured_def configured_commands_eq
        register_commands_eq split: sum.splits)
  then show ?thesis
    using hook_emit_present [OF all_hook_kinds(2,1), where sh = sh and g = "hook_command_for c"] by simp
qed

definition no_hooks :: agent_hook_config where
  "no_hooks =
     \<lparr>hc_pre_tool_use = None, hc_post_tool_use = None, hc_post_tool_use_failure = None,
      hc_user_prompt_submit = None, hc_stop = None, hc_subagent_start = None, hc_subagent_stop = None,
      hc_pre_compact = None, hc_permission_request = None, hc_notification = None,
      hc_session_start = None, hc_session_end = None, hc_setup = None, hc_teammate_idle = None,
      hc_task_completed = None, hc_config_change = None, hc_worktree_create = None,
      hc_worktree_remove = None\<rparr>"

definition demo_shell :: "nat shell" where
  "demo_shell = \<lparr>sh_run = (\<lambda>_ _ n. (Exited (n = 0) (Some 1) [] [], n + 1)), sh_dbg = (\<lambda>x. x), sh_js = (\<lambda>_. [])\<rparr>"

theorem configured_hooks_run_exactly_theirs_witness:
  "\<exists>r. hook_registry_from_config demo_shell (no_hooks\<lparr>hc_stop := Some [str ''echo'']\<rparr>) = Inr r
     \<and> hook_emit r \<lparr>he_kind = HookSetup, he_payload = JNull\<rparr> = act_ret ()
     \<and> hook_emit r \<lparr>he_kind = HookStop, he_payload = JNull\<rparr> 0 = (Inr (), 1)"
proof -
  let ?c = "no_hooks\<lparr>hc_stop := Some [str ''echo'']\<rparr>"
  have "trim (str ''echo'') \<noteq> []" by (simp add: trim_eq_Nil_iff str_def is_whitespace_def)
  then have "validate_commands (configured_commands ?c) = Inr ()"
    by (simp add: configured_commands_def push_command_def no_hooks_def hook_command_validate_def)
  then obtain r where r: "hook_registry_from_config demo_shell ?c = Inr r"
    by (simp add: hook_registry_from_config_def register_configured_def agent_hook_config_validate_def
        configured_commands_eq register_commands_eq)
  then show ?thesis
    using configured_hooks_run_exactly_theirs [OF r, of "\<lparr>he_kind = HookSetup, he_payload = JNull\<rparr>"]
      configured_hooks_run_exactly_theirs [OF r, of "\<lparr>he_kind = HookStop, he_payload = JNull\<rparr>"]
    by (simp add: no_hooks_def configured_command_handle_def demo_shell_def)
qed

end
