(* ===== verification/OJ_Agent_Loop.thy ===== *)
theory OJ_Agent_Loop
  imports OJ_Tool_Registry OJ_Compact OJ_Hook OJ_Model
begin

text \<open>
  The agent loop, \<open>src/agent/agent_loop.rs\<close>: one turn of one thread per incoming request. A turn
  alternates model requests and tool calls until the model answers without a tool call, fails, or the
  turn aborts; every message is appended to the thread and handed to the commit handler.

  The state is the run state of the tool registry, extended with the local variables of
  \<open>run_live_thread\<close> and with the state \<open>'h\<close> of the commit handler. \<open>'e\<close> is the state of the
  neighbours: provider, clock, tools and hooks. The probes of the integration tests are left out.
\<close>

section \<open>Dispatch events\<close>

record agent_dispatch_event =
  de_kind :: thread_turn_event_kind
  de_content :: rstring
  de_metadata :: json
  de_channel :: rstring
  de_external_thread_id :: "rstring option"
  de_source_message_id :: "rstring option"
  de_target :: reply_target
  de_session_id :: rstring
  de_session_channel :: rstring
  de_session_user_id :: rstring
  de_session_external_thread_id :: rstring
  de_session_thread_id :: rstring
  de_reply_to_source :: bool

record agent_event_sender =
  es_channel :: rstring
  es_external_thread_id :: "rstring option"
  es_source_message_id :: "rstring option"
  es_target :: reply_target
  es_session_id :: rstring
  es_session_channel :: rstring
  es_session_user_id :: rstring
  es_session_external_thread_id :: rstring
  es_session_thread_id :: rstring

definition from_incoming_and_locator :: "incoming_message \<Rightarrow> thread_context_locator \<Rightarrow> agent_event_sender" where
  "from_incoming_and_locator incoming l =
     \<lparr>es_channel = im_channel incoming, es_external_thread_id = im_external_thread_id incoming,
      es_source_message_id = im_external_message_id incoming, es_target = im_reply_target incoming,
      es_session_id = (case tcl_session_id l of Some i \<Rightarrow> i | None \<Rightarrow> []),
      es_session_channel = tcl_channel l, es_session_user_id = tcl_user_id l,
      es_session_external_thread_id = tcl_external_thread_id l, es_session_thread_id = tcl_thread_id l\<rparr>"

definition prepare_dispatch_event ::
    "agent_event_sender \<Rightarrow> thread_turn_event \<Rightarrow> bool \<Rightarrow> agent_dispatch_event" where
  "prepare_dispatch_event tx event reply_to_source =
     \<lparr>de_kind = tv_kind event, de_content = tv_content event, de_metadata = tv_metadata event,
      de_channel = es_channel tx, de_external_thread_id = es_external_thread_id tx,
      de_source_message_id = es_source_message_id tx, de_target = es_target tx,
      de_session_id = es_session_id tx, de_session_channel = es_session_channel tx,
      de_session_user_id = es_session_user_id tx,
      de_session_external_thread_id = es_session_external_thread_id tx,
      de_session_thread_id = es_session_thread_id tx, de_reply_to_source = reply_to_source\<rparr>"

section \<open>The loop and its state\<close>

record completed_agent_turn =
  ca_turn :: thread_finalized_turn

record agent_loop_output =
  ao_reply :: rstring
  ao_metadata :: json
  ao_turns :: "completed_agent_turn list"

record 'e agent_loop =
  al_world :: "'e world"
  al_hooks :: "'e hook_registry"
  al_tools :: "'e tool_env"
  al_compact_config :: agent_compact_config
  al_budget_estimator :: context_budget_estimator
  al_compact_provider :: "'e compact_provider"
  al_js :: "json \<Rightarrow> rstring"
  al_fdiv :: "nat \<Rightarrow> nat \<Rightarrow> rat"
  al_uuids :: uuid_lib

record ('e, 'h) loop_state = "'e run_state" +
  ls_handler :: 'h
  ls_reply_to_source :: bool
  ls_used_tool_names :: "rstring list"
  ls_last_visible_tools :: "tool_definition list"
  ls_last_budget_report :: "context_budget_report option"

type_synonym 'h commit_handler =
  "uuid \<Rightarrow> chat_message \<Rightarrow> agent_dispatch_event list \<Rightarrow> ('h \<times> thread, unit) act"

definition noop_committed_message_handler :: "'h commit_handler" where
  "noop_committed_message_handler turn_id message dispatch_events = act_ret ()"

definition on_handler :: "('h \<times> thread, 'a) act \<Rightarrow> (('e, 'h) loop_state, 'a) act" where
  "on_handler m s =
     (let (r, (h, t)) = m (ls_handler s, rn_thread s) in (r, s\<lparr>ls_handler := h, rn_thread := t\<rparr>))"

definition utc_now :: "'e agent_loop \<Rightarrow> (('e, 'h) loop_state, time) act" where
  "utc_now L = on_env (act_now (al_world L))"

definition new_uuid :: "'e agent_loop \<Rightarrow> (('e, 'h) loop_state, uuid) act" where
  "new_uuid L = on_env (act_uuid (al_world L))"

definition emit :: "'e agent_loop \<Rightarrow> hook_event_kind \<Rightarrow> json \<Rightarrow> (('e, 'h) loop_state, unit) act" where
  "emit L kind payload = on_env (hook_emit (al_hooks L) \<lparr>he_kind = kind, he_payload = payload\<rparr>)"

definition with_thread :: "(thread \<Rightarrow> 'b) \<Rightarrow> ('b \<Rightarrow> (('e, 'z) run_state_scheme, 'a) act) \<Rightarrow> (('e, 'z) run_state_scheme, 'a) act" where
  "with_thread f k s = k (f (rn_thread s)) s"

section \<open>Messages and events\<close>

definition TOOL_EVENT_PREVIEW_MAX_CHARS :: nat where
  "TOOL_EVENT_PREVIEW_MAX_CHARS = 300"

definition truncate_text_with_total_chars :: "rstring \<Rightarrow> nat \<Rightarrow> rstring" where
  "truncate_text_with_total_chars content max_chars =
     (if max_chars = 0 then str ''...(truncated, total_chars='' @ nat_str (length content) @ str '')''
      else
        let char_count = length content in
        if char_count \<le> max_chars then content
        else take max_chars content @ str ''...(truncated, total_chars='' @ nat_str char_count @ str '')'')"

definition truncate_tool_message :: "rstring \<Rightarrow> nat \<Rightarrow> rstring" where
  "truncate_tool_message content max_chars = truncate_text_with_total_chars content max_chars"

definition format_tool_result_content :: "rstring \<Rightarrow> bool \<Rightarrow> rstring" where
  "format_tool_result_content content is_error =
     (if is_error then str ''Tool execution failed: '' @ content else content)"

definition build_tool_call_event :: "(json \<Rightarrow> rstring) \<Rightarrow> tool_call_request \<Rightarrow> rstring \<Rightarrow> thread_turn_event" where
  "build_tool_call_event js tool_call tool_call_id =
     \<lparr>tv_kind = ToolCall,
      tv_content = str ''[openjarvis][tool_call] '' @ rq_name tool_call @ str '' ''
        @ truncate_tool_message (js (rq_arguments tool_call)) TOOL_EVENT_PREVIEW_MAX_CHARS,
      tv_metadata = JObj [(str ''tool'', JStr (rq_name tool_call)), (str ''arguments'', rq_arguments tool_call),
                          (str ''tool_call_id'', JStr tool_call_id)]\<rparr>"

definition build_tool_result_event :: "tool_call_request \<Rightarrow> rstring \<Rightarrow> tool_call_result \<Rightarrow> thread_turn_event" where
  "build_tool_result_event tool_call tool_call_id tool_result =
     \<lparr>tv_kind = ToolResult,
      tv_content = str ''[openjarvis][tool_result] ''
        @ truncate_tool_message (format_tool_result_content (rs_content tool_result) (rs_is_error tool_result))
            TOOL_EVENT_PREVIEW_MAX_CHARS,
      tv_metadata = JObj [(str ''tool'', JStr (rq_name tool_call)), (str ''is_error'', JBool (rs_is_error tool_result)),
                          (str ''metadata'', rs_metadata tool_result), (str ''tool_call_id'', JStr tool_call_id)]\<rparr>"

definition build_tool_call_message :: "chat_tool_call \<Rightarrow> time \<Rightarrow> chat_message" where
  "build_tool_call_message tool_call created_at =
     with_tool_calls (chat_message_new RoleToolcall [] created_at) [tool_call]"

definition incoming_chat_message :: "incoming_message \<Rightarrow> chat_message" where
  "incoming_chat_message incoming =
     chat_message_new RoleUser (im_content incoming) (im_received_at incoming)"

text \<open>
  \<open>serde\<close> of a budget report: the buckets it holds are flattened into the object, under the names of
  their kinds (in the order of \<open>ContextTokenKind::ALL\<close> here; a \<open>HashMap\<close> gives no order).
\<close>

definition budget_json :: "context_budget_report \<Rightarrow> json" where
  "budget_json r =
     JObj (concat (map (\<lambda>k. case br_token_counts r k of None \<Rightarrow> [] | Some n \<Rightarrow> [(kind_as_str k, JInt (int n))])
             context_token_kind_ALL)
           @ [(str ''total_estimated_tokens'', JInt (int (br_total_estimated_tokens r))),
              (str ''context_window_tokens'', JInt (int (br_context_window_tokens r))),
              (str ''utilization_ratio'', JFloat (br_utilization_ratio r))])"

definition build_compact_event ::
    "rstring \<Rightarrow> bool \<Rightarrow> bool \<Rightarrow> context_budget_report \<Rightarrow> message_compaction_outcome option \<Rightarrow> rstring option
     \<Rightarrow> rstring option \<Rightarrow> thread_turn_event" where
  "build_compact_event reason requested_by_model is_error budget_report outcome tool_call_id error =
     (let compacted = (outcome \<noteq> None \<and> \<not> is_error);
          content = (case error of
              Some e \<Rightarrow> str ''[openjarvis][compact] failed: '' @ e
            | None \<Rightarrow> (case outcome of
                Some o' \<Rightarrow> str ''[openjarvis][compact] compacted '' @ nat_str (mo_source_message_count o')
                            @ str '' messages from current chat history''
              | None \<Rightarrow> str ''[openjarvis][compact] no chat history was available to compact'')) in
      \<lparr>tv_kind = Compact, tv_content = content,
       tv_metadata = JObj
         [(str ''event_kind'', JStr (str ''compact'')), (str ''reason'', JStr reason),
          (str ''requested_by_model'', JBool requested_by_model), (str ''compacted'', JBool compacted),
          (str ''is_error'', JBool is_error), (str ''tool_call_id'', jopt JStr tool_call_id),
          (str ''source_message_count'', jopt (\<lambda>o'. JInt (int (mo_source_message_count o'))) outcome),
          (str ''after_message_count'', jopt (\<lambda>o'. JInt (int (length (mo_compacted_messages o')))) outcome),
          (str ''summary_preview'', jopt (\<lambda>o'. JStr (compacted_assistant (mo_summary o'))) outcome),
          (str ''budget_report'', budget_json budget_report), (str ''error'', jopt JStr error)]\<rparr>)"

definition default_compact_event_metadata :: json where
  "default_compact_event_metadata = JObj [(str ''event_kind'', JStr (str ''compact''))]"

definition build_thread_tool_event ::
    "uuid \<Rightarrow> time \<Rightarrow> tool_call_request \<Rightarrow> rstring \<Rightarrow> tool_call_result \<Rightarrow> thread_tool_event" where
  "build_thread_tool_event fresh at_time tool_call tool_call_id tool_result =
     (let event_kind = (case as_str (jget (rs_metadata tool_result) (str ''event_kind'')) of
            Some k \<Rightarrow> if k = str ''load_toolset'' then LoadToolset
                       else if k = str ''unload_toolset'' then UnloadToolset else ExecuteTool
          | None \<Rightarrow> ExecuteTool) in
      (thread_tool_event_new fresh event_kind at_time)
        \<lparr>te_toolset_name := as_str (jget (rs_metadata tool_result) (str ''toolset'')),
         te_tool_name := Some (rq_name tool_call), te_tool_call_id := Some tool_call_id,
         te_arguments := Some (rq_arguments tool_call), te_metadata := rs_metadata tool_result,
         te_is_error := rs_is_error tool_result\<rparr>)"

definition build_compact_thread_tool_event ::
    "uuid \<Rightarrow> time \<Rightarrow> tool_call_request \<Rightarrow> rstring \<Rightarrow> json \<Rightarrow> bool \<Rightarrow> thread_tool_event" where
  "build_compact_thread_tool_event fresh at_time tool_call tool_call_id metadata is_error =
     (thread_tool_event_new fresh ExecuteTool at_time)
        \<lparr>te_tool_name := Some (rq_name tool_call), te_tool_call_id := Some tool_call_id,
         te_arguments := Some (rq_arguments tool_call), te_metadata := metadata, te_is_error := is_error\<rparr>"

section \<open>Committing a message\<close>

fun buffer_turn_events :: "thread_turn_event list \<Rightarrow> (('e, 'z) run_state_scheme, unit) act" where
  "buffer_turn_events [] = act_ret ()"
| "buffer_turn_events (event # events) =
     act_bind (on_thread (buffer_turn_event event)) (\<lambda>_. buffer_turn_events events)"

fun prepare_dispatch_events ::
    "agent_event_sender \<Rightarrow> thread_turn_event list \<Rightarrow> bool \<Rightarrow> agent_dispatch_event list \<times> bool" where
  "prepare_dispatch_events tx [] reply_to_source = ([], reply_to_source)"
| "prepare_dispatch_events tx (event # events) reply_to_source =
     (let (dispatches, flag) = prepare_dispatch_events tx events False in
      (prepare_dispatch_event tx event reply_to_source # dispatches, flag))"

definition commit_message ::
    "agent_event_sender \<Rightarrow> 'h commit_handler \<Rightarrow> chat_message \<Rightarrow> thread_turn_event list
     \<Rightarrow> (('e, 'h) loop_state, unit) act" where
  "commit_message tx on_committed_message message turn_events =
     act_bind (on_thread (append_message message)) (\<lambda>_.
     act_bind (buffer_turn_events turn_events) (\<lambda>_ s.
       let (dispatch_events, flag) = prepare_dispatch_events tx turn_events (ls_reply_to_source s);
           s1 = s\<lparr>ls_reply_to_source := flag\<rparr> in
       case current_turn_id (rn_thread s1) of
         None \<Rightarrow> (Inl (bail (str ''thread did not expose one active turn id for committed message'')), s1)
       | Some turn_id \<Rightarrow> on_handler (on_committed_message turn_id message dispatch_events) s1))"

section \<open>Preparing a request\<close>

record request_state =
  rq_messages :: "chat_message list"
  rq_tools :: "tool_definition list"
  rq_budget_report :: context_budget_report

definition prepare_thread_runtime :: "'e agent_loop \<Rightarrow> (('e, 'h) loop_state, unit) act" where
  "prepare_thread_runtime L = register_builtin_tools (al_tools L)"

definition auto_compact_enabled_for_thread :: "'e agent_loop \<Rightarrow> thread \<Rightarrow> bool" where
  "auto_compact_enabled_for_thread L t \<longleftrightarrow>
     acc_enabled (al_compact_config L) \<and> auto_compact_enabled (acc_auto_compact (al_compact_config L)) t"

definition estimate_request ::
    "'e agent_loop \<Rightarrow> chat_message list \<Rightarrow> tool_definition list \<Rightarrow> context_budget_report" where
  "estimate_request L ms tools = estimate (al_js L) (al_fdiv L) (al_budget_estimator L) ms tools"

definition prepare_request_state :: "'e agent_loop \<Rightarrow> (('e, 'h) loop_state, request_state) act" where
  "prepare_request_state L =
     act_bind (list_for_context_with_compact (al_tools L) False) (\<lambda>base_tools s.
       let ms = messages (rn_thread s);
           base_budget_report = estimate_request L ms base_tools;
           compact_visible = (auto_compact_enabled_for_thread L (rn_thread s)
                              \<and> compact_tool_visible (al_compact_config L) base_budget_report) in
       (if compact_visible
        then act_bind (list_for_context_with_compact (al_tools L) True) (\<lambda>tools.
               act_ret \<lparr>rq_messages = ms, rq_tools = tools, rq_budget_report = estimate_request L ms tools\<rparr>)
        else act_ret \<lparr>rq_messages = ms, rq_tools = base_tools, rq_budget_report = base_budget_report\<rparr>) s)"

definition should_runtime_compact :: "'e agent_loop \<Rightarrow> thread \<Rightarrow> context_budget_report \<Rightarrow> bool" where
  "should_runtime_compact L t report \<longleftrightarrow>
     acc_enabled (al_compact_config L) \<and> (\<exists>m \<in> set (messages t). \<not> is_system m)
     \<and> runtime_compaction_required (al_compact_config L) report"

section \<open>Compaction inside a turn\<close>

definition execute_turn_compaction ::
    "'e agent_loop \<Rightarrow> rstring \<Rightarrow> rstring \<Rightarrow> bool \<Rightarrow> rstring option \<Rightarrow> context_budget_report
     \<Rightarrow> (('e, 'h) loop_state, message_compaction_outcome option) act" where
  "execute_turn_compaction L thread_id reason requested_by_model tool_call_id report =
     with_thread messages (\<lambda>compactable_messages.
     if compactable_messages = []
     then act_bind (on_thread (buffer_turn_event
            (build_compact_event reason requested_by_model False report None tool_call_id None)))
            (\<lambda>_. act_ret None)
     else
       act_bind (emit L HookPreCompact (JObj
         [(str ''thread_id'', JStr thread_id), (str ''reason'', JStr reason),
          (str ''budget_report'', budget_json report),
          (str ''active_message_count'', JInt (int (length compactable_messages)))])) (\<lambda>_.
       act_bind (utc_now L) (\<lambda>compacted_at.
       act_bind (on_env (compact_messages (al_compact_provider L) compactable_messages compacted_at)) (\<lambda>outcome.
       case outcome of
         None \<Rightarrow> act_ret None
       | Some o' \<Rightarrow>
           act_bind (if mo_compacted_messages o' = [] then utc_now L else act_ret compacted_at) (\<lambda>replaced_at.
           act_bind (on_thread (replace_messages_after_compaction replaced_at (mo_compacted_messages o'))) (\<lambda>_.
           act_bind (on_thread (buffer_turn_event
             (build_compact_event reason requested_by_model False report (Some o') tool_call_id None))) (\<lambda>_.
           act_ret (Some o'))))))))"

definition tool_failure_payload :: "rstring \<Rightarrow> rstring \<Rightarrow> json" where
  "tool_failure_payload tool error = JObj [(str ''tool'', JStr tool), (str ''error'', JStr error)]"

definition compact_tool_result :: "rstring \<Rightarrow> rstring \<Rightarrow> bool \<Rightarrow> tool_call_result" where
  "compact_tool_result content tool_call_id is_error =
     \<lparr>rs_content = content,
      rs_metadata = JObj [(str ''event_kind'', JStr (str ''compact'')), (str ''tool_call_id'', JStr tool_call_id)],
      rs_is_error = is_error\<rparr>"

text \<open>The failing branches: the hook, the tool event and the turn event, then an error result.\<close>

definition compact_failed ::
    "'e agent_loop \<Rightarrow> tool_call_request \<Rightarrow> rstring \<Rightarrow> context_budget_report \<Rightarrow> rstring
     \<Rightarrow> (('e, 'h) loop_state, tool_call_result) act" where
  "compact_failed L tool_call tool_call_id report error_message =
     act_bind (emit L HookPostToolUseFailure (tool_failure_payload (rq_name tool_call) error_message)) (\<lambda>_.
     act_bind (new_uuid L) (\<lambda>fresh.
     act_bind (utc_now L) (\<lambda>recorded_at.
     let event = build_compact_event (str ''tool_requested'') True True report None (Some tool_call_id)
                   (Some error_message) in
     act_bind (on_thread (\<lambda>t. Inr (record_tool_event (build_compact_thread_tool_event fresh recorded_at tool_call
                 tool_call_id (tv_metadata event) True) t))) (\<lambda>_.
     act_bind (on_thread (buffer_turn_event event)) (\<lambda>_.
     act_ret (compact_tool_result error_message tool_call_id True))))))"

definition act_try :: "('s, 'a) act \<Rightarrow> (err + 'a \<Rightarrow> ('s, 'b) act) \<Rightarrow> ('s, 'b) act" where
  "act_try m f s = (case m s of (r, s') \<Rightarrow> f r s')"

definition last_event_metadata :: "thread \<Rightarrow> json option" where
  "last_event_metadata t =
     (if current_turn_events t = [] then None else Some (tv_metadata (last (current_turn_events t))))"

definition handle_model_requested_compact ::
    "'e agent_loop \<Rightarrow> rstring \<Rightarrow> tool_call_request \<Rightarrow> rstring \<Rightarrow> context_budget_report
     \<Rightarrow> (('e, 'h) loop_state, tool_call_result) act" where
  "handle_model_requested_compact L thread_id tool_call tool_call_id report =
     (if \<not> acc_enabled (al_compact_config L)
      then compact_failed L tool_call tool_call_id report (str ''compact runtime is disabled'')
      else
        act_try (execute_turn_compaction L thread_id (str ''tool_requested'') True (Some tool_call_id) report) (\<lambda>r.
        case r of
          Inr outcome \<Rightarrow>
            act_bind (with_thread last_event_metadata (\<lambda>result. emit L HookPostToolUse (JObj
              [(str ''tool'', JStr (rq_name tool_call)), (str ''result'', jopt id result)]))) (\<lambda>_.
            act_bind (new_uuid L) (\<lambda>fresh.
            act_bind (utc_now L) (\<lambda>recorded_at.
            act_bind (with_thread last_event_metadata (\<lambda>metadata.
              on_thread (\<lambda>t. Inr (record_tool_event (build_compact_thread_tool_event fresh recorded_at tool_call tool_call_id
                (case metadata of Some v \<Rightarrow> v | None \<Rightarrow> default_compact_event_metadata) False) t)))) (\<lambda>_.
            act_ret (compact_tool_result
              (case outcome of
                 Some o' \<Rightarrow> str ''compact completed: compacted '' @ nat_str (mo_source_message_count o')
                            @ str '' messages from current chat history''
               | None \<Rightarrow> str ''compact skipped: no chat history was available to compact'')
              tool_call_id False)))))
        | Inl error \<Rightarrow> compact_failed L tool_call tool_call_id report (err_display error)))"

section \<open>The body of a turn\<close>

record turn_loop_success =
  tl_reply :: rstring
  tl_completed :: bool

record turn_completion =
  tn_reply :: rstring
  tn_failure_error :: "rstring option"

definition call_request_of :: "chat_tool_call \<Rightarrow> tool_call_request" where
  "call_request_of c = \<lparr>rq_name = tc_name c, rq_arguments = tc_arguments c\<rparr>"

definition text_output_event :: "rstring \<Rightarrow> bool \<Rightarrow> thread_turn_event" where
  "text_output_event content is_final =
     \<lparr>tv_kind = TextOutput, tv_content = content,
      tv_metadata = JObj [(str ''source'', JStr (str ''llm_response'')), (str ''is_final'', JBool is_final)]\<rparr>"

fun commit_tool_calls ::
    "'e agent_loop \<Rightarrow> agent_event_sender \<Rightarrow> 'h commit_handler \<Rightarrow> time \<Rightarrow> chat_tool_call list
     \<Rightarrow> (('e, 'h) loop_state, unit) act" where
  "commit_tool_calls L tx h created_at [] = act_ret ()"
| "commit_tool_calls L tx h created_at (c # cs) =
     act_bind (commit_message tx h (build_tool_call_message c created_at)
                 [build_tool_call_event (al_js L) (call_request_of c) (tc_id c)]) (\<lambda>_.
     commit_tool_calls L tx h created_at cs)"

text \<open>A tool call through the registry; a failing call is an error result, a failing hook aborts.\<close>

definition run_registry_tool ::
    "'e agent_loop \<Rightarrow> tool_call_request \<Rightarrow> rstring \<Rightarrow> (('e, 'h) loop_state, tool_call_result) act" where
  "run_registry_tool L tool_call tool_call_id =
     act_bind (act_try (call_for_context (al_tools L) tool_call) (\<lambda>r.
       case r of
         Inr result \<Rightarrow>
           act_bind (emit L HookPostToolUse (JObj [(str ''tool'', JStr (rq_name tool_call)),
             (str ''result'', rs_metadata result)])) (\<lambda>_. act_ret result)
       | Inl error \<Rightarrow>
           act_bind (emit L HookPostToolUseFailure (tool_failure_payload (rq_name tool_call) (err_display error))) (\<lambda>_.
           act_ret \<lparr>rs_content = err_display error, rs_metadata = JObj [(str ''tool'', JStr (rq_name tool_call))],
                    rs_is_error = True\<rparr>))) (\<lambda>result.
     act_bind (new_uuid L) (\<lambda>fresh.
     act_bind (utc_now L) (\<lambda>recorded_at.
     act_bind (on_thread (\<lambda>t. Inr (record_tool_event
       (build_thread_tool_event fresh recorded_at tool_call tool_call_id result) t))) (\<lambda>_.
     act_ret result))))"

definition run_tool_call ::
    "'e agent_loop \<Rightarrow> agent_event_sender \<Rightarrow> 'h commit_handler \<Rightarrow> rstring \<Rightarrow> context_budget_report
     \<Rightarrow> chat_tool_call \<Rightarrow> (('e, 'h) loop_state, unit) act" where
  "run_tool_call L tx h thread_id report c =
     (let tool_call = call_request_of c in
      act_bind (\<lambda>s. (Inr (), s\<lparr>ls_used_tool_names := ls_used_tool_names s @ [rq_name tool_call]\<rparr>)) (\<lambda>_.
      act_bind (emit L HookPreToolUse (JObj [(str ''tool'', JStr (rq_name tool_call)),
        (str ''arguments'', rq_arguments tool_call), (str ''tool_call_id'', JStr (tc_id c))])) (\<lambda>_.
      act_bind (if rq_name tool_call = str ''compact''
                then handle_model_requested_compact L thread_id tool_call (tc_id c) report
                else run_registry_tool L tool_call (tc_id c)) (\<lambda>tool_result.
      act_bind (utc_now L) (\<lambda>created_at.
      commit_message tx h
        (with_tool_call_id
           (chat_message_new RoleToolResult
              (format_tool_result_content (rs_content tool_result) (rs_is_error tool_result)) created_at) (tc_id c))
        [build_tool_result_event tool_call (tc_id c) tool_result])))))"

fun run_tool_calls ::
    "'e agent_loop \<Rightarrow> agent_event_sender \<Rightarrow> 'h commit_handler \<Rightarrow> rstring \<Rightarrow> context_budget_report
     \<Rightarrow> chat_tool_call list \<Rightarrow> (('e, 'h) loop_state, unit) act" where
  "run_tool_calls L tx h thread_id report [] = act_ret ()"
| "run_tool_calls L tx h thread_id report (c # cs) =
     act_bind (run_tool_call L tx h thread_id report c) (\<lambda>_. run_tool_calls L tx h thread_id report cs)"

definition answer_turn ::
    "agent_event_sender \<Rightarrow> 'h commit_handler \<Rightarrow> llm_response \<Rightarrow> (('e, 'h) loop_state, turn_loop_success) act" where
  "answer_turn tx h response =
     (case lr_message response of
        None \<Rightarrow> act_fail (bail (str ''llm response did not contain assistant text or tool calls''))
      | Some assistant_message \<Rightarrow>
          if trim (msg_content assistant_message) = []
          then act_fail (bail (str ''llm final response did not contain assistant text''))
          else
            act_bind (commit_message tx h assistant_message
                        [text_output_event (msg_content assistant_message) True]) (\<lambda>_.
            act_ret \<lparr>tl_reply = msg_content assistant_message, tl_completed = True\<rparr>))"

definition tool_turn ::
    "'e agent_loop \<Rightarrow> agent_event_sender \<Rightarrow> 'h commit_handler \<Rightarrow> rstring \<Rightarrow> context_budget_report
     \<Rightarrow> llm_response \<Rightarrow> (('e, 'h) loop_state, turn_loop_success) act" where
  "tool_turn L tx h thread_id report response =
     act_bind (case lr_message response of
         Some m \<Rightarrow> if trim (msg_content m) \<noteq> []
                   then commit_message tx h m [text_output_event (msg_content m) False] else act_ret ()
       | None \<Rightarrow> act_ret ()) (\<lambda>_.
     act_bind (case lr_message response of Some m \<Rightarrow> act_ret (msg_created_at m) | None \<Rightarrow> utc_now L) (\<lambda>created_at.
     act_bind (commit_tool_calls L tx h created_at (lr_tool_calls response)) (\<lambda>_.
     act_bind (run_tool_calls L tx h thread_id report (lr_tool_calls response)) (\<lambda>_.
     act_ret \<lparr>tl_reply = (case lr_message response of Some m \<Rightarrow> msg_content m | None \<Rightarrow> []),
              tl_completed = False\<rparr>))))"

definition turn_body ::
    "'e agent_loop \<Rightarrow> agent_event_sender \<Rightarrow> 'h commit_handler \<Rightarrow> rstring
     \<Rightarrow> (('e, 'h) loop_state, turn_loop_success) act" where
  "turn_body L tx h thread_id =
     act_bind (prepare_request_state L) (\<lambda>request.
     act_bind (\<lambda>s. (Inr (), s\<lparr>ls_last_visible_tools := rq_tools request,
                              ls_last_budget_report := Some (rq_budget_report request)\<rparr>)) (\<lambda>_.
     act_bind (on_env (w_generate (al_world L) \<lparr>lq_messages = rq_messages request, lq_tools = rq_tools request\<rparr>)) (\<lambda>response.
     if lr_tool_calls response = [] then answer_turn tx h response
     else tool_turn L tx h thread_id (rq_budget_report request) response)))"

section \<open>One iteration, and the loop\<close>

definition fail_turn ::
    "agent_event_sender \<Rightarrow> 'h commit_handler \<Rightarrow> time \<Rightarrow> err \<Rightarrow> (('e, 'h) loop_state, turn_completion) act" where
  "fail_turn tx h completed_at error =
     (let error_message = err_display_alt error;
          failure_reply = str ''[openjarvis][agent_error] '' @ error_message in
      act_bind (commit_message tx h (chat_message_new RoleAssistant failure_reply completed_at)
                  [turn_failure_event failure_reply]) (\<lambda>_.
      act_ret \<lparr>tn_reply = failure_reply, tn_failure_error = Some error_message\<rparr>))"

text \<open>\<open>Some\<close> is a \<open>break\<close> of the loop, \<open>None\<close> another round.\<close>

definition loop_iteration ::
    "'e agent_loop \<Rightarrow> agent_event_sender \<Rightarrow> 'h commit_handler \<Rightarrow> rstring
     \<Rightarrow> (('e, 'h) loop_state, turn_completion option) act" where
  "loop_iteration L tx h thread_id =
     act_bind (prepare_request_state L) (\<lambda>pre.
     act_bind (with_thread (\<lambda>t. should_runtime_compact L t (rq_budget_report pre)) (\<lambda>compact.
       if compact
       then act_bind (execute_turn_compaction L thread_id (str ''runtime_threshold'') False None (rq_budget_report pre))
              (\<lambda>_. act_ret ())
       else act_ret ())) (\<lambda>_.
     act_try (turn_body L tx h thread_id) (\<lambda>turn_result.
     act_bind (utc_now L) (\<lambda>completed_at.
     case turn_result of
       Inr r \<Rightarrow>
         act_ret (if tl_completed r then Some \<lparr>tn_reply = tl_reply r, tn_failure_error = None\<rparr> else None)
     | Inl error \<Rightarrow> act_bind (fail_turn tx h completed_at error) (\<lambda>c. act_ret (Some c))))))"

text \<open>The loop has no bound of its own: a run that never ends is None.\<close>

partial_function (option) turn_loop ::
    "'e agent_loop \<Rightarrow> agent_event_sender \<Rightarrow> 'h commit_handler \<Rightarrow> rstring \<Rightarrow> ('e, 'h) loop_state
     \<Rightarrow> ((err + turn_completion) \<times> ('e, 'h) loop_state) option" where
  "turn_loop L tx h thread_id s =
     (case loop_iteration L tx h thread_id s of
        (Inl e, s') \<Rightarrow> Some (Inl e, s')
      | (Inr (Some c), s') \<Rightarrow> Some (Inr c, s')
      | (Inr None, s') \<Rightarrow> turn_loop L tx h thread_id s')"

section \<open>The whole run\<close>

fun turn_status_json :: "thread_finalized_turn_status \<Rightarrow> json" where
  "turn_status_json Succeeded = JStr (str ''Succeeded'')"
| "turn_status_json (Failed error) = JObj [(str ''Failed'', JObj [(str ''error'', JStr error)])]"

definition build_loop_output_metadata ::
    "'e agent_loop \<Rightarrow> 'e \<Rightarrow> thread_finalized_turn \<Rightarrow> rstring list \<Rightarrow> tool_definition list
     \<Rightarrow> context_budget_report option \<Rightarrow> json" where
  "build_loop_output_metadata L env turn used_tool_names last_visible_tools last_budget_report =
     JObj [(str ''tool_count'', JInt (int (length last_visible_tools))),
           (str ''mcp_server_count'', JInt (int (length (tv_mcp_list_servers (al_tools L) env)))),
           (str ''hook_handler_count'', JInt (int (length (al_hooks L)))),
           (str ''used_tool_name'', jopt JStr (case used_tool_names of [] \<Rightarrow> None | n # _ \<Rightarrow> Some n)),
           (str ''used_tool_names'', JArr (map JStr used_tool_names)),
           (str ''loaded_toolsets'', JArr (map JStr (load_toolsets (ft_snapshot turn)))),
           (str ''event_count'', JInt (int (length (ft_events turn)))),
           (str ''context_budget'', jopt budget_json last_budget_report),
           (str ''turn_status'', turn_status_json (ft_status turn)),
           (str ''turn_id'', JStr (uuid_to_string (al_uuids L) (ft_turn_id turn)))]"

definition begin_run ::
    "'e agent_loop \<Rightarrow> agent_event_sender \<Rightarrow> 'h commit_handler \<Rightarrow> chat_message \<Rightarrow> rstring option
     \<Rightarrow> (('e, 'h) loop_state, rstring) act" where
  "begin_run L tx h initial_message external_message_id =
     act_bind (prepare_thread_runtime L) (\<lambda>_.
     act_bind (with_thread th_locator act_ret) (\<lambda>l.
     act_bind (emit L HookUserPromptSubmit (JObj [(str ''channel'', JStr (tcl_channel l)),
       (str ''user_id'', JStr (tcl_user_id l)), (str ''thread_id'', JStr (tcl_thread_id l))])) (\<lambda>_.
     act_bind (\<lambda>s. (Inr (), s\<lparr>ls_used_tool_names := [], ls_last_visible_tools := [],
                              ls_last_budget_report := None, ls_reply_to_source := True\<rparr>)) (\<lambda>_.
     act_bind (new_uuid L) (\<lambda>fresh.
     act_bind (on_thread (begin_turn fresh external_message_id (msg_created_at initial_message))) (\<lambda>_.
     act_bind (commit_message tx h initial_message []) (\<lambda>_.
     act_ret (tcl_thread_id l))))))))"

definition finalize_run ::
    "turn_completion \<Rightarrow> time \<Rightarrow> thread \<Rightarrow> err + (thread_finalized_turn \<times> thread)" where
  "finalize_run c completed_at t =
     (case tn_failure_error c of
        Some error_message \<Rightarrow> finalize_turn_failure error_message completed_at t
      | None \<Rightarrow> finalize_turn_success (tn_reply c) completed_at t)"

definition finish_run ::
    "'e agent_loop \<Rightarrow> turn_completion \<Rightarrow> (('e, 'h) loop_state, agent_loop_output) act" where
  "finish_run L c =
     act_bind (utc_now L) (\<lambda>completed_at.
     act_bind (\<lambda>s. case finalize_run c completed_at (rn_thread s) of
         Inl e \<Rightarrow> (Inl e, s)
       | Inr (turn, t) \<Rightarrow> (Inr turn, s\<lparr>rn_thread := t\<rparr>)) (\<lambda>turn.
     act_bind (\<lambda>s. (Inr (build_loop_output_metadata L (rn_env s) turn (ls_used_tool_names s)
                      (ls_last_visible_tools s) (ls_last_budget_report s)), s)) (\<lambda>metadata.
     act_bind (emit L HookNotification (JObj [(str ''reply_preview'', JStr (tn_reply c)),
       (str ''runtime'', metadata)])) (\<lambda>_.
     act_ret \<lparr>ao_reply = tn_reply c, ao_metadata = metadata, ao_turns = [\<lparr>ca_turn = turn\<rparr>]\<rparr>))))"

definition run_live_thread ::
    "'e agent_loop \<Rightarrow> agent_event_sender \<Rightarrow> 'h commit_handler \<Rightarrow> chat_message \<Rightarrow> rstring option
     \<Rightarrow> ('e, 'h) loop_state \<Rightarrow> ((err + agent_loop_output) \<times> ('e, 'h) loop_state) option" where
  "run_live_thread L tx h initial_message external_message_id s =
     (case begin_run L tx h initial_message external_message_id s of
        (Inl e, s1) \<Rightarrow> Some (Inl e, s1)
      | (Inr thread_id, s1) \<Rightarrow>
          (case turn_loop L tx h thread_id s1 of
             None \<Rightarrow> None
           | Some (Inl e, s2) \<Rightarrow> Some (Inl e, s2)
           | Some (Inr c, s2) \<Rightarrow> Some (finish_run L c s2)))"

definition run_locked_thread ::
    "'e agent_loop \<Rightarrow> agent_event_sender \<Rightarrow> incoming_message \<Rightarrow> 'h commit_handler
     \<Rightarrow> ('e, 'h) loop_state \<Rightarrow> ((err + agent_loop_output) \<times> ('e, 'h) loop_state) option" where
  "run_locked_thread L tx incoming h s =
     run_live_thread L tx h (incoming_chat_message incoming) (im_external_message_id incoming) s"

definition run_v1 ::
    "'e agent_loop \<Rightarrow> agent_event_sender \<Rightarrow> incoming_message \<Rightarrow> thread
     \<Rightarrow> ('e, unit) loop_state \<Rightarrow> ((err + agent_loop_output) \<times> ('e, unit) loop_state) option" where
  "run_v1 L tx incoming t s =
     run_live_thread L tx noop_committed_message_handler (incoming_chat_message incoming)
       (im_external_message_id incoming) (s\<lparr>rn_thread := t\<rparr>)"

definition build_compact_provider ::
    "(json \<Rightarrow> rstring) \<Rightarrow> (rstring \<Rightarrow> err + compact_summary) \<Rightarrow> 'e world \<Rightarrow> agent_compact_config
     \<Rightarrow> 'e compact_provider" where
  "build_compact_provider js from_str w config =
     (case acc_mock_compacted_assistant config of
        Some s \<Rightarrow> static_compact_provider \<lparr>compacted_assistant = s\<rparr>
      | None \<Rightarrow> llm_compact_provider js from_str w)"

definition with_compact_provider ::
    "'e world \<Rightarrow> 'e hook_registry \<Rightarrow> 'e tool_env \<Rightarrow> llm_config \<Rightarrow> agent_compact_config \<Rightarrow> 'e compact_provider
     \<Rightarrow> (json \<Rightarrow> rstring) \<Rightarrow> (nat \<Rightarrow> nat \<Rightarrow> rat) \<Rightarrow> uuid_lib \<Rightarrow> 'e agent_loop" where
  "with_compact_provider w hooks tools llm_config compact_config provider js fdiv U =
     \<lparr>al_world = w, al_hooks = hooks, al_tools = tools, al_compact_config = compact_config,
      al_budget_estimator = estimator_from_config llm_config compact_config,
      al_compact_provider = provider, al_js = js, al_fdiv = fdiv, al_uuids = U\<rparr>"

definition with_compact_config ::
    "'e world \<Rightarrow> 'e hook_registry \<Rightarrow> 'e tool_env \<Rightarrow> llm_config \<Rightarrow> agent_compact_config
     \<Rightarrow> (rstring \<Rightarrow> err + compact_summary) \<Rightarrow> (json \<Rightarrow> rstring) \<Rightarrow> (nat \<Rightarrow> nat \<Rightarrow> rat) \<Rightarrow> uuid_lib \<Rightarrow> 'e agent_loop" where
  "with_compact_config w hooks tools llm_config compact_config from_str js fdiv U =
     with_compact_provider w hooks tools llm_config compact_config
       (build_compact_provider js from_str w compact_config) js fdiv U"

section \<open>What every action of the loop respects\<close>

text \<open>
  \<open>related R m s\<close>: running \<open>m\<close> from \<open>s\<close> moves the state along \<open>R\<close>. \<open>loop_relation\<close> is the interface
  between the loop and its primitive actions: a preorder that each of them respects is respected by a
  turn, an iteration and the whole loop.
\<close>

definition related :: "('s \<Rightarrow> 's \<Rightarrow> bool) \<Rightarrow> ('s, 'a) act \<Rightarrow> 's \<Rightarrow> bool" where
  "related R m s \<longleftrightarrow> R s (snd (m s))"

text \<open>The events that come with a committed message: everything but a compaction.\<close>

abbreviation plain_events :: "thread_turn_event list \<Rightarrow> bool" where
  "plain_events es \<equiv> list_all (\<lambda>e. tv_kind e \<noteq> Compact) es"

lemma event_kinds [simp]:
  "tv_kind (build_tool_call_event js q i) = ToolCall" "tv_kind (build_tool_result_event q i res) = ToolResult"
  "tv_kind (text_output_event c b) = TextOutput" "tv_kind (turn_failure_event c) = TextOutput"
  by (simp_all add: build_tool_call_event_def build_tool_result_event_def text_output_event_def turn_failure_event_def)

locale action_preorder =
  fixes R :: "'s \<Rightarrow> 's \<Rightarrow> bool"
  assumes R_refl: "R s s"
    and R_trans: "R s s' \<Longrightarrow> R s' s'' \<Longrightarrow> R s s''"
begin

lemma rel_ret: "related R (act_ret x) s"
  by (simp add: related_def act_ret_def R_refl)

lemma rel_fail: "related R (act_fail e) s"
  by (simp add: related_def act_fail_def R_refl)

lemma rel_bind: "related R m s \<Longrightarrow> (\<And>x s'. related R (f x) s') \<Longrightarrow> related R (act_bind m f) s"
  by (cases "m s") (auto simp: related_def act_bind_def intro: R_trans split: sum.split)

lemma rel_try: "related R m s \<Longrightarrow> (\<And>x s'. related R (f x) s') \<Longrightarrow> related R (act_try m f) s"
  by (cases "m s") (auto simp: related_def act_try_def intro: R_trans)

lemma rel_same: "rn = snd (m s) \<Longrightarrow> rn = s \<Longrightarrow> related R m s"
  by (simp add: related_def R_refl)

end

lemma rel_with_thread: "(\<And>x. related R (k x) s) \<Longrightarrow> related R (with_thread f k) s"
  by (simp add: related_def with_thread_def)

locale loop_relation = action_preorder R for R :: "('e, 'h) loop_state \<Rightarrow> ('e, 'h) loop_state \<Rightarrow> bool" +
  fixes L :: "'e agent_loop" and tx :: agent_event_sender and h :: "'h commit_handler"
    and thread_id :: rstring
  assumes R_commit: "plain_events es \<Longrightarrow> related R (commit_message tx h m es) s"
    and R_compaction: "acc_enabled (al_compact_config L) \<Longrightarrow>
      related R (execute_turn_compaction L thread_id reason by_model call_id report) s"
    and R_buffer_compact: "tv_kind ev = Compact \<Longrightarrow> related R (on_thread (buffer_turn_event ev)) s"
    and R_record: "related R (on_thread (\<lambda>t. Inr (record_tool_event tev t))) s"
    and R_call: "related R (call_for_context (al_tools L) q) s"
    and R_list: "related R (list_for_context_with_compact (al_tools L) b) s"
    and R_emit: "related R (emit L k p) s"
    and R_now: "related R (utc_now L) s"
    and R_uuid: "related R (new_uuid L) s"
    and R_generate: "related R (on_env (w_generate (al_world L) req)) s"
    and R_used: "R s (s\<lparr>ls_used_tool_names := ns\<rparr>)"
    and R_visible: "R s (s\<lparr>ls_last_visible_tools := ds, ls_last_budget_report := rep\<rparr>)"
begin

lemmas rel_intros = rel_bind rel_try rel_with_thread rel_ret rel_fail
  R_commit R_record R_call R_list R_emit R_now R_uuid R_generate

lemma rel_compact_event: "related R (on_thread (buffer_turn_event (build_compact_event r b e rep out i err))) s"
  by (rule R_buffer_compact) (simp add: build_compact_event_def Let_def)

lemma rel_prepare_request: "related R (prepare_request_state L) s"
proof -
  have "related R (\<lambda>s. (if P s then act_bind (list_for_context_with_compact (al_tools L) True) (\<lambda>tools. act_ret (f s tools))
      else act_ret (g s)) s) s'" for P f g and s' :: "('e, 'h) loop_state"
  proof -
    have "related R (act_bind (list_for_context_with_compact (al_tools L) True) (\<lambda>tools. act_ret (f s' tools))) s'"
      by (intro rel_intros)
    then show ?thesis using rel_ret [of "g s'" s'] by (simp add: related_def)
  qed
  then show ?thesis
    unfolding prepare_request_state_def Let_def by (intro rel_bind R_list)
qed

lemma rel_compact_failed: "related R (compact_failed L q i rep msg) s"
  unfolding compact_failed_def Let_def by (intro rel_intros rel_compact_event)

lemma rel_model_compact: "related R (handle_model_requested_compact L thread_id q i rep) s"
  unfolding handle_model_requested_compact_def
  by (auto intro!: rel_try R_compaction rel_compact_failed rel_bind rel_with_thread R_emit R_uuid R_now R_record rel_ret
      split: sum.split)

lemma rel_registry_tool: "related R (run_registry_tool L q i) s"
  unfolding run_registry_tool_def
  by (auto intro!: rel_try rel_bind R_call R_emit R_uuid R_now R_record rel_ret split: sum.split)

lemma rel_used: "related R (\<lambda>s. (Inr (), s\<lparr>ls_used_tool_names := ls_used_tool_names s @ [n]\<rparr>)) s"
  by (simp add: related_def R_used)

lemma rel_run_tool_call: "related R (run_tool_call L tx h thread_id rep c) s"
  unfolding run_tool_call_def Let_def
  by (intro rel_bind rel_used R_emit R_now R_commit) (auto intro: rel_model_compact rel_registry_tool)

lemma rel_run_tool_calls: "related R (run_tool_calls L tx h thread_id rep cs) s"
  by (induction cs arbitrary: s) (auto intro!: rel_bind rel_run_tool_call rel_ret)

lemma rel_commit_tool_calls: "related R (commit_tool_calls L tx h at_time cs) s"
  by (induction cs arbitrary: s) (auto intro!: rel_bind R_commit rel_ret)

lemma rel_answer: "related R (answer_turn tx h response) s"
  unfolding answer_turn_def by (auto intro!: rel_bind R_commit rel_ret rel_fail split: option.split)

lemma rel_tool_turn: "related R (tool_turn L tx h thread_id rep response) s"
  unfolding tool_turn_def
  by (auto intro!: rel_bind R_commit rel_ret R_now rel_commit_tool_calls rel_run_tool_calls split: option.split)

lemma rel_visible: "related R (\<lambda>s. (Inr (), s\<lparr>ls_last_visible_tools := ds, ls_last_budget_report := rep\<rparr>)) s"
  by (simp add: related_def R_visible)

lemma rel_turn_body: "related R (turn_body L tx h thread_id) s"
  unfolding turn_body_def
  by (intro rel_bind rel_prepare_request rel_visible R_generate) (auto intro: rel_answer rel_tool_turn)

lemma rel_fail_turn: "related R (fail_turn tx h at_time e) s"
  unfolding fail_turn_def Let_def by (intro rel_bind R_commit rel_ret) simp

lemma rel_iteration: "related R (loop_iteration L tx h thread_id) s"
proof -
  have compact: "related R (with_thread (\<lambda>t. should_runtime_compact L t rep) (\<lambda>compact.
       if compact
       then act_bind (execute_turn_compaction L thread_id reason False None rep) (\<lambda>_. act_ret ())
       else act_ret ())) s'" for rep reason s'
  proof (cases "acc_enabled (al_compact_config L)")
    case True
    then show ?thesis by (auto intro!: rel_with_thread rel_bind R_compaction rel_ret)
  next
    case False
    then show ?thesis by (simp add: related_def with_thread_def should_runtime_compact_def act_ret_def R_refl)
  qed
  show ?thesis
    unfolding loop_iteration_def
    by (intro rel_bind rel_prepare_request compact rel_try rel_turn_body R_now)
      (auto intro!: rel_bind rel_fail_turn rel_ret split: sum.split)
qed

end

lemma turn_loop_induct [consumes 1, case_names Abort Break Again]:
  assumes "turn_loop L tx h thread_id s = Some (r, s')"
    and "\<And>s e s1. loop_iteration L tx h thread_id s = (Inl e, s1) \<Longrightarrow> P s (Inl e) s1"
    and "\<And>s c s1. loop_iteration L tx h thread_id s = (Inr (Some c), s1) \<Longrightarrow> P s (Inr c) s1"
    and "\<And>s s1 r s2. loop_iteration L tx h thread_id s = (Inr None, s1) \<Longrightarrow> P s1 r s2 \<Longrightarrow> P s r s2"
  shows "P s r s'"
proof -
  let ?P = "\<lambda>L0 tx0 h0 tid0 s0 y.
      L0 = L \<and> tx0 = tx \<and> h0 = h \<and> tid0 = thread_id \<longrightarrow> P s0 (fst y) (snd y)"
  have "?P L tx h thread_id s (r, s')"
  proof (rule turn_loop.raw_induct [of ?P, OF _ assms(1)])
    fix f L0 tx0 h0 tid0 s0 y
    assume IH: "\<And>L tx h tid s y. f L tx h tid s = Some y \<Longrightarrow> ?P L tx h tid s y"
      and step: "(case loop_iteration L0 tx0 h0 tid0 s0 of
        (Inl e, s') \<Rightarrow> Some (Inl e, s')
      | (Inr None, s') \<Rightarrow> f L0 tx0 h0 tid0 s'
      | (Inr (Some c), s') \<Rightarrow> Some (Inr c, s')) = Some y"
    show "?P L0 tx0 h0 tid0 s0 y"
      using step IH assms(2-4) by (auto split: prod.splits sum.splits option.splits)
  qed
  then show ?thesis by simp
qed

context loop_relation
begin

lemma rel_loop: "turn_loop L tx h thread_id s = Some (r, s') \<Longrightarrow> R s s'"
proof (induction rule: turn_loop_induct)
  case (Abort s e s1)
  then show ?case using rel_iteration [of s] by (simp add: related_def)
next
  case (Break s c s1)
  then show ?case using rel_iteration [of s] by (simp add: related_def)
next
  case (Again s s1 r s2)
  then show ?case using rel_iteration [of s] R_trans by (simp add: related_def)
qed

lemma rel_turn_bodyD: "turn_body L tx h thread_id s = (r, s') \<Longrightarrow> R s s'"
  using rel_turn_body [of s] by (simp add: related_def)

lemma rel_iterationD: "loop_iteration L tx h thread_id s = (r, s') \<Longrightarrow> R s s'"
  using rel_iteration [of s] by (simp add: related_def)

end

section \<open>Commit handlers\<close>

text \<open>
  What the loop relies on: a handler may report, persist and advance the revision, but it leaves the
  content of the live thread alone.
\<close>

definition handler_preserves :: "'h commit_handler \<Rightarrow> bool" where
  "handler_preserves h \<longleftrightarrow> (\<forall>turn_id m ds x t.
     let t' = snd (snd (h turn_id m ds (x, t))) in
     th_thread t' = th_thread t \<and> th_current_turn t' = th_current_turn t \<and> th_state t' = th_state t
     \<and> th_pending_tool_events t' = th_pending_tool_events t)"

locale commit_handler_laws =
  fixes h :: "'h commit_handler"
  assumes handler_preserves: "handler_preserves h"
begin

lemma handler_sel:
  assumes "h turn_id m ds (x, t) = (r, (x', t'))"
  shows "th_thread t' = th_thread t" "th_current_turn t' = th_current_turn t" "th_state t' = th_state t"
    "th_pending_tool_events t' = th_pending_tool_events t"
  using handler_preserves assms unfolding handler_preserves_def Let_def by (metis snd_conv)+

end

interpretation noop_handler: commit_handler_laws noop_committed_message_handler
  by unfold_locales (simp add: handler_preserves_def noop_committed_message_handler_def act_ret_def)

text \<open>A handler that only records what it is given, for stating what the loop dispatches.\<close>

definition recording_handler :: "agent_dispatch_event list commit_handler" where
  "recording_handler turn_id message dispatch_events = (\<lambda>(log, t). (Inr (), (log @ dispatch_events, t)))"

interpretation recording: commit_handler_laws recording_handler
  by unfold_locales (simp add: handler_preserves_def recording_handler_def)

section \<open>What a commit does\<close>

lemma buffer_turn_events_run:
  "th_current_turn (rn_thread s) = Some turn \<Longrightarrow>
     buffer_turn_events es s = (Inr (), s\<lparr>rn_thread := (rn_thread s)
        \<lparr>th_current_turn := Some (turn\<lparr>ct_buffered_events := ct_buffered_events turn @ es\<rparr>)\<rparr>\<rparr>)"
proof (induction es arbitrary: s turn)
  case Nil
  then show ?case by (simp add: act_ret_def)
next
  case (Cons e es)
  then show ?case by (simp add: act_bind_def on_thread_def buffer_turn_event_def current_turn_mut_def)
qed

lemma prepare_dispatch_events_eq:
  "prepare_dispatch_events tx es flag =
     (map (\<lambda>(i, e). prepare_dispatch_event tx e (flag \<and> i = 0)) (zip [0..<length es] es), flag \<and> es = [])"
proof (induction es arbitrary: flag)
  case (Cons e es)
  have "zip [0..<length (e # es)] (e # es) = (0, e) # map (\<lambda>(i, x). (Suc i, x)) (zip [0..<length es] es)"
    by (simp add: zip_map1 [symmetric] map_Suc_upt upt_conv_Cons del: upt_Suc)
  then show ?case using Cons by (simp add: case_prod_unfold comp_def)
qed simp

text \<open>A commit outside a turn does nothing; inside one it appends, buffers and hands over.\<close>

definition committed_thread :: "chat_message \<Rightarrow> thread_turn_event list \<Rightarrow> thread_current_turn \<Rightarrow> thread \<Rightarrow> thread" where
  "committed_thread m es turn t =
     (case append_message m t of Inl _ \<Rightarrow> t | Inr t1 \<Rightarrow>
        t1\<lparr>th_current_turn := Some (turn\<lparr>ct_buffered_events := ct_buffered_events turn @ es\<rparr>)\<rparr>)"

lemma committed_thread_sel:
  assumes "th_current_turn t = Some turn"
  shows "messages (committed_thread m es turn t) = messages t @ [m]"
    "th_current_turn (committed_thread m es turn t) = Some (turn\<lparr>ct_buffered_events := ct_buffered_events turn @ es\<rparr>)"
    "th_state (committed_thread m es turn t) = th_state t"
    "th_locator (committed_thread m es turn t) = th_locator t"
    "th_revision (committed_thread m es turn t) = th_revision t"
    "th_pending_tool_events (committed_thread m es turn t) = th_pending_tool_events t"
  using assms by (simp_all add: committed_thread_def append_message_def current_turn_mut_def Let_def)

lemma commit_message_run:
  assumes "th_current_turn (rn_thread s) = Some turn"
  shows "commit_message tx h m es s =
     (let (ds, flag) = prepare_dispatch_events tx es (ls_reply_to_source s);
          (r, (x, t)) = h (ct_turn_id turn) m ds (ls_handler s, committed_thread m es turn (rn_thread s)) in
      (r, s\<lparr>ls_reply_to_source := flag, ls_handler := x, rn_thread := t\<rparr>))"
proof -
  obtain t1 where t1: "append_message m (rn_thread s) = Inr t1" "th_current_turn t1 = Some turn"
    using assms by (auto simp: append_message_def current_turn_mut_def Let_def)
  have "buffer_turn_events es (s\<lparr>rn_thread := t1\<rparr>) = (Inr (), s\<lparr>rn_thread := t1
        \<lparr>th_current_turn := Some (turn\<lparr>ct_buffered_events := ct_buffered_events turn @ es\<rparr>)\<rparr>\<rparr>)"
    using buffer_turn_events_run [of "s\<lparr>rn_thread := t1\<rparr>" turn es] t1 by simp
  then show ?thesis
    using t1 by (simp add: commit_message_def act_bind_def on_thread_def on_handler_def committed_thread_def
        current_turn_id_def split: prod.split)
qed

lemma commit_message_no_turn:
  "th_current_turn (rn_thread s) = None \<Longrightarrow> \<exists>e. commit_message tx h m es s = (Inl e, s)"
  by (simp add: commit_message_def act_bind_def on_thread_def append_message_def current_turn_mut_def)

context commit_handler_laws
begin

lemma commit_sel:
  assumes "commit_message tx h m es s = (r, s')" "th_current_turn (rn_thread s) = Some turn"
  shows "messages (rn_thread s') = messages (rn_thread s) @ [m]"
    "th_current_turn (rn_thread s') = Some (turn\<lparr>ct_buffered_events := ct_buffered_events turn @ es\<rparr>)"
    "th_state (rn_thread s') = th_state (rn_thread s)"
    "th_pending_tool_events (rn_thread s') = th_pending_tool_events (rn_thread s)"
    "rn_registry s' = rn_registry s" "rn_env s' = rn_env s"
    "ls_reply_to_source s' = (ls_reply_to_source s \<and> es = [])"
    "ls_used_tool_names s' = ls_used_tool_names s"
proof -
  obtain ds where ds: "prepare_dispatch_events tx es (ls_reply_to_source s) = (ds, ls_reply_to_source s \<and> es = [])"
    by (simp add: prepare_dispatch_events_eq)
  obtain r' x t where h: "h (ct_turn_id turn) m ds (ls_handler s, committed_thread m es turn (rn_thread s)) = (r', (x, t))"
    by (metis prod.exhaust)
  have s': "s' = s\<lparr>ls_reply_to_source := (ls_reply_to_source s \<and> es = []), ls_handler := x, rn_thread := t\<rparr>"
    using assms(1) h by (simp add: commit_message_run [OF assms(2)] ds)
  note sel = handler_sel [OF h] committed_thread_sel [OF assms(2)]
  show "messages (rn_thread s') = messages (rn_thread s) @ [m]"
    "th_current_turn (rn_thread s') = Some (turn\<lparr>ct_buffered_events := ct_buffered_events turn @ es\<rparr>)"
    "th_state (rn_thread s') = th_state (rn_thread s)"
    "th_pending_tool_events (rn_thread s') = th_pending_tool_events (rn_thread s)"
    "rn_registry s' = rn_registry s" "rn_env s' = rn_env s"
    "ls_reply_to_source s' = (ls_reply_to_source s \<and> es = [])"
    "ls_used_tool_names s' = ls_used_tool_names s"
    using sel by (simp_all add: s')
qed

end

section \<open>The open turn is kept\<close>

definition turn_key :: "thread \<Rightarrow> (uuid \<times> rstring option \<times> time) option" where
  "turn_key t = map_option (\<lambda>u. (ct_turn_id u, ct_external_message_id u, ct_started_at u)) (th_current_turn t)"

lemma turn_key_record [simp]: "turn_key (record_tool_event e t) = turn_key t"
  by (simp add: turn_key_def record_tool_event_def split: option.split)

lemma turn_key_buffer: "buffer_turn_event e t = Inr t' \<Longrightarrow> turn_key t' = turn_key t"
  by (auto simp: turn_key_def buffer_turn_event_def current_turn_mut_def split: option.splits)

lemma turn_key_None [simp]: "turn_key t = None \<longleftrightarrow> th_current_turn t = None"
  by (simp add: turn_key_def)

definition turn_kept :: "('e, 'h) loop_state \<Rightarrow> ('e, 'h) loop_state \<Rightarrow> bool" where
  "turn_kept s s' \<longleftrightarrow> turn_key (rn_thread s') = turn_key (rn_thread s) \<and> rn_registry s' = rn_registry s"

interpretation kept_order: action_preorder turn_kept
  by unfold_locales (simp_all add: turn_kept_def)

lemma kept_env: "related turn_kept (on_env m) s"
  by (simp add: related_def turn_kept_def on_env_def split: prod.split)

lemma kept_frame: "framed m s \<Longrightarrow> related turn_kept m s"
  using toolsets_only_sel(2) [of "rn_thread s" "rn_thread (snd (m s))"]
  by (simp add: related_def turn_kept_def framed_def registry_frame_def turn_key_def)

lemma on_thread_turn_kept:
  "(\<And>t t'. f t = Inr t' \<Longrightarrow> turn_key t' = turn_key t) \<Longrightarrow> related turn_kept (on_thread f) s"
  by (simp add: related_def turn_kept_def on_thread_def split: sum.split)

lemma compaction_turn_id: "replace_messages_after_compaction at_time cs t = Inr t' \<Longrightarrow> turn_key t' = turn_key t"
  by (simp add: turn_key_def compaction_sel(2))

lemmas kept_intros = kept_order.rel_bind kept_order.rel_try rel_with_thread kept_order.rel_ret kept_order.rel_fail kept_env

lemma kept_compaction: "related turn_kept (execute_turn_compaction L thread_id reason b i rep) s"
  unfolding execute_turn_compaction_def emit_def utc_now_def
  by (auto intro!: kept_intros on_thread_turn_kept split: option.split
      simp: turn_key_buffer compaction_turn_id)

context commit_handler_laws
begin

lemma kept_commit: "related turn_kept (commit_message tx h m es) s"
proof (cases "th_current_turn (rn_thread s)")
  case None
  then show ?thesis using commit_message_no_turn [OF None, of tx h m es] by (auto simp: related_def turn_kept_def)
next
  case (Some turn)
  obtain r s' where run: "commit_message tx h m es s = (r, s')" by fastforce
  show ?thesis using commit_sel [OF run Some] Some by (simp add: related_def run turn_kept_def turn_key_def)
qed

end

sublocale commit_handler_laws \<subseteq> kept: loop_relation turn_kept L tx h thread_id for L tx thread_id
  by unfold_locales
    (auto intro: kept_commit kept_compaction kept_env kept_frame framed_intros on_thread_turn_kept
      simp: emit_def utc_now_def new_uuid_def turn_key_buffer turn_kept_def)

section \<open>History is kept\<close>

text \<open>
  Without compaction the history only grows; with it, the system messages still do.
\<close>

definition history_kept :: "'e agent_loop \<Rightarrow> ('e, 'h) loop_state \<Rightarrow> ('e, 'h) loop_state \<Rightarrow> bool" where
  "history_kept L s s' \<longleftrightarrow>
     (\<exists>new. filter is_system (messages (rn_thread s')) = filter is_system (messages (rn_thread s)) @ new)
     \<and> (acc_enabled (al_compact_config L) \<or> (\<exists>new. messages (rn_thread s') = messages (rn_thread s) @ new))"

lemma history_kept_same: "messages (rn_thread s') = messages (rn_thread s) \<Longrightarrow> history_kept L s s'"
  by (simp add: history_kept_def)

lemma history_kept_append: "messages (rn_thread s') = messages (rn_thread s) @ new \<Longrightarrow> history_kept L s s'"
  by (auto simp: history_kept_def)

interpretation history_order: action_preorder "history_kept L" for L
proof unfold_locales
  show "history_kept L s s" for s :: "('a, 'b) loop_state" by (rule history_kept_same) simp
next
  fix s s' s'' :: "('a, 'b) loop_state"
  assume "history_kept L s s'" "history_kept L s' s''"
  then show "history_kept L s s''" by (force simp: history_kept_def)
qed

lemma history_env: "related (history_kept L) (on_env m) s"
  by (simp add: related_def on_env_def history_kept_same split: prod.split)

lemma history_frame: "framed m s \<Longrightarrow> related (history_kept L) m s"
  using toolsets_only_sel(1) [of "rn_thread s" "rn_thread (snd (m s))"]
  by (simp add: related_def history_kept_same framed_def registry_frame_def)

lemma history_thread:
  "(\<And>t t'. f t = Inr t' \<Longrightarrow> messages t' = messages t) \<Longrightarrow> related (history_kept L) (on_thread f) s"
  by (auto simp: related_def on_thread_def intro: history_kept_same split: sum.split)

lemma history_replace:
  "acc_enabled (al_compact_config L) \<Longrightarrow>
     related (history_kept L) (on_thread (replace_messages_after_compaction at_time cs)) s"
  by (auto simp: related_def on_thread_def history_kept_def compaction_sel(1) split: sum.split)

lemmas history_intros = history_order.rel_bind history_order.rel_try rel_with_thread history_order.rel_ret
  history_order.rel_fail history_env

lemma history_compaction:
  "acc_enabled (al_compact_config L) \<Longrightarrow>
     related (history_kept L) (execute_turn_compaction L thread_id reason b i rep) s"
  unfolding execute_turn_compaction_def emit_def utc_now_def
  by (auto intro!: history_intros history_thread history_replace split: option.split
      simp: buffer_turn_event_sel(1))

context commit_handler_laws
begin

lemma history_commit: "related (history_kept L) (commit_message tx h m es) s"
proof (cases "th_current_turn (rn_thread s)")
  case None
  then show ?thesis
    using commit_message_no_turn [OF None, of tx h m es] by (auto simp: related_def intro: history_kept_same)
next
  case (Some turn)
  obtain r s' where run: "commit_message tx h m es s = (r, s')" by fastforce
  show ?thesis using commit_sel(1) [OF run Some] by (simp add: related_def run history_kept_append)
qed

end

sublocale commit_handler_laws \<subseteq> history: loop_relation "history_kept L" L tx h thread_id for L tx thread_id
  by unfold_locales
    (auto intro: history_commit history_compaction history_env history_frame framed_intros history_thread history_kept_same
      simp: emit_def utc_now_def new_uuid_def buffer_turn_event_sel(1))

section \<open>What is dispatched\<close>

text \<open>
  Along a run with the recording handler, what was buffered in the turn, compaction aside, is what was
  dispatched, in order; the flag for replying to the source is used once.
\<close>

abbreviation plain :: "thread_turn_event list \<Rightarrow> thread_turn_event list" where
  "plain es \<equiv> filter (\<lambda>e. tv_kind e \<noteq> Compact) es"

definition dispatch_log ::
    "agent_event_sender \<Rightarrow> ('e, agent_dispatch_event list) loop_state \<Rightarrow> ('e, agent_dispatch_event list) loop_state \<Rightarrow> bool" where
  "dispatch_log tx s s' \<longleftrightarrow> (\<exists>es.
     current_turn_events (rn_thread s') = current_turn_events (rn_thread s) @ es
     \<and> ls_handler s' = ls_handler s @ fst (prepare_dispatch_events tx (plain es) (ls_reply_to_source s))
     \<and> ls_reply_to_source s' = snd (prepare_dispatch_events tx (plain es) (ls_reply_to_source s)))"

lemma prepare_dispatch_events_append:
  "prepare_dispatch_events tx (es @ es') flag =
     (fst (prepare_dispatch_events tx es flag)
        @ fst (prepare_dispatch_events tx es' (snd (prepare_dispatch_events tx es flag))),
      snd (prepare_dispatch_events tx es' (snd (prepare_dispatch_events tx es flag))))"
  by (induction es arbitrary: flag) (simp_all add: case_prod_unfold Let_def)

lemma dispatch_log_same:
  "current_turn_events (rn_thread s') = current_turn_events (rn_thread s) \<Longrightarrow> ls_handler s' = ls_handler s \<Longrightarrow>
   ls_reply_to_source s' = ls_reply_to_source s \<Longrightarrow> dispatch_log tx s s'"
  by (simp add: dispatch_log_def)

interpretation log_order: action_preorder "dispatch_log tx" for tx
proof unfold_locales
  show "dispatch_log tx s s" for s :: "('a, agent_dispatch_event list) loop_state"
    by (rule dispatch_log_same) simp_all
next
  fix s s' s'' :: "('a, agent_dispatch_event list) loop_state"
  assume "dispatch_log tx s s'" "dispatch_log tx s' s''"
  then obtain es es' where
    1: "current_turn_events (rn_thread s') = current_turn_events (rn_thread s) @ es"
      "ls_handler s' = ls_handler s @ fst (prepare_dispatch_events tx (plain es) (ls_reply_to_source s))"
      "ls_reply_to_source s' = snd (prepare_dispatch_events tx (plain es) (ls_reply_to_source s))"
    and 2: "current_turn_events (rn_thread s'') = current_turn_events (rn_thread s') @ es'"
      "ls_handler s'' = ls_handler s' @ fst (prepare_dispatch_events tx (plain es') (ls_reply_to_source s'))"
      "ls_reply_to_source s'' = snd (prepare_dispatch_events tx (plain es') (ls_reply_to_source s'))"
    unfolding dispatch_log_def by blast
  show "dispatch_log tx s s''"
    unfolding dispatch_log_def
    by (rule exI [of _ "es @ es'"])
      (simp only: 1 2 filter_append prepare_dispatch_events_append append_assoc fst_conv snd_conv simp_thms)
qed

lemma log_env: "related (dispatch_log tx) (on_env m) s"
  by (simp add: related_def on_env_def dispatch_log_same split: prod.split)

lemma log_frame: "framed m s \<Longrightarrow> related (dispatch_log tx) m s"
proof -
  assume "framed m s"
  then have "toolsets_only (rn_thread s) (rn_thread (snd (m s)))" "run_state.more (snd (m s)) = run_state.more s"
    by (simp_all add: framed_def registry_frame_def)
  moreover have "ls_handler (snd (m s)) = ls_handler s \<and> ls_reply_to_source (snd (m s)) = ls_reply_to_source s"
    using calculation(2) by (cases s, cases "snd (m s)") simp
  ultimately show ?thesis
    using toolsets_only_sel(2) by (simp add: related_def dispatch_log_same current_turn_events_def)
qed

lemma log_thread:
  "(\<And>t t'. f t = Inr t' \<Longrightarrow> current_turn_events t' = current_turn_events t) \<Longrightarrow> related (dispatch_log tx) (on_thread f) s"
  by (auto simp: related_def on_thread_def intro: dispatch_log_same split: sum.split)

lemma log_buffer: "tv_kind ev = Compact \<Longrightarrow> related (dispatch_log tx) (on_thread (buffer_turn_event ev)) s"
  by (auto simp: related_def on_thread_def dispatch_log_def buffer_turn_event_sel(2) split: sum.split)

lemma compaction_turn_events:
  "replace_messages_after_compaction at_time cs t = Inr t' \<Longrightarrow> current_turn_events t' = current_turn_events t"
  by (simp add: current_turn_events_def compaction_sel(2))

lemmas log_intros = log_order.rel_bind log_order.rel_try rel_with_thread log_order.rel_ret log_order.rel_fail log_env

lemma log_compaction: "related (dispatch_log tx) (execute_turn_compaction L thread_id reason b i rep) s"
  unfolding execute_turn_compaction_def emit_def utc_now_def
  by (auto intro!: log_intros log_thread log_buffer split: option.split
      simp: compaction_turn_events build_compact_event_def Let_def)

lemma log_commit: "plain_events es \<Longrightarrow> related (dispatch_log tx) (commit_message tx recording_handler m es) s"
proof (cases "th_current_turn (rn_thread s)")
  case None
  then show ?thesis
    using commit_message_no_turn [OF None, of tx recording_handler m es]
    by (auto simp: related_def intro: dispatch_log_same)
next
  case (Some turn)
  assume "plain_events es"
  then have "plain es = es" by (simp add: list_all_iff)
  then show ?thesis
    using committed_thread_sel [OF Some, of m es] Some
    by (auto simp: related_def commit_message_run [OF Some] recording_handler_def dispatch_log_def
        current_turn_events_def split: prod.split intro!: exI [of _ es])
qed

interpretation logged: loop_relation "dispatch_log tx" L tx recording_handler thread_id for L tx thread_id
  by unfold_locales
    (auto intro: log_commit log_compaction log_env log_frame framed_intros log_thread log_buffer dispatch_log_same
      simp: emit_def utc_now_def new_uuid_def)

section \<open>The start and the end of a run\<close>

lemma on_env_run: "on_env m s = (r, s') \<Longrightarrow> \<exists>e. s' = s\<lparr>rn_env := e\<rparr>"
  by (auto simp: on_env_def split: prod.splits)

lemma act_bindE:
  assumes "act_bind m f s = (Inr y, s'')"
  obtains x s' where "m s = (Inr x, s')" "f x s' = (Inr y, s'')"
  using assms by (auto simp: act_bind_Inr)

lemma utc_now_run: "\<exists>at_time e. utc_now L s = (Inr at_time, s\<lparr>rn_env := e\<rparr>)"
  by (cases "w_now (al_world L) (rn_env s)") (auto simp: utc_now_def on_env_def act_now_def)

lemma new_uuid_run: "\<exists>u e. new_uuid L s = (Inr u, s\<lparr>rn_env := e\<rparr>)"
  by (cases "w_uuid (al_world L) (rn_env s)") (auto simp: new_uuid_def on_env_def act_uuid_def)

lemma register_builtin_tools_run:
  "register_builtin_tools v s = (r, s') \<Longrightarrow> \<exists>e g. s' = s\<lparr>rn_registry := g, rn_env := e\<rparr>"
  by (auto simp: register_builtin_tools_def Let_def split: sum.splits prod.splits)

lemma begin_run_run:
  assumes "begin_run L tx h m x s = (Inr tid, s')"
  obtains s1 turn where
    "th_current_turn (rn_thread s) = None" "tid = tcl_thread_id (th_locator (rn_thread s))"
    "commit_message tx h m [] s1 = (Inr (), s')" "th_current_turn (rn_thread s1) = Some turn"
    "messages (rn_thread s1) = messages (rn_thread s)" "ct_buffered_events turn = []"
    "ls_handler s1 = ls_handler s" "ls_reply_to_source s1" "ls_used_tool_names s1 = []"
    "ct_external_message_id turn = x" "th_state (rn_thread s1) = th_state (rn_thread s)"
    "ct_tool_events turn = th_pending_tool_events (rn_thread s)" "th_pending_tool_events (rn_thread s1) = []"
    "th_locator (rn_thread s1) = th_locator (rn_thread s)" "th_revision (rn_thread s1) = th_revision (rn_thread s)"
proof -
  from assms [unfolded begin_run_def prepare_thread_runtime_def] obtain u1 sa where
    a: "register_builtin_tools (al_tools L) s = (Inr u1, sa)"
    and k1: "act_bind (with_thread th_locator act_ret) (\<lambda>l.
       act_bind (emit L HookUserPromptSubmit (JObj [(str ''channel'', JStr (tcl_channel l)),
         (str ''user_id'', JStr (tcl_user_id l)), (str ''thread_id'', JStr (tcl_thread_id l))])) (\<lambda>_.
       act_bind (\<lambda>s. (Inr (), s\<lparr>ls_used_tool_names := [], ls_last_visible_tools := [],
                                ls_last_budget_report := None, ls_reply_to_source := True\<rparr>)) (\<lambda>_.
       act_bind (new_uuid L) (\<lambda>fresh.
       act_bind (on_thread (begin_turn fresh x (msg_created_at m))) (\<lambda>_.
       act_bind (commit_message tx h m []) (\<lambda>_. act_ret (tcl_thread_id l))))))) sa = (Inr tid, s')"
    by (rule act_bindE)
  obtain e g where sa: "sa = s\<lparr>rn_registry := g, rn_env := e\<rparr>" using register_builtin_tools_run [OF a] by blast
  let ?l = "th_locator (rn_thread s)"
  have "act_bind (emit L HookUserPromptSubmit (JObj [(str ''channel'', JStr (tcl_channel ?l)),
         (str ''user_id'', JStr (tcl_user_id ?l)), (str ''thread_id'', JStr (tcl_thread_id ?l))])) (\<lambda>_.
       act_bind (\<lambda>s. (Inr (), s\<lparr>ls_used_tool_names := [], ls_last_visible_tools := [],
                                ls_last_budget_report := None, ls_reply_to_source := True\<rparr>)) (\<lambda>_.
       act_bind (new_uuid L) (\<lambda>fresh.
       act_bind (on_thread (begin_turn fresh x (msg_created_at m))) (\<lambda>_.
       act_bind (commit_message tx h m []) (\<lambda>_. act_ret (tcl_thread_id ?l)))))) sa = (Inr tid, s')"
    using k1 unfolding act_bind_def [of "with_thread th_locator act_ret"]
    by (simp add: with_thread_def act_ret_def sa)
  then obtain u2 sb where b: "emit L HookUserPromptSubmit (JObj [(str ''channel'', JStr (tcl_channel ?l)),
         (str ''user_id'', JStr (tcl_user_id ?l)), (str ''thread_id'', JStr (tcl_thread_id ?l))]) sa = (Inr u2, sb)"
    and k2: "act_bind (\<lambda>s. (Inr (), s\<lparr>ls_used_tool_names := [], ls_last_visible_tools := [],
                                ls_last_budget_report := None, ls_reply_to_source := True\<rparr>)) (\<lambda>_.
       act_bind (new_uuid L) (\<lambda>fresh.
       act_bind (on_thread (begin_turn fresh x (msg_created_at m))) (\<lambda>_.
       act_bind (commit_message tx h m []) (\<lambda>_. act_ret (tcl_thread_id ?l))))) sb = (Inr tid, s')"
    by (rule act_bindE)
  obtain e' where sb: "sb = sa\<lparr>rn_env := e'\<rparr>" using on_env_run b unfolding emit_def by blast
  let ?sc = "sb\<lparr>ls_used_tool_names := [], ls_last_visible_tools := [], ls_last_budget_report := None,
      ls_reply_to_source := True\<rparr>"
  obtain u3 sc where c: "(Inr (), ?sc) = (Inr u3 :: err + unit, sc)"
    and k3: "act_bind (new_uuid L) (\<lambda>fresh.
       act_bind (on_thread (begin_turn fresh x (msg_created_at m))) (\<lambda>_.
       act_bind (commit_message tx h m []) (\<lambda>_. act_ret (tcl_thread_id ?l)))) sc = (Inr tid, s')"
    by (rule act_bindE [OF k2])
  obtain fresh sd where d: "new_uuid L sc = (Inr fresh, sd)"
    and k4: "act_bind (on_thread (begin_turn fresh x (msg_created_at m))) (\<lambda>_.
       act_bind (commit_message tx h m []) (\<lambda>_. act_ret (tcl_thread_id ?l))) sd = (Inr tid, s')"
    by (rule act_bindE [OF k3])
  obtain e'' where "sd = sc\<lparr>rn_env := e''\<rparr>" using on_env_run d unfolding new_uuid_def by blast
  then have sd: "sd = ?sc\<lparr>rn_env := e''\<rparr>" using c by simp
  obtain u5 se where "on_thread (begin_turn fresh x (msg_created_at m)) sd = (Inr u5, se)"
    and k5: "act_bind (commit_message tx h m []) (\<lambda>_. act_ret (tcl_thread_id ?l)) se = (Inr tid, s')"
    by (rule act_bindE [OF k4])
  then obtain t where t: "begin_turn fresh x (msg_created_at m) (rn_thread s) = Inr t" and se: "se = sd\<lparr>rn_thread := t\<rparr>"
    by (auto simp: on_thread_def sd sb sa split: sum.splits)
  obtain u6 sf where commit: "commit_message tx h m [] (sd\<lparr>rn_thread := t\<rparr>) = (Inr u6, sf)"
    and k6: "act_ret (tcl_thread_id ?l) sf = (Inr tid, s')"
    by (rule act_bindE [OF k5 [unfolded se]])
  have tid: "tid = tcl_thread_id ?l" and "sf = s'" using k6 by (simp_all add: act_ret_def)
  with commit have commit: "commit_message tx h m [] (sd\<lparr>rn_thread := t\<rparr>) = (Inr (), s')" by simp
  let ?turn = "thread_current_turn_new fresh x (msg_created_at m)
      \<lparr>ct_tool_events := th_pending_tool_events (rn_thread s)\<rparr>"
  have turn: "th_current_turn t = Some ?turn"
    using t by (auto simp: begin_turn_def open_turn_def thread_current_turn_new_def Let_def split: if_splits)
  have se_sel: "rn_thread (sd\<lparr>rn_thread := t\<rparr>) = t" "ls_handler (sd\<lparr>rn_thread := t\<rparr>) = ls_handler sd"
    "ls_reply_to_source (sd\<lparr>rn_thread := t\<rparr>) = ls_reply_to_source sd"
    "ls_used_tool_names (sd\<lparr>rn_thread := t\<rparr>) = ls_used_tool_names sd" by simp_all
  have local: "ls_handler sd = ls_handler s" "ls_reply_to_source sd" "ls_used_tool_names sd = []"
    by (simp_all add: sd sb sa)
  have new: "ct_buffered_events ?turn = []" "ct_external_message_id ?turn = x"
    "ct_tool_events ?turn = th_pending_tool_events (rn_thread s)"
    by (simp_all add: thread_current_turn_new_def)
  show ?thesis
    by (rule that [of "sd\<lparr>rn_thread := t\<rparr>" ?turn, OF begin_turn_sel(8) [OF t] tid commit])
      (simp_all only: se_sel turn begin_turn_sel [OF t] local new)
qed

lemma finalize_run_sel:
  assumes "finalize_run c at_time t = Inr (turn, t')"
  shows "messages t' = messages t" "th_current_turn t' = None" "ft_snapshot turn = t'"
    "Some (ft_turn_id turn) = current_turn_id t"
    "current_turn_events t \<noteq> [] \<Longrightarrow> ft_events turn = current_turn_events t"
    "ft_status turn = (case tn_failure_error c of None \<Rightarrow> Succeeded | Some e \<Rightarrow> Failed e)"
    "ft_reply turn = (case tn_failure_error c of None \<Rightarrow> tn_reply c | Some e \<Rightarrow> str ''[openjarvis][agent_error] '' @ e)"
    "th_revision t' = th_revision t" "th_locator t' = th_locator t"
    "th_current_turn t = Some u \<Longrightarrow> ft_external_message_id turn = ct_external_message_id u"
  using assms
  by (auto simp: finalize_run_def finalize_turn_success_def finalize_turn_def finalize_turn_failure_def Let_def
      close_turn_def current_turn_id_def current_turn_events_def split: option.splits if_splits)

lemma finalize_run_total: "th_current_turn t \<noteq> None \<Longrightarrow> \<exists>turn t'. finalize_run c at_time t = Inr (turn, t')"
  using finalize_turn_success_total finalize_turn_failure_total
  by (auto simp: finalize_run_def split: option.split)

lemma finish_run_run:
  assumes "finish_run L c s = (r, s')"
  obtains (fail) e where "r = Inl e" "th_current_turn (rn_thread s) = None" "rn_thread s' = rn_thread s"
  | (closed) e completed_at turn where "r = Inl e" "finalize_run c completed_at (rn_thread s) = Inr (turn, rn_thread s')"
      "ls_handler s' = ls_handler s"
  | (finished) out completed_at turn where "r = Inr out"
      "finalize_run c completed_at (rn_thread s) = Inr (turn, rn_thread s')"
      "ao_reply out = tn_reply c" "ao_turns out = [\<lparr>ca_turn = turn\<rparr>]"
      "ls_handler s' = ls_handler s" "ls_reply_to_source s' = ls_reply_to_source s"
proof -
  obtain completed_at e where now: "utc_now L s = (Inr completed_at, s\<lparr>rn_env := e\<rparr>)"
    using utc_now_run [of L s] by blast
  define s1 where s1: "s1 = s\<lparr>rn_env := e\<rparr>"
  have 1: "utc_now L s = (Inr completed_at, s1)" using now s1 by simp
  show ?thesis
  proof (cases "finalize_run c completed_at (rn_thread s)")
    case (Inl err)
    then have "th_current_turn (rn_thread s) = None"
      using finalize_run_total [of "rn_thread s" c completed_at] by (cases "th_current_turn (rn_thread s)") auto
    then show ?thesis using assms 1 Inl s1 fail by (auto simp: finish_run_def act_bind_def)
  next
    case (Inr p)
    obtain turn t where p: "p = (turn, t)" by fastforce
    let ?meta = "build_loop_output_metadata L e turn (ls_used_tool_names s) (ls_last_visible_tools s) (ls_last_budget_report s)"
    let ?ev = "JObj [(str ''reply_preview'', JStr (tn_reply c)), (str ''runtime'', ?meta)]"
    obtain q s2 where 2: "emit L HookNotification ?ev (s1\<lparr>rn_thread := t\<rparr>) = (q, s2)" by fastforce
    obtain e' where s2: "s2 = s1\<lparr>rn_thread := t, rn_env := e'\<rparr>" using on_env_run 2 unfolding emit_def by force
    show ?thesis
    proof (cases q)
      case (Inl err)
      then have "r = Inl err" "s' = s2"
        using assms 1 Inr p 2 by (auto simp: finish_run_def act_bind_def s1)
      then show ?thesis using closed [of err completed_at turn] Inr p s2 s1 by simp
    next
      case (Inr u)
      then have "r = Inr \<lparr>ao_reply = tn_reply c, ao_metadata = ?meta, ao_turns = [\<lparr>ca_turn = turn\<rparr>]\<rparr>" "s' = s2"
        using assms 1 \<open>finalize_run c completed_at (rn_thread s) = Inr p\<close> p 2
        by (auto simp: finish_run_def act_bind_def act_ret_def s1)
      then show ?thesis
        using finished [of _ completed_at turn] \<open>finalize_run c completed_at (rn_thread s) = Inr p\<close> p s2 s1 by simp
    qed
  qed
qed

section \<open>How a loop ends\<close>

text \<open>A turn that ends was given a reply: the last committed message brought an event.\<close>

definition completion_ok :: "turn_completion \<Rightarrow> bool" where
  "completion_ok c \<longleftrightarrow> (case tn_failure_error c of None \<Rightarrow> True
     | Some e \<Rightarrow> tn_reply c = str ''[openjarvis][agent_error] '' @ e)"

context commit_handler_laws
begin

lemma commit_ok_events:
  assumes "commit_message tx h m es s = (Inr u, s')" "es \<noteq> []"
  shows "current_turn_events (rn_thread s') \<noteq> []"
proof (cases "th_current_turn (rn_thread s)")
  case None
  then show ?thesis using commit_message_no_turn [OF None, of tx h m es] assms(1) by auto
next
  case (Some turn)
  show ?thesis using commit_sel(2) [OF assms(1) Some] assms(2) by (simp add: current_turn_events_def)
qed

lemma answer_events:
  assumes "answer_turn tx h response s = (Inr r, s')"
  shows "current_turn_events (rn_thread s') \<noteq> [] \<and> tl_completed r"
proof -
  obtain m where m: "lr_message response = Some m" "trim (msg_content m) \<noteq> []"
    using assms by (auto simp: answer_turn_def act_fail_def split: option.splits if_splits)
  then have "act_bind (commit_message tx h m [text_output_event (msg_content m) True])
      (\<lambda>_. act_ret \<lparr>tl_reply = msg_content m, tl_completed = True\<rparr>) s = (Inr r, s')"
    using assms by (simp add: answer_turn_def)
  then obtain u s1 where 1: "commit_message tx h m [text_output_event (msg_content m) True] s = (Inr u, s1)"
    and 2: "act_ret \<lparr>tl_reply = msg_content m, tl_completed = True\<rparr> s1 = (Inr r, s')"
    by (rule act_bindE)
  have "current_turn_events (rn_thread s1) \<noteq> []" by (rule commit_ok_events [OF 1]) simp
  with 2 show ?thesis by (auto simp: act_ret_def)
qed

lemma tool_turn_not_completed:
  assumes "tool_turn L tx h thread_id rep response s = (Inr r, s')"
  shows "\<not> tl_completed r"
  using assms unfolding tool_turn_def by (elim act_bindE) (auto simp: act_ret_def)

lemma body_completed:
  assumes "turn_body L tx h thread_id s = (Inr r, s')" "tl_completed r"
  shows "current_turn_events (rn_thread s') \<noteq> []"
proof -
  obtain response s1 rep where
    run: "(if lr_tool_calls response = [] then answer_turn tx h response
      else tool_turn L tx h thread_id rep response) s1 = (Inr r, s')"
    using assms(1) unfolding turn_body_def by (elim act_bindE)
  show ?thesis
  proof (cases "lr_tool_calls response = []")
    case True
    with run have "answer_turn tx h response s1 = (Inr r, s')" by simp
    from answer_events [OF this] show ?thesis by simp
  next
    case False
    with run have "tool_turn L tx h thread_id rep response s1 = (Inr r, s')" by simp
    from tool_turn_not_completed [OF this] assms(2) show ?thesis by simp
  qed
qed

lemma fail_turn_ok:
  assumes "fail_turn tx h at_time e s = (Inr c, s')"
  shows "c = \<lparr>tn_reply = str ''[openjarvis][agent_error] '' @ err_display_alt e,
              tn_failure_error = Some (err_display_alt e)\<rparr>"
    and "current_turn_events (rn_thread s') \<noteq> []"
proof -
  obtain u s1 where 1: "commit_message tx h (chat_message_new RoleAssistant
      (str ''[openjarvis][agent_error] '' @ err_display_alt e) at_time)
      [turn_failure_event (str ''[openjarvis][agent_error] '' @ err_display_alt e)] s = (Inr u, s1)"
    and 2: "act_ret \<lparr>tn_reply = str ''[openjarvis][agent_error] '' @ err_display_alt e,
              tn_failure_error = Some (err_display_alt e)\<rparr> s1 = (Inr c, s')"
    using assms unfolding fail_turn_def Let_def by (rule act_bindE)
  have "current_turn_events (rn_thread s1) \<noteq> []" by (rule commit_ok_events [OF 1]) simp
  with 2 show "c = \<lparr>tn_reply = str ''[openjarvis][agent_error] '' @ err_display_alt e,
              tn_failure_error = Some (err_display_alt e)\<rparr>"
    and "current_turn_events (rn_thread s') \<noteq> []"
    by (simp_all add: act_ret_def)
qed

lemma iteration_break:
  assumes "loop_iteration L tx h thread_id s = (Inr (Some c), s')"
  shows "completion_ok c \<and> current_turn_events (rn_thread s') \<noteq> []"
proof -
  obtain sa where "act_try (turn_body L tx h thread_id) (\<lambda>turn_result.
     act_bind (utc_now L) (\<lambda>completed_at.
     case turn_result of
       Inr r \<Rightarrow>
         act_ret (if tl_completed r then Some \<lparr>tn_reply = tl_reply r, tn_failure_error = None\<rparr> else None)
     | Inl error \<Rightarrow> act_bind (fail_turn tx h completed_at error) (\<lambda>c. act_ret (Some c)))) sa = (Inr (Some c), s')"
    using assms unfolding loop_iteration_def by (elim act_bindE)
  then obtain q sb where b: "turn_body L tx h thread_id sa = (q, sb)"
    and k: "act_bind (utc_now L) (\<lambda>completed_at.
     case q of
       Inr r \<Rightarrow>
         act_ret (if tl_completed r then Some \<lparr>tn_reply = tl_reply r, tn_failure_error = None\<rparr> else None)
     | Inl error \<Rightarrow> act_bind (fail_turn tx h completed_at error) (\<lambda>c. act_ret (Some c))) sb = (Inr (Some c), s')"
    by (cases "turn_body L tx h thread_id sa") (auto simp: act_try_def)
  obtain at_time e where now: "utc_now L sb = (Inr at_time, sb\<lparr>rn_env := e\<rparr>)" using utc_now_run [of L sb] by blast
  show ?thesis
  proof (cases q)
    case (Inl err)
    with k now have "act_bind (fail_turn tx h at_time err) (\<lambda>c. act_ret (Some c)) (sb\<lparr>rn_env := e\<rparr>) = (Inr (Some c), s')"
      by (simp add: act_bind_def)
    then obtain c' s1 where f: "fail_turn tx h at_time err (sb\<lparr>rn_env := e\<rparr>) = (Inr c', s1)"
      and "act_ret (Some c') s1 = (Inr (Some c), s')" by (rule act_bindE)
    then have "c' = c" "s1 = s'" by (simp_all add: act_ret_def)
    with fail_turn_ok [OF f] show ?thesis by (simp add: completion_ok_def)
  next
    case (Inr r)
    with k now have "tl_completed r" "c = \<lparr>tn_reply = tl_reply r, tn_failure_error = None\<rparr>" "s' = sb\<lparr>rn_env := e\<rparr>"
      by (auto simp: act_bind_def act_ret_def split: if_splits)
    then show ?thesis using body_completed b Inr by (simp add: completion_ok_def)
  qed
qed

lemma loop_break:
  "turn_loop L tx h thread_id s = Some (Inr c, s') \<Longrightarrow> completion_ok c \<and> current_turn_events (rn_thread s') \<noteq> []"
proof -
  have "turn_loop L tx h thread_id s = Some (r, s') \<Longrightarrow>
      (case r of Inr c \<Rightarrow> completion_ok c \<and> current_turn_events (rn_thread s') \<noteq> [] | Inl e \<Rightarrow> True)" for r
    by (induction rule: turn_loop_induct) (auto simp: iteration_break)
  from this [of "Inr c"] show "turn_loop L tx h thread_id s = Some (Inr c, s') \<Longrightarrow> ?thesis" by simp
qed

text \<open>A run that returns an output, taken apart.\<close>

lemma run_live_thread_ok:
  assumes "run_live_thread L tx h m x s = Some (Inr out, s')"
  obtains s1 s2 c completed_at turn where
    "begin_run L tx h m x s = (Inr (tcl_thread_id (th_locator (rn_thread s))), s1)"
    "turn_loop L tx h (tcl_thread_id (th_locator (rn_thread s))) s1 = Some (Inr c, s2)"
    "finalize_run c completed_at (rn_thread s2) = Inr (turn, rn_thread s')"
    "ao_reply out = tn_reply c" "ao_turns out = [\<lparr>ca_turn = turn\<rparr>]" "ls_handler s' = ls_handler s2"
    "completion_ok c" "current_turn_events (rn_thread s2) \<noteq> []"
proof -
  obtain tid s1 where 1: "begin_run L tx h m x s = (Inr tid, s1)"
    using assms by (auto simp: run_live_thread_def split: prod.splits sum.splits)
  have tid: "tid = tcl_thread_id (th_locator (rn_thread s))" by (rule begin_run_run [OF 1])
  obtain c s2 where 2: "turn_loop L tx h tid s1 = Some (Inr c, s2)" and 3: "finish_run L c s2 = (Inr out, s')"
    using assms 1 by (auto simp: run_live_thread_def split: option.splits prod.splits sum.splits)
  note fin = loop_break [OF 2]
  from 3 show ?thesis
  proof (cases rule: finish_run_run)
    case (finished out' completed_at turn)
    then show ?thesis using that [of s1 c s2 completed_at turn] 1 2 tid fin by simp
  qed simp_all
qed

lemma begin_run_turn:
  assumes "begin_run L tx h m x s = (Inr tid, s1)"
  shows "messages (rn_thread s1) = messages (rn_thread s) @ [m]" "current_turn_events (rn_thread s1) = []"
    "\<exists>u. th_current_turn (rn_thread s1) = Some u \<and> ct_external_message_id u = x"
    "ls_reply_to_source s1" "th_current_turn (rn_thread s) = None"
    "th_state (rn_thread s1) = th_state (rn_thread s)"
proof -
  obtain s0 turn where b: "th_current_turn (rn_thread s) = None"
    "commit_message tx h m [] s0 = (Inr (), s1)" "th_current_turn (rn_thread s0) = Some turn"
    "messages (rn_thread s0) = messages (rn_thread s)" "ct_buffered_events turn = []"
    "ls_reply_to_source s0" "ct_external_message_id turn = x" "th_state (rn_thread s0) = th_state (rn_thread s)"
    by (rule begin_run_run [OF assms])
  note sel = commit_sel [OF b(2,3)]
  show "messages (rn_thread s1) = messages (rn_thread s) @ [m]" "current_turn_events (rn_thread s1) = []"
    "\<exists>u. th_current_turn (rn_thread s1) = Some u \<and> ct_external_message_id u = x"
    "ls_reply_to_source s1" "th_current_turn (rn_thread s) = None"
    "th_state (rn_thread s1) = th_state (rn_thread s)"
    using sel b by (simp_all add: current_turn_events_def)
qed

end

end
