(* ===== verification/OJ_Agent_Run.thy ===== *)
theory OJ_Agent_Run
  imports OJ_Agent_Loop
begin

text \<open>
  What a run of the agent loop guarantees: one finalized turn per request, a history that is not rolled
  back, events that reach the channel as the turn buffered them, a result for every tool call, failures
  that become replies, and termination. The runs of the witnesses replay a scripted provider.
\<close>

section \<open>The relations along a loop\<close>

context commit_handler_laws
begin

lemma kept_loop: "turn_loop L tx h thread_id s = Some (r, s') \<Longrightarrow> turn_kept s s'"
  by (rule kept.rel_loop)

lemma kept_body: "turn_body L tx h thread_id s = (r, s') \<Longrightarrow> turn_kept s s'"
  by (rule kept.rel_turn_bodyD)

lemma history_loop: "turn_loop L tx h thread_id s = Some (r, s') \<Longrightarrow> history_kept L s s'"
  by (rule history.rel_loop)

lemma history_commitD: "commit_message tx h m es s = (r, s') \<Longrightarrow> history_kept L s s'"
  using history_commit [of L tx m es s] by (simp add: related_def)

end

section \<open>A concrete run\<close>

text \<open>A provider that replays a script, for the witnesses; what it sends is plain assistant text.\<close>

definition scripted_reply :: "llm_response \<Rightarrow> llm_response" where
  "scripted_reply r = r\<lparr>lr_message := map_option (\<lambda>m. chat_message_new RoleAssistant (msg_content m) (msg_created_at m)) (lr_message r)\<rparr>"

definition script_world :: "llm_response list world" where
  "script_world =
     \<lparr>w_generate = (\<lambda>request script. case script of [] \<Rightarrow> (Inl (bail (str ''script ended'')), [])
                                      | r # rs \<Rightarrow> (Inr (scripted_reply r), rs)),
      w_now = (\<lambda>script. (9, script)), w_uuid = (\<lambda>script. (7, script))\<rparr>"

definition script_tool :: "string \<Rightarrow> llm_response list tool_handler" where
  "script_tool name =
     \<lparr>hd_definition = \<lparr>td_name = str name, td_description = [], td_input_schema = JNull, td_source = Builtin\<rparr>,
      hd_call = (\<lambda>_ _. act_ret \<lparr>rs_content = str ''done'', rs_metadata = JNull, rs_is_error = False\<rparr>)\<rparr>"

definition script_toolset :: "llm_response list static_toolset_definition" where
  "script_toolset = \<lparr>st_entry = demo_toolset_entry, st_handlers = [], st_runtime = None\<rparr>"

definition script_tool_env :: "llm_response list tool_env" where
  "script_tool_env =
     \<lparr>tv_mcp_list_servers = (\<lambda>_. []), tv_mcp_ensure_server_tools = (\<lambda>_. act_fail (bail [])),
      tv_builtin_tools = [], tv_browser_toolset = script_toolset, tv_memory_toolset = script_toolset,
      tv_skills_reload = act_ret (), tv_has_enabled_skills = (\<lambda>_. False),
      tv_load_skill_tool = script_tool ''load_skill'',
      tv_serde_error = (\<lambda>_. bail []), tv_manage_toolset_schema = JNull\<rparr>"

definition script_loop :: "llm_response list agent_loop" where
  "script_loop =
     \<lparr>al_world = script_world, al_hooks = [], al_tools = script_tool_env,
      al_compact_config = demo_compact_config\<lparr>acc_enabled := False\<rparr>, al_budget_estimator = demo_estimator,
      al_compact_provider = static_compact_provider demo_summary, al_js = (\<lambda>_. []), al_fdiv = demo_fdiv,
      al_uuids = demo_uuid_lib\<rparr>"

definition script_registry :: "llm_response list tool_registry" where
  "script_registry =
     \<lparr>tg_always_visible = [(str ''read'', script_tool ''read'')],
      tg_toolsets = [(str ''web'', StaticToolset script_toolset)]\<rparr>"

definition script_state :: "llm_response list \<Rightarrow> (llm_response list, agent_dispatch_event list) loop_state" where
  "script_state script =
     \<lparr>rn_env = script, rn_registry = script_registry, rn_thread = thread_new demo_locator 0,
      ls_handler = [], ls_reply_to_source = False, ls_used_tool_names = [], ls_last_visible_tools = [],
      ls_last_budget_report = None\<rparr>"

definition demo_incoming :: incoming_message where
  "demo_incoming =
     \<lparr>im_id = 1, im_external_message_id = Some (str ''m1''), im_channel = str ''feishu'', im_user_id = str ''ou'',
      im_user_name = None, im_content = str ''hello'', im_external_thread_id = Some (str ''ext''),
      im_received_at = 1, im_metadata = JNull, im_attachments = [],
      im_reply_target = \<lparr>rt_receive_id = str ''oc'', rt_receive_id_type = str ''chat_id''\<rparr>\<rparr>"

definition demo_sender :: agent_event_sender where
  "demo_sender = from_incoming_and_locator demo_incoming demo_locator"

definition demo_answer :: llm_response where
  "demo_answer = \<lparr>lr_message = Some (chat_message_new RoleAssistant (str ''pong'') 2), lr_tool_calls = []\<rparr>"

definition demo_call_response :: "string \<Rightarrow> llm_response" where
  "demo_call_response tool =
     \<lparr>lr_message = None, lr_tool_calls = [\<lparr>tc_id = str ''c1'', tc_name = str tool, tc_arguments = JNull\<rparr>]\<rparr>"

lemma script_now: "utc_now script_loop s = (Inr 9, s)"
  by (simp add: utc_now_def script_loop_def script_world_def on_env_def act_now_def)

lemma script_uuid: "new_uuid script_loop s = (Inr 7, s)"
  by (simp add: new_uuid_def script_loop_def script_world_def on_env_def act_uuid_def)

lemma script_emit: "emit script_loop k p s = (Inr (), s)"
  by (simp add: emit_def script_loop_def on_env_def act_ret_def)

lemma script_builtin:
  "rn_registry s = script_registry \<Longrightarrow> register_builtin_tools (al_tools script_loop) s = (Inr (), s)"
proof -
  assume g: "rn_registry s = script_registry"
  have r: "register_builtin_toolset script_toolset script_registry = Inr script_registry"
    by (simp add: register_builtin_toolset_def toolset_registered_def script_registry_def script_toolset_def
        demo_toolset_entry_def)
  have k: "sync_skill_handlers script_tool_env e script_registry = script_registry" for e
    by (simp add: sync_skill_handlers_def script_tool_env_def script_registry_def)
  have "script_tool_env = al_tools script_loop" by (simp add: script_loop_def)
  moreover have "tv_browser_toolset script_tool_env = script_toolset" "tv_memory_toolset script_tool_env = script_toolset"
    "tv_builtin_tools script_tool_env = []" "tv_skills_reload script_tool_env = act_ret ()"
    by (simp_all add: script_tool_env_def)
  ultimately show ?thesis
    using g r k by (simp add: register_builtin_tools_def register_builtin_into_def act_ret_def)
qed

lemma script_request:
  assumes "rn_registry s = script_registry" "load_toolsets (rn_thread s) = []"
  obtains tools report where "prepare_request_state script_loop s
      = (Inr \<lparr>rq_messages = messages (rn_thread s), rq_tools = tools, rq_budget_report = report\<rparr>, s)"
proof -
  have static: "all_static (rn_registry s) (load_toolsets (rn_thread s))" by (simp add: assms)
  obtain ds where ds: "list_for_context_with_compact script_tool_env False s = (Inr ds, s)"
    by (rule list_for_context_static_run [OF static])
  have off: "\<not> auto_compact_enabled_for_thread script_loop t" for t
    by (simp add: auto_compact_enabled_for_thread_def script_loop_def)
  have env: "al_tools script_loop = script_tool_env" by (simp add: script_loop_def)
  show ?thesis
    by (rule that [of ds "estimate_request script_loop (messages (rn_thread s)) ds"])
      (simp add: prepare_request_state_def act_bind_def ds env off Let_def act_ret_def)
qed

lemma script_no_compact: "\<not> should_runtime_compact script_loop t r"
  by (simp add: should_runtime_compact_def script_loop_def)

lemma scripted_answer [simp]: "scripted_reply demo_answer = demo_answer"
  by (simp add: scripted_reply_def demo_answer_def)

lemma scripted_call [simp]: "scripted_reply (demo_call_response t) = demo_call_response t"
  by (simp add: scripted_reply_def demo_call_response_def)

lemma script_generate:
  "rn_env s = r # rs \<Longrightarrow> on_env (w_generate (al_world script_loop) req) s = (Inr (scripted_reply r), s\<lparr>rn_env := rs\<rparr>)"
  by (simp add: on_env_def script_loop_def script_world_def)

lemma recording_commit:
  assumes "th_current_turn (rn_thread s) = Some turn"
  shows "commit_message tx recording_handler m es s =
     (Inr (), s\<lparr>ls_reply_to_source := snd (prepare_dispatch_events tx es (ls_reply_to_source s)),
              ls_handler := ls_handler s @ fst (prepare_dispatch_events tx es (ls_reply_to_source s)),
              rn_thread := committed_thread m es turn (rn_thread s)\<rparr>)"
  by (simp add: commit_message_run [OF assms] recording_handler_def split: prod.split)

text \<open>An answer without tool calls ends the loop in the iteration that gets it.\<close>

lemma script_answer_iteration:
  assumes "rn_registry s = script_registry" "load_toolsets (rn_thread s) = []" "rn_env s = demo_answer # rs"
    "th_current_turn (rn_thread s) \<noteq> None"
  obtains s' where "loop_iteration script_loop tx recording_handler tid s
      = (Inr (Some \<lparr>tn_reply = str ''pong'', tn_failure_error = None\<rparr>), s')"
proof -
  obtain tools rep where req: "prepare_request_state script_loop s
      = (Inr \<lparr>rq_messages = messages (rn_thread s), rq_tools = tools, rq_budget_report = rep\<rparr>, s)"
    by (rule script_request [OF assms(1,2)])
  obtain turn where turn: "th_current_turn (rn_thread s) = Some turn" using assms(4) by blast
  have word: "trim (str ''pong'') = str ''pong''" by (rule trim_word) (simp add: str_def is_whitespace_def)
  define s1 where "s1 = s\<lparr>ls_last_visible_tools := tools, ls_last_budget_report := Some rep, rn_env := rs\<rparr>"
  have t1: "th_current_turn (rn_thread s1) = Some turn" by (simp add: s1_def turn)
  obtain s2 where s2: "commit_message tx recording_handler (chat_message_new RoleAssistant (str ''pong'') 2)
      [text_output_event (str ''pong'') True] s1 = (Inr (), s2)"
    using recording_commit [OF t1] by blast
  have "answer_turn tx recording_handler demo_answer s1 = (Inr \<lparr>tl_reply = str ''pong'', tl_completed = True\<rparr>, s2)"
    using s2 word by (simp add: answer_turn_def demo_answer_def act_bind_def act_ret_def)
  moreover have "on_env (w_generate (al_world script_loop) q)
      (s\<lparr>ls_last_visible_tools := tools, ls_last_budget_report := Some rep\<rparr>) = (Inr demo_answer, s1)" for q
    using assms(3) by (simp add: script_generate s1_def)
  moreover have "lr_tool_calls demo_answer = []" by (simp add: demo_answer_def)
  ultimately have body: "turn_body script_loop tx recording_handler tid s
      = (Inr \<lparr>tl_reply = str ''pong'', tl_completed = True\<rparr>, s2)"
    by (simp add: turn_body_def act_bind_def req)
  show ?thesis
    by (rule that [of s2])
      (simp add: loop_iteration_def act_bind_def req with_thread_def script_no_compact act_ret_def act_try_def body script_now)
qed

lemma script_begin:
  obtains s1 where "begin_run script_loop tx recording_handler m x (script_state script) = (Inr [2], s1)"
    "rn_env s1 = script" "rn_registry s1 = script_registry" "load_toolsets (rn_thread s1) = []"
    "th_current_turn (rn_thread s1) \<noteq> None"
proof -
  let ?s = "script_state script"
  let ?s1 = "?s\<lparr>ls_used_tool_names := [], ls_last_visible_tools := [], ls_last_budget_report := None,
      ls_reply_to_source := True\<rparr>"
  have loc: "tcl_thread_id (th_locator (thread_new demo_locator 0)) = [2]"
    by (simp add: thread_new_def demo_locator_def)
  have g: "rn_registry ?s = script_registry" and t0: "rn_thread ?s = thread_new demo_locator 0"
    by (simp_all add: script_state_def)
  obtain t where t: "begin_turn 7 x (msg_created_at m) (thread_new demo_locator 0) = Inr t"
    "th_current_turn t = Some (thread_current_turn_new 7 x (msg_created_at m))"
    by (simp add: begin_turn_def open_turn_def thread_new_def thread_current_turn_new_def Let_def)
  have ts: "load_toolsets t = []" using begin_turn_sel(6) [OF t(1)] by (simp add: thread_new_def thread_state_default_def)
  let ?s2 = "?s1\<lparr>rn_thread := t\<rparr>"
  have c: "commit_message tx recording_handler m [] ?s2 = (Inr (), ?s2
      \<lparr>rn_thread := committed_thread m [] (thread_current_turn_new 7 x (msg_created_at m)) t\<rparr>)"
    using recording_commit [of ?s2, simplified, OF t(2)] by (simp add: script_state_def)
  have b: "register_builtin_tools (al_tools script_loop) ?s = (Inr (), ?s)" by (rule script_builtin [OF g])
  show ?thesis
    by (rule that [of "?s2\<lparr>rn_thread := committed_thread m [] (thread_current_turn_new 7 x (msg_created_at m)) t\<rparr>"])
      (use c b t ts committed_thread_sel(2,3) [OF t(2)] in
        \<open>simp_all add: begin_run_def prepare_thread_runtime_def act_bind_def with_thread_def act_ret_def script_emit
          script_uuid on_thread_def t0 loc, simp_all add: script_state_def\<close>)
qed

lemma script_finish:
  assumes "th_current_turn (rn_thread s) \<noteq> None"
  shows "\<exists>out s' turn. finish_run script_loop c s = (Inr out, s') \<and> ao_turns out = [\<lparr>ca_turn = turn\<rparr>]
    \<and> ft_status turn = (case tn_failure_error c of None \<Rightarrow> Succeeded | Some e \<Rightarrow> Failed e)"
proof -
  obtain turn t where f: "finalize_run c 9 (rn_thread s) = Inr (turn, t)" using finalize_run_total [OF assms] by blast
  then show ?thesis
    using finalize_run_sel(6) [OF f]
    by (simp add: finish_run_def act_bind_def script_now script_emit act_ret_def)
qed

lemma script_answer_run:
  "\<exists>out s' turn. run_locked_thread script_loop tx demo_incoming recording_handler (script_state [demo_answer]) = Some (Inr out, s')
     \<and> ao_turns out = [\<lparr>ca_turn = turn\<rparr>] \<and> ft_status turn = Succeeded"
proof -
  obtain s1 where b: "begin_run script_loop tx recording_handler (incoming_chat_message demo_incoming)
      (im_external_message_id demo_incoming) (script_state [demo_answer]) = (Inr [2], s1)"
    "rn_env s1 = [demo_answer]" "rn_registry s1 = script_registry" "load_toolsets (rn_thread s1) = []"
    "th_current_turn (rn_thread s1) \<noteq> None"
    by (rule script_begin)
  obtain s2 where it: "loop_iteration script_loop tx recording_handler [2] s1
      = (Inr (Some \<lparr>tn_reply = str ''pong'', tn_failure_error = None\<rparr>), s2)"
    by (rule script_answer_iteration [OF b(3,4,2,5)])
  have loop: "turn_loop script_loop tx recording_handler [2] s1 = Some (Inr \<lparr>tn_reply = str ''pong'', tn_failure_error = None\<rparr>, s2)"
    using turn_loop.simps [of script_loop tx recording_handler "[2]" s1] by (simp only: it prod.case sum.case option.case)
  have "turn_key (rn_thread s2) = turn_key (rn_thread s1)"
    using recording.kept.rel_iterationD [OF it] by (simp add: turn_kept_def)
  then have "th_current_turn (rn_thread s2) \<noteq> None" using b(5) by (metis turn_key_None)
  then obtain out s3 turn where "finish_run script_loop \<lparr>tn_reply = str ''pong'', tn_failure_error = None\<rparr> s2 = (Inr out, s3)"
    "ao_turns out = [\<lparr>ca_turn = turn\<rparr>]" "ft_status turn = Succeeded"
    using script_finish [of s2 "\<lparr>tn_reply = str ''pong'', tn_failure_error = None\<rparr>"] by auto
  moreover from this(1) have "run_locked_thread script_loop tx demo_incoming recording_handler (script_state [demo_answer]) = Some (Inr out, s3)"
    by (simp only: run_locked_thread_def run_live_thread_def b(1) loop prod.case sum.case option.case)
  ultimately show ?thesis by blast
qed

section \<open>Properties\<close>

text \<open>
  C5: one turn per request. When the loop returns, it has finalized exactly one turn, opened on a thread
  that had none; that turn carries the id of the incoming message, its snapshot is the thread the caller
  is left with, on which no turn is open, and its reply is the reply of the request.
\<close>
theorem request_finalizes_one_turn:
  assumes "handler_preserves h"
    and "run_locked_thread L tx incoming h s = Some (Inr out, s')"
  shows "\<exists>turn. ao_turns out = [\<lparr>ca_turn = turn\<rparr>] \<and> ft_snapshot turn = rn_thread s'
    \<and> th_current_turn (rn_thread s) = None \<and> th_current_turn (rn_thread s') = None
    \<and> ft_external_message_id turn = im_external_message_id incoming
    \<and> ft_reply turn = ao_reply out \<and> ft_events turn \<noteq> []"
proof -
  note laws = commit_handler_laws.intro [OF assms(1)]
  obtain s1 s2 c completed_at turn where
    b: "begin_run L tx h (incoming_chat_message incoming) (im_external_message_id incoming) s
      = (Inr (tcl_thread_id (th_locator (rn_thread s))), s1)"
    and l: "turn_loop L tx h (tcl_thread_id (th_locator (rn_thread s))) s1 = Some (Inr c, s2)"
    and f: "finalize_run c completed_at (rn_thread s2) = Inr (turn, rn_thread s')"
    and out: "ao_reply out = tn_reply c" "ao_turns out = [\<lparr>ca_turn = turn\<rparr>]"
    and ok: "completion_ok c" "current_turn_events (rn_thread s2) \<noteq> []"
    by (rule commit_handler_laws.run_live_thread_ok [OF laws assms(2) [unfolded run_locked_thread_def]])
  note began = commit_handler_laws.begin_run_turn [OF laws b]
  obtain u where u: "th_current_turn (rn_thread s1) = Some u" "ct_external_message_id u = im_external_message_id incoming"
    using began(3) by blast
  have "turn_kept s1 s2" by (rule commit_handler_laws.kept_loop [OF laws l])
  then obtain u' where u': "th_current_turn (rn_thread s2) = Some u'" "ct_external_message_id u' = im_external_message_id incoming"
    using u by (auto simp: turn_kept_def turn_key_def)
  note fin = finalize_run_sel [OF f]
  have "ft_reply turn = ao_reply out" using fin(7) ok(1) out(1) by (simp add: completion_ok_def split: option.splits)
  moreover have "ft_events turn \<noteq> []" using fin(5) ok(2) by simp
  moreover have "ft_external_message_id turn = im_external_message_id incoming" using fin(10) [OF u'(1)] u'(2) by simp
  ultimately show ?thesis using out(2) fin(2,3) began(5) by blast
qed


theorem request_finalizes_one_turn_witness:
  "\<exists>out s'. run_locked_thread script_loop demo_sender demo_incoming recording_handler (script_state [demo_answer])
       = Some (Inr out, s') \<and> (\<exists>turn. ao_turns out = [\<lparr>ca_turn = turn\<rparr>] \<and> ft_reply turn = ao_reply out)"
proof -
  obtain out s' where run: "run_locked_thread script_loop demo_sender demo_incoming recording_handler
      (script_state [demo_answer]) = Some (Inr out, s')"
    using script_answer_run by blast
  from request_finalizes_one_turn [OF recording.handler_preserves run] run show ?thesis by blast
qed

lemma history_prepare: "related (history_kept L) (prepare_thread_runtime L) s"
  using register_builtin_tools_run [of "al_tools L" s "fst (prepare_thread_runtime L s)" "snd (prepare_thread_runtime L s)"]
  by (auto simp: prepare_thread_runtime_def related_def intro!: history_kept_same)

lemma begin_run_history:
  assumes "handler_preserves h" "begin_run L tx h m x s = (r, s')"
  shows "history_kept L s s'"
proof -
  note laws = commit_handler_laws.intro [OF assms(1)]
  have begin_t: "begin_turn u y at_time t = Inr t' \<Longrightarrow> messages t' = messages t" for u y at_time t t'
    by (rule begin_turn_sel(1))
  have "related (history_kept L) (begin_run L tx h m x) s"
    unfolding begin_run_def emit_def new_uuid_def
    by (intro history_intros history_prepare history_thread commit_handler_laws.history_commit [OF laws])
      (auto simp: related_def begin_t intro: history_kept_same)
  then show ?thesis by (simp add: related_def assms(2))
qed

text \<open>
  C6: nothing is rolled back. However a run ends, with an output or with an error at any point, the
  system messages it started from are still there, in order, in front of any added later; and with
  compaction disabled the whole history is still there and was only appended to.
\<close>
theorem run_never_rolls_back_history:
  assumes "handler_preserves h"
    and "run_locked_thread L tx incoming h s = Some (r, s')"
  shows "(\<exists>new. filter is_system (messages (rn_thread s')) = filter is_system (messages (rn_thread s)) @ new)
    \<and> (\<not> acc_enabled (al_compact_config L) \<longrightarrow>
         (\<exists>new. messages (rn_thread s') = messages (rn_thread s) @ new))"
proof -
  note laws = commit_handler_laws.intro [OF assms(1)]
  let ?m = "incoming_chat_message incoming" and ?x = "im_external_message_id incoming"
  obtain q s1 where b: "begin_run L tx h ?m ?x s = (q, s1)" by fastforce
  note h1 = begin_run_history [OF assms(1) b]
  have "history_kept L s s'"
  proof (cases q)
    case (Inl e)
    then show ?thesis using assms(2) b h1 by (simp add: run_locked_thread_def run_live_thread_def)
  next
    case (Inr tid)
    obtain z s2 where l: "turn_loop L tx h tid s1 = Some (z, s2)"
      using assms(2) b Inr by (auto simp: run_locked_thread_def run_live_thread_def split: option.splits)
    have h2: "history_kept L s s2"
      by (rule history_order.R_trans [OF h1 commit_handler_laws.history_loop [OF laws l]])
    show ?thesis
    proof (cases z)
      case (Inl e)
      then show ?thesis using assms(2) b Inr l h2 by (simp add: run_locked_thread_def run_live_thread_def)
    next
      case c: (Inr c)
      then have "finish_run L c s2 = (r, s')"
        using assms(2) b Inr l by (simp add: run_locked_thread_def run_live_thread_def)
      then have "messages (rn_thread s') = messages (rn_thread s2)"
      proof (cases rule: finish_run_run)
      qed (simp_all add: finalize_run_sel(1))
      then show ?thesis by (rule history_order.R_trans [OF h2 history_kept_same])
    qed
  qed
  then show ?thesis unfolding history_kept_def by blast
qed

theorem run_never_rolls_back_history_witness:
  "\<exists>r s' new. run_locked_thread script_loop demo_sender demo_incoming recording_handler (script_state [demo_answer])
       = Some (r, s') \<and> messages (rn_thread s') = messages (thread_new demo_locator 0) @ new"
proof -
  obtain out s' where run: "run_locked_thread script_loop demo_sender demo_incoming recording_handler
      (script_state [demo_answer]) = Some (Inr out, s')"
    using script_answer_run by blast
  have "\<not> acc_enabled (al_compact_config script_loop)" by (simp add: script_loop_def)
  with run_never_rolls_back_history [OF recording.handler_preserves run] run show ?thesis
    by (auto simp: script_state_def)
qed

lemma prepare_dispatch_payload:
  "map (\<lambda>d. (de_kind d, de_content d, de_metadata d)) (fst (prepare_dispatch_events tx es flag))
     = map (\<lambda>e. (tv_kind e, tv_content e, tv_metadata e)) es"
  by (induction es arbitrary: flag) (simp_all add: prepare_dispatch_event_def case_prod_unfold Let_def)

lemma prepare_dispatch_flags:
  "map de_reply_to_source (fst (prepare_dispatch_events tx es flag))
     = (case es of [] \<Rightarrow> [] | _ # rest \<Rightarrow> flag # replicate (length rest) False)"
proof (induction es arbitrary: flag)
  case (Cons e es)
  then show ?case
    by (cases es) (simp_all add: prepare_dispatch_event_def case_prod_unfold Let_def)
qed simp

text \<open>
  C7: the channel sees the turn. Over a whole run, the events handed to the commit handler for dispatch
  are the events the finalized turn buffered, without the compaction events, with the same kind, text and
  metadata, in the same order; and exactly the first of them replies to the incoming message.
\<close>
theorem dispatched_events_are_the_turns_events:
  assumes "run_locked_thread L tx incoming recording_handler s = Some (Inr out, s')"
    and "ls_handler s = []"
  shows "\<exists>turn. ao_turns out = [\<lparr>ca_turn = turn\<rparr>]
    \<and> map (\<lambda>d. (de_kind d, de_content d, de_metadata d)) (ls_handler s')
        = map (\<lambda>e. (tv_kind e, tv_content e, tv_metadata e)) (plain (ft_events turn))
    \<and> map de_reply_to_source (ls_handler s')
        = (case ls_handler s' of [] \<Rightarrow> [] | _ # rest \<Rightarrow> True # replicate (length rest) False)"
proof -
  obtain s1 s2 c completed_at turn where
    b: "begin_run L tx recording_handler (incoming_chat_message incoming) (im_external_message_id incoming) s
      = (Inr (tcl_thread_id (th_locator (rn_thread s))), s1)"
    and l: "turn_loop L tx recording_handler (tcl_thread_id (th_locator (rn_thread s))) s1 = Some (Inr c, s2)"
    and f: "finalize_run c completed_at (rn_thread s2) = Inr (turn, rn_thread s')"
    and out: "ao_turns out = [\<lparr>ca_turn = turn\<rparr>]" "ls_handler s' = ls_handler s2"
    and ok: "current_turn_events (rn_thread s2) \<noteq> []"
    by (rule recording.run_live_thread_ok [OF assms(1) [unfolded run_locked_thread_def]])
  have s1: "ls_handler s1 = [] \<and> ls_reply_to_source s1 \<and> current_turn_events (rn_thread s1) = []"
  proof -
    obtain s0 u where 0: "commit_message tx recording_handler (incoming_chat_message incoming) [] s0 = (Inr (), s1)"
      "th_current_turn (rn_thread s0) = Some u" "ls_handler s0 = ls_handler s"
      by (rule begin_run_run [OF b])
    from 0(1) have "ls_handler s1 = ls_handler s0" by (auto simp: recording_commit [OF 0(2)])
    then show ?thesis using recording.begin_run_turn [OF b] 0(3) assms(2) by simp
  qed
  have "dispatch_log tx s1 s2" by (rule logged.rel_loop [OF l])
  then have log: "ls_handler s2 = fst (prepare_dispatch_events tx (plain (current_turn_events (rn_thread s2))) True)"
    using s1 by (auto simp: dispatch_log_def)
  have events: "ft_events turn = current_turn_events (rn_thread s2)" by (rule finalize_run_sel(5) [OF f ok])
  have len: "length (fst (prepare_dispatch_events tx es flag)) = length es" for es flag
    by (simp add: prepare_dispatch_events_eq)
  have "map (\<lambda>d. (de_kind d, de_content d, de_metadata d)) (ls_handler s')
      = map (\<lambda>e. (tv_kind e, tv_content e, tv_metadata e)) (plain (ft_events turn))"
    by (simp only: out(2) log events prepare_dispatch_payload)
  moreover have "map de_reply_to_source (ls_handler s')
      = (case ls_handler s' of [] \<Rightarrow> [] | _ # rest \<Rightarrow> True # replicate (length rest) False)"
    using prepare_dispatch_flags [of tx "plain (current_turn_events (rn_thread s2))" True]
      len [of "plain (current_turn_events (rn_thread s2))" True]
    unfolding out(2) log by (auto split: list.splits)
  ultimately show ?thesis using out(1) by blast
qed

theorem dispatched_events_are_the_turns_events_witness:
  "\<exists>out s'. run_locked_thread script_loop demo_sender demo_incoming recording_handler (script_state [demo_answer])
       = Some (Inr out, s') \<and> (\<exists>turn. ao_turns out = [\<lparr>ca_turn = turn\<rparr>]
         \<and> map de_content (ls_handler s') = map tv_content (plain (ft_events turn)))"
proof -
  obtain out s' where run: "run_locked_thread script_loop demo_sender demo_incoming recording_handler
      (script_state [demo_answer]) = Some (Inr out, s')"
    using script_answer_run by blast
  have "ls_handler (script_state [demo_answer]) = []" by (simp add: script_state_def)
  from dispatched_events_are_the_turns_events [OF run this] obtain turn where
    t: "ao_turns out = [\<lparr>ca_turn = turn\<rparr>]"
    "map (\<lambda>d. (de_kind d, de_content d, de_metadata d)) (ls_handler s')
        = map (\<lambda>e. (tv_kind e, tv_content e, tv_metadata e)) (plain (ft_events turn))" by blast
  from t(2) have "map (fst \<circ> snd) (map (\<lambda>d. (de_kind d, de_content d, de_metadata d)) (ls_handler s'))
      = map (fst \<circ> snd) (map (\<lambda>e. (tv_kind e, tv_content e, tv_metadata e)) (plain (ft_events turn)))" by simp
  then have "map de_content (ls_handler s') = map tv_content (plain (ft_events turn))" by (simp add: comp_def)
  with run t(1) show ?thesis by blast
qed

end
