(* ===== verification/OJ_Openai.thy ===== *)
theory OJ_Openai
  imports OJ_Llm
begin

text \<open>
  The OpenAI protocol boundary, \<open>src/llm.rs\<close>: how the unified history is turned into chat-completion
  messages, how a reply is read back, and which provider a configuration selects. The SDK is
  third-party: its request and reply types are records here, its transport is a parameter, and so are
  the JSON printer \<open>js\<close>, the reader \<open>from_json\<close>, the files and the home directory.
\<close>

section \<open>Messages of the SDK\<close>

record openai_tool_call =
  oc_id :: rstring
  oc_name :: rstring
  oc_arguments :: rstring

text \<open>A field the builder never set is None or the empty list.\<close>

datatype openai_message =
    OaSystem rstring
  | OaUser rstring
  | OaTool rstring rstring
  | OaAssistant "rstring option" "openai_tool_call list"

datatype openai_reply_call = FunctionToolCall openai_tool_call | CustomToolCall rstring

record openai_choice =
  ch_content :: "rstring option"
  ch_tool_calls :: "openai_reply_call list option"

definition serialize_openai_tool_call :: "(json \<Rightarrow> rstring) \<Rightarrow> chat_tool_call \<Rightarrow> openai_tool_call" where
  "serialize_openai_tool_call js c =
     \<lparr>oc_id = tc_id c, oc_name = tc_name c, oc_arguments = js (tc_arguments c)\<rparr>"

definition serialize_assistant_message :: "(json \<Rightarrow> rstring) \<Rightarrow> chat_message \<Rightarrow> openai_message" where
  "serialize_assistant_message js m =
     OaAssistant (if trim (msg_content m) \<noteq> [] then Some (msg_content m) else None)
       (if msg_tool_calls m \<noteq> [] then map (serialize_openai_tool_call js) (msg_tool_calls m) else [])"

definition serialize_context_message :: "(json \<Rightarrow> rstring) \<Rightarrow> chat_message \<Rightarrow> err + openai_message" where
  "serialize_context_message js m =
     (case msg_role m of
        RoleSystem \<Rightarrow> Inr (OaSystem (msg_content m))
      | RoleUser \<Rightarrow> Inr (OaUser (msg_content m))
      | RoleToolResult \<Rightarrow>
          (case msg_tool_call_id m of
             Some i \<Rightarrow> Inr (OaTool (msg_content m) i)
           | None \<Rightarrow> Inl (bail (str ''tool result message is missing tool_call_id'')))
      | RoleAssistant \<Rightarrow> Inr (serialize_assistant_message js m)
      | RoleToolcall \<Rightarrow> Inr (serialize_assistant_message js m))"

text \<open>The cursor is the rest of the history it points at.\<close>

fun message_starts_tool_call_batch :: "chat_message list \<Rightarrow> bool" where
  "message_starts_tool_call_batch [] = False"
| "message_starts_tool_call_batch (m # rest) =
     (msg_tool_calls m \<noteq> [] \<or> (case rest of [] \<Rightarrow> False | next_one # _ \<Rightarrow> msg_role next_one = RoleToolcall))"

fun batch_loop :: "chat_message list \<Rightarrow> chat_tool_call list \<Rightarrow> nat \<Rightarrow> chat_tool_call list \<times> nat" where
  "batch_loop [] calls consumed = (calls, consumed)"
| "batch_loop (m # rest) calls consumed =
     (if msg_role m \<noteq> RoleToolcall then (calls, consumed)
      else batch_loop rest (calls @ msg_tool_calls m) (consumed + 1))"

definition collect_tool_call_messages ::
    "time \<Rightarrow> chat_message list \<Rightarrow> chat_message option \<Rightarrow> chat_message \<times> nat" where
  "collect_tool_call_messages now rest assistant_message =
     (let tool_calls0 = (case assistant_message of Some m \<Rightarrow> msg_tool_calls m | None \<Rightarrow> []);
          created_at = (case assistant_message of Some m \<Rightarrow> msg_created_at m
                        | None \<Rightarrow> (case rest of m # _ \<Rightarrow> msg_created_at m | [] \<Rightarrow> now));
          content = (case assistant_message of Some m \<Rightarrow> msg_content m | None \<Rightarrow> []);
          (tool_calls, consumed) = batch_loop rest tool_calls0 0 in
      (with_tool_calls (chat_message_new RoleAssistant content created_at) tool_calls, consumed))"

lemma batch_loop_eq:
  "batch_loop ms calls n =
     (calls @ concat (map msg_tool_calls (takeWhile (\<lambda>m. msg_role m = RoleToolcall) ms)),
      n + length (takeWhile (\<lambda>m. msg_role m = RoleToolcall) ms))"
  by (induction ms arbitrary: calls n) auto

function serialize_openai_messages ::
    "(json \<Rightarrow> rstring) \<Rightarrow> time \<Rightarrow> chat_message list \<Rightarrow> openai_message list \<Rightarrow> err + openai_message list" where
  "serialize_openai_messages js now [] serialized = Inr serialized"
| "serialize_openai_messages js now (m # rest) serialized =
     (if msg_role m = RoleToolcall
      then
        let (tool_call_message, consumed) = collect_tool_call_messages now (m # rest) None in
        serialize_openai_messages js now (drop consumed (m # rest))
          (serialized @ [serialize_assistant_message js tool_call_message])
      else if msg_role m = RoleAssistant \<and> message_starts_tool_call_batch (m # rest)
      then
        let (assistant_message, consumed) = collect_tool_call_messages now rest (Some m) in
        serialize_openai_messages js now (drop (consumed + 1) (m # rest))
          (serialized @ [serialize_assistant_message js assistant_message])
      else
        case serialize_context_message js m of
          Inl e \<Rightarrow> Inl e
        | Inr x \<Rightarrow> serialize_openai_messages js now rest (serialized @ [x]))"
  by pat_completeness auto
termination
  by (relation "measure (\<lambda>(js, now, ms, acc). length ms)")
    (auto simp: collect_tool_call_messages_def batch_loop_eq Let_def)

section \<open>Requests and replies\<close>

record openai_request =
  or_model :: rstring
  or_messages :: "openai_message list"
  or_max_tokens :: "32 word"
  or_tools :: "tool_definition list"
  or_tool_choice_auto :: bool

definition build_openai_request ::
    "(json \<Rightarrow> rstring) \<Rightarrow> time \<Rightarrow> llm_config \<Rightarrow> llm_request \<Rightarrow> err + openai_request" where
  "build_openai_request js now config request =
     (case serialize_openai_messages js now (lq_messages request) [] of
        Inl e \<Rightarrow> Inl e
      | Inr ms \<Rightarrow>
          Inr \<lparr>or_model = lc_model config, or_messages = ms,
               or_max_tokens = (if max_output_tokens config < 2 ^ 32 then of_nat (max_output_tokens config) else -1),
               or_tools = lq_tools request, or_tool_choice_auto = (lq_tools request \<noteq> [])\<rparr>)"

fun parse_openai_tool_call :: "(rstring \<Rightarrow> err + json) \<Rightarrow> openai_reply_call \<Rightarrow> err + chat_tool_call" where
  "parse_openai_tool_call from_json (FunctionToolCall c) =
     (case from_json (oc_arguments c) of
        Inl e \<Rightarrow> Inl (err_context (str ''failed to parse tool arguments for `'' @ oc_name c @ str ''`'') e)
      | Inr arguments \<Rightarrow> Inr \<lparr>tc_id = oc_id c, tc_name = oc_name c, tc_arguments = arguments\<rparr>)"
| "parse_openai_tool_call from_json (CustomToolCall name) =
     Inl (bail (str ''custom tool calls are not supported yet: `'' @ name @ str ''`''))"

fun parse_openai_tool_calls :: "(rstring \<Rightarrow> err + json) \<Rightarrow> openai_reply_call list \<Rightarrow> err + chat_tool_call list" where
  "parse_openai_tool_calls from_json [] = Inr []"
| "parse_openai_tool_calls from_json (c # cs) =
     (case parse_openai_tool_call from_json c of
        Inl e \<Rightarrow> Inl e
      | Inr x \<Rightarrow> (case parse_openai_tool_calls from_json cs of Inl e \<Rightarrow> Inl e | Inr xs \<Rightarrow> Inr (x # xs)))"

text \<open>
  \<open>OpenaiProvider::generate\<close>; \<open>create\<close> is the network call of the SDK, which returns the choices. The
  clock reading handed to the serializer is the fallback of an empty batch, which is never reached.
\<close>

definition openai_generate ::
    "(json \<Rightarrow> rstring) \<Rightarrow> (rstring \<Rightarrow> err + json) \<Rightarrow> (openai_request \<Rightarrow> ('e, openai_choice list) act) \<Rightarrow> 'e world
     \<Rightarrow> llm_config \<Rightarrow> llm_request \<Rightarrow> ('e, llm_response) act" where
  "openai_generate js from_json create w config request =
     (if lq_messages request = [] then act_fail (bail (str ''llm request must contain at least one message''))
      else
        act_bind (\<lambda>s. (Inr (fst (w_now w s)), s)) (\<lambda>now.
        act_bind (act_lift (build_openai_request js now config request)) (\<lambda>openai_request.
        act_bind (act_context (str ''failed to call llm provider `'' @ lc_provider config @ str ''` model `''
                               @ lc_model config @ str ''` at `'' @ lc_base_url config @ str ''`'')
                    (create openai_request)) (\<lambda>choices.
        case choices of
          [] \<Rightarrow> act_fail (bail (str ''llm response did not contain any choices''))
        | choice # _ \<Rightarrow>
            act_bind (case ch_content choice of
                Some content \<Rightarrow>
                  if trim content \<noteq> []
                  then act_bind (act_now w) (\<lambda>t. act_ret (Some (chat_message_new RoleAssistant content t)))
                  else act_ret None
              | None \<Rightarrow> act_ret None) (\<lambda>assistant_message.
            act_bind (act_lift (parse_openai_tool_calls from_json
                (case ch_tool_calls choice of Some cs \<Rightarrow> cs | None \<Rightarrow> []))) (\<lambda>tool_calls.
            act_ret \<lparr>lr_message = assistant_message, lr_tool_calls = tool_calls\<rparr>))))))"

definition anthropic_generate :: "llm_request \<Rightarrow> ('e, llm_response) act" where
  "anthropic_generate request =
     (if lq_messages request = [] then act_fail (bail (str ''llm request must contain at least one message''))
      else act_fail (bail (str ''provider protocol `anthropic` is not implemented yet'')))"

section \<open>Choosing a provider\<close>

datatype llm_provider_protocol = MockProtocol | OpenAiCompatibleProtocol | AnthropicProtocol

definition protocol_from_config :: "llm_config \<Rightarrow> err + llm_provider_protocol" where
  "protocol_from_config config =
     (let p = effective_protocol config in
      if p = str ''mock'' then Inr MockProtocol
      else if p = str ''openai_compatible'' then Inr OpenAiCompatibleProtocol
      else if p = str ''anthropic'' then Inr AnthropicProtocol
      else Inl (bail (str ''unsupported llm protocol `'' @ p @ str ''`'')))"

record file_env =
  fe_read_to_string :: "rstring \<Rightarrow> err + rstring"
  fe_home_dir :: "err + rstring"
  fe_join :: "rstring \<Rightarrow> rstring \<Rightarrow> rstring"

definition expand_home_dir :: "file_env \<Rightarrow> rstring \<Rightarrow> err + rstring" where
  "expand_home_dir fe raw =
     (if raw = str ''~'' then fe_home_dir fe
      else if starts_with raw (str ''~/'') \<or> starts_with raw (str ''~'' @ [92])
      then (case fe_home_dir fe of Inl e \<Rightarrow> Inl e | Inr home \<Rightarrow> Inr (fe_join fe home (drop 2 raw)))
      else Inr raw)"

definition resolve_provider_config :: "file_env \<Rightarrow> llm_config \<Rightarrow> err + llm_config" where
  "resolve_provider_config fe config =
     (if trim (lc_api_key config) = [] \<and> lc_api_key_path config \<noteq> []
      then (case expand_home_dir fe (lc_api_key_path config) of
              Inl e \<Rightarrow> Inl e
            | Inr path \<Rightarrow>
                (case fe_read_to_string fe path of
                   Inl e \<Rightarrow> Inl (err_context (str ''failed to read api key from '' @ path) e)
                 | Inr raw \<Rightarrow> Inr (config\<lparr>lc_api_key := trim raw\<rparr>)))
      else Inr config)"

definition openai_provider_new :: "llm_config \<Rightarrow> err + llm_config" where
  "openai_provider_new config =
     (if trim (lc_api_key config) = []
      then Inl (bail (str ''llm.api_key is required when llm.protocol=openai_compatible''))
      else if trim (lc_model config) = []
      then Inl (bail (str ''llm.model is required when llm.protocol=openai_compatible''))
      else Inr config)"

definition build_provider ::
    "file_env \<Rightarrow> (json \<Rightarrow> rstring) \<Rightarrow> (rstring \<Rightarrow> err + json)
     \<Rightarrow> (llm_config \<Rightarrow> openai_request \<Rightarrow> ('e, openai_choice list) act) \<Rightarrow> 'e world
     \<Rightarrow> llm_config \<Rightarrow> err + (llm_request \<Rightarrow> ('e, llm_response) act)" where
  "build_provider fe js from_json create w config =
     (case protocol_from_config config of
        Inl e \<Rightarrow> Inl e
      | Inr MockProtocol \<Rightarrow> Inr (mock_llm_generate (lc_mock_response config) w)
      | Inr OpenAiCompatibleProtocol \<Rightarrow>
          (case resolve_provider_config fe config of
             Inl e \<Rightarrow> Inl e
           | Inr resolved_config \<Rightarrow>
               (case openai_provider_new resolved_config of
                  Inl e \<Rightarrow> Inl e
                | Inr c \<Rightarrow> Inr (openai_generate js from_json (create c) w c)))
      | Inr AnthropicProtocol \<Rightarrow>
          (case resolve_provider_config fe config of
             Inl e \<Rightarrow> Inl e | Inr _ \<Rightarrow> Inr anthropic_generate))"

section \<open>What the chat-completion API accepts\<close>

text \<open>
  The documented contract of the API: every tool call of an assistant message is answered by a tool
  message before any other message follows, and a tool message answers a call of the assistant message
  before it. \<open>pending\<close> are the calls still to be answered.
\<close>

fun openai_accepts :: "rstring list \<Rightarrow> openai_message list \<Rightarrow> bool" where
  "openai_accepts pending [] \<longleftrightarrow> pending = []"
| "openai_accepts pending (OaTool _ i # rest) \<longleftrightarrow> i \<in> set pending \<and> openai_accepts (remove1 i pending) rest"
| "openai_accepts pending (OaAssistant _ calls # rest) \<longleftrightarrow> pending = [] \<and> openai_accepts (map oc_id calls) rest"
| "openai_accepts pending (OaSystem _ # rest) \<longleftrightarrow> pending = [] \<and> openai_accepts [] rest"
| "openai_accepts pending (OaUser _ # rest) \<longleftrightarrow> pending = [] \<and> openai_accepts [] rest"

section \<open>Serialization, piece by piece\<close>

abbreviation is_toolcall :: "chat_message \<Rightarrow> bool" where
  "is_toolcall m \<equiv> msg_role m = RoleToolcall"

lemma collect_none:
  "collect_tool_call_messages now (m # rest) None =
     (with_tool_calls (chat_message_new RoleAssistant [] (msg_created_at m))
        (concat (map msg_tool_calls (takeWhile is_toolcall (m # rest)))),
      length (takeWhile is_toolcall (m # rest)))"
  by (simp only: collect_tool_call_messages_def batch_loop_eq Let_def option.case list.case prod.case) simp

lemma collect_some:
  "collect_tool_call_messages now rest (Some m) =
     (with_tool_calls (chat_message_new RoleAssistant (msg_content m) (msg_created_at m))
        (msg_tool_calls m @ concat (map msg_tool_calls (takeWhile is_toolcall rest))),
      length (takeWhile is_toolcall rest))"
  by (simp only: collect_tool_call_messages_def batch_loop_eq Let_def option.case list.case prod.case) simp

lemma drop_takeWhile_length: "drop (length (takeWhile P xs)) xs = dropWhile P xs"
  by (simp add: dropWhile_eq_drop)

text \<open>A step of the serializer with the cursor arithmetic done.\<close>

lemma serialize_step:
  "serialize_openai_messages js now (m # rest) acc =
     (if is_toolcall m
      then serialize_openai_messages js now (dropWhile is_toolcall rest)
             (acc @ [OaAssistant None (map (serialize_openai_tool_call js)
                        (concat (map msg_tool_calls (takeWhile is_toolcall (m # rest)))))])
      else if msg_role m = RoleAssistant \<and> message_starts_tool_call_batch (m # rest)
      then serialize_openai_messages js now (dropWhile is_toolcall rest)
             (acc @ [OaAssistant (if trim (msg_content m) \<noteq> [] then Some (msg_content m) else None)
                (map (serialize_openai_tool_call js)
                   (msg_tool_calls m @ concat (map msg_tool_calls (takeWhile is_toolcall rest))))])
      else case serialize_context_message js m of
          Inl e \<Rightarrow> Inl e
        | Inr x \<Rightarrow> serialize_openai_messages js now rest (acc @ [x]))"
proof -
  have sa: "serialize_assistant_message js (with_tool_calls (chat_message_new RoleAssistant c t) cs)
      = OaAssistant (if trim c \<noteq> [] then Some c else None) (map (serialize_openai_tool_call js) cs)" for c t cs
    by (auto simp: serialize_assistant_message_def)
  show ?thesis
    by (simp add: collect_none collect_some sa drop_takeWhile_length del: message_starts_tool_call_batch.simps)
qed

declare serialize_openai_messages.simps(2) [simp del]

lemma serialize_one:
  obtains (stop) e where "\<And>acc. serialize_openai_messages js now (m # rest) acc = Inl e"
  | (more) x rest' where
      "\<And>acc. serialize_openai_messages js now (m # rest) acc = serialize_openai_messages js now rest' (acc @ [x])"
      "length rest' \<le> length rest"
proof (cases "is_toolcall m")
  case True
  then show ?thesis using more length_dropWhile_le [of is_toolcall rest] by (simp add: serialize_step)
next
  case no: False
  show ?thesis
  proof (cases "msg_role m = RoleAssistant \<and> message_starts_tool_call_batch (m # rest)")
    case True
    show ?thesis
      by (rule more [of "dropWhile is_toolcall rest"
            "OaAssistant (if trim (msg_content m) \<noteq> [] then Some (msg_content m) else None)
                (map (serialize_openai_tool_call js)
                   (msg_tool_calls m @ concat (map msg_tool_calls (takeWhile is_toolcall rest))))"])
        (use no True length_dropWhile_le [of is_toolcall rest] in
          \<open>simp_all only: serialize_step if_False if_True simp_thms\<close>)
  next
    case False
    then have step: "serialize_openai_messages js now (m # rest) acc =
        (case serialize_context_message js m of
          Inl e \<Rightarrow> Inl e
        | Inr x \<Rightarrow> serialize_openai_messages js now rest (acc @ [x]))" for acc
      using no by (simp only: serialize_step if_False simp_thms)
    show ?thesis
    proof (cases "serialize_context_message js m")
      case (Inl e)
      then show ?thesis using stop step by simp
    next
      case (Inr x)
      then show ?thesis using more [of rest x] step by simp
    qed
  qed
qed

lemma serialize_acc:
  "serialize_openai_messages js now ms acc =
     (case serialize_openai_messages js now ms [] of Inl e \<Rightarrow> Inl e | Inr x \<Rightarrow> Inr (acc @ x))"
proof (induction "length ms" arbitrary: ms acc rule: less_induct)
  case less
  show ?case
  proof (cases ms)
    case (Cons m rest)
    show ?thesis
    proof (cases rule: serialize_one [of js now m rest])
      case (stop e)
      then show ?thesis by (simp add: Cons)
    next
      case (more x rest')
      have IH: "serialize_openai_messages js now rest' acc' =
          (case serialize_openai_messages js now rest' [] of Inl e \<Rightarrow> Inl e | Inr y \<Rightarrow> Inr (acc' @ y))" for acc'
        by (rule less) (simp add: Cons more(2) le_imp_less_Suc)
      have "serialize_openai_messages js now ms acc =
          (case serialize_openai_messages js now rest' [] of Inl e \<Rightarrow> Inl e | Inr y \<Rightarrow> Inr (acc @ [x] @ y))"
        by (simp only: Cons more(1) IH [of "acc @ [x]"] append_assoc)
      moreover have "serialize_openai_messages js now ms [] =
          (case serialize_openai_messages js now rest' [] of Inl e \<Rightarrow> Inl e | Inr y \<Rightarrow> Inr ([x] @ y))"
        by (simp only: Cons more(1) append_Nil IH [of "[x]"])
      ultimately show ?thesis by (simp split: sum.split)
    qed
  qed simp
qed

text \<open>A user, system or tool-result message ends every batch, so the history can be cut behind it.\<close>

lemma takeWhile_cut: "\<not> P m \<Longrightarrow> takeWhile P (a @ m # b) = takeWhile P (a @ [m])"
  by (induction a) auto

lemma dropWhile_cut: "\<not> P m \<Longrightarrow> \<exists>a'. dropWhile P (a @ m # b) = a' @ m # b \<and> dropWhile P (a @ [m]) = a' @ [m] \<and> length a' \<le> length a"
proof (induction a)
  case Nil
  then show ?case by (intro exI [of _ "[]"]) simp
next
  case (Cons x a)
  show ?case
  proof (cases "P x")
    case True
    with Cons show ?thesis by (metis append_Cons dropWhile.simps(2) le_SucI length_Cons)
  next
    case False
    then show ?thesis by (intro exI [of _ "x # a"]) simp
  qed
qed

lemma serialize_cut:
  assumes "msg_role m \<noteq> RoleToolcall" "msg_role m \<noteq> RoleAssistant"
  shows "serialize_openai_messages js now (a @ m # b) acc =
     (case serialize_openai_messages js now (a @ [m]) acc of Inl e \<Rightarrow> Inl e
      | Inr x \<Rightarrow> serialize_openai_messages js now b x)"
proof (induction "length a" arbitrary: a acc rule: less_induct)
  case less
  show ?case
  proof (cases a)
    case Nil
    then show ?thesis using assms by (simp add: serialize_step split: sum.split)
  next
    case (Cons x rest)
    obtain r where r: "dropWhile is_toolcall (rest @ m # b) = r @ m # b" "dropWhile is_toolcall (rest @ [m]) = r @ [m]"
      "length r \<le> length rest"
      using dropWhile_cut [of is_toolcall m rest b] assms(1) by blast
    have tw: "takeWhile is_toolcall (rest @ m # b) = takeWhile is_toolcall (rest @ [m])"
      using takeWhile_cut [of is_toolcall m rest b] assms(1) by simp
    have starts: "message_starts_tool_call_batch (x # rest @ m # b) = message_starts_tool_call_batch (x # rest @ [m])"
      by (cases rest) simp_all
    have IH: "serialize_openai_messages js now (r @ m # b) acc =
       (case serialize_openai_messages js now (r @ [m]) acc of Inl e \<Rightarrow> Inl e | Inr x \<Rightarrow> serialize_openai_messages js now b x)"
      "serialize_openai_messages js now (rest @ m # b) acc =
       (case serialize_openai_messages js now (rest @ [m]) acc of Inl e \<Rightarrow> Inl e | Inr x \<Rightarrow> serialize_openai_messages js now b x)" for acc
      using less [of r acc] less [of rest acc] r(3) Cons by simp_all
    show ?thesis
      using r tw starts IH by (simp add: Cons serialize_step del: message_starts_tool_call_batch.simps split: sum.split)
  qed
qed

lemma openai_accepts_append:
  "openai_accepts pending xs \<Longrightarrow> openai_accepts [] ys \<Longrightarrow> openai_accepts pending (xs @ ys)"
  by (induction pending xs rule: openai_accepts.induct) auto

text \<open>The tool calls of one answer and their results, as the API sees them.\<close>

lemma serialize_results:
  "list_all2 (\<lambda>r i. msg_role r = RoleToolResult \<and> msg_tool_call_id r = Some i) rs is \<Longrightarrow>
     serialize_openai_messages js now rs acc = Inr (acc @ map (\<lambda>(r, i). OaTool (msg_content r) i) (zip rs is))"
  by (induction rs "is" arbitrary: acc rule: list_all2_induct) (simp_all add: serialize_step serialize_context_message_def)

lemma takeWhile_batch:
  "list_all is_toolcall cs \<Longrightarrow> (\<And>r. r \<in> set (take 1 rs) \<Longrightarrow> \<not> is_toolcall r) \<Longrightarrow> takeWhile is_toolcall (cs @ rs) = cs"
  "list_all is_toolcall cs \<Longrightarrow> (\<And>r. r \<in> set (take 1 rs) \<Longrightarrow> \<not> is_toolcall r) \<Longrightarrow> dropWhile is_toolcall (cs @ rs) = rs"
  by (induction cs; cases rs; auto)+

lemma serialize_batch:
  assumes "list_all is_toolcall cs" "cs \<noteq> []"
    and rs: "list_all2 (\<lambda>r i. msg_role r = RoleToolResult \<and> msg_tool_call_id r = Some i) rs is"
    and t: "\<And>m. m \<in> set t \<Longrightarrow> msg_role m = RoleAssistant \<and> msg_tool_calls m = []" "length t \<le> 1"
  shows "\<exists>text. serialize_openai_messages js now (t @ cs @ rs) acc =
     Inr (acc @ OaAssistant text (map (serialize_openai_tool_call js) (concat (map msg_tool_calls cs)))
            # map (\<lambda>(r, i). OaTool (msg_content r) i) (zip rs is))"
proof -
  have head: "\<And>r. r \<in> set (take 1 rs) \<Longrightarrow> \<not> is_toolcall r"
    using rs by (cases rs) (auto simp: list_all2_Cons1)
  note tw = takeWhile_batch [OF assms(1) head]
  obtain c cs' where c: "cs = c # cs'" "is_toolcall c" using assms(1,2) by (cases cs) auto
  have tw': "takeWhile is_toolcall (cs' @ rs) = cs'" "dropWhile is_toolcall (cs' @ rs) = rs"
    using tw c by simp_all
  show ?thesis
  proof (cases t)
    case Nil
    then show ?thesis
      using serialize_results [OF rs] c tw' by (simp add: serialize_step)
  next
    case (Cons m t')
    then have "t = [m]" "msg_role m = RoleAssistant" "msg_tool_calls m = []" using t by auto
    then show ?thesis
      using serialize_results [OF rs] c tw' by (simp add: serialize_step)
  qed
qed

lemma accepts_batch:
  "length rs = length is \<Longrightarrow> openai_accepts is (map (\<lambda>(r, i). OaTool (msg_content r) i) (zip rs is))"
  by (induction rs "is" rule: list_induct2) simp_all

end
