(* ===== verification/OJ_Agent_Protocol.thy ===== *)
theory OJ_Agent_Protocol
  imports OJ_Agent_Run OJ_Openai
begin

text \<open>
  The agent loop against its provider: the history a successful run leaves behind is one the
  chat-completion API accepts, a provider that fails is answered for by the loop, a provider that stops
  asking for tools ends it, and where the history stops being acceptable.
\<close>

section \<open>Actions that leave the history alone\<close>

definition same_history :: "('e, 'h) loop_state \<Rightarrow> ('e, 'h) loop_state \<Rightarrow> bool" where
  "same_history s s' \<longleftrightarrow> messages (rn_thread s') = messages (rn_thread s)"

interpretation same_order: action_preorder same_history
  by unfold_locales (simp_all add: same_history_def)

lemma same_env: "related same_history (on_env m) s"
  by (simp add: related_def same_history_def on_env_def split: prod.split)

lemma same_frame: "framed m s \<Longrightarrow> related same_history m s"
  using toolsets_only_sel(1) [of "rn_thread s" "rn_thread (snd (m s))"]
  by (simp add: related_def same_history_def framed_def registry_frame_def)

lemma same_thread:
  "(\<And>t t'. f t = Inr t' \<Longrightarrow> messages t' = messages t) \<Longrightarrow> related same_history (on_thread f) s"
  by (auto simp: related_def on_thread_def same_history_def split: sum.split)

lemma same_record: "related same_history (on_thread (\<lambda>t. Inr (record_tool_event e t))) s"
  by (rule same_thread) auto

lemma same_buffer: "related same_history (on_thread (buffer_turn_event e)) s"
  by (rule same_thread) (simp add: buffer_turn_event_sel(1))

lemma same_call: "related same_history (call_for_context v q) s"
  by (intro same_frame framed_call)

lemma same_list: "related same_history (list_for_context_with_compact v b) s"
  by (intro same_frame framed_list)

lemmas same_intros = same_order.rel_bind same_order.rel_try rel_with_thread same_order.rel_ret
  same_order.rel_fail same_env same_record same_buffer same_call same_list

lemma same_registry_tool: "related same_history (run_registry_tool L q i) s"
  unfolding run_registry_tool_def emit_def utc_now_def new_uuid_def
  by (auto intro!: same_intros split: sum.split)

lemma same_compact_failed: "related same_history (compact_failed L q i rep msg) s"
  unfolding compact_failed_def Let_def emit_def utc_now_def new_uuid_def by (intro same_intros)

lemma same_disabled_compact:
  "\<not> acc_enabled (al_compact_config L) \<Longrightarrow>
     related same_history (handle_model_requested_compact L thread_id q i rep) s"
  by (simp add: handle_model_requested_compact_def same_compact_failed)

lemma same_prepare: "related same_history (prepare_request_state L) s"
proof -
  have "related same_history (if P then act_bind (list_for_context_with_compact (al_tools L) True) (\<lambda>tools. act_ret (f tools))
      else act_ret g) s'" for P f g and s' :: "('a, 'b) loop_state"
    by (auto intro!: same_intros)
  then have "related same_history (\<lambda>s. (if P s then act_bind (list_for_context_with_compact (al_tools L) True)
      (\<lambda>tools. act_ret (f s tools)) else act_ret (g s)) s) s'" for P f g and s' :: "('a, 'b) loop_state"
    unfolding related_def .
  then show ?thesis
    unfolding prepare_request_state_def Let_def by (intro same_order.rel_bind same_list)
qed

lemma same_historyD: "related same_history m s \<Longrightarrow> m s = (r, s') \<Longrightarrow> messages (rn_thread s') = messages (rn_thread s)"
  by (simp add: related_def same_history_def)

section \<open>What a turn appends\<close>

text \<open>The answers an assistant message and a tool call get.\<close>

definition plain_assistant :: "chat_message \<Rightarrow> bool" where
  "plain_assistant m \<longleftrightarrow> msg_role m = RoleAssistant \<and> msg_tool_calls m = []"

definition answers :: "chat_message \<Rightarrow> rstring \<Rightarrow> bool" where
  "answers r i \<longleftrightarrow> msg_role r = RoleToolResult \<and> msg_tool_call_id r = Some i"

definition provider_contract :: "llm_response \<Rightarrow> bool" where
  "provider_contract response \<longleftrightarrow> (\<forall>m. lr_message response = Some m \<longrightarrow> plain_assistant m)"

context commit_handler_laws
begin

lemma commit_appends:
  assumes "commit_message tx h m es s = (Inr u, s')"
  shows "messages (rn_thread s') = messages (rn_thread s) @ [m]"
proof (cases "th_current_turn (rn_thread s)")
  case None
  then show ?thesis using commit_message_no_turn [OF None, of tx h m es] assms by auto
next
  case (Some turn)
  then show ?thesis using commit_sel(1) [OF assms Some] by simp
qed

lemma commit_tool_calls_appends:
  "commit_tool_calls L tx h at_time cs s = (Inr u, s') \<Longrightarrow>
     messages (rn_thread s') = messages (rn_thread s) @ map (\<lambda>c. build_tool_call_message c at_time) cs"
proof (induction cs arbitrary: s)
  case Nil
  then show ?case by (simp add: act_ret_def)
next
  case (Cons c cs)
  from Cons(2) obtain u1 s1 where
    1: "commit_message tx h (build_tool_call_message c at_time)
          [build_tool_call_event (al_js L) (call_request_of c) (tc_id c)] s = (Inr u1, s1)"
    and 2: "commit_tool_calls L tx h at_time cs s1 = (Inr u, s')"
    by (simp only: commit_tool_calls.simps) (elim act_bindE)
  show ?case using commit_appends [OF 1] Cons(1) [OF 2] by simp
qed

lemma run_tool_call_appends:
  assumes "run_tool_call L tx h tid rep c s = (Inr u, s')"
    and "tc_name c = str ''compact'' \<Longrightarrow> \<not> acc_enabled (al_compact_config L)"
  shows "\<exists>r. messages (rn_thread s') = messages (rn_thread s) @ [r] \<and> answers r (tc_id c)"
proof -
  let ?q = "call_request_of c"
  let ?pay = "JObj [(str ''tool'', JStr (rq_name ?q)), (str ''arguments'', rq_arguments ?q), (str ''tool_call_id'', JStr (tc_id c))]"
  obtain u1 s1 u2 s2 result s3 created_at s4 where
    1: "(Inr (), s\<lparr>ls_used_tool_names := ls_used_tool_names s @ [rq_name ?q]\<rparr>) = (Inr u1 :: err + unit, s1)"
    and 2: "emit L HookPreToolUse ?pay s1 = (Inr u2, s2)"
    and 3: "(if rq_name ?q = str ''compact''
                then handle_model_requested_compact L tid ?q (tc_id c) rep
                else run_registry_tool L ?q (tc_id c)) s2 = (Inr result, s3)"
    and 4: "utc_now L s3 = (Inr created_at, s4)"
    and 5: "commit_message tx h
        (with_tool_call_id (chat_message_new RoleToolResult
           (format_tool_result_content (rs_content result) (rs_is_error result)) created_at) (tc_id c))
        [build_tool_result_event ?q (tc_id c) result] s4 = (Inr u, s')"
    using assms(1) unfolding run_tool_call_def Let_def by (elim act_bindE)
  have "messages (rn_thread s1) = messages (rn_thread s)" using 1 by auto
  moreover have "messages (rn_thread s2) = messages (rn_thread s1)"
    using 2 by (rule same_historyD [rotated]) (simp add: emit_def same_env)
  moreover have "messages (rn_thread s3) = messages (rn_thread s2)"
    using 3 by (rule same_historyD [rotated]) (auto simp: call_request_of_def assms(2) intro: same_disabled_compact same_registry_tool)
  moreover have "messages (rn_thread s4) = messages (rn_thread s3)"
    using 4 by (rule same_historyD [rotated]) (simp add: utc_now_def same_env)
  ultimately show ?thesis
    using commit_appends [OF 5]
    by (simp add: answers_def with_tool_call_id_def chat_message_new_def)
qed

lemma run_tool_calls_appends:
  "run_tool_calls L tx h tid rep cs s = (Inr u, s') \<Longrightarrow>
     (\<And>c. c \<in> set cs \<Longrightarrow> tc_name c = str ''compact'' \<Longrightarrow> \<not> acc_enabled (al_compact_config L)) \<Longrightarrow>
     \<exists>rs. messages (rn_thread s') = messages (rn_thread s) @ rs \<and> list_all2 answers rs (map tc_id cs)"
proof (induction cs arbitrary: s)
  case Nil
  then show ?case by (simp add: act_ret_def)
next
  case (Cons c cs)
  from Cons(2) obtain u1 s1 where
    1: "run_tool_call L tx h tid rep c s = (Inr u1, s1)"
    and 2: "run_tool_calls L tx h tid rep cs s1 = (Inr u, s')"
    by (simp only: run_tool_calls.simps) (elim act_bindE)
  obtain r where "messages (rn_thread s1) = messages (rn_thread s) @ [r]" "answers r (tc_id c)"
    using run_tool_call_appends [OF 1] Cons(3) by auto
  moreover obtain rs where "messages (rn_thread s') = messages (rn_thread s1) @ rs" "list_all2 answers rs (map tc_id cs)"
    using Cons(1) [OF 2] Cons(3) by auto
  ultimately show ?case by (intro exI [of _ "r # rs"]) simp
qed

lemma tool_turn_appends:
  assumes "tool_turn L tx h tid rep response s = (Inr r, s')" "provider_contract response"
    and "\<And>c. c \<in> set (lr_tool_calls response) \<Longrightarrow> tc_name c = str ''compact'' \<Longrightarrow> \<not> acc_enabled (al_compact_config L)"
  shows "\<exists>t at_time rs. messages (rn_thread s') = messages (rn_thread s) @ t
           @ map (\<lambda>c. build_tool_call_message c at_time) (lr_tool_calls response) @ rs
     \<and> (\<forall>m \<in> set t. plain_assistant m) \<and> length t \<le> 1
     \<and> list_all2 answers rs (map tc_id (lr_tool_calls response))"
proof -
  obtain u1 s1 at_time s2 u3 s3 u4 s4 where
    1: "(case lr_message response of
         Some m \<Rightarrow> if trim (msg_content m) \<noteq> []
                   then commit_message tx h m [text_output_event (msg_content m) False] else act_ret ()
       | None \<Rightarrow> act_ret ()) s = (Inr u1, s1)"
    and 2: "(case lr_message response of Some m \<Rightarrow> act_ret (msg_created_at m) | None \<Rightarrow> utc_now L) s1 = (Inr at_time, s2)"
    and 3: "commit_tool_calls L tx h at_time (lr_tool_calls response) s2 = (Inr u3, s3)"
    and 4: "run_tool_calls L tx h tid rep (lr_tool_calls response) s3 = (Inr u4, s4)"
    and 5: "act_ret \<lparr>tl_reply = (case lr_message response of Some m \<Rightarrow> msg_content m | None \<Rightarrow> []),
              tl_completed = False\<rparr> s4 = (Inr r, s')"
    using assms(1) unfolding tool_turn_def by (elim act_bindE)
  obtain t where t: "messages (rn_thread s1) = messages (rn_thread s) @ t" "\<forall>m \<in> set t. plain_assistant m" "length t \<le> 1"
  proof (cases "lr_message response")
    case None
    then show ?thesis using 1 that [of "[]"] by (simp add: act_ret_def)
  next
    case (Some m)
    show ?thesis
    proof (cases "trim (msg_content m) = []")
      case True
      then show ?thesis using 1 Some that [of "[]"] by (simp add: act_ret_def)
    next
      case False
      then have "commit_message tx h m [text_output_event (msg_content m) False] s = (Inr u1, s1)"
        using 1 Some by simp
      from commit_appends [OF this] show ?thesis
        using that [of "[m]"] assms(2) Some by (simp add: provider_contract_def)
    qed
  qed
  have now: "messages (rn_thread s2) = messages (rn_thread s1)"
    using 2 by (rule same_historyD [rotated]) (simp add: utc_now_def same_env same_order.rel_ret split: option.split)
  obtain rs where "messages (rn_thread s4) = messages (rn_thread s3) @ rs"
    "list_all2 answers rs (map tc_id (lr_tool_calls response))"
    using run_tool_calls_appends [OF 4] assms(3) by blast
  moreover have "s4 = s'" using 5 by (simp add: act_ret_def)
  ultimately show ?thesis
    using commit_tool_calls_appends [OF 3] t now
    by (intro exI [of _ t] exI [of _ at_time] exI [of _ rs]) simp
qed

lemma answer_turn_appends:
  assumes "answer_turn tx h response s = (Inr r, s')" "provider_contract response"
  shows "\<exists>m. messages (rn_thread s') = messages (rn_thread s) @ [m] \<and> plain_assistant m"
proof -
  obtain m where m: "lr_message response = Some m" "trim (msg_content m) \<noteq> []"
    using assms(1) by (auto simp: answer_turn_def act_fail_def split: option.splits if_splits)
  then have "act_bind (commit_message tx h m [text_output_event (msg_content m) True])
      (\<lambda>_. act_ret \<lparr>tl_reply = msg_content m, tl_completed = True\<rparr>) s = (Inr r, s')"
    using assms(1) by (simp add: answer_turn_def)
  then obtain u s1 where 1: "commit_message tx h m [text_output_event (msg_content m) True] s = (Inr u, s1)"
    and 2: "act_ret \<lparr>tl_reply = msg_content m, tl_completed = True\<rparr> s1 = (Inr r, s')"
    by (rule act_bindE)
  show ?thesis
    using commit_appends [OF 1] 2 assms(2) m by (auto simp: act_ret_def provider_contract_def)
qed

end

section \<open>Histories the provider accepts\<close>

definition history_ok :: "(json \<Rightarrow> rstring) \<Rightarrow> time \<Rightarrow> chat_message list \<Rightarrow> bool" where
  "history_ok js now ms \<longleftrightarrow>
     (case serialize_openai_messages js now ms [] of Inl _ \<Rightarrow> False | Inr xs \<Rightarrow> openai_accepts [] xs)"

text \<open>The roles at which a batch ends.\<close>

definition closes_batch :: "chat_message \<Rightarrow> bool" where
  "closes_batch m \<longleftrightarrow> msg_role m \<noteq> RoleToolcall \<and> msg_role m \<noteq> RoleAssistant"

lemma serialize_snoc:
  assumes "closes_batch u"
  shows "serialize_openai_messages js now (a @ [u]) acc =
     (case serialize_openai_messages js now a acc of Inl e \<Rightarrow> Inl e
      | Inr x \<Rightarrow> serialize_openai_messages js now [u] x)"
proof (induction "length a" arbitrary: a acc rule: less_induct)
  case less
  note u = assms [unfolded closes_batch_def]
  show ?case
  proof (cases a)
    case (Cons x rest)
    have tw: "takeWhile is_toolcall (rest @ [u]) = takeWhile is_toolcall rest"
      "dropWhile is_toolcall (rest @ [u]) = dropWhile is_toolcall rest @ [u]"
      using u by (induction rest) auto
    have starts: "message_starts_tool_call_batch (x # rest @ [u]) = message_starts_tool_call_batch (x # rest)"
      using u by (cases rest) simp_all
    have IH: "serialize_openai_messages js now (dropWhile is_toolcall rest @ [u]) acc =
       (case serialize_openai_messages js now (dropWhile is_toolcall rest) acc of Inl e \<Rightarrow> Inl e
        | Inr x \<Rightarrow> serialize_openai_messages js now [u] x)"
      "serialize_openai_messages js now (rest @ [u]) acc =
       (case serialize_openai_messages js now rest acc of Inl e \<Rightarrow> Inl e
        | Inr x \<Rightarrow> serialize_openai_messages js now [u] x)" for acc
      using less [of "dropWhile is_toolcall rest" acc] less [of rest acc] length_dropWhile_le [of is_toolcall rest] Cons
      by simp_all
    show ?thesis
      unfolding Cons append_Cons serialize_step [of js now x] starts
      by (auto simp: tw IH split: sum.split)
  qed simp
qed

lemma history_ok_snoc:
  assumes "history_ok js now ms" "msg_role u = RoleUser \<or> msg_role u = RoleSystem"
  shows "history_ok js now (ms @ [u])"
proof -
  obtain xs where xs: "serialize_openai_messages js now ms [] = Inr xs" "openai_accepts [] xs"
    using assms(1) by (auto simp: history_ok_def split: sum.splits)
  have "closes_batch u" using assms(2) by (auto simp: closes_batch_def)
  then have "serialize_openai_messages js now (ms @ [u]) []
      = Inr (xs @ [if msg_role u = RoleUser then OaUser (msg_content u) else OaSystem (msg_content u)])"
    using assms(2) xs(1) by (auto simp: serialize_snoc serialize_step serialize_context_message_def)
  then show ?thesis
    using openai_accepts_append [OF xs(2)] by (auto simp: history_ok_def)
qed

text \<open>Behind a message that closes a batch, an accepted piece can be added.\<close>

lemma history_ok_append:
  assumes "history_ok js now ms" "ms \<noteq> []" "closes_batch (last ms)"
    and "serialize_openai_messages js now b [] = Inr ys" "openai_accepts [] ys"
  shows "history_ok js now (ms @ b)"
proof -
  obtain xs where xs: "serialize_openai_messages js now ms [] = Inr xs" "openai_accepts [] xs"
    using assms(1) by (auto simp: history_ok_def split: sum.splits)
  obtain a m where ms: "ms = a @ [m]" using assms(2) by (metis append_butlast_last_id)
  have m: "msg_role m \<noteq> RoleToolcall" "msg_role m \<noteq> RoleAssistant"
    using assms(3) by (simp_all add: ms closes_batch_def)
  have "serialize_openai_messages js now (ms @ b) [] = serialize_openai_messages js now b xs"
    using serialize_cut [OF m, of js now a b "[]"] xs(1) by (simp add: ms)
  also have "\<dots> = Inr (xs @ ys)"
    using serialize_acc [of js now b xs] assms(4) by simp
  finally show ?thesis using openai_accepts_append [OF xs(2) assms(5)] by (simp add: history_ok_def)
qed

lemma accept_answer:
  assumes "plain_assistant m"
  shows "\<exists>ys. serialize_openai_messages js now [m] [] = Inr ys \<and> openai_accepts [] ys"
  using assms
  by (simp add: plain_assistant_def serialize_step serialize_context_message_def serialize_assistant_message_def)

lemma accept_batch:
  assumes "cs \<noteq> []" "list_all2 answers rs (map tc_id cs)" "\<forall>m \<in> set t. plain_assistant m" "length t \<le> 1"
  shows "\<exists>ys. serialize_openai_messages js now (t @ map (\<lambda>c. build_tool_call_message c at_time) cs @ rs) [] = Inr ys
     \<and> openai_accepts [] ys"
proof -
  let ?cs = "map (\<lambda>c. build_tool_call_message c at_time) cs"
  have roles: "list_all is_toolcall ?cs"
    by (simp add: list_all_iff build_tool_call_message_def with_tool_calls_def chat_message_new_def)
  have calls: "concat (map msg_tool_calls ?cs) = cs"
    by (induction cs) (simp_all add: build_tool_call_message_def with_tool_calls_def chat_message_new_def)
  have rs: "list_all2 (\<lambda>r i. msg_role r = RoleToolResult \<and> msg_tool_call_id r = Some i) rs (map tc_id cs)"
    using assms(2) by (simp add: answers_def [abs_def])
  have t: "m \<in> set t \<Longrightarrow> msg_role m = RoleAssistant \<and> msg_tool_calls m = []" for m
    using assms(3) by (simp add: plain_assistant_def)
  obtain words where s: "serialize_openai_messages js now (t @ ?cs @ rs) [] =
     Inr ([] @ OaAssistant words (map (serialize_openai_tool_call js) cs)
            # map (\<lambda>(r, i). OaTool (msg_content r) i) (zip rs (map tc_id cs)))"
    using serialize_batch [OF roles _ rs t assms(4), of js now "[]"] assms(1) calls by auto
  have "openai_accepts (map tc_id cs) (map (\<lambda>(r, i). OaTool (msg_content r) i) (zip rs (map tc_id cs)))"
    by (rule accepts_batch) (rule list_all2_lengthD [OF assms(2)])
  then show ?thesis
    by (simp add: s comp_def serialize_openai_tool_call_def)
qed

lemma answers_closes: "list_all2 answers rs is \<Longrightarrow> is \<noteq> [] \<Longrightarrow> rs \<noteq> [] \<and> closes_batch (last rs)"
  by (induction rs "is" rule: list_all2_induct) (auto simp: answers_def closes_batch_def list_all2_Cons1)

section \<open>The history of a run\<close>

text \<open>Without compaction an iteration is its turn body between steps that leave the thread alone.\<close>

lemma iteration_steps:
  assumes "loop_iteration L tx h tid s = (Inr q, s')" "\<not> acc_enabled (al_compact_config L)"
  obtains pre s1 z s2 e where "prepare_request_state L s = (Inr pre, s1)" "turn_body L tx h tid s1 = (z, s2)"
    "(case z of Inr r \<Rightarrow> q = (if tl_completed r then Some \<lparr>tn_reply = tl_reply r, tn_failure_error = None\<rparr> else None)
                       \<and> s' = s2\<lparr>rn_env := e\<rparr>
      | Inl error \<Rightarrow> (\<exists>c at_time. q = Some c \<and> fail_turn tx h at_time error (s2\<lparr>rn_env := e\<rparr>) = (Inr c, s')))"
proof -
  obtain pre sa u sb where
    1: "prepare_request_state L s = (Inr pre, sa)"
    and 2: "with_thread (\<lambda>t. should_runtime_compact L t (rq_budget_report pre)) (\<lambda>compact.
       if compact
       then act_bind (execute_turn_compaction L tid (str ''runtime_threshold'') False None (rq_budget_report pre))
              (\<lambda>_. act_ret ())
       else act_ret ()) sa = (Inr u, sb)"
    and 3: "act_try (turn_body L tx h tid) (\<lambda>turn_result.
     act_bind (utc_now L) (\<lambda>completed_at.
     case turn_result of
       Inr r \<Rightarrow>
         act_ret (if tl_completed r then Some \<lparr>tn_reply = tl_reply r, tn_failure_error = None\<rparr> else None)
     | Inl error \<Rightarrow> act_bind (fail_turn tx h completed_at error) (\<lambda>c. act_ret (Some c)))) sb = (Inr q, s')"
    using assms(1) unfolding loop_iteration_def by (elim act_bindE)
  have sb: "sb = sa" using 2 assms(2) by (simp add: with_thread_def should_runtime_compact_def act_ret_def)
  obtain z s2 where b: "turn_body L tx h tid sa = (z, s2)" by fastforce
  obtain at_time e where now: "utc_now L s2 = (Inr at_time, s2\<lparr>rn_env := e\<rparr>)" using utc_now_run [of L s2] by blast
  have "case z of Inr r \<Rightarrow> q = (if tl_completed r then Some \<lparr>tn_reply = tl_reply r, tn_failure_error = None\<rparr> else None)
                       \<and> s' = s2\<lparr>rn_env := e\<rparr>
      | Inl error \<Rightarrow> (\<exists>c at_time. q = Some c \<and> fail_turn tx h at_time error (s2\<lparr>rn_env := e\<rparr>) = (Inr c, s'))"
  proof (cases z)
    case (Inl error)
    with 3 b now sb have "act_bind (fail_turn tx h at_time error) (\<lambda>c. act_ret (Some c)) (s2\<lparr>rn_env := e\<rparr>) = (Inr q, s')"
      by (simp add: act_try_def act_bind_def)
    then obtain c s4 where "fail_turn tx h at_time error (s2\<lparr>rn_env := e\<rparr>) = (Inr c, s4)" "act_ret (Some c) s4 = (Inr q, s')"
      by (rule act_bindE)
    then show ?thesis by (auto simp: Inl act_ret_def)
  next
    case (Inr r)
    with 3 b now sb show ?thesis by (simp add: act_try_def act_bind_def act_ret_def)
  qed
  from that [OF 1 b this] show ?thesis .
qed

lemma iteration_without_compaction:
  assumes "loop_iteration L tx h tid s = (Inr q, s')" "\<not> acc_enabled (al_compact_config L)"
  obtains s1 z s2 s3 where "messages (rn_thread s1) = messages (rn_thread s)"
    "turn_body L tx h tid s1 = (z, s2)" "messages (rn_thread s3) = messages (rn_thread s2)"
    "(case z of Inr r \<Rightarrow> q = (if tl_completed r then Some \<lparr>tn_reply = tl_reply r, tn_failure_error = None\<rparr> else None)
                       \<and> s' = s3
      | Inl error \<Rightarrow> (\<exists>c at_time. q = Some c \<and> fail_turn tx h at_time error s3 = (Inr c, s')))"
proof -
  obtain pre s1 z s2 e where it: "prepare_request_state L s = (Inr pre, s1)" "turn_body L tx h tid s1 = (z, s2)"
    "(case z of Inr r \<Rightarrow> q = (if tl_completed r then Some \<lparr>tn_reply = tl_reply r, tn_failure_error = None\<rparr> else None)
                       \<and> s' = s2\<lparr>rn_env := e\<rparr>
      | Inl error \<Rightarrow> (\<exists>c at_time. q = Some c \<and> fail_turn tx h at_time error (s2\<lparr>rn_env := e\<rparr>) = (Inr c, s')))"
    by (rule iteration_steps [OF assms])
  have "messages (rn_thread s1) = messages (rn_thread s)"
    using it(1) by (rule same_historyD [rotated]) (rule same_prepare)
  then show ?thesis by (rule that [OF _ it(2) _ it(3)]) simp
qed

definition provider_ok :: "'e agent_loop \<Rightarrow> bool" where
  "provider_ok L \<longleftrightarrow> (\<forall>request e response e'. w_generate (al_world L) request e = (Inr response, e') \<longrightarrow> provider_contract response)"

context commit_handler_laws
begin

lemma body_history:
  assumes "turn_body L tx h tid s = (Inr r, s')" "\<not> acc_enabled (al_compact_config L)" "provider_ok L"
    and "history_ok js now (messages (rn_thread s))"
    and "messages (rn_thread s) \<noteq> []" "closes_batch (last (messages (rn_thread s)))"
  shows "history_ok js now (messages (rn_thread s'))
    \<and> (\<not> tl_completed r \<longrightarrow> messages (rn_thread s') \<noteq> [] \<and> closes_batch (last (messages (rn_thread s'))))"
proof -
  obtain request s1 u s2 response s3 where
    1: "prepare_request_state L s = (Inr request, s1)"
    and 2: "(Inr (), s1\<lparr>ls_last_visible_tools := rq_tools request,
                              ls_last_budget_report := Some (rq_budget_report request)\<rparr>) = (Inr u :: err + unit, s2)"
    and 3: "on_env (w_generate (al_world L) \<lparr>lq_messages = rq_messages request, lq_tools = rq_tools request\<rparr>) s2
             = (Inr response, s3)"
    and 4: "(if lr_tool_calls response = [] then answer_turn tx h response
       else tool_turn L tx h tid (rq_budget_report request) response) s3 = (Inr r, s')"
    using assms(1) unfolding turn_body_def by (elim act_bindE)
  have contract: "provider_contract response"
    using 3 assms(3) by (auto simp: on_env_def provider_ok_def split: prod.splits)
  have "messages (rn_thread s1) = messages (rn_thread s)"
    using 1 by (rule same_historyD [rotated]) (rule same_prepare)
  moreover have "messages (rn_thread s3) = messages (rn_thread s2)"
    using 3 by (rule same_historyD [rotated]) (rule same_env)
  ultimately have s3: "messages (rn_thread s3) = messages (rn_thread s)" using 2 by auto
  show ?thesis
  proof (cases "lr_tool_calls response = []")
    case True
    with 4 have a: "answer_turn tx h response s3 = (Inr r, s')" by simp
    obtain m where m: "messages (rn_thread s') = messages (rn_thread s) @ [m]" "plain_assistant m"
      using answer_turn_appends [OF a contract] s3 by auto
    obtain ys where "serialize_openai_messages js now [m] [] = Inr ys" "openai_accepts [] ys"
      using accept_answer [OF m(2)] by blast
    then show ?thesis
      using history_ok_append [OF assms(4-6)] m(1) answer_events [OF a] by simp
  next
    case False
    with 4 have a: "tool_turn L tx h tid (rq_budget_report request) response s3 = (Inr r, s')" by simp
    obtain t at_time rs where m: "messages (rn_thread s') = messages (rn_thread s) @ t
           @ map (\<lambda>c. build_tool_call_message c at_time) (lr_tool_calls response) @ rs"
      "\<forall>m \<in> set t. plain_assistant m" "length t \<le> 1" "list_all2 answers rs (map tc_id (lr_tool_calls response))"
      using tool_turn_appends [OF a contract] assms(2) s3 by auto
    obtain ys where "serialize_openai_messages js now
        (t @ map (\<lambda>c. build_tool_call_message c at_time) (lr_tool_calls response) @ rs) [] = Inr ys" "openai_accepts [] ys"
      using accept_batch [OF False m(4,2,3)] by blast
    then show ?thesis
      using history_ok_append [OF assms(4-6)] m(1) answers_closes [OF m(4)] False by simp
  qed
qed

lemma loop_history:
  assumes "turn_loop L tx h tid s = Some (Inr c, s')" "tn_failure_error c = None"
    and L: "\<not> acc_enabled (al_compact_config L)" "provider_ok L"
    and "history_ok js now (messages (rn_thread s))"
    and "messages (rn_thread s) \<noteq> []" "closes_batch (last (messages (rn_thread s)))"
  shows "history_ok js now (messages (rn_thread s'))"
proof -
  have "\<lbrakk>case r of Inl _ \<Rightarrow> False | Inr c \<Rightarrow> tn_failure_error c = None; history_ok js now (messages (rn_thread s));
      messages (rn_thread s) \<noteq> []; closes_batch (last (messages (rn_thread s)))\<rbrakk>
      \<Longrightarrow> history_ok js now (messages (rn_thread s'))"
    if "turn_loop L tx h tid s = Some (r, s')" for r
    using that
  proof (induction rule: turn_loop_induct)
    case (Abort s e s1)
    then show ?case by simp
  next
    case (Break s c s1)
    from Break(1) show ?case
    proof (rule iteration_without_compaction [OF _ L(1)])
      fix sa z sb sc
      assume it: "messages (rn_thread sa) = messages (rn_thread s)" "turn_body L tx h tid sa = (z, sb)"
        "messages (rn_thread sc) = messages (rn_thread sb)"
        "case z of Inr r \<Rightarrow> Some c = (if tl_completed r then Some \<lparr>tn_reply = tl_reply r, tn_failure_error = None\<rparr> else None)
                       \<and> s1 = sc
          | Inl error \<Rightarrow> (\<exists>c' at_time. Some c = Some c' \<and> fail_turn tx h at_time error sc = (Inr c', s1))"
      show ?thesis
      proof (cases z)
        case (Inl error)
        then obtain at_time where "fail_turn tx h at_time error sc = (Inr c, s1)" using it(4) by auto
        from fail_turn_ok(1) [OF this] Break(2) show ?thesis by simp
      next
        case (Inr r)
        then show ?thesis
          using body_history [of L tx tid sa r sb js now] it L Break(3-5) by simp
      qed
    qed
  next
    case (Again s s1 r s2)
    from Again(1) show ?case
    proof (rule iteration_without_compaction [OF _ L(1)])
      fix sa z sb sc
      assume it: "messages (rn_thread sa) = messages (rn_thread s)" "turn_body L tx h tid sa = (z, sb)"
        "messages (rn_thread sc) = messages (rn_thread sb)"
        "case z of Inr r \<Rightarrow> None = (if tl_completed r then Some \<lparr>tn_reply = tl_reply r, tn_failure_error = None\<rparr> else None)
                       \<and> s1 = sc
          | Inl error \<Rightarrow> (\<exists>c' at_time. None = Some c' \<and> fail_turn tx h at_time error sc = (Inr c', s1))"
      obtain r where r: "z = Inr r" "\<not> tl_completed r" "s1 = sc" using it(4) by (cases z) (auto split: if_splits)
      have "history_ok js now (messages (rn_thread sb)) \<and> messages (rn_thread sb) \<noteq> [] \<and> closes_batch (last (messages (rn_thread sb)))"
        using body_history [of L tx tid sa r sb js now] it(1,2) r L Again(4-6) by simp
      then show ?thesis using Again(2,3) it(3) r(3) by simp
    qed
  qed
  from this [of "Inr c"] assms show ?thesis by simp
qed

end

section \<open>A successful run stays acceptable\<close>

text \<open>
  C12: what the provider is sent next is well formed. With compaction off and a provider whose messages
  are plain assistant messages, a run whose turn succeeds takes a history the chat-completion API accepts
  to a history it accepts: whatever tools were called, in how many rounds, each call has exactly one
  result, behind the message that asked for it and before anything else.
\<close>
theorem successful_run_keeps_history_acceptable:
  assumes "handler_preserves h" "\<not> acc_enabled (al_compact_config L)" "provider_ok L"
    and "history_ok js now (messages (rn_thread s))"
    and "run_locked_thread L tx incoming h s = Some (Inr out, s')"
    and "ao_turns out = [\<lparr>ca_turn = turn\<rparr>]" "ft_status turn = Succeeded"
  shows "history_ok js now (messages (rn_thread s'))"
proof -
  have laws: "commit_handler_laws h" by unfold_locales (rule assms(1))
  obtain s1 s2 c completed_at turn' where
    b: "begin_run L tx h (incoming_chat_message incoming) (im_external_message_id incoming) s
      = (Inr (tcl_thread_id (th_locator (rn_thread s))), s1)"
    and l: "turn_loop L tx h (tcl_thread_id (th_locator (rn_thread s))) s1 = Some (Inr c, s2)"
    and f: "finalize_run c completed_at (rn_thread s2) = Inr (turn', rn_thread s')"
    and out: "ao_turns out = [\<lparr>ca_turn = turn'\<rparr>]"
    by (rule commit_handler_laws.run_live_thread_ok [OF laws assms(5) [unfolded run_locked_thread_def]])
  have c: "tn_failure_error c = None"
    using finalize_run_sel(6) [OF f] out assms(6,7) by (auto split: option.splits)
  let ?m = "incoming_chat_message incoming"
  have s1: "messages (rn_thread s1) = messages (rn_thread s) @ [?m]"
    by (rule commit_handler_laws.begin_run_turn(1) [OF laws b])
  have role: "msg_role ?m = RoleUser" by (simp add: incoming_chat_message_def chat_message_new_def)
  have "history_ok js now (messages (rn_thread s1))"
    unfolding s1 by (rule history_ok_snoc [OF assms(4)]) (simp add: role)
  then have "history_ok js now (messages (rn_thread s2))"
    by (rule commit_handler_laws.loop_history [OF laws l c assms(2,3)]) (simp_all add: s1 closes_batch_def role)
  then show ?thesis by (simp add: finalize_run_sel(1) [OF f])
qed

lemma script_provider_ok: "provider_ok script_loop"
  by (auto simp: provider_ok_def provider_contract_def plain_assistant_def script_loop_def script_world_def
      scripted_reply_def split: list.splits)

theorem successful_run_keeps_history_acceptable_witness:
  "\<exists>out s'. run_locked_thread script_loop demo_sender demo_incoming recording_handler (script_state [demo_answer])
      = Some (Inr out, s') \<and> history_ok (\<lambda>_. []) 0 (messages (rn_thread s'))"
proof -
  obtain out s' turn where run: "run_locked_thread script_loop demo_sender demo_incoming recording_handler
      (script_state [demo_answer]) = Some (Inr out, s')" "ao_turns out = [\<lparr>ca_turn = turn\<rparr>]" "ft_status turn = Succeeded"
    using script_answer_run by blast
  have off: "\<not> acc_enabled (al_compact_config script_loop)" by (simp add: script_loop_def)
  have start: "history_ok (\<lambda>_. []) 0 (messages (rn_thread (script_state [demo_answer])))"
    by (simp add: history_ok_def script_state_def thread_new_def thread_context_new_def)
  show ?thesis
    using run(1) successful_run_keeps_history_acceptable
      [OF recording.handler_preserves off script_provider_ok start run] by blast
qed

section \<open>A failing hook orphans tool calls\<close>

definition handler_total :: "'h commit_handler \<Rightarrow> bool" where
  "handler_total h \<longleftrightarrow> (\<forall>turn_id m ds x. \<exists>u y. h turn_id m ds x = (Inr u, y))"

lemma act_bind_error:
  assumes "act_bind m f s = (Inl e, s'')"
  obtains "m s = (Inl e, s'')" | x s' where "m s = (Inr x, s')" "f x s' = (Inl e, s'')"
  using assms by (auto simp: act_bind_def split: prod.splits sum.splits)

lemma commit_total:
  assumes "handler_total h" "th_current_turn (rn_thread s) \<noteq> None"
  shows "\<exists>s'. commit_message tx h m es s = (Inr (), s')"
proof -
  obtain turn where turn: "th_current_turn (rn_thread s) = Some turn" using assms(2) by blast
  obtain ds flag where d: "prepare_dispatch_events tx es (ls_reply_to_source s) = (ds, flag)" by fastforce
  obtain u x t where "h (ct_turn_id turn) m ds (ls_handler s, committed_thread m es turn (rn_thread s)) = (Inr u, (x, t))"
    using assms(1) unfolding handler_total_def by (metis prod.exhaust)
  then show ?thesis by (simp add: commit_message_run [OF turn] d)
qed

lemma same_frame_turn: "turn_kept s s' \<Longrightarrow> th_current_turn (rn_thread s) \<noteq> None \<Longrightarrow> th_current_turn (rn_thread s') \<noteq> None"
  by (metis turn_kept_def turn_key_None)

text \<open>Tool results that fall short, then another assistant message: refused whatever follows.\<close>

lemma short_results_refused:
  "openai_accepts pending (map (\<lambda>(r, i). OaTool (msg_content r) i) ris @ OaAssistant w cs # ys) \<Longrightarrow>
     length ris = length pending"
proof (induction ris arbitrary: pending)
  case (Cons ri ris)
  obtain r i where ri: "ri = (r, i)" by fastforce
  then have "i \<in> set pending" "length ris = length (remove1 i pending)" using Cons by auto
  then show ?case by (simp add: length_remove1) (metis Suc_pred length_pos_if_in_set)
qed simp

lemma accepts_suffix: "openai_accepts pending (xs @ OaAssistant w cs # ys) \<Longrightarrow> openai_accepts [] (OaAssistant w cs # ys)"
  by (induction pending xs rule: openai_accepts.induct) auto

lemma serialize_assistant_head:
  assumes "plain_assistant f" "serialize_openai_messages js now (f # b) [] = Inr zs"
  obtains w cs zs' where "zs = OaAssistant w cs # zs'"
proof -
  obtain w cs b' where "serialize_openai_messages js now (f # b) [] = serialize_openai_messages js now b' [OaAssistant w cs]"
    using assms(1)
    by (cases "message_starts_tool_call_batch (f # b)")
      (auto simp: plain_assistant_def serialize_step serialize_context_message_def serialize_assistant_message_def
        simp del: message_starts_tool_call_batch.simps)
  with assms(2) that show ?thesis by (subst (asm) serialize_acc) (auto split: sum.splits)
qed

lemma serialize_results_then:
  "list_all2 answers rs is \<Longrightarrow>
     serialize_openai_messages js now (rs @ b) acc
       = serialize_openai_messages js now b (acc @ map (\<lambda>(r, i). OaTool (msg_content r) i) (zip rs is))"
  by (induction rs "is" arbitrary: acc rule: list_all2_induct)
    (simp_all add: serialize_step serialize_context_message_def answers_def)

lemma serialize_batch_then:
  assumes "list_all is_toolcall cs" "cs \<noteq> []" and rs: "list_all2 answers rs is"
    and t: "\<forall>m \<in> set t. plain_assistant m" "length t \<le> 1" and f: "plain_assistant f"
    and ok: "serialize_openai_messages js now (t @ cs @ rs @ f # b) [] = Inr out"
  shows "\<exists>w zs. out = OaAssistant w (map (serialize_openai_tool_call js) (concat (map msg_tool_calls cs)))
            # map (\<lambda>(r, i). OaTool (msg_content r) i) (zip rs is) @ zs
     \<and> serialize_openai_messages js now (f # b) [] = Inr zs"
proof -
  have head: "r \<in> set (take 1 (rs @ f # b)) \<Longrightarrow> \<not> is_toolcall r" for r
    using rs f by (cases rs) (auto simp: list_all2_Cons1 answers_def plain_assistant_def)
  note tw = takeWhile_batch [OF assms(1), of "rs @ f # b", OF head]
  obtain c cs' where c: "cs = c # cs'" "is_toolcall c" using assms(1,2) by (cases cs) auto
  have tw': "takeWhile is_toolcall (cs' @ rs @ f # b) = cs'" "dropWhile is_toolcall (cs' @ rs @ f # b) = rs @ f # b"
    using tw c by simp_all
  obtain w where "serialize_openai_messages js now (t @ cs @ rs @ f # b) []
      = serialize_openai_messages js now (rs @ f # b)
          [OaAssistant w (map (serialize_openai_tool_call js) (concat (map msg_tool_calls cs)))]"
  proof (cases t)
    case Nil
    then show ?thesis using that c tw' by (simp add: serialize_step)
  next
    case (Cons m t')
    then have "t = [m]" "msg_role m = RoleAssistant" "msg_tool_calls m = []" using t by (auto simp: plain_assistant_def)
    then show ?thesis using that c tw' by (simp add: serialize_step)
  qed
  then have "serialize_openai_messages js now (f # b)
      ([OaAssistant w (map (serialize_openai_tool_call js) (concat (map msg_tool_calls cs)))]
        @ map (\<lambda>(r, i). OaTool (msg_content r) i) (zip rs is)) = Inr out"
    using ok serialize_results_then [OF rs] by simp
  then show ?thesis by (subst (asm) serialize_acc) (auto split: sum.splits)
qed

lemma unanswered_call_refused:
  assumes "ms \<noteq> []" "closes_batch (last ms)" "cs \<noteq> []" "list_all2 answers rs (map tc_id (take (length rs) cs))"
    and "length rs < length cs" "\<forall>m \<in> set t. plain_assistant m" "length t \<le> 1" "plain_assistant f"
  shows "\<not> history_ok js now (ms @ t @ map (\<lambda>c. build_tool_call_message c at_time) cs @ rs @ f # b)"
proof
  let ?cs = "map (\<lambda>c. build_tool_call_message c at_time) cs"
  assume "history_ok js now (ms @ t @ ?cs @ rs @ f # b)"
  then obtain all where all: "serialize_openai_messages js now (ms @ t @ ?cs @ rs @ f # b) [] = Inr all" "openai_accepts [] all"
    by (auto simp: history_ok_def split: sum.splits)
  obtain a m where ms: "ms = a @ [m]" using assms(1) by (metis append_butlast_last_id)
  have m: "msg_role m \<noteq> RoleToolcall" "msg_role m \<noteq> RoleAssistant"
    using assms(2) by (simp_all add: ms closes_batch_def)
  obtain xs where xs: "serialize_openai_messages js now (a @ [m]) [] = Inr xs"
    "serialize_openai_messages js now (t @ ?cs @ rs @ f # b) xs = Inr all"
    using all(1) serialize_cut [OF m, of js now a "t @ ?cs @ rs @ f # b" "[]"] by (auto simp: ms split: sum.splits)
  obtain rest where rest: "serialize_openai_messages js now (t @ ?cs @ rs @ f # b) [] = Inr rest" "all = xs @ rest"
    using xs(2) by (subst (asm) serialize_acc) (auto split: sum.splits)
  have roles: "list_all is_toolcall ?cs" by (simp add: list_all_iff build_tool_call_message_def with_tool_calls_def)
  have calls: "concat (map msg_tool_calls ?cs) = cs"
    by (induction cs) (simp_all add: build_tool_call_message_def with_tool_calls_def)
  have cs_ne: "?cs \<noteq> []" using assms(3) by simp
  obtain w zs where zs: "rest = OaAssistant w (map (serialize_openai_tool_call js) cs)
      # map (\<lambda>(r, i). OaTool (msg_content r) i) (zip rs (map tc_id (take (length rs) cs))) @ zs"
    "serialize_openai_messages js now (f # b) [] = Inr zs"
    using serialize_batch_then [OF roles cs_ne assms(4,6,7,8) rest(1), unfolded calls] by blast
  obtain w' cs' zs' where "zs = OaAssistant w' cs' # zs'" by (rule serialize_assistant_head [OF assms(8) zs(2)])
  then have "openai_accepts [] (OaAssistant w (map (serialize_openai_tool_call js) cs)
      # map (\<lambda>(r, i). OaTool (msg_content r) i) (zip rs (map tc_id (take (length rs) cs))) @ OaAssistant w' cs' # zs')"
    using all(2) accepts_suffix zs(1) rest(2) by blast
  then have "openai_accepts (map oc_id (map (serialize_openai_tool_call js) cs))
      (map (\<lambda>(r, i). OaTool (msg_content r) i) (zip rs (map tc_id (take (length rs) cs))) @ OaAssistant w' cs' # zs')"
    by (simp only: openai_accepts.simps simp_thms)
  from short_results_refused [OF this]
  have "length (zip rs (map tc_id (take (length rs) cs))) = length (map oc_id (map (serialize_openai_tool_call js) cs))" .
  then show False using assms(5) by simp
qed

context commit_handler_laws
begin

lemma run_tool_call_error:
  assumes "run_tool_call L tx h tid rep c s = (Inl e, s')" "handler_total h" "th_current_turn (rn_thread s) \<noteq> None"
    and "\<not> acc_enabled (al_compact_config L)"
  shows "messages (rn_thread s') = messages (rn_thread s)"
proof -
  let ?q = "call_request_of c"
  let ?s1 = "s\<lparr>ls_used_tool_names := ls_used_tool_names s @ [rq_name ?q]\<rparr>"
  let ?pay = "JObj [(str ''tool'', JStr (rq_name ?q)), (str ''arguments'', rq_arguments ?q), (str ''tool_call_id'', JStr (tc_id c))]"
  let ?call = "if rq_name ?q = str ''compact''
                then handle_model_requested_compact L tid ?q (tc_id c) rep
                else run_registry_tool L ?q (tc_id c)"
  have emit_same: "related same_history (emit L k p) s" for k p and s :: "('a, 'h) loop_state"
    by (simp add: emit_def same_env)
  have call_same: "related same_history ?call s" for s :: "('a, 'h) loop_state"
    using assms(4) by (auto intro: same_disabled_compact same_registry_tool)
  obtain z1 s2 where 2: "emit L HookPreToolUse ?pay ?s1 = (z1, s2)" by fastforce
  have m2: "messages (rn_thread s2) = messages (rn_thread s)"
    using same_historyD [OF emit_same 2] by simp
  have t2: "th_current_turn (rn_thread s2) \<noteq> None"
    using same_frame_turn [of ?s1 s2] kept.R_emit [of L HookPreToolUse ?pay ?s1] 2 assms(3) by (simp add: related_def)
  show ?thesis
  proof (cases z1)
    case (Inl e1)
    then show ?thesis using assms(1) 2 m2 by (simp add: run_tool_call_def Let_def act_bind_def)
  next
    case (Inr u1)
    obtain z2 s3 where 3: "?call s2 = (z2, s3)" by fastforce
    have m3: "messages (rn_thread s3) = messages (rn_thread s)"
      using same_historyD [OF call_same 3] m2 by simp
    have "turn_kept s2 s3"
      using kept.rel_model_compact [of L tid ?q "tc_id c" rep s2] kept.rel_registry_tool [of L ?q "tc_id c" s2] 3
      by (auto simp: related_def split: if_splits)
    then have t3: "th_current_turn (rn_thread s3) \<noteq> None" using same_frame_turn t2 by blast
    show ?thesis
    proof (cases z2)
      case (Inl e2)
      then show ?thesis using assms(1) 2 3 m3 Inr by (simp add: run_tool_call_def Let_def act_bind_def)
    next
      case r: (Inr result)
      obtain at_time e4 where 4: "utc_now L s3 = (Inr at_time, s3\<lparr>rn_env := e4\<rparr>)" using utc_now_run [of L s3] by blast
      obtain s5 where "commit_message tx h
        (with_tool_call_id (chat_message_new RoleToolResult
           (format_tool_result_content (rs_content result) (rs_is_error result)) at_time) (tc_id c))
        [build_tool_result_event ?q (tc_id c) result] (s3\<lparr>rn_env := e4\<rparr>) = (Inr (), s5)"
        using commit_total [OF assms(2), of "s3\<lparr>rn_env := e4\<rparr>"] t3 by (simp, blast)
      then show ?thesis using assms(1) 2 3 4 Inr r by (simp add: run_tool_call_def Let_def act_bind_def)
    qed
  qed
qed

lemma run_tool_calls_error:
  "run_tool_calls L tx h tid rep cs s = (Inl e, s') \<Longrightarrow> handler_total h \<Longrightarrow> th_current_turn (rn_thread s) \<noteq> None \<Longrightarrow>
     \<not> acc_enabled (al_compact_config L) \<Longrightarrow>
     \<exists>rs. messages (rn_thread s') = messages (rn_thread s) @ rs \<and> length rs < length cs
        \<and> list_all2 answers rs (map tc_id (take (length rs) cs))"
proof (induction cs arbitrary: s)
  case Nil
  then show ?case by (simp add: act_ret_def)
next
  case (Cons c cs)
  from Cons(2) [unfolded run_tool_calls.simps] show ?case
  proof (cases rule: act_bind_error)
    case 1
    then show ?thesis using run_tool_call_error [OF 1 Cons(3-5)] by (intro exI [of _ "[]"]) simp
  next
    case (2 u s1)
    obtain r where r: "messages (rn_thread s1) = messages (rn_thread s) @ [r]" "answers r (tc_id c)"
      using run_tool_call_appends [OF 2(1)] Cons(5) by auto
    have "th_current_turn (rn_thread s1) \<noteq> None"
      using same_frame_turn [of s s1] kept.rel_run_tool_call [of L tx tid rep c s] 2(1) Cons(4)
      by (simp add: related_def)
    then obtain rs where "messages (rn_thread s') = messages (rn_thread s1) @ rs" "length rs < length cs"
      "list_all2 answers rs (map tc_id (take (length rs) cs))"
      using Cons(1) [OF 2(2) Cons(3) _ Cons(5)] by auto
    then show ?thesis using r by (intro exI [of _ "r # rs"]) simp
  qed
qed

lemma commit_tool_calls_total:
  "handler_total h \<Longrightarrow> th_current_turn (rn_thread s) \<noteq> None \<Longrightarrow> \<exists>s'. commit_tool_calls L tx h at_time cs s = (Inr (), s')"
proof (induction cs arbitrary: s)
  case Nil
  then show ?case by (simp add: act_ret_def)
next
  case (Cons c cs)
  obtain s1 where 1: "commit_message tx h (build_tool_call_message c at_time)
          [build_tool_call_event (al_js L) (call_request_of c) (tc_id c)] s = (Inr (), s1)"
    using commit_total [OF Cons(2,3)] by blast
  have "th_current_turn (rn_thread s1) \<noteq> None"
    using same_frame_turn [of s s1] kept_commit [of tx "build_tool_call_message c at_time" _ s] 1 Cons(3)
    by (metis related_def snd_conv)
  then show ?case using Cons(1) [OF Cons(2), of s1] 1 by (simp add: act_bind_def)
qed

text \<open>A tool turn can only fail while it runs its calls.\<close>

lemma tool_turn_error:
  assumes "tool_turn L tx h tid rep response s = (Inl e, s')" "provider_contract response"
    and "handler_total h" "th_current_turn (rn_thread s) \<noteq> None" "\<not> acc_enabled (al_compact_config L)"
  shows "\<exists>t at_time rs. messages (rn_thread s') = messages (rn_thread s) @ t
           @ map (\<lambda>c. build_tool_call_message c at_time) (lr_tool_calls response) @ rs
     \<and> (\<forall>m \<in> set t. plain_assistant m) \<and> length t \<le> 1 \<and> length rs < length (lr_tool_calls response)
     \<and> list_all2 answers rs (map tc_id (take (length rs) (lr_tool_calls response)))"
proof -
  let ?first = "case lr_message response of
         Some m \<Rightarrow> if trim (msg_content m) \<noteq> []
                   then commit_message tx h m [text_output_event (msg_content m) False] else act_ret ()
       | None \<Rightarrow> act_ret ()"
  let ?clock = "case lr_message response of Some m \<Rightarrow> act_ret (msg_created_at m) | None \<Rightarrow> utc_now L"
  have first: "\<exists>s1 t. ?first s = (Inr (), s1) \<and> messages (rn_thread s1) = messages (rn_thread s) @ t
    \<and> (\<forall>m \<in> set t. plain_assistant m) \<and> length t \<le> 1 \<and> th_current_turn (rn_thread s1) \<noteq> None"
  proof (cases "\<exists>m. lr_message response = Some m \<and> trim (msg_content m) \<noteq> []")
    case True
    then obtain m where m: "lr_message response = Some m" "trim (msg_content m) \<noteq> []" by blast
    obtain s1 where s1: "commit_message tx h m [text_output_event (msg_content m) False] s = (Inr (), s1)"
      using commit_total [OF assms(3,4)] by blast
    have "th_current_turn (rn_thread s1) \<noteq> None"
      using same_frame_turn [of s s1] kept_commit [of tx m "[text_output_event (msg_content m) False]" s] s1 assms(4)
      by (simp add: related_def)
    then show ?thesis
      using commit_appends [OF s1] s1 m assms(2) by (auto simp: provider_contract_def intro!: exI [of _ "[m]"])
  next
    case False
    then have "?first s = (Inr (), s)" by (auto simp: act_ret_def split: option.split)
    then show ?thesis using assms(4) by (intro exI [of _ s] exI [of _ "[]"] conjI) auto
  qed
  then obtain s1 t where 1: "?first s = (Inr (), s1)"
    and t: "messages (rn_thread s1) = messages (rn_thread s) @ t" "\<forall>m \<in> set t. plain_assistant m" "length t \<le> 1"
    and t1: "th_current_turn (rn_thread s1) \<noteq> None" by blast
  have "\<exists>at_time e. ?clock s1 = (Inr at_time, s1\<lparr>rn_env := e\<rparr>)"
  proof (cases "lr_message response")
    case None
    then show ?thesis using utc_now_run [of L s1] by simp
  next
    case (Some m)
    then show ?thesis by (intro exI [of _ "msg_created_at m"] exI [of _ "rn_env s1"]) (simp add: act_ret_def)
  qed
  then obtain at_time e2 where 2: "?clock s1 = (Inr at_time, s1\<lparr>rn_env := e2\<rparr>)" by blast
  have t2: "th_current_turn (rn_thread (s1\<lparr>rn_env := e2\<rparr>)) \<noteq> None" using t1 by simp
  obtain s3 where 3: "commit_tool_calls L tx h at_time (lr_tool_calls response) (s1\<lparr>rn_env := e2\<rparr>) = (Inr (), s3)"
    using commit_tool_calls_total [OF assms(3) t2] by blast
  have t3: "th_current_turn (rn_thread s3) \<noteq> None"
    using same_frame_turn [OF _ t2, of s3] kept.rel_commit_tool_calls [of L tx at_time "lr_tool_calls response" "s1\<lparr>rn_env := e2\<rparr>"] 3
    by (simp add: related_def)
  have "run_tool_calls L tx h tid rep (lr_tool_calls response) s3 = (Inl e, s')"
    using assms(1) unfolding tool_turn_def act_bind_def
    by (simp only: 1 2 3 prod.case sum.case) (auto simp: act_ret_def split: prod.splits sum.splits)
  from run_tool_calls_error [OF this assms(3) t3 assms(5)] obtain rs where
    "messages (rn_thread s') = messages (rn_thread s3) @ rs" "length rs < length (lr_tool_calls response)"
    "list_all2 answers rs (map tc_id (take (length rs) (lr_tool_calls response)))" by blast
  then show ?thesis
    using commit_tool_calls_appends [OF 3] t
    by (intro exI [of _ t] exI [of _ at_time] exI [of _ rs]) simp
qed

end

text \<open>Nothing before the tool calls touches the list of used tools.\<close>

lemma used_frame: "framed m s \<Longrightarrow> ls_used_tool_names (snd (m s)) = ls_used_tool_names (s :: ('e, 'h) loop_state)"
proof -
  assume "framed m s"
  then have "run_state.more (snd (m s)) = run_state.more s" by (simp add: framed_def registry_frame_def)
  then show ?thesis by (cases s, cases "snd (m s)") simp
qed

lemma used_prepare:
  assumes "prepare_request_state L (s :: ('e, 'h) loop_state) = (r, s')"
  shows "ls_used_tool_names s' = ls_used_tool_names s"
proof -
  have b: "ls_used_tool_names s2 = ls_used_tool_names s1"
    if "list_for_context_with_compact v b s1 = (x, s2)" for v b x and s1 s2 :: "('e, 'h) loop_state"
    using used_frame [OF framed_list [of v b s1]] that by simp
  show ?thesis
    using assms
    by (auto simp: prepare_request_state_def act_bind_def act_ret_def Let_def dest!: b split: prod.splits sum.splits if_splits)
qed

context commit_handler_laws
begin

lemma commit_used: "commit_message tx h m es s = (r, s') \<Longrightarrow> ls_used_tool_names s' = ls_used_tool_names s"
  using commit_sel(8) [of tx m es s r s'] commit_message_no_turn [of s tx h m es]
  by (cases "th_current_turn (rn_thread s)") auto

text \<open>A turn body that fails after it has started a tool call failed in its tool turn.\<close>

lemma body_error:
  assumes "turn_body L tx h tid s = (Inl e, s')" "provider_ok L" "ls_used_tool_names s' \<noteq> ls_used_tool_names s"
    and "th_current_turn (rn_thread s) \<noteq> None"
  obtains rep response s3 where "tool_turn L tx h tid rep response s3 = (Inl e, s')"
    "messages (rn_thread s3) = messages (rn_thread s)" "provider_contract response" "lr_tool_calls response \<noteq> []"
    "th_current_turn (rn_thread s3) \<noteq> None"
  using assms(1) [unfolded turn_body_def]
proof (cases rule: act_bind_error)
  case 1
  then show ?thesis using used_prepare assms(3) by blast
next
  case (2 request s1)
  note prep = 2(1)
  have u1: "ls_used_tool_names s1 = ls_used_tool_names s" by (rule used_prepare [OF prep])
  have m1: "messages (rn_thread s1) = messages (rn_thread s)"
    using prep by (rule same_historyD [rotated]) (rule same_prepare)
  have t1: "th_current_turn (rn_thread s1) \<noteq> None"
    using same_frame_turn [of s s1] kept.rel_prepare_request [of L s] prep assms(4) by (simp add: related_def)
  let ?s2 = "s1\<lparr>ls_last_visible_tools := rq_tools request, ls_last_budget_report := Some (rq_budget_report request)\<rparr>"
  from 2(2) have "act_bind (on_env (w_generate (al_world L) \<lparr>lq_messages = rq_messages request, lq_tools = rq_tools request\<rparr>))
     (\<lambda>response. if lr_tool_calls response = [] then answer_turn tx h response
     else tool_turn L tx h tid (rq_budget_report request) response) ?s2 = (Inl e, s')"
    by (simp add: act_bind_def)
  then show ?thesis
  proof (cases rule: act_bind_error)
    case 1
    then obtain en where "s' = ?s2\<lparr>rn_env := en\<rparr>" using on_env_run by blast
    then show ?thesis using assms(3) u1 by simp
  next
    case (2 response s3)
    obtain en where s3: "s3 = ?s2\<lparr>rn_env := en\<rparr>" using on_env_run [OF 2(1)] by blast
    have contract: "provider_contract response"
      using 2(1) assms(2) by (auto simp: on_env_def provider_ok_def split: prod.splits)
    show ?thesis
    proof (cases "lr_tool_calls response = []")
      case True
      with 2(2) have "answer_turn tx h response s3 = (Inl e, s')" by simp
      then have "ls_used_tool_names s' = ls_used_tool_names s3"
        by (auto simp: answer_turn_def act_bind_def act_fail_def act_ret_def dest!: commit_used
            split: option.splits if_splits prod.splits sum.splits)
      then show ?thesis using assms(3) u1 s3 by simp
    next
      case False
      then have "tool_turn L tx h tid (rq_budget_report request) response s3 = (Inl e, s')" using 2(2) by simp
      then show ?thesis by (rule that [OF _ _ contract False]) (use m1 t1 s3 in simp_all)
    qed
  qed
qed

lemma iteration_error:
  assumes "loop_iteration L tx h tid s = (Inr (Some c), s')" "tn_failure_error c \<noteq> None"
    and "\<not> acc_enabled (al_compact_config L)" "provider_ok L" "handler_total h"
    and "ls_used_tool_names s' \<noteq> ls_used_tool_names s" "th_current_turn (rn_thread s) \<noteq> None"
  obtains t at_time cs rs f where
    "messages (rn_thread s') = messages (rn_thread s) @ t @ map (\<lambda>c. build_tool_call_message c at_time) cs @ rs @ [f]"
    "cs \<noteq> []" "length rs < length cs" "list_all2 answers rs (map tc_id (take (length rs) cs))"
    "\<forall>m \<in> set t. plain_assistant m" "length t \<le> 1" "plain_assistant f"
proof -
  obtain pre s1 z s2 en where it: "prepare_request_state L s = (Inr pre, s1)" "turn_body L tx h tid s1 = (z, s2)"
    "(case z of Inr r \<Rightarrow> Some c = (if tl_completed r then Some \<lparr>tn_reply = tl_reply r, tn_failure_error = None\<rparr> else None)
                       \<and> s' = s2\<lparr>rn_env := en\<rparr>
      | Inl error \<Rightarrow> (\<exists>c' at_time. Some c = Some c' \<and> fail_turn tx h at_time error (s2\<lparr>rn_env := en\<rparr>) = (Inr c', s')))"
    by (rule iteration_steps [OF assms(1,3)])
  obtain error at_time where z: "z = Inl error"
    and fl: "fail_turn tx h at_time error (s2\<lparr>rn_env := en\<rparr>) = (Inr c, s')"
    using it(3) assms(2) by (cases z) (auto split: if_splits)
  let ?f = "chat_message_new RoleAssistant (str ''[openjarvis][agent_error] '' @ err_display_alt error) at_time"
  have commit: "commit_message tx h ?f [turn_failure_event (msg_content ?f)] (s2\<lparr>rn_env := en\<rparr>) = (Inr (), s')"
    using fl by (auto simp: fail_turn_def Let_def act_bind_def act_ret_def split: prod.splits sum.splits)
  have m': "messages (rn_thread s') = messages (rn_thread s2) @ [?f]" using commit_appends [OF commit] by simp
  have u: "ls_used_tool_names s1 = ls_used_tool_names s" by (rule used_prepare [OF it(1)])
  have m1: "messages (rn_thread s1) = messages (rn_thread s)"
    using it(1) by (rule same_historyD [rotated]) (rule same_prepare)
  have t1: "th_current_turn (rn_thread s1) \<noteq> None"
    using same_frame_turn [of s s1] kept.rel_prepare_request [of L s] it(1) assms(7) by (simp add: related_def)
  have u2: "ls_used_tool_names s2 \<noteq> ls_used_tool_names s1" using commit_used [OF commit] assms(6) u by simp
  obtain rep response s3 where 3: "tool_turn L tx h tid rep response s3 = (Inl error, s2)"
    "messages (rn_thread s3) = messages (rn_thread s1)" "provider_contract response" "lr_tool_calls response \<noteq> []"
    "th_current_turn (rn_thread s3) \<noteq> None"
    by (rule body_error [OF it(2) [unfolded z] assms(4) u2 t1])
  obtain t call_time rs where "messages (rn_thread s2) = messages (rn_thread s3) @ t
           @ map (\<lambda>c. build_tool_call_message c call_time) (lr_tool_calls response) @ rs"
    "\<forall>m \<in> set t. plain_assistant m" "length t \<le> 1" "length rs < length (lr_tool_calls response)"
    "list_all2 answers rs (map tc_id (take (length rs) (lr_tool_calls response)))"
    using tool_turn_error [OF 3(1,3) assms(5) 3(5) assms(3)] by blast
  then show ?thesis
    using that [of t call_time "lr_tool_calls response" rs ?f] m' m1 3(2,4) by (simp add: plain_assistant_def)
qed

end

text \<open>
  C18: a hook that fails after the tool calls of a message were committed leaves a history that no further message
  can repair. With compaction off, a provider whose messages are plain assistant messages, and a commit handler that
  returns, does not fail and leaves the thread alone: an iteration of an open turn, on a history that does not end in
  an assistant message or a tool call, that fails after it has started a tool call (only a failing hook can do that)
  has committed calls it never answered, followed by the failure message, and whatever messages are appended to this
  history, the provider does not accept the result. What takes messages out of it again, a compaction or /clear, is
  not covered.
\<close>
theorem failing_hook_orphans_tool_calls:
  assumes "handler_preserves h" "handler_total h" "\<not> acc_enabled (al_compact_config L)" "provider_ok L"
    and "loop_iteration L tx h tid s = (Inr (Some c), s')" "tn_failure_error c \<noteq> None"
    and "ls_used_tool_names s' \<noteq> ls_used_tool_names s" "th_current_turn (rn_thread s) \<noteq> None"
    and "messages (rn_thread s) \<noteq> []" "msg_role (last (messages (rn_thread s))) \<notin> {RoleAssistant, RoleToolcall}"
  shows "\<not> history_ok js now (messages (rn_thread s') @ later)"
proof -
  have laws: "commit_handler_laws h" by unfold_locales (rule assms(1))
  obtain t at_time cs rs f where o:
    "messages (rn_thread s') = messages (rn_thread s) @ t @ map (\<lambda>c. build_tool_call_message c at_time) cs @ rs @ [f]"
    "cs \<noteq> []" "length rs < length cs" "list_all2 answers rs (map tc_id (take (length rs) cs))"
    "\<forall>m \<in> set t. plain_assistant m" "length t \<le> 1" "plain_assistant f"
    by (rule commit_handler_laws.iteration_error [OF laws assms(5,6,3,4,2,7,8)])
  have "closes_batch (last (messages (rn_thread s)))" using assms(10) by (simp add: closes_batch_def)
  from unanswered_call_refused [OF assms(9) this o(2,4,3,5,6,7)] show ?thesis
    by (simp add: o(1))
qed

definition guarded_loop :: "llm_response list agent_loop" where
  "guarded_loop = script_loop\<lparr>al_hooks := [\<lparr>hh_name = str ''guard'',
     hh_handle = (\<lambda>ev. if he_kind ev = HookPreToolUse then act_fail (bail (str ''denied'')) else act_ret ())\<rparr>]\<rparr>"

lemma guarded_sel [simp]:
  "al_world guarded_loop = al_world script_loop" "al_tools guarded_loop = al_tools script_loop"
  "al_compact_config guarded_loop = al_compact_config script_loop" "al_js guarded_loop = al_js script_loop"
  "prepare_request_state guarded_loop = prepare_request_state script_loop"
  "utc_now guarded_loop = utc_now script_loop"
  by (simp_all add: guarded_loop_def prepare_request_state_def auto_compact_enabled_for_thread_def
      estimate_request_def utc_now_def cong: if_cong)

lemma guarded_emit: "emit guarded_loop HookPreToolUse p s = (Inl (bail (str ''denied'')), s)"
  by (simp add: emit_def guarded_loop_def on_env_def act_bind_def act_fail_def)

lemma guarded_iteration:
  assumes "rn_registry s = script_registry" "load_toolsets (rn_thread s) = []"
    "rn_env s = [demo_call_response ''read'']" "th_current_turn (rn_thread s) = Some turn"
  obtains c s' where "loop_iteration guarded_loop tx recording_handler tid s = (Inr (Some c), s')"
    "tn_failure_error c \<noteq> None" "ls_used_tool_names s' = ls_used_tool_names s @ [str ''read'']"
proof -
  obtain tools rep where req: "prepare_request_state script_loop s
      = (Inr \<lparr>rq_messages = messages (rn_thread s), rq_tools = tools, rq_budget_report = rep\<rparr>, s)"
    by (rule script_request [OF assms(1,2)])
  let ?call = "\<lparr>tc_id = str ''c1'', tc_name = str ''read'', tc_arguments = JNull\<rparr>"
  define s1 where "s1 = s\<lparr>ls_last_visible_tools := tools, ls_last_budget_report := Some rep, rn_env := []\<rparr>"
  have t1: "th_current_turn (rn_thread s1) = Some turn" by (simp add: s1_def assms(4))
  obtain s2 where s2: "commit_message tx recording_handler (build_tool_call_message ?call 9)
      [build_tool_call_event (al_js script_loop) \<lparr>rq_name = str ''read'', rq_arguments = JNull\<rparr> (str ''c1'')] s1
      = (Inr (), s2)"
    using recording_commit [OF t1] by blast
  have u2: "ls_used_tool_names s2 = ls_used_tool_names s" using recording.commit_used [OF s2] by (simp add: s1_def)
  have t2: "th_current_turn (rn_thread s2) \<noteq> None" using recording.commit_sel(2) [OF s2 t1] by simp
  let ?s3 = "s2\<lparr>ls_used_tool_names := ls_used_tool_names s2 @ [str ''read'']\<rparr>"
  have resp: "lr_message (demo_call_response ''read'') = None" "lr_tool_calls (demo_call_response ''read'') = [?call]"
    by (simp_all add: demo_call_response_def)
  have "tool_turn guarded_loop tx recording_handler tid rep (demo_call_response ''read'') s1
      = (Inl (bail (str ''denied'')), ?s3)"
    by (simp add: tool_turn_def act_bind_def act_ret_def resp script_now s2 run_tool_call_def guarded_emit
        call_request_of_def [of ?call] Let_def)
  moreover have "on_env (w_generate (al_world script_loop) q)
      (s\<lparr>ls_last_visible_tools := tools, ls_last_budget_report := Some rep\<rparr>) = (Inr (demo_call_response ''read''), s1)" for q
    using assms(3) by (simp add: script_generate s1_def)
  ultimately have body: "turn_body guarded_loop tx recording_handler tid s = (Inl (bail (str ''denied'')), ?s3)"
    by (simp add: turn_body_def act_bind_def req resp)
  have t3: "th_current_turn (rn_thread ?s3) \<noteq> None" using t2 by simp
  let ?reply = "str ''[openjarvis][agent_error] '' @ err_display_alt (bail (str ''denied''))"
  obtain s4 where s4: "commit_message tx recording_handler (chat_message_new RoleAssistant ?reply 9)
      [turn_failure_event ?reply] ?s3 = (Inr (), s4)"
    using recording_commit t3 by blast
  show ?thesis
  proof (rule that)
    show "loop_iteration guarded_loop tx recording_handler tid s
      = (Inr (Some \<lparr>tn_reply = ?reply, tn_failure_error = Some (err_display_alt (bail (str ''denied'')))\<rparr>), s4)"
      using s4 by (simp add: loop_iteration_def act_bind_def req with_thread_def should_runtime_compact_def
          script_loop_def [THEN arg_cong, of "\<lambda>l. acc_enabled (al_compact_config l)", simplified] act_ret_def
          act_try_def body script_now fail_turn_def Let_def)
    show "ls_used_tool_names s4 = ls_used_tool_names s @ [str ''read'']"
      using recording.commit_used [OF s4] u2 by simp
  qed simp
qed

theorem failing_hook_orphans_tool_calls_witness:
  "\<exists>c s s'. loop_iteration guarded_loop demo_sender recording_handler [2] s = (Inr (Some c), s')
     \<and> \<not> history_ok (\<lambda>_. []) 0 (messages (rn_thread s') @ [incoming_chat_message demo_incoming])"
proof -
  let ?m = "incoming_chat_message demo_incoming"
  obtain s1 where b: "begin_run script_loop demo_sender recording_handler ?m None
      (script_state [demo_call_response ''read'']) = (Inr [2], s1)"
    "rn_env s1 = [demo_call_response ''read'']" "rn_registry s1 = script_registry" "load_toolsets (rn_thread s1) = []"
    "th_current_turn (rn_thread s1) \<noteq> None"
    by (rule script_begin)
  have ms: "messages (rn_thread s1) \<noteq> []" "msg_role (last (messages (rn_thread s1))) \<notin> {RoleAssistant, RoleToolcall}"
    using recording.begin_run_turn(1) [OF b(1)] by (simp_all add: incoming_chat_message_def)
  obtain turn where turn: "th_current_turn (rn_thread s1) = Some turn" using b(5) by blast
  obtain c s' where it: "loop_iteration guarded_loop demo_sender recording_handler [2] s1 = (Inr (Some c), s')"
    "tn_failure_error c \<noteq> None" "ls_used_tool_names s' = ls_used_tool_names s1 @ [str ''read'']"
    by (rule guarded_iteration [OF b(3,4,2) turn])
  have used: "ls_used_tool_names s' \<noteq> ls_used_tool_names s1" using it(3) by simp
  have off: "\<not> acc_enabled (al_compact_config guarded_loop)" by (simp, simp add: script_loop_def)
  have prov: "provider_ok guarded_loop" using script_provider_ok by (simp add: provider_ok_def)
  have total: "handler_total recording_handler" by (simp add: handler_total_def recording_handler_def)
  show ?thesis
    using it(1) failing_hook_orphans_tool_calls
      [OF recording.handler_preserves total off prov it(1,2) used b(5) ms, of "\<lambda>_. []" 0 "[?m]"] by blast
qed

section \<open>A compaction the model asks for\<close>

text \<open>A compaction leaves the history as it is, or the system messages and the two of its summary.\<close>

definition rewritten :: "('e, 'h) loop_state \<Rightarrow> ('e, 'h) loop_state \<Rightarrow> bool" where
  "rewritten s s' \<longleftrightarrow> messages (rn_thread s') = messages (rn_thread s)
     \<or> (\<exists>summary at_time. messages (rn_thread s')
          = filter is_system (messages (rn_thread s)) @ build_compacted_messages summary at_time)"

interpretation rewrite_order: action_preorder rewritten
proof unfold_locales
  show "rewritten s s" for s :: "('a, 'b) loop_state" by (simp add: rewritten_def)
next
  fix s s' s'' :: "('a, 'b) loop_state"
  assume "rewritten s s'" "rewritten s' s''"
  then show "rewritten s s''" unfolding rewritten_def by (elim disjE exE) (auto simp: build_compacted_messages_props)
qed

lemma same_rewritten: "related same_history m s \<Longrightarrow> related rewritten m s"
  by (simp add: related_def same_history_def rewritten_def)

lemma rewritten_compaction: "related rewritten (execute_turn_compaction L tid reason b i rep) s"
proof -
  have replace: "related rewritten (on_thread (replace_messages_after_compaction at_time (build_compacted_messages sm ct))) s"
    for at_time sm ct and s :: "('a, 'b) loop_state"
    by (auto simp: related_def on_thread_def rewritten_def compaction_sel(1) split: sum.split)
  have buffer: "related rewritten (on_thread (buffer_turn_event ev)) s" for ev and s :: "('a, 'b) loop_state"
    by (rule same_rewritten [OF same_buffer])
  have env: "related rewritten (on_env m) s" for m :: "('a, 'c) act" and s :: "('a, 'b) loop_state"
    by (rule same_rewritten [OF same_env])
  have compacted: "related rewritten (act_bind (on_env (compact_messages p ms at_time)) (\<lambda>outcome.
       case outcome of
         None \<Rightarrow> act_ret None
       | Some o' \<Rightarrow>
           act_bind (if mo_compacted_messages o' = [] then utc_now L else act_ret at_time) (\<lambda>replaced_at.
           act_bind (on_thread (replace_messages_after_compaction replaced_at (mo_compacted_messages o'))) (\<lambda>_.
           act_bind (on_thread (buffer_turn_event
             (build_compact_event reason b False rep (Some o') i None))) (\<lambda>_.
           act_ret (Some o')))))) s" for p ms at_time and s :: "('a, 'b) loop_state"
  proof -
    obtain q e where q: "compact_messages p ms at_time (rn_env s) = (q, e)" by fastforce
    show ?thesis
    proof (cases "\<exists>o'. q = Inr (Some o')")
      case True
      then obtain o' where o': "q = Inr (Some o')" by blast
      then have shape: "mo_compacted_messages o' = build_compacted_messages (mo_summary o') at_time"
        using q by (auto simp: compact_messages_cases Let_def split: if_splits prod.splits sum.splits)
      have "related rewritten (act_bind (if mo_compacted_messages o' = [] then utc_now L else act_ret at_time) (\<lambda>replaced_at.
           act_bind (on_thread (replace_messages_after_compaction replaced_at (mo_compacted_messages o'))) (\<lambda>_.
           act_bind (on_thread (buffer_turn_event
             (build_compact_event reason b False rep (Some o') i None))) (\<lambda>_.
           act_ret (Some o'))))) (s\<lparr>rn_env := e\<rparr>)"
        unfolding shape by (simp add: build_compacted_messages_def [of "mo_summary o'" at_time])
          (intro rewrite_order.rel_bind rewrite_order.rel_ret buffer
            replace [unfolded build_compacted_messages_def])
      then show ?thesis
        by (simp add: related_def act_bind_def [of "on_env m" for m] on_env_def q o' rewritten_def)
    next
      case False
      then show ?thesis
        by (cases q) (auto simp: related_def act_bind_def on_env_def q act_ret_def rewritten_def split: option.split)
    qed
  qed
  show ?thesis
    unfolding execute_turn_compaction_def emit_def utc_now_def [of L]
    by (auto intro!: rel_with_thread rewrite_order.rel_bind rewrite_order.rel_ret env buffer
        compacted [unfolded utc_now_def])
qed

lemma rewritten_model_compact: "related rewritten (handle_model_requested_compact L tid q i rep) s"
proof -
  have env: "related rewritten (on_env m) s" for m :: "('a, 'c) act" and s :: "('a, 'b) loop_state"
    by (rule same_rewritten [OF same_env])
  have failed: "related rewritten (compact_failed L q i rep msg) s" for msg and s :: "('a, 'b) loop_state"
    by (rule same_rewritten [OF same_compact_failed])
  have recorded: "related rewritten (on_thread (\<lambda>t. Inr (record_tool_event ev t))) s" for ev and s :: "('a, 'b) loop_state"
    by (rule same_rewritten [OF same_record])
  show ?thesis
    unfolding handle_model_requested_compact_def emit_def utc_now_def new_uuid_def
    by (auto intro!: rewrite_order.rel_try rewritten_compaction failed rewrite_order.rel_bind rel_with_thread env recorded
        rewrite_order.rel_ret split: sum.split)
qed

lemma serialize_systems:
  "list_all is_system ms \<Longrightarrow> serialize_openai_messages js now (ms @ b) acc
     = serialize_openai_messages js now b (acc @ map (\<lambda>m. OaSystem (msg_content m)) ms)"
  by (induction ms arbitrary: acc) (simp_all add: serialize_step serialize_context_message_def)

lemma orphan_result_refused:
  assumes "list_all is_system ms" "answers r i"
  shows "\<not> history_ok js now (ms @ build_compacted_messages sm at_time @ r # later)"
proof
  assume ok: "history_ok js now (ms @ build_compacted_messages sm at_time @ r # later)"
  let ?head = "map (\<lambda>m. OaSystem (msg_content m)) ms @ [OaAssistant (if trim (COMPACTED_ASSISTANT_PREFIX @ compacted_assistant sm) \<noteq> []
     then Some (COMPACTED_ASSISTANT_PREFIX @ compacted_assistant sm) else None) [], OaUser COMPACTED_USER_CONTINUE_MESSAGE, OaTool (msg_content r) i]"
  have "serialize_openai_messages js now (ms @ build_compacted_messages sm at_time @ r # later) []
      = serialize_openai_messages js now later ?head"
    using assms(2) by (simp add: serialize_systems [OF assms(1)] build_compacted_messages_def serialize_step
        serialize_context_message_def serialize_assistant_message_def answers_def)
  moreover have "serialize_openai_messages js now later ?head
      = (case serialize_openai_messages js now later [] of Inl e \<Rightarrow> Inl e | Inr x \<Rightarrow> Inr (?head @ x))"
    by (rule serialize_acc)
  ultimately obtain zs where "openai_accepts [] (?head @ zs)"
    using ok unfolding history_ok_def by (auto split: sum.splits)
  moreover have "\<not> openai_accepts [] (map (\<lambda>m. OaSystem (msg_content m)) ms @ OaAssistant w [] # OaUser x # OaTool y i # zs)" for w x y
    by (induction ms) simp_all
  ultimately show False by simp
qed

text \<open>
  A compaction that the model asked for orphans its own result. Whenever the compact tool call goes
  through and rewrites the history, the message that made the call is gone, its result is appended all
  the same, and the provider never accepts the history again, whatever follows.
\<close>
theorem model_compaction_orphans_its_result:
  assumes "handler_preserves h" "tc_name c = str ''compact''"
    and "run_tool_call L tx h tid rep c s = (Inr u, s')"
    and "butlast (messages (rn_thread s')) \<noteq> messages (rn_thread s)"
  shows "\<not> history_ok js now (messages (rn_thread s') @ later)"
proof -
  have laws: "commit_handler_laws h" by unfold_locales (rule assms(1))
  let ?q = "call_request_of c"
  let ?pay = "JObj [(str ''tool'', JStr (rq_name ?q)), (str ''arguments'', rq_arguments ?q), (str ''tool_call_id'', JStr (tc_id c))]"
  obtain u1 s1 u2 s2 result s3 created_at s4 where
    1: "(Inr (), s\<lparr>ls_used_tool_names := ls_used_tool_names s @ [rq_name ?q]\<rparr>) = (Inr u1 :: err + unit, s1)"
    and 2: "emit L HookPreToolUse ?pay s1 = (Inr u2, s2)"
    and 3: "(if rq_name ?q = str ''compact''
                then handle_model_requested_compact L tid ?q (tc_id c) rep
                else run_registry_tool L ?q (tc_id c)) s2 = (Inr result, s3)"
    and 4: "utc_now L s3 = (Inr created_at, s4)"
    and 5: "commit_message tx h
        (with_tool_call_id (chat_message_new RoleToolResult
           (format_tool_result_content (rs_content result) (rs_is_error result)) created_at) (tc_id c))
        [build_tool_result_event ?q (tc_id c) result] s4 = (Inr u, s')"
    using assms(3) unfolding run_tool_call_def Let_def by (elim act_bindE)
  let ?r = "with_tool_call_id (chat_message_new RoleToolResult
           (format_tool_result_content (rs_content result) (rs_is_error result)) created_at) (tc_id c)"
  have m2: "messages (rn_thread s2) = messages (rn_thread s)"
    using 1 2 same_env [of "hook_emit (al_hooks L) \<lparr>he_kind = HookPreToolUse, he_payload = ?pay\<rparr>" s1]
    by (auto simp: emit_def related_def same_history_def)
  have m4: "messages (rn_thread s4) = messages (rn_thread s3)"
    using 4 by (rule same_historyD [rotated]) (simp add: utc_now_def same_env)
  have m': "messages (rn_thread s') = messages (rn_thread s3) @ [?r]"
    using commit_handler_laws.commit_appends [OF laws 5] m4 by simp
  have "handle_model_requested_compact L tid ?q (tc_id c) rep s2 = (Inr result, s3)"
    using 3 assms(2) by (simp add: call_request_of_def)
  then have "rewritten s2 s3" using rewritten_model_compact [of L tid ?q "tc_id c" rep s2] by (simp add: related_def)
  then obtain sm at_time where "messages (rn_thread s3) = filter is_system (messages (rn_thread s)) @ build_compacted_messages sm at_time"
    using assms(4) m' m2 by (auto simp: rewritten_def)
  moreover have "list_all is_system (filter is_system (messages (rn_thread s)))" by (simp add: list_all_iff)
  moreover have "answers ?r (tc_id c)" by (simp add: answers_def with_tool_call_id_def)
  ultimately show ?thesis
    using orphan_result_refused [of "filter is_system (messages (rn_thread s))" ?r "tc_id c" js now sm at_time later] m'
    by simp
qed

text \<open>A concrete compaction: a static summary of one user message behind a system message.\<close>

definition compacting_loop :: "llm_response list agent_loop" where
  "compacting_loop = script_loop\<lparr>al_compact_config := demo_compact_config\<rparr>"

lemma compacting_simps [simp]:
  "emit compacting_loop k p s = (Inr (), s)" "utc_now compacting_loop s = (Inr 9, s)" "new_uuid compacting_loop s = (Inr 7, s)"
  "acc_enabled (al_compact_config compacting_loop)"
  "al_compact_provider compacting_loop = static_compact_provider demo_summary"
  by (simp_all add: compacting_loop_def emit_def script_loop_def on_env_def act_ret_def utc_now_def act_now_def
      script_world_def new_uuid_def act_uuid_def demo_compact_config_def)

lemma demo_compaction:
  "compact_messages (static_compact_provider demo_summary) [demo_system_message, demo_user_message] at_time e
     = (Inr (Some \<lparr>mo_source_message_count = 1, mo_summary = demo_summary,
          mo_compacted_messages = build_compacted_messages demo_summary at_time\<rparr>), e)"
proof -
  have "trim (str ''sum'') = str ''sum''" by (rule trim_word) (simp add: str_def is_whitespace_def)
  then show ?thesis
    by (simp add: compact_messages_cases static_compact_provider_def demo_summary_def demo_system_message_def
        demo_user_message_def validate_summary_def act_lift_def act_ret_def)
qed

lemma compacting_handle:
  assumes "th_current_turn (rn_thread s) = Some turn" "messages (rn_thread s) = [demo_system_message, demo_user_message]"
  obtains result t3 where "handle_model_requested_compact compacting_loop tid q i rep s = (Inr result, s\<lparr>rn_thread := t3\<rparr>)"
    "length (messages t3) = 3" "th_current_turn t3 \<noteq> None"
proof -
  let ?out = "\<lparr>mo_source_message_count = 1, mo_summary = demo_summary,
          mo_compacted_messages = build_compacted_messages demo_summary 9\<rparr>"
  have open_turn: "current_turn_mut (rn_thread s) = Inr turn" by (simp add: current_turn_mut_def assms(1))
  obtain t1 where t1: "replace_messages_after_compaction 9 (build_compacted_messages demo_summary 9) (rn_thread s) = Inr t1"
    by (simp add: replace_messages_after_compaction_def open_turn Let_def)
  have c1: "th_current_turn t1 = Some turn" using compaction_sel(2) [OF t1] assms(1) by simp
  have m1: "length (messages t1) = 3"
    using compaction_sel(1) [OF t1]
    by (simp add: assms(2) build_compacted_messages_props demo_system_message_def demo_user_message_def)
  have built: "build_compacted_messages demo_summary 9 \<noteq> []" by (simp add: build_compacted_messages_def)
  define ev where "ev = build_compact_event (str ''tool_requested'') True False rep (Some ?out) (Some i) None"
  obtain t2 where t2: "buffer_turn_event ev t1 = Inr t2"
    by (simp add: buffer_turn_event_def current_turn_mut_def c1)
  have open2: "th_current_turn t2 \<noteq> None"
    using t2 c1 by (auto simp: buffer_turn_event_def current_turn_mut_def)
  have "execute_turn_compaction compacting_loop tid (str ''tool_requested'') True (Some i) rep s
      = (Inr (Some ?out), s\<lparr>rn_thread := t2\<rparr>)"
    using t1 t2 built
    by (simp add: execute_turn_compaction_def with_thread_def assms(2) act_bind_def on_env_def demo_compaction
        on_thread_def ev_def act_ret_def)
  then have "\<exists>result ev2. handle_model_requested_compact compacting_loop tid q i rep s
      = (Inr result, s\<lparr>rn_thread := record_tool_event ev2 t2\<rparr>)"
    by (simp add: handle_model_requested_compact_def act_try_def act_bind_def with_thread_def on_thread_def act_ret_def) blast
  then obtain result ev2 where "handle_model_requested_compact compacting_loop tid q i rep s
      = (Inr result, s\<lparr>rn_thread := record_tool_event ev2 t2\<rparr>)" by blast
  then show ?thesis
    by (rule that) (use m1 open2 buffer_turn_event_sel(1) [OF t2] turn_key_record [of ev2 t2] in
      \<open>simp_all add: turn_key_None [symmetric] del: turn_key_None\<close>)
qed

theorem model_compaction_orphans_its_result_witness:
  "\<exists>s s' u. run_tool_call compacting_loop demo_sender recording_handler [2] (estimate_request compacting_loop [] [])
        \<lparr>tc_id = str ''c1'', tc_name = str ''compact'', tc_arguments = JNull\<rparr> s = (Inr u, s')
     \<and> \<not> history_ok (\<lambda>_. []) 0 (messages (rn_thread s') @ [demo_user_message])"
proof -
  let ?c = "\<lparr>tc_id = str ''c1'', tc_name = str ''compact'', tc_arguments = JNull\<rparr>"
  let ?rep = "estimate_request compacting_loop [] []"
  let ?s = "script_state []\<lparr>rn_thread := demo_history_thread\<rparr>"
  let ?s1 = "?s\<lparr>ls_used_tool_names := ls_used_tool_names ?s @ [str ''compact'']\<rparr>"
  obtain turn where t: "th_current_turn demo_history_thread = Some turn" using demo_history_thread_sel(2) by blast
  obtain result t3 where 3: "handle_model_requested_compact compacting_loop [2] (call_request_of ?c) (str ''c1'') ?rep ?s1
      = (Inr result, ?s1\<lparr>rn_thread := t3\<rparr>)" "length (messages t3) = 3" "th_current_turn t3 \<noteq> None"
    by (rule compacting_handle [of ?s1 turn]) (simp_all add: t demo_history_thread_sel(1))
  have handle: "handle_model_requested_compact compacting_loop [2] \<lparr>rq_name = str ''compact'', rq_arguments = JNull\<rparr> (str ''c1'') ?rep ?s1
      = (Inr result, ?s1\<lparr>rn_thread := t3\<rparr>)"
    using 3(1) by (simp add: call_request_of_def)
  let ?r = "with_tool_call_id (chat_message_new RoleToolResult
           (format_tool_result_content (rs_content result) (rs_is_error result)) 9) (str ''c1'')"
  obtain turn3 where turn3: "th_current_turn (rn_thread (?s1\<lparr>rn_thread := t3\<rparr>)) = Some turn3" using 3(3) by auto
  obtain s' where s': "commit_message demo_sender recording_handler ?r
      [build_tool_result_event \<lparr>rq_name = str ''compact'', rq_arguments = JNull\<rparr> (str ''c1'') result]
      (?s1\<lparr>rn_thread := t3\<rparr>) = (Inr (), s')"
    using recording_commit [OF turn3] by blast
  have run: "run_tool_call compacting_loop demo_sender recording_handler [2] ?rep ?c ?s = (Inr (), s')"
    using handle s' by (simp add: run_tool_call_def act_bind_def call_request_of_def Let_def)
  have "messages (rn_thread s') = messages t3 @ [?r]" using recording.commit_appends [OF s'] by simp
  then have "butlast (messages (rn_thread s')) \<noteq> messages (rn_thread ?s)"
    using 3(2) demo_history_thread_sel(1) by auto
  from model_compaction_orphans_its_result [OF recording.handler_preserves _ run this, of "\<lambda>_. []" 0 "[demo_user_message]"] run
  show ?thesis by auto
qed

section \<open>A provider that fails\<close>

lemma emit_no_hooks: "al_hooks L = [] \<Longrightarrow> emit L k p s = (Inr (), s)"
  by (simp add: emit_def on_env_def act_ret_def)

lemma list_no_toolsets:
  assumes "load_toolsets (rn_thread s) = []"
  obtains ds :: "tool_definition list" where "list_for_context_with_compact v b s = (Inr ds, s)"
  by (rule list_for_context_static_run [of s v b]) (simp_all add: assms)

lemma prepare_no_toolsets:
  assumes "load_toolsets (rn_thread s) = []"
  obtains request where "prepare_request_state L s = (Inr request, s)"
proof -
  obtain ds ds' :: "tool_definition list" where
    "list_for_context_with_compact (al_tools L) False s = (Inr ds, s)"
    "list_for_context_with_compact (al_tools L) True s = (Inr ds', s)"
    by (metis list_no_toolsets [OF assms])
  then have "\<exists>request. prepare_request_state L s = (Inr request, s)"
    by (cases "auto_compact_enabled_for_thread L (rn_thread s)
        \<and> compact_tool_visible (al_compact_config L) (estimate_request L (messages (rn_thread s)) ds)")
      (simp_all add: prepare_request_state_def act_bind_def Let_def act_ret_def)
  then show ?thesis using that by blast
qed

context commit_handler_laws
begin

lemma begin_run_ok:
  assumes "al_hooks L = []" "handler_total h" "th_current_turn (rn_thread s) = None"
    and "register_builtin_tools (al_tools L) s = (Inr (), s0)"
  obtains s1 where "begin_run L tx h m x s = (Inr (tcl_thread_id (th_locator (rn_thread s))), s1)"
proof -
  obtain g e where s0: "s0 = s\<lparr>rn_registry := g, rn_env := e\<rparr>" using register_builtin_tools_run [OF assms(4)] by blast
  let ?s1 = "s0\<lparr>ls_used_tool_names := [], ls_last_visible_tools := [], ls_last_budget_report := None,
      ls_reply_to_source := True\<rparr>"
  obtain u e' where uuid: "new_uuid L ?s1 = (Inr u, ?s1\<lparr>rn_env := e'\<rparr>)" using new_uuid_run [of L ?s1] by blast
  obtain t where t: "begin_turn u x (msg_created_at m) (rn_thread s) = Inr t" "th_current_turn t \<noteq> None"
    using assms(3) by (auto simp: begin_turn_def open_turn_def thread_current_turn_new_def Let_def)
  let ?s2 = "?s1\<lparr>rn_env := e', rn_thread := t\<rparr>"
  have "th_current_turn (rn_thread ?s2) \<noteq> None" using t(2) by simp
  then obtain s3 where "commit_message tx h m [] ?s2 = (Inr (), s3)" using commit_total [OF assms(2)] by blast
  then show ?thesis
    using uuid t(1)
    by (intro that [of s3]) (simp add: begin_run_def prepare_thread_runtime_def act_bind_def assms(4) with_thread_def
        act_ret_def emit_no_hooks [OF assms(1)] on_thread_def s0)
qed

lemma failing_iteration:
  assumes "handler_total h" "\<not> acc_enabled (al_compact_config L)"
    and "\<And>request e. \<exists>e'. w_generate (al_world L) request e = (Inl err, e')"
    and "load_toolsets (rn_thread s) = []" "th_current_turn (rn_thread s) \<noteq> None"
  obtains s' at_time where "loop_iteration L tx h tid s
      = (Inr (Some \<lparr>tn_reply = str ''[openjarvis][agent_error] '' @ err_display_alt err,
                    tn_failure_error = Some (err_display_alt err)\<rparr>), s')"
    "messages (rn_thread s') = messages (rn_thread s)
       @ [chat_message_new RoleAssistant (str ''[openjarvis][agent_error] '' @ err_display_alt err) at_time]"
    "th_current_turn (rn_thread s') \<noteq> None"
proof -
  obtain request where prep: "prepare_request_state L s = (Inr request, s)" by (rule prepare_no_toolsets [OF assms(4)])
  let ?s1 = "s\<lparr>ls_last_visible_tools := rq_tools request, ls_last_budget_report := Some (rq_budget_report request)\<rparr>"
  obtain e1 where gen: "w_generate (al_world L) \<lparr>lq_messages = rq_messages request, lq_tools = rq_tools request\<rparr> (rn_env s)
      = (Inl err, e1)" using assms(3) by blast
  have body: "turn_body L tx h tid s = (Inl err, ?s1\<lparr>rn_env := e1\<rparr>)"
    by (simp add: turn_body_def act_bind_def prep on_env_def gen)
  obtain at_time e2 where now: "utc_now L (?s1\<lparr>rn_env := e1\<rparr>) = (Inr at_time, ?s1\<lparr>rn_env := e2\<rparr>)"
    using utc_now_run [of L "?s1\<lparr>rn_env := e1\<rparr>"] by auto
  let ?reply = "str ''[openjarvis][agent_error] '' @ err_display_alt err"
  have turn: "th_current_turn (rn_thread (?s1\<lparr>rn_env := e2\<rparr>)) \<noteq> None" using assms(5) by simp
  obtain s' where s': "commit_message tx h (chat_message_new RoleAssistant ?reply at_time) [turn_failure_event ?reply]
      (?s1\<lparr>rn_env := e2\<rparr>) = (Inr (), s')"
    using commit_total [OF assms(1) turn] by blast
  have "th_current_turn (rn_thread s') \<noteq> None"
    using same_frame_turn [OF _ turn, of s'] kept_commit [of tx _ _ "?s1\<lparr>rn_env := e2\<rparr>"] s'
    by (metis related_def snd_conv)
  moreover have "loop_iteration L tx h tid s = (Inr (Some \<lparr>tn_reply = ?reply, tn_failure_error = Some (err_display_alt err)\<rparr>), s')"
    using assms(2) now s'
    by (simp add: loop_iteration_def act_bind_def prep with_thread_def should_runtime_compact_def act_ret_def act_try_def
        body fail_turn_def Let_def)
  ultimately show ?thesis using that commit_appends [OF s'] by simp
qed

end

lemma finish_run_ok:
  assumes "al_hooks L = []" "th_current_turn (rn_thread s) \<noteq> None"
  obtains out s' completed_at turn where "finish_run L c s = (Inr out, s')"
    "finalize_run c completed_at (rn_thread s) = Inr (turn, rn_thread s')"
    "ao_reply out = tn_reply c" "ao_turns out = [\<lparr>ca_turn = turn\<rparr>]"
proof -
  obtain completed_at e where now: "utc_now L s = (Inr completed_at, s\<lparr>rn_env := e\<rparr>)" using utc_now_run [of L s] by blast
  obtain turn t where f: "finalize_run c completed_at (rn_thread s) = Inr (turn, t)"
    using finalize_run_total [OF assms(2)] by blast
  obtain out where "finish_run L c s = (Inr out, s\<lparr>rn_env := e, rn_thread := t\<rparr>)"
    "ao_reply out = tn_reply c" "ao_turns out = [\<lparr>ca_turn = turn\<rparr>]"
    by (simp add: finish_run_def act_bind_def now f emit_no_hooks [OF assms(1)] act_ret_def)
  then show ?thesis using that f by simp
qed

text \<open>
  A provider that fails is answered for. Whatever the provider fails with, a run without hooks and
  loaded toolsets returns: the reply and the committed answer carry the error, the turn is finalized as
  failed, and the thread keeps its history, the incoming message and that answer, with no turn left open.
\<close>
theorem provider_failure_becomes_the_reply:
  assumes "handler_preserves h" "handler_total h" "al_hooks L = []" "\<not> acc_enabled (al_compact_config L)"
    and "\<And>request e. \<exists>e'. w_generate (al_world L) request e = (Inl err, e')"
    and "register_builtin_tools (al_tools L) s = (Inr (), s0)"
    and "load_toolsets (rn_thread s) = []" "th_current_turn (rn_thread s) = None"
  shows "\<exists>out s' turn at_time. run_locked_thread L tx incoming h s = Some (Inr out, s')
    \<and> ao_reply out = str ''[openjarvis][agent_error] '' @ err_display_alt err
    \<and> ao_turns out = [\<lparr>ca_turn = turn\<rparr>] \<and> ft_status turn = Failed (err_display_alt err)
    \<and> messages (rn_thread s') = messages (rn_thread s)
        @ [incoming_chat_message incoming, chat_message_new RoleAssistant (ao_reply out) at_time]
    \<and> th_current_turn (rn_thread s') = None"
proof -
  have laws: "commit_handler_laws h" by unfold_locales (rule assms(1))
  let ?tid = "tcl_thread_id (th_locator (rn_thread s))"
  let ?c = "\<lparr>tn_reply = str ''[openjarvis][agent_error] '' @ err_display_alt err,
                    tn_failure_error = Some (err_display_alt err)\<rparr>"
  obtain s1 where b: "begin_run L tx h (incoming_chat_message incoming) (im_external_message_id incoming) s
      = (Inr ?tid, s1)"
    by (rule commit_handler_laws.begin_run_ok [OF laws assms(3,2,8,6)])
  note b1 = commit_handler_laws.begin_run_turn [OF laws b]
  have ts: "load_toolsets (rn_thread s1) = []" using b1(6) assms(7) by simp
  have open1: "th_current_turn (rn_thread s1) \<noteq> None" using b1(3) by auto
  obtain s2 at_time where it: "loop_iteration L tx h ?tid s1 = (Inr (Some ?c), s2)"
    "messages (rn_thread s2) = messages (rn_thread s1)
       @ [chat_message_new RoleAssistant (str ''[openjarvis][agent_error] '' @ err_display_alt err) at_time]"
    "th_current_turn (rn_thread s2) \<noteq> None"
    by (rule commit_handler_laws.failing_iteration [OF laws assms(2,4,5) ts open1])
  have loop: "turn_loop L tx h ?tid s1 = Some (Inr ?c, s2)"
    using turn_loop.simps [of L tx h ?tid s1] by (simp only: it(1) prod.case sum.case option.case)
  obtain out s3 completed_at turn where fin: "finish_run L ?c s2 = (Inr out, s3)"
    "finalize_run ?c completed_at (rn_thread s2) = Inr (turn, rn_thread s3)"
    "ao_reply out = tn_reply ?c" "ao_turns out = [\<lparr>ca_turn = turn\<rparr>]"
    by (rule finish_run_ok [OF assms(3) it(3)])
  have "run_locked_thread L tx incoming h s = Some (Inr out, s3)"
    by (simp only: run_locked_thread_def run_live_thread_def b loop fin(1) prod.case sum.case option.case)
  then show ?thesis
    using fin(3,4) finalize_run_sel(1,2,6) [OF fin(2)] it(2) b1(1)
    by (intro exI [of _ out] exI [of _ s3] exI [of _ turn] exI [of _ at_time]) simp
qed

lemma script_fails: "\<exists>e'. w_generate (al_world (script_loop\<lparr>al_world := script_world\<lparr>w_generate := (\<lambda>_ e. (Inl (bail (str ''down'')), e))\<rparr>\<rparr>)) request e
    = (Inl (bail (str ''down'')), e')"
  by simp

theorem provider_failure_becomes_the_reply_witness:
  "\<exists>out s'. run_locked_thread (script_loop\<lparr>al_world := script_world\<lparr>w_generate := (\<lambda>_ e. (Inl (bail (str ''down'')), e))\<rparr>\<rparr>)
        demo_sender demo_incoming recording_handler (script_state []) = Some (Inr out, s')
     \<and> ao_reply out = str ''[openjarvis][agent_error] '' @ err_display_alt (bail (str ''down''))
     \<and> length (messages (rn_thread s')) = 2"
proof -
  let ?L = "script_loop\<lparr>al_world := script_world\<lparr>w_generate := (\<lambda>_ e. (Inl (bail (str ''down'')), e))\<rparr>\<rparr>"
  have sel: "al_hooks ?L = []" "\<not> acc_enabled (al_compact_config ?L)" "al_tools ?L = al_tools script_loop"
    by (simp_all add: script_loop_def)
  have reg: "register_builtin_tools (al_tools ?L) (script_state []) = (Inr (), script_state [])"
    unfolding sel(3) by (rule script_builtin) (simp add: script_state_def)
  have start: "load_toolsets (rn_thread (script_state [])) = []" "th_current_turn (rn_thread (script_state [])) = None"
    "messages (rn_thread (script_state [])) = []"
    by (simp_all add: script_state_def thread_new_def thread_state_default_def thread_context_new_def)
  have total: "handler_total recording_handler" by (simp add: handler_total_def recording_handler_def)
  from provider_failure_becomes_the_reply [OF recording.handler_preserves total sel(1,2) script_fails reg start(1,2),
      of demo_sender demo_incoming] start(3)
  show ?thesis by force
qed

end
