(* ===== verification/OJ_Feature.thy ===== *)
theory OJ_Feature
  imports OJ_Tool_Registry OJ_Compact
begin

text \<open>
  The system messages a new thread starts with, \<open>FeaturePromptRebuilder\<close> of \<open>src/agent/feature/mod.rs\<close>:
  the configured prompt, the toolset catalog, the active memories, the skills and the notice about
  compaction, in this order. Each provider is a function of its own; what the memory repository and the
  skill registry answer are parameters.
\<close>

section \<open>The providers\<close>

record feature_prompt_build_context =
  fb_thread :: thread
  fb_created_at :: time
  fb_auto_compact_enabled :: bool

type_synonym 'e feature_prompt_provider = "feature_prompt_build_context \<Rightarrow> ('e, chat_message list) act"

definition TOOL_USE_MODE_PROMPT :: rstring where
  "TOOL_USE_MODE_PROMPT =
     str ''You are running in OpenJarvis tool-use mode. Use the provided tools when needed. You may also provide a short user-visible reply before calling a tool.''"

definition AUTO_COMPACT_PROMPT :: rstring where
  "AUTO_COMPACT_PROMPT =
     str ''Auto-compact '' @ [24050, 24320, 21551, 12290, 24403, 24403, 21069, 32447, 31243, 39044, 31639, 36798,
     21040, 38408, 20540, 26102, 65292, 31995, 32479, 20250, 21521, 20320, 26292, 38706] @ str '' `compact` '' @
     [24037, 20855, 65307, 24403, 20320, 21028, 26029, 21097, 20313, 19978, 19979, 25991, 19981, 36275, 20197,
     23433, 20840, 32487, 32493, 26102, 65292, 21487, 20197, 20027, 21160, 35843, 29992, 23427, 12290] @ str
     ''`compact` '' @ [21482, 20250, 21387, 32553, 24403, 21069, 32447, 31243, 30340, 38750] @ str '' system '' @
     [21382, 21490, 12290]"

definition system_message :: "feature_prompt_build_context \<Rightarrow> rstring \<Rightarrow> chat_message" where
  "system_message c content = chat_message_new RoleSystem content (fb_created_at c)"

definition static_system_prompt_build :: "rstring \<Rightarrow> 'e feature_prompt_provider" where
  "static_system_prompt_build system_prompt c =
     (let prompt = trim system_prompt in
      act_ret (if prompt = [] then [] else [system_message c prompt]))"

definition toolset_catalog_build :: "'e tool_registry \<Rightarrow> 'e feature_prompt_provider" where
  "toolset_catalog_build g c =
     act_ret (system_message c TOOL_USE_MODE_PROMPT
       # (case catalog_prompt_for_context g (fb_thread c) of None \<Rightarrow> [] | Some p \<Rightarrow> [system_message c p]))"

definition active_memory_catalog_build :: "('e, rstring option) act \<Rightarrow> 'e feature_prompt_provider" where
  "active_memory_catalog_build active_catalog_prompt c =
     act_bind active_catalog_prompt (\<lambda>prompt.
     act_ret (case prompt of None \<Rightarrow> [] | Some p \<Rightarrow> [system_message c p]))"

definition skill_catalog_build :: "('e \<Rightarrow> rstring option) \<Rightarrow> 'e feature_prompt_provider" where
  "skill_catalog_build catalog_prompt c e =
     (Inr (case catalog_prompt e of None \<Rightarrow> [] | Some p \<Rightarrow> [system_message c p]), e)"

definition auto_compact_build :: "'e feature_prompt_provider" where
  "auto_compact_build c =
     act_ret (if \<not> fb_auto_compact_enabled c then [] else [system_message c AUTO_COMPACT_PROMPT])"

section \<open>The fixed traversal\<close>

text \<open>What the worker builds its rebuilder from.\<close>

record 'e feature_env =
  fe_system_prompt :: rstring
  fe_active_catalog_prompt :: "('e, rstring option) act"
  fe_skill_catalog_prompt :: "'e \<Rightarrow> rstring option"

definition feature_prompt_rebuilder_new :: "'e feature_env \<Rightarrow> 'e tool_registry \<Rightarrow> 'e feature_prompt_provider list" where
  "feature_prompt_rebuilder_new v g =
     [static_system_prompt_build (fe_system_prompt v), toolset_catalog_build g,
      active_memory_catalog_build (fe_active_catalog_prompt v), skill_catalog_build (fe_skill_catalog_prompt v),
      auto_compact_build]"

fun run_providers :: "'e feature_prompt_provider list \<Rightarrow> feature_prompt_build_context \<Rightarrow> ('e, chat_message list) act" where
  "run_providers [] c = act_ret []"
| "run_providers (p # ps) c = act_bind (p c) (\<lambda>ms. act_bind (run_providers ps c) (\<lambda>rest. act_ret (ms @ rest)))"

definition build_messages ::
    "'e feature_prompt_provider list \<Rightarrow> 'e world \<Rightarrow> thread \<Rightarrow> bool \<Rightarrow> ('e, chat_message list) act" where
  "build_messages providers w t auto_on =
     act_bind (act_now w) (\<lambda>created_at.
     run_providers providers
       \<lparr>fb_thread = t, fb_created_at = created_at, fb_auto_compact_enabled = auto_on\<rparr>)"

section \<open>What they build\<close>

definition builds_system :: "'e feature_prompt_provider \<Rightarrow> bool" where
  "builds_system p \<longleftrightarrow> (\<forall>c e ms e'. p c e = (Inr ms, e')
     \<longrightarrow> (\<forall>m \<in> set ms. is_system m \<and> msg_created_at m = fb_created_at c))"

lemma system_message_sel [simp]:
  "msg_role (system_message c x) = RoleSystem" "msg_content (system_message c x) = x"
  "msg_created_at (system_message c x) = fb_created_at c"
  by (simp_all add: system_message_def)

lemma rebuilder_builds_system: "\<forall>p \<in> set (feature_prompt_rebuilder_new v g). builds_system p"
  by (auto simp: feature_prompt_rebuilder_new_def builds_system_def static_system_prompt_build_def
      toolset_catalog_build_def active_memory_catalog_build_def skill_catalog_build_def auto_compact_build_def
      act_ret_def act_bind_def Let_def split: option.splits prod.splits sum.splits if_splits)

lemma run_providers_system:
  "\<forall>p \<in> set ps. builds_system p \<Longrightarrow> run_providers ps c e = (Inr ms, e') \<Longrightarrow>
     \<forall>m \<in> set ms. is_system m \<and> msg_created_at m = fb_created_at c"
proof (induction ps arbitrary: e ms)
  case (Cons p ps)
  from Cons(3) obtain ms1 e1 ms2 where 1: "p c e = (Inr ms1, e1)" and 2: "run_providers ps c e1 = (Inr ms2, e')"
    and 3: "ms = ms1 @ ms2"
    by (auto simp: act_bind_Inr act_ret_def)
  have "builds_system p" using Cons(2) by simp
  then have "\<forall>m \<in> set ms1. is_system m \<and> msg_created_at m = fb_created_at c" using 1 unfolding builds_system_def by blast
  moreover have "\<forall>m \<in> set ms2. is_system m \<and> msg_created_at m = fb_created_at c"
    using Cons(1) [OF _ 2] Cons(2) by simp
  ultimately show ?case by (auto simp: 3)
qed (simp add: act_ret_def)

lemma build_messages_system:
  assumes "build_messages (feature_prompt_rebuilder_new v g) w t b e = (Inr ms, e')"
  shows "\<forall>m \<in> set ms. is_system m"
proof -
  obtain c e1 where "run_providers (feature_prompt_rebuilder_new v g) c e1 = (Inr ms, e')"
    using assms by (auto simp: build_messages_def act_bind_Inr)
  from run_providers_system [OF rebuilder_builds_system this] show ?thesis by blast
qed

end
