(* ===== verification/OJ_Worker.thy ===== *)
theory OJ_Worker
  imports OJ_Agent_Protocol OJ_Session_Manager OJ_Feature
begin

text \<open>
  The agent worker, \<open>src/agent/worker.rs\<close>: it takes one request at a time, locks the thread, seeds a new
  one, runs the agent loop with a commit handler that persists and reports every message, commits the
  finalized turn and reports the request as completed; a loop that fails hard gets a fallback turn.

  While the guard is held, the live thread is \<open>rn_thread\<close>; it is written back to the cell of the session
  manager when the guard is dropped. The state of the commit handler is the link to the neighbours: the
  session manager, the fresh session ids still to be drawn, the event channel and whether its receiver
  is gone.
\<close>

section \<open>Requests and events\<close>

record agent_request =
  ar_locator :: thread_locator
  ar_incoming :: incoming_message

record committed_agent_message =
  cm_locator :: thread_locator
  cm_turn_id :: uuid
  cm_message :: chat_message
  cm_dispatch_events :: "agent_dispatch_event list"
  cm_committed_at :: time

datatype agent_worker_event =
    MessageCommitted committed_agent_message
  | TurnFinalized thread_locator thread_finalized_turn
  | RequestCompleted thread_locator time

record 's worker_link =
  wl_sessions :: "'s session_manager"
  wl_draws :: nat
  wl_events :: "agent_worker_event list"
  wl_closed :: bool

text \<open>The outside of the worker: the store behind the manager, the uuid crate and the ids it draws.\<close>

record 's session_env =
  sv_ops :: "'s session_store"
  sv_uuids :: uuid_lib
  sv_fresh :: "nat \<Rightarrow> uuid"

text \<open>\<open>SessionStoreError\<close> as an \<open>anyhow\<close> error; both variants are transparent.\<close>

fun store_error_to_err :: "session_store_error \<Rightarrow> err" where
  "store_error_to_err (RevisionConflict c) =
     bail (str ''thread `'' @ rc_thread_id c @ str ''` revision conflict: expected revision ''
           @ nat_str (unat (rc_expected_revision c)) @ str '', actual revision '' @ nat_str (unat (rc_actual_revision c)))"
| "store_error_to_err (StoreOther e) = e"

section \<open>Persisting and reporting under the lock\<close>

text \<open>
  The guarded forms of \<open>persist_locked_thread_context\<close> and \<open>commit_finalized_turn_locked\<close>: the guard's
  thread is \<open>t\<close>, and \<open>*thread_context = persisted\<close> writes it.
\<close>

definition persist_guard ::
    "'s session_env \<Rightarrow> thread_locator \<Rightarrow> handle \<Rightarrow> time \<Rightarrow> ('s worker_link \<times> thread, unit) act" where
  "persist_guard V l gd updated_at = (\<lambda>(w, t).
     let m = write_cell gd t (wl_sessions w);
         (r, m1) = persist_thread_context_snapshot (sv_ops V) (sv_uuids V) (sv_fresh V (wl_draws w)) l t updated_at m;
         w1 = w\<lparr>wl_draws := wl_draws w + 1\<rparr> in
     case r of
       Inl e \<Rightarrow> (Inl (store_error_to_err e), (w1\<lparr>wl_sessions := m1\<rparr>, t))
     | Inr persisted \<Rightarrow>
         (Inr (), (w1\<lparr>wl_sessions := touch_cached_session (tl_session_key l) l updated_at (write_cell gd persisted m1)\<rparr>,
                   persisted)))"

definition commit_guard ::
    "'s session_env \<Rightarrow> thread_locator \<Rightarrow> handle \<Rightarrow> thread_finalized_turn \<Rightarrow> ('s worker_link \<times> thread, unit) act" where
  "commit_guard V l gd turn = (\<lambda>(w, t).
     let m = write_cell gd t (wl_sessions w);
         (r, m1) = save_thread_snapshot (sv_ops V) (sv_uuids V) (sv_fresh V (wl_draws w)) l (ft_snapshot turn)
                     (ft_completed_at turn) (dedup_record_of l turn) m;
         w1 = w\<lparr>wl_draws := wl_draws w + 1\<rparr> in
     case r of
       Inl e \<Rightarrow> (Inl (store_error_to_err e), (w1\<lparr>wl_sessions := m1\<rparr>, t))
     | Inr persisted \<Rightarrow>
         (Inr (), (w1\<lparr>wl_sessions :=
                        touch_cached_session (tl_session_key l) l (ft_completed_at turn) (write_cell gd persisted m1)\<rparr>,
                   persisted)))"

definition send_event :: "string \<Rightarrow> agent_worker_event \<Rightarrow> ('s worker_link \<times> thread, unit) act" where
  "send_event what ev = (\<lambda>(w, t).
     if wl_closed w then (Inl (bail (str what @ str '': channel closed'')), (w, t))
     else (Inr (), (w\<lparr>wl_events := wl_events w @ [ev]\<rparr>, t)))"

definition worker_on_committed_message ::
    "'s session_env \<Rightarrow> thread_locator \<Rightarrow> handle \<Rightarrow> 's worker_link commit_handler" where
  "worker_on_committed_message V l gd turn_id message dispatch_events =
     act_bind (persist_guard V l gd (msg_created_at message)) (\<lambda>_.
     send_event ''failed to report committed message''
       (MessageCommitted \<lparr>cm_locator = l, cm_turn_id = turn_id, cm_message = message,
          cm_dispatch_events = dispatch_events, cm_committed_at = msg_created_at message\<rparr>))"

section \<open>The worker\<close>

record 'e agent_worker =
  aw_loop :: "'e agent_loop"
  aw_features :: "'e feature_env"

text \<open>Seeding a thread that has no messages yet.\<close>

definition initialize_thread :: "'e agent_worker \<Rightarrow> (('e, 'h) loop_state, bool) act" where
  "initialize_thread W =
     with_thread messages (\<lambda>ms.
     if ms \<noteq> [] then act_ret False
     else
       act_bind (register_builtin_tools (al_tools (aw_loop W))) (\<lambda>_.
       act_bind (\<lambda>s. on_env (build_messages (feature_prompt_rebuilder_new (aw_features W) (rn_registry s))
                       (al_world (aw_loop W)) (rn_thread s)
                       (acc_enabled (al_compact_config (aw_loop W))
                        \<and> auto_compact_enabled (acc_auto_compact (al_compact_config (aw_loop W))) (rn_thread s))) s)
         (\<lambda>initialized_messages.
       case initialized_messages of
         [] \<Rightarrow> act_ret False
       | m # _ \<Rightarrow>
           act_bind (on_thread (\<lambda>t. Inr (replace_messages initialized_messages (msg_created_at m) t))) (\<lambda>_.
           act_ret True))))"

definition prepare_guard ::
    "'e agent_worker \<Rightarrow> 's session_env \<Rightarrow> agent_request \<Rightarrow> handle \<Rightarrow> (('e, 's worker_link) loop_state, unit) act" where
  "prepare_guard W V request gd =
     act_bind (initialize_thread W) (\<lambda>initialized.
     if initialized
     then act_try (on_handler (persist_guard V (ar_locator request) gd (im_received_at (ar_incoming request)))) (\<lambda>r.
            case r of
              Inl e \<Rightarrow> act_fail (bail (str ''failed to persist initialized thread: '' @ err_display e))
            | Inr _ \<Rightarrow> act_ret ())
     else act_ret ())"

definition report_turn ::
    "'s session_env \<Rightarrow> thread_locator \<Rightarrow> handle \<Rightarrow> string \<Rightarrow> thread_finalized_turn \<Rightarrow> ('s worker_link \<times> thread, unit) act" where
  "report_turn V l gd what turn =
     act_bind (commit_guard V l gd turn) (\<lambda>_. send_event what (TurnFinalized l turn))"

fun report_turns ::
    "'s session_env \<Rightarrow> thread_locator \<Rightarrow> handle \<Rightarrow> completed_agent_turn list \<Rightarrow> ('s worker_link \<times> thread, unit) act" where
  "report_turns V l gd [] = act_ret ()"
| "report_turns V l gd (c # cs) =
     act_bind (report_turn V l gd ''failed to report finalized turn'' (ca_turn c)) (\<lambda>_. report_turns V l gd cs)"

definition report_success ::
    "'e agent_worker \<Rightarrow> 's session_env \<Rightarrow> thread_locator \<Rightarrow> handle \<Rightarrow> agent_loop_output
     \<Rightarrow> (('e, 's worker_link) loop_state, agent_loop_output) act" where
  "report_success W V l gd out =
     act_bind (on_handler (report_turns V l gd (ao_turns out))) (\<lambda>_.
     act_bind (utc_now (aw_loop W)) (\<lambda>completed_at.
     act_bind (on_handler (send_event ''failed to report completed request'' (RequestCompleted l completed_at))) (\<lambda>_.
     act_ret out)))"

text \<open>The turn-aligned fallback: its own turn, its own failure message, then the error itself.\<close>

definition fallback_event :: "rstring \<Rightarrow> thread_turn_event" where
  "fallback_event reply =
     \<lparr>tv_kind = TextOutput, tv_content = reply,
      tv_metadata = JObj [(str ''source'', JStr (str ''worker_fallback_failure'')), (str ''is_final'', JBool True),
                          (str ''is_error'', JBool True)]\<rparr>"

definition fallback_commit ::
    "'e agent_worker \<Rightarrow> 's session_env \<Rightarrow> agent_request \<Rightarrow> handle \<Rightarrow> err \<Rightarrow> (('e, 's worker_link) loop_state, unit) act" where
  "fallback_commit W V request gd error =
     (let l = ar_locator request; incoming = ar_incoming request;
          reply = str ''[openjarvis][agent_error] '' @ err_display_alt error in
      act_bind (new_uuid (aw_loop W)) (\<lambda>fresh.
      act_bind (on_thread (begin_turn fresh (im_external_message_id incoming) (im_received_at incoming))) (\<lambda>_.
      act_bind (utc_now (aw_loop W)) (\<lambda>committed_at.
      let message = chat_message_new RoleAssistant reply committed_at in
      act_bind (on_thread (append_message message)) (\<lambda>_.
      act_bind (on_thread (buffer_turn_event (fallback_event reply))) (\<lambda>_.
      act_bind (on_handler (persist_guard V l gd committed_at)) (\<lambda>_.
      act_bind (with_thread current_turn_id (\<lambda>i. case i of
          None \<Rightarrow> act_fail (bail (str ''failed thread did not expose one active turn id''))
        | Some turn_id \<Rightarrow> act_ret turn_id)) (\<lambda>turn_id.
      with_thread th_locator (\<lambda>tl.
      on_handler (send_event ''failed to report fallback committed message''
        (MessageCommitted \<lparr>cm_locator = l, cm_turn_id = turn_id, cm_message = message,
           cm_dispatch_events = [prepare_dispatch_event (from_incoming_and_locator incoming tl) (fallback_event reply) True],
           cm_committed_at = committed_at\<rparr>)))))))))))"

definition finalize_failure :: "rstring \<Rightarrow> time \<Rightarrow> (('e, 'h) loop_state, thread_finalized_turn) act" where
  "finalize_failure error_message completed_at s =
     (case finalize_turn_failure error_message completed_at (rn_thread s) of
        Inl e \<Rightarrow> (Inl e, s)
      | Inr (turn, t) \<Rightarrow> (Inr turn, s\<lparr>rn_thread := t\<rparr>))"

definition report_failure ::
    "'e agent_worker \<Rightarrow> 's session_env \<Rightarrow> agent_request \<Rightarrow> handle \<Rightarrow> err
     \<Rightarrow> (('e, 's worker_link) loop_state, agent_loop_output) act" where
  "report_failure W V request gd error =
     (let l = ar_locator request in
      act_bind (fallback_commit W V request gd error) (\<lambda>_.
      act_bind (utc_now (aw_loop W)) (\<lambda>completed_at.
      act_bind (finalize_failure (err_display_alt error) completed_at) (\<lambda>turn.
      act_bind (on_handler (report_turn V l gd ''failed to report fallback finalized turn'' turn)) (\<lambda>_.
      act_bind (utc_now (aw_loop W)) (\<lambda>completed_at.
      act_bind (on_handler (send_event ''failed to report completed fallback request'' (RequestCompleted l completed_at))) (\<lambda>_.
      act_fail error)))))))"

definition run_guarded ::
    "'e agent_worker \<Rightarrow> 's session_env \<Rightarrow> agent_request \<Rightarrow> handle \<Rightarrow> ('e, 's worker_link) loop_state
     \<Rightarrow> ((err + agent_loop_output) \<times> ('e, 's worker_link) loop_state) option" where
  "run_guarded W V request gd s =
     (case prepare_guard W V request gd s of
        (Inl e, s1) \<Rightarrow> Some (Inl e, s1)
      | (Inr _, s1) \<Rightarrow>
          (case run_locked_thread (aw_loop W)
                  (from_incoming_and_locator (ar_incoming request) (th_locator (rn_thread s1))) (ar_incoming request)
                  (worker_on_committed_message V (ar_locator request) gd) s1 of
             None \<Rightarrow> None
           | Some (Inr out, s2) \<Rightarrow> Some (report_success W V (ar_locator request) gd out s2)
           | Some (Inl e, s2) \<Rightarrow> Some (report_failure W V request gd e s2)))"

text \<open>The worker between requests.\<close>

record ('e, 's) worker_state =
  ws_env :: 'e
  ws_registry :: "'e tool_registry"
  ws_link :: "'s worker_link"

definition guarded_state :: "handle \<Rightarrow> ('e, 's) worker_state \<Rightarrow> ('e, 's worker_link) loop_state" where
  "guarded_state gd ws =
     \<lparr>rn_env = ws_env ws, rn_registry = ws_registry ws, rn_thread = sm_cells (wl_sessions (ws_link ws)) ! gd,
      ls_handler = ws_link ws, ls_reply_to_source = True, ls_used_tool_names = [], ls_last_visible_tools = [],
      ls_last_budget_report = None\<rparr>"

definition drop_guard :: "handle \<Rightarrow> ('e, 's worker_link) loop_state \<Rightarrow> ('e, 's) worker_state" where
  "drop_guard gd s =
     \<lparr>ws_env = rn_env s, ws_registry = rn_registry s,
      ws_link = (ls_handler s)\<lparr>wl_sessions := write_cell gd (rn_thread s) (wl_sessions (ls_handler s))\<rparr>\<rparr>"

definition handle_request ::
    "'e agent_worker \<Rightarrow> 's session_env \<Rightarrow> agent_request \<Rightarrow> ('e, 's) worker_state
     \<Rightarrow> ((err + agent_loop_output) \<times> ('e, 's) worker_state) option" where
  "handle_request W V request ws =
     (let w = ws_link ws;
          (r, m1) = lock_thread_context (sv_ops V) (sv_uuids V) (sv_fresh V (wl_draws w)) (ar_locator request)
                      (im_received_at (ar_incoming request)) (wl_sessions w);
          ws1 = ws\<lparr>ws_link := w\<lparr>wl_sessions := m1, wl_draws := wl_draws w + 1\<rparr>\<rparr> in
      case r of
        Inl e \<Rightarrow> Some (Inl (store_error_to_err e), ws1)
      | Inr gd \<Rightarrow> map_option (\<lambda>(out, s). (out, drop_guard gd s)) (run_guarded W V request gd (guarded_state gd ws1)))"

text \<open>The inbox: requests one after the other, whatever they return.\<close>

fun worker_run ::
    "'e agent_worker \<Rightarrow> 's session_env \<Rightarrow> agent_request list \<Rightarrow> ('e, 's) worker_state \<Rightarrow> ('e, 's) worker_state option" where
  "worker_run W V [] ws = Some ws"
| "worker_run W V (r # rs) ws =
     (case handle_request W V r ws of None \<Rightarrow> None | Some (_, ws') \<Rightarrow> worker_run W V rs ws')"

section \<open>The worker's handler keeps to the laws\<close>

lemma rebind_keeps [simp]:
  "th_thread (rebind_locator l t) = th_thread t" "th_current_turn (rebind_locator l t) = th_current_turn t"
  "th_state (rebind_locator l t) = th_state t" "th_pending_tool_events (rebind_locator l t) = th_pending_tool_events t"
  by (simp_all add: rebind_locator_def)

lemma set_revision_keeps [simp]:
  "th_thread (set_revision n t) = th_thread t" "th_current_turn (set_revision n t) = th_current_turn t"
  "th_state (set_revision n t) = th_state t" "th_pending_tool_events (set_revision n t) = th_pending_tool_events t"
  by (simp_all add: set_revision_def)

text \<open>A snapshot comes back from the store with its locator bound and its revision advanced.\<close>

lemma save_thread_snapshot_result:
  assumes "save_thread_snapshot ops U fresh l t at_time d m = (Inr persisted, m')"
  shows "\<exists>n. persisted = set_revision n (rebind_locator (locator_from U l) t)" "sm_cells m' = sm_cells m"
    "sm_sessions m' = sm_sessions m"
  using assms by (auto simp: save_thread_snapshot_def Let_def split: prod.splits sum.splits)

lemma save_thread_snapshot_keeps:
  assumes "save_thread_snapshot ops U fresh l t at_time d m = (r, m')"
  shows "sm_cells m' = sm_cells m" "sm_sessions m' = sm_sessions m"
  using assms by (auto simp: save_thread_snapshot_def Let_def split: prod.splits sum.splits)

lemma persist_guard_cases:
  obtains (failed) e m where "persist_guard V l gd at_time (w, t)
      = (Inl e, (w\<lparr>wl_draws := wl_draws w + 1, wl_sessions := m\<rparr>, t))"
    "sm_handle m = sm_handle (wl_sessions w)" "length (sm_cells m) = length (sm_cells (wl_sessions w))"
  | (saved) n m where "persist_guard V l gd at_time (w, t)
      = (Inr (), (w\<lparr>wl_draws := wl_draws w + 1, wl_sessions := m\<rparr>,
          set_revision n (rebind_locator (locator_from (sv_uuids V) l) t)))"
    "sm_handle m = sm_handle (wl_sessions w)" "length (sm_cells m) = length (sm_cells (wl_sessions w))"
proof -
  obtain r m1 where r: "persist_thread_context_snapshot (sv_ops V) (sv_uuids V) (sv_fresh V (wl_draws w)) l t at_time
      (write_cell gd t (wl_sessions w)) = (r, m1)" by fastforce
  have cells: "sm_cells m1 = sm_cells (write_cell gd t (wl_sessions w))"
    and "sm_sessions m1 = sm_sessions (write_cell gd t (wl_sessions w))"
    using save_thread_snapshot_keeps [OF r [unfolded persist_thread_context_snapshot_def]] by auto
  then have sessions: "sm_handle m1 = sm_handle (wl_sessions w)" by (simp add: sm_handle_def write_cell_def fun_eq_iff)
  show ?thesis
  proof (cases r)
    case (Inl e)
    then show ?thesis using failed [of "store_error_to_err e" m1] r cells sessions
      by (simp add: persist_guard_def Let_def)
  next
    case (Inr persisted)
    then obtain n where "persisted = set_revision n (rebind_locator (locator_from (sv_uuids V) l) t)"
      using save_thread_snapshot_result(1) [OF r [unfolded persist_thread_context_snapshot_def Inr]] by blast
    then show ?thesis using saved [of _ n] r Inr cells sessions by (simp add: persist_guard_def Let_def)
  qed
qed

lemma worker_handler_preserves: "handler_preserves (worker_on_committed_message V l gd)"
  unfolding handler_preserves_def Let_def
proof (intro allI)
  fix turn_id m ds and x :: "'a worker_link" and t
  let ?t' = "snd (snd (worker_on_committed_message V l gd turn_id m ds (x, t)))"
  show "th_thread ?t' = th_thread t \<and> th_current_turn ?t' = th_current_turn t \<and> th_state ?t' = th_state t
     \<and> th_pending_tool_events ?t' = th_pending_tool_events t"
    by (rule persist_guard_cases [of V l gd "msg_created_at m" x t])
      (auto simp: worker_on_committed_message_def act_bind_def send_event_def)
qed

interpretation worker_handler: commit_handler_laws "worker_on_committed_message V l gd" for V l gd
  by unfold_locales (rule worker_handler_preserves)

section \<open>What a run reports\<close>

definition reports :: "thread_locator \<Rightarrow> ('e, 's worker_link) loop_state \<Rightarrow> ('e, 's worker_link) loop_state \<Rightarrow> bool" where
  "reports l s s' \<longleftrightarrow> wl_closed (ls_handler s') = wl_closed (ls_handler s)
     \<and> (\<exists>cs. wl_events (ls_handler s') = wl_events (ls_handler s) @ map MessageCommitted cs
             \<and> (\<forall>c \<in> set cs. cm_locator c = l))"

lemma reports_same: "ls_handler s' = ls_handler s \<Longrightarrow> reports l s s'"
  by (simp add: reports_def)

interpretation report_order: action_preorder "reports l" for l
proof unfold_locales
  show "reports l s s" for s :: "('a, 'b worker_link) loop_state" by (rule reports_same) simp
next
  fix s s' s'' :: "('a, 'b worker_link) loop_state"
  assume "reports l s s'" "reports l s' s''"
  then obtain cs cs' where
    "wl_events (ls_handler s') = wl_events (ls_handler s) @ map MessageCommitted cs" "\<forall>c \<in> set cs. cm_locator c = l"
    "wl_events (ls_handler s'') = wl_events (ls_handler s') @ map MessageCommitted cs'" "\<forall>c \<in> set cs'. cm_locator c = l"
    "wl_closed (ls_handler s'') = wl_closed (ls_handler s)"
    unfolding reports_def by auto
  then show "reports l s s''" unfolding reports_def by (intro conjI exI [of _ "cs @ cs'"]) auto
qed

lemma reports_env: "related (reports l) (on_env m) s"
  by (simp add: related_def on_env_def reports_same split: prod.split)

lemma reports_thread: "related (reports l) (on_thread f) s"
  by (simp add: related_def on_thread_def reports_same split: sum.split)

lemma reports_frame: "framed m s \<Longrightarrow> related (reports l) m s"
proof -
  assume "framed m s"
  then have "run_state.more (snd (m s)) = run_state.more s" by (simp add: framed_def registry_frame_def)
  then have "ls_handler (snd (m s)) = ls_handler s" by (cases s, cases "snd (m s)") simp
  then show ?thesis by (simp add: related_def reports_same)
qed

lemma reports_compaction: "related (reports l) (execute_turn_compaction L tid reason b i rep) s"
  unfolding execute_turn_compaction_def emit_def utc_now_def
  by (auto intro!: rel_with_thread report_order.rel_bind report_order.rel_ret reports_env reports_thread split: option.split)

lemma reports_persist:
  "persist_guard V l gd at_time (w, t) = (r, (w', t')) \<Longrightarrow> wl_events w' = wl_events w \<and> wl_closed w' = wl_closed w
     \<and> th_current_turn t' = th_current_turn t"
  by (rule persist_guard_cases [of V l gd at_time w t]) auto

lemma reports_commit: "related (reports l) (commit_message tx (worker_on_committed_message V l gd) m es) s"
proof (cases "th_current_turn (rn_thread s)")
  case None
  then show ?thesis
    using commit_message_no_turn [OF None, of tx "worker_on_committed_message V l gd" m es] report_order.R_refl [of l s]
    by (auto simp: related_def)
next
  case (Some turn)
  obtain ds flag where d: "prepare_dispatch_events tx es (ls_reply_to_source s) = (ds, flag)" by fastforce
  let ?c = "\<lparr>cm_locator = l, cm_turn_id = ct_turn_id turn, cm_message = m, cm_dispatch_events = ds,
       cm_committed_at = msg_created_at m\<rparr>"
  obtain r w t where p: "persist_guard V l gd (msg_created_at m) (ls_handler s, committed_thread m es turn (rn_thread s))
      = (r, (w, t))" by (metis prod.exhaust)
  note keep = reports_persist [OF p]
  show ?thesis
  proof (cases r)
    case (Inl e)
    then show ?thesis
      using keep p by (simp add: related_def commit_message_run [OF Some] d worker_on_committed_message_def act_bind_def
          reports_def)
  next
    case (Inr u)
    then show ?thesis
      using keep p by (auto simp: related_def commit_message_run [OF Some] d worker_on_committed_message_def act_bind_def
          send_event_def reports_def intro: exI [of _ "[]"] exI [of _ "[?c]"])
  qed
qed

interpretation reported: loop_relation "reports l" L tx "worker_on_committed_message V l gd" thread_id
  for l L tx V gd thread_id
  by unfold_locales
    (auto intro: reports_commit reports_compaction reports_env reports_frame framed_intros reports_thread reports_same
      simp: emit_def utc_now_def new_uuid_def)

section \<open>A whole run, from the guard on\<close>

lemma reports_register: "related (reports l) (register_builtin_tools v) s"
  using register_builtin_tools_run [of v s "fst (register_builtin_tools v s)" "snd (register_builtin_tools v s)"]
  by (auto simp: related_def intro: reports_same)

lemma reports_begin: "related (reports l) (begin_run L tx (worker_on_committed_message V l gd) m x) s"
  unfolding begin_run_def prepare_thread_runtime_def emit_def new_uuid_def
  by (intro report_order.rel_bind reports_register rel_with_thread report_order.rel_ret reports_env reports_thread
      reports_commit) (simp add: related_def reports_same)

lemma reports_finish: "related (reports l) (finish_run L c) s"
  unfolding finish_run_def utc_now_def emit_def
  by (intro report_order.rel_bind reports_env report_order.rel_ret)
    (auto simp: related_def intro: reports_same split: sum.split prod.split)

lemma run_reports:
  assumes "run_locked_thread L tx incoming (worker_on_committed_message V l gd) s = Some (r, s')"
  shows "reports l s s'"
proof -
  let ?h = "worker_on_committed_message V l gd"
  obtain z s1 where b: "begin_run L tx ?h (incoming_chat_message incoming) (im_external_message_id incoming) s = (z, s1)"
    by fastforce
  have 1: "reports l s s1" using reports_begin [of l L tx V gd _ _ s] b by (metis related_def snd_conv)
  show ?thesis
  proof (cases z)
    case (Inl e)
    then show ?thesis using assms b 1 by (simp add: run_locked_thread_def run_live_thread_def)
  next
    case (Inr tid)
    obtain q s2 where l: "turn_loop L tx ?h tid s1 = Some (q, s2)"
      using assms b Inr by (auto simp: run_locked_thread_def run_live_thread_def split: option.splits)
    have 2: "reports l s s2" by (rule report_order.R_trans [OF 1 reported.rel_loop [OF l]])
    show ?thesis
    proof (cases q)
      case (Inl e)
      then show ?thesis using assms b Inr l 2 by (simp add: run_locked_thread_def run_live_thread_def)
    next
      case c: (Inr c)
      then have "finish_run L c s2 = (r, s')"
        using assms b Inr l by (simp add: run_locked_thread_def run_live_thread_def)
      then have "reports l s2 s'" using reports_finish [of l L c s2] by (simp add: related_def)
      then show ?thesis by (rule report_order.R_trans [OF 2])
    qed
  qed
qed

text \<open>Preparing the guard reports nothing and keeps the turn.\<close>

definition same_cells :: "'s worker_link \<Rightarrow> 's worker_link \<Rightarrow> bool" where
  "same_cells w w' \<longleftrightarrow> sm_handle (wl_sessions w') = sm_handle (wl_sessions w)
     \<and> length (sm_cells (wl_sessions w')) = length (sm_cells (wl_sessions w))"

lemma same_cells_refl [simp]: "same_cells w w"
  by (simp add: same_cells_def)

lemma same_cells_trans: "same_cells w w' \<Longrightarrow> same_cells w' w'' \<Longrightarrow> same_cells w w''"
  by (simp add: same_cells_def)

lemma same_cells_persist: "persist_guard V l gd at_time (w, t) = (r, (w', t')) \<Longrightarrow> same_cells w w'"
  by (rule persist_guard_cases [of V l gd at_time w t]) (auto simp: same_cells_def)

definition quiet :: "('e, 's worker_link) loop_state \<Rightarrow> ('e, 's worker_link) loop_state \<Rightarrow> bool" where
  "quiet s s' \<longleftrightarrow> wl_closed (ls_handler s') = wl_closed (ls_handler s) \<and> wl_events (ls_handler s') = wl_events (ls_handler s)
     \<and> th_current_turn (rn_thread s') = th_current_turn (rn_thread s) \<and> same_cells (ls_handler s) (ls_handler s')"

interpretation quiet_order: action_preorder quiet
  by unfold_locales (auto simp: quiet_def intro: same_cells_trans)

lemma quiet_env: "related quiet (on_env m) s"
  by (simp add: related_def on_env_def quiet_def split: prod.split)

lemma quiet_register: "related quiet (register_builtin_tools v) s"
  using register_builtin_tools_run [of v s "fst (register_builtin_tools v s)" "snd (register_builtin_tools v s)"]
  by (auto simp: related_def quiet_def)

lemma quiet_persist: "related quiet (on_handler (persist_guard V l gd at_time)) s"
proof -
  obtain r w t where "persist_guard V l gd at_time (ls_handler s, rn_thread s) = (r, (w, t))" by (metis prod.exhaust)
  then show ?thesis using reports_persist [of V l gd at_time "ls_handler s" "rn_thread s" r w t]
      same_cells_persist [of V l gd at_time "ls_handler s" "rn_thread s" r w t]
    by (simp add: related_def on_handler_def quiet_def)
qed

lemma quiet_initialize: "related quiet (initialize_thread W) s"
proof -
  have replace: "related quiet (on_thread (\<lambda>t. Inr (replace_messages ms at_time t))) s"
    for ms at_time and s :: "('a, 'b worker_link) loop_state"
    by (simp add: related_def on_thread_def quiet_def replace_messages_def Let_def)
  have "related quiet (\<lambda>s. on_env (f s) s) s" for f :: "('a, 'b worker_link) loop_state \<Rightarrow> ('a, 'c) act" and s
    using quiet_env [of "f s" s] by (simp add: related_def)
  then show ?thesis
    unfolding initialize_thread_def
    by (auto intro!: rel_with_thread quiet_order.rel_bind quiet_order.rel_ret quiet_register replace split: list.split)
qed

lemma quiet_prepare: "related quiet (prepare_guard W V request gd) s"
  unfolding prepare_guard_def
  by (auto intro!: quiet_order.rel_bind quiet_initialize quiet_order.rel_try quiet_persist quiet_order.rel_ret
      quiet_order.rel_fail split: sum.split)

section \<open>The events of a request\<close>

text \<open>After its committed messages, a request reports its finalized turn, then its completion.\<close>

definition event_tail :: "thread_locator \<Rightarrow> bool \<Rightarrow> agent_worker_event list \<Rightarrow> bool" where
  "event_tail l completed tail \<longleftrightarrow> (\<exists>turn at_time.
     tail \<in> {[TurnFinalized l turn, RequestCompleted l at_time]} \<or> \<not> completed \<and> tail \<in> {[], [TurnFinalized l turn]})"

lemma send_event_cases:
  obtains (closed) e where "send_event what ev (w, t) = (Inl e, (w, t))"
  | (sent) "send_event what ev (w, t) = (Inr (), (w\<lparr>wl_events := wl_events w @ [ev]\<rparr>, t))"
  by (cases "wl_closed w") (auto simp: send_event_def)

lemma commit_guard_events:
  "commit_guard V l gd turn (w, t) = (r, (w', t')) \<Longrightarrow> wl_events w' = wl_events w"
  by (auto simp: commit_guard_def Let_def split: prod.splits sum.splits)

lemma report_turn_events:
  assumes "report_turn V l gd what turn (w, t) = (r, (w', t'))"
  shows "(r = Inr () \<and> wl_events w' = wl_events w @ [TurnFinalized l turn]) \<or> (\<exists>e. r = Inl e) \<and> wl_events w' = wl_events w"
proof -
  obtain q w1 t1 where c: "commit_guard V l gd turn (w, t) = (q, (w1, t1))" by (metis prod.exhaust)
  show ?thesis
    using assms c commit_guard_events [OF c]
    by (auto simp: report_turn_def act_bind_def send_event_def split: if_splits sum.splits)
qed

lemma on_handler_run:
  assumes "on_handler m s = (r, s')"
  obtains w t where "m (ls_handler s, rn_thread s) = (r, (w, t))" "s' = s\<lparr>ls_handler := w, rn_thread := t\<rparr>"
  using assms by (cases "m (ls_handler s, rn_thread s)") (auto simp: on_handler_def)

lemma report_success_events:
  assumes "report_success W V l gd out s = (r, s')" "ao_turns out = [\<lparr>ca_turn = turn\<rparr>]"
  shows "\<exists>tail. wl_events (ls_handler s') = wl_events (ls_handler s) @ tail
    \<and> event_tail l (case r of Inl _ \<Rightarrow> False | Inr _ \<Rightarrow> True) tail"
proof -
  let ?report = "report_turns V l gd (ao_turns out)"
  have eq: "?report = report_turn V l gd ''failed to report finalized turn'' turn"
    by (simp add: assms(2) act_bind_def act_ret_def fun_eq_iff split: prod.split sum.split)
  obtain q w t where 1: "?report (ls_handler s, rn_thread s) = (q, (w, t))" by (metis prod.exhaust)
  note ev = report_turn_events [OF 1 [unfolded eq]]
  have h: "on_handler ?report s = (q, s\<lparr>ls_handler := w, rn_thread := t\<rparr>)" by (simp add: on_handler_def 1)
  show ?thesis
  proof (cases q)
    case (Inl e)
    then have "r = Inl e" "s' = s\<lparr>ls_handler := w, rn_thread := t\<rparr>"
      using assms(1) h by (simp_all add: report_success_def act_bind_def)
    then show ?thesis using ev Inl by (auto simp: event_tail_def)
  next
    case (Inr u)
    obtain at_time e where now: "utc_now (aw_loop W) (s\<lparr>ls_handler := w, rn_thread := t\<rparr>)
        = (Inr at_time, s\<lparr>ls_handler := w, rn_thread := t, rn_env := e\<rparr>)"
      using utc_now_run [of "aw_loop W" "s\<lparr>ls_handler := w, rn_thread := t\<rparr>"] by auto
    show ?thesis
    proof (cases "wl_closed w")
      case True
      then have "wl_events (ls_handler s') = wl_events w" "case r of Inl _ \<Rightarrow> True | Inr _ \<Rightarrow> False"
        using assms(1) h Inr now by (auto simp: report_success_def act_bind_def on_handler_def send_event_def)
      then show ?thesis using ev Inr by (auto simp: event_tail_def split: sum.splits)
    next
      case False
      then have "wl_events (ls_handler s') = wl_events w @ [RequestCompleted l at_time]" "r = Inr out"
        using assms(1) h Inr now by (auto simp: report_success_def act_bind_def on_handler_def send_event_def act_ret_def)
      then show ?thesis using ev Inr by (auto simp: event_tail_def)
    qed
  qed
qed

text \<open>The fallback, step by step.\<close>

lemma quiet_thread:
  "(\<And>t t'. f t = Inr t' \<Longrightarrow> th_current_turn t' = th_current_turn t) \<Longrightarrow> related quiet (on_thread f) s"
  by (auto simp: related_def on_thread_def quiet_def split: sum.split)

lemma fallback_commit_reports: "related (reports l) (fallback_commit W V request gd error) s"
  if "ar_locator request = l"
proof -
  have persist: "related (reports l) (on_handler (persist_guard V l gd at_time)) s"
    for at_time and s :: "('a, 'b worker_link) loop_state"
    using quiet_persist [of V l gd at_time s] by (auto simp: related_def quiet_def reports_def)
  have send: "related (reports l) (on_handler (send_event what (MessageCommitted c))) s"
    if "cm_locator c = l" for what c and s :: "('a, 'b worker_link) loop_state"
    using that by (auto simp: related_def on_handler_def send_event_def reports_def intro: exI [of _ "[]"] exI [of _ "[c]"])
  show ?thesis
    unfolding fallback_commit_def Let_def new_uuid_def utc_now_def that
    by (auto intro!: report_order.rel_bind rel_with_thread reports_env reports_thread persist send report_order.rel_ret
        report_order.rel_fail split: option.split)
qed

lemma finalize_failure_handler: "finalize_failure e at_time s = (r, s') \<Longrightarrow> ls_handler s' = ls_handler s"
  by (auto simp: finalize_failure_def split: sum.splits prod.splits)

lemma report_failure_events:
  assumes "report_failure W V request gd error s = (r, s')"
  shows "\<exists>e cs tail. r = Inl e \<and> wl_events (ls_handler s') = wl_events (ls_handler s) @ map MessageCommitted cs @ tail
    \<and> (\<forall>c \<in> set cs. cm_locator c = ar_locator request) \<and> event_tail (ar_locator request) False tail"
proof -
  let ?l = "ar_locator request"
  obtain q1 s1 where 1: "fallback_commit W V request gd error s = (q1, s1)" by fastforce
  obtain cs where cs: "wl_events (ls_handler s1) = wl_events (ls_handler s) @ map MessageCommitted cs"
    "\<forall>c \<in> set cs. cm_locator c = ?l"
    using fallback_commit_reports [of request ?l W V gd error s] 1 by (auto simp: related_def reports_def)
  show ?thesis
  proof (cases q1)
    case (Inl e)
    then show ?thesis using assms 1 cs
      by (intro exI [of _ e] exI [of _ cs] exI [of _ "[]"]) (simp add: report_failure_def Let_def act_bind_def event_tail_def)
  next
    case (Inr u1)
    obtain at_time e2 where 2: "utc_now (aw_loop W) s1 = (Inr at_time, s1\<lparr>rn_env := e2\<rparr>)"
      using utc_now_run [of "aw_loop W" s1] by blast
    obtain q3 s3 where 3: "finalize_failure (err_display_alt error) at_time (s1\<lparr>rn_env := e2\<rparr>) = (q3, s3)" by fastforce
    have e3: "ls_handler s3 = ls_handler s1" using finalize_failure_handler [OF 3] by simp
    show ?thesis
    proof (cases q3)
      case (Inl e)
      then show ?thesis using assms 1 cs Inr 2 3 e3
        by (intro exI [of _ e] exI [of _ cs] exI [of _ "[]"]) (simp add: report_failure_def Let_def act_bind_def event_tail_def)
    next
      case turn: (Inr turn)
      let ?report = "report_turn V ?l gd ''failed to report fallback finalized turn'' turn"
      obtain q4 w t where 4: "?report (ls_handler s3, rn_thread s3) = (q4, (w, t))" by (metis prod.exhaust)
      note ev = report_turn_events [OF 4]
      let ?s4 = "s3\<lparr>ls_handler := w, rn_thread := t\<rparr>"
      have h4: "on_handler ?report s3 = (q4, ?s4)" by (simp add: on_handler_def 4)
      show ?thesis
      proof (cases q4)
        case (Inl e)
        then have q: "r = Inl e" "s' = ?s4"
          using assms 1 Inr 2 3 turn h4 by (auto simp: report_failure_def Let_def act_bind_def)
        have "wl_events w = wl_events (ls_handler s3)" using ev Inl by simp
        then show ?thesis using cs e3
          by (intro exI [of _ e] exI [of _ cs] exI [of _ "[]"]) (simp add: q event_tail_def)
      next
        case u4: (Inr u4)
        then have ev: "wl_events w = wl_events (ls_handler s3) @ [TurnFinalized ?l turn]" using ev by auto
        obtain at5 e5 where 5: "utc_now (aw_loop W) ?s4 = (Inr at5, ?s4\<lparr>rn_env := e5\<rparr>)"
          using utc_now_run [of "aw_loop W" ?s4] by blast
        have "\<exists>e tail2. r = Inl e \<and> wl_events (ls_handler s') = wl_events w @ tail2 \<and> tail2 \<in> {[], [RequestCompleted ?l at5]}"
          using assms 1 Inr 2 3 turn h4 u4 5
          by (auto simp: report_failure_def Let_def act_bind_def on_handler_def send_event_def act_fail_def split: if_splits)
        then obtain e tail2 where "r = Inl e" "wl_events (ls_handler s') = wl_events w @ tail2"
          "tail2 \<in> {[], [RequestCompleted ?l at5]}" by blast
        then show ?thesis using cs e3 ev
          by (intro exI [of _ e] exI [of _ cs] exI [of _ "[TurnFinalized ?l turn] @ tail2"]) (auto simp: event_tail_def)
      qed
    qed
  qed
qed

lemma run_ao_turns:
  assumes "run_locked_thread L tx incoming (worker_on_committed_message V l gd) s = Some (Inr out, s')"
  obtains turn where "ao_turns out = [\<lparr>ca_turn = turn\<rparr>]"
  by (rule worker_handler.run_live_thread_ok [OF assms [unfolded run_locked_thread_def]])

lemma run_guarded_events:
  assumes "run_guarded W V request gd s = Some (r, s')"
  shows "\<exists>cs tail. wl_events (ls_handler s') = wl_events (ls_handler s) @ map MessageCommitted cs @ tail
    \<and> (\<forall>c \<in> set cs. cm_locator c = ar_locator request)
    \<and> event_tail (ar_locator request) (case r of Inl _ \<Rightarrow> False | Inr _ \<Rightarrow> True) tail"
proof -
  let ?l = "ar_locator request"
  obtain q1 s1 where 1: "prepare_guard W V request gd s = (q1, s1)" by fastforce
  have e1: "wl_events (ls_handler s1) = wl_events (ls_handler s)"
    using quiet_prepare [of W V request gd s] 1 by (simp add: related_def quiet_def)
  show ?thesis
  proof (cases q1)
    case (Inl e)
    then have "r = Inl e" "s' = s1" using assms 1 by (auto simp: run_guarded_def)
    then show ?thesis using e1
      by (intro exI [of _ "[]"]) (simp add: event_tail_def)
  next
    case (Inr u1)
    let ?h = "worker_on_committed_message V ?l gd"
    let ?tx = "from_incoming_and_locator (ar_incoming request) (th_locator (rn_thread s1))"
    obtain q2 s2 where 2: "run_locked_thread (aw_loop W) ?tx (ar_incoming request) ?h s1 = Some (q2, s2)"
      using assms 1 Inr by (auto simp: run_guarded_def split: option.splits)
    obtain cs where cs: "wl_events (ls_handler s2) = wl_events (ls_handler s1) @ map MessageCommitted cs"
      "\<forall>c \<in> set cs. cm_locator c = ?l"
      using run_reports [OF 2] by (auto simp: reports_def)
    show ?thesis
    proof (cases q2)
      case (Inl error)
      then have "report_failure W V request gd error s2 = (r, s')"
        using assms 1 Inr 2 by (simp add: run_guarded_def)
      from report_failure_events [OF this] obtain e cs' tail where "r = Inl e"
        "wl_events (ls_handler s') = wl_events (ls_handler s2) @ map MessageCommitted cs' @ tail"
        "\<forall>c \<in> set cs'. cm_locator c = ?l" "event_tail ?l False tail" by blast
      then show ?thesis using cs e1 by (intro exI [of _ "cs @ cs'"] exI [of _ tail]) auto
    next
      case out: (Inr out)
      obtain turn where turn: "ao_turns out = [\<lparr>ca_turn = turn\<rparr>]" by (rule run_ao_turns [OF 2 [unfolded out]])
      have "report_success W V ?l gd out s2 = (r, s')"
        using assms 1 Inr 2 out by (simp add: run_guarded_def)
      from report_success_events [OF this turn] show ?thesis using cs e1 by auto
    qed
  qed
qed

end
