(* ===== verification/OJ_Worker_Faults.thy ===== *)
theory OJ_Worker_Faults
  imports OJ_Worker
begin

text \<open>
  What the worker does with a thread whose turn is still open when a request arrives. A run that ends with
  an error after \<open>begin_turn\<close> leaves the turn open; the fallback of \<open>src/agent/worker.rs\<close> starts with a
  \<open>begin_turn\<close> of its own, which such a thread refuses. This theory follows the consequences for the
  requests that come after.
\<close>

section \<open>A thread with an open turn\<close>

definition turn_open :: "thread_locator \<Rightarrow> handle \<Rightarrow> 's worker_link \<Rightarrow> bool" where
  "turn_open l gd w \<longleftrightarrow> cached_thread_handle l (wl_sessions w) = Some gd
     \<and> gd < length (sm_cells (wl_sessions w)) \<and> th_current_turn (sm_cells (wl_sessions w) ! gd) \<noteq> None"

lemma quiet_emit: "related quiet (emit L k p) s"
  unfolding emit_def by (rule quiet_env)

lemma quiet_uuid: "related quiet (new_uuid L) s"
  unfolding new_uuid_def by (rule quiet_env)

lemma begin_turn_open: "th_current_turn t \<noteq> None \<Longrightarrow> \<exists>e. begin_turn u x at_time t = Inl e"
  by (simp add: begin_turn_def open_turn_def)

definition refused :: "(('e, 's worker_link) loop_state, 'a) act \<Rightarrow> ('e, 's worker_link) loop_state \<Rightarrow> bool" where
  "refused m s \<longleftrightarrow> (\<exists>e s'. m s = (Inl e, s') \<and> quiet s s')"

lemma refused_bind: "refused m s \<Longrightarrow> refused (act_bind m k) s"
  by (auto simp: refused_def act_bind_def)

lemma refused_after:
  assumes "related quiet m s" "th_current_turn (rn_thread s) \<noteq> None"
    and "\<And>x s'. th_current_turn (rn_thread s') \<noteq> None \<Longrightarrow> refused (k x) s'"
  shows "refused (act_bind m k) s"
proof -
  obtain r s1 where 1: "m s = (r, s1)" by fastforce
  have q: "quiet s s1" using assms(1) by (simp add: related_def 1)
  then have t: "th_current_turn (rn_thread s1) \<noteq> None" using assms(2) by (simp add: quiet_def)
  show ?thesis
  proof (cases r)
    case (Inl e)
    then show ?thesis using q by (simp add: refused_def act_bind_def 1)
  next
    case (Inr x)
    obtain e s2 where "k x s1 = (Inl e, s2)" "quiet s1 s2" using assms(3) [OF t, of x] by (auto simp: refused_def)
    then show ?thesis using q Inr by (auto simp: refused_def act_bind_def 1 intro: quiet_order.R_trans)
  qed
qed

lemma refused_begin_turn:
  "th_current_turn (rn_thread s) \<noteq> None \<Longrightarrow> refused (on_thread (begin_turn u x at_time)) s"
  using begin_turn_open [of "rn_thread s" u x at_time] by (auto simp: refused_def on_thread_def quiet_order.R_refl)

lemma refused_begin_run:
  "th_current_turn (rn_thread s) \<noteq> None \<Longrightarrow> refused (begin_run L tx h m x) s"
  unfolding begin_run_def prepare_thread_runtime_def
  by (intro refused_after quiet_register quiet_emit quiet_uuid refused_bind refused_begin_turn rel_with_thread
      quiet_order.rel_ret) (auto simp: related_def quiet_def)

lemma refused_run:
  assumes "th_current_turn (rn_thread s) \<noteq> None"
  shows "\<exists>e s'. run_locked_thread L tx incoming h s = Some (Inl e, s') \<and> quiet s s'"
  using refused_begin_run [OF assms, of L tx h "incoming_chat_message incoming" "im_external_message_id incoming"]
  by (auto simp: refused_def run_locked_thread_def run_live_thread_def)

lemma refused_failure:
  assumes "th_current_turn (rn_thread s) \<noteq> None"
  shows "refused (report_failure W V request gd error) s"
proof -
  have "refused (fallback_commit W V request gd error) s"
    unfolding fallback_commit_def Let_def
    by (intro refused_after [OF quiet_uuid assms] refused_bind refused_begin_turn)
  then show ?thesis unfolding report_failure_def Let_def by (rule refused_bind)
qed

lemma refused_guarded:
  assumes "th_current_turn (rn_thread s) \<noteq> None"
  shows "\<exists>e s'. run_guarded W V request gd s = Some (Inl e, s') \<and> quiet s s'"
proof -
  obtain r s1 where 1: "prepare_guard W V request gd s = (r, s1)" by fastforce
  have q1: "quiet s s1" using quiet_prepare [of W V request gd s] by (simp add: related_def 1)
  show ?thesis
  proof (cases r)
    case (Inl e)
    then show ?thesis using q1 by (simp add: run_guarded_def 1)
  next
    case (Inr u)
    have "th_current_turn (rn_thread s1) \<noteq> None" using q1 assms by (simp add: quiet_def)
    then obtain e s2 where 2: "run_locked_thread (aw_loop W)
        (from_incoming_and_locator (ar_incoming request) (th_locator (rn_thread s1))) (ar_incoming request)
        (worker_on_committed_message V (ar_locator request) gd) s1 = Some (Inl e, s2)" "quiet s1 s2"
      using refused_run by blast
    have "th_current_turn (rn_thread s2) \<noteq> None"
      using 2(2) \<open>th_current_turn (rn_thread s1) \<noteq> None\<close> by (simp add: quiet_def)
    then obtain e' s3 where 3: "report_failure W V request gd e s2 = (Inl e', s3)" "quiet s2 s3"
      using refused_failure by (fastforce simp: refused_def)
    have "quiet s s3" using q1 2(2) 3(2) by (blast intro: quiet_order.R_trans)
    then show ?thesis by (simp add: run_guarded_def 1 Inr 2(1) 3(1))
  qed
qed

lemma lock_cached: "cached_thread_handle l m = Some gd \<Longrightarrow> lock_thread_context ops U fresh l now m = (Inr gd, m)"
  by (simp add: lock_thread_context_def ensure_thread_handle_def)

lemma handle_open_turn:
  assumes "turn_open (ar_locator request) gd (ws_link ws)"
  obtains e ws' where "handle_request W V request ws = Some (Inl e, ws')"
    "wl_events (ws_link ws') = wl_events (ws_link ws)" "turn_open (ar_locator request) gd (ws_link ws')"
proof -
  let ?w = "ws_link ws" and ?l = "ar_locator request"
  let ?ws1 = "ws\<lparr>ws_link := ?w\<lparr>wl_draws := wl_draws ?w + 1\<rparr>\<rparr>"
  have h: "cached_thread_handle ?l (wl_sessions ?w) = Some gd" using assms by (simp add: turn_open_def)
  have "th_current_turn (rn_thread (guarded_state gd ?ws1)) \<noteq> None"
    using assms by (simp add: guarded_state_def turn_open_def)
  then obtain e s where s: "run_guarded W V request gd (guarded_state gd ?ws1) = Some (Inl e, s)"
    "quiet (guarded_state gd ?ws1) s" using refused_guarded by blast
  then have "handle_request W V request ws = Some (Inl e, drop_guard gd s)"
    by (simp add: handle_request_def Let_def lock_cached [OF h])
  moreover have "wl_events (ws_link (drop_guard gd s)) = wl_events ?w"
    using s(2) by (simp add: quiet_def drop_guard_def guarded_state_def)
  moreover have "turn_open ?l gd (ws_link (drop_guard gd s))"
    using s(2) assms by (simp add: quiet_def same_cells_def drop_guard_def guarded_state_def turn_open_def
        sm_handle_cached)
  ultimately show ?thesis by (rule that)
qed

section \<open>A concrete worker\<close>

text \<open>
  A worker over the memory store whose cached threads are given; the first of them has loaded the
  toolset \<open>gone\<close>, which nothing registers.
\<close>

definition demo_features :: "llm_response list feature_env" where
  "demo_features = \<lparr>fe_system_prompt = [], fe_active_catalog_prompt = act_ret None, fe_skill_catalog_prompt = (\<lambda>_. None)\<rparr>"

definition demo_worker :: "llm_response list agent_worker" where
  "demo_worker = \<lparr>aw_loop = script_loop, aw_features = demo_features\<rparr>"

definition demo_session_env :: "memory_store session_env" where
  "demo_session_env = \<lparr>sv_ops = memory_session_store demo_uuid_lib, sv_uuids = demo_uuid_lib, sv_fresh = (\<lambda>_. 5)\<rparr>"

definition demo_request :: agent_request where
  "demo_request = \<lparr>ar_locator = demo_store_locator, ar_incoming = OJ_Agent_Run.demo_incoming\<rparr>"

definition stale_thread :: thread where
  "stale_thread = replace_loaded_toolsets [str ''gone''] demo_stored_thread"

definition open_thread :: thread where
  "open_thread = demo_stored_thread\<lparr>th_current_turn := Some (thread_current_turn_new 3 None 3)\<rparr>"

definition demo_link :: "thread \<Rightarrow> memory_store worker_link" where
  "demo_link t =
     \<lparr>wl_sessions = \<lparr>sm_sessions = [tl_session_key demo_store_locator \<mapsto>
          (cached_session_of_locator (tl_session_key demo_store_locator) demo_store_locator 1)
            \<lparr>cs_threads := [tl_thread_id demo_store_locator \<mapsto> 0]\<rparr>],
        sm_cells = [t], sm_store = memory_store_new\<rparr>,
      wl_draws = 0, wl_events = [], wl_closed = False\<rparr>"

definition demo_worker_state :: "thread \<Rightarrow> (llm_response list, memory_store) worker_state" where
  "demo_worker_state t = \<lparr>ws_env = [demo_answer], ws_registry = script_registry, ws_link = demo_link t\<rparr>"

lemma demo_worker_cached:
  "cached_thread_handle demo_store_locator (wl_sessions (ws_link (demo_worker_state t))) = Some 0"
  "sm_cells (wl_sessions (ws_link (demo_worker_state t))) = [t]" "ar_locator demo_request = demo_store_locator"
  by (simp_all add: cached_thread_handle_def demo_worker_state_def demo_link_def demo_request_def)

lemma demo_open: "turn_open demo_store_locator 0 (ws_link (demo_worker_state open_thread))"
  by (simp add: turn_open_def demo_worker_cached open_thread_def)

text \<open>
  C10: an open turn wedges its thread. Once the cached thread has an open turn, no sequence of requests for
  it ever closes it: each of them fails, none of them sends an event - not even the completion on which
  the router waits - and the thread is left with its open turn.
\<close>
theorem open_turn_wedges_thread:
  assumes "turn_open l gd (ws_link ws)" and "\<forall>request \<in> set requests. ar_locator request = l"
  shows "\<exists>ws'. worker_run W V requests ws = Some ws' \<and> wl_events (ws_link ws') = wl_events (ws_link ws)
    \<and> turn_open l gd (ws_link ws')
    \<and> (\<forall>request. ar_locator request = l \<longrightarrow> (\<exists>e ws''. handle_request W V request ws' = Some (Inl e, ws'')))"
  using assms
proof (induction requests arbitrary: ws)
  case Nil
  have "\<exists>e ws''. handle_request W V request ws = Some (Inl e, ws'')" if "ar_locator request = l" for request
  proof -
    have "turn_open (ar_locator request) gd (ws_link ws)" using Nil(1) that by simp
    then obtain e ws'' where "handle_request W V request ws = Some (Inl e, ws'')"
      "wl_events (ws_link ws'') = wl_events (ws_link ws)" "turn_open (ar_locator request) gd (ws_link ws'')"
      by (rule handle_open_turn)
    then show ?thesis by simp
  qed
  with Nil(1) show ?case by auto
next
  case (Cons request requests)
  have l: "ar_locator request = l" using Cons.prems(2) by simp
  have "turn_open (ar_locator request) gd (ws_link ws)" using Cons.prems(1) l by simp
  then obtain e ws1 where 1: "handle_request W V request ws = Some (Inl e, ws1)"
    "wl_events (ws_link ws1) = wl_events (ws_link ws)" "turn_open (ar_locator request) gd (ws_link ws1)"
    by (rule handle_open_turn)
  have "\<forall>request \<in> set requests. ar_locator request = l" using Cons.prems(2) by simp
  from Cons.IH [OF 1(3) [unfolded l] this] show ?case by (simp only: worker_run.simps 1(1,2) option.case prod.case)
qed

theorem open_turn_wedges_thread_witness:
  "\<exists>ws'. worker_run demo_worker demo_session_env [demo_request, demo_request] (demo_worker_state open_thread) = Some ws'
     \<and> wl_events (ws_link ws') = wl_events (ws_link (demo_worker_state open_thread))"
proof -
  have "\<forall>request \<in> set [demo_request, demo_request]. ar_locator request = demo_store_locator"
    by (simp add: demo_worker_cached)
  from open_turn_wedges_thread [OF demo_open this, of demo_worker demo_session_env] show ?thesis by blast
qed

section \<open>How a turn comes to stay open\<close>

lemma commit_keeps_turn:
  fixes V l gd
  defines "h \<equiv> worker_on_committed_message V l gd"
  assumes "th_current_turn (rn_thread s) = Some turn" and "commit_message tx h m es s = (r, s')"
  shows "th_current_turn (rn_thread s') \<noteq> None" "load_toolsets (rn_thread s') = load_toolsets (rn_thread s)"
    "rn_registry s' = rn_registry s" "same_cells (ls_handler s) (ls_handler s')"
proof -
  obtain ds flag where d: "prepare_dispatch_events tx es (ls_reply_to_source s) = (ds, flag)" by fastforce
  let ?t = "committed_thread m es turn (rn_thread s)"
  obtain q x t where p: "persist_guard V l gd (msg_created_at m) (ls_handler s, ?t) = (q, (x, t))" by (metis prod.exhaust)
  have t: "th_state t = th_state ?t" "th_current_turn t = th_current_turn ?t"
    by (rule persist_guard_cases [of V l gd "msg_created_at m" "ls_handler s" ?t]; simp add: p)+
  have s': "rn_thread s' = t" "rn_registry s' = rn_registry s" "same_cells x (ls_handler s')"
    using assms(3) by (auto simp: commit_message_run [OF assms(2)] d h_def worker_on_committed_message_def act_bind_def p
        send_event_def same_cells_def split: sum.splits if_splits)
  show "rn_registry s' = rn_registry s" by (rule s'(2))
  show "th_current_turn (rn_thread s') \<noteq> None" "load_toolsets (rn_thread s') = load_toolsets (rn_thread s)"
    using t committed_thread_sel [OF assms(2)] by (simp_all add: s'(1))
  show "same_cells (ls_handler s) (ls_handler s')"
    by (rule same_cells_trans [OF same_cells_persist [OF p] s'(3)])
qed

lemma begin_run_opens:
  fixes V l gd
  defines "h \<equiv> worker_on_committed_message V l gd"
  assumes "al_hooks L = []" "th_current_turn (rn_thread s) = None"
    and "register_builtin_tools (al_tools L) s = (Inr (), s0)"
  obtains r s1 where "begin_run L tx h m x s = (r, s1)" "th_current_turn (rn_thread s1) \<noteq> None"
    "load_toolsets (rn_thread s1) = load_toolsets (rn_thread s)" "rn_registry s1 = rn_registry s0"
    "same_cells (ls_handler s) (ls_handler s1)"
proof -
  obtain g e where s0: "s0 = s\<lparr>rn_registry := g, rn_env := e\<rparr>" using register_builtin_tools_run [OF assms(4)] by blast
  let ?s1 = "s0\<lparr>ls_used_tool_names := [], ls_last_visible_tools := [], ls_last_budget_report := None,
      ls_reply_to_source := True\<rparr>"
  obtain u e' where uuid: "new_uuid L ?s1 = (Inr u, ?s1\<lparr>rn_env := e'\<rparr>)" using new_uuid_run [of L ?s1] by blast
  obtain t turn where t: "begin_turn u x (msg_created_at m) (rn_thread s) = Inr t" "th_current_turn t = Some turn"
    "load_toolsets t = load_toolsets (rn_thread s)"
    using assms(3) by (auto simp: begin_turn_def open_turn_def thread_current_turn_new_def Let_def)
  let ?s2 = "?s1\<lparr>rn_env := e', rn_thread := t\<rparr>"
  obtain r s3 where c: "commit_message tx h m [] ?s2 = (r, s3)" by fastforce
  note keep = commit_keeps_turn [of ?s2 turn tx V l gd m "[]" r s3, simplified, OF t(2) c [unfolded h_def, simplified]]
  have "\<exists>q. begin_run L tx h m x s = (q, s3)"
    using uuid t(1) c
    by (auto simp add: begin_run_def prepare_thread_runtime_def act_bind_def assms(4) with_thread_def
        act_ret_def emit_no_hooks [OF assms(2)] on_thread_def s0 split: sum.split)
  then obtain q where "begin_run L tx h m x s = (q, s3)" ..
  then show ?thesis using keep t(3) by (intro that [of q s3]) (auto simp: s0)
qed

lemma stale_list_fails:
  assumes "n \<in> set (load_toolsets (rn_thread s))" "map_of (tg_toolsets (rn_registry s)) n = None"
  obtains e s' where "prepare_request_state L s = (Inl e, s')" "ls_handler s' = ls_handler s"
    "th_current_turn (rn_thread s') = th_current_turn (rn_thread s)"
proof -
  obtain r s' where 1: "list_for_context_with_compact (al_tools L) False s = (r, s')" by fastforce
  have fails: "\<exists>e. r = Inl e" using stale_listing [OF assms, of "al_tools L" False] 1 by auto
  have frame: "registry_frame s s'" by (rule framedD [OF framed_list 1])
  have "run_state.more s' = run_state.more s" using frame by (simp add: registry_frame_def)
  then have "ls_handler s' = ls_handler s" by (cases s, cases s') simp
  moreover have "th_current_turn (rn_thread s') = th_current_turn (rn_thread s)"
    using frame toolsets_only_sel(2) by (simp add: registry_frame_def)
  ultimately show ?thesis using fails 1 by (auto simp: prepare_request_state_def act_bind_def intro: that)
qed

lemma stale_run:
  fixes V l gd
  defines "h \<equiv> worker_on_committed_message V l gd"
  assumes "al_hooks L = []" "th_current_turn (rn_thread s) = None" "n \<in> set (load_toolsets (rn_thread s))"
    and "register_builtin_tools (al_tools L) s = (Inr (), s0)" "map_of (tg_toolsets (rn_registry s0)) n = None"
  obtains e s' where "run_locked_thread L tx incoming h s = Some (Inl e, s')" "th_current_turn (rn_thread s') \<noteq> None"
    "same_cells (ls_handler s) (ls_handler s')"
proof -
  obtain r s1 where b: "begin_run L tx h (incoming_chat_message incoming) (im_external_message_id incoming) s = (r, s1)"
    "th_current_turn (rn_thread s1) \<noteq> None" "load_toolsets (rn_thread s1) = load_toolsets (rn_thread s)"
    "rn_registry s1 = rn_registry s0" "same_cells (ls_handler s) (ls_handler s1)"
    unfolding h_def by (rule begin_run_opens [OF assms(2,3,5)])
  show ?thesis
  proof (cases r)
    case (Inl e)
    then show ?thesis using b by (intro that [of e s1]) (simp_all add: run_locked_thread_def run_live_thread_def)
  next
    case (Inr tid)
    obtain e s2 where p: "prepare_request_state L s1 = (Inl e, s2)" "ls_handler s2 = ls_handler s1"
      "th_current_turn (rn_thread s2) = th_current_turn (rn_thread s1)"
      using stale_list_fails [of n s1 L] assms(4,6) b(3,4) by metis
    then have "loop_iteration L tx h tid s1 = (Inl e, s2)" by (simp add: loop_iteration_def act_bind_def)
    then have "turn_loop L tx h tid s1 = Some (Inl e, s2)" by (subst turn_loop.simps) simp
    then have "run_locked_thread L tx incoming h s = Some (Inl e, s2)"
      using b(1) Inr by (simp add: run_locked_thread_def run_live_thread_def)
    then show ?thesis using b(2,5) p(2,3) by (intro that [of e s2]) simp_all
  qed
qed

lemma stale_request:
  assumes "cached_thread_handle (ar_locator request) (wl_sessions (ws_link ws)) = Some gd"
    and "gd < length (sm_cells (wl_sessions (ws_link ws)))"
    and "sm_cells (wl_sessions (ws_link ws)) ! gd = t" and "th_current_turn t = None" and "messages t \<noteq> []"
    and "n \<in> set (load_toolsets t)" and "al_hooks (aw_loop W) = []"
    and "\<And>s :: ('e, 's worker_link) loop_state. rn_registry s = ws_registry ws \<Longrightarrow>
           \<exists>s0. register_builtin_tools (al_tools (aw_loop W)) s = (Inr (), s0)
              \<and> map_of (tg_toolsets (rn_registry s0)) n = None"
  shows "\<exists>e ws'. handle_request (W :: 'e agent_worker) (V :: 's session_env) request ws = Some (Inl e, ws')
    \<and> turn_open (ar_locator request) gd (ws_link ws')
    \<and> (\<exists>cs. wl_events (ws_link ws') = wl_events (ws_link ws) @ map MessageCommitted cs)"
proof -
  let ?w = "ws_link ws" and ?l = "ar_locator request"
  define s where "s = guarded_state gd (ws\<lparr>ws_link := ?w\<lparr>wl_draws := wl_draws ?w + 1\<rparr>\<rparr>)"
  have st: "rn_thread s = t" "ls_handler s = ?w\<lparr>wl_draws := wl_draws ?w + 1\<rparr>" "rn_registry s = ws_registry ws"
    using assms(3) by (simp_all add: s_def guarded_state_def)
  have prep: "prepare_guard W V request gd s = (Inr (), s)"
    using assms(5) st(1) by (simp add: prepare_guard_def initialize_thread_def act_bind_def with_thread_def act_ret_def)
  obtain s0 where s0: "register_builtin_tools (al_tools (aw_loop W)) s = (Inr (), s0)"
    "map_of (tg_toolsets (rn_registry s0)) n = None" using assms(8) [OF st(3)] by blast
  have idle: "th_current_turn (rn_thread s) = None" "n \<in> set (load_toolsets (rn_thread s))"
    by (simp_all add: st(1) assms(4,6))
  let ?tx = "from_incoming_and_locator (ar_incoming request) (th_locator (rn_thread s))"
  obtain e s1 where run: "run_locked_thread (aw_loop W) ?tx (ar_incoming request) (worker_on_committed_message V ?l gd) s
      = Some (Inl e, s1)" "th_current_turn (rn_thread s1) \<noteq> None" "same_cells (ls_handler s) (ls_handler s1)"
    by (rule stale_run [OF assms(7) idle s0])
  obtain e' s2 where fail: "report_failure W V request gd e s1 = (Inl e', s2)" "quiet s1 s2"
    using refused_failure [OF run(2)] by (fastforce simp: refused_def)
  have guarded: "run_guarded W V request gd s = Some (Inl e', s2)"
    by (simp add: run_guarded_def prep run(1) fail(1))
  have "handle_request W V request ws = Some (Inl e', drop_guard gd s2)"
    using guarded by (simp add: handle_request_def Let_def s_def lock_cached [OF assms(1)])
  moreover have "turn_open ?l gd (ws_link (drop_guard gd s2))"
    using run(2,3) fail(2) assms(1,2)
    by (simp add: quiet_def same_cells_def turn_open_def drop_guard_def sm_handle_cached st(2))
  moreover have "\<exists>cs. wl_events (ls_handler s2) = wl_events ?w @ map MessageCommitted cs"
    using run_reports [OF run(1)] fail(2) st(2) by (auto simp: reports_def quiet_def)
  then have "\<exists>cs. wl_events (ws_link (drop_guard gd s2)) = wl_events ?w @ map MessageCommitted cs"
    by (simp add: drop_guard_def)
  ultimately show ?thesis by blast
qed

lemma stale_thread_sel:
  "th_current_turn stale_thread = None" "messages stale_thread \<noteq> []" "str ''gone'' \<in> set (load_toolsets stale_thread)"
proof -
  have "trim (str ''gone'') = str ''gone''" by (rule trim_word) (simp add: str_def is_whitespace_def)
  then show "th_current_turn stale_thread = None" "messages stale_thread \<noteq> []"
    "str ''gone'' \<in> set (load_toolsets stale_thread)"
    by (simp_all add: stale_thread_def replace_loaded_toolsets_def demo_stored_thread_sel demo_stored_thread_def
        replace_messages_def thread_new_def normalize_loaded_toolsets_def str_def Let_def)
qed

lemma demo_worker_registration:
  fixes s :: "(llm_response list, memory_store worker_link) loop_state"
  assumes "rn_registry s = script_registry"
  shows "\<exists>s0. register_builtin_tools (al_tools (aw_loop demo_worker)) s = (Inr (), s0)
      \<and> map_of (tg_toolsets (rn_registry s0)) (str ''gone'') = None"
proof -
  have "aw_loop demo_worker = script_loop" by (simp add: demo_worker_def)
  with script_builtin [OF assms] show ?thesis
    by (intro exI [of _ s]) (simp add: assms script_registry_def str_def)
qed

lemma demo_worker_hooks: "al_hooks (aw_loop demo_worker) = []"
  by (simp add: demo_worker_def script_loop_def)

text \<open>
  C9: a stale toolset wedges its thread. Take a seeded, idle thread that has loaded a toolset which is not
  registered any more, say one of an MCP server dropped from the configuration. Its next request fails
  with the turn open, whatever the store answers; the fallback fails on that open turn, so no turn is
  finalized and the request is never reported as completed.
\<close>
theorem stale_toolset_wedges_thread:
  assumes "cached_thread_handle (ar_locator request) (wl_sessions (ws_link ws)) = Some gd"
    and "gd < length (sm_cells (wl_sessions (ws_link ws)))"
    and "sm_cells (wl_sessions (ws_link ws)) ! gd = t" and "th_current_turn t = None" and "messages t \<noteq> []"
    and "n \<in> set (load_toolsets t)" and "al_hooks (aw_loop W) = []"
    and "\<And>s :: ('e, 's worker_link) loop_state. rn_registry s = ws_registry ws \<Longrightarrow>
           \<exists>s0. register_builtin_tools (al_tools (aw_loop W)) s = (Inr (), s0)
              \<and> map_of (tg_toolsets (rn_registry s0)) n = None"
  shows "\<exists>e ws'. handle_request (W :: 'e agent_worker) (V :: 's session_env) request ws = Some (Inl e, ws')
    \<and> turn_open (ar_locator request) gd (ws_link ws')
    \<and> (\<exists>cs. wl_events (ws_link ws') = wl_events (ws_link ws) @ map MessageCommitted cs)"
  using stale_request [OF assms] .

theorem stale_toolset_wedges_thread_witness:
  "\<exists>e ws'. handle_request demo_worker demo_session_env demo_request (demo_worker_state stale_thread) = Some (Inl e, ws')
     \<and> turn_open demo_store_locator 0 (ws_link ws')"
proof -
  have reg: "\<exists>s0. register_builtin_tools (al_tools (aw_loop demo_worker)) s = (Inr (), s0)
      \<and> map_of (tg_toolsets (rn_registry s0)) (str ''gone'') = None"
    if "rn_registry s = ws_registry (demo_worker_state stale_thread)"
    for s :: "(llm_response list, memory_store worker_link) loop_state"
    using that by (intro demo_worker_registration) (simp add: demo_worker_state_def)
  from stale_toolset_wedges_thread [of demo_request "demo_worker_state stale_thread" 0 stale_thread "str ''gone''"
      demo_worker demo_session_env, unfolded demo_worker_cached, OF _ _ _ stale_thread_sel demo_worker_hooks reg]
  show ?thesis by (auto simp: demo_worker_cached)
qed

lemma handle_request_events:
  assumes "handle_request W V request ws = Some (r, ws')"
  shows "\<exists>cs tail. wl_events (ws_link ws') = wl_events (ws_link ws) @ map MessageCommitted cs @ tail
    \<and> (\<forall>c \<in> set cs. cm_locator c = ar_locator request)
    \<and> event_tail (ar_locator request) (case r of Inl _ \<Rightarrow> False | Inr _ \<Rightarrow> True) tail"
proof -
  let ?w = "ws_link ws"
  obtain q m1 where q: "lock_thread_context (sv_ops V) (sv_uuids V) (sv_fresh V (wl_draws ?w)) (ar_locator request)
      (im_received_at (ar_incoming request)) (wl_sessions ?w) = (q, m1)" by fastforce
  let ?ws1 = "ws\<lparr>ws_link := ?w\<lparr>wl_sessions := m1, wl_draws := wl_draws ?w + 1\<rparr>\<rparr>"
  show ?thesis
  proof (cases q)
    case (Inl e)
    then show ?thesis using assms q
      by (intro exI [of _ "[]"]) (auto simp: handle_request_def Let_def event_tail_def)
  next
    case (Inr gd)
    obtain s where s: "run_guarded W V request gd (guarded_state gd ?ws1) = Some (r, s)" "ws' = drop_guard gd s"
      using assms q Inr by (auto simp: handle_request_def Let_def)
    show ?thesis using run_guarded_events [OF s(1)] by (simp add: s(2) drop_guard_def guarded_state_def)
  qed
qed

text \<open>
  C11: the events of a request come in order. However a request ends, what it puts on the event channel is
  its committed messages, then at most one finalized turn, then at most one completion, all for its own
  locator; the completion is last and never without the finalized turn, and a request that returns its
  output has sent all of it.
\<close>
theorem request_events_are_ordered:
  assumes "handle_request W V request ws = Some (r, ws')"
  shows "\<exists>cs tail. wl_events (ws_link ws') = wl_events (ws_link ws) @ map MessageCommitted cs @ tail
    \<and> (\<forall>c \<in> set cs. cm_locator c = ar_locator request)
    \<and> event_tail (ar_locator request) (case r of Inl _ \<Rightarrow> False | Inr _ \<Rightarrow> True) tail"
  by (rule handle_request_events [OF assms])

theorem request_events_are_ordered_witness:
  "\<exists>r ws' cs tail. handle_request demo_worker demo_session_env demo_request (demo_worker_state open_thread) = Some (r, ws')
     \<and> wl_events (ws_link ws') = wl_events (ws_link (demo_worker_state open_thread)) @ map MessageCommitted cs @ tail
     \<and> event_tail demo_store_locator (case r of Inl _ \<Rightarrow> False | Inr _ \<Rightarrow> True) tail"
proof -
  have "turn_open (ar_locator demo_request) 0 (ws_link (demo_worker_state open_thread))"
    using demo_open by (simp add: demo_worker_cached)
  then obtain e ws' where run: "handle_request demo_worker demo_session_env demo_request (demo_worker_state open_thread)
      = Some (Inl e, ws')" "wl_events (ws_link ws') = wl_events (ws_link (demo_worker_state open_thread))"
    "turn_open (ar_locator demo_request) 0 (ws_link ws')"
    by (rule handle_open_turn)
  from request_events_are_ordered [OF run(1)] run(1) show ?thesis unfolding demo_worker_cached(3) by blast
qed

section \<open>Seeding\<close>

lemma build_messages_tool_use:
  assumes "build_messages (feature_prompt_rebuilder_new v g) w t b e = (Inr ms, e')"
  obtains m where "m \<in> set ms" "msg_content m = TOOL_USE_MODE_PROMPT"
proof -
  obtain c e1 where "run_providers (feature_prompt_rebuilder_new v g) c e1 = (Inr ms, e')"
    using assms by (auto simp: build_messages_def act_bind_Inr)
  then obtain pre post where "ms = pre @ system_message c TOOL_USE_MODE_PROMPT # post"
    by (auto simp: feature_prompt_rebuilder_new_def act_bind_Inr toolset_catalog_build_def act_ret_def)
  then show ?thesis by (intro that [of "system_message c TOOL_USE_MODE_PROMPT"]) auto
qed

text \<open>
  C19: a thread is seeded once, and with system messages only. A thread that has messages is left exactly
  as it is; a thread without any holds, after a successful initialization, system messages only, the
  tool-use notice among them, and its open turn, toolsets and events are unchanged.
\<close>
theorem thread_is_seeded_once:
  assumes "initialize_thread W s = (Inr seeded, s')"
  shows "(messages (rn_thread s) \<noteq> [] \<longrightarrow> \<not> seeded \<and> s' = s)
    \<and> (messages (rn_thread s) = [] \<longrightarrow> seeded \<and> (\<forall>m \<in> set (messages (rn_thread s')). is_system m)
         \<and> TOOL_USE_MODE_PROMPT \<in> msg_content ` set (messages (rn_thread s'))
         \<and> th_current_turn (rn_thread s') = th_current_turn (rn_thread s)
         \<and> th_state (rn_thread s') = th_state (rn_thread s) \<and> ls_handler s' = ls_handler s)"
proof (cases "messages (rn_thread s) = []")
  case False
  then show ?thesis using assms by (simp add: initialize_thread_def with_thread_def act_ret_def)
next
  case True
  obtain s1 where reg: "register_builtin_tools (al_tools (aw_loop W)) s = (Inr (), s1)"
    using assms True by (auto simp: initialize_thread_def with_thread_def act_bind_Inr)
  then have s1: "rn_thread s1 = rn_thread s" "ls_handler s1 = ls_handler s"
    using register_builtin_tools_run [OF reg] by auto
  obtain ms env where built: "build_messages (feature_prompt_rebuilder_new (aw_features W) (rn_registry s1)) (al_world (aw_loop W))
      (rn_thread s1) (acc_enabled (al_compact_config (aw_loop W))
        \<and> auto_compact_enabled (acc_auto_compact (al_compact_config (aw_loop W))) (rn_thread s1)) (rn_env s1) = (Inr ms, env)"
    and rest: "(case ms of [] \<Rightarrow> act_ret False
       | m # _ \<Rightarrow> act_bind (on_thread (\<lambda>t. Inr (replace_messages ms (msg_created_at m) t))) (\<lambda>_. act_ret True))
       (s1\<lparr>rn_env := env\<rparr>) = (Inr seeded, s')"
    using assms True reg by (auto simp: initialize_thread_def with_thread_def act_bind_Inr on_env_def split: prod.splits)
  obtain x where x: "x \<in> set ms" "msg_content x = TOOL_USE_MODE_PROMPT" by (rule build_messages_tool_use [OF built])
  then obtain m ms' where ms: "ms = m # ms'" by (cases ms) auto
  have "seeded" "messages (rn_thread s') = ms" "th_current_turn (rn_thread s') = th_current_turn (rn_thread s)"
    "th_state (rn_thread s') = th_state (rn_thread s)" "ls_handler s' = ls_handler s"
    using rest s1 by (auto simp: ms act_bind_Inr on_thread_def act_ret_def replace_messages_def Let_def)
  then show ?thesis using True build_messages_system [OF built] x by (simp add: image_iff) metis
qed

theorem thread_is_seeded_once_witness:
  "\<exists>seeded s'. initialize_thread demo_worker
       (guarded_state 0 (demo_worker_state (thread_new demo_locator 0))) = (Inr seeded, s')
     \<and> seeded \<and> TOOL_USE_MODE_PROMPT \<in> msg_content ` set (messages (rn_thread s'))"
proof -
  let ?s = "guarded_state 0 (demo_worker_state (thread_new demo_locator 0))"
  have ms: "messages (rn_thread ?s) = []"
    by (simp add: guarded_state_def demo_worker_cached thread_new_def thread_context_new_def)
  have "rn_registry ?s = script_registry" by (simp add: guarded_state_def demo_worker_state_def)
  from script_builtin [OF this] have reg: "register_builtin_tools (al_tools (aw_loop demo_worker)) ?s = (Inr (), ?s)"
    by (simp add: demo_worker_def)
  have "\<exists>m ms env. build_messages (feature_prompt_rebuilder_new demo_features (rn_registry ?s)) script_world (rn_thread ?s)
      False (rn_env ?s) = (Inr (m # ms), env)"
    by (simp add: build_messages_def feature_prompt_rebuilder_new_def act_bind_def act_now_def script_world_def
        static_system_prompt_build_def toolset_catalog_build_def active_memory_catalog_build_def
        skill_catalog_build_def auto_compact_build_def act_ret_def demo_features_def Let_def trim_def trim_start_def)
  then have "\<exists>seeded s'. initialize_thread demo_worker ?s = (Inr seeded, s')"
    using ms reg by (auto simp: initialize_thread_def with_thread_def act_bind_def demo_worker_def script_loop_def on_env_def
        on_thread_def act_ret_def split: prod.split sum.split list.split)
  then obtain seeded s' where run: "initialize_thread demo_worker ?s = (Inr seeded, s')" by blast
  from thread_is_seeded_once [OF run] ms run show ?thesis by blast
qed

end
