(* ===== verification/OJ_Command.thy ===== *)
theory OJ_Command
  imports OJ_Compact OJ_Model
begin

text \<open>
  Slash commands, \<open>src/command.rs\<close>: parsing, the registry the router asks first, and the built-in
  commands. A handler reads the invocation and the incoming message and may change the thread it is
  given. What the context command takes from the configuration is its estimator; the JSON printer,
  the \<open>f64\<close> quotient and \<open>format!("{:.2}", ratio * 100.0)\<close> are parameters.
\<close>

section \<open>Words\<close>

text \<open>\<open>split_whitespace\<close> of the standard library.\<close>

function split_whitespace :: "rstring \<Rightarrow> rstring list" where
  "split_whitespace s =
     (case trim_start s of
        [] \<Rightarrow> []
      | c # cs \<Rightarrow> takeWhile (\<lambda>c. \<not> is_whitespace c) (c # cs)
                  # split_whitespace (dropWhile (\<lambda>c. \<not> is_whitespace c) (c # cs)))"
  by pat_completeness auto

lemma trim_start_cases:
  obtains (blank) "trim_start s = []" "\<forall>c \<in> set s. is_whitespace c"
  | (word) c cs where "trim_start s = c # cs" "\<not> is_whitespace c"
proof (cases "trim_start s")
  case Nil
  then have "\<forall>c \<in> set s. is_whitespace c" by (simp add: trim_start_def)
  then show ?thesis using Nil by (rule blank [rotated])
next
  case (Cons c cs)
  then have "\<not> is_whitespace c" by (metis hd_dropWhile list.sel(1) list.distinct(1) trim_start_def)
  then show ?thesis using Cons by (rule word [rotated])
qed

termination split_whitespace
proof (relation "measure length", goal_cases)
  case (2 s c cs)
  have "\<not> is_whitespace c" using 2 by (rule_tac s = s in trim_start_cases) auto
  moreover have "length (trim_start s) \<le> length s" by (simp add: trim_start_def length_dropWhile_le)
  ultimately show ?case using 2 length_dropWhile_le [of "\<lambda>c. \<not> is_whitespace c" cs] by simp
qed simp

declare split_whitespace.simps [simp del]

text \<open>\<open>str::parse::<usize>\<close> on the 64-bit targets the program runs on.\<close>

definition is_ascii_digit :: "nat \<Rightarrow> bool" where
  "is_ascii_digit c \<longleftrightarrow> 48 \<le> c \<and> c \<le> 57"

definition parse_usize :: "rstring \<Rightarrow> nat option" where
  "parse_usize s =
     (let digits = (if starts_with s [43] then drop 1 s else s);
          n = foldl (\<lambda>n c. 10 * n + (c - 48)) 0 digits in
      if digits = [] \<or> \<not> list_all is_ascii_digit digits \<or> 2 ^ 64 \<le> n then None else Some n)"

section \<open>Replies and invocations\<close>

record command_reply =
  cy_name :: rstring
  cy_success :: bool
  cy_message :: rstring

definition reply_success :: "rstring \<Rightarrow> rstring \<Rightarrow> command_reply" where
  "reply_success name message = \<lparr>cy_name = name, cy_success = True, cy_message = message\<rparr>"

definition reply_failed :: "rstring \<Rightarrow> rstring \<Rightarrow> command_reply" where
  "reply_failed name message = \<lparr>cy_name = name, cy_success = False, cy_message = message\<rparr>"

definition formatted_content :: "command_reply \<Rightarrow> rstring" where
  "formatted_content r =
     (let status = (if cy_success r then str ''SUCCESS'' else str ''FAILED'') in
      str ''[Command]['' @ cy_name r @ str ''][''  @ status @ str '']: '' @ cy_message r)"

record command_invocation =
  ci_name :: rstring
  ci_raw_arguments :: rstring
  ci_arguments :: "rstring list"

definition invocation_parse :: "rstring \<Rightarrow> err + command_invocation option" where
  "invocation_parse message =
     (let trimmed = trim_start message in
      if \<not> starts_with trimmed (str ''/'') then Inr None
      else
        let body = drop 1 trimmed in
        if trim body = [] then Inl (bail (str ''command name is required''))
        else
          let name_part = takeWhile (\<lambda>c. \<not> is_whitespace c) body;
              name = to_ascii_lowercase (trim name_part) in
          if name = [] then Inl (bail (str ''command name is required''))
          else
            let raw_arguments = trim_start (drop (length name_part) body) in
            Inr (Some \<lparr>ci_name = name, ci_raw_arguments = raw_arguments,
                       ci_arguments = (if raw_arguments = [] then [] else split_whitespace raw_arguments)\<rparr>))"

definition remove_prefix_at_if_exist :: "incoming_message \<Rightarrow> rstring" where
  "remove_prefix_at_if_exist incoming =
     (if im_channel incoming \<noteq> str ''feishu'' then im_content incoming
      else
        let trimmed = trim_start (im_content incoming) in
        if \<not> starts_with trimmed (str ''@'') then im_content incoming
        else if \<not> (\<exists>c \<in> set trimmed. is_whitespace c) then im_content incoming
        else
          let rest = trim_start (dropWhile (\<lambda>c. \<not> is_whitespace c) trimmed) in
          if starts_with rest (str ''/'') then rest else im_content incoming)"

section \<open>The registry\<close>

record command_handler =
  ch_requires_idle_thread :: bool
  ch_execute :: "command_invocation \<Rightarrow> incoming_message \<Rightarrow> thread \<Rightarrow> (err + command_reply) \<times> thread"

type_synonym command_registry = "rstring \<rightharpoonup> command_handler"

definition command_registry_new :: command_registry where
  "command_registry_new = Map.empty"

definition normalize_command_name :: "rstring \<Rightarrow> err + rstring" where
  "normalize_command_name name =
     (let normalized = to_ascii_lowercase (dropWhile (\<lambda>c. c = 47) (trim name)) in
      if normalized = [] then Inl (bail (str ''command name must not be empty''))
      else if \<exists>c \<in> set normalized. is_whitespace c then Inl (bail (str ''command name must not contain whitespace''))
      else Inr normalized)"

text \<open>\<open>insert\<close> puts the handler in before its answer is looked at.\<close>

definition command_register ::
    "rstring \<Rightarrow> command_handler \<Rightarrow> command_registry \<Rightarrow> (err + unit) \<times> command_registry" where
  "command_register name handler registry =
     (case normalize_command_name name of
        Inl e \<Rightarrow> (Inl e, registry)
      | Inr name \<Rightarrow>
          (if registry name \<noteq> None
           then (Inl (bail (str ''command `'' @ name @ str ''` is already registered'')), registry(name \<mapsto> handler))
           else (Inr (), registry(name \<mapsto> handler))))"

definition is_command :: "incoming_message \<Rightarrow> err + bool" where
  "is_command incoming = map_sum id (\<lambda>i. i \<noteq> None) (invocation_parse (remove_prefix_at_if_exist incoming))"

definition running_thread_reply :: "command_registry \<Rightarrow> incoming_message \<Rightarrow> err + command_reply option" where
  "running_thread_reply registry incoming =
     (case invocation_parse (remove_prefix_at_if_exist incoming) of
        Inl e \<Rightarrow> Inl e
      | Inr None \<Rightarrow> Inr None
      | Inr (Some invocation) \<Rightarrow>
          (case registry (ci_name invocation) of
             None \<Rightarrow> Inr None
           | Some handler \<Rightarrow>
               (if \<not> ch_requires_idle_thread handler then Inr None
                else Inr (Some (reply_failed (ci_name invocation)
                  (str ''current thread is running; /'' @ ci_name invocation
                   @ str '' is unavailable until the active agent turn completes''))))))"

definition try_execute_with_thread_context ::
    "command_registry \<Rightarrow> incoming_message \<Rightarrow> thread \<Rightarrow> (err + command_reply option) \<times> thread" where
  "try_execute_with_thread_context registry incoming t =
     (case invocation_parse (remove_prefix_at_if_exist incoming) of
        Inl e \<Rightarrow> (Inl e, t)
      | Inr None \<Rightarrow> (Inr None, t)
      | Inr (Some invocation) \<Rightarrow>
          (case registry (ci_name invocation) of
             None \<Rightarrow> (Inr (Some (reply_failed (ci_name invocation) (str ''unknown command''))), t)
           | Some handler \<Rightarrow> map_prod (map_sum id Some) id (ch_execute handler invocation incoming t)))"

section \<open>The built-in commands\<close>

definition test_execute :: "command_invocation \<Rightarrow> incoming_message \<Rightarrow> thread \<Rightarrow> (err + command_reply) \<times> thread" where
  "test_execute invocation incoming t =
     (let message = (if ci_raw_arguments invocation = [] then str ''test command ok'' else ci_raw_arguments invocation) in
      (Inr (reply_success (ci_name invocation) message), t))"

definition equal_execute :: "command_invocation \<Rightarrow> incoming_message \<Rightarrow> thread \<Rightarrow> (err + command_reply) \<times> thread" where
  "equal_execute invocation incoming t =
     (case ci_arguments invocation of
        [a, b] \<Rightarrow>
          (if a = b then (Inr (reply_success (ci_name invocation) (a @ str '' == '' @ b)), t)
           else (Inr (reply_failed (ci_name invocation) (a @ str '' != '' @ b)), t))
      | _ \<Rightarrow> (Inr (reply_failed (ci_name invocation) (str ''equal expects exactly 2 arguments'')), t))"

definition echo_execute :: "command_invocation \<Rightarrow> incoming_message \<Rightarrow> thread \<Rightarrow> (err + command_reply) \<times> thread" where
  "echo_execute invocation incoming t = (Inr (reply_success (ci_name invocation) (ci_raw_arguments invocation)), t)"

definition clear_usage :: "rstring \<Rightarrow> command_reply" where
  "clear_usage name = reply_failed name (str ''usage: /clear'')"

definition clear_execute :: "command_invocation \<Rightarrow> incoming_message \<Rightarrow> thread \<Rightarrow> (err + command_reply) \<times> thread" where
  "clear_execute invocation incoming t =
     (if ci_arguments invocation \<noteq> [] then (Inr (clear_usage (ci_name invocation)), t)
      else
        let t' = clear_to_initial_state (im_received_at incoming) t in
        (Inr (reply_success (ci_name invocation)
           (str ''cleared current thread `'' @ tcl_external_thread_id (th_locator t')
            @ str ''`; all chat messages and thread-scoped runtime state have been reset'')), t'))"

subsection \<open>The context report\<close>

record context_env =
  cx_estimator :: context_budget_estimator
  cx_js :: "json \<Rightarrow> rstring"
  cx_fdiv :: "nat \<Rightarrow> nat \<Rightarrow> rat"
  cx_percent :: "rat \<Rightarrow> rstring"

definition CONTEXT_MESSAGE_PREVIEW_LIMIT :: nat where
  "CONTEXT_MESSAGE_PREVIEW_LIMIT = 48"

definition message_preview :: "rstring \<Rightarrow> rstring" where
  "message_preview content =
     (let normalized = join (str '' '') (split_whitespace content) in
      if normalized = [] then str ''<empty>''
      else
        let total_chars = length normalized;
            preview = map (\<lambda>c. if c = 34 then 39 else c) (take CONTEXT_MESSAGE_PREVIEW_LIMIT normalized) in
        if total_chars > CONTEXT_MESSAGE_PREVIEW_LIMIT then preview @ str ''...'' else preview)"

definition ordered_chat_message_roles :: "chat_message_role list" where
  "ordered_chat_message_roles = [RoleSystem, RoleUser, RoleAssistant, RoleToolcall, RoleToolResult]"

definition estimate_tokens_for_role :: "context_env \<Rightarrow> chat_message list \<Rightarrow> chat_message_role \<Rightarrow> nat" where
  "estimate_tokens_for_role X ms role =
     sum_list (map (estimate_message_tokens (cx_js X) (cx_estimator X)) (filter (\<lambda>m. msg_role m = role) ms))"

definition format_context_summary :: "context_env \<Rightarrow> thread \<Rightarrow> nat \<Rightarrow> context_budget_report \<Rightarrow> rstring" where
  "format_context_summary X t message_count report =
     str ''thread=`'' @ tcl_external_thread_id (th_locator t)
     @ str ''`'' @ [10] @ str ''persisted_messages='' @ nat_str message_count
     @ [10] @ str ''total_estimated_tokens='' @ nat_str (br_total_estimated_tokens report)
     @ str ''/'' @ nat_str (br_context_window_tokens report)
     @ str '' ('' @ cx_percent X (br_utilization_ratio report) @ str ''%)''
     @ [10] @ str ''system_tokens='' @ nat_str (tokens KindSystem report)
     @ str '', chat_tokens='' @ nat_str (tokens KindChat report)
     @ str '', visible_tool_tokens='' @ nat_str (tokens KindVisibleTool report)
     @ str '', reserved_output_tokens='' @ nat_str (tokens KindReservedOutput report)"

definition ratio_row :: "context_env \<Rightarrow> rstring \<Rightarrow> nat \<Rightarrow> nat \<Rightarrow> rstring" where
  "ratio_row X label n window =
     str ''| '' @ label @ str '' | '' @ nat_str n @ str '' | '' @ cx_percent X (cx_fdiv X n window) @ str ''% |''"

definition format_context_role_report ::
    "context_env \<Rightarrow> thread \<Rightarrow> chat_message list \<Rightarrow> context_budget_report \<Rightarrow> rstring" where
  "format_context_role_report X t ms report =
     (let window = max (be_context_window_tokens (cx_estimator X)) 1 in
      join [10]
        ([str ''thread=`'' @ tcl_external_thread_id (th_locator t) @ str ''`'', [], str ''message_role'',
          str ''| role | tokens | window_ratio |'', str ''| --- | ---: | ---: |'']
         @ map (\<lambda>role. ratio_row X (as_label role) (estimate_tokens_for_role X ms role) window) ordered_chat_message_roles
         @ [[], str ''context_token_kind'', str ''| kind | tokens | window_ratio |'', str ''| --- | ---: | ---: |'']
         @ map (\<lambda>kind. ratio_row X (kind_as_str kind) (tokens kind report) window) context_token_kind_ALL))"

definition detail_row :: "context_env \<Rightarrow> nat \<Rightarrow> nat \<Rightarrow> chat_message \<Rightarrow> rstring" where
  "detail_row X window index m =
     (let estimated_tokens = estimate_message_tokens (cx_js X) (cx_estimator X) m in
      nat_str index @ str ''. role='' @ as_label (msg_role m) @ str '' tokens='' @ nat_str estimated_tokens
      @ str '' window_ratio='' @ cx_percent X (cx_fdiv X estimated_tokens window)
      @ str ''% preview='' @ [34] @ message_preview (msg_content m) @ [34])"

definition format_context_detail_report :: "context_env \<Rightarrow> thread \<Rightarrow> chat_message list \<Rightarrow> nat \<Rightarrow> rstring" where
  "format_context_detail_report X t ms requested_count =
     (let window = max (be_context_window_tokens (cx_estimator X)) 1;
          detail_count = min requested_count (length ms);
          start_index = length ms - detail_count;
          selected_messages = drop start_index ms;
          head_lines =
            [str ''thread=`'' @ tcl_external_thread_id (th_locator t) @ str ''`'',
             str ''persisted_messages='' @ nat_str (length ms) @ [10] @ str ''context_window_tokens='' @ nat_str window
             @ [10] @ str ''detail_count='' @ nat_str detail_count] in
      if selected_messages = []
      then join [10] (head_lines @ [str ''no persisted messages selected for detail output''])
      else join [10]
        (head_lines @ [str ''showing_message_range='' @ nat_str (start_index + 1) @ str ''..''
                       @ nat_str (start_index + detail_count)]
         @ map (\<lambda>(offset, m). detail_row X window (start_index + offset + 1) m)
             (zip [0..<length selected_messages] selected_messages)))"

definition context_usage :: "rstring \<Rightarrow> command_reply" where
  "context_usage name = reply_failed name (str ''usage: /context [role|detail [count]]'')"

definition eq_ignore_ascii_case :: "rstring \<Rightarrow> rstring \<Rightarrow> bool" where
  "eq_ignore_ascii_case a b \<longleftrightarrow> to_ascii_lowercase a = to_ascii_lowercase b"

definition context_execute ::
    "context_env \<Rightarrow> command_invocation \<Rightarrow> incoming_message \<Rightarrow> thread \<Rightarrow> (err + command_reply) \<times> thread" where
  "context_execute X invocation incoming t =
     (let ms = messages t;
          report = estimate (cx_js X) (cx_fdiv X) (cx_estimator X) ms [];
          name = ci_name invocation;
          reply = (case ci_arguments invocation of
             [] \<Rightarrow> reply_success name (format_context_summary X t (length ms) report)
           | [mode] \<Rightarrow>
               (if eq_ignore_ascii_case mode (str ''role'')
                then reply_success name (format_context_role_report X t ms report)
                else if eq_ignore_ascii_case mode (str ''detail'')
                then reply_success name (format_context_detail_report X t ms 20)
                else context_usage name)
           | [mode, count] \<Rightarrow>
               (if eq_ignore_ascii_case mode (str ''detail'')
                then (case parse_usize count of
                        None \<Rightarrow> context_usage name
                      | Some detail_count \<Rightarrow> reply_success name (format_context_detail_report X t ms detail_count))
                else context_usage name)
           | _ \<Rightarrow> context_usage name) in
      (Inr reply, t))"

definition with_builtin_commands :: "context_env \<Rightarrow> command_registry" where
  "with_builtin_commands X =
     (let register = (\<lambda>name idle execute registry. snd (command_register name
            \<lparr>ch_requires_idle_thread = idle, ch_execute = execute\<rparr> registry)) in
      register (str ''clear'') True clear_execute
      (register (str ''context'') False (context_execute X)
      (register (str ''echo'') False echo_execute
      (register (str ''equal'') False equal_execute
      (register (str ''test'') False test_execute command_registry_new)))))"

section \<open>Parsing a printed command\<close>

definition is_word :: "rstring \<Rightarrow> bool" where
  "is_word w \<longleftrightarrow> w \<noteq> [] \<and> (\<forall>c \<in> set w. \<not> is_whitespace c)"

lemma trim_start_word: "is_word w \<Longrightarrow> trim_start (w @ s) = w @ s"
  by (cases w) (simp_all add: is_word_def trim_start_def)

lemma trim_start_blank: "\<forall>c \<in> set pre. is_whitespace c \<Longrightarrow> trim_start (pre @ s) = trim_start s"
  by (induction pre) (simp_all add: trim_start_def)

lemma trim_idem_word: "is_word w \<Longrightarrow> trim w = w"
  by (rule trim_word) (simp add: is_word_def list_all_iff)

lemma takeWhile_word: "is_word w \<Longrightarrow> s = [] \<or> is_whitespace (hd s) \<Longrightarrow> takeWhile (\<lambda>c. \<not> is_whitespace c) (w @ s) = w"
  by (cases s) (auto simp: is_word_def takeWhile_append)

lemma dropWhile_word: "is_word w \<Longrightarrow> s = [] \<or> is_whitespace (hd s) \<Longrightarrow> dropWhile (\<lambda>c. \<not> is_whitespace c) (w @ s) = s"
  by (cases s) (auto simp: is_word_def dropWhile_append)

lemma blank_space [simp]: "is_whitespace 32"
  by (simp add: is_whitespace_def)

lemma split_whitespace_Nil: "split_whitespace [] = []"
  by (subst split_whitespace.simps) (simp add: trim_start_def)

lemma split_whitespace_word:
  assumes "is_word w" "s = [] \<or> is_whitespace (hd s)"
  shows "split_whitespace (w @ s) = w # split_whitespace s"
proof -
  obtain c cs where w: "w @ s = c # cs" using assms(1) by (cases w) (auto simp: is_word_def)
  then show ?thesis
    using takeWhile_word [OF assms] dropWhile_word [OF assms] trim_start_word [OF assms(1), of s]
    by (subst split_whitespace.simps) (simp del: takeWhile.simps dropWhile.simps)
qed

lemma split_whitespace_blank: "is_whitespace c \<Longrightarrow> split_whitespace (c # s) = split_whitespace s"
  by (subst (1 2) split_whitespace.simps) (simp add: trim_start_def)

lemma split_whitespace_join: "\<forall>w \<in> set ws. is_word w \<Longrightarrow> split_whitespace (join (str '' '') ws) = ws"
proof (induction ws)
  case (Cons w ws)
  then show ?case
    using split_whitespace_word [of w "[]"] split_whitespace_word [of w "32 # join (str '' '') ws"]
    by (cases ws) (simp_all add: split_whitespace_Nil split_whitespace_blank str_def)
qed (simp add: split_whitespace_Nil)

lemma join_word: "is_word w \<Longrightarrow> trim_start (join (str '' '') (w # ws)) = join (str '' '') (w # ws)"
  by (cases ws) (simp_all add: trim_start_word trim_start_word [of w "[]", simplified])

lemma join_Cons: "join sep (w # ws) = w @ (if ws = [] then [] else sep @ join sep ws)"
  by (cases ws) simp_all

text \<open>
  A printed command parses back. A slash, a name and its arguments, separated by single spaces and
  with any blanks in front, are read as the name in lower case and exactly these arguments; and in a
  Feishu group the mention before such a line is dropped.
\<close>
theorem command_parse_roundtrip:
  assumes "\<forall>c \<in> set pre. is_whitespace c" "is_word name" "\<forall>w \<in> set args. is_word w"
  shows "invocation_parse (pre @ str ''/'' @ join (str '' '') (name # args))
      = Inr (Some \<lparr>ci_name = to_ascii_lowercase name, ci_raw_arguments = join (str '' '') args, ci_arguments = args\<rparr>)
    \<and> (im_channel m = str ''feishu'' \<and> im_content m = pre @ str ''@'' @ who @ str '' /'' @ join (str '' '') (name # args)
         \<and> (\<forall>c \<in> set who. \<not> is_whitespace c)
       \<longrightarrow> remove_prefix_at_if_exist m = str ''/'' @ join (str '' '') (name # args))"
proof
  let ?line = "join (str '' '') (name # args)"
  define rest where "rest = (if args = [] then [] else 32 # join (str '' '') args)"
  have line: "?line = name @ rest" by (simp add: rest_def join_Cons str_def)
  have rest: "rest = [] \<or> is_whitespace (hd rest)" by (simp add: rest_def)
  have slash: "trim_start (pre @ str ''/'' @ ?line) = 47 # name @ rest"
    using trim_start_blank [OF assms(1), of "str ''/'' @ ?line"] by (simp add: line) (simp add: trim_start_def str_def is_whitespace_def)
  have name: "takeWhile (\<lambda>c. \<not> is_whitespace c) (name @ rest) = name" by (rule takeWhile_word [OF assms(2) rest])
  have "trim (name @ rest) \<noteq> []" using assms(2) by (cases name) (auto simp: trim_eq_Nil_iff is_word_def)
  moreover have "to_ascii_lowercase (trim name) = to_ascii_lowercase name" by (simp add: trim_idem_word [OF assms(2)])
  moreover have "to_ascii_lowercase name \<noteq> []" using assms(2) by (simp add: to_ascii_lowercase_def is_word_def)
  moreover have raw: "trim_start rest = join (str '' '') args"
    using assms(3) join_word by (cases args) (auto simp: rest_def trim_start_def)
  moreover have "join (str '' '') args = [] \<longrightarrow> args = []"
    using assms(3) by (cases args) (auto simp: join_Cons is_word_def)
  ultimately show "invocation_parse (pre @ str ''/'' @ ?line)
      = Inr (Some \<lparr>ci_name = to_ascii_lowercase name, ci_raw_arguments = join (str '' '') args, ci_arguments = args\<rparr>)"
    using slash name split_whitespace_join [OF assms(3)]
    by (auto simp: invocation_parse_def Let_def str_def)
next
  show "im_channel m = str ''feishu'' \<and> im_content m = pre @ str ''@'' @ who @ str '' /'' @ join (str '' '') (name # args)
         \<and> (\<forall>c \<in> set who. \<not> is_whitespace c)
       \<longrightarrow> remove_prefix_at_if_exist m = str ''/'' @ join (str '' '') (name # args)"
  proof
    let ?tail = "47 # join (str '' '') (name # args)"
    assume m: "im_channel m = str ''feishu'' \<and> im_content m = pre @ str ''@'' @ who @ str '' /'' @ join (str '' '') (name # args)
         \<and> (\<forall>c \<in> set who. \<not> is_whitespace c)"
    then have "is_word (64 # who)" by (simp add: is_word_def is_whitespace_def)
    from trim_start_word [OF this] dropWhile_word [OF this, of "32 # ?tail"]
    have "trim_start (im_content m) = (64 # who) @ 32 # ?tail"
      "dropWhile (\<lambda>c. \<not> is_whitespace c) ((64 # who) @ 32 # ?tail) = 32 # ?tail"
      using m trim_start_blank [OF assms(1)] by (simp_all add: str_def)
    moreover have "trim_start (32 # ?tail) = ?tail" by (simp add: trim_start_def is_whitespace_def)
    ultimately show "remove_prefix_at_if_exist m = str ''/'' @ join (str '' '') (name # args)"
      using m by (simp add: remove_prefix_at_if_exist_def Let_def str_def del: dropWhile.simps append_Cons) (simp add: str_def)?
  qed
qed

definition demo_command_message :: incoming_message where
  "demo_command_message =
     \<lparr>im_id = 1, im_external_message_id = None, im_channel = str ''feishu'', im_user_id = str ''ou'', im_user_name = None,
      im_content = str ''@_user_1 /clear'', im_external_thread_id = None, im_received_at = 5, im_metadata = JNull,
      im_attachments = [], im_reply_target = \<lparr>rt_receive_id = str ''oc'', rt_receive_id_type = str ''chat_id''\<rparr>\<rparr>"

theorem command_parse_roundtrip_witness:
  "invocation_parse (str ''/'' @ join (str '' '') [str ''Equal'', str ''a'', str ''b''])
     = Inr (Some \<lparr>ci_name = to_ascii_lowercase (str ''Equal''), ci_raw_arguments = join (str '' '') [str ''a'', str ''b''],
                  ci_arguments = [str ''a'', str ''b'']\<rparr>)
   \<and> remove_prefix_at_if_exist demo_command_message = str ''/'' @ join (str '' '') [str ''clear'']"
proof
  have words: "is_word (str ''Equal'')" "is_word (str ''a'')" "is_word (str ''b'')" "is_word (str ''clear'')"
    by (simp_all add: is_word_def str_def is_whitespace_def)
  show "invocation_parse (str ''/'' @ join (str '' '') [str ''Equal'', str ''a'', str ''b''])
     = Inr (Some \<lparr>ci_name = to_ascii_lowercase (str ''Equal''), ci_raw_arguments = join (str '' '') [str ''a'', str ''b''],
                  ci_arguments = [str ''a'', str ''b'']\<rparr>)"
    using command_parse_roundtrip [of "[]" "str ''Equal''" "[str ''a'', str ''b'']"] words by simp
  have "im_channel demo_command_message = str ''feishu'' \<and> im_content demo_command_message
      = [] @ str ''@'' @ str ''_user_1'' @ str '' /'' @ join (str '' '') [str ''clear'']
      \<and> (\<forall>c \<in> set (str ''_user_1''). \<not> is_whitespace c)"
    by (simp add: demo_command_message_def str_def is_whitespace_def)
  then show "remove_prefix_at_if_exist demo_command_message = str ''/'' @ join (str '' '') [str ''clear'']"
    using command_parse_roundtrip [of "[]" "str ''clear''" "[]" demo_command_message "str ''_user_1''"] words by simp
qed

section \<open>What commands do to a thread\<close>

lemma normalize_plain:
  "is_word name \<Longrightarrow> hd name \<noteq> 47 \<Longrightarrow> to_ascii_lowercase name = name \<Longrightarrow> normalize_command_name name = Inr name"
  using trim_idem_word [of name] by (cases name) (auto simp: normalize_command_name_def is_word_def Let_def)

lemma normalize_builtin:
  "normalize_command_name (str ''test'') = Inr (str ''test'')" "normalize_command_name (str ''equal'') = Inr (str ''equal'')"
  "normalize_command_name (str ''echo'') = Inr (str ''echo'')" "normalize_command_name (str ''context'') = Inr (str ''context'')"
  "normalize_command_name (str ''clear'') = Inr (str ''clear'')"
  by (rule normalize_plain; simp add: is_word_def str_def is_whitespace_def to_ascii_lowercase_def)+

lemma builtin_registry:
  "with_builtin_commands X =
     [str ''test'' \<mapsto> \<lparr>ch_requires_idle_thread = False, ch_execute = test_execute\<rparr>,
      str ''equal'' \<mapsto> \<lparr>ch_requires_idle_thread = False, ch_execute = equal_execute\<rparr>,
      str ''echo'' \<mapsto> \<lparr>ch_requires_idle_thread = False, ch_execute = echo_execute\<rparr>,
      str ''context'' \<mapsto> \<lparr>ch_requires_idle_thread = False, ch_execute = context_execute X\<rparr>,
      str ''clear'' \<mapsto> \<lparr>ch_requires_idle_thread = True, ch_execute = clear_execute\<rparr>]"
  by (simp add: with_builtin_commands_def Let_def command_register_def normalize_builtin command_registry_new_def)

lemma execute_keeps:
  "snd (test_execute i m t) = t" "snd (equal_execute i m t) = t" "snd (echo_execute i m t) = t"
  "snd (context_execute X i m t) = t"
  by (simp_all add: test_execute_def equal_execute_def echo_execute_def context_execute_def Let_def split: list.split)

lemma clear_cases:
  "snd (clear_execute i m t) = (if ci_arguments i = [] then clear_to_initial_state (im_received_at m) t else t)"
  by (simp add: clear_execute_def Let_def)

lemma builtin_total: "with_builtin_commands X n = Some c \<Longrightarrow> \<exists>reply. fst (ch_execute c i m t) = Inr reply"
  by (auto simp: builtin_registry test_execute_def equal_execute_def echo_execute_def context_execute_def clear_execute_def
      Let_def split: if_splits list.split)

text \<open>
  C24: only \<open>/clear\<close> changes a thread. Executing a message with the built-in commands answers exactly the
  slash commands; it leaves the thread as it was unless the command is \<open>clear\<close> without arguments, which
  resets it - and that command is one the router refuses while the thread is running.
\<close>
theorem only_clear_changes_the_thread:
  fixes X m t
  defines "registry \<equiv> with_builtin_commands X" and "parsed \<equiv> invocation_parse (remove_prefix_at_if_exist m)"
  assumes "try_execute_with_thread_context registry m t = (r, t')"
  shows "(case is_command m of Inl e \<Rightarrow> r = Inl e | Inr b \<Rightarrow> (\<exists>reply. r = Inr reply \<and> (reply \<noteq> None) = b))
    \<and> (t' = t \<or> t' = clear_to_initial_state (im_received_at m) t
         \<and> (\<exists>i. parsed = Inr (Some i) \<and> ci_name i = str ''clear'' \<and> ci_arguments i = [])
         \<and> (\<exists>reply. running_thread_reply registry m = Inr (Some reply)))"
proof (cases parsed)
  case (Inl e)
  then show ?thesis using assms(3) by (simp add: try_execute_with_thread_context_def is_command_def parsed_def)
next
  case (Inr p)
  show ?thesis
  proof (cases p)
    case None
    then show ?thesis using assms(3) Inr by (simp add: try_execute_with_thread_context_def is_command_def parsed_def)
  next
    case (Some i)
    have cmd: "is_command m = Inr True" using Inr Some by (simp add: is_command_def parsed_def)
    show ?thesis
    proof (cases "registry (ci_name i)")
      case None
      then show ?thesis
        using assms(3) Inr Some cmd by (auto simp: try_execute_with_thread_context_def parsed_def)
    next
      case c: (Some c)
      have run: "r = map_sum id Some (fst (ch_execute c i m t))" "t' = snd (ch_execute c i m t)"
        using assms(3) Inr Some c by (auto simp: try_execute_with_thread_context_def parsed_def map_prod_def split: prod.splits)
      obtain reply where reply: "fst (ch_execute c i m t) = Inr reply"
        using builtin_total c [unfolded registry_def] by blast
      have "t' = t \<or> t' = clear_to_initial_state (im_received_at m) t \<and> ci_name i = str ''clear'' \<and> ci_arguments i = []
          \<and> ch_requires_idle_thread c"
        using c run(2) by (auto simp: registry_def builtin_registry execute_keeps clear_cases split: if_splits)
      then show ?thesis
        using run(1) reply cmd Inr Some c by (auto simp: running_thread_reply_def parsed_def)
    qed
  qed
qed

definition demo_context_env :: context_env where
  "demo_context_env =
     \<lparr>cx_estimator = demo_estimator, cx_js = (\<lambda>_. []), cx_fdiv = demo_fdiv, cx_percent = (\<lambda>_. str ''0.00'')\<rparr>"

lemma demo_command_parsed:
  "invocation_parse (remove_prefix_at_if_exist demo_command_message)
     = Inr (Some \<lparr>ci_name = str ''clear'', ci_raw_arguments = [], ci_arguments = []\<rparr>)"
  by (simp add: invocation_parse_def remove_prefix_at_if_exist_def demo_command_message_def str_def trim_start_def
      trim_def trim_end_def is_whitespace_def to_ascii_lowercase_def Let_def)

theorem only_clear_changes_the_thread_witness:
  "\<exists>r. try_execute_with_thread_context (with_builtin_commands demo_context_env) demo_command_message demo_history_thread
       = (r, clear_to_initial_state 5 demo_history_thread)
     \<and> (\<exists>reply. running_thread_reply (with_builtin_commands demo_context_env) demo_command_message = Inr (Some reply))"
proof -
  obtain r t' where run: "try_execute_with_thread_context (with_builtin_commands demo_context_env) demo_command_message
      demo_history_thread = (r, t')" by fastforce
  have at5: "im_received_at demo_command_message = 5" by (simp add: demo_command_message_def)
  have t': "t' = clear_to_initial_state 5 demo_history_thread"
    using run by (auto simp: try_execute_with_thread_context_def demo_command_parsed builtin_registry clear_execute_def
        Let_def at5)
  have "messages t' \<noteq> messages demo_history_thread"
    by (simp add: t' demo_history_thread_sel clear_to_initial_state_def thread_context_new_def)
  then have "t' \<noteq> demo_history_thread" by blast
  with only_clear_changes_the_thread [OF run] run t' show ?thesis by auto
qed

section \<open>Previews and registration\<close>

lemma word_set_split: "c \<in> set w \<Longrightarrow> w \<in> set (split_whitespace s) \<Longrightarrow> \<not> is_whitespace c"
proof (induction s rule: split_whitespace.induct)
  case (1 s)
  show ?case
  proof (cases rule: trim_start_cases [of s])
    case blank
    then show ?thesis using 1(3) by (subst (asm) split_whitespace.simps) simp
  next
    case (word d ds)
    show ?thesis
    proof (cases "w = takeWhile (\<lambda>c. \<not> is_whitespace c) (d # ds)")
      case True
      then show ?thesis using 1(2) by (auto dest: set_takeWhileD)
    next
      case False
      then have "w \<in> set (split_whitespace (dropWhile (\<lambda>c. \<not> is_whitespace c) (d # ds)))"
        using 1(3) word(1) by (subst (asm) split_whitespace.simps) simp
      then show ?thesis using 1(1) [OF word(1)] 1(2) by blast
    qed
  qed
qed

lemma set_join: "set (join sep ws) \<subseteq> set sep \<union> \<Union> (set ` set ws)"
  by (induction sep ws rule: join.induct) auto

text \<open>
  A preview is one short line. Whatever a message holds, its preview in the context report is not
  empty, is at most 51 scalar values long, has no blank but the space and no double quote.
\<close>
theorem preview_is_one_short_line:
  "message_preview content \<noteq> [] \<and> length (message_preview content) \<le> CONTEXT_MESSAGE_PREVIEW_LIMIT + 3
   \<and> list_all (\<lambda>c. c \<noteq> 34 \<and> is_whitespace c = (c = 32)) (message_preview content)"
proof -
  let ?n = "join (str '' '') (split_whitespace content)"
  define p where "p = map (\<lambda>c. if c = 34 then 39 else c) (take CONTEXT_MESSAGE_PREVIEW_LIMIT ?n)"
  have n: "is_whitespace c = (c = 32)" if "c \<in> set ?n" for c
    using that set_join [of "str '' ''" "split_whitespace content"] word_set_split [of c _ content]
    by (auto simp: str_def)
  have kept: "list_all (\<lambda>c. c \<noteq> 34 \<and> is_whitespace c = (c = 32)) p"
    unfolding p_def list_all_iff
  proof
    fix c
    assume "c \<in> set (map (\<lambda>c. if c = 34 then 39 else c) (take CONTEXT_MESSAGE_PREVIEW_LIMIT ?n))"
    then obtain d where "d \<in> set ?n" "c = (if d = 34 then 39 else d)" by (auto dest: in_set_takeD)
    then show "c \<noteq> 34 \<and> is_whitespace c = (c = 32)" using n [of d] by (auto simp: is_whitespace_def)
  qed
  have dots: "list_all (\<lambda>c. c \<noteq> 34 \<and> is_whitespace c = (c = 32)) (str ''...'')"
    "list_all (\<lambda>c. c \<noteq> 34 \<and> is_whitespace c = (c = 32)) (str ''<empty>'')"
    by (simp_all add: str_def is_whitespace_def)
  have size: "length p \<le> CONTEXT_MESSAGE_PREVIEW_LIMIT" by (simp add: p_def)
  have "message_preview content = (if ?n = [] then str ''<empty>''
      else if CONTEXT_MESSAGE_PREVIEW_LIMIT < length ?n then p @ str ''...'' else p)"
    by (simp add: message_preview_def p_def Let_def)
  moreover have "?n \<noteq> [] \<Longrightarrow> p \<noteq> []" by (simp add: p_def CONTEXT_MESSAGE_PREVIEW_LIMIT_def)
  ultimately show ?thesis using kept dots size by (simp add: CONTEXT_MESSAGE_PREVIEW_LIMIT_def)
qed

text \<open>
  A refused registration still takes effect. Registering a second handler under a name that is taken
  reports the conflict, but the name then runs the second handler; a valid new name, and only that name,
  is added without an error.
\<close>
theorem refused_registration_replaces_handler:
  assumes "normalize_command_name name = Inr n"
  shows "\<exists>r. command_register name handler registry = (r, registry(n \<mapsto> handler))
    \<and> ((\<exists>e. r = Inl e) \<longleftrightarrow> registry n \<noteq> None)"
  using assms by (simp add: command_register_def)

theorem refused_registration_replaces_handler_witness:
  "\<exists>e. command_register (str ''/Clear'') \<lparr>ch_requires_idle_thread = False, ch_execute = echo_execute\<rparr>
       (with_builtin_commands demo_context_env)
     = (Inl e, (with_builtin_commands demo_context_env)
          (str ''clear'' \<mapsto> \<lparr>ch_requires_idle_thread = False, ch_execute = echo_execute\<rparr>))"
proof -
  have n: "normalize_command_name (str ''/Clear'') = Inr (str ''clear'')"
    by (simp add: normalize_command_name_def str_def to_ascii_lowercase_def trim_def trim_start_def trim_end_def
        is_whitespace_def Let_def)
  have "with_builtin_commands demo_context_env (str ''clear'') \<noteq> None" by (simp add: builtin_registry)
  with refused_registration_replaces_handler [OF n, of "\<lparr>ch_requires_idle_thread = False, ch_execute = echo_execute\<rparr>"
      "with_builtin_commands demo_context_env"] show ?thesis by auto
qed

end
