(* ===== verification/OJ_Router.thy ===== *)
theory OJ_Router
  imports OJ_Worker_Faults OJ_Command
begin

text \<open>
  The router, \<open>src/router.rs\<close>: it takes incoming messages from the channels and events from the agent,
  one at a time. A message is deduplicated, answered as a command, or sent to the agent; a thread has at
  most one request at the agent, further messages for it wait in its queue.

  A sender of a bounded channel is the list of what it sent and whether the receiver is gone; waiting for
  room is not modelled. \<open>rr_requests\<close> holds every request ever sent, in order. The session manager is
  shared with the worker; ids and clock readings are taken from streams, indexed by \<open>rr_draws\<close>.
\<close>

section \<open>State\<close>

record outgoing_channel =
  oc_sent :: "outgoing_message list"
  oc_closed :: bool

record 's router_state =
  rr_sessions :: "'s session_manager"
  rr_draws :: nat
  rr_seen_messages :: "rstring set"
  rr_pending_threads :: "thread_locator set"
  rr_queued_messages :: "thread_locator \<rightharpoonup> incoming_message list"
  rr_requests :: "agent_request list"
  rr_agent_closed :: bool
  rr_channels :: "rstring \<rightharpoonup> outgoing_channel"

record 's router_env =
  rv_sessions :: "'s session_env"
  rv_clock :: "nat \<Rightarrow> time"
  rv_commands :: command_registry
  rv_message_dedup_enabled :: bool

definition router_new :: "'s session_manager \<Rightarrow> (rstring \<rightharpoonup> outgoing_channel) \<Rightarrow> 's router_state" where
  "router_new sessions channels =
     \<lparr>rr_sessions = sessions, rr_draws = 0, rr_seen_messages = {}, rr_pending_threads = {},
      rr_queued_messages = Map.empty, rr_requests = [], rr_agent_closed = False, rr_channels = channels\<rparr>"

text \<open>A call of the session manager; its errors are the router's.\<close>

definition on_sessions ::
    "('s session_env \<Rightarrow> uuid \<Rightarrow> time \<Rightarrow> 's session_manager \<Rightarrow> (session_store_error + 'a) \<times> 's session_manager)
     \<Rightarrow> 's router_env \<Rightarrow> ('s router_state, 'a) act" where
  "on_sessions f V r =
     (let (q, m) = f (rv_sessions V) (sv_fresh (rv_sessions V) (rr_draws r)) (rv_clock V (rr_draws r)) (rr_sessions r) in
      (map_sum store_error_to_err id q, r\<lparr>rr_sessions := m, rr_draws := rr_draws r + 1\<rparr>))"

section \<open>Outgoing messages\<close>

definition router_uuid :: "'s router_env \<Rightarrow> ('s router_state, uuid) act" where
  "router_uuid V r = (Inr (sv_fresh (rv_sessions V) (rr_draws r)), r\<lparr>rr_draws := rr_draws r + 1\<rparr>)"

definition dispatch_outgoing :: "outgoing_message \<Rightarrow> ('s router_state, unit) act" where
  "dispatch_outgoing message0 r =
     (let message = parse_message message0; channel_name = om_channel message in
      case rr_channels r channel_name of
        None \<Rightarrow> (Inl (bail (str ''no registered channel found for `'' @ channel_name @ str ''`'')), r)
      | Some channel_tx \<Rightarrow>
          (if oc_closed channel_tx
           then (Inl (bail (str ''failed to enqueue outgoing message: channel closed'')), r)
           else (Inr (), r\<lparr>rr_channels := (rr_channels r)
                   (channel_name \<mapsto> channel_tx\<lparr>oc_sent := oc_sent channel_tx @ [message]\<rparr>)\<rparr>)))"

fun turn_event_kind_debug :: "thread_turn_event_kind \<Rightarrow> rstring" where
  "turn_event_kind_debug TextOutput = str ''TextOutput''"
| "turn_event_kind_debug ToolCall = str ''ToolCall''"
| "turn_event_kind_debug ToolResult = str ''ToolResult''"
| "turn_event_kind_debug Compact = str ''Compact''"

definition process_agent_dispatch_event ::
    "'s router_env \<Rightarrow> agent_dispatch_event \<Rightarrow> ('s router_state, unit) act" where
  "process_agent_dispatch_event V event =
     act_bind (router_uuid V) (\<lambda>fresh.
     dispatch_outgoing
       \<lparr>om_id = fresh, om_channel = de_channel event, om_content = de_content event,
        om_external_thread_id = de_external_thread_id event,
        om_metadata = JObj
          [(str ''source_message_id'', jopt JStr (de_source_message_id event)),
           (str ''session_id'', JStr (de_session_id event)),
           (str ''session_channel'', JStr (de_session_channel event)),
           (str ''session_user_id'', JStr (de_session_user_id event)),
           (str ''session_external_thread_id'', JStr (de_session_external_thread_id event)),
           (str ''session_thread_id'', JStr (de_session_thread_id event)),
           (str ''event_kind'', JStr (turn_event_kind_debug (de_kind event))),
           (str ''event_metadata'', de_metadata event)],
        om_reply_to_message_id = (if de_reply_to_source event then de_source_message_id event else None),
        om_attachments = [], om_target = de_target event\<rparr>)"

definition dispatch_command_reply ::
    "'s router_env \<Rightarrow> incoming_message \<Rightarrow> command_reply \<Rightarrow> ('s router_state, unit) act" where
  "dispatch_command_reply V incoming reply =
     act_bind (router_uuid V) (\<lambda>fresh.
     dispatch_outgoing
       \<lparr>om_id = fresh, om_channel = im_channel incoming, om_content = formatted_content reply,
        om_external_thread_id = im_external_thread_id incoming,
        om_metadata = JObj
          [(str ''event_kind'', JStr (str ''Command'')), (str ''command_name'', JStr (cy_name reply)),
           (str ''command_status'', JStr (if cy_success reply then str ''SUCCESS'' else str ''FAILED''))],
        om_reply_to_message_id = im_external_message_id incoming,
        om_attachments = [], om_target = im_reply_target incoming\<rparr>)"

fun dispatch_events :: "'s router_env \<Rightarrow> agent_dispatch_event list \<Rightarrow> ('s router_state, unit) act" where
  "dispatch_events V [] = act_ret ()"
| "dispatch_events V (event # events) =
     act_bind (process_agent_dispatch_event V event) (\<lambda>_. dispatch_events V events)"

definition dispatch_committed_message :: "'s router_env \<Rightarrow> committed_agent_message \<Rightarrow> ('s router_state, unit) act" where
  "dispatch_committed_message V committed = dispatch_events V (cm_dispatch_events committed)"

section \<open>Pending threads and their queues\<close>

definition mark_message_seen :: "rstring option \<Rightarrow> ('s router_state, bool) act" where
  "mark_message_seen external_message_id r =
     (case external_message_id of
        None \<Rightarrow> (Inr True, r)
      | Some x \<Rightarrow> (Inr (x \<notin> rr_seen_messages r), r\<lparr>rr_seen_messages := insert x (rr_seen_messages r)\<rparr>))"

definition try_mark_thread_pending :: "thread_locator \<Rightarrow> ('s router_state, bool) act" where
  "try_mark_thread_pending l r =
     (Inr (l \<notin> rr_pending_threads r), r\<lparr>rr_pending_threads := insert l (rr_pending_threads r)\<rparr>)"

definition is_thread_pending :: "thread_locator \<Rightarrow> 's router_state \<Rightarrow> bool" where
  "is_thread_pending l r \<longleftrightarrow> l \<in> rr_pending_threads r"

definition queue_of :: "thread_locator \<Rightarrow> 's router_state \<Rightarrow> incoming_message list" where
  "queue_of l r = (case rr_queued_messages r l of None \<Rightarrow> [] | Some q \<Rightarrow> q)"

definition enqueue_message :: "thread_locator \<Rightarrow> incoming_message \<Rightarrow> ('s router_state, unit) act" where
  "enqueue_message l message r =
     (Inr (), r\<lparr>rr_queued_messages := (rr_queued_messages r)(l \<mapsto> queue_of l r @ [message])\<rparr>)"

definition dispatch_to_agent :: "thread_locator \<Rightarrow> incoming_message \<Rightarrow> ('s router_state, unit) act" where
  "dispatch_to_agent l message r =
     (if rr_agent_closed r
      then (Inl (bail (str ''failed to enqueue agent request: channel closed'')),
            r\<lparr>rr_pending_threads := rr_pending_threads r - {l}\<rparr>)
      else (Inr (), r\<lparr>rr_requests := rr_requests r @ [\<lparr>ar_locator = l, ar_incoming = message\<rparr>]\<rparr>))"

definition pop_queue :: "thread_locator \<Rightarrow> ('s router_state, unit) act" where
  "pop_queue l r =
     (case rr_queued_messages r l of
        None \<Rightarrow> (Inr (), r)
      | Some queue \<Rightarrow>
          (Inr (), r\<lparr>rr_queued_messages := (rr_queued_messages r)
             (l := (if drop 1 queue = [] then None else Some (drop 1 queue)))\<rparr>))"

definition release_or_dispatch_next :: "thread_locator \<Rightarrow> ('s router_state, unit) act" where
  "release_or_dispatch_next l r =
     (case queue_of l r of
        message # _ \<Rightarrow> act_bind (dispatch_to_agent l message) (\<lambda>_. pop_queue l) r
      | [] \<Rightarrow> (Inr (), r\<lparr>rr_pending_threads := rr_pending_threads r - {l}\<rparr>))"

section \<open>Handling a message and an event\<close>

definition mark_processed :: "'s router_env \<Rightarrow> thread_locator \<Rightarrow> incoming_message \<Rightarrow> ('s router_state, unit) act" where
  "mark_processed V l message =
     (case im_external_message_id message of
        None \<Rightarrow> act_ret ()
      | Some x \<Rightarrow>
          on_sessions (\<lambda>S _ _. mark_external_message_processed (sv_ops S) l x None (im_received_at message)) V)"

definition is_duplicate :: "'s router_env \<Rightarrow> thread_locator \<Rightarrow> incoming_message \<Rightarrow> ('s router_state, bool) act" where
  "is_duplicate V l message =
     (case im_external_message_id message of
        None \<Rightarrow> act_ret False
      | Some x \<Rightarrow> on_sessions (\<lambda>S _ _ m. (is_external_message_processed (sv_ops S) l x m, m)) V)"

definition route_to_agent :: "thread_locator \<Rightarrow> incoming_message \<Rightarrow> ('s router_state, unit) act" where
  "route_to_agent l message =
     act_bind (try_mark_thread_pending l) (\<lambda>inserted.
     if inserted then dispatch_to_agent l message else enqueue_message l message)"

text \<open>A command on a thread that is not running, or one that does not mind: load, execute, store, answer.\<close>

definition execute_command :: "'s router_env \<Rightarrow> thread_locator \<Rightarrow> incoming_message \<Rightarrow> ('s router_state, unit) act" where
  "execute_command V l message =
     act_bind (on_sessions (\<lambda>S _ now. sm_load_thread_context (sv_ops S) (sv_uuids S) now l) V) (\<lambda>loaded.
     let t = (case loaded of
                Some t \<Rightarrow> t
              | None \<Rightarrow> thread_new (locator_from (sv_uuids (rv_sessions V)) l) (im_received_at message));
         (q, t') = try_execute_with_thread_context (rv_commands V) message t in
     act_bind (act_lift q) (\<lambda>reply.
     case reply of
       None \<Rightarrow> route_to_agent l message
     | Some reply \<Rightarrow>
         act_bind (on_sessions (\<lambda>S fresh _.
           store_thread_context (sv_ops S) (sv_uuids S) fresh l t' (im_received_at message)) V) (\<lambda>_.
         act_bind (dispatch_command_reply V message reply) (\<lambda>_.
         mark_processed V l message))))"

definition run_command :: "'s router_env \<Rightarrow> thread_locator \<Rightarrow> incoming_message \<Rightarrow> ('s router_state, unit) act" where
  "run_command V l message r =
     (if is_thread_pending l r
      then act_bind (act_lift (running_thread_reply (rv_commands V) message)) (\<lambda>refusal.
             case refusal of
               Some reply \<Rightarrow> act_bind (dispatch_command_reply V message reply) (\<lambda>_. mark_processed V l message)
             | None \<Rightarrow> execute_command V l message) r
      else execute_command V l message r)"

definition accept_incoming :: "'s router_env \<Rightarrow> incoming_message \<Rightarrow> ('s router_state, unit) act" where
  "accept_incoming V message =
     act_bind (on_sessions (\<lambda>S fresh _. load_or_create_thread (sv_ops S) (sv_uuids S) fresh message) V) (\<lambda>l.
     act_bind (is_duplicate V l message) (\<lambda>duplicate.
     if duplicate then act_ret ()
     else
       act_bind (act_lift (is_command message)) (\<lambda>command.
       if command then run_command V l message else route_to_agent l message)))"

definition handle_incoming :: "'s router_env \<Rightarrow> incoming_message \<Rightarrow> ('s router_state, unit) act" where
  "handle_incoming V message =
     act_bind (if rv_message_dedup_enabled V then mark_message_seen (im_external_message_id message) else act_ret True)
       (\<lambda>fresh. if fresh then accept_incoming V message else act_ret ())"

definition handle_agent_event :: "'s router_env \<Rightarrow> agent_worker_event \<Rightarrow> ('s router_state, unit) act" where
  "handle_agent_event V event =
     (case event of
        MessageCommitted message \<Rightarrow> dispatch_committed_message V message
      | TurnFinalized l turn \<Rightarrow> act_ret ()
      | RequestCompleted l completed_at \<Rightarrow> release_or_dispatch_next l)"

section \<open>Channels and the service loop\<close>

text \<open>A channel is its name and what its callbacks answer; registering it creates its outgoing queue.\<close>

record channel =
  cn_name :: rstring
  cn_on_start :: "err + unit"
  cn_start :: "err + unit"
  cn_check_health :: "err + unit"

definition register_channel :: "channel \<Rightarrow> ('s router_state, unit) act" where
  "register_channel c =
     act_bind (act_lift (cn_on_start c)) (\<lambda>_.
     act_bind (\<lambda>r. (Inr (), r\<lparr>rr_channels := (rr_channels r)(cn_name c \<mapsto> \<lparr>oc_sent = [], oc_closed = False\<rparr>)\<rparr>)) (\<lambda>_.
     act_bind (act_lift (cn_start c)) (\<lambda>_.
     act_lift (cn_check_health c))))"

definition register_channels :: "rstring \<Rightarrow> channel \<Rightarrow> ('s router_state, unit) act" where
  "register_channels feishu_mode feishu_channel =
     (if trim feishu_mode \<noteq> [] then register_channel feishu_channel else act_ret ())"

text \<open>
  The inputs of the loop, in the order \<open>select!\<close> takes them. \<open>None\<close>: the inputs end and the loop waits.
  Errors of the two handlers are logged and the loop goes on.
\<close>

datatype router_input =
    Shutdown
  | ChannelMessage incoming_message
  | AgentEvent agent_worker_event
  | AgentGone

fun run_until_shutdown ::
    "'s router_env \<Rightarrow> router_input list \<Rightarrow> 's router_state \<Rightarrow> (err + unit) option \<times> 's router_state" where
  "run_until_shutdown V [] r = (None, r)"
| "run_until_shutdown V (Shutdown # _) r = (Some (Inr ()), r)"
| "run_until_shutdown V (AgentGone # _) r = (Some (Inl (bail (str ''agent worker event channel closed''))), r)"
| "run_until_shutdown V (ChannelMessage message # is) r = run_until_shutdown V is (snd (handle_incoming V message r))"
| "run_until_shutdown V (AgentEvent event # is) r = run_until_shutdown V is (snd (handle_agent_event V event r))"

end
