(* ===== verification/OJ_System.thy ===== *)
theory OJ_System
  imports OJ_Router "HOL-Library.Sublist"
begin

text \<open>
  Router and worker together, as \<open>main.rs\<close> runs them: the router handles one channel message or one agent
  event at a time, the worker handles one request at a time, and they share the session manager. A
  request is one step of the worker, from the lock to the drop of the guard; its events reach the event
  channel together. \<open>sy_taken\<close> counts the requests the worker has received. \<open>sy_silent\<close> is a ghost: the
  locators of requests that ended without reporting their completion.
\<close>

section \<open>Steps\<close>

record ('e, 's) system =
  sy_router :: "'s router_state"
  sy_env :: 'e
  sy_registry :: "'e tool_registry"
  sy_taken :: nat
  sy_events :: "agent_worker_event list"
  sy_silent :: "thread_locator set"

fun completes :: "thread_locator \<Rightarrow> agent_worker_event \<Rightarrow> bool" where
  "completes l (RequestCompleted l' _) = (l' = l)"
| "completes l _ = False"

definition completions :: "thread_locator \<Rightarrow> agent_worker_event list \<Rightarrow> nat" where
  "completions l evs = length (filter (completes l) evs)"

definition worker_view :: "('e, 's) system \<Rightarrow> ('e, 's) worker_state" where
  "worker_view S =
     \<lparr>ws_env = sy_env S, ws_registry = sy_registry S,
      ws_link = \<lparr>wl_sessions = rr_sessions (sy_router S), wl_draws = rr_draws (sy_router S), wl_events = sy_events S,
                 wl_closed = False\<rparr>\<rparr>"

definition after_request :: "thread_locator \<Rightarrow> ('e, 's) worker_state \<Rightarrow> ('e, 's) system \<Rightarrow> ('e, 's) system" where
  "after_request l ws S =
     (let evs = wl_events (ws_link ws) in
      S\<lparr>sy_router := (sy_router S)\<lparr>rr_sessions := wl_sessions (ws_link ws), rr_draws := wl_draws (ws_link ws)\<rparr>,
        sy_env := ws_env ws, sy_registry := ws_registry ws, sy_taken := sy_taken S + 1, sy_events := evs,
        sy_silent := (if completions l evs = completions l (sy_events S) then insert l (sy_silent S) else sy_silent S)\<rparr>)"

text \<open>The label of a step is the message that came in, if one did.\<close>

inductive sys_step ::
    "'e agent_worker \<Rightarrow> 's router_env \<Rightarrow> ('e, 's) system \<Rightarrow> incoming_message option \<Rightarrow> ('e, 's) system \<Rightarrow> bool"
  for W V where
  step_incoming: "handle_incoming V message (sy_router S) = (q, r) \<Longrightarrow> sys_step W V S (Some message) (S\<lparr>sy_router := r\<rparr>)"
| step_event: "sy_events S = event # evs \<Longrightarrow> handle_agent_event V event (sy_router S) = (q, r) \<Longrightarrow>
     sys_step W V S None (S\<lparr>sy_router := r, sy_events := evs\<rparr>)"
| step_request: "sy_taken S < length (rr_requests (sy_router S)) \<Longrightarrow>
     request = rr_requests (sy_router S) ! sy_taken S \<Longrightarrow>
     handle_request W (rv_sessions V) request (worker_view S) = Some (q, ws) \<Longrightarrow>
     sys_step W V S None (after_request (ar_locator request) ws S)"

inductive sys_run ::
    "'e agent_worker \<Rightarrow> 's router_env \<Rightarrow> ('e, 's) system \<Rightarrow> incoming_message list \<Rightarrow> ('e, 's) system \<Rightarrow> bool"
  for W V where
  run_nil: "sys_run W V S [] S"
| run_snoc: "sys_run W V S ms S' \<Longrightarrow> sys_step W V S' i S'' \<Longrightarrow>
     sys_run W V S (ms @ (case i of None \<Rightarrow> [] | Some m \<Rightarrow> [m])) S''"

text \<open>Nothing accepted, nothing sent; whatever the sessions, the channels and the tools are.\<close>

definition sys_start :: "('e, 's) system \<Rightarrow> bool" where
  "sys_start S \<longleftrightarrow> rr_pending_threads (sy_router S) = {} \<and> rr_queued_messages (sy_router S) = Map.empty
     \<and> rr_requests (sy_router S) = [] \<and> \<not> rr_agent_closed (sy_router S)
     \<and> sy_taken S = 0 \<and> sy_events S = [] \<and> sy_silent S = {}"

section \<open>What the handlers do to the schedule\<close>

text \<open>The pending threads, the queues, the requests and the state of the agent channel.\<close>

definition schedule :: "'s router_state
    \<Rightarrow> thread_locator set \<times> (thread_locator \<rightharpoonup> incoming_message list) \<times> agent_request list \<times> bool" where
  "schedule r = (rr_pending_threads r, rr_queued_messages r, rr_requests r, rr_agent_closed r)"

interpretation unscheduled: action_preorder "\<lambda>r r'. schedule r' = schedule r"
  by unfold_locales simp_all

abbreviation keeps_schedule :: "('s router_state, 'a) act \<Rightarrow> 's router_state \<Rightarrow> bool" where
  "keeps_schedule \<equiv> related (\<lambda>r r'. schedule r' = schedule r)"

lemma keeps_sessions: "keeps_schedule (on_sessions f V) r"
  by (simp add: related_def on_sessions_def schedule_def split: prod.split)

lemma keeps_uuid: "keeps_schedule (router_uuid V) r"
  by (simp add: related_def router_uuid_def schedule_def)

lemma keeps_outgoing: "keeps_schedule (dispatch_outgoing m) r"
  by (simp add: related_def dispatch_outgoing_def schedule_def Let_def split: option.split)

lemma keeps_lift: "keeps_schedule (act_lift q) r"
  by (simp add: related_def act_lift_def)

lemma keeps_dispatch_event: "keeps_schedule (process_agent_dispatch_event V e) r"
  unfolding process_agent_dispatch_event_def by (intro unscheduled.rel_bind keeps_uuid keeps_outgoing)

lemma keeps_dispatch_events: "keeps_schedule (dispatch_events V es) r"
  by (induction es arbitrary: r) (auto intro!: unscheduled.rel_ret unscheduled.rel_bind keeps_dispatch_event)

lemma keeps_reply: "keeps_schedule (dispatch_command_reply V m reply) r"
  unfolding dispatch_command_reply_def by (intro unscheduled.rel_bind keeps_uuid keeps_outgoing)

lemma keeps_mark: "keeps_schedule (mark_processed V l m) r"
  unfolding mark_processed_def by (auto intro: unscheduled.rel_ret keeps_sessions split: option.split)

lemma keeps_duplicate: "keeps_schedule (is_duplicate V l m) r"
  unfolding is_duplicate_def by (auto intro: unscheduled.rel_ret keeps_sessions split: option.split)

lemma keeps_seen: "keeps_schedule (mark_message_seen x) r"
  by (simp add: related_def mark_message_seen_def schedule_def split: option.split)

definition routed :: "incoming_message \<Rightarrow> 's router_state \<Rightarrow> 's router_state \<Rightarrow> bool" where
  "routed m r r' \<longleftrightarrow> schedule r' = schedule r \<or> (\<exists>l. schedule r' = schedule (snd (route_to_agent l m r)))"

lemma route_schedule:
  "schedule (snd (route_to_agent l m r)) =
     (if l \<in> rr_pending_threads r
      then (rr_pending_threads r, (rr_queued_messages r)(l \<mapsto> queue_of l r @ [m]), rr_requests r, rr_agent_closed r)
      else if rr_agent_closed r then (rr_pending_threads r - {l}, rr_queued_messages r, rr_requests r, True)
      else (insert l (rr_pending_threads r), rr_queued_messages r,
            rr_requests r @ [\<lparr>ar_locator = l, ar_incoming = m\<rparr>], False))"
  by (auto simp: route_to_agent_def act_bind_def try_mark_thread_pending_def dispatch_to_agent_def enqueue_message_def
      schedule_def queue_of_def)

lemma routed_route: "related (routed m) (route_to_agent l m) r"
  by (auto simp: related_def routed_def)

lemma routed_keeps: "keeps_schedule a r \<Longrightarrow> related (routed m) a r"
  by (simp add: related_def routed_def)

lemma route_schedule_cong: "schedule r1 = schedule r \<Longrightarrow> schedule (snd (route_to_agent l m r1)) = schedule (snd (route_to_agent l m r))"
  by (simp add: route_schedule) (auto simp: schedule_def queue_of_def)

lemma routed_bind:
  assumes "keeps_schedule a r" "\<And>x r'. related (routed m) (k x) r'"
  shows "related (routed m) (act_bind a k) r"
proof -
  obtain q r1 where 1: "a r = (q, r1)" by fastforce
  have s1: "schedule r1 = schedule r" using assms(1) by (simp add: related_def 1)
  show ?thesis
  proof (cases q)
    case (Inl e)
    then show ?thesis using s1 by (simp add: related_def act_bind_def 1 routed_def)
  next
    case (Inr x)
    then show ?thesis
      using s1 assms(2) [of x r1] route_schedule_cong [OF s1] by (simp add: related_def act_bind_def 1 routed_def)
  qed
qed

lemma keeps_answer: "keeps_schedule (act_bind (dispatch_command_reply V m reply) (\<lambda>_. mark_processed V l m)) r"
  by (intro unscheduled.rel_bind keeps_reply keeps_mark)

lemma routed_answer: "related (routed m) (act_bind (dispatch_command_reply V m reply) (\<lambda>_. mark_processed V l m)) r"
  by (rule routed_keeps [OF keeps_answer])

lemma routed_ret: "related (routed m) (act_ret x) r"
  by (rule routed_keeps [OF unscheduled.rel_ret])

lemma routed_execute: "related (routed m) (execute_command V l m) r"
  unfolding execute_command_def Let_def
  by (auto intro!: routed_bind keeps_sessions keeps_lift routed_answer routed_route simp: keeps_reply
      split: prod.split option.split)

lemma routed_command: "related (routed m) (run_command V l m) r"
proof -
  have "related (routed m) (act_bind (act_lift (running_thread_reply (rv_commands V) m)) (\<lambda>refusal.
      case refusal of
        Some reply \<Rightarrow> act_bind (dispatch_command_reply V m reply) (\<lambda>_. mark_processed V l m)
      | None \<Rightarrow> execute_command V l m)) r"
    by (rule routed_bind [OF keeps_lift]) (auto intro: routed_execute routed_answer split: option.split)
  then show ?thesis using routed_execute [of m V l r] by (auto simp: related_def run_command_def)
qed

lemma incoming_routed:
  assumes "handle_incoming V m r = (q, r')"
  shows "routed m r r'"
proof -
  have accept: "related (routed m) (accept_incoming V m) r" for r
    unfolding accept_incoming_def
    by (rule routed_bind [OF keeps_sessions] routed_bind [OF keeps_duplicate])+
      (auto intro!: routed_bind [OF keeps_lift] routed_ret routed_command routed_route)
  have "related (routed m) (handle_incoming V m) r"
    unfolding handle_incoming_def
    by (rule routed_bind) (auto intro: keeps_seen unscheduled.rel_ret accept routed_ret)
  then show ?thesis using assms by (simp add: related_def)
qed

lemma release_schedule:
  assumes "\<not> rr_agent_closed r"
  shows "schedule (snd (release_or_dispatch_next l r)) =
     (case queue_of l r of
        [] \<Rightarrow> (rr_pending_threads r - {l}, rr_queued_messages r, rr_requests r, False)
      | m # rest \<Rightarrow> (rr_pending_threads r, (rr_queued_messages r)(l := (if rest = [] then None else Some rest)),
                    rr_requests r @ [\<lparr>ar_locator = l, ar_incoming = m\<rparr>], False))"
  using assms
  by (auto simp: release_or_dispatch_next_def act_bind_def dispatch_to_agent_def pop_queue_def schedule_def queue_of_def
      split: list.split option.splits)

lemma event_schedule:
  assumes "handle_agent_event V event r = (q, r')"
  shows "schedule r' = (case event of RequestCompleted l _ \<Rightarrow> schedule (snd (release_or_dispatch_next l r)) | _ \<Rightarrow> schedule r)"
proof (cases event)
  case (MessageCommitted c)
  then show ?thesis using assms keeps_dispatch_events [of V "cm_dispatch_events c" r]
    by (simp add: handle_agent_event_def dispatch_committed_message_def related_def)
qed (use assms in \<open>simp_all add: handle_agent_event_def act_ret_def\<close>)

section \<open>The scheduling invariant\<close>

definition waiting :: "thread_locator \<Rightarrow> ('e, 's) system \<Rightarrow> nat" where
  "waiting l S = length (filter (\<lambda>q. ar_locator q = l) (drop (sy_taken S) (rr_requests (sy_router S))))"

definition in_flight :: "thread_locator \<Rightarrow> ('e, 's) system \<Rightarrow> nat" where
  "in_flight l S = waiting l S + completions l (sy_events S)"

definition sys_inv :: "('e, 's) system \<Rightarrow> bool" where
  "sys_inv S \<longleftrightarrow> sy_taken S \<le> length (rr_requests (sy_router S)) \<and> \<not> rr_agent_closed (sy_router S)
     \<and> (\<forall>l. in_flight l S + of_bool (l \<in> sy_silent S) = of_bool (l \<in> rr_pending_threads (sy_router S)))
     \<and> (\<forall>l q. rr_queued_messages (sy_router S) l = Some q \<longrightarrow> q \<noteq> [] \<and> l \<in> rr_pending_threads (sy_router S))
     \<and> finite (dom (rr_queued_messages (sy_router S)))"

lemma sys_inv_start: "sys_start S \<Longrightarrow> sys_inv S"
  by (simp add: sys_inv_def sys_start_def in_flight_def waiting_def completions_def)

lemma schedule_sel:
  "schedule r' = (p, m, rs, c) \<longleftrightarrow> rr_pending_threads r' = p \<and> rr_queued_messages r' = m \<and> rr_requests r' = rs
     \<and> rr_agent_closed r' = c"
  by (simp add: schedule_def)

lemma sys_inv_schedule:
  "schedule r = schedule (sy_router S) \<Longrightarrow> sys_inv (S\<lparr>sy_router := r\<rparr>) = sys_inv S"
  by (simp add: sys_inv_def in_flight_def waiting_def schedule_def)

lemma sys_inv_count:
  "sys_inv S \<Longrightarrow> in_flight l S + of_bool (l \<in> sy_silent S) = of_bool (l \<in> rr_pending_threads (sy_router S))"
  by (simp add: sys_inv_def)

lemma in_flight_pending: "sys_inv S \<Longrightarrow> l \<notin> rr_pending_threads (sy_router S) \<Longrightarrow> in_flight l S = 0 \<and> l \<notin> sy_silent S"
  using sys_inv_count [of S l] by (auto simp: of_bool_def split: if_splits)

lemma queue_empty: "sys_inv S \<Longrightarrow> l \<notin> rr_pending_threads (sy_router S) \<Longrightarrow> rr_queued_messages (sy_router S) l = None"
  by (cases "rr_queued_messages (sy_router S) l") (auto simp: sys_inv_def)

lemma sys_inv_route:
  assumes "sys_inv S" "schedule r = schedule (snd (route_to_agent l m (sy_router S)))"
  shows "sys_inv (S\<lparr>sy_router := r\<rparr>)"
proof (cases "l \<in> rr_pending_threads (sy_router S)")
  case True
  then show ?thesis
    using assms by (simp add: route_schedule schedule_sel sys_inv_def in_flight_def waiting_def)
next
  case False
  have open_agent: "\<not> rr_agent_closed (sy_router S)" "sy_taken S \<le> length (rr_requests (sy_router S))"
    using assms(1) by (simp_all add: sys_inv_def)
  have r: "rr_pending_threads r = insert l (rr_pending_threads (sy_router S))"
    "rr_queued_messages r = rr_queued_messages (sy_router S)"
    "rr_requests r = rr_requests (sy_router S) @ [\<lparr>ar_locator = l, ar_incoming = m\<rparr>]" "\<not> rr_agent_closed r"
    using assms(2) False open_agent by (simp_all add: route_schedule schedule_sel)
  have flight: "in_flight k (S\<lparr>sy_router := r\<rparr>) = in_flight k S + of_bool (k = l)" for k
    using open_agent(2) by (simp add: in_flight_def waiting_def r(3))
  have "in_flight l S = 0 \<and> l \<notin> sy_silent S" by (rule in_flight_pending [OF assms(1) False])
  then have "in_flight k (S\<lparr>sy_router := r\<rparr>) + of_bool (k \<in> sy_silent S) = of_bool (k \<in> rr_pending_threads r)" for k
    using assms(1) unfolding flight r(1) sys_inv_def by (cases "k = l") auto
  then show ?thesis using assms(1) r by (auto simp: sys_inv_def)
qed

lemma completions_Cons: "completions l (ev # evs) = of_bool (completes l ev) + completions l evs"
  by (simp add: completions_def)

lemma sys_inv_event:
  assumes "sys_inv S" "sy_events S = event # evs" "handle_agent_event V event (sy_router S) = (q, r)"
  shows "sys_inv (S\<lparr>sy_router := r, sy_events := evs\<rparr>)"
proof (cases "\<exists>l at_time. event = RequestCompleted l at_time")
  case False
  then have "schedule r = schedule (sy_router S)" and "\<And>l. \<not> completes l event"
    using event_schedule [OF assms(3)] by (auto split: agent_worker_event.splits elim!: completes.elims)
  then show ?thesis
    using assms(1,2) by (simp add: sys_inv_def in_flight_def waiting_def schedule_def completions_Cons)
next
  case True
  then obtain l at_time where ev: "event = RequestCompleted l at_time" by blast
  have open_agent: "\<not> rr_agent_closed (sy_router S)" "sy_taken S \<le> length (rr_requests (sy_router S))"
    using assms(1) by (simp_all add: sys_inv_def)
  have sch: "schedule r = schedule (snd (release_or_dispatch_next l (sy_router S)))"
    using event_schedule [OF assms(3)] ev by simp
  have count: "completions k (sy_events S) = of_bool (k = l) + completions k evs" for k
    using assms(2) ev by (simp add: completions_Cons)
  have all: "in_flight k S + of_bool (k \<in> sy_silent S) = of_bool (k \<in> rr_pending_threads (sy_router S))" for k
    using assms(1) by (simp add: sys_inv_def)
  have one: "l \<in> rr_pending_threads (sy_router S)" "l \<notin> sy_silent S" "in_flight l S = 1"
    using all [of l] count [of l] by (auto simp: in_flight_def of_bool_def split: if_splits)
  show ?thesis
  proof (cases "queue_of l (sy_router S)")
    case Nil
    then have r: "rr_pending_threads r = rr_pending_threads (sy_router S) - {l}"
      "rr_queued_messages r = rr_queued_messages (sy_router S)" "rr_requests r = rr_requests (sy_router S)" "\<not> rr_agent_closed r"
      using sch release_schedule [OF open_agent(1), of l] by (simp_all add: schedule_sel)
    have none: "rr_queued_messages (sy_router S) l = None"
      using Nil assms(1) by (auto simp: queue_of_def sys_inv_def split: option.splits)
    have "in_flight k (S\<lparr>sy_router := r, sy_events := evs\<rparr>) + of_bool (k \<in> sy_silent S) = of_bool (k \<in> rr_pending_threads r)" for k
      using all [of k] count [of k] one by (cases "k = l") (simp_all add: in_flight_def waiting_def r)
    then show ?thesis using assms(1) r none by (auto simp: sys_inv_def)
  next
    case (Cons m rest)
    then have r: "rr_pending_threads r = rr_pending_threads (sy_router S)"
      "rr_queued_messages r = (rr_queued_messages (sy_router S))(l := (if rest = [] then None else Some rest))"
      "rr_requests r = rr_requests (sy_router S) @ [\<lparr>ar_locator = l, ar_incoming = m\<rparr>]" "\<not> rr_agent_closed r"
      using sch release_schedule [OF open_agent(1), of l] by (simp_all add: schedule_sel)
    have "in_flight k (S\<lparr>sy_router := r, sy_events := evs\<rparr>) = in_flight k S" for k
      using count [of k] open_agent(2) by (simp add: in_flight_def waiting_def r)
    then show ?thesis using assms(1) r one(1) by (auto simp: sys_inv_def)
  qed
qed

lemma completions_append: "completions l (a @ b) = completions l a + completions l b"
  by (simp add: completions_def)

lemma completions_committed: "completions l (map MessageCommitted cs) = 0"
  by (induction cs) (simp_all add: completions_def)

lemma tail_completions: "event_tail l c tail \<Longrightarrow> completions k tail \<le> of_bool (k = l)"
  by (auto simp: event_tail_def completions_def)

lemma request_completions:
  assumes "handle_request W V request (worker_view S) = Some (q, ws)"
  obtains new where "wl_events (ws_link ws) = sy_events S @ new"
    "\<And>k. completions k new \<le> of_bool (k = ar_locator request)"
proof -
  obtain cs tail where e: "wl_events (ws_link ws) = sy_events S @ map MessageCommitted cs @ tail"
    "event_tail (ar_locator request) (case q of Inl _ \<Rightarrow> False | Inr _ \<Rightarrow> True) tail"
    using handle_request_events [OF assms] by (auto simp: worker_view_def)
  show ?thesis
    by (rule that [OF e(1)]) (use tail_completions [OF e(2)] in \<open>simp add: completions_append completions_committed\<close>)
qed

lemma after_request_sel:
  "rr_pending_threads (sy_router (after_request l ws S)) = rr_pending_threads (sy_router S)"
  "rr_queued_messages (sy_router (after_request l ws S)) = rr_queued_messages (sy_router S)"
  "rr_requests (sy_router (after_request l ws S)) = rr_requests (sy_router S)"
  "rr_agent_closed (sy_router (after_request l ws S)) = rr_agent_closed (sy_router S)"
  "sy_taken (after_request l ws S) = Suc (sy_taken S)" "sy_events (after_request l ws S) = wl_events (ws_link ws)"
  "sy_silent (after_request l ws S) = (if completions l (wl_events (ws_link ws)) = completions l (sy_events S)
      then insert l (sy_silent S) else sy_silent S)"
  by (simp_all add: after_request_def Let_def)

lemma sys_inv_request:
  assumes "sys_inv S" "sy_taken S < length (rr_requests (sy_router S))" "request = rr_requests (sy_router S) ! sy_taken S"
    and "handle_request W V request (worker_view S) = Some (q, ws)"
  shows "sys_inv (after_request (ar_locator request) ws S)"
proof -
  let ?l = "ar_locator request" and ?S = "after_request (ar_locator request) ws S"
  obtain new where new: "wl_events (ws_link ws) = sy_events S @ new" "\<And>k. completions k new \<le> of_bool (k = ?l)"
    using request_completions [OF assms(4)] by blast
  have "drop (sy_taken S) (rr_requests (sy_router S)) = request # drop (Suc (sy_taken S)) (rr_requests (sy_router S))"
    using assms(2,3) by (simp add: Cons_nth_drop_Suc)
  then have w: "waiting k S = of_bool (k = ?l) + waiting k ?S" for k
    by (auto simp: waiting_def after_request_sel)
  have f: "in_flight k S + completions k new = of_bool (k = ?l) + in_flight k ?S" for k
    using w [of k] by (simp add: in_flight_def after_request_sel new(1) completions_append)
  have live: "?l \<notin> sy_silent S"
    using sys_inv_count [OF assms(1), of ?l] w [of ?l] by (auto simp: in_flight_def of_bool_def split: if_splits)
  have silent: "of_bool (k \<in> sy_silent ?S) = of_bool (k \<in> sy_silent S) + of_bool (k = ?l) * (1 - completions k new)" for k
    using new(2) [of k] live by (auto simp: after_request_sel new(1) completions_append of_bool_def split: if_splits)
  have "in_flight k ?S + of_bool (k \<in> sy_silent ?S) = of_bool (k \<in> rr_pending_threads (sy_router ?S))" for k
    using sys_inv_count [OF assms(1), of k] f [of k] new(2) [of k]
    unfolding silent by (auto simp: after_request_sel of_bool_def split: if_splits)
  then show ?thesis using assms(1,2) by (simp add: sys_inv_def after_request_sel)
qed

lemma sys_inv_step: "sys_step W V S i S' \<Longrightarrow> sys_inv S \<Longrightarrow> sys_inv S'"
proof (induction rule: sys_step.induct)
  case (step_incoming m S q r)
  then show ?case
    using incoming_routed [OF step_incoming(1)] sys_inv_route by (auto simp: routed_def sys_inv_schedule)
next
  case (step_event S event evs q r)
  then show ?case by (intro sys_inv_event)
next
  case (step_request S request q ws)
  then show ?case by (intro sys_inv_request)
qed

lemma sys_inv_run: "sys_run W V S ms S' \<Longrightarrow> sys_inv S \<Longrightarrow> sys_inv S'"
  by (induction rule: sys_run.induct) (auto intro: sys_inv_step)

section \<open>Order\<close>

text \<open>What the router has accepted for a thread: what it sent to the agent, then what is queued.\<close>

definition sent_for :: "thread_locator \<Rightarrow> 's router_state \<Rightarrow> incoming_message list" where
  "sent_for l r = map ar_incoming (filter (\<lambda>q. ar_locator q = l) (rr_requests r))"

definition backlog :: "thread_locator \<Rightarrow> 's router_state \<Rightarrow> incoming_message list" where
  "backlog l r = sent_for l r @ queue_of l r"

lemma backlog_schedule: "schedule r = schedule r' \<Longrightarrow> backlog l r = backlog l r'"
  by (simp add: backlog_def sent_for_def queue_of_def schedule_def)

lemma backlog_route:
  assumes "sys_inv S" "schedule r = schedule (snd (route_to_agent l m (sy_router S)))"
  shows "backlog k r = backlog k (sy_router S) @ (if k = l then [m] else [])"
proof (cases "l \<in> rr_pending_threads (sy_router S)")
  case True
  then show ?thesis
    using assms(2) by (auto simp: route_schedule schedule_sel backlog_def sent_for_def queue_of_def)
next
  case False
  have "\<not> rr_agent_closed (sy_router S)" using assms(1) by (simp add: sys_inv_def)
  then show ?thesis
    using assms(2) False queue_empty [OF assms(1) False]
    by (auto simp: route_schedule schedule_sel backlog_def sent_for_def queue_of_def)
qed

lemma backlog_release:
  assumes "\<not> rr_agent_closed r" "schedule r' = schedule (snd (release_or_dispatch_next l r))"
  shows "backlog k r' = backlog k r"
proof (cases "queue_of l r")
  case Nil
  then show ?thesis
    using assms(2) by (simp add: release_schedule [OF assms(1)] schedule_sel backlog_def sent_for_def queue_of_def)
next
  case (Cons m rest)
  then have r': "rr_queued_messages r' = (rr_queued_messages r)(l := (if rest = [] then None else Some rest))"
    "rr_requests r' = rr_requests r @ [\<lparr>ar_locator = l, ar_incoming = m\<rparr>]"
    using assms(2) by (simp_all add: release_schedule [OF assms(1)] schedule_sel)
  have "queue_of k r' = (if k = l then rest else queue_of k r)" by (simp add: queue_of_def r'(1))
  then show ?thesis using Cons by (auto simp: backlog_def sent_for_def r'(2))
qed

lemma backlog_step:
  "sys_step W V S i S' \<Longrightarrow> sys_inv S \<Longrightarrow>
     backlog l (sy_router S') = backlog l (sy_router S)
     \<or> (\<exists>m. i = Some m \<and> backlog l (sy_router S') = backlog l (sy_router S) @ [m])"
proof (induction rule: sys_step.induct)
  case (step_incoming m S q r)
  then show ?case
    using incoming_routed [OF step_incoming(1)] backlog_route [OF step_incoming(2), of r]
    by (auto simp: routed_def intro: backlog_schedule)
next
  case (step_event S event evs q r)
  have "\<not> rr_agent_closed (sy_router S)" using step_event(3) by (simp add: sys_inv_def)
  then show ?case
    using event_schedule [OF step_event(2)] backlog_release [of "sy_router S" r]
    by (auto intro: backlog_schedule split: agent_worker_event.splits)
next
  case (step_request S request q ws)
  then show ?case by (simp add: backlog_def sent_for_def queue_of_def after_request_sel)
qed

lemma backlog_run:
  "sys_run W V S ms S' \<Longrightarrow> sys_inv S \<Longrightarrow>
     \<exists>new. backlog l (sy_router S') = backlog l (sy_router S) @ new \<and> subseq new ms"
proof (induction rule: sys_run.induct)
  case (run_nil S)
  then show ?case by simp
next
  case (run_snoc S ms S' i S'')
  then obtain new where new: "backlog l (sy_router S') = backlog l (sy_router S) @ new" "subseq new ms" by blast
  have inv: "sys_inv S'" by (rule sys_inv_run [OF run_snoc(1,4)])
  from backlog_step [OF run_snoc(2) inv, of l] show ?case
  proof
    assume "backlog l (sy_router S'') = backlog l (sy_router S')"
    then show ?thesis using new by (auto intro: list_emb_append2 split: option.split)
  next
    assume "\<exists>m. i = Some m \<and> backlog l (sy_router S'') = backlog l (sy_router S') @ [m]"
    then obtain m where "i = Some m" "backlog l (sy_router S'') = backlog l (sy_router S) @ new @ [m]" using new by auto
    then show ?thesis using new(2) by (intro exI [of _ "new @ [m]"]) (simp add: list_emb_append_mono)
  qed
qed

lemma incoming_requests:
  assumes "handle_incoming V m r = (q, r')" "\<not> rr_agent_closed r"
  obtains "rr_requests r' = rr_requests r"
  | l where "l \<notin> rr_pending_threads r" "rr_requests r' = rr_requests r @ [\<lparr>ar_locator = l, ar_incoming = m\<rparr>]"
  using incoming_routed [OF assms(1)] unfolding routed_def
proof (elim disjE exE)
  fix l
  assume "schedule r' = schedule (snd (route_to_agent l m r))"
  then have "rr_requests r' = rr_requests r @ (if l \<in> rr_pending_threads r then [] else [\<lparr>ar_locator = l, ar_incoming = m\<rparr>])"
    using assms(2) by (auto simp only: route_schedule schedule_sel split: if_splits)
  then show ?thesis using that(1) that(2) [of l] by (cases "l \<in> rr_pending_threads r") simp_all
qed (use that in \<open>simp add: schedule_def\<close>)

lemma event_requests:
  assumes "handle_agent_event V event r = (q, r')" "\<not> rr_agent_closed r"
  obtains "rr_requests r' = rr_requests r"
  | l m where "completes l event" "rr_requests r' = rr_requests r @ [\<lparr>ar_locator = l, ar_incoming = m\<rparr>]"
proof (cases event)
  case (RequestCompleted l at_time)
  then have sch: "schedule r' = schedule (snd (release_or_dispatch_next l r))" using event_schedule [OF assms(1)] by simp
  show ?thesis
  proof (cases "queue_of l r")
    case Nil
    then show ?thesis using sch that(1) by (simp add: release_schedule [OF assms(2)] schedule_sel)
  next
    case (Cons m rest)
    then show ?thesis using sch that(2) [of l m] RequestCompleted
      by (simp add: release_schedule [OF assms(2)] schedule_sel)
  qed
qed (use that event_schedule [OF assms(1)] in \<open>simp_all add: schedule_def\<close>)

lemma requests_step:
  "sys_step W V S i S' \<Longrightarrow> sys_inv S \<Longrightarrow> \<exists>more. rr_requests (sy_router S') = rr_requests (sy_router S) @ more"
proof (induction rule: sys_step.induct)
  case (step_incoming m S q r)
  then have open_agent: "\<not> rr_agent_closed (sy_router S)" by (simp add: sys_inv_def)
  show ?case by (rule incoming_requests [OF step_incoming(1) open_agent]) simp_all
next
  case (step_event S event evs q r)
  have open_agent: "\<not> rr_agent_closed (sy_router S)" using step_event(3) by (simp add: sys_inv_def)
  show ?case
    by (rule event_requests [OF step_event(2) open_agent]) simp_all
next
  case (step_request S request q ws)
  then show ?case by (simp add: after_request_sel)
qed

lemma requests_run:
  "sys_run W V S ms S' \<Longrightarrow> sys_inv S \<Longrightarrow> \<exists>more. rr_requests (sy_router S') = rr_requests (sy_router S) @ more"
proof (induction rule: sys_run.induct)
  case (run_snoc S ms S' i S'')
  then show ?case using requests_step [OF run_snoc(2) sys_inv_run [OF run_snoc(1,4)]] by auto
qed simp

section \<open>Progress\<close>









section \<open>Silence\<close>

lemma silent_step:
  "sys_step W V S i S' \<Longrightarrow> sys_inv S \<Longrightarrow> l \<in> sy_silent S \<Longrightarrow>
     l \<in> sy_silent S' \<and> sent_for l (sy_router S') = sent_for l (sy_router S)"
proof (induction rule: sys_step.induct)
  case (step_incoming m S q r)
  have "l \<in> rr_pending_threads (sy_router S)"
    using sys_inv_count [OF step_incoming(2), of l] step_incoming(3) by (auto simp: of_bool_def split: if_splits)
  moreover have open_agent: "\<not> rr_agent_closed (sy_router S)" using step_incoming(2) by (simp add: sys_inv_def)
  ultimately have "sent_for l r = sent_for l (sy_router S)"
    by (cases rule: incoming_requests [OF step_incoming(1) open_agent]) (auto simp: sent_for_def)
  then show ?case using step_incoming(3) by simp
next
  case (step_event S event evs q r)
  have open_agent: "\<not> rr_agent_closed (sy_router S)" using step_event(3) by (simp add: sys_inv_def)
  have "in_flight l S = 0"
    using sys_inv_count [OF step_event(3), of l] step_event(4) by (auto simp: of_bool_def split: if_splits)
  then have "\<not> completes l event" using step_event(1) by (auto simp: in_flight_def completions_Cons)
  then have "sent_for l r = sent_for l (sy_router S)"
    by (cases rule: event_requests [OF step_event(2) open_agent]) (auto simp: sent_for_def)
  then show ?case using step_event(4) by simp
next
  case (step_request S request q ws)
  then show ?case by (simp add: after_request_sel sent_for_def)
qed

lemma silent_run:
  "sys_run W V S ms S' \<Longrightarrow> sys_inv S \<Longrightarrow> l \<in> sy_silent S \<Longrightarrow>
     l \<in> sy_silent S' \<and> sent_for l (sy_router S') = sent_for l (sy_router S)"
proof (induction rule: sys_run.induct)
  case (run_snoc S ms S' i S'')
  then show ?case using silent_step [OF run_snoc(2) sys_inv_run [OF run_snoc(1,4)], of l] by simp
qed simp

section \<open>Properties\<close>

text \<open>
  C2: a thread has at most one request at the agent. Whatever comes in and in whatever order messages,
  events and requests are handled, every thread has at most one request or completion under way, and it
  is marked pending exactly while it has one or after a request of it that never reported its completion;
  only pending threads have messages in a queue.
\<close>
theorem one_request_per_thread_in_flight:
  assumes "sys_start S" "sys_run W V S ms S'"
  shows "in_flight l S' \<le> 1
    \<and> (l \<in> rr_pending_threads (sy_router S')) = (in_flight l S' = 1 \<or> l \<in> sy_silent S')
    \<and> \<not> (in_flight l S' = 1 \<and> l \<in> sy_silent S')
    \<and> (queue_of l (sy_router S') \<noteq> [] \<longrightarrow> l \<in> rr_pending_threads (sy_router S'))"
proof -
  have inv: "sys_inv S'" by (rule sys_inv_run [OF assms(2) sys_inv_start [OF assms(1)]])
  have "queue_of l (sy_router S') \<noteq> [] \<longrightarrow> l \<in> rr_pending_threads (sy_router S')"
    using inv by (auto simp: sys_inv_def queue_of_def split: option.splits)
  then show ?thesis using sys_inv_count [OF inv, of l] by (auto simp: of_bool_def split: if_splits)
qed

text \<open>
  C3: messages reach the agent in the order they came in. For every thread, what the router has sent to
  the agent and then has queued is a subsequence of the messages that came in, in order and without
  repetition; later steps only append to it, and what was sent stays sent. Nothing queued is lost,
  duplicated or overtaken.
\<close>
theorem messages_reach_agent_in_order:
  assumes "sys_start S" "sys_run W V S ms S1" "sys_run W V S1 ms' S2"
  shows "subseq (backlog l (sy_router S1)) ms
    \<and> (\<exists>new. backlog l (sy_router S2) = backlog l (sy_router S1) @ new \<and> subseq new ms')
    \<and> (\<exists>more. rr_requests (sy_router S2) = rr_requests (sy_router S1) @ more)"
proof -
  have start: "sys_inv S" "backlog l (sy_router S) = []"
    using assms(1) sys_inv_start by (auto simp: backlog_def sent_for_def queue_of_def sys_start_def)
  have inv: "sys_inv S1" by (rule sys_inv_run [OF assms(2) start(1)])
  show ?thesis
    using backlog_run [OF assms(2) start(1), of l] backlog_run [OF assms(3) inv, of l] requests_run [OF assms(3) inv] start(2)
    by auto
qed




text \<open>
  A thread whose request was never reported as completed starves. Once a request of a thread has ended
  without its completion, no run of the system sends another message of that thread to the agent: the
  thread stays pending, and whatever is accepted for it later only makes its queue longer.
\<close>
theorem silent_thread_starves:
  assumes "sys_start S" "sys_run W V S ms S1" "l \<in> sy_silent S1" "sys_run W V S1 ms' S2"
  shows "l \<in> rr_pending_threads (sy_router S2) \<and> sent_for l (sy_router S2) = sent_for l (sy_router S1)
    \<and> (\<exists>new. queue_of l (sy_router S2) = queue_of l (sy_router S1) @ new \<and> subseq new ms')"
proof -
  have inv: "sys_inv S1" by (rule sys_inv_run [OF assms(2) sys_inv_start [OF assms(1)]])
  have s: "l \<in> sy_silent S2" "sent_for l (sy_router S2) = sent_for l (sy_router S1)"
    using silent_run [OF assms(4) inv assms(3)] by simp_all
  have "l \<in> rr_pending_threads (sy_router S2)"
    using sys_inv_count [OF sys_inv_run [OF assms(4) inv], of l] s(1) by (auto simp: of_bool_def split: if_splits)
  then show ?thesis using s(2) backlog_run [OF assms(4) inv, of l] by (auto simp: backlog_def)
qed

section \<open>A concrete system\<close>

definition demo_router_env :: "memory_store router_env" where
  "demo_router_env =
     \<lparr>rv_sessions = demo_session_env, rv_clock = (\<lambda>_. 3), rv_commands = with_builtin_commands demo_context_env,
      rv_message_dedup_enabled = False\<rparr>"

definition demo_system :: "(llm_response list, memory_store) system" where
  "demo_system =
     \<lparr>sy_router = router_new (wl_sessions (demo_link stale_thread)) Map.empty, sy_env = [demo_answer],
      sy_registry = script_registry, sy_taken = 0, sy_events = [], sy_silent = {}\<rparr>"

lemma demo_system_start: "sys_start demo_system"
  by (simp add: sys_start_def demo_system_def router_new_def)

definition demo_message :: incoming_message where
  "demo_message = OJ_Session_Manager.demo_incoming"

definition demo_message_locator :: thread_locator where
  "demo_message_locator = demo_store_locator\<lparr>tl_session_id := 5\<rparr>"

lemma demo_session_sel:
  "sv_ops (rv_sessions demo_router_env) = memory_session_store demo_uuid_lib" "sv_uuids (rv_sessions demo_router_env) = demo_uuid_lib"
  "sv_fresh (rv_sessions demo_router_env) = (\<lambda>_. 5)"
  by (simp_all add: demo_router_env_def demo_session_env_def)

lemma demo_handled:
  obtains r where "handle_incoming demo_router_env demo_message (sy_router demo_system) = (Inr (), r)"
    "rr_requests r = [\<lparr>ar_locator = demo_message_locator, ar_incoming = demo_message\<rparr>]"
    "cached_thread_handle demo_message_locator (rr_sessions r) = Some 0" "sm_cells (rr_sessions r) = [stale_thread]"
proof -
  let ?m0 = "wl_sessions (demo_link stale_thread)"
  have loc: "thread_locator_new i demo_message (resolved_external_thread_id demo_message)
      (derive_thread_id demo_uuid_lib (session_key_from_incoming demo_message) (resolved_external_thread_id demo_message))
      = demo_store_locator\<lparr>tl_session_id := i\<rparr>" for i
    by (simp add: demo_message_def demo_incoming_locator demo_store_locator_def)
  have key: "session_key_from_incoming demo_message = tl_session_key demo_store_locator"
    by (simp add: demo_message_def OJ_Session_Manager.demo_incoming_def session_key_from_incoming_def tl_session_key_def
        demo_store_locator_def)
  have sel: "tl_session_key demo_message_locator = tl_session_key demo_store_locator"
    "tl_thread_id demo_message_locator = tl_thread_id demo_store_locator"
    by (simp_all add: demo_message_locator_def tl_session_key_def)
  have cached: "cached_thread_handle demo_message_locator m = cached_thread_handle demo_store_locator m"
    for m :: "memory_store session_manager"
    by (simp add: cached_thread_handle_def sel split: option.split)
  have handle0: "cached_thread_handle demo_store_locator (?m0\<lparr>sm_store := st\<rparr>) = Some 0" for st
    using demo_worker_cached(1) [of stale_thread] by (simp add: cached_thread_handle_def demo_worker_state_def)
  obtain st rec where res: "mem_resolve_or_create_session 5 (tl_session_key demo_store_locator) (im_received_at demo_message)
      (sm_store ?m0) = (Inr rec, st)" "ss_id rec = 5" "ms_external_messages st = Map.empty"
    by (simp add: demo_link_def mem_resolve_or_create_session_def memory_store_new_def Let_def)
  have ensured: "ensure_thread_handle (memory_session_store demo_uuid_lib) demo_uuid_lib 5 demo_message_locator (Some rec)
      (im_received_at demo_message) (?m0\<lparr>sm_store := st\<rparr>) = (Inr 0, ?m0\<lparr>sm_store := st\<rparr>)"
    by (simp add: ensure_thread_handle_def cached handle0)
  define se where "se = (case sm_sessions (?m0\<lparr>sm_store := st\<rparr>) (tl_session_key demo_store_locator) of
      Some se \<Rightarrow> se | None \<Rightarrow> cached_session_from_record rec)"
  define m1 where "m1 = ?m0\<lparr>sm_store := st, sm_sessions := (sm_sessions ?m0)
      (tl_session_key demo_store_locator \<mapsto> se\<lparr>cs_updated_at := im_received_at demo_message\<rparr>)\<rparr>"
  have load: "load_or_create_thread (memory_session_store demo_uuid_lib) demo_uuid_lib 5 demo_message ?m0
      = (Inr demo_message_locator, m1)"
    using ensured loc [of 5] res(1,2)
    by (simp add: load_or_create_thread_def Let_def memory_session_store_def key demo_message_locator_def m1_def se_def)
  have m1: "cached_thread_handle demo_store_locator m1 = Some 0" "sm_cells m1 = [stale_thread]" "sm_store m1 = st"
    by (simp_all add: m1_def se_def cached_thread_handle_def demo_link_def)
  have dup: "is_external_message_processed (memory_session_store demo_uuid_lib) demo_message_locator x m1 = Inr False" for x
    by (simp add: is_external_message_processed_def memory_session_store_def mem_load_external_message_record_def m1(3) res(3))
  have text_of: "im_content demo_message = str ''hello''" "im_external_message_id demo_message = Some (str ''m1'')"
    by (simp_all add: demo_message_def OJ_Session_Manager.demo_incoming_def)
  have hello: "trim_start (str ''hello'') = str ''hello''" "\<not> starts_with (str ''hello'') (str ''@'')"
    "\<not> starts_with (str ''hello'') (str ''/'')"
    by (simp_all add: str_def trim_start_def is_whitespace_def)
  have "remove_prefix_at_if_exist demo_message = str ''hello''"
    by (simp add: remove_prefix_at_if_exist_def text_of hello)
  then have words: "is_command demo_message = Inr False" "im_external_message_id demo_message = Some (str ''m1'')"
    by (simp_all add: is_command_def invocation_parse_def hello text_of)
  let ?r0 = "sy_router demo_system"
  let ?r1 = "?r0\<lparr>rr_sessions := m1, rr_draws := 2, rr_pending_threads := {demo_message_locator},
      rr_requests := [\<lparr>ar_locator = demo_message_locator, ar_incoming = demo_message\<rparr>]\<rparr>"
  have "rv_message_dedup_enabled demo_router_env = False" by (simp add: demo_router_env_def)
  then have "handle_incoming demo_router_env demo_message ?r0 = (Inr (), ?r1)"
    using load dup words
    by (simp add: handle_incoming_def accept_incoming_def act_bind_def on_sessions_def demo_session_sel is_duplicate_def
        act_lift_def route_to_agent_def try_mark_thread_pending_def dispatch_to_agent_def demo_system_def router_new_def
        act_ret_def)
  then show ?thesis using m1 cached by (intro that [of ?r1]) simp_all
qed

text \<open>The request fails on the stale toolset, so its thread goes silent.\<close>

lemma demo_silent:
  obtains S1 S2 where "sys_run demo_worker demo_router_env demo_system [demo_message] S1"
    "sys_step demo_worker demo_router_env S1 None S2" "demo_message_locator \<in> sy_silent S2"
proof -
  obtain r where r: "handle_incoming demo_router_env demo_message (sy_router demo_system) = (Inr (), r)"
    "rr_requests r = [\<lparr>ar_locator = demo_message_locator, ar_incoming = demo_message\<rparr>]"
    "cached_thread_handle demo_message_locator (rr_sessions r) = Some 0" "sm_cells (rr_sessions r) = [stale_thread]"
    by (rule demo_handled)
  let ?S1 = "demo_system\<lparr>sy_router := r\<rparr>" and ?q = "\<lparr>ar_locator = demo_message_locator, ar_incoming = demo_message\<rparr>"
  have run: "sys_run demo_worker demo_router_env demo_system [demo_message] ?S1"
    using run_snoc [OF run_nil step_incoming [OF r(1)], of demo_worker] by simp
  have link: "ws_link (worker_view ?S1) = \<lparr>wl_sessions = rr_sessions r, wl_draws = rr_draws r, wl_events = [], wl_closed = False\<rparr>"
    "ws_registry (worker_view ?S1) = script_registry"
    by (simp_all add: worker_view_def demo_system_def)
  obtain e ws cs where req: "handle_request demo_worker (rv_sessions demo_router_env) ?q (worker_view ?S1) = Some (Inl e, ws)"
    "wl_events (ws_link ws) = map MessageCommitted cs"
    using stale_request [of ?q "worker_view ?S1" 0 stale_thread "str ''gone''" demo_worker "rv_sessions demo_router_env"]
      stale_thread_sel demo_worker_registration r(3,4)
    by (auto simp: link demo_worker_hooks)
  have "sys_step demo_worker demo_router_env ?S1 None (after_request (ar_locator ?q) ws ?S1)"
    by (rule step_request [OF _ _ req(1)]) (simp_all add: r(2) demo_system_def)
  moreover have "demo_message_locator \<in> sy_silent (after_request (ar_locator ?q) ws ?S1)"
    by (simp add: after_request_sel req(2) completions_committed demo_system_def completions_def)
  ultimately show ?thesis using run that by blast
qed

theorem one_request_per_thread_in_flight_witness:
  "\<exists>S. sys_run demo_worker demo_router_env demo_system [demo_message] S
     \<and> in_flight demo_message_locator S \<le> 1
     \<and> (demo_message_locator \<in> rr_pending_threads (sy_router S))
        = (in_flight demo_message_locator S = 1 \<or> demo_message_locator \<in> sy_silent S)"
proof -
  obtain S1 where run: "sys_run demo_worker demo_router_env demo_system [demo_message] S1" by (rule demo_silent)
  from one_request_per_thread_in_flight [OF demo_system_start run, of demo_message_locator] run show ?thesis by blast
qed

theorem messages_reach_agent_in_order_witness:
  "\<exists>S1 S2. sys_run demo_worker demo_router_env demo_system [demo_message] S1
     \<and> sys_run demo_worker demo_router_env S1 [] S2
     \<and> subseq (backlog demo_message_locator (sy_router S1)) [demo_message]
     \<and> (\<exists>new. backlog demo_message_locator (sy_router S2) = backlog demo_message_locator (sy_router S1) @ new)"
proof -
  obtain S1 S2 where run: "sys_run demo_worker demo_router_env demo_system [demo_message] S1"
    "sys_step demo_worker demo_router_env S1 None S2" by (rule demo_silent)
  have next_run: "sys_run demo_worker demo_router_env S1 [] S2" using run_snoc [OF run_nil run(2)] by simp
  from messages_reach_agent_in_order [OF demo_system_start run(1) next_run, of demo_message_locator] run(1) next_run
  show ?thesis by blast
qed


theorem silent_thread_starves_witness:
  "\<exists>S1 S2. sys_run demo_worker demo_router_env S1 [demo_message] S2
     \<and> demo_message_locator \<in> rr_pending_threads (sy_router S2)
     \<and> sent_for demo_message_locator (sy_router S2) = sent_for demo_message_locator (sy_router S1)"
proof -
  obtain S0 S1 where run: "sys_run demo_worker demo_router_env demo_system [demo_message] S0"
    "sys_step demo_worker demo_router_env S0 None S1" "demo_message_locator \<in> sy_silent S1" by (rule demo_silent)
  have run1: "sys_run demo_worker demo_router_env demo_system [demo_message] S1" using run_snoc [OF run(1,2)] by simp
  obtain q r where "handle_incoming demo_router_env demo_message (sy_router S1) = (q, r)" by fastforce
  from run_snoc [OF run_nil step_incoming [OF this], of demo_worker]
  have run2: "sys_run demo_worker demo_router_env S1 [demo_message] (S1\<lparr>sy_router := r\<rparr>)" by simp
  from silent_thread_starves [OF demo_system_start run1 run(3) run2] run2 show ?thesis by blast
qed

end
