(* ===== verification/OJ_Agent_Termination.thy ===== *)
theory OJ_Agent_Termination
  imports OJ_Agent_Protocol
begin

text \<open>
  The agent loop has no bound on its rounds: it ends when the provider stops asking for tools. Stated
  with a measure on the outside world that every request answered with tool calls lowers and that the
  other neighbours do not raise.
\<close>

section \<open>Neighbours that do not raise the measure\<close>

definition env_le :: "('e \<Rightarrow> nat) \<Rightarrow> ('e, 'a) act \<Rightarrow> bool" where
  "env_le f m \<longleftrightarrow> (\<forall>e. f (snd (m e)) \<le> f e)"

definition handlers_le :: "('e \<Rightarrow> nat) \<Rightarrow> (rstring \<times> 'e tool_handler) list \<Rightarrow> bool" where
  "handlers_le f hs \<longleftrightarrow> (\<forall>(n, h) \<in> set hs. \<forall>c q. env_le f (hd_call h c q))"

fun toolset_le :: "('e \<Rightarrow> nat) \<Rightarrow> 'e registered_toolset \<Rightarrow> bool" where
  "toolset_le f (StaticToolset d) \<longleftrightarrow> handlers_le f (st_handlers d)
     \<and> (\<forall>u. st_runtime d = Some u \<longrightarrow> (\<forall>i. env_le f (u i)))"
| "toolset_le f (McpServerToolset _ _) \<longleftrightarrow> True"

definition registry_le :: "('e \<Rightarrow> nat) \<Rightarrow> 'e tool_registry \<Rightarrow> bool" where
  "registry_le f g \<longleftrightarrow> handlers_le f (tg_always_visible g) \<and> (\<forall>(n, t) \<in> set (tg_toolsets g). toolset_le f t)"

definition mcp_le :: "('e \<Rightarrow> nat) \<Rightarrow> 'e tool_env \<Rightarrow> bool" where
  "mcp_le f v \<longleftrightarrow> (\<forall>n. env_le f (tv_mcp_ensure_server_tools v n))
     \<and> (\<forall>n e hs e'. tv_mcp_ensure_server_tools v n e = (Inr hs, e') \<longrightarrow> handlers_le f hs)"

text \<open>A provider that lowers the measure whenever it asks for tools.\<close>

definition provider_descends :: "('e \<Rightarrow> nat) \<Rightarrow> 'e agent_loop \<Rightarrow> bool" where
  "provider_descends f L \<longleftrightarrow> (\<forall>q e. case w_generate (al_world L) q e of
      (Inl _, e') \<Rightarrow> f e' \<le> f e
    | (Inr r, e') \<Rightarrow> if lr_tool_calls r = [] then f e' \<le> f e else f e' < f e)"

definition neighbours_le :: "('e \<Rightarrow> nat) \<Rightarrow> 'e agent_loop \<Rightarrow> bool" where
  "neighbours_le f L \<longleftrightarrow> provider_descends f L \<and> (\<forall>ev. env_le f (hook_emit (al_hooks L) ev))
     \<and> env_le f (act_now (al_world L)) \<and> env_le f (act_uuid (al_world L))
     \<and> (\<forall>r. env_le f (al_compact_provider L r)) \<and> mcp_le f (al_tools L)"

definition measure_kept :: "('e \<Rightarrow> nat) \<Rightarrow> ('e, 'z) run_state_scheme \<Rightarrow> ('e, 'z) run_state_scheme \<Rightarrow> bool" where
  "measure_kept f s s' \<longleftrightarrow> rn_registry s' = rn_registry s
     \<and> (registry_le f (rn_registry s) \<longrightarrow> f (rn_env s') \<le> f (rn_env s))"

interpretation measure_order: action_preorder "measure_kept f" for f :: "'e \<Rightarrow> nat"
  by unfold_locales (auto simp: measure_kept_def)

lemma measure_env_if:
  "(registry_le f (rn_registry s) \<Longrightarrow> env_le f m) \<Longrightarrow> related (measure_kept f) (on_env m) s"
  unfolding related_def measure_kept_def on_env_def env_le_def Let_def case_prod_beta by simp

lemma measure_env: "env_le f m \<Longrightarrow> related (measure_kept f) (on_env m) s"
  by (rule measure_env_if)

lemmas measure_trivial = measure_order.rel_ret [unfolded related_def] measure_order.rel_fail [unfolded related_def]

lemma measure_same: "rn_registry (snd (m s)) = rn_registry s \<Longrightarrow> rn_env (snd (m s)) = rn_env s \<Longrightarrow> related (measure_kept f) m s"
  by (simp add: related_def measure_kept_def)

lemma measure_thread: "related (measure_kept f) (on_thread g) s"
  by (rule measure_same) (simp_all add: on_thread_def split: sum.split)

lemma bind_result:
  assumes "related (measure_kept f) m s"
    and "\<And>x s'. m s = (Inr x, s') \<Longrightarrow> related (measure_kept f) (k x) s'"
  shows "related (measure_kept f) (act_bind m k) s"
  using assms measure_order.R_trans [of f s]
  by (cases "m s") (auto simp: related_def act_bind_def split: sum.split)

lemma resolve_measure:
  assumes "mcp_le f v"
  shows "related (measure_kept f) (resolve_toolset_handlers v n) s"
    and "resolve_toolset_handlers v n s = (Inr hs, s') \<Longrightarrow> registry_le f (rn_registry s) \<Longrightarrow> handlers_le f hs"
proof -
  have env: "env_le f (tv_mcp_ensure_server_tools v i)" for i using assms by (simp add: mcp_le_def)
  show "related (measure_kept f) (resolve_toolset_handlers v n) s"
    by (simp add: resolve_toolset_handlers_def related_def measure_trivial measure_env [OF env, unfolded related_def]
        split: option.split registered_toolset.split)
  show "resolve_toolset_handlers v n s = (Inr hs, s') \<Longrightarrow> registry_le f (rn_registry s) \<Longrightarrow> handlers_le f hs"
    using assms
    by (auto simp: resolve_toolset_handlers_def act_fail_def act_ret_def on_env_def registry_le_def mcp_le_def
        split: option.splits registered_toolset.splits prod.splits dest!: map_of_SomeD) blast
qed

lemma extend_measure: "mcp_le f v \<Longrightarrow> related (measure_kept f) (extend_with_toolsets v ns ds) s"
  by (induction ns arbitrary: ds s)
    (auto intro!: measure_order.rel_ret measure_order.rel_bind resolve_measure(1))

lemma list_measure: "mcp_le f v \<Longrightarrow> related (measure_kept f) (list_for_context_with_compact v b) s"
proof -
  assume m: "mcp_le f v"
  have "related (measure_kept f) (act_bind (extend_with_toolsets v ns ds) (\<lambda>ds. act_ret (sort_by_name ds))) s" for ns ds s
    by (intro measure_order.rel_bind extend_measure m measure_order.rel_ret)
  then have "related (measure_kept f) (list_for_context_static v) s" for s
    by (simp add: list_for_context_static_def related_def)
  then show ?thesis
    unfolding list_for_context_with_compact_def by (intro measure_order.rel_bind measure_order.rel_ret)
qed

lemma find_measure:
  assumes "mcp_le f v"
  shows "related (measure_kept f) (find_in_toolsets v tn ns) s"
    and "find_in_toolsets v tn ns s = (Inr (Some h), s') \<Longrightarrow> registry_le f (rn_registry s) \<Longrightarrow> env_le f (hd_call h c q)"
proof -
  show "related (measure_kept f) (find_in_toolsets v tn ns) s"
    by (induction ns arbitrary: s)
      (auto intro!: measure_order.rel_ret measure_order.rel_bind resolve_measure(1) assms split: option.split)
  show "find_in_toolsets v tn ns s = (Inr (Some h), s') \<Longrightarrow> registry_le f (rn_registry s) \<Longrightarrow> env_le f (hd_call h c q)"
  proof (induction ns arbitrary: s)
    case (Cons n ns)
    from Cons(2) obtain hs s1 where 1: "resolve_toolset_handlers v n s = (Inr hs, s1)"
      and 2: "(case map_of hs tn of Some h \<Rightarrow> act_ret (Some h) | None \<Rightarrow> find_in_toolsets v tn ns) s1 = (Inr (Some h), s')"
      by (simp only: find_in_toolsets.simps) (elim act_bindE)
    have g: "rn_registry s1 = rn_registry s"
      using resolve_measure(1) [OF assms, of n s] 1 by (simp add: related_def measure_kept_def)
    show ?case
    proof (cases "map_of hs tn")
      case None
      then show ?thesis using Cons(1) [of s1] Cons(3) 2 g by simp
    next
      case (Some h')
      then show ?thesis
        using 2 resolve_measure(2) [OF assms 1 Cons(3)]
        by (auto simp: act_ret_def handlers_le_def dest!: map_of_SomeD)
    qed
  qed (simp add: act_ret_def)
qed

lemma resolve_handler_measure:
  assumes "mcp_le f v"
  shows "related (measure_kept f) (resolve_handler v tn) s"
    and "resolve_handler v tn s = (Inr (Some h), s') \<Longrightarrow> registry_le f (rn_registry s) \<Longrightarrow> env_le f (hd_call h c q)"
  using find_measure(1) [OF assms, of tn "load_toolsets (rn_thread s)" s]
    find_measure(2) [OF assms, of tn "load_toolsets (rn_thread s)" s h s' c q]
  by (auto simp: resolve_handler_def related_def act_ret_def registry_le_def handlers_le_def measure_kept_def
      split: option.splits dest!: map_of_SomeD)

lemma open_measure: "mcp_le f v \<Longrightarrow> related (measure_kept f) (open_tool v n) s"
proof -
  assume m: "mcp_le f v"
  have "related (measure_kept f) (\<lambda>s. let (inserted, t) = load_toolset (trim n) (rn_thread s)
                    in (Inr inserted, s\<lparr>rn_thread := t\<rparr>)) s" for s :: "('a, 'b) run_state_scheme"
    by (rule measure_same) (simp_all split: prod.split)
  then show ?thesis
    by (auto simp: open_tool_def Let_def intro!: measure_order.rel_bind measure_order.rel_fail resolve_measure(1) m)
qed

lemma unload_current_measure: "related (measure_kept f) (unload_current n) s"
  by (rule measure_same) (simp_all add: unload_current_def split: prod.split)

lemma close_measure: "related (measure_kept f) (close_tool v n) s"
proof -
  have run: "related (measure_kept f) (act_bind (on_env (u i)) (\<lambda>_. unload_current m)) s"
    if "resolve_toolset_runtime j (rn_registry s) = Inr (Some u)" for u i j m
  proof -
    have "env_le f (u i)" if "registry_le f (rn_registry s)"
      using that \<open>resolve_toolset_runtime j (rn_registry s) = Inr (Some u)\<close>
      by (auto simp: resolve_toolset_runtime_def registry_le_def split: option.splits registered_toolset.splits
          dest!: map_of_SomeD)
    then have "related (measure_kept f) (on_env (u i)) s" by (rule measure_env_if)
    then show ?thesis by (intro measure_order.rel_bind unload_current_measure)
  qed
  show ?thesis
    using run
    by (simp add: close_tool_def Let_def related_def measure_trivial unload_current_measure [unfolded related_def]
        split: sum.split option.split)
qed

lemma call_measure:
  assumes "mcp_le f v"
  shows "related (measure_kept f) (call_for_context v q) s"
proof -
  have load: "related (measure_kept f) (registry_load_toolset v q) s"
    unfolding registry_load_toolset_def Let_def
    by (intro measure_order.rel_bind open_measure assms) (simp_all add: related_def act_lift_def measure_kept_def)
  have unload: "related (measure_kept f) (registry_unload_toolset v q) s"
    unfolding registry_unload_toolset_def Let_def
    by (intro measure_order.rel_bind close_measure) (simp_all add: related_def act_lift_def measure_kept_def)
  have call: "related (measure_kept f) (act_bind (resolve_handler v (rq_name q)) (\<lambda>handler.
          case handler of None \<Rightarrow> act_fail e | Some h \<Rightarrow> on_env (hd_call h c q))) s" for e c
  proof (rule bind_result [OF resolve_handler_measure(1) [OF assms]])
    fix x s'
    assume r: "resolve_handler v (rq_name q) s = (Inr x, s')"
    have g: "rn_registry s' = rn_registry s"
      using resolve_handler_measure(1) [OF assms, of "rq_name q" s] r by (simp add: related_def measure_kept_def)
    show "related (measure_kept f) (case x of None \<Rightarrow> act_fail e | Some h \<Rightarrow> on_env (hd_call h c q)) s'"
    proof (cases x)
      case None
      then show ?thesis by (simp add: measure_order.rel_fail)
    next
      case (Some h)
      then have "env_le f (hd_call h c q)" if "registry_le f (rn_registry s')"
        using resolve_handler_measure(2) [OF assms] r that g by metis
      then have "related (measure_kept f) (on_env (hd_call h c q)) s'" by (rule measure_env_if)
      then show ?thesis by (simp add: Some)
    qed
  qed
  show ?thesis
    using load unload call
    by (simp add: call_for_context_def Let_def related_def measure_trivial)
qed

section \<open>The loop\<close>

lemma provider_descends_le:
  assumes "provider_descends f L"
  shows "env_le f (w_generate (al_world L) q)"
  unfolding env_le_def
proof
  fix e
  have "case w_generate (al_world L) q e of
      (Inl _, e') \<Rightarrow> f e' \<le> f e
    | (Inr r, e') \<Rightarrow> if lr_tool_calls r = [] then f e' \<le> f e else f e' < f e"
    by (rule assms [unfolded provider_descends_def, THEN spec, THEN spec])
  then show "f (snd (w_generate (al_world L) q e)) \<le> f e"
    by (cases "w_generate (al_world L) q e") (auto split: sum.splits if_splits)
qed

lemma compact_messages_le:
  assumes "\<And>r. env_le f (p r)"
  shows "env_le f (compact_messages p ms at_time)"
proof -
  have "f e' \<le> f e" if "p r e = (z, e')" for r e z e'
    using assms [of r] that by (simp add: env_le_def) (metis snd_conv)
  then show ?thesis
    by (auto simp: env_le_def compact_messages_cases Let_def split: prod.split sum.split)
qed

lemma neighbours_sel:
  assumes "neighbours_le f L"
  shows "related (measure_kept f) (emit L k p) s" "related (measure_kept f) (utc_now L) s'"
    "related (measure_kept f) (new_uuid L) s'" "mcp_le f (al_tools L)"
    "related (measure_kept f) (on_env (w_generate (al_world L) q)) s"
    "related (measure_kept f) (on_env (compact_messages (al_compact_provider L) ms at_time)) s"
  using assms
  by (auto simp: neighbours_le_def emit_def utc_now_def new_uuid_def
      intro!: measure_env provider_descends_le compact_messages_le)

lemma measure_compaction:
  assumes "neighbours_le f L"
  shows "related (measure_kept f) (execute_turn_compaction L tid reason b i rep) s"
  unfolding execute_turn_compaction_def
  by (auto intro!: rel_with_thread measure_order.rel_bind measure_order.rel_ret measure_thread neighbours_sel [OF assms]
      split: option.split)

context commit_handler_laws
begin

lemma measure_commit: "related (measure_kept f) (commit_message tx h m es) s"
proof (cases "th_current_turn (rn_thread s)")
  case None
  then show ?thesis using commit_message_no_turn [OF None, of tx h m es] by (auto simp: related_def measure_kept_def)
next
  case (Some turn)
  obtain r s' where run: "commit_message tx h m es s = (r, s')" by fastforce
  show ?thesis using commit_sel(5,6) [OF run Some] by (simp add: related_def run measure_kept_def)
qed

lemma measure_relation: "neighbours_le f L \<Longrightarrow> loop_relation (measure_kept f) L tx h thread_id"
  by unfold_locales
    (auto intro: measure_commit measure_compaction measure_thread call_measure list_measure neighbours_sel
      simp: measure_kept_def)

end

context commit_handler_laws
begin

lemma body_again:
  assumes n: "neighbours_le f L" and g: "registry_le f (rn_registry s)"
    and body: "turn_body L tx h tid s = (Inr r, s')" "\<not> tl_completed r"
  shows "rn_registry s' = rn_registry s \<and> f (rn_env s') < f (rn_env s)"
proof -
  note R = measure_relation [OF n, of tx tid]
  obtain request s1 u s2 response s3 where
    1: "prepare_request_state L s = (Inr request, s1)"
    and 2: "(Inr (), s1\<lparr>ls_last_visible_tools := rq_tools request,
                              ls_last_budget_report := Some (rq_budget_report request)\<rparr>) = (Inr u :: err + unit, s2)"
    and 3: "on_env (w_generate (al_world L) \<lparr>lq_messages = rq_messages request, lq_tools = rq_tools request\<rparr>) s2
             = (Inr response, s3)"
    and 4: "(if lr_tool_calls response = [] then answer_turn tx h response
       else tool_turn L tx h tid (rq_budget_report request) response) s3 = (Inr r, s')"
    using body(1) unfolding turn_body_def by (elim act_bindE)
  have calls: "lr_tool_calls response \<noteq> []"
  proof
    assume "lr_tool_calls response = []"
    then have "answer_turn tx h response s3 = (Inr r, s')" using 4 by simp
    from answer_events [OF this] show False using body(2) by simp
  qed
  then have tool: "tool_turn L tx h tid (rq_budget_report request) response s3 = (Inr r, s')" using 4 by simp
  have k1: "measure_kept f s s1" using loop_relation.rel_prepare_request [OF R, of s] 1 by (simp add: related_def)
  have k4: "measure_kept f s3 s'" using loop_relation.rel_tool_turn [OF R, of _ response s3] tool by (simp add: related_def) (metis snd_conv)
  have "provider_descends f L" using n by (simp add: neighbours_le_def)
  then have "case w_generate (al_world L) \<lparr>lq_messages = rq_messages request, lq_tools = rq_tools request\<rparr> (rn_env s1) of
      (Inl _, e') \<Rightarrow> f e' \<le> f (rn_env s1)
    | (Inr r, e') \<Rightarrow> if lr_tool_calls r = [] then f e' \<le> f (rn_env s1) else f e' < f (rn_env s1)"
    by (rule provider_descends_def [THEN iffD1, THEN spec, THEN spec])
  then have "rn_registry s3 = rn_registry s1 \<and> f (rn_env s3) < f (rn_env s1)"
    using 2 3 calls by (auto simp: on_env_def split: prod.splits sum.splits)
  then show ?thesis using k1 k4 g by (auto simp: measure_kept_def)
qed

lemma iteration_again:
  assumes n: "neighbours_le f L" and g: "registry_le f (rn_registry s)"
    and it: "loop_iteration L tx h tid s = (Inr None, s')"
  shows "rn_registry s' = rn_registry s \<and> f (rn_env s') < f (rn_env s)"
proof -
  note R = measure_relation [OF n, of tx tid]
  obtain pre sa u sb where
    1: "prepare_request_state L s = (Inr pre, sa)"
    and 2: "with_thread (\<lambda>t. should_runtime_compact L t (rq_budget_report pre)) (\<lambda>compact.
       if compact
       then act_bind (execute_turn_compaction L tid (str ''runtime_threshold'') False None (rq_budget_report pre))
              (\<lambda>_. act_ret ())
       else act_ret ()) sa = (Inr u, sb)"
    and 3: "act_try (turn_body L tx h tid) (\<lambda>turn_result.
     act_bind (utc_now L) (\<lambda>completed_at.
     case turn_result of
       Inr r \<Rightarrow>
         act_ret (if tl_completed r then Some \<lparr>tn_reply = tl_reply r, tn_failure_error = None\<rparr> else None)
     | Inl error \<Rightarrow> act_bind (fail_turn tx h completed_at error) (\<lambda>c. act_ret (Some c)))) sb = (Inr None, s')"
    using it unfolding loop_iteration_def by (elim act_bindE)
  have k1: "measure_kept f s sa" using loop_relation.rel_prepare_request [OF R, of s] 1 by (simp add: related_def)
  have "related (measure_kept f) (with_thread (\<lambda>t. should_runtime_compact L t (rq_budget_report pre)) (\<lambda>compact.
       if compact
       then act_bind (execute_turn_compaction L tid (str ''runtime_threshold'') False None (rq_budget_report pre))
              (\<lambda>_. act_ret ())
       else act_ret ())) sa"
    by (auto intro!: rel_with_thread measure_order.rel_bind measure_order.rel_ret measure_compaction [OF n])
  then have k2: "measure_kept f sa sb" using 2 by (simp add: related_def)
  obtain z s2 where b: "turn_body L tx h tid sb = (z, s2)" by fastforce
  obtain at_time e where now: "utc_now L s2 = (Inr at_time, s2\<lparr>rn_env := e\<rparr>)" using utc_now_run [of L s2] by blast
  have k3: "measure_kept f s2 (s2\<lparr>rn_env := e\<rparr>)" using neighbours_sel(2) [OF n, of s2] now by (simp add: related_def)
  obtain r where r: "z = Inr r" "\<not> tl_completed r" "s' = s2\<lparr>rn_env := e\<rparr>"
  proof (cases z)
    case (Inl error)
    with 3 b now have "act_bind (fail_turn tx h at_time error) (\<lambda>c. act_ret (Some c)) (s2\<lparr>rn_env := e\<rparr>) = (Inr None, s')"
      by (simp add: act_try_def act_bind_def)
    then show ?thesis by (auto simp: act_bind_def act_ret_def split: prod.splits sum.splits)
  next
    case (Inr r)
    with 3 b now show ?thesis using that by (auto simp: act_try_def act_bind_def act_ret_def split: if_splits)
  qed
  have "registry_le f (rn_registry sb)" using k1 k2 g by (simp add: measure_kept_def)
  then have "rn_registry s2 = rn_registry sb \<and> f (rn_env s2) < f (rn_env sb)"
    using body_again [OF n _ b [unfolded r(1)] r(2)] by blast
  then show ?thesis using k1 k2 k3 g r(3) by (auto simp: measure_kept_def)
qed

lemma loop_terminates:
  assumes n: "neighbours_le f L"
  shows "registry_le f (rn_registry s) \<Longrightarrow> turn_loop L tx h tid s \<noteq> None"
proof (induction "f (rn_env s)" arbitrary: s rule: less_induct)
  case less
  obtain r s1 where it: "loop_iteration L tx h tid s = (r, s1)" by fastforce
  show ?case
  proof (cases "r = Inr None")
    case True
    have "rn_registry s1 = rn_registry s \<and> f (rn_env s1) < f (rn_env s)"
      by (rule iteration_again [OF n less(2) it [unfolded True]])
    then have "turn_loop L tx h tid s1 \<noteq> None" using less(1) [of s1] less(2) by simp
    then show ?thesis using it True by (subst turn_loop.simps) simp
  next
    case False
    then show ?thesis using it by (subst turn_loop.simps) (auto split: sum.split option.split)
  qed
qed

end

text \<open>
  C13: the loop ends. With a provider that asks for tools only finitely often (it lowers some measure of
  the outside world each time, which hooks, tools, clocks and the compaction provider do not raise), a run
  returns, with an output or with an error, whatever the tools answer and however many calls fail.
\<close>
theorem run_terminates:
  assumes "handler_preserves h" "neighbours_le f L"
    and "\<And>s1 tid. begin_run L tx h (incoming_chat_message incoming) (im_external_message_id incoming) s = (Inr tid, s1)
           \<Longrightarrow> registry_le f (rn_registry s1)"
  shows "\<exists>r s'. run_locked_thread L tx incoming h s = Some (r, s')"
proof -
  have laws: "commit_handler_laws h" by unfold_locales (rule assms(1))
  obtain z s1 where b: "begin_run L tx h (incoming_chat_message incoming) (im_external_message_id incoming) s = (z, s1)"
    by fastforce
  show ?thesis
  proof (cases z)
    case (Inl e)
    then show ?thesis using b by (simp add: run_locked_thread_def run_live_thread_def)
  next
    case (Inr tid)
    then have "turn_loop L tx h tid s1 \<noteq> None"
      using commit_handler_laws.loop_terminates [OF laws assms(2)] assms(3) b by blast
    then obtain q s2 where l: "turn_loop L tx h tid s1 = Some (q, s2)" by fastforce
    show ?thesis
    proof (cases q)
      case (Inr c)
      obtain r s' where "finish_run L c s2 = (r, s')" by fastforce
      then show ?thesis using b \<open>z = Inr tid\<close> l Inr by (simp add: run_locked_thread_def run_live_thread_def)
    qed (use b Inr l in \<open>simp add: run_locked_thread_def run_live_thread_def\<close>)
  qed
qed

lemma script_neighbours: "neighbours_le length script_loop"
proof -
  have "provider_descends length script_loop"
    by (auto simp: provider_descends_def script_loop_def script_world_def split: list.split prod.split sum.split)
  moreover have "env_le length (hook_emit (al_hooks script_loop) ev)" for ev
    by (simp add: script_loop_def env_le_def act_ret_def)
  moreover have "env_le length (act_now (al_world script_loop))" "env_le length (act_uuid (al_world script_loop))"
    by (simp_all add: script_loop_def script_world_def env_le_def act_now_def act_uuid_def)
  moreover have "env_le length (al_compact_provider script_loop r)" for r
    by (simp add: script_loop_def static_compact_provider_def env_le_def act_ret_def)
  moreover have "mcp_le length (al_tools script_loop)"
    by (simp add: script_loop_def script_tool_env_def mcp_le_def env_le_def act_fail_def)
  ultimately show ?thesis by (simp add: neighbours_le_def)
qed

lemma script_registry_le: "registry_le length script_registry"
  by (simp add: registry_le_def handlers_le_def script_registry_def script_tool_def script_toolset_def env_le_def act_ret_def)

theorem run_terminates_witness:
  "\<exists>r s'. run_locked_thread script_loop demo_sender demo_incoming recording_handler
      (script_state [demo_call_response ''read'', demo_call_response ''nope'', demo_answer]) = Some (r, s')"
proof -
  let ?s = "script_state [demo_call_response ''read'', demo_call_response ''nope'', demo_answer]"
  obtain s1 where b: "begin_run script_loop demo_sender recording_handler (incoming_chat_message demo_incoming)
      (im_external_message_id demo_incoming) ?s = (Inr [2], s1)" "rn_registry s1 = script_registry"
    by (rule script_begin)
  show ?thesis
    by (rule run_terminates [OF recording.handler_preserves script_neighbours]) (use b script_registry_le in simp)
qed

end
