(* ===== verification/OJ_Tool_Args.thy ===== *)
theory OJ_Tool_Args
  imports OJ_Tool_Registry
begin

text \<open>
  The arguments of the built-in tools, \<open>src/agent/tool/mod.rs\<close> (\<open>parse_tool_arguments\<close>,
  \<open>tool_definition_from_args\<close>) and the derived \<open>Deserialize\<close> of the argument structs: an object of the named
  fields with unknown and repeated ones refused, or the sequence of all fields. The texts of serde's errors, the
  generated JSON schemas and the printing of JSON values and instants are parameters.
\<close>

section \<open>What the tools need of serde, schemars and chrono\<close>

record tools_env =
  te_serde_error :: "rstring \<Rightarrow> json \<Rightarrow> err"
  te_schema :: "rstring \<Rightarrow> json"
  te_pretty :: "json \<Rightarrow> err + rstring"
  te_time_json :: "time \<Rightarrow> rstring"
  te_os_error :: rstring

definition tool_definition_from_args :: "tools_env \<Rightarrow> string \<Rightarrow> rstring \<Rightarrow> tool_definition" where
  "tool_definition_from_args E name description =
     \<lparr>td_name = str name, td_description = description, td_input_schema = te_schema E (str name), td_source = Builtin\<rparr>"

section \<open>Reading the fields of a struct\<close>

fun dec_string :: "json \<Rightarrow> rstring option" where
  "dec_string (JStr s) = Some s"
| "dec_string _ = None"

fun dec_bool :: "json \<Rightarrow> bool option" where
  "dec_bool (JBool b) = Some b"
| "dec_bool _ = None"

text \<open>\<open>u64\<close>, and \<open>usize\<close> on a 64-bit target.\<close>

fun dec_u64 :: "json \<Rightarrow> nat option" where
  "dec_u64 (JInt i) = (if 0 \<le> i \<and> i < 2 ^ 64 then Some (nat i) else None)"
| "dec_u64 _ = None"

fun dec_all :: "(json \<Rightarrow> 'a option) \<Rightarrow> json list \<Rightarrow> 'a list option" where
  "dec_all d [] = Some []"
| "dec_all d (j # js) = (case d j of None \<Rightarrow> None | Some x \<Rightarrow> map_option (\<lambda>xs. x # xs) (dec_all d js))"

fun dec_list :: "(json \<Rightarrow> 'a option) \<Rightarrow> json \<Rightarrow> 'a list option" where
  "dec_list d (JArr js) = dec_all d js"
| "dec_list d _ = None"

definition dec_opt :: "(json \<Rightarrow> 'a option) \<Rightarrow> json \<Rightarrow> 'a option option" where
  "dec_opt d j = (if j = JNull then Some None else map_option Some (d j))"

text \<open>
  The entries of an object under the canonical names of its fields, or the elements of a sequence in the order
  of the fields.
\<close>

definition canonical :: "(rstring \<times> rstring) list \<Rightarrow> rstring \<Rightarrow> rstring" where
  "canonical aliases k = (case map_of aliases k of Some n \<Rightarrow> n | None \<Rightarrow> k)"

fun struct_fields :: "rstring list \<Rightarrow> (rstring \<times> rstring) list \<Rightarrow> json \<Rightarrow> (rstring \<times> json) list option" where
  "struct_fields names aliases (JObj kvs) =
     (let ks = map (\<lambda>(k, v). (canonical aliases k, v)) kvs in
      if list_all (\<lambda>(k, _). k \<in> set names) ks \<and> distinct (map fst ks) then Some ks else None)"
| "struct_fields names aliases (JArr js) = (if length js = length names then Some (zip names js) else None)"
| "struct_fields names aliases _ = None"

definition field_req :: "(json \<Rightarrow> 'a option) \<Rightarrow> string \<Rightarrow> (rstring \<times> json) list \<Rightarrow> 'a option" where
  "field_req d k m = (case map_of m (str k) of None \<Rightarrow> None | Some j \<Rightarrow> d j)"

definition field_opt :: "(json \<Rightarrow> 'a option) \<Rightarrow> string \<Rightarrow> (rstring \<times> json) list \<Rightarrow> 'a option option" where
  "field_opt d k m = (case map_of m (str k) of None \<Rightarrow> Some None | Some j \<Rightarrow> dec_opt d j)"

definition field_default :: "'a \<Rightarrow> (json \<Rightarrow> 'a option) \<Rightarrow> string \<Rightarrow> (rstring \<times> json) list \<Rightarrow> 'a option" where
  "field_default x d k m = (case map_of m (str k) of None \<Rightarrow> Some x | Some j \<Rightarrow> d j)"

definition parse_tool_arguments ::
    "tools_env \<Rightarrow> (json \<Rightarrow> 'a option) \<Rightarrow> tool_call_request \<Rightarrow> string \<Rightarrow> err + 'a" where
  "parse_tool_arguments E d request tool_name =
     (case d (rq_arguments request) of
        Some a \<Rightarrow> Inr a
      | None \<Rightarrow> Inl (err_context (str ''invalid `'' @ str tool_name @ str ''` tool arguments'')
                       (te_serde_error E (str tool_name) (rq_arguments request))))"

lemma parse_tool_arguments_ok [simp]:
  "parse_tool_arguments E d request tool_name = Inr a \<longleftrightarrow> d (rq_arguments request) = Some a"
  by (auto simp: parse_tool_arguments_def split: option.splits)

lemma parse_tool_arguments_Some:
  "d (rq_arguments request) = Some a \<Longrightarrow> parse_tool_arguments E d request tool_name = Inr a"
  by simp

lemma struct_fields_names: "struct_fields names aliases j = Some m \<Longrightarrow> set (map fst m) \<subseteq> set names"
  by (cases j) (auto simp: Let_def list_all_iff dest: set_zip_leftD split: if_splits)

section \<open>An environment for examples\<close>

definition demo_tools_env :: tools_env where
  "demo_tools_env = \<lparr>te_serde_error = (\<lambda>_ _. bail (str ''invalid type'')), te_schema = (\<lambda>_. JObj []),
     te_pretty = (\<lambda>_. Inr []), te_time_json = int_str, te_os_error = str ''No such file or directory (os error 2)''\<rparr>"

end
