(* ===== verification/OJ_Memory.thy ===== *)
theory OJ_Memory
  imports OJ_Command "HOL-Library.AList" "HOL-Library.Product_Lexorder"
begin

text \<open>
  The memory repository, \<open>src/agent/memory/repository.rs\<close>: markdown documents with a YAML frontmatter under
  \<open>.openjarvis/memory/active\<close> and \<open>.openjarvis/memory/passive\<close>.

  The state is the files below the two directories: their path components and their text, in the order the
  directory walk meets them; a directory is there when a file is below it. Reading and printing YAML are
  parameters, and so are the clock, the path of the
  root and the text of an error of the system.
\<close>

section \<open>Documents\<close>

datatype memory_type = Active | Passive

text \<open>The derived order of the Rust enum.\<close>

instantiation memory_type :: linorder
begin

definition less_eq_memory_type :: "memory_type \<Rightarrow> memory_type \<Rightarrow> bool" where
  "less_eq_memory_type a b \<longleftrightarrow> a = Active \<or> b = Passive"

definition less_memory_type :: "memory_type \<Rightarrow> memory_type \<Rightarrow> bool" where
  "less_memory_type a b \<longleftrightarrow> a = Active \<and> b = Passive"

instance
proof
  fix a b c :: memory_type
  show "(a < b) = (a \<le> b \<and> \<not> b \<le> a)" by (cases a; cases b) (simp_all add: less_eq_memory_type_def less_memory_type_def)
  show "a \<le> a" by (cases a) (simp_all add: less_eq_memory_type_def)
  show "a \<le> b \<Longrightarrow> b \<le> c \<Longrightarrow> a \<le> c" by (auto simp: less_eq_memory_type_def)
  show "a \<le> b \<Longrightarrow> b \<le> a \<Longrightarrow> a = b" by (auto simp: less_eq_memory_type_def)
  show "a \<le> b \<or> b \<le> a" by (cases a) (simp_all add: less_eq_memory_type_def)
qed

end

fun as_dir_name :: "memory_type \<Rightarrow> rstring" where
  "as_dir_name Active = str ''active''"
| "as_dir_name Passive = str ''passive''"

definition memory_type_iter :: "memory_type list" where
  "memory_type_iter = [Active, Passive]"

record memory_document_metadata =
  mm_title :: rstring
  mm_created_at :: time
  mm_updated_at :: time
  mm_keywords :: "rstring list"

record memory_document =
  md_memory_type :: memory_type
  md_path :: rstring
  md_metadata :: memory_document_metadata
  md_content :: rstring

record memory_document_summary =
  ms_memory_type :: memory_type
  ms_path :: rstring
  ms_title :: rstring
  ms_updated_at :: time
  ms_keywords :: "rstring list"

record active_memory_catalog_entry =
  ae_keywords :: "rstring list"
  ae_path :: rstring

record memory_search_response =
  sr_query :: rstring
  sr_total_matches :: nat
  sr_items :: "memory_document_summary list"

record memory_write_request =
  mw_memory_type :: memory_type
  mw_path :: rstring
  mw_title :: rstring
  mw_content :: rstring
  mw_keywords :: "rstring list option"

text \<open>\<open>MemoryFrontmatter\<close> has the fields of the metadata; what the repository needs of \<open>serde_yaml\<close>.\<close>

record memory_env =
  me_yaml_from_str :: "rstring \<Rightarrow> err + memory_document_metadata"
  me_yaml_to_string :: "memory_document_metadata \<Rightarrow> err + rstring"
  me_now :: "nat \<Rightarrow> time"
  me_memory_root :: rstring
  me_os_error :: rstring

section \<open>Paths\<close>

text \<open>\<open>split\<close> by a predicate.\<close>

fun split_by :: "(nat \<Rightarrow> bool) \<Rightarrow> rstring \<Rightarrow> rstring list" where
  "split_by P [] = [[]]"
| "split_by P (c # s) = (if P c then [] # split_by P s
     else (case split_by P s of [] \<Rightarrow> [[c]] | w # ws \<Rightarrow> (c # w) # ws))"

text \<open>
  \<open>Path::components\<close> of a relative path: empty parts are skipped; \<open>.\<close> is skipped or a \<open>CurDir\<close>, which
  the loop ignores.
\<close>

fun normal_components :: "rstring list \<Rightarrow> err + rstring list" where
  "normal_components [] = Inr []"
| "normal_components (part # parts) =
     (if part = [] \<or> part = str ''.'' then normal_components parts
      else if part = str ''..'' then Inl (bail (str ''memory path must not contain `..`''))
      else if trim part = [] then Inl (bail (str ''memory path contains an empty component''))
      else map_sum id (\<lambda>ps. part # ps) (normal_components parts))"

definition normalize_relative_path :: "rstring \<Rightarrow> err + rstring" where
  "normalize_relative_path path =
     (let trimmed = trim path in
      if trimmed = [] then Inl (bail (str ''memory path must not be blank''))
      else
        let normalized = map (\<lambda>c. if c = 92 then 47 else c) trimmed in
        if path_is_absolute normalized then Inl (bail (str ''memory path must be relative''))
        else
          (case normal_components (split_by (\<lambda>c. c = 47) normalized) of
             Inl e \<Rightarrow> Inl e
           | Inr parts \<Rightarrow>
               (if parts = [] then Inl (bail (str ''memory path must contain at least one non-empty component''))
                else Inr (join (str ''/'') parts))))"

definition ends_with :: "rstring \<Rightarrow> rstring \<Rightarrow> bool" where
  "ends_with s p \<longleftrightarrow> starts_with (rev s) (rev p)"

definition validate_memory_file_path :: "rstring \<Rightarrow> err + rstring" where
  "validate_memory_file_path path =
     (case normalize_relative_path path of
        Inl e \<Rightarrow> Inl e
      | Inr normalized \<Rightarrow>
          (if \<not> ends_with normalized (str ''.md'') then Inl (bail (str ''memory path must end with `.md`''))
           else Inr normalized))"

definition validate_memory_dir_prefix :: "rstring \<Rightarrow> err + rstring" where
  "validate_memory_dir_prefix dir = normalize_relative_path dir"

section \<open>The files of the repository\<close>

record memory_fs =
  fs_active :: "(rstring list \<times> rstring) list"
  fs_passive :: "(rstring list \<times> rstring) list"
  fs_ticks :: nat

fun type_files :: "memory_type \<Rightarrow> memory_fs \<Rightarrow> (rstring list \<times> rstring) list" where
  "type_files Active fs = fs_active fs"
| "type_files Passive fs = fs_passive fs"

fun upd_type_files ::
    "memory_type \<Rightarrow> ((rstring list \<times> rstring) list \<Rightarrow> (rstring list \<times> rstring) list) \<Rightarrow> memory_fs \<Rightarrow> memory_fs" where
  "upd_type_files Active f fs = fs\<lparr>fs_active := f (fs_active fs)\<rparr>"
| "upd_type_files Passive f fs = fs\<lparr>fs_passive := f (fs_passive fs)\<rparr>"

definition path_parts :: "rstring \<Rightarrow> rstring list" where
  "path_parts path = split_by (\<lambda>c. c = 47) path"

text \<open>A path below which there are files, and one that has a file on its way.\<close>

definition is_strict_prefix :: "rstring list \<Rightarrow> rstring list \<Rightarrow> bool" where
  "is_strict_prefix p q \<longleftrightarrow> length p < length q \<and> take (length p) q = p"

definition is_directory :: "rstring list \<Rightarrow> (rstring list \<times> rstring) list \<Rightarrow> bool" where
  "is_directory p files \<longleftrightarrow> list_ex (\<lambda>(q, _). is_strict_prefix p q) files"

definition blocked_by_file :: "rstring list \<Rightarrow> (rstring list \<times> rstring) list \<Rightarrow> bool" where
  "blocked_by_file p files \<longleftrightarrow> list_ex (\<lambda>(q, _). is_strict_prefix q p) files"

definition has_md_extension :: "rstring list \<Rightarrow> bool" where
  "has_md_extension p \<longleftrightarrow> p \<noteq> [] \<and> ends_with (last p) (str ''.md'') \<and> last p \<noteq> str ''.md''"

section \<open>Frontmatter and keywords\<close>

definition mem_split_frontmatter :: "rstring \<Rightarrow> err + rstring \<times> rstring" where
  "mem_split_frontmatter raw =
     (let fence = str ''---'' @ [10] in
      if \<not> starts_with raw fence
      then Inl (bail (str ''memory markdown document must start with YAML frontmatter fence''))
      else
        let stripped = drop (length fence) raw in
        (case find_sub ([10] @ fence) stripped of
           None \<Rightarrow> Inl (bail (str ''memory markdown document must close YAML frontmatter fence''))
         | Some index \<Rightarrow> Inr (take index stripped, drop (index + length ([10] @ fence)) stripped)))"

fun normalize_keywords_loop :: "rstring list \<Rightarrow> rstring list \<Rightarrow> err + rstring list" where
  "normalize_keywords_loop seen [] = Inr []"
| "normalize_keywords_loop seen (keyword0 # keywords) =
     (let keyword = trim keyword0; dedup_key = to_ascii_lowercase keyword in
      if keyword = [] then Inl (bail (str ''memory keywords must not contain blank values''))
      else if dedup_key \<in> set seen then Inl (bail (str ''memory keywords must be unique within one document''))
      else map_sum id (\<lambda>ks. keyword # ks) (normalize_keywords_loop (dedup_key # seen) keywords))"

definition normalize_keywords :: "rstring list \<Rightarrow> err + rstring list" where
  "normalize_keywords keywords = normalize_keywords_loop [] keywords"

definition strip_suffix_newline :: "rstring \<Rightarrow> rstring" where
  "strip_suffix_newline s = (if s \<noteq> [] \<and> last s = 10 then butlast s else s)"

definition trim_end_newlines :: "rstring \<Rightarrow> rstring" where
  "trim_end_newlines s = rev (dropWhile (\<lambda>c. c = 10) (rev s))"

definition parse_memory_document ::
    "memory_env \<Rightarrow> memory_type \<Rightarrow> rstring \<Rightarrow> rstring \<Rightarrow> err + memory_document" where
  "parse_memory_document M memory_type path raw =
     (case mem_split_frontmatter raw of
        Inl e \<Rightarrow> Inl e
      | Inr (frontmatter, content0) \<Rightarrow>
          let content = strip_suffix_newline content0 in
          (case me_yaml_from_str M frontmatter of
             Inl e \<Rightarrow> Inl (err_context (str ''failed to parse memory frontmatter for `'' @ path @ str ''`'') e)
           | Inr parsed \<Rightarrow>
               let title = trim (mm_title parsed) in
               if title = [] then Inl (bail (str ''memory document `'' @ path @ str ''` must contain a non-empty title''))
               else
                 (case normalize_keywords (mm_keywords parsed) of
                    Inl e \<Rightarrow> Inl e
                  | Inr keywords \<Rightarrow>
                      (if memory_type = Active \<and> keywords = []
                       then Inl (bail (str ''active memory document `'' @ path @ str ''` must declare non-empty keywords''))
                       else if memory_type = Passive \<and> keywords \<noteq> []
                       then Inl (bail (str ''passive memory document `'' @ path @ str ''` must not declare keywords''))
                       else Inr \<lparr>md_memory_type = memory_type, md_path = path,
                                 md_metadata = \<lparr>mm_title = title, mm_created_at = mm_created_at parsed,
                                                mm_updated_at = mm_updated_at parsed, mm_keywords = keywords\<rparr>,
                                 md_content = content\<rparr>))))"

definition render_memory_markdown ::
    "memory_env \<Rightarrow> memory_document_metadata \<Rightarrow> memory_type \<Rightarrow> rstring \<Rightarrow> err + rstring" where
  "render_memory_markdown M metadata memory_type content =
     (case me_yaml_to_string M (metadata\<lparr>mm_keywords := (case memory_type of Active \<Rightarrow> mm_keywords metadata | Passive \<Rightarrow> [])\<rparr>) of
        Inl e \<Rightarrow> Inl (err_context (str ''failed to render memory frontmatter'') e)
      | Inr yaml \<Rightarrow>
          Inr (str ''---'' @ [10] @ trim yaml @ [10] @ str ''---'' @ [10] @ trim_end_newlines content @ [10]))"

section \<open>Operations\<close>

definition type_root :: "memory_env \<Rightarrow> memory_type \<Rightarrow> rstring" where
  "type_root M memory_type = me_memory_root M @ str ''/'' @ as_dir_name memory_type"

definition io_error :: "memory_env \<Rightarrow> string \<Rightarrow> memory_type \<Rightarrow> rstring \<Rightarrow> err" where
  "io_error M what memory_type path =
     err_context (str what @ type_root M memory_type @ str ''/'' @ path) (bail (me_os_error M))"

definition memory_get :: "memory_env \<Rightarrow> memory_type \<Rightarrow> rstring \<Rightarrow> memory_fs \<Rightarrow> err + memory_document" where
  "memory_get M memory_type path fs =
     (case validate_memory_file_path path of
        Inl e \<Rightarrow> Inl e
      | Inr normalized_path \<Rightarrow>
          (case map_of (type_files memory_type fs) (path_parts normalized_path) of
             None \<Rightarrow> Inl (io_error M ''failed to read memory file '' memory_type normalized_path)
           | Some raw \<Rightarrow> parse_memory_document M memory_type normalized_path raw))"

fun collect_markdown_documents ::
    "memory_env \<Rightarrow> memory_type \<Rightarrow> (rstring list \<times> rstring) list \<Rightarrow> err + memory_document list" where
  "collect_markdown_documents M memory_type [] = Inr []"
| "collect_markdown_documents M memory_type ((p, raw) # files) =
     (if \<not> has_md_extension p then collect_markdown_documents M memory_type files
      else
        (case parse_memory_document M memory_type (join (str ''/'') p) raw of
           Inl e \<Rightarrow> Inl e
         | Inr d \<Rightarrow> map_sum id (\<lambda>ds. d # ds) (collect_markdown_documents M memory_type files)))"

fun load_types :: "memory_env \<Rightarrow> memory_fs \<Rightarrow> memory_type list \<Rightarrow> err + memory_document list" where
  "load_types M fs [] = Inr []"
| "load_types M fs (memory_type # types) =
     (case collect_markdown_documents M memory_type (type_files memory_type fs) of
        Inl e \<Rightarrow> Inl e
      | Inr ds \<Rightarrow> map_sum id (\<lambda>rest. ds @ rest) (load_types M fs types))"

definition load_documents :: "memory_env \<Rightarrow> memory_type option \<Rightarrow> memory_fs \<Rightarrow> err + memory_document list" where
  "load_documents M memory_type fs =
     load_types M fs (case memory_type of Some memory_type \<Rightarrow> [memory_type] | None \<Rightarrow> memory_type_iter)"

definition ensure_unique_active_keywords ::
    "memory_env \<Rightarrow> rstring \<Rightarrow> rstring list \<Rightarrow> memory_fs \<Rightarrow> err + unit" where
  "ensure_unique_active_keywords M path keywords fs =
     (case load_documents M (Some Active) fs of
        Inl e \<Rightarrow> Inl e
      | Inr existing_documents \<Rightarrow>
          (case find (\<lambda>(d, keyword). list_ex (\<lambda>existing. eq_ignore_ascii_case existing keyword) (mm_keywords (md_metadata d)))
                  (concat (map (\<lambda>d. map (\<lambda>keyword. (d, keyword)) keywords)
                     (filter (\<lambda>d. md_path d \<noteq> path) existing_documents))) of
             None \<Rightarrow> Inr ()
           | Some (d, keyword) \<Rightarrow>
               Inl (bail (str ''duplicate active memory keyword `'' @ keyword @ str ''` already exists in `''
                          @ md_path d @ str ''`''))))"

definition check_keywords ::
    "memory_env \<Rightarrow> memory_type \<Rightarrow> rstring \<Rightarrow> rstring list \<Rightarrow> memory_fs \<Rightarrow> err + unit" where
  "check_keywords M memory_type path keywords fs =
     (case memory_type of
        Active \<Rightarrow>
          (if keywords = [] then Inl (bail (str ''active memory write requires non-empty keywords''))
           else ensure_unique_active_keywords M path keywords fs)
      | Passive \<Rightarrow>
          (if keywords \<noteq> [] then Inl (bail (str ''passive memory write must not include keywords'')) else Inr ()))"

text \<open>\<open>create_dir_all\<close>, the clock, the creation time of the document before, and the write itself.\<close>

definition write_document ::
    "memory_env \<Rightarrow> memory_write_request \<Rightarrow> rstring \<Rightarrow> rstring \<Rightarrow> rstring list \<Rightarrow> memory_fs
     \<Rightarrow> (err + memory_document) \<times> memory_fs" where
  "write_document M request path title keywords fs =
     (let ty = mw_memory_type request; p = path_parts path; files = type_files ty fs in
      if blocked_by_file p files
      then (Inl (io_error M ''failed to create parent directories for memory file '' ty path), fs)
      else
        let now = me_now M (fs_ticks fs);
            fs1 = fs\<lparr>fs_ticks := fs_ticks fs + 1\<rparr>;
            created_at = (case map_of files p of
               None \<Rightarrow> now
             | Some _ \<Rightarrow> (case memory_get M ty path fs of Inl _ \<Rightarrow> now | Inr d \<Rightarrow> mm_created_at (md_metadata d)));
            metadata = \<lparr>mm_title = title, mm_created_at = created_at, mm_updated_at = now, mm_keywords = keywords\<rparr> in
        (case render_memory_markdown M metadata ty (mw_content request) of
           Inl e \<Rightarrow> (Inl e, fs1)
         | Inr rendered \<Rightarrow>
             (if is_directory p files then (Inl (io_error M ''failed to write memory file '' ty path), fs1)
              else (Inr \<lparr>md_memory_type = ty, md_path = path, md_metadata = metadata, md_content = mw_content request\<rparr>,
                    upd_type_files ty (AList.update p rendered) fs1))))"

definition memory_write :: "memory_env \<Rightarrow> memory_write_request \<Rightarrow> memory_fs \<Rightarrow> (err + memory_document) \<times> memory_fs" where
  "memory_write M request fs =
     (case validate_memory_file_path (mw_path request) of
        Inl e \<Rightarrow> (Inl e, fs)
      | Inr normalized_path \<Rightarrow>
          let title = trim (mw_title request) in
          if title = [] then (Inl (bail (str ''memory title must not be blank'')), fs)
          else
            (case normalize_keywords (case mw_keywords request of None \<Rightarrow> [] | Some ks \<Rightarrow> ks) of
               Inl e \<Rightarrow> (Inl e, fs)
             | Inr keywords \<Rightarrow>
                 (case check_keywords M (mw_memory_type request) normalized_path keywords fs of
                    Inl e \<Rightarrow> (Inl e, fs)
                  | Inr _ \<Rightarrow> write_document M request normalized_path title keywords fs)))"

definition summary_from_document :: "memory_document \<Rightarrow> memory_document_summary" where
  "summary_from_document d =
     \<lparr>ms_memory_type = md_memory_type d, ms_path = md_path d, ms_title = mm_title (md_metadata d),
      ms_updated_at = mm_updated_at (md_metadata d), ms_keywords = mm_keywords (md_metadata d)\<rparr>"

definition summary_sort_key :: "memory_document_summary \<Rightarrow> memory_type \<times> rstring" where
  "summary_sort_key s = (ms_memory_type s, ms_path s)"

definition memory_list ::
    "memory_env \<Rightarrow> memory_type option \<Rightarrow> rstring option \<Rightarrow> memory_fs \<Rightarrow> err + memory_document_summary list" where
  "memory_list M memory_type dir fs =
     (case (case dir of None \<Rightarrow> Inr None | Some dir \<Rightarrow> map_sum id Some (validate_memory_dir_prefix dir)) of
        Inl e \<Rightarrow> Inl e
      | Inr normalized_dir \<Rightarrow>
          (case load_documents M memory_type fs of
             Inl e \<Rightarrow> Inl e
           | Inr documents \<Rightarrow>
               Inr (sort_key summary_sort_key (map summary_from_document
                 (filter (\<lambda>d. case normalized_dir of None \<Rightarrow> True | Some dir \<Rightarrow> starts_with (md_path d) dir) documents)))))"

definition tokenize_query :: "rstring \<Rightarrow> rstring list" where
  "tokenize_query query =
     map to_ascii_lowercase (filter (\<lambda>term. term \<noteq> []) (map trim (split_by (\<lambda>c. is_whitespace c \<or> c = 44) query)))"

definition lexical_match_score :: "memory_document \<Rightarrow> rstring list \<Rightarrow> nat" where
  "lexical_match_score d terms =
     (let searchable = to_ascii_lowercase
            (md_path d @ [10] @ mm_title (md_metadata d) @ [10] @ join (str '' '') (mm_keywords (md_metadata d))
             @ [10] @ md_content d @ [10] @ as_dir_name (md_memory_type d)) in
      length (filter (\<lambda>term. find_sub term searchable \<noteq> None) terms))"

definition memory_search ::
    "memory_env \<Rightarrow> rstring \<Rightarrow> memory_type option \<Rightarrow> nat \<Rightarrow> memory_fs \<Rightarrow> err + memory_search_response" where
  "memory_search M query0 memory_type limit fs =
     (let query = trim query0 in
      if query = [] then Inl (bail (str ''memory search query must not be blank''))
      else if limit = 0 then Inl (bail (str ''memory search limit must be greater than 0''))
      else
        let terms = tokenize_query query in
        (case load_documents M memory_type fs of
           Inl e \<Rightarrow> Inl e
         | Inr documents \<Rightarrow>
             let scored = filter (\<lambda>(score, d). 0 < score) (map (\<lambda>d. (lexical_match_score d terms, d)) documents);
                 matches = sort_key (\<lambda>(score, d). (- int score, summary_sort_key (summary_from_document d))) scored in
             Inr \<lparr>sr_query = query, sr_total_matches = length matches,
                  sr_items = map (summary_from_document \<circ> snd) (take limit matches)\<rparr>))"

text \<open>The keywords of the catalog, with the path that has them, in the order they are met.\<close>

fun catalog_keywords :: "rstring \<Rightarrow> rstring list \<Rightarrow> (rstring \<rightharpoonup> rstring) \<Rightarrow> err + (rstring \<rightharpoonup> rstring)" where
  "catalog_keywords path [] keyword_to_path = Inr keyword_to_path"
| "catalog_keywords path (keyword # keywords) keyword_to_path =
     (case keyword_to_path (to_ascii_lowercase keyword) of
        Some existing_path \<Rightarrow>
          Inl (bail (str ''duplicate active memory keyword `'' @ keyword @ str ''` found in `'' @ existing_path
                     @ str ''` and `'' @ path @ str ''`''))
      | None \<Rightarrow> catalog_keywords path keywords (keyword_to_path(to_ascii_lowercase keyword \<mapsto> path)))"

fun catalog_entries ::
    "memory_document list \<Rightarrow> (rstring \<rightharpoonup> rstring) \<Rightarrow> err + active_memory_catalog_entry list" where
  "catalog_entries [] keyword_to_path = Inr []"
| "catalog_entries (d # ds) keyword_to_path =
     (case catalog_keywords (md_path d) (mm_keywords (md_metadata d)) keyword_to_path of
        Inl e \<Rightarrow> Inl e
      | Inr keyword_to_path \<Rightarrow>
          map_sum id (\<lambda>es. \<lparr>ae_keywords = mm_keywords (md_metadata d), ae_path = md_path d\<rparr> # es)
            (catalog_entries ds keyword_to_path))"

definition load_active_catalog :: "memory_env \<Rightarrow> memory_fs \<Rightarrow> err + active_memory_catalog_entry list" where
  "load_active_catalog M fs =
     (case load_documents M (Some Active) fs of
        Inl e \<Rightarrow> Inl e
      | Inr documents \<Rightarrow> map_sum id (sort_key (\<lambda>e. (ae_path e, ae_keywords e))) (catalog_entries documents Map.empty))"

definition ACTIVE_MEMORY_TOOLSET_HINT :: rstring where
  "ACTIVE_MEMORY_TOOLSET_HINT =
     [20197, 19979, 26159, 24403, 21069, 24037, 20316, 21306, 21487, 29992, 30340] @ str '' Active Memory '' @
     [20851, 38190, 35789, 30446, 24405, 12290, 36825, 37324, 21482, 26292, 38706] @
     str '' `keywords -> relative path` '' @ [35789, 34920, 65292, 19981, 30452, 25509, 27880, 20837, 27491, 25991,
     12290, 19968, 20010, 25991, 20214, 21487, 33021, 23545, 24212, 22810, 20010, 20851, 38190, 35789, 65292, 22810,
     20010, 20851, 38190, 35789, 20250, 29992, 33521, 25991, 36887, 21495, 25340, 25509, 21518, 25351, 21521, 21516,
     19968, 20010, 30456, 23545, 36335, 24452, 12290, 38656, 35201, 35814, 24773, 26102, 65292, 35831, 20808,
     29992] @ str '' `load_toolset` '' @ [21152, 36733] @ str '' `memory` toolset'' @ [65292, 20877, 35843, 29992] @
     str '' `memory_get`'' @ [12289] @ str ''`memory_search`'' @ [12289] @ str ''`memory_list` '' @ [25110] @
     str '' `memory_write`'' @ [12290]"

definition active_catalog_prompt :: "memory_env \<Rightarrow> memory_fs \<Rightarrow> err + rstring option" where
  "active_catalog_prompt M fs =
     (case load_active_catalog M fs of
        Inl e \<Rightarrow> Inl e
      | Inr entries \<Rightarrow>
          (if entries = [] then Inr None
           else Inr (Some (ACTIVE_MEMORY_TOOLSET_HINT @ [10]
             @ join [10] (map (\<lambda>e. str ''- '' @ join (str '', '') (ae_keywords e) @ str '' -> '' @ ae_path e) entries)))))"

section \<open>Splitting and joining paths\<close>

lemma split_by_nonempty [simp]: "split_by P s \<noteq> []"
  by (induction s) (auto split: list.split)

lemma split_by_append:
  "P c \<Longrightarrow> split_by P (a @ c # b) = split_by P a @ split_by P b"
  by (induction a) (auto split: list.split simp: append_eq_Cons_conv)

lemma split_by_none: "\<forall>c \<in> set w. \<not> P c \<Longrightarrow> split_by P w = [w]"
  by (induction w) auto

lemma split_by_parts: "w \<in> set (split_by P s) \<Longrightarrow> set w \<subseteq> {c \<in> set s. \<not> P c}"
proof (induction s arbitrary: w)
  case (Cons c s)
  show ?case
  proof (cases "P c")
    case True
    then show ?thesis using Cons.prems Cons.IH [of w] by auto
  next
    case False
    obtain v vs where v: "split_by P s = v # vs" by (cases "split_by P s") auto
    then have "w = c # v \<or> w \<in> set vs" using Cons.prems False by auto
    then show ?thesis using Cons.IH [of v] Cons.IH [of w] v False by auto
  qed
qed simp

lemma join_slash: "join (str ''/'') (w # ws) = w @ (if ws = [] then [] else 47 # join (str ''/'') ws)"
  by (simp add: join_Cons str_def)

lemma split_join:
  "ws \<noteq> [] \<Longrightarrow> \<forall>w \<in> set ws. 47 \<notin> set w \<Longrightarrow> split_by (\<lambda>c. c = 47) (join (str ''/'') ws) = ws"
proof (induction ws)
  case (Cons w ws)
  have w: "split_by (\<lambda>c. c = 47) w = [w]" using Cons.prems(2) by (intro split_by_none) auto
  show ?case
    using Cons w split_by_append [of "\<lambda>c. c = 47" 47 w "join (str ''/'') ws"] by (cases "ws = []") (simp_all add: join_slash)
qed simp

lemma set_join_slash: "set (join (str ''/'') ws) \<subseteq> insert 47 (\<Union> (set ` set ws))"
  using set_join [of "str ''/''" ws] by (auto simp: str_def)

definition plain_part :: "rstring \<Rightarrow> bool" where
  "plain_part w \<longleftrightarrow> trim w \<noteq> [] \<and> w \<noteq> str ''.'' \<and> w \<noteq> str ''..'' \<and> 47 \<notin> set w \<and> 92 \<notin> set w"

lemma plain_part_nonempty: "plain_part w \<Longrightarrow> w \<noteq> []"
  by (auto simp: plain_part_def)

lemma normal_components_ok:
  "normal_components ps = Inr qs \<Longrightarrow> \<forall>p \<in> set ps. 47 \<notin> set p \<and> 92 \<notin> set p \<Longrightarrow> list_all plain_part qs"
proof (induction ps arbitrary: qs)
  case (Cons p ps)
  show ?case
  proof (cases "normal_components ps")
    case (Inl e)
    then show ?thesis using Cons.prems by (auto split: if_splits)
  next
    case (Inr rs)
    then show ?thesis using Cons by (auto simp: plain_part_def split: if_splits)
  qed
qed simp

lemma normal_components_plain: "list_all plain_part ps \<Longrightarrow> normal_components ps = Inr ps"
  by (induction ps) (auto simp: plain_part_def dest: plain_part_nonempty)

lemma normalize_parts:
  assumes "normalize_relative_path p = Inr q"
  obtains parts where "parts \<noteq> []" "list_all plain_part parts" "q = join (str ''/'') parts" "path_parts q = parts"
proof -
  let ?n = "map (\<lambda>c. if c = 92 then 47 else c) (trim p)"
  obtain parts where parts: "normal_components (split_by (\<lambda>c. c = 47) ?n) = Inr parts" "parts \<noteq> []"
    "q = join (str ''/'') parts"
    using assms by (auto simp: normalize_relative_path_def Let_def split: if_splits sum.splits)
  have "92 \<notin> set ?n" by auto
  then have "\<forall>w \<in> set (split_by (\<lambda>c. c = 47) ?n). 47 \<notin> set w \<and> 92 \<notin> set w"
    using split_by_parts [of _ "\<lambda>c. c = 47" ?n] by blast
  from normal_components_ok [OF parts(1) this] have plain: "list_all plain_part parts" .
  then have "path_parts q = parts"
    using parts(2) unfolding parts(3) path_parts_def by (intro split_join) (auto simp: list_all_iff plain_part_def)
  then show ?thesis using that parts(2,3) plain by blast
qed

lemma plain_parts_relative:
  assumes "parts \<noteq> []" "list_all plain_part parts"
  obtains c cs where "join (str ''/'') parts = c # cs" "c \<noteq> 47" "\<not> path_is_absolute (join (str ''/'') parts)"
proof -
  obtain w ws where ws: "parts = w # ws" using assms(1) by (cases parts) auto
  then obtain c cs where c: "w = c # cs" "c \<noteq> 47" using assms(2) by (cases w) (auto simp: plain_part_def)
  then have q: "join (str ''/'') parts = c # cs @ (if ws = [] then [] else 47 # join (str ''/'') ws)"
    unfolding ws join_slash by simp
  then have "\<not> path_is_absolute (join (str ''/'') parts)" using c(2) unfolding q by (simp add: path_is_absolute_def str_def)
  then show ?thesis using that [OF q c(2)] by blast
qed

lemma normalize_join:
  assumes "parts \<noteq> []" "list_all plain_part parts" "q = join (str ''/'') parts" "trim q = q"
  shows "normalize_relative_path q = Inr q"
proof -
  obtain c cs where q: "q = c # cs" "\<not> path_is_absolute q"
    unfolding assms(3) by (rule plain_parts_relative [OF assms(1,2)])
  have "92 \<notin> set q"
    using assms(2) set_join_slash [of parts] unfolding assms(3) by (auto simp: list_all_iff plain_part_def)
  then have same: "map (\<lambda>c. if c = 92 then 47 else c) q = q" by (induction q) auto
  have "path_parts q = parts"
    unfolding assms(3) path_parts_def using assms(1,2) by (intro split_join) (auto simp: list_all_iff plain_part_def)
  then have "normal_components (split_by (\<lambda>c. c = 47) q) = Inr parts"
    using normal_components_plain [OF assms(2)] by (simp add: path_parts_def)
  moreover have "q \<noteq> []" by (simp add: q)
  ultimately show ?thesis
    using assms(1,3,4) same q(2) by (simp add: normalize_relative_path_def Let_def)
qed

lemma validate_again:
  assumes "validate_memory_file_path p = Inr q" "trim q = q"
  shows "validate_memory_file_path q = Inr q"
proof -
  have n: "normalize_relative_path p = Inr q" and md: "ends_with q (str ''.md'')"
    using assms(1) by (auto simp: validate_memory_file_path_def split: sum.splits if_splits)
  obtain parts where "parts \<noteq> []" "list_all plain_part parts" "q = join (str ''/'') parts"
    by (rule normalize_parts [OF n])
  from normalize_join [OF this assms(2)] md show ?thesis by (simp add: validate_memory_file_path_def)
qed

text \<open>
  A memory path stays below its root. An accepted path is a non-empty sequence of components, none of
  them blank, \<open>.\<close> or \<open>..\<close> and none with a separator in it, so the file it names is below the directory of
  its type; it ends in \<open>.md\<close>; and unless it has blanks at its ends, it is accepted again as itself.
\<close>
theorem memory_path_stays_below_root:
  assumes "validate_memory_file_path p = Inr q"
  shows "path_parts q \<noteq> [] \<and> list_all plain_part (path_parts q) \<and> join (str ''/'') (path_parts q) = q
    \<and> \<not> path_is_absolute q \<and> ends_with q (str ''.md'')
    \<and> (trim q = q \<longrightarrow> validate_memory_file_path q = Inr q)"
proof -
  have n: "normalize_relative_path p = Inr q" and md: "ends_with q (str ''.md'')"
    using assms by (auto simp: validate_memory_file_path_def split: sum.splits if_splits)
  obtain parts where parts: "parts \<noteq> []" "list_all plain_part parts" "q = join (str ''/'') parts" "path_parts q = parts"
    by (rule normalize_parts [OF n])
  have "\<not> path_is_absolute q"
    unfolding parts(3) by (rule plain_parts_relative [OF parts(1,2)])
  moreover have "trim q = q \<longrightarrow> validate_memory_file_path q = Inr q"
    using validate_again [OF assms] by blast
  ultimately show ?thesis using parts md by simp
qed

theorem memory_path_stays_below_root_witness:
  "validate_memory_file_path (str ''./notes//user.md'') = Inr (str ''notes/user.md'')
   \<and> list_all plain_part (path_parts (str ''notes/user.md''))
   \<and> validate_memory_file_path (str ''notes/user.md'') = Inr (str ''notes/user.md'')"
proof -
  have t: "trim (str ''./notes//user.md'') = str ''./notes//user.md''" "trim (str ''notes/user.md'') = str ''notes/user.md''"
    by (rule trim_word, simp add: str_def is_whitespace_def)+
  have c: "trim (str ''notes'') \<noteq> []" "trim (str ''user.md'') \<noteq> []"
    by (simp_all add: trim_eq_Nil_iff str_def is_whitespace_def)
  have v: "validate_memory_file_path (str ''./notes//user.md'') = Inr (str ''notes/user.md'')"
    using t c by (simp add: validate_memory_file_path_def normalize_relative_path_def Let_def path_is_absolute_def str_def
        ends_with_def)
  from memory_path_stays_below_root [OF v] t(2) v show ?thesis by simp
qed

section \<open>Reading back what was written\<close>

lemma cut_at_first:
  assumes "c \<notin> set u" "c \<notin> set d" "u @ c # x = d @ c # y"
  shows "u = d"
proof -
  have "takeWhile (\<lambda>z. z \<noteq> c) (w @ c # z) = w" if "c \<notin> set w" for w z
    using that by (induction w) auto
  from this [OF assms(1)] this [OF assms(2)] show ?thesis using assms(3) by metis
qed

lemma find_fence:
  assumes "c \<notin> set d" "find_sub (c # d @ [c]) (a @ [c]) = None"
  shows "find_sub (c # d @ [c]) (a @ (c # d @ [c]) @ r) = Some (length a)"
  using assms(2)
proof (induction a)
  case Nil
  then show ?case by (simp add: starts_with_iff)
next
  case (Cons x a)
  have "\<not> starts_with (x # a @ (c # d @ [c]) @ r) (c # d @ [c])"
  proof
    assume "starts_with (x # a @ (c # d @ [c]) @ r) (c # d @ [c])"
    then obtain s where s: "x = c" "a @ c # d @ c # r = d @ c # s" by (auto simp: starts_with_iff)
    obtain t where "a @ [c] = d @ c # t"
    proof (cases "c \<in> set a")
      case True
      then obtain u v where "a = u @ c # v" "c \<notin> set u" by (meson split_list_first)
      then have "u = d" using s(2) assms(1) cut_at_first [of c u d "v @ c # d @ c # r" s] by simp
      then show thesis using \<open>a = u @ c # v\<close> that [of "v @ [c]"] by simp
    next
      case False
      then have "a = d" using s(2) assms(1) cut_at_first [of c a d "d @ c # r" s] by simp
      then show thesis using that [of "[]"] by simp
    qed
    then have "starts_with (x # a @ [c]) (c # d @ [c])" unfolding s(1) starts_with_iff by auto
    then show False using Cons.prems by simp
  qed
  moreover have "find_sub (c # d @ [c]) (a @ [c]) = None" using Cons.prems by (auto split: if_splits)
  ultimately show ?case using Cons.IH by simp
qed

definition normal_keywords :: "rstring list \<Rightarrow> bool" where
  "normal_keywords ks \<longleftrightarrow> list_all (\<lambda>k. trim k = k \<and> k \<noteq> []) ks \<and> distinct (map to_ascii_lowercase ks)"

lemma normalize_keywords_loop_ok:
  "normalize_keywords_loop seen ks = Inr ks' \<Longrightarrow>
     normal_keywords ks' \<and> set (map to_ascii_lowercase ks') \<inter> set seen = {}"
proof (induction ks arbitrary: seen ks')
  case (Cons k ks)
  let ?k = "trim k"
  have k: "?k \<noteq> []" "to_ascii_lowercase ?k \<notin> set seen" using Cons.prems by (auto simp: Let_def split: if_splits)
  obtain rest where rest: "normalize_keywords_loop (to_ascii_lowercase ?k # seen) ks = Inr rest" "ks' = ?k # rest"
    using Cons.prems k by (cases "normalize_keywords_loop (to_ascii_lowercase ?k # seen) ks") (auto simp: Let_def)
  show ?case using Cons.IH [OF rest(1)] k unfolding rest(2) by (auto simp: normal_keywords_def)
qed (simp add: normal_keywords_def)

lemma normalize_keywords_loop_normal:
  "normal_keywords ks \<Longrightarrow> set (map to_ascii_lowercase ks) \<inter> set seen = {} \<Longrightarrow> normalize_keywords_loop seen ks = Inr ks"
  by (induction ks arbitrary: seen) (auto simp: normal_keywords_def Let_def)

lemma normalize_keywords_idem: "normalize_keywords ks = Inr ks' \<Longrightarrow> normalize_keywords ks' = Inr ks'"
  unfolding normalize_keywords_def
  by (rule normalize_keywords_loop_normal) (auto dest: normalize_keywords_loop_ok)

text \<open>
  What the format needs of the YAML printer: the text reads back after its ends are trimmed, and no line of it
  after the first is the closing fence.
\<close>

definition frontmatter_ok :: "memory_env \<Rightarrow> memory_document_metadata \<Rightarrow> bool" where
  "frontmatter_ok M m \<longleftrightarrow>
     (case me_yaml_to_string M m of
        Inl _ \<Rightarrow> True
      | Inr yaml \<Rightarrow> me_yaml_from_str M (trim yaml) = Inr m \<and> find_sub ([10] @ str ''---'' @ [10]) (trim yaml @ [10]) = None)"

lemma newline_in_fence: "10 \<notin> set (str ''---'')"
  by (simp add: str_def)

lemma split_rendered:
  assumes "find_sub ([10] @ str ''---'' @ [10]) (y @ [10]) = None"
  shows "mem_split_frontmatter (str ''---'' @ [10] @ y @ [10] @ str ''---'' @ [10] @ b) = Inr (y, b)"
proof -
  let ?fence = "str ''---'' @ [10]"
  have "find_sub ([10] @ ?fence) (y @ ([10] @ ?fence) @ b) = Some (length y)"
    using find_fence [OF newline_in_fence, of y b] assms by simp
  moreover have "starts_with (?fence @ s) ?fence" for s by (rule starts_with_append)
  moreover have "drop (length ?fence) (?fence @ s) = s" for s by simp
  moreover have "str ''---'' @ [10] @ y @ [10] @ str ''---'' @ [10] @ b = ?fence @ y @ ([10] @ ?fence) @ b" by simp
  moreover have "take (length y) (y @ ([10] @ ?fence) @ b) = y"
    "drop (length y + length ([10] @ ?fence)) (y @ ([10] @ ?fence) @ b) = b" by simp_all
  ultimately show ?thesis unfolding mem_split_frontmatter_def Let_def by (simp only: option.case if_False not_True_eq_False)
qed

lemma parse_rendered:
  assumes "frontmatter_ok M m" "render_memory_markdown M m ty content = Inr raw"
    and "trim (mm_title m) = mm_title m" "mm_title m \<noteq> []" "normalize_keywords (mm_keywords m) = Inr (mm_keywords m)"
    and "(mm_keywords m \<noteq> []) = (ty = Active)"
  shows "parse_memory_document M ty path raw
    = Inr \<lparr>md_memory_type = ty, md_path = path, md_metadata = m, md_content = trim_end_newlines content\<rparr>"
proof -
  have m: "m\<lparr>mm_keywords := (case ty of Active \<Rightarrow> mm_keywords m | Passive \<Rightarrow> [])\<rparr> = m"
    using assms(6) by (cases m; cases ty) auto
  obtain yaml where yaml: "me_yaml_to_string M m = Inr yaml"
    "raw = str ''---'' @ [10] @ trim yaml @ [10] @ str ''---'' @ [10] @ trim_end_newlines content @ [10]"
    using assms(2) unfolding render_memory_markdown_def m by (auto split: sum.splits)
  then have ok: "me_yaml_from_str M (trim yaml) = Inr m" "find_sub ([10] @ str ''---'' @ [10]) (trim yaml @ [10]) = None"
    using assms(1) by (simp_all add: frontmatter_ok_def)
  have "strip_suffix_newline (trim_end_newlines content @ [10]) = trim_end_newlines content"
    by (simp add: strip_suffix_newline_def)
  then show ?thesis
    unfolding parse_memory_document_def yaml(2) split_rendered [OF ok(2)]
    using assms(3-6) ok(1) by (cases ty) (simp_all add: Let_def)
qed

lemma memory_write_ok:
  assumes "memory_write M request fs = (Inr d, fs')"
  obtains path title kws rendered where
    "validate_memory_file_path (mw_path request) = Inr path" "title = trim (mw_title request)" "title \<noteq> []"
    "normalize_keywords (case mw_keywords request of None \<Rightarrow> [] | Some ks \<Rightarrow> ks) = Inr kws"
    "check_keywords M (mw_memory_type request) path kws fs = Inr ()"
    "md_memory_type d = mw_memory_type request" "md_path d = path" "md_content d = mw_content request"
    "mm_title (md_metadata d) = title" "mm_keywords (md_metadata d) = kws"
    "render_memory_markdown M (md_metadata d) (mw_memory_type request) (mw_content request) = Inr rendered"
    "fs' = upd_type_files (mw_memory_type request) (AList.update (path_parts path) rendered) (fs\<lparr>fs_ticks := fs_ticks fs + 1\<rparr>)"
proof -
  obtain path where path: "validate_memory_file_path (mw_path request) = Inr path"
    using assms by (auto simp: memory_write_def split: sum.splits)
  have title: "trim (mw_title request) \<noteq> []" using assms path by (auto simp: memory_write_def Let_def split: if_splits)
  obtain kws where kws: "normalize_keywords (case mw_keywords request of None \<Rightarrow> [] | Some ks \<Rightarrow> ks) = Inr kws"
    using assms path title by (auto simp: memory_write_def Let_def split: sum.splits)
  have ck: "check_keywords M (mw_memory_type request) path kws fs = Inr ()"
    using assms path title kws
    by (cases "check_keywords M (mw_memory_type request) path kws fs") (auto simp: memory_write_def Let_def)
  have w: "write_document M request path (trim (mw_title request)) kws fs = (Inr d, fs')"
    using assms path title kws ck by (simp add: memory_write_def Let_def)
  let ?files = "type_files (mw_memory_type request) fs" and ?now = "me_now M (fs_ticks fs)"
  let ?m = "\<lparr>mm_title = trim (mw_title request),
      mm_created_at = (case map_of ?files (path_parts path) of None \<Rightarrow> ?now
        | Some _ \<Rightarrow> (case memory_get M (mw_memory_type request) path fs of Inl _ \<Rightarrow> ?now
            | Inr d \<Rightarrow> mm_created_at (md_metadata d))),
      mm_updated_at = ?now, mm_keywords = kws\<rparr>"
  obtain rendered where r: "render_memory_markdown M ?m (mw_memory_type request) (mw_content request) = Inr rendered"
    using w by (cases "render_memory_markdown M ?m (mw_memory_type request) (mw_content request)")
      (auto simp: write_document_def Let_def split: if_splits)
  have "d = \<lparr>md_memory_type = mw_memory_type request, md_path = path, md_metadata = ?m, md_content = mw_content request\<rparr>
    \<and> fs' = upd_type_files (mw_memory_type request) (AList.update (path_parts path) rendered) (fs\<lparr>fs_ticks := fs_ticks fs + 1\<rparr>)"
    using w r by (auto simp: write_document_def Let_def split: if_splits)
  then show ?thesis using that [OF path refl title kws ck _ _ _ _ _ _, of rendered] r by simp
qed

lemma memory_write_failed:
  assumes "memory_write M request fs = (Inl e, fs')"
  shows "fs_active fs' = fs_active fs" "fs_passive fs' = fs_passive fs"
  using assms by (auto simp: memory_write_def write_document_def Let_def split: sum.splits if_splits)

lemma check_keywords_type: "check_keywords M ty path kws fs = Inr () \<Longrightarrow> (kws \<noteq> []) = (ty = Active)"
  by (auto simp: check_keywords_def split: memory_type.splits if_splits)

lemma type_files_upd:
  "type_files t (upd_type_files ty f fs) = (if t = ty then f (type_files ty fs) else type_files t fs)"
  by (cases t; cases ty) simp_all

lemma type_files_ticks [simp]: "type_files t (fs\<lparr>fs_ticks := n\<rparr>) = type_files t fs"
  by (cases t) simp_all

text \<open>
  C27: what is written reads back. After a successful write, \<open>get\<close> of the path the write answered returns the
  document the write answered, with the newlines at the end of its body removed; and no other file is changed.
  The printed frontmatter has to read back, and the normalized path must not have blanks at its ends.
\<close>
theorem memory_write_then_get:
  assumes "memory_write M request fs = (Inr d, fs')"
    and "frontmatter_ok M (md_metadata d)" "trim (md_path d) = md_path d"
  shows "memory_get M (md_memory_type d) (md_path d) fs'
      = Inr (d\<lparr>md_content := trim_end_newlines (mw_content request)\<rparr>)
    \<and> md_content d = mw_content request
    \<and> (\<forall>t p. (t, p) \<noteq> (md_memory_type d, path_parts (md_path d))
          \<longrightarrow> map_of (type_files t fs') p = map_of (type_files t fs) p)"
proof -
  obtain path title kws rendered where w:
    "validate_memory_file_path (mw_path request) = Inr path" "title = trim (mw_title request)" "title \<noteq> []"
    "normalize_keywords (case mw_keywords request of None \<Rightarrow> [] | Some ks \<Rightarrow> ks) = Inr kws"
    "check_keywords M (mw_memory_type request) path kws fs = Inr ()"
    "md_memory_type d = mw_memory_type request" "md_path d = path" "md_content d = mw_content request"
    "mm_title (md_metadata d) = title" "mm_keywords (md_metadata d) = kws"
    "render_memory_markdown M (md_metadata d) (mw_memory_type request) (mw_content request) = Inr rendered"
    "fs' = upd_type_files (mw_memory_type request) (AList.update (path_parts path) rendered) (fs\<lparr>fs_ticks := fs_ticks fs + 1\<rparr>)"
    using assms(1) by (rule memory_write_ok)
  have v: "validate_memory_file_path path = Inr path"
    using validate_again [OF w(1)] assms(3) w(7) by simp
  have "parse_memory_document M (mw_memory_type request) path rendered
    = Inr \<lparr>md_memory_type = mw_memory_type request, md_path = path, md_metadata = md_metadata d,
           md_content = trim_end_newlines (mw_content request)\<rparr>"
    using w(2,3,9,10) normalize_keywords_idem [OF w(4)] check_keywords_type [OF w(5)]
    by (intro parse_rendered [OF assms(2) w(11)]) simp_all
  moreover have "map_of (type_files (mw_memory_type request) fs') (path_parts path) = Some rendered"
    unfolding w(12) type_files_upd by (simp add: update_conv')
  ultimately have "memory_get M (md_memory_type d) (md_path d) fs'
      = Inr (d\<lparr>md_content := trim_end_newlines (mw_content request)\<rparr>)"
    using w(6,7) v by (cases d) (simp add: memory_get_def)
  moreover have "map_of (type_files t fs') p = map_of (type_files t fs) p"
    if "(t, p) \<noteq> (md_memory_type d, path_parts (md_path d))" for t p
    using that w(6,7) unfolding w(12) type_files_upd by (auto simp: update_conv')
  ultimately show ?thesis using w(8) by blast
qed

definition demo_memory_env :: memory_env where
  "demo_memory_env =
     \<lparr>me_yaml_from_str = (\<lambda>s. (case split_by (\<lambda>c. c = 10) s of
          [] \<Rightarrow> Inl (bail (str ''missing field title''))
        | title # ks \<Rightarrow> Inr \<lparr>mm_title = title, mm_created_at = 0, mm_updated_at = 0, mm_keywords = ks\<rparr>)),
      me_yaml_to_string = (\<lambda>m. Inr (join [10] (mm_title m # mm_keywords m))),
      me_now = (\<lambda>_. 0), me_memory_root = str ''/w/.openjarvis/memory'', me_os_error = str ''No such file''\<rparr>"

definition demo_memory_request :: memory_write_request where
  "demo_memory_request =
     \<lparr>mw_memory_type = Active, mw_path = str ''notes/user.md'', mw_title = str ''User'',
      mw_content = str ''likes'' @ [10], mw_keywords = Some [str ''user'']\<rparr>"

definition demo_memory_fs :: memory_fs where
  "demo_memory_fs = \<lparr>fs_active = [([str ''a.md''], str ''---'' @ [10] @ str ''A'' @ [10] @ str ''alpha'' @ [10] @ str ''---'' @ [10] @ str ''b'' @ [10])],
     fs_passive = [], fs_ticks = 0\<rparr>"

definition demo_memory_document :: memory_document where
  "demo_memory_document = \<lparr>md_memory_type = Active, md_path = str ''notes/user.md'',
     md_metadata = \<lparr>mm_title = str ''User'', mm_created_at = 0, mm_updated_at = 0, mm_keywords = [str ''user'']\<rparr>,
     md_content = str ''likes'' @ [10]\<rparr>"

lemma demo_trims: "trim (str ''notes/user.md'') = str ''notes/user.md''" "trim (str ''User'') = str ''User''"
  "trim (str ''user'') = str ''user''" "trim (str ''alpha'') = str ''alpha''" "trim (str ''A'') = str ''A''"
  "trim (str ''notes'') = str ''notes''" "trim (str ''user.md'') = str ''user.md''"
  by (rule trim_word, simp add: str_def is_whitespace_def)+

lemma demo_trim_yaml: "trim (str ''User'' @ [10] @ str ''user'') = str ''User'' @ [10] @ str ''user''"
  by (rule trim_unchanged) (simp_all add: str_def is_whitespace_def)

lemma demo_write_path: "validate_memory_file_path (str ''notes/user.md'') = Inr (str ''notes/user.md'')"
  using demo_trims(1,6,7)
  by (simp add: validate_memory_file_path_def normalize_relative_path_def Let_def path_is_absolute_def str_def ends_with_def)

lemma demo_path_parts: "path_parts (str ''notes/user.md'') = [str ''notes'', str ''user.md'']"
  by (simp add: path_parts_def str_def)

lemma demo_parse: "parse_memory_document demo_memory_env Active path
     (str ''---'' @ [10] @ (str ''A'' @ [10] @ str ''alpha'') @ [10] @ str ''---'' @ [10] @ str ''b'' @ [10])
   = Inr \<lparr>md_memory_type = Active, md_path = path,
       md_metadata = \<lparr>mm_title = str ''A'', mm_created_at = 0, mm_updated_at = 0, mm_keywords = [str ''alpha'']\<rparr>,
       md_content = str ''b''\<rparr>"
proof -
  have "me_yaml_from_str demo_memory_env (str ''A'' @ [10] @ str ''alpha'')
    = Inr \<lparr>mm_title = str ''A'', mm_created_at = 0, mm_updated_at = 0, mm_keywords = [str ''alpha'']\<rparr>"
    by (simp add: demo_memory_env_def str_def)
  moreover have "normalize_keywords [str ''alpha''] = Inr [str ''alpha'']"
    by (simp add: normalize_keywords_def Let_def demo_trims)
  moreover have "find_sub ([10] @ str ''---'' @ [10]) ((str ''A'' @ [10] @ str ''alpha'') @ [10]) = None"
    by (simp add: str_def)
  ultimately show ?thesis
    unfolding parse_memory_document_def
    by (simp only: split_rendered) (simp add: Let_def demo_trims strip_suffix_newline_def)
qed

lemma demo_collect: "collect_markdown_documents demo_memory_env Active (fs_active demo_memory_fs)
   = Inr [\<lparr>md_memory_type = Active, md_path = str ''a.md'',
       md_metadata = \<lparr>mm_title = str ''A'', mm_created_at = 0, mm_updated_at = 0, mm_keywords = [str ''alpha'']\<rparr>,
       md_content = str ''b''\<rparr>]"
  using demo_parse [of "str ''a.md''"]
  by (simp add: demo_memory_fs_def has_md_extension_def ends_with_def str_def)

lemma demo_write: "memory_write demo_memory_env demo_memory_request demo_memory_fs
  = (Inr demo_memory_document, demo_memory_fs
      \<lparr>fs_active := fs_active demo_memory_fs @ [([str ''notes'', str ''user.md''],
         str ''---'' @ [10] @ (str ''User'' @ [10] @ str ''user'') @ [10] @ str ''---'' @ [10] @ str ''likes'' @ [10])],
       fs_ticks := 1\<rparr>)"
proof -
  have k: "normalize_keywords [str ''user''] = Inr [str ''user'']"
    by (simp add: normalize_keywords_def Let_def demo_trims)
  have u: "ensure_unique_active_keywords demo_memory_env (str ''notes/user.md'') [str ''user''] demo_memory_fs = Inr ()"
    using demo_collect by (simp add: ensure_unique_active_keywords_def load_documents_def
        eq_ignore_ascii_case_def str_def to_ascii_lowercase_def)
  have r: "render_memory_markdown demo_memory_env (md_metadata demo_memory_document) Active (str ''likes'' @ [10])
    = Inr (str ''---'' @ [10] @ (str ''User'' @ [10] @ str ''user'') @ [10] @ str ''---'' @ [10] @ str ''likes'' @ [10])"
    using demo_trim_yaml by (simp add: render_memory_markdown_def demo_memory_env_def demo_memory_document_def
        trim_end_newlines_def str_def)
  have "check_keywords demo_memory_env Active (str ''notes/user.md'') [str ''user''] demo_memory_fs = Inr ()"
    using u by (simp add: check_keywords_def)
  moreover have "write_document demo_memory_env demo_memory_request (str ''notes/user.md'') (str ''User'') [str ''user''] demo_memory_fs
    = (Inr demo_memory_document, demo_memory_fs
      \<lparr>fs_active := fs_active demo_memory_fs @ [([str ''notes'', str ''user.md''],
         str ''---'' @ [10] @ (str ''User'' @ [10] @ str ''user'') @ [10] @ str ''---'' @ [10] @ str ''likes'' @ [10])],
       fs_ticks := 1\<rparr>)"
    using r by (simp add: write_document_def Let_def demo_memory_request_def demo_memory_document_def demo_path_parts
        demo_memory_fs_def blocked_by_file_def is_directory_def is_strict_prefix_def demo_memory_env_def)
  ultimately show ?thesis
    using k by (simp add: memory_write_def demo_memory_request_def demo_write_path demo_trims Let_def)
qed

lemma demo_frontmatter: "frontmatter_ok demo_memory_env (md_metadata demo_memory_document)"
  using demo_trim_yaml by (simp add: frontmatter_ok_def demo_memory_env_def demo_memory_document_def str_def)

theorem memory_write_then_get_witness:
  "memory_get demo_memory_env Active (str ''notes/user.md'')
     (snd (memory_write demo_memory_env demo_memory_request demo_memory_fs))
   = Inr (demo_memory_document\<lparr>md_content := trim_end_newlines (str ''likes'' @ [10])\<rparr>)"
  using memory_write_then_get [OF demo_write demo_frontmatter] demo_trims(1) demo_write
  by (simp add: demo_memory_document_def demo_memory_request_def)

section \<open>The active keywords stay unique\<close>

definition active_keywords :: "memory_document list \<Rightarrow> rstring list" where
  "active_keywords ds = concat (map (\<lambda>d. map to_ascii_lowercase (mm_keywords (md_metadata d))) ds)"

lemma active_keywords_simps [simp]:
  "active_keywords [] = []"
  "active_keywords (d # ds) = map to_ascii_lowercase (mm_keywords (md_metadata d)) @ active_keywords ds"
  "active_keywords (ds @ es) = active_keywords ds @ active_keywords es"
  by (simp_all add: active_keywords_def)

lemma catalog_keywords_ok:
  "catalog_keywords path ks m = Inr m' \<longleftrightarrow>
     distinct (map to_ascii_lowercase ks) \<and> set (map to_ascii_lowercase ks) \<inter> dom m = {}
     \<and> m' = foldl (\<lambda>m k. m(to_ascii_lowercase k \<mapsto> path)) m ks"
  by (induction ks arbitrary: m) (auto split: option.splits simp: dom_def, metis image_eqI)

lemma dom_foldl_upd: "dom (foldl (\<lambda>m k. m(f k \<mapsto> v)) m ks) = f ` set ks \<union> dom m"
  by (induction ks arbitrary: m) auto

lemma catalog_entries_ok:
  "\<not> isl (catalog_entries ds m) \<longleftrightarrow> distinct (active_keywords ds) \<and> set (active_keywords ds) \<inter> dom m = {}"
proof (induction ds arbitrary: m)
  case (Cons d ds)
  let ?ks = "mm_keywords (md_metadata d)"
  show ?case
  proof (cases "catalog_keywords (md_path d) ?ks m")
    case (Inl e)
    then have "\<not> (distinct (map to_ascii_lowercase ?ks) \<and> set (map to_ascii_lowercase ?ks) \<inter> dom m = {})"
      using catalog_keywords_ok [of "md_path d" ?ks m "foldl (\<lambda>m k. m(to_ascii_lowercase k \<mapsto> md_path d)) m ?ks"] by simp
    then show ?thesis using Inl by auto
  next
    case (Inr m')
    then have k: "distinct (map to_ascii_lowercase ?ks)" "set (map to_ascii_lowercase ?ks) \<inter> dom m = {}"
      "dom m' = to_ascii_lowercase ` set ?ks \<union> dom m"
      by (simp_all add: catalog_keywords_ok dom_foldl_upd)
    have "isl (catalog_entries (d # ds) m) = isl (catalog_entries ds m')"
      using Inr by (cases "catalog_entries ds m'") simp_all
    then show ?thesis using Cons.IH [of m'] k by auto
  qed
qed simp

text \<open>The documents a directory walk answers, file by file.\<close>

definition file_docs :: "memory_env \<Rightarrow> rstring list \<times> rstring \<Rightarrow> memory_document list" where
  "file_docs M pr = (if \<not> has_md_extension (fst pr) then []
     else (case parse_memory_document M Active (join (str ''/'') (fst pr)) (snd pr) of Inl _ \<Rightarrow> [] | Inr d \<Rightarrow> [d]))"

definition readable :: "memory_env \<Rightarrow> rstring list \<times> rstring \<Rightarrow> bool" where
  "readable M pr \<longleftrightarrow> (has_md_extension (fst pr) \<longrightarrow> \<not> isl (parse_memory_document M Active (join (str ''/'') (fst pr)) (snd pr)))"

lemma collect_docs:
  "collect_markdown_documents M Active files = Inr ds \<longleftrightarrow>
     list_all (readable M) files \<and> ds = concat (map (file_docs M) files)"
proof (induction files arbitrary: ds)
  case (Cons f files)
  obtain p raw where f: "f = (p, raw)" by (cases f)
  show ?case
  proof (cases "has_md_extension p")
    case md: True
    show ?thesis
    proof (cases "parse_memory_document M Active (join (str ''/'') p) raw")
      case (Inr d)
      then show ?thesis using md Cons.IH unfolding f
        by (cases "collect_markdown_documents M Active files") (auto simp: readable_def file_docs_def)
    qed (use md in \<open>simp add: f readable_def\<close>)
  qed (use Cons.IH in \<open>simp add: f readable_def file_docs_def\<close>)
qed auto

lemma load_active_docs:
  "load_documents M (Some Active) fs = Inr ds \<longleftrightarrow>
     list_all (readable M) (fs_active fs) \<and> ds = concat (map (file_docs M) (fs_active fs))"
  using collect_docs [of M "fs_active fs"]
  by (cases "collect_markdown_documents M Active (fs_active fs)") (auto simp: load_documents_def)

lemma load_active_catalog_ok:
  "\<not> isl (load_active_catalog M fs) \<longleftrightarrow>
     list_all (readable M) (fs_active fs) \<and> distinct (active_keywords (concat (map (file_docs M) (fs_active fs))))"
proof (cases "load_documents M (Some Active) fs")
  case (Inl e)
  then have "\<not> list_all (readable M) (fs_active fs)" using load_active_docs [of M fs] by auto
  then show ?thesis using Inl by (simp add: load_active_catalog_def)
next
  case (Inr ds)
  have "isl (load_active_catalog M fs) = isl (catalog_entries ds Map.empty)"
    using Inr by (cases "catalog_entries ds Map.empty") (simp_all add: load_active_catalog_def)
  then show ?thesis using catalog_entries_ok [of ds Map.empty] Inr by (simp add: load_active_docs)
qed

text \<open>The files of a type are one per path, and no part of a path has a separator in it.\<close>

definition fs_ok :: "memory_fs \<Rightarrow> bool" where
  "fs_ok fs \<longleftrightarrow> distinct (map fst (fs_active fs)) \<and>
     list_all (\<lambda>(p, _). p \<noteq> [] \<and> list_all (\<lambda>w. 47 \<notin> set w) p) (fs_active fs)"

lemma path_parts_join: "p \<noteq> [] \<Longrightarrow> list_all (\<lambda>w. 47 \<notin> set w) p \<Longrightarrow> path_parts (join (str ''/'') p) = p"
  unfolding path_parts_def by (rule split_join) (simp_all add: list_all_iff)

lemma file_docs_path: "d \<in> set (file_docs M (p, raw)) \<Longrightarrow> md_path d = join (str ''/'') p"
  by (auto simp: file_docs_def parse_memory_document_def Let_def split: if_splits sum.splits)

lemma set_update_subset: "set (AList.update k v al) \<subseteq> insert (k, v) {x \<in> set al. fst x \<noteq> k \<or> \<not> distinct (map fst al)}"
  by (induction al) (auto, force+)

lemma keywords_after_update:
  assumes "distinct (map fst files)" "distinct (active_keywords (concat (map (file_docs M) files)))"
    and "distinct (active_keywords (file_docs M (p, raw)))"
    and "\<forall>x \<in> set files. fst x \<noteq> p \<longrightarrow> set (active_keywords (file_docs M x)) \<inter> set (active_keywords (file_docs M (p, raw))) = {}"
  shows "distinct (active_keywords (concat (map (file_docs M) (AList.update p raw files))))
    \<and> set (active_keywords (concat (map (file_docs M) (AList.update p raw files))))
      \<subseteq> set (active_keywords (file_docs M (p, raw))) \<union> set (active_keywords (concat (map (file_docs M) files)))"
  using assms
proof (induction files)
  case (Cons f files)
  obtain q r where f: "f = (q, r)" by (cases f)
  have set_kw: "set (active_keywords (concat (map (file_docs M) fs))) = (\<Union>x \<in> set fs. set (active_keywords (file_docs M x)))" for fs
    by (induction fs) auto
  show ?case
  proof (cases "q = p")
    case True
    have "fst x \<noteq> p" if "x \<in> set files" for x using Cons.prems(1) that True f by force
    then have "set (active_keywords (concat (map (file_docs M) files))) \<inter> set (active_keywords (file_docs M (p, raw))) = {}"
      using Cons.prems(4) unfolding set_kw by auto
    then show ?thesis using Cons.prems(2,3) True f by auto
  next
    case False
    then have "distinct (active_keywords (concat (map (file_docs M) (AList.update p raw files))))
      \<and> set (active_keywords (concat (map (file_docs M) (AList.update p raw files))))
      \<subseteq> set (active_keywords (file_docs M (p, raw))) \<union> set (active_keywords (concat (map (file_docs M) files)))"
      using Cons.prems by (intro Cons.IH) auto
    moreover have "set (active_keywords (file_docs M f)) \<inter> set (active_keywords (file_docs M (p, raw))) = {}"
      using Cons.prems(4) False f by auto
    ultimately show ?thesis using Cons.prems(2) False f by auto
  qed
qed simp

lemma ensure_unique_ok:
  assumes "ensure_unique_active_keywords M path kws fs = Inr ()" "x \<in> set (fs_active fs)" "d \<in> set (file_docs M x)"
    and "md_path d \<noteq> path"
  shows "set (map to_ascii_lowercase (mm_keywords (md_metadata d))) \<inter> set (map to_ascii_lowercase kws) = {}"
proof -
  obtain ds where ds: "load_documents M (Some Active) fs = Inr ds"
    using assms(1) by (auto simp: ensure_unique_active_keywords_def split: sum.splits)
  then have "d \<in> set ds" using assms(2,3) by (auto simp: load_active_docs)
  then have "\<not> eq_ignore_ascii_case existing keyword"
    if "existing \<in> set (mm_keywords (md_metadata d))" "keyword \<in> set kws" for existing keyword
    using assms(1,4) ds that
    by (auto simp: ensure_unique_active_keywords_def find_None_iff list_ex_iff split: option.splits)
  then show ?thesis by (auto simp: eq_ignore_ascii_case_def)
qed

lemma active_write_keeps_catalog:
  assumes "memory_write M request fs = (Inr d, fs')" "mw_memory_type request = Active"
    and "frontmatter_ok M (md_metadata d)" "fs_ok fs" "\<not> isl (load_active_catalog M fs)"
  shows "fs_ok fs' \<and> \<not> isl (load_active_catalog M fs')"
proof -
  obtain path title kws rendered where w:
    "validate_memory_file_path (mw_path request) = Inr path" "title = trim (mw_title request)" "title \<noteq> []"
    "normalize_keywords (case mw_keywords request of None \<Rightarrow> [] | Some ks \<Rightarrow> ks) = Inr kws"
    "check_keywords M (mw_memory_type request) path kws fs = Inr ()"
    "md_memory_type d = mw_memory_type request" "md_path d = path" "md_content d = mw_content request"
    "mm_title (md_metadata d) = title" "mm_keywords (md_metadata d) = kws"
    "render_memory_markdown M (md_metadata d) (mw_memory_type request) (mw_content request) = Inr rendered"
    "fs' = upd_type_files (mw_memory_type request) (AList.update (path_parts path) rendered) (fs\<lparr>fs_ticks := fs_ticks fs + 1\<rparr>)"
    using assms(1) by (rule memory_write_ok)
  let ?p = "path_parts path"
  have n: "normalize_relative_path (mw_path request) = Inr path"
    using w(1) by (auto simp: validate_memory_file_path_def split: sum.splits if_splits)
  obtain parts where parts: "parts \<noteq> []" "list_all plain_part parts" "path = join (str ''/'') parts" "?p = parts"
    by (rule normalize_parts [OF n])
  then have p: "?p \<noteq> []" "list_all (\<lambda>w. 47 \<notin> set w) ?p" "join (str ''/'') ?p = path"
    by (auto simp: list_all_iff plain_part_def)
  have files: "fs_active fs' = AList.update ?p rendered (fs_active fs)" using w(12) assms(2) by simp
  have parse: "parse_memory_document M Active q rendered
    = Inr \<lparr>md_memory_type = Active, md_path = q, md_metadata = md_metadata d,
           md_content = trim_end_newlines (mw_content request)\<rparr>" for q
    using w(2,3,9,10,11) assms(2) normalize_keywords_idem [OF w(4)] check_keywords_type [OF w(5)]
    by (intro parse_rendered [OF assms(3)]) simp_all
  have kw: "set (active_keywords (file_docs M (?p, rendered))) \<subseteq> set (map to_ascii_lowercase kws)"
    "distinct (active_keywords (file_docs M (?p, rendered)))"
    using parse w(10) normalize_keywords_loop_ok [OF w(4) [unfolded normalize_keywords_def]]
    by (auto simp: file_docs_def normal_keywords_def)
  have ensure: "ensure_unique_active_keywords M path kws fs = Inr ()"
    using w(5) assms(2) by (auto simp: check_keywords_def split: if_splits)
  have apart: "set (active_keywords (file_docs M x)) \<inter> set (active_keywords (file_docs M (?p, rendered))) = {}"
    if x: "x \<in> set (fs_active fs)" "fst x \<noteq> ?p" for x
  proof -
    obtain q r where q: "x = (q, r)" by (cases x)
    have "path_parts (join (str ''/'') q) = q" using x assms(4) q by (intro path_parts_join) (auto simp: fs_ok_def list_all_iff)
    then have "md_path e \<noteq> path" if "e \<in> set (file_docs M x)" for e
      using file_docs_path [of e M q r] that x(2) q by auto
    then have "set (map to_ascii_lowercase (mm_keywords (md_metadata e))) \<inter> set (map to_ascii_lowercase kws) = {}"
      if "e \<in> set (file_docs M x)" for e using ensure_unique_ok [OF ensure x(1)] that by blast
    then show ?thesis using kw(1) by (fastforce simp: active_keywords_def)
  qed
  have old: "list_all (readable M) (fs_active fs)" "distinct (active_keywords (concat (map (file_docs M) (fs_active fs))))"
    using assms(5) by (simp_all add: load_active_catalog_ok)
  have "distinct (active_keywords (concat (map (file_docs M) (fs_active fs'))))"
    unfolding files using keywords_after_update [OF _ old(2) kw(2)] apart assms(4) by (simp add: fs_ok_def)
  moreover have "list_all (readable M) (fs_active fs')"
    unfolding files using set_update_subset [of ?p rendered "fs_active fs"] old(1) parse
    by (force simp: list_all_iff readable_def)
  moreover have "fs_ok fs'"
    unfolding fs_ok_def files using set_update_subset [of ?p rendered "fs_active fs"] assms(4) p
    by (fastforce simp: fs_ok_def list_all_iff distinct_update)
  ultimately show ?thesis by (simp add: load_active_catalog_ok)
qed

text \<open>
  C25: active keywords stay unique. While the files of active memory can be read and no two documents share a
  keyword, ignoring case, so that the catalog for a new thread loads, every \<open>write\<close> leaves it that way, whether
  it succeeds or not, and each path keeps one file. The YAML library is trusted to read back the metadata of a
  document that was written (\<open>frontmatter_ok\<close>), and a write that the file system refuses is taken to leave the files
  as they were.
\<close>
theorem active_keywords_stay_unique:
  assumes "fs_ok fs" "\<not> isl (load_active_catalog M fs)"
    and "case fst (memory_write M request fs) of Inl _ \<Rightarrow> True | Inr d \<Rightarrow> frontmatter_ok M (md_metadata d)"
  shows "fs_ok (snd (memory_write M request fs)) \<and> \<not> isl (load_active_catalog M (snd (memory_write M request fs)))"
proof (cases "memory_write M request fs")
  case (Pair res fs')
  show ?thesis
  proof (cases res)
    case (Inl e)
    then have "fs_active fs' = fs_active fs" using memory_write_failed(1) Pair by blast
    then show ?thesis using assms(1,2) Pair unfolding load_active_catalog_ok fs_ok_def by simp
  next
    case (Inr d)
    show ?thesis
    proof (cases "mw_memory_type request")
      case Passive
      have "memory_write M request fs = (Inr d, fs')" using Pair Inr by simp
      then have "fs_active fs' = fs_active fs" using Passive by (elim memory_write_ok) simp
      then show ?thesis using assms(1,2) Pair unfolding load_active_catalog_ok fs_ok_def by simp
    next
      case Active
      have "frontmatter_ok M (md_metadata d)" using assms(3) Pair Inr by simp
      then have "fs_ok fs' \<and> \<not> isl (load_active_catalog M fs')"
        using active_write_keeps_catalog [OF _ Active _ assms(1,2)] Pair Inr by blast
      then show ?thesis using Pair by simp
    qed
  qed
qed

theorem active_keywords_stay_unique_witness:
  "fs_ok (snd (memory_write demo_memory_env demo_memory_request demo_memory_fs))
   \<and> \<not> isl (load_active_catalog demo_memory_env (snd (memory_write demo_memory_env demo_memory_request demo_memory_fs)))"
proof (rule active_keywords_stay_unique)
  show "fs_ok demo_memory_fs" by (simp add: fs_ok_def demo_memory_fs_def str_def)
  show "\<not> isl (load_active_catalog demo_memory_env demo_memory_fs)"
    using demo_collect by (simp add: load_active_catalog_def load_documents_def)
  show "case fst (memory_write demo_memory_env demo_memory_request demo_memory_fs) of Inl _ \<Rightarrow> True
    | Inr d \<Rightarrow> frontmatter_ok demo_memory_env (md_metadata d)"
    unfolding demo_write using demo_frontmatter by simp
qed

end
