(* ===== verification/OJ_File_Tools.thy ===== *)
theory OJ_File_Tools
  imports OJ_Tool_Args OJ_Memory
begin

text \<open>
  The built-in tools on files and the legacy shell tool: \<open>src/agent/tool/read.rs\<close>, \<open>write.rs\<close>, \<open>edit.rs\<close>
  and \<open>shell.rs\<close>, with \<open>run_legacy_shell_command\<close> of \<open>command/process.rs\<close>.

  The state is a file system: the working directory, the directories and the files with their text, by the
  components of their absolute paths, and the symbolic links with the place each of them leads to when all links
  are followed. Every file is readable UTF-8 text, and an operation of the system fails for the reasons its paths
  give; the text of its error is a parameter. What a shell answers is a parameter too.
\<close>

section \<open>The file system\<close>

record host_fs =
  hf_cwd :: "rstring list"
  hf_dirs :: "rstring list list"
  hf_files :: "(rstring list \<times> rstring) list"
  hf_links :: "(rstring list \<times> rstring list) list"

definition path_start :: "host_fs \<Rightarrow> rstring \<Rightarrow> rstring list" where
  "path_start h path = (if path_is_absolute path then [] else hf_cwd h)"

definition dir_exists :: "host_fs \<Rightarrow> rstring list \<Rightarrow> bool" where
  "dir_exists h p \<longleftrightarrow> p = [] \<or> p \<in> set (hf_dirs h)"

text \<open>Where an entry of a directory leads: the entry itself, unless it is a symbolic link.\<close>

definition real_path :: "host_fs \<Rightarrow> rstring list \<Rightarrow> rstring list" where
  "real_path h p = (case map_of (hf_links h) p of None \<Rightarrow> p | Some q \<Rightarrow> q)"

text \<open>The system's walk along the directories of a path, which follows every link.\<close>

fun walk_dirs :: "host_fs \<Rightarrow> rstring list \<Rightarrow> rstring list \<Rightarrow> rstring list option" where
  "walk_dirs h cur [] = Some cur"
| "walk_dirs h cur (part # parts) =
     (if part = [] \<or> part = str ''.'' then walk_dirs h cur parts
      else if part = str ''..'' then walk_dirs h (butlast cur) parts
      else
        let p = real_path h (cur @ [part]) in
        if dir_exists h p then walk_dirs h p parts else None)"

text \<open>
  The entry a path names, and the file it leads to: a path that ends in a separator or a dot names a directory
  only.
\<close>

definition entry_target :: "host_fs \<Rightarrow> rstring \<Rightarrow> rstring list option" where
  "entry_target h path =
     (let parts = path_parts path; name = last parts in
      if name = [] \<or> name = str ''.'' \<or> name = str ''..'' then None
      else map_option (\<lambda>d. d @ [name]) (walk_dirs h (path_start h path) (butlast parts)))"

definition file_target :: "host_fs \<Rightarrow> rstring \<Rightarrow> rstring list option" where
  "file_target h path = map_option (real_path h) (entry_target h path)"

definition fs_read_to_string :: "host_fs \<Rightarrow> rstring \<Rightarrow> rstring option" where
  "fs_read_to_string h path = Option.bind (file_target h path) (map_of (hf_files h))"

text \<open>\<open>create_dir_all\<close>: the missing directories one after the other, up to a file or a dead link in the way.\<close>

fun create_dirs :: "rstring list \<Rightarrow> rstring list \<Rightarrow> host_fs \<Rightarrow> bool \<times> host_fs" where
  "create_dirs cur [] h = (True, h)"
| "create_dirs cur (part # parts) h =
     (if part = [] \<or> part = str ''.'' then create_dirs cur parts h
      else if part = str ''..'' then create_dirs (butlast cur) parts h
      else
        let p = real_path h (cur @ [part]) in
        if map_of (hf_files h) p \<noteq> None then (False, h)
        else if dir_exists h p then create_dirs p parts h
        else if p \<noteq> cur @ [part] then (False, h)
        else create_dirs p parts (h\<lparr>hf_dirs := hf_dirs h @ [p]\<rparr>))"

definition fs_write :: "rstring \<Rightarrow> rstring \<Rightarrow> host_fs \<Rightarrow> bool \<times> host_fs" where
  "fs_write path content h =
     (case file_target h path of
        None \<Rightarrow> (False, h)
      | Some p \<Rightarrow> (if dir_exists h p then (False, h) else (True, h\<lparr>hf_files := AList.update p content (hf_files h)\<rparr>)))"

definition os_fail :: "tools_env \<Rightarrow> string \<Rightarrow> rstring \<Rightarrow> err" where
  "os_fail E what path = err_context (str what @ path) (bail (te_os_error E))"

section \<open>The read tool\<close>

fun split_inclusive :: "rstring \<Rightarrow> rstring list" where
  "split_inclusive [] = []"
| "split_inclusive (c # s) =
     (if c = 10 then [c] # split_inclusive s
      else (case split_inclusive s of [] \<Rightarrow> [[c]] | l # ls \<Rightarrow> (c # l) # ls))"

definition USIZE_MAX :: nat where
  "USIZE_MAX = 2 ^ 64 - 1"

definition select_line_range :: "rstring \<Rightarrow> nat option \<Rightarrow> nat option \<Rightarrow> err + rstring" where
  "select_line_range content start_line0 end_line0 =
     (if start_line0 = None \<and> end_line0 = None then Inr content
      else
        let start_line = (case start_line0 of None \<Rightarrow> 1 | Some n \<Rightarrow> n);
            end_line = (case end_line0 of None \<Rightarrow> USIZE_MAX | Some n \<Rightarrow> n) in
        if start_line = 0 \<or> end_line = 0
        then Inl (bail (str ''read tool line numbers are 1-based and must be greater than 0''))
        else if end_line < start_line then Inl (bail (str ''read tool requires start_line <= end_line''))
        else if content = [] then
          (if 1 < start_line
           then Inl (bail (str ''read tool start_line '' @ nat_str start_line @ str '' is out of range for 0 total lines''))
           else Inr [])
        else
          let lines = split_inclusive content in
          if length lines < start_line
          then Inl (bail (str ''read tool start_line '' @ nat_str start_line @ str '' is out of range for ''
                          @ nat_str (length lines) @ str '' total lines''))
          else Inr (concat (drop (start_line - 1) (take (min end_line (length lines)) lines))))"

definition count_lines :: "rstring \<Rightarrow> nat" where
  "count_lines content = (if content = [] then 0 else length (split_inclusive content))"

record read_tool_arguments =
  ra_path :: rstring
  ra_start_line :: "nat option"
  ra_end_line :: "nat option"

definition read_tool_arguments_from_json :: "json \<Rightarrow> read_tool_arguments option" where
  "read_tool_arguments_from_json j =
     Option.bind (struct_fields [str ''path'', str ''start_line'', str ''end_line''] [] j) (\<lambda>m.
     Option.bind (field_req dec_string ''path'' m) (\<lambda>path.
     Option.bind (field_opt dec_u64 ''start_line'' m) (\<lambda>start_line.
     Option.bind (field_opt dec_u64 ''end_line'' m) (\<lambda>end_line.
     Some \<lparr>ra_path = path, ra_start_line = start_line, ra_end_line = end_line\<rparr>))))"

definition read_call :: "tools_env \<Rightarrow> tool_call_request \<Rightarrow> (host_fs, tool_call_result) act" where
  "read_call E request h =
     (case parse_tool_arguments E read_tool_arguments_from_json request ''read'' of
        Inl e \<Rightarrow> (Inl e, h)
      | Inr args \<Rightarrow>
     (case fs_read_to_string h (ra_path args) of
        None \<Rightarrow> (Inl (os_fail E ''failed to read file '' (ra_path args)), h)
      | Some content \<Rightarrow>
     (case select_line_range content (ra_start_line args) (ra_end_line args) of
        Inl e \<Rightarrow> (Inl e, h)
      | Inr selected \<Rightarrow>
          (Inr \<lparr>rs_content = selected,
                rs_metadata = JObj [(str ''path'', JStr (ra_path args)),
                                    (str ''start_line'', jopt (JInt \<circ> int) (ra_start_line args)),
                                    (str ''end_line'', jopt (JInt \<circ> int) (ra_end_line args)),
                                    (str ''returned_line_count'', JInt (int (count_lines selected)))],
                rs_is_error = False\<rparr>, h))))"

definition read_tool :: "tools_env \<Rightarrow> host_fs tool_handler" where
  "read_tool E =
     \<lparr>hd_definition = tool_definition_from_args E ''read''
        (str ''Read a UTF-8 text file from disk, optionally by 1-based inclusive line range.''),
      hd_call = (\<lambda>_. read_call E)\<rparr>"

section \<open>The write tool\<close>

record write_tool_arguments =
  wa_path :: rstring
  wa_content :: rstring

definition write_tool_arguments_from_json :: "json \<Rightarrow> write_tool_arguments option" where
  "write_tool_arguments_from_json j =
     Option.bind (struct_fields [str ''path'', str ''content''] [] j) (\<lambda>m.
     Option.bind (field_req dec_string ''path'' m) (\<lambda>path.
     Option.bind (field_req dec_string ''content'' m) (\<lambda>content.
     Some \<lparr>wa_path = path, wa_content = content\<rparr>)))"

text \<open>\<open>Path::parent\<close>: the components of a path but the last, when there are any before it.\<close>

definition parent_components :: "rstring \<Rightarrow> rstring list" where
  "parent_components path = butlast (filter (\<lambda>part. part \<noteq> [] \<and> part \<noteq> str ''.'') (path_parts path))"

text \<open>\<open>len\<close> of a string: its UTF-8 bytes.\<close>

definition utf8_len :: "rstring \<Rightarrow> nat" where
  "utf8_len s = sum_list (map (\<lambda>c. if c < 128 then 1 else if c < 2048 then 2 else if c < 65536 then 3 else 4) s)"

definition write_call :: "tools_env \<Rightarrow> tool_call_request \<Rightarrow> (host_fs, tool_call_result) act" where
  "write_call E request h =
     (case parse_tool_arguments E write_tool_arguments_from_json request ''write'' of
        Inl e \<Rightarrow> (Inl e, h)
      | Inr args \<Rightarrow>
     (case create_dirs (path_start h (wa_path args)) (parent_components (wa_path args)) h of
        (False, h1) \<Rightarrow> (Inl (os_fail E ''failed to create parent directories for '' (wa_path args)), h1)
      | (True, h1) \<Rightarrow>
     (case fs_write (wa_path args) (wa_content args) h1 of
        (False, h2) \<Rightarrow> (Inl (os_fail E ''failed to write file '' (wa_path args)), h2)
      | (True, h2) \<Rightarrow>
          (Inr \<lparr>rs_content = str ''wrote '' @ nat_str (utf8_len (wa_content args)) @ str '' bytes'',
                rs_metadata = JObj [(str ''path'', JStr (wa_path args)),
                                    (str ''bytes_written'', JInt (int (utf8_len (wa_content args))))],
                rs_is_error = False\<rparr>, h2))))"

definition write_tool :: "tools_env \<Rightarrow> host_fs tool_handler" where
  "write_tool E =
     \<lparr>hd_definition = tool_definition_from_args E ''write''
        (str ''Write full UTF-8 text content to a file, overwriting any existing content.''),
      hd_call = (\<lambda>_. write_call E)\<rparr>"

section \<open>The edit tool\<close>

record edit_tool_arguments =
  da_path :: rstring
  da_old_text :: rstring
  da_new_text :: rstring

definition edit_tool_arguments_from_json :: "json \<Rightarrow> edit_tool_arguments option" where
  "edit_tool_arguments_from_json j =
     Option.bind (struct_fields [str ''path'', str ''old_text'', str ''new_text'']
       [(str ''old'', str ''old_text''), (str ''new'', str ''new_text'')] j) (\<lambda>m.
     Option.bind (field_req dec_string ''path'' m) (\<lambda>path.
     Option.bind (field_req dec_string ''old_text'' m) (\<lambda>old_text.
     Option.bind (field_req dec_string ''new_text'' m) (\<lambda>new_text.
     Some \<lparr>da_path = path, da_old_text = old_text, da_new_text = new_text\<rparr>))))"

lemma find_sub_drop:
  assumes "find_sub pat s = Some i" "pat \<noteq> []"
  shows "length s - (i + length pat) < length s"
  using find_sub_bound [OF assms(1)] assms(2) by (cases pat) auto

text \<open>\<open>matches(pat).count()\<close> and \<open>replacen(pat, new, 1)\<close>, for a pattern that is not empty.\<close>

function count_matches :: "rstring \<Rightarrow> rstring \<Rightarrow> nat" where
  "count_matches pat s =
     (case find_sub pat s of
        None \<Rightarrow> 0
      | Some i \<Rightarrow> if pat = [] then 0 else Suc (count_matches pat (drop (i + length pat) s)))"
  by pat_completeness auto
termination
  by (relation "measure (\<lambda>(pat, s). length s)") (auto intro: find_sub_drop)

declare count_matches.simps [simp del]

definition replace_first :: "rstring \<Rightarrow> rstring \<Rightarrow> rstring \<Rightarrow> rstring" where
  "replace_first pat new s =
     (case find_sub pat s of None \<Rightarrow> s | Some i \<Rightarrow> take i s @ new @ drop (i + length pat) s)"

definition edit_call :: "tools_env \<Rightarrow> tool_call_request \<Rightarrow> (host_fs, tool_call_result) act" where
  "edit_call E request h =
     (case parse_tool_arguments E edit_tool_arguments_from_json request ''edit'' of
        Inl e \<Rightarrow> (Inl e, h)
      | Inr args \<Rightarrow>
      if da_old_text args = [] then (Inl (bail (str ''edit tool requires non-empty `old_text`'')), h)
      else
     (case fs_read_to_string h (da_path args) of
        None \<Rightarrow> (Inl (os_fail E ''failed to read file '' (da_path args)), h)
      | Some content \<Rightarrow>
          let match_count = count_matches (da_old_text args) content in
          if match_count = 0
          then (Inl (bail (str ''edit tool did not find target text in '' @ da_path args)), h)
          else
            (case fs_write (da_path args) (replace_first (da_old_text args) (da_new_text args) content) h of
               (False, h1) \<Rightarrow> (Inl (os_fail E ''failed to write file '' (da_path args)), h1)
             | (True, h1) \<Rightarrow>
                 (Inr \<lparr>rs_content = str ''updated 1 occurrence'',
                       rs_metadata = JObj [(str ''path'', JStr (da_path args)),
                                           (str ''match_count'', JInt (int match_count)),
                                           (str ''replaced_count'', JInt 1)],
                       rs_is_error = False\<rparr>, h1))))"

definition edit_tool :: "tools_env \<Rightarrow> host_fs tool_handler" where
  "edit_tool E =
     \<lparr>hd_definition = tool_definition_from_args E ''edit''
        (str ''Edit a UTF-8 text file by replacing the first exact matched string and writing back the full file.''),
      hd_call = (\<lambda>_. edit_call E)\<rparr>"

section \<open>The shell tool\<close>

text \<open>\<open>ShellCommandSpec\<close> as it is built off Windows, and what running it with a time limit answers.\<close>

record shell_command_spec =
  sc_program :: rstring
  sc_args :: "rstring list"

definition build_shell_command_spec :: "rstring \<Rightarrow> rstring option \<Rightarrow> shell_command_spec" where
  "build_shell_command_spec command shell =
     \<lparr>sc_program = (case shell of None \<Rightarrow> str ''sh'' | Some s \<Rightarrow> s), sc_args = [str ''-lc'', command]\<rparr>"

datatype process_output =
    ProcessTimedOut
  | ProcessFailed err
  | ProcessOutput rstring rstring "int option"

record legacy_shell_command_result =
  ls_stdout :: rstring
  ls_stderr :: rstring
  ls_status_code :: "int option"
  ls_timed_out :: bool

definition run_legacy_shell_command ::
    "(shell_command_spec \<Rightarrow> nat \<Rightarrow> 'e \<Rightarrow> process_output \<times> 'e) \<Rightarrow> rstring \<Rightarrow> nat \<Rightarrow> ('e, legacy_shell_command_result) act" where
  "run_legacy_shell_command run command timeout_ms s =
     (case run (build_shell_command_spec command None) timeout_ms s of
        (ProcessFailed e, s') \<Rightarrow> (Inl (err_context (str ''failed to execute shell command'') e), s')
      | (ProcessTimedOut, s') \<Rightarrow> (Inr \<lparr>ls_stdout = [], ls_stderr = [], ls_status_code = None, ls_timed_out = True\<rparr>, s')
      | (ProcessOutput stdout stderr code, s') \<Rightarrow>
          (Inr \<lparr>ls_stdout = stdout, ls_stderr = stderr, ls_status_code = code, ls_timed_out = False\<rparr>, s'))"

record shell_tool_arguments =
  sa_command :: rstring
  sa_timeout :: "nat option"

definition shell_tool_arguments_from_json :: "json \<Rightarrow> shell_tool_arguments option" where
  "shell_tool_arguments_from_json j =
     Option.bind (struct_fields [str ''command'', str ''timeout''] [(str ''timeout_ms'', str ''timeout'')] j) (\<lambda>m.
     Option.bind (field_req dec_string ''command'' m) (\<lambda>command.
     Option.bind (field_opt dec_u64 ''timeout'' m) (\<lambda>timeout.
     Some \<lparr>sa_command = command, sa_timeout = timeout\<rparr>)))"

definition DEFAULT_BASH_TIMEOUT_MS :: nat where
  "DEFAULT_BASH_TIMEOUT_MS = 30000"

definition shell_call ::
    "tools_env \<Rightarrow> (shell_command_spec \<Rightarrow> nat \<Rightarrow> 'e \<Rightarrow> process_output \<times> 'e) \<Rightarrow> tool_call_request \<Rightarrow> ('e, tool_call_result) act" where
  "shell_call E run request =
     act_bind (act_lift (parse_tool_arguments E shell_tool_arguments_from_json request ''bash'')) (\<lambda>args.
     let timeout_ms = (case sa_timeout args of None \<Rightarrow> DEFAULT_BASH_TIMEOUT_MS | Some t \<Rightarrow> t) in
     act_bind (run_legacy_shell_command run (sa_command args) timeout_ms) (\<lambda>output.
     if ls_timed_out output then
       act_ret \<lparr>rs_content = str ''command timed out after '' @ nat_str timeout_ms @ str '' ms'',
                rs_metadata = JObj [(str ''command'', JStr (sa_command args)), (str ''timeout_ms'', JInt (int timeout_ms))],
                rs_is_error = True\<rparr>
     else
       let content = (if ls_status_code output = Some 0 then ls_stdout output
                      else if trim (ls_stderr output) = [] then ls_stdout output
                      else ls_stderr output) in
       act_ret \<lparr>rs_content = content,
                rs_metadata = JObj [(str ''command'', JStr (sa_command args)), (str ''timeout_ms'', JInt (int timeout_ms)),
                                    (str ''status_code'', jopt JInt (ls_status_code output)),
                                    (str ''stdout'', JStr (ls_stdout output)), (str ''stderr'', JStr (ls_stderr output))],
                rs_is_error = (ls_status_code output \<noteq> Some 0)\<rparr>))"

definition shell_tool ::
    "tools_env \<Rightarrow> (shell_command_spec \<Rightarrow> nat \<Rightarrow> 'e \<Rightarrow> process_output \<times> 'e) \<Rightarrow> 'e tool_handler" where
  "shell_tool E run =
     \<lparr>hd_definition = tool_definition_from_args E ''bash''
        (str ''Run a local shell command. `timeout` is measured in milliseconds.''),
      hd_call = (\<lambda>_. shell_call E run)\<rparr>"

section \<open>Reading and writing files\<close>

lemma walk_dirs_dirs:
  "hf_dirs h' = hf_dirs h \<Longrightarrow> hf_links h' = hf_links h \<Longrightarrow> walk_dirs h' cur parts = walk_dirs h cur parts"
  by (induction parts arbitrary: cur) (simp_all add: dir_exists_def real_path_def Let_def)

lemma entry_target_dirs:
  "hf_dirs h' = hf_dirs h \<Longrightarrow> hf_links h' = hf_links h \<Longrightarrow> hf_cwd h' = hf_cwd h \<Longrightarrow>
   entry_target h' path = entry_target h path"
  by (simp add: entry_target_def path_start_def walk_dirs_dirs [of h' h] Let_def)

lemma file_target_dirs:
  "hf_dirs h' = hf_dirs h \<Longrightarrow> hf_links h' = hf_links h \<Longrightarrow> hf_cwd h' = hf_cwd h \<Longrightarrow>
   file_target h' path = file_target h path"
  by (simp add: file_target_def entry_target_dirs [of h' h] real_path_def [abs_def])

lemma fs_write_ok:
  assumes "fs_write path content h = (True, h')"
  obtains p where "file_target h path = Some p" "h' = h\<lparr>hf_files := AList.update p content (hf_files h)\<rparr>"
    "fs_read_to_string h' path = Some content"
    "\<forall>q. file_target h q \<noteq> Some p \<longrightarrow> fs_read_to_string h' q = fs_read_to_string h q"
proof -
  obtain p where p: "file_target h path = Some p" "h' = h\<lparr>hf_files := AList.update p content (hf_files h)\<rparr>"
    using assms by (auto simp: fs_write_def split: option.splits if_splits)
  then have t: "file_target h' q = file_target h q" for q by (intro file_target_dirs) simp_all
  show ?thesis
  proof (rule that [OF p])
    show "fs_read_to_string h' path = Some content" using p t by (simp add: fs_read_to_string_def update_conv')
    have "fs_read_to_string h' q = fs_read_to_string h q" if "file_target h q \<noteq> Some p" for q
      using that p(2) t by (cases "file_target h q") (auto simp: fs_read_to_string_def update_conv')
    then show "\<forall>q. file_target h q \<noteq> Some p \<longrightarrow> fs_read_to_string h' q = fs_read_to_string h q" by blast
  qed
qed

lemma fs_write_failed: "fs_write path content h = (False, h') \<Longrightarrow> h' = h"
  by (auto simp: fs_write_def split: option.splits if_splits)

lemma replace_first_at:
  assumes "find_sub pat s = Some i"
  obtains pre post where "s = pre @ pat @ post" "length pre = i" "replace_first pat new s = pre @ new @ post"
proof -
  have "starts_with (drop i s) pat"
    using assms by (induction s arbitrary: i) (auto split: if_splits)
  then obtain r where "drop i s = pat @ r" by (auto simp: starts_with_iff)
  moreover have "s = take i s @ drop i s" by simp
  ultimately have s: "s = take i s @ pat @ r" by simp
  moreover have "drop (i + length pat) s = r"
  proof -
    have "drop (i + length pat) s = drop (length pat) (drop i s)" by (simp add: add.commute)
    then show ?thesis using \<open>drop i s = pat @ r\<close> by simp
  qed
  moreover have "length (take i s) = i" using find_sub_bound [OF assms] by simp
  ultimately show ?thesis using that [of "take i s" r] assms by (simp add: replace_first_def)
qed

lemma count_matches_find: "pat \<noteq> [] \<Longrightarrow> count_matches pat s = 0 \<longleftrightarrow> find_sub pat s = None"
  by (subst count_matches.simps) (auto split: option.splits)

lemma edit_call_ok:
  assumes "edit_call E request h = (Inr res, h')"
  obtains args content pre post where
    "edit_tool_arguments_from_json (rq_arguments request) = Some args" "da_old_text args \<noteq> []"
    "fs_read_to_string h (da_path args) = Some content" "content = pre @ da_old_text args @ post"
    "find_sub (da_old_text args) content = Some (length pre)"
    "fs_write (da_path args) (pre @ da_new_text args @ post) h = (True, h')"
proof -
  obtain args where a: "edit_tool_arguments_from_json (rq_arguments request) = Some args"
    using assms by (auto simp: edit_call_def split: sum.splits)
  moreover have old: "da_old_text args \<noteq> []" using assms a by (auto simp: edit_call_def parse_tool_arguments_def)
  moreover obtain content where c: "fs_read_to_string h (da_path args) = Some content"
    using assms a old by (auto simp: edit_call_def parse_tool_arguments_def split: option.splits)
  moreover have "count_matches (da_old_text args) content \<noteq> 0"
    using assms a old c by (auto simp: edit_call_def parse_tool_arguments_def Let_def split: if_splits)
  then obtain i where i: "find_sub (da_old_text args) content = Some i"
    using count_matches_find [OF old, of content] by (cases "find_sub (da_old_text args) content") simp_all
  moreover obtain pre post where p: "content = pre @ da_old_text args @ post" "length pre = i"
    "replace_first (da_old_text args) (da_new_text args) content = pre @ da_new_text args @ post"
    using replace_first_at [OF i] by metis
  moreover have "fs_write (da_path args) (pre @ da_new_text args @ post) h = (True, h')"
    using assms a old c i count_matches_find [OF old, of content] p(3)
    by (auto simp: edit_call_def parse_tool_arguments_def Let_def split: prod.splits bool.splits)
  ultimately show ?thesis using that by blast
qed

text \<open>
  An edit is exact. When the edit tool succeeds, the file read as some text with the old text in it, it
  reads as the same text with the new text in the place of the first occurrence afterwards, and every path that
  names another file reads as before; when it fails, nothing changes.
\<close>
theorem edit_is_exact:
  assumes "edit_tool_arguments_from_json (rq_arguments request) = Some args" "edit_call E request h = (r, h')"
  shows "(case r of
      Inl _ \<Rightarrow> h' = h
    | Inr _ \<Rightarrow> (\<exists>pre post. fs_read_to_string h (da_path args) = Some (pre @ da_old_text args @ post)
        \<and> find_sub (da_old_text args) (pre @ da_old_text args @ post) = Some (length pre)
        \<and> fs_read_to_string h' (da_path args) = Some (pre @ da_new_text args @ post)
        \<and> (\<forall>q. file_target h q \<noteq> file_target h (da_path args) \<longrightarrow> fs_read_to_string h' q = fs_read_to_string h q)))"
proof (cases r)
  case (Inl e)
  have "h' = h"
    using assms unfolding Inl
    by (auto simp: edit_call_def Let_def dest: fs_write_failed split: sum.splits option.splits if_splits prod.splits bool.splits)
  then show ?thesis using Inl by simp
next
  case (Inr res)
  obtain content pre post where c:
    "fs_read_to_string h (da_path args) = Some content" "content = pre @ da_old_text args @ post"
    "find_sub (da_old_text args) content = Some (length pre)"
    "fs_write (da_path args) (pre @ da_new_text args @ post) h = (True, h')"
    using edit_call_ok [OF assms(2) [unfolded Inr]] assms(1) by (metis option.inject)
  obtain p where p: "file_target h (da_path args) = Some p"
    "h' = h\<lparr>hf_files := AList.update p (pre @ da_new_text args @ post) (hf_files h)\<rparr>"
    "fs_read_to_string h' (da_path args) = Some (pre @ da_new_text args @ post)"
    "\<forall>q. file_target h q \<noteq> Some p \<longrightarrow> fs_read_to_string h' q = fs_read_to_string h q"
    using c(4) by (rule fs_write_ok)
  show ?thesis unfolding Inr using c(1,2,3) p by auto
qed

definition demo_host :: host_fs where
  "demo_host = \<lparr>hf_cwd = [str ''w''], hf_dirs = [[str ''w'']], hf_files = [([str ''w'', str ''a''], str ''one two one'')], hf_links = []\<rparr>"

definition demo_edit :: tool_call_request where
  "demo_edit = \<lparr>rq_name = str ''edit'', rq_arguments = JObj [(str ''path'', JStr (str ''./a'')),
     (str ''old'', JStr (str ''one'')), (str ''new'', JStr (str ''1''))]\<rparr>"

theorem edit_is_exact_witness:
  "fs_read_to_string (snd (edit_call demo_tools_env demo_edit demo_host)) (str ''a'') = Some (str ''1 two one'')
   \<and> (\<exists>pre post. fs_read_to_string demo_host (str ''./a'') = Some (pre @ str ''one'' @ post))"
proof -
  let ?args = "\<lparr>da_path = str ''./a'', da_old_text = str ''one'', da_new_text = str ''1''\<rparr>"
  have a: "edit_tool_arguments_from_json (rq_arguments demo_edit) = Some ?args"
    by (simp add: edit_tool_arguments_from_json_def demo_edit_def canonical_def field_req_def)
  have w: "fs_write (str ''./a'') (str ''1 two one'') demo_host
    = (True, demo_host\<lparr>hf_files := [([str ''w'', str ''a''], str ''1 two one'')]\<rparr>)"
    by (simp add: fs_write_def file_target_def entry_target_def real_path_def path_parts_def path_start_def path_is_absolute_def demo_host_def
        dir_exists_def str_def)
  have c: "fs_read_to_string demo_host (str ''./a'') = Some (str ''one two one'')"
    by (simp add: fs_read_to_string_def file_target_def entry_target_def real_path_def path_parts_def path_start_def path_is_absolute_def demo_host_def
        dir_exists_def str_def)
  have n: "count_matches (str ''one'') (str ''one two one'') \<noteq> 0"
    using count_matches_find [of "str ''one''" "str ''one two one''"] by (simp add: str_def)
  have rep: "replace_first (str ''one'') (str ''1'') (str ''one two one'') = str ''1 two one''"
    by (simp add: replace_first_def str_def)
  obtain res where e: "edit_call demo_tools_env demo_edit demo_host
      = (Inr res, demo_host\<lparr>hf_files := [([str ''w'', str ''a''], str ''1 two one'')]\<rparr>)"
    using a c n rep w by (simp add: edit_call_def parse_tool_arguments_def)
  have "\<exists>pre post. fs_read_to_string demo_host (str ''./a'') = Some (pre @ str ''one'' @ post)"
    using edit_is_exact [OF a e] by auto
  then show ?thesis unfolding e
    by (simp add: fs_read_to_string_def file_target_def entry_target_def real_path_def path_parts_def path_start_def path_is_absolute_def demo_host_def
        dir_exists_def str_def)
qed

section \<open>Reading lines\<close>

lemma concat_split_inclusive: "concat (split_inclusive s) = s"
  by (induction s) (auto split: list.splits)

lemma split_inclusive_nonempty: "s \<noteq> [] \<Longrightarrow> split_inclusive s \<noteq> []"
  by (cases s) (auto split: list.splits)

lemma select_line_range_ok:
  assumes "0 < a" "a \<le> b" "a \<le> length (split_inclusive content)"
  shows "select_line_range content (Some a) (Some b) = Inr (concat (drop (a - 1) (take b (split_inclusive content))))"
  using assms by (auto simp: select_line_range_def Let_def min_def)

lemma drop_take_append:
  "a \<le> b \<Longrightarrow> b \<le> c \<Longrightarrow> drop a (take b xs) @ drop b (take c xs) = drop a (take c xs)"
proof -
  assume le: "a \<le> b" "b \<le> c"
  have "take b (take c xs) = take b xs" using le by (simp add: min_def)
  then have "take c xs = take b xs @ drop b (take c xs)" by (metis append_take_drop_id)
  then have "drop a (take c xs) = drop a (take b xs) @ drop (a - length (take b xs)) (drop b (take c xs))"
    by (metis drop_append)
  then show ?thesis using le by (cases "b \<le> length xs") simp_all
qed

text \<open>
  Reading a file by ranges of lines: two ranges that meet read what the range over both reads, and the range of
  all lines reads the file.
\<close>
theorem read_ranges_meet:
  assumes "0 < a" "a \<le> b" "b < c" "b < length (split_inclusive content)"
  shows "\<exists>x y. select_line_range content (Some a) (Some b) = Inr x
    \<and> select_line_range content (Some (b + 1)) (Some c) = Inr y
    \<and> select_line_range content (Some a) (Some c) = Inr (x @ y)
    \<and> select_line_range content (Some 1) (Some (length (split_inclusive content))) = Inr content"
proof -
  let ?ls = "split_inclusive content"
  have "concat (drop (a - 1) (take b ?ls)) @ concat (drop b (take c ?ls)) = concat (drop (a - 1) (take c ?ls))"
    using assms by (simp flip: concat_append add: drop_take_append)
  moreover have "select_line_range content (Some 1) (Some (length ?ls)) = Inr content"
    using assms select_line_range_ok [of 1 "length ?ls" content] by (simp add: concat_split_inclusive)
  ultimately show ?thesis
    using assms by (auto simp: select_line_range_ok)
qed

lemma write_then_read:
  assumes "write_call E request h = (Inr res, h')"
    "write_tool_arguments_from_json (rq_arguments request) = Some args"
  shows "fs_read_to_string h' (wa_path args) = Some (wa_content args)"
proof -
  obtain h1 where "fs_write (wa_path args) (wa_content args) h1 = (True, h')"
    using assms by (auto simp: write_call_def parse_tool_arguments_def split: prod.splits bool.splits)
  then show ?thesis by (rule fs_write_ok)
qed

end
