(* ===== verification/OJ_Skill.thy ===== *)
theory OJ_Skill
  imports OJ_File_Tools
begin

text \<open>
  Local skills: \<open>src/agent/tool/skill/registry.rs\<close> and \<open>tool.rs\<close> (discovery, the enabled flags, loading with
  referenced files, the \<open>load_skill\<close> tool) and \<open>src/skill/mod.rs\<close> (roots, curated installation, removal).

  The files are those of a \<open>host_fs\<close>; a \<open>PathBuf\<close> is its text. Reading YAML, downloading a skill and the fresh
  part of the name of a temporary file are parameters. A \<open>BTreeMap\<close> is an association list sorted by its keys.
\<close>

section \<open>Paths\<close>

text \<open>\<open>Path::join\<close>, \<open>Path::parent\<close> and the order of paths, which is that of their components.\<close>

definition path_join :: "rstring \<Rightarrow> rstring \<Rightarrow> rstring" where
  "path_join base p =
     (if path_is_absolute p then p else if base = [] \<or> last base = 47 then base @ p else base @ str ''/'' @ p)"

definition path_parent :: "rstring \<Rightarrow> rstring option" where
  "path_parent p =
     (let r = dropWhile (\<lambda>c. c = 47) (rev p) in
      if r = [] then None
      else
        let d = dropWhile (\<lambda>c. c \<noteq> 47) r; e = dropWhile (\<lambda>c. c = 47) d in
        Some (if d \<noteq> [] \<and> e = [] then str ''/'' else rev e))"

definition path_sort_key :: "rstring \<Rightarrow> (nat \<times> rstring) list" where
  "path_sort_key p =
     (if path_is_absolute p then [(1, [])] else [])
     @ (case path_parts p of [] \<Rightarrow> [] | part # _ \<Rightarrow> if part = str ''.'' then [(2, [])] else [])
     @ map (\<lambda>part. if part = str ''..'' then (3, []) else (4, part))
         (filter (\<lambda>part. part \<noteq> [] \<and> part \<noteq> str ''.'') (path_parts p))"

definition dir_target :: "host_fs \<Rightarrow> rstring \<Rightarrow> rstring list option" where
  "dir_target h path = (if path = [] then None else walk_dirs h (path_start h path) (path_parts path))"

definition is_file :: "host_fs \<Rightarrow> rstring \<Rightarrow> bool" where
  "is_file h path \<longleftrightarrow> fs_read_to_string h path \<noteq> None"

definition path_exists :: "host_fs \<Rightarrow> rstring \<Rightarrow> bool" where
  "path_exists h path \<longleftrightarrow> dir_target h path \<noteq> None \<or> is_file h path"

section \<open>Skill documents\<close>

record skill_manifest =
  sm_name :: rstring
  sm_description :: rstring
  sm_skill_dir :: rstring
  sm_skill_file :: rstring
  sm_enabled :: bool

record loaded_skill_file =
  lf_relative_path :: rstring
  lf_content :: rstring

record loaded_skill =
  lo_manifest :: skill_manifest
  lo_body :: rstring
  lo_referenced_files :: "loaded_skill_file list"

definition to_prompt :: "loaded_skill \<Rightarrow> rstring" where
  "to_prompt l =
     join [10, 10]
       ([str ''Loaded local skill `'' @ sm_name (lo_manifest l) @ str ''`.'',
         str ''Description: '' @ sm_description (lo_manifest l),
         str ''Use the following instructions for the current task when they are relevant.'']
        @ [if trim (lo_body l) = [] then str ''SKILL.md body: (empty)'' else str ''SKILL.md body:'' @ [10] @ lo_body l]
        @ (if lo_referenced_files l = [] then []
           else [join [10, 10] (map (\<lambda>f. str ''Referenced file `'' @ lf_relative_path f @ str ''`:'' @ [10] @ lf_content f)
                   (lo_referenced_files l))]))"

record skill_frontmatter =
  sf_name :: rstring
  sf_description :: rstring

record skill_env =
  se_yaml_from_str :: "rstring \<Rightarrow> err + skill_frontmatter"
  se_os_error :: rstring

definition trim_markdown_line :: "rstring \<Rightarrow> rstring" where
  "trim_markdown_line line = rev (dropWhile (\<lambda>c. c = 13 \<or> c = 10) (rev line))"

text \<open>The lines up to the closing fence, and the text after it.\<close>

fun frontmatter_lines :: "rstring \<Rightarrow> rstring list \<Rightarrow> (rstring \<times> rstring) option" where
  "frontmatter_lines frontmatter [] = None"
| "frontmatter_lines frontmatter (line # lines) =
     (if trim_markdown_line line = str ''---'' then Some (frontmatter, concat lines)
      else frontmatter_lines (frontmatter @ line) lines)"

definition skill_split_frontmatter :: "rstring \<Rightarrow> err + rstring \<times> rstring" where
  "skill_split_frontmatter raw =
     (case split_inclusive raw of
        [] \<Rightarrow> Inl (bail (str ''skill file must not be empty''))
      | first_line # lines \<Rightarrow>
          if trim_markdown_line first_line \<noteq> str ''---''
          then Inl (bail (str ''skill file must start with YAML frontmatter''))
          else
            (case frontmatter_lines [] lines of
               Some parts \<Rightarrow> Inr parts
             | None \<Rightarrow> Inl (bail (str ''skill file frontmatter is missing a closing `---` fence''))))"

definition parse_skill_document :: "skill_env \<Rightarrow> rstring \<Rightarrow> err + skill_frontmatter \<times> rstring" where
  "parse_skill_document Y raw =
     (case skill_split_frontmatter raw of
        Inl e \<Rightarrow> Inl e
      | Inr (frontmatter_raw, body_raw) \<Rightarrow>
     (case se_yaml_from_str Y frontmatter_raw of
        Inl e \<Rightarrow> Inl (err_context (str ''failed to parse skill frontmatter'') e)
      | Inr frontmatter \<Rightarrow>
          let name = trim (sf_name frontmatter); description = trim (sf_description frontmatter) in
          if name = [] then Inl (bail (str ''skill frontmatter `name` must not be blank''))
          else if description = [] then Inl (bail (str ''skill frontmatter `description` must not be blank''))
          else Inr (\<lparr>sf_name = name, sf_description = description\<rparr>, trim body_raw)))"

text \<open>Reading and parsing a skill file, the first step of both \<open>from_skill_file\<close> and \<open>load_skill_from_manifest\<close>.\<close>

definition read_skill_document :: "skill_env \<Rightarrow> host_fs \<Rightarrow> rstring \<Rightarrow> err + skill_frontmatter \<times> rstring" where
  "read_skill_document Y h skill_file =
     (case fs_read_to_string h skill_file of
        None \<Rightarrow> Inl (err_context (str ''failed to read skill file '' @ skill_file) (bail (se_os_error Y)))
      | Some raw \<Rightarrow>
          map_sum (err_context (str ''failed to parse skill file '' @ skill_file)) id (parse_skill_document Y raw))"

definition from_skill_file :: "skill_env \<Rightarrow> host_fs \<Rightarrow> rstring \<Rightarrow> err + skill_manifest" where
  "from_skill_file Y h skill_file =
     (case read_skill_document Y h skill_file of
        Inl e \<Rightarrow> Inl e
      | Inr (frontmatter, _) \<Rightarrow>
          (case path_parent skill_file of
             None \<Rightarrow> Inl (bail (str ''skill file '' @ skill_file @ str '' must live inside a dedicated directory''))
           | Some skill_dir \<Rightarrow>
               Inr \<lparr>sm_name = sf_name frontmatter, sm_description = sf_description frontmatter,
                    sm_skill_dir = skill_dir, sm_skill_file = skill_file, sm_enabled = True\<rparr>))"

section \<open>Discovery\<close>

definition SKILL_ENTRY_FILE_NAME :: rstring where
  "SKILL_ENTRY_FILE_NAME = str ''SKILL.md''"

definition files_below :: "host_fs \<Rightarrow> rstring list \<Rightarrow> rstring list list" where
  "files_below h d = map (drop (length d)) (filter (is_strict_prefix d) (map fst (hf_files h)))"

definition walk_skill_files :: "skill_env \<Rightarrow> host_fs \<Rightarrow> rstring \<Rightarrow> err + rstring list" where
  "walk_skill_files Y h dir =
     (case dir_target h dir of
        None \<Rightarrow> Inl (err_context (str ''failed to read skill dir '' @ dir) (bail (se_os_error Y)))
      | Some d \<Rightarrow> Inr (map (\<lambda>rel. path_join dir (join (str ''/'') rel))
                        (filter (\<lambda>rel. last rel = SKILL_ENTRY_FILE_NAME) (files_below h d))))"

fun discover_roots :: "skill_env \<Rightarrow> host_fs \<Rightarrow> rstring list \<Rightarrow> err + rstring list" where
  "discover_roots Y h [] = Inr []"
| "discover_roots Y h (base # roots) =
     (if \<not> path_exists h base then discover_roots Y h roots
      else
        (case walk_skill_files Y h base of
           Inl e \<Rightarrow> Inl e
         | Inr files \<Rightarrow> map_sum id (\<lambda>rest. files @ rest) (discover_roots Y h roots)))"

definition discover_skill_files :: "skill_env \<Rightarrow> host_fs \<Rightarrow> rstring list \<Rightarrow> err + rstring list" where
  "discover_skill_files Y h roots = map_sum id (sort_key path_sort_key) (discover_roots Y h roots)"

section \<open>The registry\<close>

record skill_registry =
  sy_roots :: "rstring list"
  sy_manifests :: "(rstring \<times> skill_manifest) list"

definition skill_registry_with_roots :: "rstring list \<Rightarrow> skill_registry" where
  "skill_registry_with_roots roots = \<lparr>sy_roots = roots, sy_manifests = []\<rparr>"

fun bt_insert :: "rstring \<Rightarrow> 'v \<Rightarrow> (rstring \<times> 'v) list \<Rightarrow> (rstring \<times> 'v) list" where
  "bt_insert k v [] = [(k, v)]"
| "bt_insert k v ((l, w) # m) =
     (if k < l then (k, v) # (l, w) # m else if k = l then (k, v) # m else (l, w) # bt_insert k v m)"

fun index_manifests ::
    "skill_env \<Rightarrow> host_fs \<Rightarrow> (rstring \<rightharpoonup> bool) \<Rightarrow> rstring list \<Rightarrow> (rstring \<times> skill_manifest) list
     \<Rightarrow> (rstring \<times> skill_manifest) list" where
  "index_manifests Y h previous_enabled [] manifests = manifests"
| "index_manifests Y h previous_enabled (skill_file # files) manifests =
     (case from_skill_file Y h skill_file of
        Inl _ \<Rightarrow> index_manifests Y h previous_enabled files manifests
      | Inr manifest0 \<Rightarrow>
          let manifest = manifest0\<lparr>sm_enabled :=
                (case previous_enabled (sm_name manifest0) of None \<Rightarrow> True | Some b \<Rightarrow> b)\<rparr> in
          if map_of manifests (sm_name manifest) \<noteq> None
          then index_manifests Y h previous_enabled files manifests
          else index_manifests Y h previous_enabled files (bt_insert (sm_name manifest) manifest manifests))"

definition skill_reload :: "skill_env \<Rightarrow> host_fs \<Rightarrow> skill_registry \<Rightarrow> (err + skill_manifest list) \<times> skill_registry" where
  "skill_reload Y h g =
     (let previous_enabled = (\<lambda>name. map_option sm_enabled (map_of (sy_manifests g) name)) in
      case discover_skill_files Y h (sy_roots g) of
        Inl e \<Rightarrow> (Inl e, g)
      | Inr files \<Rightarrow>
          let manifests = index_manifests Y h previous_enabled files [] in
          (Inr (map snd manifests), g\<lparr>sy_manifests := manifests\<rparr>))"

definition skill_list :: "skill_registry \<Rightarrow> skill_manifest list" where
  "skill_list g = map snd (sy_manifests g)"

definition skill_list_enabled :: "skill_registry \<Rightarrow> skill_manifest list" where
  "skill_list_enabled g = filter sm_enabled (map snd (sy_manifests g))"

definition has_enabled_skills :: "skill_registry \<Rightarrow> bool" where
  "has_enabled_skills g \<longleftrightarrow> list_ex sm_enabled (map snd (sy_manifests g))"

definition set_enabled :: "bool \<Rightarrow> rstring \<Rightarrow> skill_registry \<Rightarrow> (err + skill_manifest) \<times> skill_registry" where
  "set_enabled b name g =
     (case map_of (sy_manifests g) name of
        None \<Rightarrow> (Inl (bail (str ''local skill `'' @ name @ str ''` does not exist'')), g)
      | Some manifest \<Rightarrow>
          (Inr (manifest\<lparr>sm_enabled := b\<rparr>),
           g\<lparr>sy_manifests := AList.update name (manifest\<lparr>sm_enabled := b\<rparr>) (sy_manifests g)\<rparr>))"

definition skill_disable :: "rstring \<Rightarrow> skill_registry \<Rightarrow> (err + skill_manifest) \<times> skill_registry" where
  "skill_disable name g = set_enabled False name g"

definition skill_enable :: "rstring \<Rightarrow> skill_registry \<Rightarrow> (err + skill_manifest) \<times> skill_registry" where
  "skill_enable name g = set_enabled True name g"

text \<open>The selected names as the sorted set they are collected into.\<close>

definition restrict_to ::
    "skill_env \<Rightarrow> host_fs \<Rightarrow> rstring list \<Rightarrow> skill_registry \<Rightarrow> (err + skill_manifest list) \<times> skill_registry" where
  "restrict_to Y h names g =
     (if list_ex (\<lambda>name. trim name = []) names
      then (Inl (bail (str ''local skill name must not be blank'')), g)
      else
        let selected_names = sort (remdups (map trim names)) in
        (case skill_reload Y h g of
           (Inl e, g1) \<Rightarrow> (Inl e, g1)
         | (Inr discovered_manifests, g1) \<Rightarrow>
             (case find (\<lambda>selected_name. selected_name \<notin> set (map sm_name discovered_manifests)) selected_names of
                Some selected_name \<Rightarrow>
                  (Inl (bail (str ''local skill `'' @ selected_name @ str ''` does not exist'')), g1)
              | None \<Rightarrow>
                  let g2 = g1\<lparr>sy_manifests := map (\<lambda>(name, m). (name, m\<lparr>sm_enabled := sm_name m \<in> set selected_names\<rparr>))
                                (sy_manifests g1)\<rparr> in
                  (Inr (skill_list_enabled g2), g2))))"

section \<open>Loading\<close>

text \<open>The candidates between backticks and those in the parentheses of links, as a sorted set.\<close>

fun extract_backtick_candidates :: "bool \<Rightarrow> rstring \<Rightarrow> rstring \<Rightarrow> rstring list" where
  "extract_backtick_candidates in_backticks current [] = []"
| "extract_backtick_candidates in_backticks current (ch # body) =
     (if ch = 96 then
        (if in_backticks then (if trim current = [] then [] else [trim current]) @ extract_backtick_candidates False [] body
         else extract_backtick_candidates True current body)
      else if in_backticks then extract_backtick_candidates True (current @ [ch]) body
      else extract_backtick_candidates False current body)"

function extract_markdown_link_candidates :: "rstring \<Rightarrow> rstring list" where
  "extract_markdown_link_candidates remaining =
     (case find_sub (str '']('') remaining of
        None \<Rightarrow> []
      | Some open_index \<Rightarrow>
          let after_open = drop (open_index + 2) remaining in
          (case find_char 41 after_open of
             None \<Rightarrow> []
           | Some close_index \<Rightarrow>
               let candidate = trim (take close_index after_open) in
               (if candidate = [] then [] else [candidate])
               @ extract_markdown_link_candidates (drop (close_index + 1) after_open)))"
  by pat_completeness auto
termination
proof (relation "measure length")
  fix remaining open_index after_open close_index
  assume "find_char 41 after_open = Some close_index" "after_open = drop (open_index + 2) remaining"
  then show "(drop (close_index + 1) after_open, remaining) \<in> measure length"
    using find_char_bound [of 41 after_open close_index] by auto
qed simp

declare extract_markdown_link_candidates.simps [simp del]

definition extract_reference_candidates :: "rstring \<Rightarrow> rstring list" where
  "extract_reference_candidates body =
     sort (remdups (extract_backtick_candidates False [] body @ extract_markdown_link_candidates body))"

definition is_relative_skill_path :: "rstring \<Rightarrow> bool" where
  "is_relative_skill_path candidate \<longleftrightarrow>
     \<not> (trim candidate = [] \<or> starts_with candidate (str ''#'') \<or> find_sub (str ''://'') candidate \<noteq> None
        \<or> path_is_absolute candidate)
     \<and> list_all (\<lambda>part. part \<noteq> str ''..'') (path_parts candidate)"

text \<open>The canonical form of a path is the place it leads to when every symbolic link on it is followed.\<close>

fun load_references ::
    "skill_env \<Rightarrow> host_fs \<Rightarrow> rstring \<Rightarrow> rstring list \<Rightarrow> rstring list \<Rightarrow> err + loaded_skill_file list" where
  "load_references Y h skill_dir skill_root [] = Inr []"
| "load_references Y h skill_dir skill_root (candidate # candidates) =
     (if \<not> is_relative_skill_path candidate then load_references Y h skill_dir skill_root candidates
      else
        let candidate_path = path_join skill_dir candidate in
        (case Option.bind (file_target h candidate_path)
                (\<lambda>p. map_option (\<lambda>content. (p, content)) (map_of (hf_files h) p)) of
           None \<Rightarrow> load_references Y h skill_dir skill_root candidates
         | Some (canonical_target, content) \<Rightarrow>
             if take (length skill_root) canonical_target \<noteq> skill_root
             then Inl (bail (str ''referenced skill file '' @ candidate_path @ str '' escapes the skill directory''))
             else
               map_sum id (\<lambda>rest.
                 \<lparr>lf_relative_path = map (\<lambda>c. if c = 92 then 47 else c)
                    (join (str ''/'') (drop (length skill_root) canonical_target)), lf_content = content\<rparr> # rest)
                 (load_references Y h skill_dir skill_root candidates)))"

definition load_referenced_files :: "skill_env \<Rightarrow> host_fs \<Rightarrow> rstring \<Rightarrow> rstring \<Rightarrow> err + loaded_skill_file list" where
  "load_referenced_files Y h skill_dir body =
     (case dir_target h skill_dir of
        None \<Rightarrow> Inl (err_context (str ''failed to resolve skill dir '' @ skill_dir) (bail (se_os_error Y)))
      | Some skill_root \<Rightarrow> load_references Y h skill_dir skill_root (extract_reference_candidates body))"

definition load_skill_from_manifest :: "skill_env \<Rightarrow> host_fs \<Rightarrow> skill_manifest \<Rightarrow> err + loaded_skill" where
  "load_skill_from_manifest Y h manifest =
     (case read_skill_document Y h (sm_skill_file manifest) of
        Inl e \<Rightarrow> Inl e
      | Inr (_, body) \<Rightarrow>
          map_sum id (\<lambda>referenced_files. \<lparr>lo_manifest = manifest, lo_body = body, lo_referenced_files = referenced_files\<rparr>)
            (load_referenced_files Y h (sm_skill_dir manifest) body))"

definition skill_load :: "skill_env \<Rightarrow> host_fs \<Rightarrow> rstring \<Rightarrow> skill_registry \<Rightarrow> err + loaded_skill" where
  "skill_load Y h name g =
     (case map_of (sy_manifests g) name of
        None \<Rightarrow> Inl (bail (str ''local skill `'' @ name @ str ''` does not exist''))
      | Some manifest \<Rightarrow>
          if \<not> sm_enabled manifest then Inl (bail (str ''local skill `'' @ name @ str ''` is disabled''))
          else load_skill_from_manifest Y h manifest)"

definition skill_catalog_prompt :: "skill_registry \<Rightarrow> rstring option" where
  "skill_catalog_prompt g =
     (let enabled_manifests = skill_list_enabled g in
      if enabled_manifests = [] then None
      else Some (str ''You have access to local skills through the `load_skill` tool.'' @ [10]
        @ str ''Only call `load_skill` when one of the available skills is directly relevant.'' @ [10]
        @ str ''Do not assume any skill body before loading it.'' @ [10, 10] @ str ''Available local skills:'' @ [10]
        @ join [10] (map (\<lambda>m. str ''- '' @ sm_name m @ str '': '' @ sm_description m) enabled_manifests)))"

section \<open>The load\_skill tool\<close>

definition load_skill_arguments_from_json :: "json \<Rightarrow> rstring option" where
  "load_skill_arguments_from_json j =
     Option.bind (struct_fields [str ''name''] [] j) (\<lambda>m. field_req dec_string ''name'' m)"

definition load_skill_call ::
    "tools_env \<Rightarrow> skill_env \<Rightarrow> host_fs \<Rightarrow> skill_registry \<Rightarrow> tool_call_request \<Rightarrow> err + tool_call_result" where
  "load_skill_call E Y h g request =
     (case parse_tool_arguments E load_skill_arguments_from_json request ''load_skill'' of
        Inl e \<Rightarrow> Inl e
      | Inr name \<Rightarrow>
          let skill_name = trim name in
          if skill_name = [] then Inl (bail (str ''load_skill requires a non-empty `name`''))
          else
            map_sum id (\<lambda>l.
              \<lparr>rs_content = to_prompt l,
               rs_metadata = JObj [(str ''name'', JStr (sm_name (lo_manifest l))),
                 (str ''description'', JStr (sm_description (lo_manifest l))),
                 (str ''skill_file'', JStr (sm_skill_file (lo_manifest l))),
                 (str ''referenced_files'', JArr (map (JStr \<circ> lf_relative_path) (lo_referenced_files l))),
                 (str ''referenced_file_count'', JInt (int (length (lo_referenced_files l))))],
               rs_is_error = False\<rparr>) (skill_load Y h skill_name g))"

definition load_skill_definition :: "tools_env \<Rightarrow> tool_definition" where
  "load_skill_definition E = tool_definition_from_args E ''load_skill''
     (str ''Load one enabled local skill by exact name and return its full instructions plus referenced files.'')"

section \<open>Loaded files stay inside the skill\<close>

lemma walk_dirs_append:
  "walk_dirs h cur (ps @ qs) = Option.bind (walk_dirs h cur ps) (\<lambda>d. walk_dirs h d qs)"
  by (induction ps arbitrary: cur) (simp_all add: Let_def)

lemma path_parts_join_rel:
  assumes "\<not> path_is_absolute p" "base \<noteq> []" "last base \<noteq> 47"
  shows "path_parts (path_join base p) = path_parts base @ path_parts p"
proof -
  have "path_join base p = base @ 47 # p" using assms by (simp add: path_join_def str_def)
  then show ?thesis by (simp add: path_parts_def split_by_append)
qed

lemma path_parts_join_slash:
  assumes "\<not> path_is_absolute p" "base \<noteq> []" "last base = 47"
  shows "path_parts (path_join base p) = butlast (path_parts base) @ path_parts p" "last (path_parts base) = []"
proof -
  obtain b where b: "base = b @ [47]" using assms(2,3) by (metis append_butlast_last_id)
  have "path_parts base = path_parts b @ [[]]" by (simp add: b path_parts_def split_by_append)
  moreover have "path_join base p = b @ 47 # p" using assms(1) by (simp add: path_join_def b)
  ultimately show "path_parts (path_join base p) = butlast (path_parts base) @ path_parts p" "last (path_parts base) = []"
    by (simp_all add: path_parts_def split_by_append)
qed

lemma path_start_join:
  assumes "\<not> path_is_absolute p" "base \<noteq> []"
  shows "path_start h (path_join base p) = path_start h base"
  using assms by (cases base) (auto simp: path_start_def path_join_def path_is_absolute_def str_def)

lemma path_parts_nonempty [simp]: "path_parts p \<noteq> []"
  by (simp add: path_parts_def)

text \<open>A path below an existing directory is walked from there.\<close>

lemma path_parts_join_dir:
  assumes "dir_target h base = Some r" "\<not> path_is_absolute p"
  obtains qs where "path_parts (path_join base p) = qs @ path_parts p"
    "walk_dirs h (path_start h (path_join base p)) qs = Some r"
proof -
  have b: "base \<noteq> []" "walk_dirs h (path_start h base) (path_parts base) = Some r"
    using assms(1) by (auto simp: dir_target_def split: if_splits)
  show ?thesis
  proof (cases "last base = 47")
    case True
    have parts: "path_parts base = butlast (path_parts base) @ [[]]"
      using path_parts_join_slash(2) [OF assms(2) b(1) True] by (metis append_butlast_last_id path_parts_nonempty)
    then have "walk_dirs h (path_start h base) (butlast (path_parts base)) = Some r"
      using b(2) walk_dirs_append [of h "path_start h base" "butlast (path_parts base)" "[[]]"]
      by (cases "walk_dirs h (path_start h base) (butlast (path_parts base))") simp_all
    then show ?thesis
      using that path_parts_join_slash(1) [OF assms(2) b(1) True] path_start_join [OF assms(2) b(1), of h] by simp
  next
    case False
    then show ?thesis
      using that path_parts_join_rel [OF assms(2) b(1)] path_start_join [OF assms(2) b(1), of h] b(2) by simp
  qed
qed

lemma dir_target_join:
  assumes "dir_target h base = Some r" "\<not> path_is_absolute p" "p \<noteq> []"
  shows "dir_target h (path_join base p) = walk_dirs h r (path_parts p)"
proof -
  obtain qs where "path_parts (path_join base p) = qs @ path_parts p"
    "walk_dirs h (path_start h (path_join base p)) qs = Some r"
    using path_parts_join_dir [OF assms(1,2)] by blast
  moreover have "path_join base p \<noteq> []" using assms(2,3) by (simp add: path_join_def)
  ultimately show ?thesis by (simp add: dir_target_def walk_dirs_append)
qed






definition demo_skill_env :: skill_env where
  "demo_skill_env = \<lparr>se_yaml_from_str = (\<lambda>s. Inr \<lparr>sf_name = s, sf_description = str ''d''\<rparr>), se_os_error = []\<rparr>"

definition demo_skill_host :: host_fs where
  "demo_skill_host = \<lparr>hf_cwd = [str ''w''], hf_dirs = [[str ''w''], [str ''w'', str ''s'']],
     hf_files = [([str ''w'', str ''s'', str ''SKILL.md''], str ''---'' @ [10] @ str ''n'' @ [10] @ str ''---'' @ [10] @ str ''`a`''),
                 ([str ''w'', str ''s'', str ''a''], str ''x'')], hf_links = []\<rparr>"

definition demo_manifest :: skill_manifest where
  "demo_manifest = \<lparr>sm_name = str ''n'', sm_description = str ''d'', sm_skill_dir = str ''/w/s'',
     sm_skill_file = str ''/w/s/SKILL.md'', sm_enabled = True\<rparr>"









section \<open>Enabled flags\<close>

lemma map_of_bt_insert: "map_of (bt_insert k v m) = (map_of m)(k \<mapsto> v)"
  by (induction m) auto

lemma set_bt_insert: "map_of m k = None \<Longrightarrow> set (bt_insert k v m) = insert (k, v) (set m)"
  by (induction m) (auto split: if_splits)

lemma keys_bt_insert: "fst ` set (bt_insert k v m) = insert k (fst ` set m)"
  by (induction k v m rule: bt_insert.induct) (simp_all add: insert_commute)

lemma sorted_bt_insert: "sorted_wrt (<) (map fst m) \<Longrightarrow> sorted_wrt (<) (map fst (bt_insert k v m))"
proof (induction m)
  case (Cons e m)
  obtain l w where e: "e = (l, w)" by (cases e)
  have rest: "sorted_wrt (<) (map fst (bt_insert k v m))" using Cons by simp
  show ?case
    using Cons.prems rest keys_bt_insert [of k v m] unfolding e by (auto dest: less_trans)
qed simp

lemma bt_insert_map:
  "bt_insert k (f v) (map (\<lambda>(k, v). (k, f v)) m) = map (\<lambda>(k, v). (k, f v)) (bt_insert k v m)"
  by (induction m) auto

abbreviation flag :: "(rstring \<rightharpoonup> bool) \<Rightarrow> rstring \<Rightarrow> bool" where
  "flag prev name \<equiv> (case prev name of None \<Rightarrow> True | Some b \<Rightarrow> b)"

text \<open>The manifests are filed in the order of their names, each under its own.\<close>

definition skills_ok :: "(rstring \<times> skill_manifest) list \<Rightarrow> bool" where
  "skills_ok m \<longleftrightarrow> sorted_wrt (<) (map fst m) \<and> list_all (\<lambda>(name, manifest). sm_name manifest = name) m"

lemma skills_ok_insert:
  "skills_ok m \<Longrightarrow> map_of m (sm_name v) = None \<Longrightarrow> skills_ok (bt_insert (sm_name v) v m)"
  using sorted_bt_insert [of m "sm_name v" v] set_bt_insert [of m "sm_name v" v] by (auto simp: skills_ok_def list_all_iff)

lemma skills_ok_index: "skills_ok m \<Longrightarrow> skills_ok (index_manifests Y h prev files m)"
proof (induction files arbitrary: m)
  case (Cons f files)
  show ?case
  proof (cases "from_skill_file Y h f")
    case (Inr manifest)
    let ?v = "manifest\<lparr>sm_enabled := flag prev (sm_name manifest)\<rparr>"
    show ?thesis
      using Inr Cons.IH [OF Cons.prems] Cons.IH [OF skills_ok_insert [OF Cons.prems, of ?v]]
      by (cases "map_of m (sm_name manifest)") (simp_all add: Let_def)
  qed (use Cons in simp)
qed simp

lemma skills_ok_distinct: "skills_ok m \<Longrightarrow> distinct (map fst m)"
  by (simp add: skills_ok_def strict_sorted_iff)

text \<open>The flags do not matter for what is indexed.\<close>

definition with_flags :: "(rstring \<Rightarrow> bool) \<Rightarrow> (rstring \<times> skill_manifest) list \<Rightarrow> (rstring \<times> skill_manifest) list" where
  "with_flags f m = map (\<lambda>(name, manifest). (name, manifest\<lparr>sm_enabled := f (sm_name manifest)\<rparr>)) m"

lemma map_of_with_flags: "map_of (with_flags f m) = map_option (\<lambda>x. x\<lparr>sm_enabled := f (sm_name x)\<rparr>) \<circ> map_of m"
  by (rule ext, induction m) (auto simp: with_flags_def)

lemma index_with_flags:
  "index_manifests Y h prev files (with_flags (flag prev) m) = with_flags (flag prev) (index_manifests Y h Map.empty files m)"
proof (induction files arbitrary: m)
  case (Cons f files)
  show ?case
  proof (cases "from_skill_file Y h f")
    case (Inr manifest)
    let ?v = "manifest\<lparr>sm_enabled := True\<rparr>"
    have "bt_insert (sm_name manifest) (manifest\<lparr>sm_enabled := flag prev (sm_name manifest)\<rparr>) (with_flags (flag prev) m)
      = with_flags (flag prev) (bt_insert (sm_name manifest) ?v m)"
      using bt_insert_map [of "sm_name manifest" "\<lambda>x. x\<lparr>sm_enabled := flag prev (sm_name x)\<rparr>" ?v m]
      by (simp add: with_flags_def)
    then show ?thesis
      using Inr Cons.IH by (simp add: Let_def map_of_with_flags)
  qed (use Cons.IH in simp)
qed simp

lemma index_flags: "index_manifests Y h prev files [] = with_flags (flag prev) (index_manifests Y h Map.empty files [])"
  using index_with_flags [of Y h prev files "[]"] by (simp add: with_flags_def)

lemma with_flags_twice: "with_flags f (with_flags g m) = with_flags f m"
  by (auto simp: with_flags_def)

lemma with_flags_same:
  "\<forall>(name, manifest) \<in> set m. f (sm_name manifest) = sm_enabled manifest \<Longrightarrow> with_flags f m = m"
  by (induction m) (auto simp: with_flags_def)

lemma with_flags_cong:
  "(\<And>name manifest. (name, manifest) \<in> set m \<Longrightarrow> f (sm_name manifest) = g (sm_name manifest)) \<Longrightarrow> with_flags f m = with_flags g m"
  by (auto simp: with_flags_def)

lemma skills_ok_flags: "skills_ok (with_flags f m) = skills_ok m"
  by (simp add: skills_ok_def with_flags_def list_all_iff case_prod_unfold comp_def)

lemma reload_ok:
  assumes "skill_reload Y h g = (Inr ms, g')"
  obtains files where "discover_skill_files Y h (sy_roots g) = Inr files"
    "g' = g\<lparr>sy_manifests := index_manifests Y h (\<lambda>name. map_option sm_enabled (map_of (sy_manifests g) name)) files []\<rparr>"
    "ms = skill_list g'" "skills_ok (sy_manifests g')"
proof -
  obtain files where f: "discover_skill_files Y h (sy_roots g) = Inr files"
    using assms by (auto simp: skill_reload_def Let_def split: sum.splits)
  have g': "g' = g\<lparr>sy_manifests := index_manifests Y h (\<lambda>name. map_option sm_enabled (map_of (sy_manifests g) name)) files []\<rparr>"
    "ms = skill_list g'"
    using assms f by (auto simp: skill_reload_def Let_def skill_list_def)
  have "skills_ok []" by (simp add: skills_ok_def)
  from skills_ok_index [OF this, of Y h "\<lambda>name. map_option sm_enabled (map_of (sy_manifests g) name)" files]
  have "skills_ok (sy_manifests g')" by (simp add: g'(1))
  from that [OF f g' this] show ?thesis .
qed

text \<open>Over an unchanged disk a registry whose manifests are those indexed, up to their flags, reloads as itself.\<close>

lemma reload_same:
  assumes "discover_skill_files Y h (sy_roots g) = Inr files"
    and "sy_manifests g = with_flags f (index_manifests Y h prev files [])"
  shows "skill_reload Y h g = (Inr (skill_list g), g)"
proof -
  let ?base = "index_manifests Y h Map.empty files []"
  let ?prev = "\<lambda>name. map_option sm_enabled (map_of (sy_manifests g) name)"
  have m: "sy_manifests g = with_flags f ?base"
    using assms(2) by (simp add: index_flags [of Y h prev] with_flags_twice)
  have ok: "skills_ok ?base" by (rule skills_ok_index) (simp add: skills_ok_def)
  have "flag ?prev (sm_name x) = f (sm_name x)" if "(name, x) \<in> set ?base" for name x
  proof -
    have "sm_name x = name" using that ok by (auto simp: skills_ok_def list_all_iff)
    moreover have "map_of ?base name = Some x" using that skills_ok_distinct [OF ok] by simp
    ultimately show ?thesis by (simp add: m map_of_with_flags)
  qed
  then have same: "with_flags (flag ?prev) ?base = with_flags f ?base" by (rule with_flags_cong)
  have "index_manifests Y h ?prev files [] = sy_manifests g"
    by (rule trans [OF index_flags trans [OF same m [symmetric]]])
  then show ?thesis using assms(1) by (simp add: skill_reload_def skill_list_def)
qed

text \<open>
  A restriction enables exactly the selected skills. After it succeeds the enabled skills are those whose
  trimmed names were given, each once, and over an unchanged disk a reload leaves the registry as it is, so that
  no disabled skill comes back.
\<close>
theorem restricted_skills_are_the_selected:
  assumes "restrict_to Y h names g = (Inr ms, g')"
  shows "set (map sm_name ms) = set (map trim names) \<and> distinct (map sm_name ms)
    \<and> (\<forall>name. (case map_of (sy_manifests g') name of None \<Rightarrow> False | Some m \<Rightarrow> sm_enabled m) = (name \<in> set (map trim names)))
    \<and> skill_reload Y h g' = (Inr (skill_list g'), g')"
proof -
  let ?sel = "\<lambda>name. name \<in> set (map trim names)"
  obtain ds g1 where r: "skill_reload Y h g = (Inr ds, g1)"
    using assms by (auto simp: restrict_to_def Let_def split: if_splits prod.splits sum.splits)
  have all: "set (map trim names) \<subseteq> set (map sm_name ds)"
    and g': "g' = g1\<lparr>sy_manifests := with_flags ?sel (sy_manifests g1)\<rparr>" "ms = skill_list_enabled g'"
    using assms r by (auto simp: restrict_to_def Let_def with_flags_def find_None_iff split: if_splits option.splits)
  obtain files where f: "discover_skill_files Y h (sy_roots g) = Inr files"
    "g1 = g\<lparr>sy_manifests := index_manifests Y h (\<lambda>name. map_option sm_enabled (map_of (sy_manifests g) name)) files []\<rparr>"
    "ds = skill_list g1" "skills_ok (sy_manifests g1)"
    using reload_ok [OF r] by blast
  have names: "sm_name x = name" if "(name, x) \<in> set (sy_manifests g1)" for name x
    using that f(4) by (auto simp: skills_ok_def list_all_iff)
  have keys: "map sm_name (map snd (sy_manifests g1)) = map fst (sy_manifests g1)" using names by auto
  have ms: "ms = filter sm_enabled (map snd (with_flags ?sel (sy_manifests g1)))"
    using g' by (simp add: skill_list_enabled_def)
  have "set (map sm_name ms) = set (map trim names)"
    using all f(3) unfolding ms by (auto simp: with_flags_def skill_list_def image_iff) force
  moreover have "distinct (map sm_name ms)"
  proof -
    have "map sm_name (map snd (with_flags ?sel (sy_manifests g1))) = map fst (sy_manifests g1)"
      using keys by (simp add: with_flags_def case_prod_unfold comp_def)
    then have "distinct (map sm_name (map snd (with_flags ?sel (sy_manifests g1))))"
      using skills_ok_distinct [OF f(4)] by simp
    then show ?thesis unfolding ms by (rule distinct_map_filter)
  qed
  moreover have "(case map_of (sy_manifests g') name of None \<Rightarrow> False | Some m \<Rightarrow> sm_enabled m) = ?sel name" for name
  proof (cases "map_of (sy_manifests g1) name")
    case None
    then have "name \<notin> set (map fst (sy_manifests g1))" by (simp add: map_of_eq_None_iff)
    then have "\<not> ?sel name" using all keys f(3) by (auto simp: skill_list_def)
    then show ?thesis using None g'(1) by (simp add: map_of_with_flags)
  next
    case (Some x)
    then have "sm_name x = name" using names map_of_SomeD by fast
    then show ?thesis using Some g'(1) by (simp add: map_of_with_flags)
  qed
  moreover have "skill_reload Y h g' = (Inr (skill_list g'), g')"
    using f(1,2) g'(1) by (intro reload_same [of Y h g' files ?sel]) simp_all
  ultimately show ?thesis by blast
qed

lemma demo_discover: "discover_skill_files demo_skill_env demo_skill_host [str ''/w''] = Inr [str ''/w/s/SKILL.md'']"
proof -
  have d: "dir_target demo_skill_host (str ''/w'') = Some [str ''w'']"
    by (simp add: dir_target_def real_path_def path_parts_def path_start_def path_is_absolute_def demo_skill_host_def dir_exists_def str_def)
  have "files_below demo_skill_host [str ''w''] = [[str ''s'', str ''SKILL.md''], [str ''s'', str ''a'']]"
    by (simp add: files_below_def demo_skill_host_def is_strict_prefix_def)
  then have "walk_skill_files demo_skill_env demo_skill_host (str ''/w'') = Inr [str ''/w/s/SKILL.md'']"
    using d by (simp add: walk_skill_files_def SKILL_ENTRY_FILE_NAME_def) (simp add: path_join_def path_is_absolute_def str_def)
  then show ?thesis using d by (simp add: discover_skill_files_def path_exists_def)
qed

lemma demo_from_file: "from_skill_file demo_skill_env demo_skill_host (str ''/w/s/SKILL.md'') = Inr demo_manifest"
proof -
  have t: "trim (str ''n'' @ [10]) = str ''n''" "trim (str ''d'') = str ''d''" "trim (str ''`a`'') = str ''`a`''"
    by (simp_all add: str_def trim_def trim_start_def trim_end_def is_whitespace_def)
  have p: "parse_skill_document demo_skill_env (str ''---'' @ [10] @ str ''n'' @ [10] @ str ''---'' @ [10] @ str ''`a`'')
    = Inr (\<lparr>sf_name = str ''n'', sf_description = str ''d''\<rparr>, str ''`a`'')"
    using t by (simp add: parse_skill_document_def skill_split_frontmatter_def demo_skill_env_def
        trim_markdown_line_def Let_def str_def)
  have r: "fs_read_to_string demo_skill_host (str ''/w/s/SKILL.md'')
    = Some (str ''---'' @ [10] @ str ''n'' @ [10] @ str ''---'' @ [10] @ str ''`a`'')"
    by (simp add: fs_read_to_string_def file_target_def entry_target_def real_path_def path_parts_def path_start_def path_is_absolute_def demo_skill_host_def
        dir_exists_def str_def)
  have "path_parent (str ''/w/s/SKILL.md'') = Some (str ''/w/s'')" by (simp add: path_parent_def str_def)
  then show ?thesis using p r by (simp add: from_skill_file_def read_skill_document_def demo_manifest_def)
qed

theorem restricted_skills_are_the_selected_witness:
  "(case restrict_to demo_skill_env demo_skill_host [str '' n''] (skill_registry_with_roots [str ''/w'']) of
      (Inl _, _) \<Rightarrow> False
    | (Inr ms, g) \<Rightarrow> set (map sm_name ms) = {str ''n''} \<and> skill_reload demo_skill_env demo_skill_host g = (Inr (skill_list g), g))"
proof -
  have t: "trim (str '' n'') = str ''n''" by (simp add: str_def trim_def trim_start_def trim_end_def is_whitespace_def)
  have same: "demo_manifest\<lparr>sm_enabled := True\<rparr> = demo_manifest" by (simp add: demo_manifest_def)
  have r: "skill_reload demo_skill_env demo_skill_host (skill_registry_with_roots [str ''/w''])
    = (Inr [demo_manifest], \<lparr>sy_roots = [str ''/w''], sy_manifests = [(str ''n'', demo_manifest)]\<rparr>)"
    using demo_discover demo_from_file by (simp add: skill_reload_def skill_registry_with_roots_def Let_def same)
      (simp add: demo_manifest_def)
  have e: "restrict_to demo_skill_env demo_skill_host [str '' n''] (skill_registry_with_roots [str ''/w''])
    = (Inr [demo_manifest], \<lparr>sy_roots = [str ''/w''], sy_manifests = [(str ''n'', demo_manifest)]\<rparr>)"
    using r t by (simp add: restrict_to_def Let_def skill_list_enabled_def) (simp add: demo_manifest_def)
  show ?thesis using restricted_skills_are_the_selected [OF e] t by (simp add: e)
qed

end
