(* ===== verification/OJ_Skill_Install.thy ===== *)
theory OJ_Skill_Install
  imports OJ_Skill
begin

text \<open>
  Installing and removing local skills, \<open>src/skill/mod.rs\<close>. The state is the file system; the environment
  variable, the download and the fresh part of a temporary file name are parameters.
\<close>

section \<open>Roots\<close>

definition WORKSPACE_SKILL_ROOT_RELATIVE :: rstring where
  "WORKSPACE_SKILL_ROOT_RELATIVE = str ''.openjarvis/skills''"

definition workspace_skill_root_for :: "rstring \<Rightarrow> rstring" where
  "workspace_skill_root_for workspace_root = path_join workspace_root WORKSPACE_SKILL_ROOT_RELATIVE"

definition default_skill_roots_for_workspace :: "rstring \<Rightarrow> rstring list" where
  "default_skill_roots_for_workspace workspace_root = [workspace_skill_root_for workspace_root]"

definition list_local_skill_manifests :: "skill_env \<Rightarrow> rstring \<Rightarrow> host_fs \<Rightarrow> err + skill_manifest list" where
  "list_local_skill_manifests Y workspace_root h =
     fst (skill_reload Y h (skill_registry_with_roots [workspace_skill_root_for workspace_root]))"

section \<open>Removing files\<close>

definition fs_remove_file :: "rstring \<Rightarrow> host_fs \<Rightarrow> bool \<times> host_fs" where
  "fs_remove_file path h =
     (case entry_target h path of
        None \<Rightarrow> (False, h)
      | Some p \<Rightarrow>
          (if map_of (hf_links h) p \<noteq> None then (True, h\<lparr>hf_links := AList.delete p (hf_links h)\<rparr>)
           else if map_of (hf_files h) p = None then (False, h)
           else (True, h\<lparr>hf_files := AList.delete p (hf_files h)\<rparr>)))"

text \<open>\<open>rename\<close> moves the entry, a link or a file, over whatever link or file the new name is.\<close>

definition fs_rename :: "rstring \<Rightarrow> rstring \<Rightarrow> host_fs \<Rightarrow> bool \<times> host_fs" where
  "fs_rename old new h =
     (case (entry_target h old, entry_target h new) of
        (Some p, Some q) \<Rightarrow>
          if dir_exists h q then (False, h)
          else
            (case (map_of (hf_links h) p, map_of (hf_files h) p) of
               (Some place, _) \<Rightarrow>
                 (True, if p = q then h
                        else h\<lparr>hf_links := AList.update q place (AList.delete p (hf_links h)),
                               hf_files := AList.delete q (hf_files h)\<rparr>)
             | (None, Some content) \<Rightarrow>
                 (True, h\<lparr>hf_links := AList.delete q (hf_links h),
                          hf_files := AList.update q content (AList.delete p (hf_files h))\<rparr>)
             | (None, None) \<Rightarrow> (False, h))
      | _ \<Rightarrow> (False, h))"

text \<open>
  \<open>remove_dir_all\<close> empties the directory before it removes it; the system does not remove a directory by a
  path that ends in a dot, nor the root. Of a link it removes the link only.
\<close>

definition not_below :: "rstring list \<Rightarrow> rstring list \<Rightarrow> bool" where
  "not_below d p \<longleftrightarrow> \<not> is_strict_prefix d p"

definition link_at :: "host_fs \<Rightarrow> rstring \<Rightarrow> rstring list option" where
  "link_at h path = Option.bind (entry_target h path) (\<lambda>p. if map_of (hf_links h) p = None then None else Some p)"

definition remove_dir_all :: "rstring \<Rightarrow> host_fs \<Rightarrow> bool \<times> host_fs" where
  "remove_dir_all path h =
     (case link_at h path of
        Some p \<Rightarrow> (True, h\<lparr>hf_links := AList.delete p (hf_links h)\<rparr>)
      | None \<Rightarrow>
          (case dir_target h path of
             None \<Rightarrow> (False, h)
           | Some d \<Rightarrow>
               let h1 = h\<lparr>hf_files := filter (\<lambda>(p, _). not_below d p) (hf_files h),
                          hf_dirs := filter (not_below d) (hf_dirs h),
                          hf_links := filter (\<lambda>(p, _). not_below d p) (hf_links h)\<rparr>;
                   parts = filter (\<lambda>part. part \<noteq> []) (path_parts path) in
               if parts = [] \<or> last parts = str ''.'' \<or> last parts = str ''..'' \<or> d = [] then (False, h1)
               else (True, h1\<lparr>hf_dirs := removeAll d (hf_dirs h1)\<rparr>)))"

section \<open>Installing\<close>

record curated_skill_definition =
  cu_name :: rstring
  cu_skill_url :: rstring
  cu_skill_path_override_env :: "rstring option"

definition ACPX_SKILL_DEFINITION :: curated_skill_definition where
  "ACPX_SKILL_DEFINITION =
     \<lparr>cu_name = str ''acpx'',
      cu_skill_url = str ''https://raw.githubusercontent.com/openclaw/acpx/main/skills/acpx/SKILL.md'',
      cu_skill_path_override_env = Some (str ''OPENJARVIS_CURATED_SKILL_ACPX_PATH'')\<rparr>"

definition normalized_skill_name :: "rstring \<Rightarrow> err + rstring" where
  "normalized_skill_name skill_name =
     (if trim skill_name = [] then Inl (bail (str ''skill command requires a non-empty skill name''))
      else Inr (trim skill_name))"

definition find_curated_skill_definition :: "rstring \<Rightarrow> err + curated_skill_definition" where
  "find_curated_skill_definition skill_name =
     (case normalized_skill_name skill_name of
        Inl e \<Rightarrow> Inl e
      | Inr name \<Rightarrow>
          (if name = str ''acpx'' then Inr ACPX_SKILL_DEFINITION
           else Inl (bail (str ''unsupported curated skill `'' @ name @ str ''`; supported skills: acpx''))))"

record installed_skill =
  is_skill_name :: rstring
  is_skill_dir :: rstring
  is_skill_file :: rstring
  is_source_location :: rstring
  is_replaced_existing :: bool

record uninstalled_skill =
  us_skill_name :: rstring
  us_skill_dir :: rstring

text \<open>What a download answers: the request fails, or a status and a body, whose reading may fail.\<close>

datatype http_answer =
    HttpFailed err
  | HttpResponse nat rstring "err + rstring"

definition load_curated_skill_body ::
    "skill_env \<Rightarrow> (rstring \<Rightarrow> rstring option) \<Rightarrow> (rstring \<Rightarrow> http_answer) \<Rightarrow> host_fs \<Rightarrow> curated_skill_definition
     \<Rightarrow> err + rstring \<times> rstring" where
  "load_curated_skill_body Y env_var http_get h d =
     (let override = (case Option.bind (cu_skill_path_override_env d) env_var of
          Some path \<Rightarrow> trim path | None \<Rightarrow> []) in
      if override \<noteq> [] then
        (case fs_read_to_string h override of
           None \<Rightarrow> Inl (err_context (str ''failed to read curated skill `'' @ cu_name d @ str ''` from override path `''
                         @ override @ str ''`'') (bail (se_os_error Y)))
         | Some skill_body \<Rightarrow> Inr (override, skill_body))
      else
        (case http_get (cu_skill_url d) of
           HttpFailed e \<Rightarrow> Inl (err_context (str ''failed to download curated skill `'' @ cu_name d @ str ''`'') e)
         | HttpResponse status status_text body \<Rightarrow>
             if status \<noteq> 200
             then Inl (bail (str ''failed to download curated skill `'' @ cu_name d @ str ''` from `'' @ cu_skill_url d
                             @ str ''`: http '' @ status_text))
             else
               (case body of
                  Inl e \<Rightarrow> Inl (err_context (str ''failed to read response body for curated skill `'' @ cu_name d @ str ''`'') e)
                | Inr skill_body \<Rightarrow> Inr (cu_skill_url d, skill_body))))"

definition discard_temp :: "rstring \<Rightarrow> host_fs \<Rightarrow> host_fs" where
  "discard_temp temp_skill_file h = snd (fs_remove_file temp_skill_file h)"

text \<open>The steps after the downloaded text is in the temporary file.\<close>

definition promote_temp ::
    "skill_env \<Rightarrow> curated_skill_definition \<Rightarrow> rstring \<Rightarrow> rstring \<Rightarrow> rstring \<Rightarrow> host_fs \<Rightarrow> (err + installed_skill) \<times> host_fs" where
  "promote_temp Y d skill_dir final_skill_file temp_skill_file h =
     (let replaced_existing = path_exists h final_skill_file in
      case (if replaced_existing then fs_remove_file final_skill_file h else (True, h)) of
        (False, h1) \<Rightarrow>
          (Inl (err_context (str ''failed to replace existing skill file '' @ final_skill_file) (bail (se_os_error Y))), h1)
      | (True, h1) \<Rightarrow>
          (case fs_rename temp_skill_file final_skill_file h1 of
             (False, h2) \<Rightarrow>
               (Inl (err_context (str ''failed to promote temp skill file '' @ temp_skill_file @ str '' to '' @ final_skill_file)
                       (bail (se_os_error Y))), discard_temp temp_skill_file h2)
           | (True, h2) \<Rightarrow>
               (Inr \<lparr>is_skill_name = cu_name d, is_skill_dir = skill_dir, is_skill_file = final_skill_file,
                     is_source_location = cu_skill_url d, is_replaced_existing = replaced_existing\<rparr>, h2)))"

definition check_temp ::
    "skill_env \<Rightarrow> curated_skill_definition \<Rightarrow> rstring \<Rightarrow> host_fs \<Rightarrow> err + unit" where
  "check_temp Y d temp_skill_file h =
     (case from_skill_file Y h temp_skill_file of
        Inl e \<Rightarrow> Inl e
      | Inr manifest \<Rightarrow>
          if sm_name manifest \<noteq> cu_name d
          then Inl (bail (str ''downloaded skill manifest name `'' @ sm_name manifest
                 @ str ''` does not match requested curated skill `'' @ cu_name d @ str ''`''))
          else Inr ())"

definition install_curated_skill_from_contents ::
    "skill_env \<Rightarrow> rstring \<Rightarrow> rstring \<Rightarrow> rstring \<Rightarrow> rstring \<Rightarrow> host_fs \<Rightarrow> (err + installed_skill) \<times> host_fs" where
  "install_curated_skill_from_contents Y uuid skill_name workspace_root skill_body h =
     (case find_curated_skill_definition skill_name of
        Inl e \<Rightarrow> (Inl e, h)
      | Inr d \<Rightarrow>
          let skill_dir = path_join (workspace_skill_root_for workspace_root) (cu_name d);
              final_skill_file = path_join skill_dir SKILL_ENTRY_FILE_NAME;
              temp_skill_file = path_join skill_dir (str ''.skill-install-'' @ uuid @ str ''.tmp'') in
          (case create_dirs (path_start h skill_dir) (path_parts skill_dir) h of
             (False, h1) \<Rightarrow> (Inl (err_context (str ''failed to create skill dir '' @ skill_dir) (bail (se_os_error Y))), h1)
           | (True, h1) \<Rightarrow>
          (case fs_write temp_skill_file skill_body h1 of
             (False, h2) \<Rightarrow> (Inl (err_context (str ''failed to write temp skill file '' @ temp_skill_file) (bail (se_os_error Y))), h2)
           | (True, h2) \<Rightarrow>
          (case check_temp Y d temp_skill_file h2 of
             Inl e \<Rightarrow> (Inl e, discard_temp temp_skill_file h2)
           | Inr _ \<Rightarrow> promote_temp Y d skill_dir final_skill_file temp_skill_file h2))))"

definition install_curated_skill ::
    "skill_env \<Rightarrow> (rstring \<Rightarrow> rstring option) \<Rightarrow> (rstring \<Rightarrow> http_answer) \<Rightarrow> rstring \<Rightarrow> rstring \<Rightarrow> rstring \<Rightarrow> host_fs
     \<Rightarrow> (err + installed_skill) \<times> host_fs" where
  "install_curated_skill Y env_var http_get uuid skill_name workspace_root h =
     (case find_curated_skill_definition skill_name of
        Inl e \<Rightarrow> (Inl e, h)
      | Inr d \<Rightarrow>
     (case load_curated_skill_body Y env_var http_get h d of
        Inl e \<Rightarrow> (Inl e, h)
      | Inr (source_location, skill_body) \<Rightarrow>
     (case install_curated_skill_from_contents Y uuid (cu_name d) workspace_root skill_body h of
        (Inl e, h1) \<Rightarrow> (Inl e, h1)
      | (Inr installed, h1) \<Rightarrow> (Inr (installed\<lparr>is_source_location := source_location\<rparr>), h1))))"

section \<open>Uninstalling\<close>

definition uninstall_local_skill :: "skill_env \<Rightarrow> rstring \<Rightarrow> rstring \<Rightarrow> host_fs \<Rightarrow> (err + uninstalled_skill) \<times> host_fs" where
  "uninstall_local_skill Y skill_name workspace_root h =
     (case normalized_skill_name skill_name of
        Inl e \<Rightarrow> (Inl e, h)
      | Inr name \<Rightarrow>
          let skill_root = workspace_skill_root_for workspace_root; skill_dir = path_join skill_root name in
          if \<not> path_exists h skill_dir
          then (Inl (bail (str ''local skill `'' @ name @ str ''` is not installed under `'' @ skill_root @ str ''`'')), h)
          else
            (case (if dir_target h skill_dir \<noteq> None then remove_dir_all skill_dir h else fs_remove_file skill_dir h) of
               (False, h1) \<Rightarrow>
                 (Inl (err_context ((if dir_target h skill_dir \<noteq> None then str ''failed to remove skill dir ''
                                     else str ''failed to remove skill file '') @ skill_dir) (bail (se_os_error Y))), h1)
             | (True, h1) \<Rightarrow> (Inr \<lparr>us_skill_name = name, us_skill_dir = skill_dir\<rparr>, h1)))"

section \<open>Removing a skill, and more than a skill\<close>

lemma link_at_join:
  assumes "dir_target h base = Some r" "\<not> path_is_absolute p" "walk_dirs h r (path_parts p) = Some d"
    and "\<And>d'. walk_dirs h r (butlast (path_parts p)) = Some d' \<Longrightarrow> map_of (hf_links h) (d' @ [last (path_parts p)]) = None"
  shows "link_at h (path_join base p) = None"
proof -
  obtain qs where "path_parts (path_join base p) = qs @ path_parts p"
    "walk_dirs h (path_start h (path_join base p)) qs = Some r"
    using path_parts_join_dir [OF assms(1,2)] by blast
  then show ?thesis
    using assms(4) by (cases "walk_dirs h r (butlast (path_parts p))")
      (auto simp: link_at_def entry_target_def Let_def butlast_append walk_dirs_append)
qed

lemma uninstall_dir:
  assumes "trim name = name" "name \<noteq> []" "\<not> path_is_absolute name"
    and "dir_target h (workspace_skill_root_for w) = Some r" "walk_dirs h r (path_parts name) = Some d" "d \<noteq> []"
    and "last (filter (\<lambda>part. part \<noteq> []) (path_parts name)) \<noteq> str ''.''"
      "last (filter (\<lambda>part. part \<noteq> []) (path_parts name)) \<noteq> str ''..''" "filter (\<lambda>part. part \<noteq> []) (path_parts name) \<noteq> []"
    and "\<And>d'. walk_dirs h r (butlast (path_parts name)) = Some d' \<Longrightarrow> map_of (hf_links h) (d' @ [last (path_parts name)]) = None"
  shows "uninstall_local_skill Y name w h =
    (Inr \<lparr>us_skill_name = name, us_skill_dir = path_join (workspace_skill_root_for w) name\<rparr>,
     h\<lparr>hf_files := filter (\<lambda>(p, _). not_below d p) (hf_files h),
       hf_dirs := removeAll d (filter (not_below d) (hf_dirs h)),
       hf_links := filter (\<lambda>(p, _). not_below d p) (hf_links h)\<rparr>)"
proof -
  let ?dir = "path_join (workspace_skill_root_for w) name"
  have t: "dir_target h ?dir = Some d" using dir_target_join [OF assms(4,3,2)] assms(5) by simp
  obtain qs where "path_parts ?dir = qs @ path_parts name" using path_parts_join_dir [OF assms(4,3)] by blast
  then have "last (filter (\<lambda>part. part \<noteq> []) (path_parts ?dir)) = last (filter (\<lambda>part. part \<noteq> []) (path_parts name))"
    "filter (\<lambda>part. part \<noteq> []) (path_parts ?dir) \<noteq> []"
    using assms(9) by auto
  then have "remove_dir_all ?dir h = (True, h\<lparr>hf_files := filter (\<lambda>(p, _). not_below d p) (hf_files h),
       hf_dirs := removeAll d (filter (not_below d) (hf_dirs h)), hf_links := filter (\<lambda>(p, _). not_below d p) (hf_links h)\<rparr>)"
    using t assms(6-8) link_at_join [OF assms(4,3,5,10)] by (simp add: remove_dir_all_def Let_def)
  then show ?thesis
    using t assms(1,2) by (simp add: uninstall_local_skill_def normalized_skill_name_def path_exists_def Let_def)
qed

lemma skill_name_parts: "47 \<notin> set name \<Longrightarrow> path_parts name = [name]"
  unfolding path_parts_def by (rule split_by_none) auto

text \<open>A name that is one plain component names the directory of one skill, if it is no link.\<close>

lemma uninstall_removes_one_skill:
  assumes "trim name = name" "plain_part name"
    and "dir_target h (workspace_skill_root_for w) = Some r" "dir_exists h (r @ [name])"
    and "map_of (hf_links h) (r @ [name]) = None"
  shows "uninstall_local_skill Y name w h =
    (Inr \<lparr>us_skill_name = name, us_skill_dir = path_join (workspace_skill_root_for w) name\<rparr>,
     h\<lparr>hf_files := filter (\<lambda>(p, _). not_below (r @ [name]) p) (hf_files h),
       hf_dirs := removeAll (r @ [name]) (filter (not_below (r @ [name])) (hf_dirs h)),
       hf_links := filter (\<lambda>(p, _). not_below (r @ [name]) p) (hf_links h)\<rparr>)"
proof (rule uninstall_dir [OF assms(1) _ _ assms(3)])
  have n: "name \<noteq> []" "name \<noteq> str ''.''" "name \<noteq> str ''..''" "47 \<notin> set name"
    using assms(2) plain_part_nonempty by (auto simp: plain_part_def)
  then show "name \<noteq> []" "\<not> path_is_absolute name" by (cases name; simp add: path_is_absolute_def str_def)+
  have p: "path_parts name = [name]" using skill_name_parts n by blast
  show "walk_dirs h r (path_parts name) = Some (r @ [name])" using n assms(4,5) by (simp add: p real_path_def)
  show "map_of (hf_links h) (d' @ [last (path_parts name)]) = None"
    if "walk_dirs h r (butlast (path_parts name)) = Some d'" for d'
    using that assms(5) by (simp add: p)
  show "last (filter (\<lambda>part. part \<noteq> []) (path_parts name)) \<noteq> str ''.''"
    "last (filter (\<lambda>part. part \<noteq> []) (path_parts name)) \<noteq> str ''..''" "filter (\<lambda>part. part \<noteq> []) (path_parts name) \<noteq> []"
    using n by (simp_all add: p butlast_append)
qed simp

text \<open>
  Uninstalling a skill can remove what is no skill. The name is only trimmed before it is joined to the root
  of the skills, so that \<open>../memory\<close> removes every file of the memory repository of the workspace, and the command
  reports success.
\<close>
theorem uninstall_can_remove_the_memory:
  assumes "dir_target h (workspace_skill_root_for w) = Some (base @ [str ''skills''])"
    and "dir_exists h (base @ [str ''memory''])" and "map_of (hf_links h) (base @ [str ''memory'']) = None"
  shows "fst (uninstall_local_skill Y (str ''../memory'') w h)
      = Inr \<lparr>us_skill_name = str ''../memory'', us_skill_dir = path_join (workspace_skill_root_for w) (str ''../memory'')\<rparr>
    \<and> filter (\<lambda>(p, _). is_strict_prefix (base @ [str ''memory'']) p)
        (hf_files (snd (uninstall_local_skill Y (str ''../memory'') w h))) = []"
proof -
  have t: "trim (str ''../memory'') = str ''../memory''" by (rule trim_word, simp add: str_def is_whitespace_def)
  have p: "path_parts (str ''../memory'') = [str ''..'', str ''memory'']" by (simp add: path_parts_def str_def)
  have abs: "\<not> path_is_absolute (str ''../memory'')" by (simp add: path_is_absolute_def str_def)
  have up: "butlast (base @ [str ''skills'']) = base" by (rule butlast_snoc)
  have walked: "walk_dirs h (base @ [str ''skills'']) (path_parts (str ''../memory'')) = Some (base @ [str ''memory''])"
    unfolding p walk_dirs.simps up using assms(2,3) by (simp add: real_path_def)
  have "uninstall_local_skill Y (str ''../memory'') w h =
    (Inr \<lparr>us_skill_name = str ''../memory'', us_skill_dir = path_join (workspace_skill_root_for w) (str ''../memory'')\<rparr>,
     h\<lparr>hf_files := filter (\<lambda>(p, _). not_below (base @ [str ''memory'']) p) (hf_files h),
       hf_dirs := removeAll (base @ [str ''memory'']) (filter (not_below (base @ [str ''memory''])) (hf_dirs h)),
       hf_links := filter (\<lambda>(p, _). not_below (base @ [str ''memory'']) p) (hf_links h)\<rparr>)"
    using assms(3) by (intro uninstall_dir [OF t _ abs assms(1) walked]) (simp_all add: p up [simplified])
  then show ?thesis by (simp add: not_below_def case_prod_unfold)
qed

definition demo_workspace :: host_fs where
  "demo_workspace =
     \<lparr>hf_cwd = [],
      hf_dirs = [[str ''w''], [str ''w'', str ''.openjarvis''], [str ''w'', str ''.openjarvis'', str ''skills''],
                 [str ''w'', str ''.openjarvis'', str ''memory'']],
      hf_files = [([str ''w'', str ''.openjarvis'', str ''memory'', str ''a.md''], str ''x'')], hf_links = []\<rparr>"

theorem uninstall_can_remove_the_memory_witness:
  "hf_files demo_workspace \<noteq> []
   \<and> filter (\<lambda>(p, _). is_strict_prefix [str ''w'', str ''.openjarvis'', str ''memory''] p)
       (hf_files (snd (uninstall_local_skill demo_skill_env (str ''../memory'') (str ''/w'') demo_workspace))) = []"
proof -
  have d: "dir_target demo_workspace (workspace_skill_root_for (str ''/w'')) = Some ([str ''w'', str ''.openjarvis''] @ [str ''skills''])"
    by (simp add: workspace_skill_root_for_def WORKSPACE_SKILL_ROOT_RELATIVE_def path_join_def dir_target_def real_path_def path_parts_def
        path_start_def path_is_absolute_def demo_workspace_def dir_exists_def str_def)
  have "dir_exists demo_workspace ([str ''w'', str ''.openjarvis''] @ [str ''memory''])"
    by (simp add: dir_exists_def demo_workspace_def)
  moreover have "map_of (hf_links demo_workspace) ([str ''w'', str ''.openjarvis''] @ [str ''memory'']) = None"
    by (simp add: demo_workspace_def)
  ultimately have "fst (uninstall_local_skill demo_skill_env (str ''../memory'') (str ''/w'') demo_workspace) \<noteq> Inl e"
    and "filter (\<lambda>(p, _). is_strict_prefix ([str ''w'', str ''.openjarvis''] @ [str ''memory'']) p)
        (hf_files (snd (uninstall_local_skill demo_skill_env (str ''../memory'') (str ''/w'') demo_workspace))) = []" for e
    using uninstall_can_remove_the_memory [OF d, of demo_skill_env] by simp_all
  then show ?thesis by (simp add: demo_workspace_def)
qed

section \<open>A refused installation\<close>

lemma create_dirs_files: "create_dirs cur parts h = (ok, h') \<Longrightarrow> hf_files h' = hf_files h"
proof (induction parts arbitrary: cur h)
  case (Cons part parts)
  then show ?case by (auto simp: Let_def split: if_splits dest!: Cons.IH)
qed simp

lemma delete_update_fresh: "map_of al k = None \<Longrightarrow> AList.delete k (AList.update k v al) = al"
  by (induction al) (auto simp: AList.delete_eq)

lemma discard_written:
  assumes "fs_write temp body h1 = (True, h2)"
    and "\<And>p. entry_target h1 temp = Some p \<Longrightarrow> map_of (hf_files h1) p = None \<and> map_of (hf_links h1) p = None"
  shows "hf_files (discard_temp temp h2) = hf_files h1"
proof -
  obtain p0 where p0: "file_target h1 temp = Some p0" "h2 = h1\<lparr>hf_files := AList.update p0 body (hf_files h1)\<rparr>"
    using fs_write_ok [OF assms(1)] by metis
  obtain p where entry: "entry_target h1 temp = Some p" "p0 = real_path h1 p"
    using p0(1) by (auto simp: file_target_def)
  have none: "map_of (hf_files h1) p = None" "map_of (hf_links h1) p = None" using assms(2) [OF entry(1)] by simp_all
  then have p: "h2 = h1\<lparr>hf_files := AList.update p body (hf_files h1)\<rparr>" using p0(2) entry(2) by (simp add: real_path_def)
  have "entry_target h2 temp = Some p"
    using entry(1) entry_target_dirs [of h2 h1] by (simp add: p)
  then have "fs_remove_file temp h2 = (True, h2\<lparr>hf_files := AList.delete p (hf_files h2)\<rparr>)"
    by (simp add: fs_remove_file_def p none(2) update_conv')
  then show ?thesis using delete_update_fresh [OF none(1)] by (simp add: discard_temp_def p)
qed

text \<open>
  An installation whose text is no skill of the requested name is refused and leaves the files as they were: the
  temporary file is removed again.
\<close>
theorem refused_install_changes_no_file:
  assumes "find_curated_skill_definition skill_name = Inr d"
    and "skill_dir = path_join (workspace_skill_root_for w) (cu_name d)"
    and "temp = path_join skill_dir (str ''.skill-install-'' @ uuid @ str ''.tmp'')"
    and "create_dirs (path_start h skill_dir) (path_parts skill_dir) h = (True, h1)"
    and "fs_write temp skill_body h1 = (True, h2)" "check_temp Y d temp h2 = Inl e"
    and "\<And>p. entry_target h1 temp = Some p \<Longrightarrow> map_of (hf_files h1) p = None \<and> map_of (hf_links h1) p = None"
  shows "fst (install_curated_skill_from_contents Y uuid skill_name w skill_body h) = Inl e
    \<and> hf_files (snd (install_curated_skill_from_contents Y uuid skill_name w skill_body h)) = hf_files h"
proof -
  have "install_curated_skill_from_contents Y uuid skill_name w skill_body h = (Inl e, discard_temp temp h2)"
    using assms(1-6) by (simp add: install_curated_skill_from_contents_def Let_def)
  then show ?thesis
    using discard_written [OF assms(5,7)] create_dirs_files [OF assms(4)] by simp
qed

end
