(* ===== verification/OJ_Memory_Tools.thy ===== *)
theory OJ_Memory_Tools
  imports OJ_Tool_Args OJ_Memory
begin

text \<open>
  The \<open>memory\<close> toolset, \<open>src/agent/memory/tool.rs\<close>: four tools that read their arguments, call the repository
  and answer the result as printed JSON. The state is the files of the repository.
\<close>

section \<open>Arguments\<close>

text \<open>A unit variant in lower case, as a string or as an object from its name to null.\<close>

fun dec_memory_type :: "json \<Rightarrow> memory_type option" where
  "dec_memory_type (JStr s) = (if s = str ''active'' then Some Active else if s = str ''passive'' then Some Passive else None)"
| "dec_memory_type (JObj [(k, JNull)]) =
     (if k = str ''active'' then Some Active else if k = str ''passive'' then Some Passive else None)"
| "dec_memory_type _ = None"

record memory_get_arguments =
  mg_path :: rstring
  mg_memory_type :: memory_type

record memory_search_arguments =
  mq_query :: rstring
  mq_memory_type :: "memory_type option"
  mq_limit :: "nat option"

record memory_write_arguments =
  ma_path :: rstring
  ma_title :: rstring
  ma_content :: rstring
  ma_memory_type :: "memory_type option"
  ma_keywords :: "rstring list option"

record memory_list_arguments =
  ml_memory_type :: "memory_type option"
  ml_dir :: "rstring option"

definition memory_get_arguments_from_json :: "json \<Rightarrow> memory_get_arguments option" where
  "memory_get_arguments_from_json j =
     Option.bind (struct_fields [str ''path'', str ''type''] [] j) (\<lambda>m.
     Option.bind (field_req dec_string ''path'' m) (\<lambda>path.
     Option.bind (field_req dec_memory_type ''type'' m) (\<lambda>memory_type.
     Some \<lparr>mg_path = path, mg_memory_type = memory_type\<rparr>)))"

definition memory_search_arguments_from_json :: "json \<Rightarrow> memory_search_arguments option" where
  "memory_search_arguments_from_json j =
     Option.bind (struct_fields [str ''query'', str ''type'', str ''limit''] [] j) (\<lambda>m.
     Option.bind (field_req dec_string ''query'' m) (\<lambda>query.
     Option.bind (field_opt dec_memory_type ''type'' m) (\<lambda>memory_type.
     Option.bind (field_opt dec_u64 ''limit'' m) (\<lambda>limit.
     Some \<lparr>mq_query = query, mq_memory_type = memory_type, mq_limit = limit\<rparr>))))"

definition memory_write_arguments_from_json :: "json \<Rightarrow> memory_write_arguments option" where
  "memory_write_arguments_from_json j =
     Option.bind (struct_fields [str ''path'', str ''title'', str ''content'', str ''type'', str ''keywords''] [] j) (\<lambda>m.
     Option.bind (field_req dec_string ''path'' m) (\<lambda>path.
     Option.bind (field_req dec_string ''title'' m) (\<lambda>title.
     Option.bind (field_req dec_string ''content'' m) (\<lambda>content.
     Option.bind (field_opt dec_memory_type ''type'' m) (\<lambda>memory_type.
     Option.bind (field_opt (dec_list dec_string) ''keywords'' m) (\<lambda>kws.
     Some \<lparr>ma_path = path, ma_title = title, ma_content = content, ma_memory_type = memory_type, ma_keywords = kws\<rparr>))))))"

definition memory_list_arguments_from_json :: "json \<Rightarrow> memory_list_arguments option" where
  "memory_list_arguments_from_json j =
     Option.bind (struct_fields [str ''type'', str ''dir''] [] j) (\<lambda>m.
     Option.bind (field_opt dec_memory_type ''type'' m) (\<lambda>memory_type.
     Option.bind (field_opt dec_string ''dir'' m) (\<lambda>dir.
     Some \<lparr>ml_memory_type = memory_type, ml_dir = dir\<rparr>)))"

section \<open>Results\<close>

definition memory_type_json :: "memory_type \<Rightarrow> json" where
  "memory_type_json t = JStr (as_dir_name t)"

text \<open>\<open>skip_serializing_if = Vec::is_empty\<close>.\<close>

definition keywords_field :: "rstring list \<Rightarrow> (rstring \<times> json) list" where
  "keywords_field ks = (if ks = [] then [] else [(str ''keywords'', JArr (map JStr ks))])"

definition memory_document_json :: "tools_env \<Rightarrow> memory_document \<Rightarrow> json" where
  "memory_document_json E d =
     JObj [(str ''type'', memory_type_json (md_memory_type d)), (str ''path'', JStr (md_path d)),
           (str ''metadata'', JObj ([(str ''title'', JStr (mm_title (md_metadata d))),
              (str ''created_at'', JStr (te_time_json E (mm_created_at (md_metadata d)))),
              (str ''updated_at'', JStr (te_time_json E (mm_updated_at (md_metadata d))))]
              @ keywords_field (mm_keywords (md_metadata d)))),
           (str ''content'', JStr (md_content d))]"

definition memory_summary_json :: "tools_env \<Rightarrow> memory_document_summary \<Rightarrow> json" where
  "memory_summary_json E s =
     JObj ([(str ''type'', memory_type_json (ms_memory_type s)), (str ''path'', JStr (ms_path s)),
            (str ''title'', JStr (ms_title s)), (str ''updated_at'', JStr (te_time_json E (ms_updated_at s)))]
           @ keywords_field (ms_keywords s))"

definition build_success_result :: "tools_env \<Rightarrow> string \<Rightarrow> rstring \<Rightarrow> json \<Rightarrow> err + tool_call_result" where
  "build_success_result E tool_name path payload =
     (case te_pretty E payload of
        Inl e \<Rightarrow> Inl (err_context (str ''failed to render structured memory tool output'') e)
      | Inr content \<Rightarrow>
          Inr \<lparr>rs_content = content,
               rs_metadata = JObj [(str ''toolset'', JStr (str ''memory'')), (str ''event_kind'', JStr (str tool_name)),
                                   (str ''path'', JStr path), (str ''result'', payload)],
               rs_is_error = False\<rparr>)"

section \<open>The four tools\<close>

definition memory_get_call :: "tools_env \<Rightarrow> memory_env \<Rightarrow> tool_call_request \<Rightarrow> (memory_fs, tool_call_result) act" where
  "memory_get_call E M request fs =
     ((case parse_tool_arguments E memory_get_arguments_from_json request ''memory_get'' of
         Inl e \<Rightarrow> Inl e
       | Inr args \<Rightarrow>
      (case memory_get M (mg_memory_type args) (mg_path args) fs of
         Inl e \<Rightarrow> Inl e
       | Inr document \<Rightarrow> build_success_result E ''memory_get'' (md_path document) (memory_document_json E document))), fs)"

definition memory_search_call :: "tools_env \<Rightarrow> memory_env \<Rightarrow> tool_call_request \<Rightarrow> (memory_fs, tool_call_result) act" where
  "memory_search_call E M request fs =
     ((case parse_tool_arguments E memory_search_arguments_from_json request ''memory_search'' of
         Inl e \<Rightarrow> Inl e
       | Inr args \<Rightarrow>
      (case memory_search M (mq_query args) (mq_memory_type args) (case mq_limit args of None \<Rightarrow> 10 | Some n \<Rightarrow> n) fs of
         Inl e \<Rightarrow> Inl e
       | Inr response \<Rightarrow>
           build_success_result E ''memory_search'' []
             (JObj [(str ''query'', JStr (sr_query response)), (str ''total_matches'', JInt (int (sr_total_matches response))),
                    (str ''items'', JArr (map (memory_summary_json E) (sr_items response)))]))), fs)"

definition memory_write_call :: "tools_env \<Rightarrow> memory_env \<Rightarrow> tool_call_request \<Rightarrow> (memory_fs, tool_call_result) act" where
  "memory_write_call E M request fs =
     (case parse_tool_arguments E memory_write_arguments_from_json request ''memory_write'' of
        Inl e \<Rightarrow> (Inl e, fs)
      | Inr args \<Rightarrow>
     (case memory_write M \<lparr>mw_memory_type = (case ma_memory_type args of None \<Rightarrow> Passive | Some t \<Rightarrow> t), mw_path = ma_path args,
              mw_title = ma_title args, mw_content = ma_content args, mw_keywords = ma_keywords args\<rparr> fs of
        (Inl e, fs1) \<Rightarrow> (Inl e, fs1)
      | (Inr document, fs1) \<Rightarrow>
          (build_success_result E ''memory_write'' (md_path document)
             (JObj [(str ''type'', memory_type_json (md_memory_type document)), (str ''path'', JStr (md_path document)),
                    (str ''title'', JStr (mm_title (md_metadata document))),
                    (str ''created_at'', JStr (te_time_json E (mm_created_at (md_metadata document)))),
                    (str ''updated_at'', JStr (te_time_json E (mm_updated_at (md_metadata document)))),
                    (str ''keywords'', JArr (map JStr (mm_keywords (md_metadata document))))]), fs1)))"

definition memory_list_call :: "tools_env \<Rightarrow> memory_env \<Rightarrow> tool_call_request \<Rightarrow> (memory_fs, tool_call_result) act" where
  "memory_list_call E M request fs =
     ((case parse_tool_arguments E memory_list_arguments_from_json request ''memory_list'' of
         Inl e \<Rightarrow> Inl e
       | Inr args \<Rightarrow>
      (case memory_list M (ml_memory_type args) (ml_dir args) fs of
         Inl e \<Rightarrow> Inl e
       | Inr items \<Rightarrow>
           build_success_result E ''memory_list'' (case ml_dir args of None \<Rightarrow> [] | Some d \<Rightarrow> d)
             (JObj [(str ''type'', jopt memory_type_json (ml_memory_type args)), (str ''dir'', jopt JStr (ml_dir args)),
                    (str ''items'', JArr (map (memory_summary_json E) items))]))), fs)"

definition memory_tool ::
    "tools_env \<Rightarrow> string \<Rightarrow> rstring \<Rightarrow> (tool_call_request \<Rightarrow> (memory_fs, tool_call_result) act) \<Rightarrow> memory_fs tool_handler" where
  "memory_tool E name description call =
     \<lparr>hd_definition = tool_definition_from_args E name description, hd_call = (\<lambda>_. call)\<rparr>"

definition memory_tools :: "tools_env \<Rightarrow> memory_env \<Rightarrow> memory_fs tool_handler list" where
  "memory_tools E M =
     [memory_tool E ''memory_get''
        (str ''Read one memory markdown document by explicit `type + path` and return metadata plus body content.'')
        (memory_get_call E M),
      memory_tool E ''memory_search''
        (str ''Search memory titles, keywords, paths, and bodies. Returns structured candidates only, not full document bodies.'')
        (memory_search_call E M),
      memory_tool E ''memory_write''
        (str ''Write one memory markdown document. Defaults to `passive`; `active` writes must include non-empty `keywords`, and those keywords must be explicit, highly specific names directly provided by the user. Do not invent extra keywords; if the user did not specify them, ask first.'')
        (memory_write_call E M),
      memory_tool E ''memory_list''
        (str ''List structured memory candidates by optional `type` and optional directory prefix. Does not return full document bodies.'')
        (memory_list_call E M)]"

definition memory_toolset_entry :: toolset_catalog_entry where
  "memory_toolset_entry = \<lparr>tce_name = str ''memory'',
     tce_description = str ''Local active/passive memory tools backed by ./.openjarvis/memory markdown files.''\<rparr>"

definition register_memory_toolset ::
    "'e tool_handler list \<Rightarrow> 'e tool_registry \<Rightarrow> err + 'e tool_registry" where
  "register_memory_toolset handlers g =
     (if toolset_registered (str ''memory'') g then Inr g
      else register_toolset_with_runtime memory_toolset_entry handlers None g)"

section \<open>Only writing changes the repository\<close>

text \<open>
  The tools for reading leave the files as they are, and a call of \<open>memory_write\<close> does what one write of the
  repository does to them, if it gets that far.
\<close>

lemma reading_tools_change_nothing:
  "snd (memory_get_call E M request fs) = fs" "snd (memory_search_call E M request fs) = fs"
  "snd (memory_list_call E M request fs) = fs"
  by (simp_all add: memory_get_call_def memory_search_call_def memory_list_call_def)

lemma memory_write_call_fs:
  "snd (memory_write_call E M request fs) = fs \<or> (\<exists>w. snd (memory_write_call E M request fs) = snd (memory_write M w fs))"
proof (cases "parse_tool_arguments E memory_write_arguments_from_json request ''memory_write''")
  case (Inr args)
  let ?w = "\<lparr>mw_memory_type = (case ma_memory_type args of None \<Rightarrow> Passive | Some t \<Rightarrow> t), mw_path = ma_path args,
      mw_title = ma_title args, mw_content = ma_content args, mw_keywords = ma_keywords args\<rparr>"
  have "snd (memory_write_call E M request fs) = snd (memory_write M ?w fs)"
    unfolding memory_write_call_def Inr sum.case by (auto split: sum.splits prod.splits)
  then show ?thesis by blast
qed (simp add: memory_write_call_def)

end
