(* ===== verification/OJ_Command_Session.thy ===== *)
theory OJ_Command_Session
  imports OJ_File_Tools
begin

text \<open>
  Background command sessions: \<open>src/agent/tool/command/session.rs\<close>, \<open>output.rs\<close>, \<open>tool.rs\<close> and the events of
  \<open>process.rs\<close>.

  A session is a snapshot and a runtime: the channel of events its process has sent, the bytes sent to its
  standard input, the number of the next chunk and the output not read yet. The process is the environment: its
  events are put into the channel by \<open>arrive\<close> between calls, and a call that waits is given, for each time it
  receives, the events that have arrived by then (none, when the deadline or the end of the channel comes first).
  The wall clock, the uuid of a session, the start of a process and the printing of floats are parameters.
\<close>

section \<open>Requests, snapshots, results\<close>

definition DEFAULT_YIELD_TIME_MS :: nat where
  "DEFAULT_YIELD_TIME_MS = 1000"

definition DEFAULT_COMMAND_THREAD_ID :: rstring where
  "DEFAULT_COMMAND_THREAD_ID = str ''__standalone_command_thread__''"

record command_execution_request =
  ce_cmd :: rstring
  ce_workdir :: "rstring option"
  ce_shell :: "rstring option"
  ce_tty :: bool
  ce_yield_time_ms :: nat
  ce_max_output_tokens :: "nat option"

definition command_execution_request_new :: "rstring \<Rightarrow> command_execution_request" where
  "command_execution_request_new cmd =
     \<lparr>ce_cmd = cmd, ce_workdir = None, ce_shell = None, ce_tty = False,
      ce_yield_time_ms = DEFAULT_YIELD_TIME_MS, ce_max_output_tokens = None\<rparr>"

record command_write_request =
  cw_session_id :: rstring
  cw_chars :: rstring
  cw_yield_time_ms :: nat
  cw_max_output_tokens :: "nat option"

definition command_write_request_new :: "rstring \<Rightarrow> command_write_request" where
  "command_write_request_new session_id =
     \<lparr>cw_session_id = session_id, cw_chars = [], cw_yield_time_ms = DEFAULT_YIELD_TIME_MS, cw_max_output_tokens = None\<rparr>"

datatype command_task_status = Doing | Done

fun task_status_as_str :: "command_task_status \<Rightarrow> rstring" where
  "task_status_as_str Doing = str ''Doing''"
| "task_status_as_str Done = str ''Done''"

record command_task_snapshot =
  ts_thread_id :: rstring
  ts_session_id :: rstring
  ts_status :: command_task_status
  ts_command :: rstring
  ts_has_unread_output :: bool
  ts_exit_code :: "int option"
  ts_updated_at :: time

text \<open>The wall time is kept in the units of the clock.\<close>

record command_execution_result =
  cr_command :: rstring
  cr_chunk_id :: u64
  cr_wall_time :: nat
  cr_exit_code :: "int option"
  cr_session_id :: "rstring option"
  cr_original_token_count :: nat
  cr_output :: rstring
  cr_running :: bool

datatype process_event = Output rstring | Exit int

record command_session_runtime =
  ct_input :: "rstring list"
  ct_input_open :: bool
  ct_events :: "process_event list"
  ct_next_chunk_id :: u64
  ct_pending_output :: rstring

record command_session =
  cs_snapshot :: command_task_snapshot
  cs_runtime :: command_session_runtime

record command_sessions =
  cm_sessions :: "(rstring \<times> command_session) list"
  cm_ticks :: nat

record command_env =
  cv_now :: "nat \<Rightarrow> time"
  cv_elapsed :: "nat \<Rightarrow> nat"
  cv_uuid :: "nat \<Rightarrow> rstring"
  cv_spawn :: "shell_command_spec \<Rightarrow> command_execution_request \<Rightarrow> err + unit"
  cv_seconds_fixed3 :: "nat \<Rightarrow> rstring"
  cv_seconds_json :: "nat \<Rightarrow> json"
  cv_rfc3339_secs :: "time \<Rightarrow> rstring"

section \<open>Output\<close>

definition COMMAND_MAX_OUTPUT_TOKENS :: nat where
  "COMMAND_MAX_OUTPUT_TOKENS = 4000"

definition EXITED_DRAINED_OUTPUT_PLACEHOLDER :: rstring where
  "EXITED_DRAINED_OUTPUT_PLACEHOLDER =
     str ''NULL ('' @ [24403, 21069, 31243, 24207, 24050, 32467, 26463, 65292, 32531, 20914, 21306, 35835, 21462, 23436, 27605]
     @ str '')''"

definition approximate_token_count :: "rstring \<Rightarrow> nat" where
  "approximate_token_count content = (if content = [] then 0 else (length content + 3) div 4)"

definition saturating_mul :: "nat \<Rightarrow> nat \<Rightarrow> nat" where
  "saturating_mul a b = min (a * b) USIZE_MAX"

definition truncate_output :: "rstring \<Rightarrow> nat option \<Rightarrow> rstring \<times> nat" where
  "truncate_output content max_toks =
     (let original_token_count = approximate_token_count content;
          max_toks = (case max_toks of None \<Rightarrow> COMMAND_MAX_OUTPUT_TOKENS | Some n \<Rightarrow> n) in
      if max_toks = 0 then ([], original_token_count)
      else (take (saturating_mul max_toks 4) content, original_token_count))"

definition format_output_section :: "command_execution_result \<Rightarrow> rstring" where
  "format_output_section result =
     (if cr_output result = [] \<and> cr_original_token_count result = 0 \<and> \<not> cr_running result
      then str ''Output: '' @ EXITED_DRAINED_OUTPUT_PLACEHOLDER
      else str ''Output:'' @ [10] @ cr_output result)"

definition format_command_summary :: "command_env \<Rightarrow> command_execution_result \<Rightarrow> rstring" where
  "format_command_summary C result =
     (let status_line =
            (if cr_running result
             then str ''Process running with session ID ''
                  @ (case cr_session_id result of None \<Rightarrow> str ''unknown-command-session'' | Some s \<Rightarrow> s)
             else str ''Process exited with code '' @ int_str (case cr_exit_code result of None \<Rightarrow> 0 | Some c \<Rightarrow> c)) in
      str ''Command: '' @ cr_command result @ [10] @ str ''Chunk ID: '' @ nat_str (unat (cr_chunk_id result)) @ [10]
      @ str ''Wall time: '' @ cv_seconds_fixed3 C (cr_wall_time result) @ str ''s'' @ [10] @ status_line @ [10]
      @ str ''Original token count: '' @ nat_str (cr_original_token_count result) @ [10] @ format_output_section result)"

definition format_task_listing :: "command_env \<Rightarrow> command_task_snapshot list \<Rightarrow> rstring" where
  "format_task_listing C tasks =
     (if tasks = [] then str ''No unread command task output.''
      else str ''Unread command task output:'' @ [10]
        @ join [10] (map (\<lambda>task. str ''- '' @ ts_session_id task @ str '' | exit_code=''
              @ (case ts_exit_code task of None \<Rightarrow> str ''null'' | Some c \<Rightarrow> int_str c) @ str '' | ''
              @ cv_rfc3339_secs C (ts_updated_at task) @ str '' | '' @ ts_command task) tasks))"

definition into_tool_result :: "command_env \<Rightarrow> string \<Rightarrow> command_execution_result \<Rightarrow> tool_call_result" where
  "into_tool_result C event_kind r =
     \<lparr>rs_content = format_command_summary C r,
      rs_metadata = JObj [(str ''event_kind'', JStr (str event_kind)), (str ''command'', JStr (cr_command r)),
        (str ''chunk_id'', JInt (uint (cr_chunk_id r))), (str ''wall_time_seconds'', cv_seconds_json C (cr_wall_time r)),
        (str ''exit_code'', jopt JInt (cr_exit_code r)), (str ''session_id'', jopt JStr (cr_session_id r)),
        (str ''original_token_count'', JInt (int (cr_original_token_count r))), (str ''running'', JBool (cr_running r)),
        (str ''output'', JStr (cr_output r))],
      rs_is_error = False\<rparr>"

section \<open>One session\<close>

text \<open>The clock is read once per event; its reading is threaded through as the number of readings so far.\<close>

fun apply_event :: "command_env \<Rightarrow> process_event \<Rightarrow> nat \<times> command_session \<Rightarrow> nat \<times> command_session" where
  "apply_event C (Output chunk) (n, r) =
     (let pending = ct_pending_output (cs_runtime r) @ chunk in
      (n + 1, r\<lparr>cs_runtime := (cs_runtime r)\<lparr>ct_pending_output := pending\<rparr>,
               cs_snapshot := (cs_snapshot r)\<lparr>ts_updated_at := cv_now C n, ts_has_unread_output := (pending \<noteq> [])\<rparr>\<rparr>))"
| "apply_event C (Exit exit_code) (n, r) =
     (n + 1, r\<lparr>cs_snapshot := (cs_snapshot r)\<lparr>ts_updated_at := cv_now C n, ts_status := Done, ts_exit_code := Some exit_code\<rparr>\<rparr>)"

definition drain_available_events :: "command_env \<Rightarrow> nat \<times> command_session \<Rightarrow> nat \<times> command_session" where
  "drain_available_events C nr =
     (let events = ct_events (cs_runtime (snd nr));
          r = (snd nr)\<lparr>cs_runtime := (cs_runtime (snd nr))\<lparr>ct_events := []\<rparr>\<rparr> in
      fold (apply_event C) events (fst nr, r))"

definition arrive :: "process_event list \<Rightarrow> command_session \<Rightarrow> command_session" where
  "arrive events r = r\<lparr>cs_runtime := (cs_runtime r)\<lparr>ct_events := ct_events (cs_runtime r) @ events\<rparr>\<rparr>"

fun collect_loop :: "command_env \<Rightarrow> process_event list list \<Rightarrow> nat \<times> command_session \<Rightarrow> nat \<times> command_session" where
  "collect_loop C [] nr = nr"
| "collect_loop C (batch # waits) (n, r0) =
     (let r = arrive batch r0 in
      case ct_events (cs_runtime r) of
        [] \<Rightarrow> (n, r)
      | event # rest \<Rightarrow>
          let nr = drain_available_events C
                (apply_event C event (n, r\<lparr>cs_runtime := (cs_runtime r)\<lparr>ct_events := rest\<rparr>\<rparr>)) in
          (case event of Exit _ \<Rightarrow> nr | Output _ \<Rightarrow> collect_loop C waits nr))"

definition collect_result ::
    "command_env \<Rightarrow> nat \<Rightarrow> nat option \<Rightarrow> process_event list list \<Rightarrow> nat \<times> command_session
     \<Rightarrow> command_execution_result \<times> nat \<times> command_session" where
  "collect_result C yield_time_ms max_toks waits nr =
     (let (n, r) = collect_loop C (if yield_time_ms = 0 then [] else waits) (drain_available_events C nr);
          output0 = ct_pending_output (cs_runtime r);
          runtime = (cs_runtime r)\<lparr>ct_pending_output := []\<rparr>;
          chunk_id = ct_next_chunk_id runtime;
          runtime = runtime\<lparr>ct_next_chunk_id := chunk_id + 1\<rparr>;
          has_pending_output = (ct_pending_output runtime \<noteq> []);
          snapshot = (cs_snapshot r)\<lparr>ts_has_unread_output := has_pending_output\<rparr>;
          (output, original_token_count) = truncate_output output0 max_toks in
      (\<lparr>cr_command = ts_command snapshot, cr_chunk_id = chunk_id, cr_wall_time = cv_elapsed C n,
        cr_exit_code = ts_exit_code snapshot,
        cr_session_id = (if ts_status snapshot = Doing then Some (ts_session_id snapshot) else None),
        cr_original_token_count = original_token_count, cr_output = output, cr_running = (ts_status snapshot = Doing)\<rparr>,
       n, \<lparr>cs_snapshot = snapshot, cs_runtime = runtime\<rparr>))"

definition refresh_record_snapshot :: "command_env \<Rightarrow> nat \<times> command_session \<Rightarrow> nat \<times> command_session" where
  "refresh_record_snapshot C nr =
     (let (n, r) = drain_available_events C nr in
      (n, r\<lparr>cs_snapshot := (cs_snapshot r)\<lparr>ts_has_unread_output := (ct_pending_output (cs_runtime r) \<noteq> [])\<rparr>\<rparr>))"

section \<open>The manager\<close>

definition command_sessions_new :: command_sessions where
  "command_sessions_new = \<lparr>cm_sessions = [], cm_ticks = 0\<rparr>"

definition normalize_thread_id :: "rstring option \<Rightarrow> rstring" where
  "normalize_thread_id thread_id =
     (case thread_id of
        None \<Rightarrow> DEFAULT_COMMAND_THREAD_ID
      | Some t \<Rightarrow> if trim t = [] then DEFAULT_COMMAND_THREAD_ID else trim t)"

definition store_session :: "rstring \<Rightarrow> nat \<times> command_session \<Rightarrow> command_sessions \<Rightarrow> command_sessions" where
  "store_session session_id nr m = m\<lparr>cm_sessions := AList.update session_id (snd nr) (cm_sessions m), cm_ticks := fst nr\<rparr>"

definition collect_session ::
    "command_env \<Rightarrow> rstring \<Rightarrow> nat \<Rightarrow> nat option \<Rightarrow> process_event list list \<Rightarrow> command_session
     \<Rightarrow> (command_sessions, command_execution_result) act" where
  "collect_session C session_id yield_time_ms max_toks waits r m =
     (let (result, nr) = collect_result C yield_time_ms max_toks waits (cm_ticks m, r) in
      (Inr result, store_session session_id nr m))"

definition exec_command ::
    "command_env \<Rightarrow> rstring \<Rightarrow> command_execution_request \<Rightarrow> process_event list list
     \<Rightarrow> (command_sessions, command_execution_result) act" where
  "exec_command C thread_id0 request waits m =
     (if trim (ce_cmd request) = [] then (Inl (bail (str ''exec_command requires a non-empty `cmd`'')), m)
      else
        let thread_id = normalize_thread_id (Some thread_id0) in
        (case cv_spawn C (build_shell_command_spec (ce_cmd request) (ce_shell request)) request of
           Inl e \<Rightarrow> (Inl e, m)
         | Inr _ \<Rightarrow>
             let session_id = str ''command-session-'' @ cv_uuid C (cm_ticks m);
                 snapshot = \<lparr>ts_thread_id = thread_id, ts_session_id = session_id, ts_status = Doing,
                    ts_command = ce_cmd request, ts_has_unread_output = False, ts_exit_code = None,
                    ts_updated_at = cv_now C (cm_ticks m)\<rparr>;
                 r = \<lparr>cs_snapshot = snapshot, cs_runtime = \<lparr>ct_input = [], ct_input_open = True, ct_events = [],
                        ct_next_chunk_id = 0, ct_pending_output = []\<rparr>\<rparr> in
             collect_session C session_id (ce_yield_time_ms request) (ce_max_output_tokens request) waits r
               (m\<lparr>cm_ticks := cm_ticks m + 1\<rparr>)))"

definition write_stdin ::
    "command_env \<Rightarrow> rstring \<Rightarrow> command_write_request \<Rightarrow> process_event list list
     \<Rightarrow> (command_sessions, command_execution_result) act" where
  "write_stdin C thread_id0 request waits m =
     (let thread_id = normalize_thread_id (Some thread_id0); session_id = cw_session_id request; chars = cw_chars request in
      case map_of (cm_sessions m) session_id of
        None \<Rightarrow> (Inl (bail (str ''unknown command session `'' @ session_id @ str ''`'')), m)
      | Some r \<Rightarrow>
          let snapshot = cs_snapshot r in
          if ts_thread_id snapshot \<noteq> thread_id
          then (Inl (bail (str ''command session `'' @ session_id @ str ''` does not belong to thread `'' @ thread_id @ str ''`'')), m)
          else if ts_status snapshot = Done \<and> chars \<noteq> []
          then (Inl (bail (str ''command session `'' @ session_id @ str ''` has already exited with code ''
                           @ int_str (case ts_exit_code snapshot of None \<Rightarrow> 0 | Some c \<Rightarrow> c))), m)
          else if chars \<noteq> [] \<and> \<not> ct_input_open (cs_runtime r)
          then (Inl (bail (str ''failed to write stdin because the command session is closed'')), m)
          else
            let r1 = (if chars = [] then r
                      else r\<lparr>cs_runtime := (cs_runtime r)\<lparr>ct_input := ct_input (cs_runtime r) @ [chars]\<rparr>\<rparr>) in
            collect_session C session_id (cw_yield_time_ms request) (cw_max_output_tokens request) waits r1 m)"

text \<open>Every session is brought up to date, in the order of the map, before the listed ones are picked.\<close>

fun refresh_all :: "command_env \<Rightarrow> nat \<Rightarrow> (rstring \<times> command_session) list \<Rightarrow> nat \<times> (rstring \<times> command_session) list" where
  "refresh_all C n [] = (n, [])"
| "refresh_all C n ((session_id, r) # sessions) =
     (let (n1, r1) = refresh_record_snapshot C (n, r); (n2, rest) = refresh_all C n1 sessions in
      (n2, (session_id, r1) # rest))"

definition refreshed :: "command_env \<Rightarrow> command_sessions \<Rightarrow> command_sessions" where
  "refreshed C m = (let (n, sessions) = refresh_all C (cm_ticks m) (cm_sessions m) in m\<lparr>cm_sessions := sessions, cm_ticks := n\<rparr>)"

definition snapshots :: "command_sessions \<Rightarrow> command_task_snapshot list" where
  "snapshots m = map (cs_snapshot \<circ> snd) (cm_sessions m)"

definition list_unread_tasks_blocking :: "rstring \<Rightarrow> command_sessions \<Rightarrow> command_task_snapshot list" where
  "list_unread_tasks_blocking thread_id0 m =
     (let thread_id = normalize_thread_id (Some thread_id0) in
      sort_key ts_updated_at (filter (\<lambda>s. ts_thread_id s = thread_id \<and> ts_has_unread_output s) (snapshots m)))"

definition list_unread_tasks ::
    "command_env \<Rightarrow> rstring \<Rightarrow> command_sessions \<Rightarrow> command_task_snapshot list \<times> command_sessions" where
  "list_unread_tasks C thread_id0 m = (let m1 = refreshed C m in (list_unread_tasks_blocking thread_id0 m1, m1))"

definition export_task_snapshots :: "command_env \<Rightarrow> command_sessions \<Rightarrow> command_task_snapshot list \<times> command_sessions" where
  "export_task_snapshots C m =
     (let m1 = refreshed C m in (sort_key (\<lambda>s. (ts_thread_id s, ts_session_id s)) (snapshots m1), m1))"

section \<open>The tools\<close>

record exec_command_arguments =
  xa_cmd :: rstring
  xa_workdir :: "rstring option"
  xa_shell :: "rstring option"
  xa_tty :: bool
  xa_yield_time_ms :: "nat option"
  xa_max_output_tokens :: "nat option"

definition exec_command_arguments_from_json :: "json \<Rightarrow> exec_command_arguments option" where
  "exec_command_arguments_from_json j =
     Option.bind (struct_fields [str ''cmd'', str ''workdir'', str ''shell'', str ''tty'', str ''yield_time_ms'',
       str ''max_output_tokens''] [] j) (\<lambda>m.
     Option.bind (field_req dec_string ''cmd'' m) (\<lambda>cmd.
     Option.bind (field_opt dec_string ''workdir'' m) (\<lambda>workdir.
     Option.bind (field_opt dec_string ''shell'' m) (\<lambda>shell.
     Option.bind (field_default False dec_bool ''tty'' m) (\<lambda>tty.
     Option.bind (field_opt dec_u64 ''yield_time_ms'' m) (\<lambda>yield_time_ms.
     Option.bind (field_opt dec_u64 ''max_output_tokens'' m) (\<lambda>max_toks.
     Some \<lparr>xa_cmd = cmd, xa_workdir = workdir, xa_shell = shell, xa_tty = tty, xa_yield_time_ms = yield_time_ms,
           xa_max_output_tokens = max_toks\<rparr>)))))))"

record write_stdin_arguments =
  xw_session_id :: rstring
  xw_chars :: rstring
  xw_yield_time_ms :: "nat option"
  xw_max_output_tokens :: "nat option"

definition write_stdin_arguments_from_json :: "json \<Rightarrow> write_stdin_arguments option" where
  "write_stdin_arguments_from_json j =
     Option.bind (struct_fields [str ''session_id'', str ''chars'', str ''yield_time_ms'', str ''max_output_tokens''] [] j) (\<lambda>m.
     Option.bind (field_req dec_string ''session_id'' m) (\<lambda>session_id.
     Option.bind (field_default [] dec_string ''chars'' m) (\<lambda>chars.
     Option.bind (field_opt dec_u64 ''yield_time_ms'' m) (\<lambda>yield_time_ms.
     Option.bind (field_opt dec_u64 ''max_output_tokens'' m) (\<lambda>max_toks.
     Some \<lparr>xw_session_id = session_id, xw_chars = chars, xw_yield_time_ms = yield_time_ms,
           xw_max_output_tokens = max_toks\<rparr>)))))"

text \<open>The events that arrive while a tool call waits are drawn from its state.\<close>

record command_runtime = command_sessions +
  cm_waits :: "process_event list list list"

definition next_waits :: "command_runtime \<Rightarrow> process_event list list \<times> command_runtime" where
  "next_waits s = (case cm_waits s of [] \<Rightarrow> ([], s) | w # ws \<Rightarrow> (w, s\<lparr>cm_waits := ws\<rparr>))"

definition on_sessions :: "(command_sessions, 'a) act \<Rightarrow> (command_runtime, 'a) act" where
  "on_sessions f s =
     (let (r, m) = f (command_sessions.truncate s) in
      (r, s\<lparr>cm_sessions := cm_sessions m, cm_ticks := cm_ticks m\<rparr>))"

definition exec_command_call ::
    "tools_env \<Rightarrow> command_env \<Rightarrow> tool_call_context \<Rightarrow> tool_call_request \<Rightarrow> (command_runtime, tool_call_result) act" where
  "exec_command_call E C context request s0 =
     (let (waits, s) = next_waits s0 in
      act_bind (act_lift (parse_tool_arguments E exec_command_arguments_from_json request ''exec_command'')) (\<lambda>args.
      act_bind (on_sessions (exec_command C (normalize_thread_id (tx_thread_id context))
          \<lparr>ce_cmd = xa_cmd args, ce_workdir = xa_workdir args, ce_shell = xa_shell args, ce_tty = xa_tty args,
           ce_yield_time_ms = (case xa_yield_time_ms args of None \<Rightarrow> 1000 | Some t \<Rightarrow> t),
           ce_max_output_tokens = xa_max_output_tokens args\<rparr> waits)) (\<lambda>result.
      act_ret (into_tool_result C ''exec_command'' result))) s)"

definition write_stdin_call ::
    "tools_env \<Rightarrow> command_env \<Rightarrow> tool_call_context \<Rightarrow> tool_call_request \<Rightarrow> (command_runtime, tool_call_result) act" where
  "write_stdin_call E C context request s0 =
     (let (waits, s) = next_waits s0 in
      act_bind (act_lift (parse_tool_arguments E write_stdin_arguments_from_json request ''write_stdin'')) (\<lambda>args.
      act_bind (on_sessions (write_stdin C (normalize_thread_id (tx_thread_id context))
          \<lparr>cw_session_id = xw_session_id args, cw_chars = xw_chars args,
           cw_yield_time_ms = (case xw_yield_time_ms args of None \<Rightarrow> 1000 | Some t \<Rightarrow> t),
           cw_max_output_tokens = xw_max_output_tokens args\<rparr> waits)) (\<lambda>result.
      act_ret (into_tool_result C ''write_stdin'' result))) s)"

definition task_snapshot_json :: "tools_env \<Rightarrow> command_task_snapshot \<Rightarrow> json" where
  "task_snapshot_json E t =
     JObj [(str ''thread_id'', JStr (ts_thread_id t)), (str ''session_id'', JStr (ts_session_id t)),
           (str ''status'', JStr (task_status_as_str (ts_status t))), (str ''command'', JStr (ts_command t)),
           (str ''has_unread_output'', JBool (ts_has_unread_output t)), (str ''exit_code'', jopt JInt (ts_exit_code t)),
           (str ''updated_at'', JStr (te_time_json E (ts_updated_at t)))]"

definition list_unread_command_tasks_call ::
    "tools_env \<Rightarrow> command_env \<Rightarrow> tool_call_context \<Rightarrow> tool_call_request \<Rightarrow> (command_runtime, tool_call_result) act" where
  "list_unread_command_tasks_call E C context request =
     act_bind (act_lift (parse_tool_arguments E (struct_fields [] []) request ''list_unread_command_tasks'')) (\<lambda>_.
     act_bind (on_sessions (\<lambda>m. let (tasks, m1) = list_unread_tasks C (normalize_thread_id (tx_thread_id context)) m in
                                (Inr (tasks, cm_ticks m1), m1))) (\<lambda>(tasks, n).
     act_ret \<lparr>rs_content = format_task_listing C tasks,
              rs_metadata = JObj [(str ''event_kind'', JStr (str ''list_unread_command_tasks'')),
                (str ''wall_time_seconds'', cv_seconds_json C (cv_elapsed C n)),
                (str ''tasks'', JArr (map (task_snapshot_json E) tasks))],
              rs_is_error = False\<rparr>))"

definition exec_command_tool :: "tools_env \<Rightarrow> command_env \<Rightarrow> command_runtime tool_handler" where
  "exec_command_tool E C =
     \<lparr>hd_definition = tool_definition_from_args E ''exec_command''
        (str ''Run one shell command with optional workdir, shell, tty, and background session continuation.''),
      hd_call = exec_command_call E C\<rparr>"

definition write_stdin_tool :: "tools_env \<Rightarrow> command_env \<Rightarrow> command_runtime tool_handler" where
  "write_stdin_tool E C =
     \<lparr>hd_definition = tool_definition_from_args E ''write_stdin''
        (str ''Write stdin into one running command session, or poll with empty chars to fetch the next output chunk.''),
      hd_call = write_stdin_call E C\<rparr>"

definition list_unread_command_tasks_tool :: "tools_env \<Rightarrow> command_env \<Rightarrow> command_runtime tool_handler" where
  "list_unread_command_tasks_tool E C =
     \<lparr>hd_definition = \<lparr>td_name = str ''list_unread_command_tasks'',
        td_description = str ''List command sessions in the current thread that still have unread output chunks.'',
        td_input_schema = empty_tool_input_schema, td_source = Builtin\<rparr>,
      hd_call = list_unread_command_tasks_call E C\<rparr>"

section \<open>Output is delivered once\<close>

fun outs :: "process_event list \<Rightarrow> rstring" where
  "outs [] = []"
| "outs (Output chunk # es) = chunk @ outs es"
| "outs (Exit _ # es) = outs es"

lemma outs_append [simp]: "outs (es @ fs) = outs es @ outs fs"
  by (induction es rule: outs.induct) simp_all

text \<open>What a session has to deliver: the output taken from the channel and that still in it.\<close>

definition unread :: "command_session \<Rightarrow> rstring" where
  "unread r = ct_pending_output (cs_runtime r) @ outs (ct_events (cs_runtime r))"

lemma unread_arrive [simp]: "unread (arrive es r) = unread r @ outs es"
  by (simp add: unread_def arrive_def)

lemma arrive_runtime [simp]:
  "ct_next_chunk_id (cs_runtime (arrive es r)) = ct_next_chunk_id (cs_runtime r)"
  "cs_snapshot (arrive es r) = cs_snapshot r"
  by (simp_all add: arrive_def)

lemma fold_apply_event:
  "fold (apply_event C) es (n, r) = (n', r') \<Longrightarrow>
     ct_pending_output (cs_runtime r') = ct_pending_output (cs_runtime r) @ outs es
     \<and> ct_events (cs_runtime r') = ct_events (cs_runtime r)
     \<and> ct_next_chunk_id (cs_runtime r') = ct_next_chunk_id (cs_runtime r)"
proof (induction es arbitrary: n r)
  case (Cons e es)
  obtain n1 r1 where e: "apply_event C e (n, r) = (n1, r1)" by (cases "apply_event C e (n, r)")
  from Cons.IH [of n1 r1] Cons.prems e show ?case by (cases e) (auto simp: Let_def)
qed simp

lemma drain_runtime:
  assumes "drain_available_events C (n, r) = (n', r')"
  shows "ct_pending_output (cs_runtime r') = unread r" "ct_events (cs_runtime r') = []"
    "ct_next_chunk_id (cs_runtime r') = ct_next_chunk_id (cs_runtime r)" "unread r' = unread r"
  using fold_apply_event [OF assms [unfolded drain_available_events_def Let_def fst_conv snd_conv]]
  by (simp_all add: unread_def)

text \<open>A wait receives a prefix of what could have arrived, and leaves nothing in the channel.\<close>

lemma collect_loop_runtime:
  assumes "collect_loop C waits (n, r) = (n', r')" "ct_events (cs_runtime r) = []"
  shows "\<exists>k. unread r' = unread r @ outs (concat (take k waits)) \<and> ct_events (cs_runtime r') = []
    \<and> ct_next_chunk_id (cs_runtime r') = ct_next_chunk_id (cs_runtime r)"
  using assms
proof (induction waits arbitrary: n r)
  case (Cons batch waits)
  show ?case
  proof (cases batch)
    case Nil
    then have "r' = arrive [] r" using Cons.prems by (simp add: arrive_def)
    then show ?thesis using Cons.prems(2) by (intro exI [of _ 0]) (simp add: unread_def arrive_def)
  next
    case (Cons e rest)
    let ?r = "(arrive batch r)\<lparr>cs_runtime := (cs_runtime (arrive batch r))\<lparr>ct_events := rest\<rparr>\<rparr>"
    obtain n1 r1 where a: "apply_event C e (n, ?r) = (n1, r1)" by (cases "apply_event C e (n, ?r)")
    obtain n2 r2 where d: "drain_available_events C (n1, r1) = (n2, r2)" by (cases "drain_available_events C (n1, r1)")
    have r1: "unread r1 = unread r @ outs batch" "ct_next_chunk_id (cs_runtime r1) = ct_next_chunk_id (cs_runtime r)"
      using a Cons.prems(2) local.Cons by (cases e; auto simp: unread_def arrive_def Let_def)+
    have r2: "unread r2 = unread r @ outs batch" "ct_events (cs_runtime r2) = []"
      "ct_next_chunk_id (cs_runtime r2) = ct_next_chunk_id (cs_runtime r)"
      using drain_runtime [OF d] r1 by simp_all
    have ev: "ct_events (cs_runtime (arrive batch r)) = e # rest" using Cons.prems(2) local.Cons by (simp add: arrive_def)
    show ?thesis
    proof (cases e)
      case (Exit code)
      then have "r' = r2" using Cons.prems(1) ev a d by (simp add: Let_def)
      then show ?thesis using r2 by (intro exI [of _ 1]) simp
    next
      case (Output chunk)
      then have "collect_loop C waits (n2, r2) = (n', r')" using Cons.prems(1) ev a d by (simp add: Let_def)
      from Cons.IH [OF this r2(2)] obtain k where "unread r' = unread r2 @ outs (concat (take k waits))"
        "ct_events (cs_runtime r') = []" "ct_next_chunk_id (cs_runtime r') = ct_next_chunk_id (cs_runtime r2)" by blast
      then show ?thesis using r2 by (intro exI [of _ "Suc k"]) simp
    qed
  qed
qed (auto intro: exI [of _ 0])

lemma collect_result_runtime:
  assumes "collect_result C y mx waits (n, r) = (res, n', r')"
  shows "\<exists>k. (cr_output res, cr_original_token_count res) = truncate_output (unread r @ outs (concat (take k waits))) mx
    \<and> cr_chunk_id res = ct_next_chunk_id (cs_runtime r) \<and> ct_next_chunk_id (cs_runtime r') = ct_next_chunk_id (cs_runtime r) + 1
    \<and> unread r' = [] \<and> \<not> ts_has_unread_output (cs_snapshot r')"
proof -
  obtain n1 r1 where d: "drain_available_events C (n, r) = (n1, r1)" by (cases "drain_available_events C (n, r)")
  obtain n2 r2 where l: "collect_loop C (if y = 0 then [] else waits) (n1, r1) = (n2, r2)"
    by (cases "collect_loop C (if y = 0 then [] else waits) (n1, r1)")
  obtain k where k: "unread r2 = unread r1 @ outs (concat (take k (if y = 0 then [] else waits)))"
    "ct_events (cs_runtime r2) = []" "ct_next_chunk_id (cs_runtime r2) = ct_next_chunk_id (cs_runtime r1)"
    using collect_loop_runtime [OF l drain_runtime(2) [OF d]] by blast
  have p: "ct_pending_output (cs_runtime r2) = unread r @ outs (concat (take (if y = 0 then 0 else k) waits))"
    using k(1,2) drain_runtime(4) [OF d] by (auto simp: unread_def)
  have "(cr_output res, cr_original_token_count res) = truncate_output (ct_pending_output (cs_runtime r2)) mx
    \<and> cr_chunk_id res = ct_next_chunk_id (cs_runtime r2) \<and> ct_next_chunk_id (cs_runtime r') = ct_next_chunk_id (cs_runtime r2) + 1
    \<and> unread r' = [] \<and> \<not> ts_has_unread_output (cs_snapshot r')"
    using assms k(2) by (auto simp: collect_result_def d l Let_def unread_def split: prod.splits)
  then show ?thesis using p k(3) drain_runtime(3) [OF d] by (intro exI [of _ "if y = 0 then 0 else k"]) simp
qed

text \<open>
  A sequence of polls of one session: what arrived before each, and its wait, its limit and its waiting time.
\<close>

fun polls ::
    "command_env \<Rightarrow> (process_event list \<times> nat \<times> nat option \<times> process_event list list) list \<Rightarrow> nat \<times> command_session
     \<Rightarrow> command_execution_result list \<times> nat \<times> command_session" where
  "polls C [] nr = ([], nr)"
| "polls C ((events, y, mx, waits) # ps) (n, r) =
     (let (res, nr) = collect_result C y mx waits (n, arrive events r); (rest, final) = polls C ps nr in (res # rest, final))"

definition arrived :: "process_event list \<times> nat \<times> nat option \<times> process_event list list \<Rightarrow> nat \<Rightarrow> process_event list" where
  "arrived p k = fst p @ concat (take k (snd (snd (snd p))))"

lemma polls_deliver:
  "polls C ps (n, r) = (results, n', r') \<Longrightarrow>
   \<exists>raws ks. length ks = length ps
    \<and> list_all2 (\<lambda>res (raw, p). (cr_output res, cr_original_token_count res) = truncate_output raw (fst (snd (snd p))))
        results (zip raws ps)
    \<and> concat raws @ unread r' = unread r @ outs (concat (map2 arrived ps ks)) \<and> length raws = length ps
    \<and> map cr_chunk_id results = map (\<lambda>i. ct_next_chunk_id (cs_runtime r) + of_nat i) [0..<length ps]
    \<and> (ps \<noteq> [] \<longrightarrow> unread r' = [])"
proof (induction ps arbitrary: n r results)
  case (Cons p ps)
  obtain events y mx waits where p: "p = (events, y, mx, waits)" by (cases p) auto
  obtain res n1 r1 where c: "collect_result C y mx waits (n, arrive events r) = (res, n1, r1)"
    by (cases "collect_result C y mx waits (n, arrive events r)") auto
  obtain rest where rest: "polls C ps (n1, r1) = (rest, n', r')" "results = res # rest"
    using Cons.prems p c by (auto simp: Let_def split: prod.splits)
  obtain k where k: "(cr_output res, cr_original_token_count res)
      = truncate_output (unread r @ outs events @ outs (concat (take k waits))) mx"
    "cr_chunk_id res = ct_next_chunk_id (cs_runtime r)" "ct_next_chunk_id (cs_runtime r1) = ct_next_chunk_id (cs_runtime r) + 1"
    "unread r1 = []"
    using collect_result_runtime [OF c] by auto
  obtain raws ks where ih: "length ks = length ps"
    "list_all2 (\<lambda>res (raw, p). (cr_output res, cr_original_token_count res) = truncate_output raw (fst (snd (snd p))))
        rest (zip raws ps)"
    "concat raws @ unread r' = unread r1 @ outs (concat (map2 arrived ps ks))" "length raws = length ps"
    "map cr_chunk_id rest = map (\<lambda>i. ct_next_chunk_id (cs_runtime r1) + of_nat i) [0..<length ps]"
    "ps \<noteq> [] \<longrightarrow> unread r' = []"
    using Cons.IH [OF rest(1)] by blast
  let ?raw = "unread r @ outs (arrived p k)"
  have "concat (?raw # raws) @ unread r' = unread r @ outs (concat (map2 arrived (p # ps) (k # ks)))"
    using ih(3) k(4) by simp
  moreover have "list_all2 (\<lambda>res (raw, p). (cr_output res, cr_original_token_count res) = truncate_output raw (fst (snd (snd p))))
        results (zip (?raw # raws) (p # ps))"
    using ih(2) k(1) by (simp add: rest(2) p arrived_def)
  moreover have "map cr_chunk_id results = map (\<lambda>i. ct_next_chunk_id (cs_runtime r) + of_nat i) [0..<length (p # ps)]"
    using ih(5) k(2,3) by (simp add: rest(2) upt_conv_Cons map_Suc_upt [symmetric] del: upt_Suc)
  moreover have "unread r' = []"
    using ih(6) k(4) rest(1) by (cases ps) auto
  moreover have "length (k # ks) = length (p # ps)" "length (?raw # raws) = length (p # ps)" using ih(1,4) by simp_all
  ultimately show ?case by blast
qed simp

text \<open>
  C28: command output is delivered once. Over any sequence of polls of a session the texts taken from it, one per
  poll, are together exactly what the process has sent up to the last poll, in order, and nothing is left; what a
  poll answers is its text cut to the limit with the token count of all of it, and the chunk ids count up.
\<close>
theorem command_output_is_delivered_once:
  assumes "polls C ps (n, r) = (results, n', r')"
  shows "\<exists>raws ks. length raws = length ps \<and> length ks = length ps
    \<and> list_all2 (\<lambda>res (raw, p). (cr_output res, cr_original_token_count res) = truncate_output raw (fst (snd (snd p))))
        results (zip raws ps)
    \<and> concat raws @ unread r' = unread r @ outs (concat (map2 arrived ps ks)) \<and> (ps \<noteq> [] \<longrightarrow> unread r' = [])
    \<and> map cr_chunk_id results = map (\<lambda>i. ct_next_chunk_id (cs_runtime r) + of_nat i) [0..<length ps]"
  using polls_deliver [OF assms] by blast

definition demo_command_env :: command_env where
  "demo_command_env =
     \<lparr>cv_now = int, cv_elapsed = (\<lambda>n. n), cv_uuid = nat_str, cv_spawn = (\<lambda>_ _. Inr ()),
      cv_seconds_fixed3 = nat_str, cv_seconds_json = (\<lambda>n. JInt (int n)), cv_rfc3339_secs = int_str\<rparr>"

definition demo_session :: command_session where
  "demo_session =
     \<lparr>cs_snapshot = \<lparr>ts_thread_id = str ''t'', ts_session_id = str ''s'', ts_status = Doing, ts_command = str ''ls'',
        ts_has_unread_output = False, ts_exit_code = None, ts_updated_at = 0\<rparr>,
      cs_runtime = \<lparr>ct_input = [], ct_input_open = True, ct_events = [], ct_next_chunk_id = 0, ct_pending_output = []\<rparr>\<rparr>"

theorem command_output_is_delivered_once_witness:
  "map (\<lambda>res. (cr_output res, cr_chunk_id res, cr_running res))
     (fst (polls demo_command_env
        [([Output (str ''a'')], 0, None, []), ([], 5, Some 1, [[Exit 0], [Output (str ''z'')]]), ([Output (str ''b'')], 0, None, [])]
        (0, demo_session)))
   = [(str ''a'', 0, True), ([], 1, False), (str ''b'', 2, False)]
   \<and> (\<exists>raws ks. length raws = 3 \<and> concat raws = outs (concat (map2 arrived
        [([Output (str ''a'')], 0, None, []), ([], 5, Some 1, [[Exit 0], [Output (str ''z'')]]), ([Output (str ''b'')], 0, None, [])] ks)))"
proof -
  let ?ps = "[([Output (str ''a'')], 0, None, []), ([], 5, Some 1, [[Exit 0], [Output (str ''z'')]]), ([Output (str ''b'')], 0, None, [])]
    :: (process_event list \<times> nat \<times> nat option \<times> process_event list list) list"
  obtain results n' r' where e: "polls demo_command_env ?ps (0, demo_session) = (results, n', r')"
    by (cases "polls demo_command_env ?ps (0, demo_session)")
  have "map (\<lambda>res. (cr_output res, cr_chunk_id res, cr_running res)) (fst (polls demo_command_env ?ps (0, demo_session)))
    = [(str ''a'', 0, True), ([], 1, False), (str ''b'', 2, False)]"
    by (simp add: collect_result_def drain_available_events_def arrive_def demo_session_def demo_command_env_def Let_def
        truncate_output_def COMMAND_MAX_OUTPUT_TOKENS_def saturating_mul_def USIZE_MAX_def str_def)
  moreover obtain raws ks where "length raws = length ?ps" "concat raws @ unread r' = unread demo_session @ outs (concat (map2 arrived ?ps ks))"
    "?ps \<noteq> [] \<longrightarrow> unread r' = []"
    using command_output_is_delivered_once [OF e] by blast
  then have "length raws = 3 \<and> concat raws = outs (concat (map2 arrived ?ps ks))" by (simp add: demo_session_def unread_def)
  ultimately show ?thesis by blast
qed

text \<open>
  What does not fit the limit of a poll is gone: the next poll, of a process that sends nothing more, answers
  nothing, and the session does not count as having unread output.
\<close>
theorem cut_output_is_lost:
  assumes "collect_result C y (Some mx) [] (n, r) = (res, n', r')" "4 * mx < length (unread r)" "4 * mx \<le> USIZE_MAX"
    and "collect_result C y' mx' [] (n', r') = (res', n'', r'')"
  shows "cr_output res = take (4 * mx) (unread r) \<and> cr_output res' = [] \<and> cr_original_token_count res' = 0
    \<and> \<not> ts_has_unread_output (cs_snapshot r')"
proof -
  have "cr_output res = fst (truncate_output (unread r) (Some mx))" "unread r' = []" "\<not> ts_has_unread_output (cs_snapshot r')"
    using collect_result_runtime [OF assms(1)] by (auto simp: prod_eq_iff)
  moreover have "(cr_output res', cr_original_token_count res') = truncate_output [] mx'"
    using collect_result_runtime [OF assms(4)] calculation(2) by auto
  ultimately show ?thesis
    using assms(3) by (auto simp: truncate_output_def Let_def saturating_mul_def approximate_token_count_def mult.commute
        split: if_splits)
qed

section \<open>Sessions stay with their thread\<close>

datatype command_op =
    Arrives rstring "process_event list"
  | StdinCloses rstring
  | ExecCommand rstring command_execution_request "process_event list list"
  | WriteStdin rstring command_write_request "process_event list list"
  | ListUnread rstring
  | ExportTasks

definition change_session :: "(command_session \<Rightarrow> command_session) \<Rightarrow> rstring \<Rightarrow> command_sessions \<Rightarrow> command_sessions" where
  "change_session f session_id m =
     (case map_of (cm_sessions m) session_id of
        None \<Rightarrow> m
      | Some r \<Rightarrow> m\<lparr>cm_sessions := AList.update session_id (f r) (cm_sessions m)\<rparr>)"

fun command_step :: "command_env \<Rightarrow> command_op \<Rightarrow> command_sessions \<Rightarrow> command_sessions" where
  "command_step C (Arrives session_id events) m = change_session (arrive events) session_id m"
| "command_step C (StdinCloses session_id) m =
     change_session (\<lambda>r. r\<lparr>cs_runtime := (cs_runtime r)\<lparr>ct_input_open := False\<rparr>\<rparr>) session_id m"
| "command_step C (ExecCommand thread_id request waits) m = snd (exec_command C thread_id request waits m)"
| "command_step C (WriteStdin thread_id request waits) m = snd (write_stdin C thread_id request waits m)"
| "command_step C (ListUnread thread_id) m = snd (list_unread_tasks C thread_id m)"
| "command_step C ExportTasks m = snd (export_task_snapshots C m)"

text \<open>What no operation changes of a session, and that it does not come back to life.\<close>

definition same_task :: "command_session \<Rightarrow> command_session \<Rightarrow> bool" where
  "same_task r r' \<longleftrightarrow>
     ts_thread_id (cs_snapshot r') = ts_thread_id (cs_snapshot r) \<and> ts_session_id (cs_snapshot r') = ts_session_id (cs_snapshot r)
     \<and> ts_command (cs_snapshot r') = ts_command (cs_snapshot r)
     \<and> (ts_status (cs_snapshot r) = Done \<longrightarrow> ts_status (cs_snapshot r') = Done)"

lemma same_task_refl [simp]: "same_task r r"
  by (simp add: same_task_def)

lemma same_task_trans: "same_task r r' \<Longrightarrow> same_task r' r'' \<Longrightarrow> same_task r r''"
  by (auto simp: same_task_def)

text \<open>Done exactly with an exit code.\<close>

definition task_ok :: "command_session \<Rightarrow> bool" where
  "task_ok r \<longleftrightarrow> (ts_status (cs_snapshot r) = Done) = (ts_exit_code (cs_snapshot r) \<noteq> None)"

lemma apply_event_task: "same_task r (snd (apply_event C e (n, r))) \<and> (task_ok r \<longrightarrow> task_ok (snd (apply_event C e (n, r))))
    \<and> n \<le> fst (apply_event C e (n, r))"
  by (cases e) (auto simp: same_task_def task_ok_def Let_def)

lemma fold_apply_task: "same_task r (snd (fold (apply_event C) es (n, r)))
    \<and> (task_ok r \<longrightarrow> task_ok (snd (fold (apply_event C) es (n, r)))) \<and> n \<le> fst (fold (apply_event C) es (n, r))"
proof (induction es arbitrary: n r)
  case (Cons e es)
  obtain n1 r1 where e: "apply_event C e (n, r) = (n1, r1)" by (cases "apply_event C e (n, r)")
  have "same_task r r1" "task_ok r \<longrightarrow> task_ok r1" "n \<le> n1" using apply_event_task [of r C e n] e by auto
  then show ?case using Cons.IH [of r1 n1] e by (auto intro: same_task_trans)
qed simp

lemma same_task_runtime [simp]: "same_task r (s\<lparr>cs_runtime := x\<rparr>) = same_task r s" "same_task (s\<lparr>cs_runtime := x\<rparr>) r = same_task s r"
  "task_ok (s\<lparr>cs_runtime := x\<rparr>) = task_ok s"
  by (simp_all add: same_task_def task_ok_def)

lemma same_task_arrive [simp]: "same_task r (arrive es s) = same_task r s" "same_task (arrive es s) r = same_task s r"
  "task_ok (arrive es s) = task_ok s"
  by (simp_all add: arrive_def)

lemma drain_task: "same_task r (snd (drain_available_events C (n, r)))
    \<and> (task_ok r \<longrightarrow> task_ok (snd (drain_available_events C (n, r)))) \<and> n \<le> fst (drain_available_events C (n, r))"
  using fold_apply_task [of "r\<lparr>cs_runtime := (cs_runtime r)\<lparr>ct_events := []\<rparr>\<rparr>" C "ct_events (cs_runtime r)" n]
  by (simp add: drain_available_events_def Let_def)

lemma collect_loop_task: "same_task r (snd (collect_loop C waits (n, r)))
    \<and> (task_ok r \<longrightarrow> task_ok (snd (collect_loop C waits (n, r)))) \<and> n \<le> fst (collect_loop C waits (n, r))"
proof (induction waits arbitrary: n r)
  case (Cons batch waits)
  show ?case
  proof (cases "ct_events (cs_runtime (arrive batch r))")
    case (Cons e rest)
    let ?r = "(arrive batch r)\<lparr>cs_runtime := (cs_runtime (arrive batch r))\<lparr>ct_events := rest\<rparr>\<rparr>"
    obtain n1 r1 where a: "apply_event C e (n, ?r) = (n1, r1)" by (cases "apply_event C e (n, ?r)")
    obtain n2 r2 where d: "drain_available_events C (n1, r1) = (n2, r2)" by (cases "drain_available_events C (n1, r1)")
    have "same_task r r1 \<and> (task_ok r \<longrightarrow> task_ok r1) \<and> n \<le> n1" using apply_event_task [of ?r C e n] a by simp
    then have 2: "same_task r r2 \<and> (task_ok r \<longrightarrow> task_ok r2) \<and> n \<le> n2"
      using drain_task [of r1 C n1] d by (auto intro: same_task_trans)
    have "collect_loop C (batch # waits) (n, r) = (case e of Exit _ \<Rightarrow> (n2, r2) | Output _ \<Rightarrow> collect_loop C waits (n2, r2))"
      using local.Cons a d by (cases e) (simp_all add: Let_def del: apply_event.simps)
    then show ?thesis using 2 Cons.IH [of r2 n2] by (cases e) (auto intro: same_task_trans)
  qed simp
qed simp

lemma collect_result_task: "same_task r (snd (snd (collect_result C y mx waits (n, r))))
    \<and> (task_ok r \<longrightarrow> task_ok (snd (snd (collect_result C y mx waits (n, r))))) \<and> n \<le> fst (snd (collect_result C y mx waits (n, r)))"
proof -
  obtain n1 r1 where d: "drain_available_events C (n, r) = (n1, r1)" by (cases "drain_available_events C (n, r)")
  obtain n2 r2 where l: "collect_loop C (if y = 0 then [] else waits) (n1, r1) = (n2, r2)"
    by (cases "collect_loop C (if y = 0 then [] else waits) (n1, r1)")
  have "same_task r r2 \<and> (task_ok r \<longrightarrow> task_ok r2) \<and> n \<le> n2"
    using drain_task [of r C n] collect_loop_task [of r1 C "if y = 0 then [] else waits" n1] d l by (auto intro: same_task_trans)
  then show ?thesis
    by (auto simp: collect_result_def d l Let_def same_task_def task_ok_def split: prod.splits)
qed

lemma refresh_task: "same_task r (snd (refresh_record_snapshot C (n, r)))
    \<and> (task_ok r \<longrightarrow> task_ok (snd (refresh_record_snapshot C (n, r)))) \<and> n \<le> fst (refresh_record_snapshot C (n, r))"
  using drain_task [of r C n]
  by (cases "drain_available_events C (n, r)") (auto simp: refresh_record_snapshot_def same_task_def task_ok_def)

definition sessions_kept :: "command_sessions \<Rightarrow> command_sessions \<Rightarrow> bool" where
  "sessions_kept m m' \<longleftrightarrow>
     (\<forall>sid r. map_of (cm_sessions m) sid = Some r \<longrightarrow> (\<exists>r'. map_of (cm_sessions m') sid = Some r' \<and> same_task r r'))"

definition sessions_sane :: "command_env \<Rightarrow> command_sessions \<Rightarrow> bool" where
  "sessions_sane C m \<longleftrightarrow>
     (\<forall>sid r. map_of (cm_sessions m) sid = Some r \<longrightarrow>
        ts_session_id (cs_snapshot r) = sid \<and> task_ok r
        \<and> (\<exists>k < cm_ticks m. sid = str ''command-session-'' @ cv_uuid C k))"

lemma sessions_kept_refl [simp]: "sessions_kept m m"
  by (auto simp: sessions_kept_def)

lemma sessions_kept_trans: "sessions_kept m m' \<Longrightarrow> sessions_kept m' m'' \<Longrightarrow> sessions_kept m m''"
  unfolding sessions_kept_def by (meson same_task_trans)

lemma store_existing:
  assumes "sessions_sane C m" "map_of (cm_sessions m) sid = Some r" "same_task r r'" "task_ok r \<longrightarrow> task_ok r'" "cm_ticks m \<le> n"
  shows "sessions_sane C (store_session sid (n, r') m) \<and> sessions_kept m (store_session sid (n, r') m)"
proof -
  have "\<exists>k < n. sid' = str ''command-session-'' @ cv_uuid C k" if "map_of (cm_sessions m) sid' = Some s" for sid' s
    using assms(1,5) that unfolding sessions_sane_def by (meson less_le_trans)
  then show ?thesis
    using assms by (auto simp: sessions_sane_def sessions_kept_def store_session_def update_conv' same_task_def)
qed

lemma store_fresh:
  assumes "sessions_sane C m" "sid = str ''command-session-'' @ cv_uuid C k" "cm_ticks m \<le> k" "inj (cv_uuid C)"
    and "ts_session_id (cs_snapshot r) = sid" "task_ok r" "k < n"
  shows "sessions_sane C (store_session sid (n, r) m) \<and> sessions_kept m (store_session sid (n, r) m)"
proof -
  have fresh: "map_of (cm_sessions m) sid = None"
  proof (cases "map_of (cm_sessions m) sid")
    case (Some s)
    then obtain l where "l < cm_ticks m" "cv_uuid C k = cv_uuid C l" using assms(1,2) by (auto simp: sessions_sane_def)
    then show ?thesis using assms(3,4) by (auto dest: injD)
  qed
  have "\<exists>l < n. sid' = str ''command-session-'' @ cv_uuid C l" if "map_of (cm_sessions m) sid' = Some s" for sid' s
    using assms(1,3,7) that unfolding sessions_sane_def by (meson less_le_trans less_imp_le)
  then show ?thesis
    using assms fresh by (auto simp: sessions_sane_def sessions_kept_def store_session_def update_conv')
qed

lemma change_session_ok:
  assumes "sessions_sane C m" "\<And>r. same_task r (f r)" "\<And>r. task_ok (f r) = task_ok r"
  shows "sessions_sane C (change_session f sid m) \<and> sessions_kept m (change_session f sid m)"
proof (cases "map_of (cm_sessions m) sid")
  case (Some r)
  have "change_session f sid m = store_session sid (cm_ticks m, f r) m"
    using Some by (simp add: change_session_def store_session_def)
  then show ?thesis using store_existing [OF assms(1) Some] assms(2,3) by simp
qed (use assms(1) in \<open>simp add: change_session_def\<close>)

lemma refresh_all_ok:
  assumes "refresh_all C n sessions = (n', sessions')"
  shows "n \<le> n' \<and> (\<forall>sid. rel_option (\<lambda>r r'. same_task r r' \<and> (task_ok r \<longrightarrow> task_ok r')) (map_of sessions sid) (map_of sessions' sid))"
  using assms
proof (induction sessions arbitrary: n sessions')
  case (Cons s sessions)
  obtain sid r where s: "s = (sid, r)" by (cases s)
  obtain n1 r1 where r: "refresh_record_snapshot C (n, r) = (n1, r1)" by (cases "refresh_record_snapshot C (n, r)")
  obtain rest where rest: "refresh_all C n1 sessions = (n', rest)" "sessions' = (sid, r1) # rest"
    using Cons.prems s r by (auto simp: Let_def split: prod.splits)
  show ?case using Cons.IH [OF rest(1)] refresh_task [of r C n] r by (auto simp: s rest(2))
qed (simp add: option.rel_eq)

lemma refreshed_ok:
  assumes "sessions_sane C m"
  shows "sessions_sane C (refreshed C m) \<and> sessions_kept m (refreshed C m)"
proof -
  obtain n sessions where r: "refresh_all C (cm_ticks m) (cm_sessions m) = (n, sessions)"
    by (cases "refresh_all C (cm_ticks m) (cm_sessions m)")
  have le: "cm_ticks m \<le> n" and rel: "\<And>sid. rel_option (\<lambda>r r'. same_task r r' \<and> (task_ok r \<longrightarrow> task_ok r'))
      (map_of (cm_sessions m) sid) (map_of sessions sid)"
    using refresh_all_ok [OF r] by auto
  have m': "refreshed C m = m\<lparr>cm_sessions := sessions, cm_ticks := n\<rparr>" using r by (simp add: refreshed_def)
  have "\<exists>r'. map_of sessions sid = Some r' \<and> same_task r r'" if "map_of (cm_sessions m) sid = Some r" for sid r
    using rel [of sid] that by (cases "map_of sessions sid") simp_all
  then have "sessions_kept m (refreshed C m)" by (simp add: sessions_kept_def m')
  moreover have "ts_session_id (cs_snapshot r') = sid \<and> task_ok r' \<and> (\<exists>k < n. sid = str ''command-session-'' @ cv_uuid C k)"
    if some: "map_of sessions sid = Some r'" for sid r'
  proof -
    obtain r where "map_of (cm_sessions m) sid = Some r" "same_task r r'" "task_ok r \<longrightarrow> task_ok r'"
      using rel [of sid] some by (cases "map_of (cm_sessions m) sid") simp_all
    moreover obtain k where "ts_session_id (cs_snapshot r) = sid" "task_ok r" "k < cm_ticks m"
      "sid = str ''command-session-'' @ cv_uuid C k"
      using assms calculation(1) unfolding sessions_sane_def by blast
    moreover have "k < n" using le calculation by simp
    ultimately show ?thesis by (auto simp: same_task_def)
  qed
  ultimately show ?thesis by (simp add: sessions_sane_def m')
qed

lemma exec_command_ok:
  assumes "sessions_sane C m" "inj (cv_uuid C)"
  shows "sessions_sane C (snd (exec_command C t request waits m)) \<and> sessions_kept m (snd (exec_command C t request waits m))"
proof (cases "trim (ce_cmd request) = [] \<or> isl (cv_spawn C (build_shell_command_spec (ce_cmd request) (ce_shell request)) request)")
  case False
  let ?sid = "str ''command-session-'' @ cv_uuid C (cm_ticks m)"
  let ?r = "\<lparr>cs_snapshot = \<lparr>ts_thread_id = normalize_thread_id (Some t), ts_session_id = ?sid, ts_status = Doing,
        ts_command = ce_cmd request, ts_has_unread_output = False, ts_exit_code = None, ts_updated_at = cv_now C (cm_ticks m)\<rparr>,
      cs_runtime = \<lparr>ct_input = [], ct_input_open = True, ct_events = [], ct_next_chunk_id = 0, ct_pending_output = []\<rparr>\<rparr>"
  obtain res n r where c: "collect_result C (ce_yield_time_ms request) (ce_max_output_tokens request) waits (Suc (cm_ticks m), ?r) = (res, n, r)"
    by (cases "collect_result C (ce_yield_time_ms request) (ce_max_output_tokens request) waits (Suc (cm_ticks m), ?r)") auto
  have "snd (exec_command C t request waits m) = store_session ?sid (n, r) m"
    using False c by (auto simp: exec_command_def Let_def collect_session_def store_session_def split: sum.splits)
  moreover have "task_ok ?r" by (simp add: task_ok_def)
  then have "task_ok r" "ts_session_id (cs_snapshot r) = ?sid" "cm_ticks m < n"
    using collect_result_task [of ?r C "ce_yield_time_ms request" "ce_max_output_tokens request" waits "Suc (cm_ticks m)"] c
    by (auto simp: same_task_def)
  ultimately show ?thesis using store_fresh [OF assms(1) refl order.refl assms(2)] by simp
qed (use assms(1) in \<open>auto simp: exec_command_def Let_def split: sum.splits\<close>)

lemma write_stdin_ok:
  assumes "sessions_sane C m"
  shows "sessions_sane C (snd (write_stdin C t request waits m)) \<and> sessions_kept m (snd (write_stdin C t request waits m))"
proof (cases "map_of (cm_sessions m) (cw_session_id request)")
  case (Some r)
  let ?chars = "cw_chars request"
  let ?r = "if ?chars = [] then r else r\<lparr>cs_runtime := (cs_runtime r)\<lparr>ct_input := ct_input (cs_runtime r) @ [?chars]\<rparr>\<rparr>"
  obtain res n r' where c: "collect_result C (cw_yield_time_ms request) (cw_max_output_tokens request) waits (cm_ticks m, ?r) = (res, n, r')"
    by (cases "collect_result C (cw_yield_time_ms request) (cw_max_output_tokens request) waits (cm_ticks m, ?r)") auto
  have "snd (write_stdin C t request waits m) = m
    \<or> snd (write_stdin C t request waits m) = store_session (cw_session_id request) (n, r') m"
    using Some c by (auto simp: write_stdin_def Let_def collect_session_def)
  moreover have "same_task r r' \<and> (task_ok r \<longrightarrow> task_ok r') \<and> cm_ticks m \<le> n"
    using collect_result_task [of ?r C "cw_yield_time_ms request" "cw_max_output_tokens request" waits "cm_ticks m"] c
    by (auto split: if_splits)
  ultimately show ?thesis using store_existing [OF assms Some, of r' n] assms by (elim disjE) simp_all
qed (use assms in \<open>simp add: write_stdin_def Let_def\<close>)

lemma command_step_ok:
  assumes "sessions_sane C m" "inj (cv_uuid C)"
  shows "sessions_sane C (command_step C op m) \<and> sessions_kept m (command_step C op m)"
proof (cases op)
  case (Arrives sid es)
  then show ?thesis using change_session_ok [OF assms(1), of "arrive es" sid] by simp
next
  case (StdinCloses sid)
  then show ?thesis
    using change_session_ok [OF assms(1), of "\<lambda>r. r\<lparr>cs_runtime := (cs_runtime r)\<lparr>ct_input_open := False\<rparr>\<rparr>" sid] by simp
next
  case (ListUnread t)
  then show ?thesis using refreshed_ok [OF assms(1)] by (simp add: list_unread_tasks_def Let_def)
next
  case ExportTasks
  then show ?thesis using refreshed_ok [OF assms(1)] by (simp add: export_task_snapshots_def Let_def)
qed (use exec_command_ok [OF assms] write_stdin_ok [OF assms(1)] in simp_all)

lemma command_run_ok:
  assumes "sessions_sane C m" "inj (cv_uuid C)"
  shows "sessions_sane C (fold (command_step C) ops m) \<and> sessions_kept m (fold (command_step C) ops m)"
  using assms(1)
proof (induction ops arbitrary: m)
  case (Cons op ops)
  then show ?case using command_step_ok [OF Cons.prems assms(2), of op] by (auto intro: sessions_kept_trans)
qed simp

text \<open>Each session has one entry, so what is listed of a session is its entry.\<close>

definition one_entry_each :: "command_sessions \<Rightarrow> bool" where
  "one_entry_each m \<longleftrightarrow> distinct (map fst (cm_sessions m))"

lemma store_one_entry: "one_entry_each m \<Longrightarrow> one_entry_each (store_session sid nr m)"
  by (simp add: one_entry_each_def store_session_def distinct_update)

lemma change_one_entry: "one_entry_each m \<Longrightarrow> one_entry_each (change_session f sid m)"
  by (simp add: one_entry_each_def change_session_def distinct_update split: option.split)

lemma refresh_all_keys: "map fst (snd (refresh_all C n sessions)) = map fst sessions"
  by (induction sessions arbitrary: n) (auto simp: Let_def split: prod.split, metis snd_conv)

lemma refreshed_one_entry: "one_entry_each m \<Longrightarrow> one_entry_each (refreshed C m)"
  using refresh_all_keys [of C "cm_ticks m" "cm_sessions m"]
  by (auto simp: one_entry_each_def refreshed_def split: prod.split)

lemma collect_one_entry: "one_entry_each m \<Longrightarrow> one_entry_each (snd (collect_session C sid y mx waits r m))"
  by (auto simp: collect_session_def store_one_entry split: prod.split)

lemma step_one_entry: "one_entry_each m \<Longrightarrow> one_entry_each (command_step C op m)"
proof (cases op)
  case (ExecCommand t request waits)
  assume "one_entry_each m"
  then have "one_entry_each (m\<lparr>cm_ticks := cm_ticks m + 1\<rparr>)" by (simp add: one_entry_each_def)
  then show ?thesis using \<open>one_entry_each m\<close>
    by (simp add: ExecCommand exec_command_def Let_def collect_one_entry split: sum.split)
qed (auto simp: write_stdin_def list_unread_tasks_def export_task_snapshots_def Let_def change_one_entry
    collect_one_entry refreshed_one_entry split: option.split)

lemma run_one_entry: "one_entry_each m \<Longrightarrow> one_entry_each (fold (command_step C) ops m)"
  by (induction ops arbitrary: m) (simp_all add: step_one_entry)

lemma listed_exactly:
  assumes "sessions_sane C m" "one_entry_each m" "map_of (cm_sessions m) sid = Some r"
  shows "(\<exists>snap \<in> set (fst (list_unread_tasks C t m)). ts_session_id snap = sid) \<longleftrightarrow>
    normalize_thread_id (Some t) = ts_thread_id (cs_snapshot r)
    \<and> (\<exists>r'. map_of (cm_sessions (snd (list_unread_tasks C t m))) sid = Some r' \<and> ts_has_unread_output (cs_snapshot r'))"
proof -
  let ?m = "refreshed C m"
  have sane: "sessions_sane C ?m" and kept: "sessions_kept m ?m" using refreshed_ok [OF assms(1)] by simp_all
  obtain r' where r': "map_of (cm_sessions ?m) sid = Some r'" "same_task r r'"
    using kept assms(3) by (auto simp: sessions_kept_def)
  have entry: "s = r'" if "(k, s) \<in> set (cm_sessions ?m)" "ts_session_id (cs_snapshot s) = sid" for k s
  proof -
    have k: "map_of (cm_sessions ?m) k = Some s"
      using that(1) refreshed_one_entry [OF assms(2), of C] by (simp add: one_entry_each_def)
    then have "k = sid" using sane that(2) by (auto simp: sessions_sane_def)
    then show ?thesis using k r'(1) by simp
  qed
  have own: "ts_session_id (cs_snapshot r') = sid" using sane r'(1) by (auto simp: sessions_sane_def)
  have "(\<exists>snap \<in> set (fst (list_unread_tasks C t m)). ts_session_id snap = sid) \<longleftrightarrow>
      ts_thread_id (cs_snapshot r') = normalize_thread_id (Some t) \<and> ts_has_unread_output (cs_snapshot r')"
  proof
    assume "\<exists>snap \<in> set (fst (list_unread_tasks C t m)). ts_session_id snap = sid"
    then obtain k s where "(k, s) \<in> set (cm_sessions ?m)" "ts_session_id (cs_snapshot s) = sid"
      "ts_thread_id (cs_snapshot s) = normalize_thread_id (Some t)" "ts_has_unread_output (cs_snapshot s)"
      by (auto simp: list_unread_tasks_def list_unread_tasks_blocking_def snapshots_def Let_def)
    then show "ts_thread_id (cs_snapshot r') = normalize_thread_id (Some t) \<and> ts_has_unread_output (cs_snapshot r')"
      using entry by blast
  next
    assume "ts_thread_id (cs_snapshot r') = normalize_thread_id (Some t) \<and> ts_has_unread_output (cs_snapshot r')"
    moreover have "cs_snapshot r' \<in> set (snapshots ?m)"
      using map_of_SomeD [OF r'(1)] by (force simp: snapshots_def)
    ultimately show "\<exists>snap \<in> set (fst (list_unread_tasks C t m)). ts_session_id snap = sid"
      using own by (auto simp: list_unread_tasks_def list_unread_tasks_blocking_def Let_def)
  qed
  then show ?thesis using r' by (auto simp: list_unread_tasks_def Let_def same_task_def)
qed

lemma sessions_sane_new: "sessions_sane C command_sessions_new"
  by (simp add: sessions_sane_def command_sessions_new_def)

lemma write_from_other_thread:
  assumes "map_of (cm_sessions m) (cw_session_id request) = Some r" "normalize_thread_id (Some t) \<noteq> ts_thread_id (cs_snapshot r)"
  shows "write_stdin C t request waits m
    = (Inl (bail (str ''command session `'' @ cw_session_id request @ str ''` does not belong to thread `''
                  @ normalize_thread_id (Some t) @ str ''`'')), m)"
  using assms by (simp add: write_stdin_def Let_def)

text \<open>
  C29: a command session belongs to one thread. In every run of the manager, with uuids that never repeat, each
  session is filed under its own id and is done exactly when it has an exit code; whatever happens later, it is
  still there with the thread and command it was started with, it does not come back to life once done, a
  request from another thread is refused without effect, and the tasks listed for a thread show the session exactly
  when the thread is its own and it has unread output.
\<close>
theorem command_session_belongs_to_one_thread:
  assumes "inj (cv_uuid C)" "m = fold (command_step C) ops command_sessions_new" "map_of (cm_sessions m) sid = Some r"
    and "m' = fold (command_step C) ops' m"
  shows "ts_session_id (cs_snapshot r) = sid \<and> task_ok r
    \<and> (\<exists>r'. map_of (cm_sessions m') sid = Some r' \<and> same_task r r'
        \<and> (\<forall>t request waits. cw_session_id request = sid \<and> normalize_thread_id (Some t) \<noteq> ts_thread_id (cs_snapshot r)
              \<longrightarrow> isl (fst (write_stdin C t request waits m')) \<and> snd (write_stdin C t request waits m') = m'))
    \<and> (\<forall>t. (\<exists>snap \<in> set (fst (list_unread_tasks C t m')). ts_session_id snap = sid) \<longleftrightarrow>
          normalize_thread_id (Some t) = ts_thread_id (cs_snapshot r)
          \<and> (\<exists>r'. map_of (cm_sessions (snd (list_unread_tasks C t m'))) sid = Some r' \<and> ts_has_unread_output (cs_snapshot r')))"
proof -
  have m: "sessions_sane C m" using command_run_ok [OF sessions_sane_new assms(1)] assms(2) by simp
  then have "ts_session_id (cs_snapshot r) = sid" "task_ok r" using assms(3) by (auto simp: sessions_sane_def)
  moreover obtain r' where r': "map_of (cm_sessions m') sid = Some r'" "same_task r r'"
    using command_run_ok [OF m assms(1), of ops'] assms(3,4) by (auto simp: sessions_kept_def)
  moreover have "isl (fst (write_stdin C t request waits m')) \<and> snd (write_stdin C t request waits m') = m'"
    if "cw_session_id request = sid \<and> normalize_thread_id (Some t) \<noteq> ts_thread_id (cs_snapshot r)" for t request waits
    using write_from_other_thread [of m' request r' t C waits] that r' by (auto simp: same_task_def)
  moreover have "sessions_sane C m'" "one_entry_each m'"
    using command_run_ok [OF m assms(1), of ops'] run_one_entry [of m C ops'] run_one_entry [of command_sessions_new C ops]
    by (simp_all add: assms(2,4) one_entry_each_def command_sessions_new_def)
  then have "(\<exists>snap \<in> set (fst (list_unread_tasks C t m')). ts_session_id snap = sid) \<longleftrightarrow>
      normalize_thread_id (Some t) = ts_thread_id (cs_snapshot r)
      \<and> (\<exists>r'. map_of (cm_sessions (snd (list_unread_tasks C t m'))) sid = Some r' \<and> ts_has_unread_output (cs_snapshot r'))" for t
    using listed_exactly [OF _ _ r'(1), of C t] r'(2) by (simp add: same_task_def)
  ultimately show ?thesis by blast
qed

lemma inj_nat_str: "inj nat_str"
proof (rule injI)
  fix m n :: nat
  show "nat_str m = nat_str n \<Longrightarrow> m = n"
  proof (induction m arbitrary: n rule: nat_str.induct)
    case (1 m)
    have len: "nat_str k \<noteq> []" for k by (subst nat_str.simps) simp
    show ?case
    proof (cases "m < 10")
      case True
      then have "n < 10" using "1.prems" len by (metis butlast_snoc append_is_Nil_conv nat_str.simps append_Nil not_Cons_self2 append1_eq_conv)
      then show ?thesis using "1.prems" True nat_str.simps [of m] nat_str.simps [of n] by simp
    next
      case False
      then have n: "\<not> n < 10" using "1.prems" len by (metis append_Nil append1_eq_conv nat_str.simps)
      then have "nat_str (m div 10) = nat_str (n div 10)" "m mod 10 = n mod 10"
        using "1.prems" False nat_str.simps [of m] nat_str.simps [of n] by simp_all
      then show ?thesis using "1.IH" [OF False, of "n div 10"] by (metis div_mult_mod_eq)
    qed
  qed
qed

theorem command_session_belongs_to_one_thread_witness:
  "isl (fst (write_stdin demo_command_env (str ''u'') (command_write_request_new (str ''command-session-0'')) []
     (fold (command_step demo_command_env)
        [ExecCommand (str ''t'') (command_execution_request_new (str ''ls'')) [[Output (str ''a'')]], ListUnread (str ''t'')]
        command_sessions_new)))"
proof -
  let ?ops = "[ExecCommand (str ''t'') (command_execution_request_new (str ''ls'')) [[Output (str ''a'')]], ListUnread (str ''t'')]"
  let ?m = "fold (command_step demo_command_env) ?ops command_sessions_new"
  have w: "trim (str ''ls'') = str ''ls''" "trim (str ''t'') = str ''t''" "trim (str ''u'') = str ''u''"
    by (rule trim_word, simp add: str_def is_whitespace_def)+
  have u: "str ''command-session-'' @ nat_str 0 = str ''command-session-0''" by (simp add: nat_str.simps str_def)
  obtain r where r: "map_of (cm_sessions ?m) (str ''command-session-0'') = Some r" "ts_thread_id (cs_snapshot r) = str ''t''"
    using w u by (auto simp: exec_command_def command_execution_request_new_def demo_command_env_def Let_def
        command_sessions_new_def collect_session_def collect_result_def drain_available_events_def arrive_def
        DEFAULT_YIELD_TIME_MS_def truncate_output_def COMMAND_MAX_OUTPUT_TOKENS_def normalize_thread_id_def
        store_session_def list_unread_tasks_def refreshed_def refresh_record_snapshot_def)
  have inj: "inj (cv_uuid demo_command_env)" by (simp add: demo_command_env_def inj_nat_str)
  have "normalize_thread_id (Some (str ''u'')) \<noteq> ts_thread_id (cs_snapshot r)"
    using w(3) r(2) by (simp add: normalize_thread_id_def)
  then show ?thesis
    using command_session_belongs_to_one_thread [OF inj refl r(1), of ?m "[]"]
    by (auto simp: command_write_request_new_def)
qed

end
