(* ===== verification/OJ_Mcp.thy ===== *)
theory OJ_Mcp
  imports OJ_Tool_Registry "HOL-Library.Multiset"
begin

text \<open>
  The MCP server runtime, \<open>src/agent/tool/mcp/mod.rs\<close>: server definitions, the managed servers with their
  state and discovered tools, probing with retries, the names under which remote tools are exposed, and the
  call of a remote tool. The \<open>rmcp\<close> crate is a parameter: spawning a process, serving a client, listing and
  calling remote tools and closing a client act on a state \<open>'w\<close>. An operation of the manager is atomic here;
  the probe of \<open>enable\_server\<close> and the update that follows it are separate definitions, because the code holds
  no lock between them.
\<close>

section \<open>Definitions of servers\<close>

record mcp_server_definition =
  md_name :: rstring
  md_transport :: mcp_transport
  md_enabled :: bool
  md_command :: "rstring option"
  md_args :: "rstring list"
  md_env :: "(rstring \<times> rstring) list"
  md_url :: "rstring option"

definition unwrap_or_default :: "rstring option \<Rightarrow> rstring" where
  "unwrap_or_default x = (case x of None \<Rightarrow> [] | Some s \<Rightarrow> s)"

definition mcp_endpoint :: "mcp_server_definition \<Rightarrow> rstring" where
  "mcp_endpoint d =
     (case md_transport d of
        Stdio \<Rightarrow>
          let command = unwrap_or_default (md_command d) in
          if md_args d = [] then command else command @ str '' '' @ join (str '' '') (md_args d)
      | StreamableHttp \<Rightarrow> unwrap_or_default (md_url d))"

definition mcp_validate :: "mcp_server_definition \<Rightarrow> err + unit" where
  "mcp_validate d =
     (if trim (md_name d) = [] then Inl (bail (str ''mcp server name must not be blank''))
      else
        (case md_transport d of
           Stdio \<Rightarrow>
             (case md_command d of
                None \<Rightarrow> Inl (bail (str ''mcp server `'' @ md_name d @ str ''` stdio command is required''))
              | Some command \<Rightarrow>
                  if trim command = []
                  then Inl (bail (str ''mcp server `'' @ md_name d @ str ''` stdio command must not be blank''))
                  else Inr ())
         | StreamableHttp \<Rightarrow>
             (case md_url d of
                None \<Rightarrow> Inl (bail (str ''mcp server `'' @ md_name d @ str ''` streamable_http url is required''))
              | Some url \<Rightarrow>
                  if trim url = []
                  then Inl (bail (str ''mcp server `'' @ md_name d @ str ''` streamable_http url must not be blank''))
                  else Inr ())))"

section \<open>Managed servers\<close>

datatype mcp_server_state = McpDisabled | McpHealthy | McpUnhealthy

fun mcp_state_as_str :: "mcp_server_state \<Rightarrow> rstring" where
  "mcp_state_as_str McpDisabled = str ''disabled''"
| "mcp_state_as_str McpHealthy = str ''healthy''"
| "mcp_state_as_str McpUnhealthy = str ''unhealthy''"

record mcp_server_snapshot =
  mn_name :: rstring
  mn_transport :: mcp_transport
  mn_enabled :: bool
  mn_state :: mcp_server_state
  mn_endpoint :: rstring
  mn_tool_count :: nat
  mn_last_error :: "rstring option"
  mn_last_checked_at :: "time option"

record mcp_tool_snapshot =
  mt_tool_name :: rstring
  mt_remote_tool_name :: rstring
  mt_server_name :: rstring
  mt_transport :: mcp_transport
  mt_description :: rstring

record mcp_visible_tool =
  mv_definition :: tool_definition
  mv_remote_tool_name :: rstring
  mv_server_name :: rstring

record 'c managed_mcp_server =
  mz_definition :: mcp_server_definition
  mz_enabled :: bool
  mz_allow_thread_load :: bool
  mz_state :: mcp_server_state
  mz_last_error :: "rstring option"
  mz_last_checked_at :: "time option"
  mz_discovered_tools :: "mcp_visible_tool list"
  mz_client :: "'c option"

definition mcp_snapshot :: "'c managed_mcp_server \<Rightarrow> mcp_server_snapshot" where
  "mcp_snapshot z =
     \<lparr>mn_name = md_name (mz_definition z), mn_transport = md_transport (mz_definition z), mn_enabled = mz_enabled z,
      mn_state = mz_state z, mn_endpoint = mcp_endpoint (mz_definition z),
      mn_tool_count = length (mz_discovered_tools z), mn_last_error = mz_last_error z,
      mn_last_checked_at = mz_last_checked_at z\<rparr>"

section \<open>What the code takes from rmcp\<close>

record mcp_remote_tool =
  rt_name :: rstring
  rt_description :: "rstring option"
  rt_input_schema :: "(rstring \<times> json) list"

text \<open>A content block that is neither text nor a resource is the value it serializes to.\<close>

datatype mcp_content =
    McpText rstring
  | McpTextResource rstring
  | McpBlobResource
  | McpOtherContent json

record mcp_call_result =
  mk_content :: "mcp_content list"
  mk_structured_content :: "json option"
  mk_is_error :: "bool option"

record ('w, 'p, 'c) mcp_env =
  me_spawn :: "rstring \<Rightarrow> rstring list \<Rightarrow> (rstring \<times> rstring) list \<Rightarrow> ('w, 'p) act"
  me_http_transport :: "rstring \<Rightarrow> 'p"
  me_serve_client :: "'p \<Rightarrow> ('w, 'c) act"
  me_list_all_tools :: "'c \<Rightarrow> ('w, mcp_remote_tool list) act"
  me_close :: "'c \<Rightarrow> 'w \<Rightarrow> 'w"
  me_call_tool :: "'c \<Rightarrow> rstring \<Rightarrow> (rstring \<times> json) list option \<Rightarrow> ('w, mcp_call_result) act"
  me_now :: "'w \<Rightarrow> time \<times> 'w"
  me_sleep :: "nat \<Rightarrow> 'w \<Rightarrow> 'w"
  me_json_text :: "json \<Rightarrow> rstring"

record ('w, 'c) mcp_manager =
  mm_servers :: "(rstring \<times> 'c managed_mcp_server) list"
  mm_world :: 'w

definition mcp_manager_new :: "'w \<Rightarrow> ('w, 'c) mcp_manager" where
  "mcp_manager_new w = \<lparr>mm_servers = [], mm_world = w\<rparr>"

definition on_mcp_world :: "('w, 'a) act \<Rightarrow> (('w, 'c) mcp_manager, 'a) act" where
  "on_mcp_world f m = (let (r, w) = f (mm_world m) in (r, m\<lparr>mm_world := w\<rparr>))"

section \<open>The names of remote tools\<close>

definition is_tool_char :: "nat \<Rightarrow> bool" where
  "is_tool_char c \<longleftrightarrow> 97 \<le> c \<and> c \<le> 122 \<or> 65 \<le> c \<and> c \<le> 90 \<or> 48 \<le> c \<and> c \<le> 57 \<or> c = 95"

definition normalize_tool_segment :: "rstring \<Rightarrow> rstring" where
  "normalize_tool_segment segment =
     (let normalized = map (\<lambda>c. if is_tool_char c then c else 95) segment in
      if normalized = [] then str ''tool'' else normalized)"

definition mcp_base_name :: "mcp_server_definition \<Rightarrow> mcp_remote_tool \<Rightarrow> rstring" where
  "mcp_base_name d t =
     str ''mcp__'' @ normalize_tool_segment (md_name d) @ str ''__'' @ normalize_tool_segment (rt_name t)"

definition exposed_name :: "rstring \<Rightarrow> nat \<Rightarrow> rstring" where
  "exposed_name base_name collision_count =
     (if collision_count = 1 then base_name else base_name @ str ''_'' @ nat_str collision_count)"

fun map_remote_loop ::
    "mcp_server_definition \<Rightarrow> (rstring \<times> nat) list \<Rightarrow> mcp_remote_tool list \<Rightarrow> mcp_visible_tool list" where
  "map_remote_loop d seen_names [] = []"
| "map_remote_loop d seen_names (t # ts) =
     (let base_name = mcp_base_name d t;
          collision_count = (case map_of seen_names base_name of None \<Rightarrow> 0 | Some k \<Rightarrow> k) + 1 in
      \<lparr>mv_definition =
         \<lparr>td_name = exposed_name base_name collision_count,
          td_description = (case rt_description t of None \<Rightarrow> str ''Remote MCP tool'' | Some s \<Rightarrow> s),
          td_input_schema = JObj (rt_input_schema t),
          td_source = Mcp (md_name d) (rt_name t) (md_transport d)\<rparr>,
       mv_remote_tool_name = rt_name t, mv_server_name = md_name d\<rparr>
      # map_remote_loop d (AList.update base_name collision_count seen_names) ts)"

definition map_remote_tools :: "mcp_server_definition \<Rightarrow> mcp_remote_tool list \<Rightarrow> mcp_visible_tool list" where
  "map_remote_tools d remote_tools = map_remote_loop d [] remote_tools"

section \<open>Results of remote tools\<close>

fun render_content_block :: "('w, 'p, 'c) mcp_env \<Rightarrow> mcp_content \<Rightarrow> rstring" where
  "render_content_block V (McpText t) = t"
| "render_content_block V (McpTextResource t) = t"
| "render_content_block V McpBlobResource = []"
| "render_content_block V (McpOtherContent j) = me_json_text V j"

definition render_mcp_content :: "('w, 'p, 'c) mcp_env \<Rightarrow> mcp_content list \<Rightarrow> json option \<Rightarrow> rstring" where
  "render_mcp_content V contents structured_content =
     (let rendered = filter (\<lambda>content. content \<noteq> []) (map (render_content_block V) contents) in
      if rendered \<noteq> [] then join [10] rendered
      else (case structured_content of None \<Rightarrow> str ''{}'' | Some j \<Rightarrow> me_json_text V j))"

definition normalize_call_tool_result ::
    "('w, 'p, 'c) mcp_env \<Rightarrow> rstring \<Rightarrow> rstring \<Rightarrow> mcp_call_result \<Rightarrow> tool_call_result" where
  "normalize_call_tool_result V server_name remote_tool_name result =
     \<lparr>rs_content = render_mcp_content V (mk_content result) (mk_structured_content result),
      rs_metadata = JObj [(str ''source'', JStr (str ''mcp'')), (str ''server_name'', JStr server_name),
        (str ''remote_tool_name'', JStr remote_tool_name),
        (str ''structured_content'', jopt id (mk_structured_content result)),
        (str ''content_block_count'', JInt (int (length (mk_content result))))],
      rs_is_error = (case mk_is_error result of None \<Rightarrow> False | Some b \<Rightarrow> b)\<rparr>"

section \<open>Probing\<close>

definition connect_server :: "('w, 'p, 'c) mcp_env \<Rightarrow> mcp_server_definition \<Rightarrow> ('w, 'c) act" where
  "connect_server V d =
     (case md_transport d of
        Stdio \<Rightarrow>
          (case md_command d of
             None \<Rightarrow> act_fail (bail (str ''mcp server `'' @ md_name d @ str ''` missing stdio command''))
           | Some command \<Rightarrow>
               act_bind (act_context (str ''failed to spawn stdio mcp server `'' @ md_name d @ str ''`'')
                 (me_spawn V command (md_args d) (md_env d))) (\<lambda>transport.
               act_context (str ''failed to initialize stdio mcp server `'' @ md_name d @ str ''`'')
                 (me_serve_client V transport)))
      | StreamableHttp \<Rightarrow>
          (case md_url d of
             None \<Rightarrow> act_fail (bail (str ''mcp server `'' @ md_name d @ str ''` missing streamable_http url''))
           | Some url \<Rightarrow>
               act_context (str ''failed to initialize streamable_http mcp server `'' @ md_name d @ str ''`'')
                 (me_serve_client V (me_http_transport V url))))"

definition probe_server_once ::
    "('w, 'p, 'c) mcp_env \<Rightarrow> mcp_server_definition \<Rightarrow> ('w, 'c \<times> mcp_visible_tool list) act" where
  "probe_server_once V d =
     act_bind (act_context (str ''failed to connect mcp server `'' @ md_name d @ str ''`'') (connect_server V d)) (\<lambda>client w.
     case me_list_all_tools V client w of
       (Inl e, w1) \<Rightarrow>
         (Inl (err_context (str ''failed to list tools from `'' @ md_name d @ str ''`'') e), me_close V client w1)
     | (Inr remote_tools, w1) \<Rightarrow> (Inr (client, map_remote_tools d remote_tools), w1))"

definition STREAMABLE_HTTP_PROBE_RETRIES :: nat where
  "STREAMABLE_HTTP_PROBE_RETRIES = 5"

definition STREAMABLE_HTTP_PROBE_DELAY_MS :: nat where
  "STREAMABLE_HTTP_PROBE_DELAY_MS = 150"

text \<open>
  The loop over the attempts that are left. The loop cannot end without an attempt: the last one returns; the
  error of the empty loop stands for the panic of \<open>expect\<close>.
\<close>

fun probe_loop ::
    "('w, 'p, 'c) mcp_env \<Rightarrow> mcp_server_definition \<Rightarrow> nat \<Rightarrow> ('w, 'c \<times> mcp_visible_tool list) act" where
  "probe_loop V d 0 w = act_fail (bail (str ''probe retry loop should record the last error'')) w"
| "probe_loop V d (Suc remaining) w =
     (case probe_server_once V d w of
        (Inr result, w1) \<Rightarrow> (Inr result, w1)
      | (Inl e, w1) \<Rightarrow>
          if 0 < remaining then probe_loop V d remaining (me_sleep V STREAMABLE_HTTP_PROBE_DELAY_MS w1)
          else (Inl e, w1))"

definition max_probe_attempts :: "mcp_server_definition \<Rightarrow> nat" where
  "max_probe_attempts d = (if md_transport d = StreamableHttp then STREAMABLE_HTTP_PROBE_RETRIES else 1)"

definition probe_server ::
    "('w, 'p, 'c) mcp_env \<Rightarrow> mcp_server_definition \<Rightarrow> ('w, 'c \<times> mcp_visible_tool list) act" where
  "probe_server V d = probe_loop V d (max_probe_attempts d)"

section \<open>The manager\<close>

definition mcp_not_registered :: "rstring \<Rightarrow> err" where
  "mcp_not_registered name = bail (str ''mcp server `'' @ name @ str ''` is not registered'')"

definition mcp_register :: "mcp_server_definition \<Rightarrow> (('w, 'c) mcp_manager, unit) act" where
  "mcp_register d m =
     (case mcp_validate d of
        Inl e \<Rightarrow> (Inl e, m)
      | Inr _ \<Rightarrow>
          if map_of (mm_servers m) (md_name d) \<noteq> None
          then (Inl (bail (str ''mcp server `'' @ md_name d @ str ''` is already registered'')), m)
          else
            (Inr (), m\<lparr>mm_servers := AList.update (md_name d)
               \<lparr>mz_definition = d, mz_enabled = False, mz_allow_thread_load = True, mz_state = McpDisabled,
                mz_last_error = None, mz_last_checked_at = None, mz_discovered_tools = [], mz_client = None\<rparr>
               (mm_servers m)\<rparr>))"

definition mcp_server_definition_of :: "rstring \<Rightarrow> ('w, 'c) mcp_manager \<Rightarrow> err + mcp_server_definition" where
  "mcp_server_definition_of name m =
     (case map_of (mm_servers m) name of None \<Rightarrow> Inl (mcp_not_registered name) | Some z \<Rightarrow> Inr (mz_definition z))"

definition mcp_server_snapshot_of :: "rstring \<Rightarrow> ('w, 'c) mcp_manager \<Rightarrow> err + mcp_server_snapshot" where
  "mcp_server_snapshot_of name m =
     (case map_of (mm_servers m) name of None \<Rightarrow> Inl (mcp_not_registered name) | Some z \<Rightarrow> Inr (mcp_snapshot z))"

definition close_client :: "('w, 'p, 'c) mcp_env \<Rightarrow> 'c option \<Rightarrow> ('w, 'c) mcp_manager \<Rightarrow> ('w, 'c) mcp_manager" where
  "close_client V client m =
     (case client of None \<Rightarrow> m | Some c \<Rightarrow> m\<lparr>mm_world := me_close V c (mm_world m)\<rparr>)"

definition put_server :: "rstring \<Rightarrow> 'c managed_mcp_server \<Rightarrow> ('w, 'c) mcp_manager \<Rightarrow> ('w, 'c) mcp_manager" where
  "put_server name z m = m\<lparr>mm_servers := AList.update name z (mm_servers m)\<rparr>"

definition apply_probe ::
    "('w, 'p, 'c) mcp_env \<Rightarrow> rstring \<Rightarrow> time \<Rightarrow> err + 'c \<times> mcp_visible_tool list
     \<Rightarrow> (('w, 'c) mcp_manager, mcp_server_snapshot) act" where
  "apply_probe V name checked_at probe_result m =
     (case map_of (mm_servers m) name of
        None \<Rightarrow> (Inl (mcp_not_registered name), m)
      | Some z \<Rightarrow>
     (case probe_result of
        Inr (client, discovered_tools) \<Rightarrow>
          let m1 = close_client V (mz_client z) (put_server name
                (z\<lparr>mz_enabled := True, mz_allow_thread_load := True, mz_state := McpHealthy, mz_last_error := None,
                   mz_last_checked_at := Some checked_at, mz_discovered_tools := discovered_tools,
                   mz_client := Some client\<rparr>) m) in
          (mcp_server_snapshot_of name m1, m1)
      | Inl error \<Rightarrow>
          let error_text = err_display_alt error;
              m1 = close_client V (mz_client z) (put_server name
                (z\<lparr>mz_enabled := True, mz_allow_thread_load := True, mz_state := McpUnhealthy,
                   mz_last_error := Some error_text, mz_last_checked_at := Some checked_at,
                   mz_discovered_tools := [], mz_client := None\<rparr>) m) in
          (Inl (bail error_text), m1)))"

text \<open>The part of \<open>enable\_server\<close> up to the end of the probe.\<close>

definition begin_probe ::
    "('w, 'p, 'c) mcp_env \<Rightarrow> rstring \<Rightarrow> (('w, 'c) mcp_manager, time \<times> (err + 'c \<times> mcp_visible_tool list)) act" where
  "begin_probe V name m =
     (case mcp_server_definition_of name m of
        Inl e \<Rightarrow> (Inl e, m)
      | Inr d \<Rightarrow>
          let (checked_at, w1) = me_now V (mm_world m);
              (probe_result, w2) = probe_server V d w1 in
          (Inr (checked_at, probe_result), m\<lparr>mm_world := w2\<rparr>))"

definition enable_server :: "('w, 'p, 'c) mcp_env \<Rightarrow> rstring \<Rightarrow> (('w, 'c) mcp_manager, mcp_server_snapshot) act" where
  "enable_server V name =
     act_bind (begin_probe V name) (\<lambda>(checked_at, probe_result). apply_probe V name checked_at probe_result)"

definition disable_server :: "('w, 'p, 'c) mcp_env \<Rightarrow> rstring \<Rightarrow> (('w, 'c) mcp_manager, mcp_server_snapshot) act" where
  "disable_server V name m =
     (case map_of (mm_servers m) name of
        None \<Rightarrow> (Inl (mcp_not_registered name), m)
      | Some z \<Rightarrow>
          let (now, w1) = me_now V (mm_world m);
              m1 = close_client V (mz_client z) (put_server name
                (z\<lparr>mz_enabled := False, mz_allow_thread_load := False, mz_state := McpDisabled,
                   mz_discovered_tools := [], mz_last_checked_at := Some now, mz_client := None\<rparr>)
                (m\<lparr>mm_world := w1\<rparr>)) in
          (mcp_server_snapshot_of name m1, m1))"

definition refresh_server :: "('w, 'p, 'c) mcp_env \<Rightarrow> rstring \<Rightarrow> (('w, 'c) mcp_manager, mcp_server_snapshot) act" where
  "refresh_server V name m =
     (case map_of (mm_servers m) name of
        None \<Rightarrow> (Inl (mcp_not_registered name), m)
      | Some z \<Rightarrow> if \<not> mz_enabled z then (mcp_server_snapshot_of name m, m) else enable_server V name m)"

fun register_definitions ::
    "mcp_server_definition list \<Rightarrow> rstring list \<Rightarrow> (('w, 'c) mcp_manager, rstring list) act" where
  "register_definitions [] startup_enabled = act_ret startup_enabled"
| "register_definitions (d # ds) startup_enabled =
     act_bind (mcp_register d) (\<lambda>_.
     register_definitions ds (if md_enabled d then startup_enabled @ [md_name d] else startup_enabled))"

definition startup_enable :: "('w, 'p, 'c) mcp_env \<Rightarrow> rstring list \<Rightarrow> ('w, 'c) mcp_manager \<Rightarrow> ('w, 'c) mcp_manager" where
  "startup_enable V names m = fold (\<lambda>name m. snd (enable_server V name m)) names m"

definition load_definitions ::
    "('w, 'p, 'c) mcp_env \<Rightarrow> mcp_server_definition list \<Rightarrow> (('w, 'c) mcp_manager, unit) act" where
  "load_definitions V definitions =
     act_bind (register_definitions definitions []) (\<lambda>startup_enabled m. (Inr (), startup_enable V startup_enabled m))"

definition list_servers :: "('w, 'c) mcp_manager \<Rightarrow> mcp_server_snapshot list" where
  "list_servers m = sort_key mn_name (map (mcp_snapshot \<circ> snd) (mm_servers m))"

definition visible_tools :: "('w, 'c) mcp_manager \<Rightarrow> mcp_visible_tool list" where
  "visible_tools m =
     sort_key (td_name \<circ> mv_definition)
       (concat (map mz_discovered_tools
          (filter (\<lambda>z. mz_enabled z \<and> mz_state z = McpHealthy) (map snd (mm_servers m)))))"

fun source_transport :: "tool_source \<Rightarrow> mcp_transport option" where
  "source_transport Builtin = None"
| "source_transport (Mcp _ _ transport) = Some transport"

definition list_tools :: "('w, 'c) mcp_manager \<Rightarrow> mcp_tool_snapshot list" where
  "list_tools m =
     sort_key mt_tool_name (map (\<lambda>t.
       \<lparr>mt_tool_name = td_name (mv_definition t), mt_remote_tool_name = mv_remote_tool_name t,
        mt_server_name = mv_server_name t,
        mt_transport = (case source_transport (td_source (mv_definition t)) of None \<Rightarrow> Stdio | Some x \<Rightarrow> x),
        mt_description = td_description (mv_definition t)\<rparr>) (visible_tools m))"

definition visible_tools_for_server :: "rstring \<Rightarrow> ('w, 'c) mcp_manager \<Rightarrow> err + mcp_visible_tool list" where
  "visible_tools_for_server name m =
     (case map_of (mm_servers m) name of
        None \<Rightarrow> Inl (mcp_not_registered name)
      | Some z \<Rightarrow> Inr (mz_discovered_tools z))"

definition ensure_server_tools ::
    "('w, 'p, 'c) mcp_env \<Rightarrow> rstring \<Rightarrow> (('w, 'c) mcp_manager, mcp_visible_tool list) act" where
  "ensure_server_tools V name m =
     (case map_of (mm_servers m) name of
        None \<Rightarrow> (Inl (mcp_not_registered name), m)
      | Some z \<Rightarrow>
          if \<not> mz_allow_thread_load z then (Inl (bail (str ''mcp server `'' @ name @ str ''` is disabled'')), m)
          else
            (case (if \<not> mz_enabled z \<or> mz_state z \<noteq> McpHealthy then enable_server V name m
                   else (mcp_server_snapshot_of name m, m)) of
               (Inl e, m1) \<Rightarrow> (Inl e, m1)
             | (Inr _, m1) \<Rightarrow> (visible_tools_for_server name m1, m1)))"

fun call_arguments :: "('w, 'p, 'c) mcp_env \<Rightarrow> rstring \<Rightarrow> json \<Rightarrow> err + (rstring \<times> json) list option" where
  "call_arguments V remote_tool_name JNull = Inr None"
| "call_arguments V remote_tool_name (JObj kvs) = Inr (Some kvs)"
| "call_arguments V remote_tool_name other =
     Inl (bail (str ''mcp tool `'' @ remote_tool_name @ str ''` arguments must be a JSON object, got '' @ me_json_text V other))"

definition mcp_call_tool ::
    "('w, 'p, 'c) mcp_env \<Rightarrow> rstring \<Rightarrow> rstring \<Rightarrow> json \<Rightarrow> (('w, 'c) mcp_manager, tool_call_result) act" where
  "mcp_call_tool V server_name remote_tool_name arguments m =
     (case map_of (mm_servers m) server_name of
        None \<Rightarrow> (Inl (mcp_not_registered server_name), m)
      | Some z \<Rightarrow>
     (case mz_client z of
        None \<Rightarrow> (Inl (bail (str ''mcp server `'' @ server_name @ str ''` is not connected'')), m)
      | Some client \<Rightarrow>
          act_bind (act_lift (call_arguments V remote_tool_name arguments)) (\<lambda>args.
          act_bind (on_mcp_world (act_context (str ''failed to call mcp tool `'' @ remote_tool_name @ str ''`'')
              (me_call_tool V client remote_tool_name args))) (\<lambda>result.
          act_ret (normalize_call_tool_result V server_name remote_tool_name result))) m))"

text \<open>
  \<open>McpToolHandler\<close>, and the handlers of a server as \<open>resolve\_toolset\_handlers\<close> collects them: a map from the
  exposed names, in which the last tool of a name stays.
\<close>

definition mcp_tool_handler ::
    "('w, 'p, 'c) mcp_env \<Rightarrow> mcp_visible_tool \<Rightarrow> ('w, 'c) mcp_manager tool_handler" where
  "mcp_tool_handler V t =
     \<lparr>hd_definition = mv_definition t,
      hd_call = (\<lambda>_ request. mcp_call_tool V (mv_server_name t) (mv_remote_tool_name t) (rq_arguments request))\<rparr>"

definition collect_handlers ::
    "('w, 'p, 'c) mcp_env \<Rightarrow> mcp_visible_tool list \<Rightarrow> (rstring \<times> ('w, 'c) mcp_manager tool_handler) list" where
  "collect_handlers V tools =
     fold (\<lambda>t. AList.update (td_name (mv_definition t)) (mcp_tool_handler V t)) tools []"

definition mcp_toolset_handlers ::
    "('w, 'p, 'c) mcp_env \<Rightarrow> rstring \<Rightarrow> (('w, 'c) mcp_manager, (rstring \<times> ('w, 'c) mcp_manager tool_handler) list) act" where
  "mcp_toolset_handlers V server_name =
     act_bind (ensure_server_tools V server_name) (\<lambda>tools. act_ret (collect_handlers V tools))"

section \<open>Steps of the manager\<close>

text \<open>
  The atomic steps: an operation under one lock, the probe of an enabling call, and the update that ends it.
  Probes of several calls may be under way at once; each is kept with its server, time and result. The label
  of a step names the server whose probe it begins or ends.
\<close>

datatype mcp_label = McpOther | McpBegin rstring | McpFinish rstring

type_synonym 'c mcp_probe = "rstring \<times> time \<times> (err + 'c \<times> mcp_visible_tool list)"

inductive mcp_step ::
    "('w, 'p, 'c) mcp_env \<Rightarrow> ('w, 'c) mcp_manager \<times> 'c mcp_probe list \<Rightarrow> mcp_label
     \<Rightarrow> ('w, 'c) mcp_manager \<times> 'c mcp_probe list \<Rightarrow> bool" for V where
  step_register: "mcp_step V (m, ps) McpOther (snd (mcp_register d m), ps)"
| step_disable: "mcp_step V (m, ps) McpOther (snd (disable_server V name m), ps)"
| step_call: "mcp_step V (m, ps) McpOther (snd (mcp_call_tool V server_name remote_tool_name arguments m), ps)"
| step_begin: "begin_probe V name m = (Inr (t, r), m') \<Longrightarrow> mcp_step V (m, ps) (McpBegin name) (m', (name, t, r) # ps)"
| step_finish: "mcp_step V (m, ps1 @ (name, t, r) # ps2) (McpFinish name) (snd (apply_probe V name t r m), ps1 @ ps2)"

inductive mcp_trace ::
    "('w, 'p, 'c) mcp_env \<Rightarrow> ('w, 'c) mcp_manager \<times> 'c mcp_probe list \<Rightarrow> mcp_label list
     \<Rightarrow> ('w, 'c) mcp_manager \<times> 'c mcp_probe list \<Rightarrow> bool" for V where
  trace_nil: "mcp_trace V s [] s"
| trace_snoc: "mcp_trace V s ls s' \<Longrightarrow> mcp_step V s' l s'' \<Longrightarrow> mcp_trace V s (ls @ [l]) s''"

inductive_cases mcp_stepE: "mcp_step V (m, ps) l s'"

lemma trace_one: "mcp_step V s l s' \<Longrightarrow> mcp_trace V s [l] s'"
  using trace_snoc [OF trace_nil, of V s l s'] by simp

lemma trace_append: "mcp_trace V s' ks s'' \<Longrightarrow> mcp_trace V s ls s' \<Longrightarrow> mcp_trace V s (ls @ ks) s''"
  by (induction rule: mcp_trace.induct) (simp, metis append_assoc trace_snoc)

text \<open>The composed operations are such runs.\<close>

lemma enable_is_trace: "\<exists>ls. mcp_trace V (m, ps) ls (snd (enable_server V name m), ps)
    \<and> set ls \<subseteq> {McpBegin name, McpFinish name}"
proof (cases "begin_probe V name m")
  case (Pair r m1)
  show ?thesis
  proof (cases r)
    case (Inl e)
    then have "snd (enable_server V name m) = m"
      using Pair by (auto simp: enable_server_def act_bind_def begin_probe_def split: sum.splits prod.splits)
    then show ?thesis using trace_nil by (intro exI [of _ "[]"]) simp
  next
    case (Inr tr)
    obtain t pr where tr: "tr = (t, pr)" by (cases tr)
    have "mcp_trace V (m, ps) ([McpBegin name] @ [McpFinish name]) (snd (apply_probe V name t pr m1), [] @ ps)"
      by (rule trace_append [OF trace_one [OF step_finish] trace_one])
        (simp add: step_begin Pair Inr tr)
    then show ?thesis using Pair Inr tr by (intro exI [of _ "[McpBegin name, McpFinish name]"])
        (simp add: enable_server_def act_bind_def)
  qed
qed

lemma refresh_is_trace: "\<exists>ls. mcp_trace V (m, ps) ls (snd (refresh_server V name m), ps)
    \<and> set ls \<subseteq> {McpBegin name, McpFinish name}"
  using enable_is_trace [of V m ps name] trace_nil [of V "(m, ps)"]
  by (force simp: refresh_server_def split: option.split)

lemma ensure_is_trace: "\<exists>ls. mcp_trace V (m, ps) ls (snd (ensure_server_tools V name m), ps)
    \<and> set ls \<subseteq> {McpBegin name, McpFinish name}"
proof -
  have "snd (ensure_server_tools V name m) = snd (enable_server V name m) \<or> snd (ensure_server_tools V name m) = m"
    by (auto simp: ensure_server_tools_def split: option.splits prod.splits sum.splits if_splits)
  then show ?thesis
    using enable_is_trace [of V m ps name] trace_nil [of V "(m, ps)"] by force
qed

lemma startup_is_trace: "\<exists>ls. mcp_trace V (m, ps) ls (startup_enable V names m, ps)
    \<and> set ls \<subseteq> McpBegin ` set names \<union> McpFinish ` set names"
proof (induction names arbitrary: m)
  case Nil
  then show ?case using trace_nil [of V "(m, ps)"] by (intro exI [of _ "[]"]) (simp add: startup_enable_def)
next
  case (Cons name names)
  obtain ls where ls: "mcp_trace V (m, ps) ls (snd (enable_server V name m), ps)" "set ls \<subseteq> {McpBegin name, McpFinish name}"
    using enable_is_trace [of V m ps name] by blast
  obtain ks where "mcp_trace V (snd (enable_server V name m), ps) ks (startup_enable V names (snd (enable_server V name m)), ps)"
    "set ks \<subseteq> McpBegin ` set names \<union> McpFinish ` set names"
    using Cons by blast
  with ls show ?case by (intro exI [of _ "ls @ ks"]) (auto simp: startup_enable_def intro: trace_append)
qed

lemma register_definitions_trace:
  "\<exists>ls. mcp_trace V (m, ps) ls (snd (register_definitions ds names m), ps) \<and> set ls \<subseteq> {McpOther}"
proof (induction ds arbitrary: m names)
  case Nil
  then show ?case using trace_nil [of V "(m, ps)"] by (intro exI [of _ "[]"]) (simp add: act_ret_def)
next
  case (Cons d ds)
  have one: "mcp_trace V (m, ps) [McpOther] (snd (mcp_register d m), ps)" by (rule trace_one [OF step_register])
  show ?case
  proof (cases "mcp_register d m")
    case (Pair r m1)
    show ?thesis
    proof (cases r)
      case (Inl e)
      then show ?thesis using Pair one by (intro exI [of _ "[McpOther]"]) (simp add: act_bind_def)
    next
      case (Inr u)
      let ?names = "if md_enabled d then names @ [md_name d] else names"
      obtain ks where "mcp_trace V (m1, ps) ks (snd (register_definitions ds ?names m1), ps)" "set ks \<subseteq> {McpOther}"
        using Cons by blast
      then show ?thesis using Pair Inr trace_append [of V _ ks _ "(m, ps)" "[McpOther]"] one
        by (intro exI [of _ "McpOther # ks"]) (auto simp: act_bind_def)
    qed
  qed
qed

lemma load_is_trace: "\<exists>ls. mcp_trace V (m, ps) ls (snd (load_definitions V ds m), ps)"
proof -
  obtain ls where ls: "mcp_trace V (m, ps) ls (snd (register_definitions ds [] m), ps)"
    using register_definitions_trace by blast
  show ?thesis
  proof (cases "register_definitions ds [] m")
    case (Pair r m1)
    show ?thesis
    proof (cases r)
      case (Inl e)
      then show ?thesis using Pair ls by (auto simp: load_definitions_def act_bind_def)
    next
      case (Inr names)
      obtain ks where "mcp_trace V (m1, ps) ks (startup_enable V names m1, ps)" using startup_is_trace by blast
      then show ?thesis using Pair Inr ls by (auto simp: load_definitions_def act_bind_def intro: trace_append)
    qed
  qed
qed

section \<open>Servers stay consistent and no client leaks\<close>

definition tools_of :: "mcp_server_definition \<Rightarrow> mcp_visible_tool list \<Rightarrow> bool" where
  "tools_of d ts \<longleftrightarrow> list_all (\<lambda>t. mv_server_name t = md_name d
     \<and> td_source (mv_definition t) = Mcp (md_name d) (mv_remote_tool_name t) (md_transport d)) ts"

definition server_ok :: "rstring \<Rightarrow> 'c managed_mcp_server \<Rightarrow> bool" where
  "server_ok name z \<longleftrightarrow> md_name (mz_definition z) = name \<and> mcp_validate (mz_definition z) = Inr ()
     \<and> tools_of (mz_definition z) (mz_discovered_tools z)
     \<and> (case mz_state z of
          McpHealthy \<Rightarrow> mz_enabled z \<and> mz_client z \<noteq> None \<and> mz_last_error z = None
        | McpUnhealthy \<Rightarrow> mz_enabled z \<and> mz_client z = None \<and> mz_discovered_tools z = [] \<and> mz_last_error z \<noteq> None
        | McpDisabled \<Rightarrow> \<not> mz_enabled z \<and> mz_client z = None \<and> mz_discovered_tools z = [])"

definition servers_ok :: "(rstring \<times> 'c managed_mcp_server) list \<Rightarrow> bool" where
  "servers_ok servers \<longleftrightarrow> distinct (map fst servers) \<and> list_all (\<lambda>(name, z). server_ok name z) servers"

definition client_list :: "'c option \<Rightarrow> 'c list" where
  "client_list c = (case c of None \<Rightarrow> [] | Some x \<Rightarrow> [x])"

definition held_clients :: "(rstring \<times> 'c managed_mcp_server) list \<Rightarrow> 'c list" where
  "held_clients servers = concat (map (client_list \<circ> mz_client \<circ> snd) servers)"

fun probe_clients :: "'c mcp_probe \<Rightarrow> 'c list" where
  "probe_clients (name, t, Inl e) = []"
| "probe_clients (name, t, Inr (c, ts)) = [c]"

text \<open>
  What \<open>rmcp\<close> promises of connections: serving a client that succeeds opens a new one, closing closes it, and
  nothing else opens or closes any.
\<close>

fun opens :: "('w \<Rightarrow> 'c set) \<Rightarrow> ('a \<Rightarrow> 'c) \<Rightarrow> 'w \<Rightarrow> (err + 'a) \<times> 'w \<Rightarrow> bool" where
  "opens opn client w (Inl e, w') \<longleftrightarrow> opn w' = opn w"
| "opens opn client w (Inr x, w') \<longleftrightarrow> client x \<notin> opn w \<and> opn w' = insert (client x) (opn w)"

definition mcp_client_laws :: "('w, 'p, 'c) mcp_env \<Rightarrow> ('w \<Rightarrow> 'c set) \<Rightarrow> bool" where
  "mcp_client_laws V opn \<longleftrightarrow>
     (\<forall>command args env w. opn (snd (me_spawn V command args env w)) = opn w)
     \<and> (\<forall>p w. opens opn id w (me_serve_client V p w))
     \<and> (\<forall>c w. opn (snd (me_list_all_tools V c w)) = opn w)
     \<and> (\<forall>c w. opn (me_close V c w) = opn w - {c})
     \<and> (\<forall>c n args w. opn (snd (me_call_tool V c n args w)) = opn w)
     \<and> (\<forall>w. opn (snd (me_now V w)) = opn w)
     \<and> (\<forall>n w. opn (me_sleep V n w) = opn w)"

definition accounted :: "('w \<Rightarrow> 'c set) \<Rightarrow> ('w, 'c) mcp_manager \<times> 'c mcp_probe list \<Rightarrow> bool" where
  "accounted opn s \<longleftrightarrow>
     (let clients = held_clients (mm_servers (fst s)) @ concat (map probe_clients (snd s)) in
      distinct clients \<and> set clients = opn (mm_world (fst s)))"

definition probe_ok :: "(rstring \<times> 'c managed_mcp_server) list \<Rightarrow> 'c mcp_probe \<Rightarrow> bool" where
  "probe_ok servers p \<longleftrightarrow> (\<exists>z. map_of servers (fst p) = Some z
     \<and> (\<forall>c ts. snd (snd p) = Inr (c, ts) \<longrightarrow> tools_of (mz_definition z) ts))"

definition probes_ok :: "(rstring \<times> 'c managed_mcp_server) list \<Rightarrow> 'c mcp_probe list \<Rightarrow> bool" where
  "probes_ok servers ps \<longleftrightarrow> list_all (probe_ok servers) ps"

lemma map_of_split:
  "map_of xs k = Some v \<Longrightarrow> \<exists>ys zs. xs = ys @ (k, v) # zs \<and> (\<forall>v'. AList.update k v' xs = ys @ (k, v') # zs)"
proof (induction xs)
  case (Cons x xs)
  obtain l w where x: "x = (l, w)" by (cases x)
  show ?case
  proof (cases "l = k")
    case True
    then show ?thesis using Cons.prems x by (intro exI [of _ "[]"] exI [of _ xs]) simp
  next
    case False
    then obtain ys zs where e: "xs = ys @ (k, v) # zs" "\<And>v'. AList.update k v' xs = ys @ (k, v') # zs"
      using Cons x by auto
    then have "x # xs = (x # ys) @ (k, v) # zs \<and> (\<forall>v'. AList.update k v' (x # xs) = (x # ys) @ (k, v') # zs)"
      using x False e(2) by (simp add: e(1))
    then show ?thesis by blast
  qed
qed simp

lemma tools_of_map: "tools_of d (map_remote_loop d seen ts)"
  by (induction d seen ts rule: map_remote_loop.induct) (simp_all add: tools_of_def Let_def)

lemma laws_now: "mcp_client_laws V opn \<Longrightarrow> me_now V w = (t, w') \<Longrightarrow> opn w' = opn w"
  unfolding mcp_client_laws_def by (metis snd_conv)

lemma laws_spawn: "mcp_client_laws V opn \<Longrightarrow> opn (snd (me_spawn V command args env w)) = opn w"
  by (simp add: mcp_client_laws_def)

lemma laws_serve: "mcp_client_laws V opn \<Longrightarrow> opens opn id w (me_serve_client V p w)"
  by (simp add: mcp_client_laws_def)

lemma laws_sleep: "mcp_client_laws V opn \<Longrightarrow> opn (me_sleep V n w) = opn w"
  by (simp add: mcp_client_laws_def)

lemma laws_close: "mcp_client_laws V opn \<Longrightarrow> opn (me_close V c w) = opn w - {c}"
  by (simp add: mcp_client_laws_def)

lemma laws_list: "mcp_client_laws V opn \<Longrightarrow> opn (snd (me_list_all_tools V c w)) = opn w"
  by (simp add: mcp_client_laws_def)

lemma opens_context: "opens opn f w (m w) \<Longrightarrow> opens opn f w (act_context msg m w)"
  by (cases "m w"; cases "fst (m w)") (simp_all add: act_context_def)

lemma serve_context: "mcp_client_laws V opn \<Longrightarrow> opens opn id w (act_context msg (me_serve_client V p) w)"
  by (rule opens_context [of opn id w "me_serve_client V p"]) (rule laws_serve)

lemma opens_cong: "opn w1 = opn w \<Longrightarrow> opens opn f w1 r \<longleftrightarrow> opens opn f w r"
  by (cases "(opn, f, w1, r)" rule: opens.cases) simp_all

lemma laws_connect:
  assumes "mcp_client_laws V opn"
  shows "opens opn id w (connect_server V d w)"
proof -
  have spawned: "opens opn id w (act_bind (act_context msg (me_spawn V command args env))
      (\<lambda>p. act_context msg' (me_serve_client V p)) w)" for msg msg' command args env
  proof (cases "act_context msg (me_spawn V command args env) w")
    case (Pair r w1)
    then have "opn w1 = opn w" using laws_spawn [OF assms, of command args env w]
      by (cases "me_spawn V command args env w"; cases "fst (me_spawn V command args env w)") (simp_all add: act_context_def)
    then have "opens opn id w (act_context msg' (me_serve_client V p) w1)" for p
      using serve_context [OF assms, of w1] opens_cong [of opn w1 w] by blast
    then show ?thesis using Pair \<open>opn w1 = opn w\<close> by (cases r) (simp_all add: act_bind_def)
  qed
  show ?thesis
    using spawned serve_context [OF assms]
    by (simp add: connect_server_def act_fail_def split: mcp_transport.split option.split)
qed

lemma probe_once_opens:
  assumes "mcp_client_laws V opn"
  shows "opens opn fst w (probe_server_once V d w)"
proof (cases "connect_server V d w")
  case (Pair r w1)
  note c = laws_connect [OF assms, of w d, unfolded Pair]
  show ?thesis
  proof (cases r)
    case (Inl e)
    then show ?thesis using Pair c by (simp add: probe_server_once_def act_bind_def act_context_def)
  next
    case (Inr client)
    obtain r2 w2 where l: "me_list_all_tools V client w1 = (r2, w2)" by (cases "me_list_all_tools V client w1")
    have "opn w2 = opn w1" using laws_list [OF assms, of client w1] l by simp
    then show ?thesis using c l Inr Pair laws_close [OF assms]
      by (cases r2) (simp_all add: probe_server_once_def act_bind_def act_context_def)
  qed
qed

lemma probe_once_tools:
  assumes "probe_server_once V d w = (Inr (c, ts), w')"
  shows "tools_of d ts"
proof (cases "act_context (str ''failed to connect mcp server `'' @ md_name d @ str ''`'') (connect_server V d) w")
  case (Pair r w1)
  then show ?thesis using assms
    by (cases r; cases "me_list_all_tools V (projr r) w1"; cases "fst (me_list_all_tools V (projr r) w1)")
      (auto simp: probe_server_once_def act_bind_def map_remote_tools_def tools_of_map)
qed

lemma probe_loop_opens:
  assumes "mcp_client_laws V opn"
  shows "opens opn fst w (probe_loop V d n w)"
proof (induction n arbitrary: w)
  case (Suc n)
  show ?case
  proof (cases "probe_server_once V d w")
    case (Pair r w1)
    note p = probe_once_opens [OF assms, of w d, unfolded Pair]
    show ?thesis
    proof (cases r)
      case (Inl e)
      let ?w = "me_sleep V STREAMABLE_HTTP_PROBE_DELAY_MS w1"
      have "opn ?w = opn w" using Inl p laws_sleep [OF assms] by simp
      then have "opens opn fst w (probe_loop V d n ?w)" using Suc [of ?w] opens_cong [of opn ?w w] by blast
      then show ?thesis using Pair Inl p by simp
    next
      case (Inr result)
      then show ?thesis using p Pair by simp
    qed
  qed
qed (simp add: act_fail_def)

lemma probe_loop_tools: "probe_loop V d n w = (Inr (c, ts), w') \<Longrightarrow> tools_of d ts"
proof (induction n arbitrary: w)
  case (Suc n)
  show ?case
  proof (cases "probe_server_once V d w")
    case (Pair r w1)
    then show ?thesis using Suc probe_once_tools [of V d w c ts w1] by (cases r) (auto split: if_splits)
  qed
qed (simp add: act_fail_def)

lemma accounted_replace:
  assumes "accounted opn (m, ps)" "map_of (mm_servers m) name = Some z"
    and close: "\<forall>c w. opn (me_close V c w) = opn w - {c}"
    and new: "mset (client_list (mz_client z') @ concat (map probe_clients ps'))
              = mset (new @ concat (map probe_clients ps))"
    and world: "opn w1 = set new \<union> opn (mm_world m)" "distinct new" "set new \<inter> opn (mm_world m) = {}"
  shows "accounted opn (close_client V (mz_client z) (put_server name z' (m\<lparr>mm_world := w1\<rparr>)), ps')"
proof -
  obtain ys zs where split: "mm_servers m = ys @ (name, z) # zs"
    "AList.update name z' (mm_servers m) = ys @ (name, z') # zs"
    using map_of_split [OF assms(2)] by blast
  let ?m = "close_client V (mz_client z) (put_server name z' (m\<lparr>mm_world := w1\<rparr>))"
  let ?rest = "held_clients ys @ held_clients zs"
  have servers: "mm_servers ?m = ys @ (name, z') # zs"
    by (simp add: close_client_def put_server_def split(2) split: option.split)
  have world': "opn (mm_world ?m) = opn w1 - set (client_list (mz_client z))"
    using close by (simp add: close_client_def put_server_def client_list_def split: option.split)
  let ?old = "client_list (mz_client z) @ ?rest @ concat (map probe_clients ps)"
  let ?clients = "held_clients (mm_servers ?m) @ concat (map probe_clients ps')"
  have old: "distinct ?old" "set ?old = opn (mm_world m)"
    using assms(1) by (auto simp: accounted_def split(1) held_clients_def Let_def)
  have "mset ?clients = mset (?rest @ (client_list (mz_client z') @ concat (map probe_clients ps')))"
    by (simp add: servers held_clients_def)
  also have "\<dots> = mset (?rest @ new @ concat (map probe_clients ps))"
    using new by simp
  finally have eq: "mset ?clients = mset (?rest @ new @ concat (map probe_clients ps))" .
  have "distinct (?rest @ new @ concat (map probe_clients ps))" using old world(2,3) by auto
  then have "distinct ?clients" using mset_eq_imp_distinct_iff [OF eq] by simp
  moreover have "set ?clients = opn (mm_world ?m)"
    using mset_eq_setD [OF eq] old world(1,3) world' by auto
  ultimately show ?thesis by (simp add: accounted_def Let_def)
qed

lemma mm_servers_close [simp]: "mm_servers (close_client V c m) = mm_servers m"
  by (simp add: close_client_def split: option.split)

lemma mm_servers_put [simp]: "mm_servers (put_server name z m) = AList.update name z (mm_servers m)"
  by (simp add: put_server_def)

lemma servers_ok_member: "servers_ok xs \<Longrightarrow> map_of xs name = Some z \<Longrightarrow> server_ok name z"
  by (auto simp: servers_ok_def list_all_iff dest: map_of_SomeD)

lemma servers_ok_put:
  assumes "servers_ok xs" "server_ok name z"
  shows "servers_ok (AList.update name z xs)"
  using assms unfolding servers_ok_def
proof (intro conjI)
  show "distinct (map fst (AList.update name z xs))" using assms(1) by (simp add: servers_ok_def distinct_update)
  have "set (AList.update name z xs) \<subseteq> insert (name, z) (set xs)" by (induction xs) auto
  then show "list_all (\<lambda>(name, z). server_ok name z) (AList.update name z xs)"
    using assms by (auto simp: servers_ok_def list_all_iff)
qed

lemma probes_ok_mono:
  assumes "probes_ok xs ps"
    and "\<And>n z. map_of xs n = Some z \<Longrightarrow> \<exists>z'. map_of ys n = Some z' \<and> mz_definition z' = mz_definition z"
  shows "probes_ok ys ps"
proof -
  have "probe_ok xs p \<Longrightarrow> probe_ok ys p" for p
    unfolding probe_ok_def using assms(2) by metis
  then show ?thesis using assms(1) by (auto simp: probes_ok_def list_all_iff)
qed

lemma probes_ok_put:
  "probes_ok xs ps \<Longrightarrow> map_of xs name = Some z \<Longrightarrow> mz_definition z' = mz_definition z
   \<Longrightarrow> probes_ok (AList.update name z' xs) ps"
  by (rule probes_ok_mono) (auto simp: update_conv')

lemma probes_ok_new: "probes_ok xs ps \<Longrightarrow> map_of xs name = None \<Longrightarrow> probes_ok (AList.update name z xs) ps"
  by (rule probes_ok_mono) (auto simp: update_conv')

text \<open>Every known server is well-formed, and a probe under way is one of a known server.\<close>

definition mcp_wf :: "('w, 'c) mcp_manager \<times> 'c mcp_probe list \<Rightarrow> bool" where
  "mcp_wf s \<longleftrightarrow> servers_ok (mm_servers (fst s)) \<and> probes_ok (mm_servers (fst s)) (snd s)"

lemma register_run:
  "snd (mcp_register d m) = m \<or>
   (mcp_validate d = Inr () \<and> map_of (mm_servers m) (md_name d) = None \<and>
    snd (mcp_register d m) = put_server (md_name d)
      \<lparr>mz_definition = d, mz_enabled = False, mz_allow_thread_load = True, mz_state = McpDisabled,
       mz_last_error = None, mz_last_checked_at = None, mz_discovered_tools = [], mz_client = None\<rparr> m)"
  by (auto simp: mcp_register_def put_server_def split: sum.split)

lemma server_ok_new:
  "mcp_validate d = Inr () \<Longrightarrow> server_ok (md_name d)
     \<lparr>mz_definition = d, mz_enabled = False, mz_allow_thread_load = True, mz_state = McpDisabled,
      mz_last_error = None, mz_last_checked_at = None, mz_discovered_tools = [], mz_client = None\<rparr>"
  by (simp add: server_ok_def tools_of_def)

lemma disable_run:
  "snd (disable_server V name m) = m \<or>
   (\<exists>z now w1. map_of (mm_servers m) name = Some z \<and> me_now V (mm_world m) = (now, w1) \<and>
     snd (disable_server V name m) = close_client V (mz_client z) (put_server name
       (z\<lparr>mz_enabled := False, mz_allow_thread_load := False, mz_state := McpDisabled,
          mz_discovered_tools := [], mz_last_checked_at := Some now, mz_client := None\<rparr>) (m\<lparr>mm_world := w1\<rparr>)))"
  by (auto simp: disable_server_def Let_def split: option.split prod.split)

definition probed_server :: "time \<Rightarrow> err + 'c \<times> mcp_visible_tool list \<Rightarrow> 'c managed_mcp_server \<Rightarrow> 'c managed_mcp_server" where
  "probed_server t r z = (case r of
      Inr (client, discovered_tools) \<Rightarrow>
        z\<lparr>mz_enabled := True, mz_allow_thread_load := True, mz_state := McpHealthy, mz_last_error := None,
          mz_last_checked_at := Some t, mz_discovered_tools := discovered_tools, mz_client := Some client\<rparr>
    | Inl error \<Rightarrow>
        z\<lparr>mz_enabled := True, mz_allow_thread_load := True, mz_state := McpUnhealthy,
          mz_last_error := Some (err_display_alt error), mz_last_checked_at := Some t,
          mz_discovered_tools := [], mz_client := None\<rparr>)"

lemma apply_probe_run:
  "map_of (mm_servers m) name = Some z \<Longrightarrow>
   snd (apply_probe V name t r m) = close_client V (mz_client z) (put_server name (probed_server t r z) m)"
  by (auto simp: apply_probe_def probed_server_def Let_def split: sum.split)

lemma begin_probe_run:
  assumes "begin_probe V name m = (Inr (t, r), m')"
  obtains z w1 w2 where "map_of (mm_servers m) name = Some z" "me_now V (mm_world m) = (t, w1)"
    "probe_server V (mz_definition z) w1 = (r, w2)" "m' = m\<lparr>mm_world := w2\<rparr>"
  using assms by (auto simp: begin_probe_def mcp_server_definition_of_def split: option.splits prod.splits)

lemma call_tool_servers: "mm_servers (snd (mcp_call_tool V s n j m)) = mm_servers m"
proof (cases "map_of (mm_servers m) s")
  case (Some z)
  show ?thesis
  proof (cases "mz_client z")
    case c: (Some client)
    show ?thesis
    proof (cases "call_arguments V n j")
      case (Inr args)
      obtain r w where "me_call_tool V client n args (mm_world m) = (r, w)"
        by (cases "me_call_tool V client n args (mm_world m)")
      then show ?thesis
        by (cases r) (simp_all add: mcp_call_tool_def Some c Inr act_bind_def act_lift_def on_mcp_world_def act_context_def act_ret_def)
    qed (simp add: mcp_call_tool_def Some c act_bind_def act_lift_def)
  qed (simp add: mcp_call_tool_def Some)
qed (simp add: mcp_call_tool_def)

lemma call_tool_open:
  assumes "mcp_client_laws V opn"
  shows "opn (mm_world (snd (mcp_call_tool V s n j m))) = opn (mm_world m)"
proof (cases "map_of (mm_servers m) s")
  case (Some z)
  show ?thesis
  proof (cases "mz_client z")
    case c: (Some client)
    show ?thesis
    proof (cases "call_arguments V n j")
      case (Inr args)
      obtain r w where call: "me_call_tool V client n args (mm_world m) = (r, w)"
        by (cases "me_call_tool V client n args (mm_world m)")
      then have "opn w = opn (mm_world m)" using assms unfolding mcp_client_laws_def by (metis snd_conv)
      then show ?thesis using call
        by (cases r) (simp_all add: mcp_call_tool_def Some c Inr act_bind_def act_lift_def on_mcp_world_def act_context_def act_ret_def)
    qed (simp add: mcp_call_tool_def Some c act_bind_def act_lift_def)
  qed (simp add: mcp_call_tool_def Some)
qed (simp add: mcp_call_tool_def)

lemma wf_put:
  assumes "servers_ok xs" "probes_ok xs ps" "map_of xs name = Some z" "server_ok name z'" "mz_definition z' = mz_definition z"
  shows "servers_ok (AList.update name z' xs)" "probes_ok (AList.update name z' xs) ps"
  using assms by (auto intro: servers_ok_put probes_ok_put)

lemma wf_step:
  assumes "mcp_step V s l s'" "mcp_wf s"
  shows "mcp_wf s'"
  using assms(1)
proof cases
  case (step_register m ps d)
  have inv: "servers_ok (mm_servers m)" "probes_ok (mm_servers m) ps"
    using assms(2) step_register by (simp_all add: mcp_wf_def)
  show ?thesis using register_run [of d m]
  proof (elim disjE conjE)
    assume "mcp_validate d = Inr ()" "map_of (mm_servers m) (md_name d) = None"
      and run: "snd (mcp_register d m) = put_server (md_name d)
      \<lparr>mz_definition = d, mz_enabled = False, mz_allow_thread_load = True, mz_state = McpDisabled,
       mz_last_error = None, mz_last_checked_at = None, mz_discovered_tools = [], mz_client = None\<rparr> m"
    then show ?thesis using servers_ok_put [OF inv(1) server_ok_new] probes_ok_new [OF inv(2)]
      by (simp add: mcp_wf_def step_register run)
  qed (use inv step_register in \<open>simp add: mcp_wf_def\<close>)
next
  case (step_disable m ps name)
  have inv: "servers_ok (mm_servers m)" "probes_ok (mm_servers m) ps"
    using assms(2) step_disable by (simp_all add: mcp_wf_def)
  show ?thesis using disable_run [of V name m]
  proof (elim disjE exE conjE)
    fix z now w1
    assume z: "map_of (mm_servers m) name = Some z"
      and run: "snd (disable_server V name m) = close_client V (mz_client z) (put_server name
       (z\<lparr>mz_enabled := False, mz_allow_thread_load := False, mz_state := McpDisabled,
          mz_discovered_tools := [], mz_last_checked_at := Some now, mz_client := None\<rparr>) (m\<lparr>mm_world := w1\<rparr>))"
    have "server_ok name (z\<lparr>mz_enabled := False, mz_allow_thread_load := False, mz_state := McpDisabled,
          mz_discovered_tools := [], mz_last_checked_at := Some now, mz_client := None\<rparr>)"
      using servers_ok_member [OF inv(1) z] by (simp add: server_ok_def tools_of_def)
    then show ?thesis using wf_put [OF inv z] by (simp add: mcp_wf_def step_disable run)
  qed (use inv step_disable in \<open>simp add: mcp_wf_def\<close>)
next
  case (step_call m ps)
  then show ?thesis using assms(2) by (simp add: mcp_wf_def call_tool_servers)
next
  case (step_begin name m t r m' ps)
  obtain z w1 w2 where z: "map_of (mm_servers m) name = Some z"
    and probe: "probe_server V (mz_definition z) w1 = (r, w2)" and m': "m' = m\<lparr>mm_world := w2\<rparr>"
    by (rule begin_probe_run [OF step_begin(4)])
  have "probe_ok (mm_servers m) (name, t, r)"
    using z probe probe_loop_tools unfolding probe_ok_def probe_server_def by fastforce
  then show ?thesis using assms(2) step_begin m' by (simp add: mcp_wf_def probes_ok_def)
next
  case (step_finish m ps1 name t r ps2)
  have inv: "servers_ok (mm_servers m)" "probes_ok (mm_servers m) (ps1 @ ps2)" "probe_ok (mm_servers m) (name, t, r)"
    using assms(2) step_finish by (simp_all add: mcp_wf_def probes_ok_def)
  then obtain z where z: "map_of (mm_servers m) name = Some z"
    and tools: "\<And>c ts. r = Inr (c, ts) \<Longrightarrow> tools_of (mz_definition z) ts"
    by (auto simp: probe_ok_def)
  have "server_ok name (probed_server t r z)"
    using servers_ok_member [OF inv(1) z] tools by (auto simp: server_ok_def probed_server_def tools_of_def split: sum.split)
  moreover have "mz_definition (probed_server t r z) = mz_definition z"
    by (auto simp: probed_server_def split: sum.split)
  ultimately show ?thesis using wf_put [OF inv(1,2) z]
    by (simp add: mcp_wf_def step_finish apply_probe_run [OF z])
qed

lemma accounted_step:
  assumes "mcp_client_laws V opn" "mcp_step V s l s'" "mcp_wf s" "accounted opn s"
  shows "accounted opn s'"
  using assms(2)
proof cases
  case (step_register m ps d)
  have "held_clients (mm_servers (snd (mcp_register d m))) = held_clients (mm_servers m)"
    "mm_world (snd (mcp_register d m)) = mm_world m"
    using register_run [of d m] by (auto simp: update_new held_clients_def client_list_def put_server_def)
  then show ?thesis using assms(4) step_register by (simp add: accounted_def)
next
  case (step_disable m ps name)
  show ?thesis using disable_run [of V name m]
  proof (elim disjE exE conjE)
    fix z now w1
    assume "map_of (mm_servers m) name = Some z" "me_now V (mm_world m) = (now, w1)"
      and run: "snd (disable_server V name m) = close_client V (mz_client z) (put_server name
       (z\<lparr>mz_enabled := False, mz_allow_thread_load := False, mz_state := McpDisabled,
          mz_discovered_tools := [], mz_last_checked_at := Some now, mz_client := None\<rparr>) (m\<lparr>mm_world := w1\<rparr>))"
    then show ?thesis
      unfolding step_disable run using assms(4) laws_close [OF assms(1)] laws_now [OF assms(1)]
      by (intro accounted_replace [where new = "[]"]) (simp_all add: step_disable client_list_def)
  qed (use assms(4) step_disable in simp)
next
  case (step_call m ps s n j)
  have "opn (mm_world (snd (mcp_call_tool V s n j m))) = opn (mm_world m)"
    using call_tool_open [OF assms(1)] .
  then show ?thesis using assms(4) step_call by (simp add: accounted_def call_tool_servers)
next
  case (step_begin name m t r m' ps)
  obtain z w1 w2 where "map_of (mm_servers m) name = Some z" and now: "me_now V (mm_world m) = (t, w1)"
    and probe: "probe_server V (mz_definition z) w1 = (r, w2)" and m': "m' = m\<lparr>mm_world := w2\<rparr>"
    by (rule begin_probe_run [OF step_begin(4)])
  have w1: "opn w1 = opn (mm_world m)" by (rule laws_now [OF assms(1) now])
  have o: "opens opn fst (mm_world m) (r, w2)"
    using probe_loop_opens [OF assms(1), of w1 "mz_definition z" "max_probe_attempts (mz_definition z)"] probe
      opens_cong [of opn w1 "mm_world m" fst "(r, w2)", OF w1] by (simp add: probe_server_def)
  then show ?thesis using assms(4) step_begin by (cases r) (auto simp: accounted_def m' Let_def)
next
  case (step_finish m ps1 name t r ps2)
  then obtain z where z: "map_of (mm_servers m) name = Some z"
    using assms(3) by (auto simp: mcp_wf_def probes_ok_def probe_ok_def)
  have "accounted opn (close_client V (mz_client z) (put_server name (probed_server t r z) (m\<lparr>mm_world := mm_world m\<rparr>)), ps1 @ ps2)"
    using assms(4) step_finish z laws_close [OF assms(1)]
    by (intro accounted_replace [where new = "[]" and ps = "ps1 @ (name, t, r) # ps2"])
      (auto simp: probed_server_def client_list_def split: sum.split)
  then show ?thesis by (simp add: step_finish apply_probe_run [OF z])
qed

lemma wf_trace: "mcp_trace V s ls s' \<Longrightarrow> mcp_wf s \<Longrightarrow> mcp_wf s'"
  by (induction rule: mcp_trace.induct) (auto intro: wf_step)

lemma accounted_trace:
  "mcp_trace V s ls s' \<Longrightarrow> mcp_client_laws V opn \<Longrightarrow> mcp_wf s \<Longrightarrow> accounted opn s \<Longrightarrow> accounted opn s'"
  by (induction rule: mcp_trace.induct) (auto intro: accounted_step wf_trace)

lemma wf_new: "mcp_wf (mcp_manager_new w, [])"
  by (simp add: mcp_wf_def mcp_manager_new_def servers_ok_def probes_ok_def)

text \<open>
  C30: connections are accounted for. In every run of the manager, with probes of several calls under way at
  once, servers are filed once and under their own name, each is healthy with a client, unhealthy with an error
  and no tools, or disabled with neither, and the connections that are open are exactly the clients the servers
  hold and those of the probes under way, each of them once: no connection leaks and none is closed twice.
\<close>

theorem mcp_connections_are_accounted:
  assumes "mcp_client_laws V opn" "opn w = {}"
    and "mcp_trace V (mcp_manager_new w, []) ls (m, ps)"
  shows "distinct (map fst (mm_servers m))
    \<and> list_all (\<lambda>(name, z). server_ok name z) (mm_servers m)
    \<and> distinct (held_clients (mm_servers m) @ concat (map probe_clients ps))
    \<and> set (held_clients (mm_servers m) @ concat (map probe_clients ps)) = opn (mm_world m)"
proof -
  have "accounted opn (mcp_manager_new w, [])"
    using assms(2) by (simp add: accounted_def mcp_manager_new_def held_clients_def)
  then have "accounted opn (m, ps)" by (rule accounted_trace [OF assms(3,1) wf_new])
  then show ?thesis using wf_trace [OF assms(3) wf_new] by (simp add: mcp_wf_def servers_ok_def accounted_def Let_def)
qed

section \<open>A library for examples\<close>

text \<open>The state is the list of open connections; a server named in the command lists the tools \<open>a\<close>, \<open>a\<close> and \<open>a\_2\<close>.\<close>

definition demo_remote_tool :: "string \<Rightarrow> mcp_remote_tool" where
  "demo_remote_tool name = \<lparr>rt_name = str name, rt_description = None, rt_input_schema = []\<rparr>"

definition demo_mcp_env :: "(nat list, unit, nat) mcp_env" where
  "demo_mcp_env =
     \<lparr>me_spawn = (\<lambda>_ _ _ w. (Inr (), w)), me_http_transport = (\<lambda>_. ()),
      me_serve_client = (\<lambda>_ w. (Inr (Suc (sum_list w)), Suc (sum_list w) # w)),
      me_list_all_tools = (\<lambda>_ w. (Inr (map demo_remote_tool [''a'', ''a'', ''a_2'']), w)),
      me_close = (\<lambda>c w. removeAll c w),
      me_call_tool = (\<lambda>_ n _ w. (Inr \<lparr>mk_content = [McpText n], mk_structured_content = None, mk_is_error = None\<rparr>, w)),
      me_now = (\<lambda>w. (0, w)), me_sleep = (\<lambda>_ w. w), me_json_text = (\<lambda>_. [])\<rparr>"

definition demo_mcp_server :: mcp_server_definition where
  "demo_mcp_server =
     \<lparr>md_name = str ''s'', md_transport = Stdio, md_enabled = True, md_command = Some (str ''x''), md_args = [],
      md_env = [], md_url = None\<rparr>"

lemma demo_mcp_sel [simp]: "me_now demo_mcp_env w = (0, w)" "me_close demo_mcp_env c w = removeAll c w"
  by (simp_all add: demo_mcp_env_def)

lemma demo_mcp_laws: "mcp_client_laws demo_mcp_env set"
proof -
  have "Suc (sum_list w) \<notin> set w" for w :: "nat list"
    using member_le_sum_list [of "Suc (sum_list w)" w] by auto
  then show ?thesis by (simp add: mcp_client_laws_def demo_mcp_env_def)
qed

lemma str_s_trim: "trim (str ''s'') = str ''s''" "trim (str ''x'') = str ''x''"
  by (simp_all add: str_def trim_def trim_start_def trim_end_def is_whitespace_def)

lemma demo_mcp_load:
  "load_definitions demo_mcp_env [demo_mcp_server] (mcp_manager_new []) =
   (Inr (), \<lparr>mm_servers = [(str ''s'',
      \<lparr>mz_definition = demo_mcp_server, mz_enabled = True, mz_allow_thread_load = True, mz_state = McpHealthy,
       mz_last_error = None, mz_last_checked_at = Some 0,
       mz_discovered_tools = map_remote_tools demo_mcp_server (map demo_remote_tool [''a'', ''a'', ''a_2'']),
       mz_client = Some 1\<rparr>)], mm_world = [1]\<rparr>)"
  by (simp add: load_definitions_def act_bind_def mcp_register_def mcp_validate_def demo_mcp_server_def str_s_trim
      mcp_manager_new_def act_ret_def startup_enable_def enable_server_def begin_probe_def mcp_server_definition_of_def
      demo_mcp_env_def probe_server_def max_probe_attempts_def probe_server_once_def connect_server_def act_context_def
      apply_probe_def put_server_def close_client_def mcp_server_snapshot_of_def Let_def)

theorem mcp_connections_are_accounted_witness:
  "\<exists>ls m. mcp_trace demo_mcp_env (mcp_manager_new [], []) ls (m, []) \<and> mm_world m = [1]
     \<and> set (held_clients (mm_servers m)) = {1}"
proof -
  let ?m = "snd (load_definitions demo_mcp_env [demo_mcp_server] (mcp_manager_new []))"
  obtain ls where ls: "mcp_trace demo_mcp_env (mcp_manager_new [], []) ls (?m, [])" using load_is_trace by blast
  have w: "mm_world ?m = [1]" by (simp add: demo_mcp_load)
  have "set (held_clients (mm_servers ?m)) = set (mm_world ?m)"
    using mcp_connections_are_accounted [OF demo_mcp_laws _ ls] by simp
  then show ?thesis using ls w by (intro exI conjI) simp_all
qed

section \<open>A disabled server stays off\<close>

definition server_off :: "rstring \<Rightarrow> ('w, 'c) mcp_manager \<Rightarrow> bool" where
  "server_off name m \<longleftrightarrow> (\<exists>z. map_of (mm_servers m) name = Some z \<and> \<not> mz_enabled z \<and> \<not> mz_allow_thread_load z
     \<and> mz_state z = McpDisabled \<and> mz_discovered_tools z = [] \<and> mz_client z = None)"

lemma server_off_servers: "mm_servers m = mm_servers m' \<Longrightarrow> server_off name m = server_off name m'"
  by (simp add: server_off_def)

lemma server_off_put: "n \<noteq> name \<Longrightarrow> server_off name (put_server n z m) = server_off name m"
  by (simp add: server_off_def update_conv')

lemma server_off_close [simp]: "server_off name (close_client V c m) = server_off name m"
  by (rule server_off_servers) simp

lemma server_off_world [simp]: "server_off name (m\<lparr>mm_world := w\<rparr>) = server_off name m"
  by (rule server_off_servers) simp

lemma disable_turns_off:
  assumes "disable_server V name m = (Inr snap, m1)"
  shows "server_off name m1"
proof -
  obtain z where z: "map_of (mm_servers m) name = Some z"
    using assms by (auto simp: disable_server_def split: option.splits)
  then show ?thesis
    using assms by (auto simp: disable_server_def Let_def server_off_def update_conv' split: prod.splits)
qed

lemma disable_keeps_off: "server_off name m \<Longrightarrow> server_off name (snd (disable_server V n m))"
proof (cases "n = name")
  case False
  assume "server_off name m"
  then show ?thesis using disable_run [of V n m] False by (auto simp: server_off_put)
next
  case True
  assume "server_off name m"
  then show ?thesis using disable_run [of V n m] True by (auto simp: server_off_def update_conv')
qed

lemma off_step:
  assumes "mcp_step V s l s'" "server_off name (fst s)" "name \<notin> fst ` set (snd s)" "l \<noteq> McpBegin name"
  shows "server_off name (fst s') \<and> name \<notin> fst ` set (snd s')"
  using assms(1)
proof cases
  case (step_register m ps d)
  have "md_name d \<noteq> name" if "map_of (mm_servers m) (md_name d) = None"
    using that assms(2) step_register by (auto simp: server_off_def)
  then show ?thesis using register_run [of d m] assms step_register by (auto simp: server_off_put)
next
  case (step_disable m ps n)
  then show ?thesis using assms disable_keeps_off [of name m V n] by simp
next
  case (step_call m ps sn n j)
  then show ?thesis using assms server_off_servers [OF call_tool_servers [of V sn n j m]] by simp
next
  case (step_begin n m t r m' ps)
  obtain z w1 w2 where "map_of (mm_servers m) n = Some z" "me_now V (mm_world m) = (t, w1)"
    "probe_server V (mz_definition z) w1 = (r, w2)" "m' = m\<lparr>mm_world := w2\<rparr>"
    by (rule begin_probe_run [OF step_begin(4)])
  then show ?thesis using assms step_begin by auto
next
  case (step_finish m ps1 n t r ps2)
  then have "n \<noteq> name" using assms(3) by auto
  moreover have "map_of (mm_servers m) n = None \<Longrightarrow> snd (apply_probe V n t r m) = m" by (simp add: apply_probe_def)
  ultimately show ?thesis using assms step_finish apply_probe_run [of m n _ V t r]
    by (cases "map_of (mm_servers m) n") (auto simp: server_off_put)
qed

lemma off_trace:
  "mcp_trace V s ls s' \<Longrightarrow> server_off name (fst s) \<Longrightarrow> name \<notin> fst ` set (snd s) \<Longrightarrow> McpBegin name \<notin> set ls
   \<Longrightarrow> server_off name (fst s') \<and> name \<notin> fst ` set (snd s')"
proof (induction rule: mcp_trace.induct)
  case (trace_snoc s ls s' l s'')
  then show ?case using off_step [of V s' l s'' name] by auto
qed simp

text \<open>
  C31: a disabled server stays off. Once a server has been disabled with no probe of it under way, then until a
  call begins a new probe of it, whatever else is done, its tools cannot be loaded and none is visible, a call
  of one fails without reaching the network, and a refresh leaves it as it is.
\<close>

theorem mcp_disabled_server_stays_off:
  assumes "mcp_trace V (mcp_manager_new w, []) ls0 (m0, ps0)" "name \<notin> fst ` set ps0"
    and "disable_server V name m0 = (Inr snap, m1)"
    and "mcp_trace V (m1, ps0) ls (m, ps)" "McpBegin name \<notin> set ls"
  shows "ensure_server_tools V name m = (Inl (bail (str ''mcp server `'' @ name @ str ''` is disabled'')), m)
    \<and> list_all (\<lambda>t. mv_server_name t \<noteq> name) (visible_tools m)
    \<and> mcp_call_tool V name tool arguments m = (Inl (bail (str ''mcp server `'' @ name @ str ''` is not connected'')), m)
    \<and> (\<exists>snap. refresh_server V name m = (Inr snap, m) \<and> mn_state snap = McpDisabled \<and> mn_tool_count snap = 0)"
proof -
  have "server_off name m"
    using off_trace [OF assms(4), of name] disable_turns_off [OF assms(3)] assms(2,5) by simp
  then obtain z where z: "map_of (mm_servers m) name = Some z" "\<not> mz_enabled z" "\<not> mz_allow_thread_load z"
    "mz_state z = McpDisabled" "mz_discovered_tools z = []" "mz_client z = None"
    by (auto simp: server_off_def)
  have "mcp_trace V (m0, ps0) [McpOther] (m1, ps0)"
    using trace_one [OF step_disable [of V m0 ps0 name]] assms(3) by simp
  then have "mcp_trace V (mcp_manager_new w, []) ((ls0 @ [McpOther]) @ ls) (m, ps)"
    using assms(1,4) by (blast intro: trace_append)
  then have ok: "servers_ok (mm_servers m)" using wf_trace [OF _ wf_new] by (fastforce simp: mcp_wf_def)
  have "mv_server_name t \<noteq> name" if t: "t \<in> set (visible_tools m)" for t
  proof -
    obtain n y where y: "(n, y) \<in> set (mm_servers m)" "mz_enabled y" "t \<in> set (mz_discovered_tools y)"
      using t by (auto simp: visible_tools_def)
    then have "server_ok n y" "map_of (mm_servers m) n = Some y" using ok by (auto simp: servers_ok_def list_all_iff)
    then show ?thesis using y z by (auto simp: server_ok_def tools_of_def list_all_iff)
  qed
  then show ?thesis using z
    by (simp add: ensure_server_tools_def mcp_call_tool_def refresh_server_def mcp_server_snapshot_of_def
        mcp_snapshot_def list_all_iff)
qed

theorem mcp_disabled_server_stays_off_witness:
  "\<exists>m. snd (disable_server demo_mcp_env (str ''s'') (snd (load_definitions demo_mcp_env [demo_mcp_server] (mcp_manager_new [])))) = m
     \<and> mm_world m = [] \<and> ensure_server_tools demo_mcp_env (str ''s'') m
         = (Inl (bail (str ''mcp server `'' @ str ''s'' @ str ''` is disabled'')), m)"
proof -
  let ?m0 = "snd (load_definitions demo_mcp_env [demo_mcp_server] (mcp_manager_new []))"
  obtain ls where ls: "mcp_trace demo_mcp_env (mcp_manager_new [], []) ls (?m0, [])" using load_is_trace by blast
  obtain snap m where d: "disable_server demo_mcp_env (str ''s'') ?m0 = (Inr snap, m)" and w: "mm_world m = []"
    by (simp add: disable_server_def demo_mcp_load put_server_def close_client_def mcp_server_snapshot_of_def Let_def)
  have "ensure_server_tools demo_mcp_env (str ''s'') m
      = (Inl (bail (str ''mcp server `'' @ str ''s'' @ str ''` is disabled'')), m)"
    using mcp_disabled_server_stays_off [OF ls _ d trace_nil] by simp
  then show ?thesis using d w by (intro exI [of _ m]) simp
qed

text \<open>A probe that was under way when its server was disabled undoes that: its result enables the server again.\<close>

theorem probe_undoes_disable:
  assumes "disable_server V name m = (Inr snap, m1)"
  shows "\<exists>snap m2. apply_probe V name t (Inr (client, tools)) m1 = (Inr snap, m2) \<and> mn_enabled snap
    \<and> mn_state snap = McpHealthy \<and> visible_tools_for_server name m2 = Inr tools"
proof -
  obtain z where "map_of (mm_servers m1) name = Some z"
    using disable_turns_off [OF assms] by (auto simp: server_off_def)
  then show ?thesis
    by (simp add: apply_probe_def Let_def mcp_server_snapshot_of_def visible_tools_for_server_def update_conv' mcp_snapshot_def)
qed

section \<open>Probing is bounded\<close>

text \<open>The states before each attempt: an attempt that fails is followed by a pause.\<close>

fun attempt_worlds :: "('w, 'p, 'c) mcp_env \<Rightarrow> mcp_server_definition \<Rightarrow> nat \<Rightarrow> 'w \<Rightarrow> 'w" where
  "attempt_worlds V d 0 w = w"
| "attempt_worlds V d (Suc k) w = attempt_worlds V d k (me_sleep V STREAMABLE_HTTP_PROBE_DELAY_MS (snd (probe_server_once V d w)))"

lemma probe_loop_first:
  "probe_loop V d (Suc n) w = probe_server_once V d (attempt_worlds V d k w)"
  if "k \<le> n" "\<forall>i<k. isl (fst (probe_server_once V d (attempt_worlds V d i w)))"
    "k = n \<or> \<not> isl (fst (probe_server_once V d (attempt_worlds V d k w)))"
  using that
proof (induction n arbitrary: k w)
  case 0
  then show ?case by (cases "probe_server_once V d w"; cases "fst (probe_server_once V d w)") auto
next
  case (Suc n)
  obtain r w1 where p: "probe_server_once V d w = (r, w1)" by (cases "probe_server_once V d w")
  show ?case
  proof (cases k)
    case 0
    then show ?thesis using Suc.prems p by (cases r) auto
  next
    case (Suc k')
    have "isl r" using Suc.prems(2) p Suc by fastforce
    let ?w = "me_sleep V STREAMABLE_HTTP_PROBE_DELAY_MS w1"
    have shift: "attempt_worlds V d (Suc i) w = attempt_worlds V d i ?w" for i using p by simp
    have "probe_loop V d (Suc n) ?w = probe_server_once V d (attempt_worlds V d k' ?w)"
    proof (rule Suc.IH)
      show "\<forall>i<k'. isl (fst (probe_server_once V d (attempt_worlds V d i ?w)))"
        using Suc.prems(2) Suc shift by (metis Suc_less_eq)
    qed (use Suc.prems Suc shift in auto)
    then show ?thesis using p \<open>isl r\<close> Suc shift by (cases r) simp_all
  qed
qed

text \<open>
  A probe makes attempts until the first that succeeds, at most as many as its transport allows, and answers the
  last one it made: it fails only when every attempt has.
\<close>

theorem probe_tries_until_first_success:
  "\<exists>k < max_probe_attempts d. probe_server V d w = probe_server_once V d (attempt_worlds V d k w)
     \<and> (\<forall>i<k. isl (fst (probe_server_once V d (attempt_worlds V d i w))))
     \<and> (isl (fst (probe_server V d w)) \<longrightarrow>
          (\<forall>i < max_probe_attempts d. isl (fst (probe_server_once V d (attempt_worlds V d i w)))))"
proof -
  let ?fails = "\<lambda>i. isl (fst (probe_server_once V d (attempt_worlds V d i w)))"
  obtain n where n: "max_probe_attempts d = Suc n"
    by (cases "max_probe_attempts d") (auto simp: max_probe_attempts_def STREAMABLE_HTTP_PROBE_RETRIES_def split: if_splits)
  show ?thesis
  proof (cases "\<forall>i\<le>n. ?fails i")
    case True
    then have "probe_server V d w = probe_server_once V d (attempt_worlds V d n w)"
      unfolding probe_server_def n by (intro probe_loop_first) auto
    then show ?thesis using True n by (intro exI [of _ n]) auto
  next
    case False
    define k where "k = (LEAST i. \<not> ?fails i)"
    obtain j where j: "j \<le> n" "\<not> ?fails j" using False by blast
    have k: "\<not> ?fails k" "k \<le> n" "\<forall>i<k. ?fails i"
      using LeastI [of "\<lambda>i. \<not> ?fails i", OF j(2)] Least_le [of "\<lambda>i. \<not> ?fails i", OF j(2)] j(1) not_less_Least
      unfolding k_def by (blast, linarith, blast)
    then have "probe_server V d w = probe_server_once V d (attempt_worlds V d k w)"
      unfolding probe_server_def n by (intro probe_loop_first) auto
    then show ?thesis using k n by (intro exI [of _ k]) auto
  qed
qed

section \<open>Names of remote tools\<close>

lemma nat_str_chars: "list_all is_tool_char (nat_str n)"
proof (induction n rule: nat_str.induct)
  case (1 n)
  then show ?case
    using mod_less_divisor [of 10 n] by (cases "n < 10") (simp_all add: nat_str.simps [of n], simp_all add: is_tool_char_def, linarith)
qed

lemma segment_chars: "list_all is_tool_char (normalize_tool_segment s) \<and> normalize_tool_segment s \<noteq> []"
  by (auto simp: normalize_tool_segment_def list_all_iff is_tool_char_def str_def Let_def)

lemma base_name_chars: "list_all is_tool_char (mcp_base_name d t)"
  using segment_chars by (simp add: mcp_base_name_def) (simp add: is_tool_char_def str_def)

lemma exposed_name_chars: "list_all is_tool_char b \<Longrightarrow> list_all is_tool_char (exposed_name b k)"
  using nat_str_chars by (simp add: exposed_name_def) (simp add: is_tool_char_def str_def)

lemma exposed_names_loop:
  "t \<in> set (map_remote_loop d seen ts) \<Longrightarrow>
   list_all is_tool_char (td_name (mv_definition t)) \<and> starts_with (td_name (mv_definition t)) (str ''mcp__'')"
proof (induction d seen ts rule: map_remote_loop.induct)
  case (2 d seen t' ts)
  have "starts_with (exposed_name (mcp_base_name d t') k) (str ''mcp__'')" for k
    by (simp add: exposed_name_def mcp_base_name_def)
  then show ?case using 2 exposed_name_chars [OF base_name_chars] by (auto simp: Let_def)
qed simp

text \<open>Exposed names have letters, digits and underscores only, and a namespace of their own.\<close>

theorem exposed_names_are_plain:
  "t \<in> set (map_remote_tools d ts) \<Longrightarrow>
   list_all is_tool_char (td_name (mv_definition t)) \<and> starts_with (td_name (mv_definition t)) (str ''mcp__'')"
  unfolding map_remote_tools_def by (rule exposed_names_loop)

lemma distinct_names_loop:
  "distinct (map (mcp_base_name d) ts) \<Longrightarrow> \<forall>t\<in>set ts. map_of seen (mcp_base_name d t) = None \<Longrightarrow>
   map (td_name \<circ> mv_definition) (map_remote_loop d seen ts) = map (mcp_base_name d) ts"
proof (induction d seen ts rule: map_remote_loop.induct)
  case (2 d seen t ts)
  then show ?case by (simp add: Let_def exposed_name_def update_conv') (metis (no_types, lifting) imageI)
qed simp

text \<open>Remote names that differ after normalization are exposed as they are, each under its own name.\<close>

theorem distinct_remote_names_stay_distinct:
  assumes "distinct (map (mcp_base_name d) ts)"
  shows "map (td_name \<circ> mv_definition) (map_remote_tools d ts) = map (mcp_base_name d) ts"
  unfolding map_remote_tools_def by (rule distinct_names_loop) (simp_all add: assms)

text \<open>
  A numbered name can shadow a tool. When a server lists two tools whose names are the same after
  normalization and a third whose name is theirs with the number two appended, the second and the third are
  exposed under one name, and of the two handlers collected for the toolset only that of the third is left: the
  second tool cannot be called.
\<close>

theorem mcp_remote_tool_is_shadowed:
  assumes "normalize_tool_segment (rt_name b) = normalize_tool_segment (rt_name a)"
    and "normalize_tool_segment (rt_name c) = normalize_tool_segment (rt_name a) @ str ''_2''"
    and "tools = map_remote_tools d [a, b, c]"
  shows "td_name (mv_definition (tools ! 1)) = td_name (mv_definition (tools ! 2))
    \<and> map_of (collect_handlers V tools) (td_name (mv_definition (tools ! 1))) = Some (mcp_tool_handler V (tools ! 2))
    \<and> mv_remote_tool_name (tools ! 2) = rt_name c
    \<and> map fst (collect_handlers V tools) = [td_name (mv_definition (tools ! 0)), td_name (mv_definition (tools ! 2))]"
proof -
  let ?x = "mcp_base_name d a"
  have two: "str ''_'' @ nat_str (Suc (Suc 0)) = str ''_2''" by (simp add: str_def nat_str.simps)
  have names: "mcp_base_name d b = ?x" "mcp_base_name d c = ?x @ str ''_2''" using assms(1,2) by (simp_all add: mcp_base_name_def)
  show ?thesis
    by (simp add: assms(3) map_remote_tools_def names Let_def exposed_name_def collect_handlers_def update_conv' two)
qed

theorem mcp_remote_tool_is_shadowed_witness:
  "td_name (mv_definition (map_remote_tools demo_mcp_server (map demo_remote_tool [''a'', ''a'', ''a_2'']) ! 1))
     = td_name (mv_definition (map_remote_tools demo_mcp_server (map demo_remote_tool [''a'', ''a'', ''a_2'']) ! 2))"
proof -
  have "normalize_tool_segment (str ''a_2'') = normalize_tool_segment (str ''a'') @ str ''_2''"
    by (simp add: normalize_tool_segment_def is_tool_char_def str_def)
  then show ?thesis
    using mcp_remote_tool_is_shadowed [of "demo_remote_tool ''a''" "demo_remote_tool ''a''" "demo_remote_tool ''a_2''"
        _ demo_mcp_server demo_mcp_env, OF _ _ refl, THEN conjunct1] by (simp add: demo_remote_tool_def)
qed

end
