(* ===== verification/OJ_Config.thy ===== *)
theory OJ_Config
  imports OJ_Mcp OJ_Hook OJ_Skill OJ_Openai OJ_Agent_Loop
begin

text \<open>
  The configuration, \<open>src/config.rs\<close>: its sections with their defaults, their validation, the resolution of
  relative paths, the merge of the \<open>mcp.json\<close> sidecar and the process-wide snapshot, and the MCP server
  definitions that \<open>src/agent/tool/mod.rs\<close> makes of it. Reading YAML into the sections, parsing JSON text, the
  filter syntax of \<open>tracing\<close> and the texts of system errors are parameters. The ratios are exact.
\<close>

section \<open>Validation in sequence\<close>

definition and_then :: "err + 'a \<Rightarrow> err + 'b \<Rightarrow> err + 'b" where
  "and_then a b = (case a of Inl e \<Rightarrow> Inl e | Inr _ \<Rightarrow> b)"

lemma and_then_Inr [simp]: "and_then a b = Inr x \<longleftrightarrow> (\<exists>u. a = Inr u) \<and> b = Inr x"
  by (auto simp: and_then_def split: sum.splits)

definition require :: "bool \<Rightarrow> rstring \<Rightarrow> err + unit" where
  "require ok message = (if ok then Inr () else Inl (bail message))"

lemma require_Inr [simp]: "require ok message = Inr u \<longleftrightarrow> ok"
  by (simp add: require_def)

section \<open>The sections\<close>

datatype log_rotation = Minutely | Hourly | Daily | Never

fun log_rotation_as_str :: "log_rotation \<Rightarrow> rstring" where
  "log_rotation_as_str Minutely = str ''minutely''"
| "log_rotation_as_str Hourly = str ''hourly''"
| "log_rotation_as_str Daily = str ''daily''"
| "log_rotation_as_str Never = str ''never''"

record file_logging_config =
  fl_enabled :: bool
  fl_directory :: rstring
  fl_rotation :: log_rotation
  fl_filename_prefix :: rstring
  fl_filename_suffix :: rstring
  fl_max_files :: nat

definition file_logging_config_default :: file_logging_config where
  "file_logging_config_default =
     \<lparr>fl_enabled = True, fl_directory = str ''logs'', fl_rotation = Daily, fl_filename_prefix = str ''openjarvis'',
      fl_filename_suffix = str ''log'', fl_max_files = 7\<rparr>"

record logging_config =
  lg_level :: rstring
  lg_stderr :: bool
  lg_stderr_ansi :: bool
  lg_file :: file_logging_config

definition logging_config_default :: logging_config where
  "logging_config_default =
     \<lparr>lg_level = str ''info'', lg_stderr = True, lg_stderr_ansi = False, lg_file = file_logging_config_default\<rparr>"

record server_config =
  sv_bind :: rstring

definition server_config_default :: server_config where
  "server_config_default = \<lparr>sv_bind = str ''0.0.0.0:3000''\<rparr>"

record session_sqlite_config =
  ss_path :: rstring

definition session_sqlite_config_default :: session_sqlite_config where
  "session_sqlite_config_default = \<lparr>ss_path = str ''data/openjarvis/session.sqlite3''\<rparr>"

datatype session_store_backend = MemoryBackend | SqliteBackend

record session_persistence_config =
  sp_backend :: session_store_backend
  sp_sqlite :: session_sqlite_config

definition session_persistence_config_default :: session_persistence_config where
  "session_persistence_config_default = \<lparr>sp_backend = SqliteBackend, sp_sqlite = session_sqlite_config_default\<rparr>"

record session_config =
  sn_persistence :: session_persistence_config

definition session_config_default :: session_config where
  "session_config_default = \<lparr>sn_persistence = session_persistence_config_default\<rparr>"

record feishu_config =
  fc_mode :: rstring
  fc_webhook_path :: rstring
  fc_open_base_url :: rstring
  fc_app_id :: rstring
  fc_app_secret :: rstring
  fc_verification_token :: rstring
  fc_encrypt_key :: rstring
  fc_dry_run :: bool
  fc_auto_start_sidecar :: bool
  fc_node_bin :: rstring
  fc_sidecar_script :: rstring

definition feishu_config_default :: feishu_config where
  "feishu_config_default =
     \<lparr>fc_mode = str ''long_connection'', fc_webhook_path = str ''/webhook/feishu'',
      fc_open_base_url = str ''https://open.feishu.cn'', fc_app_id = [], fc_app_secret = [], fc_verification_token = [],
      fc_encrypt_key = [], fc_dry_run = True, fc_auto_start_sidecar = True, fc_node_bin = str ''node'',
      fc_sidecar_script = str ''scripts/feishu_ws_client.mjs''\<rparr>"

definition is_long_connection :: "feishu_config \<Rightarrow> bool" where
  "is_long_connection c \<longleftrightarrow> fc_mode c \<in> set [str ''long_connection'', str ''long-connection'', str ''long_connection_sdk'',
     str ''ws'', str ''websocket'']"

record channel_config =
  ch_feishu :: feishu_config

definition channel_config_default :: channel_config where
  "channel_config_default = \<lparr>ch_feishu = feishu_config_default\<rparr>"

datatype agent_mcp_server_transport_config =
    StdioTransport rstring "rstring list" "(rstring \<times> rstring) list"
  | HttpTransport rstring

record agent_mcp_server_config =
  ac_enabled :: bool
  ac_transport :: agent_mcp_server_transport_config

definition agent_mcp_server_config_default :: agent_mcp_server_config where
  "agent_mcp_server_config_default = \<lparr>ac_enabled = True, ac_transport = StdioTransport [] [] []\<rparr>"

definition mcp_config_stdio ::
    "bool \<Rightarrow> rstring \<Rightarrow> rstring list \<Rightarrow> (rstring \<times> rstring) list \<Rightarrow> agent_mcp_server_config" where
  "mcp_config_stdio enabled command args env = \<lparr>ac_enabled = enabled, ac_transport = StdioTransport command args env\<rparr>"

definition mcp_config_streamable_http :: "bool \<Rightarrow> rstring \<Rightarrow> agent_mcp_server_config" where
  "mcp_config_streamable_http enabled url = \<lparr>ac_enabled = enabled, ac_transport = HttpTransport url\<rparr>"

text \<open>The map of the configured servers, by name.\<close>

type_synonym agent_mcp_config = "(rstring \<times> agent_mcp_server_config) list"

record agent_tool_config =
  at_mcp :: agent_mcp_config

definition agent_compact_config_default :: agent_compact_config where
  "agent_compact_config_default =
     \<lparr>acc_enabled = False, acc_auto_compact = False, acc_runtime_threshold_ratio = 85 / 100,
      acc_tool_visible_threshold_ratio = 70 / 100, acc_reserved_output_tokens = None, acc_mock_compacted_assistant = None\<rparr>"

record agent_config =
  ag_hook :: agent_hook_config
  ag_tool :: agent_tool_config
  ag_compact :: agent_compact_config

definition agent_hook_config_default :: agent_hook_config where
  "agent_hook_config_default =
     \<lparr>hc_pre_tool_use = None, hc_post_tool_use = None, hc_post_tool_use_failure = None, hc_user_prompt_submit = None,
      hc_stop = None, hc_subagent_start = None, hc_subagent_stop = None, hc_pre_compact = None,
      hc_permission_request = None, hc_notification = None, hc_session_start = None, hc_session_end = None,
      hc_setup = None, hc_teammate_idle = None, hc_task_completed = None, hc_config_change = None,
      hc_worktree_create = None, hc_worktree_remove = None\<rparr>"

definition agent_config_default :: agent_config where
  "agent_config_default =
     \<lparr>ag_hook = agent_hook_config_default, ag_tool = \<lparr>at_mcp = []\<rparr>, ag_compact = agent_compact_config_default\<rparr>"

definition llm_config_default :: llm_config where
  "llm_config_default =
     \<lparr>lc_protocol = str ''mock'', lc_provider = str ''unknown'', lc_model = str ''mock-received'',
      lc_base_url = str ''https://api.openai.com/v1'', lc_api_key = [], lc_api_key_path = [],
      lc_mock_response = str ''[openjarvis][DEBUG] '' @ [27979, 35797, 22238, 22797],
      lc_context_window_tokens = None, lc_max_output_tokens = None, lc_tokenizer = str ''chars_div4''\<rparr>"

record app_config =
  ap_server :: server_config
  ap_logging :: logging_config
  ap_session :: session_config
  ap_channels :: channel_config
  ap_agent :: agent_config
  ap_llm :: llm_config

definition app_config_default :: app_config where
  "app_config_default =
     \<lparr>ap_server = server_config_default, ap_logging = logging_config_default, ap_session = session_config_default,
      ap_channels = channel_config_default, ap_agent = agent_config_default, ap_llm = llm_config_default\<rparr>"

section \<open>What the configuration needs of its surroundings\<close>

record config_env =
  cg_yaml :: "rstring \<Rightarrow> err + app_config"
  cg_json :: "rstring \<Rightarrow> err + json"
  cg_serde_error :: "json \<Rightarrow> err"
  cg_env_filter :: "rstring \<Rightarrow> err + unit"
  cg_os_error :: rstring

section \<open>Validation\<close>

definition file_logging_validate :: "file_logging_config \<Rightarrow> err + unit" where
  "file_logging_validate c =
     (if \<not> fl_enabled c then Inr ()
      else
        and_then (require (fl_directory c \<noteq> []) (str ''logging.file.directory must not be blank''))
          (require (trim (fl_filename_prefix c) \<noteq> []) (str ''logging.file.filename_prefix must not be blank'')))"

definition logging_validate :: "config_env \<Rightarrow> logging_config \<Rightarrow> err + unit" where
  "logging_validate G c =
     and_then (require (trim (lg_level c) \<noteq> []) (str ''logging.level must not be blank''))
    (and_then (map_sum (err_context (str ''logging.level `'' @ lg_level c @ str ''` is not a valid tracing filter expression'')) id
                (cg_env_filter G (trim (lg_level c))))
    (and_then (require (lg_stderr c \<or> fl_enabled (lg_file c)) (str ''logging requires at least one enabled sink: stderr or file''))
       (file_logging_validate (lg_file c))))"

definition session_sqlite_validate :: "session_sqlite_config \<Rightarrow> err + unit" where
  "session_sqlite_validate c = require (ss_path c \<noteq> []) (str ''session.persistence.sqlite.path must not be blank'')"

definition session_persistence_validate :: "session_persistence_config \<Rightarrow> err + unit" where
  "session_persistence_validate c =
     (case sp_backend c of MemoryBackend \<Rightarrow> Inr () | SqliteBackend \<Rightarrow> session_sqlite_validate (sp_sqlite c))"

definition session_validate :: "session_config \<Rightarrow> err + unit" where
  "session_validate c = session_persistence_validate (sn_persistence c)"

definition llm_validate :: "llm_config \<Rightarrow> err + unit" where
  "llm_validate c =
     and_then (require (trim (lc_protocol c) \<noteq> []) (str ''llm.protocol is required''))
    (and_then (require (effective_protocol c \<noteq> str ''unknown'')
                (str ''llm.protocol `'' @ trim (lc_protocol c) @ str ''` is not supported''))
    (and_then (require (lc_context_window_tokens c \<noteq> Some 0) (str ''llm.context_window_tokens must be greater than 0''))
    (and_then (require (lc_max_output_tokens c \<noteq> Some 0) (str ''llm.max_output_tokens must be greater than 0''))
    (and_then (require (max_output_tokens c \<le> context_window_tokens c)
                (str ''llm.max_output_tokens must be less than or equal to llm.context_window_tokens''))
    (and_then (require (trim (lc_tokenizer c) \<noteq> []) (str ''llm.tokenizer must not be blank''))
       (require (trim (lc_tokenizer c) = str ''chars_div4'')
          (str ''llm.tokenizer `'' @ lc_tokenizer c @ str ''` is not supported yet; expected `chars_div4`'')))))))"

definition validate_ratio :: "rat \<Rightarrow> string \<Rightarrow> err + unit" where
  "validate_ratio v field_name =
     require (0 < v \<and> v \<le> 1) (str field_name @ str '' must be greater than 0 and less than or equal to 1'')"

definition agent_compact_validate :: "agent_compact_config \<Rightarrow> err + unit" where
  "agent_compact_validate c =
     and_then (validate_ratio (acc_runtime_threshold_ratio c) ''agent.compact.runtime_threshold_ratio'')
    (and_then (validate_ratio (acc_tool_visible_threshold_ratio c) ''agent.compact.tool_visible_threshold_ratio'')
    (and_then (require (acc_tool_visible_threshold_ratio c \<le> acc_runtime_threshold_ratio c)
       (str ''agent.compact.tool_visible_threshold_ratio must be less than or equal to agent.compact.runtime_threshold_ratio''))
    (and_then (require (\<not> (acc_auto_compact c \<and> \<not> acc_enabled c))
       (str ''agent.compact.auto_compact requires agent.compact.enabled=true''))
    (and_then (require (acc_reserved_output_tokens c \<noteq> Some 0)
       (str ''agent.compact.reserved_output_tokens must be greater than 0''))
       (require (case acc_mock_compacted_assistant c of None \<Rightarrow> True | Some summary \<Rightarrow> trim summary \<noteq> [])
          (str ''agent.compact.mock_compacted_assistant must not be blank''))))))"

fun mcp_transport_validate :: "rstring \<Rightarrow> agent_mcp_server_transport_config \<Rightarrow> err + unit" where
  "mcp_transport_validate server_name (StdioTransport command args env) =
     require (trim command \<noteq> []) (str ''mcp server `'' @ server_name @ str ''` stdio command must not be blank'')"
| "mcp_transport_validate server_name (HttpTransport url) =
     require (trim url \<noteq> []) (str ''mcp server `'' @ server_name @ str ''` streamable_http url must not be blank'')"

fun agent_mcp_validate :: "agent_mcp_config \<Rightarrow> err + unit" where
  "agent_mcp_validate [] = Inr ()"
| "agent_mcp_validate ((name, server) # servers) =
     and_then (mcp_transport_validate name (ac_transport server)) (agent_mcp_validate servers)"

definition agent_validate :: "agent_config \<Rightarrow> err + unit" where
  "agent_validate c =
     and_then (agent_hook_config_validate (ag_hook c))
    (and_then (agent_mcp_validate (at_mcp (ag_tool c))) (agent_compact_validate (ag_compact c)))"

definition app_config_validate :: "config_env \<Rightarrow> app_config \<Rightarrow> err + unit" where
  "app_config_validate G c =
     and_then (logging_validate G (ap_logging c))
    (and_then (session_validate (ap_session c)) (and_then (llm_validate (ap_llm c)) (agent_validate (ap_agent c))))"

section \<open>Relative paths\<close>

definition config_root :: "rstring \<Rightarrow> rstring" where
  "config_root config_path = (case path_parent config_path of None \<Rightarrow> str ''.'' | Some d \<Rightarrow> d)"

definition resolve_against :: "rstring \<Rightarrow> rstring \<Rightarrow> rstring" where
  "resolve_against config_path p =
     (if path_is_absolute p \<or> p = [] then p else path_join (config_root config_path) p)"

definition file_logging_resolve :: "rstring \<Rightarrow> file_logging_config \<Rightarrow> file_logging_config" where
  "file_logging_resolve config_path c = c\<lparr>fl_directory := resolve_against config_path (fl_directory c)\<rparr>"

definition session_sqlite_resolve :: "rstring \<Rightarrow> session_sqlite_config \<Rightarrow> session_sqlite_config" where
  "session_sqlite_resolve config_path c = c\<lparr>ss_path := resolve_against config_path (ss_path c)\<rparr>"

definition logging_resolve :: "rstring \<Rightarrow> logging_config \<Rightarrow> logging_config" where
  "logging_resolve config_path c = c\<lparr>lg_file := file_logging_resolve config_path (lg_file c)\<rparr>"

definition session_resolve :: "rstring \<Rightarrow> session_config \<Rightarrow> session_config" where
  "session_resolve config_path c =
     c\<lparr>sn_persistence := (sn_persistence c)\<lparr>sp_sqlite := session_sqlite_resolve config_path (sp_sqlite (sn_persistence c))\<rparr>\<rparr>"

definition app_config_resolve_paths :: "rstring \<Rightarrow> app_config \<Rightarrow> app_config" where
  "app_config_resolve_paths config_path c =
     c\<lparr>ap_logging := logging_resolve config_path (ap_logging c), ap_session := session_resolve config_path (ap_session c)\<rparr>"

section \<open>The mcp.json sidecar\<close>

datatype external_transport = ExternalStdio | ExternalHttp

record external_server =
  ex_enabled :: "bool option"
  ex_transport :: "external_transport option"
  ex_command :: "rstring option"
  ex_args :: "rstring list"
  ex_env :: "(rstring \<times> rstring) list"
  ex_url :: "rstring option"

text \<open>A struct with a default for every field also reads a shorter sequence.\<close>

fun struct_fields_default :: "rstring list \<Rightarrow> json \<Rightarrow> (rstring \<times> json) list option" where
  "struct_fields_default names (JArr js) = (if length js \<le> length names then Some (zip names js) else None)"
| "struct_fields_default names j = struct_fields names [] j"

definition external_transport_name :: "rstring \<Rightarrow> external_transport option" where
  "external_transport_name s =
     (if s = str ''stdio'' then Some ExternalStdio
      else if s = str ''streamable_http'' \<or> s = str ''http'' then Some ExternalHttp else None)"

fun dec_external_transport :: "json \<Rightarrow> external_transport option" where
  "dec_external_transport (JStr s) = external_transport_name s"
| "dec_external_transport (JObj [(k, JNull)]) = external_transport_name k"
| "dec_external_transport _ = None"

fun dec_entries :: "(json \<Rightarrow> 'a option) \<Rightarrow> (rstring \<times> json) list \<Rightarrow> (rstring \<times> 'a) list \<Rightarrow> (rstring \<times> 'a) list option" where
  "dec_entries d [] m = Some m"
| "dec_entries d ((k, j) # kvs) m = (case d j of None \<Rightarrow> None | Some x \<Rightarrow> dec_entries d kvs (AList.update k x m))"

fun dec_map :: "(json \<Rightarrow> 'a option) \<Rightarrow> json \<Rightarrow> (rstring \<times> 'a) list option" where
  "dec_map d (JObj kvs) = dec_entries d kvs []"
| "dec_map d _ = None"

definition external_server_from_json :: "json \<Rightarrow> external_server option" where
  "external_server_from_json j =
     Option.bind (struct_fields_default [str ''enabled'', str ''transport'', str ''command'', str ''args'', str ''env'', str ''url''] j) (\<lambda>m.
     Option.bind (field_opt dec_bool ''enabled'' m) (\<lambda>enabled.
     Option.bind (field_opt dec_external_transport ''transport'' m) (\<lambda>transport.
     Option.bind (field_opt dec_string ''command'' m) (\<lambda>command.
     Option.bind (field_default [] (dec_list dec_string) ''args'' m) (\<lambda>args.
     Option.bind (field_default [] (dec_map dec_string) ''env'' m) (\<lambda>env.
     Option.bind (field_opt dec_string ''url'' m) (\<lambda>url.
     Some \<lparr>ex_enabled = enabled, ex_transport = transport, ex_command = command, ex_args = args, ex_env = env,
           ex_url = url\<rparr>)))))))"

definition external_config_from_json :: "json \<Rightarrow> (rstring \<times> external_server) list option" where
  "external_config_from_json j =
     Option.bind (struct_fields_default [str ''mcpServers''] j) (\<lambda>m.
     field_default [] (dec_map external_server_from_json) ''mcpServers'' m)"

definition into_agent_config :: "rstring \<Rightarrow> external_server \<Rightarrow> err + agent_mcp_server_config" where
  "into_agent_config server_name x =
     (let enabled = (case ex_enabled x of None \<Rightarrow> True | Some b \<Rightarrow> b);
          problem = (\<lambda>s. Inl (bail (str ''mcp.json server `'' @ server_name @ str ''` '' @ s))) in
      case (ex_transport x, ex_command x, ex_url x) of
        (Some ExternalStdio, Some command, None) \<Rightarrow> Inr (mcp_config_stdio enabled command (ex_args x) (ex_env x))
      | (Some ExternalStdio, None, None) \<Rightarrow> problem (str ''with transport `stdio` requires `command`'')
      | (Some ExternalStdio, _, Some _) \<Rightarrow> problem (str ''with transport `stdio` must not define `url`'')
      | (Some ExternalHttp, None, Some url) \<Rightarrow> Inr (mcp_config_streamable_http enabled url)
      | (Some ExternalHttp, None, None) \<Rightarrow> problem (str ''with transport `streamable_http` requires `url`'')
      | (Some ExternalHttp, Some _, _) \<Rightarrow> problem (str ''with transport `streamable_http` must not define `command`'')
      | (None, Some command, None) \<Rightarrow> Inr (mcp_config_stdio enabled command (ex_args x) (ex_env x))
      | (None, None, Some url) \<Rightarrow> Inr (mcp_config_streamable_http enabled url)
      | (None, Some _, Some _) \<Rightarrow> problem (str ''must define either `command` or `url`, not both'')
      | (None, None, None) \<Rightarrow> problem (str ''must define either `command` or `url`''))"

fun into_mcp_servers :: "(rstring \<times> external_server) list \<Rightarrow> agent_mcp_config \<Rightarrow> err + agent_mcp_config" where
  "into_mcp_servers [] servers = Inr servers"
| "into_mcp_servers ((server_name, x) # xs) servers =
     (if trim server_name = [] then Inl (bail (str ''mcp.json server name must not be blank''))
      else
        (case into_agent_config server_name x of
           Inl e \<Rightarrow> Inl e
         | Inr c \<Rightarrow> into_mcp_servers xs (AList.update server_name c servers)))"

definition EXTERNAL_MCP_CONFIG_RELATIVE_PATH :: rstring where
  "EXTERNAL_MCP_CONFIG_RELATIVE_PATH = str ''config/openjarvis/mcp.json''"

definition resolve_external_mcp_config_path :: "rstring \<Rightarrow> rstring" where
  "resolve_external_mcp_config_path config_path = path_join (config_root config_path) EXTERNAL_MCP_CONFIG_RELATIVE_PATH"

definition upsert_server :: "rstring \<Rightarrow> agent_mcp_server_config \<Rightarrow> agent_mcp_config \<Rightarrow> agent_mcp_config" where
  "upsert_server name server servers = AList.update name server servers"

fun merge_external :: "rstring \<Rightarrow> agent_mcp_config \<Rightarrow> agent_mcp_config \<Rightarrow> err + agent_mcp_config" where
  "merge_external path [] servers = Inr servers"
| "merge_external path ((server_name, c) # xs) servers =
     (if map_of servers server_name \<noteq> None
      then Inl (bail (str ''mcp server `'' @ server_name @ str ''` is defined in both YAML config and '' @ path))
      else merge_external path xs (upsert_server server_name c servers))"

definition with_mcp :: "agent_mcp_config \<Rightarrow> app_config \<Rightarrow> app_config" where
  "with_mcp servers c = c\<lparr>ap_agent := (ap_agent c)\<lparr>ag_tool := (ag_tool (ap_agent c))\<lparr>at_mcp := servers\<rparr>\<rparr>\<rparr>"

definition mcp_servers_of :: "app_config \<Rightarrow> agent_mcp_config" where
  "mcp_servers_of c = at_mcp (ag_tool (ap_agent c))"

definition load_external_mcp_sidecar :: "config_env \<Rightarrow> host_fs \<Rightarrow> rstring \<Rightarrow> app_config \<Rightarrow> err + app_config" where
  "load_external_mcp_sidecar G h config_path c =
     (let path = resolve_external_mcp_config_path config_path in
      if \<not> path_exists h path then Inr c
      else
        (case fs_read_to_string h path of
           None \<Rightarrow> Inl (err_context (str ''failed to read mcp config file '' @ path) (bail (cg_os_error G)))
         | Some raw \<Rightarrow>
        (case (case cg_json G raw of
                 Inl e \<Rightarrow> Inl e
               | Inr j \<Rightarrow> (case external_config_from_json j of None \<Rightarrow> Inl (cg_serde_error G j) | Some x \<Rightarrow> Inr x)) of
           Inl e \<Rightarrow> Inl (err_context (str ''failed to parse mcp config file '' @ path) e)
         | Inr external_config \<Rightarrow>
        (case into_mcp_servers external_config [] of
           Inl e \<Rightarrow> Inl (err_context (str ''failed to validate mcp config file '' @ path) e)
         | Inr external_servers \<Rightarrow>
             map_sum id (\<lambda>servers. with_mcp servers c) (merge_external path external_servers (mcp_servers_of c))))))"

section \<open>Loading\<close>

definition from_yaml_path :: "config_env \<Rightarrow> host_fs \<Rightarrow> rstring \<Rightarrow> err + app_config" where
  "from_yaml_path G h path =
     (case (if path_exists h path then
              (case fs_read_to_string h path of
                 None \<Rightarrow> Inl (err_context (str ''failed to read config file '' @ path) (bail (cg_os_error G)))
               | Some raw \<Rightarrow> map_sum (err_context (str ''failed to parse config file '' @ path)) id (cg_yaml G raw))
            else Inr app_config_default) of
        Inl e \<Rightarrow> Inl e
      | Inr c0 \<Rightarrow>
     (case load_external_mcp_sidecar G h path (app_config_resolve_paths path c0) of
        Inl e \<Rightarrow> Inl e
      | Inr c \<Rightarrow>
          and_then (map_sum (err_context (str ''failed to validate config file '' @ path)) id (app_config_validate G c)) (Inr c)))"

definition from_yaml_str :: "config_env \<Rightarrow> rstring \<Rightarrow> err + app_config" where
  "from_yaml_str G yaml =
     (case map_sum (err_context (str ''failed to parse config from yaml string'')) id (cg_yaml G yaml) of
        Inl e \<Rightarrow> Inl e
      | Inr c \<Rightarrow>
          and_then (map_sum (err_context (str ''failed to validate config from yaml string'')) id (app_config_validate G c)) (Inr c))"

definition load_config :: "config_env \<Rightarrow> (rstring \<Rightarrow> rstring option) \<Rightarrow> host_fs \<Rightarrow> err + app_config" where
  "load_config G env_var h =
     from_yaml_path G h (case env_var (str ''OPENJARVIS_CONFIG'') of None \<Rightarrow> str ''config.yaml'' | Some p \<Rightarrow> p)"

definition BUILTIN_MCP_SERVER_NAME :: rstring where
  "BUILTIN_MCP_SERVER_NAME = str ''builtin_demo_stdio''"

definition enable_builtin_mcp :: "config_env \<Rightarrow> rstring \<Rightarrow> app_config \<Rightarrow> (err + unit) \<times> app_config" where
  "enable_builtin_mcp G executable c =
     (let c1 = with_mcp (upsert_server BUILTIN_MCP_SERVER_NAME
                 (mcp_config_stdio True executable [str ''internal-mcp'', str ''demo-stdio''] []) (mcp_servers_of c)) c in
      (app_config_validate G c1, c1))"

text \<open>The process-wide snapshot; the error of an accessor before installation stands for its panic.\<close>

definition install_global_config :: "config_env \<Rightarrow> app_config \<Rightarrow> (app_config option, app_config) act" where
  "install_global_config G c g =
     (case map_sum (err_context (str ''failed to validate app config before global installation'')) id (app_config_validate G c) of
        Inl e \<Rightarrow> (Inl e, g)
      | Inr _ \<Rightarrow>
          (case g of
             Some _ \<Rightarrow> (Inl (bail (str ''global app config has already been installed'')), g)
           | None \<Rightarrow> (Inr c, Some c)))"

definition global_config :: "app_config option \<Rightarrow> err + app_config" where
  "global_config g =
     (case g of
        None \<Rightarrow> Inl (bail (str ''global app config is not installed; call install_global_config before accessing it''))
      | Some c \<Rightarrow> Inr c)"

section \<open>Server definitions\<close>

definition build_mcp_server_definition :: "rstring \<Rightarrow> agent_mcp_server_config \<Rightarrow> mcp_server_definition" where
  "build_mcp_server_definition name server =
     (case ac_transport server of
        StdioTransport command args env \<Rightarrow>
          \<lparr>md_name = name, md_transport = Stdio, md_enabled = ac_enabled server, md_command = Some command, md_args = args,
           md_env = env, md_url = None\<rparr>
      | HttpTransport url \<Rightarrow>
          \<lparr>md_name = name, md_transport = StreamableHttp, md_enabled = ac_enabled server, md_command = None, md_args = [],
           md_env = [], md_url = Some url\<rparr>)"

definition build_mcp_server_definitions :: "agent_tool_config \<Rightarrow> mcp_server_definition list" where
  "build_mcp_server_definitions config =
     sort_key md_name (map (\<lambda>(name, server). build_mcp_server_definition name server) (at_mcp config))"

section \<open>What validation establishes\<close>

lemma agent_mcp_validate_Inr [simp]:
  "agent_mcp_validate servers = Inr u
     \<longleftrightarrow> list_all (\<lambda>(name, server). mcp_transport_validate name (ac_transport server) = Inr ()) servers"
  by (induction servers) auto

lemma transport_validates_definition:
  assumes "mcp_transport_validate name (ac_transport server) = Inr u"
  shows "mcp_validate (build_mcp_server_definition name server) = Inr () \<longleftrightarrow> trim name \<noteq> []"
proof (cases "ac_transport server")
  case (StdioTransport command args env)
  then show ?thesis using assms by (simp add: build_mcp_server_definition_def mcp_validate_def)
next
  case (HttpTransport url)
  then show ?thesis using assms by (simp add: build_mcp_server_definition_def mcp_validate_def)
qed

lemma built_name [simp]: "md_name (build_mcp_server_definition name server) = name"
  by (simp add: build_mcp_server_definition_def split: agent_mcp_server_transport_config.split)

lemma built_enabled [simp]: "md_enabled (build_mcp_server_definition name server) = ac_enabled server"
  by (simp add: build_mcp_server_definition_def split: agent_mcp_server_transport_config.split)

lemma llm_validate_Inr:
  assumes "llm_validate c = Inr u"
  shows "effective_protocol c \<in> {str ''mock'', str ''openai_compatible'', str ''anthropic''}"
    and "0 < max_output_tokens c" "max_output_tokens c \<le> context_window_tokens c"
    and "lc_max_output_tokens c \<noteq> Some 0" "trim (lc_tokenizer c) = str ''chars_div4''"
proof -
  show "effective_protocol c \<in> {str ''mock'', str ''openai_compatible'', str ''anthropic''}"
    using assms by (auto simp: llm_validate_def effective_protocol_def Let_def split: if_splits)
  show "0 < max_output_tokens c"
    using assms by (auto simp: llm_validate_def max_output_tokens_def known_model_token_limits_def DEFAULT_MAX_OUTPUT_TOKENS_def
        Let_def split: option.split)
qed (use assms in \<open>simp_all add: llm_validate_def\<close>)

lemma agent_compact_validate_Inr:
  assumes "agent_compact_validate c = Inr u"
  shows "0 < acc_tool_visible_threshold_ratio c" "acc_runtime_threshold_ratio c \<le> 1"
    and "acc_tool_visible_threshold_ratio c \<le> acc_runtime_threshold_ratio c"
    and "acc_auto_compact c \<Longrightarrow> acc_enabled c" "acc_reserved_output_tokens c \<noteq> Some 0"
  using assms by (auto simp: agent_compact_validate_def validate_ratio_def)

lemma app_config_validate_parts:
  assumes "app_config_validate G c = Inr u"
  shows "llm_validate (ap_llm c) = Inr ()" "agent_hook_config_validate (ag_hook (ap_agent c)) = Inr ()"
    and "agent_mcp_validate (mcp_servers_of c) = Inr ()" "agent_compact_validate (ag_compact (ap_agent c)) = Inr ()"
    and "logging_validate G (ap_logging c) = Inr ()" "session_validate (ap_session c) = Inr ()"
  using assms by (auto simp: app_config_validate_def agent_validate_def mcp_servers_of_def)

section \<open>Registration at startup\<close>

definition fresh_server :: "mcp_server_definition \<Rightarrow> 'c managed_mcp_server" where
  "fresh_server d =
     \<lparr>mz_definition = d, mz_enabled = False, mz_allow_thread_load = True, mz_state = McpDisabled,
      mz_last_error = None, mz_last_checked_at = None, mz_discovered_tools = [], mz_client = None\<rparr>"

lemma register_definitions_ok:
  assumes "distinct (map md_name ds)" "list_all (\<lambda>d. mcp_validate d = Inr ()) ds"
    and "\<And>d. d \<in> set ds \<Longrightarrow> map_of (mm_servers m) (md_name d) = None"
  shows "register_definitions ds names m
     = (Inr (names @ map md_name (filter md_enabled ds)),
        m\<lparr>mm_servers := mm_servers m @ map (\<lambda>d. (md_name d, fresh_server d)) ds\<rparr>)"
  using assms
proof (induction ds arbitrary: names m)
  case (Cons d ds)
  let ?m = "m\<lparr>mm_servers := mm_servers m @ [(md_name d, fresh_server d)]\<rparr>"
  have "mcp_register d m = (Inr (), ?m)"
    using Cons.prems by (simp add: mcp_register_def fresh_server_def update_new)
  moreover have "map_of (mm_servers ?m) (md_name e) = None" if "e \<in> set ds" for e
    using that Cons.prems by (auto simp: map_add_def split: option.split) (metis image_eqI)
  ultimately show ?case
    using Cons.IH [of ?m] Cons.prems by (simp add: act_bind_def)
qed (simp add: act_ret_def)

lemma register_definitions_refused:
  assumes "d \<in> set ds" "mcp_validate d \<noteq> Inr ()"
  shows "\<exists>e m'. register_definitions ds names m = (Inl e, m')"
  using assms
proof (induction ds arbitrary: names m)
  case (Cons a ds)
  obtain r m1 where run: "mcp_register a m = (r, m1)" by fastforce
  show ?case
  proof (cases r)
    case (Inl e)
    then show ?thesis using run by (simp add: act_bind_def)
  next
    case (Inr v)
    then have "mcp_validate a = Inr ()" using run by (simp add: mcp_register_def split: sum.splits)
    then have "d \<in> set ds" using Cons.prems by auto
    then show ?thesis using Cons.IH Cons.prems(2) run Inr by (simp add: act_bind_def)
  qed
qed simp

lemma enable_keeps_names: "map fst (mm_servers (snd (enable_server V name m))) = map fst (mm_servers m)"
proof (cases "begin_probe V name m")
  case (Pair r m1)
  have same: "mm_servers m1 = mm_servers m"
    using Pair by (auto simp: begin_probe_def mcp_server_definition_of_def split: option.splits prod.splits)
  show ?thesis
  proof (cases r)
    case (Inr p)
    obtain t q where p: "p = (t, q)" by fastforce
    show ?thesis
    proof (cases "map_of (mm_servers m1) name")
      case (Some z)
      then have "name \<in> set (map fst (mm_servers m1))" by (metis domI dom_map_of_conv_image_fst list.set_map)
      then show ?thesis using Pair Inr p same
        by (auto simp: enable_server_def act_bind_def apply_probe_run [OF Some] update_keys close_client_def split: option.split)
    qed (simp add: enable_server_def act_bind_def Pair Inr p apply_probe_def same)
  qed (simp add: enable_server_def act_bind_def Pair same)
qed

lemma startup_keeps_names: "map fst (mm_servers (startup_enable V names m)) = map fst (mm_servers m)"
  by (induction names arbitrary: m) (simp_all add: startup_enable_def enable_keeps_names)

lemma sort_key_as_sort: "map f (sort_key f xs) = sort (map f xs)"
proof (induction xs)
  case (Cons x xs)
  have "map f (insort_key f x ys) = insort (f x) (map f ys)" for ys by (induction ys) auto
  then show ?case using Cons by simp
qed simp

lemma built_definitions:
  "map md_name (build_mcp_server_definitions t) = sort (map fst (at_mcp t))"
  "set (build_mcp_server_definitions t) = (\<lambda>(name, server). build_mcp_server_definition name server) ` set (at_mcp t)"
  by (simp_all add: build_mcp_server_definitions_def sort_key_as_sort comp_def case_prod_unfold)

text \<open>
  The registration of the configured servers at startup, on the empty manager: when every server validates it
  leaves exactly the configured names, sorted; one blank name makes it fail.
\<close>

lemma load_built_definitions:
  fixes V :: "('w, 'p, 'c) mcp_env"
  assumes "agent_mcp_validate (at_mcp t) = Inr u" "distinct (map fst (at_mcp t))"
    and "load_definitions V (build_mcp_server_definitions t) (mcp_manager_new w) = (r, m)"
  shows "r = Inr () \<longleftrightarrow> (\<forall>name \<in> fst ` set (at_mcp t). trim name \<noteq> [])"
    and "r = Inr () \<Longrightarrow> map fst (mm_servers m) = sort (map fst (at_mcp t))"
proof -
  let ?ds = "build_mcp_server_definitions t"
  have valid: "mcp_validate (build_mcp_server_definition name server) = Inr () \<longleftrightarrow> trim name \<noteq> []"
    if "(name, server) \<in> set (at_mcp t)" for name server
    using assms(1) that by (auto simp: list_all_iff intro!: transport_validates_definition)
  have "(r = Inr () \<longleftrightarrow> (\<forall>name \<in> fst ` set (at_mcp t). trim name \<noteq> []))
      \<and> (r = Inr () \<longrightarrow> map fst (mm_servers m) = sort (map fst (at_mcp t)))"
  proof (cases "\<forall>name \<in> fst ` set (at_mcp t). trim name \<noteq> []")
    case True
    have "list_all (\<lambda>d. mcp_validate d = Inr ()) ?ds"
      using True valid by (fastforce simp: list_all_iff built_definitions)
    moreover have "distinct (map md_name ?ds)" using assms(2) by (simp add: built_definitions)
    ultimately show ?thesis
      using register_definitions_ok [of ?ds "mcp_manager_new w :: ('w, 'c) mcp_manager" "[]"] assms(3) True
      by (auto simp: load_definitions_def act_bind_def mcp_manager_new_def startup_keeps_names comp_def built_definitions)
  next
    case False
    then obtain name server where entry: "(name, server) \<in> set (at_mcp t)" "trim name = []" by auto
    then have "build_mcp_server_definition name server \<in> set ?ds" by (force simp: built_definitions)
    then obtain e m' where "register_definitions ?ds [] (mcp_manager_new w :: ('w, 'c) mcp_manager) = (Inl e, m')"
      using register_definitions_refused valid entry by blast
    then show ?thesis using assms(3) False by (auto simp: load_definitions_def act_bind_def)
  qed
  then show "r = Inr () \<longleftrightarrow> (\<forall>name \<in> fst ` set (at_mcp t). trim name \<noteq> [])"
    and "r = Inr () \<Longrightarrow> map fst (mm_servers m) = sort (map fst (at_mcp t))" by simp_all
qed

lemma valid_hooks_register:
  assumes "app_config_validate G c = Inr u"
  shows "\<exists>hooks. hook_registry_from_config sh (ag_hook (ap_agent c)) = Inr hooks"
  using app_config_validate_parts(2) [OF assms]
  by (simp add: hook_registry_from_config_def register_configured_def configured_commands_eq register_commands_eq)

text \<open>
  What a validated configuration gives the startup. Its hook commands register and its LLM protocol is known;
  the registration of its MCP servers on the empty manager succeeds exactly when no server name is blank, which
  validation does not look at, and then leaves exactly the configured servers, sorted by name.
\<close>
theorem valid_config_starts_up:
  assumes "app_config_validate G c = Inr u" "distinct (map fst (mcp_servers_of c))"
    and "load_definitions V (build_mcp_server_definitions (ag_tool (ap_agent c))) (mcp_manager_new w) = (r, m)"
  shows "(\<exists>hooks. hook_registry_from_config sh (ag_hook (ap_agent c)) = Inr hooks)
    \<and> (\<exists>protocol. protocol_from_config (ap_llm c) = Inr protocol)
    \<and> (r = Inr () \<longleftrightarrow> (\<forall>name \<in> fst ` set (mcp_servers_of c). trim name \<noteq> []))
    \<and> (r = Inr () \<longrightarrow> map fst (mm_servers m) = sort (map fst (mcp_servers_of c)))"
proof -
  note valid = app_config_validate_parts [OF assms(1)]
  have "\<exists>hooks. hook_registry_from_config sh (ag_hook (ap_agent c)) = Inr hooks"
    by (rule valid_hooks_register [OF assms(1)])
  moreover have "\<exists>protocol. protocol_from_config (ap_llm c) = Inr protocol"
    using llm_validate_Inr(1) [OF valid(1)] by (auto simp: protocol_from_config_def)
  ultimately show ?thesis
    using load_built_definitions [OF _ _ assms(3)] valid(3) assms(2) by (simp add: mcp_servers_of_def)
qed

lemma with_mcp_sel [simp]:
  "mcp_servers_of (with_mcp servers c) = servers" "ap_llm (with_mcp servers c) = ap_llm c"
  "ap_logging (with_mcp servers c) = ap_logging c" "ap_session (with_mcp servers c) = ap_session c"
  "ap_channels (with_mcp servers c) = ap_channels c" "ap_server (with_mcp servers c) = ap_server c"
  "ag_hook (ap_agent (with_mcp servers c)) = ag_hook (ap_agent c)"
  "ag_compact (ap_agent (with_mcp servers c)) = ag_compact (ap_agent c)"
  by (simp_all add: with_mcp_def mcp_servers_of_def)

lemma validate_with_mcp:
  assumes "app_config_validate G c = Inr u" "agent_mcp_validate servers = Inr v"
  shows "app_config_validate G (with_mcp servers c) = Inr ()"
  using assms by (auto simp: app_config_validate_def agent_validate_def mcp_servers_of_def [symmetric])

lemma app_config_default_valid:
  assumes "cg_env_filter G (str ''info'') = Inr ()"
  shows "app_config_validate G app_config_default = Inr ()"
proof -
  have word: "trim (str ''info'') = str ''info''" "trim (str ''openjarvis'') = str ''openjarvis''"
    "trim (str ''mock'') = str ''mock''" "trim (str ''chars_div4'') = str ''chars_div4''"
    "trim (str ''mock-received'') = str ''mock-received''"
    by (simp_all add: trim_word str_def is_whitespace_def)
  have "logging_validate G logging_config_default = Inr ()"
    using assms by (simp add: logging_validate_def logging_config_default_def file_logging_validate_def
        file_logging_config_default_def word)
  moreover have "session_validate session_config_default = Inr ()"
    by (simp add: session_validate_def session_config_default_def session_persistence_validate_def
        session_persistence_config_default_def session_sqlite_validate_def session_sqlite_config_default_def str_def)
  moreover have protocol: "effective_protocol llm_config_default = str ''mock''"
    by (simp add: effective_protocol_def llm_config_default_def word) (simp add: str_def to_ascii_lowercase_def)
  moreover have "known_model_token_limits llm_config_default = None"
    by (simp add: known_model_token_limits_def llm_config_default_def word) (simp add: str_def to_ascii_lowercase_def)
  then have "llm_validate llm_config_default = Inr ()"
    using protocol by (simp add: llm_validate_def max_output_tokens_def context_window_tokens_def
        DEFAULT_MAX_OUTPUT_TOKENS_def DEFAULT_CONTEXT_WINDOW_TOKENS_def) 
      (simp add: llm_config_default_def word, simp add: str_def DEFAULT_MAX_OUTPUT_TOKENS_def DEFAULT_CONTEXT_WINDOW_TOKENS_def)
  moreover have "agent_validate agent_config_default = Inr ()"
    by (simp add: agent_validate_def agent_config_default_def agent_hook_config_validate_def configured_commands_def
        push_command_def agent_hook_config_default_def agent_compact_validate_def agent_compact_config_default_def validate_ratio_def)
  ultimately show ?thesis by (simp add: app_config_validate_def app_config_default_def)
qed

definition demo_config_env :: config_env where
  "demo_config_env =
     \<lparr>cg_yaml = (\<lambda>_. Inr app_config_default), cg_json = (\<lambda>_. Inr (JObj [])), cg_serde_error = (\<lambda>_. bail []),
      cg_env_filter = (\<lambda>_. Inr ()), cg_os_error = []\<rparr>"

definition demo_blank_config :: app_config where
  "demo_blank_config = with_mcp [(str '' '', mcp_config_streamable_http True (str ''u''))] app_config_default"

lemma demo_blank_config_valid: "app_config_validate demo_config_env demo_blank_config = Inr ()"
proof -
  have "trim (str ''u'') \<noteq> []" by (simp add: trim_word str_def is_whitespace_def)
  then show ?thesis unfolding demo_blank_config_def
    by (intro validate_with_mcp [OF app_config_default_valid])
      (simp_all add: demo_config_env_def mcp_config_streamable_http_def)
qed

theorem valid_config_starts_up_witness:
  "app_config_validate demo_config_env demo_blank_config = Inr ()
   \<and> fst (load_definitions demo_mcp_env (build_mcp_server_definitions (ag_tool (ap_agent demo_blank_config)))
       (mcp_manager_new [])) \<noteq> Inr ()"
proof -
  let ?run = "load_definitions demo_mcp_env (build_mcp_server_definitions (ag_tool (ap_agent demo_blank_config))) (mcp_manager_new [])"
  have servers: "mcp_servers_of demo_blank_config = [(str '' '', mcp_config_streamable_http True (str ''u''))]"
    by (simp add: demo_blank_config_def)
  have "trim (str '' '') = []" by (simp add: trim_eq_Nil_iff str_def is_whitespace_def)
  then show ?thesis
    using valid_config_starts_up [OF demo_blank_config_valid, of demo_mcp_env "[]" "fst ?run" "snd ?run" demo_shell]
      demo_blank_config_valid by (simp add: servers)
qed

section \<open>The budget of a valid configuration\<close>

text \<open>The thread decides on auto compaction by its features, which listing the tools leaves alone.\<close>

lemma auto_compact_after_list:
  assumes "list_for_context_with_compact v b s = (r, s')"
  shows "auto_compact_enabled_for_thread L (rn_thread s') = auto_compact_enabled_for_thread L (rn_thread s)"
  using framedD [OF framed_list assms]
  by (auto simp: registry_frame_def auto_compact_enabled_for_thread_def auto_compact_enabled_def toolsets_only_sel)

lemma compact_tool_listed:
  "list_for_context_with_compact v True s = (Inr ds, s') \<Longrightarrow> compact_tool_definition \<in> set ds"
  by (auto simp: list_for_context_with_compact_def act_bind_Inr act_ret_def sort_by_name_def)

lemma prepared_request:
  assumes "prepare_request_state L s = (Inr request, s')"
    and "acc_tool_visible_threshold_ratio (al_compact_config L) \<le> acc_runtime_threshold_ratio (al_compact_config L)"
  shows "if auto_compact_enabled_for_thread L (rn_thread s)
    then runtime_compaction_required (al_compact_config L) (rq_budget_report request) \<longrightarrow>
      compact_tool_definition \<in> set (rq_tools request)
    else list_for_context_with_compact (al_tools L) False s = (Inr (rq_tools request), s')"
proof -
  obtain base s1 where base: "list_for_context_with_compact (al_tools L) False s = (Inr base, s1)"
    using assms(1) by (auto simp: prepare_request_state_def act_bind_Inr)
  let ?report = "estimate_request L (messages (rn_thread s1)) base"
  have enabled: "auto_compact_enabled_for_thread L (rn_thread s1) = auto_compact_enabled_for_thread L (rn_thread s)"
    by (rule auto_compact_after_list [OF base])
  show ?thesis
  proof (cases "auto_compact_enabled_for_thread L (rn_thread s) \<and> compact_tool_visible (al_compact_config L) ?report")
    case True
    then have "compact_tool_definition \<in> set (rq_tools request)"
      using assms(1) base enabled
      by (auto simp: prepare_request_state_def act_bind_Inr act_ret_def Let_def intro: compact_tool_listed)
    then show ?thesis using True by simp
  next
    case False
    then have "request = \<lparr>rq_messages = messages (rn_thread s1), rq_tools = base, rq_budget_report = ?report\<rparr>" "s' = s1"
      using assms(1) base enabled by (auto simp: prepare_request_state_def act_bind_def act_ret_def Let_def split: if_splits)
    moreover have "\<not> runtime_compaction_required (al_compact_config L) ?report" if "auto_compact_enabled_for_thread L (rn_thread s)"
      using that False assms(2) by (auto simp: runtime_compaction_required_def compact_tool_visible_def reaches_ratio_def)
    ultimately show ?thesis using base by simp
  qed
qed

text \<open>
  C32: what validation gives the context budget. In a loop built from a valid configuration the window and the reserve for
  the output are positive, and the reserve fits into the window unless it is the legacy reserve of the compact section,
  which is not compared with it. While auto compaction is on for a thread, every request whose budget has reached the
  threshold of a forced compaction offers the compact tool to the model; while it is off, as it is by default, the request
  offers the tools without it, whatever the budget.
\<close>
theorem valid_config_bounds_the_budget:
  assumes "app_config_validate G c = Inr u"
    and "L = with_compact_config w hooks tools (ap_llm c) (ag_compact (ap_agent c)) from_str js fdiv U"
  shows "0 < be_context_window_tokens (al_budget_estimator L) \<and> 0 < be_reserved_output_tokens (al_budget_estimator L)
    \<and> (lc_max_output_tokens (ap_llm c) \<noteq> None \<or> acc_reserved_output_tokens (ag_compact (ap_agent c)) = None \<longrightarrow>
         be_reserved_output_tokens (al_budget_estimator L) \<le> be_context_window_tokens (al_budget_estimator L))
    \<and> (\<forall>s request s'. prepare_request_state L s = (Inr request, s') \<longrightarrow>
         (if auto_compact_enabled_for_thread L (rn_thread s)
          then runtime_compaction_required (ag_compact (ap_agent c)) (rq_budget_report request) \<longrightarrow>
            compact_tool_definition \<in> set (rq_tools request)
          else list_for_context_with_compact tools False s = (Inr (rq_tools request), s')))"
proof -
  note valid = app_config_validate_parts [OF assms(1)]
  note llm = llm_validate_Inr [OF valid(1)] and cc = agent_compact_validate_Inr [OF valid(4)]
  have L: "al_budget_estimator L = estimator_from_config (ap_llm c) (ag_compact (ap_agent c))"
    "al_compact_config L = ag_compact (ap_agent c)" "al_tools L = tools"
    by (simp_all add: assms(2) with_compact_config_def with_compact_provider_def)
  have "max_output_tokens (ap_llm c) = n" if "lc_max_output_tokens (ap_llm c) = Some n" for n
    using that by (simp add: max_output_tokens_def)
  then have "0 < be_context_window_tokens (al_budget_estimator L) \<and> 0 < be_reserved_output_tokens (al_budget_estimator L)
    \<and> (lc_max_output_tokens (ap_llm c) \<noteq> None \<or> acc_reserved_output_tokens (ag_compact (ap_agent c)) = None \<longrightarrow>
         be_reserved_output_tokens (al_budget_estimator L) \<le> be_context_window_tokens (al_budget_estimator L))"
    using llm cc(3,5) by (auto simp: L estimator_from_config_def split: option.split)
  moreover have "if auto_compact_enabled_for_thread L (rn_thread s)
      then runtime_compaction_required (ag_compact (ap_agent c)) (rq_budget_report request) \<longrightarrow>
        compact_tool_definition \<in> set (rq_tools request)
      else list_for_context_with_compact tools False s = (Inr (rq_tools request), s')"
    if "prepare_request_state L s = (Inr request, s')" for s request s'
    using prepared_request [OF that] cc(3) unfolding L by blast
  ultimately show ?thesis by blast
qed

definition demo_reserve_config :: app_config where
  "demo_reserve_config = app_config_default\<lparr>ap_agent := agent_config_default
     \<lparr>ag_compact := agent_compact_config_default\<lparr>acc_enabled := True, acc_reserved_output_tokens := Some 8192\<rparr>\<rparr>\<rparr>"

lemma demo_reserve_config_valid: "app_config_validate demo_config_env demo_reserve_config = Inr ()"
proof -
  have "cg_env_filter demo_config_env (str ''info'') = Inr ()" by (simp add: demo_config_env_def)
  then have "app_config_validate demo_config_env app_config_default = Inr ()" by (rule app_config_default_valid)
  note valid = app_config_validate_parts [OF this]
  have "agent_compact_validate (ag_compact (ap_agent demo_reserve_config)) = Inr ()"
    by (simp add: demo_reserve_config_def agent_compact_validate_def agent_compact_config_default_def validate_ratio_def)
  then show ?thesis using valid
    by (auto simp: app_config_validate_def agent_validate_def demo_reserve_config_def mcp_servers_of_def app_config_default_def
        agent_config_default_def)
qed

theorem valid_config_bounds_the_budget_witness:
  "\<forall>w hooks (tools :: nat tool_env). 0 < be_context_window_tokens (al_budget_estimator (with_compact_config w hooks tools
     (ap_llm demo_reserve_config) (ag_compact (ap_agent demo_reserve_config)) (\<lambda>_. Inl (bail [])) (\<lambda>_. []) (\<lambda>m n. of_nat m)
     \<lparr>uuid_to_string = (\<lambda>_. []), uuid_parse_str = (\<lambda>_. None), uuid_new_v5 = (\<lambda>_. 0)\<rparr>))"
proof (intro allI)
  fix w :: "nat world" and hooks and tools :: "nat tool_env"
  show "0 < be_context_window_tokens (al_budget_estimator (with_compact_config w hooks tools
     (ap_llm demo_reserve_config) (ag_compact (ap_agent demo_reserve_config)) (\<lambda>_. Inl (bail [])) (\<lambda>_. []) (\<lambda>m n. of_nat m)
     \<lparr>uuid_to_string = (\<lambda>_. []), uuid_parse_str = (\<lambda>_. None), uuid_new_v5 = (\<lambda>_. 0)\<rparr>))"
    by (rule conjunct1 [OF valid_config_bounds_the_budget [OF demo_reserve_config_valid refl]])
qed

text \<open>
  The legacy reserve is not compared with the context window: there is a valid configuration under which every
  request, even an empty one, requires a compaction.
\<close>

theorem legacy_reserve_forces_compaction:
  "app_config_validate demo_config_env demo_reserve_config = Inr ()
   \<and> runtime_compaction_required (ag_compact (ap_agent demo_reserve_config))
       (estimate js demo_fdiv (estimator_from_config (ap_llm demo_reserve_config) (ag_compact (ap_agent demo_reserve_config))) ms ts)"
proof -
  have "known_model_token_limits llm_config_default = None"
    by (simp add: known_model_token_limits_def llm_config_default_def trim_word str_def is_whitespace_def to_ascii_lowercase_def)
  then have "context_window_tokens llm_config_default = 8192"
    by (simp add: context_window_tokens_def) (simp add: llm_config_default_def DEFAULT_CONTEXT_WINDOW_TOKENS_def)
  then have sizes: "estimator_from_config (ap_llm demo_reserve_config) (ag_compact (ap_agent demo_reserve_config))
      = \<lparr>be_context_window_tokens = 8192, be_reserved_output_tokens = 8192, be_tokenizer = str ''chars_div4''\<rparr>"
    by (simp add: estimator_from_config_def demo_reserve_config_def app_config_default_def)
      (simp add: llm_config_default_def)
  have "(85 :: rat) / 100 \<le> of_nat (x + 8192) / 8192" for x
    by (simp add: field_simps)
  then show ?thesis
    unfolding sizes runtime_compaction_required_def reaches_ratio_def
    by (simp add: estimate_ratio estimate_total demo_fdiv_def demo_reserve_config_valid)
      (simp add: demo_reserve_config_def agent_compact_config_default_def)
qed

section \<open>The sidecar is merged as a disjoint union\<close>

lemma merge_external_Inr:
  assumes "distinct (map fst xs)"
  shows "merge_external path xs servers = Inr merged
     \<longleftrightarrow> (\<forall>name \<in> fst ` set xs. map_of servers name = None) \<and> merged = servers @ xs"
  using assms
proof (induction xs arbitrary: servers)
  case (Cons x xs)
  obtain name c where x: "x = (name, c)" by fastforce
  show ?case
  proof (cases "map_of servers name = None")
    case True
    have "(\<forall>n \<in> fst ` set xs. map_of (servers @ [(name, c)]) n = None)
        \<longleftrightarrow> (\<forall>n \<in> fst ` set xs. map_of servers n = None)"
      using Cons.prems by (auto simp: x map_add_def image_iff split: option.split)
    then show ?thesis
      using Cons.IH [of "servers @ [(name, c)]"] Cons.prems True by (auto simp: x upsert_server_def update_new)
  qed (auto simp: x)
qed auto

lemma into_mcp_servers_names:
  "into_mcp_servers xs servers = Inr servers' \<Longrightarrow> distinct (map fst servers) \<Longrightarrow>
   \<forall>name \<in> fst ` set servers. trim name \<noteq> [] \<Longrightarrow>
   distinct (map fst servers') \<and> (\<forall>name \<in> fst ` set servers'. trim name \<noteq> [])"
proof (induction xs servers rule: into_mcp_servers.induct)
  case (2 server_name x xs servers)
  from 2(2) obtain c where run: "trim server_name \<noteq> []" "into_agent_config server_name x = Inr c"
    "into_mcp_servers xs (AList.update server_name c servers) = Inr servers'"
    by (auto split: if_splits sum.splits)
  have "distinct (map fst (AList.update server_name c servers))" using 2(3) by (rule distinct_update)
  moreover have "fst ` set (AList.update server_name c servers) = insert server_name (fst ` set servers)"
    by (simp add: dom_update)
  ultimately show ?case using 2(1) [OF run(1,2)] run 2(4) by simp
qed simp

text \<open>
  The merged configuration is the YAML one with the servers of the sidecar added under names that are new; these
  are distinct and not blank, and nothing else of the configuration changes.
\<close>

theorem sidecar_is_merged_disjointly:
  assumes "load_external_mcp_sidecar G h config_path c = Inr c'"
    and "path_exists h (resolve_external_mcp_config_path config_path)"
  shows "\<exists>raw j external servers. fs_read_to_string h (resolve_external_mcp_config_path config_path) = Some raw
     \<and> cg_json G raw = Inr j \<and> external_config_from_json j = Some external \<and> into_mcp_servers external [] = Inr servers
     \<and> distinct (map fst servers) \<and> (\<forall>name \<in> fst ` set servers. trim name \<noteq> [] \<and> map_of (mcp_servers_of c) name = None)
     \<and> c' = with_mcp (mcp_servers_of c @ servers) c"
proof -
  obtain raw j external servers where run: "fs_read_to_string h (resolve_external_mcp_config_path config_path) = Some raw"
    "cg_json G raw = Inr j" "external_config_from_json j = Some external" "into_mcp_servers external [] = Inr servers"
    and merged: "map_sum id (\<lambda>servers. with_mcp servers c)
      (merge_external (resolve_external_mcp_config_path config_path) servers (mcp_servers_of c)) = Inr c'"
    using assms by (auto simp: load_external_mcp_sidecar_def Let_def split: option.splits sum.splits)
  have names: "distinct (map fst servers)" "\<forall>name \<in> fst ` set servers. trim name \<noteq> []"
    using into_mcp_servers_names [OF run(4)] by simp_all
  obtain merged_servers where ok: "merge_external (resolve_external_mcp_config_path config_path) servers (mcp_servers_of c) = Inr merged_servers"
    "c' = with_mcp merged_servers c"
    using merged by (cases "merge_external (resolve_external_mcp_config_path config_path) servers (mcp_servers_of c)") auto
  then have merge: "\<forall>name \<in> fst ` set servers. map_of (mcp_servers_of c) name = None"
    "merged_servers = mcp_servers_of c @ servers"
    by (simp_all add: merge_external_Inr [OF names(1)])
  have "\<forall>name \<in> fst ` set servers. trim name \<noteq> [] \<and> map_of (mcp_servers_of c) name = None"
    using names(2) merge(1) by auto
  moreover have "c' = with_mcp (mcp_servers_of c @ servers) c" using ok(2) merge(2) by simp
  ultimately show ?thesis using run names(1) by blast
qed

section \<open>The process-wide snapshot\<close>

text \<open>Only the first valid configuration is ever installed, and what is installed is valid.\<close>

lemma install_keeps_first:
  "snd (install_global_config G c (Some c0)) = Some c0"
  "snd (install_global_config G c None) = (if app_config_validate G c = Inr () then Some c else None)"
  by (cases "app_config_validate G c"; simp add: install_global_config_def)+

theorem first_valid_configuration_stays:
  "fold (\<lambda>c g. snd (install_global_config G c g)) cs None
     = List.find (\<lambda>c. app_config_validate G c = Inr ()) cs"
proof -
  have stays: "fold (\<lambda>c g. snd (install_global_config G c g)) cs (Some c0) = Some c0" for cs c0
    by (induction cs) (simp_all add: install_keeps_first)
  show ?thesis by (induction cs) (simp_all add: install_keeps_first stays)
qed

section \<open>Resolved paths\<close>

lemma resolve_against_absolute:
  assumes "path_is_absolute (config_root config_path)" "p \<noteq> []"
  shows "path_is_absolute (resolve_against config_path p)"
proof -
  have "path_is_absolute (a @ b)" if "path_is_absolute a" for a b
    using that by (cases a) (auto simp: path_is_absolute_def str_def)
  then show ?thesis using assms by (simp add: resolve_against_def path_join_def)
qed

text \<open>Resolving against an absolute configuration path makes the paths absolute; doing it again changes nothing.\<close>

theorem resolution_is_idempotent:
  assumes "path_is_absolute (config_root config_path)"
  shows "app_config_resolve_paths config_path (app_config_resolve_paths config_path c) = app_config_resolve_paths config_path c"
proof -
  have "resolve_against config_path (resolve_against config_path p) = resolve_against config_path p" for p
    using resolve_against_absolute [OF assms, of p] by (cases "p = []") (auto simp: resolve_against_def)
  then show ?thesis
    by (simp add: app_config_resolve_paths_def logging_resolve_def session_resolve_def file_logging_resolve_def session_sqlite_resolve_def)
qed

end
