(* ===== verification/OJ_Browser_Protocol.thy ===== *)
theory OJ_Browser_Protocol
  imports OJ_Tool_Args
begin

text \<open>
  The messages between the browser tools and their sidecar, \<open>src/agent/tool/browser/protocol.rs\<close>: the requests and
  responses, and the derived \<open>Serialize\<close> and \<open>Deserialize\<close> on JSON values. An internally tagged enum finds its variant
  by the name or the index in the field \<open>action\<close>, or by the first element of a sequence; a struct that does not refuse
  unknown fields skips them, refuses repeated ones and also reads a sequence of its fields.
\<close>

section \<open>Messages\<close>

datatype browser_request_payload =
    NavigateRequest rstring
  | SnapshotRequest "nat option"
  | ClickRefRequest rstring
  | TypeRefRequest rstring rstring bool
  | ScreenshotRequest rstring
  | CloseRequest

record browser_request =
  bq_id :: rstring
  bq_payload :: browser_request_payload

record browser_navigate_result =
  bn_url :: rstring
  bn_title :: rstring

record browser_snapshot_element =
  el_reference :: rstring
  el_tag_name :: rstring
  el_role :: rstring
  el_label :: rstring
  el_text :: rstring
  el_selector :: rstring
  el_href :: "rstring option"
  el_target :: "rstring option"
  el_input_type :: "rstring option"
  el_placeholder :: "rstring option"
  el_section_hint :: "rstring option"
  el_disabled :: bool

record browser_snapshot_result =
  bs_url :: rstring
  bs_title :: rstring
  bs_snapshot_text :: rstring
  bs_elements :: "browser_snapshot_element list"
  bs_total_candidate_count :: nat
  bs_truncated :: bool

record browser_action_result =
  ba_reference :: rstring
  ba_url :: rstring
  ba_title :: rstring
  ba_opened_new_page :: bool

record browser_type_result =
  bt_reference :: rstring
  bt_url :: rstring
  bt_title :: rstring
  bt_text_length :: nat
  bt_submitted :: bool
  bt_opened_new_page :: bool

record browser_screenshot_result =
  bh_url :: rstring
  bh_title :: rstring
  bh_path :: rstring

record browser_close_result =
  bc_closed :: bool

datatype browser_response_payload =
    NavigateResponse browser_navigate_result
  | SnapshotResponse browser_snapshot_result
  | ClickRefResponse browser_action_result
  | TypeRefResponse browser_type_result
  | ScreenshotResponse browser_screenshot_result
  | CloseResponse browser_close_result

record browser_sidecar_error =
  bx_code :: rstring
  bx_message :: rstring
  bx_details :: json

record browser_response =
  bp_id :: rstring
  bp_ok :: bool
  bp_result :: "browser_response_payload option"
  bp_error :: "browser_sidecar_error option"

definition browser_sidecar_error_new :: "rstring \<Rightarrow> rstring \<Rightarrow> browser_sidecar_error" where
  "browser_sidecar_error_new code message = \<lparr>bx_code = code, bx_message = message, bx_details = JNull\<rparr>"

definition browser_response_success :: "rstring \<Rightarrow> browser_response_payload \<Rightarrow> browser_response" where
  "browser_response_success i result = \<lparr>bp_id = i, bp_ok = True, bp_result = Some result, bp_error = None\<rparr>"

definition browser_response_failure :: "rstring \<Rightarrow> rstring \<Rightarrow> rstring \<Rightarrow> browser_response" where
  "browser_response_failure i code message =
     \<lparr>bp_id = i, bp_ok = False, bp_result = None, bp_error = Some (browser_sidecar_error_new code message)\<rparr>"

section \<open>Serialization\<close>

definition jnat :: "nat \<Rightarrow> json" where
  "jnat n = JInt (int n)"

text \<open>A field that is left out when it is None.\<close>

definition skip_none :: "string \<Rightarrow> rstring option \<Rightarrow> (rstring \<times> json) list" where
  "skip_none k x = (case x of None \<Rightarrow> [] | Some s \<Rightarrow> [(str k, JStr s)])"

fun browser_request_fields :: "browser_request_payload \<Rightarrow> (rstring \<times> json) list" where
  "browser_request_fields (NavigateRequest url) = [(str ''action'', JStr (str ''navigate'')), (str ''url'', JStr url)]"
| "browser_request_fields (SnapshotRequest max_elements) =
     [(str ''action'', JStr (str ''snapshot'')), (str ''max_elements'', jopt jnat max_elements)]"
| "browser_request_fields (ClickRefRequest reference) =
     [(str ''action'', JStr (str ''click_ref'')), (str ''ref'', JStr reference)]"
| "browser_request_fields (TypeRefRequest reference t submit) =
     [(str ''action'', JStr (str ''type_ref'')), (str ''ref'', JStr reference), (str ''text'', JStr t),
      (str ''submit'', JBool submit)]"
| "browser_request_fields (ScreenshotRequest path) = [(str ''action'', JStr (str ''screenshot'')), (str ''path'', JStr path)]"
| "browser_request_fields CloseRequest = [(str ''action'', JStr (str ''close''))]"

definition browser_request_json :: "browser_request \<Rightarrow> json" where
  "browser_request_json q = JObj ((str ''id'', JStr (bq_id q)) # browser_request_fields (bq_payload q))"

definition browser_element_json :: "browser_snapshot_element \<Rightarrow> json" where
  "browser_element_json x =
     JObj ([(str ''ref'', JStr (el_reference x)), (str ''tag_name'', JStr (el_tag_name x)), (str ''role'', JStr (el_role x)),
            (str ''label'', JStr (el_label x)), (str ''text'', JStr (el_text x)), (str ''selector'', JStr (el_selector x))]
           @ skip_none ''href'' (el_href x) @ skip_none ''target'' (el_target x) @ skip_none ''input_type'' (el_input_type x)
           @ skip_none ''placeholder'' (el_placeholder x) @ skip_none ''section_hint'' (el_section_hint x)
           @ [(str ''disabled'', JBool (el_disabled x))])"

fun browser_payload_fields :: "browser_response_payload \<Rightarrow> (rstring \<times> json) list" where
  "browser_payload_fields (NavigateResponse r) =
     [(str ''action'', JStr (str ''navigate'')), (str ''url'', JStr (bn_url r)), (str ''title'', JStr (bn_title r))]"
| "browser_payload_fields (SnapshotResponse r) =
     [(str ''action'', JStr (str ''snapshot'')), (str ''url'', JStr (bs_url r)), (str ''title'', JStr (bs_title r)),
      (str ''snapshot_text'', JStr (bs_snapshot_text r)), (str ''elements'', JArr (map browser_element_json (bs_elements r))),
      (str ''total_candidate_count'', jnat (bs_total_candidate_count r)), (str ''truncated'', JBool (bs_truncated r))]"
| "browser_payload_fields (ClickRefResponse r) =
     [(str ''action'', JStr (str ''click_ref'')), (str ''ref'', JStr (ba_reference r)), (str ''url'', JStr (ba_url r)),
      (str ''title'', JStr (ba_title r)), (str ''opened_new_page'', JBool (ba_opened_new_page r))]"
| "browser_payload_fields (TypeRefResponse r) =
     [(str ''action'', JStr (str ''type_ref'')), (str ''ref'', JStr (bt_reference r)), (str ''url'', JStr (bt_url r)),
      (str ''title'', JStr (bt_title r)), (str ''text_length'', jnat (bt_text_length r)),
      (str ''submitted'', JBool (bt_submitted r)), (str ''opened_new_page'', JBool (bt_opened_new_page r))]"
| "browser_payload_fields (ScreenshotResponse r) =
     [(str ''action'', JStr (str ''screenshot'')), (str ''url'', JStr (bh_url r)), (str ''title'', JStr (bh_title r)),
      (str ''path'', JStr (bh_path r))]"
| "browser_payload_fields (CloseResponse r) =
     [(str ''action'', JStr (str ''close'')), (str ''closed'', JBool (bc_closed r))]"

definition browser_error_json :: "browser_sidecar_error \<Rightarrow> json" where
  "browser_error_json x =
     JObj [(str ''code'', JStr (bx_code x)), (str ''message'', JStr (bx_message x)), (str ''details'', bx_details x)]"

definition browser_response_json :: "browser_response \<Rightarrow> json" where
  "browser_response_json r =
     JObj ([(str ''id'', JStr (bp_id r)), (str ''ok'', JBool (bp_ok r))]
           @ (case bp_result r of None \<Rightarrow> [] | Some p \<Rightarrow> [(str ''result'', JObj (browser_payload_fields p))])
           @ (case bp_error r of None \<Rightarrow> [] | Some x \<Rightarrow> [(str ''error'', browser_error_json x)]))"

section \<open>Deserialization\<close>

text \<open>The known fields of an object, or the elements of a sequence of which only a first part is required.\<close>

definition known_fields :: "rstring list \<Rightarrow> (rstring \<times> json) list \<Rightarrow> (rstring \<times> json) list option" where
  "known_fields names kvs =
     (let ks = filter (\<lambda>(k, _). k \<in> set names) kvs in if distinct (map fst ks) then Some ks else None)"

fun open_fields :: "rstring list \<Rightarrow> nat \<Rightarrow> json \<Rightarrow> (rstring \<times> json) list option" where
  "open_fields names required (JObj kvs) = known_fields names kvs"
| "open_fields names required (JArr js) =
     (if required \<le> length js \<and> length js \<le> length names then Some (zip names js) else None)"
| "open_fields names required _ = None"

definition dec_variant :: "rstring list \<Rightarrow> json \<Rightarrow> rstring option" where
  "dec_variant names j =
     (case j of
        JStr s \<Rightarrow> if s \<in> set names then Some s else None
      | JInt i \<Rightarrow> if 0 \<le> i \<and> nat i < length names then Some (names ! nat i) else None
      | _ \<Rightarrow> None)"

definition browser_actions :: "rstring list" where
  "browser_actions =
     [str ''navigate'', str ''snapshot'', str ''click_ref'', str ''type_ref'', str ''screenshot'', str ''close'']"

definition browser_request_payload_from_fields :: "(rstring \<times> json) list \<Rightarrow> browser_request_payload option" where
  "browser_request_payload_from_fields kvs =
     Option.bind (known_fields [str ''action''] kvs) (\<lambda>t.
     Option.bind (field_req (dec_variant browser_actions) ''action'' t) (\<lambda>action.
     if action = str ''navigate'' then
       Option.bind (known_fields [str ''url''] kvs) (\<lambda>m. map_option NavigateRequest (field_req dec_string ''url'' m))
     else if action = str ''snapshot'' then
       Option.bind (known_fields [str ''max_elements''] kvs) (\<lambda>m.
       map_option SnapshotRequest (field_opt dec_u64 ''max_elements'' m))
     else if action = str ''click_ref'' then
       Option.bind (known_fields [str ''ref''] kvs) (\<lambda>m. map_option ClickRefRequest (field_req dec_string ''ref'' m))
     else if action = str ''type_ref'' then
       Option.bind (known_fields [str ''ref'', str ''text'', str ''submit''] kvs) (\<lambda>m.
       Option.bind (field_req dec_string ''ref'' m) (\<lambda>reference.
       Option.bind (field_req dec_string ''text'' m) (\<lambda>t.
       map_option (TypeRefRequest reference t) (field_req dec_bool ''submit'' m))))
     else if action = str ''screenshot'' then
       Option.bind (known_fields [str ''path''] kvs) (\<lambda>m. map_option ScreenshotRequest (field_req dec_string ''path'' m))
     else Some CloseRequest))"

text \<open>The struct with the flattened payload reads objects only.\<close>

fun browser_request_from_json :: "json \<Rightarrow> browser_request option" where
  "browser_request_from_json (JObj kvs) =
     Option.bind (known_fields [str ''id''] kvs) (\<lambda>m.
     Option.bind (field_req dec_string ''id'' m) (\<lambda>i.
     Option.bind (browser_request_payload_from_fields (filter (\<lambda>(k, _). k \<noteq> str ''id'') kvs)) (\<lambda>p.
     Some \<lparr>bq_id = i, bq_payload = p\<rparr>)))"
| "browser_request_from_json _ = None"

definition browser_element_from_json :: "json \<Rightarrow> browser_snapshot_element option" where
  "browser_element_from_json j =
     Option.bind (open_fields [str ''ref'', str ''tag_name'', str ''role'', str ''label'', str ''text'', str ''selector'',
       str ''href'', str ''target'', str ''input_type'', str ''placeholder'', str ''section_hint'', str ''disabled''] 6 j) (\<lambda>m.
     Option.bind (field_req dec_string ''ref'' m) (\<lambda>reference.
     Option.bind (field_req dec_string ''tag_name'' m) (\<lambda>tag_name.
     Option.bind (field_req dec_string ''role'' m) (\<lambda>role.
     Option.bind (field_req dec_string ''label'' m) (\<lambda>label.
     Option.bind (field_req dec_string ''text'' m) (\<lambda>t.
     Option.bind (field_req dec_string ''selector'' m) (\<lambda>selector.
     Option.bind (field_opt dec_string ''href'' m) (\<lambda>href.
     Option.bind (field_opt dec_string ''target'' m) (\<lambda>target.
     Option.bind (field_opt dec_string ''input_type'' m) (\<lambda>input_type.
     Option.bind (field_opt dec_string ''placeholder'' m) (\<lambda>placeholder.
     Option.bind (field_opt dec_string ''section_hint'' m) (\<lambda>section_hint.
     Option.bind (field_default False dec_bool ''disabled'' m) (\<lambda>disabled.
     Some \<lparr>el_reference = reference, el_tag_name = tag_name, el_role = role, el_label = label, el_text = t,
           el_selector = selector, el_href = href, el_target = target, el_input_type = input_type,
           el_placeholder = placeholder, el_section_hint = section_hint, el_disabled = disabled\<rparr>)))))))))))))"

definition navigate_result_from_json :: "json \<Rightarrow> browser_navigate_result option" where
  "navigate_result_from_json j =
     Option.bind (open_fields [str ''url'', str ''title''] 2 j) (\<lambda>m.
     Option.bind (field_req dec_string ''url'' m) (\<lambda>url.
     Option.bind (field_req dec_string ''title'' m) (\<lambda>title.
     Some \<lparr>bn_url = url, bn_title = title\<rparr>)))"

definition snapshot_result_from_json :: "json \<Rightarrow> browser_snapshot_result option" where
  "snapshot_result_from_json j =
     Option.bind (open_fields [str ''url'', str ''title'', str ''snapshot_text'', str ''elements'',
       str ''total_candidate_count'', str ''truncated''] 6 j) (\<lambda>m.
     Option.bind (field_req dec_string ''url'' m) (\<lambda>url.
     Option.bind (field_req dec_string ''title'' m) (\<lambda>title.
     Option.bind (field_req dec_string ''snapshot_text'' m) (\<lambda>snapshot_text.
     Option.bind (field_req (dec_list browser_element_from_json) ''elements'' m) (\<lambda>elements.
     Option.bind (field_req dec_u64 ''total_candidate_count'' m) (\<lambda>total.
     Option.bind (field_req dec_bool ''truncated'' m) (\<lambda>truncated.
     Some \<lparr>bs_url = url, bs_title = title, bs_snapshot_text = snapshot_text, bs_elements = elements,
           bs_total_candidate_count = total, bs_truncated = truncated\<rparr>)))))))"

definition action_result_from_json :: "json \<Rightarrow> browser_action_result option" where
  "action_result_from_json j =
     Option.bind (open_fields [str ''ref'', str ''url'', str ''title'', str ''opened_new_page''] 4 j) (\<lambda>m.
     Option.bind (field_req dec_string ''ref'' m) (\<lambda>reference.
     Option.bind (field_req dec_string ''url'' m) (\<lambda>url.
     Option.bind (field_req dec_string ''title'' m) (\<lambda>title.
     Option.bind (field_req dec_bool ''opened_new_page'' m) (\<lambda>opened_new_page.
     Some \<lparr>ba_reference = reference, ba_url = url, ba_title = title, ba_opened_new_page = opened_new_page\<rparr>)))))"

definition type_result_from_json :: "json \<Rightarrow> browser_type_result option" where
  "type_result_from_json j =
     Option.bind (open_fields [str ''ref'', str ''url'', str ''title'', str ''text_length'', str ''submitted'',
       str ''opened_new_page''] 6 j) (\<lambda>m.
     Option.bind (field_req dec_string ''ref'' m) (\<lambda>reference.
     Option.bind (field_req dec_string ''url'' m) (\<lambda>url.
     Option.bind (field_req dec_string ''title'' m) (\<lambda>title.
     Option.bind (field_req dec_u64 ''text_length'' m) (\<lambda>text_length.
     Option.bind (field_req dec_bool ''submitted'' m) (\<lambda>submitted.
     Option.bind (field_req dec_bool ''opened_new_page'' m) (\<lambda>opened_new_page.
     Some \<lparr>bt_reference = reference, bt_url = url, bt_title = title, bt_text_length = text_length,
           bt_submitted = submitted, bt_opened_new_page = opened_new_page\<rparr>)))))))"

definition screenshot_result_from_json :: "json \<Rightarrow> browser_screenshot_result option" where
  "screenshot_result_from_json j =
     Option.bind (open_fields [str ''url'', str ''title'', str ''path''] 3 j) (\<lambda>m.
     Option.bind (field_req dec_string ''url'' m) (\<lambda>url.
     Option.bind (field_req dec_string ''title'' m) (\<lambda>title.
     Option.bind (field_req dec_string ''path'' m) (\<lambda>path.
     Some \<lparr>bh_url = url, bh_title = title, bh_path = path\<rparr>))))"

definition close_result_from_json :: "json \<Rightarrow> browser_close_result option" where
  "close_result_from_json j =
     Option.bind (open_fields [str ''closed''] 1 j) (\<lambda>m.
     Option.bind (field_req dec_bool ''closed'' m) (\<lambda>closed. Some \<lparr>bc_closed = closed\<rparr>))"

definition browser_payload_of_action :: "rstring \<Rightarrow> json \<Rightarrow> browser_response_payload option" where
  "browser_payload_of_action action j =
     (if action = str ''navigate'' then map_option NavigateResponse (navigate_result_from_json j)
      else if action = str ''snapshot'' then map_option SnapshotResponse (snapshot_result_from_json j)
      else if action = str ''click_ref'' then map_option ClickRefResponse (action_result_from_json j)
      else if action = str ''type_ref'' then map_option TypeRefResponse (type_result_from_json j)
      else if action = str ''screenshot'' then map_option ScreenshotResponse (screenshot_result_from_json j)
      else map_option CloseResponse (close_result_from_json j))"

fun browser_payload_from_json :: "json \<Rightarrow> browser_response_payload option" where
  "browser_payload_from_json (JObj kvs) =
     Option.bind (known_fields [str ''action''] kvs) (\<lambda>t.
     Option.bind (field_req (dec_variant browser_actions) ''action'' t) (\<lambda>action.
     browser_payload_of_action action (JObj (filter (\<lambda>(k, _). k \<noteq> str ''action'') kvs))))"
| "browser_payload_from_json (JArr (t # js)) =
     Option.bind (dec_variant browser_actions t) (\<lambda>action. browser_payload_of_action action (JArr js))"
| "browser_payload_from_json _ = None"

definition browser_error_from_json :: "json \<Rightarrow> browser_sidecar_error option" where
  "browser_error_from_json j =
     Option.bind (open_fields [str ''code'', str ''message'', str ''details''] 2 j) (\<lambda>m.
     Option.bind (field_req dec_string ''code'' m) (\<lambda>code.
     Option.bind (field_req dec_string ''message'' m) (\<lambda>message.
     Option.bind (field_default JNull Some ''details'' m) (\<lambda>details.
     Some \<lparr>bx_code = code, bx_message = message, bx_details = details\<rparr>))))"

definition browser_response_from_json :: "json \<Rightarrow> browser_response option" where
  "browser_response_from_json j =
     Option.bind (open_fields [str ''id'', str ''ok'', str ''result'', str ''error''] 2 j) (\<lambda>m.
     Option.bind (field_req dec_string ''id'' m) (\<lambda>i.
     Option.bind (field_req dec_bool ''ok'' m) (\<lambda>ok.
     Option.bind (field_opt browser_payload_from_json ''result'' m) (\<lambda>result.
     Option.bind (field_opt browser_error_from_json ''error'' m) (\<lambda>error.
     Some \<lparr>bp_id = i, bp_ok = ok, bp_result = result, bp_error = error\<rparr>)))))"

section \<open>Round trips\<close>

text \<open>How the decoders of a field see the fields of an object one by one.\<close>

lemma known_fields_all:
  "set (map fst kvs) \<subseteq> set names \<Longrightarrow> distinct (map fst kvs) \<Longrightarrow> known_fields names kvs = Some kvs"
proof -
  assume "set (map fst kvs) \<subseteq> set names" "distinct (map fst kvs)"
  moreover from this have "filter (\<lambda>(k, _). k \<in> set names) kvs = kvs" by (auto intro!: filter_True)
  ultimately show ?thesis by (simp add: known_fields_def)
qed

lemma map_of_skip_none [simp]: "map_of (skip_none k x) = (\<lambda>k'. if k' = str k then map_option JStr x else None)"
  by (auto simp: skip_none_def split: option.split)

lemma skip_none_keys [simp]: "map fst (skip_none k x) = (if x = None then [] else [str k])"
  by (simp add: skip_none_def split: option.split)

lemma dec_opt_string [simp]: "dec_opt dec_string (JStr s) = Some (Some s)" "dec_opt d JNull = Some None"
  by (simp_all add: dec_opt_def)

lemma dec_u64_jnat [simp]: "n < 2 ^ 64 \<Longrightarrow> dec_u64 (jnat n) = Some n"
  by (simp add: jnat_def)

lemma jnat_not_null [simp]: "jnat n \<noteq> JNull"
  by (simp add: jnat_def)

lemma browser_request_roundtrip:
  assumes "case bq_payload q of SnapshotRequest (Some n) \<Rightarrow> n < 2 ^ 64 | _ \<Rightarrow> True"
  shows "browser_request_from_json (browser_request_json q) = Some q"
proof (cases q)
  case (fields i p)
  show ?thesis
  proof (cases p)
    case (SnapshotRequest m)
    then show ?thesis using assms fields
      by (cases m) (simp_all add: browser_request_json_def known_fields_def browser_request_payload_from_fields_def Let_def
        field_req_def field_opt_def dec_variant_def browser_actions_def jopt_def dec_opt_def str_eq_iff)
  qed (simp_all add: fields browser_request_json_def known_fields_def browser_request_payload_from_fields_def Let_def
        field_req_def field_opt_def dec_variant_def browser_actions_def str_eq_iff)
qed

lemma field_of_string [simp]:
  "map_of m (str k) = Some (JStr s) \<Longrightarrow> field_req dec_string k m = Some s"
  "map_of m (str k) = map_option JStr x \<Longrightarrow> field_opt dec_string k m = Some x"
  by (simp_all add: field_req_def field_opt_def split: option.split)

lemma browser_element_roundtrip [simp]: "browser_element_from_json (browser_element_json x) = Some x"
proof -
  let ?names = "[str ''ref'', str ''tag_name'', str ''role'', str ''label'', str ''text'', str ''selector'',
       str ''href'', str ''target'', str ''input_type'', str ''placeholder'', str ''section_hint'', str ''disabled'']"
  let ?kvs = "[(str ''ref'', JStr (el_reference x)), (str ''tag_name'', JStr (el_tag_name x)), (str ''role'', JStr (el_role x)),
            (str ''label'', JStr (el_label x)), (str ''text'', JStr (el_text x)), (str ''selector'', JStr (el_selector x))]
           @ skip_none ''href'' (el_href x) @ skip_none ''target'' (el_target x) @ skip_none ''input_type'' (el_input_type x)
           @ skip_none ''placeholder'' (el_placeholder x) @ skip_none ''section_hint'' (el_section_hint x)
           @ [(str ''disabled'', JBool (el_disabled x))]"
  have known: "known_fields ?names ?kvs = Some ?kvs"
    by (rule known_fields_all) auto
  have map: "map_of ?kvs = (\<lambda>k.
      if k = str ''ref'' then Some (JStr (el_reference x)) else if k = str ''tag_name'' then Some (JStr (el_tag_name x))
      else if k = str ''role'' then Some (JStr (el_role x)) else if k = str ''label'' then Some (JStr (el_label x))
      else if k = str ''text'' then Some (JStr (el_text x)) else if k = str ''selector'' then Some (JStr (el_selector x))
      else if k = str ''href'' then map_option JStr (el_href x) else if k = str ''target'' then map_option JStr (el_target x)
      else if k = str ''input_type'' then map_option JStr (el_input_type x)
      else if k = str ''placeholder'' then map_option JStr (el_placeholder x)
      else if k = str ''section_hint'' then map_option JStr (el_section_hint x)
      else if k = str ''disabled'' then Some (JBool (el_disabled x)) else None)"
    by (rule ext) (auto simp: map_add_def split: option.split)
  show ?thesis
    unfolding browser_element_from_json_def browser_element_json_def open_fields.simps known
    by (simp add: field_default_def map del: map_of_append append_Cons append_Nil)
qed

lemma dec_all_map: "(\<And>x. x \<in> set xs \<Longrightarrow> d (f x) = Some x) \<Longrightarrow> dec_all d (map f xs) = Some xs"
  by (induction xs) auto

definition payload_bounded :: "browser_response_payload \<Rightarrow> bool" where
  "payload_bounded p =
     (case p of SnapshotResponse r \<Rightarrow> bs_total_candidate_count r < 2 ^ 64 | TypeRefResponse r \<Rightarrow> bt_text_length r < 2 ^ 64 | _ \<Rightarrow> True)"

lemma browser_payload_roundtrip:
  assumes "payload_bounded p"
  shows "browser_payload_from_json (JObj (browser_payload_fields p)) = Some p"
proof (cases p)
  case (SnapshotResponse r)
  have "dec_all browser_element_from_json (map browser_element_json (bs_elements r)) = Some (bs_elements r)"
    by (rule dec_all_map) simp
  then show ?thesis using assms
    by (simp add: SnapshotResponse known_fields_def Let_def field_req_def dec_variant_def browser_actions_def
      browser_payload_of_action_def payload_bounded_def snapshot_result_from_json_def)
qed (use assms in \<open>simp_all add: known_fields_def Let_def field_req_def dec_variant_def browser_actions_def
      browser_payload_of_action_def payload_bounded_def navigate_result_from_json_def action_result_from_json_def
      type_result_from_json_def screenshot_result_from_json_def close_result_from_json_def\<close>)

lemma browser_error_roundtrip: "browser_error_from_json (browser_error_json x) = Some x"
  by (simp add: browser_error_from_json_def browser_error_json_def known_fields_def Let_def field_req_def field_default_def)

text \<open>
  Both directions of the protocol: what is written is read back as it was, for counts that fit their width.
\<close>

theorem browser_response_roundtrip:
  assumes "case bp_result r of None \<Rightarrow> True | Some p \<Rightarrow> payload_bounded p"
  shows "browser_response_from_json (browser_response_json r) = Some r"
proof -
  have payload: "dec_opt browser_payload_from_json (JObj (browser_payload_fields p)) = Some (Some p)" if "payload_bounded p" for p
    using browser_payload_roundtrip [OF that] by (simp add: dec_opt_def)
  have error: "dec_opt browser_error_from_json (browser_error_json x) = Some (Some x)" for x
    by (simp add: dec_opt_def browser_error_roundtrip) (simp add: browser_error_json_def)
  show ?thesis
    using assms payload error
    by (cases r; cases "bp_result r"; cases "bp_error r")
      (simp_all add: browser_response_from_json_def browser_response_json_def known_fields_def Let_def field_req_def field_opt_def)
qed

end
