(* ===== verification/OJ_Browser.thy ===== *)
theory OJ_Browser
  imports OJ_Browser_Protocol OJ_Skill_Install "HOL-Library.Sublist" "HOL-Library.Word"
begin

text \<open>
  Browser sessions, \<open>src/agent/tool/browser/service.rs\<close> and \<open>session.rs\<close>: the client of one sidecar process, and the
  sessions of the threads with their directories. Starting a process, writing to it, reading its lines, waiting for it
  and killing it are parameters, as are the printing and parsing of JSON text and fresh uuids. An operation of the
  manager holds the lock of its session and is one step here.
\<close>

section \<open>Processes\<close>

record ('w, 'p) sidecar_env =
  sc_spawn :: "rstring \<Rightarrow> rstring list \<Rightarrow> (rstring \<times> rstring) list \<Rightarrow> ('w, 'p) act"
  sc_write :: "'p \<Rightarrow> rstring \<Rightarrow> ('w, unit) act"
  sc_flush :: "'p \<Rightarrow> ('w, unit) act"
  sc_next_line :: "'p \<Rightarrow> ('w, rstring option) act"
  sc_wait_timeout :: "'p \<Rightarrow> 'w \<Rightarrow> (err + unit) option \<times> 'w"
  sc_kill :: "'p \<Rightarrow> ('w, unit) act"
  sc_wait :: "'p \<Rightarrow> ('w, unit) act"
  sc_json_text :: "json \<Rightarrow> rstring"
  sc_json_parse :: "rstring \<Rightarrow> err + json"
  sc_decode_error :: "json \<Rightarrow> err"
  sc_uuid :: "'w \<Rightarrow> rstring \<times> 'w"
  sc_os_error :: rstring

section \<open>The client of one sidecar\<close>

record browser_process_command_spec =
  ps_executable :: rstring
  ps_args :: "rstring list"
  ps_env :: "(rstring \<times> rstring) list"

definition node_sidecar :: "rstring \<Rightarrow> browser_process_command_spec" where
  "node_sidecar script_path = \<lparr>ps_executable = str ''node'', ps_args = [script_path], ps_env = []\<rparr>"

definition process_with_env :: "rstring \<Rightarrow> rstring \<Rightarrow> browser_process_command_spec \<Rightarrow> browser_process_command_spec" where
  "process_with_env k v p = p\<lparr>ps_env := AList.update k v (ps_env p)\<rparr>"

record browser_runtime_options =
  ro_headless :: bool
  ro_keep_artifacts :: bool
  ro_chrome_executable :: "rstring option"
  ro_launch_timeout_ms :: nat

definition browser_runtime_options_default :: browser_runtime_options where
  "browser_runtime_options_default =
     \<lparr>ro_headless = True, ro_keep_artifacts = False, ro_chrome_executable = None, ro_launch_timeout_ms = 30000\<rparr>"

record browser_service_config =
  vc_process :: browser_process_command_spec
  vc_runtime :: browser_runtime_options
  vc_session_root :: rstring
  vc_user_data_dir :: rstring

record 'p browser_service =
  vs_config :: browser_service_config
  vs_child :: "'p option"
  vs_stdin :: "'p option"
  vs_stdout :: "'p option"
  vs_next_request_id :: "64 word"

definition browser_service_new :: "browser_service_config \<Rightarrow> 'p browser_service" where
  "browser_service_new c = \<lparr>vs_config = c, vs_child = None, vs_stdin = None, vs_stdout = None, vs_next_request_id = 1\<rparr>"

definition is_started :: "'p browser_service \<Rightarrow> bool" where
  "is_started s \<longleftrightarrow> vs_child s \<noteq> None"

definition on_process :: "('w, 'a) act \<Rightarrow> ('p browser_service \<times> 'w, 'a) act" where
  "on_process m = (\<lambda>(s, w). let (r, w1) = m w in (r, (s, w1)))"

text \<open>The variables of the process: the configured ones, and those of the session, which win.\<close>

definition sidecar_variables :: "browser_service_config \<Rightarrow> (rstring \<times> rstring) list" where
  "sidecar_variables c =
     fold (\<lambda>(k, v). AList.update k v)
       ([(str ''OPENJARVIS_BROWSER_HEADLESS'', if ro_headless (vc_runtime c) then str ''1'' else str ''0''),
         (str ''OPENJARVIS_BROWSER_KEEP_ARTIFACTS'', if ro_keep_artifacts (vc_runtime c) then str ''1'' else str ''0''),
         (str ''OPENJARVIS_BROWSER_SESSION_DIR'', vc_session_root c),
         (str ''OPENJARVIS_BROWSER_USER_DATA_DIR'', vc_user_data_dir c),
         (str ''OPENJARVIS_BROWSER_LAUNCH_TIMEOUT_MS'', nat_str (ro_launch_timeout_ms (vc_runtime c)))]
        @ (case ro_chrome_executable (vc_runtime c) of
             None \<Rightarrow> [] | Some path \<Rightarrow> [(str ''OPENJARVIS_BROWSER_CHROME_PATH'', path)]))
       (ps_env (vc_process c))"

definition ensure_started :: "('w, 'p) sidecar_env \<Rightarrow> ('p browser_service \<times> 'w, unit) act" where
  "ensure_started S = (\<lambda>(s, w).
     if vs_child s \<noteq> None then (Inr (), (s, w))
     else
       (let process = vc_process (vs_config s) in
        case act_context (str ''failed to spawn browser sidecar executable `'' @ ps_executable process @ str ''`'')
               (sc_spawn S (ps_executable process) (ps_args process) (sidecar_variables (vs_config s))) w of
          (Inl e, w1) \<Rightarrow> (Inl e, (s, w1))
        | (Inr child, w1) \<Rightarrow>
            (Inr (), (s\<lparr>vs_child := Some child, vs_stdin := Some child, vs_stdout := Some child\<rparr>, w1))))"

definition with_pipe ::
    "string \<Rightarrow> ('p browser_service \<Rightarrow> 'p option) \<Rightarrow> ('p \<Rightarrow> ('p browser_service \<times> 'w, 'a) act)
     \<Rightarrow> ('p browser_service \<times> 'w, 'a) act" where
  "with_pipe missing pipe f = (\<lambda>(s, w).
     case pipe s of None \<Rightarrow> (Inl (bail (str missing)), (s, w)) | Some p \<Rightarrow> f p (s, w))"

text \<open>What is made of the line that answers a request.\<close>

definition decode_browser_response ::
    "('w, 'p) sidecar_env \<Rightarrow> rstring \<Rightarrow> rstring \<Rightarrow> err + browser_response_payload" where
  "decode_browser_response S request_id line =
     (case (case sc_json_parse S line of
              Inl e \<Rightarrow> Inl e
            | Inr j \<Rightarrow> (case browser_response_from_json j of None \<Rightarrow> Inl (sc_decode_error S j) | Some x \<Rightarrow> Inr x)) of
        Inl e \<Rightarrow> Inl (err_context (str ''failed to decode browser sidecar response line: '' @ line) e)
      | Inr response \<Rightarrow>
          if bp_id response \<noteq> request_id
          then Inl (bail (str ''browser sidecar response id mismatch: expected `'' @ request_id @ str ''`, got `''
                          @ bp_id response @ str ''`''))
          else if bp_ok response then
            (case bp_result response of
               None \<Rightarrow> Inl (bail (str ''browser sidecar returned `ok=true` without a result payload''))
             | Some payload \<Rightarrow> Inr payload)
          else
            (case bp_error response of
               None \<Rightarrow> Inl (bail (str ''browser sidecar returned `ok=false` without an error payload''))
             | Some error \<Rightarrow> Inl (bail (str ''browser sidecar `'' @ bx_code error @ str ''`: '' @ bx_message error))))"

definition browser_request_id :: "64 word \<Rightarrow> rstring" where
  "browser_request_id n = str ''browser-'' @ nat_str (unat n)"

definition service_call ::
    "('w, 'p) sidecar_env \<Rightarrow> browser_request_payload \<Rightarrow> ('p browser_service \<times> 'w, browser_response_payload) act" where
  "service_call S payload =
     act_bind (ensure_started S) (\<lambda>_ (s, w).
       let request_id = browser_request_id (vs_next_request_id s);
           encoded = sc_json_text S (browser_request_json \<lparr>bq_id = request_id, bq_payload = payload\<rparr>) in
       act_bind
         (with_pipe ''browser sidecar stdin is not available'' vs_stdin (\<lambda>stdin.
          act_bind (on_process (act_context (str ''failed to write browser sidecar request'') (sc_write S stdin encoded))) (\<lambda>_.
          act_bind (on_process (act_context (str ''failed to terminate browser sidecar request line'') (sc_write S stdin [10]))) (\<lambda>_.
          on_process (act_context (str ''failed to flush browser sidecar request'') (sc_flush S stdin)))))) (\<lambda>_.
       act_bind
         (with_pipe ''browser sidecar stdout is not available'' vs_stdout (\<lambda>stdout.
          on_process (act_context (str ''failed to read browser sidecar response'') (sc_next_line S stdout)))) (\<lambda>line.
       case line of
         None \<Rightarrow> act_fail (bail (str ''browser sidecar exited before returning a response''))
       | Some l \<Rightarrow> act_lift (decode_browser_response S request_id l)))
         (s\<lparr>vs_next_request_id := vs_next_request_id s + 1\<rparr>, w))"

fun response_action_name :: "browser_response_payload \<Rightarrow> rstring" where
  "response_action_name (NavigateResponse _) = str ''navigate''"
| "response_action_name (SnapshotResponse _) = str ''snapshot''"
| "response_action_name (ClickRefResponse _) = str ''click_ref''"
| "response_action_name (TypeRefResponse _) = str ''type_ref''"
| "response_action_name (ScreenshotResponse _) = str ''screenshot''"
| "response_action_name (CloseResponse _) = str ''close''"

definition unexpected_response :: "string \<Rightarrow> browser_response_payload \<Rightarrow> ('s, 'a) act" where
  "unexpected_response action other =
     act_fail (bail (str ''browser sidecar returned `'' @ response_action_name other @ str ''` for '' @ str action))"

definition service_navigate ::
    "('w, 'p) sidecar_env \<Rightarrow> rstring \<Rightarrow> ('p browser_service \<times> 'w, browser_navigate_result) act" where
  "service_navigate S url = act_bind (service_call S (NavigateRequest url))
     (\<lambda>p. case p of NavigateResponse r \<Rightarrow> act_ret r | other \<Rightarrow> unexpected_response ''navigate'' other)"

definition service_snapshot ::
    "('w, 'p) sidecar_env \<Rightarrow> nat option \<Rightarrow> ('p browser_service \<times> 'w, browser_snapshot_result) act" where
  "service_snapshot S max_elements = act_bind (service_call S (SnapshotRequest max_elements))
     (\<lambda>p. case p of SnapshotResponse r \<Rightarrow> act_ret r | other \<Rightarrow> unexpected_response ''snapshot'' other)"

definition service_click_ref ::
    "('w, 'p) sidecar_env \<Rightarrow> rstring \<Rightarrow> ('p browser_service \<times> 'w, browser_action_result) act" where
  "service_click_ref S reference = act_bind (service_call S (ClickRefRequest reference))
     (\<lambda>p. case p of ClickRefResponse r \<Rightarrow> act_ret r | other \<Rightarrow> unexpected_response ''click_ref'' other)"

definition service_type_ref ::
    "('w, 'p) sidecar_env \<Rightarrow> rstring \<Rightarrow> rstring \<Rightarrow> bool \<Rightarrow> ('p browser_service \<times> 'w, browser_type_result) act" where
  "service_type_ref S reference t submit = act_bind (service_call S (TypeRefRequest reference t submit))
     (\<lambda>p. case p of TypeRefResponse r \<Rightarrow> act_ret r | other \<Rightarrow> unexpected_response ''type_ref'' other)"

definition service_screenshot ::
    "('w, 'p) sidecar_env \<Rightarrow> rstring \<Rightarrow> ('p browser_service \<times> 'w, browser_screenshot_result) act" where
  "service_screenshot S path = act_bind (service_call S (ScreenshotRequest path))
     (\<lambda>p. case p of ScreenshotResponse r \<Rightarrow> act_ret r | other \<Rightarrow> unexpected_response ''screenshot'' other)"

definition shutdown_process :: "('w, 'p) sidecar_env \<Rightarrow> ('p browser_service \<times> 'w, unit) act" where
  "shutdown_process S = (\<lambda>(s, w).
     let s1 = s\<lparr>vs_stdin := None, vs_stdout := None, vs_child := None\<rparr> in
     case vs_child s of
       None \<Rightarrow> (Inr (), (s1, w))
     | Some child \<Rightarrow>
         (case sc_wait_timeout S child w of
            (Some wait_result, w1) \<Rightarrow>
              (map_sum (err_context (str ''failed to wait for browser sidecar exit'')) id wait_result, (s1, w1))
          | (None, w1) \<Rightarrow>
              act_bind (on_process (act_context (str ''failed to kill browser sidecar after timeout'') (sc_kill S child))) (\<lambda>_.
              on_process (act_context (str ''failed to wait for killed browser sidecar'') (sc_wait S child))) (s1, w1)))"

definition service_close :: "('w, 'p) sidecar_env \<Rightarrow> ('p browser_service \<times> 'w, browser_close_result) act" where
  "service_close S = (\<lambda>(s, w).
     if \<not> is_started s then (Inr \<lparr>bc_closed = False\<rparr>, (s, w))
     else
       (let (response, st1) = service_call S CloseRequest (s, w);
            (_, st2) = shutdown_process S st1 in
        act_bind (act_lift response)
          (\<lambda>p. case p of CloseResponse r \<Rightarrow> act_ret r | other \<Rightarrow> unexpected_response ''close'' other) st2))"

section \<open>The sessions of the threads\<close>

record browser_session_artifacts =
  bf_session_dir :: rstring
  bf_user_data_dir :: rstring

record browser_session_close_outcome =
  bo_had_session :: bool
  bo_kept_artifacts :: bool
  bo_artifacts :: "browser_session_artifacts option"

record browser_session_manager_config =
  bm_process :: browser_process_command_spec
  bm_runtime :: browser_runtime_options
  bm_artifact_root :: rstring

text \<open>\<open>CARGO_MANIFEST_DIR\<close> and the directory for temporary files are parameters.\<close>

definition default_sidecar_script_path :: "rstring \<Rightarrow> rstring" where
  "default_sidecar_script_path manifest_dir = path_join (path_join manifest_dir (str ''scripts'')) (str ''browser_sidecar.mjs'')"

definition browser_session_manager_config_default :: "rstring \<Rightarrow> rstring \<Rightarrow> browser_session_manager_config" where
  "browser_session_manager_config_default manifest_dir temp_dir =
     \<lparr>bm_process = node_sidecar (default_sidecar_script_path manifest_dir), bm_runtime = browser_runtime_options_default,
      bm_artifact_root = path_join temp_dir (str ''openjarvis-browser'')\<rparr>"

record 'p managed_browser_session =
  mb_artifacts :: browser_session_artifacts
  mb_service :: "'p browser_service"

record ('w, 'p) browser_state =
  br_sessions :: "(rstring \<times> 'p managed_browser_session) list"
  br_host :: host_fs
  br_world :: 'w

definition browser_state_new :: "host_fs \<Rightarrow> 'w \<Rightarrow> ('w, 'p) browser_state" where
  "browser_state_new h w = \<lparr>br_sessions = [], br_host = h, br_world = w\<rparr>"

definition has_session :: "rstring \<Rightarrow> ('w, 'p) browser_state \<Rightarrow> bool" where
  "has_session thread_id b \<longleftrightarrow> map_of (br_sessions b) thread_id \<noteq> None"

definition is_ascii_word_char :: "nat \<Rightarrow> bool" where
  "is_ascii_word_char c \<longleftrightarrow> 97 \<le> c \<and> c \<le> 122 \<or> 65 \<le> c \<and> c \<le> 90 \<or> 48 \<le> c \<and> c \<le> 57 \<or> c = 45 \<or> c = 95"

definition sanitize_segment :: "rstring \<Rightarrow> rstring" where
  "sanitize_segment raw =
     (let sanitized = map (\<lambda>c. if is_ascii_word_char c then c else 95) raw in
      if sanitized = [] then str ''thread'' else sanitized)"

definition browser_create_dir_all ::
    "('w, 'p) sidecar_env \<Rightarrow> string \<Rightarrow> rstring \<Rightarrow> (('w, 'p) browser_state, unit) act" where
  "browser_create_dir_all S what path b =
     (case create_dirs (path_start (br_host b) path) (path_parts path) (br_host b) of
        (False, h) \<Rightarrow> (Inl (err_context (str what @ path) (bail (sc_os_error S))), b\<lparr>br_host := h\<rparr>)
      | (True, h) \<Rightarrow> (Inr (), b\<lparr>br_host := h\<rparr>))"

definition browser_uuid :: "('w, 'p) sidecar_env \<Rightarrow> (('w, 'p) browser_state, rstring) act" where
  "browser_uuid S b = (let (u, w) = sc_uuid S (br_world b) in (Inr u, b\<lparr>br_world := w\<rparr>))"

definition create_session ::
    "('w, 'p) sidecar_env \<Rightarrow> browser_session_manager_config \<Rightarrow> rstring
     \<Rightarrow> (('w, 'p) browser_state, 'p managed_browser_session) act" where
  "create_session S c thread_id =
     act_bind (browser_create_dir_all S ''failed to create browser artifact root '' (bm_artifact_root c)) (\<lambda>_.
     act_bind (browser_uuid S) (\<lambda>u.
     let session_dir = path_join (bm_artifact_root c) (str ''session-'' @ sanitize_segment thread_id @ str ''-'' @ u);
         user_data_dir = path_join session_dir (str ''user-data'') in
     act_bind (browser_create_dir_all S ''failed to create browser user data directory '' user_data_dir) (\<lambda>_.
     act_ret \<lparr>mb_artifacts = \<lparr>bf_session_dir = session_dir, bf_user_data_dir = user_data_dir\<rparr>,
              mb_service = browser_service_new
                \<lparr>vc_process = bm_process c, vc_runtime = bm_runtime c, vc_session_root = session_dir,
                 vc_user_data_dir = user_data_dir\<rparr>\<rparr>)))"

definition session_for_thread ::
    "('w, 'p) sidecar_env \<Rightarrow> browser_session_manager_config \<Rightarrow> rstring
     \<Rightarrow> (('w, 'p) browser_state, 'p managed_browser_session) act" where
  "session_for_thread S c thread_id b =
     (case map_of (br_sessions b) thread_id of
        Some existing \<Rightarrow> (Inr existing, b)
      | None \<Rightarrow>
          act_bind (create_session S c thread_id) (\<lambda>session b1.
            (Inr session, b1\<lparr>br_sessions := AList.update thread_id session (br_sessions b1)\<rparr>)) b)"

text \<open>An operation on the locked service of a thread.\<close>

definition on_service ::
    "rstring \<Rightarrow> 'p managed_browser_session \<Rightarrow> ('p browser_service \<times> 'w, 'a) act \<Rightarrow> (('w, 'p) browser_state, 'a) act" where
  "on_service thread_id session m b =
     (let (r, (s, w)) = m (mb_service session, br_world b) in
      (r, b\<lparr>br_sessions := AList.update thread_id (session\<lparr>mb_service := s\<rparr>) (br_sessions b), br_world := w\<rparr>))"

definition browser_navigate ::
    "('w, 'p) sidecar_env \<Rightarrow> browser_session_manager_config \<Rightarrow> rstring \<Rightarrow> rstring
     \<Rightarrow> (('w, 'p) browser_state, browser_navigate_result) act" where
  "browser_navigate S c thread_id url =
     act_bind (session_for_thread S c thread_id) (\<lambda>session. on_service thread_id session (service_navigate S url))"

definition browser_snapshot ::
    "('w, 'p) sidecar_env \<Rightarrow> browser_session_manager_config \<Rightarrow> rstring \<Rightarrow> nat option
     \<Rightarrow> (('w, 'p) browser_state, browser_snapshot_result) act" where
  "browser_snapshot S c thread_id max_elements =
     act_bind (session_for_thread S c thread_id) (\<lambda>session. on_service thread_id session (service_snapshot S max_elements))"

definition browser_click_ref ::
    "('w, 'p) sidecar_env \<Rightarrow> browser_session_manager_config \<Rightarrow> rstring \<Rightarrow> rstring
     \<Rightarrow> (('w, 'p) browser_state, browser_action_result) act" where
  "browser_click_ref S c thread_id reference =
     act_bind (session_for_thread S c thread_id) (\<lambda>session. on_service thread_id session (service_click_ref S reference))"

definition browser_type_ref ::
    "('w, 'p) sidecar_env \<Rightarrow> browser_session_manager_config \<Rightarrow> rstring \<Rightarrow> rstring \<Rightarrow> rstring \<Rightarrow> bool
     \<Rightarrow> (('w, 'p) browser_state, browser_type_result) act" where
  "browser_type_ref S c thread_id reference t submit =
     act_bind (session_for_thread S c thread_id) (\<lambda>session. on_service thread_id session (service_type_ref S reference t submit))"

definition browser_screenshot ::
    "('w, 'p) sidecar_env \<Rightarrow> browser_session_manager_config \<Rightarrow> rstring \<Rightarrow> rstring option
     \<Rightarrow> (('w, 'p) browser_state, browser_screenshot_result) act" where
  "browser_screenshot S c thread_id requested_path =
     act_bind (session_for_thread S c thread_id) (\<lambda>session.
     act_bind
       (case requested_path of
          Some path \<Rightarrow> act_ret path
        | None \<Rightarrow> act_bind (browser_uuid S) (\<lambda>u.
            act_ret (path_join (bf_session_dir (mb_artifacts session)) (str ''screenshot-'' @ u @ str ''.png'')))) (\<lambda>path.
     act_bind
       (case path_parent path of
          None \<Rightarrow> act_ret ()
        | Some parent \<Rightarrow> browser_create_dir_all S ''failed to create browser screenshot directory '' parent) (\<lambda>_.
     on_service thread_id session (service_screenshot S path))))"

definition browser_close ::
    "('w, 'p) sidecar_env \<Rightarrow> browser_session_manager_config \<Rightarrow> rstring
     \<Rightarrow> (('w, 'p) browser_state, browser_session_close_outcome) act" where
  "browser_close S c thread_id b =
     (let kept_artifacts = ro_keep_artifacts (bm_runtime c) in
      case map_of (br_sessions b) thread_id of
        None \<Rightarrow> (Inr \<lparr>bo_had_session = False, bo_kept_artifacts = kept_artifacts, bo_artifacts = None\<rparr>, b)
      | Some session \<Rightarrow>
          let (r, (_, w)) = service_close S (mb_service session, br_world b);
              b1 = b\<lparr>br_sessions := AList.delete thread_id (br_sessions b), br_world := w\<rparr>;
              session_dir = bf_session_dir (mb_artifacts session) in
          (case r of
             Inl e \<Rightarrow> (Inl e, b1)
           | Inr _ \<Rightarrow>
          (case (if \<not> kept_artifacts \<and> path_exists (br_host b1) session_dir then remove_dir_all session_dir (br_host b1)
                 else (True, br_host b1)) of
             (False, h) \<Rightarrow>
               (Inl (err_context (str ''failed to remove browser session directory '' @ session_dir) (bail (sc_os_error S))),
                b1\<lparr>br_host := h\<rparr>)
           | (True, h) \<Rightarrow>
               (Inr \<lparr>bo_had_session = True, bo_kept_artifacts = kept_artifacts,
                     bo_artifacts = if kept_artifacts then Some (mb_artifacts session) else None\<rparr>,
                b1\<lparr>br_host := h\<rparr>))))"

section \<open>What the client keeps\<close>

text \<open>The pipes are there exactly while the process is.\<close>

definition service_ok :: "'p browser_service \<Rightarrow> bool" where
  "service_ok s \<longleftrightarrow> vs_stdin s = vs_child s \<and> vs_stdout s = vs_child s"

lemma service_ok_new [simp]: "service_ok (browser_service_new c)" "vs_config (browser_service_new c) = c"
  by (simp_all add: service_ok_def browser_service_new_def)

text \<open>
  What the sessions rely on: every uuid is new and has the length of its text, and no process takes one.
\<close>

locale sidecar_process =
  fixes S :: "('w, 'p) sidecar_env" and used :: "'w \<Rightarrow> rstring set"
  assumes uuid_fresh: "sc_uuid S w = (u, w') \<Longrightarrow> u \<notin> used w \<and> used w' = insert u (used w) \<and> length u = 36"
    and spawn_keeps: "used (snd (sc_spawn S executable args env w)) = used w"
    and write_keeps: "used (snd (sc_write S p text w)) = used w"
    and flush_keeps: "used (snd (sc_flush S p w)) = used w"
    and next_line_keeps: "used (snd (sc_next_line S p w)) = used w"
    and wait_timeout_keeps: "used (snd (sc_wait_timeout S p w)) = used w"
    and kill_keeps: "used (snd (sc_kill S p w)) = used w"
    and wait_keeps: "used (snd (sc_wait S p w)) = used w"
begin

definition keeps :: "('p browser_service \<times> 'w, 'a) act \<Rightarrow> bool" where
  "keeps m \<longleftrightarrow> (\<forall>s w r s' w'. service_ok s \<longrightarrow> m (s, w) = (r, (s', w')) \<longrightarrow>
     service_ok s' \<and> vs_config s' = vs_config s \<and> used w' = used w)"

lemma keepsI:
  "(\<And>s w r s' w'. service_ok s \<Longrightarrow> m (s, w) = (r, (s', w')) \<Longrightarrow>
     service_ok s' \<and> vs_config s' = vs_config s \<and> used w' = used w) \<Longrightarrow> keeps m"
  by (auto simp: keeps_def)

lemma keepsD:
  "keeps m \<Longrightarrow> service_ok s \<Longrightarrow> m (s, w) = (r, (s', w')) \<Longrightarrow>
     service_ok s' \<and> vs_config s' = vs_config s \<and> used w' = used w"
  by (auto simp: keeps_def)

lemma keeps_basic [intro, simp]: "keeps (act_ret x)" "keeps (act_fail e)" "keeps (act_lift r)" "keeps (unexpected_response a p)"
  by (auto simp: keeps_def act_ret_def act_fail_def act_lift_def unexpected_response_def)

lemma keeps_bind [intro]: "keeps m \<Longrightarrow> (\<And>x. keeps (f x)) \<Longrightarrow> keeps (act_bind m f)"
proof (rule keepsI)
  fix s :: "'p browser_service" and w r s' w'
  assume keep: "keeps m" "\<And>x. keeps (f x)" and ok: "service_ok s" and run: "act_bind m f (s, w) = (r, (s', w'))"
  obtain r1 s1 w1 where m: "m (s, w) = (r1, (s1, w1))" by (metis prod.exhaust)
  note first = keepsD [OF keep(1) ok m]
  show "service_ok s' \<and> vs_config s' = vs_config s \<and> used w' = used w"
  proof (cases r1)
    case (Inl e)
    then show ?thesis using m run first by (simp add: act_bind_def)
  next
    case (Inr x)
    then have "f x (s1, w1) = (r, (s', w'))" using m run by (simp add: act_bind_def)
    then show ?thesis using keepsD [OF keep(2)] first by metis
  qed
qed

lemma keeps_process: "(\<And>w. used (snd (m w)) = used w) \<Longrightarrow> keeps (on_process (act_context c m))"
proof (rule keepsI)
  fix s :: "'p browser_service" and w r s' w'
  assume "\<And>w. used (snd (m w)) = used w" "service_ok s" "on_process (act_context c m) (s, w) = (r, (s', w'))"
  moreover obtain r1 w1 where "m w = (r1, w1)" by fastforce
  ultimately show "service_ok s' \<and> vs_config s' = vs_config s \<and> used w' = used w"
    by (cases r1) (auto simp: on_process_def act_context_def dest: meta_spec [of _ w])
qed

lemma keeps_pipe: "(\<And>p. keeps (f p)) \<Longrightarrow> keeps (with_pipe missing pipe f)"
  unfolding keeps_def with_pipe_def by (auto split: option.splits)

lemma keeps_start: "keeps (ensure_started S)"
proof (rule keepsI)
  fix s :: "'p browser_service" and w r s' w'
  assume ok: "service_ok s" and run: "ensure_started S (s, w) = (r, (s', w'))"
  obtain r1 w1 where spawn: "sc_spawn S (ps_executable (vc_process (vs_config s))) (ps_args (vc_process (vs_config s)))
    (sidecar_variables (vs_config s)) w = (r1, w1)" by fastforce
  then have "used w1 = used w" using spawn_keeps by (metis snd_conv)
  then show "service_ok s' \<and> vs_config s' = vs_config s \<and> used w' = used w"
    using ok run spawn
    by (cases r1) (auto simp: ensure_started_def act_context_def service_ok_def Let_def split: if_splits)
qed

lemma keeps_numbered:
  assumes "\<And>s. keeps (g s)"
  shows "keeps (\<lambda>(s, w). g s (s\<lparr>vs_next_request_id := n s\<rparr>, w))"
proof (rule keepsI)
  fix s :: "'p browser_service" and w r s' w'
  assume "service_ok s" "(case (s, w) of (s, w) \<Rightarrow> g s (s\<lparr>vs_next_request_id := n s\<rparr>, w)) = (r, (s', w'))"
  then show "service_ok s' \<and> vs_config s' = vs_config s \<and> used w' = used w"
    using keepsD [OF assms, of "s\<lparr>vs_next_request_id := n s\<rparr>" s w r s' w'] by (simp add: service_ok_def)
qed

lemma keeps_call: "keeps (service_call S payload)"
  unfolding service_call_def Let_def
  by (intro keeps_bind keeps_start keeps_numbered keeps_pipe keeps_process)
    (auto simp: write_keeps flush_keeps next_line_keeps split: option.split)

lemma keeps_shutdown: "keeps (shutdown_process S)"
proof (rule keepsI)
  fix s :: "'p browser_service" and w r s' w'
  assume ok: "service_ok s" and run: "shutdown_process S (s, w) = (r, (s', w'))"
  let ?s = "s\<lparr>vs_stdin := None, vs_stdout := None, vs_child := None\<rparr>"
  show "service_ok s' \<and> vs_config s' = vs_config s \<and> used w' = used w"
  proof (cases "vs_child s")
    case None
    then show ?thesis using run by (auto simp: shutdown_process_def service_ok_def)
  next
    case (Some child)
    obtain wait w1 where wait: "sc_wait_timeout S child w = (wait, w1)" by fastforce
    then have used: "used w1 = used w" using wait_timeout_keeps by (metis snd_conv)
    show ?thesis
    proof (cases wait)
      case None
      have "keeps (act_bind (on_process (act_context (str ''failed to kill browser sidecar after timeout'') (sc_kill S child)))
          (\<lambda>_. on_process (act_context (str ''failed to wait for killed browser sidecar'') (sc_wait S child))))"
        by (intro keeps_bind keeps_process) (simp_all add: kill_keeps wait_keeps)
      moreover have "service_ok ?s" by (simp add: service_ok_def)
      ultimately show ?thesis using run Some wait None used keepsD by (fastforce simp: shutdown_process_def)
    qed (use run Some wait used in \<open>auto simp: shutdown_process_def service_ok_def\<close>)
  qed
qed

lemma keeps_close: "keeps (service_close S)"
proof (rule keepsI)
  fix s :: "'p browser_service" and w r s' w'
  assume ok: "service_ok s" and run: "service_close S (s, w) = (r, (s', w'))"
  obtain r1 s1 w1 where call: "service_call S CloseRequest (s, w) = (r1, (s1, w1))" by (metis prod.exhaust)
  obtain r2 s2 w2 where down: "shutdown_process S (s1, w1) = (r2, (s2, w2))" by (metis prod.exhaust)
  note kept = keepsD [OF keeps_call ok call] 
  note kept2 = keepsD [OF keeps_shutdown _ down]
  have "keeps (act_bind (act_lift r1) (\<lambda>p. case p of CloseResponse r \<Rightarrow> act_ret r | other \<Rightarrow> unexpected_response ''close'' other))"
    by (intro keeps_bind) (auto split: browser_response_payload.split)
  then show "service_ok s' \<and> vs_config s' = vs_config s \<and> used w' = used w"
    using run ok kept kept2 keepsD [of _ s2 w2 r s' w'] by (auto simp: service_close_def call down split: if_splits)
qed

lemma keeps_operations:
  "keeps (service_navigate S url)" "keeps (service_snapshot S m)" "keeps (service_click_ref S reference)"
  "keeps (service_type_ref S reference t submit)" "keeps (service_screenshot S path)"
  unfolding service_navigate_def service_snapshot_def service_click_ref_def service_type_ref_def service_screenshot_def
  by (intro keeps_bind keeps_call; auto split: browser_response_payload.split)+

end

section \<open>What the manager keeps\<close>

datatype browser_op =
    NavigateOp rstring
  | SnapshotOp "nat option"
  | ClickRefOp rstring
  | TypeRefOp rstring rstring bool
  | ScreenshotOp "rstring option"
  | CloseOp

fun browser_op_run ::
    "('w, 'p) sidecar_env \<Rightarrow> browser_session_manager_config \<Rightarrow> rstring \<times> browser_op \<Rightarrow> ('w, 'p) browser_state \<Rightarrow> ('w, 'p) browser_state" where
  "browser_op_run S c (thread_id, NavigateOp url) b = snd (browser_navigate S c thread_id url b)"
| "browser_op_run S c (thread_id, SnapshotOp n) b = snd (browser_snapshot S c thread_id n b)"
| "browser_op_run S c (thread_id, ClickRefOp reference) b = snd (browser_click_ref S c thread_id reference b)"
| "browser_op_run S c (thread_id, TypeRefOp reference t submit) b = snd (browser_type_ref S c thread_id reference t submit b)"
| "browser_op_run S c (thread_id, ScreenshotOp path) b = snd (browser_screenshot S c thread_id path b)"
| "browser_op_run S c (thread_id, CloseOp) b = snd (browser_close S c thread_id b)"

definition browser_ops_run ::
    "('w, 'p) sidecar_env \<Rightarrow> browser_session_manager_config \<Rightarrow> (rstring \<times> browser_op) list
     \<Rightarrow> ('w, 'p) browser_state \<Rightarrow> ('w, 'p) browser_state" where
  "browser_ops_run S c ops b = fold (browser_op_run S c) ops b"

definition session_dir_of :: "browser_session_manager_config \<Rightarrow> rstring \<Rightarrow> rstring \<Rightarrow> rstring" where
  "session_dir_of c thread_id u = path_join (bm_artifact_root c) (str ''session-'' @ sanitize_segment thread_id @ str ''-'' @ u)"

text \<open>A session lives in the directory that was made for its thread, and so does its process.\<close>

definition session_ok ::
    "browser_session_manager_config \<Rightarrow> rstring set \<Rightarrow> rstring \<Rightarrow> 'p managed_browser_session \<Rightarrow> bool" where
  "session_ok c us thread_id m \<longleftrightarrow>
     (\<exists>u \<in> us. length u = 36 \<and> bf_session_dir (mb_artifacts m) = session_dir_of c thread_id u)
     \<and> bf_user_data_dir (mb_artifacts m) = path_join (bf_session_dir (mb_artifacts m)) (str ''user-data'')
     \<and> vs_config (mb_service m) = \<lparr>vc_process = bm_process c, vc_runtime = bm_runtime c,
          vc_session_root = bf_session_dir (mb_artifacts m), vc_user_data_dir = bf_user_data_dir (mb_artifacts m)\<rparr>
     \<and> service_ok (mb_service m)"

definition sessions_ok ::
    "browser_session_manager_config \<Rightarrow> rstring set \<Rightarrow> (rstring \<times> 'p managed_browser_session) list \<Rightarrow> bool" where
  "sessions_ok c us ms \<longleftrightarrow> distinct (map fst ms) \<and> (\<forall>(thread_id, m) \<in> set ms. session_ok c us thread_id m)
     \<and> distinct (map (bf_session_dir \<circ> mb_artifacts \<circ> snd) ms)"

lemma session_dirs_differ:
  assumes "session_dir_of c t u = session_dir_of c t' u'" "length u = length u'"
  shows "u = u'"
proof -
  have form: "\<exists>pre. session_dir_of c t u = pre @ u" for t u
    unfolding session_dir_of_def path_join_def by (metis append.assoc)
  then obtain pre pre' where "session_dir_of c t u = pre @ u" "session_dir_of c t' u' = pre' @ u'" by metis
  then show ?thesis using assms by simp
qed

lemma session_ok_mono: "session_ok c us t m \<Longrightarrow> us \<subseteq> us' \<Longrightarrow> session_ok c us' t m"
  by (auto simp: session_ok_def)

lemma sessions_ok_new:
  assumes "sessions_ok c us ms" "map_of ms t = None" "u \<notin> us" "length u = 36"
    and "bf_session_dir (mb_artifacts m) = session_dir_of c t u" "session_ok c (insert u us) t m"
  shows "sessions_ok c (insert u us) (AList.update t m ms)"
proof -
  have "bf_session_dir (mb_artifacts m) \<noteq> bf_session_dir (mb_artifacts m')" if "(t', m') \<in> set ms" for t' m'
  proof
    assume same: "bf_session_dir (mb_artifacts m) = bf_session_dir (mb_artifacts m')"
    obtain u' where "u' \<in> us" "length u' = 36" "bf_session_dir (mb_artifacts m') = session_dir_of c t' u'"
      using assms(1) \<open>(t', m') \<in> set ms\<close> by (auto simp: sessions_ok_def session_ok_def)
    then show False using session_dirs_differ [of c t u t' u'] same assms(3,4,5) by auto
  qed
  then have "bf_session_dir (mb_artifacts m) \<notin> set (map (bf_session_dir \<circ> mb_artifacts \<circ> snd) ms)"
    by (metis (no_types, lifting) comp_apply image_iff image_set prod.collapse)
  moreover have "t \<notin> fst ` set ms" using assms(2) by (simp add: map_of_eq_None_iff)
  moreover have "session_ok c (insert u us) t' m'" if "(t', m') \<in> set ms" for t' m'
    using assms(1) that by (auto simp: sessions_ok_def intro: session_ok_mono)
  ultimately show ?thesis
    using assms(1,2,6) by (auto simp: sessions_ok_def update_new)
qed

lemma map_snd_update:
  assumes "map_of ms t = Some m" "f m' = f m"
  shows "map (f \<circ> snd) (AList.update t m' ms) = map (f \<circ> snd) ms"
  using assms by (induction ms) auto

lemma sessions_ok_put:
  assumes "sessions_ok c us ms" "map_of ms t = Some m" "session_ok c us t m'" "mb_artifacts m' = mb_artifacts m"
  shows "sessions_ok c us (AList.update t m' ms)"
proof -
  have "map fst (AList.update t m' ms) = map fst ms"
    using assms(2) by (simp add: update_keys) (metis domI dom_map_of_conv_image_fst)
  moreover have "map (bf_session_dir \<circ> mb_artifacts \<circ> snd) (AList.update t m' ms) = map (bf_session_dir \<circ> mb_artifacts \<circ> snd) ms"
    using map_snd_update [OF assms(2), of "bf_session_dir \<circ> mb_artifacts" m'] assms(4) by (simp add: comp_assoc)
  moreover have "set (AList.update t m' ms) \<subseteq> insert (t, m') (set ms)"
    by (induction ms) auto
  ultimately show ?thesis using assms(1,3) by (auto simp: sessions_ok_def)
qed

lemma sessions_ok_delete:
  assumes "sessions_ok c us ms"
  shows "sessions_ok c us (AList.delete t ms)"
proof -
  have dist: "distinct (map f (filter P ms))" if "distinct (map f ms)" for f :: "_ \<Rightarrow> 'x" and P
    using that by (rule distinct_map_filter)
  show ?thesis using assms by (auto simp: sessions_ok_def AList.delete_eq dist)
qed

context sidecar_process
begin

definition browser_ok :: "browser_session_manager_config \<Rightarrow> ('w, 'p) browser_state \<Rightarrow> bool" where
  "browser_ok c b \<longleftrightarrow> sessions_ok c (used (br_world b)) (br_sessions b)"

lemma create_dir_run:
  "browser_create_dir_all S what path b = (r, b') \<Longrightarrow> br_sessions b' = br_sessions b \<and> br_world b' = br_world b"
  by (auto simp: browser_create_dir_all_def split: prod.splits bool.splits)

lemma create_session_run:
  assumes "create_session S c t b = (r, b')"
  shows "br_sessions b' = br_sessions b
    \<and> (used (br_world b') = used (br_world b)
       \<or> (\<exists>u. u \<notin> used (br_world b) \<and> length u = 36 \<and> used (br_world b') = insert u (used (br_world b))))
    \<and> (\<forall>m. r = Inr m \<longrightarrow> (\<exists>u. u \<notin> used (br_world b) \<and> length u = 36 \<and> used (br_world b') = insert u (used (br_world b))
         \<and> bf_session_dir (mb_artifacts m) = session_dir_of c t u \<and> session_ok c (insert u (used (br_world b))) t m))"
proof -
  obtain r1 b1 where mk: "browser_create_dir_all S ''failed to create browser artifact root '' (bm_artifact_root c) b = (r1, b1)"
    by fastforce
  note mk1 = create_dir_run [OF mk]
  obtain u w where u: "sc_uuid S (br_world b1) = (u, w)" by fastforce
  note fresh = uuid_fresh [OF u]
  let ?dir = "session_dir_of c t u"
  obtain r2 b2 where mk2: "browser_create_dir_all S ''failed to create browser user data directory ''
      (path_join ?dir (str ''user-data'')) (b1\<lparr>br_world := w\<rparr>) = (r2, b2)" by fastforce
  note mk3 = create_dir_run [OF mk2]
  show ?thesis
  proof (cases r1)
    case (Inl e)
    then show ?thesis using assms mk mk1 by (auto simp: create_session_def act_bind_def)
  next
    case r1: (Inr x)
    show ?thesis
    proof (cases r2)
      case (Inl e)
      then have "br_sessions b' = br_sessions b \<and> br_world b' = w \<and> r = Inl e"
        using assms mk mk1 mk2 mk3 u r1
        by (auto simp: create_session_def act_bind_def browser_uuid_def Let_def session_dir_of_def)
      then show ?thesis using fresh mk1 by auto
    next
      case (Inr y)
      then have r: "r = Inr \<lparr>mb_artifacts = \<lparr>bf_session_dir = ?dir, bf_user_data_dir = path_join ?dir (str ''user-data'')\<rparr>,
              mb_service = browser_service_new \<lparr>vc_process = bm_process c, vc_runtime = bm_runtime c,
                 vc_session_root = ?dir, vc_user_data_dir = path_join ?dir (str ''user-data'')\<rparr>\<rparr>" and b': "b' = b2"
        using assms mk mk2 u r1
        by (simp_all add: create_session_def act_bind_def browser_uuid_def Let_def session_dir_of_def act_ret_def)
      show ?thesis unfolding r b' using mk1 mk3 fresh by (auto simp: session_ok_def)
    qed
  qed
qed

lemma session_for_thread_run:
  assumes "session_for_thread S c t b = (r, b')" "browser_ok c b"
  shows "browser_ok c b' \<and> (\<forall>m. r = Inr m \<longrightarrow> map_of (br_sessions b') t = Some m)
    \<and> (\<forall>t'. t' \<noteq> t \<longrightarrow> map_of (br_sessions b') t' = map_of (br_sessions b) t')"
proof (cases "map_of (br_sessions b) t")
  case (Some m)
  then show ?thesis using assms by (auto simp: session_for_thread_def)
next
  case None
  obtain r1 b1 where create: "create_session S c t b = (r1, b1)" by fastforce
  note run = create_session_run [OF create]
  show ?thesis
  proof (cases r1)
    case (Inl e)
    have "sessions_ok c (used (br_world b')) (br_sessions b)"
      using assms(2) run unfolding browser_ok_def sessions_ok_def
      using Inl assms(1) None create by (auto simp: session_for_thread_def act_bind_def intro: session_ok_mono)
    then show ?thesis using Inl assms None create run by (auto simp: session_for_thread_def act_bind_def browser_ok_def)
  next
    case (Inr m)
    then obtain u where u: "u \<notin> used (br_world b)" "length u = 36" "used (br_world b1) = insert u (used (br_world b))"
      "bf_session_dir (mb_artifacts m) = session_dir_of c t u" "session_ok c (insert u (used (br_world b))) t m"
      using run by blast
    have res: "r = Inr m" "b' = b1\<lparr>br_sessions := AList.update t m (br_sessions b)\<rparr>"
      using Inr assms(1) None create run by (auto simp: session_for_thread_def act_bind_def)
    have "sessions_ok c (insert u (used (br_world b))) (AList.update t m (br_sessions b))"
      using sessions_ok_new [OF _ None u(1,2,4,5)] assms(2) by (simp add: browser_ok_def)
    then show ?thesis using u res by (auto simp: browser_ok_def update_conv')
  qed
qed

lemma on_service_run:
  assumes "on_service t m f b = (r, b')" "keeps f" "browser_ok c b" "map_of (br_sessions b) t = Some m"
  shows "browser_ok c b' \<and> (\<forall>t'. t' \<noteq> t \<longrightarrow> map_of (br_sessions b') t' = map_of (br_sessions b) t')"
proof -
  obtain r1 s w where f: "f (mb_service m, br_world b) = (r1, (s, w))" by (metis prod.exhaust)
  have ok: "session_ok c (used (br_world b)) t m"
    using assms(3,4) map_of_SomeD by (fastforce simp: browser_ok_def sessions_ok_def)
  then have "service_ok (mb_service m)" by (simp add: session_ok_def)
  note kept = keepsD [OF assms(2) this f]
  then have "session_ok c (used (br_world b)) t (m\<lparr>mb_service := s\<rparr>)" using ok by (simp add: session_ok_def)
  then have "sessions_ok c (used w) (AList.update t (m\<lparr>mb_service := s\<rparr>) (br_sessions b))"
    using sessions_ok_put [OF _ assms(4)] assms(3) kept by (simp add: browser_ok_def)
  then show ?thesis using assms(1) f by (auto simp: on_service_def browser_ok_def update_conv')
qed

text \<open>An operation that runs on the session of its thread keeps the manager, and touches no other thread.\<close>

definition thread_local :: "browser_session_manager_config \<Rightarrow> rstring \<Rightarrow> (('w, 'p) browser_state, 'a) act \<Rightarrow> bool" where
  "thread_local c t m \<longleftrightarrow> (\<forall>b r b'. browser_ok c b \<longrightarrow> m b = (r, b') \<longrightarrow>
     browser_ok c b' \<and> (\<forall>t'. t' \<noteq> t \<longrightarrow> map_of (br_sessions b') t' = map_of (br_sessions b) t'))"

lemma thread_local_session_op:
  assumes "\<And>m b r b'. browser_ok c b \<Longrightarrow> map_of (br_sessions b) t = Some m \<Longrightarrow> f m b = (r, b') \<Longrightarrow>
      browser_ok c b' \<and> (\<forall>t'. t' \<noteq> t \<longrightarrow> map_of (br_sessions b') t' = map_of (br_sessions b) t')"
  shows "thread_local c t (act_bind (session_for_thread S c t) f)"
  unfolding thread_local_def
proof (intro allI impI)
  fix b r b' assume ok: "browser_ok c b" and run: "act_bind (session_for_thread S c t) f b = (r, b')"
  obtain r1 b1 where first: "session_for_thread S c t b = (r1, b1)" by fastforce
  note kept = session_for_thread_run [OF first ok]
  show "browser_ok c b' \<and> (\<forall>t'. t' \<noteq> t \<longrightarrow> map_of (br_sessions b') t' = map_of (br_sessions b) t')"
  proof (cases r1)
    case (Inl e)
    then show ?thesis using run first kept by (simp add: act_bind_def)
  next
    case (Inr m)
    then have "f m b1 = (r, b')" "map_of (br_sessions b1) t = Some m" using run first kept by (simp_all add: act_bind_def)
    then show ?thesis using assms [of b1 m r b'] kept by simp
  qed
qed

lemma thread_local_ops:
  "thread_local c t (browser_navigate S c t url)" "thread_local c t (browser_snapshot S c t n)"
  "thread_local c t (browser_click_ref S c t reference)" "thread_local c t (browser_type_ref S c t reference x submit)"
  unfolding browser_navigate_def browser_snapshot_def browser_click_ref_def browser_type_ref_def
  by (rule thread_local_session_op; erule (2) on_service_run [OF _ keeps_operations(1)]
        on_service_run [OF _ keeps_operations(2)] on_service_run [OF _ keeps_operations(3)] on_service_run [OF _ keeps_operations(4)])+

end

context sidecar_process
begin

lemma browser_ok_grow:
  "browser_ok c b \<Longrightarrow> br_sessions b' = br_sessions b \<Longrightarrow> used (br_world b) \<subseteq> used (br_world b') \<Longrightarrow> browser_ok c b'"
  by (auto simp: browser_ok_def sessions_ok_def intro: session_ok_mono)

definition quiet_op :: "(('w, 'p) browser_state, 'a) act \<Rightarrow> bool" where
  "quiet_op m \<longleftrightarrow> (\<forall>b r b'. m b = (r, b') \<longrightarrow> br_sessions b' = br_sessions b \<and> used (br_world b) \<subseteq> used (br_world b'))"

lemma quiet_opD: "quiet_op m \<Longrightarrow> m b = (r, b') \<Longrightarrow> br_sessions b' = br_sessions b \<and> used (br_world b) \<subseteq> used (br_world b')"
  by (simp add: quiet_op_def)

lemma quiet_op_basic:
  "quiet_op (act_ret x)" "quiet_op (browser_uuid S)" "quiet_op (browser_create_dir_all S what path)"
proof -
  show "quiet_op (act_ret x)" by (simp add: quiet_op_def act_ret_def)
  show "quiet_op (browser_uuid S)"
    using uuid_fresh by (fastforce simp: quiet_op_def browser_uuid_def split: prod.splits)
  show "quiet_op (browser_create_dir_all S what path)"
    by (simp add: quiet_op_def create_dir_run)
qed

lemma quiet_op_bind:
  assumes "quiet_op m" "\<And>x. quiet_op (f x)"
  shows "quiet_op (act_bind m f)"
  unfolding quiet_op_def
proof (intro allI impI)
  fix b r b' assume run: "act_bind m f b = (r, b')"
  obtain r1 b1 where first: "m b = (r1, b1)" by fastforce
  note q = quiet_opD [OF assms(1) first]
  show "br_sessions b' = br_sessions b \<and> used (br_world b) \<subseteq> used (br_world b')"
  proof (cases r1)
    case (Inl e)
    then show ?thesis using run first q by (simp add: act_bind_def)
  next
    case (Inr x)
    then have "f x b1 = (r, b')" using run first by (simp add: act_bind_def)
    then show ?thesis using quiet_opD [OF assms(2)] q by fastforce
  qed
qed

definition kept_by :: "browser_session_manager_config \<Rightarrow> rstring \<Rightarrow> ('w, 'p) browser_state \<Rightarrow> ('w, 'p) browser_state \<Rightarrow> bool" where
  "kept_by c t b b' \<longleftrightarrow> browser_ok c b' \<and> (\<forall>t'. t' \<noteq> t \<longrightarrow> map_of (br_sessions b') t' = map_of (br_sessions b) t')"

lemma quiet_then_service:
  assumes "quiet_op m" "\<And>x. keeps (f x)" "browser_ok c b" "map_of (br_sessions b) t = Some session"
    and "act_bind m (\<lambda>x. on_service t session (f x)) b = (r, b')"
  shows "kept_by c t b b'"
proof -
  obtain r1 b1 where first: "m b = (r1, b1)" by fastforce
  note q = quiet_opD [OF assms(1) first]
  have ok: "browser_ok c b1" using browser_ok_grow [OF assms(3)] q by blast
  show ?thesis
  proof (cases r1)
    case (Inr x)
    then have "on_service t session (f x) b1 = (r, b')" using assms(5) first by (simp add: act_bind_def)
    then show ?thesis using on_service_run [OF _ assms(2) ok] assms(4) q by (simp add: kept_by_def)
  qed (use assms(5) first q ok in \<open>auto simp: act_bind_def kept_by_def\<close>)
qed

lemma thread_local_screenshot: "thread_local c t (browser_screenshot S c t path)"
  unfolding browser_screenshot_def
proof (rule thread_local_session_op)
  fix session b r b'
  assume ok: "browser_ok c b" and session: "map_of (br_sessions b) t = Some session"
    and run: "act_bind
       (case path of
          Some path \<Rightarrow> act_ret path
        | None \<Rightarrow> act_bind (browser_uuid S) (\<lambda>u.
            act_ret (path_join (bf_session_dir (mb_artifacts session)) (str ''screenshot-'' @ u @ str ''.png'')))) (\<lambda>path.
     act_bind
       (case path_parent path of
          None \<Rightarrow> act_ret ()
        | Some parent \<Rightarrow> browser_create_dir_all S ''failed to create browser screenshot directory '' parent) (\<lambda>_.
     on_service t session (service_screenshot S path))) b = (r, b')"
  let ?choose = "case path of
          Some path \<Rightarrow> act_ret path
        | None \<Rightarrow> act_bind (browser_uuid S) (\<lambda>u.
            act_ret (path_join (bf_session_dir (mb_artifacts session)) (str ''screenshot-'' @ u @ str ''.png'')))"
  have quiet: "quiet_op ?choose"
    by (auto split: option.split intro: quiet_op_basic quiet_op_bind)
  obtain r1 b1 where first: "?choose b = (r1, b1)" by fastforce
  note q = quiet_opD [OF quiet first]
  have ok1: "browser_ok c b1" using browser_ok_grow [OF ok] q by blast
  show "browser_ok c b' \<and> (\<forall>t'. t' \<noteq> t \<longrightarrow> map_of (br_sessions b') t' = map_of (br_sessions b) t')"
  proof (cases r1)
    case (Inl e)
    then show ?thesis using run first q ok1 by (auto simp: act_bind_def)
  next
    case (Inr p)
    let ?mkdir = "case path_parent p of
          None \<Rightarrow> act_ret ()
        | Some parent \<Rightarrow> browser_create_dir_all S ''failed to create browser screenshot directory '' parent"
    have "act_bind ?mkdir (\<lambda>_. on_service t session (service_screenshot S p)) b1 = (r, b')"
      using run first Inr by (simp add: act_bind_def)
    moreover have "quiet_op ?mkdir" by (auto split: option.split intro: quiet_op_basic)
    ultimately have "kept_by c t b1 b'"
      using quiet_then_service [of ?mkdir "\<lambda>_. service_screenshot S p" c b1 t session] keeps_operations(5) ok1 session q by simp
    then show ?thesis using q by (simp add: kept_by_def)
  qed
qed

lemma close_run:
  assumes "browser_close S c t b = (r, b')" "browser_ok c b"
  shows "browser_ok c b'" "map_of (br_sessions b') t = None"
    and "t' \<noteq> t \<Longrightarrow> map_of (br_sessions b') t' = map_of (br_sessions b) t'"
proof -
  have "browser_ok c b' \<and> map_of (br_sessions b') t = None
    \<and> (t' \<noteq> t \<longrightarrow> map_of (br_sessions b') t' = map_of (br_sessions b) t')"
  proof (cases "map_of (br_sessions b) t")
    case None
    then show ?thesis using assms by (simp add: browser_close_def)
  next
    case (Some m)
    obtain r1 s w where close: "service_close S (mb_service m, br_world b) = (r1, (s, w))" by (metis prod.exhaust)
    have "service_ok (mb_service m)" using assms(2) Some map_of_SomeD by (fastforce simp: browser_ok_def sessions_ok_def session_ok_def)
    then have used: "used w = used (br_world b)" using keepsD [OF keeps_close _ close] by simp
    have "br_sessions b' = AList.delete t (br_sessions b) \<and> br_world b' = w"
      using assms(1) Some close by (auto simp: browser_close_def Let_def split: sum.splits prod.splits bool.splits if_splits)
    then show ?thesis using sessions_ok_delete assms(2) used by (simp add: browser_ok_def delete_conv')
  qed
  then show "browser_ok c b'" "map_of (br_sessions b') t = None"
    "t' \<noteq> t \<Longrightarrow> map_of (br_sessions b') t' = map_of (br_sessions b) t'" by simp_all
qed

lemma thread_local_close: "thread_local c t (browser_close S c t)"
  by (auto simp: thread_local_def dest: close_run)

lemma kept_by_local: "browser_ok c b \<Longrightarrow> thread_local c t m \<Longrightarrow> kept_by c t b (snd (m b))"
  by (cases "m b") (simp add: kept_by_def thread_local_def)

lemma op_run_keeps:
  assumes "browser_ok c b"
  shows "kept_by c (fst x) b (browser_op_run S c x b)"
proof -
  obtain t op where x: "x = (t, op)" by fastforce
  show ?thesis
    by (cases op) (simp_all add: x kept_by_local [OF assms] thread_local_ops thread_local_screenshot thread_local_close)
qed

lemma ops_run_keep:
  assumes "browser_ok c b"
  shows "browser_ok c (browser_ops_run S c ops b)"
    and "t \<notin> fst ` set ops \<Longrightarrow> map_of (br_sessions (browser_ops_run S c ops b)) t = map_of (br_sessions b) t"
proof -
  have "browser_ok c (browser_ops_run S c ops b)
     \<and> (t \<notin> fst ` set ops \<longrightarrow> map_of (br_sessions (browser_ops_run S c ops b)) t = map_of (br_sessions b) t)"
    using assms
  proof (induction ops arbitrary: b)
    case (Cons x ops)
    then show ?case using op_run_keeps [OF Cons.prems, of x] by (auto simp: browser_ops_run_def kept_by_def)
  qed (simp add: browser_ops_run_def)
  then show "browser_ok c (browser_ops_run S c ops b)"
    and "t \<notin> fst ` set ops \<Longrightarrow> map_of (br_sessions (browser_ops_run S c ops b)) t = map_of (br_sessions b) t" by simp_all
qed

lemma browser_ok_state_new: "browser_ok c (browser_state_new h w)"
  by (simp add: browser_ok_def browser_state_new_def sessions_ok_def)

end

end
