(* ===== verification/OJ_Browser_Tools.thy ===== *)
theory OJ_Browser_Tools
  imports OJ_Browser
begin

text \<open>
  The browser toolset, \<open>src/agent/tool/browser/tool.rs\<close>: the arguments of its eight tools, the choice of an element by
  matching fields, the rendering of results and the registration with the runtime that closes the session of a thread
  when the toolset is unloaded.
\<close>

section \<open>Arguments\<close>

record browser_type_arguments =
  xt_reference :: rstring
  xt_text :: rstring
  xt_submit :: "bool option"

record browser_element_match_arguments =
  xm_role :: "rstring option"
  xm_tag_name :: "rstring option"
  xm_label_contains :: "rstring option"
  xm_text_contains :: "rstring option"
  xm_href_contains :: "rstring option"
  xm_placeholder_contains :: "rstring option"
  xm_input_type :: "rstring option"
  xm_section_hint :: "rstring option"
  xm_disabled :: "bool option"
  xm_nth :: "nat option"
  xm_max_elements :: "nat option"

record browser_type_match_arguments =
  xy_matcher :: browser_element_match_arguments
  xy_text :: rstring
  xy_submit :: "bool option"

definition browser_navigate_arguments_from_json :: "json \<Rightarrow> rstring option" where
  "browser_navigate_arguments_from_json j =
     Option.bind (struct_fields [str ''url''] [] j) (\<lambda>m. field_req dec_string ''url'' m)"

definition browser_ref_arguments_from_json :: "json \<Rightarrow> rstring option" where
  "browser_ref_arguments_from_json j =
     Option.bind (struct_fields [str ''ref''] [] j) (\<lambda>m. field_req dec_string ''ref'' m)"

definition browser_snapshot_arguments_from_json :: "json \<Rightarrow> nat option option" where
  "browser_snapshot_arguments_from_json j =
     Option.bind (struct_fields [str ''max_elements''] [] j) (\<lambda>m. field_opt dec_u64 ''max_elements'' m)"

definition browser_type_arguments_from_json :: "json \<Rightarrow> browser_type_arguments option" where
  "browser_type_arguments_from_json j =
     Option.bind (struct_fields [str ''ref'', str ''text'', str ''submit''] [] j) (\<lambda>m.
     Option.bind (field_req dec_string ''ref'' m) (\<lambda>reference.
     Option.bind (field_req dec_string ''text'' m) (\<lambda>t.
     Option.bind (field_opt dec_bool ''submit'' m) (\<lambda>submit.
     Some \<lparr>xt_reference = reference, xt_text = t, xt_submit = submit\<rparr>))))"

definition browser_match_names :: "rstring list" where
  "browser_match_names =
     [str ''role'', str ''tag_name'', str ''label_contains'', str ''text_contains'', str ''href_contains'',
      str ''placeholder_contains'', str ''input_type'', str ''section_hint'', str ''disabled'', str ''nth'', str ''max_elements'']"

definition browser_match_from_fields :: "(rstring \<times> json) list \<Rightarrow> browser_element_match_arguments option" where
  "browser_match_from_fields m =
     Option.bind (field_opt dec_string ''role'' m) (\<lambda>role.
     Option.bind (field_opt dec_string ''tag_name'' m) (\<lambda>tag_name.
     Option.bind (field_opt dec_string ''label_contains'' m) (\<lambda>label_contains.
     Option.bind (field_opt dec_string ''text_contains'' m) (\<lambda>text_contains.
     Option.bind (field_opt dec_string ''href_contains'' m) (\<lambda>href_contains.
     Option.bind (field_opt dec_string ''placeholder_contains'' m) (\<lambda>placeholder_contains.
     Option.bind (field_opt dec_string ''input_type'' m) (\<lambda>input_type.
     Option.bind (field_opt dec_string ''section_hint'' m) (\<lambda>section_hint.
     Option.bind (field_opt dec_bool ''disabled'' m) (\<lambda>disabled.
     Option.bind (field_opt dec_u64 ''nth'' m) (\<lambda>nth'.
     Option.bind (field_opt dec_u64 ''max_elements'' m) (\<lambda>max_elements.
     Some \<lparr>xm_role = role, xm_tag_name = tag_name, xm_label_contains = label_contains, xm_text_contains = text_contains,
           xm_href_contains = href_contains, xm_placeholder_contains = placeholder_contains, xm_input_type = input_type,
           xm_section_hint = section_hint, xm_disabled = disabled, xm_nth = nth', xm_max_elements = max_elements\<rparr>)))))))))))"

definition browser_match_arguments_from_json :: "json \<Rightarrow> browser_element_match_arguments option" where
  "browser_match_arguments_from_json j = Option.bind (struct_fields browser_match_names [] j) browser_match_from_fields"

text \<open>The struct with the flattened matcher reads objects only.\<close>

fun browser_type_match_arguments_from_json :: "json \<Rightarrow> browser_type_match_arguments option" where
  "browser_type_match_arguments_from_json (JObj kvs) =
     Option.bind (struct_fields (browser_match_names @ [str ''text'', str ''submit'']) [] (JObj kvs)) (\<lambda>m.
     Option.bind (browser_match_from_fields m) (\<lambda>matcher.
     Option.bind (field_req dec_string ''text'' m) (\<lambda>t.
     Option.bind (field_opt dec_bool ''submit'' m) (\<lambda>submit.
     Some \<lparr>xy_matcher = matcher, xy_text = t, xy_submit = submit\<rparr>))))"
| "browser_type_match_arguments_from_json _ = None"

definition browser_screenshot_arguments_from_json :: "json \<Rightarrow> rstring option option" where
  "browser_screenshot_arguments_from_json j =
     Option.bind (struct_fields [str ''path''] [] j) (\<lambda>m. field_opt dec_string ''path'' m)"

section \<open>Choosing an element\<close>

definition DEFAULT_MATCH_MAX_ELEMENTS :: nat where
  "DEFAULT_MATCH_MAX_ELEMENTS = 500"

definition NAVIGATE_SNAPSHOT_MAX_ELEMENTS :: nat where
  "NAVIGATE_SNAPSHOT_MAX_ELEMENTS = 24"

definition resolve_match_limit :: "browser_element_match_arguments \<Rightarrow> nat" where
  "resolve_match_limit a =
     min 500 (max 1 (case xm_max_elements a of None \<Rightarrow> DEFAULT_MATCH_MAX_ELEMENTS | Some n \<Rightarrow> n))"

definition validate_match_arguments :: "browser_element_match_arguments \<Rightarrow> err + unit" where
  "validate_match_arguments a =
     (let has_predicate = xm_role a \<noteq> None \<or> xm_tag_name a \<noteq> None \<or> xm_label_contains a \<noteq> None \<or> xm_text_contains a \<noteq> None
            \<or> xm_href_contains a \<noteq> None \<or> xm_placeholder_contains a \<noteq> None \<or> xm_input_type a \<noteq> None
            \<or> xm_section_hint a \<noteq> None \<or> xm_disabled a \<noteq> None in
      if \<not> has_predicate
      then Inl (bail (str ''browser element match requires at least one predicate field such as `role`, `href_contains`, or `label_contains`''))
      else if xm_nth a = Some 0
      then Inl (bail (str ''browser element match field `nth` must be greater than or equal to 1''))
      else Inr ())"

definition ascii_eq :: "rstring \<Rightarrow> rstring \<Rightarrow> bool" where
  "ascii_eq a b \<longleftrightarrow> to_ascii_lowercase a = to_ascii_lowercase b"

definition contains_ignore_ascii_case :: "rstring \<Rightarrow> rstring \<Rightarrow> bool" where
  "contains_ignore_ascii_case actual expected = sublist (to_ascii_lowercase expected) (to_ascii_lowercase actual)"

definition string_equals_if_present :: "rstring \<Rightarrow> rstring option \<Rightarrow> bool" where
  "string_equals_if_present actual expected = (case expected of Some e \<Rightarrow> ascii_eq actual e | None \<Rightarrow> True)"

definition optional_string_equals_if_present :: "rstring option \<Rightarrow> rstring option \<Rightarrow> bool" where
  "optional_string_equals_if_present actual expected =
     (case expected of Some e \<Rightarrow> (case actual of Some a \<Rightarrow> ascii_eq a e | None \<Rightarrow> False) | None \<Rightarrow> True)"

definition string_contains_if_present :: "rstring \<Rightarrow> rstring option \<Rightarrow> bool" where
  "string_contains_if_present actual expected =
     (case expected of Some e \<Rightarrow> contains_ignore_ascii_case actual e | None \<Rightarrow> True)"

definition optional_string_contains_if_present :: "rstring option \<Rightarrow> rstring option \<Rightarrow> bool" where
  "optional_string_contains_if_present actual expected =
     (case expected of
        Some e \<Rightarrow> (case actual of Some a \<Rightarrow> contains_ignore_ascii_case a e | None \<Rightarrow> False) | None \<Rightarrow> True)"

definition bool_equals_if_present :: "bool \<Rightarrow> bool option \<Rightarrow> bool" where
  "bool_equals_if_present actual expected = (case expected of Some e \<Rightarrow> actual = e | None \<Rightarrow> True)"

definition element_matches :: "browser_snapshot_element \<Rightarrow> browser_element_match_arguments \<Rightarrow> bool" where
  "element_matches x a \<longleftrightarrow>
     string_equals_if_present (el_role x) (xm_role a)
     \<and> string_equals_if_present (el_tag_name x) (xm_tag_name a)
     \<and> string_contains_if_present (el_label x) (xm_label_contains a)
     \<and> string_contains_if_present (el_text x) (xm_text_contains a)
     \<and> optional_string_contains_if_present (el_href x) (xm_href_contains a)
     \<and> optional_string_contains_if_present (el_placeholder x) (xm_placeholder_contains a)
     \<and> optional_string_equals_if_present (el_input_type x) (xm_input_type a)
     \<and> optional_string_equals_if_present (el_section_hint x) (xm_section_hint a)
     \<and> bool_equals_if_present (el_disabled x) (xm_disabled a)"

definition matcher_part :: "string \<Rightarrow> rstring option \<Rightarrow> rstring list" where
  "matcher_part k x = (case x of None \<Rightarrow> [] | Some v \<Rightarrow> [str k @ str ''='' @ v])"

definition bool_str :: "bool \<Rightarrow> rstring" where
  "bool_str b = (if b then str ''true'' else str ''false'')"

definition nth_of :: "browser_element_match_arguments \<Rightarrow> nat" where
  "nth_of a = (case xm_nth a of None \<Rightarrow> 1 | Some n \<Rightarrow> n)"

definition describe_matcher :: "browser_element_match_arguments \<Rightarrow> rstring" where
  "describe_matcher a =
     join (str '', '')
       (matcher_part ''role'' (xm_role a) @ matcher_part ''tag_name'' (xm_tag_name a)
        @ matcher_part ''label_contains'' (xm_label_contains a) @ matcher_part ''text_contains'' (xm_text_contains a)
        @ matcher_part ''href_contains'' (xm_href_contains a) @ matcher_part ''placeholder_contains'' (xm_placeholder_contains a)
        @ matcher_part ''input_type'' (xm_input_type a) @ matcher_part ''section_hint'' (xm_section_hint a)
        @ matcher_part ''disabled'' (map_option bool_str (xm_disabled a)) @ [str ''nth='' @ nat_str (nth_of a)])"

definition render_match_metadata :: "browser_element_match_arguments \<Rightarrow> json" where
  "render_match_metadata a =
     JObj [(str ''role'', jopt JStr (xm_role a)), (str ''tag_name'', jopt JStr (xm_tag_name a)),
           (str ''label_contains'', jopt JStr (xm_label_contains a)), (str ''text_contains'', jopt JStr (xm_text_contains a)),
           (str ''href_contains'', jopt JStr (xm_href_contains a)),
           (str ''placeholder_contains'', jopt JStr (xm_placeholder_contains a)),
           (str ''input_type'', jopt JStr (xm_input_type a)), (str ''section_hint'', jopt JStr (xm_section_hint a)),
           (str ''disabled'', jopt JBool (xm_disabled a)), (str ''nth'', jnat (nth_of a)),
           (str ''max_elements'', jnat (resolve_match_limit a))]"

definition pick_element ::
    "browser_element_match_arguments \<Rightarrow> browser_snapshot_element list \<Rightarrow> err + browser_snapshot_element" where
  "pick_element a elements =
     (let found = filter (\<lambda>x. element_matches x a) elements in
      if nth_of a - 1 < length found then Inr (found ! (nth_of a - 1))
      else Inl (bail (str ''failed to resolve browser element match '' @ describe_matcher a @ str '' within ''
                      @ nat_str (length elements) @ str '' observed elements'')))"

definition resolve_element_match ::
    "('w, 'p) sidecar_env \<Rightarrow> browser_session_manager_config \<Rightarrow> rstring \<Rightarrow> browser_element_match_arguments
     \<Rightarrow> (('w, 'p) browser_state, browser_snapshot_element) act" where
  "resolve_element_match S c thread_id a =
     act_bind (act_lift (validate_match_arguments a)) (\<lambda>_.
     act_bind (browser_snapshot S c thread_id (Some (resolve_match_limit a))) (\<lambda>snapshot.
     act_lift (pick_element a (bs_elements snapshot))))"

section \<open>Results\<close>

definition browser_result :: "rstring \<Rightarrow> (rstring \<times> json) list \<Rightarrow> tool_call_result" where
  "browser_result content metadata =
     \<lparr>rs_content = content, rs_metadata = JObj ((str ''toolset'', JStr (str ''browser'')) # metadata), rs_is_error = False\<rparr>"

definition render_navigate_result :: "browser_navigate_result \<Rightarrow> browser_snapshot_result \<Rightarrow> tool_call_result" where
  "render_navigate_result r snapshot =
     browser_result (str ''Navigated to '' @ bn_url r @ str ''.'' @ [10] @ str ''Current page snapshot:'' @ [10] @ bs_snapshot_text snapshot)
       [(str ''url'', JStr (bn_url r)), (str ''title'', JStr (bn_title r)),
        (str ''snapshot'', JObj
          [(str ''url'', JStr (bs_url snapshot)), (str ''title'', JStr (bs_title snapshot)),
           (str ''elements'', JArr (map browser_element_json (bs_elements snapshot))),
           (str ''element_count'', jnat (length (bs_elements snapshot))),
           (str ''total_candidate_count'', jnat (bs_total_candidate_count snapshot)),
           (str ''truncated'', JBool (bs_truncated snapshot))])]"

definition render_snapshot_result :: "browser_snapshot_result \<Rightarrow> tool_call_result" where
  "render_snapshot_result r =
     browser_result (bs_snapshot_text r)
       [(str ''url'', JStr (bs_url r)), (str ''title'', JStr (bs_title r)),
        (str ''elements'', JArr (map browser_element_json (bs_elements r))),
        (str ''element_count'', jnat (length (bs_elements r))),
        (str ''total_candidate_count'', jnat (bs_total_candidate_count r)), (str ''truncated'', JBool (bs_truncated r))]"

definition action_metadata :: "browser_action_result \<Rightarrow> (rstring \<times> json) list" where
  "action_metadata r =
     [(str ''ref'', JStr (ba_reference r)), (str ''url'', JStr (ba_url r)), (str ''title'', JStr (ba_title r)),
      (str ''opened_new_page'', JBool (ba_opened_new_page r))]"

definition type_metadata :: "browser_type_result \<Rightarrow> (rstring \<times> json) list" where
  "type_metadata r =
     [(str ''ref'', JStr (bt_reference r)), (str ''url'', JStr (bt_url r)), (str ''title'', JStr (bt_title r)),
      (str ''text_length'', jnat (bt_text_length r)), (str ''submitted'', JBool (bt_submitted r)),
      (str ''opened_new_page'', JBool (bt_opened_new_page r))]"

definition match_metadata :: "browser_snapshot_element \<Rightarrow> browser_element_match_arguments \<Rightarrow> (rstring \<times> json) list" where
  "match_metadata matched a =
     [(str ''matched_element'', browser_element_json matched), (str ''match'', render_match_metadata a)]"

definition render_click_result :: "browser_action_result \<Rightarrow> tool_call_result" where
  "render_click_result r = browser_result (str ''Clicked ref `'' @ ba_reference r @ str ''`.'') (action_metadata r)"

definition render_type_result :: "browser_type_result \<Rightarrow> tool_call_result" where
  "render_type_result r =
     browser_result (str ''Typed '' @ nat_str (bt_text_length r) @ str '' characters into ref `'' @ bt_reference r @ str ''`.'')
       (type_metadata r)"

definition render_click_match_result ::
    "browser_action_result \<Rightarrow> browser_snapshot_element \<Rightarrow> browser_element_match_arguments \<Rightarrow> tool_call_result" where
  "render_click_match_result r matched a =
     browser_result (str ''Clicked matched ref `'' @ ba_reference r @ str ''` ('' @ el_role matched @ str ''/''
        @ el_tag_name matched @ str '').'')
       (action_metadata r @ match_metadata matched a)"

definition render_type_match_result ::
    "browser_type_result \<Rightarrow> browser_snapshot_element \<Rightarrow> browser_element_match_arguments \<Rightarrow> tool_call_result" where
  "render_type_match_result r matched a =
     browser_result (str ''Typed '' @ nat_str (bt_text_length r) @ str '' characters into matched ref `'' @ bt_reference r
        @ str ''` ('' @ el_role matched @ str ''/'' @ el_tag_name matched @ str '').'')
       (type_metadata r @ match_metadata matched a)"

definition render_screenshot_result :: "browser_screenshot_result \<Rightarrow> tool_call_result" where
  "render_screenshot_result r =
     browser_result (bh_path r)
       [(str ''url'', JStr (bh_url r)), (str ''title'', JStr (bh_title r)), (str ''path'', JStr (bh_path r))]"

definition render_close_result :: "browser_session_close_outcome \<Rightarrow> tool_call_result" where
  "render_close_result r =
     browser_result (if bo_had_session r then str ''Browser session closed.''
                     else str ''No browser session was active for the current thread.'')
       [(str ''had_session'', JBool (bo_had_session r)), (str ''kept_artifacts'', JBool (bo_kept_artifacts r)),
        (str ''artifacts_dir'', jopt (JStr \<circ> bf_session_dir) (bo_artifacts r))]"

section \<open>The tools\<close>

definition require_thread_id :: "tool_call_context \<Rightarrow> string \<Rightarrow> err + rstring" where
  "require_thread_id context tool_name =
     (case tx_thread_id context of
        None \<Rightarrow> Inl (bail (str ''browser tool `'' @ str tool_name @ str ''` requires thread context''))
      | Some thread_id \<Rightarrow> Inr thread_id)"

definition submit_of :: "bool option \<Rightarrow> bool" where
  "submit_of x = (case x of None \<Rightarrow> False | Some b \<Rightarrow> b)"

definition browser_tool ::
    "tools_env \<Rightarrow> string \<Rightarrow> (json \<Rightarrow> 'a option) \<Rightarrow> (rstring \<Rightarrow> 'a \<Rightarrow> (('w, 'p) browser_state, tool_call_result) act)
     \<Rightarrow> tool_call_context \<Rightarrow> tool_call_request \<Rightarrow> (('w, 'p) browser_state, tool_call_result) act" where
  "browser_tool E name decode run context request =
     act_bind (act_lift (require_thread_id context name)) (\<lambda>thread_id.
     act_bind (act_lift (parse_tool_arguments E decode request name)) (\<lambda>args. run thread_id args))"

definition browser_navigate_call where
  "browser_navigate_call E S c = browser_tool E ''browser__navigate'' browser_navigate_arguments_from_json (\<lambda>thread_id url.
     act_bind (browser_navigate S c thread_id url) (\<lambda>r.
     act_bind (browser_snapshot S c thread_id (Some NAVIGATE_SNAPSHOT_MAX_ELEMENTS)) (\<lambda>snapshot.
     act_ret (render_navigate_result r snapshot))))"

definition browser_snapshot_call where
  "browser_snapshot_call E S c = browser_tool E ''browser__snapshot'' browser_snapshot_arguments_from_json
     (\<lambda>thread_id max_elements.
     act_bind (browser_snapshot S c thread_id max_elements) (\<lambda>r. act_ret (render_snapshot_result r)))"

definition browser_click_ref_call where
  "browser_click_ref_call E S c = browser_tool E ''browser__click_ref'' browser_ref_arguments_from_json (\<lambda>thread_id reference.
     act_bind (browser_click_ref S c thread_id reference) (\<lambda>r. act_ret (render_click_result r)))"

definition browser_click_match_call where
  "browser_click_match_call E S c = browser_tool E ''browser__click_match'' browser_match_arguments_from_json (\<lambda>thread_id a.
     act_bind (resolve_element_match S c thread_id a) (\<lambda>matched.
     act_bind (browser_click_ref S c thread_id (el_reference matched)) (\<lambda>r.
     act_ret (render_click_match_result r matched a))))"

definition browser_type_ref_call where
  "browser_type_ref_call E S c = browser_tool E ''browser__type_ref'' browser_type_arguments_from_json (\<lambda>thread_id a.
     act_bind (browser_type_ref S c thread_id (xt_reference a) (xt_text a) (submit_of (xt_submit a))) (\<lambda>r.
     act_ret (render_type_result r)))"

definition browser_type_match_call where
  "browser_type_match_call E S c = browser_tool E ''browser__type_match'' browser_type_match_arguments_from_json (\<lambda>thread_id a.
     act_bind (resolve_element_match S c thread_id (xy_matcher a)) (\<lambda>matched.
     act_bind (browser_type_ref S c thread_id (el_reference matched) (xy_text a) (submit_of (xy_submit a))) (\<lambda>r.
     act_ret (render_type_match_result r matched (xy_matcher a)))))"

definition browser_screenshot_call where
  "browser_screenshot_call E S c = browser_tool E ''browser__screenshot'' browser_screenshot_arguments_from_json
     (\<lambda>thread_id path.
     act_bind (browser_screenshot S c thread_id path) (\<lambda>r. act_ret (render_screenshot_result r)))"

definition browser_close_call where
  "browser_close_call E S c = browser_tool E ''browser__close'' (struct_fields [] []) (\<lambda>thread_id _.
     act_bind (browser_close S c thread_id) (\<lambda>r. act_ret (render_close_result r)))"

definition browser_tools ::
    "tools_env \<Rightarrow> ('w, 'p) sidecar_env \<Rightarrow> browser_session_manager_config \<Rightarrow> ('w, 'p) browser_state tool_handler list" where
  "browser_tools E S c =
     [\<lparr>hd_definition = tool_definition_from_args E ''browser__navigate''
         (str ''Open one URL inside the current thread-scoped browser session and return a lightweight snapshot for the next action.''),
       hd_call = browser_navigate_call E S c\<rparr>,
      \<lparr>hd_definition = tool_definition_from_args E ''browser__snapshot''
         (str ''Capture a text snapshot and element refs from the current browser page. `max_elements` can raise the observation cap when a page has many interactive items.''),
       hd_call = browser_snapshot_call E S c\<rparr>,
      \<lparr>hd_definition = tool_definition_from_args E ''browser__click_ref''
         (str ''Click one previously observed browser snapshot ref inside the current thread.''),
       hd_call = browser_click_ref_call E S c\<rparr>,
      \<lparr>hd_definition = tool_definition_from_args E ''browser__click_match''
         (str ''Capture a fresh snapshot, resolve one element by semantic match fields, and click the matched ref. Use this when raw refs are too unstable on dynamic pages.''),
       hd_call = browser_click_match_call E S c\<rparr>,
      \<lparr>hd_definition = tool_definition_from_args E ''browser__type_ref''
         (str ''Type text into one previously observed browser snapshot ref.''),
       hd_call = browser_type_ref_call E S c\<rparr>,
      \<lparr>hd_definition = tool_definition_from_args E ''browser__type_match''
         (str ''Capture a fresh snapshot, resolve one element by semantic match fields, and type into the matched ref.''),
       hd_call = browser_type_match_call E S c\<rparr>,
      \<lparr>hd_definition = tool_definition_from_args E ''browser__screenshot''
         (str ''Write a screenshot for the current browser page and return the saved file path.''),
       hd_call = browser_screenshot_call E S c\<rparr>,
      \<lparr>hd_definition =
         \<lparr>td_name = str ''browser__close'',
          td_description = str ''Close the current thread-scoped browser session and release resources.'',
          td_input_schema = empty_tool_input_schema, td_source = Builtin\<rparr>,
       hd_call = browser_close_call E S c\<rparr>]"

definition browser_on_unload ::
    "('w, 'p) sidecar_env \<Rightarrow> browser_session_manager_config \<Rightarrow> rstring \<Rightarrow> (('w, 'p) browser_state, unit) act" where
  "browser_on_unload S c thread_id = act_bind (browser_close S c thread_id) (\<lambda>_. act_ret ())"

definition browser_toolset_entry :: toolset_catalog_entry where
  "browser_toolset_entry =
     \<lparr>tce_name = str ''browser'',
      tce_description = str ''Browser automation tools powered by a Node Playwright sidecar.''\<rparr>"

definition register_browser_toolset_with_config ::
    "'e tool_handler list \<Rightarrow> (rstring \<Rightarrow> ('e, unit) act) \<Rightarrow> 'e tool_registry \<Rightarrow> err + 'e tool_registry" where
  "register_browser_toolset_with_config handlers on_unload g =
     (if toolset_registered (str ''browser'') g then Inr g
      else register_toolset_with_runtime browser_toolset_entry handlers (Some on_unload) g)"

end
