(* ===== verification/OJ_Browser_Mock.thy ===== *)
theory OJ_Browser_Mock
  imports OJ_Browser_Tools "HOL-Library.Countable"
begin

text \<open>
  The mock sidecar and the helper commands of \<open>src/agent/tool/browser/tool.rs\<close>: the state and the line loop of
  \<open>run_mock_sidecar\<close>, which answers the client of \<open>OJ_Browser\<close> through pipes, and the smoke and script flows. The
  printing and parsing of JSON text are parameters.
\<close>

section \<open>The mock browser\<close>

record mock_browser_state =
  mb_current_url :: rstring
  mb_title :: rstring
  mb_elements :: "browser_snapshot_element list"

definition mock_browser_default :: mock_browser_state where
  "mock_browser_default = \<lparr>mb_current_url = [], mb_title = [], mb_elements = []\<rparr>"

definition mock_title :: "rstring \<Rightarrow> rstring" where
  "mock_title url =
     (if sublist (str ''example.com'') url then str ''Example Domain''
      else if sublist (str ''localhost'') url then str ''Localhost''
      else str ''Mock Browser Page'')"

definition current_url_or_blank :: "mock_browser_state \<Rightarrow> rstring" where
  "current_url_or_blank m = (if mb_current_url m = [] then str ''about:blank'' else mb_current_url m)"

definition title_or_blank :: "mock_browser_state \<Rightarrow> rstring" where
  "title_or_blank m = (if mb_title m = [] then str ''Blank'' else mb_title m)"

definition mock_navigate :: "rstring \<Rightarrow> mock_browser_state \<Rightarrow> browser_navigate_result \<times> mock_browser_state" where
  "mock_navigate url m =
     (\<lparr>bn_url = url, bn_title = mock_title url\<rparr>, m\<lparr>mb_current_url := url, mb_title := mock_title url\<rparr>)"

definition mock_page_elements :: "browser_snapshot_element list" where
  "mock_page_elements =
     [\<lparr>el_reference = str ''1'', el_tag_name = str ''a'', el_role = str ''link'', el_label = str ''More information'',
       el_text = str ''More information'', el_selector = str ''body > a:nth-of-type(1)'',
       el_href = Some (str ''https://example.com/more''), el_target = None, el_input_type = None, el_placeholder = None,
       el_section_hint = Some (str ''main''), el_disabled = False\<rparr>,
      \<lparr>el_reference = str ''2'', el_tag_name = str ''input'', el_role = str ''textbox'', el_label = str ''Search'',
       el_text = [], el_selector = str ''body > input:nth-of-type(1)'', el_href = None, el_target = None,
       el_input_type = Some (str ''search''), el_placeholder = Some (str ''Search''), el_section_hint = Some (str ''main''),
       el_disabled = False\<rparr>]"

definition mock_snapshot :: "nat option \<Rightarrow> mock_browser_state \<Rightarrow> browser_snapshot_result \<times> mock_browser_state" where
  "mock_snapshot max_elements m =
     (let m1 = m\<lparr>mb_elements := mock_page_elements\<rparr>;
          limit = (case max_elements of None \<Rightarrow> length (mb_elements m1) | Some n \<Rightarrow> n) in
      (\<lparr>bs_url = current_url_or_blank m1, bs_title = title_or_blank m1,
        bs_snapshot_text = str ''URL: '' @ current_url_or_blank m1 @ [10] @ str ''Title: '' @ title_or_blank m1 @ [10]
          @ str ''[1] link More information -> https://example.com/more'' @ [10] @ str ''[2] textbox Search'',
        bs_elements = take limit (mb_elements m1), bs_total_candidate_count = length (mb_elements m1),
        bs_truncated = limit < length (mb_elements m1)\<rparr>, m1))"

definition ensure_ref :: "rstring \<Rightarrow> mock_browser_state \<Rightarrow> err + unit" where
  "ensure_ref reference m =
     (if list_ex (\<lambda>x. el_reference x = reference) (mb_elements m) then Inr ()
      else Inl (bail (str ''unknown browser ref `'' @ reference @ str ''`'')))"

definition mock_click_ref :: "rstring \<Rightarrow> mock_browser_state \<Rightarrow> err + browser_action_result" where
  "mock_click_ref reference m =
     map_sum id (\<lambda>_. \<lparr>ba_reference = reference, ba_url = current_url_or_blank m, ba_title = title_or_blank m,
       ba_opened_new_page = False\<rparr>) (ensure_ref reference m)"

definition mock_type_ref :: "rstring \<Rightarrow> rstring \<Rightarrow> bool \<Rightarrow> mock_browser_state \<Rightarrow> err + browser_type_result" where
  "mock_type_ref reference t submit m =
     map_sum id (\<lambda>_. \<lparr>bt_reference = reference, bt_url = current_url_or_blank m, bt_title = title_or_blank m,
       bt_text_length = length t, bt_submitted = submit, bt_opened_new_page = False\<rparr>) (ensure_ref reference m)"

definition mock_screenshot ::
    "rstring \<Rightarrow> rstring \<Rightarrow> mock_browser_state \<Rightarrow> host_fs \<Rightarrow> (err + browser_screenshot_result) \<times> host_fs" where
  "mock_screenshot os_error path m h =
     (case (case path_parent path of
              None \<Rightarrow> (True, h) | Some parent \<Rightarrow> create_dirs (path_start h parent) (path_parts parent) h) of
        (False, h1) \<Rightarrow> (Inl (bail os_error), h1)
      | (True, h1) \<Rightarrow>
     (case fs_write path (str ''mock-browser-screenshot'') h1 of
        (False, h2) \<Rightarrow> (Inl (bail os_error), h2)
      | (True, h2) \<Rightarrow>
          (Inr \<lparr>bh_url = current_url_or_blank m, bh_title = title_or_blank m, bh_path = path\<rparr>, h2)))"

section \<open>The line loop\<close>

text \<open>The response to a request and whether the loop goes on.\<close>

definition respond_or_fail :: "rstring \<Rightarrow> string \<Rightarrow> err + browser_response_payload \<Rightarrow> browser_response" where
  "respond_or_fail i code r =
     (case r of Inr p \<Rightarrow> browser_response_success i p | Inl e \<Rightarrow> browser_response_failure i (str code) (err_display e))"

definition mock_respond ::
    "rstring \<Rightarrow> browser_request \<Rightarrow> mock_browser_state \<times> host_fs \<Rightarrow> browser_response \<times> (mock_browser_state \<times> host_fs)" where
  "mock_respond os_error q = (\<lambda>(m, h).
     case bq_payload q of
       NavigateRequest url \<Rightarrow>
         (let (r, m1) = mock_navigate url m in (browser_response_success (bq_id q) (NavigateResponse r), (m1, h)))
     | SnapshotRequest max_elements \<Rightarrow>
         (let (r, m1) = mock_snapshot max_elements m in (browser_response_success (bq_id q) (SnapshotResponse r), (m1, h)))
     | ClickRefRequest reference \<Rightarrow>
         (respond_or_fail (bq_id q) ''missing_ref'' (map_sum id ClickRefResponse (mock_click_ref reference m)), (m, h))
     | TypeRefRequest reference t submit \<Rightarrow>
         (respond_or_fail (bq_id q) ''missing_ref'' (map_sum id TypeRefResponse (mock_type_ref reference t submit m)), (m, h))
     | ScreenshotRequest path \<Rightarrow>
         (let (r, h1) = mock_screenshot os_error path m h in
          (respond_or_fail (bq_id q) ''screenshot_failed'' (map_sum id ScreenshotResponse r), (m, h1)))
     | CloseRequest \<Rightarrow> (browser_response_success (bq_id q) (CloseResponse \<lparr>bc_closed = True\<rparr>), (m, h)))"

text \<open>A running mock with its pipes: what it has read of a line, and the lines it has written.\<close>

record mock_process =
  mq_state :: mock_browser_state
  mq_input :: rstring
  mq_output :: "rstring list"
  mq_running :: bool

definition mock_process_new :: mock_process where
  "mock_process_new = \<lparr>mq_state = mock_browser_default, mq_input = [], mq_output = [], mq_running = True\<rparr>"

record mock_codec =
  mj_text :: "json \<Rightarrow> rstring"
  mj_parse :: "rstring \<Rightarrow> err + json"
  mj_os_error :: rstring

definition mock_line :: "mock_codec \<Rightarrow> rstring \<Rightarrow> mock_process \<times> host_fs \<Rightarrow> mock_process \<times> host_fs" where
  "mock_line J line = (\<lambda>(q, h).
     if trim line = [] then (q, h)
     else
       (case (case mj_parse J line of Inl _ \<Rightarrow> None | Inr j \<Rightarrow> browser_request_from_json j) of
          None \<Rightarrow> (q\<lparr>mq_running := False\<rparr>, h)
        | Some request \<Rightarrow>
            (let (response, (m, h1)) = mock_respond (mj_os_error J) request (mq_state q, h);
                 q1 = q\<lparr>mq_state := m, mq_output := mq_output q @ [mj_text J (browser_response_json response)]\<rparr> in
             (if bq_payload request = CloseRequest then q1\<lparr>mq_running := False\<rparr> else q1, h1))))"

definition mock_char :: "mock_codec \<Rightarrow> nat \<Rightarrow> mock_process \<times> host_fs \<Rightarrow> mock_process \<times> host_fs" where
  "mock_char J c = (\<lambda>(q, h).
     if \<not> mq_running q then (q, h)
     else if c = 10 then mock_line J (mq_input q) (q\<lparr>mq_input := []\<rparr>, h)
     else (q\<lparr>mq_input := mq_input q @ [c]\<rparr>, h))"

definition mock_feed :: "mock_codec \<Rightarrow> rstring \<Rightarrow> mock_process \<times> host_fs \<Rightarrow> mock_process \<times> host_fs" where
  "mock_feed J text = fold (mock_char J) text"

section \<open>The mock as the process of a client\<close>

record mock_world =
  mw_host :: host_fs
  mw_processes :: "mock_process list"
  mw_uuids :: nat

definition mock_write :: "mock_codec \<Rightarrow> nat \<Rightarrow> rstring \<Rightarrow> (mock_world, unit) act" where
  "mock_write J p text w =
     (if p < length (mw_processes w) \<and> mq_running (mw_processes w ! p) then
        (let (q, h) = mock_feed J text (mw_processes w ! p, mw_host w) in
         (Inr (), w\<lparr>mw_host := h, mw_processes := (mw_processes w)[p := q]\<rparr>))
      else (Inl (bail (str ''Broken pipe'')), w))"

definition mock_next_line :: "nat \<Rightarrow> (mock_world, rstring option) act" where
  "mock_next_line p w =
     (if p < length (mw_processes w) then
        (case mq_output (mw_processes w ! p) of
           [] \<Rightarrow> (Inr None, w)
         | line # rest \<Rightarrow>
             (Inr (Some line), w\<lparr>mw_processes := (mw_processes w)[p := (mw_processes w ! p)\<lparr>mq_output := rest\<rparr>]\<rparr>))
      else (Inr None, w))"

definition mock_stop :: "nat \<Rightarrow> mock_world \<Rightarrow> mock_world" where
  "mock_stop p w =
     (if p < length (mw_processes w)
      then w\<lparr>mw_processes := (mw_processes w)[p := (mw_processes w ! p)\<lparr>mq_running := False\<rparr>]\<rparr> else w)"

definition mock_uuid_text :: "nat \<Rightarrow> rstring" where
  "mock_uuid_text n = replicate 35 48 @ [48 + n]"

definition mock_env :: "mock_codec \<Rightarrow> (mock_world, nat) sidecar_env" where
  "mock_env J =
     \<lparr>sc_spawn = (\<lambda>_ _ _ w. (Inr (length (mw_processes w)), w\<lparr>mw_processes := mw_processes w @ [mock_process_new]\<rparr>)),
      sc_write = mock_write J, sc_flush = (\<lambda>_. act_ret ()), sc_next_line = mock_next_line,
      sc_wait_timeout = (\<lambda>p w. (Some (Inr ()), mock_stop p w)), sc_kill = (\<lambda>p w. (Inr (), mock_stop p w)),
      sc_wait = (\<lambda>_. act_ret ()), sc_json_text = mj_text J, sc_json_parse = mj_parse J, sc_decode_error = (\<lambda>_. bail []),
      sc_uuid = (\<lambda>w. (mock_uuid_text (mw_uuids w), w\<lparr>mw_uuids := mw_uuids w + 1\<rparr>)), sc_os_error = mj_os_error J\<rparr>"

definition mock_used :: "mock_world \<Rightarrow> rstring set" where
  "mock_used w = mock_uuid_text ` {..< mw_uuids w}"

lemma mock_uuids_kept:
  "mw_uuids (snd (mock_write J p text w)) = mw_uuids w" "mw_uuids (snd (mock_next_line p w)) = mw_uuids w"
  "mw_uuids (mock_stop p w) = mw_uuids w"
  by (simp_all add: mock_write_def mock_next_line_def mock_stop_def split: prod.split list.split)

interpretation mock_sidecar: sidecar_process "mock_env J" mock_used
proof
  fix w w' :: mock_world and u
  assume "sc_uuid (mock_env J) w = (u, w')"
  then have u: "u = mock_uuid_text (mw_uuids w)" "mw_uuids w' = Suc (mw_uuids w)" by (auto simp: mock_env_def)
  have "mock_uuid_text n = mock_uuid_text m \<longleftrightarrow> n = m" for n m by (simp add: mock_uuid_text_def)
  then show "u \<notin> mock_used w \<and> mock_used w' = insert u (mock_used w) \<and> length u = 36"
    unfolding u mock_used_def by (auto simp: lessThan_Suc) (simp add: mock_uuid_text_def)
qed (simp_all add: mock_env_def mock_used_def mock_uuids_kept act_ret_def)

section \<open>The pipe is transparent\<close>

definition codec_ok :: "mock_codec \<Rightarrow> bool" where
  "codec_ok J \<longleftrightarrow> (\<forall>j. mj_parse J (mj_text J j) = Inr j \<and> 10 \<notin> set (mj_text J j) \<and> trim (mj_text J j) \<noteq> [])"

definition request_bounded :: "browser_request_payload \<Rightarrow> bool" where
  "request_bounded p =
     (case p of SnapshotRequest (Some n) \<Rightarrow> n < 2 ^ 64 | TypeRefRequest _ t _ \<Rightarrow> length t < 2 ^ 64 | _ \<Rightarrow> True)"

definition idle_mock :: "mock_browser_state \<Rightarrow> mock_process" where
  "idle_mock m = \<lparr>mq_state = m, mq_input = [], mq_output = [], mq_running = True\<rparr>"

text \<open>What the client makes of a response that carries its id.\<close>

definition answer_of :: "browser_response \<Rightarrow> err + browser_response_payload" where
  "answer_of r =
     (case bp_result r of
        Some p \<Rightarrow> Inr p
      | None \<Rightarrow> (case bp_error r of
          Some e \<Rightarrow> Inl (bail (str ''browser sidecar `'' @ bx_code e @ str ''`: '' @ bx_message e)) | None \<Rightarrow> Inl (bail [])))"

lemma mock_feed_text: "mq_running q \<Longrightarrow> 10 \<notin> set t \<Longrightarrow> mock_feed J t (q, h) = (q\<lparr>mq_input := mq_input q @ t\<rparr>, h)"
  by (induction t arbitrary: q) (auto simp: mock_feed_def mock_char_def)

lemma mock_feed_newline: "mq_running q \<Longrightarrow> mock_feed J [10] (q, h) = mock_line J (mq_input q) (q\<lparr>mq_input := []\<rparr>, h)"
  by (simp add: mock_feed_def mock_char_def)

lemma map_sum_Inr_eq: "map_sum f g x = Inr y \<longleftrightarrow> (\<exists>z. x = Inr z \<and> y = g z)"
  by (cases x) auto

lemma mock_respond_shape:
  assumes "mock_respond os q (m, h) = (response, (m1, h1))" "request_bounded (bq_payload q)"
  shows "bp_id response = bq_id q" "bp_ok response \<longleftrightarrow> bp_result response \<noteq> None" "bp_result response = None \<Longrightarrow> bp_error response \<noteq> None"
    and "case bp_result response of None \<Rightarrow> True | Some p \<Rightarrow> payload_bounded p"
  using assms
  by (auto simp: mock_respond_def browser_response_success_def browser_response_failure_def respond_or_fail_def
      payload_bounded_def mock_snapshot_def mock_page_elements_def mock_type_ref_def request_bounded_def Let_def map_sum_Inr_eq
      split: browser_request_payload.splits prod.splits sum.splits)

lemma mock_line_answer:
  assumes "codec_ok J" "request_bounded (bq_payload q)" "bq_payload q \<noteq> CloseRequest"
    and "mock_respond (mj_os_error J) q (m, h) = (response, (m1, h1))"
  shows "mock_line J (mj_text J (browser_request_json q)) (idle_mock m, h)
     = ((idle_mock m1)\<lparr>mq_output := [mj_text J (browser_response_json response)]\<rparr>, h1)"
proof -
  have "browser_request_from_json (browser_request_json q) = Some q"
    using assms(2) by (intro browser_request_roundtrip) (auto simp: request_bounded_def split: browser_request_payload.splits)
  then show ?thesis using assms by (simp add: mock_line_def codec_ok_def idle_mock_def)
qed

lemma decode_answer:
  assumes "codec_ok J" "request_bounded (bq_payload q)" "mock_respond (mj_os_error J) q (m, h) = (response, (m1, h1))"
  shows "decode_browser_response (mock_env J) (bq_id q) (mj_text J (browser_response_json response)) = answer_of response"
proof -
  note shape = mock_respond_shape [OF assms(3,2)]
  have "browser_response_from_json (browser_response_json response) = Some response"
    using shape(4) by (rule browser_response_roundtrip)
  then show ?thesis using assms(1) shape
    by (auto simp: decode_browser_response_def mock_env_def codec_ok_def answer_of_def split: option.split)
qed

lemma mock_write_text:
  assumes "p < length (mw_processes w)" "mw_processes w ! p = q" "mq_running q"
  shows "mock_write J p t w =
    (Inr (), w\<lparr>mw_host := snd (mock_feed J t (q, mw_host w)), mw_processes := (mw_processes w)[p := fst (mock_feed J t (q, mw_host w))]\<rparr>)"
  using assms by (simp add: mock_write_def split: prod.split)

lemma mock_exchange:
  assumes "codec_ok J" "request_bounded (bq_payload q)" "bq_payload q \<noteq> CloseRequest"
    and "p < length (mw_processes w)" "mw_processes w ! p = idle_mock m"
    and "mock_respond (mj_os_error J) q (m, mw_host w) = (response, (m1, h1))"
  shows "act_bind (mock_write J p (mj_text J (browser_request_json q))) (\<lambda>_. act_bind (mock_write J p [10]) (\<lambda>_. mock_next_line p)) w
     = (Inr (Some (mj_text J (browser_response_json response))),
        w\<lparr>mw_host := h1, mw_processes := (mw_processes w)[p := idle_mock m1]\<rparr>)"
proof -
  let ?text = "mj_text J (browser_request_json q)"
  have running: "mq_running (idle_mock m)" by (simp add: idle_mock_def)
  let ?q1 = "(idle_mock m)\<lparr>mq_input := ?text\<rparr>"
  let ?w1 = "w\<lparr>mw_processes := (mw_processes w)[p := ?q1]\<rparr>"
  have "mock_feed J ?text (idle_mock m, mw_host w) = (?q1, mw_host w)"
    using assms(1) running by (subst mock_feed_text) (auto simp: codec_ok_def idle_mock_def)
  then have first: "mock_write J p ?text w = (Inr (), ?w1)"
    using mock_write_text [OF assms(4,5) running, of J ?text] by simp
  have "mock_feed J [10] (?q1, mw_host w) = mock_line J ?text (idle_mock m, mw_host w)"
    using running by (subst mock_feed_newline) (simp_all add: idle_mock_def)
  also have "\<dots> = ((idle_mock m1)\<lparr>mq_output := [mj_text J (browser_response_json response)]\<rparr>, h1)"
    by (rule mock_line_answer [OF assms(1,2,3,6)])
  finally have "mock_write J p [10] ?w1 = (Inr (), w\<lparr>mw_host := h1, mw_processes := (mw_processes w)
      [p := (idle_mock m1)\<lparr>mq_output := [mj_text J (browser_response_json response)]\<rparr>]\<rparr>)"
    using assms(4) running by (subst mock_write_text [where q = ?q1]) (auto simp: idle_mock_def)
  then show ?thesis using first assms(4) by (simp add: act_bind_def mock_next_line_def idle_mock_def)
qed

lemma service_call_over_mock:
  assumes "codec_ok J" "request_bounded payload" "payload \<noteq> CloseRequest"
    and "service_ok s" "vs_child s = Some p" "p < length (mw_processes w)" "mw_processes w ! p = idle_mock m"
    and "mock_respond (mj_os_error J) \<lparr>bq_id = browser_request_id (vs_next_request_id s), bq_payload = payload\<rparr> (m, mw_host w)
           = (response, (m1, h1))"
  shows "service_call (mock_env J) payload (s, w)
     = (answer_of response, (s\<lparr>vs_next_request_id := vs_next_request_id s + 1\<rparr>,
          w\<lparr>mw_host := h1, mw_processes := (mw_processes w)[p := idle_mock m1]\<rparr>))"
proof -
  let ?q = "\<lparr>bq_id = browser_request_id (vs_next_request_id s), bq_payload = payload\<rparr>"
  let ?text = "mj_text J (browser_request_json ?q)"
  let ?w = "w\<lparr>mw_host := h1, mw_processes := (mw_processes w)[p := idle_mock m1]\<rparr>"
  have exchange: "act_bind (mock_write J p ?text) (\<lambda>_. act_bind (mock_write J p [10]) (\<lambda>_. mock_next_line p)) w
      = (Inr (Some (mj_text J (browser_response_json response))), ?w)"
    by (rule mock_exchange [OF assms(1) _ _ assms(6,7,8)]) (simp_all add: assms(2,3))
  obtain r1 w1 where first: "mock_write J p ?text w = (r1, w1)" by fastforce
  obtain r2 w2 where second: "mock_write J p [10] w1 = (r2, w2)" by fastforce
  have steps: "r1 = Inr ()" "r2 = Inr ()" "mock_next_line p w2 = (Inr (Some (mj_text J (browser_response_json response))), ?w)"
    using exchange first second by (cases r1; cases r2; simp add: act_bind_def)+
  have decode: "decode_browser_response (mock_env J) (bq_id ?q) (mj_text J (browser_response_json response)) = answer_of response"
    by (rule decode_answer [OF assms(1) _ assms(8)]) (simp add: assms(2))
  show ?thesis
    using assms(4,5) first second steps decode
    by (simp add: service_call_def ensure_started_def act_bind_def with_pipe_def on_process_def act_context_def
        service_ok_def mock_env_def act_ret_def act_lift_def)
qed

text \<open>
  The client and the mock sidecar together. Over a JSON codec that inverts itself on one line, a call of the client
  with a running idle mock answers what the mock browser answers to the request itself, moves the mock to the state it
  gets there, counts the request and leaves the mock idle: writing, framing, parsing and the check of ids add nothing.
\<close>
theorem sidecar_call_is_the_mock_answer:
  assumes "codec_ok J" "request_bounded payload" "payload \<noteq> CloseRequest"
    and "service_ok s" "vs_child s = Some p" "p < length (mw_processes w)" "mw_processes w ! p = idle_mock m"
    and "mock_respond (mj_os_error J) \<lparr>bq_id = browser_request_id (vs_next_request_id s), bq_payload = payload\<rparr> (m, mw_host w)
           = (response, (m1, h1))"
  shows "service_call (mock_env J) payload (s, w)
     = (answer_of response, (s\<lparr>vs_next_request_id := vs_next_request_id s + 1\<rparr>,
          w\<lparr>mw_host := h1, mw_processes := (mw_processes w)[p := idle_mock m1]\<rparr>))"
  using assms by (rule service_call_over_mock)

instance json :: countable
  by countable_datatype

definition demo_codec :: mock_codec where
  "demo_codec =
     \<lparr>mj_text = (\<lambda>j. [20000 + to_nat j]),
      mj_parse = (\<lambda>s. case s of [c] \<Rightarrow> Inr (from_nat (c - 20000)) | _ \<Rightarrow> Inl (bail (str ''expected value''))),
      mj_os_error = str ''Permission denied (os error 13)''\<rparr>"

lemma demo_codec_ok: "codec_ok demo_codec"
proof -
  have "trim [20000 + n] = [20000 + n]" for n
    by (rule trim_word) (simp add: is_whitespace_def)
  then show ?thesis by (simp add: codec_ok_def demo_codec_def)
qed

definition demo_service :: "nat browser_service" where
  "demo_service =
     (browser_service_new \<lparr>vc_process = node_sidecar [], vc_runtime = browser_runtime_options_default,
        vc_session_root = str ''/s'', vc_user_data_dir = str ''/s/u''\<rparr>)
       \<lparr>vs_child := Some 0, vs_stdin := Some 0, vs_stdout := Some 0\<rparr>"

definition demo_mock_world :: mock_world where
  "demo_mock_world = \<lparr>mw_host = demo_host, mw_processes = [idle_mock mock_browser_default], mw_uuids = 0\<rparr>"

theorem sidecar_call_is_the_mock_answer_witness:
  "fst (service_call (mock_env demo_codec) (NavigateRequest (str ''localhost'')) (demo_service, demo_mock_world))
     = Inr (NavigateResponse \<lparr>bn_url = str ''localhost'', bn_title = mock_title (str ''localhost'')\<rparr>)"
proof -
  let ?p = "NavigateRequest (str ''localhost'')"
  have "request_bounded ?p" "service_ok demo_service" "vs_child demo_service = Some 0"
    "0 < length (mw_processes demo_mock_world)" "mw_processes demo_mock_world ! 0 = idle_mock mock_browser_default"
    by (simp_all add: request_bounded_def service_ok_def demo_service_def demo_mock_world_def)
  then show ?thesis
    using sidecar_call_is_the_mock_answer [OF demo_codec_ok, of ?p demo_service 0 demo_mock_world mock_browser_default]
    by (simp add: mock_respond_def mock_navigate_def answer_of_def browser_response_success_def)
qed

section \<open>The helper commands\<close>

text \<open>What a flow prints is its list of lines; a step prints after its last operation.\<close>

definition build_helper_manager_config ::
    "rstring \<Rightarrow> rstring \<Rightarrow> bool \<Rightarrow> rstring option \<Rightarrow> rstring \<Rightarrow> rstring option \<Rightarrow> rstring option \<Rightarrow> string
     \<Rightarrow> browser_session_manager_config" where
  "build_helper_manager_config manifest_dir temp_dir headless output_dir node_bin script_path chrome_path default_root_dir_name =
     \<lparr>bm_process =
        \<lparr>ps_executable = node_bin,
         ps_args = [case script_path of None \<Rightarrow> default_sidecar_script_path manifest_dir | Some path \<Rightarrow> path], ps_env = []\<rparr>,
      bm_runtime = browser_runtime_options_default
        \<lparr>ro_headless := headless, ro_keep_artifacts := True, ro_chrome_executable := chrome_path\<rparr>,
      bm_artifact_root = (case output_dir of None \<Rightarrow> path_join temp_dir (str default_root_dir_name) | Some d \<Rightarrow> d)\<rparr>"

definition artifact_lines :: "browser_session_close_outcome \<Rightarrow> rstring list" where
  "artifact_lines o' =
     (case bo_artifacts o' of None \<Rightarrow> [] | Some a \<Rightarrow> [str ''artifacts: '' @ bf_session_dir a])"

definition run_smoke_flow ::
    "('w, 'p) sidecar_env \<Rightarrow> browser_session_manager_config \<Rightarrow> rstring \<Rightarrow> (('w, 'p) browser_state, rstring list) act" where
  "run_smoke_flow S c url =
     (let thread_id = str ''internal-browser-smoke'' in
      act_bind (browser_navigate S c thread_id url) (\<lambda>navigate.
      act_bind (browser_snapshot S c thread_id (Some 120)) (\<lambda>snapshot.
      act_bind (browser_screenshot S c thread_id None) (\<lambda>screenshot.
      act_bind (browser_close S c thread_id) (\<lambda>close.
      act_ret ([str ''navigate: '' @ bn_url navigate, str ''title: '' @ bn_title navigate, str ''snapshot:'',
                bs_snapshot_text snapshot, str ''screenshot: '' @ bh_path screenshot] @ artifact_lines close))))))"

datatype browser_script_step =
    ScriptNavigate rstring
  | ScriptSnapshot "nat option"
  | ScriptClickRef rstring
  | ScriptClickMatch browser_element_match_arguments
  | ScriptTypeRef rstring rstring "bool option"
  | ScriptTypeMatch browser_element_match_arguments rstring "bool option"
  | ScriptScreenshot "rstring option"
  | ScriptClose

definition page_lines :: "rstring \<Rightarrow> rstring \<Rightarrow> bool \<Rightarrow> rstring list" where
  "page_lines url title opened_new_page =
     [str ''url: '' @ url, str ''title: '' @ title, str ''opened_new_page: '' @ bool_str opened_new_page]"

definition typed_lines :: "browser_type_result \<Rightarrow> rstring list" where
  "typed_lines r =
     [str ''url: '' @ bt_url r, str ''title: '' @ bt_title r, str ''submitted: '' @ bool_str (bt_submitted r),
      str ''opened_new_page: '' @ bool_str (bt_opened_new_page r)]"

definition matched_line :: "browser_snapshot_element \<Rightarrow> rstring" where
  "matched_line x = str ''matched_ref: '' @ el_reference x @ str '' ('' @ el_role x @ str ''/'' @ el_tag_name x @ str '')''"

definition script_step_run ::
    "('w, 'p) sidecar_env \<Rightarrow> browser_session_manager_config \<Rightarrow> rstring \<Rightarrow> nat \<Rightarrow> browser_script_step
     \<Rightarrow> (('w, 'p) browser_state, rstring list) act" where
  "script_step_run S c thread_id number step =
     (let line = (\<lambda>what. str ''step '' @ nat_str number @ str what) in
      case step of
        ScriptNavigate url \<Rightarrow> act_bind (browser_navigate S c thread_id url) (\<lambda>r.
          act_ret [line '' navigate: '' @ bn_url r, str ''title: '' @ bn_title r])
      | ScriptSnapshot max_elements \<Rightarrow> act_bind (browser_snapshot S c thread_id max_elements) (\<lambda>r.
          act_ret [line '' snapshot:'', bs_snapshot_text r,
            str ''elements: '' @ nat_str (length (bs_elements r)) @ str '' / '' @ nat_str (bs_total_candidate_count r)
              @ str '' (truncated: '' @ bool_str (bs_truncated r) @ str '')''])
      | ScriptClickRef reference \<Rightarrow> act_bind (browser_click_ref S c thread_id reference) (\<lambda>r.
          act_ret ([line '' click_ref: '' @ reference] @ page_lines (ba_url r) (ba_title r) (ba_opened_new_page r)))
      | ScriptClickMatch a \<Rightarrow> act_bind (resolve_element_match S c thread_id a) (\<lambda>matched.
          act_bind (browser_click_ref S c thread_id (el_reference matched)) (\<lambda>r.
          act_ret ([line '' click_match: '' @ describe_matcher a, matched_line matched]
            @ (case el_href matched of None \<Rightarrow> [] | Some href \<Rightarrow> [str ''matched_href: '' @ href])
            @ page_lines (ba_url r) (ba_title r) (ba_opened_new_page r))))
      | ScriptTypeRef reference t submit \<Rightarrow> act_bind (browser_type_ref S c thread_id reference t (submit_of submit)) (\<lambda>r.
          act_ret ([line '' type_ref: '' @ reference] @ typed_lines r))
      | ScriptTypeMatch a t submit \<Rightarrow> act_bind (resolve_element_match S c thread_id a) (\<lambda>matched.
          act_bind (browser_type_ref S c thread_id (el_reference matched) t (submit_of submit)) (\<lambda>r.
          act_ret ([line '' type_match: '' @ describe_matcher a, matched_line matched] @ typed_lines r)))
      | ScriptScreenshot path \<Rightarrow> act_bind (browser_screenshot S c thread_id path) (\<lambda>r.
          act_ret [line '' screenshot: '' @ bh_path r])
      | ScriptClose \<Rightarrow> act_bind (browser_close S c thread_id) (\<lambda>r.
          act_ret ([line '' close: had_session='' @ bool_str (bo_had_session r)] @ artifact_lines r)))"

text \<open>The steps of a script with the lines printed so far, which stay when a step fails.\<close>

fun script_steps_run ::
    "('w, 'p) sidecar_env \<Rightarrow> browser_session_manager_config \<Rightarrow> rstring \<Rightarrow> nat \<Rightarrow> browser_script_step list \<Rightarrow> rstring list
     \<Rightarrow> ('w, 'p) browser_state \<Rightarrow> ((err + unit) \<times> rstring list) \<times> ('w, 'p) browser_state" where
  "script_steps_run S c thread_id number [] printed b = ((Inr (), printed), b)"
| "script_steps_run S c thread_id number (step # steps) printed b =
     (case script_step_run S c thread_id number step b of
        (Inl e, b1) \<Rightarrow> ((Inl e, printed), b1)
      | (Inr out, b1) \<Rightarrow> script_steps_run S c thread_id (number + 1) steps (printed @ out) b1)"

definition run_script_flow ::
    "('w, 'p) sidecar_env \<Rightarrow> browser_session_manager_config \<Rightarrow> (rstring \<Rightarrow> err + browser_script_step list) \<Rightarrow> rstring
     \<Rightarrow> ('w, 'p) browser_state \<Rightarrow> ((err + unit) \<times> rstring list) \<times> ('w, 'p) browser_state" where
  "run_script_flow S c parse_steps steps_file b =
     (case fs_read_to_string (br_host b) steps_file of
        None \<Rightarrow> ((Inl (err_context (str ''failed to read browser script steps file '' @ steps_file) (bail (sc_os_error S))), []), b)
      | Some raw \<Rightarrow>
     (case parse_steps raw of
        Inl e \<Rightarrow> ((Inl (err_context (str ''failed to parse browser script steps file '' @ steps_file) e), []), b)
      | Inr steps \<Rightarrow>
          let thread_id = str ''internal-browser-script'' in
          (case script_steps_run S c thread_id 1 steps [] b of
             ((Inl e, printed), b1) \<Rightarrow> ((Inl e, printed), b1)
           | ((Inr _, printed), b1) \<Rightarrow>
               (if list_ex (\<lambda>s. s = ScriptClose) steps then ((Inr (), printed), b1)
                else
                  (case browser_close S c thread_id b1 of
                     (Inl e, b2) \<Rightarrow> ((Inl e, printed), b2)
                   | (Inr r, b2) \<Rightarrow> ((Inr (), printed @ artifact_lines r), b2))))))"

end
