(* ===== verification/OJ_Browser_Safety.thy ===== *)
theory OJ_Browser_Safety
  imports OJ_Browser_Mock
begin

text \<open>
  What the browser sessions guarantee: threads do not share a session or a directory, a close always forgets the session,
  and a match acts on the element it describes. The examples run the mock sidecar of \<open>OJ_Browser_Mock\<close>.
\<close>

section \<open>Threads stay apart\<close>

text \<open>
  C36: after any operations of any threads, every thread has at most one session, its process is started in directories
  made for that thread, no two sessions have the same directory, and operations of other threads leave a session as it
  was. Uuids are new and all of one length.
\<close>
theorem browser_sessions_stay_apart:
  assumes "sidecar_process S used"
    and "b = browser_ops_run S c ops (browser_state_new h w)"
  shows "distinct (map fst (br_sessions b))
    \<and> distinct (map (bf_session_dir \<circ> mb_artifacts \<circ> snd) (br_sessions b))
    \<and> (\<forall>(thread_id, m) \<in> set (br_sessions b).
         (\<exists>u. bf_session_dir (mb_artifacts m) = path_join (bm_artifact_root c) (str ''session-'' @ sanitize_segment thread_id @ str ''-'' @ u))
         \<and> vc_session_root (vs_config (mb_service m)) = bf_session_dir (mb_artifacts m)
         \<and> vc_user_data_dir (vs_config (mb_service m)) = path_join (bf_session_dir (mb_artifacts m)) (str ''user-data''))
    \<and> (t \<notin> fst ` set ops' \<longrightarrow>
         map_of (br_sessions (browser_ops_run S c ops' b)) t = map_of (br_sessions b) t)"
proof -
  note new = sidecar_process.browser_ok_state_new [OF assms(1), of c h w]
  have ok: "sidecar_process.browser_ok used c b"
    unfolding assms(2) by (rule sidecar_process.ops_run_keep(1) [OF assms(1) new])
  then have "sessions_ok c (used (br_world b)) (br_sessions b)"
    by (simp add: sidecar_process.browser_ok_def [OF assms(1)])
  then show ?thesis
    using sidecar_process.ops_run_keep(2) [OF assms(1) ok, of t ops']
    by (fastforce simp: sessions_ok_def session_ok_def session_dir_of_def)
qed

definition demo_browser_config :: browser_session_manager_config where
  "demo_browser_config = browser_session_manager_config_default (str ''/m'') (str ''/tmp'')"

theorem browser_sessions_stay_apart_witness:
  "distinct (map (bf_session_dir \<circ> mb_artifacts \<circ> snd)
     (br_sessions (browser_ops_run (mock_env demo_codec) demo_browser_config
        [(str ''a'', NavigateOp (str ''u'')), (str ''b'', SnapshotOp None)] (browser_state_new demo_host demo_mock_world))))"
  using browser_sessions_stay_apart [OF mock_sidecar.sidecar_process_axioms refl,
      of demo_codec demo_browser_config "[(str ''a'', NavigateOp (str ''u'')), (str ''b'', SnapshotOp None)]" demo_host demo_mock_world]
  by blast

section \<open>A close always forgets the session\<close>

text \<open>No entry is both a link and a directory.\<close>

definition links_apart :: "host_fs \<Rightarrow> bool" where
  "links_apart h \<longleftrightarrow> (\<forall>p. map_of (hf_links h) p \<noteq> None \<longrightarrow> \<not> dir_exists h p)"

definition fewer_entries :: "host_fs \<Rightarrow> host_fs \<Rightarrow> bool" where
  "fewer_entries h1 h \<longleftrightarrow> set (hf_dirs h1) \<subseteq> set (hf_dirs h) \<and> map_of (hf_links h1) \<subseteq>\<^sub>m map_of (hf_links h)"

lemma walk_dirs_mono:
  assumes "links_apart h" "fewer_entries h1 h"
  shows "walk_dirs h1 cur parts = Some d \<Longrightarrow> walk_dirs h cur parts = Some d"
proof (induction parts arbitrary: cur)
  case (Cons part parts)
  have step: "real_path h p = real_path h1 p \<and> dir_exists h (real_path h1 p)" if "dir_exists h1 (real_path h1 p)" for p
  proof (cases "map_of (hf_links h1) p")
    case None
    then have "real_path h1 p = p" by (simp add: real_path_def)
    moreover have "dir_exists h p" using that assms(2) calculation by (auto simp: dir_exists_def fewer_entries_def)
    ultimately show ?thesis using assms(1) by (auto simp: links_apart_def real_path_def split: option.split)
  next
    case (Some q)
    then have "map_of (hf_links h) p = Some q"
      using assms(2) by (metis fewer_entries_def map_le_def domI)
    then show ?thesis using Some that assms(2) by (auto simp: real_path_def dir_exists_def fewer_entries_def)
  qed
  show ?case using Cons step by (auto simp: Let_def split: if_splits)
qed simp

lemma walk_dirs_last:
  "walk_dirs h cur parts = Some d \<Longrightarrow> filter (\<lambda>part. part \<noteq> []) parts \<noteq> [] \<Longrightarrow>
   last (filter (\<lambda>part. part \<noteq> []) parts) \<noteq> str ''.'' \<Longrightarrow> last (filter (\<lambda>part. part \<noteq> []) parts) \<noteq> str ''..'' \<Longrightarrow> dir_exists h d"
proof (induction parts arbitrary: cur)
  case (Cons part parts)
  show ?case
  proof (cases "filter (\<lambda>part. part \<noteq> []) parts = []")
    case True
    then have stay: "walk_dirs h x parts = Some x" for x
      by (induction parts) (auto split: if_splits)
    show ?thesis using Cons.prems True stay by (auto simp: Let_def split: if_splits)
  next
    case False
    then show ?thesis using Cons by (auto simp: Let_def split: if_splits)
  qed
qed simp

lemma map_of_filter_key: "map_of (filter (\<lambda>(p, _). P p) al) p = (if P p then map_of al p else None)"
  by (induction al) auto

lemma remove_link_gone:
  assumes "links_apart h" "link_at h path = Some p"
  shows "dir_target (h\<lparr>hf_links := AList.delete p (hf_links h)\<rparr>) path = None" (is "dir_target ?h path = None")
proof -
  let ?parts = "path_parts path"
  have p: "entry_target h path = Some p" "map_of (hf_links h) p \<noteq> None"
    using assms(2) by (auto simp: link_at_def bind_eq_Some_conv split: if_splits)
  obtain d where d: "walk_dirs h (path_start h path) (butlast ?parts) = Some d" "p = d @ [last ?parts]"
    and name: "last ?parts \<noteq> []" "last ?parts \<noteq> str ''.''" "last ?parts \<noteq> str ''..''"
    using p(1) by (auto simp: entry_target_def Let_def split: if_splits)
  have fewer: "fewer_entries ?h h"
    by (auto simp: fewer_entries_def map_le_def delete_conv' split: if_splits)
  have "real_path ?h p = p" by (simp add: real_path_def delete_conv')
  moreover have "\<not> dir_exists ?h p" using assms(1) p(2) by (auto simp: links_apart_def dir_exists_def)
  ultimately have "walk_dirs ?h d [last ?parts] = None" using name d(2) by simp
  moreover have "walk_dirs ?h (path_start h path) (butlast ?parts) = Some x \<Longrightarrow> x = d" for x
    using walk_dirs_mono [OF assms(1) fewer, of "path_start h path" "butlast ?parts" x] d(1) by simp
  moreover have "?parts = butlast ?parts @ [last ?parts]" by simp
  ultimately have "walk_dirs ?h (path_start h path) ?parts = None"
    using walk_dirs_append [of ?h "path_start h path" "butlast ?parts" "[last ?parts]"]
    by (cases "walk_dirs ?h (path_start h path) (butlast ?parts)") auto
  moreover have "path_start ?h path = path_start h path" by (simp add: path_start_def)
  ultimately show ?thesis by (simp add: dir_target_def)
qed

lemma remove_dir_all_gone:
  assumes apart: "links_apart h" and "remove_dir_all path h = (True, h')"
  shows "dir_target h' path = None"
proof (cases "link_at h path")
  case (Some p)
  then show ?thesis using assms(2) remove_link_gone [OF apart Some] by (auto simp: remove_dir_all_def)
next
  case None
  show ?thesis
  proof (rule ccontr)
    assume "dir_target h' path \<noteq> None"
    then obtain d' where d': "dir_target h' path = Some d'" by blast
    obtain d where d: "dir_target h path = Some d" and parts: "filter (\<lambda>part. part \<noteq> []) (path_parts path) \<noteq> []"
        "last (filter (\<lambda>part. part \<noteq> []) (path_parts path)) \<noteq> str ''.''"
        "last (filter (\<lambda>part. part \<noteq> []) (path_parts path)) \<noteq> str ''..''" "d \<noteq> []"
      and h': "hf_dirs h' = removeAll d (filter (not_below d) (hf_dirs h))" "hf_cwd h' = hf_cwd h"
        "hf_links h' = filter (\<lambda>(p, _). not_below d p) (hf_links h)"
      using assms(2) None by (auto simp: remove_dir_all_def Let_def split: option.splits if_splits)
    have fewer: "fewer_entries h' h" by (auto simp: fewer_entries_def h' map_le_def map_of_filter_key split: if_splits)
    have walk': "walk_dirs h' (path_start h path) (path_parts path) = Some d'"
      using d' h'(2) by (simp add: dir_target_def path_start_def split: if_splits)
    have "walk_dirs h (path_start h path) (path_parts path) = Some d'"
      by (rule walk_dirs_mono [OF apart fewer walk'])
    then have "d' = d" using d by (simp add: dir_target_def split: if_splits)
    moreover have "dir_exists h' d'" by (rule walk_dirs_last [OF walk' parts(1,2,3)])
    ultimately show False using parts(4) h'(1) by (simp add: dir_exists_def)
  qed
qed

text \<open>
  What a close leaves behind. Whatever its result, the thread has no session afterwards. If it succeeds and the
  artifacts are not kept, the directory of the session is gone; if the sidecar did not answer the close, its error is
  the result and every file of the session stays, although no session knows of them any more.
\<close>
theorem browser_close_forgets_the_session:
  assumes "map_of (br_sessions b) t = Some m"
    and "browser_close S c t b = (r, b')" "service_close S (mb_service m, br_world b) = (answer, st)"
    and "links_apart (br_host b)"
  shows "map_of (br_sessions b') t = None
    \<and> (\<forall>o'. r = Inr o' \<and> \<not> ro_keep_artifacts (bm_runtime c) \<and> path_exists (br_host b) (bf_session_dir (mb_artifacts m))
          \<longrightarrow> dir_target (br_host b') (bf_session_dir (mb_artifacts m)) = None)
    \<and> (\<forall>e. answer = Inl e \<longrightarrow> r = Inl e \<and> br_host b' = br_host b)"
proof -
  have "br_sessions b' = AList.delete t (br_sessions b)"
    using assms by (auto simp: browser_close_def Let_def split: sum.splits prod.splits bool.splits if_splits)
  moreover have "dir_target (br_host b') (bf_session_dir (mb_artifacts m)) = None"
    if ok: "r = Inr o'" "\<not> ro_keep_artifacts (bm_runtime c)" "path_exists (br_host b) (bf_session_dir (mb_artifacts m))" for o'
  proof -
    obtain h where "remove_dir_all (bf_session_dir (mb_artifacts m)) (br_host b) = (True, h)" "br_host b' = h"
      using assms ok by (auto simp: browser_close_def Let_def split: sum.splits prod.splits bool.splits)
    then show ?thesis using remove_dir_all_gone [OF assms(4)] by simp
  qed
  moreover have "r = Inl e \<and> br_host b' = br_host b" if "answer = Inl e" for e
    using assms that by (auto simp: browser_close_def Let_def split: prod.splits)
  ultimately show ?thesis by (auto simp: delete_conv')
qed

definition demo_browser_state :: "mock_world \<Rightarrow> (mock_world, nat) browser_state" where
  "demo_browser_state w =
     \<lparr>br_sessions = [(str ''t'', \<lparr>mb_artifacts = \<lparr>bf_session_dir = str ''/s'', bf_user_data_dir = str ''/s/u''\<rparr>,
        mb_service = demo_service\<rparr>)], br_host = demo_host, br_world = w\<rparr>"

text \<open>A sidecar that has died: it reads nothing any more.\<close>

definition demo_dead_world :: mock_world where
  "demo_dead_world = demo_mock_world\<lparr>mw_processes := [(idle_mock mock_browser_default)\<lparr>mq_running := False\<rparr>]\<rparr>"

lemma dead_sidecar_close:
  "\<exists>e st. service_close (mock_env demo_codec) (demo_service, demo_dead_world) = (Inl e, st)"
  by (simp add: service_close_def is_started_def service_call_def ensure_started_def act_bind_def with_pipe_def
      on_process_def act_context_def demo_service_def mock_env_def mock_write_def demo_dead_world_def demo_mock_world_def
      act_lift_def split: prod.split)

theorem browser_close_forgets_the_session_witness:
  "\<exists>e. fst (browser_close (mock_env demo_codec) demo_browser_config (str ''t'') (demo_browser_state demo_dead_world)) = Inl e
     \<and> br_host (snd (browser_close (mock_env demo_codec) demo_browser_config (str ''t'') (demo_browser_state demo_dead_world))) = demo_host
     \<and> \<not> has_session (str ''t'') (snd (browser_close (mock_env demo_codec) demo_browser_config (str ''t'') (demo_browser_state demo_dead_world)))"
proof -
  let ?b = "demo_browser_state demo_dead_world"
  let ?m = "\<lparr>mb_artifacts = \<lparr>bf_session_dir = str ''/s'', bf_user_data_dir = str ''/s/u''\<rparr>, mb_service = demo_service\<rparr>"
  obtain e st where dead: "service_close (mock_env demo_codec) (mb_service ?m, br_world ?b) = (Inl e, st)"
    using dead_sidecar_close by (auto simp: demo_browser_state_def)
  have session: "map_of (br_sessions ?b) (str ''t'') = Some ?m" by (simp add: demo_browser_state_def)
  obtain r b' where run: "browser_close (mock_env demo_codec) demo_browser_config (str ''t'') ?b = (r, b')" by fastforce
  have apart: "links_apart (br_host ?b)" by (simp add: links_apart_def demo_browser_state_def demo_host_def)
  show ?thesis
    using browser_close_forgets_the_session [OF session run dead apart] run by (simp add: has_session_def) (simp add: demo_browser_state_def)
qed

section \<open>A match acts on the element it describes\<close>

text \<open>
  A successful click by match was made on a fresh snapshot of at most 500 elements of the same thread: the element it
  reports matches every field that was given, it is the n-th of those that do, and its ref is the one that was clicked.
\<close>
theorem match_click_hits_the_described_element:
  assumes "browser_click_match_call E S c context request b = (Inr result, b')"
  shows "\<exists>t a snapshot b1 x r.
     tx_thread_id context = Some t \<and> browser_match_arguments_from_json (rq_arguments request) = Some a
     \<and> browser_snapshot S c t (Some (resolve_match_limit a)) b = (Inr snapshot, b1)
     \<and> 1 \<le> resolve_match_limit a \<and> resolve_match_limit a \<le> 500 \<and> 1 \<le> nth_of a
     \<and> x \<in> set (bs_elements snapshot) \<and> element_matches x a
     \<and> filter (\<lambda>y. element_matches y a) (bs_elements snapshot) ! (nth_of a - 1) = x
     \<and> browser_click_ref S c t (el_reference x) b1 = (Inr r, b')
     \<and> result = render_click_match_result r x a"
proof -
  obtain t a where args: "tx_thread_id context = Some t" "browser_match_arguments_from_json (rq_arguments request) = Some a"
    and run: "act_bind (resolve_element_match S c t a) (\<lambda>matched.
     act_bind (browser_click_ref S c t (el_reference matched)) (\<lambda>r.
     act_ret (render_click_match_result r matched a))) b = (Inr result, b')"
    using assms
    by (auto simp: browser_click_match_call_def browser_tool_def act_bind_def act_lift_def require_thread_id_def
        parse_tool_arguments_def split: option.splits)
  then obtain x b1 where matched: "resolve_element_match S c t a b = (Inr x, b1)"
    and rest: "act_bind (browser_click_ref S c t (el_reference x)) (\<lambda>r. act_ret (render_click_match_result r x a)) b1 = (Inr result, b')"
    by (auto simp: act_bind_def split: prod.splits sum.splits)
  obtain r where click: "browser_click_ref S c t (el_reference x) b1 = (Inr r, b')" "result = render_click_match_result r x a"
    using rest by (auto simp: act_bind_def act_ret_def split: prod.splits sum.splits)
  obtain snapshot where snap: "browser_snapshot S c t (Some (resolve_match_limit a)) b = (Inr snapshot, b1)"
    and pick: "pick_element a (bs_elements snapshot) = Inr x" and valid: "validate_match_arguments a = Inr ()"
    using matched by (auto simp: resolve_element_match_def act_bind_def act_lift_def split: prod.splits sum.splits)
  have found: "nth_of a - 1 < length (filter (\<lambda>y. element_matches y a) (bs_elements snapshot))"
      "filter (\<lambda>y. element_matches y a) (bs_elements snapshot) ! (nth_of a - 1) = x"
    using pick by (auto simp: pick_element_def Let_def split: if_splits)
  then have "x \<in> set (filter (\<lambda>y. element_matches y a) (bs_elements snapshot))" using nth_mem by blast
  moreover have "1 \<le> nth_of a" using valid
    by (cases "xm_nth a") (auto simp: validate_match_arguments_def nth_of_def Let_def split: if_splits)
  ultimately show ?thesis using args snap found click by (fastforce simp: resolve_match_limit_def)
qed

definition demo_match_request :: tool_call_request where
  "demo_match_request = \<lparr>rq_name = str ''browser__click_match'', rq_arguments = JObj [(str ''role'', JStr (str ''link''))]\<rparr>"

definition demo_match :: browser_element_match_arguments where
  "demo_match =
     \<lparr>xm_role = Some (str ''link''), xm_tag_name = None, xm_label_contains = None, xm_text_contains = None,
      xm_href_contains = None, xm_placeholder_contains = None, xm_input_type = None, xm_section_hint = None,
      xm_disabled = None, xm_nth = None, xm_max_elements = None\<rparr>"

lemma demo_match_args: "browser_match_arguments_from_json (rq_arguments demo_match_request) = Some demo_match"
  by (simp add: demo_match_request_def browser_match_arguments_from_json_def browser_match_names_def canonical_def
      browser_match_from_fields_def field_opt_def dec_opt_def demo_match_def)

lemma demo_snapshot:
  "\<exists>snapshot s w. service_snapshot (mock_env demo_codec) (Some 500) (demo_service, demo_mock_world) = (Inr snapshot, (s, w))
     \<and> bs_elements snapshot = mock_page_elements \<and> service_ok s \<and> vs_child s = Some 0
     \<and> mw_processes w = [idle_mock (mock_browser_default\<lparr>mb_elements := mock_page_elements\<rparr>)]"
proof -
  obtain response m1 h1 where run: "mock_respond (mj_os_error demo_codec) \<lparr>bq_id = browser_request_id (vs_next_request_id demo_service),
      bq_payload = SnapshotRequest (Some 500)\<rparr> (mock_browser_default, mw_host demo_mock_world) = (response, (m1, h1))"
    by (metis prod.exhaust)
  have "service_call (mock_env demo_codec) (SnapshotRequest (Some 500)) (demo_service, demo_mock_world)
      = (answer_of response, (demo_service\<lparr>vs_next_request_id := vs_next_request_id demo_service + 1\<rparr>,
          demo_mock_world\<lparr>mw_host := h1, mw_processes := (mw_processes demo_mock_world)[0 := idle_mock m1]\<rparr>))"
    by (rule service_call_over_mock [OF demo_codec_ok _ _ _ _ _ _ run])
      (simp_all add: request_bounded_def service_ok_def demo_service_def demo_mock_world_def)
  moreover have "answer_of response = Inr (SnapshotResponse (fst (mock_snapshot (Some 500) mock_browser_default)))"
      "m1 = mock_browser_default\<lparr>mb_elements := mock_page_elements\<rparr>"
    using run by (auto simp: mock_respond_def mock_snapshot_def Let_def answer_of_def browser_response_success_def)
  ultimately show ?thesis
    by (simp add: service_snapshot_def act_bind_def act_ret_def mock_snapshot_def Let_def mock_page_elements_def
        service_ok_def demo_service_def demo_mock_world_def)
qed

lemma demo_click:
  assumes "service_ok s" "vs_child s = Some 0" "mw_processes w = [idle_mock m]" "mb_elements m = mock_page_elements"
  shows "\<exists>r st. service_click_ref (mock_env demo_codec) (str ''1'') (s, w) = (Inr r, st)"
proof -
  obtain response m1 h1 where run: "mock_respond (mj_os_error demo_codec) \<lparr>bq_id = browser_request_id (vs_next_request_id s),
      bq_payload = ClickRefRequest (str ''1'')\<rparr> (m, mw_host w) = (response, (m1, h1))"
    by (metis prod.exhaust)
  have call: "service_call (mock_env demo_codec) (ClickRefRequest (str ''1'')) (s, w)
      = (answer_of response, (s\<lparr>vs_next_request_id := vs_next_request_id s + 1\<rparr>,
          w\<lparr>mw_host := h1, mw_processes := (mw_processes w)[0 := idle_mock m1]\<rparr>))"
    by (rule service_call_over_mock [OF demo_codec_ok _ _ _ _ _ _ run]) (simp_all add: request_bounded_def assms)
  have "ensure_ref (str ''1'') m = Inr ()" by (simp add: ensure_ref_def assms(4) mock_page_elements_def)
  then have "\<exists>r. answer_of response = Inr (ClickRefResponse r)"
    using run by (auto simp: mock_respond_def mock_click_ref_def respond_or_fail_def answer_of_def browser_response_success_def)
  then show ?thesis using call by (auto simp: service_click_ref_def act_bind_def act_ret_def)
qed

lemma demo_match_runs:
  "\<exists>result b'. browser_click_match_call demo_tools_env (mock_env demo_codec) demo_browser_config
     (tool_call_context_for_thread (str ''t'')) demo_match_request (demo_browser_state demo_mock_world) = (Inr result, b')"
proof -
  obtain snapshot s w where snap: "service_snapshot (mock_env demo_codec) (Some 500) (demo_service, demo_mock_world) = (Inr snapshot, (s, w))"
    "bs_elements snapshot = mock_page_elements" "service_ok s" "vs_child s = Some 0"
    "mw_processes w = [idle_mock (mock_browser_default\<lparr>mb_elements := mock_page_elements\<rparr>)]"
    using demo_snapshot by blast
  obtain r st where click: "service_click_ref (mock_env demo_codec) (str ''1'') (s, w) = (Inr r, st)"
    using demo_click [OF snap(3,4,5)] by auto
  have limit: "resolve_match_limit demo_match = 500" "validate_match_arguments demo_match = Inr ()"
    by (simp_all add: resolve_match_limit_def validate_match_arguments_def demo_match_def DEFAULT_MATCH_MAX_ELEMENTS_def)
  have "\<exists>x. pick_element demo_match mock_page_elements = Inr x \<and> el_reference x = str ''1''"
    by (simp add: pick_element_def nth_of_def demo_match_def mock_page_elements_def element_matches_def
        string_equals_if_present_def optional_string_equals_if_present_def string_contains_if_present_def
        optional_string_contains_if_present_def bool_equals_if_present_def ascii_eq_def)
  then obtain x where pick: "pick_element demo_match mock_page_elements = Inr x" "el_reference x = str ''1''" by blast
  show ?thesis
    using snap(1,2) click limit pick demo_match_args
    by (cases st) (simp add: browser_click_match_call_def browser_tool_def act_bind_def act_lift_def require_thread_id_def
        tool_call_context_for_thread_def parse_tool_arguments_Some resolve_element_match_def browser_snapshot_def
        session_for_thread_def on_service_def demo_browser_state_def browser_click_ref_def act_ret_def)
qed

theorem match_click_hits_the_described_element_witness:
  "\<exists>result b'. browser_click_match_call demo_tools_env (mock_env demo_codec) demo_browser_config
     (tool_call_context_for_thread (str ''t'')) demo_match_request (demo_browser_state demo_mock_world) = (Inr result, b')
     \<and> (\<exists>r x. result = render_click_match_result r x demo_match \<and> element_matches x demo_match)"
proof -
  obtain result b' where run: "browser_click_match_call demo_tools_env (mock_env demo_codec) demo_browser_config
     (tool_call_context_for_thread (str ''t'')) demo_match_request (demo_browser_state demo_mock_world) = (Inr result, b')"
    using demo_match_runs by blast
  show ?thesis using match_click_hits_the_described_element [OF run] run demo_match_args by auto
qed

end
