(* ===== verification/OJ_Feishu.thy ===== *)
theory OJ_Feishu
  imports OJ_Browser_Protocol OJ_Config OJ_System
begin

text \<open>
  The Feishu channel, \<open>src/channels/feishu.rs\<close>: reading the lines of the long-connection sidecar into incoming messages,
  and delivering outgoing messages over the HTTP API with a cached tenant token.

  The HTTP client, the clock, fresh uuids, files, processes and JSON text are parameters. An instant is counted in
  nanoseconds. Channels never make a sender wait; the delivery loop is the only task that delivers, so a delivery is a
  step. Log output is left out.
\<close>

section \<open>The outside world\<close>

datatype http_body =
    JsonBody json
  | MultipartBody "(rstring \<times> rstring) list" "rstring \<times> rstring \<times> rstring option \<times> nat list"

text \<open>A multipart body has text fields and one file part: its name, file name, MIME type and bytes.\<close>

record http_request =
  hr_endpoint :: rstring
  hr_bearer :: "rstring option"
  hr_query :: "(rstring \<times> rstring) list"
  hr_body :: http_body

record http_response =
  hs_status :: nat
  hs_body :: "err + rstring"

definition is_success :: "http_response \<Rightarrow> bool" where
  "is_success r \<longleftrightarrow> 200 \<le> hs_status r \<and> hs_status r < 300"

record 'w feishu_env =
  fe_post :: "http_request \<Rightarrow> ('w, http_response) act"
  fe_now :: "'w \<Rightarrow> time \<times> 'w"
  fe_uuid :: "'w \<Rightarrow> uuid \<times> 'w"
  fe_uuid_text :: "uuid \<Rightarrow> rstring"
  fe_read_file :: "rstring \<Rightarrow> ('w, nat list) act"
  fe_path_exists :: "rstring \<Rightarrow> 'w \<Rightarrow> bool"
  fe_mime :: "rstring \<Rightarrow> err + unit"
  fe_spawn :: "rstring \<Rightarrow> rstring list \<Rightarrow> (rstring \<times> rstring) list \<Rightarrow> ('w, bool) act"
  fe_status_text :: "nat \<Rightarrow> rstring"
  fe_json_parse :: "rstring \<Rightarrow> err + json"
  fe_json_text :: "json \<Rightarrow> rstring"
  fe_decode_error :: "json \<Rightarrow> err"

section \<open>Payloads\<close>

record feishu_long_connection_payload =
  lp_event_id :: "rstring option"
  lp_sender_open_id :: rstring
  lp_sender_type :: rstring
  lp_tenant_key :: rstring
  lp_message_id :: rstring
  lp_chat_id :: rstring
  lp_thread_id :: "rstring option"
  lp_chat_type :: rstring
  lp_message_type :: rstring
  lp_content :: rstring

record feishu_tenant_access_token_response =
  ta_code :: int
  ta_msg :: rstring
  ta_tenant_access_token :: rstring
  ta_expire :: nat

record feishu_send_response =
  fs_code :: int
  fs_msg :: rstring

record feishu_image_upload_response =
  iu_code :: int
  iu_msg :: rstring
  iu_data :: "rstring option"

fun dec_i32 :: "json \<Rightarrow> int option" where
  "dec_i32 (JInt i) = (if - (2 ^ 31) \<le> i \<and> i < 2 ^ 31 then Some i else None)"
| "dec_i32 _ = None"

fun dec_u32 :: "json \<Rightarrow> nat option" where
  "dec_u32 (JInt i) = (if 0 \<le> i \<and> i < 2 ^ 32 then Some (nat i) else None)"
| "dec_u32 _ = None"

definition long_connection_payload_from_json :: "json \<Rightarrow> feishu_long_connection_payload option" where
  "long_connection_payload_from_json j =
     Option.bind (open_fields [str ''event_id'', str ''sender_open_id'', str ''sender_type'', str ''tenant_key'',
       str ''message_id'', str ''chat_id'', str ''thread_id'', str ''chat_type'', str ''message_type'', str ''content'']
       10 j) (\<lambda>m.
     Option.bind (field_opt dec_string ''event_id'' m) (\<lambda>event_id.
     Option.bind (field_req dec_string ''sender_open_id'' m) (\<lambda>sender_open_id.
     Option.bind (field_req dec_string ''sender_type'' m) (\<lambda>sender_type.
     Option.bind (field_req dec_string ''tenant_key'' m) (\<lambda>tenant_key.
     Option.bind (field_req dec_string ''message_id'' m) (\<lambda>message_id.
     Option.bind (field_req dec_string ''chat_id'' m) (\<lambda>chat_id.
     Option.bind (field_opt dec_string ''thread_id'' m) (\<lambda>thread_id.
     Option.bind (field_req dec_string ''chat_type'' m) (\<lambda>chat_type.
     Option.bind (field_req dec_string ''message_type'' m) (\<lambda>message_type.
     Option.bind (field_req dec_string ''content'' m) (\<lambda>content.
     Some \<lparr>lp_event_id = event_id, lp_sender_open_id = sender_open_id, lp_sender_type = sender_type,
           lp_tenant_key = tenant_key, lp_message_id = message_id, lp_chat_id = chat_id, lp_thread_id = thread_id,
           lp_chat_type = chat_type, lp_message_type = message_type, lp_content = content\<rparr>)))))))))))"

definition text_message_content_from_json :: "json \<Rightarrow> rstring option" where
  "text_message_content_from_json j = Option.bind (open_fields [str ''text''] 1 j) (field_req dec_string ''text'')"

definition token_response_from_json :: "json \<Rightarrow> feishu_tenant_access_token_response option" where
  "token_response_from_json j =
     Option.bind (open_fields [str ''code'', str ''msg'', str ''tenant_access_token'', str ''expire''] 4 j) (\<lambda>m.
     Option.bind (field_req dec_i32 ''code'' m) (\<lambda>code.
     Option.bind (field_req dec_string ''msg'' m) (\<lambda>msg.
     Option.bind (field_req dec_string ''tenant_access_token'' m) (\<lambda>token.
     Option.bind (field_req dec_u32 ''expire'' m) (\<lambda>expire.
     Some \<lparr>ta_code = code, ta_msg = msg, ta_tenant_access_token = token, ta_expire = expire\<rparr>)))))"

definition send_response_from_json :: "json \<Rightarrow> feishu_send_response option" where
  "send_response_from_json j =
     Option.bind (open_fields [str ''code'', str ''msg''] 2 j) (\<lambda>m.
     Option.bind (field_req dec_i32 ''code'' m) (\<lambda>code.
     Option.bind (field_req dec_string ''msg'' m) (\<lambda>msg.
     Some \<lparr>fs_code = code, fs_msg = msg\<rparr>)))"

definition image_data_from_json :: "json \<Rightarrow> rstring option" where
  "image_data_from_json j = Option.bind (open_fields [str ''image_key''] 1 j) (field_req dec_string ''image_key'')"

definition image_upload_response_from_json :: "json \<Rightarrow> feishu_image_upload_response option" where
  "image_upload_response_from_json j =
     Option.bind (open_fields [str ''code'', str ''msg'', str ''data''] 3 j) (\<lambda>m.
     Option.bind (field_req dec_i32 ''code'' m) (\<lambda>code.
     Option.bind (field_req dec_string ''msg'' m) (\<lambda>msg.
     Option.bind (field_opt image_data_from_json ''data'' m) (\<lambda>data.
     Some \<lparr>iu_code = code, iu_msg = msg, iu_data = data\<rparr>))))"

text \<open>\<open>serde_json::from_str\<close> into a struct.\<close>

definition from_json_text :: "'w feishu_env \<Rightarrow> (json \<Rightarrow> 'a option) \<Rightarrow> rstring \<Rightarrow> err + 'a" where
  "from_json_text E d s =
     (case fe_json_parse E s of
        Inl e \<Rightarrow> Inl e
      | Inr j \<Rightarrow> (case d j of None \<Rightarrow> Inl (fe_decode_error E j) | Some x \<Rightarrow> Inr x))"

section \<open>Incoming messages\<close>

definition extract_text_message :: "'w feishu_env \<Rightarrow> rstring \<Rightarrow> rstring \<Rightarrow> rstring" where
  "extract_text_message E message_type raw_content =
     (if message_type \<noteq> str ''text'' then str ''[unsupported feishu message type: '' @ message_type @ str '']''
      else (case from_json_text E text_message_content_from_json raw_content of Inr text \<Rightarrow> text | Inl _ \<Rightarrow> raw_content))"

definition FEISHU_NAME :: rstring where
  "FEISHU_NAME = str ''feishu''"

definition parse_long_connection_incoming ::
    "'w feishu_env \<Rightarrow> feishu_long_connection_payload \<Rightarrow> 'w \<Rightarrow> incoming_message \<times> 'w" where
  "parse_long_connection_incoming E payload w =
     (let (fresh, w1) = fe_uuid E w; (now, w2) = fe_now E w1; chat_id = lp_chat_id payload in
      (\<lparr>im_id = fresh, im_external_message_id = Some (lp_message_id payload), im_channel = FEISHU_NAME,
        im_user_id = lp_sender_open_id payload, im_user_name = None,
        im_content = extract_text_message E (lp_message_type payload) (lp_content payload),
        im_external_thread_id = (if trim chat_id \<noteq> [] then Some chat_id else None),
        im_received_at = now,
        im_metadata = JObj
          [(str ''event_id'', jopt JStr (lp_event_id payload)), (str ''event_type'', JStr (str ''im.message.receive_v1'')),
           (str ''chat_id'', JStr chat_id), (str ''feishu_thread_id'', jopt JStr (lp_thread_id payload)),
           (str ''chat_type'', JStr (lp_chat_type payload)), (str ''message_id'', JStr (lp_message_id payload)),
           (str ''message_type'', JStr (lp_message_type payload)), (str ''tenant_key'', JStr (lp_tenant_key payload)),
           (str ''source'', JStr (str ''feishu_long_connection''))],
        im_attachments = [],
        im_reply_target = \<lparr>rt_receive_id = chat_id, rt_receive_id_type = str ''chat_id''\<rparr>\<rparr>, w2))"

text \<open>
  The task that reads the sidecar: what it has sent to the router, whether the router still listens, and whether the
  loop is running. \<open>next_line\<close> returns a line, the end of the output, or an error.
\<close>

record sidecar_reader =
  fr_sent :: "incoming_message list"
  fr_router_gone :: bool
  fr_running :: bool

datatype reader_input = ReadLine rstring | ReadEnd | ReadError

definition forward_line ::
    "'w feishu_env \<Rightarrow> rstring \<Rightarrow> sidecar_reader \<times> 'w \<Rightarrow> sidecar_reader \<times> 'w" where
  "forward_line E line0 = (\<lambda>(r, w).
     let line = trim line0 in
     if line = [] then (r, w)
     else if \<not> starts_with line (str ''{'') then (r, w)
     else
       (case from_json_text E long_connection_payload_from_json line of
          Inl _ \<Rightarrow> (r, w)
        | Inr payload \<Rightarrow>
            if lp_sender_type payload \<noteq> str ''user'' then (r, w)
            else
              (let (incoming, w1) = parse_long_connection_incoming E payload w in
               (if fr_router_gone r then r\<lparr>fr_running := False\<rparr> else r\<lparr>fr_sent := fr_sent r @ [incoming]\<rparr>, w1))))"

definition reader_step :: "'w feishu_env \<Rightarrow> reader_input \<Rightarrow> sidecar_reader \<times> 'w \<Rightarrow> sidecar_reader \<times> 'w" where
  "reader_step E i = (\<lambda>(r, w).
     if \<not> fr_running r then (r, w)
     else (case i of ReadLine line \<Rightarrow> forward_line E line (r, w) | _ \<Rightarrow> (r\<lparr>fr_running := False\<rparr>, w)))"

definition reader_run :: "'w feishu_env \<Rightarrow> reader_input list \<Rightarrow> sidecar_reader \<times> 'w \<Rightarrow> sidecar_reader \<times> 'w" where
  "reader_run E is s = fold (reader_step E) is s"

section \<open>The tenant token\<close>

record cached_tenant_token =
  ct_value :: rstring
  ct_expires_at :: time

record feishu_channel =
  fn_config :: feishu_config
  fn_cached_token :: "cached_tenant_token option"

definition feishu_channel_new :: "feishu_config \<Rightarrow> feishu_channel" where
  "feishu_channel_new config = \<lparr>fn_config = config, fn_cached_token = None\<rparr>"

definition on_world :: "('w, 'a) act \<Rightarrow> (feishu_channel \<times> 'w, 'a) act" where
  "on_world m = (\<lambda>(c, w). let (r, w1) = m w in (r, (c, w1)))"

definition feishu_now :: "'w feishu_env \<Rightarrow> (feishu_channel \<times> 'w, time) act" where
  "feishu_now E = on_world (\<lambda>w. let (t, w1) = fe_now E w in (Inr t, w1))"

definition feishu_uuid :: "'w feishu_env \<Rightarrow> (feishu_channel \<times> 'w, uuid) act" where
  "feishu_uuid E = on_world (\<lambda>w. let (u, w1) = fe_uuid E w in (Inr u, w1))"

definition trim_end_slashes :: "rstring \<Rightarrow> rstring" where
  "trim_end_slashes s = rev (dropWhile (\<lambda>c. c = 47) (rev s))"

definition api_endpoint :: "feishu_config \<Rightarrow> string \<Rightarrow> rstring" where
  "api_endpoint config path = trim_end_slashes (fc_open_base_url config) @ str path"

text \<open>
  Sending a request and reading a JSON answer: the contexts of the three steps, the message of an unsuccessful
  status, and the decoder.
\<close>

definition send_and_decode ::
    "'w feishu_env \<Rightarrow> string \<Rightarrow> string \<Rightarrow> string \<Rightarrow> string \<Rightarrow> (json \<Rightarrow> 'a option) \<Rightarrow> http_request
     \<Rightarrow> (feishu_channel \<times> 'w, 'a) act" where
  "send_and_decode E send_failed read_failed what decode_failed d request =
     act_bind (on_world (act_context (str send_failed) (fe_post E request))) (\<lambda>response.
     act_bind (act_context (str read_failed) (act_lift (hs_body response))) (\<lambda>body.
     if \<not> is_success response
     then act_fail (bail (str what @ str '' request failed with status '' @ fe_status_text E (hs_status response)
                          @ str '': '' @ body))
     else act_context (str decode_failed) (act_lift (from_json_text E d body))))"

definition returned_code :: "string \<Rightarrow> int \<Rightarrow> rstring \<Rightarrow> err" where
  "returned_code what code msg = bail (str what @ str '' returned code '' @ int_str code @ str '' with message '' @ msg)"

definition token_request :: "feishu_config \<Rightarrow> http_request" where
  "token_request config =
     \<lparr>hr_endpoint = api_endpoint config ''/open-apis/auth/v3/tenant_access_token/internal'', hr_bearer = None,
      hr_query = [],
      hr_body = JsonBody (JObj [(str ''app_id'', JStr (fc_app_id config)), (str ''app_secret'', JStr (fc_app_secret config))])\<rparr>"

definition nanoseconds :: "int \<Rightarrow> time" where
  "nanoseconds seconds = seconds * 10 ^ 9"

definition cache_token :: "cached_tenant_token \<Rightarrow> (feishu_channel \<times> 'w, unit) act" where
  "cache_token token = (\<lambda>(c, w). (Inr (), (c\<lparr>fn_cached_token := Some token\<rparr>, w)))"

definition refresh_token :: "'w feishu_env \<Rightarrow> time \<Rightarrow> (feishu_channel \<times> 'w, rstring) act" where
  "refresh_token E now s =
     act_bind (send_and_decode E ''failed to request feishu tenant_access_token''
       ''failed to read feishu tenant_access_token response'' ''feishu access-token''
       ''failed to decode feishu tenant_access_token response'' token_response_from_json
       (token_request (fn_config (fst s)))) (\<lambda>payload.
     if ta_code payload \<noteq> 0 then act_fail (returned_code ''feishu access-token'' (ta_code payload) (ta_msg payload))
     else
       act_bind (cache_token \<lparr>ct_value = ta_tenant_access_token payload,
                              ct_expires_at = now + nanoseconds (int (ta_expire payload) - 300)\<rparr>) (\<lambda>_.
       act_ret (ta_tenant_access_token payload))) s"

definition get_tenant_access_token :: "'w feishu_env \<Rightarrow> (feishu_channel \<times> 'w, rstring) act" where
  "get_tenant_access_token E =
     act_bind (feishu_now E) (\<lambda>now (c, w).
       case fn_cached_token c of
         Some cached \<Rightarrow> if now < ct_expires_at cached then (Inr (ct_value cached), (c, w)) else refresh_token E now (c, w)
       | None \<Rightarrow> refresh_token E now (c, w))"

section \<open>Outgoing messages\<close>

definition has_credentials :: "feishu_config \<Rightarrow> bool" where
  "has_credentials config \<longleftrightarrow> trim (fc_app_id config) \<noteq> [] \<and> trim (fc_app_secret config) \<noteq> []"

definition ensure_delivery_credentials :: "feishu_config \<Rightarrow> err + unit" where
  "ensure_delivery_credentials config =
     (if has_credentials config then Inr ()
      else Inl (bail (str ''feishu app_id/app_secret are required when feishu.dry_run=false'')))"

definition message_request ::
    "'w feishu_env \<Rightarrow> feishu_config \<Rightarrow> rstring \<Rightarrow> uuid \<Rightarrow> outgoing_message \<Rightarrow> rstring \<Rightarrow> json \<Rightarrow> http_request" where
  "message_request E config token delivery_uuid message msg_type content =
     \<lparr>hr_endpoint = api_endpoint config ''/open-apis/im/v1/messages'', hr_bearer = Some token,
      hr_query = [(str ''receive_id_type'', rt_receive_id_type (om_target message))],
      hr_body = JsonBody (JObj [(str ''receive_id'', JStr (rt_receive_id (om_target message))),
        (str ''msg_type'', JStr msg_type), (str ''content'', JStr (fe_json_text E content)),
        (str ''uuid'', JStr (fe_uuid_text E delivery_uuid))])\<rparr>"

definition send_message_payload ::
    "'w feishu_env \<Rightarrow> outgoing_message \<Rightarrow> string \<Rightarrow> json \<Rightarrow> (feishu_channel \<times> 'w, unit) act" where
  "send_message_payload E message msg_type content s =
     act_bind (get_tenant_access_token E) (\<lambda>access_token.
     act_bind (feishu_uuid E) (\<lambda>delivery_uuid.
     act_bind (send_and_decode E ''failed to send feishu message'' ''failed to read feishu send-message response''
       ''feishu send-message'' ''failed to decode feishu send response'' send_response_from_json
       (message_request E (fn_config (fst s)) access_token delivery_uuid message (str msg_type) content)) (\<lambda>payload.
     if fs_code payload \<noteq> 0 then act_fail (returned_code ''feishu send-message'' (fs_code payload) (fs_msg payload))
     else act_ret ()))) s"

definition send_text_message :: "'w feishu_env \<Rightarrow> outgoing_message \<Rightarrow> (feishu_channel \<times> 'w, unit) act" where
  "send_text_message E message s =
     (if fc_dry_run (fn_config (fst s)) then (Inr (), s)
      else act_bind (act_lift (ensure_delivery_credentials (fn_config (fst s)))) (\<lambda>_.
           send_message_payload E message ''text'' (JObj [(str ''text'', JStr (om_content message))])) s)"

text \<open>\<open>Path::file_name\<close> and \<open>Path::extension\<close>.\<close>

definition path_file_name :: "rstring \<Rightarrow> rstring option" where
  "path_file_name p =
     (case rev (filter (\<lambda>part. part \<noteq> [] \<and> part \<noteq> str ''.'') (path_parts p)) of
        [] \<Rightarrow> None
      | name # _ \<Rightarrow> if name = str ''..'' then None else Some name)"

definition path_extension :: "rstring \<Rightarrow> rstring option" where
  "path_extension p =
     (case path_file_name p of
        None \<Rightarrow> None
      | Some name \<Rightarrow>
          (let extension = rev (takeWhile (\<lambda>c. c \<noteq> 46) (rev name)) in
           if length name \<le> length extension + 1 then None else Some extension))"

definition image_mime_of_extension :: "rstring \<Rightarrow> rstring option" where
  "image_mime_of_extension extension =
     (if extension = str ''png'' then Some (str ''image/png'')
      else if extension = str ''jpg'' \<or> extension = str ''jpeg'' then Some (str ''image/jpeg'')
      else if extension = str ''gif'' then Some (str ''image/gif'')
      else if extension = str ''webp'' then Some (str ''image/webp'')
      else if extension = str ''bmp'' then Some (str ''image/bmp'')
      else None)"

definition resolve_image_mime_type :: "outgoing_attachment \<Rightarrow> rstring option" where
  "resolve_image_mime_type attachment =
     (case oa_mime_type attachment of
        Some mime_type \<Rightarrow> Some mime_type
      | None \<Rightarrow> Option.bind (map_option to_ascii_lowercase (path_extension (oa_path attachment))) image_mime_of_extension)"

definition upload_request :: "feishu_config \<Rightarrow> rstring \<Rightarrow> rstring \<Rightarrow> rstring option \<Rightarrow> nat list \<Rightarrow> http_request" where
  "upload_request config token file_name mime_type image_bytes =
     \<lparr>hr_endpoint = api_endpoint config ''/open-apis/im/v1/images'', hr_bearer = Some token, hr_query = [],
      hr_body = MultipartBody [(str ''image_type'', str ''message'')] (str ''image'', file_name, mime_type, image_bytes)\<rparr>"

definition image_key_of :: "feishu_image_upload_response \<Rightarrow> err + rstring" where
  "image_key_of payload =
     (case iu_data payload of
        None \<Rightarrow> Inl (bail (str ''feishu image upload response did not contain image_key''))
      | Some image_key \<Rightarrow>
          if trim image_key = [] then Inl (bail (str ''feishu image upload response did not contain image_key''))
          else Inr image_key)"

definition upload_image_attachment :: "'w feishu_env \<Rightarrow> outgoing_attachment \<Rightarrow> (feishu_channel \<times> 'w, rstring) act" where
  "upload_image_attachment E attachment s =
     act_bind (on_world (act_context (str ''failed to read outgoing image '' @ oa_path attachment)
       (fe_read_file E (oa_path attachment)))) (\<lambda>image_bytes.
     let file_name = (case path_file_name (oa_path attachment) of Some name \<Rightarrow> name | None \<Rightarrow> str ''openjarvis-image'');
         mime_type = resolve_image_mime_type attachment in
     act_bind (act_context (str ''failed to build feishu image upload multipart body'')
       (act_lift (case mime_type of None \<Rightarrow> Inr () | Some m \<Rightarrow> fe_mime E m))) (\<lambda>_.
     act_bind (get_tenant_access_token E) (\<lambda>access_token.
     act_bind (send_and_decode E ''failed to upload feishu image'' ''failed to read feishu image upload response''
       ''feishu image upload'' ''failed to decode feishu image upload response'' image_upload_response_from_json
       (upload_request (fn_config (fst s)) access_token file_name mime_type image_bytes)) (\<lambda>payload.
     if iu_code payload \<noteq> 0 then act_fail (returned_code ''feishu image upload'' (iu_code payload) (iu_msg payload))
     else act_lift (image_key_of payload))))) s"

definition send_image_attachment ::
    "'w feishu_env \<Rightarrow> outgoing_message \<Rightarrow> outgoing_attachment \<Rightarrow> (feishu_channel \<times> 'w, unit) act" where
  "send_image_attachment E message attachment s =
     (if fc_dry_run (fn_config (fst s)) then (Inr (), s)
      else act_bind (act_lift (ensure_delivery_credentials (fn_config (fst s)))) (\<lambda>_.
           act_bind (upload_image_attachment E attachment) (\<lambda>image_key.
           send_message_payload E message ''image'' (JObj [(str ''image_key'', JStr image_key)]))) s)"

definition send_attachment ::
    "'w feishu_env \<Rightarrow> outgoing_message \<Rightarrow> outgoing_attachment \<Rightarrow> (feishu_channel \<times> 'w, unit) act" where
  "send_attachment E message attachment =
     (case oa_kind attachment of Image \<Rightarrow> send_image_attachment E message attachment)"

fun send_attachments ::
    "'w feishu_env \<Rightarrow> outgoing_message \<Rightarrow> outgoing_attachment list \<Rightarrow> (feishu_channel \<times> 'w, unit) act" where
  "send_attachments E message [] = act_ret ()"
| "send_attachments E message (attachment # attachments) =
     act_bind (send_attachment E message attachment) (\<lambda>_. send_attachments E message attachments)"

definition reaction_request :: "feishu_config \<Rightarrow> rstring \<Rightarrow> rstring \<Rightarrow> rstring \<Rightarrow> http_request" where
  "reaction_request config token message_id emoji_type =
     \<lparr>hr_endpoint = api_endpoint config ''/open-apis/im/v1/messages/'' @ message_id @ str ''/reactions'',
      hr_bearer = Some token, hr_query = [],
      hr_body = JsonBody (JObj [(str ''reaction_type'', JObj [(str ''emoji_type'', JStr emoji_type)])])\<rparr>"

definition add_reaction :: "'w feishu_env \<Rightarrow> rstring \<Rightarrow> rstring \<Rightarrow> (feishu_channel \<times> 'w, unit) act" where
  "add_reaction E message_id emoji_type s =
     (if fc_dry_run (fn_config (fst s)) then (Inr (), s)
      else act_bind (act_lift (ensure_delivery_credentials (fn_config (fst s)))) (\<lambda>_.
           act_bind (get_tenant_access_token E) (\<lambda>access_token.
           act_bind (send_and_decode E ''failed to add feishu reaction'' ''failed to read feishu reaction response''
             ''feishu reaction'' ''failed to decode feishu reaction response'' send_response_from_json
             (reaction_request (fn_config (fst s)) access_token message_id emoji_type)) (\<lambda>payload.
           if fs_code payload \<noteq> 0 then act_fail (returned_code ''feishu reaction'' (fs_code payload) (fs_msg payload))
           else act_ret ()))) s)"

definition FEISHU_DEBUG_REACTION_EMOJI_TYPE :: rstring where
  "FEISHU_DEBUG_REACTION_EMOJI_TYPE = str ''Typing''"

definition deliver_outgoing :: "'w feishu_env \<Rightarrow> outgoing_message \<Rightarrow> (feishu_channel \<times> 'w, unit) act" where
  "deliver_outgoing E message =
     act_bind (case om_reply_to_message_id message of
                 None \<Rightarrow> act_ret ()
               | Some i \<Rightarrow> act_try (add_reaction E i FEISHU_DEBUG_REACTION_EMOJI_TYPE) (\<lambda>_. act_ret ())) (\<lambda>_.
     act_bind (if trim (om_content message) \<noteq> [] then send_text_message E message else act_ret ()) (\<lambda>_.
     send_attachments E message (om_attachments message)))"

text \<open>The delivery loop: a failed delivery is logged and the next message is taken.\<close>

fun outgoing_loop :: "'w feishu_env \<Rightarrow> outgoing_message list \<Rightarrow> feishu_channel \<times> 'w \<Rightarrow> feishu_channel \<times> 'w" where
  "outgoing_loop E [] s = s"
| "outgoing_loop E (message # rest) s = outgoing_loop E rest (snd (deliver_outgoing E message s))"

section \<open>Starting the channel\<close>

definition spawn_sidecar :: "'w feishu_env \<Rightarrow> (feishu_channel \<times> 'w, sidecar_reader) act" where
  "spawn_sidecar E = (\<lambda>(c, w).
     let config = fn_config c; script_path = fc_sidecar_script config in
     if \<not> fc_auto_start_sidecar config
     then (Inl (bail (str ''feishu long_connection requires auto_start_sidecar=true in current runtime'')), (c, w))
     else if \<not> has_credentials config
     then (Inl (bail (str ''feishu app_id/app_secret are required for long_connection mode'')), (c, w))
     else if \<not> fe_path_exists E script_path w
     then (Inl (bail (str ''feishu sidecar script not found at '' @ script_path)), (c, w))
     else
       act_bind (on_world (act_context (str ''failed to spawn feishu sidecar'') (fe_spawn E (fc_node_bin config) [script_path]
         [(str ''FEISHU_APP_ID'', fc_app_id config), (str ''FEISHU_APP_SECRET'', fc_app_secret config),
          (str ''FEISHU_OPEN_BASE_URL'', fc_open_base_url config)]))) (\<lambda>has_stdout.
       if \<not> has_stdout then act_fail (bail (str ''failed to capture feishu sidecar stdout''))
       else act_ret \<lparr>fr_sent = [], fr_router_gone = False, fr_running = True\<rparr>) (c, w))"

text \<open>The delivery loop is running (first component of the result) from before the checks of the sidecar.\<close>

definition feishu_start :: "'w feishu_env \<Rightarrow> feishu_channel \<times> 'w \<Rightarrow> bool \<times> (err + sidecar_reader) \<times> feishu_channel \<times> 'w" where
  "feishu_start E s =
     (if is_long_connection (fn_config (fst s)) then (True, spawn_sidecar E s)
      else (False, Inl (bail (str ''feishu webhook runtime is not implemented in the mpsc refactor yet'')), s))"

end
