(* ===== verification/OJ_Feishu_Safety.thy ===== *)
theory OJ_Feishu_Safety
  imports OJ_Feishu "HOL-Library.Sublist"
begin

text \<open>
  What the Feishu channel does on the wire. An environment is instrumented with a log of the clock readings, the files
  read with their bytes and the requests with their answers; a monitor of that log checks the use of the tenant token, and
  a view of it shows what was read, uploaded, answered and sent. The reader of the sidecar is compared with the list of the payloads it is given.
\<close>

section \<open>The log of an environment\<close>

datatype net_entry = ClockRead time | Posted http_request "err + http_response" | FileRead rstring "err + nat list"

definition logged_act :: "('w, 'a) act \<Rightarrow> ('w \<times> net_entry list, 'a) act" where
  "logged_act m = (\<lambda>(w, l). let (r, w1) = m w in (r, (w1, l)))"

definition logged :: "'w feishu_env \<Rightarrow> ('w \<times> net_entry list) feishu_env" where
  "logged E =
     \<lparr>fe_post = (\<lambda>q (w, l). let (r, w1) = fe_post E q w in (r, (w1, l @ [Posted q r]))),
      fe_now = (\<lambda>(w, l). let (t, w1) = fe_now E w in (t, (w1, l @ [ClockRead t]))),
      fe_uuid = (\<lambda>(w, l). let (u, w1) = fe_uuid E w in (u, (w1, l))),
      fe_uuid_text = fe_uuid_text E, fe_read_file = (\<lambda>p (w, l). let (r, w1) = fe_read_file E p w in (r, (w1, l @ [FileRead p r]))),
      fe_path_exists = (\<lambda>p (w, l). fe_path_exists E p w), fe_mime = fe_mime E,
      fe_spawn = (\<lambda>x args vars. logged_act (fe_spawn E x args vars)), fe_status_text = fe_status_text E,
      fe_json_parse = fe_json_parse E, fe_json_text = fe_json_text E, fe_decode_error = fe_decode_error E\<rparr>"

lemma logged_pure [simp]:
  "fe_uuid_text (logged E) = fe_uuid_text E" "fe_mime (logged E) = fe_mime E" "fe_json_text (logged E) = fe_json_text E"
  "fe_status_text (logged E) = fe_status_text E" "fe_json_parse (logged E) = fe_json_parse E"
  "fe_decode_error (logged E) = fe_decode_error E"
  by (simp_all add: logged_def)

lemma logged_texts [simp]:
  "from_json_text (logged E) d t = from_json_text E d t"
  "message_request (logged E) config token u m ty j = message_request E config token u m ty j"
  by (simp_all add: from_json_text_def message_request_def split: sum.split option.split)

lemma logged_post [simp]:
  "fe_post (logged E) q (w, l) = (let (r, w1) = fe_post E q w in (r, (w1, l @ [Posted q r])))"
  by (simp add: logged_def)

lemma logged_now [simp]:
  "fe_now (logged E) (w, l) = (let (t, w1) = fe_now E w in (t, (w1, l @ [ClockRead t])))"
  by (simp add: logged_def)

lemma logged_uuid [simp]:
  "fe_uuid (logged E) (w, l) = (let (u, w1) = fe_uuid E w in (u, (w1, l)))"
  by (simp add: logged_def)

lemma logged_file [simp]:
  "fe_read_file (logged E) p (w, l) = (let (r, w1) = fe_read_file E p w in (r, (w1, l @ [FileRead p r])))"
  by (simp add: logged_def)

section \<open>The monitor of the tenant token\<close>

text \<open>
  The monitor follows the last token that was issued and the last reading of the clock. It accepts an authorized request
  only with that token, after a reading of the clock since the last authorized request at which the token had not
  expired, or when the token was issued after that reading; and it accepts a token request only when the clock was just
  read and the last token, if there is one, has expired. Other requests it refuses. Reading a file is no request.
\<close>

record token_monitor =
  mn_clock :: "time option"
  mn_token :: "cached_tenant_token option"
  mn_fresh :: bool

definition token_monitor_new :: token_monitor where
  "token_monitor_new = \<lparr>mn_clock = None, mn_token = None, mn_fresh = False\<rparr>"

definition token_of :: "'w feishu_env \<Rightarrow> http_response \<Rightarrow> feishu_tenant_access_token_response option" where
  "token_of E response =
     (if \<not> is_success response then None
      else (case hs_body response of
              Inl _ \<Rightarrow> None
            | Inr body \<Rightarrow> (case from_json_text E token_response_from_json body of
                 Inl _ \<Rightarrow> None | Inr payload \<Rightarrow> if ta_code payload = 0 then Some payload else None)))"

definition token_valid_at :: "time \<Rightarrow> cached_tenant_token option \<Rightarrow> bool" where
  "token_valid_at now token \<longleftrightarrow> (case token of None \<Rightarrow> False | Some t \<Rightarrow> now < ct_expires_at t)"

fun monitor_step :: "'w feishu_env \<Rightarrow> feishu_config \<Rightarrow> net_entry \<Rightarrow> token_monitor \<Rightarrow> token_monitor option" where
  "monitor_step E config (ClockRead now) M = Some (M\<lparr>mn_clock := Some now, mn_fresh := False\<rparr>)"
| "monitor_step E config (FileRead _ _) M = Some M"
| "monitor_step E config (Posted q r) M =
     (case (hr_bearer q, mn_clock M) of
        (_, None) \<Rightarrow> None
      | (None, Some now) \<Rightarrow>
          if q \<noteq> token_request config \<or> mn_fresh M \<or> token_valid_at now (mn_token M) then None
          else (case r of
                  Inl _ \<Rightarrow> Some (M\<lparr>mn_clock := None\<rparr>)
                | Inr response \<Rightarrow> (case token_of E response of
                    None \<Rightarrow> Some (M\<lparr>mn_clock := None\<rparr>)
                  | Some payload \<Rightarrow> Some (M\<lparr>mn_fresh := True,
                      mn_token := Some \<lparr>ct_value = ta_tenant_access_token payload,
                        ct_expires_at = now + nanoseconds (int (ta_expire payload) - 300)\<rparr>\<rparr>)))
      | (Some bearer, Some now) \<Rightarrow>
          if map_option ct_value (mn_token M) = Some bearer \<and> (mn_fresh M \<or> token_valid_at now (mn_token M))
          then Some (M\<lparr>mn_clock := None, mn_fresh := False\<rparr>) else None)"

fun monitor_run :: "'w feishu_env \<Rightarrow> feishu_config \<Rightarrow> net_entry list \<Rightarrow> token_monitor \<Rightarrow> token_monitor option" where
  "monitor_run E config [] M = Some M"
| "monitor_run E config (e # es) M = Option.bind (monitor_step E config e M) (monitor_run E config es)"

lemma monitor_run_append:
  "monitor_run E config (a @ b) M = Option.bind (monitor_run E config a M) (monitor_run E config b)"
  by (induction a arbitrary: M) (auto split: Option.bind_splits)

text \<open>The monitor accepts the log, and its token is the cached one.\<close>

type_synonym 'w feishu_log_state = "feishu_channel \<times> 'w \<times> net_entry list"

definition monitored :: "'w feishu_env \<Rightarrow> feishu_config \<Rightarrow> token_monitor \<Rightarrow> 'w feishu_log_state \<Rightarrow> bool" where
  "monitored E config M = (\<lambda>(c, w, l). fn_config c = config \<and> monitor_run E config l token_monitor_new = Some M
     \<and> mn_token M = fn_cached_token c)"

definition well_monitored :: "'w feishu_env \<Rightarrow> feishu_config \<Rightarrow> 'w feishu_log_state \<Rightarrow> bool" where
  "well_monitored E config s \<longleftrightarrow> (\<exists>M. monitored E config M s)"

interpretation monitor: action_preorder "\<lambda>s s'. well_monitored E config s \<longrightarrow> well_monitored E config s'" for E config
  by unfold_locales auto

abbreviation keeps_monitor :: "'w feishu_env \<Rightarrow> feishu_config \<Rightarrow> ('w feishu_log_state, 'a) act \<Rightarrow> 'w feishu_log_state \<Rightarrow> bool" where
  "keeps_monitor E config \<equiv> related (\<lambda>s s'. well_monitored E config s \<longrightarrow> well_monitored E config s')"

text \<open>The token that is returned may be used for the next request.\<close>

definition may_use :: "'w feishu_env \<Rightarrow> feishu_config \<Rightarrow> rstring \<Rightarrow> 'w feishu_log_state \<Rightarrow> bool" where
  "may_use E config token s \<longleftrightarrow>
     (\<exists>M now. monitored E config M s \<and> mn_clock M = Some now \<and> map_option ct_value (mn_token M) = Some token
        \<and> (mn_fresh M \<or> token_valid_at now (mn_token M)))"

lemma may_use_well: "may_use E config token s \<Longrightarrow> well_monitored E config s"
  by (auto simp: may_use_def well_monitored_def)

lemma monitored_extend:
  assumes "monitored E config M (c, w, l)" "monitor_step E config e M = Some M'" "mn_token M' = fn_cached_token c'"
    and "fn_config c' = fn_config c"
  shows "monitored E config M' (c', w', l @ [e])"
  using assms by (simp add: monitored_def monitor_run_append)

lemma act_context_cases:
  "act_context m f s = (Inl e, s') \<Longrightarrow> \<exists>e'. f s = (Inl e', s')"
  "act_context m f s = (Inr x, s') \<Longrightarrow> f s = (Inr x, s')"
  by (auto simp: act_context_def split: prod.splits sum.splits)

text \<open>One request and its answer: the log grows by it, and the answer decides what is returned.\<close>

definition decode_answer_of ::
    "'w feishu_env \<Rightarrow> string \<Rightarrow> string \<Rightarrow> string \<Rightarrow> (json \<Rightarrow> 'a option) \<Rightarrow> http_response \<Rightarrow> err + 'a" where
  "decode_answer_of E read_failed what decode_failed d response =
     (case hs_body response of
        Inl e \<Rightarrow> Inl (err_context (str read_failed) e)
      | Inr body \<Rightarrow>
          if \<not> is_success response
          then Inl (bail (str what @ str '' request failed with status '' @ fe_status_text E (hs_status response)
                          @ str '': '' @ body))
          else (case from_json_text E d body of Inl e \<Rightarrow> Inl (err_context (str decode_failed) e) | Inr x \<Rightarrow> Inr x))"

lemma send_and_decode_logged:
  "send_and_decode (logged E) send_failed read_failed what decode_failed d q (c, w, l) =
     (case fe_post E q w of
        (Inl e, w1) \<Rightarrow> (Inl (err_context (str send_failed) e), (c, w1, l @ [Posted q (Inl e)]))
      | (Inr response, w1) \<Rightarrow>
          (decode_answer_of E read_failed what decode_failed d response, (c, w1, l @ [Posted q (Inr response)])))"
  by (cases "fe_post E q w"; cases "fst (fe_post E q w)")
    (auto simp: send_and_decode_def act_bind_def on_world_def act_context_def act_lift_def act_fail_def decode_answer_of_def
      split: sum.split)


lemma refresh_token_logged:
  "refresh_token (logged E) now (c, w, l) =
     (let q = token_request (fn_config c) in
      case fe_post E q w of
        (Inl e, w1) \<Rightarrow> (Inl (err_context (str ''failed to request feishu tenant_access_token'') e), (c, w1, l @ [Posted q (Inl e)]))
      | (Inr response, w1) \<Rightarrow>
          (case token_of E response of
             Some payload \<Rightarrow>
               (Inr (ta_tenant_access_token payload),
                (c\<lparr>fn_cached_token := Some \<lparr>ct_value = ta_tenant_access_token payload,
                   ct_expires_at = now + nanoseconds (int (ta_expire payload) - 300)\<rparr>\<rparr>, w1, l @ [Posted q (Inr response)]))
           | None \<Rightarrow>
               (case decode_answer_of E ''failed to read feishu tenant_access_token response'' ''feishu access-token''
                       ''failed to decode feishu tenant_access_token response'' token_response_from_json response of
                  Inl e \<Rightarrow> Inl e
                | Inr payload \<Rightarrow> Inl (returned_code ''feishu access-token'' (ta_code payload) (ta_msg payload)),
                (c, w1, l @ [Posted q (Inr response)]))))"
  by (cases "fe_post E (token_request (fn_config c)) w")
    (auto simp: refresh_token_def act_bind_def send_and_decode_logged token_of_def decode_answer_of_def cache_token_def
      act_ret_def act_fail_def Let_def split: sum.split)

lemma get_token_monitored:
  assumes s: "monitored E config M (c, w, l)"
    and run: "get_tenant_access_token (logged E) (c, w, l) = (r, s')"
  shows "well_monitored E config s'" and "\<And>t. r = Inr t \<Longrightarrow> may_use E config t s'"
proof -
  obtain now w1 where now: "fe_now E w = (now, w1)" by (cases "fe_now E w")
  let ?M = "M\<lparr>mn_clock := Some now, mn_fresh := False\<rparr>" and ?l = "l @ [ClockRead now]"
  have read: "monitored E config ?M (c, w1, ?l)"
    using monitored_extend [OF s, of "ClockRead now" ?M c] s by (simp add: monitored_def)
  have config: "fn_config c = config" and cached: "mn_token M = fn_cached_token c" using s by (auto simp: monitored_def)
  have after: "get_tenant_access_token (logged E) (c, w, l)
      = (if token_valid_at now (fn_cached_token c) then (Inr (ct_value (the (fn_cached_token c))), (c, w1, ?l))
         else refresh_token (logged E) now (c, w1, ?l))"
    by (auto simp: get_tenant_access_token_def feishu_now_def on_world_def act_bind_def now token_valid_at_def split: option.split)
  have "well_monitored E config s' \<and> (\<forall>t. r = Inr t \<longrightarrow> may_use E config t s')"
  proof (cases "token_valid_at now (fn_cached_token c)")
    case True
    then obtain ct where "fn_cached_token c = Some ct" by (auto simp: token_valid_at_def split: option.splits)
    with True read run after cached show ?thesis
      by (auto simp: may_use_def well_monitored_def intro!: exI [of _ ?M])
  next
    case False
    let ?q = "token_request config"
    have bearer: "hr_bearer ?q = None" by (simp add: token_request_def)
    obtain x w2 where post: "fe_post E ?q w1 = (x, w2)" by (cases "fe_post E ?q w1")
    have failed: "monitored E config (?M\<lparr>mn_clock := None\<rparr>) (c, w2, ?l @ [Posted ?q x])"
      if "case x of Inl _ \<Rightarrow> True | Inr response \<Rightarrow> token_of E response = None"
      by (rule monitored_extend [OF read]) (use that False cached in \<open>auto simp: bearer split: sum.splits\<close>)
    show ?thesis
    proof (cases "case x of Inl _ \<Rightarrow> True | Inr response \<Rightarrow> token_of E response = None")
      case True
      with failed [OF True] post run after False config show ?thesis
        by (auto simp: refresh_token_logged Let_def well_monitored_def split: sum.splits)
    next
      case stored: False
      then obtain response payload where x: "x = Inr response" "token_of E response = Some payload"
        by (cases x) auto
      let ?ct = "\<lparr>ct_value = ta_tenant_access_token payload,
          ct_expires_at = now + nanoseconds (int (ta_expire payload) - 300)\<rparr>"
      let ?M' = "?M\<lparr>mn_fresh := True, mn_token := Some ?ct\<rparr>" and ?c = "c\<lparr>fn_cached_token := Some ?ct\<rparr>"
      have "monitored E config ?M' (?c, w2, ?l @ [Posted ?q x])"
        by (rule monitored_extend [OF read]) (use x False cached in \<open>auto simp: bearer\<close>)
      moreover have "r = Inr (ct_value ?ct)" "s' = (?c, w2, ?l @ [Posted ?q x])"
        using post run after False config x by (auto simp: refresh_token_logged Let_def)
      ultimately show ?thesis by (auto simp: may_use_def well_monitored_def intro!: exI [of _ ?M'])
    qed
  qed
  then show "well_monitored E config s'" and "\<And>t. r = Inr t \<Longrightarrow> may_use E config t s'" by auto
qed

text \<open>A token, then anything that keeps the monitor content once it may use the token.\<close>

lemma keeps_token:
  assumes "\<And>t s'. may_use E config t s' \<Longrightarrow> well_monitored E config (snd (f t s'))"
  shows "keeps_monitor E config (act_bind (get_tenant_access_token (logged E)) f) s"
proof -
  obtain c w l where s: "s = (c, w, l)" by (cases s)
  obtain r s' where run: "get_tenant_access_token (logged E) s = (r, s')" by (cases "get_tenant_access_token (logged E) s")
  have "well_monitored E config s \<Longrightarrow> well_monitored E config (snd (act_bind (get_tenant_access_token (logged E)) f s))"
    using get_token_monitored [of E config _ c w l r s'] run assms [of _ s'] unfolding s
    by (cases r) (auto simp: act_bind_def well_monitored_def [of E config "(c, w, l)"])
  then show ?thesis by (simp add: related_def)
qed

lemma authorized_post:
  assumes "may_use E config t (c, w, l)" "hr_bearer q = Some t"
    and "\<And>x s'. keeps_monitor E config (g x) s'"
  shows "well_monitored E config
    (snd (act_bind (send_and_decode (logged E) send_failed read_failed what decode_failed d q) g (c, w, l)))"
proof -
  obtain x w1 where post: "fe_post E q w = (x, w1)" by (cases "fe_post E q w")
  obtain M now where M: "monitored E config M (c, w, l)" "mn_clock M = Some now" "map_option ct_value (mn_token M) = Some t"
      "mn_fresh M \<or> token_valid_at now (mn_token M)"
    using assms(1) by (auto simp: may_use_def)
  have "monitored E config (M\<lparr>mn_clock := None, mn_fresh := False\<rparr>) (c, w1, l @ [Posted q x])"
    by (rule monitored_extend [OF M(1)]) (use M assms(2) in \<open>auto simp: monitored_def\<close>)
  then have "well_monitored E config (c, w1, l @ [Posted q x])" by (auto simp: well_monitored_def)
  then show ?thesis
    using assms(3) post by (auto simp: act_bind_def send_and_decode_logged related_def split: sum.split)
qed

lemma may_use_uuid: "may_use E config t (c, w, l) \<Longrightarrow> may_use E config t (c, w', l)"
  by (simp add: may_use_def monitored_def)

lemma feishu_uuid_logged: "feishu_uuid (logged E) (c, w, l) = (let (u, w1) = fe_uuid E w in (Inr u, (c, w1, l)))"
  by (simp add: feishu_uuid_def on_world_def split: prod.split)

lemma keeps_if: "(P \<Longrightarrow> related R m s) \<Longrightarrow> (\<not> P \<Longrightarrow> related R m' s) \<Longrightarrow> related R (if P then m else m') s"
  by simp

lemma monitor_lift: "keeps_monitor E config (act_lift r) s"
  by (simp add: related_def act_lift_def)

lemma keeps_send_message: "keeps_monitor E config (send_message_payload (logged E) m ty j) s"
proof -
  have "keeps_monitor E config (act_bind (get_tenant_access_token (logged E)) (\<lambda>t.
      act_bind (feishu_uuid (logged E)) (\<lambda>u.
      act_bind (send_and_decode (logged E) a b x y d (message_request (logged E) config' t u m (str ty) j)) (\<lambda>payload.
      if fs_code payload \<noteq> 0 then act_fail (z payload) else act_ret ())))) s" for a b x y d z config'
  proof (rule keeps_token)
    fix t s' assume use: "may_use E config t s'"
    obtain c w l where s': "s' = (c, w, l)" by (cases s')
    obtain u w1 where u: "fe_uuid E w = (u, w1)" by (cases "fe_uuid E w")
    have "well_monitored E config (snd (act_bind (send_and_decode (logged E) a b x y d
        (message_request (logged E) config' t u m (str ty) j)) (\<lambda>payload.
        if fs_code payload \<noteq> 0 then act_fail (z payload) else act_ret ()) (c, w1, l)))"
      using use unfolding s'
      by (intro authorized_post [OF may_use_uuid] keeps_if monitor.rel_fail monitor.rel_ret)
        (auto simp: message_request_def)
    then show "well_monitored E config (snd (act_bind (feishu_uuid (logged E)) (\<lambda>u.
      act_bind (send_and_decode (logged E) a b x y d (message_request (logged E) config' t u m (str ty) j)) (\<lambda>payload.
      if fs_code payload \<noteq> 0 then act_fail (z payload) else act_ret ())) s'))"
      by (simp add: act_bind_def [of "feishu_uuid (logged E)"] feishu_uuid_logged s' u)
  qed
  then show ?thesis by (simp add: related_def send_message_payload_def)
qed

lemma keeps_read_file:
  "keeps_monitor E config (on_world (act_context m (fe_read_file (logged E) p))) s"
proof -
  obtain c w l where s: "s = (c, w, l)" by (cases s)
  obtain r w1 where "fe_read_file E p w = (r, w1)" by (cases "fe_read_file E p w")
  then show ?thesis
    by (cases r)
      (auto simp: related_def on_world_def act_context_def s well_monitored_def monitored_def monitor_run_append)
qed

lemma keeps_context_lift: "keeps_monitor E config (act_context m (act_lift r)) s"
  by (simp add: related_def act_context_def act_lift_def split: sum.split)

text \<open>A token, one authorized request with it, and something that makes no request.\<close>

lemma keeps_authorized:
  assumes "\<And>t. hr_bearer (q t) = Some t" "\<And>x s'. keeps_monitor E config (g x) s'"
  shows "keeps_monitor E config (act_bind (get_tenant_access_token (logged E)) (\<lambda>t.
           act_bind (send_and_decode (logged E) a b x y d (q t)) g)) s"
proof (rule keeps_token)
  fix t s' assume use: "may_use E config t s'"
  obtain c w l where s': "s' = (c, w, l)" by (cases s')
  show "well_monitored E config (snd (act_bind (send_and_decode (logged E) a b x y d (q t)) g s'))"
    using authorized_post [OF use [unfolded s'] assms(1,2)] by (simp add: s')
qed

lemma keeps_upload: "keeps_monitor E config (upload_image_attachment (logged E) a) s"
  unfolding related_def upload_image_attachment_def Let_def
  by (rule related_def [THEN iffD1])
    (intro monitor.rel_bind keeps_read_file keeps_context_lift keeps_authorized keeps_if monitor.rel_fail monitor_lift;
     simp add: upload_request_def)

lemma keeps_image: "keeps_monitor E config (send_image_attachment (logged E) m a) s"
proof -
  have "keeps_monitor E config (act_bind (act_lift r) (\<lambda>_. act_bind (upload_image_attachment (logged E) a) (\<lambda>k.
      send_message_payload (logged E) m ''image'' (j k)))) s" for r j
    by (intro monitor.rel_bind monitor_lift keeps_upload keeps_send_message)
  then show ?thesis by (auto simp: related_def send_image_attachment_def)
qed

lemma keeps_text: "keeps_monitor E config (send_text_message (logged E) m) s"
proof -
  have "keeps_monitor E config (act_bind (act_lift r) (\<lambda>_. send_message_payload (logged E) m ''text'' j)) s" for r j
    by (intro monitor.rel_bind monitor_lift keeps_send_message)
  then show ?thesis by (auto simp: related_def send_text_message_def)
qed

lemma keeps_reaction: "keeps_monitor E config (add_reaction (logged E) i x) s"
proof -
  have "keeps_monitor E config (act_bind (act_lift r) (\<lambda>_. act_bind (get_tenant_access_token (logged E)) (\<lambda>t.
      act_bind (send_and_decode (logged E) a b y z d (reaction_request config' t i x)) (\<lambda>payload.
      if fs_code payload \<noteq> 0 then act_fail (f payload) else act_ret ())))) s" for r a b y z d config' f
    by (intro monitor.rel_bind monitor_lift keeps_authorized keeps_if monitor.rel_fail monitor.rel_ret)
      (simp add: reaction_request_def)
  then show ?thesis by (auto simp: related_def add_reaction_def)
qed

lemma keeps_attachments: "keeps_monitor E config (send_attachments (logged E) m as) s"
proof (induction as arbitrary: s)
  case Nil
  show ?case by (simp add: monitor.rel_ret)
next
  case (Cons a as)
  then show ?case
    by (cases "oa_kind a") (auto simp: send_attachment_def intro!: monitor.rel_bind keeps_image)
qed

lemma keeps_deliver: "keeps_monitor E config (deliver_outgoing (logged E) m) s"
  unfolding deliver_outgoing_def
  by (intro monitor.rel_bind keeps_attachments keeps_if keeps_text monitor.rel_ret)
    (auto intro!: monitor.rel_ret monitor.rel_try keeps_reaction split: option.split)

lemma well_monitored_loop: "well_monitored E config s \<Longrightarrow> well_monitored E config (outgoing_loop (logged E) ms s)"
proof (induction ms arbitrary: s)
  case (Cons m ms)
  then show ?case using keeps_deliver [of E config m s] by (simp add: related_def)
qed simp

text \<open>
  C33: whatever messages the delivery loop of a new channel delivers, and whatever the network answers, the monitor of
  the tenant token accepts its log: every authorized request carries the token that was issued last, and at the reading
  of the clock before it the token had not expired or was refreshed; a token is requested only when there is none or the
  last one has expired by the clock, 300 seconds before the announced end of its life.
\<close>
theorem feishu_token_is_current:
  "\<exists>c w' l M. outgoing_loop (logged E) ms (feishu_channel_new config, w, []) = (c, w', l)
     \<and> monitor_run E config l token_monitor_new = Some M \<and> mn_token M = fn_cached_token c"
proof -
  have "well_monitored E config (feishu_channel_new config, w, [])"
    by (auto simp: well_monitored_def monitored_def feishu_channel_new_def token_monitor_new_def)
  then have "well_monitored E config (outgoing_loop (logged E) ms (feishu_channel_new config, w, []))"
    by (rule well_monitored_loop)
  then show ?thesis
    by (cases "outgoing_loop (logged E) ms (feishu_channel_new config, w, [])") (auto simp: well_monitored_def monitored_def)
qed

section \<open>What a delivery sends\<close>

text \<open>
  The bytes a file was read with; an upload with its file name, media type and bytes; the key that the answer to an upload
  gives; a message with its target, its type and its content. Other requests are not shown.
\<close>

datatype delivery_event =
    FileBytes rstring "nat list"
  | Uploading rstring "rstring option" "nat list"
  | Answered rstring
  | Sent reply_target rstring rstring

definition uploaded_key :: "'w feishu_env \<Rightarrow> err + http_response \<Rightarrow> rstring option" where
  "uploaded_key E answer =
     (case answer of
        Inl _ \<Rightarrow> None
      | Inr response \<Rightarrow>
          if \<not> is_success response then None
          else (case hs_body response of
                  Inl _ \<Rightarrow> None
                | Inr body \<Rightarrow>
                    (case from_json_text E image_upload_response_from_json body of
                       Inl _ \<Rightarrow> None
                     | Inr payload \<Rightarrow>
                         if iu_code payload \<noteq> 0 then None
                         else (case image_key_of payload of Inl _ \<Rightarrow> None | Inr key \<Rightarrow> Some key))))"

fun delivery_view_of :: "'w feishu_env \<Rightarrow> net_entry \<Rightarrow> delivery_event list" where
  "delivery_view_of E (ClockRead _) = []"
| "delivery_view_of E (FileRead path bytes) = (case bytes of Inl _ \<Rightarrow> [] | Inr b \<Rightarrow> [FileBytes path b])"
| "delivery_view_of E (Posted q answer) =
     (case hr_body q of
        MultipartBody _ (_, file_name, mime_type, bytes) \<Rightarrow>
          Uploading file_name mime_type bytes # (case uploaded_key E answer of None \<Rightarrow> [] | Some key \<Rightarrow> [Answered key])
      | JsonBody j \<Rightarrow>
          (case (as_str (jget j (str ''receive_id'')), map_of (hr_query q) (str ''receive_id_type''),
                 as_str (jget j (str ''msg_type'')), as_str (jget j (str ''content''))) of
             (Some receiver, Some receiver_type, Some ty, Some content) \<Rightarrow>
               [Sent \<lparr>rt_receive_id = receiver, rt_receive_id_type = receiver_type\<rparr> ty content]
           | _ \<Rightarrow> []))"

definition delivery_view :: "'w feishu_env \<Rightarrow> net_entry list \<Rightarrow> delivery_event list" where
  "delivery_view E l = concat (map (delivery_view_of E) l)"

lemma delivery_view_simps [simp]:
  "delivery_view E [] = []" "delivery_view E (a @ b) = delivery_view E a @ delivery_view E b"
  "delivery_view E (e # l) = delivery_view_of E e @ delivery_view E l"
  by (simp_all add: delivery_view_def)

lemma view_of_requests [simp]:
  "delivery_view_of E (Posted (token_request config) x) = []"
  "delivery_view_of E (Posted (message_request E' config t u m ty j) x) = [Sent (om_target m) ty (fe_json_text E' j)]"
  "delivery_view_of E (Posted (upload_request config t name mime bytes) x)
     = Uploading name mime bytes # (case uploaded_key E x of None \<Rightarrow> [] | Some key \<Rightarrow> [Answered key])"
  "delivery_view_of E (Posted (reaction_request config t i e) x) = []"
  by (simp_all add: token_request_def message_request_def upload_request_def reaction_request_def)

declare delivery_view_of.simps(3) [simp del]

text \<open>An action that keeps the configuration and extends the log so that the view satisfies a condition on the result.\<close>

definition shows_view ::
    "'w feishu_env \<Rightarrow> (err + 'a \<Rightarrow> delivery_event list \<Rightarrow> bool) \<Rightarrow> ('w feishu_log_state, 'a) act \<Rightarrow> 'w feishu_log_state \<Rightarrow> bool" where
  "shows_view E P m s =
     (case s of (c, w, l) \<Rightarrow> (case m s of (r, (c', w', l')) \<Rightarrow>
        \<exists>extra. fn_config c' = fn_config c \<and> l' = l @ extra \<and> P r (delivery_view E extra)))"

lemma shows_viewI:
  "(\<And>c w l. s = (c, w, l) \<Longrightarrow> \<exists>r c' w' extra. m s = (r, (c', w', l @ extra)) \<and> fn_config c' = fn_config c
     \<and> P r (delivery_view E extra)) \<Longrightarrow> shows_view E P m s"
  by (cases s) (fastforce simp: shows_view_def)

lemma shows_viewD:
  assumes "shows_view E P m (c, w, l)"
  obtains r c' w' extra where "m (c, w, l) = (r, (c', w', l @ extra))" "fn_config c' = fn_config c" "P r (delivery_view E extra)"
  using assms by (auto simp: shows_view_def split: prod.splits)

lemma shows_view_weaken: "shows_view E P m s \<Longrightarrow> (\<And>r v. P r v \<Longrightarrow> Q r v) \<Longrightarrow> shows_view E Q m s"
  by (auto simp: shows_view_def split: prod.splits)

lemma shows_view_bind:
  assumes "shows_view E P m s" and "\<And>x s'. fn_config (fst s') = fn_config (fst s) \<Longrightarrow> shows_view E (Q x) (f x) s'"
    and "\<And>e v. P (Inl e) v \<Longrightarrow> R (Inl e) v" and "\<And>x r a b. P (Inr x) a \<Longrightarrow> Q x r b \<Longrightarrow> R r (a @ b)"
  shows "shows_view E R (act_bind m f) s"
proof (rule shows_viewI)
  fix c w l assume s: "s = (c, w, l)"
  obtain r c' w' extra where m: "m s = (r, (c', w', l @ extra))" "fn_config c' = fn_config c" "P r (delivery_view E extra)"
    using shows_viewD [OF assms(1) [unfolded s]] s by metis
  show "\<exists>r c' w' extra. act_bind m f s = (r, (c', w', l @ extra)) \<and> fn_config c' = fn_config c \<and> R r (delivery_view E extra)"
  proof (cases r)
    case (Inl e)
    then show ?thesis using m assms(3) by (auto simp: act_bind_def)
  next
    case (Inr x)
    have "shows_view E (Q x) (f x) (c', w', l @ extra)" by (rule assms(2)) (simp add: m(2) s)
    then show ?thesis
      using m Inr assms(4) [of x "delivery_view E extra"] by (elim shows_viewD) (fastforce simp: act_bind_def)
  qed
qed

definition outcome_view :: "delivery_event list \<Rightarrow> err + 'a \<Rightarrow> delivery_event list \<Rightarrow> bool" where
  "outcome_view events r v \<longleftrightarrow> prefix v events \<and> (\<forall>x. r = Inr x \<longrightarrow> v = events)"

abbreviation shows_events :: "'w feishu_env \<Rightarrow> delivery_event list \<Rightarrow> ('w feishu_log_state, 'a) act \<Rightarrow> 'w feishu_log_state \<Rightarrow> bool" where
  "shows_events E events \<equiv> shows_view E (outcome_view events)"

lemma shows_events_bind:
  "shows_events E a m s \<Longrightarrow> (\<And>x s'. fn_config (fst s') = fn_config (fst s) \<Longrightarrow> shows_events E b (f x) s')
     \<Longrightarrow> shows_events E (a @ b) (act_bind m f) s"
  by (rule shows_view_bind [where P = "outcome_view a" and Q = "\<lambda>_. outcome_view b"])
    (auto simp: outcome_view_def intro: prefix_prefix)

lemma shows_after_nothing:
  "shows_events E [] m s \<Longrightarrow> (\<And>x s'. fn_config (fst s') = fn_config (fst s) \<Longrightarrow> shows_view E Q (f x) s')
     \<Longrightarrow> (\<And>e. Q (Inl e) []) \<Longrightarrow> shows_view E Q (act_bind m f) s"
  by (rule shows_view_bind [where P = "outcome_view []" and Q = "\<lambda>_. Q"]) (auto simp: outcome_view_def)

lemma shows_nothing_bind:
  "shows_events E [] m s \<Longrightarrow> (\<And>x s'. fn_config (fst s') = fn_config (fst s) \<Longrightarrow> shows_events E b (f x) s')
     \<Longrightarrow> shows_events E b (act_bind m f) s"
  by (rule shows_after_nothing) (auto simp: outcome_view_def)

lemma shows_ret: "shows_events E [] (act_ret x) s" "shows_events E b (act_fail e) s"
  by (rule shows_viewI; fastforce simp: act_ret_def act_fail_def outcome_view_def intro: exI [of _ "[]"])+

lemma shows_if: "(P \<Longrightarrow> shows_view E Q m s) \<Longrightarrow> (\<not> P \<Longrightarrow> shows_view E Q m' s) \<Longrightarrow> shows_view E Q (if P then m else m') s"
  by simp

lemma shows_lift: "shows_events E [] (act_lift r) s"
  by (rule shows_viewI) (fastforce simp: act_lift_def outcome_view_def intro: exI [of _ "[]"])

lemma shows_post:
  assumes "\<And>x. delivery_view_of E (Posted q x) = events"
  shows "shows_events E events (send_and_decode (logged E) a b y z d q) s"
proof (rule shows_viewI)
  fix c w l assume s: "s = (c, w, l)"
  obtain r w1 where "fe_post E q w = (r, w1)" by (cases "fe_post E q w")
  then show "\<exists>r c' w' extra. send_and_decode (logged E) a b y z d q s = (r, (c', w', l @ extra))
      \<and> fn_config c' = fn_config c \<and> outcome_view events r (delivery_view E extra)"
    by (cases r) (auto simp: s send_and_decode_logged outcome_view_def assms)
qed

lemma shows_token: "shows_events E [] (get_tenant_access_token (logged E)) s"
proof (rule shows_viewI)
  fix c w l assume s: "s = (c, w, l)"
  obtain now w1 where now: "fe_now E w = (now, w1)" by (cases "fe_now E w")
  obtain x w2 where post: "fe_post E (token_request (fn_config c)) w1 = (x, w2)"
    by (cases "fe_post E (token_request (fn_config c)) w1")
  have "\<exists>r c' w' extra. refresh_token (logged E) now (c, w1, l @ [ClockRead now]) = (r, (c', w', l @ extra))
      \<and> fn_config c' = fn_config c \<and> delivery_view E extra = []"
    by (cases x) (auto simp: refresh_token_logged Let_def post split: option.split)
  then show "\<exists>r c' w' extra. get_tenant_access_token (logged E) s = (r, (c', w', l @ extra))
      \<and> fn_config c' = fn_config c \<and> outcome_view [] r (delivery_view E extra)"
    by (auto simp: get_tenant_access_token_def feishu_now_def on_world_def act_bind_def now s outcome_view_def
        split: option.split)
qed

lemma shows_uuid: "shows_events E [] (feishu_uuid (logged E)) s"
  by (rule shows_viewI) (auto simp: feishu_uuid_logged outcome_view_def split: prod.split)

lemma shows_read_file:
  "shows_view E (\<lambda>r v. v = (case r of Inl _ \<Rightarrow> [] | Inr bytes \<Rightarrow> [FileBytes p bytes]))
     (on_world (act_context m (fe_read_file (logged E) p))) s"
proof (rule shows_viewI)
  fix c w l assume s: "s = (c, w, l)"
  obtain r w1 where "fe_read_file E p w = (r, w1)" by (cases "fe_read_file E p w")
  then show "\<exists>r c' w' extra. on_world (act_context m (fe_read_file (logged E) p)) s = (r, (c', w', l @ extra))
      \<and> fn_config c' = fn_config c \<and> delivery_view E extra = (case r of Inl _ \<Rightarrow> [] | Inr bytes \<Rightarrow> [FileBytes p bytes])"
    by (cases r) (auto simp: on_world_def act_context_def s)
qed

lemma shows_context_lift: "shows_events E [] (act_context m (act_lift r)) s"
  by (rule shows_viewI) (auto simp: act_context_def act_lift_def outcome_view_def split: sum.split)

lemma shows_send_message:
  "shows_events E [Sent (om_target m) (str ty) (fe_json_text E j)] (send_message_payload (logged E) m ty j) s"
proof -
  have "shows_events E [Sent (om_target m) (str ty) (fe_json_text E j)]
    (act_bind (get_tenant_access_token (logged E)) (\<lambda>t. act_bind (feishu_uuid (logged E)) (\<lambda>u.
     act_bind (send_and_decode (logged E) a b x y d (message_request (logged E) config t u m (str ty) j)) (\<lambda>payload.
     if fs_code payload \<noteq> 0 then act_fail (z payload) else act_ret ())))) s" for a b x y d z config
  proof (intro shows_nothing_bind [OF shows_token] shows_nothing_bind [OF shows_uuid])
    fix t u and s' :: "'a feishu_log_state"
    have "shows_events E ([Sent (om_target m) (str ty) (fe_json_text E j)] @ [])
      (act_bind (send_and_decode (logged E) a b x y d (message_request E config t u m (str ty) j)) (\<lambda>payload.
       if fs_code payload \<noteq> 0 then act_fail (z payload) else act_ret ())) s'"
      by (intro shows_events_bind shows_post shows_if shows_ret) simp
    then show "shows_events E [Sent (om_target m) (str ty) (fe_json_text E j)]
      (act_bind (send_and_decode (logged E) a b x y d (message_request (logged E) config t u m (str ty) j)) (\<lambda>payload.
       if fs_code payload \<noteq> 0 then act_fail (z payload) else act_ret ())) s'" by simp
  qed
  then show ?thesis by (simp add: shows_view_def send_message_payload_def)
qed

definition attachment_file_name :: "outgoing_attachment \<Rightarrow> rstring" where
  "attachment_file_name a = (case path_file_name (oa_path a) of Some name \<Rightarrow> name | None \<Rightarrow> str ''openjarvis-image'')"

text \<open>What an upload shows: the bytes of the file, the upload of exactly these, and the key it was answered.\<close>

definition upload_events :: "outgoing_attachment \<Rightarrow> nat list \<Rightarrow> rstring \<Rightarrow> delivery_event list" where
  "upload_events a bytes key =
     [FileBytes (oa_path a) bytes, Uploading (attachment_file_name a) (resolve_image_mime_type a) bytes, Answered key]"

definition upload_view :: "outgoing_attachment \<Rightarrow> err + rstring \<Rightarrow> delivery_event list \<Rightarrow> bool" where
  "upload_view a r v \<longleftrightarrow>
     (\<exists>bytes key. trim key \<noteq> [] \<and> prefix v (upload_events a bytes key)
        \<and> (\<forall>k. r = Inr k \<longrightarrow> k = key \<and> v = upload_events a bytes key))"

lemma upload_view_early: "prefix v [FileBytes (oa_path a) bytes] \<Longrightarrow> upload_view a (Inl e) v"
  unfolding upload_view_def
  by (rule exI [of _ bytes], rule exI [of _ "[65]"])
    (auto simp: upload_events_def trim_eq_Nil_iff is_whitespace_def intro: prefix_order.trans)

lemma upload_view_rest:
  assumes "case r of Inl _ \<Rightarrow> prefix v [Uploading (attachment_file_name a) (resolve_image_mime_type a) bytes]
    | Inr key \<Rightarrow> trim key \<noteq> [] \<and> v = [Uploading (attachment_file_name a) (resolve_image_mime_type a) bytes, Answered key]"
  shows "upload_view a r (FileBytes (oa_path a) bytes # v)"
proof (cases r)
  case (Inl e)
  then have "prefix (FileBytes (oa_path a) bytes # v) (upload_events a bytes [65])"
    using assms by (auto simp: upload_events_def prefix_Cons)
  then show ?thesis unfolding upload_view_def Inl
    by (intro exI [of _ bytes] exI [of _ "[65]"]) (simp add: trim_eq_Nil_iff is_whitespace_def)
next
  case (Inr key)
  then show ?thesis using assms unfolding upload_view_def
    by (intro exI [of _ bytes] exI [of _ key]) (simp add: upload_events_def)
qed

lemma shows_upload: "shows_view E (upload_view a) (upload_image_attachment (logged E) a) s"
proof -
  let ?name = "attachment_file_name a" and ?mime = "resolve_image_mime_type a"
  let ?Q = "\<lambda>bytes r v. case r of Inl _ \<Rightarrow> prefix v [Uploading ?name ?mime bytes]
      | Inr key \<Rightarrow> trim key \<noteq> [] \<and> v = [Uploading ?name ?mime bytes, Answered key]"
  have post: "shows_view E (?Q bytes) (act_bind (send_and_decode (logged E) b x y z image_upload_response_from_json
        (upload_request config t ?name ?mime bytes))
      (\<lambda>p. if iu_code p \<noteq> 0 then act_fail (q p) else act_lift (image_key_of p))) s'"
    for b x y z config t bytes q and s' :: "'a feishu_log_state"
  proof (rule shows_viewI)
    fix c w l assume s': "s' = (c, w, l)"
    let ?q = "upload_request config t ?name ?mime bytes"
    obtain x1 w1 where "fe_post E ?q w = (x1, w1)" by (cases "fe_post E ?q w")
    moreover have "trim key \<noteq> []" if "image_key_of p = Inr key" for p key
      using that by (auto simp: image_key_of_def split: option.splits if_splits)
    ultimately show "\<exists>r c' w' extra. act_bind (send_and_decode (logged E) b x y z image_upload_response_from_json ?q)
        (\<lambda>p. if iu_code p \<noteq> 0 then act_fail (q p) else act_lift (image_key_of p)) s' = (r, (c', w', l @ extra))
        \<and> fn_config c' = fn_config c \<and> ?Q bytes r (delivery_view E extra)"
      by (auto simp: s' act_bind_def send_and_decode_logged decode_answer_of_def uploaded_key_def act_fail_def act_lift_def
          split: sum.split)
  qed
  have early: "?Q bytes (Inl e) []" for bytes e by simp
  have rest: "shows_view E (?Q bytes) (act_bind (act_context e2 (act_lift x1)) (\<lambda>_. act_bind (get_tenant_access_token (logged E))
      (\<lambda>t. act_bind (send_and_decode (logged E) b x y z image_upload_response_from_json (upload_request config t ?name ?mime bytes))
      (\<lambda>p. if iu_code p \<noteq> 0 then act_fail (q p) else act_lift (image_key_of p))))) s'"
    for bytes e2 x1 b x y z config q and s' :: "'a feishu_log_state"
    by (intro shows_after_nothing [OF shows_context_lift] shows_after_nothing [OF shows_token] post early)
  have "shows_view E (upload_view a) (act_bind (on_world (act_context e1 (fe_read_file (logged E) (oa_path a)))) (\<lambda>bytes.
      act_bind (act_context e2 (act_lift x1)) (\<lambda>_. act_bind (get_tenant_access_token (logged E)) (\<lambda>t.
      act_bind (send_and_decode (logged E) b x y z image_upload_response_from_json (upload_request config t ?name ?mime bytes))
      (\<lambda>p. if iu_code p \<noteq> 0 then act_fail (q p) else act_lift (image_key_of p)))))) s" for e1 e2 x1 b x y z config q
    by (rule shows_view_bind [OF shows_read_file rest]) (auto intro: upload_view_early upload_view_rest)
  then show ?thesis by (simp add: shows_view_def upload_image_attachment_def attachment_file_name_def Let_def)
qed

text \<open>What a delivery shows, given the bytes of the files and the keys that the uploads answered.\<close>

definition image_events ::
    "'w feishu_env \<Rightarrow> outgoing_message \<Rightarrow> outgoing_attachment \<Rightarrow> nat list \<times> rstring \<Rightarrow> delivery_event list" where
  "image_events E m a = (\<lambda>(bytes, key). upload_events a bytes key @
     [Sent (om_target m) (str ''image'') (fe_json_text E (JObj [(str ''image_key'', JStr key)]))])"

definition text_events :: "'w feishu_env \<Rightarrow> outgoing_message \<Rightarrow> delivery_event list" where
  "text_events E m =
     (if trim (om_content m) = [] then []
      else [Sent (om_target m) (str ''text'') (fe_json_text E (JObj [(str ''text'', JStr (om_content m))]))])"

definition delivery_events ::
    "'w feishu_env \<Rightarrow> outgoing_message \<Rightarrow> (nat list \<times> rstring) list \<Rightarrow> delivery_event list" where
  "delivery_events E m images = text_events E m @ concat (map2 (image_events E m) (om_attachments m) images)"

abbreviation keys_shown :: "(nat list \<times> rstring) list \<Rightarrow> bool" where
  "keys_shown images \<equiv> \<forall>(bytes, key) \<in> set images. trim key \<noteq> []"

lemma shows_text:
  assumes "\<not> fc_dry_run (fn_config (fst s))"
  shows "shows_events E [Sent (om_target m) (str ''text'')
           (fe_json_text E (JObj [(str ''text'', JStr (om_content m))]))] (send_text_message (logged E) m) s"
proof -
  have "shows_events E [Sent (om_target m) (str ''text'')
      (fe_json_text E (JObj [(str ''text'', JStr (om_content m))]))]
    (act_bind (act_lift r) (\<lambda>_. send_message_payload (logged E) m ''text'' (JObj [(str ''text'', JStr (om_content m))]))) s"
    for r :: "err + unit"
    by (intro shows_nothing_bind [OF shows_lift] shows_send_message)
  with assms show ?thesis by (simp add: shows_view_def send_text_message_def)
qed

lemma shows_image:
  assumes "\<not> fc_dry_run (fn_config (fst s))"
  shows "shows_view E (\<lambda>r v. \<exists>image. trim (snd image) \<noteq> [] \<and> outcome_view (image_events E m a image) r v)
           (send_image_attachment (logged E) m a) s"
proof -
  let ?P = "\<lambda>r v. \<exists>image. trim (snd image) \<noteq> [] \<and> outcome_view (image_events E m a image) r v"
  have early: "?P (Inl e :: err + unit) v" if "upload_view a (Inl e) v" for e v
    using that by (auto simp: upload_view_def outcome_view_def image_events_def intro: prefix_prefix)
  have sent: "?P r (v @ v')" if upload: "upload_view a (Inr key) v"
      and message: "outcome_view [Sent (om_target m) (str ''image'') (fe_json_text E (JObj [(str ''image_key'', JStr key)]))] r v'"
    for key v v' and r :: "err + unit"
  proof -
    from upload obtain bytes where "trim key \<noteq> []" "v = upload_events a bytes key"
      by (auto simp: upload_view_def outcome_view_def)
    with message show ?thesis
      by (intro exI [of _ "(bytes, key)"]) (auto simp: outcome_view_def image_events_def prefix_Cons)
  qed
  have "shows_view E ?P (act_bind (upload_image_attachment (logged E) a) (\<lambda>key.
      send_message_payload (logged E) m ''image'' (JObj [(str ''image_key'', JStr key)]))) s'" for s'
    by (rule shows_view_bind [OF shows_upload, where Q = "\<lambda>key. outcome_view [Sent (om_target m) (str ''image'')
          (fe_json_text E (JObj [(str ''image_key'', JStr key)]))]"])
      (rule shows_send_message early sent, assumption?)+
  moreover have "?P (Inl e :: err + unit) []" for e
    by (rule early, rule upload_view_early [of "[]" a "[]"]) simp
  ultimately have "shows_view E ?P (act_bind (act_lift r) (\<lambda>_. act_bind (upload_image_attachment (logged E) a) (\<lambda>key.
      send_message_payload (logged E) m ''image'' (JObj [(str ''image_key'', JStr key)])))) s" for r :: "err + unit"
    by (intro shows_after_nothing [OF shows_lift])
  with assms show ?thesis by (simp add: shows_view_def send_image_attachment_def)
qed

lemma shows_attachments:
  assumes "\<not> fc_dry_run (fn_config (fst s))"
  shows "shows_view E (\<lambda>r v. \<exists>images. length images = length as \<and> keys_shown images
           \<and> outcome_view (concat (map2 (image_events E m) as images)) r v) (send_attachments (logged E) m as) s"
  using assms
proof (induction as arbitrary: s)
  case Nil
  then show ?case by (auto intro: shows_ret)
next
  case (Cons a as)
  have ex: "\<exists>images. length images = n \<and> keys_shown images" for n
    by (rule exI [of _ "replicate n ([], [65])"]) (simp add: trim_eq_Nil_iff is_whitespace_def)
  have image: "send_attachment (logged E) m a = send_image_attachment (logged E) m a"
    by (cases "oa_kind a") (simp add: send_attachment_def)
  show ?case unfolding send_attachments.simps image
  proof (rule shows_view_bind [OF shows_image [OF Cons.prems] Cons.IH])
    fix s' :: "'a feishu_log_state" and e and v
    assume "\<exists>image. trim (snd image) \<noteq> [] \<and> outcome_view (image_events E m a image) (Inl e :: err + unit) v"
    then obtain image images where "trim (snd image) \<noteq> []" "prefix v (image_events E m a image)"
        "length images = length as" "keys_shown images"
      using ex [of "length as"] by (auto simp: outcome_view_def)
    then show "\<exists>images. length images = length (a # as) \<and> keys_shown images
        \<and> outcome_view (concat (map2 (image_events E m) (a # as) images)) (Inl e :: err + unit) v"
      by (intro exI [of _ "image # images"]) (auto simp: outcome_view_def)
  next
    fix x and r :: "err + unit" and v v'
    assume "\<exists>image. trim (snd image) \<noteq> [] \<and> outcome_view (image_events E m a image) (Inr x :: err + unit) v"
      and "\<exists>images. length images = length as \<and> keys_shown images
        \<and> outcome_view (concat (map2 (image_events E m) as images)) r v'"
    then obtain image images where "trim (snd image) \<noteq> []" "v = image_events E m a image" "length images = length as"
        "keys_shown images" "outcome_view (concat (map2 (image_events E m) as images)) r v'"
      by (auto simp: outcome_view_def)
    then show "\<exists>images. length images = length (a # as) \<and> keys_shown images
        \<and> outcome_view (concat (map2 (image_events E m) (a # as) images)) r (v @ v')"
      by (intro exI [of _ "image # images"]) (auto simp: outcome_view_def)
  qed (use Cons.prems in simp)
qed

lemma shows_silent_ret: "shows_view E (\<lambda>_ v. v = []) (act_ret x) s"
  by (rule shows_view_weaken [OF shows_ret(1)]) (auto simp: outcome_view_def)

lemma shows_reaction: "shows_view E (\<lambda>_ v. v = []) (act_try (add_reaction (logged E) i x) (\<lambda>_. act_ret ())) s"
proof -
  have ret: "shows_events E [] (\<lambda>s'. (Inr (), s')) s"
    by (rule shows_viewI) (fastforce simp: outcome_view_def intro: exI [of _ "[]"])
  have "shows_events E [] (act_bind (act_lift r) (\<lambda>_. act_bind (get_tenant_access_token (logged E)) (\<lambda>t.
      act_bind (send_and_decode (logged E) a b y z d (reaction_request config t i x)) (\<lambda>payload.
      if fs_code payload \<noteq> 0 then act_fail (f payload) else act_ret ())))) s"
    for r :: "err + unit" and a b y z d config f
  proof (intro shows_nothing_bind [OF shows_lift] shows_nothing_bind [OF shows_token] shows_nothing_bind shows_if shows_ret)
    fix t and s' :: "'a feishu_log_state"
    show "shows_events E [] (send_and_decode (logged E) a b y z d (reaction_request config t i x)) s'"
      by (rule shows_post) simp
  qed
  then have "shows_events E [] (add_reaction (logged E) i x) s"
    using ret by (cases "fc_dry_run (fn_config (fst s))") (simp_all add: shows_view_def add_reaction_def)
  then show ?thesis
    by (auto simp: shows_view_def act_try_def act_ret_def outcome_view_def split: prod.splits)
qed

lemma deliver_outgoing_view:
  assumes "\<not> fc_dry_run (fn_config c)"
  shows "\<exists>r c' w' extra images. deliver_outgoing (logged E) m (c, w, l) = (r, (c', w', l @ extra))
     \<and> length images = length (om_attachments m) \<and> keys_shown images
     \<and> prefix (delivery_view E extra) (delivery_events E m images)
     \<and> (r = Inr () \<longrightarrow> delivery_view E extra = delivery_events E m images)"
proof -
  let ?live = "\<lambda>s. \<not> fc_dry_run (fn_config (fst s))"
  let ?P = "\<lambda>r v. \<exists>images. length images = length (om_attachments m) \<and> keys_shown images
      \<and> outcome_view (concat (map2 (image_events E m) (om_attachments m) images)) r v"
  let ?Q = "\<lambda>r v. \<exists>images. length images = length (om_attachments m) \<and> keys_shown images
      \<and> outcome_view (delivery_events E m images) r v"
  have ex: "\<exists>images. length images = length (om_attachments m) \<and> keys_shown images"
    by (rule exI [of _ "replicate (length (om_attachments m)) ([], [65])"]) (simp add: trim_eq_Nil_iff is_whitespace_def)
  have content: "shows_events E (text_events E m) (if trim (om_content m) \<noteq> [] then send_text_message (logged E) m else act_ret ()) s"
    if "?live s" for s using shows_text [OF that] by (simp add: text_events_def shows_ret)
  have rest: "shows_view E ?Q (act_bind (if trim (om_content m) \<noteq> [] then send_text_message (logged E) m else act_ret ())
      (\<lambda>_. send_attachments (logged E) m (om_attachments m))) s" if "?live s" for s
    by (rule shows_view_bind [OF content [OF that], where Q = "\<lambda>_. ?P"], rule shows_attachments)
      (use that ex in \<open>auto simp: outcome_view_def delivery_events_def\<close>)
  have first: "shows_view E (\<lambda>_ v. v = []) (case om_reply_to_message_id m of None \<Rightarrow> act_ret ()
      | Some i \<Rightarrow> act_try (add_reaction (logged E) i FEISHU_DEBUG_REACTION_EMOJI_TYPE) (\<lambda>_. act_ret ())) s" for s
    by (cases "om_reply_to_message_id m") (simp_all add: shows_reaction shows_silent_ret)
  have "shows_view E ?Q (deliver_outgoing (logged E) m) (c, w, l)"
    unfolding deliver_outgoing_def
    by (rule shows_view_bind [OF first, where Q = "\<lambda>_. ?Q"]) (use assms rest ex in \<open>auto simp: outcome_view_def\<close>)
  then show ?thesis by (auto simp: shows_view_def outcome_view_def split: prod.splits)
qed

text \<open>
  C34: a delivery that is not a dry run sends the text first, if it is not blank, and then takes the images in the order of
  the attachments: it reads the file at the path of the attachment, uploads exactly the bytes it read under the name of the
  file, and sends the key that this upload answered, which is not blank, all to the target of the message. What it did when
  it fails is a first part of that, and all of it when it succeeds, whether or not the reaction before it worked.
\<close>
theorem feishu_delivers_in_order:
  assumes "\<not> fc_dry_run (fn_config c)"
  shows "\<exists>r c' w' extra images. deliver_outgoing (logged E) m (c, w, l) = (r, (c', w', l @ extra))
     \<and> length images = length (om_attachments m) \<and> keys_shown images
     \<and> prefix (delivery_view E extra) (delivery_events E m images)
     \<and> (r = Inr () \<longrightarrow> delivery_view E extra = delivery_events E m images)"
  using assms by (rule deliver_outgoing_view)

section \<open>An environment for examples\<close>

text \<open>
  A clock that stands still and a server that answers every token, upload and message request; JSON text is the rendering
  of a single value for each of the three answers.
\<close>

definition demo_token_answer :: json where
  "demo_token_answer = JObj [(str ''code'', JInt 0), (str ''msg'', JStr (str ''success'')),
     (str ''tenant_access_token'', JStr (str ''tenant_token'')), (str ''expire'', JInt 7200)]"

definition demo_image_answer :: json where
  "demo_image_answer = JObj [(str ''code'', JInt 0), (str ''msg'', JStr (str ''success'')),
     (str ''data'', JObj [(str ''image_key'', JStr (str ''img_uploaded''))])]"

definition demo_message_answer :: json where
  "demo_message_answer = JObj [(str ''code'', JInt 0), (str ''msg'', JStr (str ''success''))]"

definition demo_feishu_answer :: "http_request \<Rightarrow> rstring" where
  "demo_feishu_answer q =
     (case hr_body q of
        MultipartBody _ _ \<Rightarrow> [12]
      | JsonBody j \<Rightarrow> (if jget j (str ''app_id'') = JNull then [13] else [11]))"

definition demo_feishu_env :: "nat feishu_env" where
  "demo_feishu_env =
     \<lparr>fe_post = (\<lambda>q w. (Inr \<lparr>hs_status = 200, hs_body = Inr (demo_feishu_answer q)\<rparr>, w + 1)),
      fe_now = (\<lambda>w. (0, w)), fe_uuid = (\<lambda>w. (w, w + 1)), fe_uuid_text = (\<lambda>u. [u]), fe_read_file = (\<lambda>_. act_ret [1, 2, 3]),
      fe_path_exists = (\<lambda>_ _. True), fe_mime = (\<lambda>_. Inr ()), fe_spawn = (\<lambda>_ _ _. act_ret True),
      fe_status_text = nat_str,
      fe_json_parse = (\<lambda>s. if s = [11] then Inr demo_token_answer else if s = [12] then Inr demo_image_answer
                           else if s = [13] then Inr demo_message_answer else Inl (bail (str ''expected value''))),
      fe_json_text = (\<lambda>j. (case jget j (str ''text'') of JStr t \<Rightarrow> t | _ \<Rightarrow> (case jget j (str ''image_key'') of JStr t \<Rightarrow> t | _ \<Rightarrow> []))),
      fe_decode_error = (\<lambda>_. bail (str ''missing field''))\<rparr>"

definition demo_feishu_config :: feishu_config where
  "demo_feishu_config =
     feishu_config_default\<lparr>fc_app_id := str ''app'', fc_app_secret := str ''secret'', fc_dry_run := False\<rparr>"

definition demo_attachment :: outgoing_attachment where
  "demo_attachment = \<lparr>oa_kind = Image, oa_path = str ''/tmp/a.PNG'', oa_mime_type = None\<rparr>"

definition demo_target :: reply_target where
  "demo_target = \<lparr>rt_receive_id = str ''oc_1'', rt_receive_id_type = str ''chat_id''\<rparr>"

definition demo_feishu_message :: outgoing_message where
  "demo_feishu_message =
     \<lparr>om_id = 0, om_channel = str ''feishu'', om_content = str ''hello'', om_external_thread_id = Some (str ''oc_1''),
      om_metadata = JNull, om_reply_to_message_id = Some (str ''om_1''),
      om_attachments = [\<lparr>oa_kind = Image, oa_path = str ''/tmp/a.PNG'', oa_mime_type = None\<rparr>],
      om_target = \<lparr>rt_receive_id = str ''oc_1'', rt_receive_id_type = str ''chat_id''\<rparr>\<rparr>"

lemma demo_answers [simp]:
  "from_json_text demo_feishu_env token_response_from_json [11]
     = Inr \<lparr>ta_code = 0, ta_msg = str ''success'', ta_tenant_access_token = str ''tenant_token'', ta_expire = 7200\<rparr>"
  "from_json_text demo_feishu_env image_upload_response_from_json [12]
     = Inr \<lparr>iu_code = 0, iu_msg = str ''success'', iu_data = Some (str ''img_uploaded'')\<rparr>"
  "from_json_text demo_feishu_env send_response_from_json [13] = Inr \<lparr>fs_code = 0, fs_msg = str ''success''\<rparr>"
  by (simp_all add: from_json_text_def demo_feishu_env_def demo_token_answer_def demo_image_answer_def demo_message_answer_def
      token_response_from_json_def image_upload_response_from_json_def send_response_from_json_def known_fields_def
      field_req_def field_opt_def dec_opt_def image_data_from_json_def)

lemma demo_posts [simp]:
  "fe_post demo_feishu_env (token_request config) w = (Inr \<lparr>hs_status = 200, hs_body = Inr [11]\<rparr>, w + 1)"
  "fe_post demo_feishu_env (upload_request config t name mime bytes) w = (Inr \<lparr>hs_status = 200, hs_body = Inr [12]\<rparr>, w + 1)"
  "fe_post demo_feishu_env (reaction_request config t i e) w = (Inr \<lparr>hs_status = 200, hs_body = Inr [13]\<rparr>, w + 1)"
  "fe_post demo_feishu_env (message_request E config t u m ty j) w = (Inr \<lparr>hs_status = 200, hs_body = Inr [13]\<rparr>, w + 1)"
  by (simp_all add: demo_feishu_env_def demo_feishu_answer_def token_request_def upload_request_def reaction_request_def
      message_request_def)

lemma demo_words:
  "trim (str ''hello'') = str ''hello''" "trim (str ''app'') = str ''app''" "trim (str ''secret'') = str ''secret''"
  "trim (str ''img_uploaded'') = str ''img_uploaded''"
  by (rule trim_word; simp add: str_def is_whitespace_def)+

lemma demo_pure [simp]:
  "fe_now demo_feishu_env w = (0, w)" "fe_uuid demo_feishu_env w = (w, w + 1)"
  "fe_read_file demo_feishu_env p = act_ret [1, 2, 3]" "fe_mime demo_feishu_env m = Inr ()"
  by (simp_all add: demo_feishu_env_def)

definition demo_token :: cached_tenant_token where
  "demo_token = \<lparr>ct_value = str ''tenant_token'', ct_expires_at = nanoseconds 6900\<rparr>"

definition demo_channel :: feishu_channel where
  "demo_channel = \<lparr>fn_config = demo_feishu_config, fn_cached_token = Some demo_token\<rparr>"

lemma demo_first_token:
  "\<exists>w' l'. get_tenant_access_token (logged demo_feishu_env) (feishu_channel_new demo_feishu_config, w, l)
     = (Inr (str ''tenant_token''), (demo_channel, w', l'))"
  by (simp add: get_tenant_access_token_def feishu_now_def on_world_def act_bind_def refresh_token_logged Let_def
      token_of_def is_success_def feishu_channel_new_def demo_channel_def demo_token_def)

lemma demo_next_token:
  "get_tenant_access_token (logged demo_feishu_env) (demo_channel, w, l)
     = (Inr (str ''tenant_token''), (demo_channel, w, l @ [ClockRead 0]))"
  by (simp add: get_tenant_access_token_def feishu_now_def on_world_def act_bind_def demo_channel_def demo_token_def
      nanoseconds_def)

lemma demo_send: "\<exists>w' l'. send_message_payload (logged demo_feishu_env) m ty j (demo_channel, w, l) = (Inr (), (demo_channel, w', l'))"
  by (simp add: send_message_payload_def act_bind_def demo_next_token feishu_uuid_logged send_and_decode_logged
      decode_answer_of_def is_success_def act_ret_def)

lemma demo_config: "fn_config demo_channel = demo_feishu_config" "\<not> fc_dry_run demo_feishu_config"
    "ensure_delivery_credentials demo_feishu_config = Inr ()"
  by (simp_all add: demo_channel_def demo_feishu_config_def ensure_delivery_credentials_def has_credentials_def demo_words)

lemma demo_upload:
  "\<exists>w' l'. upload_image_attachment (logged demo_feishu_env) a (demo_channel, w, l)
     = (Inr (str ''img_uploaded''), (demo_channel, w', l'))"
  by (simp add: upload_image_attachment_def act_bind_def on_world_def act_context_def act_ret_def act_lift_def Let_def
      demo_next_token send_and_decode_logged decode_answer_of_def is_success_def image_key_of_def demo_words split: option.split)

lemma demo_reaction:
  "\<exists>r w' l'. add_reaction (logged demo_feishu_env) i x (feishu_channel_new demo_feishu_config, w, l) = (r, (demo_channel, w', l'))"
  using demo_first_token [of w l]
  by (auto simp: add_reaction_def feishu_channel_new_def demo_config act_bind_def act_lift_def send_and_decode_logged
      decode_answer_of_def is_success_def act_ret_def)

lemma demo_delivery:
  "\<exists>w' l'. deliver_outgoing (logged demo_feishu_env) demo_feishu_message (feishu_channel_new demo_feishu_config, 0, [])
     = (Inr (), (demo_channel, w', l'))"
proof -
  obtain r w1 l1 where 1: "add_reaction (logged demo_feishu_env) (str ''om_1'') FEISHU_DEBUG_REACTION_EMOJI_TYPE
      (feishu_channel_new demo_feishu_config, 0, []) = (r, (demo_channel, w1, l1))" using demo_reaction by blast
  obtain w2 l2 where 2: "send_message_payload (logged demo_feishu_env) demo_feishu_message ''text''
      (JObj [(str ''text'', JStr (str ''hello''))]) (demo_channel, w1, l1) = (Inr (), (demo_channel, w2, l2))"
    using demo_send by blast
  let ?a = "\<lparr>oa_kind = Image, oa_path = str ''/tmp/a.PNG'', oa_mime_type = None\<rparr>"
  obtain w3 l3 where 3: "upload_image_attachment (logged demo_feishu_env) ?a (demo_channel, w2, l2)
      = (Inr (str ''img_uploaded''), (demo_channel, w3, l3))" using demo_upload by blast
  obtain w4 l4 where 4: "send_message_payload (logged demo_feishu_env) demo_feishu_message ''image''
      (JObj [(str ''image_key'', JStr (str ''img_uploaded''))]) (demo_channel, w3, l3) = (Inr (), (demo_channel, w4, l4))"
    using demo_send by blast
  have m: "om_reply_to_message_id demo_feishu_message = Some (str ''om_1'')" "om_content demo_feishu_message = str ''hello''"
      "om_attachments demo_feishu_message = [?a]" by (simp_all add: demo_feishu_message_def)
  show ?thesis using 1 2 3 4
    by (simp add: deliver_outgoing_def m act_try_def act_bind_def act_ret_def demo_words send_text_message_def demo_config
        act_lift_def send_attachment_def send_image_attachment_def)
qed

text \<open>The example sends the text, uploads the image and sends it.\<close>

theorem feishu_delivers_in_order_witness:
  "\<exists>s' extra bytes key. deliver_outgoing (logged demo_feishu_env) demo_feishu_message
       (feishu_channel_new demo_feishu_config, 0, []) = (Inr (), (demo_channel, s', extra))
     \<and> delivery_view demo_feishu_env extra =
        [Sent demo_target (str ''text'') (str ''hello''), FileBytes (str ''/tmp/a.PNG'') bytes,
         Uploading (str ''a.PNG'') (resolve_image_mime_type demo_attachment) bytes, Answered key,
         Sent demo_target (str ''image'') (fe_json_text demo_feishu_env (JObj [(str ''image_key'', JStr key)]))]"
proof -
  have "\<not> fc_dry_run (fn_config (feishu_channel_new demo_feishu_config))"
    by (simp add: feishu_channel_new_def demo_config)
  from feishu_delivers_in_order [OF this, of demo_feishu_env demo_feishu_message 0 "[]"]
  obtain w' extra images where run: "deliver_outgoing (logged demo_feishu_env) demo_feishu_message
       (feishu_channel_new demo_feishu_config, 0, []) = (Inr (), (demo_channel, w', extra))" "length images = Suc 0"
      "delivery_view demo_feishu_env extra = delivery_events demo_feishu_env demo_feishu_message images"
    using demo_delivery by (auto simp: demo_feishu_message_def)
  then obtain bytes key where images: "images = [(bytes, key)]" by (cases images) auto
  have name: "path_file_name (str ''/tmp/a.PNG'') = Some (str ''a.PNG'')"
    by (simp add: path_file_name_def path_parts_def str_def split_by.simps)
  have "fe_json_text demo_feishu_env (JObj [(str ''text'', JStr (str ''hello''))]) = str ''hello''"
    by (simp add: demo_feishu_env_def)
  with run show ?thesis
    by (simp add: images delivery_events_def text_events_def image_events_def upload_events_def attachment_file_name_def
        name demo_words demo_feishu_message_def demo_attachment_def demo_target_def)
qed

section \<open>Reading the sidecar\<close>

text \<open>The payloads of user messages among the lines, in order.\<close>

definition user_payload :: "'w feishu_env \<Rightarrow> rstring \<Rightarrow> feishu_long_connection_payload list" where
  "user_payload E line =
     (if \<not> starts_with (trim line) (str ''{'') then []
      else (case from_json_text E long_connection_payload_from_json (trim line) of
              Inl _ \<Rightarrow> []
            | Inr p \<Rightarrow> if lp_sender_type p = str ''user'' then [p] else []))"

definition user_payloads :: "'w feishu_env \<Rightarrow> rstring list \<Rightarrow> feishu_long_connection_payload list" where
  "user_payloads E lines = concat (map (user_payload E) lines)"

text \<open>
  The message made of a payload: its conversation is the whole chat, whatever topic thread of it the payload names, its
  answers go to the chat, and its session is the sender's.
\<close>

definition chat_message_of :: "'w feishu_env \<Rightarrow> feishu_long_connection_payload \<Rightarrow> incoming_message \<Rightarrow> bool" where
  "chat_message_of E p m \<longleftrightarrow>
     im_external_message_id m = Some (lp_message_id p)
     \<and> session_key_from_incoming m = \<lparr>sk_channel = FEISHU_NAME, sk_user_id = lp_sender_open_id p\<rparr>
     \<and> resolved_external_thread_id m = (if trim (lp_chat_id p) = [] then str ''default'' else lp_chat_id p)
     \<and> im_reply_target m = \<lparr>rt_receive_id = lp_chat_id p, rt_receive_id_type = str ''chat_id''\<rparr>
     \<and> im_content m = extract_text_message E (lp_message_type p) (lp_content p)"

lemma parsed_is_chat_message: "chat_message_of E p (fst (parse_long_connection_incoming E p w))"
  by (simp add: chat_message_of_def parse_long_connection_incoming_def Let_def session_key_from_incoming_def
      resolved_external_thread_id_def FEISHU_NAME_def split: prod.split)

lemma forward_line_cases:
  assumes "\<not> fr_router_gone r"
  shows "\<exists>ms w'. forward_line E line (r, w) = (r\<lparr>fr_sent := fr_sent r @ ms\<rparr>, w')
     \<and> list_all2 (chat_message_of E) (user_payload E line) ms"
proof (cases "user_payload E line")
  case Nil
  then have "forward_line E line (r, w) = (r, w)"
    by (auto simp: forward_line_def user_payload_def Let_def split: if_splits sum.splits)
  then show ?thesis using Nil by (intro exI [of _ "[]"]) simp
next
  case (Cons p ps)
  then have p: "from_json_text E long_connection_payload_from_json (trim line) = Inr p" "lp_sender_type p = str ''user''"
      "starts_with (trim line) (str ''{'')" "ps = []"
    by (auto simp: user_payload_def split: if_splits sum.splits)
  then have "trim line \<noteq> []" by (auto simp: str_def)
  with p assms have "forward_line E line (r, w)
      = (r\<lparr>fr_sent := fr_sent r @ [fst (parse_long_connection_incoming E p w)]\<rparr>, snd (parse_long_connection_incoming E p w))"
    by (simp add: forward_line_def Let_def split: prod.split)
  then show ?thesis using Cons p(4) parsed_is_chat_message [of E p w]
    by (intro exI [of _ "[fst (parse_long_connection_incoming E p w)]"]) auto
qed

text \<open>
  C35: while the router listens, the reader turns the lines of the sidecar into messages: one for each line that holds a
  payload of a user, in order, with the id, the sender, the chat and the text of the payload. All messages of a sender in a
  chat belong to one conversation, and their answers go to that chat. Lines it cannot read change nothing.
\<close>
theorem feishu_lines_become_messages:
  assumes "fr_running r" "\<not> fr_router_gone r"
  shows "\<exists>ms w'. reader_run E (map ReadLine lines) (r, w) = (r\<lparr>fr_sent := fr_sent r @ ms\<rparr>, w')
     \<and> list_all2 (chat_message_of E) (user_payloads E lines) ms"
  using assms
proof (induction lines arbitrary: r w)
  case Nil
  then show ?case by (intro exI [of _ "[]"]) (simp add: reader_run_def user_payloads_def)
next
  case (Cons line lines)
  obtain ms w1 where first: "forward_line E line (r, w) = (r\<lparr>fr_sent := fr_sent r @ ms\<rparr>, w1)"
      "list_all2 (chat_message_of E) (user_payload E line) ms"
    using forward_line_cases [OF Cons.prems(2), of E line w] by blast
  obtain ms' w2 where rest: "reader_run E (map ReadLine lines) (r\<lparr>fr_sent := fr_sent r @ ms\<rparr>, w1)
      = (r\<lparr>fr_sent := fr_sent r @ ms @ ms'\<rparr>, w2)" "list_all2 (chat_message_of E) (user_payloads E lines) ms'"
    using Cons.IH [of "r\<lparr>fr_sent := fr_sent r @ ms\<rparr>" w1] Cons.prems by auto
  have "reader_run E (map ReadLine (line # lines)) (r, w) = (r\<lparr>fr_sent := fr_sent r @ ms @ ms'\<rparr>, w2)"
    using first(1) rest(1) Cons.prems(1) by (simp add: reader_run_def reader_step_def)
  moreover have "list_all2 (chat_message_of E) (user_payloads E (line # lines)) (ms @ ms')"
    using first(2) rest(2) by (simp add: user_payloads_def list_all2_appendI)
  ultimately show ?case by blast
qed

text \<open>After an unreadable line, as after the end of the output, the reader takes nothing any more.\<close>

lemma reader_stopped: "\<not> fr_running r \<Longrightarrow> reader_run E is (r, w) = (r, w)"
  by (induction "is") (simp_all add: reader_run_def reader_step_def)

lemma reader_deaf_after_error:
  "reader_run E (ReadError # is) (r, w) = (if fr_running r then (r\<lparr>fr_running := False\<rparr>, w) else (r, w))"
proof -
  have "reader_run E (ReadError # is) (r, w) = reader_run E is (reader_step E ReadError (r, w))"
    by (simp add: reader_run_def)
  then show ?thesis by (simp add: reader_step_def reader_stopped)
qed

section \<open>A file of the host for the asking\<close>






theorem feishu_lines_become_messages_witness:
  "\<exists>ms w'. reader_run demo_feishu_env (map ReadLine [str ''noise'', str ''{''])
       (\<lparr>fr_sent = [], fr_router_gone = False, fr_running = True\<rparr>, 0)
     = (\<lparr>fr_sent = ms, fr_router_gone = False, fr_running = True\<rparr>, w')"
  using feishu_lines_become_messages [of "\<lparr>fr_sent = [], fr_router_gone = False, fr_running = True\<rparr>" demo_feishu_env
      "[str ''noise'', str ''{'']" 0] by auto

end
