(* ===== verification/OJ_Toolbox.thy ===== *)
theory OJ_Toolbox
  imports OJ_Browser_Tools OJ_Command_Session OJ_Mcp OJ_Memory_Tools OJ_Skill_Install OJ_Config
begin

text \<open>
  The tools put together, as \<open>ToolRegistry\<close> of \<open>src/agent/tool/mod.rs\<close> holds them: the built-in tools, the browser and
  memory toolsets, the MCP servers and the local skills over one state, with the constructors of the registry and the MCP
  and skill management interfaces that keep it in step with its neighbours.

  A component of the state is reached through a getter and a setter; the locale \<open>component\<close> states their laws and is
  interpreted for every component. In the program all tools act on one file system. Here \<open>read\<close>, \<open>write\<close>, \<open>edit\<close>, \<open>bash\<close> and
  the skills share one (\<open>tb_host\<close>); the memory repository and the browser sessions have files of their own, and what a
  command session does to files is not modelled. So nothing here tells which files a tool can touch.
\<close>

section \<open>The state of all tools\<close>

record ('w, 'c, 'x, 'q) toolbox =
  tb_host :: host_fs
  tb_memory :: memory_fs
  tb_skills :: skill_registry
  tb_mcp :: "('w, 'c) mcp_manager"
  tb_commands :: command_runtime
  tb_browser :: "('x, 'q) browser_state"

text \<open>An operation of a component as an operation of the whole.\<close>

definition on_part :: "('t \<Rightarrow> 'a) \<Rightarrow> ('a \<Rightarrow> 't \<Rightarrow> 't) \<Rightarrow> ('a, 'r) act \<Rightarrow> ('t, 'r) act" where
  "on_part get put m t = (let (r, a) = m (get t) in (r, put a t))"

definition handler_on_part :: "('t \<Rightarrow> 'a) \<Rightarrow> ('a \<Rightarrow> 't \<Rightarrow> 't) \<Rightarrow> 'a tool_handler \<Rightarrow> 't tool_handler" where
  "handler_on_part get put h =
     \<lparr>hd_definition = hd_definition h, hd_call = (\<lambda>context request. on_part get put (hd_call h context request))\<rparr>"

text \<open>The second state differs from the first one in the component only.\<close>

definition touches_only :: "('t \<Rightarrow> 'a) \<Rightarrow> ('a \<Rightarrow> 't \<Rightarrow> 't) \<Rightarrow> 't \<Rightarrow> 't \<Rightarrow> bool" where
  "touches_only get put t t' \<longleftrightarrow> put (get t) t' = t"

definition touches_both ::
    "('t \<Rightarrow> 'a) \<Rightarrow> ('a \<Rightarrow> 't \<Rightarrow> 't) \<Rightarrow> ('t \<Rightarrow> 'b) \<Rightarrow> ('b \<Rightarrow> 't \<Rightarrow> 't) \<Rightarrow> 't \<Rightarrow> 't \<Rightarrow> bool" where
  "touches_both get put get' put' t t' \<longleftrightarrow> put (get t) (put' (get' t) t') = t"

locale component =
  fixes get :: "'t \<Rightarrow> 'a" and put :: "'a \<Rightarrow> 't \<Rightarrow> 't"
  assumes get_put: "get (put a t) = a" and put_get: "put (get t) t = t" and put_put: "put a (put b t) = put a t"
begin

lemma touched_put: "touches_only get put t (put a t)"
  by (simp add: touches_only_def put_put put_get)

lemma touches_refl: "touches_only get put t t"
  by (simp add: touches_only_def put_get)

lemma touches_trans: "touches_only get put t t' \<Longrightarrow> touches_only get put t' t'' \<Longrightarrow> touches_only get put t t''"
  unfolding touches_only_def by (metis put_put)

lemma within_touches: "touches_only get put t (snd (on_part get put m t))"
  by (simp add: on_part_def touched_put split: prod.split)

lemma within_component: "get (snd (on_part get put m t)) = snd (m (get t))" "fst (on_part get put m t) = fst (m (get t))"
  by (simp_all add: on_part_def get_put split: prod.split)

lemma within_bind: "on_part get put (act_bind m f) = act_bind (on_part get put m) (\<lambda>x. on_part get put (f x))"
  by (auto simp: on_part_def act_bind_def fun_eq_iff get_put put_put split: prod.splits sum.splits)

lemma within_ret: "on_part get put (act_ret x) = act_ret x"
  by (simp add: on_part_def act_ret_def fun_eq_iff put_get)

lemma handler_touches: "touches_only get put t (snd (hd_call (handler_on_part get put h) context request t))"
  by (simp add: handler_on_part_def within_touches)

end

text \<open>Two components that do not overlap.\<close>

locale separate_components = left: component get put + right: component get' put'
  for get :: "'t \<Rightarrow> 'a" and put and get' :: "'t \<Rightarrow> 'b" and put' +
  assumes apart: "put a (put' b t) = put' b (put a t)"
begin

lemma both_left: "touches_only get put t t' \<Longrightarrow> touches_both get put get' put' t t'"
  unfolding touches_only_def touches_both_def by (metis apart right.put_get left.put_put)

lemma other_kept: "get' (put a t) = get' t"
  by (metis apart right.get_put right.put_get)

lemma both_right: "touches_only get' put' t t' \<Longrightarrow> touches_both get put get' put' t t'"
  unfolding touches_only_def touches_both_def by (metis left.put_get)

lemma both_trans: "touches_both get put get' put' t t' \<Longrightarrow> touches_both get put get' put' t' t'' \<Longrightarrow> touches_both get put get' put' t t''"
  unfolding touches_both_def by (metis apart left.put_put right.put_put)

end

abbreviation put_host where "put_host x t \<equiv> t\<lparr>tb_host := x\<rparr>"
abbreviation put_memory where "put_memory x t \<equiv> t\<lparr>tb_memory := x\<rparr>"
abbreviation put_skills where "put_skills x t \<equiv> t\<lparr>tb_skills := x\<rparr>"
abbreviation put_mcp where "put_mcp x t \<equiv> t\<lparr>tb_mcp := x\<rparr>"
abbreviation put_commands where "put_commands x t \<equiv> t\<lparr>tb_commands := x\<rparr>"
abbreviation put_browser where "put_browser x t \<equiv> t\<lparr>tb_browser := x\<rparr>"

interpretation host_part: component tb_host put_host
  by unfold_locales simp_all

interpretation memory_part: component tb_memory put_memory
  by unfold_locales simp_all

interpretation skills_part: component tb_skills put_skills
  by unfold_locales simp_all

interpretation mcp_part: component tb_mcp put_mcp
  by unfold_locales simp_all

interpretation commands_part: component tb_commands put_commands
  by unfold_locales simp_all

interpretation browser_part: component tb_browser put_browser
  by unfold_locales simp_all

section \<open>The neighbours of the registry\<close>

text \<open>The parameters of the components, together.\<close>

record ('w, 'p, 'c, 'x, 'q) toolbox_services =
  tbs_args :: tools_env
  tbs_mcp :: "('w, 'p, 'c) mcp_env"
  tbs_commands :: command_env
  tbs_memory :: memory_env
  tbs_skills :: skill_env
  tbs_sidecar :: "('x, 'q) sidecar_env"
  tbs_browser_config :: browser_session_manager_config
  tbs_shell :: "shell_command_spec \<Rightarrow> nat \<Rightarrow> host_fs \<Rightarrow> process_output \<times> host_fs"

definition load_skill_tool ::
    "('w, 'p, 'c, 'x, 'q) toolbox_services \<Rightarrow> ('w, 'c, 'x, 'q) toolbox tool_handler" where
  "load_skill_tool Z =
     \<lparr>hd_definition = load_skill_definition (tbs_args Z),
      hd_call = (\<lambda>_ request t. (load_skill_call (tbs_args Z) (tbs_skills Z) (tb_host t) (tb_skills t) request, t))\<rparr>"

definition builtin_tools ::
    "('w, 'p, 'c, 'x, 'q) toolbox_services \<Rightarrow> ('w, 'c, 'x, 'q) toolbox tool_handler list" where
  "builtin_tools Z =
     map (handler_on_part tb_host put_host) [read_tool (tbs_args Z), write_tool (tbs_args Z), edit_tool (tbs_args Z)]
     @ map (handler_on_part tb_commands put_commands)
         [exec_command_tool (tbs_args Z) (tbs_commands Z), write_stdin_tool (tbs_args Z) (tbs_commands Z),
          list_unread_command_tasks_tool (tbs_args Z) (tbs_commands Z)]
     @ [handler_on_part tb_host put_host (shell_tool (tbs_args Z) (tbs_shell Z))]"

definition with_names :: "'e tool_handler list \<Rightarrow> (rstring \<times> 'e tool_handler) list" where
  "with_names hs = map (\<lambda>h. (td_name (hd_definition h), h)) hs"

definition browser_handlers ::
    "('w, 'p, 'c, 'x, 'q) toolbox_services \<Rightarrow> ('w, 'c, 'x, 'q) toolbox tool_handler list" where
  "browser_handlers Z =
     map (handler_on_part tb_browser put_browser) (browser_tools (tbs_args Z) (tbs_sidecar Z) (tbs_browser_config Z))"

definition memory_handlers ::
    "('w, 'p, 'c, 'x, 'q) toolbox_services \<Rightarrow> ('w, 'c, 'x, 'q) toolbox tool_handler list" where
  "memory_handlers Z = map (handler_on_part tb_memory put_memory) (memory_tools (tbs_args Z) (tbs_memory Z))"

text \<open>A reload of the skills reads the files and writes the index.\<close>

definition reload_skills ::
    "('w, 'p, 'c, 'x, 'q) toolbox_services \<Rightarrow> (('w, 'c, 'x, 'q) toolbox, skill_manifest list) act" where
  "reload_skills Z t = on_part tb_skills put_skills (skill_reload (tbs_skills Z) (tb_host t)) t"

definition toolbox_env :: "('w, 'p, 'c, 'x, 'q) toolbox_services \<Rightarrow> ('w, 'c, 'x, 'q) toolbox tool_env" where
  "toolbox_env Z =
     \<lparr>tv_mcp_list_servers = (\<lambda>t. map (\<lambda>s. (mn_name s, mn_transport s)) (list_servers (tb_mcp t))),
      tv_mcp_ensure_server_tools = (\<lambda>server_name.
        act_bind (on_part tb_mcp put_mcp (mcp_toolset_handlers (tbs_mcp Z) server_name)) (\<lambda>handlers.
        act_ret (map (\<lambda>(name, h). (name, handler_on_part tb_mcp put_mcp h)) handlers))),
      tv_builtin_tools = builtin_tools Z,
      tv_browser_toolset =
        \<lparr>st_entry = browser_toolset_entry, st_handlers = with_names (browser_handlers Z),
         st_runtime = Some (\<lambda>thread_id. on_part tb_browser put_browser
           (browser_on_unload (tbs_sidecar Z) (tbs_browser_config Z) thread_id))\<rparr>,
      tv_memory_toolset =
        \<lparr>st_entry = memory_toolset_entry, st_handlers = with_names (memory_handlers Z), st_runtime = None\<rparr>,
      tv_skills_reload = act_bind (reload_skills Z) (\<lambda>_. act_ret ()),
      tv_has_enabled_skills = (\<lambda>t. has_enabled_skills (tb_skills t)),
      tv_load_skill_tool = load_skill_tool Z,
      tv_serde_error = te_serde_error (tbs_args Z) (str ''load_toolset''),
      tv_manage_toolset_schema = te_schema (tbs_args Z) (str ''load_toolset'')\<rparr>"

section \<open>Making a registry\<close>

text \<open>A registry with its neighbours.\<close>

type_synonym ('w, 'c, 'x, 'q) tool_system =
  "('w, 'c, 'x, 'q) toolbox \<times> ('w, 'c, 'x, 'q) toolbox tool_registry"

text \<open>What exists before: the files, the memory, and the worlds of the MCP clients, the commands and the browser.\<close>

record ('w, 'x) tool_world =
  tw_host :: host_fs
  tw_memory :: memory_fs
  tw_mcp :: 'w
  tw_waits :: "process_event list list list"
  tw_browser_host :: host_fs
  tw_browser :: 'x

definition with_skill_roots :: "('w, 'x) tool_world \<Rightarrow> rstring list \<Rightarrow> ('w, 'c, 'x, 'q) tool_system" where
  "with_skill_roots w skill_roots =
     (\<lparr>tb_host = tw_host w, tb_memory = tw_memory w, tb_skills = skill_registry_with_roots skill_roots,
       tb_mcp = mcp_manager_new (tw_mcp w),
       tb_commands = \<lparr>cm_sessions = cm_sessions command_sessions_new, cm_ticks = cm_ticks command_sessions_new,
                      cm_waits = tw_waits w\<rparr>,
       tb_browser = browser_state_new (tw_browser_host w) (tw_browser w)\<rparr>,
      tool_registry_new)"

definition with_workspace_root :: "('w, 'x) tool_world \<Rightarrow> rstring \<Rightarrow> ('w, 'c, 'x, 'q) tool_system" where
  "with_workspace_root w workspace_root = with_skill_roots w (default_skill_roots_for_workspace workspace_root)"

section \<open>The management interfaces\<close>

definition sync_mcp :: "('w, 'p, 'c, 'x, 'q) toolbox_services \<Rightarrow> (('w, 'c, 'x, 'q) tool_system, unit) act" where
  "sync_mcp Z = (\<lambda>(t, g). let (r, g1) = sync_mcp_toolsets (toolbox_env Z) t g in (r, (t, g1)))"

definition sync_skills :: "('w, 'p, 'c, 'x, 'q) toolbox_services \<Rightarrow> (('w, 'c, 'x, 'q) tool_system, unit) act" where
  "sync_skills Z = (\<lambda>(t, g). (Inr (), (t, sync_skill_handlers (toolbox_env Z) t g)))"

definition on_toolbox :: "('t, 'a) act \<Rightarrow> ('t \<times> 'g, 'a) act" where
  "on_toolbox m = (\<lambda>(t, g). let (r, t1) = m t in (r, (t1, g)))"

definition from_config_with_skill_roots ::
    "('w, 'p, 'c, 'x, 'q) toolbox_services \<Rightarrow> agent_tool_config \<Rightarrow> rstring list \<Rightarrow> ('w, 'x) tool_world
     \<Rightarrow> (err + unit) \<times> ('w, 'c, 'x, 'q) tool_system" where
  "from_config_with_skill_roots Z config skill_roots w =
     act_bind (on_toolbox (on_part tb_mcp put_mcp (load_definitions (tbs_mcp Z) (build_mcp_server_definitions config))))
       (\<lambda>_. sync_mcp Z) (with_skill_roots w skill_roots)"

text \<open>\<open>ToolRegistryMcpApi\<close>: an operation of the manager, then the toolsets follow.\<close>

definition mcp_api ::
    "('w, 'p, 'c, 'x, 'q) toolbox_services \<Rightarrow> (('w, 'c) mcp_manager, 'a) act \<Rightarrow> (('w, 'c, 'x, 'q) tool_system, 'a) act" where
  "mcp_api Z m =
     act_bind (on_toolbox (on_part tb_mcp put_mcp m)) (\<lambda>x. act_bind (sync_mcp Z) (\<lambda>_. act_ret x))"

definition api_enable_server where "api_enable_server Z name = mcp_api Z (enable_server (tbs_mcp Z) name)"
definition api_disable_server where "api_disable_server Z name = mcp_api Z (disable_server (tbs_mcp Z) name)"
definition api_refresh_server where "api_refresh_server Z name = mcp_api Z (refresh_server (tbs_mcp Z) name)"

definition api_list_servers :: "('w, 'c, 'x, 'q) tool_system \<Rightarrow> mcp_server_snapshot list" where
  "api_list_servers = (\<lambda>(t, g). list_servers (tb_mcp t))"

definition api_list_tools :: "('w, 'c, 'x, 'q) tool_system \<Rightarrow> mcp_tool_snapshot list" where
  "api_list_tools = (\<lambda>(t, g). list_tools (tb_mcp t))"

text \<open>\<open>ToolRegistrySkillApi\<close>: an operation of the skill registry, then the exposure of \<open>load_skill\<close> follows.\<close>

definition skill_api ::
    "('w, 'p, 'c, 'x, 'q) toolbox_services \<Rightarrow> (host_fs \<Rightarrow> (skill_registry, 'a) act) \<Rightarrow> (('w, 'c, 'x, 'q) tool_system, 'a) act" where
  "skill_api Z m =
     act_bind (on_toolbox (\<lambda>t. on_part tb_skills put_skills (m (tb_host t)) t)) (\<lambda>x.
     act_bind (sync_skills Z) (\<lambda>_. act_ret x))"

definition api_reload where "api_reload Z = skill_api Z (\<lambda>h. skill_reload (tbs_skills Z) h)"
definition api_disable_skill where "api_disable_skill Z name = skill_api Z (\<lambda>_. skill_disable name)"
definition api_enable_skill where "api_enable_skill Z name = skill_api Z (\<lambda>_. skill_enable name)"
definition api_restrict_to where "api_restrict_to Z names = skill_api Z (\<lambda>h. restrict_to (tbs_skills Z) h names)"

definition api_skill_list :: "('w, 'c, 'x, 'q) tool_system \<Rightarrow> skill_manifest list" where
  "api_skill_list = (\<lambda>(t, g). skill_list (tb_skills t))"

definition api_list_enabled :: "('w, 'c, 'x, 'q) tool_system \<Rightarrow> skill_manifest list" where
  "api_list_enabled = (\<lambda>(t, g). skill_list_enabled (tb_skills t))"

definition api_catalog_prompt :: "('w, 'c, 'x, 'q) tool_system \<Rightarrow> rstring option" where
  "api_catalog_prompt = (\<lambda>(t, g). skill_catalog_prompt (tb_skills t))"

definition api_load_skill ::
    "('w, 'p, 'c, 'x, 'q) toolbox_services \<Rightarrow> rstring \<Rightarrow> ('w, 'c, 'x, 'q) tool_system \<Rightarrow> err + loaded_skill" where
  "api_load_skill Z name = (\<lambda>(t, g). skill_load (tbs_skills Z) (tb_host t) name (tb_skills t))"

definition api_register_builtin :: "('w, 'p, 'c, 'x, 'q) toolbox_services \<Rightarrow> (('w, 'c, 'x, 'q) tool_system, unit) act" where
  "api_register_builtin Z = register_builtin_into (toolbox_env Z)"

end
