(* ===== verification/OJ_Toolbox_Safety.thy ===== *)
theory OJ_Toolbox_Safety
  imports OJ_Toolbox OJ_Agent_Loop OJ_Browser_Safety
begin

text \<open>
  Whether the registry stays in step with the MCP servers and the skills, and what a server named like a tool does to it:
  runs of the management operations of \<open>OJ_Toolbox\<close> and the calls of a thread against the registries they make. That a
  call leaves the names of the servers and the index of the skills alone follows from the records the tools act on; that
  the memory, the browser and commands do not touch the other files is how the model keeps them, not a result.
\<close>

section \<open>Each tool has its part\<close>

interpretation mcp_and_host: separate_components tb_mcp put_mcp tb_host put_host
  by unfold_locales simp_all

interpretation mcp_and_commands: separate_components tb_mcp put_mcp tb_commands put_commands
  by unfold_locales simp_all

interpretation mcp_and_browser: separate_components tb_mcp put_mcp tb_browser put_browser
  by unfold_locales simp_all

interpretation mcp_and_memory: separate_components tb_mcp put_mcp tb_memory put_memory
  by unfold_locales simp_all

datatype tool_part = HostPart | CommandsPart | BrowserPart | MemoryPart | NoPart

definition tool_part_of :: "rstring \<Rightarrow> tool_part" where
  "tool_part_of name =
     (if name \<in> {str ''read'', str ''write'', str ''edit'', str ''bash''} then HostPart
      else if name \<in> {str ''exec_command'', str ''write_stdin'', str ''list_unread_command_tasks''} then CommandsPart
      else if starts_with name (str ''browser__'') \<or> name = str ''unload_toolset'' then BrowserPart
      else if starts_with name (str ''memory_'') then MemoryPart
      else NoPart)"

text \<open>The state changed in the part only, or in the part and the MCP servers only.\<close>

fun part_touched :: "tool_part \<Rightarrow> ('w, 'c, 'x, 'q) toolbox \<Rightarrow> ('w, 'c, 'x, 'q) toolbox \<Rightarrow> bool" where
  "part_touched HostPart = touches_only tb_host put_host"
| "part_touched CommandsPart = touches_only tb_commands put_commands"
| "part_touched BrowserPart = touches_only tb_browser put_browser"
| "part_touched MemoryPart = touches_only tb_memory put_memory"
| "part_touched NoPart = (\<lambda>t t'. t' = t)"

fun mcp_and_part_touched :: "tool_part \<Rightarrow> ('w, 'c, 'x, 'q) toolbox \<Rightarrow> ('w, 'c, 'x, 'q) toolbox \<Rightarrow> bool" where
  "mcp_and_part_touched HostPart = touches_both tb_mcp put_mcp tb_host put_host"
| "mcp_and_part_touched CommandsPart = touches_both tb_mcp put_mcp tb_commands put_commands"
| "mcp_and_part_touched BrowserPart = touches_both tb_mcp put_mcp tb_browser put_browser"
| "mcp_and_part_touched MemoryPart = touches_both tb_mcp put_mcp tb_memory put_memory"
| "mcp_and_part_touched NoPart = touches_only tb_mcp put_mcp"

lemma part_touched_both: "part_touched p t t' \<Longrightarrow> mcp_and_part_touched p t t'"
  by (cases p) (auto intro: mcp_and_host.both_right mcp_and_commands.both_right mcp_and_browser.both_right
      mcp_and_memory.both_right simp: mcp_part.touches_refl)

lemma mcp_touched_both: "touches_only tb_mcp put_mcp t t' \<Longrightarrow> mcp_and_part_touched p t t'"
  by (cases p) (auto intro: mcp_and_host.both_left mcp_and_commands.both_left mcp_and_browser.both_left
      mcp_and_memory.both_left)

lemma both_touched_trans: "mcp_and_part_touched p t t' \<Longrightarrow> mcp_and_part_touched p t' t'' \<Longrightarrow> mcp_and_part_touched p t t''"
  by (cases p) (auto intro: mcp_and_host.both_trans mcp_and_commands.both_trans mcp_and_browser.both_trans
      mcp_and_memory.both_trans mcp_part.touches_trans)

lemma both_touched_refl: "mcp_and_part_touched p t t"
  by (rule mcp_touched_both) (rule mcp_part.touches_refl)

text \<open>A handler filed under a name touches the part of that name.\<close>

definition keeps_to_part :: "rstring \<times> ('w, 'c, 'x, 'q) toolbox tool_handler \<Rightarrow> bool" where
  "keeps_to_part = (\<lambda>(name, h). \<forall>context request t. part_touched (tool_part_of name) t (snd (hd_call h context request t)))"

lemma tool_names [simp]:
  "td_name (hd_definition (read_tool E)) = str ''read''" "td_name (hd_definition (write_tool E)) = str ''write''"
  "td_name (hd_definition (edit_tool E)) = str ''edit''" "td_name (hd_definition (shell_tool E run)) = str ''bash''"
  "td_name (hd_definition (exec_command_tool E C)) = str ''exec_command''"
  "td_name (hd_definition (write_stdin_tool E C)) = str ''write_stdin''"
  "td_name (hd_definition (list_unread_command_tasks_tool E C)) = str ''list_unread_command_tasks''"
  "td_name (hd_definition (load_skill_tool Z)) = str ''load_skill''"
  "hd_definition (handler_on_part get put h) = hd_definition h"
  by (simp_all add: read_tool_def write_tool_def edit_tool_def shell_tool_def exec_command_tool_def write_stdin_tool_def
      list_unread_command_tasks_tool_def load_skill_tool_def load_skill_definition_def tool_definition_from_args_def
      handler_on_part_def)

lemma builtin_keeps: "x \<in> set (with_names (builtin_tools Z)) \<Longrightarrow> keeps_to_part x"
  by (auto simp: with_names_def builtin_tools_def keeps_to_part_def tool_part_of_def host_part.handler_touches
      commands_part.handler_touches)

lemma browser_names:
  "h \<in> set (browser_tools E S c) \<Longrightarrow> starts_with (td_name (hd_definition h)) (str ''browser__'')"
  by (auto simp: browser_tools_def tool_definition_from_args_def str_def)

lemma memory_names:
  "h \<in> set (memory_tools E M) \<Longrightarrow> starts_with (td_name (hd_definition h)) (str ''memory_'')"
  by (auto simp: memory_tools_def memory_tool_def tool_definition_from_args_def str_def)

lemma other_names:
  assumes "x \<in> {''read'', ''write'', ''edit'', ''bash'', ''exec_command'', ''write_stdin'', ''list_unread_command_tasks'',
    ''unload_toolset''}"
  shows "\<not> starts_with (str x) (str ''browser__'')" "\<not> starts_with (str x) (str ''memory_'')"
  using assms by (auto simp: str_def)

lemma part_of_browser:
  assumes "starts_with name (str ''browser__'')"
  shows "tool_part_of name = BrowserPart"
proof -
  have "name \<noteq> str ''read''" "name \<noteq> str ''write''" "name \<noteq> str ''edit''" "name \<noteq> str ''bash''"
    "name \<noteq> str ''exec_command''" "name \<noteq> str ''write_stdin''" "name \<noteq> str ''list_unread_command_tasks''"
    using assms other_names(1) by blast+
  then show ?thesis using assms by (simp add: tool_part_of_def)
qed

lemma part_of_memory:
  assumes "starts_with name (str ''memory_'')"
  shows "tool_part_of name = MemoryPart"
proof -
  have "name \<noteq> str ''read''" "name \<noteq> str ''write''" "name \<noteq> str ''edit''" "name \<noteq> str ''bash''"
    "name \<noteq> str ''exec_command''" "name \<noteq> str ''write_stdin''" "name \<noteq> str ''list_unread_command_tasks''"
    "name \<noteq> str ''unload_toolset''"
    using assms other_names(2) by blast+
  moreover have "\<not> starts_with name (str ''browser__'')"
    using assms by (auto simp: starts_with_iff str_def)
  ultimately show ?thesis using assms by (simp add: tool_part_of_def)
qed

lemma browser_keeps: "x \<in> set (with_names (browser_handlers Z)) \<Longrightarrow> keeps_to_part x"
  by (auto simp: with_names_def browser_handlers_def keeps_to_part_def browser_part.handler_touches
      dest!: browser_names part_of_browser)

lemma memory_keeps: "x \<in> set (with_names (memory_handlers Z)) \<Longrightarrow> keeps_to_part x"
  by (auto simp: with_names_def memory_handlers_def keeps_to_part_def memory_part.handler_touches
      dest!: memory_names part_of_memory)

lemma load_skill_keeps: "keeps_to_part (str ''load_skill'', load_skill_tool Z)"
  by (simp add: keeps_to_part_def tool_part_of_def load_skill_tool_def str_def)

section \<open>The registries the program makes\<close>

definition browser_unload ::
    "('w, 'p, 'c, 'x, 'q) toolbox_services \<Rightarrow> rstring \<Rightarrow> (('w, 'c, 'x, 'q) toolbox, unit) act" where
  "browser_unload Z = (\<lambda>thread_id. on_part tb_browser put_browser
     (browser_on_unload (tbs_sidecar Z) (tbs_browser_config Z) thread_id))"

fun toolset_made ::
    "('w, 'p, 'c, 'x, 'q) toolbox_services \<Rightarrow> rstring \<Rightarrow> ('w, 'c, 'x, 'q) toolbox registered_toolset \<Rightarrow> bool" where
  "toolset_made Z n (McpServerToolset entry server_name) \<longleftrightarrow> server_name = n"
| "toolset_made Z n (StaticToolset d) \<longleftrightarrow>
     n = str ''browser'' \<and> set (st_handlers d) \<subseteq> set (with_names (browser_handlers Z)) \<and> st_runtime d = Some (browser_unload Z)
     \<or> n = str ''memory'' \<and> set (st_handlers d) \<subseteq> set (with_names (memory_handlers Z)) \<and> st_runtime d = None"

definition registry_made ::
    "('w, 'p, 'c, 'x, 'q) toolbox_services \<Rightarrow> ('w, 'c, 'x, 'q) toolbox tool_registry \<Rightarrow> bool" where
  "registry_made Z g \<longleftrightarrow>
     set (tg_always_visible g) \<subseteq> insert (str ''load_skill'', load_skill_tool Z) (set (with_names (builtin_tools Z)))
     \<and> (\<forall>(n, ts) \<in> set (tg_toolsets g). toolset_made Z n ts)"

lemma registry_made_new: "registry_made Z tool_registry_new"
  by (simp add: registry_made_def tool_registry_new_def)

lemma set_alist_update: "set (AList.update k v xs) \<subseteq> insert (k, v) (set xs)"
  by (induction xs) auto

lemma made_register_if_missing:
  assumes "set (with_names hs) \<subseteq> set (with_names (builtin_tools Z))" "registry_made Z g"
  shows "registry_made Z (fold register_if_missing hs g)"
  using assms
proof (induction hs arbitrary: g)
  case (Cons h hs)
  have "registry_made Z (register_if_missing h g)"
    using Cons.prems set_alist_update [of "td_name (hd_definition h)" h "tg_always_visible g"]
    by (auto simp: register_if_missing_def registry_made_def with_names_def Let_def)
  then show ?case using Cons by (simp add: with_names_def)
qed simp

lemma route_handlers_set:
  "route_handlers n g hs routed = Inr routed' \<Longrightarrow> set routed' \<subseteq> set routed \<union> set (with_names hs)"
proof (induction hs arbitrary: routed)
  case (Cons h hs)
  let ?r = "AList.update (td_name (hd_definition h)) h routed"
  have "route_handlers n g hs ?r = Inr routed'"
    using Cons.prems by (auto simp: Let_def split: if_splits sum.splits)
  from Cons.IH [OF this] show ?case
    using set_alist_update [of "td_name (hd_definition h)" h routed] by (auto simp: with_names_def)
qed simp

lemma made_register_toolset:
  assumes "register_toolset_with_runtime entry hs runtime g = Inr g'" "registry_made Z g"
    and "tce_name entry = str ''browser'' \<and> hs = browser_handlers Z \<and> runtime = Some (browser_unload Z)
       \<or> tce_name entry = str ''memory'' \<and> hs = memory_handlers Z \<and> runtime = None"
  shows "registry_made Z g' \<and> tg_always_visible g' = tg_always_visible g"
proof -
  obtain routed where r: "route_handlers (tce_name entry) g hs [] = Inr routed"
    "g' = g\<lparr>tg_toolsets := AList.update (tce_name entry)
       (StaticToolset \<lparr>st_entry = entry, st_handlers = routed, st_runtime = runtime\<rparr>) (tg_toolsets g)\<rparr>"
    using assms(1) by (auto simp: register_toolset_with_runtime_def split: sum.splits if_splits)
  have "toolset_made Z (tce_name entry) (StaticToolset \<lparr>st_entry = entry, st_handlers = routed, st_runtime = runtime\<rparr>)"
    using route_handlers_set [OF r(1)] assms(3) by auto
  then show ?thesis
    using assms(2) set_alist_update [of "tce_name entry" _ "tg_toolsets g"] unfolding r(2)
    by (fastforce simp: registry_made_def)
qed

lemma map_snd_with_names [simp]: "map snd (with_names hs) = hs"
  by (simp add: with_names_def comp_def)

lemma made_builtin_toolsets:
  assumes "registry_made Z g"
    and "d = tv_browser_toolset (toolbox_env Z) \<or> d = tv_memory_toolset (toolbox_env Z)"
    and "register_builtin_toolset d g = Inr g'"
  shows "registry_made Z g' \<and> tg_always_visible g' = tg_always_visible g"
  using assms(2)
proof
  assume d: "d = tv_browser_toolset (toolbox_env Z)"
  show ?thesis
  proof (cases "toolset_registered (str ''browser'') g")
    case False
    then have "register_toolset_with_runtime browser_toolset_entry (browser_handlers Z) (Some (browser_unload Z)) g = Inr g'"
      using assms(3) by (simp add: d register_builtin_toolset_def toolbox_env_def browser_unload_def browser_toolset_entry_def)
    from made_register_toolset [OF this assms(1)] show ?thesis by (simp add: browser_toolset_entry_def)
  qed (use assms in \<open>simp add: d register_builtin_toolset_def toolbox_env_def browser_toolset_entry_def\<close>)
next
  assume d: "d = tv_memory_toolset (toolbox_env Z)"
  show ?thesis
  proof (cases "toolset_registered (str ''memory'') g")
    case False
    then have "register_toolset_with_runtime memory_toolset_entry (memory_handlers Z) None g = Inr g'"
      using assms(3) by (simp add: d register_builtin_toolset_def toolbox_env_def memory_toolset_entry_def)
    from made_register_toolset [OF this assms(1)] show ?thesis by (simp add: memory_toolset_entry_def)
  qed (use assms in \<open>simp add: d register_builtin_toolset_def toolbox_env_def memory_toolset_entry_def\<close>)
qed

lemma set_alist_delete: "set (AList.delete k xs) \<subseteq> set xs"
  by (auto simp: AList.delete_eq)

lemma made_sync_skills: "registry_made Z g \<Longrightarrow> registry_made Z (sync_skill_handlers (toolbox_env Z) t g)"
  using set_alist_update [of "str ''load_skill''" "load_skill_tool Z" "tg_always_visible g"]
    set_alist_delete [of "str ''load_skill''" "tg_always_visible g"]
  by (auto simp: sync_skill_handlers_def registry_made_def toolbox_env_def)

lemma made_insert_mcp:
  "\<forall>(n, ts) \<in> set toolsets. toolset_made Z n ts \<Longrightarrow>
   \<forall>(n, ts) \<in> set (snd (insert_mcp_toolsets always servers toolsets)). toolset_made Z n ts"
proof (induction always servers toolsets rule: insert_mcp_toolsets.induct)
  case (2 always name transport servers toolsets)
  let ?ts = "AList.update name (McpServerToolset \<lparr>tce_name = name, tce_description =
      str ''Curated MCP toolset from server `'' @ name @ str ''` over `'' @ mcp_transport_as_str transport @ str ''`.''\<rparr> name) toolsets"
  have "\<forall>(n, ts) \<in> set ?ts. toolset_made Z n ts"
  proof clarify
    fix n ts assume "(n, ts) \<in> set ?ts"
    then have "(n, ts) \<in> insert (name, McpServerToolset \<lparr>tce_name = name, tce_description =
      str ''Curated MCP toolset from server `'' @ name @ str ''` over `'' @ mcp_transport_as_str transport @ str ''`.''\<rparr> name)
        (set toolsets)" using set_alist_update by fastforce
    then show "toolset_made Z n ts" using 2(2) by auto
  qed
  then show ?case using 2 by simp
qed simp

lemma made_sync_mcp: "registry_made Z g \<Longrightarrow> registry_made Z (snd (sync_mcp_toolsets v t g))"
proof -
  assume g: "registry_made Z g"
  then have "\<forall>(n, ts) \<in> set (filter (\<lambda>(_, ts). \<not> is_mcp_toolset ts) (tg_toolsets g)). toolset_made Z n ts"
    by (auto simp: registry_made_def)
  from made_insert_mcp [OF this, of "tg_always_visible g" "tv_mcp_list_servers v t"] g
  show ?thesis by (simp add: sync_mcp_toolsets_def registry_made_def Let_def case_prod_beta)
qed

lemma made_register_builtin:
  assumes "registry_made Z g"
  shows "registry_made Z (snd (snd (register_builtin_into (toolbox_env Z) (t, g))))"
proof -
  let ?g0 = "fold register_if_missing (tv_builtin_tools (toolbox_env Z)) g"
  have g0: "registry_made Z ?g0"
    by (rule made_register_if_missing) (simp_all add: toolbox_env_def assms)
  have g2: "registry_made Z g2" if "register_builtin_toolset (tv_browser_toolset (toolbox_env Z)) ?g0 = Inr g1"
    "register_builtin_toolset (tv_memory_toolset (toolbox_env Z)) g1 = Inr g2" for g1 g2
    using made_builtin_toolsets [OF g0 _ that(1)] made_builtin_toolsets [OF _ _ that(2), of Z] by blast
  show ?thesis
    using g0 g2 made_builtin_toolsets [OF g0]
    by (auto simp: register_builtin_into_def Let_def made_sync_skills split: sum.split prod.split)
qed

section \<open>The management interfaces keep it so\<close>

datatype registry_op =
    RegisterBuiltin | EnableServer rstring | DisableServer rstring | RefreshServer rstring
  | ReloadSkills | DisableSkill rstring | EnableSkill rstring | RestrictSkills "rstring list"

fun run_registry_op :: "('w, 'p, 'c, 'x, 'q) toolbox_services \<Rightarrow> registry_op \<Rightarrow> (('w, 'c, 'x, 'q) tool_system, unit) act" where
  "run_registry_op Z RegisterBuiltin = api_register_builtin Z"
| "run_registry_op Z (EnableServer name) = act_bind (api_enable_server Z name) (\<lambda>_. act_ret ())"
| "run_registry_op Z (DisableServer name) = act_bind (api_disable_server Z name) (\<lambda>_. act_ret ())"
| "run_registry_op Z (RefreshServer name) = act_bind (api_refresh_server Z name) (\<lambda>_. act_ret ())"
| "run_registry_op Z ReloadSkills = act_bind (api_reload Z) (\<lambda>_. act_ret ())"
| "run_registry_op Z (DisableSkill name) = act_bind (api_disable_skill Z name) (\<lambda>_. act_ret ())"
| "run_registry_op Z (EnableSkill name) = act_bind (api_enable_skill Z name) (\<lambda>_. act_ret ())"
| "run_registry_op Z (RestrictSkills names) = act_bind (api_restrict_to Z names) (\<lambda>_. act_ret ())"

interpretation made: action_preorder "\<lambda>S S'. registry_made Z (snd S) \<longrightarrow> registry_made Z (snd S')" for Z
  by unfold_locales auto

lemma made_on_toolbox: "related (\<lambda>S S'. registry_made Z (snd S) \<longrightarrow> registry_made Z (snd S')) (on_toolbox m) S"
  by (cases S) (simp add: related_def on_toolbox_def split: prod.split)

lemma made_sync: "related (\<lambda>S S'. registry_made Z (snd S) \<longrightarrow> registry_made Z (snd S')) (sync_mcp Z) S"
    "related (\<lambda>S S'. registry_made Z (snd S) \<longrightarrow> registry_made Z (snd S')) (sync_skills Z) S"
    "related (\<lambda>S S'. registry_made Z (snd S) \<longrightarrow> registry_made Z (snd S')) (api_register_builtin Z) S"
  using made_sync_mcp [of Z "snd S" "toolbox_env Z" "fst S"] made_register_builtin [of Z "snd S" "fst S"]
  by (cases S; auto simp: related_def sync_mcp_def sync_skills_def api_register_builtin_def made_sync_skills
      split: prod.splits)+

lemma made_op: "registry_made Z (snd S) \<Longrightarrow> registry_made Z (snd (snd (run_registry_op Z x S)))"
proof -
  have "related (\<lambda>S S'. registry_made Z (snd S) \<longrightarrow> registry_made Z (snd S')) (run_registry_op Z x) S"
    by (cases x)
      (simp_all add: api_enable_server_def api_disable_server_def api_refresh_server_def mcp_api_def api_reload_def
        api_disable_skill_def api_enable_skill_def api_restrict_to_def skill_api_def made_sync made_on_toolbox
        made.rel_bind made.rel_ret)
  then show "registry_made Z (snd S) \<Longrightarrow> registry_made Z (snd (snd (run_registry_op Z x S)))" by (simp add: related_def)
qed

lemma made_from_config:
  assumes "from_config_with_skill_roots Z config roots w = (r, S)"
  shows "registry_made Z (snd S)"
proof -
  have "related (\<lambda>S S'. registry_made Z (snd S) \<longrightarrow> registry_made Z (snd S'))
    (act_bind (on_toolbox (on_part tb_mcp put_mcp (load_definitions (tbs_mcp Z) (build_mcp_server_definitions config))))
       (\<lambda>_. sync_mcp Z)) (with_skill_roots w roots)"
    by (intro made.rel_bind made_on_toolbox made_sync)
  then show ?thesis using assms
    by (simp add: related_def from_config_with_skill_roots_def with_skill_roots_def registry_made_new)
qed

section \<open>The servers keep their definitions\<close>

text \<open>The names and definitions of the servers, in the order of their registration.\<close>

definition mcp_definitions :: "('w, 'c) mcp_manager \<Rightarrow> (rstring \<times> mcp_server_definition) list" where
  "mcp_definitions m = map (\<lambda>(n, z). (n, mz_definition z)) (mm_servers m)"

lemma mcp_definitions_close [simp]: "mcp_definitions (close_client V c m) = mcp_definitions m"
  by (simp add: mcp_definitions_def)

lemma mcp_definitions_world [simp]: "mcp_definitions (m\<lparr>mm_world := w\<rparr>) = mcp_definitions m"
  by (simp add: mcp_definitions_def)

lemma mcp_definitions_put:
  assumes "map_of (mm_servers m) name = Some z" "mz_definition z' = mz_definition z"
  shows "mcp_definitions (put_server name z' m) = mcp_definitions m"
  using map_of_split [OF assms(1)] assms(2) by (auto simp: mcp_definitions_def)

lemma mcp_definitions_enable: "mcp_definitions (snd (enable_server V name m)) = mcp_definitions m"
proof (cases "begin_probe V name m")
  case (Pair r m1)
  show ?thesis
  proof (cases r)
    case (Inl e)
    then have "m1 = m" using Pair by (auto simp: begin_probe_def split: sum.splits prod.splits)
    then show ?thesis using Pair Inl by (simp add: enable_server_def act_bind_def)
  next
    case (Inr x)
    obtain t p where x: "x = (t, p)" by fastforce
    obtain z w where z: "map_of (mm_servers m) name = Some z" "m1 = m\<lparr>mm_world := w\<rparr>"
      using begin_probe_run [OF Pair [unfolded Inr x]] by metis
    then have z1: "map_of (mm_servers m1) name = Some z" by simp
    have "mz_definition (probed_server t p z) = mz_definition z"
      by (auto simp: probed_server_def split: sum.split)
    then have "mcp_definitions (snd (apply_probe V name t p m1)) = mcp_definitions m1"
      using mcp_definitions_put [OF z1] by (simp add: apply_probe_run [OF z1])
    then show ?thesis using Pair Inr x z(2) by (simp add: enable_server_def act_bind_def)
  qed
qed

lemma mcp_definitions_disable: "mcp_definitions (snd (disable_server V name m)) = mcp_definitions m"
proof -
  have "mcp_definitions (put_server name (z\<lparr>mz_enabled := False, mz_allow_thread_load := False, mz_state := McpDisabled,
          mz_discovered_tools := [], mz_last_checked_at := Some now, mz_client := None\<rparr>) (m\<lparr>mm_world := w1\<rparr>)) = mcp_definitions m"
    if "map_of (mm_servers m) name = Some z" for z now w1
    using mcp_definitions_put [of "m\<lparr>mm_world := w1\<rparr>" name z] that by simp
  then show ?thesis using disable_run [of V name m] by auto
qed

lemma mcp_definitions_refresh: "mcp_definitions (snd (refresh_server V name m)) = mcp_definitions m"
  by (simp add: refresh_server_def mcp_definitions_enable split: option.split)

lemma mcp_definitions_ensure: "mcp_definitions (snd (mcp_toolset_handlers V name m)) = mcp_definitions m"
proof -
  have "snd (ensure_server_tools V name m) = snd (enable_server V name m) \<or> snd (ensure_server_tools V name m) = m"
    by (auto simp: ensure_server_tools_def split: option.splits prod.splits sum.splits if_splits)
  then have "mcp_definitions (snd (ensure_server_tools V name m)) = mcp_definitions m"
    using mcp_definitions_enable [of V name m] by auto
  then show ?thesis
    by (cases "ensure_server_tools V name m")
      (auto simp: mcp_toolset_handlers_def act_bind_def act_ret_def split: sum.split)
qed

lemma collected_handlers:
  "x \<in> set (collect_handlers V tools) \<Longrightarrow> \<exists>t. x = (td_name (mv_definition t), mcp_tool_handler V t)"
proof -
  have "x \<in> set (fold (\<lambda>t. AList.update (td_name (mv_definition t)) (mcp_tool_handler V t)) tools hs) \<Longrightarrow>
    x \<in> set hs \<or> (\<exists>t. x = (td_name (mv_definition t), mcp_tool_handler V t))" for hs
  proof (induction tools arbitrary: hs)
    case (Cons t tools)
    from Cons.IH [of "AList.update (td_name (mv_definition t)) (mcp_tool_handler V t) hs"] Cons.prems
    show ?case using set_alist_update [of "td_name (mv_definition t)" "mcp_tool_handler V t" hs] by fastforce
  qed simp
  from this [of "[]"] show "x \<in> set (collect_handlers V tools) \<Longrightarrow> ?thesis"
    by (simp add: collect_handlers_def)
qed

lemma mcp_definitions_call: "mcp_definitions (snd (mcp_call_tool V s n j m)) = mcp_definitions m"
  by (simp add: mcp_definitions_def call_tool_servers)

text \<open>The MCP servers moved on, and beside them a part.\<close>

definition mcp_moved :: "('w, 'c, 'x, 'q) toolbox \<Rightarrow> ('w, 'c, 'x, 'q) toolbox \<Rightarrow> bool" where
  "mcp_moved t t' \<longleftrightarrow> touches_only tb_mcp put_mcp t t' \<and> mcp_definitions (tb_mcp t') = mcp_definitions (tb_mcp t)"

definition call_moved :: "tool_part \<Rightarrow> ('w, 'c, 'x, 'q) toolbox \<Rightarrow> ('w, 'c, 'x, 'q) toolbox \<Rightarrow> bool" where
  "call_moved p t t' \<longleftrightarrow> mcp_and_part_touched p t t' \<and> mcp_definitions (tb_mcp t') = mcp_definitions (tb_mcp t)"

lemma mcp_moved_refl: "mcp_moved t t"
  by (simp add: mcp_moved_def mcp_part.touches_refl)

lemma mcp_moved_trans: "mcp_moved t t' \<Longrightarrow> mcp_moved t' t'' \<Longrightarrow> mcp_moved t t''"
  unfolding mcp_moved_def using mcp_part.touches_trans by metis

lemma mcp_moved_call: "mcp_moved t t' \<Longrightarrow> call_moved p t t'"
  by (simp add: mcp_moved_def call_moved_def mcp_touched_both)

lemma part_keeps_mcp: "part_touched p t t' \<Longrightarrow> tb_mcp t' = tb_mcp t"
  by (cases p) (auto simp: touches_only_def dest: arg_cong [where f = tb_mcp])

lemma part_touched_moved: "part_touched p t t' \<Longrightarrow> call_moved p t t'"
  by (simp add: call_moved_def part_touched_both part_keeps_mcp)

lemma call_moved_trans: "call_moved p t t' \<Longrightarrow> call_moved p t' t'' \<Longrightarrow> call_moved p t t''"
  unfolding call_moved_def using both_touched_trans by metis

lemma call_moved_refl: "call_moved p t t"
  by (simp add: call_moved_def both_touched_refl)

lemma both_keeps_skills: "mcp_and_part_touched p t t' \<Longrightarrow> tb_skills t' = tb_skills t"
  by (cases p) (auto simp: touches_only_def touches_both_def dest: arg_cong [where f = tb_skills])

section \<open>What a call touches\<close>

text \<open>A handler changes no more than the MCP servers and the part of its name.\<close>

definition stays_in_part :: "rstring \<times> ('w, 'c, 'x, 'q) toolbox tool_handler \<Rightarrow> bool" where
  "stays_in_part = (\<lambda>(name, h). \<forall>context request t.
     call_moved (tool_part_of name) t (snd (hd_call h context request t)))"

lemma keeps_stays: "keeps_to_part x \<Longrightarrow> stays_in_part x"
  by (auto simp: keeps_to_part_def stays_in_part_def intro: part_touched_moved)

lemma visible_keeps: "registry_made Z g \<Longrightarrow> x \<in> set (tg_always_visible g) \<Longrightarrow> keeps_to_part x"
  by (auto simp: registry_made_def intro: builtin_keeps load_skill_keeps)

lemma toolset_is_made:
  assumes "registry_made Z g" "map_of (tg_toolsets g) n = Some ts"
  shows "toolset_made Z n ts"
  using assms(1) bspec [OF _ map_of_SomeD [OF assms(2)], of "\<lambda>(n, ts). toolset_made Z n ts"]
  by (simp add: registry_made_def)

lemma static_keeps:
  assumes "registry_made Z g" "map_of (tg_toolsets g) n = Some (StaticToolset d)" "x \<in> set (st_handlers d)"
  shows "keeps_to_part x"
proof -
  have "toolset_made Z n (StaticToolset d)"
    by (rule toolset_is_made [OF assms(1,2)])
  then show ?thesis using assms(3) by (auto intro: browser_keeps memory_keeps)
qed

lemma mcp_handler_stays: "stays_in_part (n, handler_on_part tb_mcp put_mcp (mcp_tool_handler V tool))"
proof -
  have "mcp_moved u (snd (hd_call (handler_on_part tb_mcp put_mcp (mcp_tool_handler V tool)) ctx request u))"
    for ctx request and u :: "('a, 'b, 'c, 'd) toolbox"
    by (simp add: mcp_moved_def mcp_part.handler_touches)
      (simp add: handler_on_part_def mcp_part.within_component mcp_tool_handler_def mcp_definitions_call)
  then show ?thesis by (simp add: stays_in_part_def mcp_moved_call)
qed

lemma mcp_handlers_stay:
  assumes "tv_mcp_ensure_server_tools (toolbox_env Z) server_name t = (r, t')"
  shows "mcp_moved t t' \<and> (\<forall>hs. r = Inr hs \<longrightarrow> list_all stays_in_part hs)"
proof -
  let ?m = "mcp_toolset_handlers (tbs_mcp Z) server_name"
  obtain r1 t1 where 1: "on_part tb_mcp put_mcp ?m t = (r1, t1)" by fastforce
  have moved: "mcp_moved t t1"
    using mcp_part.within_touches [of t ?m] mcp_part.within_component(1) [of ?m t]
      mcp_definitions_ensure [of "tbs_mcp Z" server_name "tb_mcp t"] 1
    by (simp add: mcp_moved_def)
  have "list_all stays_in_part (map (\<lambda>(name, h). (name, handler_on_part tb_mcp put_mcp h)) hs)" if ok: "r1 = Inr hs" for hs
  proof -
    obtain tools where "hs = collect_handlers (tbs_mcp Z) tools"
      using 1 ok by (auto simp: on_part_def mcp_toolset_handlers_def act_bind_def act_ret_def split: prod.splits sum.splits)
    then show ?thesis by (auto simp: list_all_iff mcp_handler_stays dest!: collected_handlers)
  qed
  then show ?thesis
    using assms 1 moved by (auto simp: toolbox_env_def act_bind_def act_ret_def split: sum.splits)
qed

lemma resolve_toolset_stays:
  assumes "registry_made Z (rn_registry s)" "resolve_toolset_handlers (toolbox_env Z) n s = (r, s')"
  shows "mcp_moved (rn_env s) (rn_env s') \<and> rn_registry s' = rn_registry s
    \<and> (\<forall>hs. r = Inr hs \<longrightarrow> list_all stays_in_part hs)"
proof (cases "map_of (tg_toolsets (rn_registry s)) n")
  case None
  then show ?thesis using assms(2) by (auto simp: resolve_toolset_handlers_def act_fail_def mcp_moved_refl)
next
  case (Some ts)
  show ?thesis
  proof (cases ts)
    case (StaticToolset d)
    then have "list_all stays_in_part (st_handlers d)"
      using static_keeps [OF assms(1)] Some by (auto simp: list_all_iff intro: keeps_stays)
    then show ?thesis
      using assms(2) Some StaticToolset by (auto simp: resolve_toolset_handlers_def act_ret_def mcp_moved_refl)
  next
    case (McpServerToolset entry server_name)
    obtain r1 t1 where 1: "tv_mcp_ensure_server_tools (toolbox_env Z) server_name (rn_env s) = (r1, t1)" by fastforce
    then show ?thesis
      using assms(2) Some McpServerToolset mcp_handlers_stay [OF 1]
      by (auto simp: resolve_toolset_handlers_def on_env_def)
  qed
qed

lemma find_in_toolsets_stays:
  "find_in_toolsets (toolbox_env Z) name ns s = (r, s') \<Longrightarrow> registry_made Z (rn_registry s) \<Longrightarrow>
   mcp_moved (rn_env s) (rn_env s') \<and> (\<forall>h. r = Inr (Some h) \<longrightarrow> stays_in_part (name, h))"
proof (induction ns arbitrary: s)
  case (Cons n ns)
  obtain r1 s1 where 1: "resolve_toolset_handlers (toolbox_env Z) n s = (r1, s1)" by fastforce
  note st = resolve_toolset_stays [OF Cons.prems(2) 1]
  show ?case
  proof (cases "\<exists>hs. r1 = Inr hs \<and> map_of hs name = None")
    case True
    then have "find_in_toolsets (toolbox_env Z) name ns s1 = (r, s')"
      using Cons.prems(1) 1 by (auto simp: act_bind_def)
    then show ?thesis using Cons.IH [of s1] Cons.prems(2) st mcp_moved_trans by metis
  next
    case False
    then show ?thesis
      using Cons.prems(1) 1 st
      by (cases r1) (auto simp: act_bind_def act_ret_def list_all_iff dest: map_of_SomeD split: option.splits)
  qed
qed (auto simp: act_ret_def mcp_moved_refl)

lemma resolve_handler_stays:
  assumes "resolve_handler (toolbox_env Z) name s = (r, s')" "registry_made Z (rn_registry s)"
  shows "mcp_moved (rn_env s) (rn_env s') \<and> (\<forall>h. r = Inr (Some h) \<longrightarrow> stays_in_part (name, h))"
proof (cases "map_of (tg_always_visible (rn_registry s)) name")
  case None
  then show ?thesis using find_in_toolsets_stays [OF _ assms(2)] assms(1) by (auto simp: resolve_handler_def)
next
  case (Some h)
  then have "stays_in_part (name, h)" using visible_keeps [OF assms(2) map_of_SomeD] keeps_stays by blast
  then show ?thesis using assms(1) Some by (auto simp: resolve_handler_def act_ret_def mcp_moved_refl)
qed

lemma open_tool_stays:
  assumes "open_tool (toolbox_env Z) n s = (r, s')" "registry_made Z (rn_registry s)"
  shows "mcp_moved (rn_env s) (rn_env s')"
proof -
  obtain r1 s1 where 1: "resolve_toolset_handlers (toolbox_env Z) (trim n) s = (r1, s1)" by fastforce
  show ?thesis
    using assms(1) resolve_toolset_stays [OF assms(2) 1]
    by (auto simp: open_tool_def Let_def act_fail_def act_bind_def 1 mcp_moved_refl
        split: if_splits sum.splits prod.splits)
qed

lemma unload_current_env: "rn_env (snd (unload_current n s)) = rn_env s"
  by (simp add: unload_current_def split: prod.split)

lemma close_tool_stays:
  assumes "close_tool (toolbox_env Z) n s = (r, s')" "registry_made Z (rn_registry s)"
  shows "touches_only tb_browser put_browser (rn_env s) (rn_env s')"
proof -
  have quiet: "touches_only tb_browser put_browser (rn_env s) (rn_env s')" if "unload_current (trim n) s = (r, s')"
    using that unload_current_env [of "trim n" s] by (simp add: browser_part.touches_refl)
  show ?thesis
  proof (cases "trim n = [] \<or> trim n \<notin> set (load_toolsets (rn_thread s))")
    case True
    then show ?thesis using assms(1) quiet
      by (cases "trim n = []") (auto simp: close_tool_def Let_def act_fail_def browser_part.touches_refl)
  next
    case False
    show ?thesis
    proof (cases "resolve_toolset_runtime (trim n) (rn_registry s)")
      case (Inr runtime)
      show ?thesis
      proof (cases runtime)
        case (Some on_unload)
        then obtain d where d: "map_of (tg_toolsets (rn_registry s)) (trim n) = Some (StaticToolset d)"
          "st_runtime d = Some on_unload"
          using Inr by (auto simp: resolve_toolset_runtime_def split: option.splits registered_toolset.splits)
        then have b: "on_unload = browser_unload Z"
          using toolset_is_made [OF assms(2) d(1)] by auto
        let ?id = "tcl_thread_id (th_locator (rn_thread s))"
        obtain r1 t1 where 1: "browser_unload Z ?id (rn_env s) = (r1, t1)" by fastforce
        have t: "touches_only tb_browser put_browser (rn_env s) t1"
          using browser_part.within_touches 1 unfolding browser_unload_def by (metis snd_conv)
        have "act_bind (on_env (browser_unload Z ?id)) (\<lambda>_. unload_current (trim n)) s = (r, s')"
          using assms(1) False Inr Some b by (simp add: close_tool_def Let_def)
        then have "rn_env s' = t1"
          using unload_current_env [of "trim n" "s\<lparr>rn_env := t1\<rparr>"] 1
          by (cases r1) (auto simp: act_bind_def on_env_def)
        then show ?thesis using t by simp
      qed (use assms(1) False Inr quiet in \<open>simp add: close_tool_def Let_def\<close>)
    qed (use assms(1) False quiet in \<open>simp add: close_tool_def Let_def\<close>)
  qed
qed

lemma call_stays:
  assumes "call_for_context (toolbox_env Z) q s = (r, s')" "registry_made Z (rn_registry s)"
  shows "call_moved (tool_part_of (rq_name q)) (rn_env s) (rn_env s')"
proof -
  consider "rq_name q = str ''compact''" | "rq_name q = str ''load_toolset''" | "rq_name q = str ''unload_toolset''"
    | "rq_name q \<notin> {str ''compact'', str ''load_toolset'', str ''unload_toolset''}" by blast
  then show ?thesis
  proof cases
    case 1
    then show ?thesis using assms(1) by (auto simp: call_for_context_def Let_def act_fail_def call_moved_refl)
  next
    case 2
    then have call: "registry_load_toolset (toolbox_env Z) q s = (r, s')"
      using assms(1) by (simp add: call_for_context_def Let_def)
    have "mcp_moved (rn_env s) (rn_env s')"
    proof (cases "parse_manage_toolset_arguments (toolbox_env Z) (str ''load_toolset'') (rq_arguments q)")
      case (Inr name)
      obtain r1 s1 where 1: "open_tool (toolbox_env Z) (trim name) s = (r1, s1)" by fastforce
      then show ?thesis using call Inr open_tool_stays [OF 1 assms(2)]
        by (auto simp: registry_load_toolset_def act_bind_def act_lift_def Let_def split: sum.splits)
    qed (use call in \<open>auto simp: registry_load_toolset_def act_bind_def act_lift_def mcp_moved_refl\<close>)
    then show ?thesis by (rule mcp_moved_call)
  next
    case 3
    then have call: "registry_unload_toolset (toolbox_env Z) q s = (r, s')"
      using assms(1) by (simp add: call_for_context_def Let_def)
    have "touches_only tb_browser put_browser (rn_env s) (rn_env s')"
    proof (cases "parse_manage_toolset_arguments (toolbox_env Z) (str ''unload_toolset'') (rq_arguments q)")
      case (Inr name)
      obtain r1 s1 where 1: "close_tool (toolbox_env Z) (trim name) s = (r1, s1)" by fastforce
      then show ?thesis using call Inr close_tool_stays [OF 1 assms(2)]
        by (auto simp: registry_unload_toolset_def act_bind_def act_lift_def Let_def split: sum.splits)
    qed (use call in \<open>auto simp: registry_unload_toolset_def act_bind_def act_lift_def browser_part.touches_refl\<close>)
    then show ?thesis using part_touched_moved [of BrowserPart] by (simp add: 3 tool_part_of_def)
  next
    case 4
    obtain r1 s1 where 1: "resolve_handler (toolbox_env Z) (rq_name q) s = (r1, s1)" by fastforce
    note st = resolve_handler_stays [OF 1 assms(2)]
    have m: "call_moved (tool_part_of (rq_name q)) (rn_env s) (rn_env s1)"
      using st by (blast intro: mcp_moved_call)
    show ?thesis
    proof (cases "\<exists>h. r1 = Inr (Some h)")
      case True
      then obtain h where h: "r1 = Inr (Some h)" by blast
      let ?c = "tool_call_context_for_thread (tcl_thread_id (th_locator (rn_thread s)))"
      have "call_moved (tool_part_of (rq_name q)) (rn_env s1) (snd (hd_call h ?c q (rn_env s1)))"
        using st h by (simp add: stays_in_part_def)
      then have "call_moved (tool_part_of (rq_name q)) (rn_env s) (snd (hd_call h ?c q (rn_env s1)))"
        by (rule call_moved_trans [OF m])
      moreover have "rn_env s' = snd (hd_call h ?c q (rn_env s1))"
        using assms(1) 4 1 h by (auto simp: call_for_context_def Let_def act_bind_def on_env_def split: prod.splits)
      ultimately show ?thesis by simp
    next
      case False
      then have "s' = s1" using assms(1) 4 1
        by (auto simp: call_for_context_def Let_def act_bind_def act_fail_def split: sum.splits option.splits)
      then show ?thesis using m by simp
    qed
  qed
qed

section \<open>Runs\<close>

text \<open>
  Management operations and calls of threads, in any order; \<open>rs\<close> lists what the management operations answered. A
  call starts from the state of the tools with the thread that makes it.
\<close>

inductive registry_trace ::
    "('w, 'p, 'c, 'x, 'q) toolbox_services \<Rightarrow> ('w, 'c, 'x, 'q) tool_system \<Rightarrow> (err + unit) list
     \<Rightarrow> ('w, 'c, 'x, 'q) tool_system \<Rightarrow> bool" for Z S0 where
  registry_start: "registry_trace Z S0 [] S0"
| registry_manage: "registry_trace Z S0 rs S \<Longrightarrow> run_registry_op Z x S = (r, S') \<Longrightarrow> registry_trace Z S0 (rs @ [r]) S'"
| registry_call: "registry_trace Z S0 rs (t, g) \<Longrightarrow>
    call_for_context (toolbox_env Z) q \<lparr>rn_env = t, rn_registry = g, rn_thread = th\<rparr> = (r, s') \<Longrightarrow>
    registry_trace Z S0 rs (rn_env s', g)"

lemma made_trace: "registry_trace Z S0 rs S \<Longrightarrow> registry_made Z (snd S0) \<Longrightarrow> registry_made Z (snd S)"
proof (induction rule: registry_trace.induct)
  case (registry_manage rs S x r S')
  then show ?case using made_op [of Z S x] by simp
qed simp_all

section \<open>The registry in step with its neighbours\<close>

definition mcp_toolset_of :: "mcp_server_snapshot \<Rightarrow> rstring \<times> 'e registered_toolset" where
  "mcp_toolset_of server = (mn_name server, McpServerToolset
     \<lparr>tce_name = mn_name server, tce_description = str ''Curated MCP toolset from server `'' @ mn_name server
        @ str ''` over `'' @ mcp_transport_as_str (mn_transport server) @ str ''`.''\<rparr> (mn_name server))"

definition mcp_entries :: "'e tool_registry \<Rightarrow> (rstring \<times> 'e registered_toolset) list" where
  "mcp_entries g = filter (\<lambda>(_, ts). is_mcp_toolset ts) (tg_toolsets g)"

text \<open>The toolsets of MCP servers are those of the listed servers, and \<open>load_skill\<close> is offered when a skill is enabled.\<close>

definition skills_in_step :: "('w, 'c, 'x, 'q) tool_system \<Rightarrow> bool" where
  "skills_in_step = (\<lambda>(t, g).
     map_of (tg_always_visible g) (str ''load_skill'') \<noteq> None \<longleftrightarrow> has_enabled_skills (tb_skills t))"

definition servers_in_step :: "('w, 'c, 'x, 'q) tool_system \<Rightarrow> bool" where
  "servers_in_step = (\<lambda>(t, g). mcp_entries g = map mcp_toolset_of (list_servers (tb_mcp t)))"

lemma insert_mcp_ok:
  "insert_mcp_toolsets always (map (\<lambda>s. (mn_name s, mn_transport s)) servers) toolsets = (Inr (), toolsets') \<Longrightarrow>
   toolsets' = toolsets @ map mcp_toolset_of servers"
proof (induction servers arbitrary: toolsets)
  case (Cons s servers)
  then have "map_of toolsets (mn_name s) = None"
    and "insert_mcp_toolsets always (map (\<lambda>s. (mn_name s, mn_transport s)) servers)
      (AList.update (mn_name s) (snd (mcp_toolset_of s)) toolsets) = (Inr (), toolsets')"
    by (auto simp: mcp_toolset_of_def split: if_splits)
  then have "toolsets' = AList.update (mn_name s) (snd (mcp_toolset_of s)) toolsets @ map mcp_toolset_of servers"
    and "AList.update (mn_name s) (snd (mcp_toolset_of s)) toolsets = toolsets @ [(mn_name s, snd (mcp_toolset_of s))]"
    by (blast intro: Cons.IH, simp only: update_new)
  then show ?case by (simp add: mcp_toolset_of_def)
qed simp

lemma mcp_toolset_of_is_mcp: "filter (\<lambda>(_, ts). is_mcp_toolset ts) (map mcp_toolset_of servers) = map mcp_toolset_of servers"
  by (induction servers) (simp_all add: mcp_toolset_of_def)

lemma sync_mcp_ok:
  assumes "sync_mcp Z (t, g) = (Inr (), S')"
  obtains g' where "S' = (t, g')" "servers_in_step (t, g')" "tg_always_visible g' = tg_always_visible g"
proof -
  let ?kept = "filter (\<lambda>(_, ts). \<not> is_mcp_toolset ts) (tg_toolsets g)"
  obtain toolsets where "insert_mcp_toolsets (tg_always_visible g)
      (map (\<lambda>s. (mn_name s, mn_transport s)) (list_servers (tb_mcp t))) ?kept = (Inr (), toolsets)"
    and S': "S' = (t, g\<lparr>tg_toolsets := toolsets\<rparr>)"
    using assms by (auto simp: sync_mcp_def sync_mcp_toolsets_def Let_def toolbox_env_def split: prod.splits)
  from insert_mcp_ok [OF this(1)] have "filter (\<lambda>(_, ts). is_mcp_toolset ts) toolsets = map mcp_toolset_of (list_servers (tb_mcp t))"
    by (simp add: mcp_toolset_of_is_mcp filter_empty_conv case_prod_beta)
  then show ?thesis using that [of "g\<lparr>tg_toolsets := toolsets\<rparr>"] S' by (simp add: servers_in_step_def mcp_entries_def)
qed

lemma skills_step: "skills_in_step (t, sync_skill_handlers (toolbox_env Z) t g)"
  by (simp add: skills_in_step_def sync_skill_handlers_def toolbox_env_def update_conv' delete_conv')

lemma sync_skill_entries: "mcp_entries (sync_skill_handlers v t g) = mcp_entries g"
  by (simp add: sync_skill_handlers_def mcp_entries_def)

lemma register_if_missing_toolsets: "tg_toolsets (fold register_if_missing hs g) = tg_toolsets g"
  by (induction hs arbitrary: g) (simp_all add: register_if_missing_def Let_def)

lemma register_builtin_entries: "register_builtin_toolset d g = Inr g' \<Longrightarrow> mcp_entries g' = mcp_entries g"
  by (auto simp: register_builtin_toolset_def register_toolset_with_runtime_def mcp_entries_def update_new
      split: if_splits sum.splits)

lemma register_builtin_in_step:
  assumes "api_register_builtin Z (t, g) = (Inr (), (t', g'))"
  shows "skills_in_step (t', g')" "mcp_entries g' = mcp_entries g" "tb_mcp t' = tb_mcp t"
proof -
  let ?g0 = "fold register_if_missing (tv_builtin_tools (toolbox_env Z)) g"
  obtain g1 g2 where g: "register_builtin_toolset (tv_browser_toolset (toolbox_env Z)) ?g0 = Inr g1"
    "register_builtin_toolset (tv_memory_toolset (toolbox_env Z)) g1 = Inr g2"
    "tv_skills_reload (toolbox_env Z) t = (Inr (), t')" "g' = sync_skill_handlers (toolbox_env Z) t' g2"
    using assms by (auto simp: api_register_builtin_def register_builtin_into_def Let_def split: sum.splits prod.splits)
  show "skills_in_step (t', g')" by (simp add: g(4) skills_step)
  have "mcp_entries ?g0 = mcp_entries g" by (simp add: mcp_entries_def register_if_missing_toolsets)
  then show "mcp_entries g' = mcp_entries g"
    by (simp add: g(4) sync_skill_entries register_builtin_entries [OF g(1)] register_builtin_entries [OF g(2)])
  have "act_bind (reload_skills Z) (\<lambda>_. act_ret ()) t = (Inr (), t')" using g(3) by (simp add: toolbox_env_def)
  then show "tb_mcp t' = tb_mcp t"
    by (auto simp: act_bind_def act_ret_def reload_skills_def on_part_def split: sum.splits prod.splits)
qed

lemma mcp_api_in_step:
  assumes "act_bind (mcp_api Z m) (\<lambda>_. act_ret ()) S = (Inr (), S')" "skills_in_step S"
  shows "skills_in_step S' \<and> servers_in_step S'"
proof -
  obtain t g where S: "S = (t, g)" by fastforce
  obtain r1 t1 where 1: "on_part tb_mcp put_mcp m t = (r1, t1)" by fastforce
  then obtain x where x: "r1 = Inr x" "sync_mcp Z (t1, g) = (Inr (), S')"
    using assms(1) by (auto simp: S mcp_api_def act_bind_def act_ret_def on_toolbox_def split: sum.splits prod.splits)
  obtain g' where g': "S' = (t1, g')" "servers_in_step (t1, g')" "tg_always_visible g' = tg_always_visible g"
    by (rule sync_mcp_ok [OF x(2)])
  have "tb_skills t1 = tb_skills t" using 1 by (auto simp: on_part_def split: prod.splits)
  then show ?thesis using g' assms(2) by (simp add: S skills_in_step_def)
qed

lemma skill_api_in_step:
  assumes "act_bind (skill_api Z m) (\<lambda>_. act_ret ()) (t, g) = (Inr (), S')" "servers_in_step (t, g)"
  shows "skills_in_step S' \<and> servers_in_step S'"
proof -
  obtain r1 t1 where 1: "on_part tb_skills put_skills (m (tb_host t)) t = (r1, t1)" by fastforce
  then have "S' = (t1, sync_skill_handlers (toolbox_env Z) t1 g)"
    using assms(1) by (auto simp: skill_api_def act_bind_def act_ret_def on_toolbox_def sync_skills_def split: sum.splits)
  moreover have "tb_mcp t1 = tb_mcp t" using 1 by (auto simp: on_part_def split: prod.splits)
  ultimately show ?thesis using assms(2) by (simp add: skills_step servers_in_step_def sync_skill_entries)
qed

lemma op_in_step:
  assumes "run_registry_op Z x S = (Inr (), S')" "skills_in_step S" "servers_in_step S"
  shows "skills_in_step S' \<and> servers_in_step S'"
proof -
  obtain t g t' g' where S: "S = (t, g)" "S' = (t', g')" by (cases S, cases S')
  show ?thesis
  proof (cases x)
    case RegisterBuiltin
    then show ?thesis using register_builtin_in_step [of Z t g t' g'] assms S by (simp add: servers_in_step_def)
  qed (use assms S in \<open>auto simp: api_enable_server_def api_disable_server_def api_refresh_server_def api_reload_def
      api_disable_skill_def api_enable_skill_def api_restrict_to_def dest: mcp_api_in_step skill_api_in_step\<close>)
qed

lemma map_insort_key: "map f (insort_key (\<lambda>x. g (f x)) x xs) = insort_key g (f x) (map f xs)"
  by (induction xs) simp_all

lemma map_sort_key: "map f (sort_key (\<lambda>x. g (f x)) xs) = sort_key g (map f xs)"
  by (induction xs) (simp_all add: map_insort_key)

lemma listed_servers_definitions:
  "map (\<lambda>s. (mn_name s, mn_transport s)) (list_servers m)
     = sort_key fst (map (\<lambda>(n, d). (md_name d, md_transport d)) (mcp_definitions m))"
proof -
  have "map (\<lambda>s. (mn_name s, mn_transport s)) (list_servers m)
     = sort_key fst (map (\<lambda>s. (mn_name s, mn_transport s)) (map (mcp_snapshot \<circ> snd) (mm_servers m)))"
    using map_sort_key [of "\<lambda>s. (mn_name s, mn_transport s)" fst "map (mcp_snapshot \<circ> snd) (mm_servers m)"]
    by (simp add: list_servers_def)
  then show ?thesis by (simp add: mcp_definitions_def comp_def case_prod_beta mcp_snapshot_def)
qed

lemma mcp_toolset_of_pair:
  "map mcp_toolset_of servers = map (\<lambda>(n, transport). (n, McpServerToolset
     \<lparr>tce_name = n, tce_description = str ''Curated MCP toolset from server `'' @ n
        @ str ''` over `'' @ mcp_transport_as_str transport @ str ''`.''\<rparr> n)) (map (\<lambda>s. (mn_name s, mn_transport s)) servers)"
  by (simp add: mcp_toolset_of_def)

lemma same_definitions_same_toolsets:
  "mcp_definitions m' = mcp_definitions m \<Longrightarrow> map mcp_toolset_of (list_servers m') = map mcp_toolset_of (list_servers m)"
  by (simp only: mcp_toolset_of_pair listed_servers_definitions)

lemma from_config_in_step:
  assumes "from_config_with_skill_roots Z config roots w = (Inr (), S0)"
  shows "skills_in_step S0 \<and> servers_in_step S0"
proof -
  let ?load = "load_definitions (tbs_mcp Z) (build_mcp_server_definitions config)"
  have "act_bind (mcp_api Z ?load) (\<lambda>_. act_ret ()) (with_skill_roots w roots) = (Inr (), S0)"
    using assms by (auto simp: from_config_with_skill_roots_def mcp_api_def act_bind_def act_ret_def split: prod.splits sum.splits)
  then show ?thesis
    by (rule mcp_api_in_step)
      (simp add: with_skill_roots_def skills_in_step_def tool_registry_new_def has_enabled_skills_def
        skill_registry_with_roots_def)
qed

lemma trace_in_step:
  assumes "registry_trace Z S0 rs S" "list_all (\<lambda>r. r = Inr ()) rs"
    and "registry_made Z (snd S0)" "skills_in_step S0" "servers_in_step S0"
  shows "skills_in_step S \<and> servers_in_step S"
  using assms
proof (induction rule: registry_trace.induct)
  case (registry_manage rs S x r S')
  then show ?case using op_in_step [of Z x S S'] by simp
next
  case (registry_call rs t g q th r s')
  have made: "registry_made Z (rn_registry \<lparr>rn_env = t, rn_registry = g, rn_thread = th\<rparr>)"
    using made_trace [OF registry_call(1) registry_call.prems(2)] by simp
  have "call_moved (tool_part_of (rq_name q)) t (rn_env s')"
    using call_stays [OF registry_call(2) made] by simp
  then have skills: "tb_skills (rn_env s') = tb_skills t"
    and servers: "mcp_definitions (tb_mcp (rn_env s')) = mcp_definitions (tb_mcp t)"
    by (auto simp: call_moved_def dest: both_keeps_skills)
  from registry_call.IH [OF registry_call.prems] show ?case
    by (simp add: skills_in_step_def servers_in_step_def skills same_definitions_same_toolsets [OF servers])
qed simp

text \<open>
  C37: the registry stays in step with the servers and the skills. After a start from a configuration that succeeds, and
  as long as every management operation succeeds, whatever tools are called between them and however these end, the
  model is offered load_skill exactly when a local skill is enabled, and the MCP toolsets are exactly one toolset for
  each server of the manager, in the order of the server names, described with its transport.
\<close>
theorem registry_stays_in_step:
  assumes "from_config_with_skill_roots Z config roots w = (Inr (), S0)"
    and "registry_trace Z S0 rs (t, g)" "list_all (\<lambda>r. r = Inr ()) rs"
  shows "(map_of (tg_always_visible g) (str ''load_skill'') \<noteq> None \<longleftrightarrow> has_enabled_skills (tb_skills t))
    \<and> filter (\<lambda>(_, ts). is_mcp_toolset ts) (tg_toolsets g) = map mcp_toolset_of (list_servers (tb_mcp t))"
  using trace_in_step [OF assms(2,3) made_from_config [OF assms(1)]] from_config_in_step [OF assms(1)]
  by (simp add: skills_in_step_def servers_in_step_def mcp_entries_def)

section \<open>A server named like a tool\<close>

definition builtin_tool_names :: "rstring set" where
  "builtin_tool_names = {str ''read'', str ''write'', str ''edit'', str ''exec_command'', str ''write_stdin'',
     str ''list_unread_command_tasks'', str ''bash''}"

lemma register_if_missing_visible:
  "map_of (tg_always_visible (fold register_if_missing hs g)) name \<noteq> None
     \<longleftrightarrow> map_of (tg_always_visible g) name \<noteq> None \<or> name \<in> (td_name \<circ> hd_definition) ` set hs"
  by (induction hs arbitrary: g) (auto simp: register_if_missing_def Let_def update_conv')

lemma builtin_tools_named: "(td_name \<circ> hd_definition) ` set (builtin_tools Z) = builtin_tool_names"
  by (auto simp: builtin_tools_def builtin_tool_names_def)

lemma register_builtin_visible:
  assumes "api_register_builtin Z (t, g) = (Inr (), (t', g'))" "registry_made Z g" "name \<in> builtin_tool_names"
  shows "map_of (tg_always_visible g') name \<noteq> None"
proof -
  let ?g0 = "fold register_if_missing (tv_builtin_tools (toolbox_env Z)) g"
  have g0: "registry_made Z ?g0"
    by (rule made_register_if_missing) (simp_all add: toolbox_env_def assms)
  obtain g1 g2 where g: "register_builtin_toolset (tv_browser_toolset (toolbox_env Z)) ?g0 = Inr g1"
    "register_builtin_toolset (tv_memory_toolset (toolbox_env Z)) g1 = Inr g2" "g' = sync_skill_handlers (toolbox_env Z) t' g2"
    using assms(1) by (auto simp: api_register_builtin_def register_builtin_into_def Let_def split: sum.splits prod.splits)
  have "tg_always_visible g2 = tg_always_visible ?g0"
    using made_builtin_toolsets [OF g0 _ g(1)] made_builtin_toolsets [OF _ _ g(2), of Z] by simp
  moreover have "map_of (tg_always_visible ?g0) name \<noteq> None"
    unfolding register_if_missing_visible using assms(3) builtin_tools_named [of Z] by (simp add: toolbox_env_def)
  moreover have "name \<noteq> str ''load_skill''" using assms(3) by (auto simp: builtin_tool_names_def)
  ultimately show ?thesis by (simp add: g(3) sync_skill_handlers_def update_conv' delete_conv')
qed

lemma insert_mcp_conflict:
  assumes "n \<in> fst ` set servers" "map_of always n \<noteq> None"
  shows "\<exists>e. fst (insert_mcp_toolsets always servers toolsets) = Inl e"
  using assms by (induction always servers toolsets rule: insert_mcp_toolsets.induct) auto

lemma insert_mcp_never:
  "map_of always n \<noteq> None \<Longrightarrow> map_of (snd (insert_mcp_toolsets always servers toolsets)) n = map_of toolsets n"
  by (induction always servers toolsets rule: insert_mcp_toolsets.induct) (auto simp: update_conv')

lemma sync_mcp_conflict:
  assumes "name \<in> mn_name ` set (list_servers (tb_mcp t))" "map_of (tg_always_visible g) name \<noteq> None"
    and "registry_made Z g" "name \<in> builtin_tool_names"
  shows "\<exists>e g'. sync_mcp Z (t, g) = (Inl e, (t, g')) \<and> \<not> toolset_registered name g'"
proof -
  let ?kept = "filter (\<lambda>(_, ts). \<not> is_mcp_toolset ts) (tg_toolsets g)"
  let ?servers = "map (\<lambda>s. (mn_name s, mn_transport s)) (list_servers (tb_mcp t))"
  have "name \<in> fst ` set ?servers" using assms(1) by force
  then obtain e where e: "fst (insert_mcp_toolsets (tg_always_visible g) ?servers ?kept) = Inl e"
    using insert_mcp_conflict [OF _ assms(2)] by blast
  have "ts \<noteq> StaticToolset d" if "(name, ts) \<in> set (tg_toolsets g)" for ts d
  proof
    assume "ts = StaticToolset d"
    then have "toolset_made Z name (StaticToolset d)" using assms(3) that by (auto simp: registry_made_def simp del: toolset_made.simps)
    then show False using assms(4) by (auto simp: builtin_tool_names_def)
  qed
  then have "is_mcp_toolset ts" if "(name, ts) \<in> set (tg_toolsets g)" for ts
    using that by (cases ts) auto
  then have "map_of ?kept name = None" by (auto simp: map_of_eq_None_iff)
  then have "map_of (snd (insert_mcp_toolsets (tg_always_visible g) ?servers ?kept)) name = None"
    by (simp add: insert_mcp_never [OF assms(2)])
  then show ?thesis
    using e by (cases "insert_mcp_toolsets (tg_always_visible g) ?servers ?kept")
      (simp add: sync_mcp_def sync_mcp_toolsets_def Let_def toolbox_env_def toolset_registered_def)
qed

lemma listed_names: "mn_name ` set (list_servers m) = (\<lambda>(n, d). md_name d) ` set (mcp_definitions m)"
  by (force simp: list_servers_def mcp_definitions_def mcp_snapshot_def image_iff)

lemma mcp_api_conflict:
  assumes "name \<in> mn_name ` set (list_servers (tb_mcp t))" "map_of (tg_always_visible g) name \<noteq> None"
    and "registry_made Z g" "name \<in> builtin_tool_names"
    and "mcp_definitions (snd (m (tb_mcp t))) = mcp_definitions (tb_mcp t)"
  shows "\<exists>e. fst (act_bind (mcp_api Z m) (\<lambda>_. act_ret ()) (t, g)) = Inl e"
    and "m (tb_mcp t) = (Inr x, mm) \<Longrightarrow>
      \<exists>e g'. act_bind (mcp_api Z m) (\<lambda>_. act_ret ()) (t, g) = (Inl e, (put_mcp mm t, g')) \<and> \<not> toolset_registered name g'"
proof -
  obtain r m1 where m: "m (tb_mcp t) = (r, m1)" by fastforce
  have "name \<in> mn_name ` set (list_servers (tb_mcp (put_mcp m1 t)))"
    using assms(1,5) m by (simp add: listed_names)
  from sync_mcp_conflict [OF this assms(2-4)] obtain e g' where
    "sync_mcp Z (put_mcp m1 t, g) = (Inl e, (put_mcp m1 t, g'))" "\<not> toolset_registered name g'" by blast
  then show "\<exists>e. fst (act_bind (mcp_api Z m) (\<lambda>_. act_ret ()) (t, g)) = Inl e"
    and "m (tb_mcp t) = (Inr x, mm) \<Longrightarrow>
      \<exists>e g'. act_bind (mcp_api Z m) (\<lambda>_. act_ret ()) (t, g) = (Inl e, (put_mcp mm t, g')) \<and> \<not> toolset_registered name g'"
    using m by (cases r; simp add: mcp_api_def on_toolbox_def on_part_def act_bind_def)+
qed

lemma mcp_api_gone:
  assumes "name \<in> mn_name ` set (list_servers (tb_mcp t))" "map_of (tg_always_visible g) name \<noteq> None"
    and "registry_made Z g" "name \<in> builtin_tool_names"
    and "mcp_definitions (snd (m (tb_mcp t))) = mcp_definitions (tb_mcp t)" "m (tb_mcp t) = (Inr x, mm)"
  shows "\<not> toolset_registered name (snd (snd (act_bind (mcp_api Z m) (\<lambda>_. act_ret ()) (t, g))))"
  using mcp_api_conflict(2) [where m = m, OF assms] by fastforce

lemma insert_mcp_total:
  assumes "distinct (map fst servers)" "always = []" "\<forall>n \<in> fst ` set servers. map_of toolsets n = None"
  shows "fst (insert_mcp_toolsets always servers toolsets) = Inr ()"
  using assms
proof (induction always servers toolsets rule: insert_mcp_toolsets.induct)
  case (2 always name transport servers toolsets)
  have "fst n \<noteq> name" if "n \<in> set servers" for n using 2(2) that by (auto simp: image_iff)
  then show ?case using 2 by (simp add: update_conv')
qed simp

lemma loaded_names:
  assumes "load_definitions V ds (mcp_manager_new w) = (Inr (), m)"
  shows "distinct (map mn_name (list_servers m))" "map mn_name (list_servers m) = sort (map fst (mm_servers m))"
proof -
  obtain ls where "mcp_trace V (mcp_manager_new w, []) ls (snd (load_definitions V ds (mcp_manager_new w)), [])"
    using load_is_trace by blast
  from wf_trace [OF this wf_new] have ok: "servers_ok (mm_servers m)" using assms by (simp add: mcp_wf_def)
  then have "map mn_name (map (mcp_snapshot \<circ> snd) (mm_servers m)) = map fst (mm_servers m)"
    by (auto simp: servers_ok_def list_all_iff server_ok_def mcp_snapshot_def)
  then show "map mn_name (list_servers m) = sort (map fst (mm_servers m))"
    by (simp only: list_servers_def sort_key_as_sort)
  then show "distinct (map mn_name (list_servers m))" using ok by (simp add: servers_ok_def)
qed

lemma fresh_tools:
  "with_skill_roots w roots = (t, g) \<Longrightarrow> tb_mcp t = mcp_manager_new (tw_mcp w) \<and> tb_host t = tw_host w
    \<and> tb_skills t = skill_registry_with_roots roots \<and> tg_always_visible g = [] \<and> tg_toolsets g = []"
  by (auto simp: with_skill_roots_def tool_registry_new_def)

lemma insert_mcp_only:
  "(n, ts) \<in> set (snd (insert_mcp_toolsets always servers toolsets)) \<Longrightarrow> is_mcp_toolset ts \<or> (n, ts) \<in> set toolsets"
proof (induction always servers toolsets rule: insert_mcp_toolsets.induct)
  case (2 always name transport servers toolsets)
  then show ?case using set_alist_update by (fastforce split: if_splits)
qed simp

text \<open>A registry is made exactly when the definitions of the servers register.\<close>

lemma from_config_outcome:
  fixes S :: "('w, 'c, 'x, 'q) tool_system"
  assumes "from_config_with_skill_roots Z config roots w = (r, S)"
    and "load_definitions (tbs_mcp Z) (build_mcp_server_definitions config) (mcp_manager_new (tw_mcp w)) = (r1, m)"
  shows "r = r1" "tb_host (fst S) = tw_host w" "tb_skills (fst S) = skill_registry_with_roots roots"
    and "tb_mcp (fst S) = m" "tg_always_visible (snd S) = []" "\<forall>(n, ts) \<in> set (tg_toolsets (snd S)). is_mcp_toolset ts"
proof -
  obtain t' :: "('w, 'c, 'x, 'q) toolbox" and g' where t': "with_skill_roots w roots = (t', g')" by fastforce
  note fresh = fresh_tools [OF t']
  have load: "on_toolbox (on_part tb_mcp put_mcp (load_definitions (tbs_mcp Z) (build_mcp_server_definitions config))) (t', g')
    = (r1, (put_mcp m t', g'))"
    using fresh assms(2) by (simp add: on_toolbox_def on_part_def)
  have "r = r1 \<and> tb_host (fst S) = tw_host w \<and> tb_skills (fst S) = skill_registry_with_roots roots
    \<and> tb_mcp (fst S) = m \<and> tg_always_visible (snd S) = [] \<and> (\<forall>(n, ts) \<in> set (tg_toolsets (snd S)). is_mcp_toolset ts)"
  proof (cases r1)
    case (Inl e)
    then show ?thesis using assms(1) load t' fresh by (auto simp: from_config_with_skill_roots_def act_bind_def)
  next
    case (Inr u)
    then have "distinct (map mn_name (list_servers m))" using loaded_names(1) assms(2) by simp
    then have "fst (insert_mcp_toolsets ([] :: (rstring \<times> ('w, 'c, 'x, 'q) toolbox tool_handler) list)
        (map (\<lambda>s. (mn_name s, mn_transport s)) (list_servers m)) []) = Inr ()"
      by (intro insert_mcp_total) (simp_all add: comp_def)
    moreover have "is_mcp_toolset ts" if "(n, ts) \<in> set (snd (insert_mcp_toolsets
        ([] :: (rstring \<times> ('w, 'c, 'x, 'q) toolbox tool_handler) list) (map (\<lambda>s. (mn_name s, mn_transport s)) (list_servers m)) []))" for n ts
      using insert_mcp_only [OF that] by simp
    ultimately show ?thesis using assms(1) load t' fresh Inr
      by (auto simp: from_config_with_skill_roots_def act_bind_def sync_mcp_def sync_mcp_toolsets_def Let_def toolbox_env_def
          split: prod.splits)
  qed
  then show "r = r1" "tb_host (fst S) = tw_host w" "tb_skills (fst S) = skill_registry_with_roots roots"
    "tb_mcp (fst S) = m" "tg_always_visible (snd S) = []" "\<forall>(n, ts) \<in> set (tg_toolsets (snd S)). is_mcp_toolset ts" by simp_all
qed

lemma route_handlers_total:
  "distinct (map (td_name \<circ> hd_definition) hs) \<Longrightarrow>
   \<forall>h \<in> set hs. ensure_tool_name_available (td_name (hd_definition h)) g = Inr () \<and> map_of routed (td_name (hd_definition h)) = None \<Longrightarrow>
   \<exists>r. route_handlers n g hs routed = Inr r"
proof (induction hs arbitrary: routed)
  case (Cons h hs)
  let ?r = "AList.update (td_name (hd_definition h)) h routed"
  have "td_name (hd_definition h') \<noteq> td_name (hd_definition h)" if "h' \<in> set hs" for h'
    using Cons.prems(1) that by (auto simp: image_iff)
  then have "\<exists>r. route_handlers n g hs ?r = Inr r"
    using Cons.prems by (intro Cons.IH) (simp_all add: update_conv')
  then show ?case using Cons.prems(2) by (simp add: Let_def)
qed simp

lemma toolset_registers:
  assumes "distinct (map (td_name \<circ> hd_definition) hs)" "trim (tce_name entry) \<noteq> []"
    and "map_of (tg_toolsets g) (tce_name entry) = None"
    and "\<forall>h \<in> set hs. map_of (tg_always_visible g) (td_name (hd_definition h)) = None
      \<and> \<not> owned_by_static (td_name (hd_definition h)) (tg_toolsets g)"
  obtains d where "register_toolset_with_runtime entry hs runtime g
      = Inr (g\<lparr>tg_toolsets := AList.update (tce_name entry) (StaticToolset d) (tg_toolsets g)\<rparr>)"
    "set (st_handlers d) \<subseteq> set (with_names hs)"
proof -
  obtain routed where r: "route_handlers (tce_name entry) g hs [] = Inr routed"
    using route_handlers_total [OF assms(1), of g "[]" "tce_name entry"] assms(4) by (auto simp: ensure_tool_name_available_def)
  then have "set routed \<subseteq> set (with_names hs)" using route_handlers_set by fastforce
  with r that [of "\<lparr>st_entry = entry, st_handlers = routed, st_runtime = runtime\<rparr>"] assms(2,3) show ?thesis
    by (simp add: register_toolset_with_runtime_def validate_toolset_name_def)
qed

lemma distinct_tools:
  "distinct (map (td_name \<circ> hd_definition) (browser_handlers Z))" "distinct (map (td_name \<circ> hd_definition) (memory_handlers Z))"
  by (simp_all add: browser_handlers_def memory_handlers_def browser_tools_def memory_tools_def memory_tool_def
      handler_on_part_def tool_definition_from_args_def str_def)

lemma static_names_owned:
  "owned_by_static n toolsets \<Longrightarrow> \<exists>m d. (m, StaticToolset d) \<in> set toolsets \<and> n \<in> fst ` set (st_handlers d)"
  by (induction n toolsets rule: owned_by_static.induct) (auto simp: map_of_eq_None_iff)

lemma builtin_not_prefixed:
  "n \<in> builtin_tool_names \<Longrightarrow> \<not> starts_with n (str ''browser__'') \<and> \<not> starts_with n (str ''memory_'')"
  by (auto simp: builtin_tool_names_def str_def)

lemma prefixes_differ: "starts_with n (str ''browser__'') \<Longrightarrow> \<not> starts_with n (str ''memory_'')"
  by (auto simp: starts_with_iff str_def)

lemma handler_names:
  "h \<in> set (browser_handlers Z) \<Longrightarrow> starts_with (td_name (hd_definition h)) (str ''browser__'')"
  "h \<in> set (memory_handlers Z) \<Longrightarrow> starts_with (td_name (hd_definition h)) (str ''memory_'')"
  by (auto simp: browser_handlers_def memory_handlers_def dest: browser_names memory_names)

lemma builtin_names:
  "tce_name browser_toolset_entry = str ''browser''" "tce_name memory_toolset_entry = str ''memory''"
  "str ''browser'' \<noteq> []" "str ''memory'' \<noteq> []" "trim (str ''browser'') = str ''browser''" "trim (str ''memory'') = str ''memory''"
  by (simp_all add: browser_toolset_entry_def memory_toolset_entry_def trim_word str_def is_whitespace_def)

text \<open>The built-in tools register beside MCP toolsets, whatever their names are.\<close>

lemma builtin_tools_register:
  assumes "tg_always_visible g = []" "\<forall>(n, ts) \<in> set (tg_toolsets g). is_mcp_toolset ts"
    and "reload_skills Z t = (Inr ms, t')"
  shows "\<exists>g'. api_register_builtin Z (t, g) = (Inr (), (t', g'))"
proof -
  let ?g0 = "fold register_if_missing (tv_builtin_tools (toolbox_env Z)) g"
  have ts0: "tg_toolsets ?g0 = tg_toolsets g" by (rule register_if_missing_toolsets)
  have visible: "map_of (tg_always_visible ?g0) n = None" if "starts_with n (str ''browser__'') \<or> starts_with n (str ''memory_'')" for n
    using that builtin_not_prefixed [of n] register_if_missing_visible [of "builtin_tools Z" g n] builtin_tools_named [of Z] assms(1)
    by (auto simp: toolbox_env_def)
  have unowned: "\<not> owned_by_static n (tg_toolsets g)" for n
    using static_names_owned [of n "tg_toolsets g"] assms(2) by fastforce
  obtain g1 where b1: "register_builtin_toolset (tv_browser_toolset (toolbox_env Z)) ?g0 = Inr g1"
    and always: "tg_always_visible g1 = tg_always_visible ?g0"
    and toolsets: "\<And>n ts. (n, ts) \<in> set (tg_toolsets g1) \<Longrightarrow> is_mcp_toolset ts
      \<or> (\<exists>d. ts = StaticToolset d \<and> set (st_handlers d) \<subseteq> set (with_names (browser_handlers Z)))"
  proof (cases "map_of (tg_toolsets g) (str ''browser'')")
    case None
    obtain d where "register_toolset_with_runtime browser_toolset_entry (browser_handlers Z) (Some (browser_unload Z)) ?g0
        = Inr (?g0\<lparr>tg_toolsets := AList.update (tce_name browser_toolset_entry) (StaticToolset d) (tg_toolsets ?g0)\<rparr>)"
      and d: "set (st_handlers d) \<subseteq> set (with_names (browser_handlers Z))"
      by (rule toolset_registers [of "browser_handlers Z" browser_toolset_entry ?g0 "Some (browser_unload Z)"])
        (use None in \<open>simp_all add: distinct_tools builtin_names ts0 unowned visible handler_names\<close>)
    then have "register_builtin_toolset (tv_browser_toolset (toolbox_env Z)) ?g0
        = Inr (?g0\<lparr>tg_toolsets := AList.update (str ''browser'') (StaticToolset d) (tg_toolsets g)\<rparr>)"
      using None by (simp add: register_builtin_toolset_def toolbox_env_def toolset_registered_def register_if_missing_toolsets
          browser_toolset_entry_def browser_unload_def)
    then show ?thesis using that d assms(2) set_alist_update [of "str ''browser''" "StaticToolset d" "tg_toolsets g"] by fastforce
  next
    case (Some ts)
    then have "register_builtin_toolset (tv_browser_toolset (toolbox_env Z)) ?g0 = Inr ?g0"
      by (simp add: register_builtin_toolset_def toolbox_env_def toolset_registered_def register_if_missing_toolsets builtin_names)
    then show ?thesis using that assms(2) ts0 by fastforce
  qed
  have unowned1: "\<not> owned_by_static n (tg_toolsets g1)" if "starts_with n (str ''memory_'')" for n
  proof
    assume "owned_by_static n (tg_toolsets g1)"
    then obtain m e where "(m, StaticToolset e) \<in> set (tg_toolsets g1)" and n: "n \<in> fst ` set (st_handlers e)"
      using static_names_owned by fastforce
    then have "n \<in> fst ` set (with_names (browser_handlers Z))" using toolsets [of m "StaticToolset e"] by auto
    then have "starts_with n (str ''browser__'')" by (auto simp: with_names_def handler_names)
    then show False using prefixes_differ that by blast
  qed
  obtain g2 where m1: "register_builtin_toolset (tv_memory_toolset (toolbox_env Z)) g1 = Inr g2"
  proof (cases "map_of (tg_toolsets g1) (str ''memory'')")
    case None
    have "\<exists>g2. register_toolset_with_runtime memory_toolset_entry (memory_handlers Z) None g1 = Inr g2"
      by (rule toolset_registers [of "memory_handlers Z" memory_toolset_entry g1 None])
        (use None unowned1 always in \<open>simp_all add: distinct_tools builtin_names visible handler_names\<close>)
    then show ?thesis using that None
      by (auto simp: register_builtin_toolset_def toolbox_env_def toolset_registered_def builtin_names)
  next
    case (Some ts)
    then show ?thesis using that [of g1]
      by (simp add: register_builtin_toolset_def toolbox_env_def toolset_registered_def builtin_names)
  qed
  have "tv_skills_reload (toolbox_env Z) t = (Inr (), t')"
    by (simp add: toolbox_env_def act_bind_def act_ret_def assms(3))
  then show ?thesis by (simp add: api_register_builtin_def register_builtin_into_def Let_def b1 m1)
qed

text \<open>What a management operation leaves as it is: the names and definitions of the servers and the built-in tools.\<close>

lemma sync_mcp_keeps: "tg_always_visible (snd (sync_mcp_toolsets v t g)) = tg_always_visible g"
  by (auto simp: sync_mcp_toolsets_def Let_def split: prod.split)

lemma sync_skill_keeps:
  "name \<noteq> str ''load_skill'' \<Longrightarrow> map_of (tg_always_visible (sync_skill_handlers v t g)) name = map_of (tg_always_visible g) name"
  by (simp add: sync_skill_handlers_def update_conv' delete_conv')

definition keeps_builtin :: "('w, 'c, 'x, 'q) tool_system \<Rightarrow> ('w, 'c, 'x, 'q) tool_system \<Rightarrow> bool" where
  "keeps_builtin = (\<lambda>(t, g) (t', g'). mcp_definitions (tb_mcp t') = mcp_definitions (tb_mcp t)
     \<and> (\<forall>name \<in> builtin_tool_names. map_of (tg_always_visible g) name \<noteq> None \<longrightarrow> map_of (tg_always_visible g') name \<noteq> None))"

interpretation builtin_kept: action_preorder keeps_builtin
  by unfold_locales (auto simp: keeps_builtin_def)

lemma mcp_api_keeps:
  assumes "\<And>m0. mcp_definitions (snd (m m0)) = mcp_definitions m0"
  shows "related keeps_builtin (act_bind (mcp_api Z m) (\<lambda>_. act_ret ())) (t, g)"
proof -
  have "mcp_definitions m1 = mcp_definitions m0" if "m m0 = (r, m1)" for m0 r m1 using assms [of m0] that by simp
  then have m: "related keeps_builtin (on_toolbox (on_part tb_mcp put_mcp m)) S" for S
    by (cases S) (auto simp: related_def on_toolbox_def on_part_def keeps_builtin_def split: prod.splits)
  have visible: "tg_always_visible b' = tg_always_visible b" if "sync_mcp_toolsets (toolbox_env Z) u b = (x, b')" for u b x b'
    using sync_mcp_keeps [of "toolbox_env Z" u b] that by simp
  have sync: "related keeps_builtin (sync_mcp Z) S" for S
    by (cases S) (auto simp: related_def sync_mcp_def keeps_builtin_def visible Let_def split: prod.split)
  show ?thesis unfolding mcp_api_def
    by (intro builtin_kept.rel_bind m sync builtin_kept.rel_ret)
qed

lemma skill_api_keeps: "related keeps_builtin (act_bind (skill_api Z m) (\<lambda>_. act_ret ())) (t, g)"
proof -
  have m: "related keeps_builtin (on_toolbox (\<lambda>t. on_part tb_skills put_skills (m (tb_host t)) t)) S" for S
    by (cases S) (auto simp: related_def on_toolbox_def on_part_def keeps_builtin_def split: prod.splits)
  have sync: "related keeps_builtin (sync_skills Z) S" for S
    by (cases S) (auto simp: related_def sync_skills_def keeps_builtin_def sync_skill_keeps builtin_tool_names_def)
  show ?thesis unfolding skill_api_def
    by (intro builtin_kept.rel_bind m sync builtin_kept.rel_ret)
qed

lemma register_builtin_toolset_keeps: "register_builtin_toolset d g = Inr g' \<Longrightarrow> tg_always_visible g' = tg_always_visible g"
  by (auto simp: register_builtin_toolset_def register_toolset_with_runtime_def Let_def split: prod.splits if_splits sum.splits)

lemma register_builtin_keeps: "related keeps_builtin (api_register_builtin Z) (t, g)"
proof -
  let ?g0 = "fold register_if_missing (tv_builtin_tools (toolbox_env Z)) g"
  have g0: "map_of (tg_always_visible g) n \<noteq> None \<Longrightarrow> map_of (tg_always_visible ?g0) n \<noteq> None" for n
    unfolding register_if_missing_visible by simp
  have g1: "map_of (tg_always_visible g) n \<noteq> None \<Longrightarrow> map_of (tg_always_visible g1) n \<noteq> None"
    if "register_builtin_toolset d ?g0 = Inr g1" for d g1 n
    using g0 register_builtin_toolset_keeps [OF that] by simp
  have g2: "map_of (tg_always_visible g) n \<noteq> None \<Longrightarrow> map_of (tg_always_visible g2) n \<noteq> None"
    if "register_builtin_toolset d ?g0 = Inr g1" "register_builtin_toolset d' g1 = Inr g2" for d d' g1 g2 n
    using g1 [OF that(1)] register_builtin_toolset_keeps [OF that(2)] by simp
  have reload: "tb_mcp t' = tb_mcp t" if "tv_skills_reload (toolbox_env Z) t = (r, t')" for r t'
    using that by (auto simp: toolbox_env_def reload_skills_def on_part_def act_bind_def act_ret_def split: prod.splits sum.splits)
  have other: "name \<noteq> str ''load_skill''" if "name \<in> builtin_tool_names" for name
    using that by (auto simp: builtin_tool_names_def)
  show ?thesis
    using g0 g1 g2 reload other
    by (fastforce simp: related_def api_register_builtin_def register_builtin_into_def Let_def keeps_builtin_def sync_skill_keeps
        split: sum.splits prod.splits)
qed

lemma op_keeps_builtin: "keeps_builtin S (snd (run_registry_op Z x S))"
proof -
  obtain t g where S: "S = (t, g)" by fastforce
  have "related keeps_builtin (run_registry_op Z x) (t, g)"
    by (cases x)
      (simp_all add: register_builtin_keeps mcp_api_keeps skill_api_keeps mcp_definitions_enable mcp_definitions_disable
        mcp_definitions_refresh api_enable_server_def api_disable_server_def api_refresh_server_def api_reload_def
        api_disable_skill_def api_enable_skill_def api_restrict_to_def)
  then show ?thesis by (simp add: related_def S)
qed

lemma trace_keeps_builtin:
  "registry_trace Z S0 rs S \<Longrightarrow> registry_made Z (snd S0) \<Longrightarrow> keeps_builtin S0 S"
proof (induction rule: registry_trace.induct)
  case registry_start
  show ?case by (cases S0) (simp add: keeps_builtin_def)
next
  case (registry_manage rs S x r S')
  then show ?case using op_keeps_builtin [of S Z x] by (auto simp: keeps_builtin_def)
next
  case (registry_call rs t g q th r s')
  have "call_moved (tool_part_of (rq_name q)) t (rn_env s')"
    using call_stays [OF registry_call(2)] made_trace [OF registry_call(1) registry_call.prems] by simp
  then have "keeps_builtin (t, g) (rn_env s', g)" by (simp add: keeps_builtin_def call_moved_def)
  then show ?case using registry_call.IH [OF registry_call.prems] by (cases S0) (simp add: keeps_builtin_def)
qed

text \<open>An operation on a server that the manager itself carries out.\<close>

fun manager_accepts :: "('w, 'p, 'c, 'x, 'q) toolbox_services \<Rightarrow> registry_op \<Rightarrow> ('w, 'c) mcp_manager \<Rightarrow> bool" where
  "manager_accepts Z (EnableServer n) m = (\<exists>snap m'. enable_server (tbs_mcp Z) n m = (Inr snap, m'))"
| "manager_accepts Z (DisableServer n) m = (\<exists>snap m'. disable_server (tbs_mcp Z) n m = (Inr snap, m'))"
| "manager_accepts Z (RefreshServer n) m = (\<exists>snap m'. refresh_server (tbs_mcp Z) n m = (Inr snap, m'))"
| "manager_accepts Z _ m = False"

text \<open>
  C38: a configured server that has the name of a built-in tool passes the start and then breaks the MCP management.
  When the server entries are valid, named apart and not blank, and the local skills can be read, the start registers a
  toolset of that name and the built-in tools register beside it without a complaint. In every state that management
  operations and tool calls can lead to from there, whatever their outcomes, enabling, disabling or refreshing any server
  is answered with an error; when the manager itself has carried the operation out, the toolset is gone afterwards.
\<close>
theorem server_named_like_a_tool:
  assumes "agent_mcp_validate (at_mcp config) = Inr u" "distinct (map fst (at_mcp config))"
    and "\<forall>n \<in> fst ` set (at_mcp config). trim n \<noteq> []"
    and "name \<in> fst ` set (at_mcp config)" "name \<in> builtin_tool_names"
    and "skill_reload (tbs_skills Z) (tw_host w) (skill_registry_with_roots roots) = (Inr ms, y)"
  shows "\<exists>S0 t g. from_config_with_skill_roots Z config roots w = (Inr (), S0)
    \<and> api_register_builtin Z S0 = (Inr (), (t, g)) \<and> toolset_registered name g
    \<and> (\<forall>rs t' g'. registry_trace Z (t, g) rs (t', g') \<longrightarrow>
        (\<forall>n. \<forall>x \<in> {EnableServer n, DisableServer n, RefreshServer n}.
          \<exists>e S'. run_registry_op Z x (t', g') = (Inl e, S')
            \<and> (manager_accepts Z x (tb_mcp t') \<longrightarrow> \<not> toolset_registered name (snd S'))))"
proof -
  obtain r1 m where load: "load_definitions (tbs_mcp Z) (build_mcp_server_definitions config) (mcp_manager_new (tw_mcp w)) = (r1, m)"
    by fastforce
  have m: "r1 = Inr ()" "map fst (mm_servers m) = sort (map fst (at_mcp config))"
    using load_built_definitions [OF assms(1,2) load] assms(3) by simp_all
  obtain r t0 g0 where start: "from_config_with_skill_roots Z config roots w = (r, (t0, g0))" by (metis prod.exhaust)
  note out = from_config_outcome [OF start load, simplified]
  have "reload_skills Z t0 = (Inr ms, put_skills y t0)" using assms(6) by (simp add: reload_skills_def on_part_def out)
  then obtain g where reg: "api_register_builtin Z (t0, g0) = (Inr (), (put_skills y t0, g))"
    using builtin_tools_register [OF out(5,6)] by blast
  let ?t = "put_skills y t0"
  note made0 = made_from_config [OF start]
  have tr: "registry_trace Z (t0, g0) ([] @ [Inr ()]) (?t, g)"
    by (rule registry_manage [OF registry_start, where x = RegisterBuiltin]) (simp add: reg)
  have made: "registry_made Z g" using made_trace [OF tr] made0 by simp
  have visible: "map_of (tg_always_visible g) name \<noteq> None" by (rule register_builtin_visible [OF reg _ assms(5)]) (use made0 in simp)
  have listed: "name \<in> mn_name ` set (list_servers (tb_mcp ?t))"
    
    using loaded_names(2) [OF load [unfolded m(1)], THEN arg_cong, of set] assms(4) m(2) [THEN arg_cong, of set] by (simp add: out(4))
  have "servers_in_step (?t, g)"
    using trace_in_step [OF tr] made0 from_config_in_step [OF start [unfolded out(1) m(1)]] by simp
  then have "name \<in> fst ` set (mcp_entries g)"
    using listed by (force simp: servers_in_step_def mcp_toolset_of_def)
  then have registered: "toolset_registered name g"
    by (force simp: toolset_registered_def mcp_entries_def map_of_eq_None_iff)
  have later: "\<exists>e S'. run_registry_op Z x (t', g') = (Inl e, S')
      \<and> (manager_accepts Z x (tb_mcp t') \<longrightarrow> \<not> toolset_registered name (snd S'))"
    if trace: "registry_trace Z (?t, g) rs (t', g')" and x: "x \<in> {EnableServer n, DisableServer n, RefreshServer n}" for rs t' g' n x
  proof -
    have kept: "map_of (tg_always_visible g') name \<noteq> None" "name \<in> mn_name ` set (list_servers (tb_mcp t'))" "registry_made Z g'"
      using trace_keeps_builtin [OF trace] made_trace [OF trace] made visible listed assms(5)
      by (auto simp: keeps_builtin_def listed_names)
    note conflict = mcp_api_conflict [OF kept(2,1,3) assms(5)]
    have "\<exists>e. fst (run_registry_op Z x (t', g')) = Inl e"
      using x by (auto simp: conflict(1) api_enable_server_def api_disable_server_def api_refresh_server_def mcp_definitions_enable
          mcp_definitions_disable mcp_definitions_refresh)
    moreover have "\<not> toolset_registered name (snd (snd (run_registry_op Z x (t', g'))))" if accepted: "manager_accepts Z x (tb_mcp t')"
    proof -
      note gone = mcp_api_gone [OF kept(2,1,3) assms(5)]
      show ?thesis
        using x accepted
        by (auto simp: api_enable_server_def api_disable_server_def api_refresh_server_def
            dest: gone [where m = "enable_server (tbs_mcp Z) n", OF mcp_definitions_enable]
              gone [where m = "disable_server (tbs_mcp Z) n", OF mcp_definitions_disable]
              gone [where m = "refresh_server (tbs_mcp Z) n", OF mcp_definitions_refresh])
    qed
    ultimately show ?thesis by (metis prod.collapse)
  qed
  show ?thesis
    by (intro exI [of _ "(t0, g0)"] exI [of _ ?t] exI [of _ g] conjI)
      (use start out(1) m(1) reg registered later in blast)+
qed

section \<open>An example\<close>

definition demo_services :: "(nat list, unit, nat, mock_world, nat) toolbox_services" where
  "demo_services =
     \<lparr>tbs_args = demo_tools_env, tbs_mcp = demo_mcp_env, tbs_commands = demo_command_env, tbs_memory = demo_memory_env,
      tbs_skills = demo_skill_env, tbs_sidecar = mock_env demo_codec, tbs_browser_config = demo_browser_config,
      tbs_shell = (\<lambda>_ _ h. (ProcessOutput [] [] (Some 0), h))\<rparr>"

definition demo_tool_world :: "(nat list, mock_world) tool_world" where
  "demo_tool_world =
     \<lparr>tw_host = demo_skill_host, tw_memory = demo_memory_fs, tw_mcp = [], tw_waits = [], tw_browser_host = demo_host,
      tw_browser = demo_mock_world\<rparr>"

text \<open>One server, not enabled at the start.\<close>

definition demo_tool_config :: "rstring \<Rightarrow> agent_tool_config" where
  "demo_tool_config name = \<lparr>at_mcp = [(name, mcp_config_stdio False (str ''x'') [] [])]\<rparr>"

lemma demo_start:
  assumes "trim name = name" "name \<noteq> []"
  obtains t g where "from_config_with_skill_roots demo_services (demo_tool_config name) [str ''/w''] demo_tool_world = (Inr (), (t, g))"
    "tb_host t = demo_skill_host" "tb_skills t = skill_registry_with_roots [str ''/w'']"
    "map mn_name (list_servers (tb_mcp t)) = [name]" "map fst (mm_servers (tb_mcp t)) = [name]"
    "tg_always_visible g = []" "map fst (tg_toolsets g) = [name]" "\<forall>(n, ts) \<in> set (tg_toolsets g). is_mcp_toolset ts"
proof -
  let ?d = "\<lparr>md_name = name, md_transport = Stdio, md_enabled = False, md_command = Some (str ''x''), md_args = [], md_env = [], md_url = None\<rparr>"
  let ?m = "\<lparr>mm_servers = [(name, \<lparr>mz_definition = ?d, mz_enabled = False, mz_allow_thread_load = True, mz_state = McpDisabled,
    mz_last_error = None, mz_last_checked_at = None, mz_discovered_tools = [], mz_client = None\<rparr>)], mm_world = []\<rparr>
    :: (nat list, nat) mcp_manager"
  have ds: "build_mcp_server_definitions (demo_tool_config name) = [?d]"
    by (simp add: build_mcp_server_definitions_def demo_tool_config_def build_mcp_server_definition_def mcp_config_stdio_def)
  have load: "load_definitions demo_mcp_env [?d] (mcp_manager_new []) = (Inr (), ?m)"
    using assms by (simp add: load_definitions_def act_bind_def mcp_register_def mcp_validate_def str_s_trim mcp_manager_new_def
        act_ret_def startup_enable_def)
  obtain t0 :: "(nat list, nat, mock_world, nat) toolbox" and g0
    where t0: "with_skill_roots demo_tool_world [str ''/w''] = (t0, g0)" by fastforce
  then have m0: "tb_mcp t0 = mcp_manager_new []" "tb_host t0 = demo_skill_host"
    "tb_skills t0 = skill_registry_with_roots [str ''/w'']" "g0 = tool_registry_new"
    by (auto simp: with_skill_roots_def demo_tool_world_def)
  have l: "map mn_name (list_servers ?m) = [name]" by (simp add: list_servers_def mcp_snapshot_def)
  have env: "tv_mcp_list_servers (toolbox_env demo_services) u = map (\<lambda>s. (mn_name s, mn_transport s)) (list_servers (tb_mcp u))" for u
    by (simp add: toolbox_env_def)
  have "list_servers ?m = [mcp_snapshot (snd (hd (mm_servers ?m)))]" by (simp add: list_servers_def)
  then obtain g1 where sync: "sync_mcp demo_services (put_mcp ?m t0, g0) = (Inr (), (put_mcp ?m t0, g1))"
    and g1: "tg_always_visible g1 = []" "map fst (tg_toolsets g1) = [name]" "\<forall>(n, ts) \<in> set (tg_toolsets g1). is_mcp_toolset ts"
    using m0(4) by (simp add: sync_mcp_def sync_mcp_toolsets_def Let_def env tool_registry_new_def mcp_snapshot_def)
  have "on_toolbox (on_part tb_mcp put_mcp (load_definitions demo_mcp_env [?d])) (t0, g0) = (Inr (), (put_mcp ?m t0, g0))"
    by (simp add: on_toolbox_def on_part_def m0 load)
  then have "from_config_with_skill_roots demo_services (demo_tool_config name) [str ''/w''] demo_tool_world = (Inr (), (put_mcp ?m t0, g1))"
    using sync by (simp add: from_config_with_skill_roots_def t0 ds act_bind_def) (simp add: demo_services_def)
  then show ?thesis by (rule that) (simp_all add: m0 l g1)
qed

lemma demo_reload:
  assumes "tb_host t = demo_skill_host" "tb_skills t = skill_registry_with_roots [str ''/w'']"
  shows "reload_skills demo_services t = (Inr [demo_manifest],
    put_skills \<lparr>sy_roots = [str ''/w''], sy_manifests = [(str ''n'', demo_manifest)]\<rparr> t)"
proof -
  have same: "demo_manifest\<lparr>sm_enabled := True\<rparr> = demo_manifest" by (simp add: demo_manifest_def)
  have "skill_reload demo_skill_env demo_skill_host (skill_registry_with_roots [str ''/w''])
    = (Inr [demo_manifest], \<lparr>sy_roots = [str ''/w''], sy_manifests = [(str ''n'', demo_manifest)]\<rparr>)"
    using demo_discover demo_from_file by (simp add: skill_reload_def skill_registry_with_roots_def Let_def same)
      (simp add: demo_manifest_def)
  then show ?thesis using assms by (simp add: reload_skills_def on_part_def demo_services_def)
qed

theorem registry_stays_in_step_witness:
  "\<exists>S0 t g. from_config_with_skill_roots demo_services (demo_tool_config (str ''s'')) [str ''/w''] demo_tool_world = (Inr (), S0)
     \<and> registry_trace demo_services S0 [Inr ()] (t, g)
     \<and> map_of (tg_always_visible g) (str ''load_skill'') \<noteq> None
     \<and> map fst (filter (\<lambda>(_, ts). is_mcp_toolset ts) (tg_toolsets g)) = [str ''s'']"
proof -
  have "str ''s'' \<noteq> []" by (simp add: str_def)
  then obtain t g where
    start: "from_config_with_skill_roots demo_services (demo_tool_config (str ''s'')) [str ''/w''] demo_tool_world = (Inr (), (t, g))"
    and t: "tb_host t = demo_skill_host" "tb_skills t = skill_registry_with_roots [str ''/w'']"
      "map mn_name (list_servers (tb_mcp t)) = [str ''s'']"
    using demo_start [OF str_s_trim(1)] by (metis (no_types))
  let ?t = "put_skills \<lparr>sy_roots = [str ''/w''], sy_manifests = [(str ''n'', demo_manifest)]\<rparr> t"
  let ?g = "sync_skill_handlers (toolbox_env demo_services) ?t g"
  have "run_registry_op demo_services ReloadSkills (t, g) = (Inr (), (?t, ?g))"
    using demo_reload [OF t(1,2)]
    by (simp add: api_reload_def skill_api_def act_bind_def on_toolbox_def reload_skills_def sync_skills_def act_ret_def)
  from registry_manage [OF registry_start this] have tr: "registry_trace demo_services (t, g) [Inr ()] (?t, ?g)" by simp
  note r = registry_stays_in_step [OF start tr]
  have "has_enabled_skills (tb_skills ?t)" by (simp add: has_enabled_skills_def demo_manifest_def)
  then have "map_of (tg_always_visible ?g) (str ''load_skill'') \<noteq> None" using r by simp
  moreover have "filter (\<lambda>(_, ts). is_mcp_toolset ts) (tg_toolsets ?g) = map mcp_toolset_of (list_servers (tb_mcp t))"
    using r by simp
  then have "map fst (filter (\<lambda>(_, ts). is_mcp_toolset ts) (tg_toolsets ?g)) = [str ''s'']"
    using t(3) by (simp add: mcp_toolset_of_def comp_def)
  ultimately show ?thesis using start tr by (intro exI conjI) assumption+
qed

lemma read_name: "trim (str ''read'') = str ''read''" "str ''read'' \<noteq> []" "str ''read'' \<in> builtin_tool_names"
  by (rule trim_word) (simp_all add: str_def is_whitespace_def builtin_tool_names_def)

text \<open>A server named like the tool that reads a file: disabling it takes the toolset away and is reported as an error.\<close>

theorem server_named_like_a_tool_witness:
  "\<exists>S0 t g. from_config_with_skill_roots demo_services (demo_tool_config (str ''read'')) [str ''/w''] demo_tool_world = (Inr (), S0)
     \<and> api_register_builtin demo_services S0 = (Inr (), (t, g)) \<and> toolset_registered (str ''read'') g
     \<and> (\<exists>e S'. run_registry_op demo_services (DisableServer (str ''read'')) (t, g) = (Inl e, S')
         \<and> \<not> toolset_registered (str ''read'') (snd S'))"
proof (rule demo_start [OF read_name(1,2)])
  fix t g
  assume start: "from_config_with_skill_roots demo_services (demo_tool_config (str ''read'')) [str ''/w''] demo_tool_world = (Inr (), (t, g))"
    and "tb_host t = demo_skill_host" "tb_skills t = skill_registry_with_roots [str ''/w'']"
    and keys: "map fst (mm_servers (tb_mcp t)) = [str ''read'']"
  have skills: "\<exists>y. skill_reload (tbs_skills demo_services) (tw_host demo_tool_world) (skill_registry_with_roots [str ''/w'']) = (Inr [demo_manifest], y)"
    using demo_reload [OF \<open>tb_host t = _\<close> \<open>tb_skills t = _\<close>] \<open>tb_host t = _\<close> \<open>tb_skills t = _\<close>
    by (auto simp: reload_skills_def on_part_def demo_tool_world_def split: prod.splits)
  then obtain y where y: "skill_reload (tbs_skills demo_services) (tw_host demo_tool_world) (skill_registry_with_roots [str ''/w''])
    = (Inr [demo_manifest], y)" by blast
  have servers: "distinct (map fst (at_mcp (demo_tool_config (str ''read''))))"
    "\<forall>n \<in> fst ` set (at_mcp (demo_tool_config (str ''read''))). trim n \<noteq> []"
    "str ''read'' \<in> fst ` set (at_mcp (demo_tool_config (str ''read'')))"
    by (simp_all add: demo_tool_config_def read_name)
  have "agent_mcp_validate (at_mcp (demo_tool_config (str ''read''))) = Inr ()"
    by (simp add: demo_tool_config_def mcp_config_stdio_def str_s_trim)
  note th = server_named_like_a_tool [OF this servers read_name(3) y]
  then obtain t' g' where
    reg: "api_register_builtin demo_services (t, g) = (Inr (), (t', g'))" and there: "toolset_registered (str ''read'') g'"
    and later: "\<forall>rs t'' g''. registry_trace demo_services (t', g') rs (t'', g'') \<longrightarrow>
      (\<forall>n. \<forall>x \<in> {EnableServer n, DisableServer n, RefreshServer n}.
        \<exists>e S'. run_registry_op demo_services x (t'', g'') = (Inl e, S')
          \<and> (manager_accepts demo_services x (tb_mcp t'') \<longrightarrow> \<not> toolset_registered (str ''read'') (snd S')))"
    using start by (metis prod.inject)
  have "str ''read'' \<in> fst ` set (mm_servers (tb_mcp t'))"
    using keys register_builtin_in_step(3) [OF reg] by (metis list.set_intros(1) list.set_map)
  then obtain z where "map_of (mm_servers (tb_mcp t')) (str ''read'') = Some z" by (metis map_of_eq_None_iff not_Some_eq)
  then have "manager_accepts demo_services (DisableServer (str ''read'')) (tb_mcp t')"
    by (cases "mcp_env.me_now (tbs_mcp demo_services) (mm_world (tb_mcp t'))")
      (auto simp: disable_server_def Let_def mcp_server_snapshot_of_def update_conv')
  then have "\<exists>e S'. run_registry_op demo_services (DisableServer (str ''read'')) (t', g') = (Inl e, S')
      \<and> \<not> toolset_registered (str ''read'') (snd S')"
    using later [rule_format, OF registry_start, of "DisableServer (str ''read'')" "str ''read''"] by blast
  then show ?thesis using start reg there by blast
qed

end
