(* ===== verification/OJ_Startup.thy ===== *)
theory OJ_Startup
  imports OJ_Toolbox OJ_Worker OJ_Openai OJ_Router OJ_Feishu
begin

text \<open>
  From the command line to the running server: \<open>src/main.rs\<close>, the commands of \<open>src/cli.rs\<close> and their executors
  (\<open>src/cli\_command\<close>), the logging of a process (\<open>src/logging.rs\<close>), the runtime of the agent
  (\<open>src/agent/runtime.rs\<close>) and the builder of the worker (\<open>src/agent/worker.rs\<close>).

  Parsing the arguments is left to \<open>clap\<close>: a command line is its parsed form. The helper servers that the internal
  commands run, the tracing library, opening an SQLite file and what the OpenAI client does are parameters.
\<close>

section \<open>The command line\<close>

datatype skill_command = SkillInstall rstring | SkillUninstall rstring

datatype internal_mcp_command = DemoStdio | DemoHttp rstring

record browser_launch_arguments =
  bl_headless :: bool
  bl_output_dir :: "rstring option"
  bl_node_bin :: rstring
  bl_script_path :: "rstring option"
  bl_chrome_path :: "rstring option"

datatype internal_browser_command =
    SmokeFlow rstring browser_launch_arguments
  | ScriptFlow rstring browser_launch_arguments
  | MockSidecar

datatype openjarvis_command =
    SkillCommand skill_command
  | InternalMcpCommand internal_mcp_command
  | InternalBrowserCommand internal_browser_command

record openjarvis_cli =
  oc_debug :: bool
  oc_log_color :: bool
  oc_builtin_mcp :: bool
  oc_load_skills :: "rstring list"
  oc_command :: "openjarvis_command option"

definition internal_mcp_command_of :: "openjarvis_cli \<Rightarrow> internal_mcp_command option" where
  "internal_mcp_command_of cli = (case oc_command cli of Some (InternalMcpCommand c) \<Rightarrow> Some c | _ \<Rightarrow> None)"

definition internal_browser_command_of :: "openjarvis_cli \<Rightarrow> internal_browser_command option" where
  "internal_browser_command_of cli = (case oc_command cli of Some (InternalBrowserCommand c) \<Rightarrow> Some c | _ \<Rightarrow> None)"

definition skill_command_of :: "openjarvis_cli \<Rightarrow> skill_command option" where
  "skill_command_of cli = (case oc_command cli of Some (SkillCommand c) \<Rightarrow> Some c | _ \<Rightarrow> None)"

fun openjarvis_command_name :: "openjarvis_command \<Rightarrow> rstring" where
  "openjarvis_command_name (SkillCommand _) = str ''skill''"
| "openjarvis_command_name (InternalMcpCommand _) = str ''internal-mcp''"
| "openjarvis_command_name (InternalBrowserCommand _) = str ''internal-browser''"

fun bind_address :: "internal_mcp_command \<Rightarrow> rstring option" where
  "bind_address DemoStdio = None"
| "bind_address (DemoHttp bind) = Some bind"

section \<open>Executors of the subcommands\<close>

record 's cli_executor =
  ce_name :: rstring
  ce_run :: "openjarvis_command \<Rightarrow> ('s, unit) act"

type_synonym 's cli_command_registry = "(rstring \<times> 's cli_executor) list"

definition cli_register :: "'s cli_executor \<Rightarrow> 's cli_command_registry \<Rightarrow> err + 's cli_command_registry" where
  "cli_register executor g =
     (let command_name = trim (ce_name executor) in
      if command_name = [] then Inl (bail (str ''cli command executor name must not be blank''))
      else if map_of g command_name \<noteq> None
      then Inl (bail (str ''cli command executor `'' @ command_name @ str ''` is already registered''))
      else Inr (bt_insert command_name executor g))"

definition cli_dispatch :: "'s cli_command_registry \<Rightarrow> openjarvis_command \<Rightarrow> ('s, unit) act" where
  "cli_dispatch g command =
     (let command_name = openjarvis_command_name command in
      case map_of g command_name of
        None \<Rightarrow> act_fail (bail (str ''no cli command executor registered for `'' @ command_name @ str ''`''))
      | Some executor \<Rightarrow> ce_run executor command)"

definition dispatch_from_cli :: "'s cli_command_registry \<Rightarrow> openjarvis_cli \<Rightarrow> ('s, bool) act" where
  "dispatch_from_cli g cli =
     (case oc_command cli of
        None \<Rightarrow> act_ret False
      | Some command \<Rightarrow> act_bind (cli_dispatch g command) (\<lambda>_. act_ret True))"

text \<open>What a process starts from and changes: the files, the standard output and the two process-wide settings.\<close>

record ('w, 'x) process_world = "('w, 'x) tool_world" +
  pw_current_dir :: "rstring option"
  pw_stdout :: "rstring list"
  pw_global_config :: "app_config option"
  pw_subscriber_installed :: bool

definition resolve_current_workspace_root :: "('w, 'x) process_world \<Rightarrow> rstring" where
  "resolve_current_workspace_root s = (case pw_current_dir s of None \<Rightarrow> str ''.'' | Some path \<Rightarrow> path)"

definition default_skill_roots :: "('w, 'x) process_world \<Rightarrow> rstring list" where
  "default_skill_roots s = default_skill_roots_for_workspace (resolve_current_workspace_root s)"

text \<open>The neighbours of the executors.\<close>

record ('w, 'x) cli_env =
  ci_skills :: skill_env
  ci_env_var :: "rstring \<Rightarrow> rstring option"
  ci_http_get :: "rstring \<Rightarrow> http_answer"
  ci_uuid :: rstring
  ci_run_demo :: "internal_mcp_command \<Rightarrow> (('w, 'x) process_world, unit) act"
  ci_run_browser :: "internal_browser_command \<Rightarrow> (('w, 'x) process_world, unit) act"

definition print_line :: "rstring \<Rightarrow> (('w, 'x) process_world, unit) act" where
  "print_line line s = (Inr (), s\<lparr>pw_stdout := pw_stdout s @ [line]\<rparr>)"

definition on_host :: "(host_fs \<Rightarrow> (err + 'a) \<times> host_fs) \<Rightarrow> (('w, 'x) process_world, 'a) act" where
  "on_host m s = (let (r, h) = m (tw_host s) in (r, s\<lparr>tw_host := h\<rparr>))"

fun run_cli_command :: "('w, 'x) cli_env \<Rightarrow> skill_command \<Rightarrow> (('w, 'x) process_world, unit) act" where
  "run_cli_command X (SkillInstall name) s =
     act_bind (on_host (install_curated_skill (ci_skills X) (ci_env_var X) (ci_http_get X) (ci_uuid X) name
         (resolve_current_workspace_root s))) (\<lambda>installed.
       print_line (str ''Installed curated skill `'' @ is_skill_name installed @ str ''` to `'' @ is_skill_file installed
         @ str ''` from `'' @ is_source_location installed @ str ''`.'')) s"
| "run_cli_command X (SkillUninstall name) s =
     act_bind (on_host (uninstall_local_skill (ci_skills X) name (resolve_current_workspace_root s))) (\<lambda>removed.
       print_line (str ''Uninstalled local skill `'' @ us_skill_name removed @ str ''` from `'' @ us_skill_dir removed
         @ str ''`.'')) s"

definition skill_cli_executor :: "('w, 'x) cli_env \<Rightarrow> ('w, 'x) process_world cli_executor" where
  "skill_cli_executor X =
     \<lparr>ce_name = str ''skill'',
      ce_run = (\<lambda>command. case command of
          SkillCommand c \<Rightarrow> run_cli_command X c
        | _ \<Rightarrow> act_fail (bail (str ''skill executor received mismatched top-level command'')))\<rparr>"

definition internal_mcp_cli_executor :: "('w, 'x) cli_env \<Rightarrow> ('w, 'x) process_world cli_executor" where
  "internal_mcp_cli_executor X =
     \<lparr>ce_name = str ''internal-mcp'',
      ce_run = (\<lambda>command. case command of
          InternalMcpCommand c \<Rightarrow> ci_run_demo X c
        | _ \<Rightarrow> act_fail (bail (str ''internal-mcp executor received mismatched top-level command'')))\<rparr>"

definition internal_browser_cli_executor :: "('w, 'x) cli_env \<Rightarrow> ('w, 'x) process_world cli_executor" where
  "internal_browser_cli_executor X =
     \<lparr>ce_name = str ''internal-browser'',
      ce_run = (\<lambda>command. case command of
          InternalBrowserCommand c \<Rightarrow> ci_run_browser X c
        | _ \<Rightarrow> act_fail (bail (str ''internal-browser executor received mismatched top-level command'')))\<rparr>"

definition cli_with_builtin_commands :: "('w, 'x) cli_env \<Rightarrow> err + ('w, 'x) process_world cli_command_registry" where
  "cli_with_builtin_commands X =
     (case cli_register (skill_cli_executor X) [] of
        Inl e \<Rightarrow> Inl e
      | Inr g1 \<Rightarrow>
     (case cli_register (internal_mcp_cli_executor X) g1 of
        Inl e \<Rightarrow> Inl e
      | Inr g2 \<Rightarrow> cli_register (internal_browser_cli_executor X) g2))"

section \<open>Logging\<close>

record logging_runtime_overrides =
  lo_level_filter :: "rstring option"
  lo_stderr_enabled :: "bool option"
  lo_stderr_ansi :: "bool option"
  lo_debug_mode :: bool

definition logging_runtime_overrides_default :: logging_runtime_overrides where
  "logging_runtime_overrides_default =
     \<lparr>lo_level_filter = None, lo_stderr_enabled = None, lo_stderr_ansi = None, lo_debug_mode = False\<rparr>"

definition overrides_from_cli :: "bool \<Rightarrow> bool \<Rightarrow> logging_runtime_overrides" where
  "overrides_from_cli debug_enabled log_color =
     \<lparr>lo_level_filter = (if debug_enabled then Some (str ''debug'') else None),
      lo_stderr_enabled = (if debug_enabled \<or> log_color then Some True else None),
      lo_stderr_ansi = (if log_color then Some True else None), lo_debug_mode = debug_enabled\<rparr>"

definition overrides_apply :: "logging_runtime_overrides \<Rightarrow> logging_config \<Rightarrow> logging_config" where
  "overrides_apply ov c =
     (let c1 = (case lo_level_filter ov of None \<Rightarrow> c | Some level_filter \<Rightarrow> c\<lparr>lg_level := level_filter\<rparr>);
          c2 = (case lo_stderr_enabled ov of None \<Rightarrow> c1 | Some b \<Rightarrow> c1\<lparr>lg_stderr := b\<rparr>) in
      case lo_stderr_ansi ov of None \<Rightarrow> c2 | Some b \<Rightarrow> c2\<lparr>lg_stderr_ansi := b\<rparr>)"

text \<open>
  What logging needs of its surroundings: the YAML reader of the \<open>logging\<close> section, the filter of the environment when
  it is set and valid, and the rolling appender.
\<close>

record tracing_env =
  tn_config :: config_env
  tn_yaml :: "rstring \<Rightarrow> err + logging_config"
  tn_env_filter :: "rstring option"
  tn_appender :: "file_logging_config \<Rightarrow> err + unit"
  tn_install_error :: err

text \<open>A layer: whether it prints targets, span events and colours.\<close>

record fmt_layer =
  fy_target :: bool
  fy_span_events :: bool
  fy_ansi :: bool

record tracing_setup =
  tu_filter :: rstring
  tu_stderr :: "fmt_layer option"
  tu_file :: "fmt_layer option"

definition load_logging_config_from_path :: "tracing_env \<Rightarrow> host_fs \<Rightarrow> rstring \<Rightarrow> err + logging_config" where
  "load_logging_config_from_path N h path =
     (if \<not> path_exists h path then Inr logging_config_default
      else
        (case fs_read_to_string h path of
           None \<Rightarrow> Inl (err_context (str ''failed to read config file '' @ path) (bail (cg_os_error (tn_config N))))
         | Some raw \<Rightarrow>
        (case tn_yaml N raw of
           Inl e \<Rightarrow> Inl (err_context (str ''failed to parse config file '' @ path) e)
         | Inr logging \<Rightarrow>
             let resolved = logging_resolve path logging in
             and_then (map_sum (err_context (str ''failed to validate config file '' @ path)) id
                (logging_validate (tn_config N) resolved)) (Inr resolved))))"

definition build_file_appender :: "tracing_env \<Rightarrow> file_logging_config \<Rightarrow> (('w, 'x) process_world, unit) act" where
  "build_file_appender N c s =
     (case create_dirs (path_start (tw_host s) (fl_directory c)) (path_parts (fl_directory c)) (tw_host s) of
        (False, h) \<Rightarrow>
          (Inl (err_context (str ''failed to create log directory '' @ fl_directory c) (bail (cg_os_error (tn_config N)))),
           s\<lparr>tw_host := h\<rparr>)
      | (True, h) \<Rightarrow>
          (map_sum (err_context (str ''failed to initialize file logging under '' @ fl_directory c)) id (tn_appender N c),
           s\<lparr>tw_host := h\<rparr>))"

definition init_tracing_with_overrides ::
    "tracing_env \<Rightarrow> logging_config \<Rightarrow> logging_runtime_overrides \<Rightarrow> (('w, 'x) process_world, tracing_setup) act" where
  "init_tracing_with_overrides N c ov =
     act_bind (act_lift (logging_validate (tn_config N) c)) (\<lambda>_.
     let chosen = (case lo_level_filter ov of
           Some level_filter \<Rightarrow> trim level_filter
         | None \<Rightarrow> (case tn_env_filter N of Some f \<Rightarrow> f | None \<Rightarrow> trim (lg_level c)));
         stderr_layer = (if lg_stderr c
           then Some \<lparr>fy_target = lo_debug_mode ov, fy_span_events = lo_debug_mode ov, fy_ansi = lg_stderr_ansi c\<rparr> else None) in
     act_bind (if fl_enabled (lg_file c)
         then act_bind (build_file_appender N (lg_file c)) (\<lambda>_.
           act_ret (Some \<lparr>fy_target = lo_debug_mode ov, fy_span_events = lo_debug_mode ov, fy_ansi = False\<rparr>))
         else act_ret None) (\<lambda>file_layer s.
       if pw_subscriber_installed s
       then (Inl (err_context (str ''failed to install tracing subscriber'') (tn_install_error N)), s)
       else (Inr \<lparr>tu_filter = chosen, tu_stderr = stderr_layer, tu_file = file_layer\<rparr>, s\<lparr>pw_subscriber_installed := True\<rparr>)))"

definition init_tracing :: "tracing_env \<Rightarrow> logging_config \<Rightarrow> (('w, 'x) process_world, tracing_setup) act" where
  "init_tracing N c = init_tracing_with_overrides N c logging_runtime_overrides_default"

definition init_tracing_from_default_config_with_cli ::
    "tracing_env \<Rightarrow> (rstring \<Rightarrow> rstring option) \<Rightarrow> bool \<Rightarrow> bool \<Rightarrow> (('w, 'x) process_world, tracing_setup) act" where
  "init_tracing_from_default_config_with_cli N env_var debug_enabled log_color s =
     (let config_path = (case env_var (str ''OPENJARVIS_CONFIG'') of None \<Rightarrow> str ''config.yaml'' | Some p \<Rightarrow> p) in
      case load_logging_config_from_path N (tw_host s) config_path of
        Inl e \<Rightarrow> (Inl e, s)
      | Inr c \<Rightarrow>
          let ov = overrides_from_cli debug_enabled log_color in
          init_tracing_with_overrides N (overrides_apply ov c) ov s)"

section \<open>The runtime and the worker\<close>

text \<open>The hooks, and the tools with the state they act on.\<close>

record ('w, 'c, 'x, 'q) agent_runtime =
  ai_hooks :: "('w, 'c, 'x, 'q) toolbox hook_registry"
  ai_tools :: "('w, 'c, 'x, 'q) tool_system"

text \<open>What the parts of a server are made from.\<close>

record ('w, 'p, 'c, 'x, 'q, 'f) startup_env =
  se_config :: config_env
  se_tracing :: tracing_env
  se_env_var :: "rstring \<Rightarrow> rstring option"
  se_current_exe :: "err + rstring"
  se_services :: "('w, 'p, 'c, 'x, 'q) toolbox_services"
  se_hook_shell :: "('w, 'c, 'x, 'q) toolbox shell"
  se_files :: file_env
  se_world :: "('w, 'c, 'x, 'q) toolbox world"
  se_json_text :: "json \<Rightarrow> rstring"
  se_json_parse :: "rstring \<Rightarrow> err + json"
  se_openai :: "llm_config \<Rightarrow> openai_request \<Rightarrow> (('w, 'c, 'x, 'q) toolbox, openai_choice list) act"
  se_summary :: "rstring \<Rightarrow> err + compact_summary"
  se_fdiv :: "nat \<Rightarrow> nat \<Rightarrow> rat"
  se_uuids :: uuid_lib
  se_open_sqlite :: "rstring \<Rightarrow> session_store_error + sqlite_db"
  se_feishu :: "'f feishu_env"
  se_feishu_world :: 'f
  se_contexts :: context_env

definition agent_runtime_new :: "('w, 'x) tool_world \<Rightarrow> rstring \<Rightarrow> ('w, 'c, 'x, 'q) agent_runtime" where
  "agent_runtime_new w workspace_root = \<lparr>ai_hooks = [], ai_tools = with_workspace_root w workspace_root\<rparr>"

definition runtime_from_config_with_skill_roots ::
    "('w, 'p, 'c, 'x, 'q, 'f) startup_env \<Rightarrow> agent_config \<Rightarrow> rstring list \<Rightarrow> ('w, 'x) tool_world
     \<Rightarrow> err + ('w, 'c, 'x, 'q) agent_runtime" where
  "runtime_from_config_with_skill_roots U config skill_roots w =
     (case hook_registry_from_config (se_hook_shell U) (ag_hook config) of
        Inl e \<Rightarrow> Inl e
      | Inr hooks \<Rightarrow>
     (case from_config_with_skill_roots (se_services U) (ag_tool config) skill_roots w of
        (Inl e, _) \<Rightarrow> Inl e
      | (Inr _, tools) \<Rightarrow> Inr \<lparr>ai_hooks = hooks, ai_tools = tools\<rparr>))"

definition runtime_from_config ::
    "('w, 'p, 'c, 'x, 'q, 'f) startup_env \<Rightarrow> agent_config \<Rightarrow> ('w, 'x) process_world \<Rightarrow> err + ('w, 'c, 'x, 'q) agent_runtime" where
  "runtime_from_config U config s =
     runtime_from_config_with_skill_roots U config (default_skill_roots s) (tool_world.truncate s)"

text \<open>The scalar values of the prompt that every worker gives its threads.\<close>

definition DEFAULT_ASSISTANT_SYSTEM_PROMPT :: rstring where
  "DEFAULT_ASSISTANT_SYSTEM_PROMPT =
     [20320, 26159] @ str '' OpenJarvis'' @ [65292, 19968, 20010, 26377, 24110, 21161, 12289, 21487, 38752,
     12289, 31616, 27905, 30340] @ str '' AI '' @ [21161, 25163, 12290, 35831, 30452, 25509, 22238, 31572, 29992,
     25143, 38382, 39064, 65307, 22914, 38656, 35201, 24037, 20855, 65292, 22522, 20110, 19978, 19979, 25991,
     21457, 36215, 24037, 20855, 35843, 29992, 12290, 24403, 20320, 38656, 35201, 22238, 22797, 22270, 29255,
     26102, 65292, 24517, 39035, 22312, 22238, 22797, 20013, 20351, 29992] @ str '' `#!openjarvis[image:/'' @
     [32477, 23545, 36335, 24452] @ str ''/'' @ [22270, 29255] @ str ''.png]` '' @ [35821, 27861, 20256, 36882,
     22270, 29255, 32477, 23545, 36335, 24452, 65292, 21487, 20197, 19982, 26222, 36890, 25991, 26412, 21516,
     26102, 36755, 20986, 65307, 19981, 35201, 25913, 20889, 35813, 35821, 27861, 65292, 19981, 35201, 36755,
     20986, 30456, 23545, 36335, 24452, 65292, 20063, 19981, 35201, 35299, 37322, 36825, 20010, 21327, 35758,
     26412, 36523, 12290]"

type_synonym 'e llm_provider = "llm_request \<Rightarrow> ('e, llm_response) act"

record ('w, 'c, 'x, 'q) agent_worker_builder =
  ab_llm :: "('w, 'c, 'x, 'q) toolbox llm_provider option"
  ab_runtime :: "('w, 'c, 'x, 'q) agent_runtime"
  ab_system_prompt :: rstring
  ab_llm_config :: llm_config
  ab_compact_config :: agent_compact_config
  ab_compact_provider :: "('w, 'c, 'x, 'q) toolbox compact_provider option"

definition agent_worker_builder_new :: "('w, 'c, 'x, 'q) agent_runtime \<Rightarrow> ('w, 'c, 'x, 'q) agent_worker_builder" where
  "agent_worker_builder_new runtime =
     \<lparr>ab_llm = None, ab_runtime = runtime, ab_system_prompt = DEFAULT_ASSISTANT_SYSTEM_PROMPT,
      ab_llm_config = llm_config_default, ab_compact_config = agent_compact_config_default, ab_compact_provider = None\<rparr>"

text \<open>The feature prompts read the memory and the skills of the tools.\<close>

definition worker_features ::
    "('w, 'p, 'c, 'x, 'q, 'f) startup_env \<Rightarrow> rstring \<Rightarrow> ('w, 'c, 'x, 'q) toolbox feature_env" where
  "worker_features U system_prompt =
     \<lparr>fe_system_prompt = system_prompt,
      fe_active_catalog_prompt = (\<lambda>t. (active_catalog_prompt (tbs_memory (se_services U)) (tb_memory t), t)),
      fe_skill_catalog_prompt = (\<lambda>t. skill_catalog_prompt (tb_skills t))\<rparr>"

definition agent_worker_build ::
    "('w, 'p, 'c, 'x, 'q, 'f) startup_env \<Rightarrow> ('w, 'c, 'x, 'q) agent_worker_builder \<Rightarrow> err + ('w, 'c, 'x, 'q) toolbox agent_worker" where
  "agent_worker_build U b =
     (case ab_llm b of
        None \<Rightarrow> Inl (bail (str ''agent worker builder requires an llm provider''))
      | Some llm \<Rightarrow>
          let w = (se_world U)\<lparr>w_generate := llm\<rparr>; hooks = ai_hooks (ab_runtime b); tools = toolbox_env (se_services U) in
          Inr \<lparr>aw_loop =
                 (case ab_compact_provider b of
                    Some provider \<Rightarrow> with_compact_provider w hooks tools (ab_llm_config b) (ab_compact_config b) provider
                      (se_json_text U) (se_fdiv U) (se_uuids U)
                  | None \<Rightarrow> with_compact_config w hooks tools (ab_llm_config b) (ab_compact_config b)
                      (se_summary U) (se_json_text U) (se_fdiv U) (se_uuids U)),
               aw_features = worker_features U (ab_system_prompt b)\<rparr>)"

definition worker_from_config ::
    "('w, 'p, 'c, 'x, 'q, 'f) startup_env \<Rightarrow> app_config \<Rightarrow> ('w, 'x) process_world
     \<Rightarrow> err + ('w, 'c, 'x, 'q) toolbox agent_worker \<times> ('w, 'c, 'x, 'q) agent_runtime" where
  "worker_from_config U config s =
     (case build_provider (se_files U) (se_json_text U) (se_json_parse U) (se_openai U) (se_world U) (ap_llm config) of
        Inl e \<Rightarrow> Inl e
      | Inr llm \<Rightarrow>
     (case runtime_from_config U (ap_agent config) s of
        Inl e \<Rightarrow> Inl e
      | Inr runtime \<Rightarrow>
          map_sum id (\<lambda>W. (W, runtime)) (agent_worker_build U
            ((agent_worker_builder_new runtime)\<lparr>ab_llm := Some llm, ab_llm_config := ap_llm config,
               ab_compact_config := ag_compact (ap_agent config)\<rparr>))))"

text \<open>The same from the installed configuration.\<close>

definition worker_from_global_config ::
    "('w, 'p, 'c, 'x, 'q, 'f) startup_env \<Rightarrow> (('w, 'x) process_world, ('w, 'c, 'x, 'q) toolbox agent_worker \<times> ('w, 'c, 'x, 'q) agent_runtime) act" where
  "worker_from_global_config U s =
     (case global_config (pw_global_config s) of
        Inl e \<Rightarrow> (Inl e, s)
      | Inr config \<Rightarrow> (worker_from_config U config s, s))"

section \<open>The server\<close>

text \<open>The router over the store that the configuration selects.\<close>

datatype started_router =
    RouterOverMemory "memory_store router_state"
  | RouterOverSqlite "sqlite_db router_state"

record ('w, 'c, 'x, 'q) started_server =
  sd_config :: app_config
  sd_worker :: "('w, 'c, 'x, 'q) toolbox agent_worker"
  sd_tools :: "('w, 'c, 'x, 'q) tool_system"
  sd_commands :: command_registry
  sd_router :: started_router

definition load_startup_config :: "('w, 'p, 'c, 'x, 'q, 'f) startup_env \<Rightarrow> openjarvis_cli \<Rightarrow> host_fs \<Rightarrow> err + app_config" where
  "load_startup_config U cli h =
     (case load_config (se_config U) (se_env_var U) h of
        Inl e \<Rightarrow> Inl e
      | Inr config \<Rightarrow>
          if oc_builtin_mcp cli
          then (case se_current_exe U of
                  Inl e \<Rightarrow> Inl e
                | Inr executable \<Rightarrow>
                    (case enable_builtin_mcp (se_config U) executable config of (Inl e, _) \<Rightarrow> Inl e | (Inr _, c) \<Rightarrow> Inr c))
          else Inr config)"

text \<open>\<open>--load-skill\<close>: only the selected skills stay enabled.\<close>

definition preload_skills ::
    "('w, 'p, 'c, 'x, 'q, 'f) startup_env \<Rightarrow> openjarvis_cli \<Rightarrow> ('w, 'c, 'x, 'q) tool_system \<Rightarrow> err + ('w, 'c, 'x, 'q) tool_system" where
  "preload_skills U cli tools =
     (if oc_load_skills cli = [] then Inr tools
      else (case api_restrict_to (se_services U) (oc_load_skills cli) tools of
              (Inl e, _) \<Rightarrow> Inl e | (Inr _, tools1) \<Rightarrow> Inr tools1))"

text \<open>
  The Feishu channel as the router registers it: its own name and start, and the default checks of the trait, which do
  nothing.
\<close>

definition feishu_as_channel :: "'f feishu_env \<Rightarrow> 'f \<Rightarrow> feishu_config \<Rightarrow> channel" where
  "feishu_as_channel E w config =
     \<lparr>cn_name = FEISHU_NAME, cn_on_start = Inr (),
      cn_start = map_sum id (\<lambda>_. ()) (fst (snd (feishu_start E (feishu_channel_new config, w)))),
      cn_check_health = Inr ()\<rparr>"

definition start_router :: "('w, 'p, 'c, 'x, 'q, 'f) startup_env \<Rightarrow> app_config \<Rightarrow> 's session_manager \<Rightarrow> err + 's router_state" where
  "start_router U config sessions =
     (let feishu = ch_feishu (ap_channels config) in
      case register_channels (fc_mode feishu) (feishu_as_channel (se_feishu U) (se_feishu_world U) feishu) (router_new sessions Map.empty) of
        (Inl e, _) \<Rightarrow> Inl e | (Inr _, r) \<Rightarrow> Inr r)"

definition open_router :: "('w, 'p, 'c, 'x, 'q, 'f) startup_env \<Rightarrow> app_config \<Rightarrow> err + started_router" where
  "open_router U config =
     (let persistence = sn_persistence (ap_session config); path = ss_path (sp_sqlite persistence) in
      case sp_backend persistence of
        MemoryBackend \<Rightarrow>
          map_sum id RouterOverMemory (start_router U config (session_manager_new memory_store_new))
      | SqliteBackend \<Rightarrow>
          (case se_open_sqlite U path of
             Inl e \<Rightarrow> Inl (store_error_to_err e)
           | Inr db \<Rightarrow>
          (case session_manager_with_store (sql_initialize_schema path) db of
             Inl e \<Rightarrow> Inl (store_error_to_err e)
           | Inr sessions \<Rightarrow> map_sum id RouterOverSqlite (start_router U config sessions))))"

definition start_server ::
    "('w, 'p, 'c, 'x, 'q, 'f) startup_env \<Rightarrow> openjarvis_cli \<Rightarrow> (('w, 'x) process_world, ('w, 'c, 'x, 'q) started_server) act" where
  "start_server U cli =
     act_bind (init_tracing_from_default_config_with_cli (se_tracing U) (se_env_var U) (oc_debug cli) (oc_log_color cli)) (\<lambda>_.
     act_bind (\<lambda>s. (load_startup_config U cli (tw_host s), s)) (\<lambda>loaded.
     act_bind (\<lambda>s. let (r, g) = install_global_config (se_config U) loaded (pw_global_config s) in (r, s\<lparr>pw_global_config := g\<rparr>)) (\<lambda>config.
     act_bind (worker_from_global_config U) (\<lambda>(worker, runtime).
     act_bind (act_lift (preload_skills U cli (ai_tools runtime))) (\<lambda>tools.
     act_bind (act_lift (open_router U config)) (\<lambda>router.
     act_ret \<lparr>sd_config = config, sd_worker = worker, sd_tools = tools,
              sd_commands = with_builtin_commands (se_contexts U), sd_router = router\<rparr>))))))"

text \<open>\<open>main\<close> up to the service loop: a subcommand ends the process without a server.\<close>

definition main_entry ::
    "('w, 'p, 'c, 'x, 'q, 'f) startup_env \<Rightarrow> ('w, 'x) cli_env \<Rightarrow> openjarvis_cli
     \<Rightarrow> (('w, 'x) process_world, ('w, 'c, 'x, 'q) started_server option) act" where
  "main_entry U X cli =
     act_bind (act_lift (cli_with_builtin_commands X)) (\<lambda>registry.
     act_bind (dispatch_from_cli registry cli) (\<lambda>handled.
     if handled then act_ret None else act_bind (start_server U cli) (\<lambda>server. act_ret (Some server))))"

end
