(* ===== verification/OJ_Startup_Safety.thy ===== *)
theory OJ_Startup_Safety
  imports OJ_Startup OJ_Toolbox_Safety
begin

text \<open>
  What the subcommands of the program run, what its logging is set to, and exactly when its server starts.
\<close>

section \<open>Subcommands\<close>

lemma cli_names: "trim (str ''skill'') = str ''skill''" "trim (str ''internal-mcp'') = str ''internal-mcp''"
  "trim (str ''internal-browser'') = str ''internal-browser''"
  by (rule trim_word, simp add: str_def is_whitespace_def)+

lemma cli_registry:
  "\<exists>g. cli_with_builtin_commands X = Inr g \<and> map_of g (str ''skill'') = Some (skill_cli_executor X)
     \<and> map_of g (str ''internal-mcp'') = Some (internal_mcp_cli_executor X)
     \<and> map_of g (str ''internal-browser'') = Some (internal_browser_cli_executor X)"
proof -
  have n: "ce_name (skill_cli_executor X) = str ''skill''" "ce_name (internal_mcp_cli_executor X) = str ''internal-mcp''"
    "ce_name (internal_browser_cli_executor X) = str ''internal-browser''"
    by (simp_all add: skill_cli_executor_def internal_mcp_cli_executor_def internal_browser_cli_executor_def)
  have m: "map_of (bt_insert k v xs) = (map_of xs)(k \<mapsto> v)" for k :: rstring and v :: "('a, 'b) process_world cli_executor" and xs
    by (induction xs) auto
  have ne: "str ''skill'' \<noteq> []" "str ''internal-mcp'' \<noteq> []" "str ''internal-browser'' \<noteq> []" by (simp_all add: str_def)
  show ?thesis by (simp add: cli_with_builtin_commands_def cli_register_def Let_def n cli_names m ne)
qed

text \<open>Every parsed subcommand reaches its executor, which takes it; without one nothing runs.\<close>

theorem subcommand_reaches_its_executor:
  "\<exists>g. cli_with_builtin_commands X = Inr g \<and>
     (\<forall>cli. dispatch_from_cli g cli =
        (case oc_command cli of
           None \<Rightarrow> act_ret False
         | Some (SkillCommand c) \<Rightarrow> act_bind (run_cli_command X c) (\<lambda>_. act_ret True)
         | Some (InternalMcpCommand c) \<Rightarrow> act_bind (ci_run_demo X c) (\<lambda>_. act_ret True)
         | Some (InternalBrowserCommand c) \<Rightarrow> act_bind (ci_run_browser X c) (\<lambda>_. act_ret True)))"
proof -
  obtain g where g: "cli_with_builtin_commands X = Inr g" "map_of g (str ''skill'') = Some (skill_cli_executor X)"
    "map_of g (str ''internal-mcp'') = Some (internal_mcp_cli_executor X)"
    "map_of g (str ''internal-browser'') = Some (internal_browser_cli_executor X)"
    using cli_registry by blast
  have "cli_dispatch g command = (case command of SkillCommand c \<Rightarrow> run_cli_command X c
      | InternalMcpCommand c \<Rightarrow> ci_run_demo X c | InternalBrowserCommand c \<Rightarrow> ci_run_browser X c)" for command
    using g(2-4) by (cases command)
      (simp_all add: cli_dispatch_def skill_cli_executor_def internal_mcp_cli_executor_def internal_browser_cli_executor_def)
  then show ?thesis using g(1)
    by (intro exI [of _ g]) (auto simp: dispatch_from_cli_def split: option.split openjarvis_command.split)
qed

section \<open>Logging\<close>

text \<open>
  A logging that is set up writes somewhere. The flag for debugging overrides the environment, which overrides the
  configuration; both flags turn on the standard error, and only the colour flag or the configuration colours it; the
  file is never coloured.
\<close>

theorem logging_follows_the_flags:
  assumes "init_tracing_with_overrides N (overrides_apply (overrides_from_cli debug color) c) (overrides_from_cli debug color) s
    = (Inr u, s')"
  shows "tu_filter u = (if debug then trim (str ''debug'')
      else case tn_env_filter N of Some f \<Rightarrow> f | None \<Rightarrow> trim (lg_level c))
    \<and> (tu_stderr u \<noteq> None \<longleftrightarrow> debug \<or> color \<or> lg_stderr c) \<and> (tu_file u \<noteq> None \<longleftrightarrow> fl_enabled (lg_file c))
    \<and> (tu_stderr u \<noteq> None \<or> tu_file u \<noteq> None)
    \<and> (\<forall>l. tu_stderr u = Some l \<longrightarrow> fy_ansi l = (color \<or> lg_stderr_ansi c)) \<and> (\<forall>l. tu_file u = Some l \<longrightarrow> \<not> fy_ansi l)
    \<and> pw_subscriber_installed s' \<and> \<not> pw_subscriber_installed s"
proof -
  let ?ov = "overrides_from_cli debug color"
  let ?c = "overrides_apply ?ov c"
  have c: "lg_file ?c = lg_file c" "lg_stderr ?c = (debug \<or> color \<or> lg_stderr c)" "lg_stderr_ansi ?c = (color \<or> lg_stderr_ansi c)"
    "\<not> debug \<Longrightarrow> lg_level ?c = lg_level c"
    by (auto simp: overrides_apply_def overrides_from_cli_def)
  obtain v where valid: "logging_validate (tn_config N) ?c = Inr v"
    using assms by (cases "logging_validate (tn_config N) ?c") (auto simp: init_tracing_with_overrides_def act_bind_def act_lift_def)
  have built: "pw_subscriber_installed (snd (build_file_appender N f s)) = pw_subscriber_installed s" for f
    by (auto simp: build_file_appender_def split: prod.split bool.split)
  have sinks: "lg_stderr ?c \<or> fl_enabled (lg_file ?c)" using valid by (simp add: logging_validate_def)
  show ?thesis
  proof (cases "fl_enabled (lg_file c)")
    case True
    obtain r1 s1 where 1: "build_file_appender N (lg_file c) s = (r1, s1)" by fastforce
    show ?thesis using assms valid True sinks 1 built [of "lg_file c"] c
      by (cases r1) (auto simp: init_tracing_with_overrides_def act_bind_def act_lift_def act_ret_def Let_def
          overrides_from_cli_def split: if_splits option.split)
  next
    case False
    then show ?thesis using assms valid sinks c
      by (auto simp: init_tracing_with_overrides_def act_bind_def act_lift_def act_ret_def Let_def
          overrides_from_cli_def split: if_splits option.split)
  qed
qed

section \<open>What stops a start\<close>

text \<open>The keys of a YAML mapping are read into a hash map.\<close>

definition yaml_servers_distinct :: "config_env \<Rightarrow> bool" where
  "yaml_servers_distinct G \<longleftrightarrow> (\<forall>raw c. cg_yaml G raw = Inr c \<longrightarrow> distinct (map fst (mcp_servers_of c)))"

lemma sidecar_distinct:
  assumes "load_external_mcp_sidecar G h path c = Inr c'" "distinct (map fst (mcp_servers_of c))"
  shows "distinct (map fst (mcp_servers_of c'))"
proof (cases "path_exists h (resolve_external_mcp_config_path path)")
  case True
  show ?thesis
    using sidecar_is_merged_disjointly [OF assms(1) True]
  proof (elim exE conjE)
    fix servers
    assume d: "distinct (map fst servers)" and new: "\<forall>name \<in> fst ` set servers. trim name \<noteq> [] \<and> map_of (mcp_servers_of c) name = None"
      and c': "c' = with_mcp (mcp_servers_of c @ servers) c"
    have "n \<notin> fst ` set (mcp_servers_of c)" if "n \<in> fst ` set servers" for n
      using bspec [OF new that] by (simp add: map_of_eq_None_iff)
    then have "fst ` set (mcp_servers_of c) \<inter> fst ` set servers = {}" by blast
    then show ?thesis using assms(2) d by (simp add: c')
  qed
qed (use assms in \<open>simp add: load_external_mcp_sidecar_def Let_def\<close>)

lemma resolve_paths_servers: "mcp_servers_of (app_config_resolve_paths path c) = mcp_servers_of c"
  by (simp add: mcp_servers_of_def app_config_resolve_paths_def)

lemma loaded_config_valid:
  assumes "load_config G env_var h = Inr c" "yaml_servers_distinct G"
  shows "app_config_validate G c = Inr () \<and> distinct (map fst (mcp_servers_of c))"
proof -
  obtain path where path: "from_yaml_path G h path = Inr c" using assms(1) by (auto simp: load_config_def)
  then obtain c0 where read: "(if path_exists h path then
              (case fs_read_to_string h path of
                 None \<Rightarrow> Inl (err_context (str ''failed to read config file '' @ path) (bail (cg_os_error G)))
               | Some raw \<Rightarrow> map_sum (err_context (str ''failed to parse config file '' @ path)) id (cg_yaml G raw))
            else Inr app_config_default) = Inr c0"
    and merged: "load_external_mcp_sidecar G h path (app_config_resolve_paths path c0) = Inr c"
    and valid: "app_config_validate G c = Inr ()"
    unfolding from_yaml_path_def by (cases "app_config_validate G c") (auto split: sum.splits)
  have "distinct (map fst (mcp_servers_of c0))"
  proof (cases "path_exists h path")
    case True
    then obtain raw where "map_sum (err_context (str ''failed to parse config file '' @ path)) id (cg_yaml G raw) = Inr c0"
      using read by (auto split: option.splits)
    then have "cg_yaml G raw = Inr c0" by (cases "cg_yaml G raw") auto
    then show ?thesis using assms(2) by (auto simp: yaml_servers_distinct_def)
  next
    case False
    then show ?thesis using read by (auto simp: app_config_default_def mcp_servers_of_def agent_config_default_def)
  qed
  then show ?thesis using sidecar_distinct [OF merged] valid by (simp add: resolve_paths_servers)
qed

lemma startup_config_valid:
  assumes "load_startup_config U cli h = Inr c" "yaml_servers_distinct (se_config U)"
  shows "app_config_validate (se_config U) c = Inr () \<and> distinct (map fst (mcp_servers_of c))"
proof -
  obtain c0 where c0: "load_config (se_config U) (se_env_var U) h = Inr c0"
    using assms(1) by (auto simp: load_startup_config_def split: sum.splits)
  note valid = loaded_config_valid [OF c0 assms(2)]
  show ?thesis
  proof (cases "oc_builtin_mcp cli")
    case True
    then show ?thesis using assms(1) c0 valid
      by (auto simp: load_startup_config_def enable_builtin_mcp_def Let_def upsert_server_def distinct_update split: sum.splits)
  qed (use assms(1) c0 valid in \<open>simp add: load_startup_config_def\<close>)
qed

lemma tracing_keeps:
  assumes "init_tracing_from_default_config_with_cli N env_var d k s = (r, s1)"
  shows "pw_global_config s1 = pw_global_config s"
proof -
  have built: "pw_global_config (snd (build_file_appender N f s)) = pw_global_config s" for f
    by (auto simp: build_file_appender_def split: prod.split bool.split)
  have kept: "pw_global_config (snd (init_tracing_with_overrides N c ov s)) = pw_global_config s" for c ov
  proof (cases "logging_validate (tn_config N) c")
    case (Inr v)
    obtain r1 s1 where 1: "build_file_appender N (lg_file c) s = (r1, s1)" by fastforce
    then show ?thesis using built [of "lg_file c"] Inr
      by (cases r1) (auto simp: init_tracing_with_overrides_def act_bind_def act_lift_def act_ret_def Let_def)
  qed (simp add: init_tracing_with_overrides_def act_bind_def act_lift_def)
  show ?thesis using assms kept
    by (auto simp: init_tracing_from_default_config_with_cli_def Let_def split: sum.splits dest: arg_cong [where f = snd])
      (metis snd_conv)
qed

lemma and_outcome: "(\<exists>y. (case x of Inl e \<Rightarrow> Inl e | Inr a \<Rightarrow> f a) = Inr y) \<longleftrightarrow> (\<exists>a y. x = Inr a \<and> f a = Inr y)"
  by (cases x) auto

text \<open>The conditions, one by one.\<close>

definition channel_starts :: "('w, 'p, 'c, 'x, 'q, 'f) startup_env \<Rightarrow> app_config \<Rightarrow> bool" where
  "channel_starts U c \<longleftrightarrow>
     (let feishu = ch_feishu (ap_channels c); script = fc_sidecar_script feishu in
      trim (fc_mode feishu) = []
      \<or> is_long_connection feishu \<and> fc_auto_start_sidecar feishu \<and> has_credentials feishu
        \<and> fe_path_exists (se_feishu U) script (se_feishu_world U)
        \<and> (\<exists>w. fe_spawn (se_feishu U) (fc_node_bin feishu) [script]
              [(str ''FEISHU_APP_ID'', fc_app_id feishu), (str ''FEISHU_APP_SECRET'', fc_app_secret feishu),
               (str ''FEISHU_OPEN_BASE_URL'', fc_open_base_url feishu)] (se_feishu_world U) = (Inr True, w)))"

definition store_opens :: "('w, 'p, 'c, 'x, 'q, 'f) startup_env \<Rightarrow> app_config \<Rightarrow> bool" where
  "store_opens U c \<longleftrightarrow>
     (case sp_backend (sn_persistence (ap_session c)) of
        MemoryBackend \<Rightarrow> True
      | SqliteBackend \<Rightarrow> \<exists>db. se_open_sqlite U (ss_path (sp_sqlite (sn_persistence (ap_session c)))) = Inr db
          \<and> db_user_version db \<in> {0, SQLITE_SCHEMA_VERSION})"

definition skills_selectable :: "('w, 'p, 'c, 'x, 'q, 'f) startup_env \<Rightarrow> openjarvis_cli \<Rightarrow> ('w, 'x) process_world \<Rightarrow> bool" where
  "skills_selectable U cli s \<longleftrightarrow> oc_load_skills cli = []
     \<or> (\<exists>ms g. restrict_to (tbs_skills (se_services U)) (tw_host s) (oc_load_skills cli)
          (skill_registry_with_roots (default_skill_roots s)) = (Inr ms, g))"

definition provider_found :: "('w, 'p, 'c, 'x, 'q, 'f) startup_env \<Rightarrow> app_config \<Rightarrow> bool" where
  "provider_found U c \<longleftrightarrow>
     effective_protocol (ap_llm c) = str ''mock''
     \<or> (\<exists>resolved. resolve_provider_config (se_files U) (ap_llm c) = Inr resolved
          \<and> (effective_protocol (ap_llm c) = str ''openai_compatible'' \<longrightarrow>
               trim (lc_api_key resolved) \<noteq> [] \<and> trim (lc_model resolved) \<noteq> []))"

lemma feishu_channel_starts:
  "cn_start (feishu_as_channel E w config) = Inr () \<longleftrightarrow>
     is_long_connection config \<and> fc_auto_start_sidecar config \<and> has_credentials config
     \<and> fe_path_exists E (fc_sidecar_script config) w
     \<and> (\<exists>w'. fe_spawn E (fc_node_bin config) [fc_sidecar_script config]
           [(str ''FEISHU_APP_ID'', fc_app_id config), (str ''FEISHU_APP_SECRET'', fc_app_secret config),
            (str ''FEISHU_OPEN_BASE_URL'', fc_open_base_url config)] w = (Inr True, w'))"
proof (cases "is_long_connection config \<and> fc_auto_start_sidecar config \<and> has_credentials config
    \<and> fe_path_exists E (fc_sidecar_script config) w")
  case True
  obtain x w' where "fe_spawn E (fc_node_bin config) [fc_sidecar_script config]
      [(str ''FEISHU_APP_ID'', fc_app_id config), (str ''FEISHU_APP_SECRET'', fc_app_secret config),
       (str ''FEISHU_OPEN_BASE_URL'', fc_open_base_url config)] w = (x, w')" by fastforce
  with True show ?thesis
    by (cases x) (simp_all add: feishu_as_channel_def feishu_start_def feishu_channel_new_def spawn_sidecar_def Let_def act_bind_def
        on_world_def act_context_def act_fail_def act_ret_def)
qed (auto simp: feishu_as_channel_def feishu_start_def feishu_channel_new_def spawn_sidecar_def Let_def)

lemma start_router_outcome: "(\<exists>r. start_router U c sessions = Inr r) \<longleftrightarrow> channel_starts U c"
proof -
  let ?n = "feishu_as_channel (se_feishu U) (se_feishu_world U) (ch_feishu (ap_channels c))"
  have "cn_on_start ?n = Inr ()" "cn_check_health ?n = Inr ()" by (simp_all add: feishu_as_channel_def)
  then have "(\<exists>r. start_router U c sessions = Inr r) \<longleftrightarrow> trim (fc_mode (ch_feishu (ap_channels c))) = [] \<or> cn_start ?n = Inr ()"
    by (cases "cn_start ?n")
      (auto simp: start_router_def Let_def register_channels_def register_channel_def act_bind_def act_lift_def act_ret_def)
  then show ?thesis unfolding feishu_channel_starts channel_starts_def Let_def .
qed

lemma map_sum_Inr: "(\<exists>y. map_sum id f x = Inr y) \<longleftrightarrow> (\<exists>a. x = Inr a)"
  by (cases x) auto

lemma open_router_outcome: "(\<exists>r. open_router U c = Inr r) \<longleftrightarrow> store_opens U c \<and> channel_starts U c"
proof (cases "sp_backend (sn_persistence (ap_session c))")
  case MemoryBackend
  then show ?thesis by (simp add: open_router_def store_opens_def Let_def map_sum_Inr start_router_outcome)
next
  case SqliteBackend
  show ?thesis
  proof (cases "se_open_sqlite U (ss_path (sp_sqlite (sn_persistence (ap_session c))))")
    case (Inr db)
    then show ?thesis using SqliteBackend
      by (auto simp: open_router_def store_opens_def Let_def map_sum_Inr start_router_outcome session_manager_with_store_def
          sql_initialize_schema_def SQLITE_SCHEMA_VERSION_def)
  qed (simp add: open_router_def store_opens_def Let_def SqliteBackend)
qed

lemma restrict_outcome:
  "(\<exists>r. preload_skills U cli (t, g) = Inr r) \<longleftrightarrow> oc_load_skills cli = []
     \<or> (\<exists>ms y. restrict_to (tbs_skills (se_services U)) (tb_host t) (oc_load_skills cli) (tb_skills t) = (Inr ms, y))"
proof (cases "restrict_to (tbs_skills (se_services U)) (tb_host t) (oc_load_skills cli) (tb_skills t)")
  case (Pair r y)
  then show ?thesis
    by (cases r) (auto simp: preload_skills_def api_restrict_to_def skill_api_def act_bind_def on_toolbox_def on_part_def
        sync_skills_def act_ret_def)
qed

lemma provider_outcome:
  assumes "app_config_validate G c = Inr u"
  shows "(\<exists>llm. build_provider (se_files U) (se_json_text U) (se_json_parse U) (se_openai U) (se_world U) (ap_llm c) = Inr llm)
    \<longleftrightarrow> provider_found U c"
  using llm_validate_Inr(1) [OF app_config_validate_parts(1) [OF assms]]
  by (cases "resolve_provider_config (se_files U) (ap_llm c)")
    (auto simp: build_provider_def protocol_from_config_def provider_found_def openai_provider_new_def Let_def)

lemma runtime_outcome:
  assumes "app_config_validate G c = Inr u" "distinct (map fst (mcp_servers_of c))"
  shows "(\<exists>r. runtime_from_config U (ap_agent c) s = Inr r) \<longleftrightarrow> (\<forall>name \<in> fst ` set (mcp_servers_of c). trim name \<noteq> [])"
    and "runtime_from_config U (ap_agent c) s = Inr r \<Longrightarrow> tb_host (fst (ai_tools r)) = tw_host s
      \<and> tb_skills (fst (ai_tools r)) = skill_registry_with_roots (default_skill_roots s)"
proof -
  let ?Z = "se_services U" and ?config = "ag_tool (ap_agent c)" and ?w = "tool_world.truncate s"
  obtain hooks where h: "hook_registry_from_config (se_hook_shell U) (ag_hook (ap_agent c)) = Inr hooks"
    using valid_hooks_register [OF assms(1)] by blast
  obtain r1 m where load: "load_definitions (tbs_mcp ?Z) (build_mcp_server_definitions ?config) (mcp_manager_new (tw_mcp ?w)) = (r1, m)"
    by fastforce
  obtain r2 S where made: "from_config_with_skill_roots ?Z ?config (default_skill_roots s) ?w = (r2, S)"
    by (rule prod.exhaust)
  note out = from_config_outcome [OF made load]
  have names: "r1 = Inr () \<longleftrightarrow> (\<forall>name \<in> fst ` set (mcp_servers_of c). trim name \<noteq> [])"
    using load_built_definitions(1) [OF _ _ load] app_config_validate_parts(3) [OF assms(1)] assms(2)
    by (simp add: mcp_servers_of_def)
  show "(\<exists>r. runtime_from_config U (ap_agent c) s = Inr r) \<longleftrightarrow> (\<forall>name \<in> fst ` set (mcp_servers_of c). trim name \<noteq> [])"
    unfolding names [symmetric] using h made out(1)
    by (cases r1) (simp_all add: runtime_from_config_def runtime_from_config_with_skill_roots_def)
  show "runtime_from_config U (ap_agent c) s = Inr r \<Longrightarrow> tb_host (fst (ai_tools r)) = tw_host s
      \<and> tb_skills (fst (ai_tools r)) = skill_registry_with_roots (default_skill_roots s)"
    using h made out(2,3) by (cases r2)
      (auto simp: runtime_from_config_def runtime_from_config_with_skill_roots_def tool_world.truncate_def)
qed

lemma worker_outcome:
  assumes "app_config_validate G c = Inr u" "distinct (map fst (mcp_servers_of c))"
  shows "(\<exists>W. worker_from_config U c s = Inr W)
    \<longleftrightarrow> provider_found U c \<and> (\<forall>name \<in> fst ` set (mcp_servers_of c). trim name \<noteq> [])"
    and "worker_from_config U c s = Inr (W, runtime) \<Longrightarrow> tb_host (fst (ai_tools runtime)) = tw_host s
      \<and> tb_skills (fst (ai_tools runtime)) = skill_registry_with_roots (default_skill_roots s)"
proof -
  note runtime = runtime_outcome [OF assms, of U s]
  note provider = provider_outcome [OF assms(1), of U]
  let ?p = "build_provider (se_files U) (se_json_text U) (se_json_parse U) (se_openai U) (se_world U) (ap_llm c)"
  show "(\<exists>W. worker_from_config U c s = Inr W)
    \<longleftrightarrow> provider_found U c \<and> (\<forall>name \<in> fst ` set (mcp_servers_of c). trim name \<noteq> [])"
    unfolding provider [symmetric] runtime(1) [symmetric]
    by (cases ?p; cases "runtime_from_config U (ap_agent c) s")
      (simp_all add: worker_from_config_def agent_worker_build_def Let_def)
  show "worker_from_config U c s = Inr (W, runtime) \<Longrightarrow> tb_host (fst (ai_tools runtime)) = tw_host s
      \<and> tb_skills (fst (ai_tools runtime)) = skill_registry_with_roots (default_skill_roots s)"
    using runtime(2) by (cases ?p; cases "runtime_from_config U (ap_agent c) s")
      (auto simp: worker_from_config_def agent_worker_build_def Let_def)
qed

text \<open>
  C39: exactly what stops a start. On a process that has no configuration installed yet the server starts if and only if
  logging can be set up and the configuration (with the demo server when asked for) loads, its LLM provider has what it
  needs, no MCP server has a blank name, the skills to preload can be selected, the session store opens and, unless its mode
  is blank, the Feishu channel is on a long connection, may start its sidecar, has an app id and secret (in a dry run, too),
  finds the script and spawns the process with its output captured. In particular no hook, no MCP server that fails to connect and no name of a server stops it.
\<close>
theorem server_starts_exactly_when:
  assumes "yaml_servers_distinct (se_config U)" "pw_global_config s = None"
  shows "(\<exists>server s'. start_server U cli s = (Inr server, s')) \<longleftrightarrow>
    (\<exists>traced s1 c. init_tracing_from_default_config_with_cli (se_tracing U) (se_env_var U) (oc_debug cli) (oc_log_color cli) s
         = (Inr traced, s1)
       \<and> load_startup_config U cli (tw_host s1) = Inr c
       \<and> provider_found U c \<and> (\<forall>name \<in> fst ` set (mcp_servers_of c). trim name \<noteq> [])
       \<and> skills_selectable U cli s1 \<and> store_opens U c \<and> channel_starts U c)"
proof -
  let ?init = "init_tracing_from_default_config_with_cli (se_tracing U) (se_env_var U) (oc_debug cli) (oc_log_color cli) s"
  obtain r1 s1 where 1: "?init = (r1, s1)" by fastforce
  note kept = tracing_keeps [OF 1]
  show ?thesis
  proof (cases "\<exists>traced c. r1 = Inr traced \<and> load_startup_config U cli (tw_host s1) = Inr c")
    case True
    then obtain traced c where ok: "r1 = Inr traced" "load_startup_config U cli (tw_host s1) = Inr c" by blast
    have valid: "app_config_validate (se_config U) c = Inr ()" "distinct (map fst (mcp_servers_of c))"
      using startup_config_valid [OF ok(2) assms(1)] by simp_all
    let ?s2 = "s1\<lparr>pw_global_config := Some c\<rparr>"
    have roots: "default_skill_roots ?s2 = default_skill_roots s1"
      by (simp add: default_skill_roots_def resolve_current_workspace_root_def)
    have start: "start_server U cli s = (act_bind (worker_from_global_config U) (\<lambda>(worker, runtime).
       act_bind (act_lift (preload_skills U cli (ai_tools runtime))) (\<lambda>tools.
       act_bind (act_lift (open_router U c)) (\<lambda>router.
       act_ret \<lparr>sd_config = c, sd_worker = worker, sd_tools = tools,
              sd_commands = with_builtin_commands (se_contexts U), sd_router = router\<rparr>)))) ?s2"
      using 1 ok valid(1) kept assms(2) by (simp add: start_server_def act_bind_def install_global_config_def)
    note worker = worker_outcome [OF valid, of U ?s2]
    show ?thesis
    proof (cases "worker_from_config U c ?s2")
      case (Inl e)
      then have "\<not> (provider_found U c \<and> (\<forall>name \<in> fst ` set (mcp_servers_of c). trim name \<noteq> []))"
        using worker(1) by simp
      then show ?thesis using start Inl 1 ok
        by (auto simp: act_bind_def worker_from_global_config_def global_config_def)
    next
      case (Inr x)
      obtain W runtime where x: "x = (W, runtime)" by fastforce
      obtain t g where tools: "ai_tools runtime = (t, g)" by fastforce
      have t: "tb_host t = tw_host s1" "tb_skills t = skill_registry_with_roots (default_skill_roots s1)"
        using worker(2) [OF Inr [unfolded x]] tools roots by simp_all
      have w: "provider_found U c \<and> (\<forall>name \<in> fst ` set (mcp_servers_of c). trim name \<noteq> [])" using worker(1) Inr by blast
      have "(\<exists>server s'. start_server U cli s = (Inr server, s'))
        \<longleftrightarrow> (\<exists>r. preload_skills U cli (t, g) = Inr r) \<and> (\<exists>r. open_router U c = Inr r)"
        unfolding start using Inr x tools
        by (cases "preload_skills U cli (t, g)"; cases "open_router U c")
          (simp_all add: act_bind_def worker_from_global_config_def global_config_def act_lift_def act_ret_def)
      then show ?thesis
        unfolding restrict_outcome open_router_outcome t skills_selectable_def [symmetric] using w 1 ok by simp
    qed
  next
    case False
    then have "\<nexists>server s'. start_server U cli s = (Inr server, s')"
      using 1 by (cases r1; cases "load_startup_config U cli (tw_host s1)") (auto simp: start_server_def act_bind_def)
    then show ?thesis using False 1 by auto
  qed
qed

section \<open>An example\<close>

definition demo_cli :: openjarvis_cli where
  "demo_cli = \<lparr>oc_debug = True, oc_log_color = False, oc_builtin_mcp = False, oc_load_skills = [], oc_command = None\<rparr>"

text \<open>A configuration file with the credentials of a Feishu application, and a sidecar that can be spawned.\<close>

definition demo_live_config :: app_config where
  "demo_live_config = app_config_default\<lparr>ap_channels :=
     \<lparr>ch_feishu = feishu_config_default\<lparr>fc_app_id := str ''cli'', fc_app_secret := str ''s''\<rparr>\<rparr>\<rparr>"

definition demo_live_env :: config_env where
  "demo_live_env = demo_config_env\<lparr>cg_yaml := (\<lambda>_. Inr demo_live_config)\<rparr>"

definition demo_sidecar_env :: "unit feishu_env" where
  "demo_sidecar_env =
     \<lparr>fe_post = (\<lambda>_. act_fail (bail [])), fe_now = (\<lambda>w. (0, w)), fe_uuid = (\<lambda>w. (0, w)), fe_uuid_text = (\<lambda>_. []),
      fe_read_file = (\<lambda>_. act_fail (bail [])), fe_path_exists = (\<lambda>p _. p = str ''scripts/feishu_ws_client.mjs''),
      fe_mime = (\<lambda>_. Inr ()), fe_spawn = (\<lambda>p _ _. act_ret (p = str ''node'')), fe_status_text = (\<lambda>_. []),
      fe_json_parse = (\<lambda>_. Inr JNull), fe_json_text = (\<lambda>_. []), fe_decode_error = (\<lambda>_. bail [])\<rparr>"

definition demo_startup :: "(nat list, unit, nat, mock_world, nat, unit) startup_env" where
  "demo_startup =
     \<lparr>se_config = demo_live_env,
      se_tracing = \<lparr>tn_config = demo_config_env, tn_yaml = (\<lambda>_. Inr logging_config_default), tn_env_filter = None,
        tn_appender = (\<lambda>_. Inr ()), tn_install_error = bail []\<rparr>,
      se_env_var = (\<lambda>_. None), se_current_exe = Inr (str ''openjarvis''), se_services = demo_services,
      se_hook_shell = \<lparr>sh_run = (\<lambda>_ _ t. (Exited True (Some 0) [] [], t)), sh_dbg = (\<lambda>x. x), sh_js = (\<lambda>_. [])\<rparr>,
      se_files = \<lparr>fe_read_to_string = (\<lambda>_. Inl (bail [])), fe_home_dir = Inl (bail []), fe_join = path_join\<rparr>,
      se_world = \<lparr>w_generate = (\<lambda>_. act_fail (bail [])), w_now = (\<lambda>t. (0, t)), w_uuid = (\<lambda>t. (0, t))\<rparr>,
      se_json_text = (\<lambda>_. []), se_json_parse = (\<lambda>_. Inr JNull), se_openai = (\<lambda>_ _. act_fail (bail [])),
      se_summary = (\<lambda>_. Inr demo_summary), se_fdiv = demo_fdiv, se_uuids = demo_uuid_lib,
      se_open_sqlite = (\<lambda>_. Inr sqlite_empty),
      se_feishu = demo_sidecar_env, se_feishu_world = (),
      se_contexts = demo_context_env\<rparr>"

text \<open>A workspace with that file.\<close>

definition demo_process :: "(nat list, mock_world) process_world" where
  "demo_process =
     \<lparr>tw_host = \<lparr>hf_cwd = [str ''w''], hf_dirs = [[str ''w'']], hf_files = [([str ''w'', str ''config.yaml''], [])], hf_links = []\<rparr>, tw_memory = demo_memory_fs, tw_mcp = [], tw_waits = [],
      tw_browser_host = demo_host, tw_browser = demo_mock_world, pw_current_dir = Some (str ''/w''), pw_stdout = [],
      pw_global_config = None, pw_subscriber_installed = False\<rparr>"

lemma demo_paths:
  "path_exists (tw_host demo_process) (str ''config.yaml'')" "fs_read_to_string (tw_host demo_process) (str ''config.yaml'') = Some []"
  "create_dirs (path_start (tw_host demo_process) (str ''logs'')) (path_parts (str ''logs'')) (tw_host demo_process)
    = (True, \<lparr>hf_cwd = [str ''w''], hf_dirs = [[str ''w''], [str ''w'', str ''logs'']], hf_files = [([str ''w'', str ''config.yaml''], [])], hf_links = []\<rparr>)"
  "path_exists \<lparr>hf_cwd = [str ''w''], hf_dirs = [[str ''w''], [str ''w'', str ''logs'']], hf_files = [([str ''w'', str ''config.yaml''], [])], hf_links = []\<rparr> (str ''config.yaml'')"
  "fs_read_to_string \<lparr>hf_cwd = [str ''w''], hf_dirs = [[str ''w''], [str ''w'', str ''logs'']], hf_files = [([str ''w'', str ''config.yaml''], [])], hf_links = []\<rparr> (str ''config.yaml'') = Some []"
  "\<not> path_exists \<lparr>hf_cwd = [str ''w''], hf_dirs = [[str ''w''], [str ''w'', str ''logs'']], hf_files = [([str ''w'', str ''config.yaml''], [])], hf_links = []\<rparr>
     (resolve_external_mcp_config_path (str ''config.yaml''))"
  by (simp_all add: demo_process_def path_exists_def is_file_def fs_read_to_string_def dir_target_def file_target_def entry_target_def real_path_def path_parts_def path_start_def
      path_is_absolute_def dir_exists_def resolve_external_mcp_config_path_def config_root_def path_parent_def path_join_def
      EXTERNAL_MCP_CONFIG_RELATIVE_PATH_def str_def)

text \<open>Resolving the relative paths of a valid configuration keeps it valid.\<close>

lemma resolve_against_nonblank: "resolve_against path p = [] \<longleftrightarrow> p = []"
  by (auto simp: resolve_against_def path_join_def)

lemma resolved_config_valid:
  "app_config_validate G c = Inr () \<Longrightarrow> app_config_validate G (app_config_resolve_paths path c) = Inr ()"
  by (auto simp: app_config_validate_def app_config_resolve_paths_def logging_validate_def logging_resolve_def
      file_logging_resolve_def file_logging_validate_def session_validate_def session_persistence_validate_def
      session_sqlite_validate_def session_resolve_def session_sqlite_resolve_def resolve_against_nonblank
      split: session_store_backend.splits)

theorem server_starts_exactly_when_witness:
  "\<exists>server s'. start_server demo_startup demo_cli demo_process = (Inr server, s')"
proof -
  let ?h = "\<lparr>hf_cwd = [str ''w''], hf_dirs = [[str ''w''], [str ''w'', str ''logs'']], hf_files = [([str ''w'', str ''config.yaml''], [])], hf_links = []\<rparr>"
  let ?s1 = "demo_process\<lparr>tw_host := ?h, pw_subscriber_installed := True\<rparr>"
  have ok: "cg_env_filter demo_config_env x = Inr ()" for x by (simp add: demo_config_env_def)
  have dist: "yaml_servers_distinct (se_config demo_startup)"
    by (auto simp: yaml_servers_distinct_def demo_startup_def demo_live_env_def demo_config_env_def demo_live_config_def
        app_config_default_def mcp_servers_of_def agent_config_default_def)
  have none: "pw_global_config demo_process = None" "pw_subscriber_installed demo_process = False" by (simp_all add: demo_process_def)
  let ?ov = "overrides_from_cli True False"
  have applied: "overrides_apply ?ov logging_config_default = logging_config_default\<lparr>lg_level := str ''debug''\<rparr>"
    by (simp add: overrides_apply_def overrides_from_cli_def logging_config_default_def)
  have sink: "lg_file logging_config_default = file_logging_config_default" "fl_enabled file_logging_config_default"
    "fl_directory file_logging_config_default = str ''logs''"
    by (simp_all add: logging_config_default_def file_logging_config_default_def)
  have words: "trim (str ''debug'') = str ''debug''" "trim (str ''openjarvis'') = str ''openjarvis''"
    by (rule trim_word, simp add: str_def is_whitespace_def)+
  have prefix: "trim (fl_filename_prefix file_logging_config_default) \<noteq> []"
    by (simp add: file_logging_config_default_def words)
  have valid: "logging_validate demo_config_env (logging_config_default\<lparr>lg_level := str ''debug''\<rparr>) = Inr ()"
    by (simp add: logging_validate_def ok words sink file_logging_validate_def prefix)
  have built: "build_file_appender (se_tracing demo_startup) file_logging_config_default demo_process = (Inr (), demo_process\<lparr>tw_host := ?h\<rparr>)"
    using demo_paths(3) by (simp add: build_file_appender_def sink demo_startup_def)
  have env: "tn_config (se_tracing demo_startup) = demo_config_env" "se_env_var demo_startup = (\<lambda>_. None)" "se_config demo_startup = demo_live_env"
    "tn_yaml (se_tracing demo_startup) = (\<lambda>_. Inr logging_config_default)" "cg_yaml demo_live_env = (\<lambda>_. Inr demo_live_config)"
    by (simp_all add: demo_startup_def demo_live_env_def)
  have root: "config_root (str ''config.yaml'') = []" by (simp add: config_root_def path_parent_def str_def)
  have resolved: "logging_resolve (str ''config.yaml'') logging_config_default = logging_config_default"
    by (simp add: logging_resolve_def file_logging_resolve_def resolve_against_def root path_join_def path_is_absolute_def
        logging_config_default_def file_logging_config_default_def)
  have quiet: "logging_validate demo_config_env logging_config_default = Inr ()"
    using app_config_validate_parts(5) [OF app_config_default_valid [OF ok]] by (simp add: app_config_default_def)
  have "\<exists>traced. init_tracing_with_overrides (se_tracing demo_startup) (logging_config_default\<lparr>lg_level := str ''debug''\<rparr>)
      ?ov demo_process = (Inr traced, ?s1)"
    using built valid none(2)
    by (simp add: init_tracing_with_overrides_def act_bind_def act_lift_def act_ret_def sink env Let_def)
  then obtain traced where traced: "init_tracing_from_default_config_with_cli (se_tracing demo_startup) (se_env_var demo_startup)
      (oc_debug demo_cli) (oc_log_color demo_cli) demo_process = (Inr traced, ?s1)"
    using demo_paths(1,2)
    by (auto simp: init_tracing_from_default_config_with_cli_def load_logging_config_from_path_def Let_def demo_cli_def applied env
        resolved quiet and_then_def)
  have "app_config_validate demo_live_env app_config_default = Inr ()"
    by (rule app_config_default_valid) (simp add: demo_live_env_def ok)
  then have config: "app_config_validate demo_live_env demo_live_config = Inr ()"
    by (simp add: app_config_validate_def demo_live_config_def)
  let ?c = "app_config_resolve_paths (str ''config.yaml'') demo_live_config"
  have load: "load_startup_config demo_startup demo_cli (tw_host ?s1) = Inr ?c"
    using demo_paths(4-6) resolved_config_valid [OF config, of "str ''config.yaml''"]
    by (simp add: load_startup_config_def load_config_def from_yaml_path_def load_external_mcp_sidecar_def Let_def and_then_def env)
      (simp add: demo_cli_def)
  have protocol: "effective_protocol (ap_llm ?c) = str ''mock''"
    by (simp add: app_config_resolve_paths_def demo_live_config_def app_config_default_def effective_protocol_def llm_config_default_def trim_word
        is_whitespace_def str_def to_ascii_lowercase_def)
  have "trim (str ''cli'') = str ''cli''" "trim (str ''s'') = str ''s''" by (rule trim_word, simp add: str_def is_whitespace_def)+
  then have "has_credentials (feishu_config_default\<lparr>fc_app_id := str ''cli'', fc_app_secret := str ''s''\<rparr>)"
    by (simp add: has_credentials_def)
  then have channel: "channel_starts demo_startup ?c"
    by (simp add: channel_starts_def app_config_resolve_paths_def demo_live_config_def demo_startup_def demo_sidecar_env_def
        feishu_config_default_def is_long_connection_def act_ret_def)
  have rest: "mcp_servers_of ?c = []" "oc_load_skills demo_cli = []" "store_opens demo_startup ?c"
    by (simp_all add: app_config_resolve_paths_def demo_live_config_def app_config_default_def mcp_servers_of_def
        agent_config_default_def demo_cli_def store_opens_def demo_startup_def sqlite_empty_def Let_def split: session_store_backend.split)
  have found: "provider_found demo_startup ?c" "\<forall>name \<in> fst ` set (mcp_servers_of ?c). trim name \<noteq> []"
    "skills_selectable demo_startup demo_cli ?s1"
    using protocol rest(1,2) by (simp_all add: provider_found_def skills_selectable_def)
  show ?thesis
    unfolding server_starts_exactly_when [OF dist none(1)]
    by (intro exI conjI) (rule traced load found rest(3) channel)+
qed

end
