(* ===== verification/Spec2Isabelle.thy ===== *)
theory Spec2Isabelle
  imports OJ_Session_Tasks OJ_System OJ_Agent_Termination OJ_Skill_Install OJ_Memory_Tools OJ_Command_Session OJ_Config OJ_Browser_Safety OJ_Feishu_Safety OJ_Toolbox_Safety OJ_Startup_Safety
begin

text \<open>
  \<^bold>\<open>The program.\<close> OpenJarvis (the Rust crate under \<open>src/src\<close>) connects chat channels to a language model that can
  call tools. A message goes once around this circle:

    Channel \<open>\<rightarrow>\<close> Router \<open>\<rightarrow>\<close> Session manager \<open>\<rightarrow>\<close> Agent worker \<open>\<rightarrow>\<close> Agent loop \<open>\<rightarrow>\<close> Router \<open>\<rightarrow>\<close> Channel

  The channel (Feishu) turns a line of its Node sidecar into an incoming message. The router drops repeated messages,
  answers slash commands, and sends at most one request per thread to the worker; further messages of the thread wait in
  a queue. The session manager gives each thread a cell shared by router and worker, in front of a store (memory or
  SQLite) that compares revisions. The worker locks the thread, seeds a new one with system messages, and runs the agent
  loop: model request, tool calls, model request, until the model answers without a tool call. Each message the loop
  commits is persisted and reported; the finalized turn and the completion of the request are reported at its end. The
  router forwards what is to be sent and releases the thread.

  \<^bold>\<open>How the model is written.\<close> A struct is a record, an enum a datatype, a string the list of its scalar values, a map an
  association list where its order can be seen and a partial function where it cannot. A fallible pure function returns a sum
  whose left side is the error with its context chain; an operation with effects is an action \<open>('s, 'a) act\<close>, a function
  from a state to a result and the state, which keeps what was done before an error, as the code does. A value shared
  behind \<open>Arc<Mutex<_>>\<close> is an index into a store of cells. Fixed-width integers are bounded where the code
  saturates or checks them. What the program calls but does not define is an argument: the clock, uuids, the
  readers and printers of JSON and YAML, the texts of system errors, HTTP, processes, \<open>rmcp\<close>, the OpenAI client, the
  schemas of tools, the tracing library and \<open>clap\<close>.

  \<^bold>\<open>The theories and the code.\<close>

  \<^item> \<open>OJ_Prelude\<close>: strings, JSON values, errors, time, actions and the lemmas all components share.
  \<^item> \<open>OJ_Chat\<close> (\<open>context/\<close>), \<open>OJ_Model\<close> (\<open>model.rs\<close>, \<open>attachment_syntax.rs\<close>): messages of the model and of the channels,
    and the attachment markers in replies.
  \<^item> \<open>OJ_Thread\<close> (\<open>thread.rs\<close>): the aggregate of one conversation, its turns, tool events, toolsets and state. Its
    turn operations refine a small automaton (\<open>thread_refines_turn_protocol\<close>), and tool events reach the history of the
    turn in order. The locale \<open>toolset_store\<close> is the contract of the loaded toolsets.
  \<^item> \<open>OJ_Session_Store\<close> (\<open>session.rs\<close>, \<open>session/store\<close>), \<open>OJ_Sqlite_Store\<close> (\<open>store/sqlite.rs\<close>): the two stores. The
    locale \<open>session_store_laws\<close> states what every store promises of load, save and deduplication; it is
    interpreted for both. SQLite is tables, with the statements of the code as functions on them.
  \<^item> \<open>OJ_Session_Manager\<close> (\<open>session.rs\<close>): the cache with its cells and locks over either store, in the locale
    \<open>session_manager_laws\<close>: each operation as a whole, and what survives a restart.
  \<^item> \<open>OJ_Session_Tasks\<close> (\<open>session.rs\<close>, its use in \<open>router.rs\<close>): the same operations cut where the code waits for the store or for
    the lock of a thread, with the pieces of any number of tasks interleaved (\<open>task_step\<close>). It shows which revisions a
    cached cell and its row can have, and when a save under the lock meets a conflict: exactly when the router has saved the
    thread without the lock. The other theories use the operations as a whole.
  \<^item> \<open>OJ_Llm\<close>, \<open>OJ_Openai\<close> (\<open>llm.rs\<close>): requests and answers, serialization into the chat completion format, the
    choice of a provider and the mock provider.
  \<^item> \<open>OJ_Compact\<close> (\<open>compact/\<close>): the token budget and the replacement of a history by its summary.
  \<^item> \<open>OJ_Hook\<close> (\<open>agent/hook.rs\<close>), \<open>OJ_Tool_Registry\<close> (\<open>agent/tool/mod.rs\<close>): hooks, tool handlers, toolsets and
    the resolution of a name for a thread.
  \<^item> \<open>OJ_Agent_Loop\<close> (\<open>agent/agent_loop.rs\<close>) and its properties: \<open>OJ_Agent_Run\<close> (one finalized turn, nothing rolled
    back, events), \<open>OJ_Agent_Protocol\<close> (which histories the provider accepts), \<open>OJ_Agent_Termination\<close>. The locales
    \<open>action_preorder\<close> and \<open>loop_relation\<close> prove a preorder of states for every step of the loop once;
    each property interprets them on its own relation. \<open>commit_handler_laws\<close> is the contract of the commit handler and is
    interpreted for the handlers of the code.
  \<^item> \<open>OJ_Feature\<close> (\<open>agent/feature\<close>, \<open>agent/memory/feature.rs\<close>): the system messages of a new thread.
  \<^item> \<open>OJ_Worker\<close>, \<open>OJ_Worker_Faults\<close> (\<open>agent/worker.rs\<close>): the handling of one request with its events, and what happens
    to a thread whose turn was left open.
  \<^item> \<open>OJ_Command\<close> (\<open>command.rs\<close>), \<open>OJ_Router\<close> (\<open>router.rs\<close>), \<open>OJ_System\<close>: slash commands, the handlers of the router,
    and router and worker as a step relation (\<open>sys_step\<close>, \<open>sys_run\<close>) with the invariants of their queues.
  \<^item> \<open>OJ_Memory\<close>, \<open>OJ_Memory_Tools\<close> (\<open>agent/memory\<close>): the repository of documents and its toolset.
  \<^item> \<open>OJ_Tool_Args\<close>, \<open>OJ_File_Tools\<close>, \<open>OJ_Command_Session\<close> (\<open>agent/tool/mod.rs\<close>, \<open>read.rs\<close>, \<open>write.rs\<close>, \<open>edit.rs\<close>, \<open>shell.rs\<close>,
    \<open>command/\<close>): the built-in tools over a file system, and command sessions that outlive a call.
  \<^item> \<open>OJ_Skill\<close> (\<open>agent/tool/skill\<close>), \<open>OJ_Skill_Install\<close> (\<open>skill/mod.rs\<close>): discovery and loading of skills, installing and
    removing them.
  \<^item> \<open>OJ_Mcp\<close> (\<open>agent/tool/mcp\<close>): the manager of MCP servers, with runs (\<open>mcp_step\<close>, \<open>mcp_trace\<close>) in which a probe
    overlaps other operations.
  \<^item> \<open>OJ_Browser_Protocol\<close>, \<open>OJ_Browser\<close>, \<open>OJ_Browser_Tools\<close>, \<open>OJ_Browser_Mock\<close>, \<open>OJ_Browser_Safety\<close>
    (\<open>agent/tool/browser\<close>): messages, sidecar client, sessions of threads, tools, and the mock sidecar on which the locale
    \<open>sidecar_process\<close> is interpreted.
  \<^item> \<open>OJ_Feishu\<close>, \<open>OJ_Feishu_Safety\<close> (\<open>channels/feishu.rs\<close>, \<open>channels/mod.rs\<close>): the reader of the sidecar, the token cache
    and delivery, seen through a log of requests.
  \<^item> \<open>OJ_Config\<close> (\<open>config.rs\<close>): the sections with their defaults and validation, loading and the installed snapshot.
  \<^item> \<open>OJ_Toolbox\<close>, \<open>OJ_Toolbox_Safety\<close> (\<open>agent/tool/mod.rs\<close>): all tools over one state, the constructors and management
    interfaces of the registry. The locale \<open>component\<close> is a getter and a setter with their laws;
    \<open>separate_components\<close> relates two of them.
  \<^item> \<open>OJ_Startup\<close>, \<open>OJ_Startup_Safety\<close> (\<open>main.rs\<close>, \<open>cli.rs\<close>, \<open>cli_command/\<close>, \<open>logging.rs\<close>, \<open>agent/runtime.rs\<close>, the builder of
    \<open>agent/worker.rs\<close>): subcommands, logging, and the start of the server from its parts.

  \<^bold>\<open>What the theorems show.\<close>

  \<^item> Persistence: a save under the lock of a thread meets a revision conflict exactly when the router has just saved a copy
    of the thread without its lock; else cached and stored revisions agree. A committed turn is what a restarted manager loads, and of
    two writers with one revision the second is refused with the database unchanged. What is written to the memory reads back.
  \<^item> Flow: at most one request of a thread is under way, messages of a thread reach the agent in the order they came,
    and router and worker come to rest without new messages, unless a request never ends. The events of a request come in the order commit,
    finalize, complete.
  \<^item> Turns: a run of the loop that returns has finalized exactly one turn, keeps the history it started from and reports the
    events of that turn; with compaction off and while no error ends it early, its history is one a chat completion
    provider accepts.
  \<^item> Tools: with static toolsets, what is offered to the model can be called; registration gives each name one owner; the
    registry stays in step with MCP servers and skills.
  \<^item> Data at rest: keywords of active memory documents stay unique; a skill loads only files that lie below its directory when every
    symbolic link is followed; a browser
    session has a directory of its own; output of a command is delivered once and to its thread only.
  \<^item> Edges: bounds of a validated configuration and of a compacted history, when the compact tool is offered, use of the Feishu token, order of deliveries,
    reading of lines, and exactly when the server starts.
  \<^item> Faults that the code has are theorems too: a hook that fails leaves tool calls unanswered and the
    provider refuses the history, whatever is appended to it; a save of the router makes the worker's next one fail; a thread whose turn was left open, or whose toolset is gone, fails every
    later request; a server named like a tool stops every later change of the servers; \<open>/echo\<close> sends a file of the host.

  \<^bold>\<open>Bounds and non-termination.\<close>

  The loop of a turn has no bound in the code, so \<open>turn_loop\<close> is a \<open>partial_function (option)\<close> and \<open>None\<close> means that it
  never ends; \<open>run_terminates\<close> shows that it returns when the provider stops asking for tools, and the worker and the
  system handle requests whose run returns. Every other loop is a total function: over the list it consumes, over the
  attempts that are left (a probe of an MCP server has \<open>STREAMABLE_HTTP_PROBE_RETRIES\<close> attempts over HTTP and one over
  standard input and output), or over the events that a call waits for, which are an argument. No definition uses fuel that could run out
  before the code would stop.

  \<^bold>\<open>Not modelled.\<close>

  \<^item> Concurrency is modelled between router and worker, between the probes of MCP servers and other operations, and
    between the tasks that use the session manager (\<open>OJ_Session_Tasks\<close>). In \<open>OJ_System\<close> a request is one step of the worker, and
    an operation on the session manager, a browser session, a command session, an MCP server or the Feishu channel is one
    step, as under its lock. A bounded channel never makes its sender wait.
  \<^item> The file system has directories, UTF-8 files and symbolic links, but no permissions or concurrent writers; a write of a
    memory document that fails is taken to leave the files as they were. In the program all tools act on one file system.
    Here the file and shell tools and the skills share one, the memory repository and the browser sessions have their own,
    and commands of a command session change no files: nothing is claimed about which files a tool can touch.
  \<^item> The order of a \<open>HashMap\<close> is the order of insertion. Floats are rationals or opaque. Log output is left
    out, except for the set-up of logging.
  \<^item> The plumbing of pipes and pseudo terminals (\<open>command/process.rs\<close>), the Windows shells, the wait for a shutdown
    signal, the placeholder \<open>agent/sandbox.rs\<close>, the HTTP and standard input servers of \<open>mcp/demo.rs\<close>, the builders and
    probes that only tests use, and the manual probes under \<open>src/scripts\<close>.
\<close>

end
